(* ===== verification/Prelude.thy ===== *)
theory Prelude
  imports Main "HOL-Library.Word" "HOL-Library.Signed_Division"
begin

text \<open>
  Shared vocabulary of the development: the machine integers of the 32-bit target, the
  \<^verbatim>\<open>std::vector\<close> operations the sources use, the enumerations of
  \<^verbatim>\<open>gpu/command_buffer/common/constants.h\<close>, and the collections of rewrite rules the
  component theories add to.

  \<^item> \<open>u32\<close>, \<open>u32_add\<close>, \<open>u32_sub\<close>, \<open>u32_mul\<close>: unsigned 32-bit arithmetic on \<^typ>\<open>nat\<close>
    with the reduction modulo \<open>2^32\<close> written out; \<open>i32\<close> is the two's complement reading of
    an integer, the value an \<^verbatim>\<open>int32\<close> holds after wrap-around.
  \<^item> \<open>erase_at\<close>, \<open>insert_at\<close>: \<^verbatim>\<open>vector::erase(begin() + i)\<close> and
    \<^verbatim>\<open>vector::insert(begin() + i, x)\<close>.
\<close>

named_theorems u32_simps \<open>unsigned 32-bit arithmetic without wrap-around\<close>
named_theorems vector_simps \<open>vector operations at a known position\<close>

section \<open>Machine integers\<close>

definition u32 :: "nat \<Rightarrow> nat" where
  "u32 n = n mod 2 ^ 32"

definition u32_add :: "nat \<Rightarrow> nat \<Rightarrow> nat" where
  "u32_add a b = u32 (a + b)"

definition u32_sub :: "nat \<Rightarrow> nat \<Rightarrow> nat" where
  "u32_sub a b = u32 (a + 2 ^ 32 - u32 b)"

definition u32_mul :: "nat \<Rightarrow> nat \<Rightarrow> nat" where
  "u32_mul a b = u32 (a * b)"

definition i32 :: "int \<Rightarrow> int" where
  "i32 x = (x + 2 ^ 31) mod 2 ^ 32 - 2 ^ 31"

lemma u32_less [simp]: "u32 n < 4294967296"
  by (simp add: u32_def)

lemma u32_id [simp]: "n < 4294967296 \<Longrightarrow> u32 n = n"
  by (simp add: u32_def)

lemma u32_add_exact [u32_simps]: "a + b < 4294967296 \<Longrightarrow> u32_add a b = a + b"
  by (simp add: u32_add_def)

lemma u32_sub_exact [u32_simps]:
  assumes "b \<le> a" "a < 4294967296"
  shows "u32_sub a b = a - b"
proof -
  have eq: "a + 4294967296 - b = (a - b) + 4294967296" using assms(1) by linarith
  have "u32_sub a b = (a + 4294967296 - b) mod 4294967296"
    using assms by (simp add: u32_sub_def u32_def)
  also have "\<dots> = (a - b) mod 4294967296" by (simp only: eq mod_add_self2)
  also have "\<dots> = a - b" using assms by (intro mod_less) linarith
  finally show ?thesis .
qed

lemma u32_mul_exact [u32_simps]: "a * b < 4294967296 \<Longrightarrow> u32_mul a b = a * b"
  by (simp add: u32_mul_def)

lemma u32_add_less [simp]: "u32_add a b < 4294967296"
  by (simp add: u32_add_def)

text \<open>The idiom that detects a wrapped sum: \<^verbatim>\<open>end < offset\<close>.\<close>

lemma u32_add_check:
  assumes "a < 4294967296" "b < 4294967296"
  shows "a \<le> u32_add a b \<longleftrightarrow> a + b < 4294967296"
proof (cases "a + b < 4294967296")
  case True
  then show ?thesis by (simp add: u32_add_exact)
next
  case False
  then have "u32_add a b = a + b - 4294967296"
    using assms by (simp add: u32_add_def u32_def mod_if)
  then show ?thesis using False assms by simp
qed

lemma unat_less_32 [simp]: "unat (w :: 32 word) < 4294967296"
  using unsigned_less [of w] by simp

lemma i32_range: "- (2 ^ 31) \<le> i32 x \<and> i32 x < 2 ^ 31"
proof -
  have "0 \<le> (x + 2 ^ 31) mod 2 ^ 32" "(x + 2 ^ 31) mod 2 ^ 32 < (2::int) ^ 32"
    by simp_all
  then show ?thesis by (simp add: i32_def)
qed

lemma i32_id [simp]: "- 2147483648 \<le> x \<Longrightarrow> x < 2147483648 \<Longrightarrow> i32 x = x"
  by (simp add: i32_def mod_pos_pos_trivial)

lemma i32_over: "2147483648 \<le> x \<Longrightarrow> x < 6442450944 \<Longrightarrow> i32 x = x - 4294967296"
proof -
  assume x: "2147483648 \<le> x" "x < 6442450944"
  have "(x + 2147483648) mod 4294967296 = (x - 2147483648) mod 4294967296"
    using mod_add_self2 [of "x - 2147483648" 4294967296] by (simp add: add.commute)
  also have "\<dots> = x - 2147483648" using x by (intro mod_pos_pos_trivial) simp_all
  finally show ?thesis by (simp add: i32_def)
qed

text \<open>C's \<^verbatim>\<open>%\<close> and \<^verbatim>\<open>/\<close> on non-negative operands.\<close>

lemma smod_nonneg: "0 \<le> a \<Longrightarrow> 0 \<le> b \<Longrightarrow> a smod b = a mod (b :: int)"
  by (cases "a = 0") (simp_all add: signed_modulo_int_def)

section \<open>Vectors\<close>

definition erase_at :: "nat \<Rightarrow> 'a list \<Rightarrow> 'a list" where
  "erase_at i xs = take i xs @ drop (Suc i) xs"

definition insert_at :: "nat \<Rightarrow> 'a \<Rightarrow> 'a list \<Rightarrow> 'a list" where
  "insert_at i x xs = take i xs @ x # drop i xs"

lemma erase_at_mid [simp, vector_simps]: "erase_at (length xs) (xs @ y # ys) = xs @ ys"
  by (simp add: erase_at_def)

lemma erase_at_next [simp, vector_simps]:
  "erase_at (Suc (length xs)) (xs @ y # z # ys) = xs @ y # ys"
  by (simp add: erase_at_def)

lemma insert_at_next [simp, vector_simps]:
  "insert_at (Suc (length xs)) z (xs @ y # ys) = xs @ y # z # ys"
  by (simp add: insert_at_def)

lemma nth_next [simp, vector_simps]: "(xs @ y # z # ys) ! Suc (length xs) = z"
  by (simp add: nth_append)

lemma length_erase_at [simp]: "i < length xs \<Longrightarrow> length (erase_at i xs) = length xs - 1"
  by (simp add: erase_at_def)

lemma list_at:
  assumes "i < length xs"
  obtains ys zs where "xs = ys @ xs ! i # zs" "length ys = i"
  using assms id_take_nth_drop [OF assms] by (metis length_take min.absorb4)

section \<open>Error codes\<close>

text \<open>The enumerations of \<^verbatim>\<open>constants.h\<close>.\<close>

datatype Error = kNoError | kInvalidSize | kOutOfBounds | kUnknownCommand
  | kInvalidArguments | kLostContext | kGenericError

datatype ContextLostReason = kGuilty | kInnocent | kUnknown

definition IsError :: "Error \<Rightarrow> bool" where
  "IsError e \<longleftrightarrow> e \<noteq> kNoError"

lemma IsError_simps [simp]:
  "\<not> IsError kNoError" "IsError kInvalidSize" "IsError kOutOfBounds" "IsError kUnknownCommand"
  "IsError kInvalidArguments" "IsError kLostContext" "IsError kGenericError"
  by (simp_all add: IsError_def)

definition kInvalidSharedMemoryId :: int where
  "kInvalidSharedMemoryId = - 1"

end
