(* ===== verification/Id_Allocator.thy ===== *)
theory Id_Allocator
  imports Prelude
begin

text \<open>
  Resource ids: \<^verbatim>\<open>common/id_allocator.{h,cc}\<close>, the id handlers of
  \<^verbatim>\<open>client/gles2_implementation.cc\<close> and the shared-id functions of
  \<^verbatim>\<open>service/gles2_cmd_decoder.cc\<close>. Ids are 32-bit words; a \<^verbatim>\<open>std::set\<close> of ids is a set, its
  iteration order the sorted list of its elements. The virtual interface of the allocators is
  a record of functions, its contract the locale \<open>id_interface\<close>.
\<close>

type_synonym ResourceId = "32 word"

definition kInvalidResource :: ResourceId where
  "kInvalidResource = 0"

record 's IdAllocatorInterface =
  if_AllocateID :: "'s \<Rightarrow> ResourceId \<times> 's"
  if_AllocateIDAtOrAbove :: "ResourceId \<Rightarrow> 's \<Rightarrow> ResourceId \<times> 's"
  if_MarkAsUsed :: "ResourceId \<Rightarrow> 's \<Rightarrow> bool \<times> 's"
  if_FreeID :: "ResourceId \<Rightarrow> 's \<Rightarrow> 's"
  if_InUse :: "ResourceId \<Rightarrow> 's \<Rightarrow> bool"

section \<open>IdAllocator\<close>

record IdAllocator =
  used_ids :: "ResourceId set"
  free_ids :: "ResourceId set"

definition IdAllocator_new :: IdAllocator where
  "IdAllocator_new = \<lparr>used_ids = {}, free_ids = {}\<rparr>"

definition LastUsedId :: "IdAllocator \<Rightarrow> ResourceId" where
  "LastUsedId a = (if used_ids a = {} then 0 else Max (used_ids a))"

fun first_unused_loop :: "ResourceId \<Rightarrow> ResourceId list \<Rightarrow> ResourceId" where
  "first_unused_loop i [] = i"
| "first_unused_loop i (x # xs) = (if x \<noteq> i then i else first_unused_loop (i + 1) xs)"

definition FindFirstUnusedId :: "IdAllocator \<Rightarrow> ResourceId" where
  "FindFirstUnusedId a = first_unused_loop 1 (sorted_list_of_set (used_ids a))"

definition IdAllocator_MarkAsUsed :: "ResourceId \<Rightarrow> IdAllocator \<Rightarrow> bool \<times> IdAllocator" where
  "IdAllocator_MarkAsUsed i a =
     (i \<notin> used_ids a, \<lparr>used_ids = insert i (used_ids a), free_ids = free_ids a - {i}\<rparr>)"

definition IdAllocator_AllocateID :: "IdAllocator \<Rightarrow> ResourceId \<times> IdAllocator" where
  "IdAllocator_AllocateID a =
     (let i = (if free_ids a \<noteq> {} then Min (free_ids a)
               else (let j = LastUsedId a + 1 in if j = 0 then FindFirstUnusedId a else j))
      in (i, snd (IdAllocator_MarkAsUsed i a)))"

definition IdAllocator_AllocateIDAtOrAbove :: "ResourceId \<Rightarrow> IdAllocator \<Rightarrow> ResourceId \<times> IdAllocator" where
  "IdAllocator_AllocateIDAtOrAbove desired_id a =
     (let above = {x \<in> free_ids a. desired_id \<le> x};
          i = (if above \<noteq> {} then Min above
               else if LastUsedId a < desired_id then desired_id
               else (let j = LastUsedId a + 1 in if j = 0 then FindFirstUnusedId a else j))
      in (i, snd (IdAllocator_MarkAsUsed i a)))"

definition IdAllocator_FreeID :: "ResourceId \<Rightarrow> IdAllocator \<Rightarrow> IdAllocator" where
  "IdAllocator_FreeID i a =
     (if i \<noteq> 0 then \<lparr>used_ids = used_ids a - {i}, free_ids = insert i (free_ids a)\<rparr> else a)"

definition IdAllocator_InUse :: "ResourceId \<Rightarrow> IdAllocator \<Rightarrow> bool" where
  "IdAllocator_InUse i a \<longleftrightarrow> i = kInvalidResource \<or> i \<in> used_ids a"

definition IdAllocator_vtable :: "IdAllocator IdAllocatorInterface" where
  "IdAllocator_vtable = \<lparr>if_AllocateID = IdAllocator_AllocateID,
     if_AllocateIDAtOrAbove = IdAllocator_AllocateIDAtOrAbove, if_MarkAsUsed = IdAllocator_MarkAsUsed,
     if_FreeID = IdAllocator_FreeID, if_InUse = IdAllocator_InUse\<rparr>"

section \<open>NonReusedIdAllocator\<close>

text \<open>Its state is the \<^verbatim>\<open>last_id_\<close> member.\<close>

type_synonym NonReusedIdAllocator = ResourceId

definition NonReusedIdAllocator_new :: NonReusedIdAllocator where
  "NonReusedIdAllocator_new = 0"

definition NonReusedIdAllocator_AllocateID ::
    "NonReusedIdAllocator \<Rightarrow> ResourceId \<times> NonReusedIdAllocator" where
  "NonReusedIdAllocator_AllocateID last_id = (last_id + 1, last_id + 1)"

definition NonReusedIdAllocator_AllocateIDAtOrAbove ::
    "ResourceId \<Rightarrow> NonReusedIdAllocator \<Rightarrow> ResourceId \<times> NonReusedIdAllocator" where
  "NonReusedIdAllocator_AllocateIDAtOrAbove desired_id last_id =
     (let last_id' = (if desired_id > last_id then desired_id else last_id)
      in (last_id' + 1, last_id' + 1))"

definition NonReusedIdAllocator_MarkAsUsed ::
    "ResourceId \<Rightarrow> NonReusedIdAllocator \<Rightarrow> bool \<times> NonReusedIdAllocator" where
  "NonReusedIdAllocator_MarkAsUsed i last_id = (False, last_id)"

definition NonReusedIdAllocator_FreeID ::
    "ResourceId \<Rightarrow> NonReusedIdAllocator \<Rightarrow> NonReusedIdAllocator" where
  "NonReusedIdAllocator_FreeID i last_id = last_id"

definition NonReusedIdAllocator_InUse :: "ResourceId \<Rightarrow> NonReusedIdAllocator \<Rightarrow> bool" where
  "NonReusedIdAllocator_InUse i last_id = False"

definition NonReusedIdAllocator_vtable :: "NonReusedIdAllocator IdAllocatorInterface" where
  "NonReusedIdAllocator_vtable = \<lparr>if_AllocateID = NonReusedIdAllocator_AllocateID,
     if_AllocateIDAtOrAbove = NonReusedIdAllocator_AllocateIDAtOrAbove,
     if_MarkAsUsed = NonReusedIdAllocator_MarkAsUsed, if_FreeID = NonReusedIdAllocator_FreeID,
     if_InUse = NonReusedIdAllocator_InUse\<rparr>"

section \<open>Loops over an allocator\<close>

fun alloc_ids_loop :: "'s IdAllocatorInterface \<Rightarrow> nat \<Rightarrow> 's \<Rightarrow> ResourceId list \<times> 's" where
  "alloc_ids_loop ops 0 s = ([], s)"
| "alloc_ids_loop ops (Suc n) s =
     (case if_AllocateID ops s of (i, s') \<Rightarrow>
        (case alloc_ids_loop ops n s' of (ids, s'') \<Rightarrow> (i # ids, s'')))"

fun alloc_ids_above_loop ::
    "'s IdAllocatorInterface \<Rightarrow> ResourceId \<Rightarrow> nat \<Rightarrow> 's \<Rightarrow> ResourceId list \<times> 's" where
  "alloc_ids_above_loop ops id_offset 0 s = ([], s)"
| "alloc_ids_above_loop ops id_offset (Suc n) s =
     (case if_AllocateIDAtOrAbove ops id_offset s of (i, s') \<Rightarrow>
        (case alloc_ids_above_loop ops (i + 1) n s' of (ids, s'') \<Rightarrow> (i # ids, s'')))"

text \<open>\<^verbatim>\<open>GLES2DecoderImpl::Do*SharedIdsCHROMIUM\<close> on the allocator of the namespace.\<close>

definition DoGenSharedIdsCHROMIUM ::
    "'s IdAllocatorInterface \<Rightarrow> ResourceId \<Rightarrow> nat \<Rightarrow> 's \<Rightarrow> ResourceId list \<times> 's" where
  "DoGenSharedIdsCHROMIUM ops id_offset n s =
     (if id_offset = 0 then alloc_ids_loop ops n s else alloc_ids_above_loop ops id_offset n s)"

fun free_ids_loop :: "'s IdAllocatorInterface \<Rightarrow> ResourceId list \<Rightarrow> 's \<Rightarrow> 's" where
  "free_ids_loop ops [] s = s"
| "free_ids_loop ops (i # ids) s = free_ids_loop ops ids (if_FreeID ops i s)"

definition DoDeleteSharedIdsCHROMIUM ::
    "'s IdAllocatorInterface \<Rightarrow> ResourceId list \<Rightarrow> 's \<Rightarrow> 's" where
  "DoDeleteSharedIdsCHROMIUM ops ids s = free_ids_loop ops ids s"

text \<open>
  The loop of \<^verbatim>\<open>DoRegisterSharedIdsCHROMIUM\<close>; \<open>marked\<close> are the ids before the current one. The
  first component is false where the code calls \<^verbatim>\<open>SetGLError\<close>.
\<close>

fun register_ids_loop ::
    "'s IdAllocatorInterface \<Rightarrow> ResourceId list \<Rightarrow> ResourceId list \<Rightarrow> 's \<Rightarrow> bool \<times> 's" where
  "register_ids_loop ops marked [] s = (True, s)"
| "register_ids_loop ops marked (i # ids) s =
     (case if_MarkAsUsed ops i s of (fresh, s') \<Rightarrow>
        if \<not> fresh then (False, free_ids_loop ops marked s')
        else register_ids_loop ops (marked @ [i]) ids s')"

definition DoRegisterSharedIdsCHROMIUM ::
    "'s IdAllocatorInterface \<Rightarrow> ResourceId list \<Rightarrow> 's \<Rightarrow> bool \<times> 's" where
  "DoRegisterSharedIdsCHROMIUM ops ids s = register_ids_loop ops [] ids s"

section \<open>Client id handlers\<close>

definition NonSharedIdHandler_MakeIds ::
    "ResourceId \<Rightarrow> nat \<Rightarrow> IdAllocator \<Rightarrow> ResourceId list \<times> IdAllocator" where
  "NonSharedIdHandler_MakeIds id_offset n a =
     (if id_offset = 0 then alloc_ids_loop IdAllocator_vtable n a
      else alloc_ids_above_loop IdAllocator_vtable id_offset n a)"

definition NonSharedIdHandler_FreeIds :: "ResourceId list \<Rightarrow> IdAllocator \<Rightarrow> bool \<times> IdAllocator" where
  "NonSharedIdHandler_FreeIds ids a = (True, free_ids_loop IdAllocator_vtable ids a)"

definition NonSharedIdHandler_MarkAsUsedForBind ::
    "ResourceId \<Rightarrow> IdAllocator \<Rightarrow> bool \<times> IdAllocator" where
  "NonSharedIdHandler_MarkAsUsedForBind i a =
     (if i = 0 then (True, a) else IdAllocator_MarkAsUsed i a)"

fun NonSharedNonReusedIdHandler_MakeIds ::
    "ResourceId \<Rightarrow> nat \<Rightarrow> ResourceId \<Rightarrow> ResourceId list \<times> ResourceId" where
  "NonSharedNonReusedIdHandler_MakeIds id_offset 0 last_id = ([], last_id)"
| "NonSharedNonReusedIdHandler_MakeIds id_offset (Suc n) last_id =
     (case NonSharedNonReusedIdHandler_MakeIds id_offset n (last_id + 1) of
        (ids, last_id') \<Rightarrow> ((last_id + 1 + id_offset) # ids, last_id'))"

definition NonSharedNonReusedIdHandler_FreeIds :: "ResourceId list \<Rightarrow> ResourceId \<Rightarrow> bool \<times> ResourceId" where
  "NonSharedNonReusedIdHandler_FreeIds ids last_id = (True, last_id)"

definition NonSharedNonReusedIdHandler_MarkAsUsedForBind :: "ResourceId \<Rightarrow> bool" where
  "NonSharedNonReusedIdHandler_MarkAsUsedForBind i = False"

text \<open>
  \<^verbatim>\<open>SharedIdHandler\<close>: both operations go to the service (\<open>gen\<close> and \<open>del\<close> are the client
  implementation's \<^verbatim>\<open>GenSharedIdsCHROMIUM\<close> and \<^verbatim>\<open>DeleteSharedIdsCHROMIUM\<close> of its namespace).
\<close>

definition SharedIdHandler_MakeIds ::
    "(ResourceId \<Rightarrow> nat \<Rightarrow> 'w \<Rightarrow> ResourceId list \<times> 'w) \<Rightarrow> ResourceId \<Rightarrow> nat \<Rightarrow> 'w \<Rightarrow> ResourceId list \<times> 'w" where
  "SharedIdHandler_MakeIds gen id_offset n w = gen id_offset n w"

definition SharedIdHandler_FreeIds ::
    "(ResourceId list \<Rightarrow> 'w \<Rightarrow> 'w) \<Rightarrow> ResourceId list \<Rightarrow> 'w \<Rightarrow> bool \<times> 'w" where
  "SharedIdHandler_FreeIds del ids w = (True, del ids w)"

definition SharedIdHandler_MarkAsUsedForBind :: "ResourceId \<Rightarrow> bool" where
  "SharedIdHandler_MarkAsUsedForBind i = True"

record StrictSharedIdHandler =
  strict_used_ids :: "ResourceId set"
  strict_free_ids :: "ResourceId list"

definition kNumIdsToGet :: nat where
  "kNumIdsToGet = 2048"

text \<open>\<^verbatim>\<open>GetId\<close>; \<open>None\<close> is the front of an empty queue, which is undefined in the source.\<close>

definition StrictSharedIdHandler_GetId ::
    "(ResourceId \<Rightarrow> nat \<Rightarrow> 'w \<Rightarrow> ResourceId list \<times> 'w) \<Rightarrow> ResourceId \<Rightarrow> StrictSharedIdHandler \<Rightarrow> 'w \<Rightarrow>
     (ResourceId \<times> StrictSharedIdHandler \<times> 'w) option" where
  "StrictSharedIdHandler_GetId gen id_offset s w =
     (let (queue, w') =
        (if strict_free_ids s = [] then
           (case gen id_offset kNumIdsToGet w of (ids, w') \<Rightarrow> (strict_free_ids s @ ids, w'))
         else (strict_free_ids s, w))
      in case queue of
           [] \<Rightarrow> None
         | i # rest \<Rightarrow> Some (i, \<lparr>strict_used_ids = insert i (strict_used_ids s), strict_free_ids = rest\<rparr>, w'))"

fun StrictSharedIdHandler_MakeIds ::
    "(ResourceId \<Rightarrow> nat \<Rightarrow> 'w \<Rightarrow> ResourceId list \<times> 'w) \<Rightarrow> ResourceId \<Rightarrow> nat \<Rightarrow> StrictSharedIdHandler \<Rightarrow> 'w \<Rightarrow>
     (ResourceId list \<times> StrictSharedIdHandler \<times> 'w) option" where
  "StrictSharedIdHandler_MakeIds gen id_offset 0 s w = Some ([], s, w)"
| "StrictSharedIdHandler_MakeIds gen id_offset (Suc n) s w =
     (case StrictSharedIdHandler_GetId gen id_offset s w of
        None \<Rightarrow> None
      | Some (i, s', w') \<Rightarrow>
          (case StrictSharedIdHandler_MakeIds gen id_offset n s' w' of
             None \<Rightarrow> None
           | Some (ids, s'', w'') \<Rightarrow> Some (i # ids, s'', w'')))"

fun strict_all_used :: "ResourceId set \<Rightarrow> ResourceId list \<Rightarrow> bool" where
  "strict_all_used used [] = True"
| "strict_all_used used (i # ids) =
     (if i \<noteq> 0 \<and> i \<notin> used then False else strict_all_used used ids)"

fun strict_free_loop :: "ResourceId list \<Rightarrow> StrictSharedIdHandler \<Rightarrow> StrictSharedIdHandler" where
  "strict_free_loop [] s = s"
| "strict_free_loop (i # ids) s = strict_free_loop ids
     (if i \<noteq> 0 \<and> i \<in> strict_used_ids s
      then \<lparr>strict_used_ids = strict_used_ids s - {i}, strict_free_ids = strict_free_ids s @ [i]\<rparr>
      else s)"

definition StrictSharedIdHandler_FreeIds ::
    "ResourceId list \<Rightarrow> StrictSharedIdHandler \<Rightarrow> bool \<times> StrictSharedIdHandler" where
  "StrictSharedIdHandler_FreeIds ids s =
     (if \<not> strict_all_used (strict_used_ids s) ids then (False, s) else (True, strict_free_loop ids s))"

definition StrictSharedIdHandler_FreeId :: "ResourceId \<Rightarrow> StrictSharedIdHandler \<Rightarrow> bool \<times> StrictSharedIdHandler" where
  "StrictSharedIdHandler_FreeId i s =
     (if i \<notin> strict_used_ids s then (False, s)
      else (True, \<lparr>strict_used_ids = strict_used_ids s - {i}, strict_free_ids = strict_free_ids s @ [i]\<rparr>))"

definition StrictSharedIdHandler_MarkAsUsedForBind :: "ResourceId \<Rightarrow> bool" where
  "StrictSharedIdHandler_MarkAsUsedForBind i = True"

section \<open>Fresh ids\<close>

definition max_ids :: nat where
  "max_ids = 4294967295"

lemma word_succ_less: "x + 1 \<noteq> 0 \<Longrightarrow> x < x + 1" for x :: ResourceId
  using unatSuc [of x] by (simp add: word_less_nat_alt add.commute)

lemma word_one_le: "1 \<le> x \<longleftrightarrow> x \<noteq> 0" for x :: ResourceId
  using unat_gt_0 [of x] by (simp add: word_le_nat_alt Suc_le_eq)

lemma word_top: "x + 1 = 0 \<Longrightarrow> y \<le> x" for x :: ResourceId
  by (simp add: add_eq_0_iff2)

lemma first_unused_loop_spec:
  "sorted_wrt (<) xs \<Longrightarrow> \<forall>x\<in>set xs. i \<le> x \<Longrightarrow> i \<noteq> 0 \<Longrightarrow>
   first_unused_loop i xs \<notin> set xs \<and> (first_unused_loop i xs = 0 \<or> i \<le> first_unused_loop i xs) \<and>
   (first_unused_loop i xs = 0 \<longrightarrow> {i..} \<subseteq> set xs)"
proof (induction xs arbitrary: i)
  case (Cons x xs)
  have gt: "\<forall>y\<in>set xs. x < y" and sorted: "sorted_wrt (<) xs" using Cons.prems(1) by simp_all
  consider "x \<noteq> i" | "x = i" "i + 1 = 0" | "x = i" "i + 1 \<noteq> 0" by blast
  then show ?case
  proof cases
    case 1
    with Cons.prems(2) have "i < x" by (auto simp: order.strict_iff_order)
    with gt have "i \<notin> set xs" by (meson order.asym order.strict_trans)
    with 1 Cons.prems(3) show ?thesis by simp
  next
    case 2
    then have "xs = []" using gt word_top [of i] by (cases xs) (auto simp: not_le [symmetric])
    moreover have "{i..} \<subseteq> {i}" using word_top [OF 2(2)] by (auto intro: antisym)
    ultimately show ?thesis using 2 Cons.prems(3) by simp
  next
    case 3
    let ?r = "first_unused_loop (i + 1) xs"
    have le: "\<forall>y\<in>set xs. i + 1 \<le> y" using gt 3 by (simp add: inc_le)
    note ih = Cons.IH [OF sorted le 3(2)]
    have "i < ?r \<or> ?r = 0" using ih word_succ_less [OF 3(2)] by (meson order.strict_trans2)
    moreover have "{i..} \<subseteq> insert i {i + 1..}" by (auto intro!: inc_le simp: order.strict_iff_order)
    ultimately show ?thesis using ih 3(1) Cons.prems(3) by auto
  qed
qed simp

lemma card_nonzero_ids: "card {1::ResourceId..} = max_ids"
proof -
  have "{1::ResourceId..} = UNIV - {0}" by (auto simp: word_one_le)
  then show ?thesis by (simp add: card_Diff_subset card_word max_ids_def)
qed

definition id_inv :: "IdAllocator \<Rightarrow> bool" where
  "id_inv a \<longleftrightarrow> used_ids a \<inter> free_ids a = {} \<and> 0 \<notin> used_ids a \<and> 0 \<notin> free_ids a"

definition next_id :: "IdAllocator \<Rightarrow> ResourceId" where
  "next_id a = (if LastUsedId a + 1 = 0 then FindFirstUnusedId a else LastUsedId a + 1)"

lemma FindFirstUnusedId_fresh:
  assumes "id_inv a" "card (used_ids a) < max_ids"
  shows "FindFirstUnusedId a \<notin> used_ids a" "FindFirstUnusedId a \<noteq> 0"
proof -
  have ge: "\<forall>x\<in>used_ids a. 1 \<le> x"
    using assms(1) by (auto simp: id_inv_def word_one_le)
  have spec: "FindFirstUnusedId a \<notin> used_ids a \<and> (FindFirstUnusedId a = 0 \<longrightarrow> {1..} \<subseteq> used_ids a)"
    using first_unused_loop_spec [of "sorted_list_of_set (used_ids a)" 1] ge
    by (simp add: FindFirstUnusedId_def)
  then show "FindFirstUnusedId a \<notin> used_ids a" by simp
  show "FindFirstUnusedId a \<noteq> 0"
  proof
    assume "FindFirstUnusedId a = 0"
    then have "card {1::ResourceId..} \<le> card (used_ids a)" using spec by (simp add: card_mono)
    then show False using assms(2) by (simp add: card_nonzero_ids)
  qed
qed

lemma LastUsedId_succ_fresh:
  assumes "LastUsedId a + 1 \<noteq> 0"
  shows "LastUsedId a + 1 \<notin> used_ids a"
proof
  assume m: "LastUsedId a + 1 \<in> used_ids a"
  then have "LastUsedId a + 1 \<le> Max (used_ids a)" "LastUsedId a = Max (used_ids a)"
    by (auto simp: LastUsedId_def [of a])
  with word_succ_less [OF assms] show False by simp
qed

lemma next_id_fresh:
  assumes "id_inv a" "card (used_ids a) < max_ids"
  shows "next_id a \<notin> used_ids a" "next_id a \<noteq> 0"
  using FindFirstUnusedId_fresh [OF assms] LastUsedId_succ_fresh [of a] by (simp_all add: next_id_def)

lemma mark_inv: "id_inv a \<Longrightarrow> i \<noteq> 0 \<Longrightarrow> id_inv (snd (IdAllocator_MarkAsUsed i a))"
  by (auto simp: id_inv_def IdAllocator_MarkAsUsed_def)

lemma mark_used [simp]: "used_ids (snd (IdAllocator_MarkAsUsed i a)) = insert i (used_ids a)"
  by (simp add: IdAllocator_MarkAsUsed_def)

lemma free_fresh: "id_inv a \<Longrightarrow> i \<in> free_ids a \<Longrightarrow> i \<notin> used_ids a \<and> i \<noteq> 0"
  by (auto simp: id_inv_def)

lemma AllocateID_fresh:
  assumes "id_inv a" "card (used_ids a) < max_ids" "IdAllocator_AllocateID a = (i, a')"
  shows "i \<notin> used_ids a" "i \<noteq> 0" "used_ids a' = insert i (used_ids a)" "id_inv a'"
proof -
  have i: "i = (if free_ids a \<noteq> {} then Min (free_ids a) else next_id a)"
    and a': "a' = snd (IdAllocator_MarkAsUsed i a)"
    using assms(3) unfolding IdAllocator_AllocateID_def next_id_def Let_def by auto
  show f: "i \<notin> used_ids a" and z: "i \<noteq> 0"
    using next_id_fresh [OF assms(1,2)] free_fresh [OF assms(1), of "Min (free_ids a)"] i by auto
  show "used_ids a' = insert i (used_ids a)" "id_inv a'"
    using a' mark_inv [OF assms(1) z] by simp_all
qed

lemma AllocateIDAtOrAbove_fresh:
  assumes "id_inv a" "card (used_ids a) < max_ids"
    "IdAllocator_AllocateIDAtOrAbove d a = (i, a')"
  shows "i \<notin> used_ids a" "i \<noteq> 0" "used_ids a' = insert i (used_ids a)" "id_inv a'"
    "LastUsedId a + 1 \<noteq> 0 \<Longrightarrow> d \<le> i"
proof -
  let ?above = "{x \<in> free_ids a. d \<le> x}"
  have i: "i = (if ?above \<noteq> {} then Min ?above else if LastUsedId a < d then d else next_id a)"
    and a': "a' = snd (IdAllocator_MarkAsUsed i a)"
    using assms(3) unfolding IdAllocator_AllocateIDAtOrAbove_def next_id_def Let_def by auto
  have m: "Min ?above \<in> ?above" if "?above \<noteq> {}" using that by (intro Min_in) simp_all
  have d: "d \<notin> used_ids a \<and> d \<noteq> 0" if "LastUsedId a < d"
    using that by (auto simp: LastUsedId_def not_less [symmetric] split: if_splits)
  show f: "i \<notin> used_ids a" and z: "i \<noteq> 0"
    using i m d next_id_fresh [OF assms(1,2)] free_fresh [OF assms(1), of "Min ?above"]
    by (simp_all split: if_splits)
  show "used_ids a' = insert i (used_ids a)" "id_inv a'"
    using a' mark_inv [OF assms(1) z] by simp_all
  assume "LastUsedId a + 1 \<noteq> 0"
  then have "\<not> LastUsedId a < d \<Longrightarrow> d \<le> next_id a"
    using word_succ_less [of "LastUsedId a"] by (simp add: next_id_def)
  then show "d \<le> i" using i m by auto
qed

section \<open>The contract of an allocator\<close>

text \<open>
  \<open>live s\<close> are the ids that are in use. An allocation returns an id that is not, and the id
  becomes live; freeing an id takes at most that id out.
\<close>

locale id_interface =
  fixes ops :: "'s IdAllocatorInterface"
    and live :: "'s \<Rightarrow> ResourceId set"
    and inv :: "'s \<Rightarrow> bool"
  assumes alloc_law: "inv s \<Longrightarrow> card (live s) < max_ids \<Longrightarrow> if_AllocateID ops s = (i, s') \<Longrightarrow>
      i \<noteq> 0 \<and> i \<notin> live s \<and> live s' = insert i (live s) \<and> inv s'"
    and free_law: "inv s \<Longrightarrow> inv (if_FreeID ops i s) \<and> live (if_FreeID ops i s) \<subseteq> live s \<and>
      live s - {i} \<subseteq> live (if_FreeID ops i s)"
begin

lemma alloc_ids_loop_fresh:
  "inv s \<Longrightarrow> card (live s) + n \<le> max_ids \<Longrightarrow> alloc_ids_loop ops n s = (ids, s') \<Longrightarrow>
   length ids = n \<and> distinct ids \<and> 0 \<notin> set ids \<and> set ids \<inter> live s = {} \<and>
   live s' = live s \<union> set ids \<and> inv s'"
proof (induction n arbitrary: s ids s')
  case (Suc n)
  obtain i s1 where i: "if_AllocateID ops s = (i, s1)" by fastforce
  obtain ids1 where r: "alloc_ids_loop ops n s1 = (ids1, s')" and ids: "ids = i # ids1"
    using Suc.prems(3) i by (auto split: prod.splits)
  have a: "i \<noteq> 0 \<and> i \<notin> live s \<and> live s1 = insert i (live s) \<and> inv s1"
    using alloc_law [OF Suc.prems(1) _ i] Suc.prems(2) by simp
  then have "card (live s1) + n \<le> max_ids" using Suc.prems(2) by simp
  from Suc.IH [OF _ this r] a show ?case by (auto simp: ids)
qed simp

lemma free_ids_loop_live:
  "inv s \<Longrightarrow> inv (free_ids_loop ops ids s) \<and> live (free_ids_loop ops ids s) \<subseteq> live s \<and>
   live s - set ids \<subseteq> live (free_ids_loop ops ids s)"
proof (induction ids arbitrary: s)
  case (Cons i ids)
  from Cons.IH [of "if_FreeID ops i s"] free_law [OF Cons.prems, of i] show ?case by auto
qed simp

end

locale id_interface_above = id_interface +
  assumes above_law: "inv s \<Longrightarrow> card (live s) < max_ids \<Longrightarrow>
      if_AllocateIDAtOrAbove ops d s = (i, s') \<Longrightarrow>
      i \<noteq> 0 \<and> i \<notin> live s \<and> live s' = insert i (live s) \<and> inv s'"
begin

lemma alloc_ids_above_loop_fresh:
  "inv s \<Longrightarrow> card (live s) + n \<le> max_ids \<Longrightarrow> alloc_ids_above_loop ops d n s = (ids, s') \<Longrightarrow>
   length ids = n \<and> distinct ids \<and> 0 \<notin> set ids \<and> set ids \<inter> live s = {} \<and>
   live s' = live s \<union> set ids \<and> inv s'"
proof (induction n arbitrary: d s ids s')
  case (Suc n)
  obtain i s1 where i: "if_AllocateIDAtOrAbove ops d s = (i, s1)" by fastforce
  obtain ids1 where r: "alloc_ids_above_loop ops (i + 1) n s1 = (ids1, s')" and ids: "ids = i # ids1"
    using Suc.prems(3) i by (auto split: prod.splits)
  have a: "i \<noteq> 0 \<and> i \<notin> live s \<and> live s1 = insert i (live s) \<and> inv s1"
    using above_law [OF Suc.prems(1) _ i] Suc.prems(2) by simp
  then have "card (live s1) + n \<le> max_ids" using Suc.prems(2) by simp
  from Suc.IH [OF _ this r] a show ?case by (auto simp: ids)
qed simp

lemma DoGenSharedIds_fresh:
  "inv s \<Longrightarrow> card (live s) + n \<le> max_ids \<Longrightarrow> DoGenSharedIdsCHROMIUM ops d n s = (ids, s') \<Longrightarrow>
   length ids = n \<and> distinct ids \<and> 0 \<notin> set ids \<and> set ids \<inter> live s = {} \<and>
   live s' = live s \<union> set ids \<and> inv s'"
  using alloc_ids_loop_fresh [of s n ids s'] alloc_ids_above_loop_fresh [of s n d ids s']
  unfolding DoGenSharedIdsCHROMIUM_def by presburger

end

text \<open>The strict handler's state against the ids the service has issued.\<close>

definition strict_inv :: "ResourceId set \<Rightarrow> StrictSharedIdHandler \<Rightarrow> bool" where
  "strict_inv issued s \<longleftrightarrow> distinct (strict_free_ids s) \<and> 0 \<notin> set (strict_free_ids s) \<union> strict_used_ids s \<and>
     set (strict_free_ids s) \<inter> strict_used_ids s = {} \<and>
     set (strict_free_ids s) \<union> strict_used_ids s \<subseteq> issued"

text \<open>
  What the strict handler relies on when it asks the service for ids: they are new, and there
  are as many as asked for. \<open>issued w\<close> are the ids the service has given out.
\<close>

locale shared_id_service =
  fixes gen :: "ResourceId \<Rightarrow> nat \<Rightarrow> 'w \<Rightarrow> ResourceId list \<times> 'w"
    and issued :: "'w \<Rightarrow> ResourceId set"
    and winv :: "'w \<Rightarrow> bool"
  assumes gen_law: "winv w \<Longrightarrow> card (issued w) + n \<le> max_ids \<Longrightarrow> gen off n w = (ids, w') \<Longrightarrow>
      length ids = n \<and> distinct ids \<and> 0 \<notin> set ids \<and> set ids \<inter> issued w = {} \<and>
      issued w' = issued w \<union> set ids \<and> winv w'"
begin

lemma GetId_fresh:
  assumes "winv w" "strict_inv (issued w) s" "card (issued w) + kNumIdsToGet \<le> max_ids"
  shows "\<exists>i s' w'. StrictSharedIdHandler_GetId gen off s w = Some (i, s', w') \<and> i \<noteq> 0 \<and>
    i \<notin> strict_used_ids s \<and> strict_used_ids s' = insert i (strict_used_ids s) \<and> winv w' \<and> strict_inv (issued w') s' \<and>
    card (issued w') \<le> card (issued w) + kNumIdsToGet"
proof (cases "strict_free_ids s")
  case Nil
  obtain ids w' where g: "gen off kNumIdsToGet w = (ids, w')" by fastforce
  have n: "length ids = kNumIdsToGet \<and> distinct ids \<and> 0 \<notin> set ids \<and> set ids \<inter> issued w = {} \<and>
      issued w' = issued w \<union> set ids \<and> winv w'"
    using gen_law [OF assms(1,3) g] .
  then obtain i rest where ids: "ids = i # rest" by (cases ids) (auto simp: kNumIdsToGet_def)
  have "card (issued w') \<le> card (issued w) + card (set ids)" using n by (simp add: card_Un_le)
  also have "card (set ids) = kNumIdsToGet" using n by (simp add: distinct_card)
  finally have "card (issued w') \<le> card (issued w) + kNumIdsToGet" .
  then show ?thesis
    using Nil g ids n assms(2) by (auto simp: StrictSharedIdHandler_GetId_def strict_inv_def)
next
  case (Cons i rest)
  then show ?thesis
    using assms by (auto simp: StrictSharedIdHandler_GetId_def strict_inv_def)
qed

lemma MakeIds_fresh:
  "winv w \<Longrightarrow> strict_inv (issued w) s \<Longrightarrow> card (issued w) + n * kNumIdsToGet \<le> max_ids \<Longrightarrow>
   \<exists>ids s' w'. StrictSharedIdHandler_MakeIds gen off n s w = Some (ids, s', w') \<and> length ids = n \<and>
     distinct ids \<and> 0 \<notin> set ids \<and> set ids \<inter> strict_used_ids s = {} \<and>
     strict_used_ids s' = strict_used_ids s \<union> set ids \<and> winv w' \<and> strict_inv (issued w') s'"
proof (induction n arbitrary: s w)
  case (Suc n)
  obtain i s1 w1 where g: "StrictSharedIdHandler_GetId gen off s w = Some (i, s1, w1)" "i \<noteq> 0"
    "i \<notin> strict_used_ids s" "strict_used_ids s1 = insert i (strict_used_ids s)" "winv w1" "strict_inv (issued w1) s1"
    "card (issued w1) \<le> card (issued w) + kNumIdsToGet"
    using GetId_fresh [OF Suc.prems(1,2)] Suc.prems(3) by fastforce
  then have "card (issued w1) + n * kNumIdsToGet \<le> max_ids" using Suc.prems(3) by simp
  from Suc.IH [OF g(5,6) this] obtain ids s' w' where
    r: "StrictSharedIdHandler_MakeIds gen off n s1 w1 = Some (ids, s', w')" "length ids = n"
      "distinct ids" "0 \<notin> set ids" "set ids \<inter> strict_used_ids s1 = {}"
      "strict_used_ids s' = strict_used_ids s1 \<union> set ids" "winv w'" "strict_inv (issued w') s'" by blast
  then show ?case using g by (intro exI [of _ "i # ids"] exI [of _ s'] exI [of _ w']) auto
qed simp

end

sublocale id_interface_above \<subseteq> shared: shared_id_service "DoGenSharedIdsCHROMIUM ops" live inv
  by unfold_locales (rule DoGenSharedIds_fresh)

lemma FreeID_inv: "id_inv a \<Longrightarrow> id_inv (IdAllocator_FreeID i a)"
  by (auto simp: id_inv_def IdAllocator_FreeID_def)

interpretation idalloc: id_interface_above IdAllocator_vtable used_ids id_inv
proof unfold_locales
  show "i \<noteq> 0 \<and> i \<notin> used_ids s \<and> used_ids s' = insert i (used_ids s) \<and> id_inv s'"
    if "id_inv s" "card (used_ids s) < max_ids" "if_AllocateID IdAllocator_vtable s = (i, s')" for s i s'
    using AllocateID_fresh [OF that(1,2), of i s'] that(3) by (simp add: IdAllocator_vtable_def)
  show "id_inv (if_FreeID IdAllocator_vtable i s) \<and> used_ids (if_FreeID IdAllocator_vtable i s) \<subseteq> used_ids s \<and>
      used_ids s - {i} \<subseteq> used_ids (if_FreeID IdAllocator_vtable i s)" if "id_inv s" for s i
    using FreeID_inv [OF that] by (auto simp: IdAllocator_vtable_def IdAllocator_FreeID_def)
  show "i \<noteq> 0 \<and> i \<notin> used_ids s \<and> used_ids s' = insert i (used_ids s) \<and> id_inv s'"
    if "id_inv s" "card (used_ids s) < max_ids" "if_AllocateIDAtOrAbove IdAllocator_vtable d s = (i, s')"
    for s d i s'
    using AllocateIDAtOrAbove_fresh [OF that(1,2), of d i s'] that(3) by (simp add: IdAllocator_vtable_def)
qed

lemma nonreused_live: "{x. 0 < x \<and> x \<le> s + 1} = insert (s + 1) {x. 0 < x \<and> x \<le> s}"
  if "s + 1 \<noteq> 0" for s :: ResourceId
proof (intro set_eqI iffI)
  fix x assume x: "x \<in> {x. 0 < x \<and> x \<le> s + 1}"
  then show "x \<in> insert (s + 1) {x. 0 < x \<and> x \<le> s}"
    by (metis (mono_tags, lifting) inc_le insertI1 insertI2 mem_Collect_eq not_le order_antisym)
next
  fix x assume "x \<in> insert (s + 1) {x. 0 < x \<and> x \<le> s}"
  then show "x \<in> {x. 0 < x \<and> x \<le> s + 1}"
    using that word_succ_less [OF that] by (auto simp: word_neq_0_conv)
qed

interpretation nonreused: id_interface NonReusedIdAllocator_vtable
  "\<lambda>s. {x. 0 < x \<and> x \<le> s}" "\<lambda>_. True"
proof unfold_locales
  fix s i s' :: ResourceId
  assume c: "card {x. 0 < x \<and> x \<le> s} < max_ids" and a: "if_AllocateID NonReusedIdAllocator_vtable s = (i, s')"
  have "s + 1 \<noteq> 0"
  proof
    assume "s + 1 = 0"
    then have "{x. 0 < x \<and> x \<le> s} = {1..}" using word_top [of s] by (auto simp: word_one_le word_neq_0_conv)
    with c show False by (simp add: card_nonzero_ids)
  qed
  note nz = this
  have e: "i = s + 1" "s' = s + 1"
    using a by (auto simp: NonReusedIdAllocator_vtable_def NonReusedIdAllocator_AllocateID_def)
  show "i \<noteq> 0 \<and> i \<notin> {x. 0 < x \<and> x \<le> s} \<and> {x. 0 < x \<and> x \<le> s'} = insert i {x. 0 < x \<and> x \<le> s} \<and> True"
    using nz word_succ_less [OF nz] unfolding e nonreused_live [OF nz] by (auto simp: not_le)
qed (simp_all add: NonReusedIdAllocator_vtable_def NonReusedIdAllocator_FreeID_def)

section \<open>Registering and freeing\<close>

lemma free_ids_loop_used:
  "0 \<notin> set ids \<Longrightarrow> used_ids (free_ids_loop IdAllocator_vtable ids a) = used_ids a - set ids"
  by (induction ids arbitrary: a) (auto simp: IdAllocator_vtable_def IdAllocator_FreeID_def)

lemma register_ids_loop_spec:
  "0 \<notin> set (marked @ ids) \<Longrightarrow> register_ids_loop IdAllocator_vtable marked ids a = (ok, a') \<Longrightarrow>
   if ok then used_ids a' = used_ids a \<union> set ids \<and> distinct ids \<and> set ids \<inter> used_ids a = {}
   else used_ids a' = used_ids a - set marked \<and> (\<not> distinct ids \<or> set ids \<inter> used_ids a \<noteq> {})"
proof (induction ids arbitrary: marked a)
  case (Cons i ids)
  let ?a = "snd (IdAllocator_MarkAsUsed i a)"
  have m: "if_MarkAsUsed IdAllocator_vtable i a = (i \<notin> used_ids a, ?a)"
    by (simp add: IdAllocator_vtable_def IdAllocator_MarkAsUsed_def)
  show ?case
  proof (cases "i \<in> used_ids a")
    case True
    then have "ok = False" "a' = free_ids_loop IdAllocator_vtable marked ?a"
      using Cons.prems(2) m by simp_all
    then show ?thesis using True Cons.prems(1) by (auto simp: free_ids_loop_used)
  next
    case False
    then have "register_ids_loop IdAllocator_vtable (marked @ [i]) ids ?a = (ok, a')"
      using Cons.prems(2) m by simp
    from Cons.IH [OF _ this] Cons.prems(1) False show ?thesis by (auto split: if_splits)
  qed
qed simp

lemma strict_all_used_iff: "strict_all_used used ids \<longleftrightarrow> set ids - {0} \<subseteq> used"
  by (induction ids) auto

lemma strict_free_loop_spec:
  "0 \<notin> strict_used_ids s \<Longrightarrow> strict_used_ids (strict_free_loop ids s) = strict_used_ids s - set ids \<and>
   set (strict_free_ids (strict_free_loop ids s)) =
     set (strict_free_ids s) \<union> (strict_used_ids s \<inter> set ids) \<and>
   (distinct (strict_free_ids s) \<and> set (strict_free_ids s) \<inter> strict_used_ids s = {} \<longrightarrow>
    distinct (strict_free_ids (strict_free_loop ids s)))"
proof (induction ids arbitrary: s)
  case (Cons i ids)
  let ?s = "if i \<noteq> 0 \<and> i \<in> strict_used_ids s
      then \<lparr>strict_used_ids = strict_used_ids s - {i}, strict_free_ids = strict_free_ids s @ [i]\<rparr> else s"
  have "0 \<notin> strict_used_ids ?s" using Cons.prems by simp
  from Cons.IH [OF this] Cons.prems show ?case by (cases "i \<in> strict_used_ids s") auto
qed simp

section \<open>Properties\<close>

text \<open>
  C34: The ids that a handler makes (for any id offset, while ids are left) are as many as asked
  for, pairwise distinct, not zero and not in use; afterwards exactly they are in use as well.
\<close>

theorem make_ids_fresh:
  assumes "id_inv a" "card (used_ids a) + n \<le> max_ids"
    and "NonSharedIdHandler_MakeIds id_offset n a = (ids, a')"
  shows "length ids = n \<and> distinct ids \<and> (\<forall>i. List.member ids i \<longrightarrow> \<not> IdAllocator_InUse i a) \<and>
    used_ids a' = used_ids a \<union> set ids \<and> id_inv a'"
proof -
  have "DoGenSharedIdsCHROMIUM IdAllocator_vtable id_offset n a = (ids, a')"
    using assms(3) by (simp add: NonSharedIdHandler_MakeIds_def DoGenSharedIdsCHROMIUM_def)
  from idalloc.DoGenSharedIds_fresh [OF assms(1,2) this] show ?thesis
    by (auto simp: IdAllocator_InUse_def kInvalidResource_def)
qed

definition sample_ids :: IdAllocator where
  "sample_ids = \<lparr>used_ids = {1, 4294967295}, free_ids = {7}\<rparr>"

theorem make_ids_fresh_witness:
  "let (ids, a') = NonSharedIdHandler_MakeIds 0 2 sample_ids in distinct ids \<and> length ids = 2"
proof -
  obtain ids a' where r: "NonSharedIdHandler_MakeIds 0 2 sample_ids = (ids, a')" by fastforce
  have "id_inv sample_ids" "card (used_ids sample_ids) + 2 \<le> max_ids"
    by (simp_all add: id_inv_def sample_ids_def max_ids_def)
  from make_ids_fresh [OF this r] r show ?thesis by simp
qed

text \<open>
  An id allocated at or above a wanted one is new and not below it, unless the largest id
  is already in use (the case in which the search starts again at 1).
\<close>

theorem allocate_at_or_above:
  assumes "id_inv a" "card (used_ids a) < max_ids" "LastUsedId a + 1 \<noteq> 0"
    and "IdAllocator_AllocateIDAtOrAbove desired_id a = (i, a')"
  shows "desired_id \<le> i \<and> \<not> IdAllocator_InUse i a \<and> used_ids a' = insert i (used_ids a) \<and> id_inv a'"
  using AllocateIDAtOrAbove_fresh [OF assms(1,2,4)] assms(3)
  by (simp add: IdAllocator_InUse_def kInvalidResource_def)

theorem allocate_at_or_above_witness:
  "10 \<le> fst (IdAllocator_AllocateIDAtOrAbove 10 (IdAllocator_FreeID 4294967295 sample_ids))"
proof -
  let ?a = "IdAllocator_FreeID 4294967295 sample_ids"
  have u: "used_ids ?a = {1}" by (auto simp: IdAllocator_FreeID_def sample_ids_def)
  have "id_inv ?a" by (auto simp: id_inv_def IdAllocator_FreeID_def sample_ids_def)
  moreover have "card (used_ids ?a) < max_ids" "LastUsedId ?a + 1 \<noteq> 0"
    by (simp_all add: u max_ids_def LastUsedId_def)
  moreover obtain i a' where r: "IdAllocator_AllocateIDAtOrAbove 10 ?a = (i, a')" by fastforce
  ultimately show ?thesis using allocate_at_or_above [of ?a 10 i a'] by simp
qed

text \<open>
  Registering shared ids is all or nothing: it succeeds exactly if the ids are distinct and
  none is in use, and then all of them are; a failure leaves the used ids as they were.
\<close>

theorem register_all_or_nothing:
  assumes "0 \<notin> set ids" "DoRegisterSharedIdsCHROMIUM IdAllocator_vtable ids a = (ok, a')"
  shows "(ok \<longleftrightarrow> distinct ids \<and> set ids \<inter> used_ids a = {}) \<and>
    used_ids a' = (if ok then used_ids a \<union> set ids else used_ids a)"
  using register_ids_loop_spec [of "[]" ids a ok a'] assms
  by (auto simp: DoRegisterSharedIdsCHROMIUM_def split: if_splits)

theorem register_all_or_nothing_witness:
  "used_ids (snd (DoRegisterSharedIdsCHROMIUM IdAllocator_vtable [9, 1] sample_ids)) = used_ids sample_ids"
proof -
  obtain ok a' where r: "DoRegisterSharedIdsCHROMIUM IdAllocator_vtable [9, 1] sample_ids = (ok, a')"
    by fastforce
  have "0 \<notin> set [9, 1 :: ResourceId]" by simp
  from register_all_or_nothing [OF this r] r show ?thesis by (simp add: sample_ids_def split: if_splits)
qed

text \<open>
  The strict handler hands out distinct ids that it does not hold yet, refilling its queue
  from the service's allocator when it is empty; freeing follows OpenGL: one id that is not
  held and nothing is freed, otherwise all are and they go back to the queue.
\<close>

theorem strict_handler_ids:
  assumes "id_inv a" "strict_inv (used_ids a) s" "card (used_ids a) + n * kNumIdsToGet \<le> max_ids"
  shows "(\<exists>ids s' a'. StrictSharedIdHandler_MakeIds (DoGenSharedIdsCHROMIUM IdAllocator_vtable) id_offset n s a =
        Some (ids, s', a') \<and> length ids = n \<and> distinct ids \<and> 0 \<notin> set ids \<and>
        set ids \<inter> strict_used_ids s = {} \<and> strict_used_ids s' = strict_used_ids s \<union> set ids \<and>
        strict_inv (used_ids a') s') \<and>
    (if set gone - {0} \<subseteq> strict_used_ids s
     then fst (StrictSharedIdHandler_FreeIds gone s) \<and>
       strict_used_ids (snd (StrictSharedIdHandler_FreeIds gone s)) = strict_used_ids s - set gone \<and>
       strict_inv (used_ids a) (snd (StrictSharedIdHandler_FreeIds gone s))
     else StrictSharedIdHandler_FreeIds gone s = (False, s))"
proof -
  have f: "strict_used_ids (strict_free_loop gone s) = strict_used_ids s - set gone"
    "strict_inv (used_ids a) (strict_free_loop gone s)"
    using assms(2) strict_free_loop_spec [of s gone] by (auto simp: strict_inv_def)
  show ?thesis (is "?made \<and> ?freed")
  proof
    show ?made using idalloc.shared.MakeIds_fresh [OF assms] by blast
    show ?freed using f by (simp add: StrictSharedIdHandler_FreeIds_def strict_all_used_iff)
  qed
qed

theorem strict_handler_ids_witness:
  "\<exists>ids s' a'. StrictSharedIdHandler_MakeIds (DoGenSharedIdsCHROMIUM IdAllocator_vtable) 0 3
     \<lparr>strict_used_ids = {}, strict_free_ids = []\<rparr> sample_ids = Some (ids, s', a') \<and> length ids = 3"
proof -
  let ?s = "\<lparr>strict_used_ids = {}, strict_free_ids = []\<rparr>"
  have "id_inv sample_ids" "strict_inv (used_ids sample_ids) ?s"
    "card (used_ids sample_ids) + 3 * kNumIdsToGet \<le> max_ids"
    by (simp_all add: strict_inv_def id_inv_def sample_ids_def kNumIdsToGet_def max_ids_def)
  from strict_handler_ids [OF this, of 0 "[]"] show ?thesis by blast
qed

end
