(* ===== verification/Cmd_Buffer_Common.thy ===== *)
theory Cmd_Buffer_Common
  imports Prelude
begin

unbundle bit_operations_syntax

text \<open>
  \<^verbatim>\<open>gpu/command_buffer/common/cmd_buffer_common.{h,cc}\<close> and \<^verbatim>\<open>bitfield_helpers.h\<close>: the binary
  format of the command stream. A \<^verbatim>\<open>CommandBufferEntry\<close> is a 32-bit word; a command structure
  (packed, all fields 32 bits wide) is the list of its entries, header first, as the
  \<^verbatim>\<open>COMPILE_ASSERT\<close>s on its size and field offsets fix it. Memory is a function from byte
  addresses to entries, addresses are 32 bits wide.
\<close>

type_synonym CommandBufferEntry = "32 word"
type_synonym entry_memory = "nat \<Rightarrow> CommandBufferEntry"
type_synonym byte = "8 word"

text \<open>The bytes of an entry, in the little-endian order of the target.\<close>

definition entry_bytes :: "32 word \<Rightarrow> byte list" where
  "entry_bytes w = [ucast w, ucast (drop_bit 8 w), ucast (drop_bit 16 w), ucast (drop_bit 24 w)]"

section \<open>Bit fields\<close>

text \<open>The template \<^verbatim>\<open>BitField<shift, length>\<close>; \<open>len\<close> is its \<^verbatim>\<open>length\<close>, between 1 and 32.\<close>

definition BitField_kMask :: "nat \<Rightarrow> 32 word" where
  "BitField_kMask len = 1 + (push_bit (len - 1) 1 - 1) * 2"

definition BitField_Get :: "nat \<Rightarrow> nat \<Rightarrow> 32 word \<Rightarrow> 32 word" where
  "BitField_Get shift len container = drop_bit shift container AND BitField_kMask len"

definition BitField_MakeValue :: "nat \<Rightarrow> nat \<Rightarrow> 32 word \<Rightarrow> 32 word" where
  "BitField_MakeValue shift len v = push_bit shift (v AND BitField_kMask len)"

definition BitField_Set :: "nat \<Rightarrow> nat \<Rightarrow> 32 word \<Rightarrow> 32 word \<Rightarrow> 32 word" where
  "BitField_Set shift len container field_value =
     (container AND NOT (push_bit shift (BitField_kMask len))) OR BitField_MakeValue shift len field_value"

section \<open>Sizes\<close>

definition sizeof_uint32 :: nat where
  "sizeof_uint32 = 4"

definition ComputeNumEntries :: "nat \<Rightarrow> nat" where
  "ComputeNumEntries size_in_bytes = u32 (size_in_bytes + sizeof_uint32 - 1) div sizeof_uint32"

definition RoundSizeToMultipleOfEntries :: "nat \<Rightarrow> nat" where
  "RoundSizeToMultipleOfEntries size_in_bytes = u32_mul (ComputeNumEntries size_in_bytes) sizeof_uint32"

section \<open>Command header\<close>

record CommandHeader =
  hdr_size :: "21 word"
  hdr_command :: "11 word"

definition kMaxSize :: nat where
  "kMaxSize = 2 ^ 21 - 1"

definition CommandHeader_Init :: "nat \<Rightarrow> nat \<Rightarrow> CommandHeader" where
  "CommandHeader_Init command sz = \<lparr>hdr_size = of_nat sz, hdr_command = of_nat command\<rparr>"

text \<open>The layout of the bit fields of the header: \<^verbatim>\<open>size\<close> in the low 21 bits.\<close>

definition header_entry :: "CommandHeader \<Rightarrow> CommandBufferEntry" where
  "header_entry h = ucast (hdr_size h) OR push_bit 21 (ucast (hdr_command h))"

definition value_header :: "CommandBufferEntry \<Rightarrow> CommandHeader" where
  "value_header e = \<lparr>hdr_size = ucast e, hdr_command = ucast (drop_bit 21 e)\<rparr>"

section \<open>Commands\<close>

datatype ArgFlags = kFixed | kAtLeastN

datatype CommandId = kNoop | kSetToken | kJump | kJumpRelative | kCall | kCallRelative | kReturn
  | kSetBucketSize | kSetBucketData | kSetBucketDataImmediate | kGetBucketSize | kGetBucketData

definition command_ids :: "CommandId list" where
  "command_ids = [kNoop, kSetToken, kJump, kJumpRelative, kCall, kCallRelative, kReturn,
     kSetBucketSize, kSetBucketData, kSetBucketDataImmediate, kGetBucketSize, kGetBucketData]"

fun CommandId_value :: "CommandId \<Rightarrow> nat" where
  "CommandId_value kNoop = 0"
| "CommandId_value kSetToken = 1"
| "CommandId_value kJump = 2"
| "CommandId_value kJumpRelative = 3"
| "CommandId_value kCall = 4"
| "CommandId_value kCallRelative = 5"
| "CommandId_value kReturn = 6"
| "CommandId_value kSetBucketSize = 7"
| "CommandId_value kSetBucketData = 8"
| "CommandId_value kSetBucketDataImmediate = 9"
| "CommandId_value kGetBucketSize = 10"
| "CommandId_value kGetBucketData = 11"

definition kNumCommands :: nat where
  "kNumCommands = 12"

definition kLastCommonId :: nat where
  "kLastCommonId = 255"

definition command_names :: "string list" where
  "command_names = [''Noop'', ''SetToken'', ''Jump'', ''JumpRelative'', ''Call'', ''CallRelative'',
     ''Return'', ''SetBucketSize'', ''SetBucketData'', ''SetBucketDataImmediate'', ''GetBucketSize'',
     ''GetBucketData'']"

definition GetCommandName :: "int \<Rightarrow> string" where
  "GetCommandName command_id =
     (if 0 \<le> command_id \<and> command_id < int kNumCommands then command_names ! nat command_id
      else ''*unknown-command*'')"

text \<open>\<^verbatim>\<open>sizeof\<close> and \<^verbatim>\<open>kArgFlags\<close> of the structures, as their assertions and members give them.\<close>

fun sizeof_cmd :: "CommandId \<Rightarrow> nat" where
  "sizeof_cmd kNoop = 4"
| "sizeof_cmd kSetToken = 8"
| "sizeof_cmd kJump = 8"
| "sizeof_cmd kJumpRelative = 8"
| "sizeof_cmd kCall = 8"
| "sizeof_cmd kCallRelative = 8"
| "sizeof_cmd kReturn = 4"
| "sizeof_cmd kSetBucketSize = 12"
| "sizeof_cmd kSetBucketData = 24"
| "sizeof_cmd kSetBucketDataImmediate = 16"
| "sizeof_cmd kGetBucketSize = 16"
| "sizeof_cmd kGetBucketData = 24"

fun kArgFlags :: "CommandId \<Rightarrow> ArgFlags" where
  "kArgFlags kNoop = kAtLeastN"
| "kArgFlags kSetBucketDataImmediate = kAtLeastN"
| "kArgFlags _ = kFixed"

definition SetCmd :: "CommandId \<Rightarrow> CommandHeader" where
  "SetCmd T = CommandHeader_Init (CommandId_value T) (ComputeNumEntries (sizeof_cmd T))"

definition SetCmdBySize :: "CommandId \<Rightarrow> nat \<Rightarrow> CommandHeader" where
  "SetCmdBySize T size_of_data_in_bytes =
     CommandHeader_Init (CommandId_value T) (ComputeNumEntries (u32_add (sizeof_cmd T) size_of_data_in_bytes))"

definition SetCmdByTotalSize :: "CommandId \<Rightarrow> nat \<Rightarrow> CommandHeader" where
  "SetCmdByTotalSize T size_in_bytes =
     CommandHeader_Init (CommandId_value T) (ComputeNumEntries size_in_bytes)"

definition ImmediateDataAddress :: "CommandId \<Rightarrow> nat \<Rightarrow> nat" where
  "ImmediateDataAddress T cmd = u32_add cmd (sizeof_cmd T)"

definition NextCmdAddress :: "CommandId \<Rightarrow> nat \<Rightarrow> nat" where
  "NextCmdAddress T cmd = u32_add cmd (sizeof_cmd T)"

definition NextImmediateCmdAddress :: "CommandId \<Rightarrow> nat \<Rightarrow> nat \<Rightarrow> nat" where
  "NextImmediateCmdAddress T cmd size_of_data_in_bytes =
     u32_add (u32_add cmd (sizeof_cmd T)) (RoundSizeToMultipleOfEntries size_of_data_in_bytes)"

definition NextImmediateCmdAddressTotalSize :: "nat \<Rightarrow> nat \<Rightarrow> nat" where
  "NextImmediateCmdAddressTotalSize cmd total_size_in_bytes =
     u32_add cmd (RoundSizeToMultipleOfEntries total_size_in_bytes)"

section \<open>The command structures\<close>

text \<open>
  \<^verbatim>\<open>X_Init\<close> is the image that \<^verbatim>\<open>X::Init\<close> leaves in memory; \<^verbatim>\<open>X_Set\<close> places it at an address and
  returns the address it reports for the next command.
\<close>

fun write_entries :: "entry_memory \<Rightarrow> nat \<Rightarrow> CommandBufferEntry list \<Rightarrow> entry_memory" where
  "write_entries mem addr [] = mem"
| "write_entries mem addr (e # es) = write_entries (mem(addr := e)) (addr + 4) es"

definition Noop_Init :: "nat \<Rightarrow> CommandBufferEntry list" where
  "Noop_Init skip_count = [header_entry (CommandHeader_Init (CommandId_value kNoop) skip_count)]"

definition Noop_Set :: "entry_memory \<Rightarrow> nat \<Rightarrow> nat \<Rightarrow> entry_memory \<times> nat" where
  "Noop_Set mem cmd skip_count =
     (write_entries mem cmd (Noop_Init skip_count),
      NextImmediateCmdAddress kNoop cmd (u32_mul skip_count sizeof_uint32))"

definition SetToken_Init :: "32 word \<Rightarrow> CommandBufferEntry list" where
  "SetToken_Init token = [header_entry (SetCmd kSetToken), token]"

definition SetToken_Set :: "entry_memory \<Rightarrow> nat \<Rightarrow> 32 word \<Rightarrow> entry_memory \<times> nat" where
  "SetToken_Set mem cmd token =
     (write_entries mem cmd (SetToken_Init token), NextCmdAddress kSetToken cmd)"

definition Jump_Init :: "32 word \<Rightarrow> CommandBufferEntry list" where
  "Jump_Init offset = [header_entry (SetCmd kJump), offset]"

definition Jump_Set :: "entry_memory \<Rightarrow> nat \<Rightarrow> 32 word \<Rightarrow> entry_memory \<times> nat" where
  "Jump_Set mem cmd offset = (write_entries mem cmd (Jump_Init offset), NextCmdAddress kJump cmd)"

definition JumpRelative_Init :: "32 word \<Rightarrow> CommandBufferEntry list" where
  "JumpRelative_Init offset = [header_entry (SetCmd kJumpRelative), offset]"

definition JumpRelative_Set :: "entry_memory \<Rightarrow> nat \<Rightarrow> 32 word \<Rightarrow> entry_memory \<times> nat" where
  "JumpRelative_Set mem cmd offset =
     (write_entries mem cmd (JumpRelative_Init offset), NextCmdAddress kJumpRelative cmd)"

definition Call_Init :: "32 word \<Rightarrow> CommandBufferEntry list" where
  "Call_Init offset = [header_entry (SetCmd kCall), offset]"

definition Call_Set :: "entry_memory \<Rightarrow> nat \<Rightarrow> 32 word \<Rightarrow> entry_memory \<times> nat" where
  "Call_Set mem cmd offset = (write_entries mem cmd (Call_Init offset), NextCmdAddress kCall cmd)"

definition CallRelative_Init :: "32 word \<Rightarrow> CommandBufferEntry list" where
  "CallRelative_Init offset = [header_entry (SetCmd kCallRelative), offset]"

definition CallRelative_Set :: "entry_memory \<Rightarrow> nat \<Rightarrow> 32 word \<Rightarrow> entry_memory \<times> nat" where
  "CallRelative_Set mem cmd offset =
     (write_entries mem cmd (CallRelative_Init offset), NextCmdAddress kCallRelative cmd)"

definition Return_Init :: "CommandBufferEntry list" where
  "Return_Init = [header_entry (SetCmd kReturn)]"

definition Return_Set :: "entry_memory \<Rightarrow> nat \<Rightarrow> entry_memory \<times> nat" where
  "Return_Set mem cmd = (write_entries mem cmd Return_Init, NextCmdAddress kReturn cmd)"

definition SetBucketSize_Init :: "32 word \<Rightarrow> 32 word \<Rightarrow> CommandBufferEntry list" where
  "SetBucketSize_Init bucket_id sz = [header_entry (SetCmd kSetBucketSize), bucket_id, sz]"

definition SetBucketSize_Set ::
    "entry_memory \<Rightarrow> nat \<Rightarrow> 32 word \<Rightarrow> 32 word \<Rightarrow> entry_memory \<times> nat" where
  "SetBucketSize_Set mem cmd bucket_id sz =
     (write_entries mem cmd (SetBucketSize_Init bucket_id sz), NextCmdAddress kSetBucketSize cmd)"

definition SetBucketData_Init ::
    "32 word \<Rightarrow> 32 word \<Rightarrow> 32 word \<Rightarrow> 32 word \<Rightarrow> 32 word \<Rightarrow> CommandBufferEntry list" where
  "SetBucketData_Init bucket_id offset sz shared_memory_id shared_memory_offset =
     [header_entry (SetCmd kSetBucketData), bucket_id, offset, sz, shared_memory_id,
      shared_memory_offset]"

definition SetBucketData_Set :: "entry_memory \<Rightarrow> nat \<Rightarrow>
    32 word \<Rightarrow> 32 word \<Rightarrow> 32 word \<Rightarrow> 32 word \<Rightarrow> 32 word \<Rightarrow> entry_memory \<times> nat" where
  "SetBucketData_Set mem cmd bucket_id offset sz shared_memory_id shared_memory_offset =
     (write_entries mem cmd
        (SetBucketData_Init bucket_id offset sz shared_memory_id shared_memory_offset),
      NextCmdAddress kSetBucketData cmd)"

definition SetBucketDataImmediate_Init ::
    "32 word \<Rightarrow> 32 word \<Rightarrow> 32 word \<Rightarrow> CommandBufferEntry list" where
  "SetBucketDataImmediate_Init bucket_id offset sz =
     [header_entry (SetCmdBySize kSetBucketDataImmediate (unat sz)), bucket_id, offset, sz]"

definition SetBucketDataImmediate_Set :: "entry_memory \<Rightarrow> nat \<Rightarrow>
    32 word \<Rightarrow> 32 word \<Rightarrow> 32 word \<Rightarrow> entry_memory \<times> nat" where
  "SetBucketDataImmediate_Set mem cmd bucket_id offset sz =
     (write_entries mem cmd (SetBucketDataImmediate_Init bucket_id offset sz),
      NextImmediateCmdAddress kSetBucketDataImmediate cmd (unat sz))"

definition GetBucketSize_Init ::
    "32 word \<Rightarrow> 32 word \<Rightarrow> 32 word \<Rightarrow> CommandBufferEntry list" where
  "GetBucketSize_Init bucket_id shared_memory_id shared_memory_offset =
     [header_entry (SetCmd kGetBucketSize), bucket_id, shared_memory_id, shared_memory_offset]"

definition GetBucketSize_Set :: "entry_memory \<Rightarrow> nat \<Rightarrow>
    32 word \<Rightarrow> 32 word \<Rightarrow> 32 word \<Rightarrow> entry_memory \<times> nat" where
  "GetBucketSize_Set mem cmd bucket_id shared_memory_id shared_memory_offset =
     (write_entries mem cmd (GetBucketSize_Init bucket_id shared_memory_id shared_memory_offset),
      NextCmdAddress kGetBucketSize cmd)"

definition GetBucketData_Init ::
    "32 word \<Rightarrow> 32 word \<Rightarrow> 32 word \<Rightarrow> 32 word \<Rightarrow> 32 word \<Rightarrow> CommandBufferEntry list" where
  "GetBucketData_Init bucket_id offset sz shared_memory_id shared_memory_offset =
     [header_entry (SetCmd kGetBucketData), bucket_id, offset, sz, shared_memory_id,
      shared_memory_offset]"

definition GetBucketData_Set :: "entry_memory \<Rightarrow> nat \<Rightarrow>
    32 word \<Rightarrow> 32 word \<Rightarrow> 32 word \<Rightarrow> 32 word \<Rightarrow> 32 word \<Rightarrow> entry_memory \<times> nat" where
  "GetBucketData_Set mem cmd bucket_id offset sz shared_memory_id shared_memory_offset =
     (write_entries mem cmd
        (GetBucketData_Init bucket_id offset sz shared_memory_id shared_memory_offset),
      NextCmdAddress kGetBucketData cmd)"

section \<open>Lemmas\<close>

lemma length_entry_bytes [simp]: "length (entry_bytes w) = 4"
  by (simp add: entry_bytes_def)

lemma header_roundtrip [simp]: "value_header (header_entry h) = h"
proof -
  have s: "ucast (ucast (hdr_size h) OR push_bit 21 (ucast (hdr_command h)) :: 32 word) = hdr_size h"
    by (rule bit_eqI) (auto simp: bit_simps)
  have c: "ucast (drop_bit 21 (ucast (hdr_size h) OR push_bit 21 (ucast (hdr_command h)) :: 32 word)) =
    hdr_command h"
    by (rule bit_eqI) (auto simp: bit_simps dest: bit_imp_le_length)
  show ?thesis using s c by (simp add: value_header_def header_entry_def)
qed

lemma entry_roundtrip [simp]: "header_entry (value_header e) = e"
  by (rule bit_eqI) (auto simp: header_entry_def value_header_def bit_simps)


lemma BitField_kMask_eq: "0 < len \<Longrightarrow> BitField_kMask len = mask len"
  by (cases len) (simp_all add: BitField_kMask_def push_bit_eq_mult mask_eq_exp_minus_1 algebra_simps)

lemma ComputeNumEntries_eq: "n < 4294967293 \<Longrightarrow> ComputeNumEntries n = (n + 3) div 4"
  by (simp add: ComputeNumEntries_def sizeof_uint32_def u32_def)

lemma RoundSize_eq: "n < 4294967293 \<Longrightarrow> RoundSizeToMultipleOfEntries n = 4 * ((n + 3) div 4)"
proof -
  assume n: "n < 4294967293"
  then have "(n + 3) div 4 * 4 < 4294967296" by linarith
  with n show ?thesis
    by (simp add: RoundSizeToMultipleOfEntries_def ComputeNumEntries_eq sizeof_uint32_def u32_simps)
qed

lemma unat_of_nat_21: "n < 2097152 \<Longrightarrow> unat (of_nat n :: 21 word) = n"
  by (simp add: unat_of_nat take_bit_nat_eq_self)

lemma SetCmd_size: "unat (hdr_size (SetCmd T)) = sizeof_cmd T div 4"
  by (cases T) (simp_all add: SetCmd_def CommandHeader_Init_def ComputeNumEntries_def sizeof_uint32_def u32_def)

lemma Init_command: "unat (hdr_command (CommandHeader_Init (CommandId_value T) n)) = CommandId_value T"
  by (cases T) (simp_all add: CommandHeader_Init_def)

lemma SetCmd_command [simp]: "unat (hdr_command (SetCmd T)) = CommandId_value T"
  by (simp add: SetCmd_def Init_command)

lemma SetCmdBySize_command [simp]: "unat (hdr_command (SetCmdBySize T n)) = CommandId_value T"
  by (simp add: SetCmdBySize_def Init_command)

lemma SetCmdBySize_size:
  assumes "n + 16 \<le> 4 * 2097151"
  shows "unat (hdr_size (SetCmdBySize kSetBucketDataImmediate n)) = 4 + (n + 3) div 4"
proof -
  have "(16 + n + 3) div 4 = 4 + (n + 3) div 4" by linarith
  moreover have "4 + (n + 3) div 4 < 2097152" using assms by linarith
  ultimately show ?thesis
    using assms by (simp add: SetCmdBySize_def CommandHeader_Init_def u32_simps ComputeNumEntries_eq
        unat_of_nat_21 del: of_nat_add)
qed

section \<open>Streams of commands\<close>

text \<open>
  The commands as abstract syntax, what a client writes for a sequence of them (each one at the
  address the \<^verbatim>\<open>Set\<close> before it returned), and what a reader that steps by header sizes finds.
\<close>

datatype common_cmd = SetToken "32 word" | Jump "32 word" | JumpRelative "32 word" | Call "32 word"
  | CallRelative "32 word" | Return | SetBucketSize "32 word" "32 word"
  | SetBucketData "32 word" "32 word" "32 word" "32 word" "32 word"
  | SetBucketDataImmediate "32 word" "32 word" "32 word"
  | GetBucketSize "32 word" "32 word" "32 word"
  | GetBucketData "32 word" "32 word" "32 word" "32 word" "32 word"

fun cmd_write :: "entry_memory \<Rightarrow> nat \<Rightarrow> common_cmd \<Rightarrow> entry_memory \<times> nat" where
  "cmd_write mem cmd (SetToken t) = SetToken_Set mem cmd t"
| "cmd_write mem cmd (Jump off) = Jump_Set mem cmd off"
| "cmd_write mem cmd (JumpRelative off) = JumpRelative_Set mem cmd off"
| "cmd_write mem cmd (Call off) = Call_Set mem cmd off"
| "cmd_write mem cmd (CallRelative off) = CallRelative_Set mem cmd off"
| "cmd_write mem cmd Return = Return_Set mem cmd"
| "cmd_write mem cmd (SetBucketSize b n) = SetBucketSize_Set mem cmd b n"
| "cmd_write mem cmd (SetBucketData b off n i p) = SetBucketData_Set mem cmd b off n i p"
| "cmd_write mem cmd (SetBucketDataImmediate b off n) = SetBucketDataImmediate_Set mem cmd b off n"
| "cmd_write mem cmd (GetBucketSize b i p) = GetBucketSize_Set mem cmd b i p"
| "cmd_write mem cmd (GetBucketData b off n i p) = GetBucketData_Set mem cmd b off n i p"

fun write_stream :: "entry_memory \<Rightarrow> nat \<Rightarrow> common_cmd list \<Rightarrow> entry_memory \<times> nat" where
  "write_stream mem addr [] = (mem, addr)"
| "write_stream mem addr (c # cs) = (case cmd_write mem addr c of (mem', addr') \<Rightarrow> write_stream mem' addr' cs)"

definition cmd_read :: "entry_memory \<Rightarrow> nat \<Rightarrow> (common_cmd \<times> nat) option" where
  "cmd_read mem a =
     (let h = value_header (mem a); n = unat (hdr_command h);
          nxt = a + 4 * unat (hdr_size h); f = (\<lambda>k. mem (a + 4 * k)) in
      if n = 1 then Some (SetToken (f 1), nxt)
      else if n = 2 then Some (Jump (f 1), nxt)
      else if n = 3 then Some (JumpRelative (f 1), nxt)
      else if n = 4 then Some (Call (f 1), nxt)
      else if n = 5 then Some (CallRelative (f 1), nxt)
      else if n = 6 then Some (Return, nxt)
      else if n = 7 then Some (SetBucketSize (f 1) (f 2), nxt)
      else if n = 8 then Some (SetBucketData (f 1) (f 2) (f 3) (f 4) (f 5), nxt)
      else if n = 9 then Some (SetBucketDataImmediate (f 1) (f 2) (f 3), nxt)
      else if n = 10 then Some (GetBucketSize (f 1) (f 2) (f 3), nxt)
      else if n = 11 then Some (GetBucketData (f 1) (f 2) (f 3) (f 4) (f 5), nxt)
      else None)"

fun read_stream :: "nat \<Rightarrow> entry_memory \<Rightarrow> nat \<Rightarrow> (common_cmd list \<times> nat) option" where
  "read_stream 0 mem a = Some ([], a)"
| "read_stream (Suc n) mem a =
     (case cmd_read mem a of None \<Rightarrow> None
      | Some (c, a') \<Rightarrow>
          (case read_stream n mem a' of None \<Rightarrow> None | Some (cs, e) \<Rightarrow> Some (c # cs, e)))"

text \<open>The bytes a command occupies, and the bound on immediate data that fits a header.\<close>

fun cmd_bytes :: "common_cmd \<Rightarrow> nat" where
  "cmd_bytes (SetBucketDataImmediate b off n) = 16 + 4 * ((unat n + 3) div 4)"
| "cmd_bytes Return = 4"
| "cmd_bytes (SetBucketSize b n) = 12"
| "cmd_bytes (SetBucketData b off n i p) = 24"
| "cmd_bytes (GetBucketSize b i p) = 16"
| "cmd_bytes (GetBucketData b off n i p) = 24"
| "cmd_bytes _ = 8"

fun cmd_fits :: "common_cmd \<Rightarrow> bool" where
  "cmd_fits (SetBucketDataImmediate b off n) \<longleftrightarrow> unat n + 16 \<le> 4 * kMaxSize"
| "cmd_fits _ \<longleftrightarrow> True"

lemmas cmd_images = SetToken_Init_def Jump_Init_def JumpRelative_Init_def Call_Init_def
  CallRelative_Init_def Return_Init_def SetBucketSize_Init_def SetBucketData_Init_def
  SetBucketDataImmediate_Init_def GetBucketSize_Init_def GetBucketData_Init_def

lemmas cmd_sets = SetToken_Set_def Jump_Set_def JumpRelative_Set_def Call_Set_def
  CallRelative_Set_def Return_Set_def SetBucketSize_Set_def SetBucketData_Set_def
  SetBucketDataImmediate_Set_def GetBucketSize_Set_def GetBucketData_Set_def

lemma cmd_write_next:
  assumes "cmd_fits c" "a + cmd_bytes c < 4294967296"
  shows "snd (cmd_write mem a c) = a + cmd_bytes c"
  using assms
  by (cases c) (auto simp: cmd_sets NextCmdAddress_def NextImmediateCmdAddress_def u32_simps
      RoundSize_eq kMaxSize_def)

lemma cmd_write_below:
  "x < a \<Longrightarrow> fst (cmd_write mem a c) x = mem x"
  by (cases c) (auto simp: cmd_sets cmd_images)

lemma cmd_write_read:
  assumes "cmd_fits c" "\<And>x. x < a + cmd_bytes c \<Longrightarrow> mem' x = fst (cmd_write mem a c) x"
  shows "cmd_read mem' a = Some (c, a + cmd_bytes c)"
proof -
  have 0: "mem' a = fst (cmd_write mem a c) a" using assms(2) [of a] by (cases c) auto
  have k: "mem' (a + n) = fst (cmd_write mem a c) (a + n)" if "n < cmd_bytes c" for n
    using assms(2) [of "a + n"] that by simp
  show ?thesis
    using assms(1) 0 k [of 4] k [of 8] k [of 12] k [of 16] k [of 20]
    by (cases c) (simp_all add: cmd_sets cmd_images cmd_read_def Let_def SetCmd_size kMaxSize_def
        SetCmdBySize_size)
qed

lemma write_stream_below: "x < a \<Longrightarrow> list_all cmd_fits cs \<Longrightarrow>
   a + sum_list (map cmd_bytes cs) < 4294967296 \<Longrightarrow> fst (write_stream mem a cs) x = mem x"
proof (induction cs arbitrary: mem a)
  case (Cons c cs)
  obtain m' a' where w: "cmd_write mem a c = (m', a')" by fastforce
  with Cons.prems cmd_write_next [of c a mem] have a': "a' = a + cmd_bytes c" by simp
  have "m' x = mem x" using cmd_write_below [OF Cons.prems(1), of mem c] w by simp
  with Cons w a' show ?case by simp
qed simp

text \<open>
  C36: The client's encoding of any sequence of common commands is read back as the same
  sequence, ending where the last \<^verbatim>\<open>Set\<close> said the next command goes. Immediate data has to
  fit the 21-bit size field of the header.
\<close>

theorem command_stream_roundtrip:
  assumes "list_all cmd_fits cs" "a + sum_list (map cmd_bytes cs) < 4294967296"
    and "write_stream mem a cs = (mem', e)"
  shows "read_stream (length cs) mem' a = Some (cs, e)"
  using assms
proof (induction cs arbitrary: mem a)
  case (Cons c cs)
  obtain m1 a1 where w: "cmd_write mem a c = (m1, a1)" by fastforce
  with Cons.prems cmd_write_next [of c a mem] have a1: "a1 = a + cmd_bytes c" by simp
  have ws: "write_stream m1 a1 cs = (mem', e)" using Cons.prems(3) w by simp
  have "mem' x = m1 x" if "x < a1" for x
    using write_stream_below [OF that, of cs m1] Cons.prems ws a1 by simp
  then have "cmd_read mem' a = Some (c, a1)"
    using cmd_write_read [of c a mem' mem] Cons.prems(1) w a1 by simp
  moreover have "read_stream (length cs) mem' a1 = Some (cs, e)"
    using Cons.IH [OF _ _ ws] Cons.prems a1 by simp
  ultimately show ?case by simp
qed simp

theorem command_stream_roundtrip_witness:
  "\<exists>mem' e. read_stream 3 mem' 64 =
     Some ([SetToken 7, SetBucketDataImmediate 1 0 5, Return], e) \<and> e = 100"
proof -
  let ?cs = "[SetToken 7, SetBucketDataImmediate 1 0 5, Return]"
  obtain mem' e where w: "write_stream (\<lambda>_. 0) 64 ?cs = (mem', e)" by fastforce
  have "read_stream (length ?cs) mem' 64 = Some (?cs, e)"
    using w by (intro command_stream_roundtrip [of ?cs 64 "\<lambda>_. 0"]) (simp_all add: kMaxSize_def)
  moreover have "e = 100" using w
    by (auto simp: cmd_sets NextCmdAddress_def NextImmediateCmdAddress_def u32_simps RoundSize_eq)
  ultimately show ?thesis by (auto simp: numeral_3_eq_3)
qed

text \<open>
  The header of a \<^verbatim>\<open>Noop\<close> counts its whole extent, but \<^verbatim>\<open>Noop::Set\<close> reports an address one
  entry beyond it.
\<close>

lemma noop_set_overshoots:
  assumes "0 < skip_count" "skip_count \<le> kMaxSize" "a + 4 * skip_count + 4 < 4294967296"
  shows "value_header (fst (Noop_Set mem a skip_count) a) =
      \<lparr>hdr_size = of_nat skip_count, hdr_command = 0\<rparr>"
    "snd (Noop_Set mem a skip_count) = a + 4 * skip_count + 4"
  using assms
  by (simp_all add: Noop_Set_def Noop_Init_def NextImmediateCmdAddress_def u32_simps RoundSize_eq
      sizeof_uint32_def CommandHeader_Init_def)

text \<open>Setting a bit field stores the value cut to its length and leaves every disjoint field alone.\<close>

theorem bitfield_set_get:
  assumes "0 < len" "shift + len \<le> 32"
  shows "BitField_Get shift len (BitField_Set shift len c v) = take_bit len v \<and>
    (\<forall>sh2 len2. 0 < len2 \<longrightarrow> sh2 + len2 \<le> shift \<or> shift + len \<le> sh2 \<longrightarrow>
       BitField_Get sh2 len2 (BitField_Set shift len c v) = BitField_Get sh2 len2 c)"
proof (intro conjI allI impI)
  show "BitField_Get shift len (BitField_Set shift len c v) = take_bit len v"
    using assms by (intro bit_eqI)
      (auto simp: BitField_Get_def BitField_Set_def BitField_MakeValue_def BitField_kMask_eq bit_simps)
next
  fix sh2 len2 :: nat
  assume "0 < len2" and d: "sh2 + len2 \<le> shift \<or> shift + len \<le> sh2"
  then show "BitField_Get sh2 len2 (BitField_Set shift len c v) = BitField_Get sh2 len2 c"
    using assms by (intro bit_eqI)
      (auto simp: BitField_Get_def BitField_Set_def BitField_MakeValue_def BitField_kMask_eq bit_simps
        dest: bit_imp_le_length)
qed

theorem bitfield_set_get_witness: "BitField_Get 21 11 (BitField_Set 21 11 5 7) = take_bit 11 7"
  using bitfield_set_get [of 11 21 5 7] by simp

end
