(* ===== verification/Command_Buffer_Service.thy ===== *)
theory Command_Buffer_Service
  imports Cmd_Buffer_Common
begin

text \<open>
  \<^verbatim>\<open>common/command_buffer.h\<close>, \<^verbatim>\<open>common/buffer.h\<close> and \<^verbatim>\<open>service/command_buffer_service.{h,cc}\<close>: the
  service end of a command buffer: the ring buffer's offsets, token and error, and the table of
  transfer buffers.

  A shared memory object is named by a number and a mapped pointer by the object it points into;
  what the operating system answers to the calls of \<^verbatim>\<open>base::SharedMemory\<close> (create, share, map) is
  an argument. The entries of the ring buffer are the field \<open>ring_entries\<close>. The record is
  extensible: the objects that the put-offset callback works on are the fields of an extension,
  and the callback is an argument of the operations that run it, \<^const>\<open>None\<close> standing for a
  callback that does not return.
\<close>

section \<open>Data\<close>

definition kMaxCommandBufferSize :: int where
  "kMaxCommandBufferSize = 4 * 1024 * 1024"

record Buffer =
  buf_ptr :: "nat option"
  buf_size :: nat
  buf_shared_memory :: "nat option"

definition null_buffer :: Buffer where
  "null_buffer = \<lparr>buf_ptr = None, buf_size = 0, buf_shared_memory = None\<rparr>"

record CommandBuffer_State =
  num_entries :: int
  get_offset :: int
  put_offset :: int
  token :: int
  error :: Error
  context_lost_reason :: ContextLostReason
  generation :: nat

definition CommandBuffer_State_new :: CommandBuffer_State where
  "CommandBuffer_State_new = \<lparr>num_entries = 0, get_offset = 0, put_offset = 0, token = - 1,
     error = kNoError, context_lost_reason = kUnknown, generation = 0\<rparr>"

record CommandBufferService =
  ring_buffer_' :: Buffer
  ring_entries :: "CommandBufferEntry list"
  num_entries_' :: int
  get_offset_' :: int
  put_offset_' :: int
  put_offset_change_callback_' :: bool
  parse_error_callback_' :: bool
  registered_objects_' :: "Buffer list"
  unused_registered_object_elements_' :: "int set"
  token_' :: int
  generation_' :: nat
  error_' :: Error
  context_lost_reason_' :: ContextLostReason

text \<open>The constructor leaves \<^verbatim>\<open>context_lost_reason_\<close> uninitialised: it is an argument.\<close>

definition CommandBufferService_new :: "ContextLostReason \<Rightarrow> CommandBufferService" where
  "CommandBufferService_new uninit = \<lparr>ring_buffer_' = null_buffer, ring_entries = [], num_entries_' = 0,
     get_offset_' = 0, put_offset_' = 0, put_offset_change_callback_' = False,
     parse_error_callback_' = False, registered_objects_' = [null_buffer],
     unused_registered_object_elements_' = {}, token_' = 0, generation_' = 0, error_' = kNoError,
     context_lost_reason_' = uninit\<rparr>"

section \<open>Initialization\<close>

text \<open>
  \<open>shm\<close> is the duplicated handle if \<^verbatim>\<open>ShareToProcess\<close> succeeds, \<open>mapped\<close> the contents of the mapping
  if \<^verbatim>\<open>Map\<close> succeeds.
\<close>

definition Initialize_buffer ::
    "nat option \<Rightarrow> CommandBufferEntry list option \<Rightarrow> int \<Rightarrow>
     'a CommandBufferService_scheme \<Rightarrow> bool \<times> 'a CommandBufferService_scheme" where
  "Initialize_buffer shm mapped sz s =
     (if buf_shared_memory (ring_buffer_' s) \<noteq> None then (False, s)
      else (case shm of
              None \<Rightarrow> (False, s)
            | Some obj \<Rightarrow>
                (case mapped of
                   None \<Rightarrow> (False, s\<lparr>ring_buffer_' := (ring_buffer_' s)\<lparr>buf_shared_memory := None\<rparr>\<rparr>)
                 | Some entries \<Rightarrow>
                     (True, s\<lparr>ring_buffer_' := \<lparr>buf_ptr = Some obj, buf_size = nat (sz mod 2 ^ 32),
                                               buf_shared_memory = Some obj\<rparr>,
                              ring_entries := entries,
                              num_entries_' := i32 (sz mod 2 ^ 32 div 4)\<rparr>))))"

definition Initialize ::
    "bool \<Rightarrow> nat option \<Rightarrow> CommandBufferEntry list option \<Rightarrow> int \<Rightarrow>
     'a CommandBufferService_scheme \<Rightarrow> bool \<times> 'a CommandBufferService_scheme" where
  "Initialize created shm mapped sz s =
     (if buf_shared_memory (ring_buffer_' s) \<noteq> None then (False, s)
      else if sz \<le> 0 \<or> sz > kMaxCommandBufferSize then (False, s)
      else (let s' = s\<lparr>num_entries_' := i32 (sz mod 2 ^ 32 div 4)\<rparr> in
            if \<not> created then (True, s') else Initialize_buffer shm mapped sz s'))"

definition GetRingBuffer :: "'a CommandBufferService_scheme \<Rightarrow> Buffer" where
  "GetRingBuffer s = ring_buffer_' s"

section \<open>State and flushes\<close>

definition GetState ::
    "'a CommandBufferService_scheme \<Rightarrow> CommandBuffer_State \<times> 'a CommandBufferService_scheme" where
  "GetState s =
     (let s' = s\<lparr>generation_' := u32_add (generation_' s) 1\<rparr> in
      (\<lparr>num_entries = num_entries_' s, get_offset = get_offset_' s, put_offset = put_offset_' s,
        token = token_' s, error = error_' s, context_lost_reason = context_lost_reason_' s,
        generation = generation_' s'\<rparr>, s'))"

definition GetLastState ::
    "'a CommandBufferService_scheme \<Rightarrow> CommandBuffer_State \<times> 'a CommandBufferService_scheme" where
  "GetLastState s = GetState s"

type_synonym 'a put_callback = "'a CommandBufferService_scheme \<Rightarrow> 'a CommandBufferService_scheme option"

definition FlushSync :: "'a put_callback \<Rightarrow> int \<Rightarrow> int \<Rightarrow> 'a CommandBufferService_scheme \<Rightarrow>
    (CommandBuffer_State \<times> 'a CommandBufferService_scheme) option" where
  "FlushSync callback put last_known_get s =
     (if put < 0 \<or> put > num_entries_' s then Some (GetState (s\<lparr>error_' := kOutOfBounds\<rparr>))
      else (let s1 = s\<lparr>put_offset_' := put\<rparr> in
            if put_offset_change_callback_' s1
            then (case callback s1 of None \<Rightarrow> None | Some s2 \<Rightarrow> Some (GetState s2))
            else Some (GetState s1)))"

definition Flush :: "'a put_callback \<Rightarrow> int \<Rightarrow> 'a CommandBufferService_scheme \<Rightarrow>
    'a CommandBufferService_scheme option" where
  "Flush callback put s =
     (if put < 0 \<or> put > num_entries_' s then Some (s\<lparr>error_' := kOutOfBounds\<rparr>)
      else (let s1 = s\<lparr>put_offset_' := put\<rparr> in
            if put_offset_change_callback_' s1 then callback s1 else Some s1))"

definition SetGetOffset :: "int \<Rightarrow> 'a CommandBufferService_scheme \<Rightarrow> 'a CommandBufferService_scheme" where
  "SetGetOffset get s = s\<lparr>get_offset_' := get\<rparr>"

definition Service_SetToken :: "int \<Rightarrow> 'a CommandBufferService_scheme \<Rightarrow> 'a CommandBufferService_scheme" where
  "Service_SetToken t s = s\<lparr>token_' := t\<rparr>"

definition SetParseError ::
    "('a CommandBufferService_scheme \<Rightarrow> 'a CommandBufferService_scheme) \<Rightarrow> Error \<Rightarrow>
     'a CommandBufferService_scheme \<Rightarrow> 'a CommandBufferService_scheme" where
  "SetParseError callback e s =
     (if error_' s = kNoError
      then (let s1 = s\<lparr>error_' := e\<rparr> in if parse_error_callback_' s1 then callback s1 else s1)
      else s)"

definition SetContextLostReason ::
    "ContextLostReason \<Rightarrow> 'a CommandBufferService_scheme \<Rightarrow> 'a CommandBufferService_scheme" where
  "SetContextLostReason reason s = s\<lparr>context_lost_reason_' := reason\<rparr>"

definition SetPutOffsetChangeCallback ::
    "bool \<Rightarrow> 'a CommandBufferService_scheme \<Rightarrow> 'a CommandBufferService_scheme" where
  "SetPutOffsetChangeCallback present s = s\<lparr>put_offset_change_callback_' := present\<rparr>"

definition SetParseErrorCallback ::
    "bool \<Rightarrow> 'a CommandBufferService_scheme \<Rightarrow> 'a CommandBufferService_scheme" where
  "SetParseErrorCallback present s = s\<lparr>parse_error_callback_' := present\<rparr>"

section \<open>Transfer buffers\<close>

text \<open>Padding the table up to \<^verbatim>\<open>id_request\<close>: \<^verbatim>\<open>resize\<close>, and the loop over the new free elements.\<close>

definition pad_objects :: "int \<Rightarrow> Buffer list \<Rightarrow> Buffer list" where
  "pad_objects id_request objs = objs @ replicate (nat id_request + 1 - length objs) null_buffer"

definition RegisterTransferBuffer ::
    "nat option \<Rightarrow> bool \<Rightarrow> nat \<Rightarrow> int \<Rightarrow>
     'a CommandBufferService_scheme \<Rightarrow> int \<times> 'a CommandBufferService_scheme" where
  "RegisterTransferBuffer shm mapped sz id_request s =
     (let objs = registered_objects_' s; unused = unused_registered_object_elements_' s in
      if unused = {} \<and> length objs > 4294967295 then (- 1, s)
      else if id_request \<noteq> - 1 \<and> (id_request > 100 \<or> id_request < - 1) then (- 1, s)
      else (case shm of
              None \<Rightarrow> (- 1, s)
            | Some obj \<Rightarrow>
                if \<not> mapped then (- 1, s)
                else
                  (let buffer = \<lparr>buf_ptr = Some obj, buf_size = sz, buf_shared_memory = Some obj\<rparr>;
                       cur_size = i32 (int (length objs)) in
                   if id_request \<noteq> - 1 \<and> cur_size \<le> id_request
                   then (id_request,
                         s\<lparr>registered_objects_' := (pad_objects id_request objs)[nat id_request := buffer],
                           unused_registered_object_elements_' := unused \<union> {cur_size..<id_request}\<rparr>)
                   else if id_request \<noteq> - 1 \<and> buf_shared_memory (objs ! nat id_request) = None
                   then (id_request,
                         s\<lparr>registered_objects_' := objs[nat id_request := buffer],
                           unused_registered_object_elements_' := unused - {id_request}\<rparr>)
                   else if unused = {}
                   then (cur_size, s\<lparr>registered_objects_' := objs @ [buffer]\<rparr>)
                   else (let handle = Min unused in
                         (handle,
                          s\<lparr>registered_objects_' := objs[nat handle := buffer],
                            unused_registered_object_elements_' := unused - {handle}\<rparr>)))))"

definition CreateTransferBuffer ::
    "bool \<Rightarrow> nat option \<Rightarrow> bool \<Rightarrow> nat \<Rightarrow> int \<Rightarrow>
     'a CommandBufferService_scheme \<Rightarrow> int \<times> 'a CommandBufferService_scheme" where
  "CreateTransferBuffer created shm mapped sz id_request s =
     (if \<not> created then (- 1, s) else RegisterTransferBuffer shm mapped sz id_request s)"

function shrink_objects :: "Buffer list \<Rightarrow> int set \<Rightarrow> Buffer list \<times> int set" where
  "shrink_objects objs unused =
     (if length objs > 1 \<and> buf_shared_memory (last objs) = None
      then shrink_objects (butlast objs) (unused - {int (length objs - 1)})
      else (objs, unused))"
  by pat_completeness auto
termination
  by (relation "measure (\<lambda>(objs, unused). length objs)") auto

declare shrink_objects.simps [simp del]

definition DestroyTransferBuffer :: "int \<Rightarrow> 'a CommandBufferService_scheme \<Rightarrow> 'a CommandBufferService_scheme" where
  "DestroyTransferBuffer handle s =
     (if handle \<le> 0 then s
      else if nat handle \<ge> length (registered_objects_' s) then s
      else (case shrink_objects ((registered_objects_' s)[nat handle := null_buffer])
                   (insert handle (unused_registered_object_elements_' s)) of
              (objs, unused) \<Rightarrow>
                s\<lparr>registered_objects_' := objs, unused_registered_object_elements_' := unused\<rparr>))"

definition GetTransferBuffer :: "int \<Rightarrow> 'a CommandBufferService_scheme \<Rightarrow> Buffer" where
  "GetTransferBuffer handle s =
     (if handle < 0 then null_buffer
      else if nat handle \<ge> length (registered_objects_' s) then null_buffer
      else registered_objects_' s ! nat handle)"

section \<open>The table of transfer buffers\<close>

definition lookup_obj :: "Buffer list \<Rightarrow> int \<Rightarrow> Buffer" where
  "lookup_obj objs h = (if h < 0 \<or> nat h \<ge> length objs then null_buffer else objs ! nat h)"

lemma GetTransferBuffer_lookup: "GetTransferBuffer h s = lookup_obj (registered_objects_' s) h"
  by (simp add: GetTransferBuffer_def lookup_obj_def)

text \<open>
  The free list is exactly the set of the empty elements above zero; the vector does not end in
  an empty element (element zero apart).
\<close>

definition table_inv :: "Buffer list \<Rightarrow> int set \<Rightarrow> bool" where
  "table_inv objs unused \<longleftrightarrow> objs \<noteq> [] \<and>
     unused = {h. 1 \<le> h \<and> nat h < length objs \<and> buf_shared_memory (objs ! nat h) = None} \<and>
     (length objs = 1 \<or> buf_shared_memory (last objs) \<noteq> None) \<and>
     (\<forall>b\<in>set objs. buf_shared_memory b = None \<longrightarrow> b = null_buffer)"

definition svc_inv :: "'a CommandBufferService_scheme \<Rightarrow> bool" where
  "svc_inv s \<longleftrightarrow> table_inv (registered_objects_' s) (unused_registered_object_elements_' s)"

lemma null_buffer_shm [simp]: "buf_shared_memory null_buffer = None"
  by (simp add: null_buffer_def)

lemma lookup_update:
  "0 \<le> h \<Longrightarrow> nat h < length objs \<Longrightarrow>
   lookup_obj (objs[nat h := b]) k = (if k = h then b else lookup_obj objs k)"
  by (auto simp: lookup_obj_def nth_list_update)

lemma lookup_pad [simp]: "lookup_obj (pad_objects n objs) k = lookup_obj objs k"
  by (auto simp: lookup_obj_def pad_objects_def nth_append)

lemma lookup_null: "buf_shared_memory (lookup_obj objs h) = None \<longleftrightarrow>
   h < 0 \<or> nat h \<ge> length objs \<or> buf_shared_memory (objs ! nat h) = None"
  by (auto simp: lookup_obj_def)

text \<open>The invariant after a buffer is put into an existing empty element.\<close>

lemma table_inv_fill:
  assumes inv: "table_inv objs unused" and h: "0 \<le> h" "nat h < length objs"
    and b: "buf_shared_memory b \<noteq> None"
  shows "table_inv (objs[nat h := b]) (unused - {h})"
proof -
  have "unused - {h} = {k. 1 \<le> k \<and> nat k < length objs \<and> buf_shared_memory (objs[nat h := b] ! nat k) = None}"
    using inv b h by (auto simp: table_inv_def nth_list_update)
  moreover have "last (objs[nat h := b]) = (if nat h = length objs - 1 then b else last objs)"
    using h by (cases objs rule: rev_cases) (auto simp: list_update_append)
  ultimately show ?thesis
    using inv b by (auto simp: table_inv_def dest!: set_update_subset_insert [THEN subsetD])
qed

lemma table_inv_push:
  assumes "table_inv objs {}" "buf_shared_memory b \<noteq> None"
  shows "table_inv (objs @ [b]) {}"
  using assms by (auto simp: table_inv_def nth_append less_Suc_eq)

lemma table_inv_pad:
  assumes inv: "table_inv objs unused" and n: "int (length objs) \<le> n" and b: "buf_shared_memory b \<noteq> None"
  shows "table_inv ((pad_objects n objs)[nat n := b]) (unused \<union> {int (length objs)..<n})"
proof -
  define k where "k = nat n - length objs"
  have n': "nat n = length objs + k" "n = int (length objs) + int k" using n by (auto simp: k_def)
  have e: "(pad_objects n objs)[nat n := b] = objs @ replicate k null_buffer @ [b]"
    by (simp add: pad_objects_def n'(1) list_update_append replicate_append_same [symmetric])
  have "unused \<union> {int (length objs)..<n} =
    {h. 1 \<le> h \<and> nat h < length objs + k + 1 \<and>
        buf_shared_memory ((objs @ replicate k null_buffer @ [b]) ! nat h) = None}" (is "?l = ?r")
  proof (rule set_eqI)
    fix h
    have pos: "1 \<le> int (length objs)" using inv by (cases objs) (auto simp: table_inv_def)
    consider "h < 1" | "1 \<le> h" "nat h < length objs" | "1 \<le> h" "length objs \<le> nat h" "nat h < length objs + k"
      | "nat h = length objs + k" "1 \<le> h" | "nat h > length objs + k" "1 \<le> h" by linarith
    then show "h \<in> ?l \<longleftrightarrow> h \<in> ?r"
      using inv b pos by cases (auto simp: table_inv_def nth_append n')
  qed
  moreover have "x = null_buffer" if "x \<in> set objs \<union> set (replicate k null_buffer)" "buf_shared_memory x = None" for x
    using that inv by (auto simp: table_inv_def)
  ultimately show ?thesis using b unfolding e table_inv_def by auto
qed

lemma shrink_objects_spec:
  "objs \<noteq> [] \<Longrightarrow> \<forall>b\<in>set objs. buf_shared_memory b = None \<longrightarrow> b = null_buffer \<Longrightarrow>
   unused = {h. 1 \<le> h \<and> nat h < length objs \<and> buf_shared_memory (objs ! nat h) = None} \<Longrightarrow>
   table_inv (fst (shrink_objects objs unused)) (snd (shrink_objects objs unused)) \<and>
   lookup_obj (fst (shrink_objects objs unused)) = lookup_obj objs"
proof (induction objs unused rule: shrink_objects.induct)
  case (1 objs unused)
  show ?case
  proof (cases "length objs > 1 \<and> buf_shared_memory (last objs) = None")
    case True
    then obtain ys b where objs: "objs = ys @ [b]" "ys \<noteq> []" by (cases objs rule: rev_cases) auto
    have b: "b = null_buffer" using True "1.prems"(2) objs by simp
    let ?u = "unused - {int (length objs - 1)}"
    have u: "?u = {h. 1 \<le> h \<and> nat h < length ys \<and> buf_shared_memory (ys ! nat h) = None}"
      using "1.prems"(3) by (auto simp: objs nth_append less_Suc_eq)
    have "lookup_obj ys = lookup_obj objs" by (rule ext) (auto simp: lookup_obj_def objs nth_append b)
    moreover have "shrink_objects objs unused = shrink_objects ys ?u"
      using True by (subst shrink_objects.simps) (simp add: objs)
    ultimately show ?thesis using "1.IH" [OF True] "1.prems"(2) u objs by simp
  next
    case False
    then have "shrink_objects objs unused = (objs, unused)" by (subst shrink_objects.simps) auto
    moreover have "length objs = 1 \<or> 1 < length objs" using "1.prems"(1) by (cases objs) auto
    ultimately show ?thesis using False "1.prems" by (auto simp: table_inv_def)
  qed
qed

lemma register_spec:
  assumes inv: "table_inv (registered_objects_' s) (unused_registered_object_elements_' s)"
    and len: "length (registered_objects_' s) < 2147483647"
    and req: "- 1 \<le> req" "req \<le> 100"
    and r: "RegisterTransferBuffer (Some obj) True sz req s = (i, s')"
  shows "svc_inv s'" "0 \<le> i" "buf_shared_memory (GetTransferBuffer i s) = None"
    "GetTransferBuffer h s' = (if h = i then \<lparr>buf_ptr = Some obj, buf_size = sz, buf_shared_memory = Some obj\<rparr>
       else GetTransferBuffer h s)"
    "req \<noteq> - 1 \<Longrightarrow> buf_shared_memory (GetTransferBuffer req s) = None \<Longrightarrow> i = req" "i = 0 \<Longrightarrow> req = 0"
proof -
  let ?objs = "registered_objects_' s" and ?unused = "unused_registered_object_elements_' s"
  let ?b = "\<lparr>buf_ptr = Some obj, buf_size = sz, buf_shared_memory = Some obj\<rparr>"
  have cur: "i32 (int (length ?objs)) = int (length ?objs)" using len by simp
  have un: "\<And>h. h \<in> ?unused \<longleftrightarrow> 1 \<le> h \<and> nat h < length ?objs \<and> buf_shared_memory (?objs ! nat h) = None"
    using inv by (simp add: table_inv_def)
  have "finite ?unused" by (rule finite_subset [of _ "{0..int (length ?objs)}"]) (auto simp: un)
  then have min: "Min ?unused \<in> ?unused" if "?unused \<noteq> {}" using that by simp
  define A where "A \<longleftrightarrow> req \<noteq> - 1 \<and> int (length ?objs) \<le> req"
  define B where "B \<longleftrightarrow> \<not> A \<and> req \<noteq> - 1 \<and> buf_shared_memory (?objs ! nat req) = None"
  consider A | B | "\<not> A" "\<not> B" "?unused = {}" | "\<not> A" "\<not> B" "?unused \<noteq> {}" by blast
  then have "svc_inv s' \<and> 0 \<le> i \<and> buf_shared_memory (GetTransferBuffer i s) = None \<and>
    (\<forall>h. GetTransferBuffer h s' = (if h = i then ?b else GetTransferBuffer h s)) \<and>
    (req \<noteq> - 1 \<longrightarrow> buf_shared_memory (GetTransferBuffer req s) = None \<longrightarrow> i = req) \<and> (i = 0 \<longrightarrow> req = 0)"
  proof cases
    case 1
    then have q: "0 \<le> req" "int (length ?objs) \<le> req" by (auto simp: A_def)
    have "i = req" "s' = s\<lparr>registered_objects_' := (pad_objects req ?objs)[nat req := ?b],
        unused_registered_object_elements_' := ?unused \<union> {int (length ?objs)..<req}\<rparr>"
      using r req 1 len by (auto simp: RegisterTransferBuffer_def Let_def cur A_def split: if_splits)
    moreover have "nat req < length (pad_objects req ?objs)" by (simp add: pad_objects_def)
    ultimately show ?thesis
      using table_inv_pad [OF inv q(2), of ?b] q
      by (auto simp: svc_inv_def GetTransferBuffer_lookup lookup_update lookup_null)
  next
    case 2
    then have q: "0 \<le> req" "nat req < length ?objs" using req by (auto simp: A_def B_def)
    have "i = req" "s' = s\<lparr>registered_objects_' := ?objs[nat req := ?b],
        unused_registered_object_elements_' := ?unused - {req}\<rparr>"
      using r req 2 len by (auto simp: RegisterTransferBuffer_def Let_def cur A_def B_def split: if_splits)
    then show ?thesis
      using table_inv_fill [OF inv q, of ?b] q 2
      by (auto simp: svc_inv_def GetTransferBuffer_lookup lookup_update lookup_null B_def)
  next
    case 3
    then have e: "i = int (length ?objs)" "s' = s\<lparr>registered_objects_' := ?objs @ [?b]\<rparr>"
      using r req len by (auto simp: RegisterTransferBuffer_def Let_def cur A_def B_def split: if_splits)
    have "GetTransferBuffer h s' = (if h = i then ?b else GetTransferBuffer h s)" for h
      by (auto simp: e GetTransferBuffer_lookup lookup_obj_def nth_append)
    moreover have "svc_inv s'" using table_inv_push [of ?objs ?b] inv 3 by (simp add: svc_inv_def e)
    moreover have "?objs \<noteq> []" using inv by (simp add: table_inv_def)
    ultimately show ?thesis
      using 3 req by (auto simp: e(1) GetTransferBuffer_lookup lookup_null A_def B_def)
  next
    case 4
    define m where "m = Min ?unused"
    have m: "1 \<le> m" "nat m < length ?objs" "buf_shared_memory (?objs ! nat m) = None"
      using min 4 un [of m] by (auto simp: m_def)
    have "i = m" "s' = s\<lparr>registered_objects_' := ?objs[nat m := ?b],
        unused_registered_object_elements_' := ?unused - {m}\<rparr>"
      using r req 4 len by (auto simp: RegisterTransferBuffer_def Let_def cur A_def B_def m_def split: if_splits)
    then show ?thesis
      using table_inv_fill [OF inv, of m ?b] m 4 req
      by (auto simp: svc_inv_def GetTransferBuffer_lookup lookup_update lookup_null A_def B_def)
  qed
  then show "svc_inv s'" "0 \<le> i" "buf_shared_memory (GetTransferBuffer i s) = None"
    "GetTransferBuffer h s' = (if h = i then ?b else GetTransferBuffer h s)"
    "req \<noteq> - 1 \<Longrightarrow> buf_shared_memory (GetTransferBuffer req s) = None \<Longrightarrow> i = req" "i = 0 \<Longrightarrow> req = 0"
    by blast+
qed

lemma destroy_spec:
  assumes inv: "svc_inv s"
  shows "svc_inv (DestroyTransferBuffer h s)"
    "GetTransferBuffer k (DestroyTransferBuffer h s) =
       (if k = h \<and> 0 < h then null_buffer else GetTransferBuffer k s)"
proof -
  let ?objs = "registered_objects_' s" and ?unused = "unused_registered_object_elements_' s"
  let ?new = "?objs[nat h := null_buffer]"
  have "svc_inv (DestroyTransferBuffer h s) \<and> (GetTransferBuffer k (DestroyTransferBuffer h s) =
       (if k = h \<and> 0 < h then null_buffer else GetTransferBuffer k s))"
  proof (cases "0 < h \<and> nat h < length ?objs")
    case True
    have ne: "?new \<noteq> []" using inv by (simp add: svc_inv_def table_inv_def)
    have nulls: "\<forall>b\<in>set ?new. buf_shared_memory b = None \<longrightarrow> b = null_buffer"
      using inv by (auto simp: svc_inv_def table_inv_def dest!: set_update_subset_insert [THEN subsetD])
    have u: "insert h ?unused = {k. 1 \<le> k \<and> nat k < length ?new \<and> buf_shared_memory (?new ! nat k) = None}"
      using inv True by (auto simp: svc_inv_def table_inv_def nth_list_update)
    note sp = shrink_objects_spec [OF ne nulls u]
    then have "lookup_obj (fst (shrink_objects ?new (insert h ?unused))) k =
        (if k = h then null_buffer else lookup_obj ?objs k)"
      using lookup_update [of h ?objs null_buffer k] True by simp
    moreover obtain objs' unused' where "shrink_objects ?new (insert h ?unused) = (objs', unused')"
      by fastforce
    ultimately show ?thesis
      using sp True by (simp add: DestroyTransferBuffer_def svc_inv_def GetTransferBuffer_lookup)
  next
    case False
    then show ?thesis using inv by (auto simp: DestroyTransferBuffer_def GetTransferBuffer_def)
  qed
  then show "svc_inv (DestroyTransferBuffer h s)"
    "GetTransferBuffer k (DestroyTransferBuffer h s) =
       (if k = h \<and> 0 < h then null_buffer else GetTransferBuffer k s)" by auto
qed

section \<open>Properties\<close>

text \<open>
  The transfer buffers as a partial map from handles to buffers; the states the table goes
  through from a new service when no client requests the handle 0 (the other operations do not
  touch it). The code says that element zero is always null, but does not refuse that request.
\<close>

definition transfer_map :: "'a CommandBufferService_scheme \<Rightarrow> int \<Rightarrow> Buffer option" where
  "transfer_map s h = (if buf_shared_memory (GetTransferBuffer h s) = None then None
     else Some (GetTransferBuffer h s))"

inductive svc_reach :: "'a CommandBufferService_scheme \<Rightarrow> bool" where
  svc_new: "registered_objects_' s = [null_buffer] \<Longrightarrow> unused_registered_object_elements_' s = {} \<Longrightarrow>
    svc_reach s"
| svc_other: "svc_reach s \<Longrightarrow> registered_objects_' s' = registered_objects_' s \<Longrightarrow>
    unused_registered_object_elements_' s' = unused_registered_object_elements_' s \<Longrightarrow> svc_reach s'"
| svc_register: "svc_reach s \<Longrightarrow> length (registered_objects_' s) < 2147483647 \<Longrightarrow> req \<noteq> 0 \<Longrightarrow>
    RegisterTransferBuffer shm mapped sz req s = (i, s') \<Longrightarrow> svc_reach s'"
| svc_destroy: "svc_reach s \<Longrightarrow> svc_reach (DestroyTransferBuffer h s)"

lemma register_refused:
  assumes "length (registered_objects_' s) < 2147483647"
    and "\<not> (mapped \<and> - 1 \<le> req \<and> req \<le> 100 \<and> shm \<noteq> None)"
  shows "RegisterTransferBuffer shm mapped sz req s = (- 1, s)"
proof -
  have len: "\<not> 4294967295 < length (registered_objects_' s)" using assms(1) by simp
  consider "req \<noteq> - 1" "req > 100 \<or> req < - 1" | "- 1 \<le> req" "req \<le> 100" "shm = None"
    | obj where "- 1 \<le> req" "req \<le> 100" "shm = Some obj" "\<not> mapped" using assms(2) by fastforce
  then show ?thesis
    by cases (simp_all add: RegisterTransferBuffer_def Let_def len)
qed

lemma register_cases:
  assumes "RegisterTransferBuffer shm mapped sz req s = (i, s')"
    and "length (registered_objects_' s) < 2147483647"
  shows "(i = - 1 \<and> s' = s) \<or> (\<exists>obj. shm = Some obj \<and> mapped \<and> - 1 \<le> req \<and> req \<le> 100)"
  using assms(1) register_refused [OF assms(2), of mapped req shm sz] by fastforce

lemma svc_reach_inv: "svc_reach s \<Longrightarrow> svc_inv s \<and> transfer_map s 0 = None"
proof (induction rule: svc_reach.induct)
  case (svc_register s req shm mapped sz i s')
  from register_cases [OF svc_register.hyps(4,2)] show ?case
  proof (elim disjE exE conjE)
    fix obj assume a: "shm = Some obj" "mapped" "- 1 \<le> req" "req \<le> 100"
    from svc_register.hyps(4) a(1,2) have r: "RegisterTransferBuffer (Some obj) True sz req s = (i, s')" by simp
    have inv: "table_inv (registered_objects_' s) (unused_registered_object_elements_' s)"
      using svc_register.IH by (simp add: svc_inv_def)
    note R = register_spec [OF inv svc_register.hyps(2) a(3,4) r]
    have "i \<noteq> 0" using R(6) svc_register.hyps(3) by blast
    then show ?thesis using R(1,4) svc_register.IH by (simp add: transfer_map_def split: if_splits)
  qed (simp add: svc_register.IH)
next
  case (svc_destroy s h)
  then show ?case by (simp add: destroy_spec transfer_map_def split: if_splits)
qed (auto simp: svc_inv_def table_inv_def transfer_map_def GetTransferBuffer_lookup lookup_obj_def null_buffer_def
    split: if_splits)

text \<open>
  C15: Registering and destroying transfer buffers update a map from positive handles: a registration
  that the operating system allows puts the buffer under a handle that was free (the requested one
  if it was), any other registration changes nothing and answers -1, and destroying removes
  exactly that handle (handles that are not positive are ignored). Handle 0 stays free as long as no
  client requests it; a request for 0 is granted, against the comment that element zero is always
  null, and the buffer stored there cannot be destroyed.
\<close>

theorem transfer_buffers_refine_map:
  assumes "svc_reach s" "length (registered_objects_' s) < 2147483647"
    and "RegisterTransferBuffer shm mapped sz req s = (i, s')"
  shows "transfer_map s 0 = None \<and>
    (if mapped \<and> - 1 \<le> req \<and> req \<le> 100 \<and> shm \<noteq> None
     then (if req = 0 then i = 0 \<and> (\<forall>k. transfer_map (DestroyTransferBuffer k s') 0 \<noteq> None) else 0 < i) \<and>
       transfer_map s i = None \<and> (req \<noteq> - 1 \<and> transfer_map s req = None \<longrightarrow> i = req) \<and>
       transfer_map s' = (transfer_map s)(i \<mapsto> \<lparr>buf_ptr = shm, buf_size = sz, buf_shared_memory = shm\<rparr>)
     else i = - 1 \<and> s' = s) \<and>
    transfer_map (DestroyTransferBuffer h s) = (if 0 < h then (transfer_map s)(h := None) else transfer_map s)"
proof -
  note inv = svc_reach_inv [OF assms(1), THEN conjunct1] and zero = svc_reach_inv [OF assms(1), THEN conjunct2]
  have d: "transfer_map (DestroyTransferBuffer h t) =
      (if 0 < h then (transfer_map t)(h := None) else transfer_map t)" if "svc_inv t" for h t
    by (rule ext) (simp add: transfer_map_def destroy_spec(2) [OF that])
  show ?thesis
  proof (cases "mapped \<and> - 1 \<le> req \<and> req \<le> 100 \<and> shm \<noteq> None")
    case True
    then obtain obj where obj: "shm = Some obj" by blast
    with True assms(3) have "RegisterTransferBuffer (Some obj) True sz req s = (i, s')" by simp
    note R = register_spec [OF inv [unfolded svc_inv_def] assms(2) _ _ this]
    have q: "- 1 \<le> req" "req \<le> 100" using True by auto
    have m: "transfer_map s' = (transfer_map s)(i \<mapsto> \<lparr>buf_ptr = shm, buf_size = sz, buf_shared_memory = shm\<rparr>)"
      by (rule ext) (simp add: transfer_map_def R(4) [OF q] obj)
    have r: "req \<noteq> - 1 \<and> transfer_map s req = None \<longrightarrow> i = req"
      using R(5) [OF q] by (simp add: transfer_map_def split: if_splits)
    have "transfer_map s i = None" using R(3) [OF q] by (simp add: transfer_map_def)
    moreover have "if req = 0 then i = 0 \<and> (\<forall>k. transfer_map (DestroyTransferBuffer k s') 0 \<noteq> None) else 0 < i"
    proof (cases "req = 0")
      case True
      then have i: "i = 0" using r zero by simp
      then show ?thesis using True m by (simp add: d [OF R(1) [OF q]])
    next
      case False
      then have "i \<noteq> 0" using R(6) [OF q] by blast
      then show ?thesis using R(2) [OF q] False by simp
    qed
    ultimately show ?thesis using True m r zero by (simp add: d [OF inv])
  next
    case False
    with register_cases [OF assms(3,2)] d [OF inv] zero show ?thesis by auto
  qed
qed

theorem transfer_buffers_refine_map_witness:
  "transfer_map (snd (RegisterTransferBuffer (Some 5) True 64 3 (CommandBufferService_new kUnknown))) 3 =
     Some \<lparr>buf_ptr = Some 5, buf_size = 64, buf_shared_memory = Some 5\<rparr>"
proof -
  let ?s = "CommandBufferService_new kUnknown"
  obtain i s' where r: "RegisterTransferBuffer (Some 5) True 64 3 ?s = (i, s')" by fastforce
  have "svc_reach ?s" by (rule svc_new) (simp_all add: CommandBufferService_new_def)
  moreover have "length (registered_objects_' ?s) < 2147483647" by (simp add: CommandBufferService_new_def)
  moreover have "transfer_map ?s 3 = None"
    by (simp add: transfer_map_def GetTransferBuffer_def CommandBufferService_new_def)
  ultimately show ?thesis using transfer_buffers_refine_map [OF _ _ r, of 0] r by simp
qed

text \<open>
  \<^verbatim>\<open>Flush\<close> and \<^verbatim>\<open>FlushSync\<close> refuse an offset outside the buffer: the error becomes out of
  bounds, the put offset stays and the reader is not run; and the first parse error sticks.
\<close>

lemma flush_bounds_and_sticky_error:
  "(put < 0 \<or> num_entries_' s < put \<longrightarrow>
     Flush callback put s = Some (s\<lparr>error_' := kOutOfBounds\<rparr>) \<and>
     (\<exists>st s'. FlushSync callback put last_get s = Some (st, s') \<and> error st = kOutOfBounds \<and>
        put_offset st = put_offset_' s \<and> get_offset st = get_offset_' s)) \<and>
   (\<not> (put < 0 \<or> num_entries_' s < put) \<and> put_offset_change_callback_' s \<longrightarrow>
     Flush callback put s = callback (s\<lparr>put_offset_' := put\<rparr>)) \<and>
   (error_' s \<noteq> kNoError \<longrightarrow> SetParseError pe e s = s) \<and>
   (error_' s = kNoError \<and> \<not> parse_error_callback_' s \<longrightarrow> error_' (SetParseError pe e s) = e)"
  by (auto simp: Flush_def FlushSync_def GetState_def SetParseError_def Let_def)

end
