(* ===== verification/Token_Interface.thy ===== *)
theory Token_Interface
  imports Prelude
begin

text \<open>
  The part of \<^verbatim>\<open>CommandBufferHelper\<close> that the client allocators call: waiting for a token
  and reading the last token the service has passed. The operations are a record (the
  allocators are given a pointer to a helper); \<^const>\<open>None\<close> as the result of a wait means that
  the call does not return. The locale states what the allocators rely on.
\<close>

record 'h token_if =
  tok_wait :: "int \<Rightarrow> 'h \<Rightarrow> 'h option"
  tok_last_read :: "'h \<Rightarrow> int"

text \<open>
  \<open>passed t h\<close>: in the helper state \<open>h\<close> the memory fenced by token \<open>t\<close> may be used again.
\<close>

locale token_interface =
  fixes ops :: "'h token_if"
    and passed :: "int \<Rightarrow> 'h \<Rightarrow> bool"
    and hinv :: "'h \<Rightarrow> bool"
  assumes wait_passed: "hinv h \<Longrightarrow> tok_wait ops t h = Some h' \<Longrightarrow> passed t h'"
    and wait_keeps: "hinv h \<Longrightarrow> tok_wait ops t h = Some h' \<Longrightarrow> passed u h \<Longrightarrow> passed u h'"
    and wait_inv: "hinv h \<Longrightarrow> tok_wait ops t h = Some h' \<Longrightarrow> hinv h'"
    and read_passed: "hinv h \<Longrightarrow> t \<le> tok_last_read ops h \<Longrightarrow> passed t h"

text \<open>A helper on which every wait returns.\<close>

locale live_token_interface = token_interface +
  assumes wait_returns: "hinv h \<Longrightarrow> \<exists>h'. tok_wait ops t h = Some h'"

end
