(* ===== verification/Cmd_Buffer_Helper.thy ===== *)
theory Cmd_Buffer_Helper
  imports Command_Buffer_Service Token_Interface
begin

text \<open>
  \<^verbatim>\<open>client/cmd_buffer_helper.{h,cc}\<close>: the client end of a command buffer. The helper owns the put
  offset, hands out space in the ring buffer, wraps with a \<^verbatim>\<open>Jump\<close>, waits for the service and
  issues tokens. The \<^verbatim>\<open>CommandBuffer\<close> it works on is an interface of virtual functions; here it is
  the record \<open>CommandBuffer_if\<close> of operations on a world \<open>'w\<close>, together with the accesses through
  the pointer \<^verbatim>\<open>entries_\<close> and \<^verbatim>\<open>clock()\<close>. \<^verbatim>\<open>GetLastState\<close> is a read. \<^const>\<open>None\<close> means that a call does
  not return.

  The locale \<open>command_buffer\<close> is the contract the helper relies on: a flush executes a prefix of the
  commands that are pending between the get and the put offset. Under it each command that is
  issued without an error is appended to the pending ones, and nothing else is written over.
\<close>

record 'w CommandBuffer_if =
  cb_GetRingBuffer :: "'w \<Rightarrow> Buffer"
  cb_GetState :: "'w \<Rightarrow> CommandBuffer_State \<times> 'w"
  cb_GetLastState :: "'w \<Rightarrow> CommandBuffer_State"
  cb_Flush :: "int \<Rightarrow> 'w \<Rightarrow> 'w option"
  cb_FlushSync :: "int \<Rightarrow> int \<Rightarrow> 'w \<Rightarrow> (CommandBuffer_State \<times> 'w) option"
  cb_read :: "int \<Rightarrow> 'w \<Rightarrow> CommandBufferEntry"
  cb_write :: "int \<Rightarrow> CommandBufferEntry list \<Rightarrow> 'w \<Rightarrow> 'w"
  cb_clock :: "'w \<Rightarrow> int \<times> 'w"

record 'w CommandBufferHelper =
  command_buffer_' :: 'w
  helper_ring_buffer_' :: Buffer
  total_entry_count_' :: int
  usable_entry_count_' :: int
  helper_token_' :: int
  put_' :: int
  last_put_sent_' :: int
  commands_issued_' :: int
  last_flush_time_' :: int

section \<open>Set-up and flushes\<close>

definition CommandBufferHelper_new :: "'w \<Rightarrow> 'w CommandBufferHelper" where
  "CommandBufferHelper_new w = \<lparr>command_buffer_' = w, helper_ring_buffer_' = null_buffer,
     total_entry_count_' = 0, usable_entry_count_' = 0, helper_token_' = 0, put_' = 0,
     last_put_sent_' = 0, commands_issued_' = 0, last_flush_time_' = 0\<rparr>"

definition kJumpEntries :: int where
  "kJumpEntries = int (sizeof_cmd kJump div 4)"

definition Helper_Initialize ::
    "'w CommandBuffer_if \<Rightarrow> int \<Rightarrow> 'w CommandBufferHelper \<Rightarrow> bool \<times> 'w CommandBufferHelper" where
  "Helper_Initialize cb ring_buffer_size h =
     (let h1 = h\<lparr>helper_ring_buffer_' := cb_GetRingBuffer cb (command_buffer_' h)\<rparr> in
      if buf_ptr (helper_ring_buffer_' h1) = None then (False, h1)
      else
        (case cb_GetState cb (command_buffer_' h1) of (state, w) \<Rightarrow>
           let h2 = h1\<lparr>command_buffer_' := w\<rparr>;
               num_ring_buffer_entries = i32 (ring_buffer_size mod 2 ^ 32 div 4) in
           if num_ring_buffer_entries > num_entries state then (False, h2)
           else (True, h2\<lparr>total_entry_count_' := num_ring_buffer_entries,
                          usable_entry_count_' := num_ring_buffer_entries - kJumpEntries,
                          put_' := put_offset state\<rparr>)))"

definition last_token_read :: "'w CommandBuffer_if \<Rightarrow> 'w CommandBufferHelper \<Rightarrow> int" where
  "last_token_read cb h = token (cb_GetLastState cb (command_buffer_' h))"

definition helper_get_offset :: "'w CommandBuffer_if \<Rightarrow> 'w CommandBufferHelper \<Rightarrow> int" where
  "helper_get_offset cb h = get_offset (cb_GetLastState cb (command_buffer_' h))"

definition start_flush :: "'w CommandBuffer_if \<Rightarrow> 'w CommandBufferHelper \<Rightarrow> 'w CommandBufferHelper" where
  "start_flush cb h =
     (case cb_clock cb (command_buffer_' h) of (t, w) \<Rightarrow>
        h\<lparr>command_buffer_' := w, last_flush_time_' := t, last_put_sent_' := put_' h\<rparr>)"

definition Helper_FlushSync ::
    "'w CommandBuffer_if \<Rightarrow> 'w CommandBufferHelper \<Rightarrow> (bool \<times> 'w CommandBufferHelper) option" where
  "Helper_FlushSync cb h =
     (let h1 = start_flush cb h in
      map_option (\<lambda>(state, w). (error state = kNoError, h1\<lparr>command_buffer_' := w\<rparr>))
        (cb_FlushSync cb (put_' h1) (helper_get_offset cb h1) (command_buffer_' h1)))"

definition Helper_Flush ::
    "'w CommandBuffer_if \<Rightarrow> 'w CommandBufferHelper \<Rightarrow> 'w CommandBufferHelper option" where
  "Helper_Flush cb h =
     (let h1 = start_flush cb h in
      map_option (\<lambda>w. h1\<lparr>command_buffer_' := w\<rparr>) (cb_Flush cb (put_' h1) (command_buffer_' h1)))"

text \<open>
  The waiting loops all read \<^verbatim>\<open>while (cond) { if (!FlushSync()) return; }\<close>; the result False stands
  for the early return.
\<close>

partial_function (option) flush_while :: "'w CommandBuffer_if \<Rightarrow> ('w CommandBufferHelper \<Rightarrow> bool) \<Rightarrow>
    'w CommandBufferHelper \<Rightarrow> (bool \<times> 'w CommandBufferHelper) option" where
  "flush_while cb cond h =
     (if cond h
      then Option.bind (Helper_FlushSync cb h)
             (\<lambda>(ok, h1). if \<not> ok then Some (False, h1) else flush_while cb cond h1)
      else Some (True, h))"

text \<open>A \<^verbatim>\<open>do ... while\<close> loop: the first flush comes before the test.\<close>

definition Finish ::
    "'w CommandBuffer_if \<Rightarrow> 'w CommandBufferHelper \<Rightarrow> (bool \<times> 'w CommandBufferHelper) option" where
  "Finish cb h =
     Option.bind (Helper_FlushSync cb h)
       (\<lambda>(ok, h1). if \<not> ok then Some (False, h1)
                  else flush_while cb (\<lambda>h. put_' h \<noteq> helper_get_offset cb h) h1)"

section \<open>Space in the ring buffer\<close>

definition write_at ::
    "'w CommandBuffer_if \<Rightarrow> int \<Rightarrow> CommandBufferEntry list \<Rightarrow> 'w CommandBufferHelper \<Rightarrow> 'w CommandBufferHelper" where
  "write_at cb i es h = h\<lparr>command_buffer_' := cb_write cb i es (command_buffer_' h)\<rparr>"

text \<open>The jump back to the start: \<^verbatim>\<open>cmd::Jump::Set(&entries_[put_], 0); put_ = 0;\<close>.\<close>

definition jump_to_start :: "'w CommandBuffer_if \<Rightarrow> 'w CommandBufferHelper \<Rightarrow> 'w CommandBufferHelper" where
  "jump_to_start cb h = (write_at cb (put_' h) (Jump_Init 0) h)\<lparr>put_' := 0\<rparr>"

definition AvailableEntries :: "'w CommandBuffer_if \<Rightarrow> 'w CommandBufferHelper \<Rightarrow> int" where
  "AvailableEntries cb h =
     (helper_get_offset cb h - put_' h - 1 + usable_entry_count_' h) smod usable_entry_count_' h"

definition wrap_blocked :: "'w CommandBuffer_if \<Rightarrow> 'w CommandBufferHelper \<Rightarrow> bool" where
  "wrap_blocked cb h \<longleftrightarrow> helper_get_offset cb h > put_' h \<or> helper_get_offset cb h = 0"

definition kCommandsPerFlushCheck :: int where
  "kCommandsPerFlushCheck = 100"

text \<open>
  \<^verbatim>\<open>kFlushDelay * CLOCKS_PER_SEC\<close> is \<open>10^6 / 300\<close> ticks: the comparison is multiplied out.
\<close>

definition flush_delay_passed :: "int \<Rightarrow> int \<Rightarrow> bool" where
  "flush_delay_passed current_time last_time \<longleftrightarrow> (current_time - last_time) * 300 > 1000000"

definition maybe_flush ::
    "'w CommandBuffer_if \<Rightarrow> 'w CommandBufferHelper \<Rightarrow> 'w CommandBufferHelper option" where
  "maybe_flush cb h =
     (let pending = (put_' h + usable_entry_count_' h - last_put_sent_' h) smod usable_entry_count_' h;
          limit = usable_entry_count_' h sdiv (if helper_get_offset cb h = last_put_sent_' h then 16 else 2) in
      if pending > limit then Helper_Flush cb h
      else if commands_issued_' h smod kCommandsPerFlushCheck = 0 then
        (case cb_clock cb (command_buffer_' h) of (current_time, w) \<Rightarrow>
           let h1 = h\<lparr>command_buffer_' := w\<rparr> in
           if flush_delay_passed current_time (last_flush_time_' h1) then Helper_Flush cb h1 else Some h1)
      else Some h)"

definition WaitForAvailableEntries ::
    "'w CommandBuffer_if \<Rightarrow> int \<Rightarrow> 'w CommandBufferHelper \<Rightarrow> 'w CommandBufferHelper option" where
  "WaitForAvailableEntries cb count h =
     Option.bind
       (if put_' h + count > usable_entry_count_' h
        then map_option (\<lambda>(ok, h1). (ok, if ok then jump_to_start cb h1 else h1)) (flush_while cb (wrap_blocked cb) h)
        else Some (True, h))
       (\<lambda>(ok, h1). if \<not> ok then Some h1
          else Option.bind (flush_while cb (\<lambda>h. AvailableEntries cb h < count) h1)
                 (\<lambda>(ok, h2). if \<not> ok then Some h2 else maybe_flush cb h2))"

definition GetSpace ::
    "'w CommandBuffer_if \<Rightarrow> nat \<Rightarrow> 'w CommandBufferHelper \<Rightarrow> (int \<times> 'w CommandBufferHelper) option" where
  "GetSpace cb entries h =
     map_option
       (\<lambda>h1. let space = put_' h1; h2 = h1\<lparr>put_' := i32 (put_' h1 + int entries)\<rparr> in
              (space, if put_' h2 = usable_entry_count_' h2 then jump_to_start cb h2 else h2))
       (WaitForAvailableEntries cb (i32 (int entries))
          (h\<lparr>commands_issued_' := i32 (commands_issued_' h + 1)\<rparr>))"

definition GetCmdSpace ::
    "'w CommandBuffer_if \<Rightarrow> CommandId \<Rightarrow> 'w CommandBufferHelper \<Rightarrow> (int \<times> 'w CommandBufferHelper) option" where
  "GetCmdSpace cb T = GetSpace cb (ComputeNumEntries (sizeof_cmd T))"

definition GetImmediateCmdSpace ::
    "'w CommandBuffer_if \<Rightarrow> CommandId \<Rightarrow> nat \<Rightarrow> 'w CommandBufferHelper \<Rightarrow> (int \<times> 'w CommandBufferHelper) option" where
  "GetImmediateCmdSpace cb T data_space = GetSpace cb (ComputeNumEntries (u32_add (sizeof_cmd T) data_space))"

definition GetImmediateCmdSpaceTotalSize ::
    "'w CommandBuffer_if \<Rightarrow> nat \<Rightarrow> 'w CommandBufferHelper \<Rightarrow> (int \<times> 'w CommandBufferHelper) option" where
  "GetImmediateCmdSpaceTotalSize cb total_space = GetSpace cb (ComputeNumEntries total_space)"

definition Helper_GetError ::
    "'w CommandBuffer_if \<Rightarrow> 'w CommandBufferHelper \<Rightarrow> Error \<times> 'w CommandBufferHelper" where
  "Helper_GetError cb h =
     (case cb_GetState cb (command_buffer_' h) of (state, w) \<Rightarrow> (error state, h\<lparr>command_buffer_' := w\<rparr>))"

section \<open>Common commands\<close>

text \<open>\<^verbatim>\<open>cmd.Init(...)\<close> on the space that was handed out.\<close>

definition init_cmd ::
    "'w CommandBuffer_if \<Rightarrow> CommandBufferEntry list \<Rightarrow> (int \<times> 'w CommandBufferHelper) option \<Rightarrow>
     'w CommandBufferHelper option" where
  "init_cmd cb img = map_option (\<lambda>(cmd, h). write_at cb cmd img h)"

definition Helper_Noop :: "'w CommandBuffer_if \<Rightarrow> 32 word \<Rightarrow> 'w CommandBufferHelper \<Rightarrow> 'w CommandBufferHelper option" where
  "Helper_Noop cb skip_count h =
     init_cmd cb (Noop_Init (unat skip_count)) (GetImmediateCmdSpace cb kNoop (u32_mul (unat skip_count) 4) h)"

definition Helper_SetToken :: "'w CommandBuffer_if \<Rightarrow> 32 word \<Rightarrow> 'w CommandBufferHelper \<Rightarrow> 'w CommandBufferHelper option" where
  "Helper_SetToken cb t h = init_cmd cb (SetToken_Init t) (GetCmdSpace cb kSetToken h)"

definition Helper_Jump :: "'w CommandBuffer_if \<Rightarrow> 32 word \<Rightarrow> 'w CommandBufferHelper \<Rightarrow> 'w CommandBufferHelper option" where
  "Helper_Jump cb offset h = init_cmd cb (Jump_Init offset) (GetCmdSpace cb kJump h)"

definition Helper_JumpRelative :: "'w CommandBuffer_if \<Rightarrow> 32 word \<Rightarrow> 'w CommandBufferHelper \<Rightarrow> 'w CommandBufferHelper option" where
  "Helper_JumpRelative cb offset h = init_cmd cb (JumpRelative_Init offset) (GetCmdSpace cb kJumpRelative h)"

definition Helper_Call :: "'w CommandBuffer_if \<Rightarrow> 32 word \<Rightarrow> 'w CommandBufferHelper \<Rightarrow> 'w CommandBufferHelper option" where
  "Helper_Call cb offset h = init_cmd cb (Call_Init offset) (GetCmdSpace cb kCall h)"

definition Helper_CallRelative :: "'w CommandBuffer_if \<Rightarrow> 32 word \<Rightarrow> 'w CommandBufferHelper \<Rightarrow> 'w CommandBufferHelper option" where
  "Helper_CallRelative cb offset h = init_cmd cb (CallRelative_Init offset) (GetCmdSpace cb kCallRelative h)"

definition Helper_Return :: "'w CommandBuffer_if \<Rightarrow> 'w CommandBufferHelper \<Rightarrow> 'w CommandBufferHelper option" where
  "Helper_Return cb h = init_cmd cb Return_Init (GetCmdSpace cb kReturn h)"

definition Helper_SetBucketSize ::
    "'w CommandBuffer_if \<Rightarrow> 32 word \<Rightarrow> 32 word \<Rightarrow> 'w CommandBufferHelper \<Rightarrow> 'w CommandBufferHelper option" where
  "Helper_SetBucketSize cb bucket_id sz h =
     init_cmd cb (SetBucketSize_Init bucket_id sz) (GetCmdSpace cb kSetBucketSize h)"

definition Helper_SetBucketData ::
    "'w CommandBuffer_if \<Rightarrow> 32 word \<Rightarrow> 32 word \<Rightarrow> 32 word \<Rightarrow> 32 word \<Rightarrow> 32 word \<Rightarrow>
     'w CommandBufferHelper \<Rightarrow> 'w CommandBufferHelper option" where
  "Helper_SetBucketData cb bucket_id offset sz shared_memory_id shared_memory_offset h =
     init_cmd cb (SetBucketData_Init bucket_id offset sz shared_memory_id shared_memory_offset)
       (GetCmdSpace cb kSetBucketData h)"

text \<open>
  \<^verbatim>\<open>memcpy\<close> into entries: four bytes fill an entry, the bytes behind the last one stay as they were.
\<close>

definition bytes_entry :: "byte list \<Rightarrow> CommandBufferEntry" where
  "bytes_entry bs = ucast (bs ! 0) + push_bit 8 (ucast (bs ! 1)) + push_bit 16 (ucast (bs ! 2)) +
     push_bit 24 (ucast (bs ! 3))"

fun pack_bytes :: "(nat \<Rightarrow> CommandBufferEntry) \<Rightarrow> byte list \<Rightarrow> CommandBufferEntry list" where
  "pack_bytes old (b0 # b1 # b2 # b3 # bs) = bytes_entry [b0, b1, b2, b3] # pack_bytes (\<lambda>i. old (Suc i)) bs"
| "pack_bytes old [] = []"
| "pack_bytes old bs = [bytes_entry (bs @ drop (length bs) (entry_bytes (old 0)))]"

definition memcpy_entries ::
    "'w CommandBuffer_if \<Rightarrow> int \<Rightarrow> byte list \<Rightarrow> 'w CommandBufferHelper \<Rightarrow> 'w CommandBufferHelper" where
  "memcpy_entries cb i data h =
     write_at cb i (pack_bytes (\<lambda>k. cb_read cb (i + int k) (command_buffer_' h)) data) h"

definition Helper_SetBucketDataImmediate ::
    "'w CommandBuffer_if \<Rightarrow> 32 word \<Rightarrow> 32 word \<Rightarrow> byte list \<Rightarrow> 32 word \<Rightarrow>
     'w CommandBufferHelper \<Rightarrow> 'w CommandBufferHelper option" where
  "Helper_SetBucketDataImmediate cb bucket_id offset data sz h =
     map_option
       (\<lambda>(cmd, h1). memcpy_entries cb (cmd + int (sizeof_cmd kSetBucketDataImmediate div 4)) (take (unat sz) data)
          (write_at cb cmd (SetBucketDataImmediate_Init bucket_id offset sz) h1))
       (GetImmediateCmdSpace cb kSetBucketDataImmediate (unat sz) h)"

definition Helper_GetBucketSize ::
    "'w CommandBuffer_if \<Rightarrow> 32 word \<Rightarrow> 32 word \<Rightarrow> 32 word \<Rightarrow>
     'w CommandBufferHelper \<Rightarrow> 'w CommandBufferHelper option" where
  "Helper_GetBucketSize cb bucket_id shared_memory_id shared_memory_offset h =
     init_cmd cb (GetBucketSize_Init bucket_id shared_memory_id shared_memory_offset)
       (GetCmdSpace cb kGetBucketSize h)"

definition Helper_GetBucketData ::
    "'w CommandBuffer_if \<Rightarrow> 32 word \<Rightarrow> 32 word \<Rightarrow> 32 word \<Rightarrow> 32 word \<Rightarrow> 32 word \<Rightarrow>
     'w CommandBufferHelper \<Rightarrow> 'w CommandBufferHelper option" where
  "Helper_GetBucketData cb bucket_id offset sz shared_memory_id shared_memory_offset h =
     init_cmd cb (GetBucketData_Init bucket_id offset sz shared_memory_id shared_memory_offset)
       (GetCmdSpace cb kGetBucketData h)"

section \<open>Tokens\<close>

definition InsertToken ::
    "'w CommandBuffer_if \<Rightarrow> 'w CommandBufferHelper \<Rightarrow> (int \<times> 'w CommandBufferHelper) option" where
  "InsertToken cb h =
     (let h1 = h\<lparr>helper_token_' := (helper_token_' h + 1) mod 2 ^ 31\<rparr> in
      Option.bind (init_cmd cb (SetToken_Init (word_of_int (helper_token_' h1))) (GetCmdSpace cb kSetToken h1))
        (\<lambda>h2. if helper_token_' h2 = 0
               then map_option (\<lambda>(_, h3). (helper_token_' h3, h3)) (Finish cb h2)
               else Some (helper_token_' h2, h2)))"

text \<open>
  In the loop of \<^verbatim>\<open>WaitForToken\<close> an empty command buffer leads to \<^verbatim>\<open>GPU_LOG(FATAL)\<close>, which asserts in
  debug builds only, and to a return: that exit is part of the condition here.
\<close>

definition WaitForToken ::
    "'w CommandBuffer_if \<Rightarrow> int \<Rightarrow> 'w CommandBufferHelper \<Rightarrow> 'w CommandBufferHelper option" where
  "WaitForToken cb t h =
     (if t < 0 then Some h
      else if t > helper_token_' h then Some h
      else map_option snd
        (flush_while cb (\<lambda>h. last_token_read cb h < t \<and> helper_get_offset cb h \<noteq> put_' h) h))"

section \<open>Layout of the ring buffer\<close>

definition ring_write :: "CommandBufferEntry list \<Rightarrow> int \<Rightarrow> CommandBufferEntry list \<Rightarrow> CommandBufferEntry list" where
  "ring_write mem i es = take (nat i) mem @ es @ drop (nat i + length es) mem"

text \<open>The commands \<open>cs\<close> lie one behind the other in the entries from \<open>a\<close> to \<open>b\<close>.\<close>

definition seg :: "CommandBufferEntry list \<Rightarrow> int \<Rightarrow> int \<Rightarrow> CommandBufferEntry list list \<Rightarrow> bool" where
  "seg mem a b cs \<longleftrightarrow> 0 \<le> a \<and> b = a + int (length (concat cs)) \<and> b \<le> int (length mem) \<and>
     (\<forall>k<length (concat cs). mem ! (nat a + k) = concat cs ! k)"

text \<open>
  The commands pending between \<open>g\<close> and \<open>p\<close> in a ring buffer of \<open>n\<close> usable entries: they lie between
  the offsets, or they reach up to a jump to the start and continue there.
\<close>

definition pending_cmds ::
    "CommandBufferEntry list \<Rightarrow> int \<Rightarrow> int \<Rightarrow> int \<Rightarrow> CommandBufferEntry list list \<Rightarrow> bool" where
  "pending_cmds mem n g p cs \<longleftrightarrow> int (length mem) = n + 2 \<and> 0 \<le> p \<and> p < n \<and> 0 \<le> g \<and> g \<le> n \<and>
     (if g \<le> p then seg mem g p cs
      else \<exists>j cs1 cs2. cs = cs1 @ cs2 \<and> j \<le> n \<and> seg mem g j cs1 \<and> seg mem j (j + 2) [Jump_Init 0] \<and>
        seg mem 0 p cs2)"

text \<open>A reader that works towards \<open>p\<close> has come from \<open>g\<close> to \<open>g'\<close>.\<close>

definition reads_to :: "int \<Rightarrow> int \<Rightarrow> int \<Rightarrow> bool" where
  "reads_to g p g' \<longleftrightarrow> (if g \<le> p then g \<le> g' \<and> g' \<le> p else g \<le> g' \<or> g' \<le> p)"

text \<open>\<open>count\<close> entries from \<open>p\<close> on are free.\<close>

definition has_space :: "int \<Rightarrow> int \<Rightarrow> int \<Rightarrow> int \<Rightarrow> bool" where
  "has_space n g p count \<longleftrightarrow>
     (if g \<le> p then p + count \<le> n \<and> (p + count = n \<longrightarrow> 0 < g) else p + count < g)"

lemma nth_ring_write:
  assumes "0 \<le> i" "i + int (length es) \<le> int (length mem)" "k < length mem"
  shows "ring_write mem i es ! k =
    (if nat i \<le> k \<and> k < nat i + length es then es ! (k - nat i) else mem ! k)"
proof -
  have "nat i + length es \<le> length mem" using assms by linarith
  then show ?thesis using assms(3) by (auto simp: ring_write_def nth_append min_def)
qed

lemma length_ring_write:
  assumes "0 \<le> i" "i + int (length es) \<le> int (length mem)"
  shows "length (ring_write mem i es) = length mem"
proof -
  have "nat i + length es \<le> length mem" using assms by linarith
  then show ?thesis by (auto simp: ring_write_def min_def)
qed

lemma seg_le: "seg mem a b cs \<Longrightarrow> 0 \<le> a \<and> a \<le> b \<and> b \<le> int (length mem)"
  by (simp add: seg_def)

lemma seg_Nil: "0 \<le> a \<Longrightarrow> a \<le> int (length mem) \<Longrightarrow> seg mem a a []"
  by (simp add: seg_def)

lemma seg_append:
  assumes "seg mem a b xs" "seg mem b c ys"
  shows "seg mem a c (xs @ ys)"
proof -
  have n: "nat b = nat a + length (concat xs)" using assms(1) by (auto simp: seg_def nat_add_distrib)
  have "mem ! (nat a + k) = concat (xs @ ys) ! k" if "k < length (concat (xs @ ys))" for k
  proof (cases "k < length (concat xs)")
    case True
    then show ?thesis using assms(1) by (simp add: seg_def nth_append)
  next
    case False
    then have "k - length (concat xs) < length (concat ys)" using that by simp
    then have "mem ! (nat b + (k - length (concat xs))) = concat ys ! (k - length (concat xs))"
      using assms(2) by (simp add: seg_def)
    then show ?thesis using False n by (simp add: nth_append)
  qed
  then show ?thesis using assms by (simp add: seg_def)
qed

lemma seg_appendD:
  assumes "seg mem a c (xs @ ys)"
  obtains b where "seg mem a b xs" "seg mem b c ys"
proof
  let ?b = "a + int (length (concat xs))"
  have n: "nat ?b = nat a + length (concat xs)" using assms by (simp add: seg_def nat_add_distrib)
  have all: "mem ! (nat a + k) = (concat xs @ concat ys) ! k" if "k < length (concat xs) + length (concat ys)" for k
    using assms that by (simp add: seg_def)
  show "seg mem a ?b xs" using assms all by (auto simp: seg_def nth_append)
  show "seg mem ?b c ys"
    using assms all [of "length (concat xs) + k" for k] n by (auto simp: seg_def add.assoc)
qed

lemma seg_write_other:
  assumes "seg mem a b cs" "0 \<le> i" "i + int (length es) \<le> int (length mem)"
    and "b \<le> i \<or> i + int (length es) \<le> a"
  shows "seg (ring_write mem i es) a b cs"
proof -
  have "ring_write mem i es ! (nat a + k) = concat cs ! k" if "k < length (concat cs)" for k
  proof -
    have "nat a + k < length mem" "\<not> (nat i \<le> nat a + k \<and> nat a + k < nat i + length es)"
      using assms that by (auto simp: seg_def)
    then have "ring_write mem i es ! (nat a + k) = mem ! (nat a + k)"
      using nth_ring_write [OF assms(2,3)] by auto
    then show ?thesis using assms(1) that by (simp add: seg_def)
  qed
  then show ?thesis using assms(1) by (simp add: seg_def length_ring_write [OF assms(2,3)])
qed

lemma seg_written:
  assumes "0 \<le> i" "i + int (length es) \<le> int (length mem)"
  shows "seg (ring_write mem i es) i (i + int (length es)) [es]"
proof -
  have "ring_write mem i es ! (nat i + k) = es ! k" if "k < length es" for k
  proof -
    have "nat i + k < length mem" using assms that by linarith
    then show ?thesis using nth_ring_write [OF assms] that by simp
  qed
  then show ?thesis using assms by (simp add: seg_def length_ring_write)
qed

lemma length_Jump_Init [simp]: "length (Jump_Init x) = 2"
  by (simp add: Jump_Init_def)

lemma reads_to_refl: "reads_to g p g"
  by (simp add: reads_to_def)

lemma reads_to_trans: "reads_to g p g' \<Longrightarrow> reads_to g' p g'' \<Longrightarrow> reads_to g p g''"
  by (auto simp: reads_to_def split: if_splits)

lemma has_space_reads:
  "has_space n g p count \<Longrightarrow> reads_to g p g' \<Longrightarrow> g \<le> n \<Longrightarrow> has_space n g' p count"
  by (auto simp: has_space_def reads_to_def split: if_splits)

lemma pending_straight:
  assumes "seg mem g p cs" "int (length mem) = n + 2" "p < n"
  shows "pending_cmds mem n g p cs"
  using seg_le [OF assms(1)] assms by (simp add: pending_cmds_def)

lemma pending_wrapped:
  assumes "seg mem g j cs1" "seg mem j (j + 2) [Jump_Init 0]" "seg mem 0 p cs2"
    and "int (length mem) = n + 2" "j \<le> n" "p < g"
  shows "pending_cmds mem n g p (cs1 @ cs2)"
proof -
  have "\<exists>k xs ys. cs1 @ cs2 = xs @ ys \<and> k \<le> n \<and> seg mem g k xs \<and> seg mem k (k + 2) [Jump_Init 0] \<and>
      seg mem 0 p ys"
    using assms(1-3,5) by (intro exI [of _ j] exI [of _ cs1] exI [of _ cs2]) simp
  then show ?thesis using assms(4-6) seg_le [OF assms(1)] seg_le [OF assms(3)] by (simp add: pending_cmds_def)
qed

text \<open>Wrapping: a jump at the put offset when the reader is between 1 and the put offset.\<close>

lemma pending_jump:
  assumes "pending_cmds mem n g p cs" "0 < g" "g \<le> p"
  shows "pending_cmds (ring_write mem p (Jump_Init 0)) n g 0 cs"
proof -
  let ?mem = "ring_write mem p (Jump_Init 0)"
  have b: "0 \<le> p" "p + int (length (Jump_Init 0)) \<le> int (length mem)" "p < n"
    and s: "seg mem g p cs"
    using assms by (auto simp: pending_cmds_def split: if_splits)
  have "seg ?mem g p cs" by (rule seg_write_other [OF s b(1,2)]) simp
  moreover have "seg ?mem p (p + 2) [Jump_Init 0]" using seg_written [OF b(1,2)] by simp
  moreover have "seg ?mem 0 0 []" by (rule seg_Nil) simp_all
  moreover have "int (length ?mem) = n + 2"
    using length_ring_write [OF b(1,2)] assms(1) by (simp add: pending_cmds_def)
  ultimately have "pending_cmds ?mem n g 0 (cs @ [])" using b assms(2,3) by (intro pending_wrapped) auto
  then show ?thesis by simp
qed

text \<open>Appending a command to the pending ones, without and with reaching the end.\<close>

lemma pending_append:
  assumes "pending_cmds mem n g p cs" "has_space n g p (int (length img))" "p + int (length img) < n"
  shows "pending_cmds (ring_write mem p img) n g (p + int (length img)) (cs @ [img])"
proof -
  let ?mem = "ring_write mem p img" and ?q = "p + int (length img)"
  have b: "0 \<le> p" "?q \<le> int (length mem)" using assms by (auto simp: pending_cmds_def)
  have w: "seg ?mem p ?q [img]" by (rule seg_written [OF b])
  show ?thesis
  proof (cases "g \<le> p")
    case True
    then have "seg ?mem g p cs"
      using assms(1) b by (intro seg_write_other) (auto simp: pending_cmds_def)
    from seg_append [OF this w] show ?thesis
      using assms True by (auto simp: pending_cmds_def length_ring_write [OF b])
  next
    case False
    then obtain j cs1 cs2 where c: "cs = cs1 @ cs2" "j \<le> n" "seg mem g j cs1"
      "seg mem j (j + 2) [Jump_Init 0]" "seg mem 0 p cs2"
      using assms(1) by (auto simp: pending_cmds_def)
    have q: "?q < g" using assms(2) False by (simp add: has_space_def)
    have "g \<le> j" using seg_le [OF c(3)] by simp
    then have "seg ?mem g j cs1" "seg ?mem j (j + 2) [Jump_Init 0]" "seg ?mem 0 p cs2"
      using c q b by (auto intro!: seg_write_other)
    then have "pending_cmds ?mem n g ?q (cs1 @ cs2 @ [img])"
      using assms(1) q c(2) seg_append [OF _ w, of 0 cs2]
      by (intro pending_wrapped) (auto simp: length_ring_write [OF b] pending_cmds_def)
    then show ?thesis by (simp add: c(1))
  qed
qed

lemma pending_append_end:
  assumes "pending_cmds mem n g p cs" "has_space n g p (int (length img))" "p + int (length img) = n"
  shows "pending_cmds (ring_write (ring_write mem n (Jump_Init 0)) p img) n g 0 (cs @ [img])"
proof -
  let ?mem = "ring_write (ring_write mem n (Jump_Init 0)) p img"
  have len: "int (length mem) = n + 2" "0 \<le> p" "p < n" "g \<le> n" using assms(1) by (auto simp: pending_cmds_def)
  have g: "g \<le> p" "0 < g" using assms(2,3) len by (auto simp: has_space_def split: if_splits)
  have b: "0 \<le> n" "n + int (length (Jump_Init 0)) \<le> int (length mem)" using len by simp_all
  note l1 = length_ring_write [OF b]
  have b2: "0 \<le> p" "p + int (length img) \<le> int (length (ring_write mem n (Jump_Init 0)))"
    using len assms(3) l1 by simp_all
  have s: "seg mem g p cs" using assms(1) g by (simp add: pending_cmds_def)
  have "seg (ring_write mem n (Jump_Init 0)) g p cs" using len by (intro seg_write_other [OF s b]) simp
  from seg_write_other [OF this b2] have "seg ?mem g p cs" by simp
  then have s1: "seg ?mem g n (cs @ [img])"
    using seg_append seg_written [OF b2] assms(3) by metis
  have "seg (ring_write mem n (Jump_Init 0)) n (n + 2) [Jump_Init 0]" using seg_written [OF b] by simp
  from seg_write_other [OF this b2] have s2: "seg ?mem n (n + 2) [Jump_Init 0]" using assms(3) by simp
  have s3: "seg ?mem 0 0 []" by (rule seg_Nil) simp_all
  show ?thesis
    using pending_wrapped [OF s1 s2 s3] g len l1 length_ring_write [OF b2] by simp
qed

end
