(* ===== verification/Helper_Contract.thy ===== *)
theory Helper_Contract
  imports Cmd_Buffer_Helper
begin

text \<open>
  What \<^verbatim>\<open>CommandBufferHelper\<close> relies on, and what it guarantees. The locale \<open>command_buffer\<close> is the
  contract of the \<^verbatim>\<open>CommandBuffer\<close> interface: a flush executes some of the pending commands from the
  front (\<open>ex\<close> relates the worlds before and after), follows the jump at the end, and leaves the ring
  buffer alone. \<open>live_command_buffer\<close> adds
  that \<^verbatim>\<open>FlushSync\<close> returns and makes progress unless it reports an error. The helper's operations are
  proved correct once under it.
\<close>

definition cb_get :: "'w CommandBuffer_if \<Rightarrow> 'w \<Rightarrow> int" where
  "cb_get cb w = get_offset (cb_GetLastState cb w)"

definition cb_token :: "'w CommandBuffer_if \<Rightarrow> 'w \<Rightarrow> int" where
  "cb_token cb w = token (cb_GetLastState cb w)"

definition cb_error :: "'w CommandBuffer_if \<Rightarrow> 'w \<Rightarrow> Error" where
  "cb_error cb w = error (cb_GetLastState cb w)"

definition is_set_token :: "CommandBufferEntry list \<Rightarrow> bool" where
  "is_set_token c \<longleftrightarrow> unat (hdr_command (value_header (hd c))) = CommandId_value kSetToken"

text \<open>The token a service ends up with that executes commands.\<close>

definition token_step :: "int \<Rightarrow> CommandBufferEntry list \<Rightarrow> int" where
  "token_step t c = (if is_set_token c then sint (c ! 1) else t)"

definition token_after :: "int \<Rightarrow> CommandBufferEntry list list \<Rightarrow> int" where
  "token_after = foldl token_step"

text \<open>The tokens in a list of commands do not decrease, from \<open>t\<close> up to \<open>last_t\<close>.\<close>

fun tokens_up :: "int \<Rightarrow> CommandBufferEntry list list \<Rightarrow> int \<Rightarrow> bool" where
  "tokens_up t [] last_t \<longleftrightarrow> t = last_t"
| "tokens_up t (c # cs) last_t \<longleftrightarrow> t \<le> token_step t c \<and> tokens_up (token_step t c) cs last_t"

lemma token_after_simps [simp]:
  "token_after t [] = t" "token_after t (c # cs) = token_after (token_step t c) cs"
  "token_after t (xs @ ys) = token_after (token_after t xs) ys"
  by (simp_all add: token_after_def)

lemma tokens_up_le: "tokens_up t cs u \<Longrightarrow> t \<le> u"
  by (induction cs arbitrary: t) fastforce+

lemma tokens_up_drop:
  "tokens_up t (xs @ ys) u \<Longrightarrow> t \<le> token_after t xs \<and> tokens_up (token_after t xs) ys u"
  by (induction xs arbitrary: t) (auto dest: order_trans)

lemma tokens_up_snoc: "tokens_up t cs u \<Longrightarrow> u \<le> token_step u c \<Longrightarrow> tokens_up t (cs @ [c]) (token_step u c)"
  by (induction cs arbitrary: t) auto

definition flushed :: "'w CommandBuffer_if \<Rightarrow> ('w \<Rightarrow> CommandBufferEntry list) \<Rightarrow> ('w \<Rightarrow> bool) \<Rightarrow>
    (CommandBufferEntry list list \<Rightarrow> 'w \<Rightarrow> 'w \<Rightarrow> bool) \<Rightarrow> int \<Rightarrow> int \<Rightarrow> CommandBufferEntry list list \<Rightarrow> 'w \<Rightarrow> 'w \<Rightarrow> bool" where
  "flushed cb mem winv ex n p cs w w' \<longleftrightarrow> winv w' \<and> mem w' = mem w \<and>
     (\<exists>dn rest. cs = dn @ rest \<and> pending_cmds (mem w) n (cb_get cb w') p rest \<and>
        reads_to (cb_get cb w) p (cb_get cb w') \<and> cb_token cb w' = token_after (cb_token cb w) dn \<and> ex dn w w') \<and>
     (cb_error cb w \<noteq> kNoError \<longrightarrow> cb_error cb w' \<noteq> kNoError)"

text \<open>How far a reader at \<open>g\<close> is from \<open>p\<close>.\<close>

definition ring_dist :: "int \<Rightarrow> int \<Rightarrow> int \<Rightarrow> nat" where
  "ring_dist n g p = nat (if g \<le> p then p - g else n + 2 - g + p)"

locale command_buffer =
  fixes cb :: "'w CommandBuffer_if"
    and mem :: "'w \<Rightarrow> CommandBufferEntry list"
    and winv :: "'w \<Rightarrow> bool"
    and plain :: "CommandBufferEntry list \<Rightarrow> bool"
    and ex :: "CommandBufferEntry list list \<Rightarrow> 'w \<Rightarrow> 'w \<Rightarrow> bool"
  assumes ex_refl: "ex [] w w"
    and ex_trans: "ex xs w w' \<Longrightarrow> ex ys w' w'' \<Longrightarrow> ex (xs @ ys) w w''"
    and plain_not_empty: "plain c \<Longrightarrow> c \<noteq> []"
    and plain_token: "plain (SetToken_Init x)"
    and Flush_law: "winv w \<Longrightarrow> pending_cmds (mem w) n (cb_get cb w) p cs \<Longrightarrow> list_all plain cs \<Longrightarrow>
      cb_Flush cb p w = Some w' \<Longrightarrow> flushed cb mem winv ex n p cs w w'"
    and FlushSync_law: "winv w \<Longrightarrow> pending_cmds (mem w) n (cb_get cb w) p cs \<Longrightarrow> list_all plain cs \<Longrightarrow>
      cb_FlushSync cb p lk w = Some (st, w') \<Longrightarrow>
      flushed cb mem winv ex n p cs w w' \<and> error st = cb_error cb w'"
    and write_law: "winv w \<Longrightarrow> 0 \<le> i \<Longrightarrow> i + int (length es) \<le> int (length (mem w)) \<Longrightarrow>
      winv (cb_write cb i es w) \<and> mem (cb_write cb i es w) = ring_write (mem w) i es \<and>
      cb_GetLastState cb (cb_write cb i es w) = cb_GetLastState cb w \<and> ex [] w (cb_write cb i es w)"
    and clock_law: "winv w \<Longrightarrow> cb_clock cb w = (t, w') \<Longrightarrow>
      winv w' \<and> mem w' = mem w \<and> cb_GetLastState cb w' = cb_GetLastState cb w \<and> ex [] w w'"

locale live_command_buffer = command_buffer +
  assumes Flush_returns: "winv w \<Longrightarrow> pending_cmds (mem w) n (cb_get cb w) p cs \<Longrightarrow> list_all plain cs \<Longrightarrow>
      \<exists>w'. cb_Flush cb p w = Some w'"
    and FlushSync_returns: "winv w \<Longrightarrow> pending_cmds (mem w) n (cb_get cb w) p cs \<Longrightarrow> list_all plain cs \<Longrightarrow>
      \<exists>st w'. cb_FlushSync cb p lk w = Some (st, w')"
    and FlushSync_progress: "winv w \<Longrightarrow> pending_cmds (mem w) n (cb_get cb w) p cs \<Longrightarrow> list_all plain cs \<Longrightarrow>
      cb_FlushSync cb p lk w = Some (st, w') \<Longrightarrow> error st = kNoError \<Longrightarrow> cb_get cb w \<noteq> p \<Longrightarrow>
      ring_dist n (cb_get cb w') p < ring_dist n (cb_get cb w) p"

section \<open>States of the helper\<close>

text \<open>
  The state of a helper between two calls, with \<open>cs\<close> the commands that are issued and not yet
  known to be executed; \<open>same_client h h'\<close> leaves the client's own fields that matter alone.
\<close>

definition helper_ok :: "'w CommandBuffer_if \<Rightarrow> ('w \<Rightarrow> CommandBufferEntry list) \<Rightarrow> ('w \<Rightarrow> bool) \<Rightarrow>
    (CommandBufferEntry list \<Rightarrow> bool) \<Rightarrow> 'w CommandBufferHelper \<Rightarrow> CommandBufferEntry list list \<Rightarrow> bool" where
  "helper_ok cb mem winv plain h cs \<longleftrightarrow> winv (command_buffer_' h) \<and> list_all plain cs \<and>
     pending_cmds (mem (command_buffer_' h)) (usable_entry_count_' h) (cb_get cb (command_buffer_' h))
       (put_' h) cs \<and> usable_entry_count_' h < 2 ^ 30"

definition same_client :: "'w CommandBufferHelper \<Rightarrow> 'w CommandBufferHelper \<Rightarrow> bool" where
  "same_client h h' \<longleftrightarrow> usable_entry_count_' h' = usable_entry_count_' h \<and>
     total_entry_count_' h' = total_entry_count_' h \<and> helper_token_' h' = helper_token_' h"

text \<open>
  Between \<open>h\<close> and \<open>h'\<close> the service executed the commands \<open>dn\<close> while the put offset stayed
  (\<open>worked\<close>) or was possibly wrapped (\<open>worked_on\<close>).
\<close>

definition worked_on :: "'w CommandBuffer_if \<Rightarrow> (CommandBufferEntry list list \<Rightarrow> 'w \<Rightarrow> 'w \<Rightarrow> bool) \<Rightarrow>
    'w CommandBufferHelper \<Rightarrow> CommandBufferEntry list list \<Rightarrow>
    'w CommandBufferHelper \<Rightarrow> bool" where
  "worked_on cb ex h dn h' \<longleftrightarrow> same_client h h' \<and>
     last_token_read cb h' = token_after (last_token_read cb h) dn \<and>
     ex dn (command_buffer_' h) (command_buffer_' h') \<and>
     (cb_error cb (command_buffer_' h) \<noteq> kNoError \<longrightarrow> cb_error cb (command_buffer_' h') \<noteq> kNoError)"

definition worked :: "'w CommandBuffer_if \<Rightarrow> (CommandBufferEntry list list \<Rightarrow> 'w \<Rightarrow> 'w \<Rightarrow> bool) \<Rightarrow>
    'w CommandBufferHelper \<Rightarrow> CommandBufferEntry list list \<Rightarrow>
    'w CommandBufferHelper \<Rightarrow> bool" where
  "worked cb ex h dn h' \<longleftrightarrow> worked_on cb ex h dn h' \<and> put_' h' = put_' h \<and>
     reads_to (cb_get cb (command_buffer_' h)) (put_' h) (cb_get cb (command_buffer_' h'))"

context command_buffer
begin

lemma worked_on_refl: "worked_on cb ex h [] h"
  by (simp add: worked_on_def same_client_def ex_refl)

lemma worked_on_trans: "worked_on cb ex h xs h' \<Longrightarrow> worked_on cb ex h' ys h'' \<Longrightarrow> worked_on cb ex h (xs @ ys) h''"
  by (auto simp: worked_on_def same_client_def intro: ex_trans)

lemma worked_refl: "worked cb ex h [] h"
  by (simp add: worked_def worked_on_refl reads_to_refl)

lemma worked_trans: "worked cb ex h xs h' \<Longrightarrow> worked cb ex h' ys h'' \<Longrightarrow> worked cb ex h (xs @ ys) h''"
  by (auto simp: worked_def intro: worked_on_trans reads_to_trans)

lemma start_flush_ok:
  assumes "helper_ok cb mem winv plain h cs"
  shows "helper_ok cb mem winv plain (start_flush cb h) cs \<and> worked cb ex h [] (start_flush cb h)"
proof -
  obtain t w where c: "cb_clock cb (command_buffer_' h) = (t, w)" by fastforce
  have "winv w \<and> mem w = mem (command_buffer_' h) \<and>
      cb_GetLastState cb w = cb_GetLastState cb (command_buffer_' h) \<and> ex [] (command_buffer_' h) w"
    using clock_law [OF _ c] assms by (simp add: helper_ok_def)
  then show ?thesis
    using assms by (simp add: start_flush_def c helper_ok_def worked_def worked_on_def same_client_def
        last_token_read_def cb_get_def cb_error_def reads_to_refl)
qed

lemma world_flushed:
  assumes "helper_ok cb mem winv plain h cs"
    and "flushed cb mem winv ex (usable_entry_count_' h) (put_' h) cs (command_buffer_' h) w"
  shows "\<exists>dn rest. cs = dn @ rest \<and> helper_ok cb mem winv plain (h\<lparr>command_buffer_' := w\<rparr>) rest \<and>
    worked cb ex h dn (h\<lparr>command_buffer_' := w\<rparr>)"
proof -
  obtain dn rest where "cs = dn @ rest"
    "pending_cmds (mem (command_buffer_' h)) (usable_entry_count_' h) (cb_get cb w) (put_' h) rest"
    "reads_to (cb_get cb (command_buffer_' h)) (put_' h) (cb_get cb w)"
    "cb_token cb w = token_after (cb_token cb (command_buffer_' h)) dn" "ex dn (command_buffer_' h) w"
    using assms(2) by (auto simp: flushed_def)
  then show ?thesis
    using assms by (intro exI [of _ dn] exI [of _ rest])
      (simp add: helper_ok_def flushed_def worked_def worked_on_def same_client_def last_token_read_def
        cb_token_def)
qed

lemma FlushSync_ok:
  assumes "helper_ok cb mem winv plain h cs" "Helper_FlushSync cb h = Some (ok, h')"
  shows "\<exists>dn rest. cs = dn @ rest \<and> helper_ok cb mem winv plain h' rest \<and> worked cb ex h dn h' \<and>
    (ok \<longleftrightarrow> cb_error cb (command_buffer_' h') = kNoError)"
proof -
  define h1 where "h1 = start_flush cb h"
  have h1: "helper_ok cb mem winv plain h1 cs" "worked cb ex h [] h1"
    using start_flush_ok [OF assms(1)] by (simp_all add: h1_def)
  obtain st w where f: "cb_FlushSync cb (put_' h1) (helper_get_offset cb h1) (command_buffer_' h1) = Some (st, w)"
    and r: "ok = (error st = kNoError)" "h' = h1\<lparr>command_buffer_' := w\<rparr>"
    using assms(2) by (auto simp: Helper_FlushSync_def Let_def h1_def)
  have "flushed cb mem winv ex (usable_entry_count_' h1) (put_' h1) cs (command_buffer_' h1) w \<and>
      error st = cb_error cb w"
    using FlushSync_law [OF _ _ _ f, of "usable_entry_count_' h1" cs] h1(1) by (simp add: helper_ok_def)
  with world_flushed [OF h1(1)] obtain dn rest where "cs = dn @ rest" "helper_ok cb mem winv plain h' rest"
    "worked cb ex h1 dn h'" "error st = cb_error cb w"
    unfolding r(2) by blast
  then show ?thesis using worked_trans [OF h1(2)] r by fastforce
qed

lemma Flush_ok:
  assumes "helper_ok cb mem winv plain h cs" "Helper_Flush cb h = Some h'"
  shows "\<exists>dn rest. cs = dn @ rest \<and> helper_ok cb mem winv plain h' rest \<and> worked cb ex h dn h'"
proof -
  define h1 where "h1 = start_flush cb h"
  have h1: "helper_ok cb mem winv plain h1 cs" "worked cb ex h [] h1"
    using start_flush_ok [OF assms(1)] by (simp_all add: h1_def)
  obtain w where f: "cb_Flush cb (put_' h1) (command_buffer_' h1) = Some w"
    and r: "h' = h1\<lparr>command_buffer_' := w\<rparr>"
    using assms(2) by (auto simp: Helper_Flush_def Let_def h1_def)
  have "flushed cb mem winv ex (usable_entry_count_' h1) (put_' h1) cs (command_buffer_' h1) w"
    using Flush_law [OF _ _ _ f] h1(1) by (simp add: helper_ok_def)
  with world_flushed [OF h1(1)] obtain dn rest where "cs = dn @ rest" "helper_ok cb mem winv plain h' rest"
    "worked cb ex h1 dn h'"
    unfolding r by blast
  then show ?thesis using worked_trans [OF h1(2)] by fastforce
qed


lemma flush_while_ok:
  assumes "flush_while cb cond h = Some r" "helper_ok cb mem winv plain h cs"
  shows "\<exists>dn rest. cs = dn @ rest \<and> helper_ok cb mem winv plain (snd r) rest \<and> worked cb ex h dn (snd r) \<and>
    (if fst r then \<not> cond (snd r) else cb_error cb (command_buffer_' (snd r)) \<noteq> kNoError)"
proof -
  let ?P = "\<lambda>ops cnd h r. ops = cb \<longrightarrow> (\<forall>cs. helper_ok cb mem winv plain h cs \<longrightarrow>
    (\<exists>dn rest. cs = dn @ rest \<and> helper_ok cb mem winv plain (snd r) rest \<and> worked cb ex h dn (snd r) \<and>
      (if fst r then \<not> cnd (snd r) else cb_error cb (command_buffer_' (snd r)) \<noteq> kNoError)))"
  have "?P cb cond h r"
  proof (rule flush_while.raw_induct [where P = ?P, OF _ assms(1)], intro impI allI)
    fix L ops cnd h r cs
    assume IH: "\<And>ops cnd h r. L ops cnd h = Some r \<Longrightarrow> ?P ops cnd h r" and o: "ops = cb"
      and body: "(if cnd h then Option.bind (Helper_FlushSync ops h)
          (\<lambda>(ok, h1). if \<not> ok then Some (False, h1) else L ops cnd h1) else Some (True, h)) = Some r"
      and ok: "helper_ok cb mem winv plain h cs"
    let ?Q = "\<lambda>h cs. \<exists>dn rest. cs = dn @ rest \<and> helper_ok cb mem winv plain (snd r) rest \<and>
      worked cb ex h dn (snd r) \<and>
      (if fst r then \<not> cnd (snd r) else cb_error cb (command_buffer_' (snd r)) \<noteq> kNoError)"
    show "?Q h cs"
    proof (cases "cnd h")
      case False
      then have r: "r = (True, h)" using body by simp
      show ?thesis using ok False worked_refl
        by (intro exI [of _ "[]"] exI [of _ cs]) (simp add: r)
    next
      case True
      then obtain ok1 h1 where f: "Helper_FlushSync cb h = Some (ok1, h1)"
        and b: "(if \<not> ok1 then Some (False, h1) else L cb cnd h1) = Some r"
        using body o by (auto simp: bind_eq_Some_conv)
      obtain dn rest where 1: "cs = dn @ rest" "helper_ok cb mem winv plain h1 rest" "worked cb ex h dn h1"
        "ok1 \<longleftrightarrow> cb_error cb (command_buffer_' h1) = kNoError"
        using FlushSync_ok [OF ok f] by auto
      show ?thesis
      proof (cases ok1)
        case False
        then have r: "r = (False, h1)" using b by simp
        show ?thesis using 1 False by (intro exI [of _ dn] exI [of _ rest]) (simp add: r)
      next
        case True
        then have "?Q h1 rest" using IH [of cb cnd h1 r] b 1(2) by simp
        then obtain dn2 rest2 where 2: "rest = dn2 @ rest2" "helper_ok cb mem winv plain (snd r) rest2"
          "worked cb ex h1 dn2 (snd r)"
          "if fst r then \<not> cnd (snd r) else cb_error cb (command_buffer_' (snd r)) \<noteq> kNoError"
          by blast
        show ?thesis
          using 1(1) 2 worked_trans [OF 1(3) 2(3)] by (intro exI [of _ "dn @ dn2"] exI [of _ rest2]) simp
      qed
    qed
  qed
  with assms(2) show ?thesis by blast
qed

lemma empty_pending:
  assumes "helper_ok cb mem winv plain h cs" "cb_get cb (command_buffer_' h) = put_' h"
  shows "cs = []"
proof -
  have "concat cs = []" "list_all plain cs"
    using assms by (auto simp: helper_ok_def pending_cmds_def seg_def)
  then show ?thesis using plain_not_empty by (cases cs) auto
qed

lemma Finish_ok:
  assumes "helper_ok cb mem winv plain h cs" "Finish cb h = Some (ok, h')"
  shows "\<exists>dn rest. cs = dn @ rest \<and> helper_ok cb mem winv plain h' rest \<and> worked cb ex h dn h' \<and>
    (if ok then rest = [] \<and> cb_get cb (command_buffer_' h') = put_' h'
     else cb_error cb (command_buffer_' h') \<noteq> kNoError)"
proof -
  let ?c = "\<lambda>h. put_' h \<noteq> helper_get_offset cb h"
  obtain ok1 h1 where f: "Helper_FlushSync cb h = Some (ok1, h1)"
    and b: "(if \<not> ok1 then Some (False, h1) else flush_while cb ?c h1) = Some (ok, h')"
    using assms(2) by (auto simp: Finish_def bind_eq_Some_conv)
  obtain dn rest where 1: "cs = dn @ rest" "helper_ok cb mem winv plain h1 rest" "worked cb ex h dn h1"
    "ok1 \<longleftrightarrow> cb_error cb (command_buffer_' h1) = kNoError"
    using FlushSync_ok [OF assms(1) f] by auto
  show ?thesis
  proof (cases ok1)
    case False
    then show ?thesis using 1 b by (intro exI [of _ dn] exI [of _ rest]) auto
  next
    case True
    then have "flush_while cb ?c h1 = Some (ok, h')" using b by simp
    from flush_while_ok [OF this 1(2), unfolded fst_conv snd_conv] obtain dn2 rest2 where 2: "rest = dn2 @ rest2"
      "helper_ok cb mem winv plain h' rest2" "worked cb ex h1 dn2 h'"
      "if ok then \<not> ?c h' else cb_error cb (command_buffer_' h') \<noteq> kNoError"
      by blast
    have "rest2 = [] \<and> cb_get cb (command_buffer_' h') = put_' h'" if ok
      using 2(4) that empty_pending [OF 2(2)] by (simp add: helper_get_offset_def cb_get_def)
    then show ?thesis
      using 1(1) 2 worked_trans [OF 1(3) 2(3)] by (intro exI [of _ "dn @ dn2"] exI [of _ rest2]) auto
  qed
qed


lemma jump_to_start_ok:
  assumes "helper_ok cb mem winv plain h cs" "\<not> wrap_blocked cb h"
  shows "helper_ok cb mem winv plain (jump_to_start cb h) cs \<and> worked_on cb ex h [] (jump_to_start cb h) \<and>
    put_' (jump_to_start cb h) = 0"
proof -
  let ?w = "command_buffer_' h"
  have p: "pending_cmds (mem ?w) (usable_entry_count_' h) (cb_get cb ?w) (put_' h) cs" and i: "winv ?w"
    using assms(1) by (simp_all add: helper_ok_def)
  then have g: "0 < cb_get cb ?w" "cb_get cb ?w \<le> put_' h"
    using assms(2) by (auto simp: wrap_blocked_def helper_get_offset_def cb_get_def pending_cmds_def)
  have "0 \<le> put_' h" "put_' h + int (length (Jump_Init 0)) \<le> int (length (mem ?w))"
    using p by (auto simp: pending_cmds_def)
  from write_law [OF i this] pending_jump [OF p g] show ?thesis
    using assms(1) by (simp add: jump_to_start_def write_at_def helper_ok_def worked_on_def same_client_def
        last_token_read_def cb_get_def cb_error_def)
qed

lemma available_space:
  assumes "helper_ok cb mem winv plain h cs" "count \<le> AvailableEntries cb h" "0 < count"
    and "put_' h + count \<le> usable_entry_count_' h"
  shows "has_space (usable_entry_count_' h) (cb_get cb (command_buffer_' h)) (put_' h) count"
proof -
  let ?n = "usable_entry_count_' h" and ?g = "cb_get cb (command_buffer_' h)" and ?p = "put_' h"
  have b: "0 \<le> ?p" "?p < ?n" "0 \<le> ?g" "?g \<le> ?n" using assms(1) by (auto simp: helper_ok_def pending_cmds_def)
  have "AvailableEntries cb h = (?g - ?p - 1 + ?n) mod ?n"
    using b by (simp add: AvailableEntries_def helper_get_offset_def cb_get_def smod_nonneg del: mod_add_self2)
  moreover have "(?g - ?p - 1 + ?n) mod ?n = (if ?g \<le> ?p then ?g - ?p - 1 + ?n else ?g - ?p - 1)"
    using b by (simp add: mod_pos_pos_trivial del: mod_add_self2) (simp add: mod_pos_pos_trivial)
  ultimately show ?thesis using assms(2-4) by (auto simp: has_space_def split: if_splits)
qed

lemma maybe_flush_ok:
  assumes "helper_ok cb mem winv plain h cs" "maybe_flush cb h = Some h'"
  shows "\<exists>dn rest. cs = dn @ rest \<and> helper_ok cb mem winv plain h' rest \<and> worked cb ex h dn h'"
proof -
  obtain t w where c: "cb_clock cb (command_buffer_' h) = (t, w)" by fastforce
  let ?h = "h\<lparr>command_buffer_' := w\<rparr>"
  have "winv w \<and> mem w = mem (command_buffer_' h) \<and>
      cb_GetLastState cb w = cb_GetLastState cb (command_buffer_' h) \<and> ex [] (command_buffer_' h) w"
    using clock_law [OF _ c] assms(1) by (simp add: helper_ok_def)
  then have h1: "helper_ok cb mem winv plain ?h cs" "worked cb ex h [] ?h"
    using assms(1) by (simp_all add: helper_ok_def worked_def worked_on_def same_client_def
        last_token_read_def cb_get_def cb_error_def reads_to_refl)
  have "maybe_flush cb h \<in> {Helper_Flush cb h, Helper_Flush cb ?h, Some ?h, Some h}"
    by (simp add: maybe_flush_def Let_def c)
  then consider "Helper_Flush cb h = Some h'" | "Helper_Flush cb ?h = Some h'" | "h' = ?h" | "h' = h"
    unfolding assms(2) insert_iff empty_iff option.inject by metis
  then show ?thesis
  proof cases
    case 1
    then show ?thesis by (rule Flush_ok [OF assms(1)])
  next
    case 2
    from Flush_ok [OF h1(1) 2] obtain dn rest where "cs = dn @ rest" "helper_ok cb mem winv plain h' rest"
      "worked cb ex ?h dn h'" by blast
    with worked_trans [OF h1(2)] show ?thesis by fastforce
  next
    case 3
    with h1 show ?thesis by (intro exI [of _ "[]"] exI [of _ cs]) simp
  next
    case 4
    with assms(1) worked_refl show ?thesis by (intro exI [of _ "[]"] exI [of _ cs]) simp
  qed
qed

text \<open>The result of \<open>WaitForAvailableEntries\<close>, unless an error is reported.\<close>

lemma room_ok:
  assumes ok: "helper_ok cb mem winv plain h cs"
    and "put_' h + count \<le> usable_entry_count_' h" "0 < count"
    and w: "flush_while cb (\<lambda>h. AvailableEntries cb h < count) h = Some (True, h1)"
    and m: "maybe_flush cb h1 = Some h'"
  shows "\<exists>dn rest. cs = dn @ rest \<and> helper_ok cb mem winv plain h' rest \<and> worked_on cb ex h dn h' \<and>
    has_space (usable_entry_count_' h') (cb_get cb (command_buffer_' h')) (put_' h') count"
proof -
  obtain dn1 r1 where 1: "cs = dn1 @ r1" "helper_ok cb mem winv plain h1 r1" "worked cb ex h dn1 h1"
    "\<not> AvailableEntries cb h1 < count"
    using flush_while_ok [OF w ok] by auto
  obtain dn2 r2 where 2: "r1 = dn2 @ r2" "helper_ok cb mem winv plain h' r2" "worked cb ex h1 dn2 h'"
    using maybe_flush_ok [OF 1(2) m] by blast
  have "has_space (usable_entry_count_' h1) (cb_get cb (command_buffer_' h1)) (put_' h1) count"
    by (rule available_space [OF 1(2)])
      (use 1(3,4) assms(2,3) in \<open>auto simp: worked_def worked_on_def same_client_def\<close>)
  then have "has_space (usable_entry_count_' h1) (cb_get cb (command_buffer_' h')) (put_' h1) count"
    by (rule has_space_reads)
      (use 2(3) 1(2) in \<open>auto simp: worked_def helper_ok_def pending_cmds_def\<close>)
  then show ?thesis
    using 1(1) 2 worked_trans [OF 1(3) 2(3)] by (intro exI [of _ "dn1 @ dn2"] exI [of _ r2])
      (auto simp: worked_def worked_on_def same_client_def)
qed

lemma room_or_error:
  assumes ok: "helper_ok cb mem winv plain h cs"
    and c: "put_' h + count \<le> usable_entry_count_' h" "0 < count"
    and b: "Option.bind (flush_while cb (\<lambda>h. AvailableEntries cb h < count) h)
      (\<lambda>(ok, h1). if \<not> ok then Some h1 else maybe_flush cb h1) = Some h'"
  shows "\<exists>dn rest. cs = dn @ rest \<and> helper_ok cb mem winv plain h' rest \<and> worked_on cb ex h dn h' \<and>
    (cb_error cb (command_buffer_' h') = kNoError \<longrightarrow>
      has_space (usable_entry_count_' h') (cb_get cb (command_buffer_' h')) (put_' h') count)"
proof -
  obtain ok1 h1 where f: "flush_while cb (\<lambda>h. AvailableEntries cb h < count) h = Some (ok1, h1)"
    and b2: "(if \<not> ok1 then Some h1 else maybe_flush cb h1) = Some h'"
    using b by (auto simp: bind_eq_Some_conv)
  show ?thesis
  proof (cases ok1)
    case True
    then have "flush_while cb (\<lambda>h. AvailableEntries cb h < count) h = Some (True, h1)"
      "maybe_flush cb h1 = Some h'" using f b2 by simp_all
    from room_ok [OF ok c this] show ?thesis by blast
  next
    case False
    then have "h' = h1" using b2 by simp
    then show ?thesis
      using flush_while_ok [OF f ok, unfolded fst_conv snd_conv] False by (auto simp: worked_def)
  qed
qed

lemma WaitForAvailableEntries_ok:
  assumes ok: "helper_ok cb mem winv plain h cs" and c: "0 < count" "count < usable_entry_count_' h"
    and w: "WaitForAvailableEntries cb count h = Some h'"
  shows "\<exists>dn rest. cs = dn @ rest \<and> helper_ok cb mem winv plain h' rest \<and> worked_on cb ex h dn h' \<and>
    (cb_error cb (command_buffer_' h') = kNoError \<longrightarrow>
      has_space (usable_entry_count_' h') (cb_get cb (command_buffer_' h')) (put_' h') count)"
proof (cases "put_' h + count > usable_entry_count_' h")
  case False
  then show ?thesis using room_or_error [OF ok _ c(1)] w by (simp add: WaitForAvailableEntries_def)
next
  case True
  obtain ok1 h1 where f: "flush_while cb (wrap_blocked cb) h = Some (ok1, h1)"
    using w True by (cases "flush_while cb (wrap_blocked cb) h") (auto simp: WaitForAvailableEntries_def)
  obtain dn1 r1 where 1: "cs = dn1 @ r1" "helper_ok cb mem winv plain h1 r1" "worked cb ex h dn1 h1"
    "if ok1 then \<not> wrap_blocked cb h1 else cb_error cb (command_buffer_' h1) \<noteq> kNoError"
    using flush_while_ok [OF f ok, unfolded fst_conv snd_conv] by blast
  show ?thesis
  proof (cases ok1)
    case False
    then have "h' = h1" using w True f by (simp add: WaitForAvailableEntries_def)
    then show ?thesis using 1 False by (auto simp: worked_def)
  next
    case ok1: True
    let ?h = "jump_to_start cb h1"
    have b: "Option.bind (flush_while cb (\<lambda>h. AvailableEntries cb h < count) ?h)
        (\<lambda>(ok, h1). if \<not> ok then Some h1 else maybe_flush cb h1) = Some h'"
      using w True f ok1 by (simp add: WaitForAvailableEntries_def)
    have 2: "helper_ok cb mem winv plain ?h r1" "worked_on cb ex h1 [] ?h" "put_' ?h = 0"
      using jump_to_start_ok [OF 1(2)] 1(4) ok1 by simp_all
    have "put_' ?h + count \<le> usable_entry_count_' ?h"
      using 1(3) 2(2,3) c by (auto simp: worked_def worked_on_def same_client_def)
    from room_or_error [OF 2(1) this c(1) b] obtain dn2 r2 where 4: "r1 = dn2 @ r2"
      "helper_ok cb mem winv plain h' r2" "worked_on cb ex ?h dn2 h'"
      "cb_error cb (command_buffer_' h') = kNoError \<longrightarrow>
        has_space (usable_entry_count_' h') (cb_get cb (command_buffer_' h')) (put_' h') count" by blast
    have "worked_on cb ex h (dn1 @ [] @ dn2) h'"
      using worked_on_trans [OF _ worked_on_trans [OF 2(2) 4(3)]] 1(3) by (simp add: worked_def)
    then show ?thesis using 1(1) 4 by (intro exI [of _ "dn1 @ dn2"] exI [of _ r2]) simp
  qed
qed

text \<open>
  Space that was handed out lies inside the buffer; once a command is written there, it is the last
  of the pending commands, and the others are as they were.
\<close>

lemma GetSpace_ok:
  assumes ok: "helper_ok cb mem winv plain h cs" and k: "0 < k" "int k < usable_entry_count_' h"
    and g: "GetSpace cb k h = Some (sp, h')" and e: "cb_error cb (command_buffer_' h') = kNoError"
  shows "\<exists>dn rest. cs = dn @ rest \<and> 0 \<le> sp \<and> sp + int k \<le> usable_entry_count_' h \<and> worked_on cb ex h dn h' \<and>
    (\<forall>img w. length img = k \<longrightarrow> plain img \<longrightarrow> winv w \<longrightarrow>
       mem w = ring_write (mem (command_buffer_' h')) sp img \<longrightarrow>
       cb_GetLastState cb w = cb_GetLastState cb (command_buffer_' h') \<longrightarrow>
       helper_ok cb mem winv plain (h'\<lparr>command_buffer_' := w\<rparr>) (rest @ [img])) \<and>
    winv (command_buffer_' h') \<and> int (length (mem (command_buffer_' h'))) = usable_entry_count_' h + 2"
proof -
  define h0 where "h0 = h\<lparr>commands_issued_' := i32 (commands_issued_' h + 1)\<rparr>"
  have n30: "usable_entry_count_' h < 1073741824" using ok by (simp add: helper_ok_def)
  then have i: "i32 (int k) = int k" using k by simp
  obtain h1 where w: "WaitForAvailableEntries cb (int k) h0 = Some h1"
    and r: "sp = put_' h1" "h' = (let h2 = h1\<lparr>put_' := i32 (put_' h1 + int k)\<rparr> in
      if put_' h2 = usable_entry_count_' h2 then jump_to_start cb h2 else h2)"
    using g by (auto simp: GetSpace_def i h0_def Let_def)
  have h0: "helper_ok cb mem winv plain h0 cs" "worked_on cb ex h [] h0" "usable_entry_count_' h0 = usable_entry_count_' h"
    using ok by (simp_all add: h0_def helper_ok_def worked_on_def same_client_def last_token_read_def ex_refl)
  obtain dn rest where 1: "cs = dn @ rest" "helper_ok cb mem winv plain h1 rest" "worked_on cb ex h0 dn h1"
    "cb_error cb (command_buffer_' h1) = kNoError \<longrightarrow>
      has_space (usable_entry_count_' h1) (cb_get cb (command_buffer_' h1)) (put_' h1) (int k)"
    using WaitForAvailableEntries_ok [OF h0(1) _ _ w] k h0(3) by auto
  have n: "usable_entry_count_' h1 = usable_entry_count_' h"
    using 1(3) h0(3) by (simp add: worked_on_def same_client_def)
  let ?n = "usable_entry_count_' h" and ?p = "put_' h1" and ?w = "command_buffer_' h1"
  have pend: "pending_cmds (mem ?w) ?n (cb_get cb ?w) ?p rest" and wi: "winv ?w"
    using 1(2) by (simp_all add: helper_ok_def n)
  have b: "0 \<le> ?p" "?p < ?n" "int (length (mem ?w)) = ?n + 2" using pend by (auto simp: pending_cmds_def)
  have put: "i32 (?p + int k) = ?p + int k" using b k n30 by simp
  have jb: "0 \<le> ?n" "?n + int (length (Jump_Init 0)) \<le> int (length (mem ?w))" using b by simp_all
  note jl = write_law [OF wi jb]
  have h': "h' = (if ?p + int k = ?n
      then h1\<lparr>put_' := 0, command_buffer_' := cb_write cb ?n (Jump_Init 0) ?w\<rparr> else h1\<lparr>put_' := ?p + int k\<rparr>)"
    using r(2) n by (simp add: put jump_to_start_def write_at_def Let_def)
  have n': "usable_entry_count_' h' = ?n" by (simp add: h' n)
  have last': "cb_GetLastState cb (command_buffer_' h') = cb_GetLastState cb ?w" using jl by (simp add: h')
  then have space: "has_space ?n (cb_get cb ?w) ?p (int k)" using 1(4) e n by (simp add: cb_error_def)
  then have in_n: "?p + int k \<le> ?n"
    using pend by (auto simp: has_space_def pending_cmds_def split: if_splits)
  have put_ok: "helper_ok cb mem winv plain (h'\<lparr>command_buffer_' := w\<rparr>) (rest @ [img])"
    if img: "length img = k" "plain img" "winv w" "mem w = ring_write (mem (command_buffer_' h')) sp img"
      "cb_GetLastState cb w = cb_GetLastState cb (command_buffer_' h')" for img w
  proof -
    have "cb_get cb w = cb_get cb ?w" using img(5) last' by (simp add: cb_get_def)
    moreover have "pending_cmds (mem w) ?n (cb_get cb ?w) (put_' h') (rest @ [img])"
    proof (cases "?p + int k = ?n")
      case True
      then show ?thesis
        using pending_append_end [OF pend, of img] space img(1,4) jl by (simp add: h' r(1))
    next
      case False
      then show ?thesis
        using pending_append [OF pend, of img] space img(1,4) in_n by (simp add: h' r(1))
    qed
    ultimately show ?thesis using img 1(2) n n' by (simp add: helper_ok_def)
  qed
  have won: "worked_on cb ex h1 [] h'"
    using last' jl by (simp add: worked_on_def last_token_read_def cb_error_def) (simp add: h' same_client_def ex_refl)
  have "worked_on cb ex h ([] @ dn @ []) h'"
    by (intro worked_on_trans [OF h0(2)] worked_on_trans [OF 1(3)] won)
  moreover have "winv (command_buffer_' h') \<and> int (length (mem (command_buffer_' h'))) = ?n + 2"
    using jl wi b(3) length_ring_write [OF jb] by (simp add: h')
  ultimately show ?thesis
    using 1(1) r(1) b(1) in_n put_ok by (intro exI [of _ dn] exI [of _ rest]) simp
qed


lemma issue_ok:
  assumes ok: "helper_ok cb mem winv plain h cs" and k: "0 < length img" "int (length img) < usable_entry_count_' h"
    and g: "GetSpace cb (length img) h = Some (sp, h')" and e: "cb_error cb (command_buffer_' h') = kNoError"
    and p: "plain img"
  shows "\<exists>dn rest. cs = dn @ rest \<and> helper_ok cb mem winv plain (write_at cb sp img h') (rest @ [img]) \<and>
    worked_on cb ex h dn (write_at cb sp img h')"
proof -
  obtain dn rest where 1: "cs = dn @ rest" "0 \<le> sp" "sp + int (length img) \<le> usable_entry_count_' h"
    "worked_on cb ex h dn h'" "winv (command_buffer_' h')"
    "int (length (mem (command_buffer_' h'))) = usable_entry_count_' h + 2"
    and wr: "\<forall>im w. length im = length img \<longrightarrow> plain im \<longrightarrow> winv w \<longrightarrow>
       mem w = ring_write (mem (command_buffer_' h')) sp im \<longrightarrow>
       cb_GetLastState cb w = cb_GetLastState cb (command_buffer_' h') \<longrightarrow>
       helper_ok cb mem winv plain (h'\<lparr>command_buffer_' := w\<rparr>) (rest @ [im])"
    using GetSpace_ok [OF ok k g e] by auto
  let ?w = "cb_write cb sp img (command_buffer_' h')"
  have w: "winv ?w" "mem ?w = ring_write (mem (command_buffer_' h')) sp img"
    "cb_GetLastState cb ?w = cb_GetLastState cb (command_buffer_' h')" "ex [] (command_buffer_' h') ?w"
    using write_law [OF 1(5,2), of img] 1(3,6) by auto
  have "helper_ok cb mem winv plain (write_at cb sp img h') (rest @ [img])"
    using wr p w by (simp add: write_at_def)
  moreover have "worked_on cb ex h' [] (write_at cb sp img h')"
    using w(3,4) by (simp add: worked_on_def write_at_def same_client_def last_token_read_def cb_error_def)
  then have "worked_on cb ex h dn (write_at cb sp img h')" using worked_on_trans [OF 1(4)] by fastforce
  ultimately show ?thesis using 1(1) by blast
qed

end

section \<open>Tokens\<close>

text \<open>
  The token bookkeeping: the pending commands set tokens in ascending order, up to the one issued
  last. A token has passed if the service has read it, or if waiting for it is pointless.
\<close>

definition token_ok :: "'w CommandBuffer_if \<Rightarrow> ('w \<Rightarrow> CommandBufferEntry list) \<Rightarrow> ('w \<Rightarrow> bool) \<Rightarrow>
    (CommandBufferEntry list \<Rightarrow> bool) \<Rightarrow> 'w CommandBufferHelper \<Rightarrow> CommandBufferEntry list list \<Rightarrow> bool" where
  "token_ok cb mem winv plain h cs \<longleftrightarrow> helper_ok cb mem winv plain h cs \<and>
     0 \<le> helper_token_' h \<and> helper_token_' h < 2 ^ 31 \<and>
     (cb_error cb (command_buffer_' h) = kNoError \<longrightarrow> tokens_up (last_token_read cb h) cs (helper_token_' h))"

definition token_passed :: "'w CommandBuffer_if \<Rightarrow> int \<Rightarrow> 'w CommandBufferHelper \<Rightarrow> bool" where
  "token_passed cb t h \<longleftrightarrow> t < 0 \<or> helper_token_' h < t \<or> t \<le> last_token_read cb h \<or>
     cb_error cb (command_buffer_' h) \<noteq> kNoError"

definition token_ops :: "'w CommandBuffer_if \<Rightarrow> 'w CommandBufferHelper token_if" where
  "token_ops cb = \<lparr>tok_wait = WaitForToken cb, tok_last_read = last_token_read cb\<rparr>"

context command_buffer
begin

lemma token_worked:
  assumes "token_ok cb mem winv plain h (dn @ rest)" "worked_on cb ex h dn h'" "helper_ok cb mem winv plain h' rest"
  shows "token_ok cb mem winv plain h' rest" "token_passed cb u h \<Longrightarrow> token_passed cb u h'"
proof -
  have w: "helper_token_' h' = helper_token_' h" "last_token_read cb h' = token_after (last_token_read cb h) dn"
    "cb_error cb (command_buffer_' h) \<noteq> kNoError \<longrightarrow> cb_error cb (command_buffer_' h') \<noteq> kNoError"
    using assms(2) by (simp_all add: worked_on_def same_client_def)
  show "token_ok cb mem winv plain h' rest"
    using assms(1,3) w tokens_up_drop [of "last_token_read cb h" dn rest] by (auto simp: token_ok_def)
  show "token_passed cb u h'" if "token_passed cb u h"
    using that assms(1) w tokens_up_drop [of "last_token_read cb h" dn rest]
    by (fastforce simp: token_passed_def token_ok_def)
qed

lemma WaitForToken_ok:
  assumes "token_ok cb mem winv plain h cs" "WaitForToken cb t h = Some h'"
  shows "\<exists>dn rest. cs = dn @ rest \<and> token_ok cb mem winv plain h' rest \<and> worked cb ex h dn h' \<and>
    token_passed cb t h' \<and> (\<forall>u. token_passed cb u h \<longrightarrow> token_passed cb u h')"
proof (cases "t < 0 \<or> t > helper_token_' h")
  case True
  then have "h' = h" using assms(2) by (auto simp: WaitForToken_def split: if_splits)
  then show ?thesis using True assms(1) worked_refl
    by (intro exI [of _ "[]"] exI [of _ cs]) (auto simp: token_passed_def)
next
  case False
  let ?c = "\<lambda>h. last_token_read cb h < t \<and> helper_get_offset cb h \<noteq> put_' h"
  obtain ok where f: "flush_while cb ?c h = Some (ok, h')"
    using assms(2) False by (auto simp: WaitForToken_def)
  have h: "helper_ok cb mem winv plain h cs" using assms(1) by (simp add: token_ok_def)
  obtain dn rest where 1: "cs = dn @ rest" "helper_ok cb mem winv plain h' rest" "worked cb ex h dn h'"
    "if ok then \<not> ?c h' else cb_error cb (command_buffer_' h') \<noteq> kNoError"
    using flush_while_ok [OF f h, unfolded fst_conv snd_conv] by blast
  have won: "worked_on cb ex h dn h'" using 1(3) by (simp add: worked_def)
  note 2 = token_worked [OF assms(1) [unfolded 1(1)] won 1(2)]
  have "token_passed cb t h'"
  proof (cases "cb_error cb (command_buffer_' h') = kNoError \<and> last_token_read cb h' < t")
    case True
    then have "helper_get_offset cb h' = put_' h'" using 1(4) by (auto split: if_splits)
    then have "rest = []" using empty_pending [OF 1(2)] by (simp add: helper_get_offset_def cb_get_def)
    then have "last_token_read cb h' = helper_token_' h'" using 2(1) True by (simp add: token_ok_def)
    then show ?thesis using True by (simp add: token_passed_def)
  qed (auto simp: token_passed_def)
  then show ?thesis using 1(1,3) 2 by blast
qed

end

definition helper_inv :: "'w CommandBuffer_if \<Rightarrow> ('w \<Rightarrow> CommandBufferEntry list) \<Rightarrow> ('w \<Rightarrow> bool) \<Rightarrow>
    (CommandBufferEntry list \<Rightarrow> bool) \<Rightarrow> 'w CommandBufferHelper \<Rightarrow> bool" where
  "helper_inv cb mem winv plain h \<longleftrightarrow> (\<exists>cs. token_ok cb mem winv plain h cs)"

text \<open>The client allocators may rely on a helper that works on such a command buffer.\<close>

sublocale command_buffer \<subseteq> tokens: token_interface "token_ops cb" "token_passed cb" "helper_inv cb mem winv plain"
proof
  fix h t h' u
  assume h: "helper_inv cb mem winv plain h"
  show "t \<le> tok_last_read (token_ops cb) h \<Longrightarrow> token_passed cb t h"
    by (simp add: token_ops_def token_passed_def)
  assume "tok_wait (token_ops cb) t h = Some h'"
  then have "WaitForToken cb t h = Some h'" by (simp add: token_ops_def)
  with h WaitForToken_ok show "token_passed cb t h'" "token_passed cb u h \<Longrightarrow> token_passed cb u h'"
    "helper_inv cb mem winv plain h'"
    unfolding helper_inv_def by blast+
qed

lemma is_set_token_Init: "is_set_token (SetToken_Init x)"
  by (simp add: is_set_token_def SetToken_Init_def)

lemma token_step_Init:
  assumes "0 \<le> t" "t < 2 ^ 31"
  shows "token_step u (SetToken_Init (word_of_int t)) = t"
proof -
  have "sint (word_of_int t :: 32 word) = t"
    using assms by (simp add: sint_sbintrunc' signed_take_bit_int_eq_self)
  then show ?thesis by (simp add: token_step_def is_set_token_Init) (simp add: SetToken_Init_def)
qed

context command_buffer
begin

lemma InsertToken_ok:
  assumes ok: "token_ok cb mem winv plain h cs" and n: "2 < usable_entry_count_' h"
    and g: "GetCmdSpace cb kSetToken (h\<lparr>helper_token_' := (helper_token_' h + 1) mod 2 ^ 31\<rparr>) = Some (sp, h1)"
    and e: "cb_error cb (command_buffer_' h1) = kNoError"
    and i: "InsertToken cb h = Some (t, h')"
  shows "t = (helper_token_' h + 1) mod 2 ^ 31 \<and> helper_token_' h' = t \<and>
    (\<exists>rest. token_ok cb mem winv plain h' rest)"
proof -
  define u where "u = (helper_token_' h + 1) mod 2 ^ 31"
  let ?h0 = "h\<lparr>helper_token_' := u\<rparr>" and ?img = "SetToken_Init (word_of_int u)"
  have u: "0 \<le> u" "u < 2 ^ 31" by (simp_all add: u_def)
  have len: "length ?img = 2" by (simp add: SetToken_Init_def)
  have h0: "helper_ok cb mem winv plain ?h0 cs" using ok by (simp add: token_ok_def helper_ok_def)
  have g2: "GetSpace cb (length ?img) ?h0 = Some (sp, h1)"
    using g unfolding len by (simp add: GetCmdSpace_def u_def ComputeNumEntries_eq)
  let ?h2 = "write_at cb sp ?img h1"
  obtain dn rest where 1: "cs = dn @ rest" "helper_ok cb mem winv plain ?h2 (rest @ [?img])"
    "worked_on cb ex ?h0 dn ?h2"
    using issue_ok [OF h0 _ _ g2 e plain_token] n len by auto
  have tok2: "helper_token_' ?h2 = u" using 1(3) by (simp add: worked_on_def same_client_def)
  have b: "(if u = 0 then map_option (\<lambda>(_, h3). (helper_token_' h3, h3)) (Finish cb ?h2)
      else Some (u, ?h2)) = Some (t, h')"
    using i [unfolded InsertToken_def Let_def, folded u_def] g [folded u_def] tok2
    by (cases "u = 0") (auto simp: init_cmd_def)
  show ?thesis
  proof (cases "u = 0")
    case False
    have le: "helper_token_' h \<le> u"
    proof -
      have "helper_token_' h + 1 < 2 ^ 31"
      proof (rule ccontr)
        assume "\<not> helper_token_' h + 1 < 2 ^ 31"
        then have "helper_token_' h + 1 = 2 ^ 31" using ok by (simp add: token_ok_def)
        then show False using False by (simp add: u_def)
      qed
      then show ?thesis using ok by (simp add: u_def token_ok_def mod_pos_pos_trivial)
    qed
    have "tokens_up (last_token_read cb ?h2) (rest @ [?img]) u"
      if "cb_error cb (command_buffer_' ?h2) = kNoError"
    proof -
      have "cb_error cb (command_buffer_' h) = kNoError" using 1(3) that by (auto simp: worked_on_def)
      then have "tokens_up (token_after (last_token_read cb h) dn) rest (helper_token_' h)"
        using ok tokens_up_drop 1(1) by (auto simp: token_ok_def)
      from tokens_up_snoc [OF this, of ?img] le show ?thesis
        using 1(3) token_step_Init [OF u] by (simp add: worked_on_def last_token_read_def)
    qed
    then show ?thesis using False b 1(2) u tok2 by (auto simp: token_ok_def u_def)
  next
    case True
    then obtain ok2 where f: "Finish cb ?h2 = Some (ok2, h')" and t: "t = helper_token_' h'"
      using b by auto
    obtain dn2 rest2 where 2: "rest @ [?img] = dn2 @ rest2" "helper_ok cb mem winv plain h' rest2"
      "worked cb ex ?h2 dn2 h'"
      "if ok2 then rest2 = [] \<and> cb_get cb (command_buffer_' h') = put_' h'
       else cb_error cb (command_buffer_' h') \<noteq> kNoError"
      using Finish_ok [OF 1(2) f] by blast
    have tok': "helper_token_' h' = u" using 2(3) tok2 by (simp add: worked_def worked_on_def same_client_def)
    have "tokens_up (last_token_read cb h') rest2 u" if "cb_error cb (command_buffer_' h') = kNoError"
    proof -
      have "rest2 = []" "dn2 = rest @ [?img]" using 2(1,4) that by (auto split: if_splits)
      then show ?thesis using 2(3) token_step_Init [OF u] by (simp add: worked_def worked_on_def)
    qed
    then show ?thesis using 2(2) t tok' u by (auto simp: token_ok_def u_def)
  qed
qed

end

section \<open>Waiting ends\<close>

context live_command_buffer
begin

lemma FlushSync_live:
  assumes ok: "helper_ok cb mem winv plain h cs"
  shows "\<exists>r h'. Helper_FlushSync cb h = Some (r, h') \<and>
    (r \<longrightarrow> cb_get cb (command_buffer_' h) \<noteq> put_' h \<longrightarrow>
      ring_dist (usable_entry_count_' h) (cb_get cb (command_buffer_' h')) (put_' h) <
      ring_dist (usable_entry_count_' h) (cb_get cb (command_buffer_' h)) (put_' h))"
proof -
  define h1 where "h1 = start_flush cb h"
  let ?w = "command_buffer_' h1"
  have h1: "winv ?w" "pending_cmds (mem ?w) (usable_entry_count_' h1) (cb_get cb ?w) (put_' h1) cs" "list_all plain cs"
    using start_flush_ok [OF ok] by (simp_all add: helper_ok_def h1_def)
  have same: "cb_get cb ?w = cb_get cb (command_buffer_' h)" "put_' h1 = put_' h"
    "usable_entry_count_' h1 = usable_entry_count_' h"
    using clock_law [of "command_buffer_' h"] ok
    by (simp_all add: h1_def start_flush_def cb_get_def helper_ok_def split: prod.splits)
  obtain st w where f: "cb_FlushSync cb (put_' h1) (helper_get_offset cb h1) ?w = Some (st, w)"
    using FlushSync_returns [OF h1] by blast
  have r: "Helper_FlushSync cb h = Some (error st = kNoError, h1\<lparr>command_buffer_' := w\<rparr>)"
    using f by (simp add: Helper_FlushSync_def h1_def)
  show ?thesis
    using FlushSync_progress [OF h1 f] same by (simp add: r)
qed

lemma Flush_live:
  assumes ok: "helper_ok cb mem winv plain h cs"
  shows "\<exists>h'. Helper_Flush cb h = Some h'"
proof -
  have "helper_ok cb mem winv plain (start_flush cb h) cs" using start_flush_ok [OF ok] by blast
  then have "\<exists>w. cb_Flush cb (put_' (start_flush cb h)) (command_buffer_' (start_flush cb h)) = Some w"
    using Flush_returns [of "command_buffer_' (start_flush cb h)"] by (auto simp: helper_ok_def)
  then show ?thesis by (auto simp: Helper_Flush_def Let_def)
qed

lemma flush_while_returns:
  assumes "helper_ok cb mem winv plain h cs"
    and "\<And>h' dn rest. worked cb ex h dn h' \<Longrightarrow> helper_ok cb mem winv plain h' rest \<Longrightarrow> cond h' \<Longrightarrow>
      cb_get cb (command_buffer_' h') \<noteq> put_' h'"
  shows "\<exists>r. flush_while cb cond h = Some r"
  using assms
proof (induction "ring_dist (usable_entry_count_' h) (cb_get cb (command_buffer_' h)) (put_' h)"
    arbitrary: h cs rule: less_induct)
  case less
  show ?case
  proof (cases "cond h")
    case False
    then show ?thesis by (simp add: flush_while.simps [of cb cond h] del: split_paired_Ex)
  next
    case True
    have ne: "cb_get cb (command_buffer_' h) \<noteq> put_' h"
      using less.prems(2) [OF worked_refl less.prems(1) True] .
    obtain ok h1 where f: "Helper_FlushSync cb h = Some (ok, h1)"
      and d: "ok \<longrightarrow> ring_dist (usable_entry_count_' h) (cb_get cb (command_buffer_' h1)) (put_' h) <
      ring_dist (usable_entry_count_' h) (cb_get cb (command_buffer_' h)) (put_' h)"
      using FlushSync_live [OF less.prems(1)] ne by blast
    show ?thesis
    proof (cases ok)
      case False
      then show ?thesis using True f by (simp add: flush_while.simps [of cb cond h] del: split_paired_Ex)
    next
      case okt: True
      obtain dn rest where 1: "helper_ok cb mem winv plain h1 rest" "worked cb ex h dn h1"
        using FlushSync_ok [OF less.prems(1) f] by blast
      have "put_' h1 = put_' h" "usable_entry_count_' h1 = usable_entry_count_' h"
        using 1(2) by (simp_all add: worked_def worked_on_def same_client_def)
      moreover have "worked cb ex h (dn @ xs) h'" if "worked cb ex h1 xs h'" for xs h'
        using worked_trans [OF 1(2) that] .
      ultimately have "\<exists>r. flush_while cb cond h1 = Some r"
        using less.hyps [OF _ 1(1)] less.prems(2) d okt by metis
      then show ?thesis using True f okt by (auto simp: flush_while.simps [of cb cond h])
    qed
  qed
qed

lemma Finish_returns:
  assumes "helper_ok cb mem winv plain h cs"
  shows "\<exists>r. Finish cb h = Some r"
proof -
  obtain ok h1 where f: "Helper_FlushSync cb h = Some (ok, h1)" using FlushSync_live [OF assms] by blast
  obtain rest where "helper_ok cb mem winv plain h1 rest" using FlushSync_ok [OF assms f] by blast
  from flush_while_returns [OF this, of "\<lambda>h. put_' h \<noteq> helper_get_offset cb h"]
  have "\<exists>r. flush_while cb (\<lambda>h. put_' h \<noteq> helper_get_offset cb h) h1 = Some r"
    by (auto simp: helper_get_offset_def cb_get_def)
  then show ?thesis using f by (auto simp: Finish_def)
qed

lemma WaitForToken_returns:
  assumes "helper_ok cb mem winv plain h cs"
  shows "\<exists>h'. WaitForToken cb t h = Some h'"
  using flush_while_returns [OF assms, of "\<lambda>h. last_token_read cb h < t \<and> helper_get_offset cb h \<noteq> put_' h"]
  by (auto simp: WaitForToken_def helper_get_offset_def cb_get_def)

lemma maybe_flush_returns:
  assumes "helper_ok cb mem winv plain h cs"
  shows "\<exists>h'. maybe_flush cb h = Some h'"
proof -
  obtain t w where c: "cb_clock cb (command_buffer_' h) = (t, w)" by fastforce
  have "helper_ok cb mem winv plain (h\<lparr>command_buffer_' := w\<rparr>) cs"
    using clock_law [OF _ c] assms by (simp add: helper_ok_def cb_get_def)
  from Flush_live [OF this] Flush_live [OF assms] show ?thesis
    by (auto simp: maybe_flush_def Let_def c)
qed

lemma available_when_empty:
  assumes "helper_ok cb mem winv plain h cs" "cb_get cb (command_buffer_' h) = put_' h"
  shows "AvailableEntries cb h = usable_entry_count_' h - 1"
proof -
  have "0 < usable_entry_count_' h" using assms(1) by (auto simp: helper_ok_def pending_cmds_def)
  then have "(usable_entry_count_' h - 1) smod usable_entry_count_' h =
      (usable_entry_count_' h - 1) mod usable_entry_count_' h"
    "(usable_entry_count_' h - 1) mod usable_entry_count_' h = usable_entry_count_' h - 1"
    by (intro smod_nonneg mod_pos_pos_trivial; simp)+
  then show ?thesis using assms(2) by (simp add: AvailableEntries_def helper_get_offset_def cb_get_def)
qed

lemma room_returns:
  assumes ok: "helper_ok cb mem winv plain h cs" and c: "count < usable_entry_count_' h"
  shows "\<exists>h'. Option.bind (flush_while cb (\<lambda>h. AvailableEntries cb h < count) h)
      (\<lambda>(ok, h1). if \<not> ok then Some h1 else maybe_flush cb h1) = Some h'"
proof -
  have ne: "cb_get cb (command_buffer_' h') \<noteq> put_' h'"
    if "worked cb ex h dn h'" "helper_ok cb mem winv plain h' rest" "AvailableEntries cb h' < count" for h' dn rest
    using available_when_empty [OF that(2)] that(1,3) c by (auto simp: worked_def worked_on_def same_client_def)
  obtain r where f: "flush_while cb (\<lambda>h. AvailableEntries cb h < count) h = Some r"
    using flush_while_returns [OF ok, of "\<lambda>h. AvailableEntries cb h < count"] ne by blast
  obtain rest where "helper_ok cb mem winv plain (snd r) rest" using flush_while_ok [OF f ok] by blast
  from maybe_flush_returns [OF this] f show ?thesis by (cases r) auto
qed

lemma GetSpace_returns:
  assumes ok: "helper_ok cb mem winv plain h cs" and k: "int k < usable_entry_count_' h"
  shows "\<exists>r. GetSpace cb k h = Some r"
proof -
  define h0 where "h0 = h\<lparr>commands_issued_' := i32 (commands_issued_' h + 1)\<rparr>"
  have h0: "helper_ok cb mem winv plain h0 cs" "int k < usable_entry_count_' h0"
    using ok k by (simp_all add: h0_def helper_ok_def)
  have i: "i32 (int k) = int k" using ok k by (simp add: helper_ok_def)
  have "\<exists>h1. WaitForAvailableEntries cb (int k) h0 = Some h1"
  proof (cases "put_' h0 + int k > usable_entry_count_' h0")
    case False
    then show ?thesis using room_returns [OF h0] by (simp add: WaitForAvailableEntries_def)
  next
    case True
    have ne: "cb_get cb (command_buffer_' h') \<noteq> put_' h'"
      if "worked cb ex h0 dn h'" "helper_ok cb mem winv plain h' rest" "wrap_blocked cb h'" for h' dn rest
      using that(1,3) True h0(2) by (auto simp: worked_def wrap_blocked_def helper_get_offset_def cb_get_def)
    obtain r where "flush_while cb (wrap_blocked cb) h0 = Some r"
      using flush_while_returns [OF h0(1), of "wrap_blocked cb"] ne by blast
    then obtain ok1 h1 where f: "flush_while cb (wrap_blocked cb) h0 = Some (ok1, h1)" by (cases r) simp
    obtain dn rest where 1: "helper_ok cb mem winv plain h1 rest" "worked cb ex h0 dn h1"
      "if ok1 then \<not> wrap_blocked cb h1 else cb_error cb (command_buffer_' h1) \<noteq> kNoError"
      using flush_while_ok [OF f h0(1), unfolded fst_conv snd_conv] by blast
    have "\<exists>h'. Option.bind (flush_while cb (\<lambda>h. AvailableEntries cb h < int k) (jump_to_start cb h1))
        (\<lambda>(ok, h1). if \<not> ok then Some h1 else maybe_flush cb h1) = Some h'" if ok1
    proof (rule room_returns)
      have j: "helper_ok cb mem winv plain (jump_to_start cb h1) rest" "worked_on cb ex h1 [] (jump_to_start cb h1)"
        using jump_to_start_ok [OF 1(1)] 1(3) that by auto
      then show "helper_ok cb mem winv plain (jump_to_start cb h1) rest" by simp
      show "int k < usable_entry_count_' (jump_to_start cb h1)"
        using j(2) 1(2) h0(2) by (auto simp: worked_def worked_on_def same_client_def)
    qed
    then show ?thesis using True f by (auto simp: WaitForAvailableEntries_def)
  qed
  then show ?thesis by (auto simp: GetSpace_def i h0_def Let_def)
qed

end

sublocale live_command_buffer \<subseteq> live_tokens:
    live_token_interface "token_ops cb" "token_passed cb" "helper_inv cb mem winv plain"
  by unfold_locales (use WaitForToken_returns in \<open>auto simp: token_ops_def helper_inv_def token_ok_def\<close>)

end
