(* ===== verification/Cmd_Parser.thy ===== *)
theory Cmd_Parser
  imports Command_Buffer_Service
begin

text \<open>
  \<^verbatim>\<open>service/cmd_parser.{h,cc}\<close>: the parser that reads commands from the ring buffer and hands them
  to a handler. Its fields extend the service record, because \<^verbatim>\<open>buffer_\<close> points into the
  service's ring buffer (\<open>ring_entries\<close>) and the handler moves \<^verbatim>\<open>get_\<close> through the engine. A handler
  is a function from the command id, the argument count and the entries from the command on.
  The locale \<open>async_api\<close> is the contract of \<^verbatim>\<open>AsyncAPIInterface\<close>.
\<close>

record parser_world = CommandBufferService +
  parser_get :: int
  parser_put :: int
  parser_entry_count :: int

type_synonym 'w do_command = "nat \<Rightarrow> nat \<Rightarrow> CommandBufferEntry list \<Rightarrow> 'w \<Rightarrow> (Error \<times> 'w) option"

text \<open>The constructor; \<open>sz\<close> is the size in bytes.\<close>

definition CommandParser_init :: "nat \<Rightarrow> int \<Rightarrow> 'a parser_world_scheme \<Rightarrow> 'a parser_world_scheme" where
  "CommandParser_init sz start_get s =
     s\<lparr>parser_get := start_get, parser_put := start_get, parser_entry_count := i32 (int (sz div 4))\<rparr>"

definition set_get :: "int \<Rightarrow> 'a parser_world_scheme \<Rightarrow> bool \<times> 'a parser_world_scheme" where
  "set_get get s =
     (if 0 \<le> get \<and> get < parser_entry_count s then (True, s\<lparr>parser_get := get\<rparr>) else (False, s))"

definition set_put :: "int \<Rightarrow> 'a parser_world_scheme \<Rightarrow> 'a parser_world_scheme" where
  "set_put put s = s\<lparr>parser_put := put\<rparr>"

definition IsEmpty :: "'a parser_world_scheme \<Rightarrow> bool" where
  "IsEmpty s \<longleftrightarrow> parser_put s = parser_get s"

definition ProcessCommand ::
    "'a parser_world_scheme do_command \<Rightarrow> 'a parser_world_scheme \<Rightarrow> (Error \<times> 'a parser_world_scheme) option" where
  "ProcessCommand DoCommand s =
     (let get = parser_get s in
      if get = parser_put s then Some (kNoError, s)
      else
        (let header = value_header (ring_entries s ! nat get); sz = unat (hdr_size header) in
         if sz = 0 then Some (kInvalidSize, s)
         else if int sz + get > parser_entry_count s then Some (kOutOfBounds, s)
         else
           (case DoCommand (unat (hdr_command header)) (sz - 1) (drop (nat get) (ring_entries s)) s of
              None \<Rightarrow> None
            | Some (result, s') \<Rightarrow>
                Some (result,
                  if get = parser_get s'
                  then s'\<lparr>parser_get := (get + int sz) mod parser_entry_count s'\<rparr>
                  else s'))))"

partial_function (option) ProcessAllCommands ::
    "'a parser_world_scheme do_command \<Rightarrow> 'a parser_world_scheme \<Rightarrow> (Error \<times> 'a parser_world_scheme) option" where
  "ProcessAllCommands DoCommand s =
     (if \<not> IsEmpty s
      then Option.bind (ProcessCommand DoCommand s)
        (\<lambda>(e, s'). if e \<noteq> kNoError then Some (e, s') else ProcessAllCommands DoCommand s')
      else Some (kNoError, s))"

section \<open>The contract of a handler\<close>

text \<open>
  A handler does not touch the ring buffer, the put offset and the entry count, and it moves the
  get offset only to a valid position.
\<close>

definition handler_frame :: "'a parser_world_scheme \<Rightarrow> 'a parser_world_scheme \<Rightarrow> bool" where
  "handler_frame s s' \<longleftrightarrow> ring_entries s' = ring_entries s \<and> parser_put s' = parser_put s \<and>
     parser_entry_count s' = parser_entry_count s \<and> num_entries_' s' = num_entries_' s \<and>
     put_offset_' s' = put_offset_' s \<and> error_' s' = error_' s \<and>
     (parser_get s' = parser_get s \<or> 0 \<le> parser_get s' \<and> parser_get s' < parser_entry_count s)"

definition parser_inv :: "'a parser_world_scheme \<Rightarrow> bool" where
  "parser_inv s \<longleftrightarrow> 0 \<le> parser_get s \<and> parser_get s < parser_entry_count s \<and>
     int (length (ring_entries s)) = parser_entry_count s"

locale async_api =
  fixes DoCommand :: "'a parser_world_scheme do_command"
  assumes handler_ok: "DoCommand c n data s = Some (e, s') \<Longrightarrow> handler_frame s s'"
begin

text \<open>Processing a command keeps every read of the ring buffer in bounds.\<close>

lemma ProcessCommand_inv:
  assumes "parser_inv s" "ProcessCommand DoCommand s = Some (e, s')"
  shows "parser_inv s'"
proof (cases "parser_get s = parser_put s")
  case True
  then show ?thesis using assms by (simp add: ProcessCommand_def)
next
  case False
  define header where "header = value_header (ring_entries s ! nat (parser_get s))"
  define sz where "sz = unat (hdr_size header)"
  note P = assms(2) [unfolded ProcessCommand_def Let_def, folded header_def, folded sz_def]
  show ?thesis
  proof (cases "sz = 0 \<or> int sz + parser_get s > parser_entry_count s")
    case True
    then show ?thesis using P False assms(1) by (auto split: if_splits)
  next
    case ok: False
    then obtain s1 where d: "DoCommand (unat (hdr_command header)) (sz - 1)
        (drop (nat (parser_get s)) (ring_entries s)) s = Some (e, s1)"
      and s': "s' = (if parser_get s = parser_get s1
        then s1\<lparr>parser_get := (parser_get s + int sz) mod parser_entry_count s1\<rparr> else s1)"
      using P False by (auto split: option.splits)
    from handler_ok [OF d] assms(1) show ?thesis
      by (auto simp: s' parser_inv_def handler_frame_def)
  qed
qed

lemma ProcessAllCommands_inv:
  assumes "ProcessAllCommands DoCommand s = Some r" "parser_inv s"
  shows "parser_inv (snd r)"
proof -
  have "D = DoCommand \<longrightarrow> parser_inv s \<longrightarrow> parser_inv (snd r)" if "ProcessAllCommands D s = Some r" for D s r
  proof (rule ProcessAllCommands.raw_induct
      [where P = "\<lambda>D s r. D = DoCommand \<longrightarrow> parser_inv s \<longrightarrow> parser_inv (snd r)", OF _ that])
    fix P :: "'a parser_world_scheme do_command \<Rightarrow> 'a parser_world_scheme \<Rightarrow> (Error \<times> 'a parser_world_scheme) option"
    fix D s r
    assume IH: "\<And>D s r. P D s = Some r \<Longrightarrow> D = DoCommand \<longrightarrow> parser_inv s \<longrightarrow> parser_inv (snd r)"
      and body: "(if \<not> IsEmpty s
        then Option.bind (ProcessCommand D s) (\<lambda>(e, s'). if e \<noteq> kNoError then Some (e, s') else P D s')
        else Some (kNoError, s)) = Some r"
    show "D = DoCommand \<longrightarrow> parser_inv s \<longrightarrow> parser_inv (snd r)"
    proof (intro impI)
      assume "D = DoCommand" "parser_inv s"
      then show "parser_inv (snd r)"
        using body ProcessCommand_inv [of s] IH [of DoCommand _ r]
        by (auto simp: bind_eq_Some_conv split: if_splits)
    qed
  qed
  with assms show ?thesis by blast
qed

end

section \<open>Sequential meaning\<close>

text \<open>
  The commands that lie between the get and the put offset, each with its position, id, argument
  count, entries and the position after it (wrapping at the end of the buffer); \<open>fuel\<close> bounds
  their number. \<open>run_cmds\<close> executes such a list.
\<close>

type_synonym located_cmd = "int \<times> nat \<times> nat \<times> CommandBufferEntry list \<times> int"

fun commands_between :: "CommandBufferEntry list \<Rightarrow> int \<Rightarrow> nat \<Rightarrow> int \<Rightarrow> int \<Rightarrow> located_cmd list option" where
  "commands_between ring n fuel get put =
     (if get = put then Some []
      else (case fuel of
              0 \<Rightarrow> None
            | Suc fuel' \<Rightarrow>
                (let header = value_header (ring ! nat get); sz = unat (hdr_size header);
                     nxt = (get + int sz) mod n in
                 if sz = 0 \<or> int sz + get > n then None
                 else map_option
                   (Cons (get, unat (hdr_command header), sz - 1, drop (nat get) ring, nxt))
                   (commands_between ring n fuel' nxt put))))"

declare commands_between.simps [simp del]

fun run_cmds :: "'a parser_world_scheme do_command \<Rightarrow> located_cmd list \<Rightarrow> 'a parser_world_scheme \<Rightarrow>
    (Error \<times> 'a parser_world_scheme) option" where
  "run_cmds D [] s = Some (kNoError, s)"
| "run_cmds D ((get, c, n, data, nxt) # cs) s =
     (case D c n data s of
        None \<Rightarrow> None
      | Some (e, s') \<Rightarrow>
          if e \<noteq> kNoError then Some (e, s'\<lparr>parser_get := nxt\<rparr>)
          else run_cmds D cs (s'\<lparr>parser_get := nxt\<rparr>))"

text \<open>A handler that never moves the get offset for the commands of the list.\<close>

definition keeps_get :: "'a parser_world_scheme do_command \<Rightarrow> nat \<Rightarrow> nat \<Rightarrow> CommandBufferEntry list \<Rightarrow> bool" where
  "keeps_get D c n data \<longleftrightarrow> (\<forall>s e s'. D c n data s = Some (e, s') \<longrightarrow> parser_get s' = parser_get s)"

fun straight :: "'a parser_world_scheme do_command \<Rightarrow> located_cmd list \<Rightarrow> bool" where
  "straight D [] = True"
| "straight D ((get, c, n, data, nxt) # cs) \<longleftrightarrow> keeps_get D c n data \<and> straight D cs"

lemma keeps_getD: "keeps_get D c n data \<Longrightarrow> D c n data s = Some (e, s') \<Longrightarrow> parser_get s' = parser_get s"
  unfolding keeps_get_def by blast

lemma commands_between_step:
  assumes "commands_between ring n fuel get put = Some cs" "get \<noteq> put"
  obtains fuel' cs' header where "fuel = Suc fuel'" "header = value_header (ring ! nat get)"
    "hdr_size header \<noteq> 0" "int (unat (hdr_size header)) + get \<le> n"
    "cs = (get, unat (hdr_command header), unat (hdr_size header) - 1, drop (nat get) ring,
       (get + int (unat (hdr_size header))) mod n) # cs'"
    "commands_between ring n fuel' ((get + int (unat (hdr_size header))) mod n) put = Some cs'"
  using assms commands_between.simps [of ring n fuel get put]
  by (auto simp: Let_def unat_eq_zero split: nat.splits if_splits)

context async_api
begin

lemma ProcessCommand_straight:
  assumes "commands_between (ring_entries s) (parser_entry_count s) fuel (parser_get s) (parser_put s) = Some cs"
    and "parser_get s \<noteq> parser_put s" "straight DoCommand cs"
  shows "\<exists>c n data nxt cs'. cs = (parser_get s, c, n, data, nxt) # cs' \<and>
    ProcessCommand DoCommand s =
      map_option (\<lambda>(e, s'). (e, s'\<lparr>parser_get := nxt\<rparr>)) (DoCommand c n data s) \<and>
    (\<exists>fuel'. fuel = Suc fuel' \<and>
      commands_between (ring_entries s) (parser_entry_count s) fuel' nxt (parser_put s) = Some cs')"
proof -
  obtain fuel' cs' header where f: "fuel = Suc fuel'"
    and h: "header = value_header (ring_entries s ! nat (parser_get s))" "hdr_size header \<noteq> 0"
      "int (unat (hdr_size header)) + parser_get s \<le> parser_entry_count s"
    and cs: "cs = (parser_get s, unat (hdr_command header), unat (hdr_size header) - 1,
       drop (nat (parser_get s)) (ring_entries s),
       (parser_get s + int (unat (hdr_size header))) mod parser_entry_count s) # cs'"
    and rest: "commands_between (ring_entries s) (parser_entry_count s) fuel'
       ((parser_get s + int (unat (hdr_size header))) mod parser_entry_count s) (parser_put s) = Some cs'"
    using commands_between_step [OF assms(1,2)] by metis
  let ?c = "unat (hdr_command header)" and ?n = "unat (hdr_size header) - 1"
    and ?data = "drop (nat (parser_get s)) (ring_entries s)"
    and ?nxt = "(parser_get s + int (unat (hdr_size header))) mod parser_entry_count s"
  have "ProcessCommand DoCommand s =
      map_option (\<lambda>(e, s'). (e, s'\<lparr>parser_get := ?nxt\<rparr>)) (DoCommand ?c ?n ?data s)"
  proof (cases "DoCommand ?c ?n ?data s")
    case None
    then show ?thesis using h assms(2) by (simp add: ProcessCommand_def Let_def unat_eq_zero)
  next
    case (Some r)
    obtain e s' where r: "r = (e, s')" by fastforce
    have "keeps_get DoCommand ?c ?n ?data" using assms(3) by (simp add: cs)
    then have "parser_get s' = parser_get s" using Some [unfolded r]
      by (rule keeps_getD)
    moreover have "parser_entry_count s' = parser_entry_count s"
      using handler_ok [OF Some [unfolded r]] by (simp add: handler_frame_def)
    ultimately show ?thesis using Some r h assms(2) by (simp add: ProcessCommand_def Let_def unat_eq_zero)
  qed
  then show ?thesis using cs f rest by blast
qed

lemma straight_frame:
  assumes "DoCommand c n data s = Some (e, s')"
  shows "ring_entries s' = ring_entries s" "parser_put s' = parser_put s"
    "parser_entry_count s' = parser_entry_count s"
  using handler_ok [OF assms] by (auto simp: handler_frame_def)

lemma ProcessAllCommands_run:
  "commands_between (ring_entries s) (parser_entry_count s) fuel (parser_get s) (parser_put s) = Some cs \<Longrightarrow>
   straight DoCommand cs \<Longrightarrow> ProcessAllCommands DoCommand s = run_cmds DoCommand cs s"
proof (induction cs arbitrary: s fuel)
  case Nil
  then have "parser_get s = parser_put s"
    using commands_between_step [OF Nil.prems(1)] by (metis list.distinct(1))
  then show ?case by (simp add: ProcessAllCommands.simps IsEmpty_def)
next
  case (Cons x cs)
  have ne: "parser_get s \<noteq> parser_put s"
    using Cons.prems(1) by (auto simp: commands_between.simps [of _ _ fuel])
  obtain c n data nxt fuel' where x: "x = (parser_get s, c, n, data, nxt)"
    and p: "ProcessCommand DoCommand s = map_option (\<lambda>(e, s'). (e, s'\<lparr>parser_get := nxt\<rparr>)) (DoCommand c n data s)"
    and rest: "commands_between (ring_entries s) (parser_entry_count s) fuel' nxt (parser_put s) = Some cs"
    using ProcessCommand_straight [OF Cons.prems(1) ne Cons.prems(2)] by auto
  have st: "straight DoCommand cs" using Cons.prems(2) by (simp add: x)
  show ?case
  proof (cases "DoCommand c n data s")
    case None
    then show ?thesis using ne p x by (simp add: ProcessAllCommands.simps [of _ s] IsEmpty_def)
  next
    case (Some r)
    obtain e s' where r: "r = (e, s')" by fastforce
    note fr = straight_frame [OF Some [unfolded r]]
    have "ProcessAllCommands DoCommand (s'\<lparr>parser_get := nxt\<rparr>) = run_cmds DoCommand cs (s'\<lparr>parser_get := nxt\<rparr>)"
      using Cons.IH [of "s'\<lparr>parser_get := nxt\<rparr>" fuel'] rest st fr by simp
    then show ?thesis
      using ne p x Some r by (simp add: ProcessAllCommands.simps [of _ s] IsEmpty_def)
  qed
qed

end

end
