(* ===== verification/Gpu_Scheduler.thy ===== *)
theory Gpu_Scheduler
  imports Cmd_Parser
begin

text \<open>
  \<^verbatim>\<open>service/gpu_scheduler.{h,cc}\<close> and \<^verbatim>\<open>service/cmd_buffer_engine.h\<close>: the loop that runs the parser
  when the client moves the put offset, and the engine functions that the decoder calls back.
  The decoder and the callbacks of the embedder are the record \<open>scheduler_env\<close>.
\<close>

record scheduler_world = parser_world +
  unscheduled_count :: int
  scheduled_callback :: bool
  command_processed_callback :: bool

record 'w scheduler_env =
  env_DoCommand :: "'w do_command"
  env_GetContextLostReason :: "'w \<Rightarrow> ContextLostReason"
  env_command_processed :: "'w \<Rightarrow> 'w"
  env_scheduled :: "'w \<Rightarrow> 'w"
  env_parse_error :: "'w \<Rightarrow> 'w"

text \<open>The constructor, called without a parser.\<close>

definition GpuScheduler_init :: "'a scheduler_world_scheme \<Rightarrow> 'a scheduler_world_scheme" where
  "GpuScheduler_init s =
     (let s1 = s\<lparr>unscheduled_count := 0, scheduled_callback := False, command_processed_callback := False\<rparr>;
          ring_buffer = GetRingBuffer s1 in
      if buf_ptr ring_buffer \<noteq> None then CommandParser_init (buf_size ring_buffer) 0 s1
      else CommandParser_init 0 0 s1)"

partial_function (option) put_changed_loop ::
    "'a scheduler_world_scheme scheduler_env \<Rightarrow> 'a scheduler_world_scheme \<Rightarrow> 'a scheduler_world_scheme option" where
  "put_changed_loop env s =
     (if \<not> IsEmpty s
      then Option.bind (ProcessCommand (env_DoCommand env) s)
        (\<lambda>(e, s1).
           let s2 = SetGetOffset (parser_get s1) s1 in
           if IsError e
           then Some (SetParseError (env_parse_error env) e
                  (SetContextLostReason (env_GetContextLostReason env s2) s2))
           else
             (let s3 = (if command_processed_callback s2 then env_command_processed env s2 else s2) in
              if unscheduled_count s3 > 0 then Some s3 else put_changed_loop env s3))
      else Some s)"

definition PutChanged ::
    "'a scheduler_world_scheme scheduler_env \<Rightarrow> 'a scheduler_world_scheme \<Rightarrow> 'a scheduler_world_scheme option" where
  "PutChanged env s =
     (case GetState s of (state, s1) \<Rightarrow>
        let s2 = set_put (put_offset state) s1 in
        if error state \<noteq> kNoError then Some s2 else put_changed_loop env s2)"

definition SetScheduled ::
    "'a scheduler_world_scheme scheduler_env \<Rightarrow> bool \<Rightarrow> 'a scheduler_world_scheme \<Rightarrow> 'a scheduler_world_scheme" where
  "SetScheduled env scheduled s =
     (if scheduled then
        (let s1 = s\<lparr>unscheduled_count := i32 (unscheduled_count s - 1)\<rparr> in
         if unscheduled_count s1 = 0 \<and> scheduled_callback s1 then env_scheduled env s1 else s1)
      else s\<lparr>unscheduled_count := i32 (unscheduled_count s + 1)\<rparr>)"

definition IsScheduled :: "'a scheduler_world_scheme \<Rightarrow> bool" where
  "IsScheduled s \<longleftrightarrow> unscheduled_count s = 0"

definition SetScheduledCallback :: "bool \<Rightarrow> 'a scheduler_world_scheme \<Rightarrow> 'a scheduler_world_scheme" where
  "SetScheduledCallback present s = s\<lparr>scheduled_callback := present\<rparr>"

definition SetCommandProcessedCallback :: "bool \<Rightarrow> 'a scheduler_world_scheme \<Rightarrow> 'a scheduler_world_scheme" where
  "SetCommandProcessedCallback present s = s\<lparr>command_processed_callback := present\<rparr>"

section \<open>The engine functions\<close>

definition GetSharedMemoryBuffer :: "int \<Rightarrow> 'a scheduler_world_scheme \<Rightarrow> Buffer" where
  "GetSharedMemoryBuffer shm_id s = GetTransferBuffer shm_id s"

definition engine_set_token :: "int \<Rightarrow> 'a scheduler_world_scheme \<Rightarrow> 'a scheduler_world_scheme" where
  "engine_set_token t s = Service_SetToken t s"

definition engine_SetGetOffset :: "int \<Rightarrow> 'a scheduler_world_scheme \<Rightarrow> bool \<times> 'a scheduler_world_scheme" where
  "engine_SetGetOffset offset s =
     (case set_get offset s of (ok, s1) \<Rightarrow>
        if ok then (True, SetGetOffset (parser_get s1) s1) else (False, s1))"

definition GetGetOffset :: "'a scheduler_world_scheme \<Rightarrow> int" where
  "GetGetOffset s = parser_get s"

section \<open>The contract of decoder and callbacks\<close>

text \<open>
  The decoder obeys the contract of a handler; the callbacks keep the command stream as it is.
  Under it the loop keeps the offsets in range, and the service's get offset is the parser's.
\<close>

definition sched_inv :: "'a scheduler_world_scheme \<Rightarrow> bool" where
  "sched_inv s \<longleftrightarrow> parser_inv s \<and> get_offset_' s = parser_get s"

locale scheduler_api = async_api "env_DoCommand env"
  for env :: "'a scheduler_world_scheme scheduler_env" +
  assumes processed_ok: "handler_frame s (env_command_processed env s)"
    and processed_get: "parser_get (env_command_processed env s) = parser_get s"
    and processed_svc_get: "get_offset_' (env_command_processed env s) = get_offset_' s"
    and parse_error_ok: "ring_entries (env_parse_error env s) = ring_entries s \<and>
      parser_entry_count (env_parse_error env s) = parser_entry_count s \<and>
      parser_put (env_parse_error env s) = parser_put s \<and>
      parser_get (env_parse_error env s) = parser_get s \<and>
      get_offset_' (env_parse_error env s) = get_offset_' s \<and>
      error_' (env_parse_error env s) = error_' s"
begin

lemma frame_put:
  assumes "ProcessCommand (env_DoCommand env) s = Some (e, s')"
  shows "parser_put s' = parser_put s \<and> parser_entry_count s' = parser_entry_count s \<and>
    ring_entries s' = ring_entries s \<and> put_offset_' s' = put_offset_' s \<and> error_' s' = error_' s"
  using assms handler_ok
  by (auto simp: ProcessCommand_def Let_def handler_frame_def split: if_splits option.splits prod.splits)

text \<open>One round of the loop: the state it ends with, or goes on from.\<close>

lemma round_error:
  fixes r :: ContextLostReason
  assumes "sched_inv (SetGetOffset (parser_get s1) s1)" "IsError e"
  defines "s2 \<equiv> SetParseError (env_parse_error env) e
    (SetContextLostReason r (SetGetOffset (parser_get s1) s1))"
  shows "sched_inv s2 \<and> parser_put s2 = parser_put s1 \<and>
    parser_entry_count s2 = parser_entry_count s1 \<and> error_' s2 \<noteq> kNoError"
proof -
  let ?s = "(SetContextLostReason r (SetGetOffset (parser_get s1) s1))\<lparr>error_' := e\<rparr>"
  have "sched_inv ?s" using assms(1) by (simp add: sched_inv_def parser_inv_def SetContextLostReason_def)
  moreover have "sched_inv (env_parse_error env ?s)" if "sched_inv ?s"
    using parse_error_ok [of ?s] that by (auto simp: sched_inv_def parser_inv_def)
  ultimately show ?thesis
    using parse_error_ok [of ?s] assms(1,2)
    by (auto simp: s2_def SetParseError_def Let_def SetContextLostReason_def SetGetOffset_def IsError_def
        sched_inv_def parser_inv_def)
qed

lemma processed_inv: "sched_inv s \<Longrightarrow> sched_inv (env_command_processed env s)"
  using processed_ok [of s] processed_get [of s] processed_svc_get [of s]
  by (simp add: sched_inv_def parser_inv_def handler_frame_def)

lemma put_changed_loop_spec:
  assumes "put_changed_loop env s = Some s'" "sched_inv s"
  shows "sched_inv s' \<and> parser_put s' = parser_put s \<and>
    parser_entry_count s' = parser_entry_count s \<and> (IsEmpty s' \<or> error_' s' \<noteq> kNoError \<or> unscheduled_count s' > 0)"
proof -
  let ?P = "\<lambda>ev s s'. ev = env \<longrightarrow> sched_inv s \<longrightarrow> sched_inv s' \<and> parser_put s' = parser_put s \<and>
    parser_entry_count s' = parser_entry_count s \<and> (IsEmpty s' \<or> error_' s' \<noteq> kNoError \<or> unscheduled_count s' > 0)"
  have "?P env s s'"
  proof (rule put_changed_loop.raw_induct [where P = ?P, OF _ assms(1)], intro impI)
    fix L ev s r
    assume IH: "\<And>ev s s'. L ev s = Some s' \<Longrightarrow> ?P ev s s'" and ev: "ev = env" and inv: "sched_inv s"
      and body: "(if \<not> IsEmpty s
      then Option.bind (ProcessCommand (env_DoCommand ev) s)
        (\<lambda>(e, s1).
           let s2 = SetGetOffset (parser_get s1) s1 in
           if IsError e
           then Some (SetParseError (env_parse_error ev) e
                  (SetContextLostReason (env_GetContextLostReason ev s2) s2))
           else
             (let s3 = (if command_processed_callback s2 then env_command_processed ev s2 else s2) in
              if unscheduled_count s3 > 0 then Some s3 else L ev s3))
      else Some s) = Some r"
    show "sched_inv r \<and> parser_put r = parser_put s \<and>
      parser_entry_count r = parser_entry_count s \<and> (IsEmpty r \<or> error_' r \<noteq> kNoError \<or> unscheduled_count r > 0)"
    proof (cases "IsEmpty s")
      case True
      then show ?thesis using body inv by simp
    next
      case False
      then obtain e s1 where p: "ProcessCommand (env_DoCommand env) s = Some (e, s1)"
        using body ev by (auto simp: bind_eq_Some_conv)
      define s2 where "s2 = SetGetOffset (parser_get s1) s1"
      define s3 where "s3 = (if command_processed_callback s2 then env_command_processed env s2 else s2)"
      have inv2: "sched_inv s2"
        using ProcessCommand_inv [OF _ p] inv by (simp add: sched_inv_def s2_def SetGetOffset_def parser_inv_def)
      have put: "parser_put s1 = parser_put s" "parser_entry_count s1 = parser_entry_count s"
        using frame_put [OF p] by simp_all
      note b = body [unfolded ev if_P [OF False] p bind.simps prod.case Let_def, folded s2_def, folded s3_def]
      show ?thesis
      proof (cases "IsError e")
        case True
        then show ?thesis using b round_error [OF inv2 [unfolded s2_def] True] put by (auto simp: s2_def)
      next
        case ne: False
        have inv3: "sched_inv s3" "parser_put s3 = parser_put s" "parser_entry_count s3 = parser_entry_count s"
          using processed_inv [OF inv2] processed_ok [of s2] inv2 put
          by (auto simp: s3_def handler_frame_def s2_def SetGetOffset_def)
        show ?thesis using b ne inv3 IH [of env s3 r] by (auto split: if_splits)
      qed
    qed
  qed
  with assms(2) show ?thesis by simp
qed

lemma PutChanged_spec:
  assumes "PutChanged env s = Some s'" "sched_inv s" "error_' s = kNoError"
  shows "sched_inv s' \<and> parser_put s' = put_offset_' s \<and>
    parser_entry_count s' = parser_entry_count s \<and>
    (parser_get s' = put_offset_' s \<or> error_' s' \<noteq> kNoError \<or> unscheduled_count s' > 0)"
proof -
  define s2 where "s2 = set_put (put_offset_' s) (s\<lparr>generation_' := u32_add (generation_' s) 1\<rparr>)"
  have "put_changed_loop env s2 = Some s'"
    using assms(1,3) by (simp add: PutChanged_def GetState_def Let_def s2_def)
  moreover have "sched_inv s2" "parser_put s2 = put_offset_' s" "parser_entry_count s2 = parser_entry_count s"
    using assms(2) by (simp_all add: s2_def set_put_def sched_inv_def parser_inv_def)
  ultimately show ?thesis
    using put_changed_loop_spec [of s2 s'] by (auto simp: IsEmpty_def)
qed

end

text \<open>The loop on a list of commands: what the scheduler does for each of them.\<close>

fun sched_run :: "'a scheduler_world_scheme scheduler_env \<Rightarrow> located_cmd list \<Rightarrow> 'a scheduler_world_scheme \<Rightarrow>
    'a scheduler_world_scheme option" where
  "sched_run env [] s = Some s"
| "sched_run env ((get, c, n, data, nxt) # cs) s =
     (case env_DoCommand env c n data s of
        None \<Rightarrow> None
      | Some (e, s1) \<Rightarrow>
          let s2 = s1\<lparr>parser_get := nxt, get_offset_' := nxt\<rparr> in
          if IsError e
          then Some (SetParseError (env_parse_error env) e
                 (SetContextLostReason (env_GetContextLostReason env s2) s2))
          else
            (let s3 = (if command_processed_callback s2 then env_command_processed env s2 else s2) in
             if unscheduled_count s3 > 0 then Some s3 else sched_run env cs s3))"

context scheduler_api
begin

lemma put_changed_loop_run:
  "commands_between (ring_entries s) (parser_entry_count s) fuel (parser_get s) (parser_put s) = Some cs \<Longrightarrow>
   straight (env_DoCommand env) cs \<Longrightarrow> put_changed_loop env s = sched_run env cs s"
proof (induction cs arbitrary: s fuel)
  case Nil
  then have "parser_get s = parser_put s"
    using commands_between_step [OF Nil.prems(1)] by (metis list.distinct(1))
  then show ?case by (simp add: put_changed_loop.simps IsEmpty_def)
next
  case (Cons x cs)
  have ne: "parser_get s \<noteq> parser_put s"
    using Cons.prems(1) by (auto simp: commands_between.simps [of _ _ fuel])
  obtain c n data nxt fuel' where x: "x = (parser_get s, c, n, data, nxt)"
    and p: "ProcessCommand (env_DoCommand env) s =
      map_option (\<lambda>(e, s'). (e, s'\<lparr>parser_get := nxt\<rparr>)) (env_DoCommand env c n data s)"
    and rest: "commands_between (ring_entries s) (parser_entry_count s) fuel' nxt (parser_put s) = Some cs"
    using ProcessCommand_straight [OF Cons.prems(1) ne Cons.prems(2)] by auto
  have st: "straight (env_DoCommand env) cs" using Cons.prems(2) by (simp add: x)
  show ?case
  proof (cases "env_DoCommand env c n data s")
    case None
    then show ?thesis using ne p x by (simp add: put_changed_loop.simps [of _ s] IsEmpty_def)
  next
    case (Some r)
    obtain e s1 where r: "r = (e, s1)" by fastforce
    note fr = straight_frame [OF Some [unfolded r]]
    define s2 where "s2 = s1\<lparr>parser_get := nxt, get_offset_' := nxt\<rparr>"
    have s2: "SetGetOffset nxt (s1\<lparr>parser_get := nxt\<rparr>) = s2" by (simp add: s2_def SetGetOffset_def)
    define s3 where "s3 = (if command_processed_callback s2 then env_command_processed env s2 else s2)"
    have "ring_entries s3 = ring_entries s" "parser_entry_count s3 = parser_entry_count s"
      "parser_put s3 = parser_put s" "parser_get s3 = nxt"
      using fr processed_ok [of s2] processed_get [of s2] by (auto simp: s3_def s2_def handler_frame_def)
    then have ih: "put_changed_loop env s3 = sched_run env cs s3"
      using Cons.IH [of s3 fuel'] rest st by simp
    have "put_changed_loop env s =
      (if IsError e then Some (SetParseError (env_parse_error env) e
          (SetContextLostReason (env_GetContextLostReason env s2) s2))
       else if unscheduled_count s3 > 0 then Some s3 else put_changed_loop env s3)"
      using ne p Some r by (simp add: put_changed_loop.simps [of _ s] IsEmpty_def s2 s3_def Let_def)
    moreover have "sched_run env (x # cs) s =
      (if IsError e then Some (SetParseError (env_parse_error env) e
          (SetContextLostReason (env_GetContextLostReason env s2) s2))
       else if unscheduled_count s3 > 0 then Some s3 else sched_run env cs s3)"
      using Some r by (simp add: x s2_def s3_def Let_def)
    ultimately show ?thesis by (simp add: ih)
  qed
qed

lemma PutChanged_run:
  assumes "error_' s = kNoError"
    and "commands_between (ring_entries s) (parser_entry_count s) fuel (parser_get s) (put_offset_' s) = Some cs"
    and "straight (env_DoCommand env) cs"
  shows "PutChanged env s =
    sched_run env cs (s\<lparr>generation_' := u32_add (generation_' s) 1, parser_put := put_offset_' s\<rparr>)"
  using put_changed_loop_run [of "s\<lparr>generation_' := u32_add (generation_' s) 1, parser_put := put_offset_' s\<rparr>"]
    assms by (simp add: PutChanged_def GetState_def set_put_def Let_def)

end

end
