(* ===== verification/Common_Decoder.thy ===== *)
theory Common_Decoder
  imports Gpu_Scheduler
begin

text \<open>
  \<^verbatim>\<open>service/common_decoder.{h,cc}\<close>: buckets, shared memory accesses and the handlers of the common
  commands, and \<^verbatim>\<open>GLES2DecoderImpl::DoCommand\<close>, which dispatches to them. The
  contents of the shared memory objects are the field \<open>shm_data\<close>; a pointer into one is the object
  with an offset. The ring buffer's own memory (\<open>ring_entries\<close>) is not one of these objects.
\<close>

section \<open>Buckets\<close>

record Bucket =
  bucket_size :: nat
  bucket_data :: "byte list"

definition Bucket_new :: Bucket where
  "Bucket_new = \<lparr>bucket_size = 0, bucket_data = []\<rparr>"

definition OffsetSizeValid :: "nat \<Rightarrow> nat \<Rightarrow> Bucket \<Rightarrow> bool" where
  "OffsetSizeValid offset sz b = (let temp = u32_add offset sz in temp \<le> bucket_size b \<and> temp \<ge> offset)"

text \<open>
  \<^verbatim>\<open>GetData\<close> returns a position in the bucket, \<^const>\<open>None\<close> for \<^verbatim>\<open>NULL\<close>: also for an empty bucket, whose
  \<^verbatim>\<open>data_\<close> is null.
\<close>

definition Bucket_GetData :: "nat \<Rightarrow> nat \<Rightarrow> Bucket \<Rightarrow> nat option" where
  "Bucket_GetData offset sz b =
     (if OffsetSizeValid offset sz b then (if bucket_size b = 0 then None else Some offset) else None)"

definition Bucket_SetSize :: "nat \<Rightarrow> Bucket \<Rightarrow> Bucket" where
  "Bucket_SetSize sz b =
     (if sz \<noteq> bucket_size b then \<lparr>bucket_size = sz, bucket_data = replicate sz 0\<rparr> else b)"

definition blit :: "byte list \<Rightarrow> nat \<Rightarrow> byte list \<Rightarrow> byte list" where
  "blit src offset dst = take offset dst @ src @ drop (offset + length src) dst"

definition Bucket_SetData :: "byte list \<Rightarrow> nat \<Rightarrow> nat \<Rightarrow> Bucket \<Rightarrow> bool \<times> Bucket" where
  "Bucket_SetData src offset sz b =
     (if OffsetSizeValid offset sz b
      then (True, b\<lparr>bucket_data := blit (take sz src) offset (bucket_data b)\<rparr>) else (False, b))"

text \<open>A C string is its bytes without the terminating zero; \<^const>\<open>None\<close> is \<^verbatim>\<open>NULL\<close>.\<close>

definition Bucket_SetFromString :: "byte list option \<Rightarrow> Bucket \<Rightarrow> Bucket" where
  "Bucket_SetFromString str b =
     (case str of
        None \<Rightarrow> Bucket_SetSize 0 b
      | Some cs \<Rightarrow> (let sz = u32_add (length cs) 1
                   in snd (Bucket_SetData (cs @ [0]) 0 sz (Bucket_SetSize sz b))))"

definition Bucket_GetAsString :: "Bucket \<Rightarrow> byte list option" where
  "Bucket_GetAsString b =
     (if bucket_size b = 0 then None else Some (take (bucket_size b - 1) (bucket_data b)))"

section \<open>Decoder state\<close>

definition kMaxStackDepth :: nat where
  "kMaxStackDepth = 32"

record decoder_world = scheduler_world +
  buckets :: "32 word \<Rightarrow> Bucket option"
  call_stack :: "nat list"
  shm_data :: "nat \<Rightarrow> byte list"
  current_decoder_error :: Error

type_synonym shm_ptr = "nat \<times> nat"

definition GetAddressAndCheckSize :: "nat \<Rightarrow> nat \<Rightarrow> nat \<Rightarrow> 'a decoder_world_scheme \<Rightarrow> shm_ptr option" where
  "GetAddressAndCheckSize shm_id offset sz s =
     (let buffer = GetSharedMemoryBuffer (i32 (int shm_id)) s in
      case buf_ptr buffer of
        None \<Rightarrow> None
      | Some obj \<Rightarrow>
          (let end_off = u32_add offset sz in
           if end_off > buf_size buffer \<or> end_off < offset then None else Some (obj, offset)))"

definition shm_read :: "shm_ptr \<Rightarrow> nat \<Rightarrow> 'a decoder_world_scheme \<Rightarrow> byte list" where
  "shm_read p n s = take n (drop (snd p) (shm_data s (fst p)))"

definition shm_write :: "shm_ptr \<Rightarrow> byte list \<Rightarrow> 'a decoder_world_scheme \<Rightarrow> 'a decoder_world_scheme" where
  "shm_write p bs s = s\<lparr>shm_data := (shm_data s)(fst p := blit bs (snd p) (shm_data s (fst p)))\<rparr>"

definition PushAddress :: "nat \<Rightarrow> 'a decoder_world_scheme \<Rightarrow> bool \<times> 'a decoder_world_scheme" where
  "PushAddress offset s =
     (if length (call_stack s) < kMaxStackDepth then
        (let return_address = nat (GetGetOffset s mod 2 ^ 32) in
         case engine_SetGetOffset (i32 (int offset)) s of (ok, s1) \<Rightarrow>
           if ok then (True, s1\<lparr>call_stack := return_address # call_stack s1\<rparr>) else (False, s1))
      else (False, s))"

definition GetBucket :: "32 word \<Rightarrow> 'a decoder_world_scheme \<Rightarrow> Bucket option" where
  "GetBucket bucket_id s = buckets s bucket_id"

definition CreateBucket :: "32 word \<Rightarrow> 'a decoder_world_scheme \<Rightarrow> Bucket \<times> 'a decoder_world_scheme" where
  "CreateBucket bucket_id s =
     (case GetBucket bucket_id s of
        Some b \<Rightarrow> (b, s)
      | None \<Rightarrow> (Bucket_new, s\<lparr>buckets := (buckets s)(bucket_id \<mapsto> Bucket_new)\<rparr>))"

definition update_bucket :: "32 word \<Rightarrow> Bucket \<Rightarrow> 'a decoder_world_scheme \<Rightarrow> 'a decoder_world_scheme" where
  "update_bucket bucket_id b s = s\<lparr>buckets := (buckets s)(bucket_id \<mapsto> b)\<rparr>"

section \<open>Handlers\<close>

text \<open>
  \<open>args\<close> are the entries from the command on, so that the field at byte offset \<open>4 * k\<close> of the
  structure is \<open>args ! k\<close>.
\<close>

type_synonym 'w handler = "nat \<Rightarrow> CommandBufferEntry list \<Rightarrow> 'w \<Rightarrow> Error \<times> 'w"

definition HandleNoop :: "'a decoder_world_scheme handler" where
  "HandleNoop immediate_data_size args s = (kNoError, s)"

definition HandleSetToken :: "'a decoder_world_scheme handler" where
  "HandleSetToken immediate_data_size args s = (kNoError, engine_set_token (sint (args ! 1)) s)"

definition HandleJump :: "'a decoder_world_scheme handler" where
  "HandleJump immediate_data_size args s =
     (case engine_SetGetOffset (sint (args ! 1)) s of (ok, s1) \<Rightarrow>
        if \<not> ok then (kInvalidArguments, s1) else (kNoError, s1))"

definition HandleJumpRelative :: "'a decoder_world_scheme handler" where
  "HandleJumpRelative immediate_data_size args s =
     (case engine_SetGetOffset (i32 (GetGetOffset s + sint (args ! 1))) s of (ok, s1) \<Rightarrow>
        if \<not> ok then (kInvalidArguments, s1) else (kNoError, s1))"

definition HandleCall :: "'a decoder_world_scheme handler" where
  "HandleCall immediate_data_size args s =
     (case PushAddress (unat (args ! 1)) s of (ok, s1) \<Rightarrow>
        if \<not> ok then (kInvalidArguments, s1) else (kNoError, s1))"

definition HandleCallRelative :: "'a decoder_world_scheme handler" where
  "HandleCallRelative immediate_data_size args s =
     (case PushAddress (nat ((GetGetOffset s + sint (args ! 1)) mod 2 ^ 32)) s of (ok, s1) \<Rightarrow>
        if \<not> ok then (kInvalidArguments, s1) else (kNoError, s1))"

definition HandleReturn :: "'a decoder_world_scheme handler" where
  "HandleReturn immediate_data_size args s =
     (case call_stack s of
        [] \<Rightarrow> (kInvalidArguments, s)
      | return_address # rest \<Rightarrow>
          (case engine_SetGetOffset (i32 (int return_address)) (s\<lparr>call_stack := rest\<rparr>) of (ok, s1) \<Rightarrow>
             if \<not> ok then (kInvalidArguments, s1) else (kNoError, s1)))"

definition HandleSetBucketSize :: "'a decoder_world_scheme handler" where
  "HandleSetBucketSize immediate_data_size args s =
     (case CreateBucket (args ! 1) s of (b, s1) \<Rightarrow>
        (kNoError, update_bucket (args ! 1) (Bucket_SetSize (unat (args ! 2)) b) s1))"

definition HandleSetBucketData :: "'a decoder_world_scheme handler" where
  "HandleSetBucketData immediate_data_size args s =
     (let bucket_id = args ! 1; offset = unat (args ! 2); sz = unat (args ! 3) in
      case GetAddressAndCheckSize (unat (args ! 4)) (unat (args ! 5)) sz s of
        None \<Rightarrow> (kInvalidArguments, s)
      | Some data \<Rightarrow>
          (case GetBucket bucket_id s of
             None \<Rightarrow> (kInvalidArguments, s)
           | Some b \<Rightarrow>
               (case Bucket_SetData (shm_read data sz s) offset sz b of (ok, b') \<Rightarrow>
                  if \<not> ok then (kInvalidArguments, s) else (kNoError, update_bucket bucket_id b' s))))"

definition HandleSetBucketDataImmediate :: "'a decoder_world_scheme handler" where
  "HandleSetBucketDataImmediate immediate_data_size args s =
     (let data = concat (map entry_bytes (drop 4 args));
          bucket_id = args ! 1; offset = unat (args ! 2); sz = unat (args ! 3) in
      if sz > immediate_data_size then (kInvalidArguments, s)
      else (case GetBucket bucket_id s of
              None \<Rightarrow> (kInvalidArguments, s)
            | Some b \<Rightarrow>
                (case Bucket_SetData data offset sz b of (ok, b') \<Rightarrow>
                   if \<not> ok then (kInvalidArguments, s) else (kNoError, update_bucket bucket_id b' s))))"

definition HandleGetBucketSize :: "'a decoder_world_scheme handler" where
  "HandleGetBucketSize immediate_data_size args s =
     (case GetAddressAndCheckSize (unat (args ! 2)) (unat (args ! 3)) 4 s of
        None \<Rightarrow> (kInvalidArguments, s)
      | Some data \<Rightarrow>
          if \<not> list_all (\<lambda>b. b = 0) (shm_read data 4 s) then (kInvalidArguments, s)
          else (case GetBucket (args ! 1) s of
                  None \<Rightarrow> (kInvalidArguments, s)
                | Some b \<Rightarrow> (kNoError, shm_write data (entry_bytes (of_nat (bucket_size b))) s)))"

definition HandleGetBucketData :: "'a decoder_world_scheme handler" where
  "HandleGetBucketData immediate_data_size args s =
     (let bucket_id = args ! 1; offset = unat (args ! 2); sz = unat (args ! 3) in
      case GetAddressAndCheckSize (unat (args ! 4)) (unat (args ! 5)) sz s of
        None \<Rightarrow> (kInvalidArguments, s)
      | Some data \<Rightarrow>
          (case GetBucket bucket_id s of
             None \<Rightarrow> (kInvalidArguments, s)
           | Some b \<Rightarrow>
               (case Bucket_GetData offset sz b of
                  None \<Rightarrow> (kInvalidArguments, s)
                | Some src \<Rightarrow> (kNoError, shm_write data (take sz (drop src (bucket_data b))) s))))"

section \<open>Dispatch\<close>

definition g_command_info :: "(ArgFlags \<times> nat) list" where
  "g_command_info = map (\<lambda>c. (kArgFlags c, sizeof_cmd c div 4 - 1)) command_ids"

definition args_match :: "ArgFlags \<times> nat \<Rightarrow> nat \<Rightarrow> bool" where
  "args_match info arg_count \<longleftrightarrow>
     (fst info = kFixed \<and> arg_count = snd info) \<or> (fst info = kAtLeastN \<and> arg_count \<ge> snd info)"

fun handler_of :: "CommandId \<Rightarrow> 'a decoder_world_scheme handler" where
  "handler_of kNoop = HandleNoop"
| "handler_of kSetToken = HandleSetToken"
| "handler_of kJump = HandleJump"
| "handler_of kJumpRelative = HandleJumpRelative"
| "handler_of kCall = HandleCall"
| "handler_of kCallRelative = HandleCallRelative"
| "handler_of kReturn = HandleReturn"
| "handler_of kSetBucketSize = HandleSetBucketSize"
| "handler_of kSetBucketData = HandleSetBucketData"
| "handler_of kSetBucketDataImmediate = HandleSetBucketDataImmediate"
| "handler_of kGetBucketSize = HandleGetBucketSize"
| "handler_of kGetBucketData = HandleGetBucketData"

text \<open>
  \<^verbatim>\<open>DoCommonCommand\<close>; for a command outside the table it calls itself with the same arguments.
\<close>

partial_function (option) DoCommonCommand :: "'a decoder_world_scheme do_command" where
  "DoCommonCommand command arg_count cmd_data s =
     (if command < length g_command_info then
        (let info = g_command_info ! command in
         if args_match info arg_count
         then Some (handler_of (command_ids ! command) (u32_mul (arg_count - snd info) 4) cmd_data s)
         else Some (kInvalidArguments, s))
      else DoCommonCommand command arg_count cmd_data s)"

text \<open>
  \<^verbatim>\<open>GLES2DecoderImpl::DoCommand\<close> without debug output; the table and the handlers of the GLES2
  commands are arguments.
\<close>

definition kStartPoint :: nat where
  "kStartPoint = kLastCommonId"

definition GLES2Decoder_DoCommand ::
    "(ArgFlags \<times> nat) list \<Rightarrow> (nat \<Rightarrow> 'a decoder_world_scheme handler) \<Rightarrow> 'a decoder_world_scheme do_command" where
  "GLES2Decoder_DoCommand gles2_info gles2_handle command arg_count cmd_data s =
     (let command_index = u32_sub (u32_sub command kStartPoint) 1 in
      Option.bind
        (if command_index < length gles2_info then
           (let info = gles2_info ! command_index in
            if args_match info arg_count
            then Some (gles2_handle command (u32_mul (arg_count - snd info) 4) cmd_data s)
            else Some (kInvalidArguments, s))
         else DoCommonCommand command arg_count cmd_data s)
        (\<lambda>(result, s1).
           if result = kNoError \<and> current_decoder_error s1 \<noteq> kNoError
           then Some (current_decoder_error s1, s1\<lparr>current_decoder_error := kNoError\<rparr>)
           else Some (result, s1)))"

section \<open>Frame and control flow\<close>

lemmas handler_defs = HandleNoop_def HandleSetToken_def HandleJump_def HandleJumpRelative_def
  HandleCall_def HandleCallRelative_def HandleReturn_def HandleSetBucketSize_def
  HandleSetBucketData_def HandleSetBucketDataImmediate_def HandleGetBucketSize_def
  HandleGetBucketData_def

lemmas engine_defs = engine_SetGetOffset_def engine_set_token_def set_get_def SetGetOffset_def
  GetGetOffset_def Service_SetToken_def PushAddress_def update_bucket_def CreateBucket_def
  shm_write_def

lemma engine_SetGetOffset_eq:
  "engine_SetGetOffset off s =
     (if 0 \<le> off \<and> off < parser_entry_count s
      then (True, s\<lparr>parser_get := off, get_offset_' := off\<rparr>) else (False, s))"
  by (simp add: engine_defs)

lemma frame_refl [simp]: "handler_frame s s"
  by (simp add: handler_frame_def)

lemma frame_jump: "0 \<le> off \<Longrightarrow> off < parser_entry_count s \<Longrightarrow>
    handler_frame s (s\<lparr>parser_get := off, get_offset_' := off\<rparr>)"
  by (simp add: handler_frame_def)

lemma PushAddress_frame: "PushAddress off s = (ok, s') \<Longrightarrow> handler_frame s s'"
  by (auto simp: PushAddress_def engine_SetGetOffset_eq handler_frame_def Let_def split: if_splits)

lemma bucket_handlers_frame:
  "handler_frame s (snd (HandleSetBucketSize n args s))"
  "handler_frame s (snd (HandleSetBucketData n args s))"
  "handler_frame s (snd (HandleSetBucketDataImmediate n args s))"
  "handler_frame s (snd (HandleGetBucketSize n args s))"
  "handler_frame s (snd (HandleGetBucketData n args s))"
  by (auto simp: handler_defs CreateBucket_def update_bucket_def shm_write_def handler_frame_def Let_def
      split: option.splits prod.splits)

lemma bucket_handlers_get:
  "parser_get (snd (HandleSetBucketSize n args s)) = parser_get s"
  "parser_get (snd (HandleSetBucketData n args s)) = parser_get s"
  "parser_get (snd (HandleSetBucketDataImmediate n args s)) = parser_get s"
  "parser_get (snd (HandleGetBucketSize n args s)) = parser_get s"
  "parser_get (snd (HandleGetBucketData n args s)) = parser_get s"
  by (auto simp: handler_defs CreateBucket_def update_bucket_def shm_write_def Let_def
      split: option.splits prod.splits)

lemma jump_handlers_frame:
  "handler_frame s (snd (HandleJump n args s))"
  "handler_frame s (snd (HandleJumpRelative n args s))"
  "handler_frame s (snd (HandleReturn n args s))"
  by (auto simp: handler_defs engine_SetGetOffset_eq handler_frame_def split: list.splits)

lemma call_handlers_frame:
  "handler_frame s (snd (HandleCall n args s))"
  "handler_frame s (snd (HandleCallRelative n args s))"
  using PushAddress_frame by (auto simp: HandleCall_def HandleCallRelative_def split: prod.splits)

lemma handler_of_frame: "handler_frame s (snd (handler_of c n args s))"
  by (cases c) (simp_all add: bucket_handlers_frame jump_handlers_frame call_handlers_frame,
      simp_all add: HandleNoop_def HandleSetToken_def engine_set_token_def Service_SetToken_def handler_frame_def)

text \<open>\<^verbatim>\<open>DoCommonCommand\<close> on the commands of the table and on the others.\<close>

lemma length_command_ids [simp]: "length command_ids = 12" "length g_command_info = 12"
  by (simp_all add: command_ids_def g_command_info_def)

lemma DoCommonCommand_known:
  assumes "command < 12"
  shows "DoCommonCommand command arg_count data s =
    Some (if args_match (g_command_info ! command) arg_count
      then handler_of (command_ids ! command) (u32_mul (arg_count - snd (g_command_info ! command)) 4) data s
      else (kInvalidArguments, s))"
  using assms by (subst DoCommonCommand.simps) (simp add: Let_def)

lemma DoCommonCommand_returns:
  assumes "DoCommonCommand command arg_count data s = Some r"
  shows "command < 12"
proof -
  let ?P = "\<lambda>command arg_count data s r. command < (12 :: nat)"
  show ?thesis
    by (rule DoCommonCommand.raw_induct [where P = ?P, OF _ assms]) (auto split: if_splits)
qed

lemma DoCommonCommand_frame:
  assumes "DoCommonCommand command arg_count data s = Some (e, s')"
  shows "handler_frame s s'"
  using assms DoCommonCommand_known [OF DoCommonCommand_returns [OF assms], of arg_count data s]
    handler_of_frame [of s "command_ids ! command" _ data]
  by (auto split: if_splits) (metis snd_conv)

interpretation common: async_api DoCommonCommand
  by unfold_locales (rule DoCommonCommand_frame)

section \<open>Memory safety\<close>

definition bucket_wf :: "Bucket \<Rightarrow> bool" where
  "bucket_wf b \<longleftrightarrow> length (bucket_data b) = bucket_size b \<and> bucket_size b < 4294967296"

text \<open>
  Buckets have the size they claim, and every registered transfer buffer is backed by memory of
  at least its size.
\<close>

definition decoder_wf :: "'a decoder_world_scheme \<Rightarrow> bool" where
  "decoder_wf s \<longleftrightarrow> (\<forall>k b. buckets s k = Some b \<longrightarrow> bucket_wf b) \<and>
     (\<forall>h obj. buf_ptr (GetTransferBuffer h s) = Some obj \<longrightarrow>
        buf_size (GetTransferBuffer h s) \<le> length (shm_data s obj))"

lemma OffsetSizeValid_iff:
  assumes "offset < 4294967296" "sz < 4294967296" "bucket_size b < 4294967296"
  shows "OffsetSizeValid offset sz b \<longleftrightarrow> offset + sz \<le> bucket_size b"
  using u32_add_check [OF assms(1,2)] assms(3)
  by (cases "offset + sz < 4294967296") (auto simp: OffsetSizeValid_def Let_def u32_add_exact)

lemma length_blit: "offset + length src \<le> length dst \<Longrightarrow> length (blit src offset dst) = length dst"
  by (simp add: blit_def)

lemma blit_read: "offset + length src \<le> length dst \<Longrightarrow> take (length src) (drop offset (blit src offset dst)) = src"
  by (simp add: blit_def)

lemma SetSize_wf: "bucket_wf b \<Longrightarrow> sz < 4294967296 \<Longrightarrow> bucket_wf (Bucket_SetSize sz b)"
  by (simp add: bucket_wf_def Bucket_SetSize_def)

lemma SetData_wf:
  assumes "bucket_wf b" "offset < 4294967296" "sz < 4294967296" "sz \<le> length src"
  shows "bucket_wf (snd (Bucket_SetData src offset sz b))"
  using assms OffsetSizeValid_iff [of offset sz b]
  by (auto simp: Bucket_SetData_def bucket_wf_def length_blit)

lemma GetAddress_in_buffer:
  assumes "GetAddressAndCheckSize shm_id offset sz s = Some p" "offset < 4294967296" "sz < 4294967296"
  shows "\<exists>h. buf_ptr (GetTransferBuffer h s) = Some (fst p) \<and> snd p + sz \<le> buf_size (GetTransferBuffer h s)"
proof -
  define buffer where "buffer = GetTransferBuffer (i32 (int shm_id)) s"
  obtain obj where obj: "buf_ptr buffer = Some obj" "p = (obj, offset)"
    "offset \<le> u32_add offset sz" "u32_add offset sz \<le> buf_size buffer"
    using assms(1) by (auto simp: GetAddressAndCheckSize_def GetSharedMemoryBuffer_def buffer_def Let_def not_less
        split: option.splits if_splits)
  then have "offset + sz \<le> buf_size buffer" using u32_add_check [OF assms(2,3)] by (simp add: u32_add_exact)
  then show ?thesis using obj by (auto simp: buffer_def)
qed

lemma GetAddress_bounds:
  assumes "GetAddressAndCheckSize shm_id offset sz s = Some p" "decoder_wf s"
    "offset < 4294967296" "sz < 4294967296"
  shows "snd p + sz \<le> length (shm_data s (fst p))" "\<exists>h. buf_ptr (GetTransferBuffer h s) = Some (fst p)"
proof -
  obtain h where h: "buf_ptr (GetTransferBuffer h s) = Some (fst p)" "snd p + sz \<le> buf_size (GetTransferBuffer h s)"
    using GetAddress_in_buffer [OF assms(1,3,4)] by blast
  moreover have "buf_size (GetTransferBuffer h s) \<le> length (shm_data s (fst p))"
    using assms(2) h(1) by (auto simp: decoder_wf_def)
  ultimately show "snd p + sz \<le> length (shm_data s (fst p))" by simp
  show "\<exists>h. buf_ptr (GetTransferBuffer h s) = Some (fst p)" using h(1) by blast
qed

text \<open>What a handler may do to memory: lengths stay, objects that are not mapped stay.\<close>

definition mem_safe :: "'a decoder_world_scheme \<Rightarrow> 'a decoder_world_scheme \<Rightarrow> bool" where
  "mem_safe s s' \<longleftrightarrow> decoder_wf s' \<and> (\<forall>obj. length (shm_data s' obj) = length (shm_data s obj)) \<and>
     (\<forall>obj. (\<forall>h. buf_ptr (GetTransferBuffer h s) \<noteq> Some obj) \<longrightarrow> shm_data s' obj = shm_data s obj)"

lemma mem_safe_refl: "decoder_wf s \<Longrightarrow> mem_safe s s"
  by (simp add: mem_safe_def)

lemma mem_safe_bucket:
  assumes "decoder_wf s" "bucket_wf b" "registered_objects_' s1 = registered_objects_' s"
    "shm_data s1 = shm_data s" "buckets s1 = buckets s \<or> buckets s1 = (buckets s)(k \<mapsto> Bucket_new)"
  shows "mem_safe s (update_bucket k b s1)"
  using assms by (auto simp: mem_safe_def decoder_wf_def update_bucket_def GetTransferBuffer_lookup split: if_splits)

lemma mem_safe_write:
  assumes "decoder_wf s" "snd p + length bs \<le> length (shm_data s (fst p))"
    "\<exists>h. buf_ptr (GetTransferBuffer h s) = Some (fst p)"
  shows "mem_safe s (shm_write p bs s)"
  using assms by (auto simp: mem_safe_def decoder_wf_def shm_write_def GetTransferBuffer_lookup length_blit)

lemma mem_safe_other:
  assumes "decoder_wf s" "registered_objects_' s' = registered_objects_' s" "shm_data s' = shm_data s"
    "buckets s' = buckets s"
  shows "mem_safe s s'"
  using assms by (auto simp: mem_safe_def decoder_wf_def GetTransferBuffer_lookup)

lemma control_handlers_safe:
  assumes "decoder_wf s" "c \<in> {kNoop, kSetToken, kJump, kJumpRelative, kCall, kCallRelative, kReturn}"
  shows "mem_safe s (snd (handler_of c n args s))"
  by (rule mem_safe_other [OF assms(1)])
    (use assms(2) in \<open>auto simp: handler_defs engine_SetGetOffset_eq engine_set_token_def
      Service_SetToken_def PushAddress_def Let_def split: list.splits\<close>)

lemma SetBucketSize_safe:
  assumes "decoder_wf s"
  shows "mem_safe s (snd (HandleSetBucketSize n args s))"
proof (cases "buckets s (args ! 1)")
  case None
  have "mem_safe s (update_bucket (args ! 1) (Bucket_SetSize (unat (args ! 2)) Bucket_new)
      (s\<lparr>buckets := (buckets s)(args ! 1 \<mapsto> Bucket_new)\<rparr>))"
    by (rule mem_safe_bucket [OF assms])
      (simp_all add: SetSize_wf bucket_wf_def Bucket_new_def Bucket_SetSize_def)
  then show ?thesis using None by (simp add: HandleSetBucketSize_def CreateBucket_def GetBucket_def)
next
  case (Some b)
  have "bucket_wf b" using assms Some by (auto simp: decoder_wf_def)
  then have "mem_safe s (update_bucket (args ! 1) (Bucket_SetSize (unat (args ! 2)) b) s)"
    by (intro mem_safe_bucket [OF assms]) (simp_all add: SetSize_wf)
  then show ?thesis using Some by (simp add: HandleSetBucketSize_def CreateBucket_def GetBucket_def)
qed

lemma SetBucketData_safe:
  assumes wf: "decoder_wf s"
  shows "mem_safe s (snd (HandleSetBucketData n args s))"
proof -
  let ?off = "unat (args ! 2)" and ?sz = "unat (args ! 3)"
  show ?thesis
  proof (cases "GetAddressAndCheckSize (unat (args ! 4)) (unat (args ! 5)) ?sz s")
    case None
    then show ?thesis using mem_safe_refl [OF wf] by (simp add: HandleSetBucketData_def)
  next
    case p: (Some p)
    show ?thesis
    proof (cases "buckets s (args ! 1)")
      case None
      then show ?thesis using p mem_safe_refl [OF wf] by (simp add: HandleSetBucketData_def GetBucket_def)
    next
      case (Some b)
      have "bucket_wf b" using wf Some by (auto simp: decoder_wf_def)
      moreover have "?sz \<le> length (shm_read p ?sz s)"
        using GetAddress_bounds(1) [OF p wf] by (simp add: shm_read_def)
      ultimately have "bucket_wf (snd (Bucket_SetData (shm_read p ?sz s) ?off ?sz b))"
        by (intro SetData_wf) simp_all
      then have "mem_safe s (update_bucket (args ! 1) (snd (Bucket_SetData (shm_read p ?sz s) ?off ?sz b)) s)"
        by (intro mem_safe_bucket [OF wf]) simp_all
      then show ?thesis
        using p Some mem_safe_refl [OF wf]
        by (auto simp: HandleSetBucketData_def GetBucket_def Let_def split: prod.splits)
    qed
  qed
qed

lemma length_entries_bytes: "length (concat (map entry_bytes ws)) = 4 * length ws"
  by (induction ws) simp_all

lemma SetBucketDataImmediate_safe:
  assumes wf: "decoder_wf s" and len: "n \<le> 4 * (length args - 4)"
  shows "mem_safe s (snd (HandleSetBucketDataImmediate n args s))"
proof (cases "unat (args ! 3) > n \<or> buckets s (args ! 1) = None")
  case True
  then show ?thesis
    using mem_safe_refl [OF wf] by (auto simp: HandleSetBucketDataImmediate_def GetBucket_def Let_def)
next
  case False
  then obtain b where b: "buckets s (args ! 1) = Some b" "unat (args ! 3) \<le> n" by auto
  let ?data = "concat (map entry_bytes (drop 4 args))"
  have "bucket_wf b" using wf b by (auto simp: decoder_wf_def)
  then have "bucket_wf (snd (Bucket_SetData ?data (unat (args ! 2)) (unat (args ! 3)) b))"
    using b(2) len by (intro SetData_wf) (simp_all add: length_entries_bytes)
  then have "mem_safe s (update_bucket (args ! 1)
      (snd (Bucket_SetData ?data (unat (args ! 2)) (unat (args ! 3)) b)) s)"
    by (intro mem_safe_bucket [OF wf]) simp_all
  then show ?thesis
    using b mem_safe_refl [OF wf]
    by (auto simp: HandleSetBucketDataImmediate_def GetBucket_def Let_def split: prod.splits)
qed

lemma GetBucketSize_safe:
  assumes wf: "decoder_wf s"
  shows "mem_safe s (snd (HandleGetBucketSize n args s))"
proof (cases "GetAddressAndCheckSize (unat (args ! 2)) (unat (args ! 3)) 4 s")
  case None
  then show ?thesis using mem_safe_refl [OF wf] by (simp add: HandleGetBucketSize_def)
next
  case (Some p)
  note B = GetAddress_bounds [OF Some wf]
  have "mem_safe s (shm_write p (entry_bytes w) s)" for w
    using B by (intro mem_safe_write [OF wf]) simp_all
  then show ?thesis
    using Some mem_safe_refl [OF wf] by (auto simp: HandleGetBucketSize_def split: option.splits)
qed

lemma GetBucketData_safe:
  assumes wf: "decoder_wf s"
  shows "mem_safe s (snd (HandleGetBucketData n args s))"
proof (cases "GetAddressAndCheckSize (unat (args ! 4)) (unat (args ! 5)) (unat (args ! 3)) s")
  case None
  then show ?thesis using mem_safe_refl [OF wf] by (simp add: HandleGetBucketData_def)
next
  case (Some p)
  note B = GetAddress_bounds [OF Some wf]
  have "mem_safe s (shm_write p (take (unat (args ! 3)) bs) s)" for bs
    using B by (intro mem_safe_write [OF wf]) simp_all
  then show ?thesis
    using Some mem_safe_refl [OF wf] by (auto simp: HandleGetBucketData_def Let_def split: option.splits)
qed

lemma handler_safe:
  assumes "decoder_wf s" "c = kSetBucketDataImmediate \<longrightarrow> n \<le> 4 * (length args - 4)"
  shows "mem_safe s (snd (handler_of c n args s))"
  using assms control_handlers_safe [OF assms(1), of c n args]
  by (cases c) (simp_all add: SetBucketSize_safe SetBucketData_safe SetBucketDataImmediate_safe
      GetBucketSize_safe GetBucketData_safe)

lemma u32_le: "u32 n \<le> n"
  by (simp add: u32_def)

lemma command_ids_immediate: "command < 12 \<Longrightarrow> command_ids ! command = kSetBucketDataImmediate \<longleftrightarrow> command = 9"
proof -
  assume "command < 12"
  then have "command \<in> {0, 1, 2, 3, 4, 5, 6, 7, 8, 9, 10, 11}" by (simp, presburger)
  then show ?thesis by (auto simp: command_ids_def)
qed

section \<open>What a command can see\<close>

text \<open>
  Two states look the same to a command if they differ only in memory, and there only outside
  what is registered: the objects behind the transfer buffers agree up to the registered sizes, the
  buckets up to their sizes. Beyond these, the second state may hold anything, also further bytes
  where the memory of the first one ends. A command that reads nothing else does the same in both.
\<close>

definition bucket_holds :: "Bucket \<Rightarrow> Bucket \<Rightarrow> bool" where
  "bucket_holds b b' \<longleftrightarrow> (\<exists>bs. b' = b\<lparr>bucket_data := bucket_data b @ bs\<rparr>)"

definition same_visible :: "'a decoder_world_scheme \<Rightarrow> 'a decoder_world_scheme \<Rightarrow> bool" where
  "same_visible s t \<longleftrightarrow> t = s\<lparr>shm_data := shm_data t, buckets := buckets t\<rparr> \<and>
     (\<forall>h obj. buf_ptr (GetTransferBuffer h s) = Some obj \<longrightarrow>
        buf_size (GetTransferBuffer h s) \<le> length (shm_data t obj) \<and>
        take (buf_size (GetTransferBuffer h s)) (shm_data t obj) =
        take (buf_size (GetTransferBuffer h s)) (shm_data s obj)) \<and>
     (\<forall>k. rel_option bucket_holds (buckets s k) (buckets t k))"

definition same_result :: "Error \<times> 'a decoder_world_scheme \<Rightarrow> Error \<times> 'a decoder_world_scheme \<Rightarrow> bool" where
  "same_result r r' \<longleftrightarrow> fst r' = fst r \<and> same_visible (snd r) (snd r')"

lemma blit_prefix:
  assumes "take n xs = take n ys" "offset + length bs \<le> length xs" "offset + length bs \<le> length ys"
  shows "take n (blit bs offset xs) = take n (blit bs offset ys)"
proof -
  have "take n (blit bs offset zs) =
      take n (take offset (take n zs) @ bs @ drop (offset + length bs) (take n zs))"
    if "offset + length bs \<le> length zs" for zs
    using that by (auto simp: blit_def take_drop min_def)
  from this [OF assms(2)] this [OF assms(3)] show ?thesis by (simp only: assms(1))
qed

lemma blit_append: "offset + length bs \<le> length xs \<Longrightarrow> blit bs offset (xs @ ys) = blit bs offset xs @ ys"
  by (simp add: blit_def)

lemma visible_eq:
  assumes "same_visible s t"
  obtains m k where "t = s\<lparr>shm_data := m, buckets := k\<rparr>"
proof -
  have "t = s\<lparr>shm_data := shm_data t, buckets := buckets t\<rparr>" using assms by (simp only: same_visible_def)
  then show ?thesis by (rule that)
qed

lemma visible_buffer:
  assumes "same_visible s t" "buf_ptr (GetTransferBuffer h s) = Some obj"
  shows "buf_size (GetTransferBuffer h s) \<le> length (shm_data t obj)"
    "take (buf_size (GetTransferBuffer h s)) (shm_data t obj) =
     take (buf_size (GetTransferBuffer h s)) (shm_data s obj)"
  using assms unfolding same_visible_def by blast+

lemma visible_fields:
  assumes "same_visible s t"
  shows "registered_objects_' t = registered_objects_' s" "parser_get t = parser_get s"
    "parser_entry_count t = parser_entry_count s" "call_stack t = call_stack s"
proof -
  obtain m k where t: "t = s\<lparr>shm_data := m, buckets := k\<rparr>" using assms by (rule visible_eq)
  show "registered_objects_' t = registered_objects_' s" "parser_get t = parser_get s"
    "parser_entry_count t = parser_entry_count s" "call_stack t = call_stack s" by (simp_all add: t)
qed

lemma visible_update:
  assumes "same_visible s t"
  shows "same_visible (s\<lparr>get_offset_' := w\<rparr>) (t\<lparr>get_offset_' := w\<rparr>)"
    "same_visible (s\<lparr>token_' := x\<rparr>) (t\<lparr>token_' := x\<rparr>)"
    "same_visible (s\<lparr>parser_get := y\<rparr>) (t\<lparr>parser_get := y\<rparr>)"
    "same_visible (s\<lparr>call_stack := z\<rparr>) (t\<lparr>call_stack := z\<rparr>)"
proof -
  obtain m k where t: "t = s\<lparr>shm_data := m, buckets := k\<rparr>" using assms by (rule visible_eq)
  show "same_visible (s\<lparr>get_offset_' := w\<rparr>) (t\<lparr>get_offset_' := w\<rparr>)"
    "same_visible (s\<lparr>token_' := x\<rparr>) (t\<lparr>token_' := x\<rparr>)"
    "same_visible (s\<lparr>parser_get := y\<rparr>) (t\<lparr>parser_get := y\<rparr>)"
    "same_visible (s\<lparr>call_stack := z\<rparr>) (t\<lparr>call_stack := z\<rparr>)"
    using assms by (simp_all add: t same_visible_def GetTransferBuffer_lookup)
qed

lemma GetAddress_cong:
  "registered_objects_' s' = registered_objects_' s \<Longrightarrow>
   GetAddressAndCheckSize i off sz s' = GetAddressAndCheckSize i off sz s"
  by (simp add: GetAddressAndCheckSize_def GetSharedMemoryBuffer_def GetTransferBuffer_lookup)

lemma visible_GetAddress: "same_visible s t \<Longrightarrow>
    GetAddressAndCheckSize i off sz t = GetAddressAndCheckSize i off sz s"
  by (rule GetAddress_cong [OF visible_fields(1)])

lemma visible_read:
  assumes "same_visible s t" "GetAddressAndCheckSize i off sz s = Some p" "off < 4294967296" "sz < 4294967296"
  shows "shm_read p sz t = shm_read p sz s"
proof -
  obtain h where h: "buf_ptr (GetTransferBuffer h s) = Some (fst p)" "snd p + sz \<le> buf_size (GetTransferBuffer h s)"
    using GetAddress_in_buffer [OF assms(2-4)] by blast
  then have e: "take (buf_size (GetTransferBuffer h s)) (shm_data t (fst p)) =
      take (buf_size (GetTransferBuffer h s)) (shm_data s (fst p))"
    using visible_buffer [OF assms(1)] by blast
  have "take (snd p + sz) (shm_data t (fst p)) = take (snd p + sz) (shm_data s (fst p))"
    using arg_cong [OF e, of "take (snd p + sz)"] h(2) by (simp add: min_absorb1)
  then show ?thesis by (simp only: shm_read_def take_drop add.commute [of sz])
qed

lemma visible_write:
  assumes v: "same_visible s t" and wf: "decoder_wf s"
    and p: "GetAddressAndCheckSize i off sz s = Some p" "off < 4294967296" "sz < 4294967296" "length bs \<le> sz"
  shows "same_visible (shm_write p bs s) (shm_write p bs t)"
proof -
  obtain m k where t: "t = s\<lparr>shm_data := m, buckets := k\<rparr>" using v by (rule visible_eq)
  obtain h where h: "buf_ptr (GetTransferBuffer h s) = Some (fst p)" "snd p + sz \<le> buf_size (GetTransferBuffer h s)"
    using GetAddress_in_buffer [OF p(1-3)] by blast
  have "buf_size (GetTransferBuffer h s) \<le> length (shm_data s (fst p))"
    "buf_size (GetTransferBuffer h s) \<le> length (m (fst p))"
    using h(1) wf visible_buffer(1) [OF v h(1)] by (auto simp: decoder_wf_def t)
  then have r: "snd p + length bs \<le> length (shm_data s (fst p))" "snd p + length bs \<le> length (m (fst p))"
    using h(2) p(4) by simp_all
  show ?thesis
    using v blit_prefix [OF _ r(2,1)] length_blit [OF r(2)]
    by (simp add: same_visible_def shm_write_def t GetTransferBuffer_lookup fun_upd_def)
qed

lemma visible_bucket:
  assumes "same_visible s t" "bucket_holds b b'"
  shows "same_visible (update_bucket k b s) (update_bucket k b' t)"
proof -
  obtain m g where t: "t = s\<lparr>shm_data := m, buckets := g\<rparr>" using assms(1) by (rule visible_eq)
  show ?thesis using assms by (simp add: same_visible_def update_bucket_def t GetTransferBuffer_lookup)
qed

lemma visible_buckets:
  assumes "same_visible s t"
  shows "buckets s k = None \<Longrightarrow> buckets t k = None"
    "buckets s k = Some b \<Longrightarrow> \<exists>b'. buckets t k = Some b' \<and> bucket_holds b b'"
proof -
  have "rel_option bucket_holds (buckets s k) (buckets t k)"
    using assms by (simp only: same_visible_def)
  then show "buckets s k = None \<Longrightarrow> buckets t k = None"
    "buckets s k = Some b \<Longrightarrow> \<exists>b'. buckets t k = Some b' \<and> bucket_holds b b'"
    by (auto simp: option_rel_Some1)
qed

lemma holds_refl [simp]: "bucket_holds b b"
  by (auto simp: bucket_holds_def intro: exI [of _ "[]"])

lemma holds_SetSize: "bucket_holds b b' \<Longrightarrow> bucket_holds (Bucket_SetSize sz b) (Bucket_SetSize sz b')"
  by (auto simp: bucket_holds_def Bucket_SetSize_def intro: exI [of _ "[]"])

lemma holds_SetData:
  assumes h: "bucket_holds b b'" and wf: "bucket_wf b" and sz: "offset < 4294967296" "sz < 4294967296"
    and d: "take sz data' = take sz data"
  shows "fst (Bucket_SetData data' offset sz b') = fst (Bucket_SetData data offset sz b) \<and>
    bucket_holds (snd (Bucket_SetData data offset sz b)) (snd (Bucket_SetData data' offset sz b'))"
proof -
  obtain bs where b': "b' = b\<lparr>bucket_data := bucket_data b @ bs\<rparr>" using h by (auto simp: bucket_holds_def)
  have "OffsetSizeValid offset sz b \<Longrightarrow> offset + length (take sz data) \<le> length (bucket_data b)"
    using wf OffsetSizeValid_iff [OF sz, of b] by (auto simp: bucket_wf_def)
  then show ?thesis
    using d h by (cases "OffsetSizeValid offset sz b")
      (auto simp: Bucket_SetData_def OffsetSizeValid_def blit_append b' bucket_holds_def)
qed

lemma holds_GetData:
  assumes h: "bucket_holds b b'" and wf: "bucket_wf b" and sz: "offset < 4294967296" "sz < 4294967296"
  shows "Bucket_GetData offset sz b' = Bucket_GetData offset sz b"
    "Bucket_GetData offset sz b = Some src \<Longrightarrow>
     take sz (drop src (bucket_data b')) = take sz (drop src (bucket_data b))"
  using assms OffsetSizeValid_iff [OF sz, of b]
  by (auto simp: bucket_holds_def Bucket_GetData_def OffsetSizeValid_def bucket_wf_def split: if_splits)

lemma SetGetOffset_visible:
  assumes "same_visible s t"
  shows "fst (engine_SetGetOffset x t) = fst (engine_SetGetOffset x s)"
    "same_visible (snd (engine_SetGetOffset x s)) (snd (engine_SetGetOffset x t))"
    "call_stack (snd (engine_SetGetOffset x s)) = call_stack s"
  using assms by (simp_all add: engine_SetGetOffset_eq visible_fields [OF assms] visible_update)

lemma PushAddress_visible:
  assumes "same_visible s t"
  shows "fst (PushAddress x t) = fst (PushAddress x s)"
    "same_visible (snd (PushAddress x s)) (snd (PushAddress x t))"
  using assms by (simp_all add: PushAddress_def engine_SetGetOffset_eq GetGetOffset_def Let_def
      visible_fields [OF assms] visible_update)

lemma control_handlers_visible:
  assumes v: "same_visible s t" and c: "c \<in> {kNoop, kSetToken, kJump, kJumpRelative, kCall, kCallRelative, kReturn}"
    and a: "c \<notin> {kNoop, kReturn} \<Longrightarrow> args' ! Suc 0 = args ! Suc 0"
  shows "same_result (handler_of c n args s) (handler_of c n args' t)"
proof (cases c)
  case kReturn
  show ?thesis
  proof (cases "call_stack s")
    case Nil
    then show ?thesis using v kReturn by (simp add: HandleReturn_def same_result_def visible_fields [OF v])
  next
    case (Cons r rest)
    show ?thesis using Cons kReturn SetGetOffset_visible [OF visible_update(4) [OF v]]
      by (simp add: HandleReturn_def same_result_def visible_fields [OF v] case_prod_beta)
  qed
qed (use v c a SetGetOffset_visible [OF v] PushAddress_visible [OF v] in \<open>simp_all add: handler_defs same_result_def
  case_prod_beta engine_set_token_def Service_SetToken_def GetGetOffset_def visible_fields [OF v] visible_update\<close>)

lemma SetBucketSize_visible:
  assumes v: "same_visible s t" and a: "\<And>k. k \<le> 2 \<Longrightarrow> args' ! k = args ! k"
  shows "same_result (HandleSetBucketSize n args s) (HandleSetBucketSize n args' t)"
proof -
  have arg: "args' ! Suc 0 = args ! Suc 0" "args' ! 2 = args ! 2" using a by simp_all
  have up: "update_bucket i b (w\<lparr>buckets := (buckets w)(i \<mapsto> b')\<rparr>) = update_bucket i b w" for i b b'
    and w :: "'a decoder_world_scheme"
    by (simp add: update_bucket_def)
  show ?thesis
  proof (cases "buckets s (args ! 1)")
    case None
    show ?thesis using None visible_buckets(1) [OF v None] visible_bucket [OF v holds_refl]
      by (simp add: HandleSetBucketSize_def CreateBucket_def GetBucket_def arg same_result_def up)
  next
    case (Some b)
    then obtain b' where "buckets t (args ! 1) = Some b'" "bucket_holds b b'"
      using visible_buckets(2) [OF v] by blast
    then show ?thesis using Some visible_bucket [OF v holds_SetSize]
      by (simp add: HandleSetBucketSize_def CreateBucket_def GetBucket_def arg same_result_def)
  qed
qed

lemma SetBucketData_visible:
  assumes v: "same_visible s t" and wf: "decoder_wf s" and a: "\<And>k. k \<le> 5 \<Longrightarrow> args' ! k = args ! k"
  shows "same_result (HandleSetBucketData n args s) (HandleSetBucketData n args' t)"
proof -
  let ?off = "unat (args ! 2)" and ?sz = "unat (args ! 3)"
  have arg: "args' ! Suc 0 = args ! Suc 0" "args' ! 2 = args ! 2" "args' ! 3 = args ! 3" "args' ! 4 = args ! 4"
    "args' ! 5 = args ! 5" using a by simp_all
  note simps = HandleSetBucketData_def arg visible_GetAddress [OF v] same_result_def GetBucket_def Let_def
  consider "GetAddressAndCheckSize (unat (args ! 4)) (unat (args ! 5)) ?sz s = None"
    | "buckets s (args ! 1) = None"
    | p b where "GetAddressAndCheckSize (unat (args ! 4)) (unat (args ! 5)) ?sz s = Some p"
      "buckets s (args ! 1) = Some b" by fastforce
  then show ?thesis
  proof cases
    case 1
    then show ?thesis using v by (simp add: simps)
  next
    case 2
    then show ?thesis using v visible_buckets(1) [OF v 2] by (simp add: simps split: option.splits)
  next
    case 3
    obtain b' where b': "buckets t (args ! 1) = Some b'" "bucket_holds b b'"
      using visible_buckets(2) [OF v 3(2)] by blast
    have "bucket_wf b" using wf 3(2) by (auto simp: decoder_wf_def)
    from holds_SetData [OF b'(2) this, of ?off ?sz "shm_read p ?sz s" "shm_read p ?sz s"]
    have "fst (Bucket_SetData (shm_read p ?sz s) ?off ?sz b') = fst (Bucket_SetData (shm_read p ?sz s) ?off ?sz b)"
      and "bucket_holds (snd (Bucket_SetData (shm_read p ?sz s) ?off ?sz b))
        (snd (Bucket_SetData (shm_read p ?sz s) ?off ?sz b'))" by simp_all
    then show ?thesis using 3 b'(1) v visible_read [OF v 3(1)] visible_bucket [OF v]
      by (simp add: simps case_prod_beta)
  qed
qed

lemma SetBucketDataImmediate_visible:
  assumes v: "same_visible s t" and wf: "decoder_wf s" and a: "\<And>k. k \<le> 3 \<Longrightarrow> args' ! k = args ! k"
    and d: "take n (concat (map entry_bytes (drop 4 args'))) = take n (concat (map entry_bytes (drop 4 args)))"
  shows "same_result (HandleSetBucketDataImmediate n args s) (HandleSetBucketDataImmediate n args' t)"
proof -
  let ?off = "unat (args ! 2)" and ?sz = "unat (args ! 3)"
  let ?data = "\<lambda>xs. concat (map entry_bytes (drop 4 xs))"
  have arg: "args' ! Suc 0 = args ! Suc 0" "args' ! 2 = args ! 2" "args' ! 3 = args ! 3" using a by simp_all
  note simps = HandleSetBucketDataImmediate_def arg same_result_def GetBucket_def Let_def
  show ?thesis
  proof (cases "?sz > n \<or> buckets s (args ! 1) = None")
    case True
    then show ?thesis using v visible_buckets(1) [OF v] by (auto simp: simps)
  next
    case False
    then obtain b where b: "buckets s (args ! 1) = Some b" "?sz \<le> n" by auto
    obtain b' where b': "buckets t (args ! 1) = Some b'" "bucket_holds b b'"
      using visible_buckets(2) [OF v b(1)] by blast
    have "take ?sz (?data args') = take ?sz (?data args)" using arg_cong [OF d, of "take ?sz"] b(2) by (simp add: min_absorb1)
    moreover have "bucket_wf b" using wf b(1) by (auto simp: decoder_wf_def)
    ultimately have "fst (Bucket_SetData (?data args') ?off ?sz b') = fst (Bucket_SetData (?data args) ?off ?sz b) \<and>
        bucket_holds (snd (Bucket_SetData (?data args) ?off ?sz b)) (snd (Bucket_SetData (?data args') ?off ?sz b'))"
      by (intro holds_SetData [OF b'(2)]) simp_all
    then show ?thesis using b b'(1) v visible_bucket [OF v] by (simp add: simps case_prod_beta)
  qed
qed

lemma GetBucketSize_visible:
  assumes v: "same_visible s t" and wf: "decoder_wf s" and a: "\<And>k. k \<le> 3 \<Longrightarrow> args' ! k = args ! k"
  shows "same_result (HandleGetBucketSize n args s) (HandleGetBucketSize n args' t)"
proof -
  have arg: "args' ! Suc 0 = args ! Suc 0" "args' ! 2 = args ! 2" "args' ! 3 = args ! 3" using a by simp_all
  note simps = HandleGetBucketSize_def arg visible_GetAddress [OF v] same_result_def GetBucket_def
  show ?thesis
  proof (cases "GetAddressAndCheckSize (unat (args ! 2)) (unat (args ! 3)) 4 s")
    case None
    then show ?thesis using v by (simp add: simps)
  next
    case (Some p)
    have rd: "shm_read p 4 t = shm_read p 4 s" using visible_read [OF v Some] by simp
    have wr: "same_visible (shm_write p (entry_bytes w) s) (shm_write p (entry_bytes w) t)" for w
      using visible_write [OF v wf Some, of "entry_bytes w"] by simp
    show ?thesis
    proof (cases "buckets s (args ! 1)")
      case None
      then show ?thesis using v Some rd visible_buckets(1) [OF v None] by (simp add: simps)
    next
      case b: (Some b)
      obtain b' where "buckets t (args ! 1) = Some b'" "bucket_size b' = bucket_size b"
        using visible_buckets(2) [OF v b] by (auto simp: bucket_holds_def)
      then show ?thesis using v Some b rd wr by (simp add: simps)
    qed
  qed
qed

lemma GetBucketData_visible:
  assumes v: "same_visible s t" and wf: "decoder_wf s" and a: "\<And>k. k \<le> 5 \<Longrightarrow> args' ! k = args ! k"
  shows "same_result (HandleGetBucketData n args s) (HandleGetBucketData n args' t)"
proof -
  let ?off = "unat (args ! 2)" and ?sz = "unat (args ! 3)"
  have arg: "args' ! Suc 0 = args ! Suc 0" "args' ! 2 = args ! 2" "args' ! 3 = args ! 3" "args' ! 4 = args ! 4"
    "args' ! 5 = args ! 5" using a by simp_all
  note simps = HandleGetBucketData_def arg visible_GetAddress [OF v] same_result_def GetBucket_def Let_def
  consider "GetAddressAndCheckSize (unat (args ! 4)) (unat (args ! 5)) ?sz s = None"
    | "buckets s (args ! 1) = None"
    | p b where "GetAddressAndCheckSize (unat (args ! 4)) (unat (args ! 5)) ?sz s = Some p"
      "buckets s (args ! 1) = Some b" by fastforce
  then show ?thesis
  proof cases
    case 1
    then show ?thesis using v by (simp add: simps)
  next
    case 2
    then show ?thesis using v visible_buckets(1) [OF v 2] by (simp add: simps split: option.splits)
  next
    case 3
    obtain b' where b': "buckets t (args ! 1) = Some b'" "bucket_holds b b'"
      using visible_buckets(2) [OF v 3(2)] by blast
    have "bucket_wf b" using wf 3(2) by (auto simp: decoder_wf_def)
    note g = holds_GetData [OF b'(2) this, of ?off ?sz, simplified]
    have "same_visible (shm_write p (take ?sz bs) s) (shm_write p (take ?sz bs) t)" for bs
      using visible_write [OF v wf 3(1), of "take ?sz bs"] by simp
    then show ?thesis using 3 b'(1) v g by (simp add: simps split: option.splits)
  qed
qed

lemma handler_visible:
  assumes v: "same_visible s t" and wf: "decoder_wf s" and a: "\<And>k. k \<le> m \<Longrightarrow> args' ! k = args ! k"
    and m: "sizeof_cmd c div 4 \<le> Suc m"
    and d: "c = kSetBucketDataImmediate \<Longrightarrow>
      take n (concat (map entry_bytes (drop 4 args'))) = take n (concat (map entry_bytes (drop 4 args)))"
  shows "same_result (handler_of c n args s) (handler_of c n args' t)"
proof (cases "c \<in> {kNoop, kSetToken, kJump, kJumpRelative, kCall, kCallRelative, kReturn}")
  case True
  then show ?thesis using a m by (intro control_handlers_visible [OF v True]) (cases c; simp)
next
  case False
  then show ?thesis
    using a m d by (cases c) (simp_all add: SetBucketSize_visible [OF v] SetBucketData_visible [OF v wf]
      SetBucketDataImmediate_visible [OF v wf] GetBucketSize_visible [OF v wf] GetBucketData_visible [OF v wf])
qed

lemma take_entries_bytes: "take (4 * k) (concat (map entry_bytes xs)) = concat (map entry_bytes (take k xs))"
proof (induction xs arbitrary: k)
  case (Cons x xs)
  then show ?case by (cases k) simp_all
qed simp

lemma immediate_same:
  assumes "take (Suc m) data' = take (Suc m) data" "n \<le> 4 * (m - 3)" "3 \<le> m"
  shows "take n (concat (map entry_bytes (drop 4 data'))) = take n (concat (map entry_bytes (drop 4 data)))"
proof -
  have "take (m - 3) (drop 4 xs) = drop 4 (take (Suc m) xs)" for xs :: "32 word list"
    using assms(3) by (simp add: drop_take)
  then have "take (m - 3) (drop 4 data') = take (m - 3) (drop 4 data)" using assms(1) by simp
  then have "take (4 * (m - 3)) (concat (map entry_bytes (drop 4 data'))) =
      take (4 * (m - 3)) (concat (map entry_bytes (drop 4 data)))"
    by (simp only: take_entries_bytes)
  from arg_cong [OF this, of "take n"] show ?thesis using assms(2) by (simp add: min_absorb1)
qed

section \<open>The service with its decoder\<close>

text \<open>
  The scheduler's environment: the GLES2 decoder with its handlers, no callbacks of the embedder
  (they are absent in a new scheduler).
\<close>

definition service_env :: "(ArgFlags \<times> nat) list \<Rightarrow> (nat \<Rightarrow> 'a decoder_world_scheme handler) \<Rightarrow>
    ('a decoder_world_scheme \<Rightarrow> ContextLostReason) \<Rightarrow> 'a decoder_world_scheme scheduler_env" where
  "service_env gles2_info gles2_handle lost =
     \<lparr>env_DoCommand = GLES2Decoder_DoCommand gles2_info gles2_handle, env_GetContextLostReason = lost,
      env_command_processed = (\<lambda>s. s), env_scheduled = (\<lambda>s. s), env_parse_error = (\<lambda>s. s)\<rparr>"

locale gles2_handlers =
  fixes gles2_info :: "(ArgFlags \<times> nat) list"
    and gles2_handle :: "nat \<Rightarrow> 'a decoder_world_scheme handler"
    and lost :: "'a decoder_world_scheme \<Rightarrow> ContextLostReason"
  assumes gles2_frame: "handler_frame s (snd (gles2_handle c n args s))"
begin

lemma handle_frame: "gles2_handle c n args s = (e, s') \<Longrightarrow> handler_frame s s'"
  using gles2_frame [of s c n args] by simp

lemma DoCommand_frame:
  assumes "GLES2Decoder_DoCommand gles2_info gles2_handle c n data s = Some (e, s')"
  shows "handler_frame s s'"
proof -
  let ?index = "u32_sub (u32_sub c kStartPoint) 1"
  let ?inner = "if ?index < length gles2_info then
      (if args_match (gles2_info ! ?index) n
       then Some (gles2_handle c (u32_mul (n - snd (gles2_info ! ?index)) 4) data s)
       else Some (kInvalidArguments, s))
    else DoCommonCommand c n data s"
  obtain r s1 where inner: "?inner = Some (r, s1)"
    and s': "s' = s1 \<or> s' = s1\<lparr>current_decoder_error := kNoError\<rparr>"
    using assms unfolding GLES2Decoder_DoCommand_def Let_def bind_eq_Some_conv
    by (auto simp del: bind_eq_Some_conv split: if_splits)
  have "handler_frame s s1"
    using inner by (auto split: if_splits intro: DoCommonCommand_frame handle_frame)
  then show ?thesis using s' by (auto simp: handler_frame_def)
qed

end

sublocale gles2_handlers \<subseteq> sched: scheduler_api "service_env gles2_info gles2_handle lost"
  by unfold_locales (auto simp: service_env_def intro: DoCommand_frame)

context gles2_handlers
begin

lemma service_PutChanged_spec:
  assumes "PutChanged (service_env gles2_info gles2_handle lost) s = Some s'" "sched_inv s" "error_' s = kNoError"
  shows "sched_inv s' \<and> parser_put s' = put_offset_' s \<and> parser_entry_count s' = parser_entry_count s \<and>
    (parser_get s' = put_offset_' s \<or> error_' s' \<noteq> kNoError \<or> unscheduled_count s' > 0)"
  by (rule sched.PutChanged_spec [OF assms])

lemma service_PutChanged_run:
  assumes "error_' s = kNoError"
    and "commands_between (ring_entries s) (parser_entry_count s) fuel (parser_get s) (put_offset_' s) = Some cs"
    and "straight (GLES2Decoder_DoCommand gles2_info gles2_handle) cs"
  shows "PutChanged (service_env gles2_info gles2_handle lost) s =
    sched_run (service_env gles2_info gles2_handle lost) cs
      (s\<lparr>generation_' := u32_add (generation_' s) 1, parser_put := put_offset_' s\<rparr>)"
  by (rule sched.PutChanged_run [OF assms(1,2)]) (use assms(3) in \<open>simp add: service_env_def\<close>)

end

interpretation no_gles2: gles2_handlers "[]" "\<lambda>_ _ _ s. (kUnknownCommand, s)" "\<lambda>_. kUnknown"
  by unfold_locales simp

lemma info_simps [simp]:
  "g_command_info ! 7 = (kFixed, 2)" "g_command_info ! 8 = (kFixed, 5)" "g_command_info ! 11 = (kFixed, 5)"
  "command_ids ! 7 = kSetBucketSize" "command_ids ! 8 = kSetBucketData" "command_ids ! 11 = kGetBucketData"
  "g_command_info ! 4 = (kFixed, 1)" "g_command_info ! 6 = (kFixed, 0)" "g_command_info ! Suc 0 = (kFixed, 1)"
  "command_ids ! 4 = kCall" "command_ids ! 6 = kReturn" "command_ids ! Suc 0 = kSetToken"
  by (simp_all add: g_command_info_def command_ids_def)

section \<open>A sample service\<close>

text \<open>
  Eight entries: a call of the return command at position 4, and a token command at position 2
  that is to be processed; one transfer buffer of eight bytes with handle 1.
\<close>

definition sample_service :: decoder_world where
  "sample_service =
    \<lparr>ring_buffer_' = \<lparr>buf_ptr = Some 9, buf_size = 32, buf_shared_memory = Some 9\<rparr>,
     ring_entries = Call_Init 4 @ SetToken_Init 7 @ Return_Init @ [0, 0, 0], num_entries_' = 8,
     get_offset_' = 2, put_offset_' = 4, put_offset_change_callback_' = True,
     parse_error_callback_' = False,
     registered_objects_' = [null_buffer, \<lparr>buf_ptr = Some 0, buf_size = 8, buf_shared_memory = Some 0\<rparr>],
     unused_registered_object_elements_' = {}, token_' = 0, generation_' = 0, error_' = kNoError,
     context_lost_reason_' = kUnknown, parser_get = 2, parser_put = 2, parser_entry_count = 8,
     unscheduled_count = 0, scheduled_callback = False, command_processed_callback = False,
     buckets = (\<lambda>_. None), call_stack = [], shm_data = (\<lambda>_. [1, 2, 3, 4, 0, 0, 0, 0]),
     current_decoder_error = kNoError\<rparr>"

abbreviation "sample_DoCommand \<equiv> GLES2Decoder_DoCommand [] (\<lambda>_ _ _ s. (kUnknownCommand, s))"

lemma sample_wf: "decoder_wf sample_service"
  by (auto simp: decoder_wf_def sample_service_def GetTransferBuffer_lookup lookup_obj_def null_buffer_def
      nth_Cons split: nat.splits if_splits)

lemma sample_inv: "sched_inv sample_service" "error_' sample_service = kNoError"
  "num_entries_' sample_service = parser_entry_count sample_service"
  "put_offset_change_callback_' sample_service"
  by (simp_all add: sched_inv_def parser_inv_def sample_service_def Call_Init_def SetToken_Init_def Return_Init_def)

lemma sample_token:
  "sample_DoCommand (Suc 0) (Suc 0) (SetToken_Init 7 @ rest) s =
     (if current_decoder_error s = kNoError then Some (kNoError, s\<lparr>token_' := 7\<rparr>)
      else Some (current_decoder_error s, s\<lparr>token_' := 7, current_decoder_error := kNoError\<rparr>))"
  by (simp add: GLES2Decoder_DoCommand_def Let_def DoCommonCommand_known args_match_def HandleSetToken_def
      SetToken_Init_def engine_set_token_def Service_SetToken_def)

lemma sample_cmds:
  "commands_between (ring_entries sample_service) 8 1 2 4 =
     Some [(2, 1, 1, SetToken_Init 7 @ Return_Init @ [0, 0, 0], 4)]"
proof -
  let ?ring = "ring_entries sample_service"
  have h: "value_header (?ring ! nat 2) = SetCmd kSetToken" "drop (nat 2) ?ring = SetToken_Init 7 @ Return_Init @ [0, 0, 0]"
    by (simp_all add: sample_service_def Call_Init_def SetToken_Init_def)
  have "commands_between ?ring 8 0 4 4 = Some []" by (subst commands_between.simps) simp
  then show ?thesis
    by (subst commands_between.simps) (simp only: One_nat_def nat.case h Let_def SetCmd_size, simp)
qed

lemma sample_straight: "straight sample_DoCommand [(2, 1, 1, SetToken_Init 7 @ Return_Init @ [0, 0, 0], 4)]"
  by (auto simp: keeps_get_def sample_token split: if_splits)

section \<open>Properties\<close>

text \<open>
  C2: A common command whose header the parser accepted (the entries it counts are there) writes
  only into the memory of registered transfer buffers and of buckets, and moves the get offset only
  to a position inside the ring buffer; and it reads nothing but its own entries, the registered
  ranges of transfer buffers and the bytes of buckets: in any other state that agrees with the first
  one on these, whatever lies outside, and with any other entries after its own, it returns the same
  error and leaves the same there.
\<close>

theorem common_command_memory_safe:
  assumes "decoder_wf s" "arg_count < length data"
    and "same_visible s t" "take (Suc arg_count) data' = take (Suc arg_count) data"
    and "DoCommonCommand command arg_count data s = Some (e, s')"
  shows "mem_safe s s' \<and> handler_frame s s' \<and>
    (\<exists>t'. DoCommonCommand command arg_count data' t = Some (e, t') \<and> same_visible s' t')"
proof -
  note k = DoCommonCommand_returns [OF assms(5)]
  let ?c = "command_ids ! command" and ?n = "u32_mul (arg_count - snd (g_command_info ! command)) 4"
  have imm: "snd (g_command_info ! command) = 3 \<and> ?n \<le> 4 * (arg_count - 3)" if "?c = kSetBucketDataImmediate"
  proof -
    have "snd (g_command_info ! command) = 3"
      using k that by (simp add: command_ids_immediate g_command_info_def) (simp add: command_ids_def)
    moreover have "u32_mul (arg_count - 3) 4 \<le> (arg_count - 3) * 4" by (simp add: u32_mul_def u32_le)
    ultimately show ?thesis by simp
  qed
  then have "?c = kSetBucketDataImmediate \<longrightarrow> ?n \<le> 4 * (length data - 4)" using assms(2) by fastforce
  from handler_safe [OF assms(1) this] mem_safe_refl [OF assms(1)] DoCommonCommand_frame [OF assms(5)]
  have "mem_safe s s' \<and> handler_frame s s'"
    using assms(5) DoCommonCommand_known [OF k, of arg_count data s] by (auto split: if_splits)
  moreover have "same_result (handler_of ?c ?n data s) (handler_of ?c ?n data' t)"
    if m: "args_match (g_command_info ! command) arg_count"
  proof (rule handler_visible [OF assms(3,1), where m = arg_count])
    show "data' ! i = data ! i" if "i \<le> arg_count" for i
      using arg_cong [OF assms(4), of "\<lambda>xs. xs ! i"] that by simp
    have le: "snd (g_command_info ! command) \<le> arg_count" using m by (auto simp: args_match_def)
    then show "sizeof_cmd ?c div 4 \<le> Suc arg_count" using k by (simp add: g_command_info_def)
    show "take ?n (concat (map entry_bytes (drop 4 data'))) = take ?n (concat (map entry_bytes (drop 4 data)))"
      if "?c = kSetBucketDataImmediate"
    proof (rule immediate_same [OF assms(4)])
      show "?n \<le> 4 * (arg_count - 3)" "3 \<le> arg_count" using imm [OF that] le by (blast, simp)
    qed
  qed
  then have "\<exists>t'. DoCommonCommand command arg_count data' t = Some (e, t') \<and> same_visible s' t'"
    using assms(3,5) DoCommonCommand_known [OF k, of arg_count data s]
      DoCommonCommand_known [OF k, of arg_count data' t]
    by (cases "args_match (g_command_info ! command) arg_count") (auto simp: same_result_def prod_eq_iff)
  ultimately show ?thesis by blast
qed

theorem common_command_memory_safe_witness:
  "let s = sample_service\<lparr>buckets := [7 \<mapsto> \<lparr>bucket_size = 4, bucket_data = [5, 6, 7, 8]\<rparr>]\<rparr>;
       t = s\<lparr>shm_data := (\<lambda>_. [1, 2, 3, 4, 0, 0, 0, 0, 9, 9]),
             buckets := [7 \<mapsto> \<lparr>bucket_size = 4, bucket_data = [5, 6, 7, 8, 9]\<rparr>]\<rparr>;
       cmd = GetBucketData_Init 7 1 3 1 4
   in \<exists>s' t'. shm_data s' 0 = [1, 2, 3, 4, 6, 7, 8, 0] \<and> DoCommonCommand 11 5 (cmd @ [1]) t = Some (kNoError, t') \<and>
        same_visible s' t'"
proof -
  let ?s = "sample_service\<lparr>buckets := [7 \<mapsto> \<lparr>bucket_size = 4, bucket_data = [5, 6, 7, 8]\<rparr>]\<rparr>"
  let ?t = "?s\<lparr>shm_data := (\<lambda>_. [1, 2, 3, 4, 0, 0, 0, 0, 9, 9]),
    buckets := [7 \<mapsto> \<lparr>bucket_size = 4, bucket_data = [5, 6, 7, 8, 9]\<rparr>]\<rparr>"
  let ?cmd = "GetBucketData_Init 7 1 3 1 4"
  have wf: "decoder_wf ?s" using sample_wf
    by (auto simp: decoder_wf_def bucket_wf_def GetTransferBuffer_lookup sample_service_def)
  have b: "buf_size (GetTransferBuffer h ?s) \<le> 8" for h
    by (auto simp: GetTransferBuffer_lookup lookup_obj_def null_buffer_def sample_service_def nth_Cons
        split: nat.splits)
  have "take n [1, 2, 3, 4, 0, 0, 0, 0, 9, 9] = take n [1, 2, 3, 4, 0, 0, 0, 0 :: byte]" if "n \<le> 8" for n
    using that by (simp add: take_Cons split: nat.splits)
  moreover have "buf_size (GetTransferBuffer h ?s) \<le> length [1, 2, 3, 4, 0, 0, 0, 0, 9, 9 :: byte]" for h
    by (rule order_trans [OF b]) simp
  ultimately have v: "same_visible ?s ?t" using b
    by (auto simp: same_visible_def bucket_holds_def GetTransferBuffer_lookup sample_service_def)
  have r: "DoCommonCommand 11 5 ?cmd ?s = Some (kNoError, shm_write (0, 4) [6, 7, 8] ?s)"
    by (simp add: DoCommonCommand_known args_match_def g_command_info_def command_ids_def HandleGetBucketData_def
        GetBucketData_Init_def GetAddressAndCheckSize_def GetSharedMemoryBuffer_def GetTransferBuffer_lookup
        lookup_obj_def sample_service_def i32_def u32_add_def u32_def GetBucket_def Bucket_GetData_def
        OffsetSizeValid_def)
  have "shm_data (shm_write (0, 4) [6, 7, 8] ?s) 0 = [1, 2, 3, 4, 6, 7, 8, 0]"
    by (simp add: shm_write_def blit_def sample_service_def)
  moreover obtain t' where "DoCommonCommand 11 5 (?cmd @ [1]) ?t = Some (kNoError, t')"
    "same_visible (shm_write (0, 4) [6, 7, 8] ?s) t'"
    using common_command_memory_safe [OF wf _ v _ r, of "?cmd @ [1]"] by (auto simp: GetBucketData_Init_def)
  ultimately show ?thesis by (simp only: Let_def) blast
qed

text \<open>
  Strings go through a bucket unchanged, and the absence of a string is kept apart from the
  empty string.
\<close>

theorem bucket_string_roundtrip:
  assumes "bucket_wf b" "length cs < 4294967295"
  shows "Bucket_GetAsString (Bucket_SetFromString (Some cs) b) = Some cs \<and>
    Bucket_GetAsString (Bucket_SetFromString None b) = None"
proof -
  let ?n = "Suc (length cs)"
  have n: "u32_add (length cs) 1 = ?n" using assms(2) by (simp add: u32_simps)
  have wf: "bucket_wf (Bucket_SetSize ?n b)" "bucket_size (Bucket_SetSize ?n b) = ?n"
    using assms by (simp_all add: SetSize_wf, simp_all add: Bucket_SetSize_def)
  have "OffsetSizeValid 0 ?n (Bucket_SetSize ?n b)"
    using OffsetSizeValid_iff [of 0 ?n "Bucket_SetSize ?n b"] wf assms(2) by simp
  then have "Bucket_SetFromString (Some cs) b =
      (Bucket_SetSize ?n b)\<lparr>bucket_data := blit (cs @ [0]) 0 (bucket_data (Bucket_SetSize ?n b))\<rparr>"
    unfolding Bucket_SetFromString_def option.case Let_def n Bucket_SetData_def by simp
  moreover have "length (bucket_data (Bucket_SetSize ?n b)) = ?n" using wf by (simp add: bucket_wf_def)
  ultimately show ?thesis
    using wf by (simp add: Bucket_GetAsString_def blit_def Bucket_SetFromString_def Bucket_SetSize_def)
qed

theorem bucket_string_roundtrip_witness:
  "Bucket_GetAsString (Bucket_SetFromString (Some [104, 105]) Bucket_new) = Some [104, 105]"
  using bucket_string_roundtrip [of Bucket_new "[104, 105]"] by (simp add: bucket_wf_def Bucket_new_def)

lemma SetSize_bucket:
  assumes "decoder_wf s"
  shows "\<exists>b s1. HandleSetBucketSize m [h, i, n] s = (kNoError, s1) \<and> buckets s1 i = Some b \<and>
    bucket_wf b \<and> bucket_size b = unat n \<and> registered_objects_' s1 = registered_objects_' s \<and>
    shm_data s1 = shm_data s"
proof (cases "buckets s i")
  case None
  then show ?thesis
    by (simp add: HandleSetBucketSize_def CreateBucket_def GetBucket_def update_bucket_def
        bucket_wf_def Bucket_new_def Bucket_SetSize_def)
next
  case (Some b)
  then have "bucket_wf b" using assms by (auto simp: decoder_wf_def)
  then have "bucket_wf (Bucket_SetSize (unat n) b)" by (simp add: SetSize_wf)
  moreover have "bucket_size (Bucket_SetSize (unat n) b) = unat n" by (simp add: Bucket_SetSize_def)
  ultimately show ?thesis
    using Some by (simp add: HandleSetBucketSize_def CreateBucket_def GetBucket_def update_bucket_def)
qed

lemma SetData_bucket:
  assumes b: "buckets s i = Some b" "bucket_wf b" "unat off + unat sz \<le> bucket_size b"
    and p: "GetAddressAndCheckSize (unat shm) (unat pos) (unat sz) s = Some p"
    and len: "length (shm_read p (unat sz) s) = unat sz"
  shows "\<exists>b' s1. HandleSetBucketData m [h, i, off, sz, shm, pos] s = (kNoError, s1) \<and> buckets s1 i = Some b' \<and>
    bucket_size b' = bucket_size b \<and> bucket_wf b' \<and>
    take (unat sz) (drop (unat off) (bucket_data b')) = shm_read p (unat sz) s \<and>
    registered_objects_' s1 = registered_objects_' s \<and> shm_data s1 = shm_data s"
proof -
  have v: "OffsetSizeValid (unat off) (unat sz) b"
    using OffsetSizeValid_iff [of "unat off" "unat sz" b] b by (simp add: bucket_wf_def)
  let ?data = "blit (shm_read p (unat sz) s) (unat off) (bucket_data b)"
  have r: "unat off + length (shm_read p (unat sz) s) \<le> length (bucket_data b)"
    using b len by (simp add: bucket_wf_def)
  have "take (unat sz) (drop (unat off) ?data) = shm_read p (unat sz) s"
    using blit_read [OF r] len by simp
  moreover have "bucket_wf (b\<lparr>bucket_data := ?data\<rparr>)" using b(2) length_blit [OF r] by (simp add: bucket_wf_def)
  ultimately show ?thesis
    using b p v len by (simp add: HandleSetBucketData_def GetBucket_def Bucket_SetData_def update_bucket_def)
qed

lemma GetData_shm:
  assumes b: "buckets s i = Some b" "bucket_wf b" "unat off + unat sz \<le> bucket_size b" "0 < unat sz"
    and p: "GetAddressAndCheckSize (unat shm) (unat pos) (unat sz) s = Some p"
    and len: "snd p + unat sz \<le> length (shm_data s (fst p))"
  shows "\<exists>s1. HandleGetBucketData m [h, i, off, sz, shm, pos] s = (kNoError, s1) \<and>
    shm_read p (unat sz) s1 = take (unat sz) (drop (unat off) (bucket_data b))"
proof -
  have v: "OffsetSizeValid (unat off) (unat sz) b"
    using OffsetSizeValid_iff [of "unat off" "unat sz" b] b by (simp add: bucket_wf_def)
  let ?src = "take (unat sz) (drop (unat off) (bucket_data b))"
  have l: "length ?src = unat sz" using b by (simp add: bucket_wf_def)
  have "take (unat sz) (drop (snd p) (blit ?src (snd p) (shm_data s (fst p)))) = ?src"
    using blit_read [of "snd p" ?src "shm_data s (fst p)"] len l by simp
  moreover have "bucket_size b \<noteq> 0" using b by simp
  ultimately show ?thesis
    using b p v by (simp add: HandleGetBucketData_def GetBucket_def Bucket_GetData_def shm_write_def shm_read_def)
qed

text \<open>
  C35: Data that the client sends into a bucket piecewise is what it later reads back: sizing the
  bucket, copying from one transfer buffer and reading into another succeed whenever the ranges
  are valid, and the bytes arrive unchanged.
\<close>

theorem bucket_transfer_roundtrip:
  assumes wf: "decoder_wf s" and range: "unat off + unat sz \<le> unat n" "0 < unat sz"
    and src: "GetAddressAndCheckSize (unat shm1) (unat pos1) (unat sz) s = Some p"
    and dst: "GetAddressAndCheckSize (unat shm2) (unat pos2) (unat sz) s = Some q"
  shows "\<exists>s1 s2 s3. DoCommonCommand 7 2 (SetBucketSize_Init i n) s = Some (kNoError, s1) \<and>
    DoCommonCommand 8 5 (SetBucketData_Init i off sz shm1 pos1) s1 = Some (kNoError, s2) \<and>
    DoCommonCommand 11 5 (GetBucketData_Init i off sz shm2 pos2) s2 = Some (kNoError, s3) \<and>
    shm_read q (unat sz) s3 = shm_read p (unat sz) s"
proof -
  obtain b1 s1 where 1: "HandleSetBucketSize (u32_mul 0 4) (SetBucketSize_Init i n) s = (kNoError, s1)"
    "buckets s1 i = Some b1" "bucket_wf b1" "bucket_size b1 = unat n"
    "registered_objects_' s1 = registered_objects_' s" "shm_data s1 = shm_data s"
    unfolding SetBucketSize_Init_def using SetSize_bucket [OF wf] by blast
  have r1: "shm_read p (unat sz) s1 = shm_read p (unat sz) s" by (simp add: shm_read_def 1(6))
  have len: "length (shm_read p (unat sz) s1) = unat sz"
    using GetAddress_bounds(1) [OF src wf] by (simp add: shm_read_def 1(6))
  have "GetAddressAndCheckSize (unat shm1) (unat pos1) (unat sz) s1 = Some p"
    using src GetAddress_cong [OF 1(5)] by simp
  from SetData_bucket [OF 1(2,3) _ this len] range(1) 1(4)
  obtain b2 s2 where 2: "HandleSetBucketData (u32_mul 0 4) (SetBucketData_Init i off sz shm1 pos1) s1 = (kNoError, s2)"
    "buckets s2 i = Some b2" "bucket_wf b2" "bucket_size b2 = unat n"
    "take (unat sz) (drop (unat off) (bucket_data b2)) = shm_read p (unat sz) s1"
    "registered_objects_' s2 = registered_objects_' s1" "shm_data s2 = shm_data s1"
    unfolding SetBucketData_Init_def by metis
  have "GetAddressAndCheckSize (unat shm2) (unat pos2) (unat sz) s2 = Some q"
    using dst GetAddress_cong [of s2 s] 1(5) 2(6) by simp
  moreover have "snd q + unat sz \<le> length (shm_data s2 (fst q))"
    using GetAddress_bounds(1) [OF dst wf] by (simp add: 1(6) 2(7))
  ultimately obtain s3 where 3: "HandleGetBucketData (u32_mul 0 4) (GetBucketData_Init i off sz shm2 pos2) s2 = (kNoError, s3)"
    "shm_read q (unat sz) s3 = shm_read p (unat sz) s1"
    unfolding GetBucketData_Init_def using GetData_shm [OF 2(2,3) _ range(2)] range(1) 2(4,5) by metis
  show ?thesis
    using 1(1) 2(1) 3 r1 by (simp add: DoCommonCommand_known args_match_def)
qed

theorem bucket_transfer_roundtrip_witness:
  "\<exists>s1 s2 s3. DoCommonCommand 7 2 (SetBucketSize_Init 5 6) sample_service = Some (kNoError, s1) \<and>
    DoCommonCommand 8 5 (SetBucketData_Init 5 2 4 1 0) s1 = Some (kNoError, s2) \<and>
    DoCommonCommand 11 5 (GetBucketData_Init 5 2 4 1 4) s2 = Some (kNoError, s3) \<and>
    shm_read (0, 4) 4 s3 = shm_read (0, 0) 4 sample_service"
proof -
  have a: "GetAddressAndCheckSize (unat (1 :: 32 word)) (unat (0 :: 32 word)) (unat (4 :: 32 word)) sample_service =
      Some (0, 0)"
    and b: "GetAddressAndCheckSize (unat (1 :: 32 word)) (unat (4 :: 32 word)) (unat (4 :: 32 word)) sample_service =
      Some (0, 4)"
    by (simp_all add: GetAddressAndCheckSize_def GetSharedMemoryBuffer_def GetTransferBuffer_def
        sample_service_def u32_simps)
  show ?thesis
    using bucket_transfer_roundtrip [OF sample_wf _ _ a b, of 2 6 5] by simp
qed

text \<open>
  C37: \<^verbatim>\<open>DoCommonCommand\<close> returns exactly for the twelve commands of its table. For any other
  command it calls itself and never answers \<^verbatim>\<open>kUnknownCommand\<close>.
\<close>

theorem common_command_returns_iff:
  "(\<exists>r. DoCommonCommand command arg_count data s = Some r) \<longleftrightarrow> command < kNumCommands"
proof
  assume "\<exists>r. DoCommonCommand command arg_count data s = Some r"
  then show "command < kNumCommands" using DoCommonCommand_returns by (auto simp: kNumCommands_def)
next
  assume "command < kNumCommands"
  then show "\<exists>r. DoCommonCommand command arg_count data s = Some r"
    by (simp add: kNumCommands_def DoCommonCommand_known del: split_paired_Ex)
qed

text \<open>A \<^verbatim>\<open>Call\<close> saves its own position: the \<^verbatim>\<open>Return\<close> of the subroutine leads back to the \<^verbatim>\<open>Call\<close>
  command, not behind it.
\<close>

theorem return_repeats_call:
  assumes "parser_inv s" "parser_get s = p" "p + 2 \<le> parser_entry_count s"
    and "0 \<le> q" "q < parser_entry_count s" "q \<noteq> p" "parser_put s \<noteq> p" "parser_put s \<noteq> q"
    and "length (call_stack s) < kMaxStackDepth" "parser_entry_count s < 2147483648"
    and "take 2 (drop (nat p) (ring_entries s)) = Call_Init (of_nat (nat q))"
    and "ring_entries s ! nat q = hd Return_Init"
  shows "\<exists>s1 s2. ProcessCommand DoCommonCommand s = Some (kNoError, s1) \<and> parser_get s1 = q \<and>
    ProcessCommand DoCommonCommand s1 = Some (kNoError, s2) \<and> parser_get s2 = p"
proof -
  have p0: "0 \<le> p" and len: "int (length (ring_entries s)) = parser_entry_count s"
    using assms(1,2) by (auto simp: parser_inv_def)
  have "nat p + 2 \<le> length (ring_entries s)" using assms(3) len p0 by linarith
  then obtain rest where d: "drop (nat p) (ring_entries s) = Call_Init (of_nat (nat q)) @ rest"
    using assms(11) by (metis append_take_drop_id)
  have "ring_entries s ! nat p = drop (nat p) (ring_entries s) ! 0"
    using \<open>nat p + 2 \<le> length (ring_entries s)\<close> by simp
  then have r0: "ring_entries s ! nat p = header_entry (SetCmd kCall)" by (simp add: d Call_Init_def)
  define s1 where "s1 = s\<lparr>parser_get := q, get_offset_' := q, call_stack := nat (p mod 2 ^ 32) # call_stack s\<rparr>"
  have uq: "unat (of_nat (nat q) :: 32 word) = nat q"
    using assms(4,5,10) by (subst unat_of_nat) (simp add: take_bit_nat_eq_self nat_less_iff)
  have push: "PushAddress (nat q) s = (True, s1)"
    using assms by (simp add: PushAddress_def engine_SetGetOffset_eq GetGetOffset_def s1_def)
  have "DoCommonCommand 4 1 (Call_Init (of_nat (nat q)) @ rest) s = Some (kNoError, s1)"
    by (simp add: DoCommonCommand_known args_match_def HandleCall_def Call_Init_def uq push)
  then have 1: "ProcessCommand DoCommonCommand s = Some (kNoError, s1)"
    using assms(2,3,6,7) r0 d by (simp add: ProcessCommand_def Let_def SetCmd_size s1_def)
  have "DoCommonCommand 6 0 (drop (nat q) (ring_entries s1)) s1 =
      Some (kNoError, s1\<lparr>call_stack := call_stack s, parser_get := p, get_offset_' := p\<rparr>)"
    using assms(3,10) p0
    by (simp add: DoCommonCommand_known args_match_def HandleReturn_def engine_SetGetOffset_eq s1_def)
  then have "ProcessCommand DoCommonCommand s1 =
      Some (kNoError, s1\<lparr>call_stack := call_stack s, parser_get := p, get_offset_' := p\<rparr>)"
    using assms(5,6,8,12) by (simp add: ProcessCommand_def Let_def SetCmd_size s1_def Return_Init_def)
  with 1 show ?thesis by (auto simp: s1_def)
qed

theorem return_repeats_call_witness:
  "let s = sample_service\<lparr>parser_get := 0, get_offset_' := 0\<rparr> in
   \<exists>s1 s2. ProcessCommand DoCommonCommand s = Some (kNoError, s1) \<and> parser_get s1 = 4 \<and>
    ProcessCommand DoCommonCommand s1 = Some (kNoError, s2) \<and> parser_get s2 = 0"
  unfolding Let_def
  by (rule return_repeats_call)
    (simp_all add: sample_service_def parser_inv_def Call_Init_def SetToken_Init_def Return_Init_def kMaxStackDepth_def)

text \<open>
  C16: Whatever the client put into the ring buffer, the service keeps its get offset inside it and
  in step with the parser, and when the processing of a flush ends, the commands are used up, or an
  error is recorded, or the scheduler was unscheduled.
\<close>

theorem put_changed_in_bounds:
  assumes "\<And>c n args s. handler_frame s (snd (gles2_handle c n args s))"
    and "PutChanged (service_env gles2_info gles2_handle lost) s = Some s'" "sched_inv s" "error_' s = kNoError"
  shows "0 \<le> get_offset_' s' \<and> get_offset_' s' < parser_entry_count s \<and> get_offset_' s' = parser_get s' \<and>
    (get_offset_' s' = put_offset_' s \<or> error_' s' \<noteq> kNoError \<or> unscheduled_count s' > 0)"
  using gles2_handlers.service_PutChanged_spec [OF gles2_handlers.intro [of gles2_handle], OF assms]
  by (auto simp: sched_inv_def parser_inv_def)

theorem put_changed_in_bounds_witness:
  "\<exists>s'. PutChanged (service_env [] (\<lambda>_ _ _ s. (kUnknownCommand, s)) (\<lambda>_. kUnknown)) sample_service = Some s' \<and>
     get_offset_' s' < 8"
proof -
  let ?env = "service_env [] (\<lambda>_ _ _ s. (kUnknownCommand, s)) (\<lambda>_. kUnknown) :: decoder_world scheduler_env"
  have c: "commands_between (ring_entries sample_service) (parser_entry_count sample_service) 1
      (parser_get sample_service) (put_offset_' sample_service) =
      Some [(2, 1, 1, SetToken_Init 7 @ Return_Init @ [0, 0, 0], 4)]"
    using sample_cmds by (simp add: sample_service_def)
  obtain s' where r: "PutChanged ?env sample_service = Some s'"
    using no_gles2.service_PutChanged_run [OF sample_inv(2) c sample_straight]
    by (simp add: service_env_def Let_def sample_token split: if_splits)
  have f: "\<And>c n args s. handler_frame s (snd (kUnknownCommand, s :: decoder_world))" by simp
  from put_changed_in_bounds [OF f r sample_inv(1,2)] r show ?thesis by (simp add: sample_service_def)
qed

text \<open>
  C5: A flush executes the commands that the client put between the get and the put offset one
  after the other, each once and in their order, when none of them moves the get offset; it ends
  early only after a command that returns an error or unschedules the service.
\<close>

theorem put_changed_fifo:
  assumes "\<And>c n args s. handler_frame s (snd (gles2_handle c n args s))"
    and "error_' s = kNoError"
    and "commands_between (ring_entries s) (parser_entry_count s) fuel (parser_get s) (put_offset_' s) = Some cs"
    and "straight (GLES2Decoder_DoCommand gles2_info gles2_handle) cs"
  shows "PutChanged (service_env gles2_info gles2_handle lost) s =
    sched_run (service_env gles2_info gles2_handle lost) cs
      (s\<lparr>generation_' := u32_add (generation_' s) 1, parser_put := put_offset_' s\<rparr>)"
  by (rule gles2_handlers.service_PutChanged_run [OF gles2_handlers.intro [of gles2_handle], OF assms])

theorem put_changed_fifo_witness:
  "\<exists>s'. PutChanged (service_env [] (\<lambda>_ _ _ s. (kUnknownCommand, s)) (\<lambda>_. kUnknown)) sample_service = Some s' \<and>
     token_' s' = 7 \<and> get_offset_' s' = 4"
proof -
  let ?env = "service_env [] (\<lambda>_ _ _ s. (kUnknownCommand, s)) (\<lambda>_. kUnknown) :: decoder_world scheduler_env"
  have c: "commands_between (ring_entries sample_service) (parser_entry_count sample_service) 1
      (parser_get sample_service) (put_offset_' sample_service) =
      Some [(2, 1, 1, SetToken_Init 7 @ Return_Init @ [0, 0, 0], 4)]"
    using sample_cmds by (simp add: sample_service_def)
  have f: "\<And>c n args s. handler_frame s (snd (kUnknownCommand, s :: decoder_world))" by simp
  from put_changed_fifo [OF f sample_inv(2) c sample_straight, of "\<lambda>_. kUnknown"] show ?thesis
    by (simp add: service_env_def Let_def sample_token, simp add: sample_service_def)
qed

text \<open>
  C39: \<^verbatim>\<open>Flush\<close> accepts a put offset equal to the number of entries, although no get offset ever
  reaches it: the service then stops only with an error or unscheduled, never with the commands
  used up.
\<close>

theorem flush_at_end_never_drains:
  assumes "\<And>c n args s. handler_frame s (snd (gles2_handle c n args s))"
    and "sched_inv s" "error_' s = kNoError" "num_entries_' s = parser_entry_count s"
    and "put_offset_change_callback_' s"
    and "Flush (PutChanged (service_env gles2_info gles2_handle lost)) (num_entries_' s) s = Some s'"
  shows "\<not> IsEmpty s' \<and> (error_' s' \<noteq> kNoError \<or> unscheduled_count s' > 0)"
proof -
  let ?s = "s\<lparr>put_offset_' := num_entries_' s\<rparr>"
  have n: "0 < num_entries_' s" using assms(2,4) by (simp add: sched_inv_def parser_inv_def)
  then have run: "PutChanged (service_env gles2_info gles2_handle lost) ?s = Some s'"
    using assms(5,6) by (simp add: Flush_def)
  have inv: "sched_inv ?s" "error_' ?s = kNoError"
    using assms(2,3) by (simp_all add: sched_inv_def parser_inv_def)
  note spec = gles2_handlers.service_PutChanged_spec [OF gles2_handlers.intro [of gles2_handle],
      OF assms(1) run inv]
  from spec show ?thesis
    using n assms(4) by (auto simp: IsEmpty_def sched_inv_def parser_inv_def)
qed

theorem flush_at_end_never_drains_witness:
  "\<exists>s'. Flush (PutChanged (service_env [] (\<lambda>_ _ _ s. (kUnknownCommand, s)) (\<lambda>_. kUnknown))) 8
     (sample_service\<lparr>parser_get := 5, get_offset_' := 5\<rparr>) = Some s' \<and> \<not> IsEmpty s'"
proof -
  let ?env = "service_env [] (\<lambda>_ _ _ s. (kUnknownCommand, s)) (\<lambda>_. kUnknown) :: decoder_world scheduler_env"
  let ?s = "sample_service\<lparr>parser_get := 5, get_offset_' := 5\<rparr>"
  have z: "ring_entries sample_service ! nat 5 = 0"
    by (simp add: sample_service_def Call_Init_def SetToken_Init_def Return_Init_def)
  have zero: "hdr_size (value_header 0) = 0" by (simp add: value_header_def)
  obtain s' where r: "Flush (PutChanged ?env) 8 ?s = Some s'"
  proof -
    have "\<exists>s'. put_changed_loop ?env s2 = Some s'"
      if "ring_entries s2 = ring_entries sample_service" "parser_get s2 = 5" "parser_put s2 = 8" for s2
      using that z zero by (subst put_changed_loop.simps) (simp add: IsEmpty_def ProcessCommand_def Let_def)
    then have "\<exists>s'. PutChanged ?env (?s\<lparr>put_offset_' := 8\<rparr>) = Some s'"
      by (simp add: PutChanged_def GetState_def set_put_def Let_def sample_inv)
    then show ?thesis using that by (auto simp: Flush_def sample_inv sample_service_def)
  qed
  have f: "\<And>c n args s. handler_frame s (snd (kUnknownCommand, s :: decoder_world))" by simp
  have i: "sched_inv ?s" "error_' ?s = kNoError" "num_entries_' ?s = parser_entry_count ?s"
    "put_offset_change_callback_' ?s" "num_entries_' ?s = 8"
    using sample_inv by (simp_all add: sched_inv_def parser_inv_def sample_service_def)
  from flush_at_end_never_drains [OF f i(1-4), unfolded i(5), OF r] r show ?thesis by blast
qed

end
