(* ===== verification/Fenced_Allocator.thy ===== *)
theory Fenced_Allocator
  imports Token_Interface
begin

text \<open>
  \<^verbatim>\<open>gpu/command_buffer/client/fenced_allocator.{h,cc}\<close>: first-fit allocation in a fixed range,
  with blocks that are freed only after a command buffer token has passed.
  An allocator is its vector of blocks (the class's \<^verbatim>\<open>Container blocks_\<close>); the shared
  helper is threaded through the calls that wait. Offsets and sizes are 32-bit unsigned.
\<close>

section \<open>Data\<close>

datatype FencedAllocator_State = IN_USE | FREE | FREE_PENDING_TOKEN

record FencedAllocator_Block =
  blk_state :: FencedAllocator_State
  blk_offset :: nat
  blk_size :: nat
  blk_token :: int

type_synonym Container = "FencedAllocator_Block list"

definition kInvalidOffset :: nat where
  "kInvalidOffset = 4294967295"

definition kUnusedToken :: int where
  "kUnusedToken = 0"

section \<open>Operations\<close>

definition FencedAllocator_new :: "nat \<Rightarrow> Container" where
  "FencedAllocator_new sz =
     [\<lparr>blk_state = FREE, blk_offset = 0, blk_size = sz, blk_token = kUnusedToken\<rparr>]"

text \<open>
  \<^verbatim>\<open>std::lower_bound\<close> with \<^verbatim>\<open>OffsetCmp\<close>: the first position whose offset is not below.
\<close>

definition GetBlockByOffset :: "nat \<Rightarrow> Container \<Rightarrow> nat" where
  "GetBlockByOffset offset bs = length (takeWhile (\<lambda>b. blk_offset b < offset) bs)"

text \<open>\<^verbatim>\<open>CollapseFreeBlock\<close>: merge with the next block, then with the previous one.\<close>

definition collapse_next :: "nat \<Rightarrow> Container \<Rightarrow> Container" where
  "collapse_next index bs =
     (if index + 1 < length bs \<and> blk_state (bs ! (index + 1)) = FREE
      then erase_at (index + 1)
        (bs[index := (bs ! index)
              \<lparr>blk_size := u32_add (blk_size (bs ! index)) (blk_size (bs ! (index + 1)))\<rparr>])
      else bs)"

definition collapse_prev :: "nat \<Rightarrow> Container \<Rightarrow> nat \<times> Container" where
  "collapse_prev index bs =
     (if index > 0 \<and> blk_state (bs ! (index - 1)) = FREE
      then (index - 1, erase_at index
        (bs[index - 1 := (bs ! (index - 1))
              \<lparr>blk_size := u32_add (blk_size (bs ! (index - 1))) (blk_size (bs ! index))\<rparr>]))
      else (index, bs))"

definition CollapseFreeBlock :: "nat \<Rightarrow> Container \<Rightarrow> nat \<times> Container" where
  "CollapseFreeBlock index bs = collapse_prev index (collapse_next index bs)"

definition WaitForTokenAndFreeBlock ::
    "'h token_if \<Rightarrow> nat \<Rightarrow> Container \<Rightarrow> 'h \<Rightarrow> (nat \<times> Container \<times> 'h) option" where
  "WaitForTokenAndFreeBlock ops index bs h =
     (case tok_wait ops (blk_token (bs ! index)) h of
        None \<Rightarrow> None
      | Some h' \<Rightarrow>
          (case CollapseFreeBlock index (bs[index := (bs ! index)\<lparr>blk_state := FREE\<rparr>]) of
             (index', bs') \<Rightarrow> Some (index', bs', h')))"

definition AllocInBlock :: "nat \<Rightarrow> nat \<Rightarrow> Container \<Rightarrow> nat \<times> Container" where
  "AllocInBlock index sz bs =
     (let block = bs ! index; offset = blk_offset block in
      if blk_size block = sz
      then (offset, bs[index := block\<lparr>blk_state := IN_USE\<rparr>])
      else
        (let newblock = \<lparr>blk_state = FREE, blk_offset = u32_add offset sz,
                         blk_size = u32_sub (blk_size block) sz, blk_token = kUnusedToken\<rparr>
         in (offset,
             insert_at (index + 1) newblock
               (bs[index := block\<lparr>blk_state := IN_USE, blk_size := sz\<rparr>]))))"

text \<open>The first loop of \<^verbatim>\<open>Alloc\<close>: the first free block that is big enough.\<close>

function alloc_find_free :: "nat \<Rightarrow> nat \<Rightarrow> Container \<Rightarrow> nat option" where
  "alloc_find_free sz i bs =
     (if i < length bs then
        if blk_state (bs ! i) = FREE \<and> blk_size (bs ! i) \<ge> sz then Some i
        else alloc_find_free sz (i + 1) bs
      else None)"
  by pat_completeness auto
termination
  by (relation "measure (\<lambda>(sz, i, bs). length bs - i)") auto

declare alloc_find_free.simps [simp del]

definition num_pending :: "Container \<Rightarrow> nat" where
  "num_pending bs = length (filter (\<lambda>b. blk_state b = FREE_PENDING_TOKEN) bs)"

lemma num_pending_simps [simp]:
  "num_pending [] = 0"
  "num_pending (b # bs) = (if blk_state b = FREE_PENDING_TOKEN then 1 else 0) + num_pending bs"
  "num_pending (xs @ ys) = num_pending xs + num_pending ys"
  by (simp_all add: num_pending_def)


text \<open>
  What a collapse does at a known position: the freed block \<open>b\<close> absorbs the free blocks
  \<open>post\<close> on its right and is absorbed by the free blocks \<open>pre\<close> on its left (at most one each).
\<close>

definition total_size :: "Container \<Rightarrow> nat" where
  "total_size bs = sum_list (map blk_size bs)"

lemma total_size_simps [simp]:
  "total_size [] = 0" "total_size (b # bs) = blk_size b + total_size bs"
  "total_size (xs @ ys) = total_size xs + total_size ys"
  by (simp_all add: total_size_def)

lemma collapse_next_shape:
  assumes "total_size (xs @ b # ys) < 4294967296" "blk_state b = FREE"
  shows "\<exists>post ys' c. ys = post @ ys' \<and> list_all (\<lambda>p. blk_state p = FREE) post \<and>
    collapse_next (length xs) (xs @ b # ys) = xs @ c # ys' \<and>
    c = b\<lparr>blk_size := blk_size b + total_size post\<rparr> \<and> length post \<le> 1 \<and>
    (ys' \<noteq> [] \<longrightarrow> post = [] \<longrightarrow> blk_state (hd ys') \<noteq> FREE)"
proof (cases "ys \<noteq> [] \<and> blk_state (hd ys) = FREE")
  case True
  then obtain y zs where ys: "ys = y # zs" "blk_state y = FREE" by (cases ys) auto
  show ?thesis
    using assms ys by (intro exI [of _ "[y]"] exI [of _ zs]) (auto simp: u32_simps collapse_next_def)
next
  case False
  then have "collapse_next (length xs) (xs @ b # ys) = xs @ b # ys"
    by (cases ys) (auto simp: collapse_next_def)
  with False show ?thesis by (intro exI [of _ "[]"] exI [of _ ys]) auto
qed

lemma collapse_prev_shape:
  assumes "total_size (xs @ b # ys) < 4294967296"
  shows "\<exists>xs' pre c. xs = xs' @ pre \<and> list_all (\<lambda>p. blk_state p = FREE) pre \<and>
    collapse_prev (length xs) (xs @ b # ys) = (length xs', xs' @ c # ys) \<and>
    c = (hd (pre @ [b]))\<lparr>blk_size := total_size pre + blk_size b\<rparr> \<and> length pre \<le> 1 \<and>
    (xs' \<noteq> [] \<longrightarrow> pre = [] \<longrightarrow> blk_state (last xs') \<noteq> FREE)"
proof (cases "xs \<noteq> [] \<and> blk_state (last xs) = FREE")
  case True
  then obtain zs p where xs: "xs = zs @ [p]" "blk_state p = FREE" by (cases xs rule: rev_cases) auto
  show ?thesis
    using assms xs
    by (intro exI [of _ zs] exI [of _ "[p]"])
      (auto simp: u32_simps collapse_prev_def nth_append list_update_append erase_at_def)
next
  case False
  then have "collapse_prev (length xs) (xs @ b # ys) = (length xs, xs @ b # ys)"
    by (cases xs rule: rev_cases) (auto simp: collapse_prev_def nth_append)
  with False show ?thesis by (intro exI [of _ xs] exI [of _ "[]"]) auto
qed

lemma collapse_shape:
  assumes "total_size (xs @ b # ys) < 4294967296" "blk_state b = FREE"
  shows "\<exists>xs' pre post ys' c. xs = xs' @ pre \<and> ys = post @ ys' \<and>
    CollapseFreeBlock (length xs) (xs @ b # ys) = (length xs', xs' @ c # ys') \<and>
    list_all (\<lambda>p. blk_state p = FREE) pre \<and> list_all (\<lambda>p. blk_state p = FREE) post \<and>
    c = (hd (pre @ [b]))\<lparr>blk_size := total_size (pre @ b # post)\<rparr> \<and> blk_state c = FREE \<and>
    length pre \<le> 1 \<and> (xs' \<noteq> [] \<longrightarrow> pre = [] \<longrightarrow> blk_state (last xs') \<noteq> FREE) \<and>
    length post \<le> 1 \<and> (ys' \<noteq> [] \<longrightarrow> post = [] \<longrightarrow> blk_state (hd ys') \<noteq> FREE)"
proof -
  obtain post ys' d where n: "ys = post @ ys'" "list_all (\<lambda>p. blk_state p = FREE) post"
    "collapse_next (length xs) (xs @ b # ys) = xs @ d # ys'"
    "d = b\<lparr>blk_size := blk_size b + total_size post\<rparr>" "length post \<le> 1"
    "ys' \<noteq> [] \<longrightarrow> post = [] \<longrightarrow> blk_state (hd ys') \<noteq> FREE"
    using collapse_next_shape [OF assms] by blast
  have "total_size (xs @ d # ys') < 4294967296" using assms(1) n(1,4) by simp
  then obtain xs' pre c where p: "xs = xs' @ pre" "list_all (\<lambda>p. blk_state p = FREE) pre"
    "collapse_prev (length xs) (xs @ d # ys') = (length xs', xs' @ c # ys')"
    "c = (hd (pre @ [d]))\<lparr>blk_size := total_size pre + blk_size d\<rparr>" "length pre \<le> 1"
    "xs' \<noteq> [] \<longrightarrow> pre = [] \<longrightarrow> blk_state (last xs') \<noteq> FREE"
    using collapse_prev_shape by blast
  have c: "c = (hd (pre @ [b]))\<lparr>blk_size := total_size (pre @ b # post)\<rparr>"
    using p(4,5) n(4) by (cases pre) auto
  moreover have "blk_state c = FREE" using c assms(2) p(2) by (cases pre) auto
  moreover have "CollapseFreeBlock (length xs) (xs @ b # ys) = (length xs', xs' @ c # ys')"
    by (simp add: CollapseFreeBlock_def n(3) p(3))
  ultimately show ?thesis using n p by blast
qed


section \<open>The loops that wait\<close>

lemma num_pending_erase: "num_pending (erase_at i bs) \<le> num_pending bs"
proof -
  have "num_pending bs = num_pending (take i bs) + num_pending (drop i bs)"
    by (metis append_take_drop_id num_pending_simps(3))
  moreover have "num_pending (drop (Suc i) bs) \<le> num_pending (drop i bs)"
    by (cases "i < length bs") (simp_all flip: Cons_nth_drop_Suc)
  ultimately show ?thesis by (simp add: erase_at_def)
qed

lemma num_pending_update:
  "i < length bs \<Longrightarrow>
   num_pending (bs[i := c]) + (if blk_state (bs ! i) = FREE_PENDING_TOKEN then 1 else 0) =
   num_pending bs + (if blk_state c = FREE_PENDING_TOKEN then 1 else 0)"
  by (induction bs arbitrary: i) (fastforce split: nat.splits)+

lemma num_pending_update_same:
  "blk_state c = blk_state (bs ! i) \<Longrightarrow> num_pending (bs[i := c]) = num_pending bs"
  using num_pending_update [of i bs c] by (cases "i < length bs") (auto simp: list_update_beyond)

lemma num_pending_collapse: "num_pending (snd (CollapseFreeBlock i bs)) \<le> num_pending bs"
proof -
  have e: "num_pending (erase_at j (bs[k := c])) \<le> num_pending bs"
    if "blk_state c = blk_state (bs ! k)" for j k c bs
    using num_pending_erase [of j "bs[k := c]"] num_pending_update_same [OF that] by simp
  have n: "num_pending (collapse_next i bs) \<le> num_pending bs" for bs
    by (simp add: collapse_next_def e)
  have p: "num_pending (snd (collapse_prev i bs)) \<le> num_pending bs" for bs
    by (simp add: collapse_prev_def e)
  show ?thesis unfolding CollapseFreeBlock_def using n p order_trans by blast
qed

lemma WaitForTokenAndFreeBlock_pending:
  assumes "WaitForTokenAndFreeBlock ops i bs h = Some (i', bs', h')"
    and "i < length bs" "blk_state (bs ! i) = FREE_PENDING_TOKEN"
  shows "num_pending bs' < num_pending bs"
proof -
  let ?bs = "bs[i := (bs ! i)\<lparr>blk_state := FREE\<rparr>]"
  have "bs' = snd (CollapseFreeBlock i ?bs)"
    using assms(1) by (auto simp: WaitForTokenAndFreeBlock_def split: option.splits prod.splits)
  moreover have "num_pending ?bs < num_pending bs"
    using num_pending_update [OF assms(2), of "(bs ! i)\<lparr>blk_state := FREE\<rparr>"] assms(3) by simp
  ultimately show ?thesis using num_pending_collapse [of i ?bs] by simp
qed

text \<open>The second loop of \<^verbatim>\<open>Alloc\<close>: free the pending blocks in order until one is big enough.\<close>

function alloc_wait_loop ::
    "'h token_if \<Rightarrow> nat \<Rightarrow> nat \<Rightarrow> Container \<Rightarrow> 'h \<Rightarrow> (nat \<times> Container \<times> 'h) option" where
  "alloc_wait_loop ops sz i bs h =
     (if i < length bs then
        if blk_state (bs ! i) \<noteq> FREE_PENDING_TOKEN then alloc_wait_loop ops sz (i + 1) bs h
        else
          (case WaitForTokenAndFreeBlock ops i bs h of
             None \<Rightarrow> None
           | Some (i', bs', h') \<Rightarrow>
               if blk_size (bs' ! i') \<ge> sz
               then (case AllocInBlock i' sz bs' of (offset, bs'') \<Rightarrow> Some (offset, bs'', h'))
               else alloc_wait_loop ops sz (i' + 1) bs' h')
      else Some (kInvalidOffset, bs, h))"
  by pat_completeness auto
termination
  by (relation "measures [\<lambda>(ops, sz, i, bs, h). num_pending bs, \<lambda>(ops, sz, i, bs, h). length bs - i]")
    (auto dest: WaitForTokenAndFreeBlock_pending)

declare alloc_wait_loop.simps [simp del]

definition FencedAllocator_Alloc ::
    "'h token_if \<Rightarrow> nat \<Rightarrow> Container \<Rightarrow> 'h \<Rightarrow> (nat \<times> Container \<times> 'h) option" where
  "FencedAllocator_Alloc ops sz0 bs h =
     (let sz = (if sz0 = 0 then 1 else sz0) in
      case alloc_find_free sz 0 bs of
        Some i \<Rightarrow> (case AllocInBlock i sz bs of (offset, bs') \<Rightarrow> Some (offset, bs', h))
      | None \<Rightarrow> alloc_wait_loop ops sz 0 bs h)"

definition FencedAllocator_Free :: "nat \<Rightarrow> Container \<Rightarrow> Container" where
  "FencedAllocator_Free offset bs =
     (let index = GetBlockByOffset offset bs
      in snd (CollapseFreeBlock index (bs[index := (bs ! index)\<lparr>blk_state := FREE\<rparr>])))"

definition FencedAllocator_FreePendingToken :: "nat \<Rightarrow> int \<Rightarrow> Container \<Rightarrow> Container" where
  "FencedAllocator_FreePendingToken offset token bs =
     (let index = GetBlockByOffset offset bs
      in bs[index := (bs ! index)\<lparr>blk_state := FREE_PENDING_TOKEN, blk_token := token\<rparr>])"

text \<open>\<^verbatim>\<open>FreeUnused\<close>; \<open>last_token\<close> is the helper's \<^verbatim>\<open>last_token_read()\<close>, read once before the loop.\<close>

function free_unused_loop :: "int \<Rightarrow> nat \<Rightarrow> Container \<Rightarrow> Container" where
  "free_unused_loop last_token i bs =
     (if i < length bs then
        if blk_state (bs ! i) = FREE_PENDING_TOKEN \<and> blk_token (bs ! i) \<le> last_token
        then (case CollapseFreeBlock i (bs[i := (bs ! i)\<lparr>blk_state := FREE\<rparr>]) of
                (i', bs') \<Rightarrow> free_unused_loop last_token i' bs')
        else free_unused_loop last_token (i + 1) bs
      else bs)"
  by pat_completeness auto

lemma free_pending_decreases:
  assumes "i < length bs" "blk_state (bs ! i) = FREE_PENDING_TOKEN"
    and "(i', bs') = CollapseFreeBlock i (bs[i := (bs ! i)\<lparr>blk_state := FREE\<rparr>])"
  shows "num_pending bs' < num_pending bs"
  using num_pending_update [OF assms(1), of "(bs ! i)\<lparr>blk_state := FREE\<rparr>"] assms(2)
    num_pending_collapse [of i "bs[i := (bs ! i)\<lparr>blk_state := FREE\<rparr>]"] assms(3) [symmetric]
  by simp

termination free_unused_loop
  by (relation "measures [\<lambda>(last_token, i, bs). num_pending bs, \<lambda>(last_token, i, bs). length bs - i]")
    (auto dest: free_pending_decreases split: prod.splits)

declare free_unused_loop.simps [simp del]

definition FencedAllocator_FreeUnused :: "'h token_if \<Rightarrow> Container \<Rightarrow> 'h \<Rightarrow> Container" where
  "FencedAllocator_FreeUnused ops bs h = free_unused_loop (tok_last_read ops h) 0 bs"

text \<open>The destructor: wait for every pending block.\<close>

function destroy_loop ::
    "'h token_if \<Rightarrow> nat \<Rightarrow> Container \<Rightarrow> 'h \<Rightarrow> (Container \<times> 'h) option" where
  "destroy_loop ops i bs h =
     (if i < length bs then
        if blk_state (bs ! i) = FREE_PENDING_TOKEN
        then (case WaitForTokenAndFreeBlock ops i bs h of
                None \<Rightarrow> None
              | Some (i', bs', h') \<Rightarrow> destroy_loop ops (i' + 1) bs' h')
        else destroy_loop ops (i + 1) bs h
      else Some (bs, h))"
  by pat_completeness auto
termination
  by (relation "measures [\<lambda>(ops, i, bs, h). num_pending bs, \<lambda>(ops, i, bs, h). length bs - i]")
    (auto dest: WaitForTokenAndFreeBlock_pending)

declare destroy_loop.simps [simp del]

definition FencedAllocator_delete ::
    "'h token_if \<Rightarrow> Container \<Rightarrow> 'h \<Rightarrow> (Container \<times> 'h) option" where
  "FencedAllocator_delete ops bs h = destroy_loop ops 0 bs h"

section \<open>Queries\<close>

fun largest_free_loop :: "nat \<Rightarrow> Container \<Rightarrow> nat" where
  "largest_free_loop max_size [] = max_size"
| "largest_free_loop max_size (b # bs) =
     largest_free_loop (if blk_state b = FREE then max max_size (blk_size b) else max_size) bs"

definition GetLargestFreeSize :: "Container \<Rightarrow> nat" where
  "GetLargestFreeSize bs = largest_free_loop 0 bs"

fun largest_pending_loop :: "nat \<Rightarrow> nat \<Rightarrow> Container \<Rightarrow> nat" where
  "largest_pending_loop max_size current [] = max max_size current"
| "largest_pending_loop max_size current (b # bs) =
     (if blk_state b = IN_USE then largest_pending_loop (max max_size current) 0 bs
      else largest_pending_loop max_size (u32_add current (blk_size b)) bs)"

definition GetLargestFreeOrPendingSize :: "Container \<Rightarrow> nat" where
  "GetLargestFreeOrPendingSize bs = largest_pending_loop 0 0 bs"

fun CheckConsistency :: "Container \<Rightarrow> bool" where
  "CheckConsistency [] = False"
| "CheckConsistency [b] = True"
| "CheckConsistency (current # nxt # bs) =
     (if blk_offset nxt \<le> blk_offset current then False
      else if blk_offset nxt \<noteq> u32_add (blk_offset current) (blk_size current) then False
      else if blk_state current = FREE \<and> blk_state nxt = FREE then False
      else CheckConsistency (nxt # bs))"

definition FencedAllocator_InUse :: "Container \<Rightarrow> bool" where
  "FencedAllocator_InUse bs \<longleftrightarrow> length bs \<noteq> 1 \<or> blk_state (bs ! 0) \<noteq> FREE"


section \<open>The pointer wrapper\<close>

text \<open>
  \<^verbatim>\<open>FencedAllocatorWrapper\<close>: the same allocator with addresses; 0 is \<^verbatim>\<open>NULL\<close>, addresses are
  32-bit. \<open>base\<close> is the wrapper's \<^verbatim>\<open>base_\<close>.
\<close>

definition Wrapper_GetPointer :: "nat \<Rightarrow> nat \<Rightarrow> nat" where
  "Wrapper_GetPointer base offset = (if offset = kInvalidOffset then 0 else u32_add base offset)"

definition Wrapper_GetOffset :: "nat \<Rightarrow> nat \<Rightarrow> nat" where
  "Wrapper_GetOffset base pointer = (if pointer \<noteq> 0 then u32_sub pointer base else kInvalidOffset)"

definition Wrapper_Alloc ::
    "'h token_if \<Rightarrow> nat \<Rightarrow> nat \<Rightarrow> Container \<Rightarrow> 'h \<Rightarrow> (nat \<times> Container \<times> 'h) option" where
  "Wrapper_Alloc ops base sz bs h =
     (case FencedAllocator_Alloc ops sz bs h of
        None \<Rightarrow> None
      | Some (offset, bs', h') \<Rightarrow> Some (Wrapper_GetPointer base offset, bs', h'))"

definition Wrapper_AllocTyped ::
    "'h token_if \<Rightarrow> nat \<Rightarrow> nat \<Rightarrow> nat \<Rightarrow> Container \<Rightarrow> 'h \<Rightarrow> (nat \<times> Container \<times> 'h) option" where
  "Wrapper_AllocTyped ops base sizeof_T count bs h =
     Wrapper_Alloc ops base (u32_mul count sizeof_T) bs h"

definition Wrapper_Free :: "nat \<Rightarrow> nat \<Rightarrow> Container \<Rightarrow> Container" where
  "Wrapper_Free base pointer bs = FencedAllocator_Free (Wrapper_GetOffset base pointer) bs"

definition Wrapper_FreePendingToken :: "nat \<Rightarrow> nat \<Rightarrow> int \<Rightarrow> Container \<Rightarrow> Container" where
  "Wrapper_FreePendingToken base pointer token bs =
     FencedAllocator_FreePendingToken (Wrapper_GetOffset base pointer) token bs"

section \<open>Invariant and abstraction\<close>

text \<open>
  The blocks tile the range \<open>[0, tot)\<close> in order, none is empty, and no two neighbours are
  both free. The abstract state of an allocator is the set of its allocations (offset and
  size) and the set of its pending blocks (with their tokens).
\<close>

fun contiguous :: "nat \<Rightarrow> Container \<Rightarrow> bool" where
  "contiguous off [] = True"
| "contiguous off (b # bs) =
     (blk_offset b = off \<and> 0 < blk_size b \<and> contiguous (off + blk_size b) bs)"

definition not_both_free :: "FencedAllocator_Block \<Rightarrow> FencedAllocator_Block \<Rightarrow> bool" where
  "not_both_free a b \<longleftrightarrow> \<not> (blk_state a = FREE \<and> blk_state b = FREE)"

definition fa_inv :: "nat \<Rightarrow> Container \<Rightarrow> bool" where
  "fa_inv tot bs \<longleftrightarrow> bs \<noteq> [] \<and> contiguous 0 bs \<and> total_size bs = tot \<and> tot < 4294967296 \<and>
     successively not_both_free bs"

definition allocations :: "Container \<Rightarrow> (nat \<times> nat) set" where
  "allocations bs = (\<lambda>b. (blk_offset b, blk_size b)) ` set (filter (\<lambda>b. blk_state b = IN_USE) bs)"

definition pending :: "Container \<Rightarrow> (nat \<times> nat \<times> int) set" where
  "pending bs = (\<lambda>b. (blk_offset b, blk_size b, blk_token b)) `
     set (filter (\<lambda>b. blk_state b = FREE_PENDING_TOKEN) bs)"

definition disjoint_ranges :: "nat \<Rightarrow> nat \<Rightarrow> nat \<Rightarrow> nat \<Rightarrow> bool" where
  "disjoint_ranges o1 n1 o2 n2 \<longleftrightarrow> o1 + n1 \<le> o2 \<or> o2 + n2 \<le> o1"

lemma allocations_simps [simp]:
  "allocations [] = {}"
  "allocations (b # bs) =
     (if blk_state b = IN_USE then {(blk_offset b, blk_size b)} else {}) \<union> allocations bs"
  "allocations (xs @ ys) = allocations xs \<union> allocations ys"
  by (auto simp: allocations_def)

lemma pending_simps [simp]:
  "pending [] = {}"
  "pending (b # bs) =
     (if blk_state b = FREE_PENDING_TOKEN then {(blk_offset b, blk_size b, blk_token b)} else {})
     \<union> pending bs"
  "pending (xs @ ys) = pending xs \<union> pending ys"
  by (auto simp: pending_def)

lemma contiguous_append [simp]:
  "contiguous off (xs @ ys) \<longleftrightarrow> contiguous off xs \<and> contiguous (off + total_size xs) ys"
  by (induction xs arbitrary: off) (auto simp: add.assoc)

lemma contiguous_range:
  "contiguous off bs \<Longrightarrow> b \<in> set bs \<Longrightarrow>
   off \<le> blk_offset b \<and> blk_offset b + blk_size b \<le> off + total_size bs \<and> 0 < blk_size b"
  by (induction bs arbitrary: off) force+

lemma all_free_simps:
  "list_all (\<lambda>p. blk_state p = FREE) zs \<Longrightarrow> allocations zs = {} \<and> pending zs = {}"
  by (induction zs) auto

lemma contiguous_hd: "contiguous off (pre @ b # ys) \<Longrightarrow> blk_offset (hd (pre @ [b])) = off"
  by (cases pre) auto

text \<open>
  The largest total size of neighbouring blocks of which none is in use; \<open>cur\<close> is the size of
  the run that ends where the list starts.
\<close>

fun max_run :: "nat \<Rightarrow> Container \<Rightarrow> nat" where
  "max_run cur [] = cur"
| "max_run cur (b # bs) =
     (if blk_state b = IN_USE then max cur (max_run 0 bs) else max_run (cur + blk_size b) bs)"

lemma max_run_idle:
  "list_all (\<lambda>p. blk_state p \<noteq> IN_USE) zs \<Longrightarrow> max_run cur (zs @ ys) = max_run (cur + total_size zs) ys"
  by (induction zs arbitrary: cur) (auto simp: add.assoc)

lemma max_run_merge:
  assumes "list_all (\<lambda>p. blk_state p \<noteq> IN_USE) zs" "blk_state c = FREE" "blk_size c = total_size zs"
  shows "max_run cur (xs @ c # ys) = max_run cur (xs @ zs @ ys)"
  using assms by (induction xs arbitrary: cur) (auto simp: max_run_idle)

lemma max_run_ge: "cur \<le> max_run cur bs"
proof (induction bs arbitrary: cur)
  case (Cons b bs)
  from Cons [of "cur + blk_size b"] show ?case by simp
qed simp

lemma max_run_block: "b \<in> set bs \<Longrightarrow> blk_state b \<noteq> IN_USE \<Longrightarrow> blk_size b \<le> max_run cur bs"
proof (induction bs arbitrary: cur)
  case (Cons c bs)
  from Cons max_run_ge [of "cur + blk_size b" bs] show ?case by (auto simp: max.coboundedI2)
qed simp

lemma max_run_collapsed:
  assumes "\<forall>b\<in>set bs. blk_state b \<noteq> FREE_PENDING_TOKEN \<and> (blk_state b = FREE \<longrightarrow> blk_size b < sz)"
    and "successively not_both_free bs" "cur < sz"
    and "0 < cur \<longrightarrow> bs \<noteq> [] \<longrightarrow> blk_state (hd bs) \<noteq> FREE"
  shows "max_run cur bs < sz"
  using assms
proof (induction bs arbitrary: cur)
  case (Cons b bs)
  have st: "blk_state b = IN_USE \<or> blk_state b = FREE" using Cons.prems(1) by (cases "blk_state b") auto
  have "successively not_both_free bs" using Cons.prems(2) by (cases bs) auto
  note IH = Cons.IH [OF _ this]
  show ?case
  proof (cases "blk_state b = IN_USE")
    case True
    with IH [of 0] Cons.prems show ?thesis by simp
  next
    case False
    with st Cons.prems have "cur = 0" "blk_state b = FREE" "blk_size b < sz" by auto
    with IH [of "blk_size b"] Cons.prems show ?thesis by (cases bs) (auto simp: not_both_free_def)
  qed
qed simp

text \<open>Freeing the block at a known position and collapsing it keeps the invariant.\<close>

lemma collapse_inv:
  assumes "fa_inv tot (xs @ b # ys)"
    and "CollapseFreeBlock (length xs) (xs @ b\<lparr>blk_state := FREE\<rparr> # ys) = (i, bs)"
  shows "fa_inv tot bs" "allocations bs = allocations xs \<union> allocations ys"
    "pending bs = pending xs \<union> pending ys"
    "i < length bs" "blk_state (bs ! i) = FREE" "i \<le> length xs" "length xs \<le> Suc i"
    "\<exists>zs. xs = take i bs @ zs" "set bs \<subseteq> insert (bs ! i) (set xs \<union> set ys)"
    "blk_state b \<noteq> IN_USE \<Longrightarrow> max_run cur bs = max_run cur (xs @ b # ys)"
proof -
  let ?b = "b\<lparr>blk_state := FREE\<rparr>"
  have "total_size (xs @ ?b # ys) < 4294967296" "blk_state ?b = FREE"
    using assms(1) by (auto simp: fa_inv_def)
  from collapse_shape [OF this] obtain xs' pre post ys' c where
    t: "xs = xs' @ pre" "ys = post @ ys'"
    "CollapseFreeBlock (length xs) (xs @ ?b # ys) = (length xs', xs' @ c # ys')"
    "list_all (\<lambda>p. blk_state p = FREE) pre" "list_all (\<lambda>p. blk_state p = FREE) post"
    "c = (hd (pre @ [?b]))\<lparr>blk_size := total_size (pre @ ?b # post)\<rparr>" "blk_state c = FREE"
    "length pre \<le> 1" "xs' \<noteq> [] \<longrightarrow> pre = [] \<longrightarrow> blk_state (last xs') \<noteq> FREE"
    "length post \<le> 1" "ys' \<noteq> [] \<longrightarrow> post = [] \<longrightarrow> blk_state (hd ys') \<noteq> FREE"
    by blast
  have "i = length xs'" "bs = xs' @ c # ys'" using t(3) assms(2) by simp_all
  note s = t(1,2) this t(4-)
  have pre: "pre = [] \<or> (\<exists>p. pre = [p] \<and> blk_state p = FREE)"
    using s(5,9) by (cases pre) auto
  have post: "post = [] \<or> (\<exists>q. post = [q] \<and> blk_state q = FREE)"
    using s(6,11) by (cases post) auto
  have last: "xs' \<noteq> [] \<longrightarrow> blk_state (last xs') \<noteq> FREE"
    using assms(1) s(1,10) pre
    by (auto simp: fa_inv_def successively_append_iff not_both_free_def)
  have hd: "ys' \<noteq> [] \<longrightarrow> blk_state (hd ys') \<noteq> FREE"
    using assms(1) s(2,12) post
    by (auto simp: fa_inv_def successively_append_iff successively_Cons not_both_free_def)
  have csize: "blk_size c = total_size pre + blk_size b + total_size post" using s(7) by simp
  have coff: "blk_offset c = total_size xs'"
    using assms(1) s(1,7) pre by (auto simp: fa_inv_def)
  have "contiguous 0 xs'" "contiguous (total_size xs' + blk_size c) ys'" "0 < blk_size c"
    using assms(1) s(1,2) csize by (auto simp: fa_inv_def add.assoc)
  with coff have con: "contiguous 0 bs" using s(4) by simp
  have "total_size bs = tot" using assms(1) s(1,2,4) csize by (simp add: fa_inv_def)
  moreover have "successively not_both_free xs'" "successively not_both_free ys'"
    using assms(1) s(1,2) by (auto simp: fa_inv_def successively_append_iff successively_Cons)
  then have "successively not_both_free bs"
    using s(4) last hd by (auto simp: successively_append_iff successively_Cons not_both_free_def)
  ultimately show "fa_inv tot bs" using con assms(1) s(4) by (simp add: fa_inv_def)
  show "allocations bs = allocations xs \<union> allocations ys"
    using s all_free_simps [OF s(5)] all_free_simps [OF s(6)] by auto
  show "pending bs = pending xs \<union> pending ys"
    using s all_free_simps [OF s(5)] all_free_simps [OF s(6)] by auto
  show "i < length bs" "blk_state (bs ! i) = FREE" "i \<le> length xs" "length xs \<le> Suc i"
    "\<exists>zs. xs = take i bs @ zs" "set bs \<subseteq> insert (bs ! i) (set xs \<union> set ys)"
    using s by auto
  assume "blk_state b \<noteq> IN_USE"
  then have "list_all (\<lambda>p. blk_state p \<noteq> IN_USE) (pre @ b # post)" using pre post by auto
  then show "max_run cur bs = max_run cur (xs @ b # ys)"
    using max_run_merge [of "pre @ b # post" c cur xs' ys'] s(1,2,4,8) csize by simp
qed


lemma fa_inv_split:
  assumes "fa_inv tot bs" "i < length bs"
  obtains xs ys where "bs = xs @ bs ! i # ys" "i = length xs" "fa_inv tot (xs @ bs ! i # ys)"
  using assms list_at by metis

lemma block_disjoint:
  assumes "fa_inv tot (xs @ b # ys)" "c \<in> set xs \<union> set ys"
  shows "disjoint_ranges (blk_offset b) (blk_size b) (blk_offset c) (blk_size c)"
proof -
  have "contiguous 0 xs" "blk_offset b = total_size xs"
    "contiguous (total_size xs + blk_size b) ys"
    using assms(1) by (auto simp: fa_inv_def)
  with assms(2) show ?thesis
    by (auto simp: disjoint_ranges_def dest: contiguous_range)
qed

lemma disjoint_ranges_sub:
  "disjoint_ranges p m q n \<Longrightarrow> sz \<le> m \<Longrightarrow> disjoint_ranges p sz q n"
  by (auto simp: disjoint_ranges_def)

lemma fa_inv_update:
  assumes "fa_inv tot (xs @ b # ys)" "blk_state c \<noteq> FREE"
    "blk_offset c = blk_offset b" "blk_size c = blk_size b"
  shows "fa_inv tot (xs @ c # ys)"
  using assms by (auto simp: fa_inv_def successively_append_iff successively_Cons not_both_free_def)

lemma AllocInBlock_at:
  assumes "fa_inv tot (xs @ b # ys)" "sz \<le> blk_size b"
  shows "AllocInBlock (length xs) sz (xs @ b # ys) =
    (blk_offset b,
     xs @ (if blk_size b = sz then b\<lparr>blk_state := IN_USE\<rparr> # ys
           else b\<lparr>blk_state := IN_USE, blk_size := sz\<rparr> #
             \<lparr>blk_state = FREE, blk_offset = blk_offset b + sz, blk_size = blk_size b - sz,
               blk_token = kUnusedToken\<rparr> # ys))"
  using assms by (auto simp: AllocInBlock_def Let_def u32_simps fa_inv_def)

lemma AllocInBlock_shape:
  assumes inv: "fa_inv tot (xs @ b # ys)" and free: "blk_state b = FREE"
    and sz: "0 < sz" "sz \<le> blk_size b" and r: "AllocInBlock (length xs) sz (xs @ b # ys) = (off, bs')"
  shows "fa_inv tot bs'" "allocations bs' = insert (off, sz) (allocations (xs @ b # ys))"
    "pending bs' = pending (xs @ b # ys)" "off + sz \<le> tot"
    "(p, n) \<in> allocations (xs @ b # ys) \<Longrightarrow> disjoint_ranges off sz p n"
    "(p, n, t) \<in> pending (xs @ b # ys) \<Longrightarrow> disjoint_ranges off sz p n"
    "off = blk_offset b"
proof -
  note r' = r [unfolded AllocInBlock_at [OF inv sz(2)], symmetric, simplified]
  show "fa_inv tot bs'"
  proof (cases "blk_size b = sz")
    case True
    then show ?thesis using fa_inv_update [OF inv, of "b\<lparr>blk_state := IN_USE\<rparr>"] r' by simp
  next
    case False
    then show ?thesis
      using inv r' sz free
      by (auto simp: fa_inv_def successively_append_iff successively_Cons not_both_free_def)
  qed
  have dis: "disjoint_ranges off sz (blk_offset c) (blk_size c)" if "c \<in> set xs \<union> set ys" for c
    using block_disjoint [OF inv that] sz(2) r' disjoint_ranges_sub by auto
  show "(p, n) \<in> allocations (xs @ b # ys) \<Longrightarrow> disjoint_ranges off sz p n"
    using dis free by (auto simp: allocations_def)
  show "(p, n, t) \<in> pending (xs @ b # ys) \<Longrightarrow> disjoint_ranges off sz p n"
    using dis free by (auto simp: pending_def)
  show "off = blk_offset b" "off + sz \<le> tot" using r' inv sz by (auto simp: fa_inv_def)
  show "allocations bs' = insert (off, sz) (allocations (xs @ b # ys))"
    "pending bs' = pending (xs @ b # ys)"
    using r' free by auto
qed

lemma AllocInBlock_spec:
  assumes inv: "fa_inv tot bs" and i: "i < length bs" and free: "blk_state (bs ! i) = FREE"
    and sz: "0 < sz" "sz \<le> blk_size (bs ! i)" and r: "AllocInBlock i sz bs = (off, bs')"
  shows "fa_inv tot bs'" "allocations bs' = insert (off, sz) (allocations bs)"
    "pending bs' = pending bs" "off + sz \<le> tot"
    "(p, n) \<in> allocations bs \<Longrightarrow> disjoint_ranges off sz p n"
    "(p, n, t) \<in> pending bs \<Longrightarrow> disjoint_ranges off sz p n"
    "off = blk_offset (bs ! i)"
proof -
  obtain xs ys where bs: "bs = xs @ bs ! i # ys" "i = length xs" and
    inv': "fa_inv tot (xs @ bs ! i # ys)" using inv i by (rule fa_inv_split)
  have r': "AllocInBlock (length xs) sz (xs @ bs ! i # ys) = (off, bs')"
    using r bs by simp
  note shape = AllocInBlock_shape [OF inv' free sz r', folded bs(1)]
  show "fa_inv tot bs'" by (rule shape(1))
  show "allocations bs' = insert (off, sz) (allocations bs)" by (rule shape(2))
  show "pending bs' = pending bs" by (rule shape(3))
  show "off + sz \<le> tot" by (rule shape(4))
  show "(p, n) \<in> allocations bs \<Longrightarrow> disjoint_ranges off sz p n" by (rule shape(5))
  show "(p, n, t) \<in> pending bs \<Longrightarrow> disjoint_ranges off sz p n" by (rule shape(6))
  show "off = blk_offset (bs ! i)" by (rule shape(7))
qed

lemma free_step:
  assumes inv: "fa_inv tot bs" and i: "i < length bs"
    and pend: "blk_state (bs ! i) = FREE_PENDING_TOKEN"
    and r: "CollapseFreeBlock i (bs[i := (bs ! i)\<lparr>blk_state := FREE\<rparr>]) = (i', bs')"
  shows "fa_inv tot bs'" "allocations bs' = allocations bs" "i' < length bs'"
    "blk_state (bs' ! i') = FREE" "pending bs' \<subseteq> pending bs"
    "pending bs = insert (blk_offset (bs ! i), blk_size (bs ! i), blk_token (bs ! i)) (pending bs')"
    "max_run 0 bs' = max_run 0 bs" "set bs' \<subseteq> insert (bs' ! i') (set bs)"
    "\<exists>zs. take i bs = take i' bs' @ zs"
proof -
  obtain xs ys where bs: "bs = xs @ bs ! i # ys" "i = length xs" and
    inv': "fa_inv tot (xs @ bs ! i # ys)" using inv i by (rule fa_inv_split)
  define b where "b = bs ! i"
  note bs = bs [folded b_def] and inv' = inv' [folded b_def]
  have "bs[i := (bs ! i)\<lparr>blk_state := FREE\<rparr>] = xs @ b\<lparr>blk_state := FREE\<rparr> # ys"
    using bs by (metis b_def list_update_length)
  with r have c: "CollapseFreeBlock (length xs) (xs @ b\<lparr>blk_state := FREE\<rparr> # ys) = (i', bs')"
    by (simp add: bs(2))
  note ci = collapse_inv [OF inv' c]
  have b: "blk_state b = FREE_PENDING_TOKEN" using pend by (simp add: b_def)
  then have split: "allocations bs = allocations xs \<union> allocations ys"
    "pending bs = insert (blk_offset b, blk_size b, blk_token b) (pending xs \<union> pending ys)"
    unfolding bs(1) by auto
  with ci show "fa_inv tot bs'" "allocations bs' = allocations bs" "i' < length bs'"
    "blk_state (bs' ! i') = FREE" "pending bs' \<subseteq> pending bs"
    "pending bs = insert (blk_offset (bs ! i), blk_size (bs ! i), blk_token (bs ! i)) (pending bs')"
    by (auto simp: b_def)
  have "max_run 0 bs' = max_run 0 (xs @ b # ys)" by (rule ci(10)) (simp add: b)
  then show "max_run 0 bs' = max_run 0 bs" using bs(1) by simp
  have "set xs \<union> set ys \<subseteq> set bs" by (subst bs(1)) auto
  with ci(9) show "set bs' \<subseteq> insert (bs' ! i') (set bs)" by blast
  have "take i bs = xs" by (subst bs(1)) (simp add: bs(2))
  with ci(8) show "\<exists>zs. take i bs = take i' bs' @ zs" by simp
qed

lemma wait_step:
  assumes inv: "fa_inv tot bs" and i: "i < length bs"
    and pend: "blk_state (bs ! i) = FREE_PENDING_TOKEN"
    and r: "WaitForTokenAndFreeBlock ops i bs h = Some (i', bs', h')"
  shows "fa_inv tot bs'" "allocations bs' = allocations bs" "i' < length bs'"
    "blk_state (bs' ! i') = FREE" "pending bs' \<subseteq> pending bs"
    "pending bs = insert (blk_offset (bs ! i), blk_size (bs ! i), blk_token (bs ! i)) (pending bs')"
    "max_run 0 bs' = max_run 0 bs" "set bs' \<subseteq> insert (bs' ! i') (set bs)"
    "\<exists>zs. take i bs = take i' bs' @ zs"
    "tok_wait ops (blk_token (bs ! i)) h = Some h'"
proof -
  from r have c: "CollapseFreeBlock i (bs[i := (bs ! i)\<lparr>blk_state := FREE\<rparr>]) = (i', bs')"
    and "tok_wait ops (blk_token (bs ! i)) h = Some h'"
    by (auto simp: WaitForTokenAndFreeBlock_def split: option.splits prod.splits)
  then show "tok_wait ops (blk_token (bs ! i)) h = Some h'" by simp
  note f = free_step [OF inv i pend c]
  show "fa_inv tot bs'" "allocations bs' = allocations bs" "i' < length bs'"
    "blk_state (bs' ! i') = FREE" "pending bs' \<subseteq> pending bs"
    "pending bs = insert (blk_offset (bs ! i), blk_size (bs ! i), blk_token (bs ! i)) (pending bs')"
    "max_run 0 bs' = max_run 0 bs" "set bs' \<subseteq> insert (bs' ! i') (set bs)"
    "\<exists>zs. take i bs = take i' bs' @ zs"
    by (rule f)+
qed

text \<open>
  What \<^verbatim>\<open>Alloc\<close> promises: the invariant; every pending block it gave up had its token waited
  for; and either failure with the allocations unchanged, or one more allocation, inside the
  range, apart from every other allocation and from every block still fenced by a token.
\<close>

definition alloc_post ::
    "(int \<Rightarrow> 'h \<Rightarrow> bool) \<Rightarrow> nat \<Rightarrow> nat \<Rightarrow> Container \<Rightarrow> nat \<Rightarrow> Container \<Rightarrow> 'h \<Rightarrow> bool" where
  "alloc_post passed tot sz bs off bs' h' \<longleftrightarrow>
     fa_inv tot bs' \<and> pending bs' \<subseteq> pending bs \<and>
     (\<forall>p n t. (p, n, t) \<in> pending bs \<longrightarrow> (p, n, t) \<in> pending bs' \<or> passed t h') \<and>
     (if off = kInvalidOffset then allocations bs' = allocations bs
      else off + sz \<le> tot \<and> allocations bs' = insert (off, sz) (allocations bs) \<and>
        (\<forall>p n. (p, n) \<in> allocations bs \<longrightarrow> disjoint_ranges off sz p n) \<and>
        (\<forall>p n t. (p, n, t) \<in> pending bs \<longrightarrow> disjoint_ranges off sz p n \<or> passed t h'))"

lemma AllocInBlock_valid:
  assumes "fa_inv tot bs" "i < length bs" "blk_state (bs ! i) = FREE"
    "0 < sz" "sz \<le> blk_size (bs ! i)" "AllocInBlock i sz bs = (off, bs')"
  shows "off \<noteq> kInvalidOffset"
  using AllocInBlock_spec(1,4) [OF assms] assms(4) by (auto simp: kInvalidOffset_def fa_inv_def)

lemma AllocInBlock_post:
  assumes "fa_inv tot bs" "i < length bs" "blk_state (bs ! i) = FREE"
    "0 < sz" "sz \<le> blk_size (bs ! i)" "AllocInBlock i sz bs = (off, bs')"
  shows "alloc_post passed tot sz bs off bs' h"
  using AllocInBlock_spec [OF assms] AllocInBlock_valid [OF assms] by (simp add: alloc_post_def)

lemma alloc_post_step:
  assumes "alloc_post passed tot sz bs1 off bs' h'"
    and "allocations bs1 = allocations bs" "pending bs1 \<subseteq> pending bs"
    and "pending bs = insert (p, n, t) (pending bs1)" "passed t h'"
  shows "alloc_post passed tot sz bs off bs' h'"
proof -
  have "(q, m, u) \<in> pending bs \<Longrightarrow> (q, m, u) \<in> pending bs1 \<or> passed u h'" for q m u
    using assms(4,5) by auto
  with assms(1-3) show ?thesis
    unfolding alloc_post_def by (simp split: if_splits) blast+
qed


section \<open>Clients of the token interface\<close>

lemma alloc_find_free_Some:
  "alloc_find_free sz i bs = Some j \<Longrightarrow>
   i \<le> j \<and> j < length bs \<and> blk_state (bs ! j) = FREE \<and> sz \<le> blk_size (bs ! j)"
  by (induction sz i bs rule: alloc_find_free.induct)
    (auto simp: alloc_find_free.simps split: if_splits)

lemma alloc_find_free_None:
  "alloc_find_free sz i bs = None \<Longrightarrow> i \<le> j \<Longrightarrow> j < length bs \<Longrightarrow>
   blk_state (bs ! j) = FREE \<Longrightarrow> blk_size (bs ! j) < sz"
proof (induction sz i bs rule: alloc_find_free.induct)
  case (1 sz i bs)
  then have i: "i < length bs" by simp
  then have no: "\<not> (blk_state (bs ! i) = FREE \<and> sz \<le> blk_size (bs ! i))"
    and rest: "alloc_find_free sz (i + 1) bs = None"
    using "1.prems"(1) by (auto simp: alloc_find_free.simps [of sz i] split: if_splits)
  show ?case
  proof (cases "i = j")
    case True
    then show ?thesis using no "1.prems"(4) by auto
  next
    case False
    then show ?thesis using "1.IH" [OF i no rest] "1.prems" by simp
  qed
qed

lemma largest_pending_loop_run:
  "c + total_size bs < 4294967296 \<Longrightarrow> largest_pending_loop m c bs = max m (max_run c bs)"
  by (induction bs arbitrary: m c) (auto simp: u32_simps max.assoc add.assoc)

lemma GetLargestFreeOrPendingSize_run: "fa_inv tot bs \<Longrightarrow> GetLargestFreeOrPendingSize bs = max_run 0 bs"
  by (simp add: GetLargestFreeOrPendingSize_def largest_pending_loop_run fa_inv_def)

lemma alloc_wait_loop_result:
  "alloc_wait_loop ops sz i bs h = Some (off, bs', h') \<Longrightarrow> fa_inv tot bs \<Longrightarrow> 0 < sz \<Longrightarrow>
   \<forall>b\<in>set bs. blk_state b = FREE \<longrightarrow> blk_size b < sz \<Longrightarrow>
   \<forall>b\<in>set (take i bs). blk_state b \<noteq> FREE_PENDING_TOKEN \<Longrightarrow>
   off = kInvalidOffset \<longleftrightarrow> max_run 0 bs < sz"
proof (induction ops sz i bs h rule: alloc_wait_loop.induct)
  case (1 ops sz i bs h)
  note eq = "1.prems"(1) [unfolded alloc_wait_loop.simps [of ops sz i]]
  consider "i \<ge> length bs" | "i < length bs" "blk_state (bs ! i) \<noteq> FREE_PENDING_TOKEN"
    | "i < length bs" "blk_state (bs ! i) = FREE_PENDING_TOKEN" by linarith
  then show ?case
  proof cases
    case 1
    with eq have "off = kInvalidOffset" by simp
    moreover have "max_run 0 bs < sz"
      using 1 "1.prems" by (intro max_run_collapsed) (auto simp: fa_inv_def)
    ultimately show ?thesis by simp
  next
    case 2
    with eq "1.IH"(1) "1.prems" show ?thesis by (auto simp: take_Suc_conv_app_nth)
  next
    case 3
    then obtain j bs1 h1 where w: "WaitForTokenAndFreeBlock ops i bs h = Some (j, bs1, h1)"
      using eq by (auto split: option.splits)
    note ws = wait_step [OF "1.prems"(2) 3 w]
    show ?thesis
    proof (cases "sz \<le> blk_size (bs1 ! j)")
      case True
      with eq 3 w have "AllocInBlock j sz bs1 = (off, bs')" by (auto split: prod.splits)
      with AllocInBlock_valid [OF ws(1,3,4) "1.prems"(3) True] have "off \<noteq> kInvalidOffset" by simp
      moreover have "blk_size (bs1 ! j) \<le> max_run 0 bs1"
        by (rule max_run_block) (use ws(3,4) in auto)
      ultimately show ?thesis using ws(7) True by simp
    next
      case False
      with eq 3 w have r: "alloc_wait_loop ops sz (j + 1) bs1 h1 = Some (off, bs', h')" by simp
      obtain zs where "take i bs = take j bs1 @ zs" using ws(9) by blast
      then have "set (take j bs1) \<subseteq> set (take i bs)" by simp
      moreover have "take (j + 1) bs1 = take j bs1 @ [bs1 ! j]"
        using ws(3) by (simp add: take_Suc_conv_app_nth)
      ultimately have np: "\<forall>b\<in>set (take (j + 1) bs1). blk_state b \<noteq> FREE_PENDING_TOKEN"
        using "1.prems"(5) ws(4) by auto
      have "\<forall>b\<in>set bs1. blk_state b = FREE \<longrightarrow> blk_size b < sz"
        using ws(8) "1.prems"(4) False by auto
      with "1.IH"(2) [OF 3(1) _ w refl refl False r ws(1) "1.prems"(3) _ np] 3(2) ws(7)
      show ?thesis by simp
    qed
  qed
qed

lemma Alloc_result:
  assumes "FencedAllocator_Alloc ops sz bs h = Some (off, bs', h')" "fa_inv tot bs"
  shows "off = kInvalidOffset \<longleftrightarrow> GetLargestFreeOrPendingSize bs < max 1 sz"
proof -
  have m: "(if sz = 0 then 1 else sz) = max 1 sz" by auto
  show ?thesis
  proof (cases "alloc_find_free (max 1 sz) 0 bs")
    case None
    then have "\<forall>b\<in>set bs. blk_state b = FREE \<longrightarrow> blk_size b < max 1 sz"
      using alloc_find_free_None by (fastforce simp: in_set_conv_nth)
    with None assms show ?thesis
      using alloc_wait_loop_result [of ops "max 1 sz" 0]
      by (simp add: FencedAllocator_Alloc_def m GetLargestFreeOrPendingSize_run)
  next
    case (Some i)
    note f = alloc_find_free_Some [OF Some]
    from Some assms have "AllocInBlock i (max 1 sz) bs = (off, bs')"
      by (auto simp: FencedAllocator_Alloc_def m split: prod.splits)
    with AllocInBlock_valid [OF assms(2), of i "max 1 sz" off bs'] f
    have "off \<noteq> kInvalidOffset" by auto
    moreover have "blk_size (bs ! i) \<le> max_run 0 bs" by (rule max_run_block) (use f in auto)
    moreover have "max 1 sz \<le> blk_size (bs ! i)" using f by simp
    ultimately show ?thesis using assms(2) by (simp add: GetLargestFreeOrPendingSize_run del: max.bounded_iff)
  qed
qed

context token_interface
begin

lemma alloc_wait_loop_spec:
  "alloc_wait_loop ops0 sz i bs h = Some (off, bs', h') \<Longrightarrow> ops0 = ops \<Longrightarrow> fa_inv tot bs \<Longrightarrow>
   0 < sz \<Longrightarrow> hinv h \<Longrightarrow>
   alloc_post passed tot sz bs off bs' h' \<and> hinv h' \<and> (\<forall>u. passed u h \<longrightarrow> passed u h')"
proof (induction ops0 sz i bs h rule: alloc_wait_loop.induct)
  case (1 ops0 sz i bs h)
  note eq = "1.prems"(1) [unfolded alloc_wait_loop.simps [of ops0 sz i]]
  consider "i \<ge> length bs" | "i < length bs" "blk_state (bs ! i) \<noteq> FREE_PENDING_TOKEN"
    | "i < length bs" "blk_state (bs ! i) = FREE_PENDING_TOKEN" by linarith
  then show ?case
  proof cases
    case 1
    with eq "1.prems" show ?thesis by (simp add: alloc_post_def)
  next
    case 2
    with eq "1.IH"(1) "1.prems" show ?thesis by simp
  next
    case 3
    then obtain j bs1 h1 where w: "WaitForTokenAndFreeBlock ops0 i bs h = Some (j, bs1, h1)"
      using eq by (auto split: option.splits)
    note ws = wait_step [OF "1.prems"(3) 3 w]
    have t: "tok_wait ops (blk_token (bs ! i)) h = Some h1" using ws(10) "1.prems"(2) by simp
    note hw = wait_passed [OF "1.prems"(5) t] wait_keeps [OF "1.prems"(5) t]
      wait_inv [OF "1.prems"(5) t]
    have post: "alloc_post passed tot sz bs1 off bs' h' \<and> hinv h' \<and> (\<forall>u. passed u h1 \<longrightarrow> passed u h')"
    proof (cases "sz \<le> blk_size (bs1 ! j)")
      case True
      with eq 3 w have "AllocInBlock j sz bs1 = (off, bs')" "h' = h1"
        by (auto split: prod.splits)
      with AllocInBlock_post [OF ws(1,3,4) "1.prems"(4) True, of off bs' passed h1] hw
      show ?thesis by simp
    next
      case False
      with eq 3 w have "alloc_wait_loop ops0 sz (j + 1) bs1 h1 = Some (off, bs', h')" by simp
      with "1.IH"(2) [OF 3(1) _ w refl refl False] 3 "1.prems" ws(1) hw show ?thesis by simp
    qed
    then have "passed (blk_token (bs ! i)) h'" using hw(1) by simp
    with post have "alloc_post passed tot sz bs off bs' h'"
      using alloc_post_step [of passed tot sz bs1 off bs' h', OF _ ws(2,5,6)] by simp
    with post hw(2) show ?thesis by simp
  qed
qed

lemma Alloc_spec:
  assumes "FencedAllocator_Alloc ops sz bs h = Some (off, bs', h')" "fa_inv tot bs" "hinv h"
  shows "alloc_post passed tot (max 1 sz) bs off bs' h'" "hinv h'" "passed u h \<Longrightarrow> passed u h'"
proof -
  have m: "(if sz = 0 then 1 else sz) = max 1 sz" by auto
  have "alloc_post passed tot (max 1 sz) bs off bs' h' \<and> hinv h' \<and> (\<forall>u. passed u h \<longrightarrow> passed u h')"
  proof (cases "alloc_find_free (max 1 sz) 0 bs")
    case None
    with assms show ?thesis
      using alloc_wait_loop_spec [of ops "max 1 sz"] by (simp add: FencedAllocator_Alloc_def m)
  next
    case (Some i)
    note f = alloc_find_free_Some [OF Some]
    from Some assms have "AllocInBlock i (max 1 sz) bs = (off, bs')" "h' = h"
      by (auto simp: FencedAllocator_Alloc_def m split: prod.splits)
    with AllocInBlock_post [OF assms(2), of i "max 1 sz" off bs' passed h] f assms(3)
    show ?thesis by auto
  qed
  then show "alloc_post passed tot (max 1 sz) bs off bs' h'" "hinv h'" "passed u h \<Longrightarrow> passed u h'"
    by auto
qed

end



section \<open>Freeing\<close>

lemma GetBlockByOffset_at:
  assumes "contiguous off0 (xs @ b # ys)"
  shows "GetBlockByOffset (blk_offset b) (xs @ b # ys) = length xs"
proof -
  have "blk_offset c < blk_offset b" if "c \<in> set xs" for c
    using assms contiguous_range [of off0 xs c] that by auto
  then have "takeWhile (\<lambda>c. blk_offset c < blk_offset b) (xs @ b # ys) = xs" by simp
  then show ?thesis by (simp add: GetBlockByOffset_def)
qed

lemma fa_block_at:
  assumes "fa_inv tot bs" "b \<in> set bs"
  obtains xs ys where "bs = xs @ b # ys" "GetBlockByOffset (blk_offset b) bs = length xs"
    "\<And>c. c \<in> set xs \<union> set ys \<Longrightarrow> blk_offset c \<noteq> blk_offset b"
proof -
  obtain xs ys where bs: "bs = xs @ b # ys" using assms(2) by (meson split_list)
  have "GetBlockByOffset (blk_offset b) bs = length xs"
    using assms(1) GetBlockByOffset_at [of 0 xs b ys] by (simp add: bs fa_inv_def)
  moreover have "blk_offset c \<noteq> blk_offset b" if c: "c \<in> set xs \<union> set ys" for c
  proof -
    have "0 < blk_size c" "0 < blk_size b"
      using assms(1) c contiguous_range [of 0 bs] by (auto simp: bs fa_inv_def)
    then show ?thesis using block_disjoint [OF assms(1) [unfolded bs] c] by (auto simp: disjoint_ranges_def)
  qed
  ultimately show ?thesis using that bs by blast
qed

lemma filter_offset_ne:
  assumes "\<And>c. c \<in> set zs \<Longrightarrow> blk_offset c \<noteq> off"
  shows "{a \<in> allocations zs. fst a \<noteq> off} = allocations zs"
    "{a \<in> pending zs. fst a \<noteq> off} = pending zs"
  using assms by (auto simp: allocations_def pending_def) blast+

lemma filter_offset:
  assumes "bs = xs @ b # ys" "\<And>c. c \<in> set xs \<union> set ys \<Longrightarrow> blk_offset c \<noteq> blk_offset b"
  shows "{a \<in> allocations bs. fst a \<noteq> blk_offset b} = allocations xs \<union> allocations ys"
    "{a \<in> pending bs. fst a \<noteq> blk_offset b} = pending xs \<union> pending ys"
proof -
  note x = filter_offset_ne [of xs "blk_offset b"] and y = filter_offset_ne [of ys "blk_offset b"]
  have "{a \<in> allocations bs. fst a \<noteq> blk_offset b} =
    {a \<in> allocations xs. fst a \<noteq> blk_offset b} \<union> {a \<in> allocations ys. fst a \<noteq> blk_offset b}"
    using assms(1) by auto
  then show "{a \<in> allocations bs. fst a \<noteq> blk_offset b} = allocations xs \<union> allocations ys"
    using x(1) y(1) assms(2) by simp
  have "{a \<in> pending bs. fst a \<noteq> blk_offset b} =
    {a \<in> pending xs. fst a \<noteq> blk_offset b} \<union> {a \<in> pending ys. fst a \<noteq> blk_offset b}"
    using assms(1) by auto
  then show "{a \<in> pending bs. fst a \<noteq> blk_offset b} = pending xs \<union> pending ys"
    using x(2) y(2) assms(2) by simp
qed

lemma Free_at:
  assumes inv: "fa_inv tot bs" and b: "b \<in> set bs"
  shows "fa_inv tot (FencedAllocator_Free (blk_offset b) bs)"
    "allocations (FencedAllocator_Free (blk_offset b) bs) = {a \<in> allocations bs. fst a \<noteq> blk_offset b}"
    "pending (FencedAllocator_Free (blk_offset b) bs) = {a \<in> pending bs. fst a \<noteq> blk_offset b}"
proof -
  obtain xs ys where bs: "bs = xs @ b # ys" and g: "GetBlockByOffset (blk_offset b) bs = length xs"
    and ne: "\<And>c. c \<in> set xs \<union> set ys \<Longrightarrow> blk_offset c \<noteq> blk_offset b"
    using fa_block_at [OF inv b(1)] by metis
  obtain i bs' where c: "CollapseFreeBlock (length xs) (xs @ b\<lparr>blk_state := FREE\<rparr> # ys) = (i, bs')"
    by fastforce
  have f: "FencedAllocator_Free (blk_offset b) bs = bs'"
    unfolding FencedAllocator_Free_def Let_def g using c by (simp add: bs)
  note ci = collapse_inv [OF inv [unfolded bs] c]
  show "fa_inv tot (FencedAllocator_Free (blk_offset b) bs)" using ci(1) f by simp
  show "allocations (FencedAllocator_Free (blk_offset b) bs) = {a \<in> allocations bs. fst a \<noteq> blk_offset b}"
    using ci(2) f filter_offset(1) [OF bs ne] by simp
  show "pending (FencedAllocator_Free (blk_offset b) bs) = {a \<in> pending bs. fst a \<noteq> blk_offset b}"
    using ci(3) f filter_offset(2) [OF bs ne] by simp
qed

lemma FreePendingToken_at:
  assumes inv: "fa_inv tot bs" and b: "b \<in> set bs" and st: "blk_state b = IN_USE"
  shows "fa_inv tot (FencedAllocator_FreePendingToken (blk_offset b) t bs)"
    "allocations (FencedAllocator_FreePendingToken (blk_offset b) t bs) =
       {a \<in> allocations bs. fst a \<noteq> blk_offset b}"
    "pending (FencedAllocator_FreePendingToken (blk_offset b) t bs) =
       insert (blk_offset b, blk_size b, t) (pending bs)"
proof -
  obtain xs ys where bs: "bs = xs @ b # ys" and g: "GetBlockByOffset (blk_offset b) bs = length xs"
    and ne: "\<And>c. c \<in> set xs \<union> set ys \<Longrightarrow> blk_offset c \<noteq> blk_offset b"
    using fa_block_at [OF inv b(1)] by metis
  let ?b = "b\<lparr>blk_state := FREE_PENDING_TOKEN, blk_token := t\<rparr>"
  have f: "FencedAllocator_FreePendingToken (blk_offset b) t bs = xs @ ?b # ys"
    unfolding FencedAllocator_FreePendingToken_def Let_def g by (simp add: bs)
  show "fa_inv tot (FencedAllocator_FreePendingToken (blk_offset b) t bs)"
    unfolding f by (rule fa_inv_update [OF inv [unfolded bs]]) simp_all
  show "allocations (FencedAllocator_FreePendingToken (blk_offset b) t bs) =
       {a \<in> allocations bs. fst a \<noteq> blk_offset b}"
    using f filter_offset(1) [OF bs ne] by simp
  show "pending (FencedAllocator_FreePendingToken (blk_offset b) t bs) =
       insert (blk_offset b, blk_size b, t) (pending bs)"
    using f st by (auto simp: bs)
qed

lemma allocation_block:
  assumes "(off, n) \<in> allocations bs"
  obtains b where "b \<in> set bs" "blk_state b = IN_USE" "blk_offset b = off" "blk_size b = n"
  using assms by (auto simp: allocations_def)

lemma free_allocation:
  assumes inv: "fa_inv tot bs" and a: "(off, sz) \<in> allocations bs"
  shows "fa_inv tot (FencedAllocator_Free off bs)"
    "allocations (FencedAllocator_Free off bs) = allocations bs - {(off, sz)}"
    "pending (FencedAllocator_Free off bs) = pending bs"
    "fa_inv tot (FencedAllocator_FreePendingToken off t bs)"
    "allocations (FencedAllocator_FreePendingToken off t bs) = allocations bs - {(off, sz)}"
    "pending (FencedAllocator_FreePendingToken off t bs) = insert (off, sz, t) (pending bs)"
proof -
  obtain b where b: "b \<in> set bs" "blk_state b = IN_USE" "blk_offset b = off" "blk_size b = sz"
    using a by (rule allocation_block)
  obtain xs ys where bs: "bs = xs @ b # ys"
    and ne: "\<And>c. c \<in> set xs \<union> set ys \<Longrightarrow> blk_offset c \<noteq> blk_offset b"
    using fa_block_at [OF inv b(1)] by metis
  have "(off, sz) \<notin> allocations xs \<union> allocations ys"
    using ne b(3) by (auto simp: allocations_def) blast+
  then have A: "allocations bs - {(off, sz)} = allocations xs \<union> allocations ys"
    using bs b by auto
  have P: "pending bs = pending xs \<union> pending ys" using bs b by auto
  note F = Free_at [OF inv b(1), unfolded b(3)] and G = FreePendingToken_at [OF inv b(1,2), unfolded b(3,4)]
  note O = filter_offset [OF bs ne, unfolded b(3)]
  show "fa_inv tot (FencedAllocator_Free off bs)" "fa_inv tot (FencedAllocator_FreePendingToken off t bs)"
    "pending (FencedAllocator_FreePendingToken off t bs) = insert (off, sz, t) (pending bs)"
    by (rule F G)+
  show "allocations (FencedAllocator_Free off bs) = allocations bs - {(off, sz)}"
    "pending (FencedAllocator_Free off bs) = pending bs"
    "allocations (FencedAllocator_FreePendingToken off t bs) = allocations bs - {(off, sz)}"
    using F G O A P by simp_all
qed

lemma collapse_alone:
  assumes "xs \<noteq> [] \<longrightarrow> blk_state (last xs) \<noteq> FREE" "ys \<noteq> [] \<longrightarrow> blk_state (hd ys) \<noteq> FREE"
  shows "CollapseFreeBlock (length xs) (xs @ b # ys) = (length xs, xs @ b # ys)"
    "CollapseFreeBlock (length xs) (xs @ b # \<lparr>blk_state = FREE, blk_offset = p, blk_size = n, blk_token = t\<rparr> # ys) =
       (length xs, xs @ b\<lparr>blk_size := u32_add (blk_size b) n\<rparr> # ys)"
proof -
  have p: "collapse_prev (length xs) (xs @ c # ys) = (length xs, xs @ c # ys)" for c
    using assms(1) by (cases xs rule: rev_cases) (auto simp: collapse_prev_def nth_append)
  have "collapse_next (length xs) (xs @ b # ys) = xs @ b # ys"
    using assms(2) by (cases ys) (auto simp: collapse_next_def)
  then show "CollapseFreeBlock (length xs) (xs @ b # ys) = (length xs, xs @ b # ys)"
    by (simp add: CollapseFreeBlock_def p)
  show "CollapseFreeBlock (length xs) (xs @ b # \<lparr>blk_state = FREE, blk_offset = p, blk_size = n, blk_token = t\<rparr> # ys) =
       (length xs, xs @ b\<lparr>blk_size := u32_add (blk_size b) n\<rparr> # ys)"
    by (simp add: CollapseFreeBlock_def collapse_next_def p)
qed

lemma Free_AllocInBlock:
  assumes inv: "fa_inv tot (xs @ b # ys)" and b: "blk_state b = FREE" "0 < sz" "sz \<le> blk_size b"
    and r: "AllocInBlock (length xs) sz (xs @ b # ys) = (off, bs')"
  shows "FencedAllocator_Free off bs' = xs @ b # ys"
proof -
  define c where "c = b\<lparr>blk_state := IN_USE, blk_size := sz\<rparr>"
  define zs where "zs = (if blk_size b = sz then ys else \<lparr>blk_state = FREE,
    blk_offset = blk_offset b + sz, blk_size = blk_size b - sz, blk_token = kUnusedToken\<rparr> # ys)"
  have bs': "bs' = xs @ c # zs" and off: "off = blk_offset c"
    using r AllocInBlock_at [OF inv b(3)] by (cases b; auto simp: c_def zs_def)+
  have "contiguous 0 bs'" using AllocInBlock_shape(1) [OF inv b r] by (simp add: fa_inv_def)
  then have g: "GetBlockByOffset off bs' = length xs" unfolding bs' off by (rule GetBlockByOffset_at)
  have nf: "xs \<noteq> [] \<longrightarrow> blk_state (last xs) \<noteq> FREE" "ys \<noteq> [] \<longrightarrow> blk_state (hd ys) \<noteq> FREE"
    using inv b(1) by (auto simp: fa_inv_def successively_append_iff successively_Cons not_both_free_def)
  have "sz + (blk_size b - sz) < 4294967296" using inv b(3) by (simp add: fa_inv_def)
  then show ?thesis
    using collapse_alone [OF nf] b
    by (cases b) (simp add: FencedAllocator_Free_def g, simp add: bs' zs_def c_def u32_simps)
qed

lemma largest_free_loop_Max:
  "m \<le> largest_free_loop m bs \<and>
   (largest_free_loop m bs = m \<or> (\<exists>b\<in>set bs. blk_state b = FREE \<and> largest_free_loop m bs = blk_size b))"
proof (induction bs arbitrary: m)
  case (Cons b bs)
  from Cons [of m] Cons [of "max m (blk_size b)"] show ?case by (auto simp: max_def split: if_splits)
qed simp

lemma alloc_free_same:
  assumes inv: "fa_inv tot bs" and sz: "max 1 sz \<le> GetLargestFreeSize bs"
  shows "\<exists>off bs'. FencedAllocator_Alloc ops sz bs h = Some (off, bs', h) \<and>
    off \<noteq> kInvalidOffset \<and> FencedAllocator_Free off bs' = bs"
proof -
  have m: "(if sz = 0 then 1 else sz) = max 1 sz" by auto
  obtain b where "b \<in> set bs" "blk_state b = FREE" "max 1 sz \<le> blk_size b"
    using largest_free_loop_Max [of 0 bs] sz by (auto simp: GetLargestFreeSize_def)
  then obtain i where f: "alloc_find_free (max 1 sz) 0 bs = Some i"
    using alloc_find_free_None [of "max 1 sz" 0 bs] by (fastforce simp: in_set_conv_nth)
  note i = alloc_find_free_Some [OF f]
  obtain off bs' where r: "AllocInBlock i (max 1 sz) bs = (off, bs')" by fastforce
  obtain xs ys where bs: "bs = xs @ bs ! i # ys" "i = length xs" and
    inv': "fa_inv tot (xs @ bs ! i # ys)" using fa_inv_split inv i by blast
  have "AllocInBlock (length xs) (max 1 sz) (xs @ bs ! i # ys) = (off, bs')" using r bs by simp
  from Free_AllocInBlock [OF inv' _ _ _ this] i have "FencedAllocator_Free off bs' = bs"
    using bs(1) by simp
  moreover have "off \<noteq> kInvalidOffset" using AllocInBlock_valid [OF inv _ _ _ _ r] i by simp
  ultimately show ?thesis using f r by (simp add: FencedAllocator_Alloc_def m)
qed

lemma free_unused_loop_spec:
  "fa_inv tot bs \<Longrightarrow> \<forall>b\<in>set (take i bs). blk_state b = FREE_PENDING_TOKEN \<longrightarrow> last_token < blk_token b \<Longrightarrow>
   fa_inv tot (free_unused_loop last_token i bs) \<and>
   allocations (free_unused_loop last_token i bs) = allocations bs \<and>
   pending (free_unused_loop last_token i bs) = {(p, n, t) \<in> pending bs. last_token < t} \<and>
   max_run 0 (free_unused_loop last_token i bs) = max_run 0 bs"
proof (induction last_token i bs rule: free_unused_loop.induct)
  case (1 last_token i bs)
  let ?due = "blk_state (bs ! i) = FREE_PENDING_TOKEN \<and> blk_token (bs ! i) \<le> last_token"
  note eq = free_unused_loop.simps [of last_token i bs]
  consider "length bs \<le> i" | "i < length bs" "\<not> ?due" | "i < length bs" ?due by linarith
  then show ?case
  proof cases
    case 1
    then have "free_unused_loop last_token i bs = bs" by (simp add: eq)
    moreover have "pending bs = {(p, n, t) \<in> pending bs. last_token < t}"
      using "1.prems"(2) 1 by (auto simp: pending_def)
    ultimately show ?thesis using "1.prems"(1) by simp
  next
    case 2
    then have "free_unused_loop last_token i bs = free_unused_loop last_token (i + 1) bs"
      by (auto simp: eq)
    with "1.IH"(2) [OF 2 "1.prems"(1)] "1.prems"(2) 2 show ?thesis
      by (fastforce simp: take_Suc_conv_app_nth)
  next
    case 3
    obtain j bs1 where c: "CollapseFreeBlock i (bs[i := (bs ! i)\<lparr>blk_state := FREE\<rparr>]) = (j, bs1)"
      by fastforce
    have "free_unused_loop last_token i bs = free_unused_loop last_token j bs1"
      using 3 c by (simp add: eq)
    moreover note fs = free_step [OF "1.prems"(1) 3(1) _ c]
    obtain zs where zs: "take i bs = take j bs1 @ zs" using fs(9) 3 by blast
    then have "set (take j bs1) \<subseteq> set (take i bs)" by (simp add: zs)
    then have "\<forall>b\<in>set (take j bs1). blk_state b = FREE_PENDING_TOKEN \<longrightarrow> last_token < blk_token b"
      using "1.prems"(2) by blast
    with "1.IH"(1) [OF 3 c [symmetric]] fs(1) 3
    have ih: "fa_inv tot (free_unused_loop last_token j bs1)"
      "allocations (free_unused_loop last_token j bs1) = allocations bs1"
      "pending (free_unused_loop last_token j bs1) = {(p, n, t) \<in> pending bs1. last_token < t}"
      "max_run 0 (free_unused_loop last_token j bs1) = max_run 0 bs1"
      by simp_all
    moreover have "{(p, n, t) \<in> pending bs1. last_token < t} = {(p, n, t) \<in> pending bs. last_token < t}"
      using fs(6) 3 by auto
    ultimately show ?thesis using fs(2,7) 3 by simp
  qed
qed

lemma destroy_loop_spec:
  "destroy_loop ops i bs h = Some (bs', h') \<Longrightarrow> fa_inv tot bs \<Longrightarrow>
   \<forall>b\<in>set (take i bs). blk_state b \<noteq> FREE_PENDING_TOKEN \<Longrightarrow>
   fa_inv tot bs' \<and> allocations bs' = allocations bs \<and> pending bs' = {}"
proof (induction ops i bs h rule: destroy_loop.induct)
  case (1 ops i bs h)
  note eq = "1.prems"(1) [unfolded destroy_loop.simps [of ops i]]
  consider "i \<ge> length bs" | "i < length bs" "blk_state (bs ! i) \<noteq> FREE_PENDING_TOKEN"
    | "i < length bs" "blk_state (bs ! i) = FREE_PENDING_TOKEN" by linarith
  then show ?case
  proof cases
    case 1
    with eq "1.prems" show ?thesis by (auto simp: pending_def)
  next
    case 2
    with eq "1.IH"(2) "1.prems" show ?thesis by (auto simp: take_Suc_conv_app_nth)
  next
    case 3
    then obtain j bs1 h1 where w: "WaitForTokenAndFreeBlock ops i bs h = Some (j, bs1, h1)"
      using eq by (auto split: option.splits)
    note ws = wait_step [OF "1.prems"(2) 3 w]
    from eq 3 w have r: "destroy_loop ops (j + 1) bs1 h1 = Some (bs', h')" by simp
    obtain zs where "take i bs = take j bs1 @ zs" using ws(9) by blast
    then have "set (take j bs1) \<subseteq> set (take i bs)" by simp
    moreover have "take (j + 1) bs1 = take j bs1 @ [bs1 ! j]"
      using ws(3) by (simp add: take_Suc_conv_app_nth)
    ultimately have "\<forall>b\<in>set (take (j + 1) bs1). blk_state b \<noteq> FREE_PENDING_TOKEN"
      using "1.prems"(3) ws(4) by auto
    with "1.IH"(1) [OF 3 w refl refl r ws(1)] ws(2) show ?thesis by simp
  qed
qed

lemma only_free_single:
  assumes "fa_inv tot bs" "allocations bs = {}" "pending bs = {}"
  shows "\<exists>t. bs = [\<lparr>blk_state = FREE, blk_offset = 0, blk_size = tot, blk_token = t\<rparr>]"
proof -
  have free: "blk_state b = FREE" if "b \<in> set bs" for b
    using that assms(2,3) by (cases "blk_state b") (auto simp: allocations_def pending_def)
  obtain b cs where bs: "bs = b # cs" using assms(1) by (cases bs) (auto simp: fa_inv_def)
  have "cs = []"
  proof (cases cs)
    case (Cons c ds)
    then show ?thesis using free [of b] free [of c] assms(1)
      by (simp add: bs fa_inv_def not_both_free_def)
  qed simp
  with bs free [of b] assms(1) show ?thesis by (cases b) (auto simp: fa_inv_def)
qed

lemma CheckConsistency_contiguous:
  "contiguous off bs \<Longrightarrow> off + total_size bs < 4294967296 \<Longrightarrow> successively not_both_free bs \<Longrightarrow> bs \<noteq> [] \<Longrightarrow>
   CheckConsistency bs"
  by (induction bs arbitrary: off rule: CheckConsistency.induct)
    (auto simp: u32_simps not_both_free_def)

context live_token_interface
begin

lemma WaitForTokenAndFreeBlock_returns:
  assumes "hinv h"
  obtains i' bs' h' where "WaitForTokenAndFreeBlock ops i bs h = Some (i', bs', h')" "hinv h'"
proof -
  obtain h' where t: "tok_wait ops (blk_token (bs ! i)) h = Some h'" using wait_returns [OF assms] by blast
  obtain i' bs' where "CollapseFreeBlock i (bs[i := (bs ! i)\<lparr>blk_state := FREE\<rparr>]) = (i', bs')"
    by fastforce
  with that wait_inv [OF assms t] t show ?thesis by (simp add: WaitForTokenAndFreeBlock_def)
qed

lemma alloc_wait_loop_returns: "ops0 = ops \<Longrightarrow> hinv h \<Longrightarrow> \<exists>r. alloc_wait_loop ops0 sz i bs h = Some r"
proof (induction ops0 sz i bs h rule: alloc_wait_loop.induct)
  case (1 ops0 sz i bs h)
  obtain j bs1 h1 where w: "WaitForTokenAndFreeBlock ops i bs h = Some (j, bs1, h1)" and "hinv h1"
    using WaitForTokenAndFreeBlock_returns "1.prems"(2) by blast
  with 1 show ?case
    by (auto simp: alloc_wait_loop.simps [of ops sz i] split: prod.splits)
qed

lemma Alloc_returns: "hinv h \<Longrightarrow> \<exists>r. FencedAllocator_Alloc ops sz bs h = Some r"
  using alloc_wait_loop_returns [OF refl]
  by (simp add: FencedAllocator_Alloc_def Let_def split: option.splits prod.splits)

lemma destroy_loop_returns: "ops0 = ops \<Longrightarrow> hinv h \<Longrightarrow> \<exists>r. destroy_loop ops0 i bs h = Some r"
proof (induction ops0 i bs h rule: destroy_loop.induct)
  case (1 ops0 i bs h)
  obtain j bs1 h1 where w: "WaitForTokenAndFreeBlock ops i bs h = Some (j, bs1, h1)" and "hinv h1"
    using WaitForTokenAndFreeBlock_returns "1.prems"(2) by blast
  with 1 show ?case by (auto simp: destroy_loop.simps [of ops i])
qed

end


text \<open>What holds of an allocation whatever the helper does: the contract without tokens.\<close>

interpretation any_helper: token_interface ops "\<lambda>_ _. True" "\<lambda>_. True" for ops
  by unfold_locales simp_all

lemma Alloc_any:
  assumes "FencedAllocator_Alloc ops sz bs h = Some (off, bs', h')" "fa_inv tot bs"
  shows "fa_inv tot bs'" "pending bs' \<subseteq> pending bs"
    "off = kInvalidOffset \<Longrightarrow> allocations bs' = allocations bs"
    "off \<noteq> kInvalidOffset \<Longrightarrow> off + max 1 sz \<le> tot"
    "off \<noteq> kInvalidOffset \<Longrightarrow> allocations bs' = insert (off, max 1 sz) (allocations bs)"
    "off \<noteq> kInvalidOffset \<Longrightarrow> (p, n) \<in> allocations bs \<Longrightarrow> disjoint_ranges off (max 1 sz) p n"
  using any_helper.Alloc_spec(1) [OF assms] by (auto simp: alloc_post_def)

lemma new_inv: "0 < n \<Longrightarrow> n < 4294967296 \<Longrightarrow> fa_inv n (FencedAllocator_new n)"
  by (simp add: fa_inv_def FencedAllocator_new_def)

text \<open>
  The states an allocator of \<open>n\<close> bytes goes through: clients free only what they hold, and the
  helper may do anything between two calls.
\<close>

inductive fa_reach :: "'h token_if \<Rightarrow> nat \<Rightarrow> Container \<Rightarrow> 'h \<Rightarrow> bool" for ops n where
  reach_new: "fa_reach ops n (FencedAllocator_new n) h"
| reach_helper: "fa_reach ops n bs h \<Longrightarrow> fa_reach ops n bs h'"
| reach_alloc: "fa_reach ops n bs h \<Longrightarrow> FencedAllocator_Alloc ops sz bs h = Some (off, bs', h') \<Longrightarrow>
    fa_reach ops n bs' h'"
| reach_free: "fa_reach ops n bs h \<Longrightarrow> (off, sz) \<in> allocations bs \<Longrightarrow>
    fa_reach ops n (FencedAllocator_Free off bs) h"
| reach_free_pending: "fa_reach ops n bs h \<Longrightarrow> (off, sz) \<in> allocations bs \<Longrightarrow>
    fa_reach ops n (FencedAllocator_FreePendingToken off token bs) h"
| reach_free_unused: "fa_reach ops n bs h \<Longrightarrow> fa_reach ops n (FencedAllocator_FreeUnused ops bs h) h"

lemma fa_reach_inv:
  assumes "fa_reach ops n bs h" "0 < n" "n < 4294967296"
  shows "fa_inv n bs"
  using assms
proof (induction rule: fa_reach.induct)
  case (reach_alloc bs h sz off bs' h')
  then show ?case using Alloc_any(1) [OF reach_alloc.hyps(2)] by simp
next
  case (reach_free bs h off sz)
  then show ?case using Free_at(1) by (metis allocation_block)
next
  case (reach_free_pending bs h off sz token)
  then show ?case using FreePendingToken_at(1) by (metis allocation_block)
next
  case (reach_free_unused bs h)
  then show ?case
    using free_unused_loop_spec [of n bs 0] by (simp add: FencedAllocator_FreeUnused_def)
qed (simp_all add: new_inv)

section \<open>A sample run\<close>

text \<open>
  A helper whose state is the last token read, on which a wait reads the token waited for; the
  run allocates two blocks of 16 bytes and fences the first with token 7.
\<close>

definition sample_helper :: "int token_if" where
  "sample_helper = \<lparr>tok_wait = (\<lambda>t h. Some (max t h)), tok_last_read = (\<lambda>h. h)\<rparr>"

definition sample_blocks :: Container where
  "sample_blocks =
    [\<lparr>blk_state = FREE_PENDING_TOKEN, blk_offset = 0, blk_size = 4, blk_token = 7\<rparr>,
     \<lparr>blk_state = IN_USE, blk_offset = 4, blk_size = 4, blk_token = 0\<rparr>,
     \<lparr>blk_state = FREE, blk_offset = 8, blk_size = 8, blk_token = 0\<rparr>]"

lemmas fa_eval = FencedAllocator_new_def FencedAllocator_Alloc_def FencedAllocator_Free_def
  FencedAllocator_FreePendingToken_def FencedAllocator_FreeUnused_def FencedAllocator_delete_def
  alloc_find_free.simps alloc_wait_loop.simps free_unused_loop.simps destroy_loop.simps
  AllocInBlock_def WaitForTokenAndFreeBlock_def CollapseFreeBlock_def collapse_next_def
  collapse_prev_def GetBlockByOffset_def u32_add_def u32_sub_def u32_def erase_at_def insert_at_def
  sample_helper_def sample_blocks_def kUnusedToken_def kInvalidOffset_def GetLargestFreeSize_def

lemma sample_reach: "fa_reach sample_helper 16 sample_blocks 5"
proof -
  let ?b1 = "[\<lparr>blk_state = IN_USE, blk_offset = 0, blk_size = 4, blk_token = 0\<rparr>,
     \<lparr>blk_state = FREE, blk_offset = 4, blk_size = 12, blk_token = 0\<rparr>]"
  let ?b2 = "[\<lparr>blk_state = IN_USE, blk_offset = 0, blk_size = 4, blk_token = 0\<rparr>,
     \<lparr>blk_state = IN_USE, blk_offset = 4, blk_size = 4, blk_token = 0\<rparr>,
     \<lparr>blk_state = FREE, blk_offset = 8, blk_size = 8, blk_token = 0\<rparr>]"
  have "FencedAllocator_Alloc sample_helper 4 (FencedAllocator_new 16) 5 = Some (0, ?b1, 5)"
    by (simp add: fa_eval)
  from reach_alloc [OF reach_new this] have 1: "fa_reach sample_helper 16 ?b1 5" .
  have "FencedAllocator_Alloc sample_helper 4 ?b1 5 = Some (4, ?b2, 5)" by (simp add: fa_eval)
  from reach_alloc [OF 1 this] have 2: "fa_reach sample_helper 16 ?b2 5" .
  have "FencedAllocator_FreePendingToken 0 7 ?b2 = sample_blocks" by (simp add: fa_eval)
  with reach_free_pending [OF 2, of 0 4 7] show ?thesis by simp
qed

section \<open>Properties\<close>

text \<open>
  C3: In every state an allocator can reach, its own consistency check passes (at least one
  block, successive offsets match the sizes, no two contiguous free blocks), and the blocks
  cover exactly the range it was created with.
\<close>

theorem fenced_allocator_consistent:
  assumes "fa_reach ops n bs h" "0 < n" "n < 4294967296"
  shows "CheckConsistency bs \<and> contiguous 0 bs \<and> total_size bs = n"
  using fa_reach_inv [OF assms] CheckConsistency_contiguous [of 0 bs] by (auto simp: fa_inv_def)

theorem fenced_allocator_consistent_witness: "CheckConsistency sample_blocks"
  using fenced_allocator_consistent [OF sample_reach] by simp

text \<open>
  \<^verbatim>\<open>Alloc\<close>, when it returns, fails exactly when the request (at least one byte) exceeds
  \<^verbatim>\<open>GetLargestFreeOrPendingSize\<close>: it uses every byte that can be had by waiting.
\<close>

theorem alloc_fails_iff_too_large:
  assumes "FencedAllocator_Alloc ops sz bs h = Some (off, bs', h')" "fa_reach ops n bs h"
    and "0 < n" "n < 4294967296"
  shows "off = kInvalidOffset \<longleftrightarrow> GetLargestFreeOrPendingSize bs < max 1 sz"
  by (rule Alloc_result [OF assms(1) fa_reach_inv [OF assms(2-4)]])

theorem alloc_fails_iff_too_large_witness:
  "\<exists>off bs' h'. FencedAllocator_Alloc sample_helper 9 sample_blocks 5 = Some (off, bs', h') \<and>
     off = kInvalidOffset \<and> GetLargestFreeOrPendingSize sample_blocks < max 1 9"
proof -
  have "FencedAllocator_Alloc sample_helper 9 sample_blocks 5 =
    Some (kInvalidOffset, FencedAllocator_FreeUnused sample_helper sample_blocks 7, 7)" by (simp add: fa_eval)
  from this alloc_fails_iff_too_large [OF this sample_reach] show ?thesis by simp
qed

text \<open>\<^verbatim>\<open>FreeUnused\<close> frees exactly the pending blocks whose token has been read.\<close>

theorem free_unused_exact:
  assumes "fa_reach ops n bs h" "0 < n" "n < 4294967296"
  defines "bs' \<equiv> FencedAllocator_FreeUnused ops bs h"
  shows "pending bs' = {(p, m, t) \<in> pending bs. tok_last_read ops h < t} \<and>
    allocations bs' = allocations bs \<and>
    GetLargestFreeOrPendingSize bs' = GetLargestFreeOrPendingSize bs"
  using free_unused_loop_spec [of n bs 0 "tok_last_read ops h"] fa_reach_inv [OF assms(1-3)]
    GetLargestFreeOrPendingSize_run [of n bs] GetLargestFreeOrPendingSize_run [of n bs']
  by (simp add: bs'_def FencedAllocator_FreeUnused_def)


theorem free_unused_exact_witness:
  "pending (FencedAllocator_FreeUnused sample_helper sample_blocks 5) =
     {(p, m, t) \<in> pending sample_blocks. tok_last_read sample_helper 5 < t}"
  using free_unused_exact [OF sample_reach] by simp

text \<open>
  A request that fits a free block is served at once (the helper is not touched), and
  freeing the block again restores the vector of blocks exactly.
\<close>

theorem alloc_free_roundtrip:
  assumes "fa_reach ops n bs h" "0 < n" "n < 4294967296" "max 1 sz \<le> GetLargestFreeSize bs"
  shows "\<exists>off bs'. FencedAllocator_Alloc ops sz bs h = Some (off, bs', h) \<and>
    off \<noteq> kInvalidOffset \<and> FencedAllocator_Free off bs' = bs"
  by (rule alloc_free_same [OF fa_reach_inv [OF assms(1-3)] assms(4)])

theorem alloc_free_roundtrip_witness:
  "\<exists>off bs'. FencedAllocator_Alloc sample_helper 3 sample_blocks 5 = Some (off, bs', 5) \<and>
     off \<noteq> kInvalidOffset \<and> FencedAllocator_Free off bs' = sample_blocks"
proof -
  have "max 1 3 \<le> GetLargestFreeSize sample_blocks" by (simp add: fa_eval)
  then show ?thesis using alloc_free_roundtrip [OF sample_reach, of 3] by simp
qed

text \<open>
  \<^verbatim>\<open>Free\<close> and \<^verbatim>\<open>FreePendingToken\<close> take exactly the named allocation out; a freed block
  leaves no trace, a fenced one stays unavailable under its token.
\<close>

theorem free_removes_allocation:
  assumes "fa_reach ops n bs h" "0 < n" "n < 4294967296" "(off, sz) \<in> allocations bs"
  shows "allocations (FencedAllocator_Free off bs) = allocations bs - {(off, sz)} \<and>
    pending (FencedAllocator_Free off bs) = pending bs \<and>
    allocations (FencedAllocator_FreePendingToken off t bs) = allocations bs - {(off, sz)} \<and>
    pending (FencedAllocator_FreePendingToken off t bs) = insert (off, sz, t) (pending bs)"
  using free_allocation [OF fa_reach_inv [OF assms(1-3)] assms(4)] by simp

theorem free_removes_allocation_witness:
  "allocations (FencedAllocator_Free 4 sample_blocks) = allocations sample_blocks - {(4, 4)} \<and>
   pending (FencedAllocator_FreePendingToken 4 9 sample_blocks) = insert (4, 4, 9) (pending sample_blocks)"
proof -
  have "(4, 4) \<in> allocations sample_blocks" by (simp add: sample_blocks_def)
  then show ?thesis using free_removes_allocation [OF sample_reach, of 4 4 9] by simp
qed

text \<open>
  The destructor, once nothing is in use, waits until a single free block is left, the
  condition under which \<^verbatim>\<open>InUse\<close> is false.
\<close>

theorem destructor_frees_all:
  assumes "fa_reach ops n bs h" "0 < n" "n < 4294967296" "allocations bs = {}"
    and "FencedAllocator_delete ops bs h = Some (bs', h')"
  shows "\<not> FencedAllocator_InUse bs' \<and> GetLargestFreeSize bs' = n"
proof -
  have "fa_inv n bs' \<and> allocations bs' = {} \<and> pending bs' = {}"
    using destroy_loop_spec [of ops 0 bs h bs' h' n] fa_reach_inv [OF assms(1-3)] assms(4,5)
    by (simp add: FencedAllocator_delete_def)
  then obtain t where "bs' = [\<lparr>blk_state = FREE, blk_offset = 0, blk_size = n, blk_token = t\<rparr>]"
    using only_free_single by blast
  then show ?thesis by (simp add: FencedAllocator_InUse_def GetLargestFreeSize_def)
qed

theorem destructor_frees_all_witness:
  "\<not> FencedAllocator_InUse (fst (the
     (FencedAllocator_delete sample_helper (FencedAllocator_Free 4 sample_blocks) 5)))"
proof -
  let ?bs = "FencedAllocator_Free 4 sample_blocks"
  have "(4, 4) \<in> allocations sample_blocks" by (simp add: sample_blocks_def)
  then have r: "fa_reach sample_helper 16 ?bs 5" by (rule reach_free [OF sample_reach])
  have e: "allocations ?bs = {}" by (simp add: fa_eval)
  have "FencedAllocator_delete sample_helper ?bs 5 =
    Some ([\<lparr>blk_state = FREE, blk_offset = 0, blk_size = 16, blk_token = 7\<rparr>], 7)" by (simp add: fa_eval)
  from destructor_frees_all [OF r _ _ e this] this show ?thesis by simp
qed

end
