(* ===== verification/Client_Service.thy ===== *)
theory Client_Service
  imports Helper_Contract Common_Decoder Fenced_Allocator
begin

text \<open>
  The client's helper on the service in the same process: the \<^verbatim>\<open>CommandBuffer\<close> interface is provided by
  \<^verbatim>\<open>CommandBufferService\<close> with the scheduler as its put-offset callback, parser and decoder behind it.
  The contract of the helper is proved for this service, for every set of GLES2 handlers that obey
  the handler contract; the theorems of the section \<open>Properties\<close> are the end-to-end statements.
\<close>

record client_world = decoder_world +
  ticks :: nat

text \<open>
  \<^verbatim>\<open>clock()\<close> is an arbitrary sequence of values. An access through \<^verbatim>\<open>entries_\<close> outside the ring buffer is
  undefined; here it is dropped, and a theorem below shows that there is none without an error.
  \<^verbatim>\<open>GetLastState\<close> also counts \<^verbatim>\<open>generation_\<close> up, which neither the helper nor the service reads back;
  the helper's interface leaves that count out.
\<close>

definition service_cb :: "(ArgFlags \<times> nat) list \<Rightarrow> (nat \<Rightarrow> 'a client_world_scheme handler) \<Rightarrow>
    ('a client_world_scheme \<Rightarrow> ContextLostReason) \<Rightarrow> (nat \<Rightarrow> int) \<Rightarrow> 'a client_world_scheme CommandBuffer_if" where
  "service_cb gles2_info gles2_handle lost clk =
     (let callback = PutChanged (service_env gles2_info gles2_handle lost) in
      \<lparr>cb_GetRingBuffer = GetRingBuffer, cb_GetState = GetState,
       cb_GetLastState = (\<lambda>s. fst (GetLastState s)),
       cb_Flush = Flush callback, cb_FlushSync = FlushSync callback,
       cb_read = (\<lambda>i s. ring_entries s ! nat i),
       cb_write = (\<lambda>i es s. if 0 \<le> i \<and> i + int (length es) \<le> int (length (ring_entries s))
                     then s\<lparr>ring_entries := ring_write (ring_entries s) i es\<rparr> else s),
       cb_clock = (\<lambda>s. (clk (ticks s), s\<lparr>ticks := ticks s + 1\<rparr>))\<rparr>)"

section \<open>Commands that run straight through\<close>

text \<open>
  A command that its header describes, and whose execution returns without moving the get offset,
  without unscheduling the service, and without touching the token unless it is \<^verbatim>\<open>SetToken\<close>.
\<close>

definition plain_cmd :: "'a decoder_world_scheme do_command \<Rightarrow> CommandBufferEntry list \<Rightarrow> bool" where
  "plain_cmd D c \<longleftrightarrow> c \<noteq> [] \<and> unat (hdr_size (value_header (hd c))) = length c \<and>
     (\<forall>data s. \<exists>e s'. D (unat (hdr_command (value_header (hd c)))) (length c - 1) (c @ data) s = Some (e, s') \<and>
        parser_get s' = parser_get s \<and> token_' s' = token_step (token_' s) c \<and>
        unscheduled_count s' = unscheduled_count s \<and>
        put_offset_change_callback_' s' = put_offset_change_callback_' s)"

lemma seg_read:
  assumes "seg mem a b [c]"
  shows "take (length c) (drop (nat a) mem) = c"
  using assms by (intro nth_equalityI) (auto simp: seg_def)

lemma pending_step:
  assumes p: "pending_cmds mem n g p cs" and ne: "g \<noteq> p" and cs: "\<forall>c\<in>set cs. c \<noteq> []"
  shows "(\<exists>c cs'. cs = c # cs' \<and> g + int (length c) \<le> n \<and> take (length c) (drop (nat g) mem) = c \<and>
      pending_cmds mem n (g + int (length c)) p cs' \<and> reads_to g p (g + int (length c)) \<and>
      ring_dist n (g + int (length c)) p < ring_dist n g p) \<or>
    (take 2 (drop (nat g) mem) = Jump_Init 0 \<and> p < g \<and> pending_cmds mem n 0 p cs \<and> reads_to g p 0 \<and>
      ring_dist n 0 p < ring_dist n g p)"
proof -
  have b: "0 \<le> g" "g \<le> n" "0 \<le> p" "p < n" "int (length mem) = n + 2" using p by (auto simp: pending_cmds_def)
  show ?thesis
  proof (cases "g \<le> p")
    case True
    then have s: "seg mem g p cs" using p by (simp add: pending_cmds_def)
    then obtain c cs' where c: "cs = [c] @ cs'" using ne by (cases cs) (auto simp: seg_def)
    obtain m where m: "seg mem g m [c]" "seg mem m p cs'" using s unfolding c by (rule seg_appendD)
    have "m = g + int (length c)" "m \<le> p" "0 < length c" using m(1) seg_le [OF m(2)] cs c by (auto simp: seg_def)
    then show ?thesis
      using c True ne b seg_read [OF m(1)] pending_straight [OF m(2) b(5,4)]
      by (auto simp: reads_to_def ring_dist_def)
  next
    case False
    then obtain j cs1 cs2 where w: "cs = cs1 @ cs2" "j \<le> n" "seg mem g j cs1"
      "seg mem j (j + 2) [Jump_Init 0]" "seg mem 0 p cs2"
      using p by (auto simp: pending_cmds_def)
    show ?thesis
    proof (cases cs1)
      case Nil
      then have "g = j" using w(3) by (simp add: seg_def)
      then show ?thesis
        using w Nil False b seg_read [OF w(4)] pending_straight [OF w(5) b(5,4)]
        by (auto simp: reads_to_def ring_dist_def)
    next
      case (Cons c cs1')
      then obtain m where m: "seg mem g m [c]" "seg mem m j cs1'"
        using w(3) seg_appendD [of mem g j "[c]" cs1'] by auto
      have "m = g + int (length c)" "m \<le> j" "0 < length c"
        using m(1) seg_le [OF m(2)] cs Cons w(1) by (auto simp: seg_def)
      then show ?thesis
        using w Cons False b seg_read [OF m(1)] pending_wrapped [OF m(2) w(4,5) b(5) w(2)]
        by (auto simp: reads_to_def ring_dist_def)
    qed
  qed
qed

lemma ProcessCommand_at:
  assumes g: "0 \<le> parser_get s" "parser_get s \<noteq> parser_put s"
    and c: "take (length c) (drop (nat (parser_get s)) (ring_entries s)) = c" "c \<noteq> []"
      "unat (hdr_size (value_header (hd c))) = length c"
    and fits: "parser_get s + int (length c) \<le> parser_entry_count s"
    and d: "D (unat (hdr_command (value_header (hd c)))) (length c - 1)
      (c @ drop (nat (parser_get s) + length c) (ring_entries s)) s = Some (e, s')"
  shows "ProcessCommand D s = Some (e, if parser_get s = parser_get s'
    then s'\<lparr>parser_get := (parser_get s + int (length c)) mod parser_entry_count s'\<rparr> else s')"
proof -
  have dr: "drop (nat (parser_get s)) (ring_entries s) =
      c @ drop (nat (parser_get s) + length c) (ring_entries s)"
    using append_take_drop_id [of "length c" "drop (nat (parser_get s)) (ring_entries s)"] c(1)
    by (simp add: add.commute)
  have "nat (parser_get s) < length (ring_entries s)"
    using c(1,2) by (cases "nat (parser_get s) < length (ring_entries s)") auto
  then have h: "ring_entries s ! nat (parser_get s) = hd c"
    using c(2) by (metis dr hd_append2 hd_drop_conv_nth)
  show ?thesis
    using g c fits d by (simp add: ProcessCommand_def Let_def h dr)
qed

section \<open>What it means to execute commands\<close>

text \<open>
  The fields of the ring buffer and of the parser, which change between two commands, and when the
  client writes to the ring buffer or reads the clock.
\<close>

definition bookkeeping :: "'a client_world_scheme \<Rightarrow> 'a client_world_scheme \<Rightarrow> bool" where
  "bookkeeping s t \<longleftrightarrow> t = s\<lparr>ring_entries := ring_entries t, get_offset_' := get_offset_' t,
     put_offset_' := put_offset_' t, generation_' := generation_' t, error_' := error_' t,
     context_lost_reason_' := context_lost_reason_' t, parser_get := parser_get t, parser_put := parser_put t,
     ticks := ticks t\<rparr>"

text \<open>The entries at the position the parser reads from.\<close>

abbreviation at_get :: "'a client_world_scheme \<Rightarrow> CommandBufferEntry list" where
  "at_get s \<equiv> drop (nat (parser_get s)) (ring_entries s)"

text \<open>
  \<open>executes D cs s t\<close>: from \<open>s\<close> to \<open>t\<close> the decoder \<open>D\<close> was called exactly once for each of the commands
  \<open>cs\<close>, in this order, each on the state the one before it left, with the command's id and its entries
  as the parser found them in the ring buffer; nothing else happened but bookkeeping and the jump of
  the helper to the start of the ring buffer.
\<close>

inductive executes :: "'a client_world_scheme do_command \<Rightarrow> CommandBufferEntry list list \<Rightarrow>
    'a client_world_scheme \<Rightarrow> 'a client_world_scheme \<Rightarrow> bool" for D where
  idle: "bookkeeping s t \<Longrightarrow> executes D [] s t"
| command: "executes D cs s t \<Longrightarrow> take (length c) (at_get t) = c \<Longrightarrow>
    D (unat (hdr_command (value_header (hd c)))) (length c - 1) (at_get t) t = Some (e, t') \<Longrightarrow>
    bookkeeping t' u \<Longrightarrow> executes D (cs @ [c]) s u"
| jump: "executes D cs s t \<Longrightarrow> take 2 (at_get t) = Jump_Init 0 \<Longrightarrow> D 2 1 (at_get t) t = Some (e, t') \<Longrightarrow>
    bookkeeping t' u \<Longrightarrow> executes D cs s u"

lemma bookkeeping_fields [simp]:
  "bookkeeping s s" "bookkeeping s (s\<lparr>ring_entries := r\<rparr>)" "bookkeeping s (s\<lparr>get_offset_' := x\<rparr>)"
  "bookkeeping s (s\<lparr>put_offset_' := x\<rparr>)" "bookkeeping s (s\<lparr>generation_' := g\<rparr>)"
  "bookkeeping s (s\<lparr>parser_get := x\<rparr>)" "bookkeeping s (s\<lparr>ticks := k\<rparr>)"
  "bookkeeping s (s\<lparr>context_lost_reason_' := l, error_' := e\<rparr>)"
  "bookkeeping s (s\<lparr>generation_' := g, parser_put := x\<rparr>)"
  by (simp_all add: bookkeeping_def)

lemma bookkeeping_trans: "bookkeeping s t \<Longrightarrow> bookkeeping t u \<Longrightarrow> bookkeeping s u"
  by (cases s; cases t; cases u) (simp add: bookkeeping_def)

lemma executes_idle: "executes D cs s t \<Longrightarrow> bookkeeping t u \<Longrightarrow> executes D cs s u"
  by (erule executes.cases) (blast intro: executes.intros bookkeeping_trans)+

lemma executes_trans: "executes D ys t u \<Longrightarrow> executes D xs s t \<Longrightarrow> executes D (xs @ ys) s u"
proof (induction rule: executes.induct)
  case (command ys s' t' c e t'' u)
  then show ?case using executes.command [OF command.IH] by fastforce
qed (auto intro: executes_idle executes.jump)

section \<open>The scheduler's loop on pending commands\<close>

definition ran :: "'a scheduler_world_scheme \<Rightarrow> CommandBufferEntry list list \<Rightarrow> 'a scheduler_world_scheme \<Rightarrow> bool" where
  "ran s dn s' \<longleftrightarrow> ring_entries s' = ring_entries s \<and> parser_entry_count s' = parser_entry_count s \<and>
     num_entries_' s' = num_entries_' s \<and> parser_put s' = parser_put s \<and> put_offset_' s' = put_offset_' s \<and>
     token_' s' = token_after (token_' s) dn \<and> unscheduled_count s' = unscheduled_count s \<and>
     put_offset_change_callback_' s' = put_offset_change_callback_' s \<and>
     reads_to (parser_get s) (parser_put s) (parser_get s')"

lemma ran_refl: "ran s [] s"
  by (simp add: ran_def reads_to_refl)

lemma ran_trans: "ran s xs s' \<Longrightarrow> ran s' ys s'' \<Longrightarrow> ran s (xs @ ys) s''"
  by (auto simp: ran_def intro: reads_to_trans)

lemma ran_update [simp]:
  "ran s dn (s'\<lparr>get_offset_' := x\<rparr>) = ran s dn s'" "ran s dn (s'\<lparr>error_' := y\<rparr>) = ran s dn s'"
  "ran s dn (s'\<lparr>context_lost_reason_' := z\<rparr>) = ran s dn s'"
  by (simp_all add: ran_def)

definition client_inv :: "'a client_world_scheme \<Rightarrow> bool" where
  "client_inv s \<longleftrightarrow> sched_inv s \<and> num_entries_' s = parser_entry_count s \<and> unscheduled_count s = 0 \<and>
     put_offset_change_callback_' s"

lemma command_index_common: "c < 255 \<Longrightarrow> u32_sub (u32_sub c kStartPoint) 1 = c + 4294967040"
  using mod_add_self2 [of "c + 4294967040" 4294967296]
  by (simp add: u32_sub_def u32_def kStartPoint_def kLastCommonId_def add.commute)

locale service_loop = gles2_handlers gles2_info gles2_handle lost
  for gles2_info :: "(ArgFlags \<times> nat) list"
    and gles2_handle :: "nat \<Rightarrow> 'a client_world_scheme handler"
    and lost :: "'a client_world_scheme \<Rightarrow> ContextLostReason" +
  fixes clk :: "nat \<Rightarrow> int"
  assumes info_small: "length gles2_info \<le> 4294967040"
begin

abbreviation D where "D \<equiv> GLES2Decoder_DoCommand gles2_info gles2_handle"

lemma common_dispatch:
  assumes "c < 12"
  shows "D c n data s = Option.bind (DoCommonCommand c n data s)
    (\<lambda>(result, s1). if result = kNoError \<and> current_decoder_error s1 \<noteq> kNoError
       then Some (current_decoder_error s1, s1\<lparr>current_decoder_error := kNoError\<rparr>) else Some (result, s1))"
  using assms info_small command_index_common [of c] by (simp add: GLES2Decoder_DoCommand_def Let_def)

lemma jump_dispatch:
  assumes "0 < parser_entry_count s"
  shows "\<exists>e s'. D 2 1 (Jump_Init 0 @ data) s = Some (e, s') \<and> parser_get s' = 0 \<and> token_' s' = token_' s \<and>
    unscheduled_count s' = unscheduled_count s \<and>
    put_offset_change_callback_' s' = put_offset_change_callback_' s"
proof -
  have "g_command_info ! 2 = (kFixed, 1)" "command_ids ! 2 = kJump"
    by (simp_all add: g_command_info_def command_ids_def)
  then have "DoCommonCommand 2 1 (Jump_Init 0 @ data) s = Some (kNoError, s\<lparr>parser_get := 0, get_offset_' := 0\<rparr>)"
    using assms by (simp add: DoCommonCommand_known args_match_def HandleJump_def Jump_Init_def engine_SetGetOffset_eq)
  then show ?thesis by (simp add: common_dispatch)
qed

lemma round:
  assumes i: "sched_inv s" and p: "pending_cmds (ring_entries s) n (parser_get s) (parser_put s) cs"
    and pl: "list_all (plain_cmd D) cs" and ne: "parser_get s \<noteq> parser_put s"
  shows "\<exists>e s1 dn rest. ProcessCommand D s = Some (e, s1) \<and> cs = dn @ rest \<and> ran s dn s1 \<and>
    executes D dn s s1 \<and> parser_inv s1 \<and> error_' s1 = error_' s \<and>
    pending_cmds (ring_entries s) n (parser_get s1) (parser_put s) rest \<and>
    ring_dist n (parser_get s1) (parser_put s) < ring_dist n (parser_get s) (parser_put s)"
proof -
  let ?g = "parser_get s"
  have cnt: "parser_entry_count s = n + 2" "0 \<le> ?g" "?g \<le> n" "0 < n"
    using i p by (auto simp: sched_inv_def parser_inv_def pending_cmds_def)
  have nonempty: "\<forall>c\<in>set cs. c \<noteq> []" using pl by (auto simp: list_all_iff plain_cmd_def)
  have inv: "parser_inv s1" if "ProcessCommand D s = Some (e, s1)" for e s1
    using sched.ProcessCommand_inv [of s e s1] that i by (simp add: sched_inv_def service_env_def)
  from pending_step [OF p ne nonempty] show ?thesis
  proof (elim disjE exE conjE)
    fix c cs'
    assume c: "cs = c # cs'" "?g + int (length c) \<le> n" "take (length c) (drop (nat ?g) (ring_entries s)) = c"
      and pend: "pending_cmds (ring_entries s) n (?g + int (length c)) (parser_put s) cs'"
      and r: "reads_to ?g (parser_put s) (?g + int (length c))"
      and dist: "ring_dist n (?g + int (length c)) (parser_put s) < ring_dist n ?g (parser_put s)"
    have plc: "plain_cmd D c" using pl c(1) by simp
    obtain e s' where d: "D (unat (hdr_command (value_header (hd c)))) (length c - 1)
        (c @ drop (nat ?g + length c) (ring_entries s)) s = Some (e, s')"
      and s': "parser_get s' = ?g" "token_' s' = token_step (token_' s) c"
        "unscheduled_count s' = unscheduled_count s"
        "put_offset_change_callback_' s' = put_offset_change_callback_' s"
      using plc unfolding plain_cmd_def by blast
    have fr: "handler_frame s s'" by (rule DoCommand_frame [OF d])
    let ?s1 = "s'\<lparr>parser_get := ?g + int (length c)\<rparr>"
    have "(?g + int (length c)) mod parser_entry_count s' = ?g + int (length c)"
      using fr cnt c(2) by (simp add: handler_frame_def mod_pos_pos_trivial)
    then have pc: "ProcessCommand D s = Some (e, ?s1)"
      using ProcessCommand_at [OF cnt(2) ne, of c D e s'] d plc cnt c(2,3) s'(1) by (simp add: plain_cmd_def)
    have "ran s [c] ?s1" using fr s' r by (simp add: ran_def handler_frame_def)
    moreover have "at_get s = c @ drop (nat ?g + length c) (ring_entries s)"
      using append_take_drop_id [of "length c" "at_get s"] c(3) by (simp add: add.commute)
    then have "executes D ([] @ [c]) s ?s1"
      using executes.command [OF executes.idle [OF bookkeeping_fields(1) [of s]], of c D e s' ?s1] c(3) d by simp
    ultimately show ?thesis
      using pc inv [OF pc] pend dist c(1) fr
      by (intro exI [of _ e] exI [of _ ?s1] exI [of _ "[c]"] exI [of _ cs']) (simp add: handler_frame_def)
  next
    assume j: "take 2 (drop (nat ?g) (ring_entries s)) = Jump_Init 0" "parser_put s < ?g"
      and pend: "pending_cmds (ring_entries s) n 0 (parser_put s) cs"
      and r: "reads_to ?g (parser_put s) 0" and dist: "ring_dist n 0 (parser_put s) < ring_dist n ?g (parser_put s)"
    have h: "unat (hdr_command (value_header (hd (Jump_Init 0)))) = 2"
      "unat (hdr_size (value_header (hd (Jump_Init 0)))) = 2" "Jump_Init 0 \<noteq> []"
      by (simp_all add: Jump_Init_def SetCmd_size)
    obtain e s' where d: "D 2 1 (Jump_Init 0 @ drop (nat ?g + 2) (ring_entries s)) s = Some (e, s')"
      and s': "parser_get s' = 0" "token_' s' = token_' s" "unscheduled_count s' = unscheduled_count s"
        "put_offset_change_callback_' s' = put_offset_change_callback_' s"
      using jump_dispatch [of s "drop (nat ?g + 2) (ring_entries s)"] cnt by force
    have fr: "handler_frame s s'" by (rule DoCommand_frame [OF d])
    have p0: "0 \<le> parser_put s" using p by (simp add: pending_cmds_def)
    have pc: "ProcessCommand D s = Some (e, s')"
      using ProcessCommand_at [OF cnt(2) ne, of "Jump_Init 0" D e s'] h j d s'(1) cnt p0 by simp
    have "ran s [] s'" using fr s' r by (simp add: ran_def handler_frame_def)
    moreover have "at_get s = Jump_Init 0 @ drop (nat ?g + 2) (ring_entries s)"
      using append_take_drop_id [of 2 "at_get s"] j(1) by (simp add: add.commute)
    then have "executes D [] s s'" 
      using executes.jump [OF executes.idle [OF bookkeeping_fields(1) [of s]], of D e s' s'] j(1) d by simp
    ultimately show ?thesis
      using pc inv [OF pc] pend dist s'(1) fr
      by (intro exI [of _ e] exI [of _ s'] exI [of _ "[]"] exI [of _ cs]) (simp add: handler_frame_def)
  qed
qed


lemma loop_unfold:
  assumes "ProcessCommand D s = Some (e, s1)" "parser_get s \<noteq> parser_put s"
  defines "s2 \<equiv> s1\<lparr>get_offset_' := parser_get s1\<rparr>"
  shows "put_changed_loop (service_env gles2_info gles2_handle lost) s =
    (if IsError e then Some (SetParseError (\<lambda>s. s) e (SetContextLostReason (lost s2) s2))
     else if unscheduled_count s2 > 0 then Some s2
     else put_changed_loop (service_env gles2_info gles2_handle lost) s2)"
  using assms(1,2)
  by (subst put_changed_loop.simps)
    (simp add: IsEmpty_def service_env_def SetGetOffset_def s2_def Let_def)

lemma loop_runs:
  assumes "sched_inv s" "pending_cmds (ring_entries s) n (parser_get s) (parser_put s) cs"
    and "list_all (plain_cmd D) cs" "unscheduled_count s = 0" "error_' s = kNoError"
  shows "\<exists>s' dn rest. put_changed_loop (service_env gles2_info gles2_handle lost) s = Some s' \<and>
    cs = dn @ rest \<and> ran s dn s' \<and> executes D dn s s' \<and> sched_inv s' \<and>
    pending_cmds (ring_entries s) n (parser_get s') (parser_put s) rest \<and>
    (error_' s' = kNoError \<longrightarrow> parser_get s' = parser_put s)"
  using assms
proof (induction "ring_dist n (parser_get s) (parser_put s)" arbitrary: s cs rule: less_induct)
  case less
  let ?env = "service_env gles2_info gles2_handle lost"
  show ?case
  proof (cases "parser_get s = parser_put s")
    case True
    then show ?thesis
      using less.prems ran_refl executes.idle [of s s D]
      by (intro exI [of _ s] exI [of _ "[]"] exI [of _ cs]) (simp add: put_changed_loop.simps [of ?env s] IsEmpty_def)
  next
    case False
    obtain e s1 dn rest where p: "ProcessCommand D s = Some (e, s1)" and cs: "cs = dn @ rest"
      and r: "ran s dn s1" "parser_inv s1" "error_' s1 = error_' s" and ex: "executes D dn s s1"
      and pend: "pending_cmds (ring_entries s) n (parser_get s1) (parser_put s) rest"
      and dist: "ring_dist n (parser_get s1) (parser_put s) < ring_dist n (parser_get s) (parser_put s)"
      using round [OF less.prems(1-3) False] by blast
    define s2 where "s2 = s1\<lparr>get_offset_' := parser_get s1\<rparr>"
    note unf = loop_unfold [OF p False, folded s2_def]
    have s2: "ran s dn s2" "sched_inv s2" "parser_get s2 = parser_get s1" "error_' s2 = kNoError"
      using r less.prems(5) by (simp_all add: s2_def sched_inv_def parser_inv_def)
    have ex2: "executes D dn s s2" using executes_idle [OF ex] by (simp add: s2_def)
    show ?thesis
    proof (cases "IsError e")
      case True
      let ?s3 = "SetParseError (\<lambda>s. s) e (SetContextLostReason (lost s2) s2)"
      have s3: "?s3 = s2\<lparr>context_lost_reason_' := lost s2, error_' := e\<rparr>"
        using s2(4) by (simp add: SetParseError_def SetContextLostReason_def Let_def)
      have "ran s dn ?s3" "sched_inv ?s3" "parser_get ?s3 = parser_get s1" "error_' ?s3 \<noteq> kNoError"
        using s2 True by (simp_all add: s3 sched_inv_def parser_inv_def IsError_def)
      moreover have "executes D dn s ?s3" using executes_idle [OF ex2] by (simp add: s3)
      ultimately show ?thesis
        using unf True cs pend by (intro exI [of _ ?s3] exI [of _ dn] exI [of _ rest]) simp
    next
      case ne: False
      have u: "unscheduled_count s2 = 0" "ring_entries s2 = ring_entries s" "parser_put s2 = parser_put s"
        using s2(1) less.prems(4) by (simp_all add: ran_def)
      then have unf2: "put_changed_loop ?env s = put_changed_loop ?env s2" using unf ne by simp
      have "list_all (plain_cmd D) rest" using less.prems(3) cs by simp
      from less.hyps [of s2 rest] this dist pend u s2
      obtain s' dn2 rest2 where "put_changed_loop ?env s2 = Some s'" "rest = dn2 @ rest2" "ran s2 dn2 s'" "sched_inv s'"
        "executes D dn2 s2 s'" "pending_cmds (ring_entries s) n (parser_get s') (parser_put s) rest2"
        "error_' s' = kNoError \<longrightarrow> parser_get s' = parser_put s"
        by auto
      then show ?thesis
        using unf2 cs ran_trans [OF s2(1)] executes_trans [OF _ ex2] by (intro exI [of _ s'] exI [of _ "dn @ dn2"] exI [of _ rest2]) auto
    qed
  qed
qed


lemma PutChanged_runs:
  assumes i: "client_inv s" and p: "pending_cmds (ring_entries s) n (get_offset_' s) (put_offset_' s) cs"
    and pl: "list_all (plain_cmd D) cs"
  shows "\<exists>s' dn rest. PutChanged (service_env gles2_info gles2_handle lost) s = Some s' \<and>
    cs = dn @ rest \<and> client_inv s' \<and> ring_entries s' = ring_entries s \<and>
    token_' s' = token_after (token_' s) dn \<and> executes D dn s s' \<and>
    pending_cmds (ring_entries s) n (get_offset_' s') (put_offset_' s) rest \<and>
    reads_to (get_offset_' s) (put_offset_' s) (get_offset_' s') \<and>
    (error_' s \<noteq> kNoError \<longrightarrow> error_' s' \<noteq> kNoError) \<and>
    (error_' s' = kNoError \<longrightarrow> get_offset_' s' = put_offset_' s)"
proof -
  define s2 where "s2 = s\<lparr>generation_' := u32_add (generation_' s) 1, parser_put := put_offset_' s\<rparr>"
  have pc: "PutChanged (service_env gles2_info gles2_handle lost) s =
      (if error_' s \<noteq> kNoError then Some s2 else put_changed_loop (service_env gles2_info gles2_handle lost) s2)"
    by (simp add: PutChanged_def GetState_def set_put_def Let_def s2_def)
  have g: "get_offset_' s = parser_get s" using i by (simp add: client_inv_def sched_inv_def)
  have ex2: "executes D [] s s2" by (rule executes.idle) (simp add: s2_def)
  show ?thesis
  proof (cases "error_' s = kNoError")
    case False
    have "client_inv s2" using i by (simp add: s2_def client_inv_def sched_inv_def parser_inv_def)
    then show ?thesis
      using False pc p ex2 by (intro exI [of _ s2] exI [of _ "[]"] exI [of _ cs]) (simp add: s2_def reads_to_refl)
  next
    case True
    have "sched_inv s2" using i by (simp add: s2_def client_inv_def sched_inv_def parser_inv_def)
    moreover have "pending_cmds (ring_entries s2) n (parser_get s2) (parser_put s2) cs" "unscheduled_count s2 = 0"
      using p i g by (simp_all add: s2_def client_inv_def)
    ultimately obtain s' dn rest where l: "put_changed_loop (service_env gles2_info gles2_handle lost) s2 = Some s'"
      "cs = dn @ rest" "ran s2 dn s'" "sched_inv s'" and ex: "executes D dn s2 s'" and l2:
      "pending_cmds (ring_entries s2) n (parser_get s') (parser_put s2) rest"
      "error_' s' = kNoError \<longrightarrow> parser_get s' = parser_put s2"
      using loop_runs [of s2 n cs] pl True by (auto simp: s2_def)
    note l = l l2
    have "executes D dn s s'" using executes_trans [OF ex ex2] by simp
    moreover have g': "get_offset_' s' = parser_get s'" using l(4) by (simp add: sched_inv_def)
    moreover have f: "ring_entries s' = ring_entries s" "parser_entry_count s' = parser_entry_count s"
      "num_entries_' s' = num_entries_' s" "token_' s' = token_after (token_' s) dn" "unscheduled_count s' = 0"
      "put_offset_change_callback_' s'" "reads_to (parser_get s) (put_offset_' s) (parser_get s')"
      using l(3) i by (simp_all add: ran_def s2_def client_inv_def)
    moreover from f have "client_inv s'" using l(4) i by (simp add: client_inv_def)
    ultimately show ?thesis
      using True pc l g g' f by (intro exI [of _ s'] exI [of _ dn] exI [of _ rest]) (simp add: s2_def)
  qed
qed

abbreviation "cb \<equiv> service_cb gles2_info gles2_handle lost clk"

lemma service_cb_simps [simp]:
  "cb_Flush cb = Flush (PutChanged (service_env gles2_info gles2_handle lost))"
  "cb_FlushSync cb = FlushSync (PutChanged (service_env gles2_info gles2_handle lost))"
  "cb_get cb s = get_offset_' s" "cb_token cb s = token_' s" "cb_error cb s = error_' s"
  by (simp_all add: service_cb_def Let_def cb_get_def cb_token_def cb_error_def GetLastState_def GetState_def)

lemma Flush_eq:
  assumes i: "client_inv s" and p: "pending_cmds (ring_entries s) n (get_offset_' s) p cs"
    and pl: "list_all (plain_cmd D) cs"
  shows "\<exists>s'. Flush (PutChanged (service_env gles2_info gles2_handle lost)) p s = Some s' \<and>
    flushed cb ring_entries client_inv (executes D) n p cs s s' \<and> (error_' s' = kNoError \<longrightarrow> get_offset_' s' = p)"
proof -
  let ?s = "s\<lparr>put_offset_' := p\<rparr>"
  have b: "0 \<le> p" "p \<le> num_entries_' s" "put_offset_change_callback_' s"
    using i p by (auto simp: client_inv_def sched_inv_def parser_inv_def pending_cmds_def)
  have "client_inv ?s" using i by (simp add: client_inv_def sched_inv_def parser_inv_def)
  moreover have "executes D [] s ?s" by (rule executes.idle) simp
  note executes_trans [OF _ this]
  ultimately show ?thesis using PutChanged_runs [of ?s n cs] p pl b
    by (fastforce simp: Flush_def flushed_def Let_def)
qed

lemma FlushSync_eq:
  assumes i: "client_inv s" and p: "pending_cmds (ring_entries s) n (get_offset_' s) p cs"
    and pl: "list_all (plain_cmd D) cs"
  shows "\<exists>st s'. FlushSync (PutChanged (service_env gles2_info gles2_handle lost)) p lk s = Some (st, s') \<and>
    flushed cb ring_entries client_inv (executes D) n p cs s s' \<and> error st = error_' s' \<and>
    (error_' s' = kNoError \<longrightarrow> get_offset_' s' = p)"
proof -
  obtain s' where f: "Flush (PutChanged (service_env gles2_info gles2_handle lost)) p s = Some s'"
    "flushed cb ring_entries client_inv (executes D) n p cs s s'" "error_' s' = kNoError \<longrightarrow> get_offset_' s' = p"
    using Flush_eq [OF assms] by blast
  let ?s = "s'\<lparr>generation_' := u32_add (generation_' s') 1\<rparr>"
  have b: "0 \<le> p" "p \<le> num_entries_' s" "put_offset_change_callback_' s"
    using i p by (auto simp: client_inv_def sched_inv_def parser_inv_def pending_cmds_def)
  have "FlushSync (PutChanged (service_env gles2_info gles2_handle lost)) p lk s = Some (GetState s')"
    using f(1) b by (simp add: Flush_def FlushSync_def Let_def)
  moreover have "snd (GetState s') = ?s" "error (fst (GetState s')) = error_' s'"
    by (simp_all add: GetState_def Let_def)
  moreover have "flushed cb ring_entries client_inv (executes D) n p cs s ?s"
  proof -
    have "client_inv ?s = client_inv s'" by (simp add: client_inv_def sched_inv_def parser_inv_def)
    then show ?thesis using f(2) executes_idle [of D _ s s' ?s] by (fastforce simp: flushed_def)
  qed
  ultimately show ?thesis using f(3) by (cases "GetState s'") auto
qed

lemma plain_SetToken: "plain_cmd D (SetToken_Init x)"
proof -
  have h: "hd (SetToken_Init x) = header_entry (SetCmd kSetToken)" "length (SetToken_Init x) = 2"
    by (simp_all add: SetToken_Init_def)
  have "DoCommonCommand 1 1 (SetToken_Init x @ data) s = Some (kNoError, s\<lparr>token_' := sint x\<rparr>)" for data and s :: "'a client_world_scheme"
    by (simp add: DoCommonCommand_known args_match_def HandleSetToken_def engine_set_token_def Service_SetToken_def
        SetToken_Init_def)
  moreover have "token_step t (SetToken_Init x) = sint x" for t
    by (simp add: token_step_def is_set_token_Init) (simp add: SetToken_Init_def)
  ultimately show ?thesis
    by (simp add: plain_cmd_def h SetCmd_size common_dispatch) (simp add: SetToken_Init_def)
qed

end

sublocale service_loop \<subseteq> client: live_command_buffer cb ring_entries client_inv "plain_cmd D" "executes D"
proof
  fix w :: "'a client_world_scheme" and n p cs
  assume i: "client_inv w" "pending_cmds (ring_entries w) n (cb_get cb w) p cs" "list_all (plain_cmd D) cs"
  note F = Flush_eq [OF i(1) i(2) [simplified] i(3)] and S = FlushSync_eq [OF i(1) i(2) [simplified] i(3)]
  show "cb_Flush cb p w = Some w' \<Longrightarrow> flushed cb ring_entries client_inv (executes D) n p cs w w'" for w' using F by auto
  show "\<exists>w'. cb_Flush cb p w = Some w'" using F by auto
  show "\<exists>st w'. cb_FlushSync cb p lk w = Some (st, w')" for lk using S [of lk] by auto
  show "cb_FlushSync cb p lk w = Some (st, w') \<Longrightarrow>
      flushed cb ring_entries client_inv (executes D) n p cs w w' \<and> error st = cb_error cb w'" for lk st w'
    using S [of lk] by auto
  show "ring_dist n (cb_get cb w') p < ring_dist n (cb_get cb w) p"
    if "cb_FlushSync cb p lk w = Some (st, w')" "error st = kNoError" "cb_get cb w \<noteq> p" for lk st w'
  proof -
    have "get_offset_' w' = p" using S [of lk] that(1,2) by auto
    moreover have "0 < ring_dist n (get_offset_' w) p"
      using that(3) i(2) by (auto simp: ring_dist_def pending_cmds_def)
    ultimately show ?thesis by (simp add: ring_dist_def)
  qed
next
  fix c
  assume "plain_cmd D c"
  then show "c \<noteq> []" by (simp add: plain_cmd_def)
next
  show "plain_cmd D (SetToken_Init x)" for x by (rule plain_SetToken)
next
  fix w :: "'a client_world_scheme" and i and es :: "CommandBufferEntry list"
  assume "client_inv w" "0 \<le> i" "i + int (length es) \<le> int (length (ring_entries w))"
  then show "client_inv (cb_write cb i es w) \<and> ring_entries (cb_write cb i es w) = ring_write (ring_entries w) i es \<and>
      cb_GetLastState cb (cb_write cb i es w) = cb_GetLastState cb w \<and> executes D [] w (cb_write cb i es w)"
    by (simp add: service_cb_def Let_def client_inv_def sched_inv_def parser_inv_def length_ring_write
        GetLastState_def GetState_def executes.idle)
next
  fix w :: "'a client_world_scheme" and t w'
  assume "client_inv w" "cb_clock cb w = (t, w')"
  then show "client_inv w' \<and> ring_entries w' = ring_entries w \<and> cb_GetLastState cb w' = cb_GetLastState cb w \<and>
      executes D [] w w'"
    by (auto simp: service_cb_def Let_def client_inv_def sched_inv_def parser_inv_def GetLastState_def GetState_def
        intro: executes.idle)
next
  show "executes D [] w w" for w :: "'a client_world_scheme" by (simp add: executes.idle)
next
  show "executes D xs w w' \<Longrightarrow> executes D ys w' w'' \<Longrightarrow> executes D (xs @ ys) w w''"
    for xs ys and w w' w'' :: "'a client_world_scheme"
    by (rule executes_trans)
qed

section \<open>The helper on the service\<close>

abbreviation "gles2_plain gles2_info gles2_handle \<equiv> plain_cmd (GLES2Decoder_DoCommand gles2_info gles2_handle)"

definition client_ok :: "(ArgFlags \<times> nat) list \<Rightarrow> (nat \<Rightarrow> 'a client_world_scheme handler) \<Rightarrow>
    ('a client_world_scheme \<Rightarrow> ContextLostReason) \<Rightarrow> (nat \<Rightarrow> int) \<Rightarrow>
    'a client_world_scheme CommandBufferHelper \<Rightarrow> CommandBufferEntry list list \<Rightarrow> bool" where
  "client_ok gles2_info gles2_handle lost clk =
     helper_ok (service_cb gles2_info gles2_handle lost clk) ring_entries client_inv (gles2_plain gles2_info gles2_handle)"

definition client_token_ok :: "(ArgFlags \<times> nat) list \<Rightarrow> (nat \<Rightarrow> 'a client_world_scheme handler) \<Rightarrow>
    ('a client_world_scheme \<Rightarrow> ContextLostReason) \<Rightarrow> (nat \<Rightarrow> int) \<Rightarrow>
    'a client_world_scheme CommandBufferHelper \<Rightarrow> CommandBufferEntry list list \<Rightarrow> bool" where
  "client_token_ok gles2_info gles2_handle lost clk =
     token_ok (service_cb gles2_info gles2_handle lost clk) ring_entries client_inv (gles2_plain gles2_info gles2_handle)"

definition service_error :: "'a client_world_scheme CommandBufferHelper \<Rightarrow> Error" where
  "service_error h = error_' (command_buffer_' h)"

context service_loop
begin

lemma helper_issue:
  assumes ok: "client_ok gles2_info gles2_handle lost clk h cs"
    and img: "plain_cmd D img" "int (length img) < usable_entry_count_' h"
  shows "\<exists>sp h'. GetSpace cb (length img) h = Some (sp, h') \<and>
    (service_error h' = kNoError \<longrightarrow>
      0 \<le> sp \<and> sp + int (length img) \<le> usable_entry_count_' h \<and>
      (\<exists>dn rest. cs = dn @ rest \<and> client_ok gles2_info gles2_handle lost clk (write_at cb sp img h') (rest @ [img]) \<and>
         last_token_read cb h' = token_after (last_token_read cb h) dn))"
proof -
  note ok' = ok [unfolded client_ok_def]
  obtain sp h' where g: "GetSpace cb (length img) h = Some (sp, h')"
    using client.GetSpace_returns [OF ok' img(2)] by auto
  have len: "0 < length img" using img(1) by (simp add: plain_cmd_def)
  show ?thesis
  proof (rule exI [of _ sp], rule exI [of _ h'], intro conjI impI)
    show "GetSpace cb (length img) h = Some (sp, h')" by (rule g)
    assume "service_error h' = kNoError"
    then have e: "cb_error cb (command_buffer_' h') = kNoError" by (simp add: service_error_def)
    obtain dn1 rest1 where 2: "cs = dn1 @ rest1" "0 \<le> sp" "sp + int (length img) \<le> usable_entry_count_' h"
      "worked_on cb (executes D) h dn1 h'"
      and wr: "\<forall>im w. length im = length img \<longrightarrow> plain_cmd D im \<longrightarrow> client_inv w \<longrightarrow>
       ring_entries w = ring_write (ring_entries (command_buffer_' h')) sp im \<longrightarrow>
       cb_GetLastState cb w = cb_GetLastState cb (command_buffer_' h') \<longrightarrow>
       helper_ok cb ring_entries client_inv (plain_cmd D) (h'\<lparr>command_buffer_' := w\<rparr>) (rest1 @ [im])"
      and inv: "client_inv (command_buffer_' h')"
        "int (length (ring_entries (command_buffer_' h'))) = usable_entry_count_' h + 2"
      using client.GetSpace_ok [OF ok' len img(2) g e] by blast
    show "0 \<le> sp" "sp + int (length img) \<le> usable_entry_count_' h" using 2 by simp_all
    have "helper_ok cb ring_entries client_inv (plain_cmd D) (write_at cb sp img h') (rest1 @ [img])"
      using wr img(1) client.write_law [OF inv(1) 2(2), of img] 2(3) inv(2) by (simp add: write_at_def)
    then show "\<exists>dn rest. cs = dn @ rest \<and>
        client_ok gles2_info gles2_handle lost clk (write_at cb sp img h') (rest @ [img]) \<and>
        last_token_read cb h' = token_after (last_token_read cb h) dn"
      using 2(1,4) by (intro exI [of _ dn1] exI [of _ rest1]) (simp add: client_ok_def worked_on_def)
  qed
qed

lemma helper_finish:
  assumes "client_ok gles2_info gles2_handle lost clk h cs"
  shows "\<exists>ok h'. Finish cb h = Some (ok, h') \<and>
    (if ok then client_ok gles2_info gles2_handle lost clk h' [] \<and>
       executes D cs (command_buffer_' h) (command_buffer_' h') \<and>
       get_offset_' (command_buffer_' h') = put_' h' \<and>
       last_token_read cb h' = token_after (last_token_read cb h) cs
     else service_error h' \<noteq> kNoError)"
proof -
  note ok' = assms [unfolded client_ok_def]
  obtain ok h' where f: "Finish cb h = Some (ok, h')" using client.Finish_returns [OF ok'] by auto
  obtain dn rest where "cs = dn @ rest" "helper_ok cb ring_entries client_inv (plain_cmd D) h' rest"
    "worked cb (executes D) h dn h'"
    "if ok then rest = [] \<and> cb_get cb (command_buffer_' h') = put_' h'
     else cb_error cb (command_buffer_' h') \<noteq> kNoError"
    using client.Finish_ok [OF ok' f] by blast
  then show ?thesis
    using f by (intro exI [of _ ok] exI [of _ h']) (auto simp: client_ok_def worked_def worked_on_def service_error_def)
qed

lemma helper_wait:
  assumes "client_token_ok gles2_info gles2_handle lost clk h cs"
  shows "\<exists>h' dn rest. WaitForToken cb t h = Some h' \<and> cs = dn @ rest \<and>
    client_token_ok gles2_info gles2_handle lost clk h' rest \<and>
    last_token_read cb h' = token_after (last_token_read cb h) dn \<and>
    (0 \<le> t \<longrightarrow> t \<le> helper_token_' h \<longrightarrow> t \<le> last_token_read cb h' \<or> service_error h' \<noteq> kNoError)"
proof -
  note ok' = assms [unfolded client_token_ok_def]
  have "helper_ok cb ring_entries client_inv (plain_cmd D) h cs" using ok' by (simp add: token_ok_def)
  then obtain h' where w: "WaitForToken cb t h = Some h'" using client.WaitForToken_returns by blast
  obtain dn rest where "cs = dn @ rest" "token_ok cb ring_entries client_inv (plain_cmd D) h' rest"
    "worked cb (executes D) h dn h'" "token_passed cb t h'"
    using client.WaitForToken_ok [OF ok' w] by blast
  then show ?thesis
    using w by (intro exI [of _ h'] exI [of _ dn] exI [of _ rest])
      (auto simp: client_token_ok_def worked_def worked_on_def same_client_def token_passed_def service_error_def)
qed

lemma helper_insert:
  assumes "client_token_ok gles2_info gles2_handle lost clk h cs" "2 < usable_entry_count_' h"
    and "GetCmdSpace cb kSetToken (h\<lparr>helper_token_' := (helper_token_' h + 1) mod 2 ^ 31\<rparr>) = Some (sp, h1)"
    and "service_error h1 = kNoError" "InsertToken cb h = Some (t, h')"
  shows "t = (helper_token_' h + 1) mod 2 ^ 31 \<and> helper_token_' h' = t \<and>
    (\<exists>rest. client_token_ok gles2_info gles2_handle lost clk h' rest)"
  using client.InsertToken_ok [OF assms(1) [unfolded client_token_ok_def] assms(2,3) _ assms(5)] assms(4)
  by (simp add: service_error_def client_token_ok_def)

text \<open>After an error the helper still hands out space, and not inside the buffer.\<close>

lemma helper_overrun:
  assumes ok: "client_ok gles2_info gles2_handle lost clk h cs" and e: "service_error h \<noteq> kNoError"
    and k: "put_' h + int k > usable_entry_count_' h" "int k < usable_entry_count_' h" and b: "wrap_blocked cb h"
  shows "\<exists>h'. GetSpace cb k h = Some (put_' h, h')"
proof -
  define h0 where "h0 = h\<lparr>commands_issued_' := i32 (commands_issued_' h + 1)\<rparr>"
  have h0: "helper_ok cb ring_entries client_inv (plain_cmd D) h0 cs"
    using ok by (simp add: client_ok_def h0_def helper_ok_def)
  have i: "i32 (int k) = int k" using ok k by (simp add: client_ok_def helper_ok_def)
  obtain r h1 where f: "Helper_FlushSync cb h0 = Some (r, h1)" using client.FlushSync_live [OF h0] by blast
  have "\<not> r" "put_' h1 = put_' h"
    using client.FlushSync_ok [OF h0 f] e by (auto simp: worked_def worked_on_def h0_def service_error_def)
  moreover have "wrap_blocked cb h0" using b by (simp add: h0_def wrap_blocked_def helper_get_offset_def)
  ultimately have "flush_while cb (wrap_blocked cb) h0 = Some (False, h1)"
    using f by (simp add: flush_while.simps [of cb "wrap_blocked cb" h0])
  then have "WaitForAvailableEntries cb (int k) h0 = Some h1"
    using k(1) by (simp add: WaitForAvailableEntries_def h0_def)
  then show ?thesis using \<open>put_' h1 = put_' h\<close> by (simp add: GetSpace_def i h0_def [symmetric] Let_def)
qed

lemma client_alloc:
  assumes "client_token_ok gles2_info gles2_handle lost clk h cs" "fa_inv n bs"
  shows "\<exists>off bs' h' rest. FencedAllocator_Alloc (token_ops cb) sz bs h = Some (off, bs', h') \<and>
    alloc_post (token_passed cb) n (max 1 sz) bs off bs' h' \<and>
    client_token_ok gles2_info gles2_handle lost clk h' rest"
proof -
  have h: "helper_inv cb ring_entries client_inv (plain_cmd D) h"
    using assms(1) by (auto simp: helper_inv_def client_token_ok_def)
  obtain off bs' h' where a: "FencedAllocator_Alloc (token_ops cb) sz bs h = Some (off, bs', h')"
    using client.live_tokens.Alloc_returns [OF h, of sz bs] by auto
  note spec = client.tokens.Alloc_spec [OF a assms(2) h]
  show ?thesis using a spec(1,2) by (auto simp: helper_inv_def client_token_ok_def)
qed

end

section \<open>A sample client\<close>

text \<open>
  A ring buffer of 34 entries, 32 of them usable, that holds a token command which is issued and
  not yet flushed; there are no GLES2 commands.
\<close>

definition sample_client :: "client_world CommandBufferHelper" where
  "sample_client = \<lparr>command_buffer_' =
     \<lparr>ring_buffer_' = \<lparr>buf_ptr = Some 9, buf_size = 136, buf_shared_memory = Some 9\<rparr>,
      ring_entries = SetToken_Init 1 @ replicate 32 0, num_entries_' = 34,
      get_offset_' = 0, put_offset_' = 0, put_offset_change_callback_' = True,
      parse_error_callback_' = False, registered_objects_' = [null_buffer],
      unused_registered_object_elements_' = {}, token_' = 0, generation_' = 0, error_' = kNoError,
      context_lost_reason_' = kUnknown, parser_get = 0, parser_put = 0, parser_entry_count = 34,
      unscheduled_count = 0, scheduled_callback = False, command_processed_callback = False,
      buckets = (\<lambda>_. None), call_stack = [], shm_data = (\<lambda>_. []),
      current_decoder_error = kNoError, ticks = 0\<rparr>,
     helper_ring_buffer_' = \<lparr>buf_ptr = Some 9, buf_size = 136, buf_shared_memory = Some 9\<rparr>,
     total_entry_count_' = 34, usable_entry_count_' = 32, helper_token_' = 1, put_' = 2,
     last_put_sent_' = 0, commands_issued_' = 1, last_flush_time_' = 0\<rparr>"

abbreviation no_handle :: "nat \<Rightarrow> 'a client_world_scheme handler" where
  "no_handle \<equiv> \<lambda>_ _ _ s. (kUnknownCommand, s)"

abbreviation "sample_cb \<equiv> service_cb [] no_handle (\<lambda>_. kUnknown) (\<lambda>_. 0)"

interpretation plain_service: service_loop "[]" no_handle "\<lambda>_. kUnknown" "\<lambda>_. 0"
  by unfold_locales simp_all

lemma sample_client_pending:
  "pending_cmds (SetToken_Init 1 @ replicate 32 0) 32 0 2 [SetToken_Init 1]"
  by (auto simp: pending_cmds_def seg_def SetToken_Init_def less_Suc_eq nth_Cons')

lemma sample_client_ok: "client_ok [] no_handle (\<lambda>_. kUnknown) (\<lambda>_. 0) sample_client [SetToken_Init 1]"
  using sample_client_pending plain_service.plain_SetToken
  by (simp add: client_ok_def helper_ok_def sample_client_def client_inv_def sched_inv_def parser_inv_def
      SetToken_Init_def)

lemma sample_last_token: "last_token_read sample_cb sample_client = 0"
  by (simp add: last_token_read_def service_cb_def Let_def GetLastState_def GetState_def sample_client_def)

lemma sample_client_token_ok:
  "client_token_ok [] no_handle (\<lambda>_. kUnknown) (\<lambda>_. 0) sample_client [SetToken_Init 1]"
proof -
  have "token_step 0 (SetToken_Init 1) = 1"
    using token_step_Init [of 1 0] by simp
  then show ?thesis
    using sample_client_ok
    by (simp add: client_token_ok_def client_ok_def token_ok_def sample_last_token)
      (simp add: sample_client_def)
qed

section \<open>Properties\<close>

lemma service_loopI:
  assumes "\<And>c n args s. handler_frame s (snd (gles2_handle c n args s))" "length gles2_info \<le> 4294967040"
  shows "service_loop gles2_info gles2_handle"
  using assms by (intro service_loop.intro gles2_handlers.intro service_loop_axioms.intro) auto

text \<open>
  C6: Issuing a command always returns. Unless the service reports an error, the space lies inside
  the usable part of the ring buffer, some of the pending commands have been executed from the
  front, and the new command is appended behind the remaining ones, none of which is written over;
  wrap-around is invisible.
\<close>

theorem helper_issue_appends:
  assumes "\<And>c n args s. handler_frame s (snd (gles2_handle c n args s))" "length gles2_info \<le> 4294967040"
    and "client_ok gles2_info gles2_handle lost clk h cs"
    and "gles2_plain gles2_info gles2_handle img" "int (length img) < usable_entry_count_' h"
  shows "\<exists>sp h'. GetSpace (service_cb gles2_info gles2_handle lost clk) (length img) h = Some (sp, h') \<and>
    (service_error h' = kNoError \<longrightarrow>
      0 \<le> sp \<and> sp + int (length img) \<le> usable_entry_count_' h \<and>
      (\<exists>dn rest. cs = dn @ rest \<and>
         client_ok gles2_info gles2_handle lost clk
           (write_at (service_cb gles2_info gles2_handle lost clk) sp img h') (rest @ [img]) \<and>
         last_token_read (service_cb gles2_info gles2_handle lost clk) h' =
           token_after (last_token_read (service_cb gles2_info gles2_handle lost clk) h) dn))"
  by (rule service_loop.helper_issue [OF service_loopI [OF assms(1,2)] assms(3-5)])

theorem helper_issue_appends_witness:
  "\<exists>sp h'. GetSpace sample_cb 2 sample_client = Some (sp, h') \<and>
    (service_error h' = kNoError \<longrightarrow> 0 \<le> sp \<and> sp + 2 \<le> 32)"
proof -
  have f: "\<And>c n args s. handler_frame s (snd (no_handle c n args (s :: client_world)))" by simp
  have u: "usable_entry_count_' sample_client = 32" by (simp add: sample_client_def)
  have l: "length (SetToken_Init 2) = 2" by (simp add: SetToken_Init_def)
  from helper_issue_appends [OF f _ sample_client_ok plain_service.plain_SetToken [of 2]]
  show ?thesis unfolding l u by auto
qed

text \<open>
  C12: \<^verbatim>\<open>Finish\<close> returns. If it reports success, the decoder was called for all pending commands, each
  exactly once and in their order, with the entries the client wrote, nothing else changed the
  service's state, and the service has reached the put offset; otherwise it reports an error.
\<close>

theorem finish_executes_all:
  assumes "\<And>c n args s. handler_frame s (snd (gles2_handle c n args s))" "length gles2_info \<le> 4294967040"
    and "client_ok gles2_info gles2_handle lost clk h cs"
  shows "\<exists>ok h'. Finish (service_cb gles2_info gles2_handle lost clk) h = Some (ok, h') \<and>
    (if ok then client_ok gles2_info gles2_handle lost clk h' [] \<and>
       executes (GLES2Decoder_DoCommand gles2_info gles2_handle) cs (command_buffer_' h) (command_buffer_' h') \<and>
       get_offset_' (command_buffer_' h') = put_' h' \<and>
       last_token_read (service_cb gles2_info gles2_handle lost clk) h' =
         token_after (last_token_read (service_cb gles2_info gles2_handle lost clk) h) cs
     else service_error h' \<noteq> kNoError)"
  by (rule service_loop.helper_finish [OF service_loopI [OF assms(1,2)] assms(3)])

theorem finish_executes_all_witness:
  "\<exists>ok h'. Finish sample_cb sample_client = Some (ok, h') \<and>
    (if ok then last_token_read sample_cb h' = 1 else service_error h' \<noteq> kNoError)"
proof -
  have f: "\<And>c n args s. handler_frame s (snd (no_handle c n args (s :: client_world)))" by simp
  obtain ok h' where "Finish sample_cb sample_client = Some (ok, h')"
    "if ok then client_ok [] no_handle (\<lambda>_. kUnknown) (\<lambda>_. 0) h' [] \<and> get_offset_' (command_buffer_' h') = put_' h' \<and>
       last_token_read sample_cb h' = token_after (last_token_read sample_cb sample_client) [SetToken_Init 1]
     else service_error h' \<noteq> kNoError"
    using finish_executes_all [OF f _ sample_client_ok] by auto
  then show ?thesis
    using token_step_Init [of 1 0] by (intro exI [of _ ok] exI [of _ h']) (auto simp: sample_last_token)
qed

text \<open>
  C27: \<^verbatim>\<open>WaitForToken\<close> returns, and a token that was issued has then been read by the service, so that
  every command issued before it has been executed, unless the service reports an error. It never
  reaches the fatal message about an empty command buffer.
\<close>

theorem wait_for_token_passes:
  assumes "\<And>c n args s. handler_frame s (snd (gles2_handle c n args s))" "length gles2_info \<le> 4294967040"
    and "client_token_ok gles2_info gles2_handle lost clk h cs"
  shows "\<exists>h' dn rest. WaitForToken (service_cb gles2_info gles2_handle lost clk) t h = Some h' \<and> cs = dn @ rest \<and>
    client_token_ok gles2_info gles2_handle lost clk h' rest \<and>
    last_token_read (service_cb gles2_info gles2_handle lost clk) h' =
      token_after (last_token_read (service_cb gles2_info gles2_handle lost clk) h) dn \<and>
    (0 \<le> t \<longrightarrow> t \<le> helper_token_' h \<longrightarrow>
      t \<le> last_token_read (service_cb gles2_info gles2_handle lost clk) h' \<or> service_error h' \<noteq> kNoError)"
  by (rule service_loop.helper_wait [OF service_loopI [OF assms(1,2)] assms(3)])

theorem wait_for_token_passes_witness:
  "\<exists>h'. WaitForToken sample_cb 1 sample_client = Some h' \<and>
    (1 \<le> last_token_read sample_cb h' \<or> service_error h' \<noteq> kNoError)"
proof -
  have f: "\<And>c n args s. handler_frame s (snd (no_handle c n args (s :: client_world)))" by simp
  have "helper_token_' sample_client = 1" by (simp add: sample_client_def)
  with wait_for_token_passes [OF f _ sample_client_token_ok, of 1] show ?thesis by auto
qed

text \<open>
  \<^verbatim>\<open>InsertToken\<close> issues the next token (modulo \<open>2^31\<close>) and keeps the tokens in the command stream
  ascending, also when the counter wraps, unless there is an error.
\<close>

theorem insert_token_keeps_order:
  assumes "\<And>c n args s. handler_frame s (snd (gles2_handle c n args s))" "length gles2_info \<le> 4294967040"
    and "client_token_ok gles2_info gles2_handle lost clk h cs" "2 < usable_entry_count_' h"
    and "GetCmdSpace (service_cb gles2_info gles2_handle lost clk) kSetToken
      (h\<lparr>helper_token_' := (helper_token_' h + 1) mod 2 ^ 31\<rparr>) = Some (sp, h1)"
    and "service_error h1 = kNoError"
    and "InsertToken (service_cb gles2_info gles2_handle lost clk) h = Some (t, h')"
  shows "t = (helper_token_' h + 1) mod 2 ^ 31 \<and> helper_token_' h' = t \<and>
    (\<exists>rest. client_token_ok gles2_info gles2_handle lost clk h' rest)"
  by (rule service_loop.helper_insert [OF service_loopI [OF assms(1,2)] assms(3-7)])

text \<open>The witness computes the calls on the sample client.\<close>

lemma sample_space:
  "GetCmdSpace sample_cb kSetToken (sample_client\<lparr>helper_token_' := 2\<rparr>) =
     Some (2, sample_client\<lparr>helper_token_' := 2, commands_issued_' := 2, put_' := 4\<rparr>)"
proof -
  let ?h = "sample_client\<lparr>helper_token_' := 2, commands_issued_' := 2\<rparr>"
  have g: "helper_get_offset sample_cb ?h = 0"
    by (simp add: helper_get_offset_def service_cb_def Let_def GetLastState_def GetState_def sample_client_def)
  have a: "AvailableEntries sample_cb ?h = 29"
    by (simp add: AvailableEntries_def g) (simp add: sample_client_def smod_nonneg)
  have "maybe_flush sample_cb ?h = Some ?h"
    by (simp add: maybe_flush_def g Let_def)
      (simp add: sample_client_def smod_nonneg signed_divide_int_def kCommandsPerFlushCheck_def)
  moreover have "flush_while sample_cb (\<lambda>h. AvailableEntries sample_cb h < 2) ?h = Some (True, ?h)"
    by (simp add: flush_while.simps [of _ _ ?h] a)
  ultimately have "WaitForAvailableEntries sample_cb 2 ?h = Some ?h"
    by (simp add: WaitForAvailableEntries_def) (simp add: sample_client_def)
  moreover have "ComputeNumEntries (sizeof_cmd kSetToken) = 2" by (simp add: ComputeNumEntries_eq)
  moreover have "sample_client\<lparr>helper_token_' := 2, commands_issued_' := i32 (commands_issued_' sample_client + 1)\<rparr> = ?h"
    by (simp add: sample_client_def)
  ultimately show ?thesis
    by (simp add: GetCmdSpace_def GetSpace_def Let_def) (simp add: sample_client_def)
qed

theorem insert_token_keeps_order_witness:
  "\<exists>t h'. InsertToken sample_cb sample_client = Some (t, h') \<and> t = 2 \<and> helper_token_' h' = 2"
proof -
  have f: "\<And>c n args s. handler_frame s (snd (no_handle c n args (s :: client_world)))" by simp
  have s: "helper_token_' sample_client = 1" "usable_entry_count_' sample_client = 32"
    by (simp_all add: sample_client_def)
  let ?h1 = "sample_client\<lparr>helper_token_' := 2, commands_issued_' := 2, put_' := 4\<rparr>"
  have e: "service_error ?h1 = kNoError" by (simp add: service_error_def sample_client_def)
  have g: "GetCmdSpace sample_cb kSetToken
      (sample_client\<lparr>helper_token_' := (helper_token_' sample_client + 1) mod 2 ^ 31\<rparr>) = Some (2, ?h1)"
    using sample_space by (simp add: s)
  obtain t h' where i: "InsertToken sample_cb sample_client = Some (t, h')"
    using sample_space by (simp add: InsertToken_def s init_cmd_def write_at_def)
  from insert_token_keeps_order [OF f _ sample_client_token_ok _ g e i] i s show ?thesis by simp
qed

text \<open>
  C40: Once the service reports an error, \<^verbatim>\<open>GetSpace\<close> no longer checks anything: when it would have to
  wait for the reader before wrapping, it returns the old put offset, so that the command is
  written beyond the usable entries.
\<close>

theorem getspace_overruns_after_error:
  assumes "\<And>c n args s. handler_frame s (snd (gles2_handle c n args s))" "length gles2_info \<le> 4294967040"
    and "client_ok gles2_info gles2_handle lost clk h cs" "service_error h \<noteq> kNoError"
    and "put_' h + int k > usable_entry_count_' h" "int k < usable_entry_count_' h"
    and "wrap_blocked (service_cb gles2_info gles2_handle lost clk) h"
  shows "\<exists>sp h'. GetSpace (service_cb gles2_info gles2_handle lost clk) k h = Some (sp, h') \<and>
    sp + int k > usable_entry_count_' h"
  using service_loop.helper_overrun [OF service_loopI [OF assms(1,2)] assms(3-7)] assms(5) by auto

theorem getspace_overruns_after_error_witness:
  "let h = sample_client\<lparr>command_buffer_' := (command_buffer_' sample_client)\<lparr>error_' := kLostContext\<rparr>\<rparr> in
   \<exists>sp h'. GetSpace sample_cb 31 h = Some (sp, h') \<and> sp + 31 > usable_entry_count_' h"
  unfolding Let_def
proof -
  let ?h = "sample_client\<lparr>command_buffer_' := (command_buffer_' sample_client)\<lparr>error_' := kLostContext\<rparr>\<rparr>"
  have f: "\<And>c n args s. handler_frame s (snd (no_handle c n args (s :: client_world)))" by simp
  have ok: "client_ok [] no_handle (\<lambda>_. kUnknown) (\<lambda>_. 0) ?h [SetToken_Init 1]"
    using sample_client_pending plain_service.plain_SetToken
    by (simp add: client_ok_def helper_ok_def sample_client_def client_inv_def sched_inv_def parser_inv_def
        SetToken_Init_def)
  have s: "service_error ?h \<noteq> kNoError" "put_' ?h + int 31 > usable_entry_count_' ?h" "int 31 < usable_entry_count_' ?h"
    by (simp_all add: service_error_def sample_client_def)
  have w: "wrap_blocked sample_cb ?h"
    by (simp add: wrap_blocked_def helper_get_offset_def service_cb_def Let_def GetLastState_def GetState_def
        sample_client_def)
  from getspace_overruns_after_error [OF f _ ok s w] show
    "\<exists>sp h'. GetSpace sample_cb 31 ?h = Some (sp, h') \<and> sp + 31 > usable_entry_count_' ?h" by simp
qed

text \<open>
  C13: An allocator in shared memory on top of the helper: an allocation returns, and what it hands out
  overlaps no live allocation, and no freed block whose token the service has not read yet, unless
  the service reports an error.
\<close>

theorem fenced_alloc_on_service:
  assumes "\<And>c n args s. handler_frame s (snd (gles2_handle c n args s))" "length gles2_info \<le> 4294967040"
    and "client_token_ok gles2_info gles2_handle lost clk h cs" "fa_inv n bs"
  shows "\<exists>off bs' h' rest.
    FencedAllocator_Alloc (token_ops (service_cb gles2_info gles2_handle lost clk)) sz bs h = Some (off, bs', h') \<and>
    alloc_post (token_passed (service_cb gles2_info gles2_handle lost clk)) n (max 1 sz) bs off bs' h' \<and>
    client_token_ok gles2_info gles2_handle lost clk h' rest"
  by (rule service_loop.client_alloc [OF service_loopI [OF assms(1,2)] assms(3,4)])

theorem fenced_alloc_on_service_witness:
  "\<exists>off bs' h'. FencedAllocator_Alloc (token_ops sample_cb) 12
     [\<lparr>blk_state = FREE_PENDING_TOKEN, blk_offset = 0, blk_size = 16, blk_token = 1\<rparr>] sample_client =
       Some (off, bs', h') \<and> alloc_post (token_passed sample_cb) 16 12
     [\<lparr>blk_state = FREE_PENDING_TOKEN, blk_offset = 0, blk_size = 16, blk_token = 1\<rparr>] off bs' h'"
proof -
  have f: "\<And>c n args s. handler_frame s (snd (no_handle c n args (s :: client_world)))" by simp
  have i: "fa_inv 16 [\<lparr>blk_state = FREE_PENDING_TOKEN, blk_offset = 0, blk_size = 16, blk_token = 1\<rparr>]"
    by (simp add: fa_inv_def)
  from fenced_alloc_on_service [OF f _ sample_client_token_ok i, of 12] show ?thesis by auto
qed

end
