(* ===== verification/Ring_Buffer.thy ===== *)
theory Ring_Buffer
  imports Token_Interface
begin

text \<open>
  \<^verbatim>\<open>client/ring_buffer.{h,cc}\<close>: the client's allocator for short-lived transfers. Blocks are handed out
  and reclaimed in the same order around a ring; a freed block waits for its token before its memory
  is used again. The helper is the record of \<open>Token_Interface\<close>. \<^const>\<open>None\<close> means that a call does not
  return, or that it takes the front of an empty deque.
\<close>

datatype RingBuffer_State = RB_IN_USE | RB_PADDING | RB_FREE_PENDING_TOKEN

record RingBuffer_Block =
  rb_offset :: nat
  rb_size :: nat
  rb_token :: nat
  rb_state :: RingBuffer_State

definition RingBuffer_Block_new :: "nat \<Rightarrow> nat \<Rightarrow> RingBuffer_State \<Rightarrow> RingBuffer_Block" where
  "RingBuffer_Block_new offset sz state = \<lparr>rb_offset = offset, rb_size = sz, rb_token = 0, rb_state = state\<rparr>"

record RingBuffer =
  blocks_' :: "RingBuffer_Block list"
  base_offset_' :: nat
  size_' :: nat
  free_offset_' :: nat
  in_use_offset_' :: nat

definition RingBuffer_new :: "nat \<Rightarrow> nat \<Rightarrow> RingBuffer" where
  "RingBuffer_new base_offset sz =
     \<lparr>blocks_' = [], base_offset_' = base_offset, size_' = sz, free_offset_' = 0, in_use_offset_' = 0\<rparr>"

definition FreeOldestBlock :: "'h token_if \<Rightarrow> RingBuffer \<Rightarrow> 'h \<Rightarrow> (RingBuffer \<times> 'h) option" where
  "FreeOldestBlock ops rb h =
     (case blocks_' rb of
        [] \<Rightarrow> None
      | block # blocks \<Rightarrow>
          map_option
            (\<lambda>h1. let in_use = u32_add (in_use_offset_' rb) (rb_size block);
                      in_use = (if in_use = size_' rb then 0 else in_use) in
                  (if in_use = free_offset_' rb
                   then rb\<lparr>blocks_' := blocks, in_use_offset_' := 0, free_offset_' := 0\<rparr>
                   else rb\<lparr>blocks_' := blocks, in_use_offset_' := in_use\<rparr>, h1))
            (if rb_state block = RB_FREE_PENDING_TOKEN then tok_wait ops (i32 (int (rb_token block))) h
             else Some h))"

text \<open>The destructor.\<close>

partial_function (option) RingBuffer_delete :: "'h token_if \<Rightarrow> RingBuffer \<Rightarrow> 'h \<Rightarrow> 'h option" where
  "RingBuffer_delete ops rb h =
     (if blocks_' rb = [] then Some h
      else Option.bind (FreeOldestBlock ops rb h) (\<lambda>(rb1, h1). RingBuffer_delete ops rb1 h1))"

definition GetLargestFreeSizeNoWaiting :: "RingBuffer \<Rightarrow> nat" where
  "GetLargestFreeSizeNoWaiting rb =
     (if free_offset_' rb = in_use_offset_' rb
      then (if blocks_' rb = [] then size_' rb else 0)
      else if free_offset_' rb > in_use_offset_' rb
      then max (u32_sub (size_' rb) (free_offset_' rb)) (in_use_offset_' rb)
      else u32_sub (in_use_offset_' rb) (free_offset_' rb))"

definition RingBuffer_GetLargestFreeOrPendingSize :: "RingBuffer \<Rightarrow> nat" where
  "RingBuffer_GetLargestFreeOrPendingSize rb = size_' rb"

partial_function (option) alloc_make_room ::
    "'h token_if \<Rightarrow> nat \<Rightarrow> RingBuffer \<Rightarrow> 'h \<Rightarrow> (RingBuffer \<times> 'h) option" where
  "alloc_make_room ops sz rb h =
     (if sz > GetLargestFreeSizeNoWaiting rb
      then Option.bind (FreeOldestBlock ops rb h) (\<lambda>(rb1, h1). alloc_make_room ops sz rb1 h1)
      else Some (rb, h))"

definition alloc_place :: "nat \<Rightarrow> RingBuffer \<Rightarrow> nat \<times> RingBuffer" where
  "alloc_place sz rb =
     (let rb1 = (if u32_add sz (free_offset_' rb) > size_' rb
                 then rb\<lparr>blocks_' := blocks_' rb @
                            [RingBuffer_Block_new (free_offset_' rb) (u32_sub (size_' rb) (free_offset_' rb)) RB_PADDING],
                         free_offset_' := 0\<rparr>
                 else rb);
          offset = free_offset_' rb1;
          free = u32_add offset sz in
      (u32_add offset (base_offset_' rb1),
       rb1\<lparr>blocks_' := blocks_' rb1 @ [RingBuffer_Block_new offset sz RB_IN_USE],
           free_offset_' := (if free = size_' rb1 then 0 else free)\<rparr>))"

definition RingBuffer_Alloc :: "'h token_if \<Rightarrow> nat \<Rightarrow> RingBuffer \<Rightarrow> 'h \<Rightarrow> (nat \<times> RingBuffer \<times> 'h) option" where
  "RingBuffer_Alloc ops sz rb h =
     (let sz = (if sz = 0 then 1 else sz) in
      map_option (\<lambda>(rb1, h1). case alloc_place sz rb1 of (offset, rb2) \<Rightarrow> (offset, rb2, h1))
        (alloc_make_room ops sz rb h))"

text \<open>The search from the back; the blocks are given in reverse.\<close>

fun mark_freed :: "nat \<Rightarrow> nat \<Rightarrow> RingBuffer_Block list \<Rightarrow> RingBuffer_Block list" where
  "mark_freed offset token [] = []"
| "mark_freed offset token (b # bs) =
     (if rb_offset b = offset then b\<lparr>rb_token := token, rb_state := RB_FREE_PENDING_TOKEN\<rparr> # bs
      else b # mark_freed offset token bs)"

definition RingBuffer_FreePendingToken :: "nat \<Rightarrow> nat \<Rightarrow> RingBuffer \<Rightarrow> RingBuffer" where
  "RingBuffer_FreePendingToken offset token rb =
     rb\<lparr>blocks_' := rev (mark_freed (u32_sub offset (base_offset_' rb)) token (rev (blocks_' rb)))\<rparr>"

text \<open>The wrapper with pointers; \<open>base\<close> is its field \<^verbatim>\<open>base_\<close>.\<close>

definition RingBufferWrapper_base :: "nat \<Rightarrow> nat \<Rightarrow> nat" where
  "RingBufferWrapper_base base_offset base = u32_sub base base_offset"

definition RingBufferWrapper_GetPointer :: "nat \<Rightarrow> nat \<Rightarrow> nat" where
  "RingBufferWrapper_GetPointer base offset = u32_add base offset"

definition RingBufferWrapper_GetOffset :: "nat \<Rightarrow> nat \<Rightarrow> nat" where
  "RingBufferWrapper_GetOffset base pointer = u32_sub pointer base"

definition RingBufferWrapper_Alloc ::
    "'h token_if \<Rightarrow> nat \<Rightarrow> nat \<Rightarrow> RingBuffer \<Rightarrow> 'h \<Rightarrow> (nat \<times> RingBuffer \<times> 'h) option" where
  "RingBufferWrapper_Alloc ops base sz rb h =
     map_option (\<lambda>(offset, rb1, h1). (RingBufferWrapper_GetPointer base offset, rb1, h1))
       (RingBuffer_Alloc ops sz rb h)"

definition RingBufferWrapper_AllocTyped ::
    "'h token_if \<Rightarrow> nat \<Rightarrow> nat \<Rightarrow> nat \<Rightarrow> RingBuffer \<Rightarrow> 'h \<Rightarrow> (nat \<times> RingBuffer \<times> 'h) option" where
  "RingBufferWrapper_AllocTyped ops base sizeof_T count rb h =
     RingBufferWrapper_Alloc ops base (u32_mul count sizeof_T) rb h"

definition RingBufferWrapper_FreePendingToken :: "nat \<Rightarrow> nat \<Rightarrow> nat \<Rightarrow> RingBuffer \<Rightarrow> RingBuffer" where
  "RingBufferWrapper_FreePendingToken base pointer token rb =
     RingBuffer_FreePendingToken (RingBufferWrapper_GetOffset base pointer) token rb"

section \<open>Invariant\<close>

definition ring_wrap :: "nat \<Rightarrow> nat \<Rightarrow> nat" where
  "ring_wrap n x = (if x = n then 0 else x)"

text \<open>The blocks lie one behind the other around the ring, from \<open>p\<close> to \<open>q\<close>.\<close>

fun tiles :: "nat \<Rightarrow> nat \<Rightarrow> RingBuffer_Block list \<Rightarrow> nat \<Rightarrow> bool" where
  "tiles n p [] q \<longleftrightarrow> p = q"
| "tiles n p (b # bs) q \<longleftrightarrow> rb_offset b = p \<and> 0 < rb_size b \<and> p + rb_size b \<le> n \<and>
     tiles n (ring_wrap n (p + rb_size b)) bs q"

definition used_size :: "RingBuffer_Block list \<Rightarrow> nat" where
  "used_size bs = sum_list (map rb_size bs)"

definition ring_used :: "nat \<Rightarrow> nat \<Rightarrow> nat \<Rightarrow> nat" where
  "ring_used n p q = (if p < q then q - p else n - p + q)"

text \<open>
  The last bound keeps \<^verbatim>\<open>size + free_offset_\<close> from wrapping around: buffers of at most 2 GB.
\<close>

definition rb_inv :: "RingBuffer \<Rightarrow> bool" where
  "rb_inv rb \<longleftrightarrow> 0 < size_' rb \<and> size_' rb \<le> 2147483648 \<and> base_offset_' rb + size_' rb < 4294967296 \<and>
     in_use_offset_' rb < size_' rb \<and> free_offset_' rb < size_' rb \<and>
     tiles (size_' rb) (in_use_offset_' rb) (blocks_' rb) (free_offset_' rb) \<and>
     (if blocks_' rb = [] then in_use_offset_' rb = 0 \<and> free_offset_' rb = 0
      else used_size (blocks_' rb) = ring_used (size_' rb) (in_use_offset_' rb) (free_offset_' rb))"

definition rb_disjoint :: "RingBuffer_Block \<Rightarrow> RingBuffer_Block \<Rightarrow> bool" where
  "rb_disjoint a b \<longleftrightarrow> rb_offset a + rb_size a \<le> rb_offset b \<or> rb_offset b + rb_size b \<le> rb_offset a"

lemma used_simps [simp]:
  "used_size [] = 0" "used_size (b # bs) = rb_size b + used_size bs"
  "used_size (xs @ ys) = used_size xs + used_size ys"
  by (simp_all add: used_size_def)

lemma tiles_used_pos: "tiles n p bs q \<Longrightarrow> bs \<noteq> [] \<Longrightarrow> 0 < used_size bs"
  by (cases bs) auto

lemma tiles_append: "tiles n p (xs @ ys) q \<longleftrightarrow> (\<exists>m. tiles n p xs m \<and> tiles n m ys q)"
  by (induction xs arbitrary: p) auto

text \<open>Blocks that tile a window of \<open>m\<close> bytes from \<open>p\<close> stay inside the window.\<close>

lemma tiles_window:
  "tiles n p bs q \<Longrightarrow> used_size bs \<le> m \<Longrightarrow> b \<in> set bs \<Longrightarrow>
   p \<le> rb_offset b \<and> rb_offset b + rb_size b \<le> p + m \<or> rb_offset b + rb_size b + n \<le> p + m"
proof (induction bs arbitrary: p m)
  case (Cons a bs)
  show ?case
  proof (cases "b = a")
    case False
    then have b: "b \<in> set bs" and u: "used_size bs \<le> m - rb_size a" "rb_size a \<le> m"
      and t: "tiles n (ring_wrap n (p + rb_size a)) bs q"
      using Cons.prems by auto
    from Cons.IH [OF t u(1) b] u(2) show ?thesis by (auto simp: ring_wrap_def split: if_splits)
  qed (use Cons.prems in auto)
qed simp

lemma tiles_disjoint: "tiles n p bs q \<Longrightarrow> used_size bs \<le> n \<Longrightarrow> sorted_wrt rb_disjoint bs"
proof (induction bs arbitrary: p)
  case (Cons a bs)
  let ?p = "ring_wrap n (p + rb_size a)"
  have a: "rb_offset a = p" "p + rb_size a \<le> n" and t: "tiles n ?p bs q" and u: "used_size bs \<le> n - rb_size a"
    using Cons.prems by auto
  have "rb_disjoint a b" if "b \<in> set bs" for b
    using tiles_window [OF t u that] a by (auto simp: rb_disjoint_def ring_wrap_def split: if_splits)
  moreover have "sorted_wrt rb_disjoint bs" using Cons.IH [OF t] u by simp
  ultimately show ?case by simp
qed simp

lemma tiles_in: "tiles n p bs q \<Longrightarrow> b \<in> set bs \<Longrightarrow> rb_offset b + rb_size b \<le> n"
  by (induction bs arbitrary: p) auto

text \<open>Taking the first block off.\<close>

lemma ring_used_step:
  assumes "p < n" "q < n" "0 < s" "p + s \<le> n" "s + u = ring_used n p q"
  shows "ring_wrap n (p + s) < n" "ring_wrap n (p + s) = q \<longleftrightarrow> u = 0"
    "0 < u \<Longrightarrow> u = ring_used n (ring_wrap n (p + s)) q"
  using assms by (auto simp: ring_used_def ring_wrap_def split: if_splits)

lemma FreeOldest_eq:
  assumes "rb_inv rb" "blocks_' rb = b # bs"
  shows "FreeOldestBlock ops rb h =
    map_option (Pair (if bs = [] then rb\<lparr>blocks_' := [], in_use_offset_' := 0, free_offset_' := 0\<rparr>
        else rb\<lparr>blocks_' := bs, in_use_offset_' := ring_wrap (size_' rb) (in_use_offset_' rb + rb_size b)\<rparr>))
      (if rb_state b = RB_FREE_PENDING_TOKEN then tok_wait ops (i32 (int (rb_token b))) h else Some h)"
proof -
  have i: "in_use_offset_' rb < size_' rb" "free_offset_' rb < size_' rb" "0 < rb_size b"
    "in_use_offset_' rb + rb_size b \<le> size_' rb"
    "rb_size b + used_size bs = ring_used (size_' rb) (in_use_offset_' rb) (free_offset_' rb)"
    "base_offset_' rb + size_' rb < 4294967296"
    and t: "tiles (size_' rb) (ring_wrap (size_' rb) (in_use_offset_' rb + rb_size b)) bs (free_offset_' rb)"
    using assms by (auto simp: rb_inv_def)
  have a: "u32_add (in_use_offset_' rb) (rb_size b) = in_use_offset_' rb + rb_size b"
    using i by (intro u32_add_exact) linarith
  have "ring_wrap (size_' rb) (in_use_offset_' rb + rb_size b) = free_offset_' rb \<longleftrightarrow> bs = []"
    using ring_used_step(2) [OF i(1-5)] tiles_used_pos [OF t] by (cases "bs = []") auto
  then show ?thesis
    by (simp add: FreeOldestBlock_def assms(2) a ring_wrap_def Let_def split: if_splits)
qed

lemma FreeOldest_inv:
  assumes "rb_inv rb" "FreeOldestBlock ops rb h = Some (rb', h')"
  shows "rb_inv rb'" "\<exists>b. blocks_' rb = b # blocks_' rb'" "size_' rb' = size_' rb" "base_offset_' rb' = base_offset_' rb"
proof -
  obtain b bs where b: "blocks_' rb = b # bs"
    using assms(2) by (cases "blocks_' rb") (auto simp: FreeOldestBlock_def)
  have i: "in_use_offset_' rb < size_' rb" "free_offset_' rb < size_' rb" "0 < rb_size b"
    "in_use_offset_' rb + rb_size b \<le> size_' rb"
    "rb_size b + used_size bs = ring_used (size_' rb) (in_use_offset_' rb) (free_offset_' rb)"
    and t: "tiles (size_' rb) (ring_wrap (size_' rb) (in_use_offset_' rb + rb_size b)) bs (free_offset_' rb)"
    using assms(1) b by (auto simp: rb_inv_def)
  have r: "rb' = (if bs = [] then rb\<lparr>blocks_' := [], in_use_offset_' := 0, free_offset_' := 0\<rparr>
      else rb\<lparr>blocks_' := bs, in_use_offset_' := ring_wrap (size_' rb) (in_use_offset_' rb + rb_size b)\<rparr>)"
    using assms(2) FreeOldest_eq [OF assms(1) b, of ops h] by auto
  show "rb_inv rb'"
    using assms(1) ring_used_step [OF i] t tiles_used_pos [OF t] by (auto simp: r rb_inv_def)
  show "\<exists>b. blocks_' rb = b # blocks_' rb'" "size_' rb' = size_' rb" "base_offset_' rb' = base_offset_' rb"
    by (simp_all add: r b)
qed

lemma largest_eq:
  assumes "rb_inv rb"
  shows "GetLargestFreeSizeNoWaiting rb =
    (if free_offset_' rb = in_use_offset_' rb then (if blocks_' rb = [] then size_' rb else 0)
     else if free_offset_' rb > in_use_offset_' rb then max (size_' rb - free_offset_' rb) (in_use_offset_' rb)
     else in_use_offset_' rb - free_offset_' rb)"
proof -
  have "free_offset_' rb < size_' rb" "in_use_offset_' rb < size_' rb" "size_' rb < 4294967296"
    using assms by (auto simp: rb_inv_def)
  then show ?thesis by (simp add: GetLargestFreeSizeNoWaiting_def u32_sub_exact)
qed

text \<open>Placing a block where there is room for it.\<close>

lemma place_straight:
  assumes "f < n" "u < n" "0 < sz" "sz + f \<le> n" "tiles n u bs f"
    and "if bs = [] then u = 0 \<and> f = 0 else used_size bs = ring_used n u f"
    and "f = u \<and> bs = [] \<or> u < f \<or> f < u \<and> sz \<le> u - f"
  shows "tiles n u (bs @ [RingBuffer_Block_new f sz st]) (ring_wrap n (f + sz))"
    "used_size (bs @ [RingBuffer_Block_new f sz st]) = ring_used n u (ring_wrap n (f + sz))"
    "ring_wrap n (f + sz) < n"
  using assms by (auto simp: tiles_append RingBuffer_Block_new_def ring_used_def ring_wrap_def split: if_splits)

lemma place_inv:
  assumes i: "rb_inv rb" and sz: "0 < sz" "sz \<le> GetLargestFreeSizeNoWaiting rb"
    and p: "alloc_place sz rb = (off, rb')"
  shows "rb_inv rb' \<and> size_' rb' = size_' rb \<and> base_offset_' rb' = base_offset_' rb \<and>
    base_offset_' rb \<le> off \<and> off - base_offset_' rb + sz \<le> size_' rb \<and>
    (\<exists>pad. blocks_' rb' = blocks_' rb @ pad @ [RingBuffer_Block_new (off - base_offset_' rb) sz RB_IN_USE] \<and>
       (\<forall>b\<in>set pad. rb_state b = RB_PADDING))"
proof -
  define n f u bs where "n = size_' rb" and "f = free_offset_' rb" and "u = in_use_offset_' rb" and "bs = blocks_' rb"
  have b: "0 < n" "f < n" "u < n" "n \<le> 2147483648" "base_offset_' rb + n < 4294967296" "tiles n u bs f"
    "if bs = [] then u = 0 \<and> f = 0 else used_size bs = ring_used n u f"
    using i by (auto simp: rb_inv_def n_def f_def u_def bs_def)
  have room: "f = u \<and> bs = [] \<and> sz \<le> n \<or> u < f \<and> (sz \<le> n - f \<or> sz \<le> u) \<or> f < u \<and> sz \<le> u - f"
    using sz largest_eq [OF i] by (auto simp: n_def f_def u_def bs_def split: if_splits)
  have sub: "u32_sub n f = n - f" using b by (intro u32_sub_exact) auto
  have add: "u32_add sz f = sz + f" using b room by (intro u32_add_exact) auto
  show ?thesis
  proof (cases "sz + f > n")
    case False
    then have f: "u32_add f sz = f + sz" "u32_add f (base_offset_' rb) = f + base_offset_' rb"
      using b by (auto intro: u32_add_exact)
    have r: "off = f + base_offset_' rb"
      "rb' = rb\<lparr>blocks_' := bs @ [RingBuffer_Block_new f sz RB_IN_USE], free_offset_' := ring_wrap n (f + sz)\<rparr>"
      using p False add f by (simp_all add: alloc_place_def Let_def n_def f_def bs_def ring_wrap_def cong: if_cong)
    have fit: "f = u \<and> bs = [] \<or> u < f \<or> f < u \<and> sz \<le> u - f" using room by auto
    have le: "sz + f \<le> n" using False by simp
    note ps = place_straight(1,2) [OF b(2,3) sz(1) le b(6,7) fit, of RB_IN_USE]
      place_straight(3) [OF b(2,3) sz(1) le b(6,7) fit]
    have "rb_inv rb'" using ps b False by (simp add: r(2) rb_inv_def n_def u_def)
    then show ?thesis using False b by (simp add: r bs_def n_def)
  next
    case True
    then have u: "u < f" "sz \<le> u" "bs \<noteq> []" using room b by auto
    let ?pad = "RingBuffer_Block_new f (n - f) RB_PADDING"
    have f: "u32_add 0 sz = sz" "u32_add 0 (base_offset_' rb) = base_offset_' rb"
      using b u by (auto simp: u32_add_exact)
    have r: "off = base_offset_' rb"
      "rb' = rb\<lparr>blocks_' := (bs @ [?pad]) @ [RingBuffer_Block_new 0 sz RB_IN_USE], free_offset_' := ring_wrap n (0 + sz)\<rparr>"
      using p True add f sub by (simp_all add: alloc_place_def Let_def n_def f_def bs_def ring_wrap_def cong: if_cong)
    have "f + (n - f) = n" "0 < n - f" using b by auto
    then have pad: "tiles n u (bs @ [?pad]) 0" "used_size (bs @ [?pad]) = ring_used n u 0"
      using place_straight(1,2) [of f n u "n - f" bs RB_PADDING] b u by (auto simp: ring_wrap_def)
    have "tiles n u ((bs @ [?pad]) @ [RingBuffer_Block_new 0 sz RB_IN_USE]) (ring_wrap n (0 + sz))"
      "used_size ((bs @ [?pad]) @ [RingBuffer_Block_new 0 sz RB_IN_USE]) = ring_used n u (ring_wrap n (0 + sz))"
      "ring_wrap n (0 + sz) < n"
      using place_straight(1,2) [of 0 n u sz "bs @ [?pad]" RB_IN_USE]
        place_straight(3) [of 0 n u sz "bs @ [?pad]"] pad b u sz(1) by auto
    then have "rb_inv rb'" using b by (simp add: r(2) rb_inv_def n_def u_def)
    then show ?thesis using u b by (auto simp: r bs_def n_def RingBuffer_Block_new_def)
  qed
qed

text \<open>
  Making room: the oldest blocks are dropped, their tokens have passed. \<open>room_post\<close> relates the
  buffer before and after.
\<close>

definition room_post :: "(int \<Rightarrow> 'h \<Rightarrow> bool) \<Rightarrow> RingBuffer \<Rightarrow> RingBuffer \<Rightarrow> 'h \<Rightarrow> bool" where
  "room_post passed rb rb' h' \<longleftrightarrow> rb_inv rb' \<and> size_' rb' = size_' rb \<and> base_offset_' rb' = base_offset_' rb \<and>
     (\<exists>old. blocks_' rb = old @ blocks_' rb' \<and>
        (\<forall>b\<in>set old. rb_state b = RB_FREE_PENDING_TOKEN \<longrightarrow> passed (i32 (int (rb_token b))) h'))"

context token_interface
begin

lemma FreeOldest_post:
  assumes "rb_inv rb" "hinv h" "FreeOldestBlock ops rb h = Some (rb', h')"
  shows "room_post passed rb rb' h' \<and> hinv h' \<and> (\<forall>u. passed u h \<longrightarrow> passed u h')"
proof -
  obtain b where b: "blocks_' rb = b # blocks_' rb'" using FreeOldest_inv(2) [OF assms(1,3)] by blast
  have w: "(if rb_state b = RB_FREE_PENDING_TOKEN then tok_wait ops (i32 (int (rb_token b))) h else Some h) = Some h'"
    using assms(3) FreeOldest_eq [OF assms(1) b, of ops h] by auto
  then have "hinv h' \<and> (\<forall>u. passed u h \<longrightarrow> passed u h')"
    "rb_state b = RB_FREE_PENDING_TOKEN \<longrightarrow> passed (i32 (int (rb_token b))) h'"
    using assms(2) wait_inv wait_keeps wait_passed by (auto split: if_splits)
  then show ?thesis
    using FreeOldest_inv [OF assms(1,3)] b by (auto simp: room_post_def intro!: exI [of _ "[b]"])
qed

lemma make_room_post:
  assumes "alloc_make_room ops sz rb h = Some r" "rb_inv rb" "hinv h"
  shows "room_post passed rb (fst r) (snd r) \<and> hinv (snd r) \<and> (\<forall>u. passed u h \<longrightarrow> passed u (snd r)) \<and>
    sz \<le> GetLargestFreeSizeNoWaiting (fst r)"
proof -
  let ?P = "\<lambda>o' sz rb h r. o' = ops \<longrightarrow> rb_inv rb \<longrightarrow> hinv h \<longrightarrow>
    room_post passed rb (fst r) (snd r) \<and> hinv (snd r) \<and> (\<forall>u. passed u h \<longrightarrow> passed u (snd r)) \<and>
    sz \<le> GetLargestFreeSizeNoWaiting (fst r)"
  have "?P ops sz rb h r"
  proof (rule alloc_make_room.raw_induct [where P = ?P, OF _ assms(1)], intro impI)
    fix L o' sz rb h r
    assume IH: "\<And>o' sz rb h r. L o' sz rb h = Some r \<Longrightarrow> ?P o' sz rb h r"
      and body: "(if sz > GetLargestFreeSizeNoWaiting rb
        then Option.bind (FreeOldestBlock o' rb h) (\<lambda>(rb1, h1). L o' sz rb1 h1) else Some (rb, h)) = Some r"
      and o: "o' = ops" and inv: "rb_inv rb" "hinv h"
    show "room_post passed rb (fst r) (snd r) \<and> hinv (snd r) \<and> (\<forall>u. passed u h \<longrightarrow> passed u (snd r)) \<and>
      sz \<le> GetLargestFreeSizeNoWaiting (fst r)"
    proof (cases "sz > GetLargestFreeSizeNoWaiting rb")
      case False
      then show ?thesis using body inv by (auto simp: room_post_def)
    next
      case True
      then obtain rb1 h1 where f: "FreeOldestBlock ops rb h = Some (rb1, h1)" and l: "L ops sz rb1 h1 = Some r"
        using body o by (auto simp: bind_eq_Some_conv)
      have 1: "room_post passed rb rb1 h1" "hinv h1" "\<forall>u. passed u h \<longrightarrow> passed u h1"
        using FreeOldest_post [OF inv f] by auto
      have 2: "room_post passed rb1 (fst r) (snd r)" "hinv (snd r)" "\<forall>u. passed u h1 \<longrightarrow> passed u (snd r)"
        "sz \<le> GetLargestFreeSizeNoWaiting (fst r)"
        using IH [OF l] 1(1,2) by (auto simp: room_post_def)
      have "room_post passed rb (fst r) (snd r)"
      proof -
        obtain o1 where o1: "blocks_' rb = o1 @ blocks_' rb1"
          "\<forall>b\<in>set o1. rb_state b = RB_FREE_PENDING_TOKEN \<longrightarrow> passed (i32 (int (rb_token b))) h1"
          using 1(1) by (auto simp: room_post_def)
        obtain o2 where o2: "blocks_' rb1 = o2 @ blocks_' (fst r)"
          "\<forall>b\<in>set o2. rb_state b = RB_FREE_PENDING_TOKEN \<longrightarrow> passed (i32 (int (rb_token b))) (snd r)"
          using 2(1) by (auto simp: room_post_def)
        show ?thesis
          using 1(1) 2(1,3) o1 o2 unfolding room_post_def by (intro conjI exI [of _ "o1 @ o2"]) auto
      qed
      then show ?thesis using 2 1(3) by blast
    qed
  qed
  with assms show ?thesis by blast
qed


text \<open>The result of an allocation.\<close>

lemma Alloc_post:
  assumes a: "RingBuffer_Alloc ops sz rb h = Some (off, rb', h')" and inv: "rb_inv rb" "hinv h"
  shows "rb_inv rb' \<and> size_' rb' = size_' rb \<and> base_offset_' rb' = base_offset_' rb \<and>
    base_offset_' rb \<le> off \<and> off - base_offset_' rb + max 1 sz \<le> size_' rb \<and> hinv h' \<and>
    (\<forall>u. passed u h \<longrightarrow> passed u h') \<and>
    (\<exists>old kept pad. blocks_' rb = old @ kept \<and>
       blocks_' rb' = kept @ pad @ [RingBuffer_Block_new (off - base_offset_' rb) (max 1 sz) RB_IN_USE] \<and>
       (\<forall>b\<in>set pad. rb_state b = RB_PADDING) \<and>
       (\<forall>b\<in>set old. rb_state b = RB_FREE_PENDING_TOKEN \<longrightarrow> passed (i32 (int (rb_token b))) h'))"
proof -
  have m: "(if sz = 0 then 1 else sz) = max 1 sz" by auto
  obtain rb1 where r: "alloc_make_room ops (max 1 sz) rb h = Some (rb1, h')"
    and pl: "alloc_place (max 1 sz) rb1 = (off, rb')"
  proof -
    obtain rb1 h1 where z: "alloc_make_room ops (max 1 sz) rb h = Some (rb1, h1)"
      "(case alloc_place (max 1 sz) rb1 of (offset, rb2) \<Rightarrow> (offset, rb2, h1)) = (off, rb', h')"
      using a unfolding RingBuffer_Alloc_def m Let_def map_option_eq_Some by auto
    then show thesis using that by (cases "alloc_place (max 1 sz) rb1") auto
  qed
  have 1: "room_post passed rb rb1 h'" "hinv h'" "\<forall>u. passed u h \<longrightarrow> passed u h'"
    "max 1 sz \<le> GetLargestFreeSizeNoWaiting rb1"
    using make_room_post [OF r inv] by simp_all
  then obtain old where o: "blocks_' rb = old @ blocks_' rb1"
    "\<forall>b\<in>set old. rb_state b = RB_FREE_PENDING_TOKEN \<longrightarrow> passed (i32 (int (rb_token b))) h'"
    and s: "size_' rb1 = size_' rb" "base_offset_' rb1 = base_offset_' rb" "rb_inv rb1"
    by (auto simp: room_post_def)
  obtain pad where 2: "rb_inv rb'" "size_' rb' = size_' rb1" "base_offset_' rb' = base_offset_' rb1"
    "base_offset_' rb1 \<le> off" "off - base_offset_' rb1 + max 1 sz \<le> size_' rb1"
    "blocks_' rb' = blocks_' rb1 @ pad @ [RingBuffer_Block_new (off - base_offset_' rb1) (max 1 sz) RB_IN_USE]"
    "\<forall>b\<in>set pad. rb_state b = RB_PADDING"
  proof -
    have "0 < max 1 sz" by simp
    from place_inv [OF s(3) this 1(4) pl] that show thesis by blast
  qed
  have "\<exists>old kept pad. blocks_' rb = old @ kept \<and>
       blocks_' rb' = kept @ pad @ [RingBuffer_Block_new (off - base_offset_' rb) (max 1 sz) RB_IN_USE] \<and>
       (\<forall>b\<in>set pad. rb_state b = RB_PADDING) \<and>
       (\<forall>b\<in>set old. rb_state b = RB_FREE_PENDING_TOKEN \<longrightarrow> passed (i32 (int (rb_token b))) h')"
    using o 2(6,7) s by (intro exI [of _ old] exI [of _ "blocks_' rb1"] exI [of _ pad]) simp
  then show ?thesis using 1(2,3) 2(1-5) s by simp
qed

end

context live_token_interface
begin

lemma FreeOldest_returns:
  assumes "rb_inv rb" "hinv h" "blocks_' rb \<noteq> []"
  shows "\<exists>rb' h'. FreeOldestBlock ops rb h = Some (rb', h')"
proof -
  obtain b bs where b: "blocks_' rb = b # bs" using assms(3) by (cases "blocks_' rb") auto
  have "\<exists>h'. (if rb_state b = RB_FREE_PENDING_TOKEN then tok_wait ops (i32 (int (rb_token b))) h else Some h) = Some h'"
    using wait_returns [OF assms(2)] by auto
  then show ?thesis using FreeOldest_eq [OF assms(1) b, of ops h] by auto
qed

lemma make_room_returns:
  assumes "rb_inv rb" "hinv h" "sz \<le> size_' rb"
  shows "\<exists>r. alloc_make_room ops sz rb h = Some r"
  using assms
proof (induction "length (blocks_' rb)" arbitrary: rb h)
  case 0
  then have "GetLargestFreeSizeNoWaiting rb = size_' rb" by (simp add: GetLargestFreeSizeNoWaiting_def rb_inv_def)
  then show ?case using 0 by (simp add: alloc_make_room.simps [of ops sz rb h])
next
  case (Suc k)
  then obtain rb1 h1 where f: "FreeOldestBlock ops rb h = Some (rb1, h1)"
    using FreeOldest_returns [of rb h] by fastforce
  note p = FreeOldest_inv [OF Suc.prems(1) f] FreeOldest_post [OF Suc.prems(1,2) f]
  have "\<exists>r. alloc_make_room ops sz rb1 h1 = Some r"
    using Suc.hyps p Suc.prems(3) by (intro Suc.hyps(1)) auto
  then show ?case
    using f by (cases "GetLargestFreeSizeNoWaiting rb < sz") (auto simp: alloc_make_room.simps [of ops sz rb h])
qed

lemma RingBuffer_Alloc_returns:
  assumes "rb_inv rb" "hinv h" "sz \<le> size_' rb"
  shows "\<exists>off rb' h'. RingBuffer_Alloc ops sz rb h = Some (off, rb', h')"
proof -
  have "(if sz = 0 then 1 else sz) \<le> size_' rb" using assms(1,3) by (simp add: rb_inv_def)
  then obtain r where "alloc_make_room ops (if sz = 0 then 1 else sz) rb h = Some r"
    using make_room_returns [OF assms(1,2)] by blast
  then show ?thesis by (auto simp: RingBuffer_Alloc_def Let_def split: prod.splits)
qed

lemma delete_returns:
  assumes "rb_inv rb" "hinv h"
  shows "\<exists>h'. RingBuffer_delete ops rb h = Some h' \<and> hinv h' \<and> (\<forall>u. passed u h \<longrightarrow> passed u h') \<and>
    (\<forall>b\<in>set (blocks_' rb). rb_state b = RB_FREE_PENDING_TOKEN \<longrightarrow> passed (i32 (int (rb_token b))) h')"
  using assms
proof (induction "length (blocks_' rb)" arbitrary: rb h)
  case 0
  then show ?case by (simp add: RingBuffer_delete.simps [of ops rb h])
next
  case (Suc k)
  then obtain rb1 h1 where f: "FreeOldestBlock ops rb h = Some (rb1, h1)"
    using FreeOldest_returns [of rb h] by fastforce
  note p = FreeOldest_inv [OF Suc.prems(1) f] FreeOldest_post [OF Suc.prems f]
  obtain h' where h': "RingBuffer_delete ops rb1 h1 = Some h'" "hinv h'" "\<forall>u. passed u h1 \<longrightarrow> passed u h'"
    "\<forall>b\<in>set (blocks_' rb1). rb_state b = RB_FREE_PENDING_TOKEN \<longrightarrow> passed (i32 (int (rb_token b))) h'"
    using Suc.hyps(1) [of rb1 h1] Suc.hyps(2) p by auto
  have "RingBuffer_delete ops rb h = Some h'"
    using f h'(1) Suc.hyps(2) by (auto simp: RingBuffer_delete.simps [of ops rb h])
  moreover have "\<forall>b\<in>set (blocks_' rb). rb_state b = RB_FREE_PENDING_TOKEN \<longrightarrow> passed (i32 (int (rb_token b))) h'"
    using p h'(3,4) by (auto simp: room_post_def)
  ultimately show ?case using p h' by blast
qed

end

section \<open>Reachable states\<close>

lemma tiles_cong:
  "map (\<lambda>b. (rb_offset b, rb_size b)) bs = map (\<lambda>b. (rb_offset b, rb_size b)) bs' \<Longrightarrow> tiles n p bs q = tiles n p bs' q"
proof (induction bs arbitrary: bs' p)
  case (Cons b bs)
  then obtain b' bs'' where "bs' = b' # bs''" "rb_offset b' = rb_offset b" "rb_size b' = rb_size b"
    "map (\<lambda>b. (rb_offset b, rb_size b)) bs = map (\<lambda>b. (rb_offset b, rb_size b)) bs''"
    by (cases bs') auto
  then show ?case using Cons.IH [of bs''] by simp
qed simp

lemma mark_freed_shape: "map (\<lambda>b. (rb_offset b, rb_size b)) (mark_freed off t bs) = map (\<lambda>b. (rb_offset b, rb_size b)) bs"
  by (induction bs) auto

lemma FreePendingToken_inv:
  assumes "rb_inv rb"
  shows "rb_inv (RingBuffer_FreePendingToken off t rb)"
proof -
  let ?bs = "rev (mark_freed (u32_sub off (base_offset_' rb)) t (rev (blocks_' rb)))"
  have m: "map (\<lambda>b. (rb_offset b, rb_size b)) ?bs = map (\<lambda>b. (rb_offset b, rb_size b)) (blocks_' rb)"
    using mark_freed_shape [of "u32_sub off (base_offset_' rb)" t "rev (blocks_' rb)"]
    by (metis rev_map rev_rev_ident)
  then have "map snd (map (\<lambda>b. (rb_offset b, rb_size b)) ?bs) = map snd (map (\<lambda>b. (rb_offset b, rb_size b)) (blocks_' rb))"
    by simp
  then have "used_size ?bs = used_size (blocks_' rb)" by (simp add: used_size_def comp_def)
  moreover have "length ?bs = length (blocks_' rb)" using arg_cong [OF m, of length] by simp
  then have "?bs = [] \<longleftrightarrow> blocks_' rb = []" by (metis length_0_conv)
  ultimately show ?thesis
    using assms tiles_cong [OF m] by (simp add: rb_inv_def RingBuffer_FreePendingToken_def)
qed

inductive rb_reach :: "'h token_if \<Rightarrow> nat \<Rightarrow> nat \<Rightarrow> RingBuffer \<Rightarrow> 'h \<Rightarrow> bool" for ops base n where
  rb_reach_new: "rb_reach ops base n (RingBuffer_new base n) h"
| rb_reach_helper: "rb_reach ops base n rb h \<Longrightarrow> rb_reach ops base n rb h'"
| rb_reach_alloc: "rb_reach ops base n rb h \<Longrightarrow> RingBuffer_Alloc ops sz rb h = Some (off, rb', h') \<Longrightarrow>
    rb_reach ops base n rb' h'"
| rb_reach_free: "rb_reach ops base n rb h \<Longrightarrow> rb_reach ops base n (RingBuffer_FreePendingToken off t rb) h"

interpretation any_ring_helper: token_interface ops "\<lambda>_ _. True" "\<lambda>_. True" for ops :: "'h token_if"
  by unfold_locales auto

lemma rb_reach_inv:
  assumes "rb_reach ops base n rb h" "0 < n" "n \<le> 2147483648" "base + n < 4294967296"
  shows "rb_inv rb \<and> size_' rb = n \<and> base_offset_' rb = base"
  using assms
proof (induction rule: rb_reach.induct)
  case (rb_reach_new h)
  then show ?case by (simp add: RingBuffer_new_def rb_inv_def)
next
  case (rb_reach_alloc rb h sz off rb' h')
  then show ?case using any_ring_helper.Alloc_post [OF rb_reach_alloc.hyps(2)] by auto
next
  case (rb_reach_free rb h off t)
  then show ?case using FreePendingToken_inv [of rb off t] by (simp add: RingBuffer_FreePendingToken_def)
qed auto

lemma ring_used_le: "p < n \<Longrightarrow> q < n \<Longrightarrow> ring_used n p q \<le> n"
  by (auto simp: ring_used_def)

section \<open>Properties\<close>

text \<open>
  C29: In every reachable state the blocks of the ring buffer lie inside it and do not overlap.
\<close>

theorem ring_buffer_consistent:
  assumes "rb_reach ops base n rb h" "0 < n" "n \<le> 2147483648" "base + n < 4294967296"
  shows "sorted_wrt rb_disjoint (blocks_' rb) \<and> (\<forall>b\<in>set (blocks_' rb). rb_offset b + rb_size b \<le> n) \<and>
    sum_list (map rb_size (blocks_' rb)) \<le> n"
proof -
  have i: "rb_inv rb" "size_' rb = n" using rb_reach_inv [OF assms] by auto
  then have t: "tiles n (in_use_offset_' rb) (blocks_' rb) (free_offset_' rb)" by (simp add: rb_inv_def)
  have u: "used_size (blocks_' rb) \<le> n"
    using i ring_used_le [of "in_use_offset_' rb" n "free_offset_' rb"]
    by (auto simp: rb_inv_def split: if_splits)
  show ?thesis using tiles_disjoint [OF t u] tiles_in [OF t] u by (auto simp: used_size_def)
qed

definition sample_ring_helper :: "int token_if" where
  "sample_ring_helper = \<lparr>tok_wait = (\<lambda>t h. Some (max t h)), tok_last_read = (\<lambda>h. h)\<rparr>"

text \<open>A ring of 64 bytes: 40 bytes allocated and freed pending token 5, then 20 bytes allocated.\<close>

definition sample_ring :: RingBuffer where
  "sample_ring = \<lparr>blocks_' = [\<lparr>rb_offset = 0, rb_size = 40, rb_token = 5, rb_state = RB_FREE_PENDING_TOKEN\<rparr>,
       \<lparr>rb_offset = 40, rb_size = 20, rb_token = 0, rb_state = RB_IN_USE\<rparr>],
     base_offset_' = 16, size_' = 64, free_offset_' = 60, in_use_offset_' = 0\<rparr>"

lemmas rb_eval = RingBuffer_Alloc_def alloc_make_room.simps GetLargestFreeSizeNoWaiting_def alloc_place_def
  RingBuffer_Block_new_def RingBuffer_new_def RingBuffer_FreePendingToken_def FreeOldestBlock_def Let_def u32_simps

lemma sample_ring_reach: "rb_reach sample_ring_helper 16 64 sample_ring 0"
proof -
  let ?r1 = "\<lparr>blocks_' = [\<lparr>rb_offset = 0, rb_size = 40, rb_token = 0, rb_state = RB_IN_USE\<rparr>],
     base_offset_' = 16, size_' = 64, free_offset_' = 40, in_use_offset_' = 0\<rparr>"
  let ?r2 = "\<lparr>blocks_' = [\<lparr>rb_offset = 0, rb_size = 40, rb_token = 5, rb_state = RB_FREE_PENDING_TOKEN\<rparr>],
     base_offset_' = 16, size_' = 64, free_offset_' = 40, in_use_offset_' = 0\<rparr>"
  have "RingBuffer_Alloc sample_ring_helper 40 (RingBuffer_new 16 64) 0 = Some (16, ?r1, 0)"
    by (simp add: rb_eval)
  then have "rb_reach sample_ring_helper 16 64 ?r1 0" by (rule rb_reach_alloc [OF rb_reach_new])
  then have "rb_reach sample_ring_helper 16 64 (RingBuffer_FreePendingToken 16 5 ?r1) 0" by (rule rb_reach_free)
  moreover have "RingBuffer_FreePendingToken 16 5 ?r1 = ?r2" by (simp add: rb_eval)
  moreover have "RingBuffer_Alloc sample_ring_helper 20 ?r2 0 = Some (56, sample_ring, 0)"
    by (simp add: rb_eval sample_ring_def)
  ultimately show ?thesis using rb_reach_alloc by metis
qed

theorem ring_buffer_consistent_witness: "sorted_wrt rb_disjoint (blocks_' sample_ring)"
  using ring_buffer_consistent [OF sample_ring_reach] by simp

text \<open>
  Freeing what \<^verbatim>\<open>Alloc\<close> just returned marks the new block, and only it, as pending the token.
\<close>

theorem ring_alloc_free:
  assumes "rb_reach ops base n rb h" "0 < n" "n \<le> 2147483648" "base + n < 4294967296"
    and "RingBuffer_Alloc ops sz rb h = Some (off, rb', h')"
  shows "\<exists>bs b. blocks_' rb' = bs @ [b] \<and> rb_state b = RB_IN_USE \<and> rb_size b = max 1 sz \<and>
    off = base + rb_offset b \<and> blocks_' (RingBuffer_FreePendingToken off t rb') =
      bs @ [b\<lparr>rb_token := t, rb_state := RB_FREE_PENDING_TOKEN\<rparr>]"
proof -
  have i: "rb_inv rb" "size_' rb = n" "base_offset_' rb = base" using rb_reach_inv [OF assms(1-4)] by auto
  note post = any_ring_helper.Alloc_post [OF assms(5) i(1) TrueI]
  obtain kept pad where b: "base_offset_' rb' = base" "base \<le> off" "off - base + max 1 sz \<le> n"
    "blocks_' rb' = (kept @ pad) @ [RingBuffer_Block_new (off - base) (max 1 sz) RB_IN_USE]"
    using post i by auto
  have "u32_sub off base = off - base" using b(2,3) assms(4) by (intro u32_sub_exact) auto
  then show ?thesis
    using b by (intro exI [of _ "kept @ pad"] exI [of _ "RingBuffer_Block_new (off - base) (max 1 sz) RB_IN_USE"])
      (simp add: RingBuffer_FreePendingToken_def RingBuffer_Block_new_def)
qed

theorem ring_alloc_free_witness:
  "\<exists>off rb' h' bs b. RingBuffer_Alloc sample_ring_helper 30 sample_ring 0 = Some (off, rb', h') \<and>
    blocks_' (RingBuffer_FreePendingToken off 9 rb') = bs @ [b\<lparr>rb_token := 9, rb_state := RB_FREE_PENDING_TOKEN\<rparr>]"
proof -
  obtain off rb' h' where a: "RingBuffer_Alloc sample_ring_helper 30 sample_ring 0 = Some (off, rb', h')"
    by (simp add: rb_eval sample_ring_def sample_ring_helper_def)
  from ring_alloc_free [OF sample_ring_reach _ _ _ a, of 9] a show ?thesis by auto
qed

end
