(* ===== verification/Mapped_Memory.thy ===== *)
theory Mapped_Memory
  imports Fenced_Allocator
begin

text \<open>
  \<^verbatim>\<open>client/mapped_memory.{h,cc}\<close>: memory for mapped transfers. The manager keeps chunks of shared memory,
  each with a fenced allocator of its own, and creates and destroys transfer buffers as needed.
  Addresses are 32-bit numbers, 0 is \<^verbatim>\<open>NULL\<close>. The command buffer's operations on transfer buffers are
  the record \<open>transfer_if\<close>; \<open>tr_Get\<close> answers with address and size of the mapping.
\<close>

record 'h transfer_if =
  tr_CreateTransferBuffer :: "nat \<Rightarrow> int \<Rightarrow> 'h \<Rightarrow> int \<times> 'h"
  tr_GetTransferBuffer :: "int \<Rightarrow> 'h \<Rightarrow> (nat \<times> nat) \<times> 'h"
  tr_DestroyTransferBuffer :: "int \<Rightarrow> 'h \<Rightarrow> 'h"

record MemoryChunk =
  chunk_shm_id :: int
  chunk_ptr :: nat
  chunk_size :: nat
  chunk_blocks :: Container

definition MemoryChunk_new :: "int \<Rightarrow> nat \<times> nat \<Rightarrow> MemoryChunk" where
  "MemoryChunk_new shm_id shm = \<lparr>chunk_shm_id = shm_id, chunk_ptr = fst shm, chunk_size = snd shm,
     chunk_blocks = FencedAllocator_new (snd shm)\<rparr>"

definition GetLargestFreeSizeWithoutWaiting :: "MemoryChunk \<Rightarrow> nat" where
  "GetLargestFreeSizeWithoutWaiting c = GetLargestFreeSize (chunk_blocks c)"

definition GetLargestFreeSizeWithWaiting :: "MemoryChunk \<Rightarrow> nat" where
  "GetLargestFreeSizeWithWaiting c = GetLargestFreeOrPendingSize (chunk_blocks c)"

definition MemoryChunk_Alloc ::
    "'h token_if \<Rightarrow> nat \<Rightarrow> MemoryChunk \<Rightarrow> 'h \<Rightarrow> (nat \<times> MemoryChunk \<times> 'h) option" where
  "MemoryChunk_Alloc ops sz c h =
     map_option (\<lambda>(mem, bs, h1). (mem, c\<lparr>chunk_blocks := bs\<rparr>, h1))
       (Wrapper_Alloc ops (chunk_ptr c) sz (chunk_blocks c) h)"

definition MemoryChunk_GetOffset :: "nat \<Rightarrow> MemoryChunk \<Rightarrow> nat" where
  "MemoryChunk_GetOffset pointer c = Wrapper_GetOffset (chunk_ptr c) pointer"

definition MemoryChunk_Free :: "nat \<Rightarrow> MemoryChunk \<Rightarrow> MemoryChunk" where
  "MemoryChunk_Free pointer c = c\<lparr>chunk_blocks := Wrapper_Free (chunk_ptr c) pointer (chunk_blocks c)\<rparr>"

definition MemoryChunk_FreePendingToken :: "nat \<Rightarrow> int \<Rightarrow> MemoryChunk \<Rightarrow> MemoryChunk" where
  "MemoryChunk_FreePendingToken pointer token c =
     c\<lparr>chunk_blocks := Wrapper_FreePendingToken (chunk_ptr c) pointer token (chunk_blocks c)\<rparr>"

definition MemoryChunk_FreeUnused :: "'h token_if \<Rightarrow> 'h \<Rightarrow> MemoryChunk \<Rightarrow> MemoryChunk" where
  "MemoryChunk_FreeUnused ops h c = c\<lparr>chunk_blocks := FencedAllocator_FreeUnused ops (chunk_blocks c) h\<rparr>"

definition IsInChunk :: "nat \<Rightarrow> MemoryChunk \<Rightarrow> bool" where
  "IsInChunk pointer c \<longleftrightarrow> pointer \<ge> chunk_ptr c \<and> pointer < u32_add (chunk_ptr c) (chunk_size c)"

definition MemoryChunk_InUse :: "MemoryChunk \<Rightarrow> bool" where
  "MemoryChunk_InUse c \<longleftrightarrow> FencedAllocator_InUse (chunk_blocks c)"

section \<open>The manager\<close>

type_synonym MappedMemoryManager = "MemoryChunk list"

text \<open>
  The loop over the chunks: the address with the values of the output parameters if a chunk can
  satisfy the request.
\<close>

fun alloc_in_chunks :: "'h token_if \<Rightarrow> nat \<Rightarrow> MappedMemoryManager \<Rightarrow> 'h \<Rightarrow>
    ((nat \<times> int \<times> nat) option \<times> MappedMemoryManager \<times> 'h) option" where
  "alloc_in_chunks ops sz [] h = Some (None, [], h)"
| "alloc_in_chunks ops sz (c # cs) h =
     (let c1 = MemoryChunk_FreeUnused ops h c in
      if GetLargestFreeSizeWithoutWaiting c1 \<ge> sz
      then map_option (\<lambda>(mem, c2, h1). (Some (mem, chunk_shm_id c2, MemoryChunk_GetOffset mem c2), c2 # cs, h1))
             (MemoryChunk_Alloc ops sz c1 h)
      else map_option (\<lambda>(r, cs1, h1). (r, c1 # cs1, h1)) (alloc_in_chunks ops sz cs h))"

definition alloc_new_chunk :: "'h token_if \<Rightarrow> 'h transfer_if \<Rightarrow> nat \<Rightarrow> MappedMemoryManager \<Rightarrow> 'h \<Rightarrow>
    (nat \<times> (int \<times> nat) option \<times> MappedMemoryManager \<times> 'h) option" where
  "alloc_new_chunk ops tr sz cs h =
     (case tr_CreateTransferBuffer tr sz (- 1) h of (shm_id, h1) \<Rightarrow>
        if shm_id = - 1 then Some (0, None, cs, h1)
        else
          (case tr_GetTransferBuffer tr shm_id h1 of (shm, h2) \<Rightarrow>
             map_option (\<lambda>(mem, mc, h3). (mem, Some (chunk_shm_id mc, MemoryChunk_GetOffset mem mc), cs @ [mc], h3))
               (MemoryChunk_Alloc ops sz (MemoryChunk_new shm_id shm) h2)))"

definition Mapped_Alloc :: "'h token_if \<Rightarrow> 'h transfer_if \<Rightarrow> nat \<Rightarrow> MappedMemoryManager \<Rightarrow> 'h \<Rightarrow>
    (nat \<times> (int \<times> nat) option \<times> MappedMemoryManager \<times> 'h) option" where
  "Mapped_Alloc ops tr sz cs h =
     Option.bind (alloc_in_chunks ops sz cs h)
       (\<lambda>(r, cs1, h1).
          case r of Some (mem, out) \<Rightarrow> Some (mem, Some out, cs1, h1)
                  | None \<Rightarrow> alloc_new_chunk ops tr sz cs1 h1)"

fun Mapped_Free :: "nat \<Rightarrow> MappedMemoryManager \<Rightarrow> MappedMemoryManager" where
  "Mapped_Free pointer [] = []"
| "Mapped_Free pointer (c # cs) =
     (if IsInChunk pointer c then MemoryChunk_Free pointer c # cs else c # Mapped_Free pointer cs)"

fun Mapped_FreePendingToken :: "nat \<Rightarrow> int \<Rightarrow> MappedMemoryManager \<Rightarrow> MappedMemoryManager" where
  "Mapped_FreePendingToken pointer token [] = []"
| "Mapped_FreePendingToken pointer token (c # cs) =
     (if IsInChunk pointer c then MemoryChunk_FreePendingToken pointer token c # cs
      else c # Mapped_FreePendingToken pointer token cs)"

fun Mapped_FreeUnused :: "'h token_if \<Rightarrow> 'h transfer_if \<Rightarrow> MappedMemoryManager \<Rightarrow> 'h \<Rightarrow> MappedMemoryManager \<times> 'h" where
  "Mapped_FreeUnused ops tr [] h = ([], h)"
| "Mapped_FreeUnused ops tr (c # cs) h =
     (let c1 = MemoryChunk_FreeUnused ops h c in
      if \<not> MemoryChunk_InUse c1
      then Mapped_FreeUnused ops tr cs (tr_DestroyTransferBuffer tr (chunk_shm_id c1) h)
      else (case Mapped_FreeUnused ops tr cs h of (cs1, h1) \<Rightarrow> (c1 # cs1, h1)))"

text \<open>The destructor deletes the chunks one after the other.\<close>

fun Mapped_delete :: "'h token_if \<Rightarrow> MappedMemoryManager \<Rightarrow> 'h \<Rightarrow> 'h option" where
  "Mapped_delete ops [] h = Some h"
| "Mapped_delete ops (c # cs) h =
     Option.bind (FencedAllocator_delete ops (chunk_blocks c) h) (\<lambda>(_, h1). Mapped_delete ops cs h1)"

section \<open>Invariant and abstraction\<close>

definition chunk_inv :: "MemoryChunk \<Rightarrow> bool" where
  "chunk_inv c \<longleftrightarrow> 0 < chunk_ptr c \<and> 0 < chunk_size c \<and> chunk_ptr c + chunk_size c < 4294967296 \<and>
     fa_inv (chunk_size c) (chunk_blocks c)"

definition chunk_allocs :: "MemoryChunk \<Rightarrow> (nat \<times> nat) set" where
  "chunk_allocs c = (\<lambda>(off, n). (chunk_ptr c + off, n)) ` allocations (chunk_blocks c)"

definition chunks_apart :: "MemoryChunk \<Rightarrow> MemoryChunk \<Rightarrow> bool" where
  "chunks_apart a b \<longleftrightarrow> disjoint_ranges (chunk_ptr a) (chunk_size a) (chunk_ptr b) (chunk_size b)"

text \<open>The live allocations of the manager: addresses and sizes.\<close>

definition mm_allocs :: "MappedMemoryManager \<Rightarrow> (nat \<times> nat) set" where
  "mm_allocs cs = \<Union> (chunk_allocs ` set cs)"

definition mm_inv :: "MappedMemoryManager \<Rightarrow> bool" where
  "mm_inv cs \<longleftrightarrow> list_all chunk_inv cs \<and> sorted_wrt chunks_apart cs"

text \<open>
  What the manager relies on: a transfer buffer that was created can be mapped, has at least the
  size asked for, and lies in fresh addresses.
\<close>

definition fresh_mapping :: "'h transfer_if \<Rightarrow> nat \<Rightarrow> MappedMemoryManager \<Rightarrow> bool" where
  "fresh_mapping tr sz cs \<longleftrightarrow> (\<forall>h shm_id h1 p n h2. tr_CreateTransferBuffer tr sz (- 1) h = (shm_id, h1) \<longrightarrow> shm_id \<noteq> - 1 \<longrightarrow>
     tr_GetTransferBuffer tr shm_id h1 = ((p, n), h2) \<longrightarrow>
     sz \<le> n \<and> 0 < p \<and> p + n < 4294967296 \<and>
     (\<forall>c\<in>set cs. disjoint_ranges (chunk_ptr c) (chunk_size c) p n))"

lemma mm_allocs_simps [simp]:
  "mm_allocs [] = {}" "mm_allocs (c # cs) = chunk_allocs c \<union> mm_allocs cs"
  "mm_allocs (xs @ ys) = mm_allocs xs \<union> mm_allocs ys"
  by (auto simp: mm_allocs_def)

lemma FreeUnused_blocks:
  assumes "fa_inv n bs"
  shows "fa_inv n (FencedAllocator_FreeUnused ops bs h)"
    "allocations (FencedAllocator_FreeUnused ops bs h) = allocations bs"
  using free_unused_loop_spec [of n bs 0 "tok_last_read ops h"] assms
  by (simp_all add: FencedAllocator_FreeUnused_def)

lemma chunk_FreeUnused:
  assumes "chunk_inv c"
  shows "chunk_inv (MemoryChunk_FreeUnused ops h c)" "chunk_allocs (MemoryChunk_FreeUnused ops h c) = chunk_allocs c"
    "chunk_ptr (MemoryChunk_FreeUnused ops h c) = chunk_ptr c"
    "chunk_size (MemoryChunk_FreeUnused ops h c) = chunk_size c"
    "chunk_shm_id (MemoryChunk_FreeUnused ops h c) = chunk_shm_id c"
  using assms FreeUnused_blocks [of "chunk_size c" "chunk_blocks c" ops h]
  by (simp_all add: chunk_inv_def chunk_allocs_def MemoryChunk_FreeUnused_def)

lemma chunk_alloc_in:
  assumes "chunk_inv c" "(p, n) \<in> chunk_allocs c"
  shows "chunk_ptr c \<le> p" "p + n \<le> chunk_ptr c + chunk_size c" "0 < n"
    "(p - chunk_ptr c, n) \<in> allocations (chunk_blocks c)"
proof -
  obtain off where o: "(off, n) \<in> allocations (chunk_blocks c)" "p = chunk_ptr c + off"
    using assms(2) by (auto simp: chunk_allocs_def)
  have i: "fa_inv (chunk_size c) (chunk_blocks c)" using assms(1) by (simp add: chunk_inv_def)
  obtain b where b: "b \<in> set (chunk_blocks c)" "blk_offset b = off" "blk_size b = n"
    using o(1) by (auto simp: allocations_def)
  have "blk_offset b + blk_size b \<le> chunk_size c" "0 < blk_size b"
    using contiguous_range [of 0 "chunk_blocks c" b] i b(1) by (auto simp: fa_inv_def)
  then show "chunk_ptr c \<le> p" "p + n \<le> chunk_ptr c + chunk_size c" "0 < n"
    "(p - chunk_ptr c, n) \<in> allocations (chunk_blocks c)"
    using o b by auto
qed

definition chunk_region :: "MemoryChunk \<Rightarrow> nat \<times> nat" where
  "chunk_region c = (chunk_ptr c, chunk_size c)"

lemma apart_regions:
  "sorted_wrt chunks_apart cs \<longleftrightarrow> sorted_wrt (\<lambda>(p, n) (q, m). disjoint_ranges p n q m) (map chunk_region cs)"
proof -
  have "chunks_apart = (\<lambda>a b. (\<lambda>(p, n) (q, m). disjoint_ranges p n q m) (chunk_region a) (chunk_region b))"
    by (intro ext) (simp add: chunks_apart_def chunk_region_def)
  then show ?thesis by (simp only: sorted_wrt_map)
qed

lemma apart_allocs:
  assumes "chunk_inv c" "chunk_inv d" "chunks_apart c d \<or> chunks_apart d c"
    and "(p, n) \<in> chunk_allocs d" "chunk_ptr c \<le> m" "m + k \<le> chunk_ptr c + chunk_size c"
  shows "disjoint_ranges m k p n"
  using chunk_alloc_in [OF assms(2,4)] assms(3,5,6) by (auto simp: chunks_apart_def disjoint_ranges_def)

lemma chunk_Alloc:
  assumes i: "chunk_inv c" and sz: "0 < sz" "sz \<le> GetLargestFreeSizeWithoutWaiting c"
  shows "\<exists>mem c'. MemoryChunk_Alloc ops sz c h = Some (mem, c', h) \<and> chunk_inv c' \<and>
    chunk_region c' = chunk_region c \<and> chunk_shm_id c' = chunk_shm_id c \<and>
    chunk_allocs c' = insert (mem, sz) (chunk_allocs c) \<and>
    (\<forall>p n. (p, n) \<in> chunk_allocs c \<longrightarrow> disjoint_ranges mem sz p n) \<and>
    mem = chunk_ptr c + MemoryChunk_GetOffset mem c' \<and> MemoryChunk_GetOffset mem c' + sz \<le> chunk_size c"
proof -
  have fa: "fa_inv (chunk_size c) (chunk_blocks c)" "0 < chunk_ptr c" "chunk_ptr c + chunk_size c < 4294967296"
    using i by (auto simp: chunk_inv_def)
  have m: "max 1 sz = sz" using sz(1) by auto
  obtain off bs' where a: "FencedAllocator_Alloc ops sz (chunk_blocks c) h = Some (off, bs', h)" "off \<noteq> kInvalidOffset"
    using alloc_free_same [OF fa(1), of sz ops h] sz m by (auto simp: GetLargestFreeSizeWithoutWaiting_def)
  note A = Alloc_any [OF a(1) fa(1), unfolded m]
  have off: "off + sz \<le> chunk_size c" using A(4) a(2) by simp
  let ?mem = "chunk_ptr c + off" and ?c = "c\<lparr>chunk_blocks := bs'\<rparr>"
  have ptr: "Wrapper_GetPointer (chunk_ptr c) off = ?mem"
    using a(2) off fa(3) by (simp add: Wrapper_GetPointer_def u32_add_exact)
  have goff: "MemoryChunk_GetOffset ?mem ?c = off"
    using off fa(2,3) by (simp add: MemoryChunk_GetOffset_def Wrapper_GetOffset_def u32_sub_exact)
  have "MemoryChunk_Alloc ops sz c h = Some (?mem, ?c, h)"
    using a(1) ptr by (simp add: MemoryChunk_Alloc_def Wrapper_Alloc_def)
  moreover have "chunk_inv ?c" using i A(1) by (simp add: chunk_inv_def)
  moreover have "chunk_allocs ?c = insert (?mem, sz) (chunk_allocs c)"
    using A(5) a(2) by (simp add: chunk_allocs_def)
  moreover have "disjoint_ranges ?mem sz p n" if "(p, n) \<in> chunk_allocs c" for p n
    using A(6) [OF a(2)] chunk_alloc_in(1,4) [OF i that] by (fastforce simp: disjoint_ranges_def)
  ultimately show ?thesis
    using goff off by (intro exI [of _ ?mem] exI [of _ ?c]) (simp add: chunk_region_def)
qed

text \<open>
  What an allocation of \<open>sz\<close> bytes at \<open>mem\<close> means for the manager.
\<close>

definition placed :: "nat \<Rightarrow> nat \<Rightarrow> int \<Rightarrow> nat \<Rightarrow> MappedMemoryManager \<Rightarrow> MappedMemoryManager \<Rightarrow> bool" where
  "placed sz mem shm_id off cs cs' \<longleftrightarrow> mm_allocs cs' = insert (mem, sz) (mm_allocs cs) \<and>
     (\<forall>p n. (p, n) \<in> mm_allocs cs \<longrightarrow> disjoint_ranges mem sz p n) \<and>
     (\<exists>c\<in>set cs'. chunk_shm_id c = shm_id \<and> mem = chunk_ptr c + off \<and> off + sz \<le> chunk_size c)"

lemma mm_allocD:
  assumes "(p, n) \<in> mm_allocs cs" "mm_inv cs"
  obtains c where "c \<in> set cs" "chunk_inv c" "(p, n) \<in> chunk_allocs c"
  using assms by (auto simp: mm_allocs_def mm_inv_def list_all_iff)

lemma alloc_in_chunks_ok:
  assumes "mm_inv cs" "0 < sz"
  shows "\<exists>r cs'. alloc_in_chunks ops sz cs h = Some (r, cs', h) \<and> mm_inv cs' \<and>
    map chunk_region cs' = map chunk_region cs \<and>
    (case r of None \<Rightarrow> mm_allocs cs' = mm_allocs cs | Some (mem, shm_id, off) \<Rightarrow> placed sz mem shm_id off cs cs')"
  using assms
proof (induction cs)
  case (Cons c cs)
  have c: "chunk_inv c" "mm_inv cs" "\<forall>d\<in>set cs. chunks_apart c d"
    using Cons.prems by (auto simp: mm_inv_def)
  define c1 where "c1 = MemoryChunk_FreeUnused ops h c"
  note c1 = chunk_FreeUnused [OF c(1), of ops h, folded c1_def]
  have reg: "chunk_region c1 = chunk_region c" using c1 by (simp add: chunk_region_def)
  show ?case
  proof (cases "GetLargestFreeSizeWithoutWaiting c1 \<ge> sz")
    case True
    obtain mem c2 where a: "MemoryChunk_Alloc ops sz c1 h = Some (mem, c2, h)" "chunk_inv c2"
      "chunk_region c2 = chunk_region c1" "chunk_allocs c2 = insert (mem, sz) (chunk_allocs c1)"
      "\<forall>p n. (p, n) \<in> chunk_allocs c1 \<longrightarrow> disjoint_ranges mem sz p n"
      "mem = chunk_ptr c1 + MemoryChunk_GetOffset mem c2" "MemoryChunk_GetOffset mem c2 + sz \<le> chunk_size c1"
      using chunk_Alloc [OF c1(1) Cons.prems(2) True, of ops h] by blast
    let ?off = "MemoryChunk_GetOffset mem c2"
    have r2: "chunk_ptr c2 = chunk_ptr c" "chunk_size c2 = chunk_size c"
      using a(3) reg by (simp_all add: chunk_region_def)
    have ap: "disjoint_ranges mem sz p n" if pn: "(p, n) \<in> mm_allocs cs" for p n
    proof -
      obtain d where d: "d \<in> set cs" "chunk_inv d" "(p, n) \<in> chunk_allocs d" using pn c(2) by (rule mm_allocD)
      have "chunk_ptr c \<le> mem" "mem + sz \<le> chunk_ptr c + chunk_size c" using a(6,7) c1(3,4) by linarith+
      then show ?thesis using apart_allocs [OF c(1) d(2) _ d(3)] c(3) d(1) by blast
    qed
    have "placed sz mem (chunk_shm_id c2) ?off (c # cs) (c2 # cs)"
      unfolding placed_def
    proof (intro conjI allI impI)
      show "mm_allocs (c2 # cs) = insert (mem, sz) (mm_allocs (c # cs))" using a(4) c1(2) by simp
      show "disjoint_ranges mem sz p n" if "(p, n) \<in> mm_allocs (c # cs)" for p n
        using that a(5) c1(2) ap by auto
      show "\<exists>d\<in>set (c2 # cs). chunk_shm_id d = chunk_shm_id c2 \<and> mem = chunk_ptr d + ?off \<and> ?off + sz \<le> chunk_size d"
        using a(6,7) r2 c1(3,4) by (intro bexI [of _ c2]) simp_all
    qed
    moreover have "mm_inv (c2 # cs)"
      using c a(2) r2 by (simp add: mm_inv_def chunks_apart_def)
    moreover have "alloc_in_chunks ops sz (c # cs) h = Some (Some (mem, chunk_shm_id c2, ?off), c2 # cs, h)"
      using True a(1) by (simp add: c1_def Let_def)
    ultimately show ?thesis
      using a(3) reg by (intro exI [of _ "Some (mem, chunk_shm_id c2, ?off)"] exI [of _ "c2 # cs"]) simp
  next
    case False
    obtain r cs' where ih: "alloc_in_chunks ops sz cs h = Some (r, cs', h)" "mm_inv cs'"
      "map chunk_region cs' = map chunk_region cs"
      "case r of None \<Rightarrow> mm_allocs cs' = mm_allocs cs | Some (mem, shm_id, off) \<Rightarrow> placed sz mem shm_id off cs cs'"
      using Cons.IH c(2) Cons.prems(2) by blast
    have "map chunk_region (c1 # cs') = map chunk_region (c # cs)" using ih(3) reg by simp
    then have "sorted_wrt chunks_apart (c1 # cs')"
      using Cons.prems(1) by (simp only: mm_inv_def apart_regions)
    then have inv: "mm_inv (c1 # cs')" using ih(2) c1(1) by (simp add: mm_inv_def)
    have "placed sz mem shm_id off (c # cs) (c1 # cs')" if r: "r = Some (mem, shm_id, off)" for mem shm_id off
    proof -
      have pl: "placed sz mem shm_id off cs cs'" using ih(4) r by simp
      then obtain d where d: "d \<in> set cs'" "mem = chunk_ptr d + off" "off + sz \<le> chunk_size d"
        by (auto simp: placed_def)
      have "chunks_apart c1 d" "chunk_inv d" using inv d(1) by (auto simp: mm_inv_def list_all_iff)
      then have "disjoint_ranges mem sz p n" if "(p, n) \<in> chunk_allocs c" for p n
        using apart_allocs [of d c1 p n mem sz] that c1(1,2) d(2,3) by auto
      then show ?thesis using pl c1(2) by (auto simp: placed_def)
    qed
    moreover have "alloc_in_chunks ops sz (c # cs) h = Some (r, c1 # cs', h)"
      using False ih(1) by (simp add: c1_def Let_def)
    ultimately show ?thesis
      using inv ih(3,4) reg c1(2) by (intro exI [of _ r] exI [of _ "c1 # cs'"]) (auto split: option.splits)
  qed
qed (simp add: mm_inv_def)

lemma new_chunk_ok:
  assumes inv: "mm_inv cs" and sz: "0 < sz" "sz \<le> n" and p: "0 < p" "p + n < 4294967296"
    and apart: "\<forall>c\<in>set cs. disjoint_ranges (chunk_ptr c) (chunk_size c) p n"
  shows "\<exists>mem c. MemoryChunk_Alloc ops sz (MemoryChunk_new i (p, n)) h = Some (mem, c, h) \<and> mm_inv (cs @ [c]) \<and>
    mem \<noteq> 0 \<and> placed sz mem (chunk_shm_id c) (MemoryChunk_GetOffset mem c) cs (cs @ [c])"
proof -
  let ?c = "MemoryChunk_new i (p, n)"
  have ci: "chunk_inv ?c" "chunk_allocs ?c = {}" "chunk_ptr ?c = p" "chunk_size ?c = n"
    using sz p new_inv [of n]
    by (simp_all add: MemoryChunk_new_def chunk_inv_def chunk_allocs_def FencedAllocator_new_def)
  have "GetLargestFreeSizeWithoutWaiting ?c = n"
    by (simp add: GetLargestFreeSizeWithoutWaiting_def MemoryChunk_new_def GetLargestFreeSize_def FencedAllocator_new_def)
  then obtain mem c where a: "MemoryChunk_Alloc ops sz ?c h = Some (mem, c, h)" "chunk_inv c"
    "chunk_region c = chunk_region ?c" "chunk_allocs c = {(mem, sz)}"
    "mem = p + MemoryChunk_GetOffset mem c" "MemoryChunk_GetOffset mem c + sz \<le> n"
    using chunk_Alloc [OF ci(1) sz(1), of ops h] sz(2) ci by auto
  have r: "chunk_ptr c = p" "chunk_size c = n" using a(3) ci by (simp_all add: chunk_region_def)
  have inv': "mm_inv (cs @ [c])"
    using inv a(2) apart r by (simp add: mm_inv_def sorted_wrt_append chunks_apart_def)
  have "disjoint_ranges mem sz q m" if q: "(q, m) \<in> mm_allocs cs" for q m
  proof -
    obtain d where d: "d \<in> set cs" "chunk_inv d" "(q, m) \<in> chunk_allocs d" using q inv by (rule mm_allocD)
    have "chunks_apart d c" using apart d(1) r by (simp add: chunks_apart_def)
    moreover have "chunk_ptr c \<le> mem" "mem + sz \<le> chunk_ptr c + chunk_size c" using a(5,6) r by linarith+
    ultimately show ?thesis using apart_allocs [OF a(2) d(2) _ d(3)] by blast
  qed
  then have "placed sz mem (chunk_shm_id c) (MemoryChunk_GetOffset mem c) cs (cs @ [c])"
    unfolding placed_def using a(4,5,6) r by auto
  moreover have "mem \<noteq> 0" using a(5) p(1) by linarith
  ultimately show ?thesis using a(1) inv' by blast
qed

lemma placed_regions:
  assumes "placed sz mem i off cs1 cs2" "mm_allocs cs1 = mm_allocs cs"
  shows "placed sz mem i off cs cs2"
  using assms by (simp add: placed_def)

lemma Mapped_Alloc_ok:
  assumes inv: "mm_inv cs" and sz: "0 < sz" and fresh: "fresh_mapping tr sz cs"
  shows "\<exists>mem out cs' h'. Mapped_Alloc ops tr sz cs h = Some (mem, out, cs', h') \<and> mm_inv cs' \<and>
    (case out of None \<Rightarrow> mem = 0 \<and> mm_allocs cs' = mm_allocs cs
     | Some (shm_id, off) \<Rightarrow> mem \<noteq> 0 \<and> placed sz mem shm_id off cs cs')"
proof -
  obtain r cs1 where f: "alloc_in_chunks ops sz cs h = Some (r, cs1, h)" "mm_inv cs1"
    "map chunk_region cs1 = map chunk_region cs"
    "case r of None \<Rightarrow> mm_allocs cs1 = mm_allocs cs | Some (mem, shm_id, off) \<Rightarrow> placed sz mem shm_id off cs cs1"
    using alloc_in_chunks_ok [OF inv sz, of ops h] by blast
  show ?thesis
  proof (cases r)
    case (Some x)
    obtain mem shm_id off where x: "r = Some (mem, shm_id, off)" using Some by (cases x) auto
    have pl: "placed sz mem shm_id off cs cs1" using f(4) x by simp
    then obtain c where "c \<in> set cs1" "mem = chunk_ptr c + off" by (auto simp: placed_def)
    then have "mem \<noteq> 0" using f(2) by (auto simp: mm_inv_def list_all_iff chunk_inv_def)
    then show ?thesis using f(1,2) x pl
      by (intro exI [of _ mem] exI [of _ "Some (shm_id, off)"] exI [of _ cs1] exI [of _ h]) (simp add: Mapped_Alloc_def)
  next
    case None
    then have al: "mm_allocs cs1 = mm_allocs cs" using f(4) by simp
    obtain i h1 where i: "tr_CreateTransferBuffer tr sz (- 1) h = (i, h1)" by fastforce
    show ?thesis
    proof (cases "i = - 1")
      case True
      then show ?thesis using f(1,2) None i al by (simp add: Mapped_Alloc_def alloc_new_chunk_def)
    next
      case False
      obtain p n h2 where g: "tr_GetTransferBuffer tr i h1 = ((p, n), h2)" by (metis surj_pair)
      have fr: "sz \<le> n" "0 < p" "p + n < 4294967296"
        "\<forall>c\<in>set cs. disjoint_ranges (chunk_ptr c) (chunk_size c) p n"
        using fresh i g False unfolding fresh_mapping_def by blast+
      have "set (map chunk_region cs1) = set (map chunk_region cs)" using f(3) by simp
      then have ap: "\<forall>c\<in>set cs1. disjoint_ranges (chunk_ptr c) (chunk_size c) p n"
      proof (intro ballI)
        fix c
        assume "c \<in> set cs1"
        then obtain d where "d \<in> set cs" "chunk_region c = chunk_region d"
          using \<open>set (map chunk_region cs1) = _\<close> by (metis imageE image_eqI image_set)
        then show "disjoint_ranges (chunk_ptr c) (chunk_size c) p n" using fr(4) by (simp add: chunk_region_def)
      qed
      from new_chunk_ok [OF f(2) sz fr(1-3) ap, of ops i h2] obtain mem c where
        "MemoryChunk_Alloc ops sz (MemoryChunk_new i (p, n)) h2 = Some (mem, c, h2)" "mm_inv (cs1 @ [c])" "mem \<noteq> 0"
        "placed sz mem (chunk_shm_id c) (MemoryChunk_GetOffset mem c) cs1 (cs1 @ [c])" by blast
      then show ?thesis using f(1) None i g False placed_regions [OF _ al]
        by (intro exI [of _ mem] exI [of _ "Some (chunk_shm_id c, MemoryChunk_GetOffset mem c)"]
            exI [of _ "cs1 @ [c]"] exI [of _ h2]) (simp add: Mapped_Alloc_def alloc_new_chunk_def)
    qed
  qed
qed

text \<open>Freeing: the address leads to the chunk it was allocated from.\<close>

lemma chunk_free:
  assumes i: "chunk_inv c" and a: "(p, n) \<in> chunk_allocs c"
  shows "IsInChunk p c" "chunk_inv (MemoryChunk_Free p c)" "chunk_inv (MemoryChunk_FreePendingToken p t c)"
    "chunk_allocs (MemoryChunk_Free p c) = chunk_allocs c - {(p, n)}"
    "chunk_allocs (MemoryChunk_FreePendingToken p t c) = chunk_allocs c - {(p, n)}"
proof -
  note in_c = chunk_alloc_in [OF i a]
  have fa: "fa_inv (chunk_size c) (chunk_blocks c)" "0 < chunk_ptr c" "chunk_ptr c + chunk_size c < 4294967296"
    using i by (auto simp: chunk_inv_def)
  show "IsInChunk p c" using in_c fa(3) by (simp add: IsInChunk_def u32_add_exact)
  have off: "Wrapper_GetOffset (chunk_ptr c) p = p - chunk_ptr c"
    using in_c fa by (simp add: Wrapper_GetOffset_def u32_sub_exact)
  note F = free_allocation [OF fa(1) in_c(4)]
  show "chunk_inv (MemoryChunk_Free p c)" "chunk_inv (MemoryChunk_FreePendingToken p t c)"
    using i F(1,4) off
    by (simp_all add: chunk_inv_def MemoryChunk_Free_def MemoryChunk_FreePendingToken_def Wrapper_Free_def
        Wrapper_FreePendingToken_def)
  have inj: "inj_on (\<lambda>(off, m). (chunk_ptr c + off, m)) UNIV" by (auto simp: inj_on_def)
  have "(\<lambda>(off, m). (chunk_ptr c + off, m)) ` (allocations (chunk_blocks c) - {(p - chunk_ptr c, n)}) =
      chunk_allocs c - {(p, n)}"
    using in_c(1) by (simp add: chunk_allocs_def image_set_diff [OF inj [unfolded]])
  then show "chunk_allocs (MemoryChunk_Free p c) = chunk_allocs c - {(p, n)}"
    "chunk_allocs (MemoryChunk_FreePendingToken p t c) = chunk_allocs c - {(p, n)}"
    using F(2,5) off
    by (simp_all add: chunk_allocs_def MemoryChunk_Free_def MemoryChunk_FreePendingToken_def Wrapper_Free_def
        Wrapper_FreePendingToken_def)
qed

text \<open>Both ways of freeing change the first chunk that contains the address.\<close>

fun update_chunk :: "(MemoryChunk \<Rightarrow> MemoryChunk) \<Rightarrow> nat \<Rightarrow> MappedMemoryManager \<Rightarrow> MappedMemoryManager" where
  "update_chunk f p [] = []"
| "update_chunk f p (c # cs) = (if IsInChunk p c then f c # cs else c # update_chunk f p cs)"

lemma Mapped_Free_update: "Mapped_Free p cs = update_chunk (MemoryChunk_Free p) p cs"
  by (induction cs) auto

lemma Mapped_FreePendingToken_update:
  "Mapped_FreePendingToken p t cs = update_chunk (MemoryChunk_FreePendingToken p t) p cs"
  by (induction cs) auto

lemma IsInChunk_apart:
  assumes "chunk_inv c" "chunk_inv d" "chunks_apart c d" "IsInChunk p c"
  shows "(p, n) \<notin> chunk_allocs d"
proof
  assume "(p, n) \<in> chunk_allocs d"
  from chunk_alloc_in [OF assms(2) this] assms(1,3,4) show False
    by (auto simp: IsInChunk_def chunks_apart_def disjoint_ranges_def chunk_inv_def u32_add_exact)
qed

lemma update_chunk_ok:
  assumes "mm_inv cs" "(p, n) \<in> mm_allocs cs"
    and f: "\<And>c. chunk_inv c \<Longrightarrow> (p, n) \<in> chunk_allocs c \<Longrightarrow>
      chunk_inv (f c) \<and> chunk_allocs (f c) = chunk_allocs c - {(p, n)}"
    and reg: "\<And>c. chunk_region (f c) = chunk_region c"
  shows "mm_inv (update_chunk f p cs) \<and> mm_allocs (update_chunk f p cs) = mm_allocs cs - {(p, n)} \<and>
    map chunk_region (update_chunk f p cs) = map chunk_region cs"
  using assms(1,2)
proof (induction cs)
  case (Cons c cs)
  have c: "chunk_inv c" "mm_inv cs" "\<forall>d\<in>set cs. chunk_inv d \<and> chunks_apart c d"
    using Cons.prems(1) by (auto simp: mm_inv_def list_all_iff)
  show ?case
  proof (cases "IsInChunk p c")
    case True
    have no: "(p, n) \<notin> mm_allocs cs"
      using IsInChunk_apart [OF c(1) _ _ True] c(3) by (auto simp: mm_allocs_def)
    then have "(p, n) \<in> chunk_allocs c" using Cons.prems(2) by simp
    note fc = f [OF c(1) this]
    have "mm_allocs (f c # cs) = mm_allocs (c # cs) - {(p, n)}" using fc no by auto
    moreover have r: "map chunk_region (f c # cs) = map chunk_region (c # cs)" by (simp add: reg)
    then have "sorted_wrt chunks_apart (f c # cs)"
      using Cons.prems(1) by (simp only: mm_inv_def apart_regions)
    then have "mm_inv (f c # cs)" using fc c(2) by (simp add: mm_inv_def)
    ultimately show ?thesis using True r by simp
  next
    case False
    then have no: "(p, n) \<notin> chunk_allocs c" using chunk_free(1) [OF c(1)] by blast
    then have ih: "mm_inv (update_chunk f p cs)" "mm_allocs (update_chunk f p cs) = mm_allocs cs - {(p, n)}"
      "map chunk_region (update_chunk f p cs) = map chunk_region cs"
      using Cons.IH c(2) Cons.prems(2) by auto
    have r: "map chunk_region (c # update_chunk f p cs) = map chunk_region (c # cs)" using ih(3) by simp
    then have "sorted_wrt chunks_apart (c # update_chunk f p cs)"
      using Cons.prems(1) by (simp only: mm_inv_def apart_regions)
    then have "mm_inv (c # update_chunk f p cs)" using ih(1) c(1) by (simp add: mm_inv_def)
    then show ?thesis using False ih(2) no r by auto
  qed
qed simp

lemma Mapped_FreeUnused_ok:
  assumes "mm_inv cs" "Mapped_FreeUnused ops tr cs h = (cs', h')"
  shows "mm_inv cs' \<and> mm_allocs cs' = mm_allocs cs \<and> list_all MemoryChunk_InUse cs' \<and>
    set (map chunk_region cs') \<subseteq> set (map chunk_region cs)"
  using assms
proof (induction cs arbitrary: h cs' h')
  case (Cons c cs)
  have c: "chunk_inv c" "mm_inv cs" "\<forall>d\<in>set cs. chunks_apart c d"
    using Cons.prems(1) by (auto simp: mm_inv_def)
  define c1 where "c1 = MemoryChunk_FreeUnused ops h c"
  note c1 = chunk_FreeUnused [OF c(1), of ops h, folded c1_def]
  show ?case
  proof (cases "MemoryChunk_InUse c1")
    case False
    then obtain b where b: "chunk_blocks c1 = [b]" "blk_state b = FREE"
      by (cases "chunk_blocks c1"; cases "tl (chunk_blocks c1)") (auto simp: MemoryChunk_InUse_def FencedAllocator_InUse_def)
    then have "chunk_allocs c = {}" using c1(2) by (simp add: chunk_allocs_def)
    moreover have "Mapped_FreeUnused ops tr cs (tr_DestroyTransferBuffer tr (chunk_shm_id c1) h) = (cs', h')"
      using Cons.prems(2) False by (simp add: c1_def Let_def)
    note ih = Cons.IH [OF c(2) this]
    ultimately show ?thesis using ih by auto
  next
    case True
    obtain cs1 h1 where f: "Mapped_FreeUnused ops tr cs h = (cs1, h1)" by fastforce
    have r: "cs' = c1 # cs1" using Cons.prems(2) True f by (simp add: c1_def Let_def)
    note ih = Cons.IH [OF c(2) f]
    have reg: "chunk_region c1 = chunk_region c" using c1 by (simp add: chunk_region_def)
    have "chunks_apart c1 d" if d: "d \<in> set cs1" for d
    proof -
      obtain d' where "d' \<in> set cs" "chunk_region d = chunk_region d'" using ih d by auto
      then show ?thesis using c(3) c1(3,4) by (simp add: chunks_apart_def chunk_region_def)
    qed
    then have "mm_inv (c1 # cs1)" using ih c1(1) by (simp add: mm_inv_def)
    then show ?thesis using ih True reg c1(2) by (auto simp: r)
  qed
qed simp

section \<open>Properties\<close>

text \<open>
  C28: \<^verbatim>\<open>MappedMemoryManager::Alloc\<close> of at least one byte returns without waiting for a token. Either no
  transfer buffer could be created, or the block it returns is free of overlap with every live
  allocation, lies inside the chunk named by the output parameters, and is the only change.
\<close>

theorem mapped_alloc_disjoint:
  assumes "mm_inv cs" "0 < sz" "fresh_mapping tr sz cs"
  shows "\<exists>mem out cs' h'. Mapped_Alloc ops tr sz cs h = Some (mem, out, cs', h') \<and> mm_inv cs' \<and>
    (case out of None \<Rightarrow> mem = 0 \<and> mm_allocs cs' = mm_allocs cs
     | Some (shm_id, off) \<Rightarrow> mem \<noteq> 0 \<and> placed sz mem shm_id off cs cs')"
  by (rule Mapped_Alloc_ok [OF assms])

text \<open>A sample: one chunk of 16 bytes at address 1000; a new mapping lies at address 2000.\<close>

definition sample_chunks :: MappedMemoryManager where
  "sample_chunks = [\<lparr>chunk_shm_id = 3, chunk_ptr = 1000, chunk_size = 16, chunk_blocks = sample_blocks\<rparr>]"

definition sample_transfer :: "int transfer_if" where
  "sample_transfer = \<lparr>tr_CreateTransferBuffer = (\<lambda>n i h. (4, h)), tr_GetTransferBuffer = (\<lambda>i h. ((2000, 64), h)),
     tr_DestroyTransferBuffer = (\<lambda>i h. h)\<rparr>"

lemma sample_chunks_inv: "mm_inv sample_chunks"
  using fa_reach_inv [OF sample_reach] by (simp add: mm_inv_def sample_chunks_def chunk_inv_def)

lemma sample_fresh: "sz \<le> 64 \<Longrightarrow> fresh_mapping sample_transfer sz sample_chunks"
  by (auto simp: fresh_mapping_def sample_transfer_def sample_chunks_def disjoint_ranges_def)

theorem mapped_alloc_disjoint_witness:
  "\<exists>mem out cs' h'. Mapped_Alloc sample_helper sample_transfer 20 sample_chunks 5 = Some (mem, out, cs', h') \<and> mm_inv cs'"
  using mapped_alloc_disjoint [OF sample_chunks_inv _ sample_fresh, of 20 sample_helper 5] by auto

text \<open>
  \<^verbatim>\<open>Free\<close> and \<^verbatim>\<open>FreePendingToken\<close> of an address that was handed out take exactly this allocation out.
\<close>

theorem mapped_free_removes:
  assumes "mm_inv cs" "(p, n) \<in> mm_allocs cs"
  shows "mm_inv (Mapped_Free p cs) \<and> mm_allocs (Mapped_Free p cs) = mm_allocs cs - {(p, n)} \<and>
    mm_inv (Mapped_FreePendingToken p t cs) \<and> mm_allocs (Mapped_FreePendingToken p t cs) = mm_allocs cs - {(p, n)}"
proof -
  have "mm_inv (update_chunk (MemoryChunk_Free p) p cs) \<and>
      mm_allocs (update_chunk (MemoryChunk_Free p) p cs) = mm_allocs cs - {(p, n)}"
    using update_chunk_ok [OF assms, of "MemoryChunk_Free p"] chunk_free(2,4)
    by (simp add: MemoryChunk_Free_def chunk_region_def)
  moreover have "mm_inv (update_chunk (MemoryChunk_FreePendingToken p t) p cs) \<and>
      mm_allocs (update_chunk (MemoryChunk_FreePendingToken p t) p cs) = mm_allocs cs - {(p, n)}"
    using update_chunk_ok [OF assms, of "MemoryChunk_FreePendingToken p t"] chunk_free(3,5)
    by (simp add: MemoryChunk_FreePendingToken_def chunk_region_def)
  ultimately show ?thesis by (simp add: Mapped_Free_update Mapped_FreePendingToken_update)
qed

theorem mapped_free_removes_witness:
  "mm_allocs (Mapped_Free 1004 sample_chunks) = mm_allocs sample_chunks - {(1004, 4)}"
proof -
  have "(1004, 4) \<in> mm_allocs sample_chunks"
    by (simp add: sample_chunks_def chunk_allocs_def sample_blocks_def)
  from mapped_free_removes [OF sample_chunks_inv this] show ?thesis by simp
qed

text \<open>
  \<^verbatim>\<open>MappedMemoryManager::FreeUnused\<close> destroys no live allocation, and every chunk it keeps is in use.
\<close>

theorem mapped_free_unused:
  assumes "mm_inv cs"
  shows "mm_inv (fst (Mapped_FreeUnused ops tr cs h)) \<and>
    mm_allocs (fst (Mapped_FreeUnused ops tr cs h)) = mm_allocs cs \<and>
    list_all MemoryChunk_InUse (fst (Mapped_FreeUnused ops tr cs h))"
  using Mapped_FreeUnused_ok [OF assms, of ops tr h] by (cases "Mapped_FreeUnused ops tr cs h") simp

theorem mapped_free_unused_witness:
  "mm_allocs (fst (Mapped_FreeUnused sample_helper sample_transfer sample_chunks 9)) = mm_allocs sample_chunks"
  using mapped_free_unused [OF sample_chunks_inv, of sample_helper sample_transfer 9] by simp

end
