(* ===== verification/Client_Allocators.thy ===== *)
theory Client_Allocators
  imports Client_Service Ring_Buffer Mapped_Memory
begin

text \<open>
  The client's ring buffer on the real helper and service: its waits are the helper's
  \<^verbatim>\<open>WaitForToken\<close>, so that what holds of it under the contract of \<open>Token_Interface\<close> holds end to end.
\<close>

context service_loop
begin

lemma client_ring_alloc:
  assumes "client_token_ok gles2_info gles2_handle lost clk h cs" "rb_inv rb" "sz \<le> size_' rb"
  shows "\<exists>off rb' h' cs' old kept pad. RingBuffer_Alloc (token_ops cb) sz rb h = Some (off, rb', h') \<and>
    client_token_ok gles2_info gles2_handle lost clk h' cs' \<and> rb_inv rb' \<and>
    base_offset_' rb \<le> off \<and> off + max 1 sz \<le> base_offset_' rb + size_' rb \<and>
    blocks_' rb = old @ kept \<and>
    blocks_' rb' = kept @ pad @ [RingBuffer_Block_new (off - base_offset_' rb) (max 1 sz) RB_IN_USE] \<and>
    (\<forall>b\<in>set pad. rb_state b = RB_PADDING) \<and>
    (\<forall>b\<in>set old. rb_state b = RB_FREE_PENDING_TOKEN \<longrightarrow> token_passed cb (i32 (int (rb_token b))) h')"
proof -
  have h: "helper_inv cb ring_entries client_inv (plain_cmd D) h"
    using assms(1) by (auto simp: helper_inv_def client_token_ok_def)
  obtain off rb' h' where a: "RingBuffer_Alloc (token_ops cb) sz rb h = Some (off, rb', h')"
    using client.live_tokens.RingBuffer_Alloc_returns [OF assms(2) h assms(3)] by blast
  note post = client.tokens.Alloc_post [OF a assms(2) h]
  then obtain cs' where "client_token_ok gles2_info gles2_handle lost clk h' cs'"
    by (auto simp: helper_inv_def client_token_ok_def)
  moreover have "off + max 1 sz \<le> base_offset_' rb + size_' rb" using post by linarith
  ultimately show ?thesis using a post by blast
qed

end

section \<open>Properties\<close>

text \<open>
  C14: \<^verbatim>\<open>RingBuffer::Alloc\<close> of at most the size of the buffer returns. The block lies inside the buffer;
  the blocks that had to go are the oldest ones, and if they were freed, their tokens have been
  read by the service, unless it reports an error; all other blocks stay.
\<close>

theorem ring_alloc_on_service:
  assumes "\<And>c n args s. handler_frame s (snd (gles2_handle c n args s))" "length gles2_info \<le> 4294967040"
    and "client_token_ok gles2_info gles2_handle lost clk h cs" "rb_inv rb" "sz \<le> size_' rb"
  shows "\<exists>off rb' h' cs' old kept pad.
    RingBuffer_Alloc (token_ops (service_cb gles2_info gles2_handle lost clk)) sz rb h = Some (off, rb', h') \<and>
    client_token_ok gles2_info gles2_handle lost clk h' cs' \<and> rb_inv rb' \<and>
    base_offset_' rb \<le> off \<and> off + max 1 sz \<le> base_offset_' rb + size_' rb \<and>
    blocks_' rb = old @ kept \<and>
    blocks_' rb' = kept @ pad @ [RingBuffer_Block_new (off - base_offset_' rb) (max 1 sz) RB_IN_USE] \<and>
    (\<forall>b\<in>set pad. rb_state b = RB_PADDING) \<and>
    (\<forall>b\<in>set old. rb_state b = RB_FREE_PENDING_TOKEN \<longrightarrow>
      token_passed (service_cb gles2_info gles2_handle lost clk) (i32 (int (rb_token b))) h')"
  by (rule service_loop.client_ring_alloc [OF service_loopI [OF assms(1,2)] assms(3-5)])

theorem ring_alloc_on_service_witness:
  "\<exists>off rb' h'. RingBuffer_Alloc (token_ops sample_cb) 30 sample_ring sample_client = Some (off, rb', h') \<and>
    16 \<le> off \<and> off + 30 \<le> 80"
proof -
  have f: "\<And>c n args s. handler_frame s (snd (no_handle c n args (s :: client_world)))" by simp
  have i: "rb_inv sample_ring" using rb_reach_inv [OF sample_ring_reach] by simp
  have s: "size_' sample_ring = 64" "base_offset_' sample_ring = 16" by (simp_all add: sample_ring_def)
  from ring_alloc_on_service [OF f _ sample_client_token_ok i, of 30] s show ?thesis by auto
qed

end
