(* ===== verification/Gl_Enums.thy ===== *)
theory Gl_Enums
  imports Prelude
begin

text \<open>
  The OpenGL ES types and the enumeration constants the modelled sources name, with the values of
  \<^verbatim>\<open>gpu/GLES2/gl2.h\<close>, \<^verbatim>\<open>gpu/GLES2/gl2ext.h\<close> and, for desktop GL, \<^verbatim>\<open>GL/glext.h\<close>. Enumerations, unsigned and signed 32-bit
  integers are all \<open>32 word\<close>; a signed reading is written out with \<^const>\<open>sint\<close> where the C++ type
  of the operand is signed.
\<close>

type_synonym GLenum = "32 word"
type_synonym GLuint = "32 word"
type_synonym uint32 = "32 word"
type_synonym GLint = "32 word"
type_synonym GLsizei = "32 word"
type_synonym GLsizeiptr = "32 word"
type_synonym GLintptr = "32 word"

abbreviation (input) GL_ACTIVE_TEXTURE :: GLenum where "GL_ACTIVE_TEXTURE \<equiv> 0x84E0"
abbreviation (input) GL_ALIASED_LINE_WIDTH_RANGE :: GLenum where "GL_ALIASED_LINE_WIDTH_RANGE \<equiv> 0x846E"
abbreviation (input) GL_ALIASED_POINT_SIZE_RANGE :: GLenum where "GL_ALIASED_POINT_SIZE_RANGE \<equiv> 0x846D"
abbreviation (input) GL_ALPHA_BITS :: GLenum where "GL_ALPHA_BITS \<equiv> 0x0D55"
abbreviation (input) GL_ARRAY_BUFFER_BINDING :: GLenum where "GL_ARRAY_BUFFER_BINDING \<equiv> 0x8894"
abbreviation (input) GL_BLEND :: GLenum where "GL_BLEND \<equiv> 0x0BE2"
abbreviation (input) GL_BLEND_COLOR :: GLenum where "GL_BLEND_COLOR \<equiv> 0x8005"
abbreviation (input) GL_BLEND_DST_ALPHA :: GLenum where "GL_BLEND_DST_ALPHA \<equiv> 0x80CA"
abbreviation (input) GL_BLEND_DST_RGB :: GLenum where "GL_BLEND_DST_RGB \<equiv> 0x80C8"
abbreviation (input) GL_BLEND_EQUATION_ALPHA :: GLenum where "GL_BLEND_EQUATION_ALPHA \<equiv> 0x883D"
abbreviation (input) GL_BLEND_SRC_ALPHA :: GLenum where "GL_BLEND_SRC_ALPHA \<equiv> 0x80CB"
abbreviation (input) GL_BLEND_SRC_RGB :: GLenum where "GL_BLEND_SRC_RGB \<equiv> 0x80C9"
abbreviation (input) GL_BLUE_BITS :: GLenum where "GL_BLUE_BITS \<equiv> 0x0D54"
abbreviation (input) GL_COLOR_CLEAR_VALUE :: GLenum where "GL_COLOR_CLEAR_VALUE \<equiv> 0x0C22"
abbreviation (input) GL_COLOR_WRITEMASK :: GLenum where "GL_COLOR_WRITEMASK \<equiv> 0x0C23"
abbreviation (input) GL_COMPRESSED_TEXTURE_FORMATS :: GLenum where "GL_COMPRESSED_TEXTURE_FORMATS \<equiv> 0x86A3"
abbreviation (input) GL_CULL_FACE :: GLenum where "GL_CULL_FACE \<equiv> 0x0B44"
abbreviation (input) GL_CULL_FACE_MODE :: GLenum where "GL_CULL_FACE_MODE \<equiv> 0x0B45"
abbreviation (input) GL_CURRENT_PROGRAM :: GLenum where "GL_CURRENT_PROGRAM \<equiv> 0x8B8D"
abbreviation (input) GL_DEPTH_BITS :: GLenum where "GL_DEPTH_BITS \<equiv> 0x0D56"
abbreviation (input) GL_DEPTH_CLEAR_VALUE :: GLenum where "GL_DEPTH_CLEAR_VALUE \<equiv> 0x0B73"
abbreviation (input) GL_DEPTH_FUNC :: GLenum where "GL_DEPTH_FUNC \<equiv> 0x0B74"
abbreviation (input) GL_DEPTH_RANGE :: GLenum where "GL_DEPTH_RANGE \<equiv> 0x0B70"
abbreviation (input) GL_DEPTH_TEST :: GLenum where "GL_DEPTH_TEST \<equiv> 0x0B71"
abbreviation (input) GL_DEPTH_WRITEMASK :: GLenum where "GL_DEPTH_WRITEMASK \<equiv> 0x0B72"
abbreviation (input) GL_DITHER :: GLenum where "GL_DITHER \<equiv> 0x0BD0"
abbreviation (input) GL_ELEMENT_ARRAY_BUFFER_BINDING :: GLenum where "GL_ELEMENT_ARRAY_BUFFER_BINDING \<equiv> 0x8895"
abbreviation (input) GL_FRAMEBUFFER_BINDING :: GLenum where "GL_FRAMEBUFFER_BINDING \<equiv> 0x8CA6"
abbreviation (input) GL_FRONT_FACE :: GLenum where "GL_FRONT_FACE \<equiv> 0x0B46"
abbreviation (input) GL_GENERATE_MIPMAP_HINT :: GLenum where "GL_GENERATE_MIPMAP_HINT \<equiv> 0x8192"
abbreviation (input) GL_GREEN_BITS :: GLenum where "GL_GREEN_BITS \<equiv> 0x0D53"
abbreviation (input) GL_IMPLEMENTATION_COLOR_READ_FORMAT :: GLenum where "GL_IMPLEMENTATION_COLOR_READ_FORMAT \<equiv> 0x8B9B"
abbreviation (input) GL_IMPLEMENTATION_COLOR_READ_TYPE :: GLenum where "GL_IMPLEMENTATION_COLOR_READ_TYPE \<equiv> 0x8B9A"
abbreviation (input) GL_LINE_WIDTH :: GLenum where "GL_LINE_WIDTH \<equiv> 0x0B21"
abbreviation (input) GL_MAX_COMBINED_TEXTURE_IMAGE_UNITS :: GLenum where "GL_MAX_COMBINED_TEXTURE_IMAGE_UNITS \<equiv> 0x8B4D"
abbreviation (input) GL_MAX_CUBE_MAP_TEXTURE_SIZE :: GLenum where "GL_MAX_CUBE_MAP_TEXTURE_SIZE \<equiv> 0x851C"
abbreviation (input) GL_MAX_FRAGMENT_UNIFORM_VECTORS :: GLenum where "GL_MAX_FRAGMENT_UNIFORM_VECTORS \<equiv> 0x8DFD"
abbreviation (input) GL_MAX_RENDERBUFFER_SIZE :: GLenum where "GL_MAX_RENDERBUFFER_SIZE \<equiv> 0x84E8"
abbreviation (input) GL_MAX_TEXTURE_IMAGE_UNITS :: GLenum where "GL_MAX_TEXTURE_IMAGE_UNITS \<equiv> 0x8872"
abbreviation (input) GL_MAX_TEXTURE_SIZE :: GLenum where "GL_MAX_TEXTURE_SIZE \<equiv> 0x0D33"
abbreviation (input) GL_MAX_VARYING_VECTORS :: GLenum where "GL_MAX_VARYING_VECTORS \<equiv> 0x8DFC"
abbreviation (input) GL_MAX_VERTEX_ATTRIBS :: GLenum where "GL_MAX_VERTEX_ATTRIBS \<equiv> 0x8869"
abbreviation (input) GL_MAX_VERTEX_TEXTURE_IMAGE_UNITS :: GLenum where "GL_MAX_VERTEX_TEXTURE_IMAGE_UNITS \<equiv> 0x8B4C"
abbreviation (input) GL_MAX_VERTEX_UNIFORM_VECTORS :: GLenum where "GL_MAX_VERTEX_UNIFORM_VECTORS \<equiv> 0x8DFB"
abbreviation (input) GL_MAX_VIEWPORT_DIMS :: GLenum where "GL_MAX_VIEWPORT_DIMS \<equiv> 0x0D3A"
abbreviation (input) GL_NUM_COMPRESSED_TEXTURE_FORMATS :: GLenum where "GL_NUM_COMPRESSED_TEXTURE_FORMATS \<equiv> 0x86A2"
abbreviation (input) GL_NUM_SHADER_BINARY_FORMATS :: GLenum where "GL_NUM_SHADER_BINARY_FORMATS \<equiv> 0x8DF9"
abbreviation (input) GL_PACK_ALIGNMENT :: GLenum where "GL_PACK_ALIGNMENT \<equiv> 0x0D05"
abbreviation (input) GL_POLYGON_OFFSET_FACTOR :: GLenum where "GL_POLYGON_OFFSET_FACTOR \<equiv> 0x8038"
abbreviation (input) GL_POLYGON_OFFSET_FILL :: GLenum where "GL_POLYGON_OFFSET_FILL \<equiv> 0x8037"
abbreviation (input) GL_POLYGON_OFFSET_UNITS :: GLenum where "GL_POLYGON_OFFSET_UNITS \<equiv> 0x2A00"
abbreviation (input) GL_RED_BITS :: GLenum where "GL_RED_BITS \<equiv> 0x0D52"
abbreviation (input) GL_RENDERBUFFER_BINDING :: GLenum where "GL_RENDERBUFFER_BINDING \<equiv> 0x8CA7"
abbreviation (input) GL_SAMPLE_BUFFERS :: GLenum where "GL_SAMPLE_BUFFERS \<equiv> 0x80A8"
abbreviation (input) GL_SAMPLE_COVERAGE_INVERT :: GLenum where "GL_SAMPLE_COVERAGE_INVERT \<equiv> 0x80AB"
abbreviation (input) GL_SAMPLE_COVERAGE_VALUE :: GLenum where "GL_SAMPLE_COVERAGE_VALUE \<equiv> 0x80AA"
abbreviation (input) GL_SAMPLES :: GLenum where "GL_SAMPLES \<equiv> 0x80A9"
abbreviation (input) GL_SCISSOR_BOX :: GLenum where "GL_SCISSOR_BOX \<equiv> 0x0C10"
abbreviation (input) GL_SCISSOR_TEST :: GLenum where "GL_SCISSOR_TEST \<equiv> 0x0C11"
abbreviation (input) GL_SHADER_BINARY_FORMATS :: GLenum where "GL_SHADER_BINARY_FORMATS \<equiv> 0x8DF8"
abbreviation (input) GL_SHADER_COMPILER :: GLenum where "GL_SHADER_COMPILER \<equiv> 0x8DFA"
abbreviation (input) GL_STENCIL_BACK_FAIL :: GLenum where "GL_STENCIL_BACK_FAIL \<equiv> 0x8801"
abbreviation (input) GL_STENCIL_BACK_FUNC :: GLenum where "GL_STENCIL_BACK_FUNC \<equiv> 0x8800"
abbreviation (input) GL_STENCIL_BACK_PASS_DEPTH_FAIL :: GLenum where "GL_STENCIL_BACK_PASS_DEPTH_FAIL \<equiv> 0x8802"
abbreviation (input) GL_STENCIL_BACK_PASS_DEPTH_PASS :: GLenum where "GL_STENCIL_BACK_PASS_DEPTH_PASS \<equiv> 0x8803"
abbreviation (input) GL_STENCIL_BACK_REF :: GLenum where "GL_STENCIL_BACK_REF \<equiv> 0x8CA3"
abbreviation (input) GL_STENCIL_BACK_VALUE_MASK :: GLenum where "GL_STENCIL_BACK_VALUE_MASK \<equiv> 0x8CA4"
abbreviation (input) GL_STENCIL_BACK_WRITEMASK :: GLenum where "GL_STENCIL_BACK_WRITEMASK \<equiv> 0x8CA5"
abbreviation (input) GL_STENCIL_BITS :: GLenum where "GL_STENCIL_BITS \<equiv> 0x0D57"
abbreviation (input) GL_STENCIL_CLEAR_VALUE :: GLenum where "GL_STENCIL_CLEAR_VALUE \<equiv> 0x0B91"
abbreviation (input) GL_STENCIL_FAIL :: GLenum where "GL_STENCIL_FAIL \<equiv> 0x0B94"
abbreviation (input) GL_STENCIL_FUNC :: GLenum where "GL_STENCIL_FUNC \<equiv> 0x0B92"
abbreviation (input) GL_STENCIL_PASS_DEPTH_FAIL :: GLenum where "GL_STENCIL_PASS_DEPTH_FAIL \<equiv> 0x0B95"
abbreviation (input) GL_STENCIL_PASS_DEPTH_PASS :: GLenum where "GL_STENCIL_PASS_DEPTH_PASS \<equiv> 0x0B96"
abbreviation (input) GL_STENCIL_REF :: GLenum where "GL_STENCIL_REF \<equiv> 0x0B97"
abbreviation (input) GL_STENCIL_TEST :: GLenum where "GL_STENCIL_TEST \<equiv> 0x0B90"
abbreviation (input) GL_STENCIL_VALUE_MASK :: GLenum where "GL_STENCIL_VALUE_MASK \<equiv> 0x0B93"
abbreviation (input) GL_STENCIL_WRITEMASK :: GLenum where "GL_STENCIL_WRITEMASK \<equiv> 0x0B98"
abbreviation (input) GL_SUBPIXEL_BITS :: GLenum where "GL_SUBPIXEL_BITS \<equiv> 0x0D50"
abbreviation (input) GL_TEXTURE_BINDING_2D :: GLenum where "GL_TEXTURE_BINDING_2D \<equiv> 0x8069"
abbreviation (input) GL_TEXTURE_BINDING_CUBE_MAP :: GLenum where "GL_TEXTURE_BINDING_CUBE_MAP \<equiv> 0x8514"
abbreviation (input) GL_TEXTURE_BINDING_EXTERNAL_OES :: GLenum where "GL_TEXTURE_BINDING_EXTERNAL_OES \<equiv> 0x8D67"
abbreviation (input) GL_UNPACK_ALIGNMENT :: GLenum where "GL_UNPACK_ALIGNMENT \<equiv> 0x0CF5"
abbreviation (input) GL_VIEWPORT :: GLenum where "GL_VIEWPORT \<equiv> 0x0BA2"
abbreviation (input) GL_BUFFER_SIZE :: GLenum where "GL_BUFFER_SIZE \<equiv> 0x8764"
abbreviation (input) GL_BUFFER_USAGE :: GLenum where "GL_BUFFER_USAGE \<equiv> 0x8765"
abbreviation (input) GL_FRAMEBUFFER_ATTACHMENT_OBJECT_TYPE :: GLenum where "GL_FRAMEBUFFER_ATTACHMENT_OBJECT_TYPE \<equiv> 0x8CD0"
abbreviation (input) GL_FRAMEBUFFER_ATTACHMENT_OBJECT_NAME :: GLenum where "GL_FRAMEBUFFER_ATTACHMENT_OBJECT_NAME \<equiv> 0x8CD1"
abbreviation (input) GL_FRAMEBUFFER_ATTACHMENT_TEXTURE_LEVEL :: GLenum where "GL_FRAMEBUFFER_ATTACHMENT_TEXTURE_LEVEL \<equiv> 0x8CD2"
abbreviation (input) GL_FRAMEBUFFER_ATTACHMENT_TEXTURE_CUBE_MAP_FACE :: GLenum where "GL_FRAMEBUFFER_ATTACHMENT_TEXTURE_CUBE_MAP_FACE \<equiv> 0x8CD3"
abbreviation (input) GL_DELETE_STATUS :: GLenum where "GL_DELETE_STATUS \<equiv> 0x8B80"
abbreviation (input) GL_LINK_STATUS :: GLenum where "GL_LINK_STATUS \<equiv> 0x8B82"
abbreviation (input) GL_VALIDATE_STATUS :: GLenum where "GL_VALIDATE_STATUS \<equiv> 0x8B83"
abbreviation (input) GL_INFO_LOG_LENGTH :: GLenum where "GL_INFO_LOG_LENGTH \<equiv> 0x8B84"
abbreviation (input) GL_ATTACHED_SHADERS :: GLenum where "GL_ATTACHED_SHADERS \<equiv> 0x8B85"
abbreviation (input) GL_ACTIVE_ATTRIBUTES :: GLenum where "GL_ACTIVE_ATTRIBUTES \<equiv> 0x8B89"
abbreviation (input) GL_ACTIVE_ATTRIBUTE_MAX_LENGTH :: GLenum where "GL_ACTIVE_ATTRIBUTE_MAX_LENGTH \<equiv> 0x8B8A"
abbreviation (input) GL_ACTIVE_UNIFORMS :: GLenum where "GL_ACTIVE_UNIFORMS \<equiv> 0x8B86"
abbreviation (input) GL_ACTIVE_UNIFORM_MAX_LENGTH :: GLenum where "GL_ACTIVE_UNIFORM_MAX_LENGTH \<equiv> 0x8B87"
abbreviation (input) GL_RENDERBUFFER_WIDTH :: GLenum where "GL_RENDERBUFFER_WIDTH \<equiv> 0x8D42"
abbreviation (input) GL_RENDERBUFFER_HEIGHT :: GLenum where "GL_RENDERBUFFER_HEIGHT \<equiv> 0x8D43"
abbreviation (input) GL_RENDERBUFFER_INTERNAL_FORMAT :: GLenum where "GL_RENDERBUFFER_INTERNAL_FORMAT \<equiv> 0x8D44"
abbreviation (input) GL_RENDERBUFFER_RED_SIZE :: GLenum where "GL_RENDERBUFFER_RED_SIZE \<equiv> 0x8D50"
abbreviation (input) GL_RENDERBUFFER_GREEN_SIZE :: GLenum where "GL_RENDERBUFFER_GREEN_SIZE \<equiv> 0x8D51"
abbreviation (input) GL_RENDERBUFFER_BLUE_SIZE :: GLenum where "GL_RENDERBUFFER_BLUE_SIZE \<equiv> 0x8D52"
abbreviation (input) GL_RENDERBUFFER_ALPHA_SIZE :: GLenum where "GL_RENDERBUFFER_ALPHA_SIZE \<equiv> 0x8D53"
abbreviation (input) GL_RENDERBUFFER_DEPTH_SIZE :: GLenum where "GL_RENDERBUFFER_DEPTH_SIZE \<equiv> 0x8D54"
abbreviation (input) GL_RENDERBUFFER_STENCIL_SIZE :: GLenum where "GL_RENDERBUFFER_STENCIL_SIZE \<equiv> 0x8D55"
abbreviation (input) GL_SHADER_TYPE :: GLenum where "GL_SHADER_TYPE \<equiv> 0x8B4F"
abbreviation (input) GL_COMPILE_STATUS :: GLenum where "GL_COMPILE_STATUS \<equiv> 0x8B81"
abbreviation (input) GL_SHADER_SOURCE_LENGTH :: GLenum where "GL_SHADER_SOURCE_LENGTH \<equiv> 0x8B88"
abbreviation (input) GL_TRANSLATED_SHADER_SOURCE_LENGTH_ANGLE :: GLenum where "GL_TRANSLATED_SHADER_SOURCE_LENGTH_ANGLE \<equiv> 0x93A0"
abbreviation (input) GL_TEXTURE_MAG_FILTER :: GLenum where "GL_TEXTURE_MAG_FILTER \<equiv> 0x2800"
abbreviation (input) GL_TEXTURE_MIN_FILTER :: GLenum where "GL_TEXTURE_MIN_FILTER \<equiv> 0x2801"
abbreviation (input) GL_TEXTURE_WRAP_S :: GLenum where "GL_TEXTURE_WRAP_S \<equiv> 0x2802"
abbreviation (input) GL_TEXTURE_WRAP_T :: GLenum where "GL_TEXTURE_WRAP_T \<equiv> 0x2803"
abbreviation (input) GL_VERTEX_ATTRIB_ARRAY_BUFFER_BINDING :: GLenum where "GL_VERTEX_ATTRIB_ARRAY_BUFFER_BINDING \<equiv> 0x889F"
abbreviation (input) GL_VERTEX_ATTRIB_ARRAY_ENABLED :: GLenum where "GL_VERTEX_ATTRIB_ARRAY_ENABLED \<equiv> 0x8622"
abbreviation (input) GL_VERTEX_ATTRIB_ARRAY_SIZE :: GLenum where "GL_VERTEX_ATTRIB_ARRAY_SIZE \<equiv> 0x8623"
abbreviation (input) GL_VERTEX_ATTRIB_ARRAY_STRIDE :: GLenum where "GL_VERTEX_ATTRIB_ARRAY_STRIDE \<equiv> 0x8624"
abbreviation (input) GL_VERTEX_ATTRIB_ARRAY_TYPE :: GLenum where "GL_VERTEX_ATTRIB_ARRAY_TYPE \<equiv> 0x8625"
abbreviation (input) GL_VERTEX_ATTRIB_ARRAY_NORMALIZED :: GLenum where "GL_VERTEX_ATTRIB_ARRAY_NORMALIZED \<equiv> 0x886A"
abbreviation (input) GL_CURRENT_VERTEX_ATTRIB :: GLenum where "GL_CURRENT_VERTEX_ATTRIB \<equiv> 0x8626"
abbreviation (input) GL_FRAGMENT_SHADER_DERIVATIVE_HINT_OES :: GLenum where "GL_FRAGMENT_SHADER_DERIVATIVE_HINT_OES \<equiv> 0x8B8B"
abbreviation (input) GL_UNSIGNED_SHORT_5_6_5 :: GLenum where "GL_UNSIGNED_SHORT_5_6_5 \<equiv> 0x8363"
abbreviation (input) GL_UNSIGNED_SHORT_4_4_4_4 :: GLenum where "GL_UNSIGNED_SHORT_4_4_4_4 \<equiv> 0x8033"
abbreviation (input) GL_UNSIGNED_SHORT_5_5_5_1 :: GLenum where "GL_UNSIGNED_SHORT_5_5_5_1 \<equiv> 0x8034"
abbreviation (input) GL_UNSIGNED_INT_24_8_OES :: GLenum where "GL_UNSIGNED_INT_24_8_OES \<equiv> 0x84FA"
abbreviation (input) GL_RGB :: GLenum where "GL_RGB \<equiv> 0x1907"
abbreviation (input) GL_LUMINANCE_ALPHA :: GLenum where "GL_LUMINANCE_ALPHA \<equiv> 0x190A"
abbreviation (input) GL_RGBA :: GLenum where "GL_RGBA \<equiv> 0x1908"
abbreviation (input) GL_BGRA_EXT :: GLenum where "GL_BGRA_EXT \<equiv> 0x80E1"
abbreviation (input) GL_ALPHA :: GLenum where "GL_ALPHA \<equiv> 0x1906"
abbreviation (input) GL_LUMINANCE :: GLenum where "GL_LUMINANCE \<equiv> 0x1909"
abbreviation (input) GL_DEPTH_COMPONENT :: GLenum where "GL_DEPTH_COMPONENT \<equiv> 0x1902"
abbreviation (input) GL_DEPTH_STENCIL_OES :: GLenum where "GL_DEPTH_STENCIL_OES \<equiv> 0x84F9"
abbreviation (input) GL_FLOAT :: GLenum where "GL_FLOAT \<equiv> 0x1406"
abbreviation (input) GL_UNSIGNED_INT :: GLenum where "GL_UNSIGNED_INT \<equiv> 0x1405"
abbreviation (input) GL_HALF_FLOAT_OES :: GLenum where "GL_HALF_FLOAT_OES \<equiv> 0x8D61"
abbreviation (input) GL_UNSIGNED_SHORT :: GLenum where "GL_UNSIGNED_SHORT \<equiv> 0x1403"
abbreviation (input) GL_SHORT :: GLenum where "GL_SHORT \<equiv> 0x1402"
abbreviation (input) GL_UNSIGNED_BYTE :: GLenum where "GL_UNSIGNED_BYTE \<equiv> 0x1401"
abbreviation (input) GL_BYTE :: GLenum where "GL_BYTE \<equiv> 0x1400"
abbreviation (input) GL_FLOAT_VEC2 :: GLenum where "GL_FLOAT_VEC2 \<equiv> 0x8B50"
abbreviation (input) GL_FLOAT_VEC3 :: GLenum where "GL_FLOAT_VEC3 \<equiv> 0x8B51"
abbreviation (input) GL_FLOAT_VEC4 :: GLenum where "GL_FLOAT_VEC4 \<equiv> 0x8B52"
abbreviation (input) GL_INT :: GLenum where "GL_INT \<equiv> 0x1404"
abbreviation (input) GL_INT_VEC2 :: GLenum where "GL_INT_VEC2 \<equiv> 0x8B53"
abbreviation (input) GL_INT_VEC3 :: GLenum where "GL_INT_VEC3 \<equiv> 0x8B54"
abbreviation (input) GL_INT_VEC4 :: GLenum where "GL_INT_VEC4 \<equiv> 0x8B55"
abbreviation (input) GL_BOOL :: GLenum where "GL_BOOL \<equiv> 0x8B56"
abbreviation (input) GL_BOOL_VEC2 :: GLenum where "GL_BOOL_VEC2 \<equiv> 0x8B57"
abbreviation (input) GL_BOOL_VEC3 :: GLenum where "GL_BOOL_VEC3 \<equiv> 0x8B58"
abbreviation (input) GL_BOOL_VEC4 :: GLenum where "GL_BOOL_VEC4 \<equiv> 0x8B59"
abbreviation (input) GL_FLOAT_MAT2 :: GLenum where "GL_FLOAT_MAT2 \<equiv> 0x8B5A"
abbreviation (input) GL_FLOAT_MAT3 :: GLenum where "GL_FLOAT_MAT3 \<equiv> 0x8B5B"
abbreviation (input) GL_FLOAT_MAT4 :: GLenum where "GL_FLOAT_MAT4 \<equiv> 0x8B5C"
abbreviation (input) GL_SAMPLER_2D :: GLenum where "GL_SAMPLER_2D \<equiv> 0x8B5E"
abbreviation (input) GL_SAMPLER_CUBE :: GLenum where "GL_SAMPLER_CUBE \<equiv> 0x8B60"
abbreviation (input) GL_SAMPLER_EXTERNAL_OES :: GLenum where "GL_SAMPLER_EXTERNAL_OES \<equiv> 0x8D66"
abbreviation (input) GL_FIXED :: GLenum where "GL_FIXED \<equiv> 0x140C"
abbreviation (input) GL_INVALID_ENUM :: GLenum where "GL_INVALID_ENUM \<equiv> 0x0500"
abbreviation (input) GL_INVALID_VALUE :: GLenum where "GL_INVALID_VALUE \<equiv> 0x0501"
abbreviation (input) GL_INVALID_OPERATION :: GLenum where "GL_INVALID_OPERATION \<equiv> 0x0502"
abbreviation (input) GL_OUT_OF_MEMORY :: GLenum where "GL_OUT_OF_MEMORY \<equiv> 0x0505"
abbreviation (input) GL_INVALID_FRAMEBUFFER_OPERATION :: GLenum where "GL_INVALID_FRAMEBUFFER_OPERATION \<equiv> 0x0506"
abbreviation (input) GL_NO_ERROR :: GLenum where "GL_NO_ERROR \<equiv> 0"
abbreviation (input) GL_TEXTURE_CUBE_MAP_POSITIVE_X :: GLenum where "GL_TEXTURE_CUBE_MAP_POSITIVE_X \<equiv> 0x8515"
abbreviation (input) GL_TEXTURE_CUBE_MAP_NEGATIVE_X :: GLenum where "GL_TEXTURE_CUBE_MAP_NEGATIVE_X \<equiv> 0x8516"
abbreviation (input) GL_TEXTURE_CUBE_MAP_POSITIVE_Y :: GLenum where "GL_TEXTURE_CUBE_MAP_POSITIVE_Y \<equiv> 0x8517"
abbreviation (input) GL_TEXTURE_CUBE_MAP_NEGATIVE_Y :: GLenum where "GL_TEXTURE_CUBE_MAP_NEGATIVE_Y \<equiv> 0x8518"
abbreviation (input) GL_TEXTURE_CUBE_MAP_POSITIVE_Z :: GLenum where "GL_TEXTURE_CUBE_MAP_POSITIVE_Z \<equiv> 0x8519"
abbreviation (input) GL_TEXTURE_CUBE_MAP_NEGATIVE_Z :: GLenum where "GL_TEXTURE_CUBE_MAP_NEGATIVE_Z \<equiv> 0x851A"
abbreviation (input) GL_RGB8_OES :: GLenum where "GL_RGB8_OES \<equiv> 0x8051"
abbreviation (input) GL_RGB565 :: GLenum where "GL_RGB565 \<equiv> 0x8D62"
abbreviation (input) GL_RGBA8_OES :: GLenum where "GL_RGBA8_OES \<equiv> 0x8058"
abbreviation (input) GL_RGBA4 :: GLenum where "GL_RGBA4 \<equiv> 0x8056"
abbreviation (input) GL_RGB5_A1 :: GLenum where "GL_RGB5_A1 \<equiv> 0x8057"
abbreviation (input) GL_NONE :: GLenum where "GL_NONE \<equiv> 0"
abbreviation (input) GL_ARRAY_BUFFER :: GLenum where "GL_ARRAY_BUFFER \<equiv> 0x8892"
abbreviation (input) GL_ELEMENT_ARRAY_BUFFER :: GLenum where "GL_ELEMENT_ARRAY_BUFFER \<equiv> 0x8893"
abbreviation (input) GL_STATIC_DRAW :: GLenum where "GL_STATIC_DRAW \<equiv> 0x88E4"
abbreviation (input) GL_DYNAMIC_DRAW :: GLenum where "GL_DYNAMIC_DRAW \<equiv> 0x88E8"
abbreviation (input) GL_STREAM_DRAW :: GLenum where "GL_STREAM_DRAW \<equiv> 0x88E0"
abbreviation (input) GL_TEXTURE0 :: GLenum where "GL_TEXTURE0 \<equiv> 0x84C0"
abbreviation (input) GL_POINTS :: GLenum where "GL_POINTS \<equiv> 0x0000"
abbreviation (input) GL_BLEND_EQUATION_RGB :: GLenum where "GL_BLEND_EQUATION_RGB \<equiv> 0x8009"
abbreviation (input) GL_MAX_SAMPLES_EXT :: GLenum where "GL_MAX_SAMPLES_EXT \<equiv> 0x8D57"
abbreviation (input) GL_LINES :: GLenum where "GL_LINES \<equiv> 0x0001"
abbreviation (input) GL_LINE_LOOP :: GLenum where "GL_LINE_LOOP \<equiv> 0x0002"
abbreviation (input) GL_LINE_STRIP :: GLenum where "GL_LINE_STRIP \<equiv> 0x0003"
abbreviation (input) GL_TRIANGLES :: GLenum where "GL_TRIANGLES \<equiv> 0x0004"
abbreviation (input) GL_TRIANGLE_STRIP :: GLenum where "GL_TRIANGLE_STRIP \<equiv> 0x0005"
abbreviation (input) GL_TRIANGLE_FAN :: GLenum where "GL_TRIANGLE_FAN \<equiv> 0x0006"
abbreviation (input) GL_COMPRESSED_RGB_S3TC_DXT1_EXT :: GLenum where "GL_COMPRESSED_RGB_S3TC_DXT1_EXT \<equiv> 0x83F0"
abbreviation (input) GL_COMPRESSED_RGBA_S3TC_DXT1_EXT :: GLenum where "GL_COMPRESSED_RGBA_S3TC_DXT1_EXT \<equiv> 0x83F1"
abbreviation (input) GL_COMPRESSED_RGBA_S3TC_DXT3_EXT :: GLenum where "GL_COMPRESSED_RGBA_S3TC_DXT3_EXT \<equiv> 0x83F2"
abbreviation (input) GL_COMPRESSED_RGBA_S3TC_DXT5_EXT :: GLenum where "GL_COMPRESSED_RGBA_S3TC_DXT5_EXT \<equiv> 0x83F3"
abbreviation (input) GL_TEXTURE_MAX_ANISOTROPY_EXT :: GLenum where "GL_TEXTURE_MAX_ANISOTROPY_EXT \<equiv> 0x84FE"
abbreviation (input) GL_MAX_TEXTURE_MAX_ANISOTROPY_EXT :: GLenum where "GL_MAX_TEXTURE_MAX_ANISOTROPY_EXT \<equiv> 0x84FF"
abbreviation (input) GL_DEPTH_STENCIL :: GLenum where "GL_DEPTH_STENCIL \<equiv> 0x84F9"
abbreviation (input) GL_UNSIGNED_INT_24_8 :: GLenum where "GL_UNSIGNED_INT_24_8 \<equiv> 0x84FA"
abbreviation (input) GL_DEPTH24_STENCIL8 :: GLenum where "GL_DEPTH24_STENCIL8 \<equiv> 0x88F0"
abbreviation (input) GL_READ_FRAMEBUFFER_EXT :: GLenum where "GL_READ_FRAMEBUFFER_EXT \<equiv> 0x8CA8"
abbreviation (input) GL_DRAW_FRAMEBUFFER_EXT :: GLenum where "GL_DRAW_FRAMEBUFFER_EXT \<equiv> 0x8CA9"
abbreviation (input) GL_READ_FRAMEBUFFER_BINDING_EXT :: GLenum where "GL_READ_FRAMEBUFFER_BINDING_EXT \<equiv> 0x8CAA"
abbreviation (input) GL_RENDERBUFFER_SAMPLES_EXT :: GLenum where "GL_RENDERBUFFER_SAMPLES_EXT \<equiv> 0x8CAB"
abbreviation (input) GL_DEPTH_COMPONENT24 :: GLenum where "GL_DEPTH_COMPONENT24 \<equiv> 0x81A6"
abbreviation (input) GL_REQUIRED_TEXTURE_IMAGE_UNITS_OES :: GLenum where "GL_REQUIRED_TEXTURE_IMAGE_UNITS_OES \<equiv> 0x8D68"
abbreviation (input) GL_TEXTURE_EXTERNAL_OES :: GLenum where "GL_TEXTURE_EXTERNAL_OES \<equiv> 0x8D65"
abbreviation (input) GL_TEXTURE_2D :: GLenum where "GL_TEXTURE_2D \<equiv> 0x0DE1"
abbreviation (input) GL_TEXTURE_CUBE_MAP :: GLenum where "GL_TEXTURE_CUBE_MAP \<equiv> 0x8513"
abbreviation (input) GL_NEAREST :: GLenum where "GL_NEAREST \<equiv> 0x2600"
abbreviation (input) GL_LINEAR :: GLenum where "GL_LINEAR \<equiv> 0x2601"
abbreviation (input) GL_NEAREST_MIPMAP_NEAREST :: GLenum where "GL_NEAREST_MIPMAP_NEAREST \<equiv> 0x2700"
abbreviation (input) GL_LINEAR_MIPMAP_NEAREST :: GLenum where "GL_LINEAR_MIPMAP_NEAREST \<equiv> 0x2701"
abbreviation (input) GL_NEAREST_MIPMAP_LINEAR :: GLenum where "GL_NEAREST_MIPMAP_LINEAR \<equiv> 0x2702"
abbreviation (input) GL_LINEAR_MIPMAP_LINEAR :: GLenum where "GL_LINEAR_MIPMAP_LINEAR \<equiv> 0x2703"
abbreviation (input) GL_CLAMP_TO_EDGE :: GLenum where "GL_CLAMP_TO_EDGE \<equiv> 0x812F"
abbreviation (input) GL_MIRRORED_REPEAT :: GLenum where "GL_MIRRORED_REPEAT \<equiv> 0x8370"
abbreviation (input) GL_REPEAT :: GLenum where "GL_REPEAT \<equiv> 0x2901"
abbreviation (input) GL_COLOR_ATTACHMENT0 :: GLenum where "GL_COLOR_ATTACHMENT0 \<equiv> 0x8CE0"
abbreviation (input) GL_DEPTH_ATTACHMENT :: GLenum where "GL_DEPTH_ATTACHMENT \<equiv> 0x8D00"
abbreviation (input) GL_STENCIL_ATTACHMENT :: GLenum where "GL_STENCIL_ATTACHMENT \<equiv> 0x8D20"
abbreviation (input) GL_DEPTH_STENCIL_ATTACHMENT :: GLenum where "GL_DEPTH_STENCIL_ATTACHMENT \<equiv> 0x821A"
abbreviation (input) GL_FRAMEBUFFER :: GLenum where "GL_FRAMEBUFFER \<equiv> 0x8D40"
abbreviation (input) GL_RENDERBUFFER :: GLenum where "GL_RENDERBUFFER \<equiv> 0x8D41"
abbreviation (input) GL_DEPTH_COMPONENT16 :: GLenum where "GL_DEPTH_COMPONENT16 \<equiv> 0x81A5"
abbreviation (input) GL_STENCIL_INDEX8 :: GLenum where "GL_STENCIL_INDEX8 \<equiv> 0x8D48"
abbreviation (input) GL_FRAMEBUFFER_COMPLETE :: GLenum where "GL_FRAMEBUFFER_COMPLETE \<equiv> 0x8CD5"
abbreviation (input) GL_FRAMEBUFFER_INCOMPLETE_ATTACHMENT :: GLenum where "GL_FRAMEBUFFER_INCOMPLETE_ATTACHMENT \<equiv> 0x8CD6"
abbreviation (input) GL_COLOR_BUFFER_BIT :: GLenum where "GL_COLOR_BUFFER_BIT \<equiv> 0x00004000"
abbreviation (input) GL_DEPTH_BUFFER_BIT :: GLenum where "GL_DEPTH_BUFFER_BIT \<equiv> 0x00000100"
abbreviation (input) GL_STENCIL_BUFFER_BIT :: GLenum where "GL_STENCIL_BUFFER_BIT \<equiv> 0x00000400"
abbreviation (input) GL_VERTEX_SHADER :: GLenum where "GL_VERTEX_SHADER \<equiv> 0x8B31"
abbreviation (input) GL_FRAGMENT_SHADER :: GLenum where "GL_FRAGMENT_SHADER \<equiv> 0x8B30"
abbreviation (input) GL_FRONT :: GLenum where "GL_FRONT \<equiv> 0x0404"
abbreviation (input) GL_BACK :: GLenum where "GL_BACK \<equiv> 0x0405"
abbreviation (input) GL_FRONT_AND_BACK :: GLenum where "GL_FRONT_AND_BACK \<equiv> 0x0408"
abbreviation (input) GL_SAMPLE_ALPHA_TO_COVERAGE :: GLenum where "GL_SAMPLE_ALPHA_TO_COVERAGE \<equiv> 0x809E"
abbreviation (input) GL_SAMPLE_COVERAGE :: GLenum where "GL_SAMPLE_COVERAGE \<equiv> 0x80A0"
abbreviation (input) GL_NEVER :: GLenum where "GL_NEVER \<equiv> 0x0200"
abbreviation (input) GL_LESS :: GLenum where "GL_LESS \<equiv> 0x0201"
abbreviation (input) GL_EQUAL :: GLenum where "GL_EQUAL \<equiv> 0x0202"
abbreviation (input) GL_LEQUAL :: GLenum where "GL_LEQUAL \<equiv> 0x0203"
abbreviation (input) GL_GREATER :: GLenum where "GL_GREATER \<equiv> 0x0204"
abbreviation (input) GL_NOTEQUAL :: GLenum where "GL_NOTEQUAL \<equiv> 0x0205"
abbreviation (input) GL_GEQUAL :: GLenum where "GL_GEQUAL \<equiv> 0x0206"
abbreviation (input) GL_ALWAYS :: GLenum where "GL_ALWAYS \<equiv> 0x0207"
abbreviation (input) GL_ZERO :: GLenum where "GL_ZERO \<equiv> 0"
abbreviation (input) GL_ONE :: GLenum where "GL_ONE \<equiv> 1"
abbreviation (input) GL_SRC_COLOR :: GLenum where "GL_SRC_COLOR \<equiv> 0x0300"
abbreviation (input) GL_ONE_MINUS_SRC_COLOR :: GLenum where "GL_ONE_MINUS_SRC_COLOR \<equiv> 0x0301"
abbreviation (input) GL_DST_COLOR :: GLenum where "GL_DST_COLOR \<equiv> 0x0306"
abbreviation (input) GL_ONE_MINUS_DST_COLOR :: GLenum where "GL_ONE_MINUS_DST_COLOR \<equiv> 0x0307"
abbreviation (input) GL_SRC_ALPHA :: GLenum where "GL_SRC_ALPHA \<equiv> 0x0302"
abbreviation (input) GL_ONE_MINUS_SRC_ALPHA :: GLenum where "GL_ONE_MINUS_SRC_ALPHA \<equiv> 0x0303"
abbreviation (input) GL_DST_ALPHA :: GLenum where "GL_DST_ALPHA \<equiv> 0x0304"
abbreviation (input) GL_ONE_MINUS_DST_ALPHA :: GLenum where "GL_ONE_MINUS_DST_ALPHA \<equiv> 0x0305"
abbreviation (input) GL_CONSTANT_COLOR :: GLenum where "GL_CONSTANT_COLOR \<equiv> 0x8001"
abbreviation (input) GL_ONE_MINUS_CONSTANT_COLOR :: GLenum where "GL_ONE_MINUS_CONSTANT_COLOR \<equiv> 0x8002"
abbreviation (input) GL_CONSTANT_ALPHA :: GLenum where "GL_CONSTANT_ALPHA \<equiv> 0x8003"
abbreviation (input) GL_ONE_MINUS_CONSTANT_ALPHA :: GLenum where "GL_ONE_MINUS_CONSTANT_ALPHA \<equiv> 0x8004"
abbreviation (input) GL_FUNC_ADD :: GLenum where "GL_FUNC_ADD \<equiv> 0x8006"
abbreviation (input) GL_FUNC_SUBTRACT :: GLenum where "GL_FUNC_SUBTRACT \<equiv> 0x800A"
abbreviation (input) GL_FUNC_REVERSE_SUBTRACT :: GLenum where "GL_FUNC_REVERSE_SUBTRACT \<equiv> 0x800B"
abbreviation (input) GL_CW :: GLenum where "GL_CW \<equiv> 0x0900"
abbreviation (input) GL_CCW :: GLenum where "GL_CCW \<equiv> 0x0901"
abbreviation (input) GL_FASTEST :: GLenum where "GL_FASTEST \<equiv> 0x1101"
abbreviation (input) GL_NICEST :: GLenum where "GL_NICEST \<equiv> 0x1102"
abbreviation (input) GL_DONT_CARE :: GLenum where "GL_DONT_CARE \<equiv> 0x1100"
abbreviation (input) GL_LOW_FLOAT :: GLenum where "GL_LOW_FLOAT \<equiv> 0x8DF0"
abbreviation (input) GL_MEDIUM_FLOAT :: GLenum where "GL_MEDIUM_FLOAT \<equiv> 0x8DF1"
abbreviation (input) GL_HIGH_FLOAT :: GLenum where "GL_HIGH_FLOAT \<equiv> 0x8DF2"
abbreviation (input) GL_LOW_INT :: GLenum where "GL_LOW_INT \<equiv> 0x8DF3"
abbreviation (input) GL_MEDIUM_INT :: GLenum where "GL_MEDIUM_INT \<equiv> 0x8DF4"
abbreviation (input) GL_HIGH_INT :: GLenum where "GL_HIGH_INT \<equiv> 0x8DF5"
abbreviation (input) GL_SRC_ALPHA_SATURATE :: GLenum where "GL_SRC_ALPHA_SATURATE \<equiv> 0x0308"
abbreviation (input) GL_KEEP :: GLenum where "GL_KEEP \<equiv> 0x1E00"
abbreviation (input) GL_REPLACE :: GLenum where "GL_REPLACE \<equiv> 0x1E01"
abbreviation (input) GL_INCR :: GLenum where "GL_INCR \<equiv> 0x1E02"
abbreviation (input) GL_INCR_WRAP :: GLenum where "GL_INCR_WRAP \<equiv> 0x8507"
abbreviation (input) GL_DECR :: GLenum where "GL_DECR \<equiv> 0x1E03"
abbreviation (input) GL_DECR_WRAP :: GLenum where "GL_DECR_WRAP \<equiv> 0x8508"
abbreviation (input) GL_INVERT :: GLenum where "GL_INVERT \<equiv> 0x150A"
abbreviation (input) GL_VENDOR :: GLenum where "GL_VENDOR \<equiv> 0x1F00"
abbreviation (input) GL_RENDERER :: GLenum where "GL_RENDERER \<equiv> 0x1F01"
abbreviation (input) GL_VERSION :: GLenum where "GL_VERSION \<equiv> 0x1F02"
abbreviation (input) GL_SHADING_LANGUAGE_VERSION :: GLenum where "GL_SHADING_LANGUAGE_VERSION \<equiv> 0x8B8C"
abbreviation (input) GL_EXTENSIONS :: GLenum where "GL_EXTENSIONS \<equiv> 0x1F03"
abbreviation (input) GL_VERTEX_ATTRIB_ARRAY_POINTER :: GLenum where "GL_VERTEX_ATTRIB_ARRAY_POINTER \<equiv> 0x8645"

abbreviation (input) GL_RGBA32F_ARB :: GLenum where "GL_RGBA32F_ARB \<equiv> 0x8814"
abbreviation (input) GL_RGB32F_ARB :: GLenum where "GL_RGB32F_ARB \<equiv> 0x8815"
abbreviation (input) GL_RGBA16F_ARB :: GLenum where "GL_RGBA16F_ARB \<equiv> 0x881A"
abbreviation (input) GL_RGB16F_ARB :: GLenum where "GL_RGB16F_ARB \<equiv> 0x881B"

end
