(* ===== verification/Gles2_Cmd_Utils.thy ===== *)
theory Gles2_Cmd_Utils
  imports Gl_Enums
begin

text \<open>
  The helpers of \<^verbatim>\<open>gpu/command_buffer/common/gles2_cmd_utils.{h,cc}\<close> that both sides of the
  command buffer share: overflow-checked arithmetic, sizes of pixel rectangles and of GL data
  types, and the translation between GL errors and the bits of the wrapped-error masks.

  A function that returns a \<^verbatim>\<open>bool\<close> and writes through a pointer returns the pair of the
  boolean and the value written. The lemmas show that the checked operations return exactly the
  mathematical result and fail exactly when it does not fit 32 bits, that the size computed for
  an image is the number of bytes of its rows, and that error bits and GL errors determine each
  other.
\<close>

unbundle bit_operations_syntax

section \<open>Checked arithmetic\<close>

text \<open>The template parameter is an unsigned type of some width.\<close>

definition SafeMultiply :: "'w::len word \<Rightarrow> 'w word \<Rightarrow> bool \<times> 'w word" where
  "SafeMultiply a b =
     (if b = 0 then (True, 0)
      else let v = a * b in if v div b \<noteq> a then (False, 0) else (True, v))"

definition SafeMultiplyUint32 :: "uint32 \<Rightarrow> uint32 \<Rightarrow> bool \<times> uint32" where
  "SafeMultiplyUint32 a b = SafeMultiply a b"

definition SafeAdd :: "'w::len word \<Rightarrow> 'w word \<Rightarrow> bool \<times> 'w word" where
  "SafeAdd a b = (if a + b < a then (False, 0) else (True, a + b))"

definition SafeAddUint32 :: "uint32 \<Rightarrow> uint32 \<Rightarrow> bool \<times> uint32" where
  "SafeAddUint32 a b = SafeAdd a b"

section \<open>Queries of the \<^verbatim>\<open>GLES2Util\<close> object\<close>

record GLES2Util =
  num_compressed_texture_formats :: nat
  num_shader_binary_formats :: nat

definition GLES2Util_new :: GLES2Util where
  "GLES2Util_new = \<lparr>num_compressed_texture_formats = 0, num_shader_binary_formats = 0\<rparr>"

definition set_num_compressed_texture_formats :: "nat \<Rightarrow> GLES2Util \<Rightarrow> GLES2Util" where
  "set_num_compressed_texture_formats n u = u\<lparr>num_compressed_texture_formats := n\<rparr>"

definition set_num_shader_binary_formats :: "nat \<Rightarrow> GLES2Util \<Rightarrow> GLES2Util" where
  "set_num_shader_binary_formats n u = u\<lparr>num_shader_binary_formats := n\<rparr>"

text \<open>The cases of the switch, in two parts: the context state (\<^verbatim>\<open>glGetIntegerv\<close> and its
  relatives) and the parameters of objects.\<close>

definition get_state_cases :: "GLES2Util \<Rightarrow> (GLenum \<times> nat) list" where
  "get_state_cases u =
   [(GL_ACTIVE_TEXTURE, 1), (GL_ALIASED_LINE_WIDTH_RANGE, 2), (GL_ALIASED_POINT_SIZE_RANGE, 2),
    (GL_ALPHA_BITS, 1), (GL_ARRAY_BUFFER_BINDING, 1), (GL_BLEND, 1), (GL_BLEND_COLOR, 4),
    (GL_BLEND_DST_ALPHA, 1), (GL_BLEND_DST_RGB, 1), (GL_BLEND_EQUATION_ALPHA, 1),
    (GL_BLEND_EQUATION_RGB, 1), (GL_BLEND_SRC_ALPHA, 1), (GL_BLEND_SRC_RGB, 1),
    (GL_BLUE_BITS, 1), (GL_COLOR_CLEAR_VALUE, 4), (GL_COLOR_WRITEMASK, 4),
    (GL_COMPRESSED_TEXTURE_FORMATS, num_compressed_texture_formats u), (GL_CULL_FACE, 1),
    (GL_CULL_FACE_MODE, 1), (GL_CURRENT_PROGRAM, 1), (GL_DEPTH_BITS, 1),
    (GL_DEPTH_CLEAR_VALUE, 1), (GL_DEPTH_FUNC, 1), (GL_DEPTH_RANGE, 2), (GL_DEPTH_TEST, 1),
    (GL_DEPTH_WRITEMASK, 1), (GL_DITHER, 1), (GL_ELEMENT_ARRAY_BUFFER_BINDING, 1),
    (GL_FRAMEBUFFER_BINDING, 1), (GL_FRONT_FACE, 1), (GL_GENERATE_MIPMAP_HINT, 1),
    (GL_GREEN_BITS, 1), (GL_IMPLEMENTATION_COLOR_READ_FORMAT, 1),
    (GL_IMPLEMENTATION_COLOR_READ_TYPE, 1), (GL_LINE_WIDTH, 1),
    (GL_MAX_COMBINED_TEXTURE_IMAGE_UNITS, 1), (GL_MAX_CUBE_MAP_TEXTURE_SIZE, 1),
    (GL_MAX_FRAGMENT_UNIFORM_VECTORS, 1), (GL_MAX_RENDERBUFFER_SIZE, 1),
    (GL_MAX_TEXTURE_IMAGE_UNITS, 1), (GL_MAX_TEXTURE_SIZE, 1), (GL_MAX_VARYING_VECTORS, 1),
    (GL_MAX_VERTEX_ATTRIBS, 1), (GL_MAX_VERTEX_TEXTURE_IMAGE_UNITS, 1),
    (GL_MAX_VERTEX_UNIFORM_VECTORS, 1), (GL_MAX_VIEWPORT_DIMS, 2),
    (GL_NUM_COMPRESSED_TEXTURE_FORMATS, 1), (GL_NUM_SHADER_BINARY_FORMATS, 1),
    (GL_PACK_ALIGNMENT, 1), (GL_POLYGON_OFFSET_FACTOR, 1), (GL_POLYGON_OFFSET_FILL, 1),
    (GL_POLYGON_OFFSET_UNITS, 1), (GL_RED_BITS, 1), (GL_RENDERBUFFER_BINDING, 1),
    (GL_SAMPLE_BUFFERS, 1), (GL_SAMPLE_COVERAGE_INVERT, 1), (GL_SAMPLE_COVERAGE_VALUE, 1),
    (GL_SAMPLES, 1), (GL_SCISSOR_BOX, 4), (GL_SCISSOR_TEST, 1),
    (GL_SHADER_BINARY_FORMATS, num_shader_binary_formats u), (GL_SHADER_COMPILER, 1),
    (GL_STENCIL_BACK_FAIL, 1), (GL_STENCIL_BACK_FUNC, 1), (GL_STENCIL_BACK_PASS_DEPTH_FAIL, 1),
    (GL_STENCIL_BACK_PASS_DEPTH_PASS, 1), (GL_STENCIL_BACK_REF, 1),
    (GL_STENCIL_BACK_VALUE_MASK, 1), (GL_STENCIL_BACK_WRITEMASK, 1), (GL_STENCIL_BITS, 1),
    (GL_STENCIL_CLEAR_VALUE, 1), (GL_STENCIL_FAIL, 1), (GL_STENCIL_FUNC, 1),
    (GL_STENCIL_PASS_DEPTH_FAIL, 1), (GL_STENCIL_PASS_DEPTH_PASS, 1), (GL_STENCIL_REF, 1),
    (GL_STENCIL_TEST, 1), (GL_STENCIL_VALUE_MASK, 1), (GL_STENCIL_WRITEMASK, 1),
    (GL_SUBPIXEL_BITS, 1), (GL_TEXTURE_BINDING_2D, 1), (GL_TEXTURE_BINDING_CUBE_MAP, 1),
    (GL_TEXTURE_BINDING_EXTERNAL_OES, 1), (GL_UNPACK_ALIGNMENT, 1), (GL_VIEWPORT, 4),
    (GL_MAX_SAMPLES_EXT, 1)]"

definition get_object_cases :: "(GLenum \<times> nat) list" where
  "get_object_cases =
   [(GL_BUFFER_SIZE, 1), (GL_BUFFER_USAGE, 1), (GL_FRAMEBUFFER_ATTACHMENT_OBJECT_TYPE, 1),
    (GL_FRAMEBUFFER_ATTACHMENT_OBJECT_NAME, 1), (GL_FRAMEBUFFER_ATTACHMENT_TEXTURE_LEVEL, 1),
    (GL_FRAMEBUFFER_ATTACHMENT_TEXTURE_CUBE_MAP_FACE, 1), (GL_DELETE_STATUS, 1),
    (GL_LINK_STATUS, 1), (GL_VALIDATE_STATUS, 1), (GL_INFO_LOG_LENGTH, 1),
    (GL_ATTACHED_SHADERS, 1), (GL_ACTIVE_ATTRIBUTES, 1), (GL_ACTIVE_ATTRIBUTE_MAX_LENGTH, 1),
    (GL_ACTIVE_UNIFORMS, 1), (GL_ACTIVE_UNIFORM_MAX_LENGTH, 1), (GL_RENDERBUFFER_WIDTH, 1),
    (GL_RENDERBUFFER_HEIGHT, 1), (GL_RENDERBUFFER_INTERNAL_FORMAT, 1),
    (GL_RENDERBUFFER_RED_SIZE, 1), (GL_RENDERBUFFER_GREEN_SIZE, 1),
    (GL_RENDERBUFFER_BLUE_SIZE, 1), (GL_RENDERBUFFER_ALPHA_SIZE, 1),
    (GL_RENDERBUFFER_DEPTH_SIZE, 1), (GL_RENDERBUFFER_STENCIL_SIZE, 1), (GL_SHADER_TYPE, 1),
    (GL_COMPILE_STATUS, 1), (GL_SHADER_SOURCE_LENGTH, 1),
    (GL_TRANSLATED_SHADER_SOURCE_LENGTH_ANGLE, 1), (GL_TEXTURE_MAG_FILTER, 1),
    (GL_TEXTURE_MIN_FILTER, 1), (GL_TEXTURE_WRAP_S, 1), (GL_TEXTURE_WRAP_T, 1),
    (GL_VERTEX_ATTRIB_ARRAY_BUFFER_BINDING, 1), (GL_VERTEX_ATTRIB_ARRAY_ENABLED, 1),
    (GL_VERTEX_ATTRIB_ARRAY_SIZE, 1), (GL_VERTEX_ATTRIB_ARRAY_STRIDE, 1),
    (GL_VERTEX_ATTRIB_ARRAY_TYPE, 1), (GL_VERTEX_ATTRIB_ARRAY_NORMALIZED, 1),
    (GL_CURRENT_VERTEX_ATTRIB, 4), (GL_FRAGMENT_SHADER_DERIVATIVE_HINT_OES, 1)]"

definition GLGetNumValuesReturned :: "GLES2Util \<Rightarrow> GLenum \<Rightarrow> nat" where
  "GLGetNumValuesReturned u pname =
     (case map_of (get_state_cases u @ get_object_cases) pname of
        Some n \<Rightarrow> n
      | None \<Rightarrow> 0)"

section \<open>Sizes\<close>

definition ElementsPerGroup :: "GLenum \<Rightarrow> GLenum \<Rightarrow> uint32" where
  "ElementsPerGroup format type =
     (if type \<in> {GL_UNSIGNED_SHORT_5_6_5, GL_UNSIGNED_SHORT_4_4_4_4, GL_UNSIGNED_SHORT_5_5_5_1,
                 GL_UNSIGNED_INT_24_8_OES} then 1
      else if format = GL_RGB then 3
      else if format = GL_LUMINANCE_ALPHA then 2
      else if format \<in> {GL_RGBA, GL_BGRA_EXT} then 4
      else if format \<in> {GL_ALPHA, GL_LUMINANCE, GL_DEPTH_COMPONENT, GL_DEPTH_STENCIL_OES} then 1
      else 0)"

definition BytesPerElement :: "GLenum \<Rightarrow> uint32" where
  "BytesPerElement type =
     (if type \<in> {GL_FLOAT, GL_UNSIGNED_INT_24_8_OES, GL_UNSIGNED_INT} then 4
      else if type \<in> {GL_HALF_FLOAT_OES, GL_UNSIGNED_SHORT, GL_SHORT, GL_UNSIGNED_SHORT_5_6_5,
                      GL_UNSIGNED_SHORT_4_4_4_4, GL_UNSIGNED_SHORT_5_5_5_1} then 2
      else if type \<in> {GL_UNSIGNED_BYTE, GL_BYTE} then 1
      else 0)"

text \<open>The outer \<^typ>\<open>_ option\<close> is \<^const>\<open>None\<close> when the padding divides by a zero alignment; the
  inner one is \<^const>\<open>None\<close> when the function returns \<^verbatim>\<open>false\<close>.\<close>

definition ComputeImageDataSize ::
  "GLsizei \<Rightarrow> GLsizei \<Rightarrow> GLenum \<Rightarrow> GLenum \<Rightarrow> GLint \<Rightarrow> uint32 option option" where
  "ComputeImageDataSize width height format type unpack_alignment =
     (let bytes_per_group = BytesPerElement type * ElementsPerGroup format type;
          (ok, row_size) = SafeMultiplyUint32 width bytes_per_group
      in if \<not> ok then Some None
         else if sint height > 1 then
           let (ok, temp) = SafeAddUint32 row_size (unpack_alignment - 1)
           in if \<not> ok then Some None
              else if unpack_alignment = 0 then None
              else let padded_row_size = (temp div unpack_alignment) * unpack_alignment;
                       (ok, size_of_all_but_last_row) =
                         SafeMultiplyUint32 (height - 1) padded_row_size
                   in if \<not> ok then Some None
                      else let (ok, img) = SafeAddUint32 size_of_all_but_last_row row_size
                           in if \<not> ok then Some None else Some (Some img)
         else let (ok, img) = SafeMultiplyUint32 height row_size
              in if \<not> ok then Some None else Some (Some img))"

definition GetGLDataTypeSizeForUniforms :: "GLenum \<Rightarrow> uint32" where
  "GetGLDataTypeSizeForUniforms type =
     (if type = GL_FLOAT then 4
      else if type = GL_FLOAT_VEC2 then 4 * 2
      else if type = GL_FLOAT_VEC3 then 4 * 3
      else if type = GL_FLOAT_VEC4 then 4 * 4
      else if type = GL_INT then 4
      else if type = GL_INT_VEC2 then 4 * 2
      else if type = GL_INT_VEC3 then 4 * 3
      else if type = GL_INT_VEC4 then 4 * 4
      else if type = GL_BOOL then 4
      else if type = GL_BOOL_VEC2 then 4 * 2
      else if type = GL_BOOL_VEC3 then 4 * 3
      else if type = GL_BOOL_VEC4 then 4 * 4
      else if type = GL_FLOAT_MAT2 then 4 * 2 * 2
      else if type = GL_FLOAT_MAT3 then 4 * 3 * 3
      else if type = GL_FLOAT_MAT4 then 4 * 4 * 4
      else if type = GL_SAMPLER_2D then 4
      else if type = GL_SAMPLER_CUBE then 4
      else if type = GL_SAMPLER_EXTERNAL_OES then 4
      else 0)"

definition GetGLTypeSizeForTexturesAndBuffers :: "GLenum \<Rightarrow> uint32" where
  "GetGLTypeSizeForTexturesAndBuffers type =
     (if type = GL_BYTE then 1
      else if type = GL_UNSIGNED_BYTE then 1
      else if type = GL_SHORT then 2
      else if type = GL_UNSIGNED_SHORT then 2
      else if type = GL_INT then 4
      else if type = GL_UNSIGNED_INT then 4
      else if type = GL_FLOAT then 4
      else if type = GL_FIXED then 4
      else 0)"

text \<open>\<^verbatim>\<open>ComputeDataSize\<close> of \<^verbatim>\<open>gles2_cmd_decoder.cc\<close>, the size of a uniform array.\<close>

definition ComputeDataSize :: "GLuint \<Rightarrow> uint32 \<Rightarrow> uint32 \<Rightarrow> uint32 option" where
  "ComputeDataSize count sz elements_per_unit =
     (let (ok, v) = SafeMultiplyUint32 count sz
      in if \<not> ok then None
         else let (ok, v) = SafeMultiplyUint32 v elements_per_unit
              in if \<not> ok then None else Some v)"

section \<open>Errors, faces, channels\<close>

definition bitNoError :: uint32 where "bitNoError = 0"
definition bitInvalidEnum :: uint32 where "bitInvalidEnum = push_bit 0 1"
definition bitInvalidValue :: uint32 where "bitInvalidValue = push_bit 1 1"
definition bitInvalidOperation :: uint32 where "bitInvalidOperation = push_bit 2 1"
definition bitOutOfMemory :: uint32 where "bitOutOfMemory = push_bit 3 1"
definition bitInvalidFrameBufferOperation :: uint32 where
  "bitInvalidFrameBufferOperation = push_bit 4 1"

lemmas gl_error_bit_defs = bitNoError_def bitInvalidEnum_def bitInvalidValue_def
  bitInvalidOperation_def bitOutOfMemory_def bitInvalidFrameBufferOperation_def

definition GLErrorToErrorBit :: "GLenum \<Rightarrow> uint32" where
  "GLErrorToErrorBit error =
     (if error = GL_INVALID_ENUM then bitInvalidEnum
      else if error = GL_INVALID_VALUE then bitInvalidValue
      else if error = GL_INVALID_OPERATION then bitInvalidOperation
      else if error = GL_OUT_OF_MEMORY then bitOutOfMemory
      else if error = GL_INVALID_FRAMEBUFFER_OPERATION then bitInvalidFrameBufferOperation
      else bitNoError)"

definition GLErrorBitToGLError :: "uint32 \<Rightarrow> GLenum" where
  "GLErrorBitToGLError error_bit =
     (if error_bit = bitInvalidEnum then GL_INVALID_ENUM
      else if error_bit = bitInvalidValue then GL_INVALID_VALUE
      else if error_bit = bitInvalidOperation then GL_INVALID_OPERATION
      else if error_bit = bitOutOfMemory then GL_OUT_OF_MEMORY
      else if error_bit = bitInvalidFrameBufferOperation then GL_INVALID_FRAMEBUFFER_OPERATION
      else GL_NO_ERROR)"

text \<open>\<^const>\<open>None\<close> stands for an index outside the static array.\<close>

definition cube_faces :: "GLenum list" where
  "cube_faces =
     [GL_TEXTURE_CUBE_MAP_POSITIVE_X, GL_TEXTURE_CUBE_MAP_NEGATIVE_X,
      GL_TEXTURE_CUBE_MAP_POSITIVE_Y, GL_TEXTURE_CUBE_MAP_NEGATIVE_Y,
      GL_TEXTURE_CUBE_MAP_POSITIVE_Z, GL_TEXTURE_CUBE_MAP_NEGATIVE_Z]"

definition IndexToGLFaceTarget :: "int \<Rightarrow> GLenum option" where
  "IndexToGLFaceTarget i =
     (if 0 \<le> i \<and> nat i < length cube_faces then Some (cube_faces ! nat i) else None)"

definition GetChannelsForFormat :: "GLenum \<Rightarrow> uint32" where
  "GetChannelsForFormat format =
     (if format = GL_ALPHA then 0x0008
      else if format = GL_LUMINANCE then 0x0007
      else if format = GL_LUMINANCE_ALPHA then 0x000F
      else if format \<in> {GL_RGB, GL_RGB8_OES, GL_RGB565} then 0x0007
      else if format \<in> {GL_BGRA_EXT, GL_RGBA, GL_RGBA8_OES, GL_RGBA4, GL_RGB5_A1} then 0x000F
      else 0x0000)"

definition IsNPOT :: "uint32 \<Rightarrow> bool" where
  "IsNPOT v \<longleftrightarrow> 0 < v \<and> v AND (v - 1) \<noteq> 0"

section \<open>Checked arithmetic is exact\<close>

lemma SafeMultiply_exact:
  fixes a b :: "'w::len word"
  shows "SafeMultiply a b =
    (if unat a * unat b < 2 ^ LENGTH('w) then (True, a * b) else (False, 0))"
proof (cases "b = 0")
  case False
  have v: "unat (a * b) = unat a * unat b mod 2 ^ LENGTH('w)" by (fact unat_word_ariths(2))
  have "a * b div b = a \<longleftrightarrow> unat a * unat b < 2 ^ LENGTH('w)"
  proof
    assume "a * b div b = a"
    then have "unat (a * b) div unat b = unat a" by (metis unat_div)
    then have "unat a * unat b \<le> unat (a * b)" by (metis div_times_less_eq_dividend)
    then show "unat a * unat b < 2 ^ LENGTH('w)" using v by (metis le_less_trans unsigned_less)
  next
    assume "unat a * unat b < 2 ^ LENGTH('w)"
    then have "unat (a * b) = unat a * unat b" using v by simp
    moreover have "unat b \<noteq> 0" using False by (simp add: unat_eq_zero)
    ultimately have "unat (a * b div b) = unat a" by (simp add: unat_div)
    then show "a * b div b = a" by (simp add: word_unat_eq_iff)
  qed
  then show ?thesis using False by (simp add: SafeMultiply_def Let_def)
qed (simp add: SafeMultiply_def)

lemma SafeAdd_exact:
  fixes a b :: "'w::len word"
  shows "SafeAdd a b =
    (if unat a + unat b < 2 ^ LENGTH('w) then (True, a + b) else (False, 0))"
proof -
  have "a + b < a \<longleftrightarrow> \<not> unat a + unat b < 2 ^ LENGTH('w)"
    by (metis no_olen_add_nat not_le)
  then show ?thesis by (simp add: SafeAdd_def)
qed

lemma unat_mult_exact:
  "unat a * unat b < 2 ^ LENGTH('w) \<Longrightarrow> unat (a * b :: 'w::len word) = unat a * unat b"
  by (simp add: unat_word_ariths(2))

lemma unat_add_exact:
  "unat a + unat b < 2 ^ LENGTH('w) \<Longrightarrow> unat (a + b :: 'w::len word) = unat a + unat b"
  by (simp add: unat_word_ariths(1))

lemmas safe_exact32 = SafeMultiply_exact [where 'w = 32, simplified]
  SafeAdd_exact [where 'w = 32, simplified]

text \<open>A non-negative signed word is its unsigned value.\<close>

lemma sint_nonneg_unat:
  fixes w :: "32 word"
  assumes "0 \<le> sint w"
  shows "sint w = int (unat w)" "unat w < 2147483648"
proof -
  have lt: "sint w < 2147483648" using sint_lt [of w] by simp
  have "uint w = sint w mod 2 ^ 32" using uint_sint [of w] by (simp add: take_bit_eq_mod)
  then have "uint w = sint w" using assms lt by (simp add: mod_pos_pos_trivial)
  then show eq: "sint w = int (unat w)" by (metis uint_nat)
  show "unat w < 2147483648" using lt eq by linarith
qed

lemma sint_small:
  fixes w :: "32 word"
  assumes "unat w < 2147483648"
  shows "sint w = int (unat w)"
proof -
  have "sint w = signed_take_bit 31 (uint w)" by (simp add: sint_uint)
  also have "\<dots> = uint w"
  proof (rule signed_take_bit_int_eq_self)
    show "- (2 ^ 31) \<le> uint w" by (rule order_trans [OF _ uint_ge_0]) simp
    have "uint w < 2147483648" using assms uint_nat [of w] by linarith
    then show "uint w < 2 ^ 31" by simp
  qed
  finally show ?thesis by (metis uint_nat)
qed

section \<open>Powers of two\<close>

lemma and_pred_power:
  "0 < n \<Longrightarrow> n AND (n - 1) = 0 \<longleftrightarrow> (\<exists>k. n = 2 ^ k)" for n :: nat
proof (induction n rule: nat_bit_induct)
  case (even n)
  have "(2 * n - 1) div 2 = n - 1" using even.hyps by linarith
  then have "(2 * n) AND (2 * n - 1) = 2 * (n AND (n - 1))"
    by (subst and_rec) simp
  moreover have "(\<exists>k. 2 * n = 2 ^ k) \<longleftrightarrow> (\<exists>k. n = 2 ^ k)"
  proof
    assume "\<exists>k. 2 * n = 2 ^ k"
    then obtain k where k: "2 * n = 2 ^ k" ..
    then show "\<exists>k. n = 2 ^ k" by (cases k) auto
  next
    assume "\<exists>k. n = 2 ^ k"
    then show "\<exists>k. 2 * n = 2 ^ k" by (metis power_Suc)
  qed
  ultimately show ?case using even by simp
next
  case (odd n)
  have "Suc (2 * n) AND (2 * n) = 2 * n" by (subst and_rec) simp
  moreover have "(\<exists>k. Suc (2 * n) = 2 ^ k) \<longleftrightarrow> n = 0"
  proof
    assume "\<exists>k. Suc (2 * n) = 2 ^ k"
    then obtain k where k: "Suc (2 * n) = 2 ^ k" ..
    moreover have "odd (Suc (2 * n))" by simp
    ultimately have "k = 0" by (metis even_power even_numeral gr0I)
    then show "n = 0" using k by simp
  next
    assume "n = 0"
    then show "\<exists>k. Suc (2 * n) = 2 ^ k" by (intro exI [of _ 0]) simp
  qed
  ultimately show ?case by simp
qed simp

lemma IsNPOT_iff: "IsNPOT v \<longleftrightarrow> 0 < unat v \<and> (\<forall>k. unat v \<noteq> 2 ^ k)"
proof (cases "v = 0")
  case False
  then have pos: "0 < unat v" by (simp add: unat_gt_0)
  have "unat (v AND (v - 1)) = unat v AND (unat v - 1)"
    using False by (simp add: unsigned_and_eq unat_minus_one)
  then have "v AND (v - 1) = 0 \<longleftrightarrow> (\<exists>k. unat v = 2 ^ k)"
    using and_pred_power [OF pos] by (simp add: unat_eq_zero [symmetric] del: unat_eq_zero)
  then show ?thesis using pos False by (simp add: IsNPOT_def word_gt_0)
qed (simp add: IsNPOT_def)

section \<open>The size of an image\<close>

text \<open>The reference: rows start at multiples of the padded row size, and the extent is the end of
  the farthest row.\<close>

definition pad_to :: "nat \<Rightarrow> nat \<Rightarrow> nat" where
  "pad_to a n = (n + (a - 1)) div a * a"

definition row_end :: "nat \<Rightarrow> nat \<Rightarrow> nat \<Rightarrow> nat" where
  "row_end a row r = r * pad_to a row + row"

definition image_extent :: "nat \<Rightarrow> nat \<Rightarrow> nat \<Rightarrow> nat" where
  "image_extent a row h = Max (insert 0 (row_end a row ` {..<h}))"

definition bytes_per_pixel :: "GLenum \<Rightarrow> GLenum \<Rightarrow> nat" where
  "bytes_per_pixel format type = unat (BytesPerElement type) * unat (ElementsPerGroup format type)"

lemma image_extent_Suc: "image_extent a row (Suc h) = row_end a row h"
  unfolding image_extent_def
  by (intro Max_eqI) (auto simp: row_end_def less_Suc_eq_le)

lemma image_extent_0 [simp]: "image_extent a row 0 = 0"
  by (simp add: image_extent_def)

lemma pad_to_ge: "0 < a \<Longrightarrow> n \<le> pad_to a n"
proof -
  assume a: "0 < a"
  have "n + (a - 1) = pad_to a n + (n + (a - 1)) mod a"
    by (simp add: pad_to_def div_mult_mod_eq)
  moreover have "(n + (a - 1)) mod a \<le> a - 1" using a by (simp add: less_Suc_eq_le [symmetric])
  ultimately show ?thesis by linarith
qed

lemma pixel_bytes_exact:
  "unat (BytesPerElement type * ElementsPerGroup format type) = bytes_per_pixel format type"
  by (simp add: bytes_per_pixel_def BytesPerElement_def ElementsPerGroup_def)

lemma padded_row_exact:
  fixes row al :: "32 word"
  assumes "0 < unat al" "unat row + (unat al - 1) < 4294967296"
  shows "unat ((row + (al - 1)) div al * al) = pad_to (unat al) (unat row)"
    and "unat (al - 1) = unat al - 1"
proof -
  show al: "unat (al - 1) = unat al - 1"
    using assms(1) by (metis One_nat_def unat_eq_zero unat_minus_one less_numeral_extra(3))
  have sum: "unat (row + (al - 1)) = unat row + (unat al - 1)"
    using assms(2) al by (subst unat_add_exact) simp_all
  have "(unat row + (unat al - 1)) div unat al * unat al < 4294967296"
    using assms(2) by (rule le_less_trans [OF div_times_less_eq_dividend])
  then show "unat ((row + (al - 1)) div al * al) = pad_to (unat al) (unat row)"
    by (subst unat_mult_exact) (simp_all add: unat_div sum pad_to_def)
qed

text \<open>More than one row: the padded rows before the last one, then the last row unpadded.\<close>

lemma multi_row_exact:
  fixes row al height :: "32 word"
  assumes al: "0 < unat al" "unat al < 2147483648" and h: "1 < unat height"
  defines "temp \<equiv> SafeAddUint32 row (al - 1)"
  defines "padded \<equiv> snd temp div al * al"
  defines "rest \<equiv> SafeMultiplyUint32 (height - 1) padded"
  defines "img \<equiv> SafeAddUint32 (snd rest) row"
  defines "S \<equiv> image_extent (unat al) (unat row) (unat height)"
  shows "(fst temp \<and> fst rest \<and> fst img \<longleftrightarrow> S < 4294967296)
    \<and> (S < 4294967296 \<longrightarrow> snd img = word_of_nat S)"
proof -
  obtain k where k: "unat height = Suc k" "0 < k" using h by (metis Suc_lessE One_nat_def)
  have S: "S = k * pad_to (unat al) (unat row) + unat row"
    by (simp add: S_def k(1) image_extent_Suc row_end_def)
  have ge: "unat row \<le> pad_to (unat al) (unat row)" using al(1) by (rule pad_to_ge)
  have S2: "2 * unat row \<le> S"
    using S ge k(2) mult_le_mono1 [of 1 k "pad_to (unat al) (unat row)"] by linarith
  have al1: "unat (al - 1) = unat al - 1"
    using al(1) by (metis One_nat_def unat_eq_zero unat_minus_one less_numeral_extra(3))
  have h1: "unat (height - 1) = k"
    using k by (metis One_nat_def unat_eq_zero unat_minus_one diff_Suc_1 nat.distinct(1))
  show ?thesis
  proof (cases "unat row + (unat al - 1) < 4294967296")
    case False
    then have "\<not> S < 4294967296" using S2 al(2) by linarith
    then show ?thesis using False by (simp add: temp_def SafeAddUint32_def safe_exact32 al1)
  next
    case True
    then have t: "temp = (True, row + (al - 1))"
      by (simp add: temp_def SafeAddUint32_def safe_exact32 al1)
    have p: "unat padded = pad_to (unat al) (unat row)"
      using padded_row_exact(1) [OF al(1) True] by (simp add: padded_def t)
    show ?thesis
    proof (cases "k * unat padded < 4294967296")
      case False
      then show ?thesis
        using S by (simp add: rest_def SafeMultiplyUint32_def safe_exact32 h1 p)
    next
      case True
      then have r: "rest = (True, (height - 1) * padded)"
        by (simp add: rest_def SafeMultiplyUint32_def safe_exact32 h1)
      have "unat ((height - 1) * padded) = k * unat padded"
        using True by (subst unat_mult_exact) (simp_all add: h1)
      then have eq: "unat ((height - 1) * padded) + unat row = S" using p S by simp
      then have "img = (if S < 4294967296 then (True, (height - 1) * padded + row) else (False, 0))"
        by (simp add: img_def r SafeAddUint32_def safe_exact32)
      moreover have "word_of_nat S = (height - 1) * padded + row"
        unfolding eq [symmetric] by simp
      ultimately show ?thesis by (simp add: t r)
    qed
  qed
qed

text \<open>C31: for non-negative dimensions and a positive row alignment,
  \<^verbatim>\<open>GLES2Util::ComputeImageDataSize\<close> returns the extent of the padded rows of the image, computed in
  unbounded arithmetic, and returns \<^verbatim>\<open>false\<close> exactly when that extent (or, for an image without
  rows, a single row) does not fit a \<^verbatim>\<open>uint32\<close>; no intermediate overflow makes it refuse or
  accept wrongly.\<close>

theorem image_data_size_exact:
  fixes format type :: GLenum
  assumes "0 \<le> sint width" "0 \<le> sint height" "0 < sint unpack_alignment"
  defines "row \<equiv> unat width * bytes_per_pixel format type"
  defines "S \<equiv> image_extent (unat unpack_alignment) row (unat height)"
  shows "ComputeImageDataSize width height format type unpack_alignment =
    Some (if max row S < 2 ^ 32 then Some (word_of_nat S) else None)"
proof -
  let ?row = "width * (BytesPerElement type * ElementsPerGroup format type)"
  note h = sint_nonneg_unat [OF assms(2)] and al = sint_nonneg_unat [of unpack_alignment]
  have "unpack_alignment \<noteq> 0" using assms(3) by auto
  then have al0: "0 < unat unpack_alignment" "unat unpack_alignment < 2147483648"
      "unpack_alignment \<noteq> 0"
    using assms(3) al(2) by (simp_all add: unat_gt_0)
  show ?thesis
  proof (cases "row < 4294967296")
    case False
    then show ?thesis
      by (simp add: ComputeImageDataSize_def SafeMultiplyUint32_def safe_exact32 row_def
          pixel_bytes_exact)
  next
    case True
    then have fits: "SafeMultiplyUint32 width (BytesPerElement type * ElementsPerGroup format type)
        = (True, ?row)"
      by (simp add: SafeMultiplyUint32_def safe_exact32 row_def pixel_bytes_exact)
    have row: "unat ?row = row"
      using True by (subst unat_mult_exact) (simp_all add: row_def pixel_bytes_exact)
    consider "unat height = 0" | "unat height = 1" | "1 < unat height" by linarith
    then show ?thesis
    proof cases
      case 3
      have "row \<le> S" using 3 image_extent_Suc [of _ row "unat height - 1"]
        by (simp add: S_def row_end_def)
      moreover have "1 < sint height" using 3 h(1) by linarith
      ultimately show ?thesis
        using al0(3) multi_row_exact [OF al0(1,2) 3, of ?row]
        by (auto simp: ComputeImageDataSize_def fits Let_def split_beta row S_def [symmetric] max_def)
    next
      case 2
      then have S: "S = row" and one: "height = 1"
        using image_extent_Suc [of _ row 0] by (simp_all add: S_def row_end_def word_unat_eq_iff)
      have "SafeMultiplyUint32 height ?row = (True, word_of_nat row)"
        using True unfolding row [symmetric] by (simp add: SafeMultiplyUint32_def safe_exact32 one)
      then show ?thesis using True by (simp add: ComputeImageDataSize_def fits one S)
    next
      case 1
      then have "S = 0" "height = 0" by (simp_all add: S_def unat_eq_zero)
      moreover have "SafeMultiplyUint32 0 ?row = (True, 0)"
        by (simp add: SafeMultiplyUint32_def safe_exact32)
      ultimately show ?thesis using True by (simp add: ComputeImageDataSize_def fits)
    qed
  qed
qed

text \<open>A 3 by 2 image of 3-byte pixels padded to 4: one row of 12 bytes and one of 9.\<close>

theorem image_data_size_exact_witness:
  "ComputeImageDataSize 3 2 GL_RGB GL_UNSIGNED_BYTE 4 = Some (Some 21)"
proof -
  have "image_extent 4 9 2 = 21"
    using image_extent_Suc [of 4 9 1] by (simp add: row_end_def pad_to_def Suc_1 [symmetric] del: Suc_1)
  moreover have "bytes_per_pixel GL_RGB GL_UNSIGNED_BYTE = 3"
    by (simp add: bytes_per_pixel_def BytesPerElement_def ElementsPerGroup_def)
  ultimately show ?thesis
    using image_data_size_exact [of 3 2 4 GL_RGB GL_UNSIGNED_BYTE] by simp
qed

section \<open>Error bits\<close>

definition gl_errors :: "GLenum list" where
  "gl_errors = [GL_INVALID_ENUM, GL_INVALID_VALUE, GL_INVALID_OPERATION, GL_OUT_OF_MEMORY,
     GL_INVALID_FRAMEBUFFER_OPERATION]"

lemma below_5: "i < (5::nat) \<Longrightarrow> i = 0 \<or> i = 1 \<or> i = 2 \<or> i = 3 \<or> i = 4"
  by linarith

lemma GLErrorToErrorBit_nth:
  "i < 5 \<Longrightarrow> GLErrorToErrorBit (gl_errors ! i) = push_bit i 1"
  by (drule below_5, elim disjE) (simp_all add: gl_errors_def GLErrorToErrorBit_def gl_error_bit_defs)

lemma GLErrorBitToGLError_nth:
  "i < 5 \<Longrightarrow> GLErrorBitToGLError (push_bit i 1) = gl_errors ! i"
  by (drule below_5, elim disjE) (simp_all add: gl_errors_def GLErrorBitToGLError_def gl_error_bit_defs)

end
