(* ===== verification/Buffer_Manager.thy ===== *)
theory Buffer_Manager
  imports Gles2_Cmd_Utils Cmd_Buffer_Common
begin

text \<open>
  The buffer manager of the service (\<^verbatim>\<open>gpu/command_buffer/service/buffer_manager.{h,cc}\<close>): the
  record kept for every GL buffer object, its shadow copy of index data, and the cache of maximum
  indices that draw calls consult.

  A \<^verbatim>\<open>BufferInfo\<close> is reference counted and shared by the manager, the bindings and the vertex
  attributes, so the objects live in a store, a list indexed by address, and the manager's map
  holds addresses. Operations that write or read through the shadow pointer return \<^const>\<open>None\<close>
  where the access would leave the allocated array. Signed sums wrap around, as on the target.
\<close>

section \<open>Buffer objects\<close>

type_synonym BufferRange = "GLuint \<times> GLsizei \<times> GLenum"

record BufferInfo =
  service_id_' :: GLuint
  target_' :: GLenum
  size_' :: GLsizeiptr
  usage_' :: GLenum
  shadowed_' :: bool
  shadow_' :: "byte list option"
  range_set_' :: "BufferRange \<rightharpoonup> GLuint"

definition BufferInfo_new :: "GLuint \<Rightarrow> BufferInfo" where
  "BufferInfo_new service_id =
     \<lparr>service_id_' = service_id, target_' = 0, size_' = 0, usage_' = GL_STATIC_DRAW, shadowed_' = False,
      shadow_' = None, range_set_' = Map.empty\<rparr>"

definition IsDeleted :: "BufferInfo \<Rightarrow> bool" where
  "IsDeleted b \<longleftrightarrow> service_id_' b = 0"

definition Buffer_IsValid :: "BufferInfo \<Rightarrow> bool" where
  "Buffer_IsValid b \<longleftrightarrow> target_' b \<noteq> 0 \<and> \<not> IsDeleted b"

definition ClearCache :: "BufferInfo \<Rightarrow> BufferInfo" where
  "ClearCache b = b\<lparr>range_set_' := Map.empty\<rparr>"

definition MarkAsDeleted :: "BufferInfo \<Rightarrow> BufferInfo" where
  "MarkAsDeleted b = ClearCache (b\<lparr>service_id_' := 0, shadow_' := None\<rparr>)"

text \<open>\<^verbatim>\<open>new int8[size]\<close> with a negative size does not return: \<^const>\<open>None\<close>.\<close>

definition BufferInfo_SetInfo ::
  "GLsizeiptr \<Rightarrow> GLenum \<Rightarrow> bool \<Rightarrow> BufferInfo \<Rightarrow> BufferInfo option" where
  "BufferInfo_SetInfo sz usage shadow b =
     (let b = b\<lparr>usage_' := usage\<rparr>
      in if sz \<noteq> size_' b \<or> shadow \<noteq> shadowed_' b then
           let b = ClearCache (b\<lparr>shadowed_' := shadow, size_' := sz\<rparr>)
           in if shadow then
                if sint sz < 0 then None
                else Some (b\<lparr>shadow_' := Some (replicate (unat sz) 0)\<rparr>)
              else Some b
         else Some b)"

definition range_outside :: "GLintptr \<Rightarrow> GLsizeiptr \<Rightarrow> BufferInfo \<Rightarrow> bool" where
  "range_outside offset sz b \<longleftrightarrow>
     sint offset < 0 \<or> sint (offset + sz) < sint offset \<or> sint (offset + sz) > sint (size_' b)"

definition SetRange ::
  "GLintptr \<Rightarrow> GLsizeiptr \<Rightarrow> byte list \<Rightarrow> BufferInfo \<Rightarrow> (bool \<times> BufferInfo) option" where
  "SetRange offset sz data b =
     (if range_outside offset sz b then Some (False, b)
      else if shadowed_' b then
        case shadow_' b of
          None \<Rightarrow> None
        | Some sh \<Rightarrow>
            if unat offset + unat sz \<le> length sh \<and> unat sz \<le> length data then
              Some (True, ClearCache (b\<lparr>shadow_' :=
                Some (take (unat offset) sh @ take (unat sz) data
                        @ drop (unat offset + unat sz) sh)\<rparr>))
            else None
      else Some (True, b))"

text \<open>What \<^verbatim>\<open>GetRange\<close> returns: the null pointer, an offset into the shadow copy, or an offset
  from a null shadow pointer.\<close>

datatype range_ptr = NullRange | InShadow nat | FromNull nat

definition GetRange :: "GLintptr \<Rightarrow> GLsizeiptr \<Rightarrow> BufferInfo \<Rightarrow> range_ptr" where
  "GetRange offset sz b =
     (if \<not> shadowed_' b then NullRange
      else if range_outside offset sz b then NullRange
      else case shadow_' b of Some _ \<Rightarrow> InShadow (unat offset) | None \<Rightarrow> FromNull (unat offset))"

section \<open>The maximum index of a range\<close>

text \<open>Reading a little-endian element of \<open>w\<close> bytes.\<close>

fun le_value :: "byte list \<Rightarrow> nat" where
  "le_value [] = 0"
| "le_value (x # xs) = unat x + 256 * le_value xs"

definition read_elem :: "nat \<Rightarrow> byte list \<Rightarrow> nat \<Rightarrow> GLuint option" where
  "read_elem w data pos =
     (if pos + w \<le> length data then Some (word_of_nat (le_value (take w (drop pos data)))) else None)"

fun max_loop :: "nat \<Rightarrow> byte list \<Rightarrow> nat \<Rightarrow> nat \<Rightarrow> GLuint \<Rightarrow> GLuint option" where
  "max_loop w data pos 0 max_value = Some max_value"
| "max_loop w data pos (Suc n) max_value =
     (case read_elem w data pos of
        None \<Rightarrow> None
      | Some v \<Rightarrow> max_loop w data (pos + w) n (if v > max_value then v else max_value))"

text \<open>\<^verbatim>\<open>GetMaxValue<T>\<close>: a negative count makes the loop empty; a null \<^verbatim>\<open>data\<close> faults on the
  first read.\<close>

definition GetMaxValue :: "nat \<Rightarrow> byte list option \<Rightarrow> GLuint \<Rightarrow> GLsizei \<Rightarrow> GLuint option" where
  "GetMaxValue w data offset count =
     max_loop w (case data of None \<Rightarrow> [] | Some d \<Rightarrow> d) (unat offset) (nat (sint count)) 0"

definition GetMaxValueForRange ::
  "GLuint \<Rightarrow> GLsizei \<Rightarrow> GLenum \<Rightarrow> BufferInfo \<Rightarrow> (GLuint option \<times> BufferInfo) option" where
  "GetMaxValueForRange offset count type b =
     (case range_set_' b (offset, count, type) of
        Some v \<Rightarrow> Some (Some v, b)
      | None \<Rightarrow>
          let (ok, sz) = SafeMultiplyUint32 count (GetGLTypeSizeForTexturesAndBuffers type)
          in if \<not> ok then Some (None, b)
             else let (ok, sz) = SafeAddUint32 offset sz
                  in if \<not> ok then Some (None, b)
                     else if sz > size_' b then Some (None, b)
                     else if \<not> shadowed_' b then Some (None, b)
                     else if type = GL_UNSIGNED_SHORT \<and> offset AND 1 \<noteq> 0 then Some (None, b)
                     else if type = GL_UNSIGNED_INT \<and> offset AND 3 \<noteq> 0 then Some (None, b)
                     else case (if type = GL_UNSIGNED_BYTE then GetMaxValue 1 (shadow_' b) offset count
                                else if type = GL_UNSIGNED_SHORT
                                  then GetMaxValue 2 (shadow_' b) offset count
                                else if type = GL_UNSIGNED_INT
                                  then GetMaxValue 4 (shadow_' b) offset count
                                else Some 0) of
                            None \<Rightarrow> None
                          | Some max_v \<Rightarrow>
                              Some (Some max_v,
                                b\<lparr>range_set_' := (range_set_' b)((offset, count, type) \<mapsto> max_v)\<rparr>))"

section \<open>The manager\<close>

text \<open>\<open>buffer_infos_'\<close> lists the hash map's entries in its iteration order; \<open>objects\<close> is the store of
  all buffer objects ever created.\<close>

record BufferManager =
  buffer_infos_' :: "(GLuint \<times> nat) list"
  allow_buffers_on_multiple_targets_' :: bool
  objects :: "BufferInfo list"

definition BufferManager_new :: BufferManager where
  "BufferManager_new =
     \<lparr>buffer_infos_' = [], allow_buffers_on_multiple_targets_' = False, objects = []\<rparr>"

definition update_object :: "nat \<Rightarrow> BufferInfo \<Rightarrow> BufferManager \<Rightarrow> BufferManager" where
  "update_object a b m = m\<lparr>objects := (objects m)[a := b]\<rparr>"

text \<open>\<^verbatim>\<open>insert\<close> keeps an existing entry, the debug check aside; the new object is then dropped.\<close>

definition CreateBufferInfo :: "GLuint \<Rightarrow> GLuint \<Rightarrow> BufferManager \<Rightarrow> BufferManager" where
  "CreateBufferInfo client_id service_id m =
     (if map_of (buffer_infos_' m) client_id = None then
        m\<lparr>buffer_infos_' := (client_id, length (objects m)) # buffer_infos_' m,
          objects := objects m @ [BufferInfo_new service_id]\<rparr>
      else m)"

definition GetBufferInfo :: "GLuint \<Rightarrow> BufferManager \<Rightarrow> nat option" where
  "GetBufferInfo client_id m = map_of (buffer_infos_' m) client_id"

definition RemoveBufferInfo :: "GLuint \<Rightarrow> BufferManager \<Rightarrow> BufferManager" where
  "RemoveBufferInfo client_id m =
     (case map_of (buffer_infos_' m) client_id of
        None \<Rightarrow> m
      | Some a \<Rightarrow>
          (update_object a (MarkAsDeleted (objects m ! a)) m)
            \<lparr>buffer_infos_' := filter (\<lambda>e. fst e \<noteq> client_id) (buffer_infos_' m)\<rparr>)"

text \<open>\<^verbatim>\<open>Destroy\<close> also returns the service ids it passes to \<^verbatim>\<open>glDeleteBuffersARB\<close>.\<close>

fun destroy_infos :: "bool \<Rightarrow> (GLuint \<times> nat) list \<Rightarrow> BufferInfo list \<Rightarrow> GLuint list \<times> BufferInfo list" where
  "destroy_infos have_context [] objs = ([], objs)"
| "destroy_infos have_context ((cid, a) # es) objs =
     (if have_context \<and> \<not> IsDeleted (objs ! a) then
        let (ids, objs') = destroy_infos have_context es (objs[a := MarkAsDeleted (objs ! a)])
        in (service_id_' (objs ! a) # ids, objs')
      else destroy_infos have_context es objs)"

definition BufferManager_Destroy :: "bool \<Rightarrow> BufferManager \<Rightarrow> GLuint list \<times> BufferManager" where
  "BufferManager_Destroy have_context m =
     (let (ids, objs) = destroy_infos have_context (buffer_infos_' m) (objects m)
      in (ids, m\<lparr>buffer_infos_' := [], objects := objs\<rparr>))"

definition BufferManager_GetClientId :: "GLuint \<Rightarrow> BufferManager \<Rightarrow> GLuint option" where
  "BufferManager_GetClientId service_id m =
     map_option fst (find (\<lambda>(cid, a). service_id_' (objects m ! a) = service_id) (buffer_infos_' m))"

definition BufferManager_SetInfo ::
  "nat \<Rightarrow> GLsizeiptr \<Rightarrow> GLenum \<Rightarrow> BufferManager \<Rightarrow> BufferManager option" where
  "BufferManager_SetInfo a sz usage m =
     map_option (\<lambda>b. update_object a b m)
       (BufferInfo_SetInfo sz usage
          (target_' (objects m ! a) = GL_ELEMENT_ARRAY_BUFFER \<or> allow_buffers_on_multiple_targets_' m)
          (objects m ! a))"

definition SetTarget :: "nat \<Rightarrow> GLenum \<Rightarrow> BufferManager \<Rightarrow> bool \<times> BufferManager" where
  "SetTarget a target m =
     (let b = objects m ! a
      in if target_' b \<noteq> 0 \<and> target_' b \<noteq> target \<and> \<not> allow_buffers_on_multiple_targets_' m then (False, m)
         else if target_' b = 0 then (True, update_object a (b\<lparr>target_' := target\<rparr>) m)
         else (True, m))"

definition set_allow_buffers_on_multiple_targets :: "bool \<Rightarrow> BufferManager \<Rightarrow> BufferManager" where
  "set_allow_buffers_on_multiple_targets allow m = m\<lparr>allow_buffers_on_multiple_targets_' := allow\<rparr>"

section \<open>The reference maximum\<close>

definition elem_value :: "nat \<Rightarrow> byte list \<Rightarrow> nat \<Rightarrow> nat" where
  "elem_value w data pos = le_value (take w (drop pos data))"

definition max_index :: "nat \<Rightarrow> byte list \<Rightarrow> nat \<Rightarrow> nat \<Rightarrow> nat" where
  "max_index w data pos n = Max (insert 0 ((\<lambda>i. elem_value w data (pos + i * w)) ` {..<n}))"

lemma le_value_bound: "le_value xs < 256 ^ length xs"
proof (induction xs)
  case (Cons x xs)
  have "unat x < 256" using unsigned_less [of x] by simp
  then show ?case using Cons by simp
qed simp

lemma elem_value_bound:
  assumes "w \<le> 4"
  shows "elem_value w data pos < 4294967296"
proof -
  have "elem_value w data pos < 256 ^ length (take w (drop pos data))"
    unfolding elem_value_def by (rule le_value_bound)
  also have "\<dots> \<le> 256 ^ 4"
    using assms by (intro power_increasing) (auto simp: min_def)
  finally show ?thesis by simp
qed

lemma max_index_0 [simp]: "max_index w data pos 0 = 0"
  by (simp add: max_index_def)

lemma max_index_Suc:
  "max_index w data pos (Suc n) = max (elem_value w data pos) (max_index w data (pos + w) n)"
proof -
  have "{..<Suc n} = insert 0 (Suc ` {..<n})" by (simp add: lessThan_Suc_eq_insert_0)
  then have "(\<lambda>i. elem_value w data (pos + i * w)) ` {..<Suc n}
    = insert (elem_value w data pos) ((\<lambda>i. elem_value w data (pos + w + i * w)) ` {..<n})"
    by (simp add: image_image add.assoc)
  then show ?thesis
    unfolding max_index_def by (simp add: insert_commute [of 0 "elem_value w data pos"])
qed

lemma max_index_bound: "w \<le> 4 \<Longrightarrow> max_index w data pos n < 4294967296"
  by (auto simp: max_index_def intro: elem_value_bound)

lemma max_loop_correct:
  assumes "w \<le> 4" "pos + n * w \<le> length data"
  shows "\<exists>v. max_loop w data pos n m = Some v \<and> unat v = max (unat m) (max_index w data pos n)"
  using assms(2)
proof (induction n arbitrary: pos m)
  case (Suc n)
  let ?e = "word_of_nat (elem_value w data pos) :: GLuint"
  have e: "unat ?e = elem_value w data pos"
    using elem_value_bound [OF assms(1), of data pos] by (simp add: unat_of_nat)
  have "read_elem w data pos = Some ?e"
    using Suc.prems by (simp add: read_elem_def elem_value_def)
  moreover have "pos + w + n * w \<le> length data" using Suc.prems by simp
  then obtain v where "max_loop w data (pos + w) n (if ?e > m then ?e else m) = Some v"
      "unat v = max (unat (if ?e > m then ?e else m)) (max_index w data (pos + w) n)"
    using Suc.IH [of "pos + w" "if ?e > m then ?e else m"] by blast
  moreover have "unat (if ?e > m then ?e else m) = max (unat m) (elem_value w data pos)"
    using e by (auto simp: word_less_nat_alt max_def)
  ultimately show ?case by (simp only: max_loop.simps option.case max_index_Suc max.assoc) simp
qed simp

section \<open>The invariant of a buffer object\<close>

definition index_types :: "GLenum set" where
  "index_types = {GL_UNSIGNED_BYTE, GL_UNSIGNED_SHORT, GL_UNSIGNED_INT}"

abbreviation type_size :: "GLenum \<Rightarrow> nat" where
  "type_size type \<equiv> unat (GetGLTypeSizeForTexturesAndBuffers type)"

text \<open>A range a draw call may use: the data is shadowed, the range ends inside the buffer and
  starts at a multiple of the element size.\<close>

definition range_valid :: "GLuint \<Rightarrow> GLsizei \<Rightarrow> GLenum \<Rightarrow> BufferInfo \<Rightarrow> bool" where
  "range_valid offset count type b \<longleftrightarrow>
     shadowed_' b \<and> unat offset + unat count * type_size type \<le> unat (size_' b)
     \<and> (type \<in> index_types \<longrightarrow> unat offset mod type_size type = 0)"

definition range_max :: "GLuint \<Rightarrow> GLsizei \<Rightarrow> GLenum \<Rightarrow> BufferInfo \<Rightarrow> nat" where
  "range_max offset count type b =
     (if type \<in> index_types then
        (case shadow_' b of
           None \<Rightarrow> 0
         | Some sh \<Rightarrow> max_index (type_size type) sh (unat offset) (unat count))
      else 0)"

definition buffer_ok :: "BufferInfo \<Rightarrow> bool" where
  "buffer_ok b \<longleftrightarrow>
     0 \<le> sint (size_' b)
     \<and> (IsDeleted b \<longrightarrow> range_set_' b = Map.empty)
     \<and> (shadowed_' b \<and> \<not> IsDeleted b \<longrightarrow> (\<exists>sh. shadow_' b = Some sh \<and> length sh = unat (size_' b)))
     \<and> (\<forall>offset count type v. range_set_' b (offset, count, type) = Some v \<longrightarrow>
          range_valid offset count type b \<and> unat v = range_max offset count type b)"

lemma type_size_index:
  "type_size GL_UNSIGNED_BYTE = 1" "type_size GL_UNSIGNED_SHORT = 2" "type_size GL_UNSIGNED_INT = 4"
  by (simp_all add: GetGLTypeSizeForTexturesAndBuffers_def)

lemma type_size_le: "type_size type \<le> 4"
  by (simp add: GetGLTypeSizeForTexturesAndBuffers_def)

lemma and_low_bits:
  "offset AND 1 = 0 \<longleftrightarrow> unat offset mod 2 = 0" "offset AND 3 = 0 \<longleftrightarrow> unat offset mod 4 = 0"
  for offset :: "32 word"
proof -
  have "unat (offset AND 1) = unat offset AND 1" "unat (offset AND 3) = unat offset AND 3"
    by (simp_all add: unsigned_and_eq)
  moreover have "n AND 1 = n mod 2" "n AND 3 = n mod 4" for n :: nat
    using take_bit_eq_mask [of 1 n] take_bit_eq_mask [of 2 n]
    by (simp_all add: mask_eq_exp_minus_1 take_bit_eq_mod)
  ultimately show "offset AND 1 = 0 \<longleftrightarrow> unat offset mod 2 = 0"
    "offset AND 3 = 0 \<longleftrightarrow> unat offset mod 4 = 0"
    by (simp_all add: word_unat_eq_iff)
qed

lemma range_outside_iff:
  assumes "0 \<le> sint (size_' b)"
  shows "range_outside offset sz b \<longleftrightarrow>
    \<not> (0 \<le> sint offset \<and> 0 \<le> sint sz \<and> unat offset + unat sz \<le> unat (size_' b))"
proof (cases "0 \<le> sint offset")
  case True
  note off = sint_nonneg_unat [OF True] and b = sint_nonneg_unat [OF assms]
  have sum: "sint (offset + sz) = i32 (sint offset + sint sz)"
    by (simp add: sint_word_add signed_take_bit_eq_take_bit_shift i32_def take_bit_eq_mod)
  show ?thesis
  proof (cases "0 \<le> sint sz")
    case pos: True
    note sz = sint_nonneg_unat [OF pos]
    show ?thesis
    proof (cases "sint offset + sint sz < 2147483648")
      case fits: True
      then have "sint (offset + sz) = sint offset + sint sz" using sum True pos by simp
      then have "range_outside offset sz b \<longleftrightarrow> sint offset + sint sz > sint (size_' b)"
        using True pos unfolding range_outside_def by linarith
      also have "\<dots> \<longleftrightarrow> \<not> unat offset + unat sz \<le> unat (size_' b)"
        using off(1) sz(1) b(1) by linarith
      finally show ?thesis using True pos by blast
    next
      case False
      then have "sint (offset + sz) < 0"
        using sum sint_lt [of offset] sint_lt [of sz] i32_over [of "sint offset + sint sz"] by simp
      then have "range_outside offset sz b" using True by (simp add: range_outside_def)
      moreover have "\<not> unat offset + unat sz \<le> unat (size_' b)"
        using False off(1) sz(1) b by linarith
      ultimately show ?thesis by blast
    qed
  next
    case False
    then have "sint (offset + sz) = sint offset + sint sz"
      using sum True sint_ge [of sz] sint_lt [of offset] by simp
    then show ?thesis using False by (simp add: range_outside_def)
  qed
qed (simp add: range_outside_def)

section \<open>Every operation keeps the invariant\<close>

lemma buffer_ok_new [simp]: "buffer_ok (BufferInfo_new sid)"
  by (simp add: buffer_ok_def BufferInfo_new_def IsDeleted_def)

lemma range_valid_simps [simp]:
  "range_valid offset count type (b\<lparr>range_set_' := R\<rparr>) = range_valid offset count type b"
  "range_valid offset count type (b\<lparr>usage_' := u\<rparr>) = range_valid offset count type b"
  "range_valid offset count type (b\<lparr>target_' := t\<rparr>) = range_valid offset count type b"
  "range_max offset count type (b\<lparr>range_set_' := R\<rparr>) = range_max offset count type b"
  "range_max offset count type (b\<lparr>usage_' := u\<rparr>) = range_max offset count type b"
  "range_max offset count type (b\<lparr>target_' := t\<rparr>) = range_max offset count type b"
  by (simp_all add: range_valid_def range_max_def)

lemma buffer_ok_target [simp]: "buffer_ok (b\<lparr>target_' := t\<rparr>) = buffer_ok b"
  by (simp add: buffer_ok_def IsDeleted_def)

lemma MarkAsDeleted_ok: "buffer_ok b \<Longrightarrow> buffer_ok (MarkAsDeleted b)" "IsDeleted (MarkAsDeleted b)"
  by (simp_all add: buffer_ok_def MarkAsDeleted_def ClearCache_def IsDeleted_def)

lemma SetInfo_ok:
  assumes "buffer_ok b" "\<not> IsDeleted b" "0 \<le> sint sz"
  shows "\<exists>b'. BufferInfo_SetInfo sz usage shadow b = Some b' \<and> buffer_ok b'
    \<and> service_id_' b' = service_id_' b \<and> target_' b' = target_' b \<and> size_' b' = sz
    \<and> usage_' b' = usage \<and> shadowed_' b' = shadow"
  using assms
  by (auto simp: buffer_ok_def BufferInfo_SetInfo_def ClearCache_def IsDeleted_def Let_def)

definition shadow_contents :: "BufferInfo \<Rightarrow> byte list" where
  "shadow_contents b = (case shadow_' b of Some sh \<Rightarrow> sh | None \<Rightarrow> [])"

lemma buffer_shadow:
  "buffer_ok b \<Longrightarrow> \<not> IsDeleted b \<Longrightarrow> shadowed_' b \<Longrightarrow>
    shadow_' b = Some (shadow_contents b) \<and> length (shadow_contents b) = unat (size_' b)"
  by (auto simp: buffer_ok_def shadow_contents_def)

lemma SetRange_ok:
  assumes "buffer_ok b" "\<not> IsDeleted b" "unat sz \<le> length data"
  shows "\<exists>b'. SetRange offset sz data b
      = Some (0 \<le> sint offset \<and> 0 \<le> sint sz \<and> unat offset + unat sz \<le> unat (size_' b), b')
    \<and> buffer_ok b' \<and> service_id_' b' = service_id_' b \<and> size_' b' = size_' b
    \<and> target_' b' = target_' b \<and> usage_' b' = usage_' b \<and> shadowed_' b' = shadowed_' b"
proof -
  have sz: "0 \<le> sint (size_' b)" using assms(1) by (simp add: buffer_ok_def)
  show ?thesis
  proof (cases "range_outside offset sz b \<or> \<not> shadowed_' b")
    case True
    then show ?thesis
      using assms(1) range_outside_iff [OF sz, of offset sz] by (auto simp: SetRange_def)
  next
    case False
    then have inr: "0 \<le> sint offset" "0 \<le> sint sz" "unat offset + unat sz \<le> unat (size_' b)"
      using range_outside_iff [OF sz, of offset sz] by blast+
    let ?sh = "shadow_contents b"
    let ?sh' = "take (unat offset) ?sh @ take (unat sz) data @ drop (unat offset + unat sz) ?sh"
    have sh: "shadow_' b = Some ?sh" "length ?sh = unat (size_' b)"
      using buffer_shadow [OF assms(1,2)] False by simp_all
    have "SetRange offset sz data b = Some (True, ClearCache (b\<lparr>shadow_' := Some ?sh'\<rparr>))"
      using False sh inr assms(3) by (simp add: SetRange_def)
    moreover have "buffer_ok (ClearCache (b\<lparr>shadow_' := Some ?sh'\<rparr>))"
      using assms(1,3) sh(2) inr(3) by (simp add: buffer_ok_def ClearCache_def IsDeleted_def)
    ultimately show ?thesis using inr by (simp add: ClearCache_def)
  qed
qed

lemma count_nonneg:
  assumes "unat count * w \<le> n" "n < 2147483648" "0 < w"
  shows "nat (sint (count :: 32 word)) = unat count"
proof -
  have "unat count * 1 \<le> unat count * w" using assms(3) by (intro mult_le_mono) simp_all
  then have "unat count < 2147483648" using assms(1,2) by linarith
  then have "sint count = int (unat count)" by (rule sint_small)
  then show ?thesis by simp
qed

text \<open>The scan of the shadow copy, without the cache.\<close>

lemma GetMaxValue_range:
  assumes "buffer_ok b" "\<not> IsDeleted b" "range_valid offset count type b" "type \<in> index_types"
  shows "\<exists>v. GetMaxValue (type_size type) (shadow_' b) offset count = Some v
    \<and> unat v = range_max offset count type b"
proof -
  have v: "unat offset + unat count * type_size type \<le> unat (size_' b)" "shadowed_' b"
    using assms(3) by (simp_all add: range_valid_def)
  have sh: "shadow_' b = Some (shadow_contents b)" "length (shadow_contents b) = unat (size_' b)"
    using buffer_shadow [OF assms(1,2) v(2)] by simp_all
  have "unat (size_' b) < 2147483648"
    using assms(1) sint_nonneg_unat(2) by (simp add: buffer_ok_def)
  moreover have "0 < type_size type" using assms(4) type_size_index by (auto simp: index_types_def)
  ultimately have "nat (sint count) = unat count" using count_nonneg [of count] v(1)
    by (meson add_leD2)
  then show ?thesis
    using max_loop_correct [OF type_size_le, of "unat offset" "unat count" type "shadow_contents b" 0]
      v(1) sh assms(4) by (simp add: GetMaxValue_def range_max_def)
qed

text \<open>The bounds check of the code is the mathematical one.\<close>

definition range_check :: "GLuint \<Rightarrow> GLsizei \<Rightarrow> GLenum \<Rightarrow> BufferInfo \<Rightarrow> bool" where
  "range_check offset count type b \<longleftrightarrow>
     (let (ok, sz) = SafeMultiplyUint32 count (GetGLTypeSizeForTexturesAndBuffers type);
          (ok', sz') = SafeAddUint32 offset sz
      in ok \<and> ok' \<and> \<not> sz' > size_' b)"

lemma range_check_iff:
  "range_check offset count type b \<longleftrightarrow>
    unat offset + unat count * type_size type \<le> unat (size_' b)"
proof (cases "unat count * type_size type < 4294967296")
  case True
  let ?p = "count * GetGLTypeSizeForTexturesAndBuffers type"
  have p: "unat ?p = unat count * type_size type"
    using True by (subst unat_mult_exact) simp_all
  show ?thesis
  proof (cases "unat offset + unat ?p < 4294967296")
    case sum: True
    then have "unat (offset + ?p) = unat offset + unat ?p" by (subst unat_add_exact) simp_all
    then show ?thesis
      using True sum p by (simp add: range_check_def SafeMultiplyUint32_def SafeAddUint32_def
          safe_exact32 word_less_nat_alt not_less)
  next
    case False
    then have "\<not> unat offset + unat count * type_size type \<le> unat (size_' b)"
      using p unat_less_32 [of "size_' b"] by linarith
    then show ?thesis
      using True False
      by (simp add: range_check_def SafeMultiplyUint32_def SafeAddUint32_def safe_exact32)
  qed
next
  case False
  then have "\<not> unat offset + unat count * type_size type \<le> unat (size_' b)"
    using unat_less_32 [of "size_' b"] by linarith
  then show ?thesis
    using False by (simp add: range_check_def SafeMultiplyUint32_def safe_exact32 split_beta)
qed

lemma GetMaxValueForRange_scan:
  assumes "range_set_' b (offset, count, type) = None"
  shows "GetMaxValueForRange offset count type b =
    (if range_valid offset count type b then
       case (if type \<in> index_types then GetMaxValue (type_size type) (shadow_' b) offset count
             else Some 0) of
         None \<Rightarrow> None
       | Some v \<Rightarrow> Some (Some v, b\<lparr>range_set_' := (range_set_' b)((offset, count, type) \<mapsto> v)\<rparr>)
     else Some (None, b))"
proof -
  have A: "GetMaxValueForRange offset count type b =
    (if range_check offset count type b \<and> shadowed_' b
        \<and> (type = GL_UNSIGNED_SHORT \<longrightarrow> offset AND 1 = 0) \<and> (type = GL_UNSIGNED_INT \<longrightarrow> offset AND 3 = 0)
     then case (if type = GL_UNSIGNED_BYTE then GetMaxValue 1 (shadow_' b) offset count
                else if type = GL_UNSIGNED_SHORT then GetMaxValue 2 (shadow_' b) offset count
                else if type = GL_UNSIGNED_INT then GetMaxValue 4 (shadow_' b) offset count
                else Some 0) of
         None \<Rightarrow> None
       | Some v \<Rightarrow> Some (Some v, b\<lparr>range_set_' := (range_set_' b)((offset, count, type) \<mapsto> v)\<rparr>)
     else Some (None, b))"
    using assms by (simp add: GetMaxValueForRange_def range_check_def Let_def split_beta)
  have B: "(type = GL_UNSIGNED_SHORT \<longrightarrow> offset AND 1 = 0)
      \<and> (type = GL_UNSIGNED_INT \<longrightarrow> offset AND 3 = 0)
    \<longleftrightarrow> (type \<in> index_types \<longrightarrow> unat offset mod type_size type = 0)"
    by (auto simp: index_types_def type_size_index and_low_bits)
  have C: "(if type = GL_UNSIGNED_BYTE then GetMaxValue 1 (shadow_' b) offset count
      else if type = GL_UNSIGNED_SHORT then GetMaxValue 2 (shadow_' b) offset count
      else if type = GL_UNSIGNED_INT then GetMaxValue 4 (shadow_' b) offset count else Some 0)
    = (if type \<in> index_types then GetMaxValue (type_size type) (shadow_' b) offset count else Some 0)"
    by (simp add: index_types_def type_size_index)
  show ?thesis
    unfolding A C by (intro if_cong refl) (use B in \<open>auto simp: range_check_iff range_valid_def\<close>)
qed

section \<open>The manager's invariant\<close>

definition buffers_ok :: "BufferManager \<Rightarrow> bool" where
  "buffers_ok m \<longleftrightarrow>
     (\<forall>b \<in> set (objects m). buffer_ok b)
     \<and> distinct (map fst (buffer_infos_' m)) \<and> distinct (map snd (buffer_infos_' m))
     \<and> (\<forall>a \<in> snd ` set (buffer_infos_' m). a < length (objects m))"

lemma buffers_ok_new [simp]: "buffers_ok BufferManager_new"
  by (simp add: buffers_ok_def BufferManager_new_def)

lemma buffers_ok_object: "buffers_ok m \<Longrightarrow> a < length (objects m) \<Longrightarrow> buffer_ok (objects m ! a)"
  by (simp add: buffers_ok_def)

lemma update_object_simps [simp]:
  "buffer_infos_' (update_object a b m) = buffer_infos_' m"
  "objects (update_object a b m) = (objects m)[a := b]"
  "allow_buffers_on_multiple_targets_' (update_object a b m) = allow_buffers_on_multiple_targets_' m"
  by (simp_all add: update_object_def)

lemma update_object_ok: "buffers_ok m \<Longrightarrow> buffer_ok b \<Longrightarrow> buffers_ok (update_object a b m)"
  by (auto simp: buffers_ok_def update_object_def dest!: set_update_subset_insert [THEN subsetD])

lemma GetBufferInfo_less: "buffers_ok m \<Longrightarrow> GetBufferInfo cid m = Some a \<Longrightarrow> a < length (objects m)"
  by (auto simp: buffers_ok_def GetBufferInfo_def dest!: map_of_SomeD)

lemma CreateBufferInfo_ok: "buffers_ok m \<Longrightarrow> buffers_ok (CreateBufferInfo cid sid m)"
  by (force simp: buffers_ok_def CreateBufferInfo_def map_of_eq_None_iff)

lemma map_of_filter_ne: "map_of (filter (\<lambda>e. fst e \<noteq> k) xs) = (map_of xs)(k := None)"
  by (induction xs) (auto simp: fun_eq_iff)

lemma RemoveBufferInfo_ok:
  assumes "buffers_ok m"
  shows "buffers_ok (RemoveBufferInfo cid m)"
proof (cases "map_of (buffer_infos_' m) cid")
  case (Some a)
  then have "a < length (objects m)" using GetBufferInfo_less [OF assms] by (simp add: GetBufferInfo_def)
  then have "buffers_ok (update_object a (MarkAsDeleted (objects m ! a)) m)"
    using assms by (intro update_object_ok MarkAsDeleted_ok buffers_ok_object)
  then show ?thesis
    using Some by (auto simp: RemoveBufferInfo_def buffers_ok_def distinct_map_filter)
qed (simp add: RemoveBufferInfo_def assms)

lemma SetTarget_ok: "buffers_ok m \<Longrightarrow> a < length (objects m) \<Longrightarrow> buffers_ok (snd (SetTarget a t m))"
  by (simp add: SetTarget_def Let_def update_object_ok buffers_ok_object)

lemma BufferManager_SetInfo_ok:
  assumes "buffers_ok m" "a < length (objects m)" "\<not> IsDeleted (objects m ! a)" "0 \<le> sint sz"
  shows "\<exists>b'. BufferManager_SetInfo a sz usage m = Some (update_object a b' m)
    \<and> buffer_ok b' \<and> service_id_' b' = service_id_' (objects m ! a) \<and> size_' b' = sz"
proof -
  let ?shadow = "target_' (objects m ! a) = GL_ELEMENT_ARRAY_BUFFER \<or> allow_buffers_on_multiple_targets_' m"
  obtain b' where "BufferInfo_SetInfo sz usage ?shadow (objects m ! a) = Some b'" "buffer_ok b'"
      "service_id_' b' = service_id_' (objects m ! a)" "size_' b' = sz"
    using SetInfo_ok [OF buffers_ok_object [OF assms(1,2)] assms(3,4), of usage ?shadow] by blast
  then show ?thesis by (intro exI [of _ b']) (simp add: BufferManager_SetInfo_def)
qed

text \<open>What the map promises: a created id is found with its service id, a removed one is not, its
  object is marked deleted wherever it is still referenced, and other ids are not affected.\<close>

lemma GetBufferInfo_create:
  "GetBufferInfo cid m = None \<Longrightarrow>
    GetBufferInfo cid' (CreateBufferInfo cid sid m) =
      (if cid' = cid then Some (length (objects m)) else GetBufferInfo cid' m)
    \<and> objects (CreateBufferInfo cid sid m) = objects m @ [BufferInfo_new sid]"
  by (simp add: GetBufferInfo_def CreateBufferInfo_def)

lemma GetBufferInfo_remove:
  assumes "buffers_ok m"
  shows "GetBufferInfo cid' (RemoveBufferInfo cid m) =
    (if cid' = cid then None else GetBufferInfo cid' m)"
    and "GetBufferInfo cid m = Some a \<Longrightarrow> IsDeleted (objects (RemoveBufferInfo cid m) ! a)"
  using GetBufferInfo_less [OF assms, of cid a]
  by (auto simp: GetBufferInfo_def RemoveBufferInfo_def map_of_filter_ne MarkAsDeleted_ok(2)
      update_object_def split: option.splits)

lemma GetMaxValueForRange_spec:
  assumes "buffer_ok b" "\<not> IsDeleted b"
  shows "\<exists>r b'. GetMaxValueForRange offset count type b = Some (r, b') \<and> buffer_ok b'
    \<and> b'\<lparr>range_set_' := range_set_' b\<rparr> = b
    \<and> (if range_valid offset count type b
       then \<exists>v. r = Some v \<and> unat v = range_max offset count type b else r = None)"
proof (cases "range_set_' b (offset, count, type)")
  case (Some v)
  then have "range_valid offset count type b" "unat v = range_max offset count type b"
    using assms(1) by (simp_all add: buffer_ok_def)
  then show ?thesis using Some assms(1) by (simp add: GetMaxValueForRange_def)
next
  case None
  note scan = GetMaxValueForRange_scan [OF None]
  show ?thesis
  proof (cases "range_valid offset count type b")
    case False
    then show ?thesis using assms(1) by (simp add: scan)
  next
    case True
    obtain v where v: "(if type \<in> index_types
          then GetMaxValue (type_size type) (shadow_' b) offset count else Some 0) = Some v"
        "unat v = range_max offset count type b"
      using GetMaxValue_range [OF assms True]
      by (cases "type \<in> index_types") (auto simp: range_max_def)
    have "buffer_ok (b\<lparr>range_set_' := (range_set_' b)((offset, count, type) \<mapsto> v)\<rparr>)"
      using assms True v(2) by (auto simp: buffer_ok_def IsDeleted_def)
    then show ?thesis using True v by (simp add: scan)
  qed
qed

text \<open>C4: on a live buffer, \<^verbatim>\<open>BufferInfo::GetMaxValueForRange\<close> never reads outside the shadow copy.
  It succeeds exactly when the data is shadowed, the range (in unbounded arithmetic, for any signed
  count) ends inside the buffer and starts at a multiple of the index size; the value is then the
  largest index in the current contents, whether it was cached or not, and the cache stays
  coherent.\<close>

theorem max_value_for_range:
  assumes "buffer_ok b" "\<not> IsDeleted b"
  shows "\<exists>r b'. GetMaxValueForRange offset count type b = Some (r, b') \<and> buffer_ok b'
    \<and> b'\<lparr>range_set_' := range_set_' b\<rparr> = b
    \<and> (if range_valid offset count type b
       then \<exists>v. r = Some v \<and> unat v = range_max offset count type b else r = None)"
  by (rule GetMaxValueForRange_spec [OF assms])

text \<open>Two 16-bit indices, 3 and 258, in a shadowed buffer of four bytes.\<close>

definition sample_buffer :: BufferInfo where
  "sample_buffer = \<lparr>service_id_' = 7, target_' = GL_ELEMENT_ARRAY_BUFFER, size_' = 4,
     usage_' = GL_STATIC_DRAW, shadowed_' = True, shadow_' = Some [3, 0, 2, 1],
     range_set_' = Map.empty\<rparr>"

theorem max_value_for_range_witness:
  "\<exists>v b'. GetMaxValueForRange 0 2 GL_UNSIGNED_SHORT sample_buffer = Some (Some v, b') \<and> unat v = 258"
proof -
  have "buffer_ok sample_buffer" "\<not> IsDeleted sample_buffer"
    by (simp_all add: sample_buffer_def buffer_ok_def IsDeleted_def)
  moreover have "range_valid 0 2 GL_UNSIGNED_SHORT sample_buffer"
    by (simp add: range_valid_def sample_buffer_def type_size_index)
  moreover have "max_index 2 [3, 0, 2, 1] 0 (Suc 1) = 258"
    by (simp add: max_index_Suc elem_value_def)
  then have "range_max 0 2 GL_UNSIGNED_SHORT sample_buffer = 258"
    unfolding Suc_1 by (simp add: range_max_def sample_buffer_def type_size_index index_types_def)
  ultimately show ?thesis
    using max_value_for_range [of sample_buffer 0 2 GL_UNSIGNED_SHORT] by auto
qed

end
