(* ===== verification/Vertex_Attrib_Manager.thy ===== *)
theory Vertex_Attrib_Manager
  imports Buffer_Manager
begin

text \<open>
  The vertex attribute manager (\<^verbatim>\<open>gpu/command_buffer/service/vertex_attrib_manager.{h,cc}\<close>): the
  parameters of every vertex attribute, the lists of enabled and disabled attributes, and the test
  whether an attribute may access a vertex index.

  Pointers to attributes are their indices in the array, pointers to buffers are addresses in the
  store of the buffer manager. Floats are kept as their bit patterns: the sources copy and compare
  them only.
\<close>

section \<open>Attributes\<close>

type_synonym GLfloat = "32 word"

record VertexAttribInfo =
  index_' :: GLuint
  enabled_' :: bool
  attrib_size_' :: GLint
  type_' :: GLenum
  offset_' :: GLsizei
  normalized_' :: bool
  gl_stride_' :: GLsizei
  real_stride_' :: GLsizei
  value_' :: "GLfloat list"
  buffer_' :: "nat option"
  on_enabled_list :: "bool option"

definition VertexAttribInfo_new :: VertexAttribInfo where
  "VertexAttribInfo_new =
     \<lparr>index_' = 0, enabled_' = False, attrib_size_' = 4, type_' = GL_FLOAT, offset_' = 0,
      normalized_' = False, gl_stride_' = 0, real_stride_' = 16,
      value_' = [0, 0, 0, 0x3F800000], buffer_' = None, on_enabled_list = None\<rparr>"

definition CanAccess :: "BufferInfo list \<Rightarrow> GLuint \<Rightarrow> VertexAttribInfo \<Rightarrow> bool" where
  "CanAccess objs i info =
     (if \<not> enabled_' info then True
      else case buffer_' info of
        None \<Rightarrow> False
      | Some a \<Rightarrow>
          if IsDeleted (objs ! a) then False
          else let buffer_size = size_' (objs ! a)
               in if sint (offset_' info) > sint buffer_size \<or> real_stride_' info = 0 then False
                  else let usable_size = buffer_size - offset_' info;
                           num_elements = usable_size div real_stride_' info
                             + (if usable_size mod real_stride_' info
                                   \<ge> GetGLTypeSizeForTexturesAndBuffers (type_' info)
                                       * attrib_size_' info
                                then 1 else 0)
                       in i < num_elements)"

definition Attrib_SetInfo ::
  "nat option \<Rightarrow> GLint \<Rightarrow> GLenum \<Rightarrow> bool \<Rightarrow> GLsizei \<Rightarrow> GLsizei \<Rightarrow> GLsizei \<Rightarrow> VertexAttribInfo
    \<Rightarrow> VertexAttribInfo" where
  "Attrib_SetInfo buffer sz type normalized gl_stride real_stride offset info =
     info\<lparr>buffer_' := buffer, attrib_size_' := sz, type_' := type, normalized_' := normalized,
          gl_stride_' := gl_stride, real_stride_' := real_stride, offset_' := offset\<rparr>"

section \<open>The manager\<close>

record VertexAttribManager =
  max_vertex_attribs_' :: uint32
  num_fixed_attribs_' :: int
  vertex_attrib_infos_' :: "VertexAttribInfo list"
  enabled_vertex_attribs_' :: "nat list"
  disabled_vertex_attribs_' :: "nat list"

definition VertexAttribManager_new :: VertexAttribManager where
  "VertexAttribManager_new =
     \<lparr>max_vertex_attribs_' = 0, num_fixed_attribs_' = 0, vertex_attrib_infos_' = [],
      enabled_vertex_attribs_' = [], disabled_vertex_attribs_' = []\<rparr>"

definition update_attrib ::
  "nat \<Rightarrow> (VertexAttribInfo \<Rightarrow> VertexAttribInfo) \<Rightarrow> VertexAttribManager \<Rightarrow> VertexAttribManager" where
  "update_attrib i f m =
     m\<lparr>vertex_attrib_infos_' := (vertex_attrib_infos_' m)[i := f (vertex_attrib_infos_' m ! i)]\<rparr>"

text \<open>\<^verbatim>\<open>SetList\<close>: leave the current list, if any, and join the end of the given one. The iterator
  of the attribute denotes its only occurrence on the list.\<close>

definition leave_list :: "nat \<Rightarrow> VertexAttribManager \<Rightarrow> VertexAttribManager" where
  "leave_list i m =
     (case on_enabled_list (vertex_attrib_infos_' m ! i) of
        None \<Rightarrow> m
      | Some True \<Rightarrow> m\<lparr>enabled_vertex_attribs_' := remove1 i (enabled_vertex_attribs_' m)\<rparr>
      | Some False \<Rightarrow> m\<lparr>disabled_vertex_attribs_' := remove1 i (disabled_vertex_attribs_' m)\<rparr>)"

definition join_list :: "bool \<Rightarrow> nat \<Rightarrow> VertexAttribManager \<Rightarrow> VertexAttribManager" where
  "join_list en i m =
     (if en then m\<lparr>enabled_vertex_attribs_' := enabled_vertex_attribs_' m @ [i]\<rparr>
      else m\<lparr>disabled_vertex_attribs_' := disabled_vertex_attribs_' m @ [i]\<rparr>)"

definition SetList :: "bool \<Rightarrow> nat \<Rightarrow> VertexAttribManager \<Rightarrow> VertexAttribManager" where
  "SetList en i m =
     update_attrib i (\<lambda>info. info\<lparr>on_enabled_list := Some en\<rparr>) (join_list en i (leave_list i m))"

fun init_attribs :: "nat list \<Rightarrow> VertexAttribManager \<Rightarrow> VertexAttribManager" where
  "init_attribs [] m = m"
| "init_attribs (vv # vvs) m =
     init_attribs vvs (SetList False vv
       (update_attrib vv (\<lambda>info. info\<lparr>index_' := word_of_nat vv\<rparr>) m))"

definition Attribs_Initialize :: "uint32 \<Rightarrow> VertexAttribManager \<Rightarrow> VertexAttribManager" where
  "Attribs_Initialize max_vertex_attribs m =
     init_attribs [0 ..< unat max_vertex_attribs]
       (m\<lparr>max_vertex_attribs_' := max_vertex_attribs,
         vertex_attrib_infos_' := replicate (unat max_vertex_attribs) VertexAttribInfo_new\<rparr>)"

definition Enable :: "GLuint \<Rightarrow> bool \<Rightarrow> VertexAttribManager \<Rightarrow> bool \<times> VertexAttribManager" where
  "Enable i en m =
     (if i \<ge> max_vertex_attribs_' m then (False, m)
      else if enabled_' (vertex_attrib_infos_' m ! unat i) \<noteq> en then
        (True, SetList en (unat i) (update_attrib (unat i) (\<lambda>info. info\<lparr>enabled_' := en\<rparr>) m))
      else (True, m))"

definition HaveFixedAttribs :: "VertexAttribManager \<Rightarrow> bool" where
  "HaveFixedAttribs m \<longleftrightarrow> num_fixed_attribs_' m \<noteq> 0"

definition GetVertexAttribInfo :: "GLuint \<Rightarrow> VertexAttribManager \<Rightarrow> nat option" where
  "GetVertexAttribInfo i m = (if i < max_vertex_attribs_' m then Some (unat i) else None)"

definition SetAttribInfo ::
  "GLuint \<Rightarrow> nat option \<Rightarrow> GLint \<Rightarrow> GLenum \<Rightarrow> bool \<Rightarrow> GLsizei \<Rightarrow> GLsizei \<Rightarrow> GLsizei
    \<Rightarrow> VertexAttribManager \<Rightarrow> VertexAttribManager" where
  "SetAttribInfo i buffer sz type normalized gl_stride real_stride offset m =
     (case GetVertexAttribInfo i m of
        None \<Rightarrow> m
      | Some k \<Rightarrow>
          let m = (if type_' (vertex_attrib_infos_' m ! k) = GL_FIXED
                   then m\<lparr>num_fixed_attribs_' := num_fixed_attribs_' m - 1\<rparr> else m);
              m = (if type = GL_FIXED
                   then m\<lparr>num_fixed_attribs_' := num_fixed_attribs_' m + 1\<rparr> else m)
          in update_attrib k
               (Attrib_SetInfo buffer sz type normalized gl_stride real_stride offset) m)"

definition set_value :: "nat \<Rightarrow> GLfloat list \<Rightarrow> VertexAttribManager \<Rightarrow> VertexAttribManager" where
  "set_value k v m = update_attrib k (\<lambda>info. info\<lparr>value_' := v\<rparr>) m"

section \<open>The lists partition the attributes\<close>

definition fixed_count :: "VertexAttribInfo list \<Rightarrow> int" where
  "fixed_count infos = int (length (filter (\<lambda>info. type_' info = GL_FIXED) infos))"

definition attribs_wf :: "VertexAttribManager \<Rightarrow> bool" where
  "attribs_wf m \<longleftrightarrow>
     length (vertex_attrib_infos_' m) = unat (max_vertex_attribs_' m)
     \<and> (\<forall>i < unat (max_vertex_attribs_' m).
          index_' (vertex_attrib_infos_' m ! i) = word_of_nat i
          \<and> on_enabled_list (vertex_attrib_infos_' m ! i)
              = Some (enabled_' (vertex_attrib_infos_' m ! i)))
     \<and> distinct (enabled_vertex_attribs_' m) \<and> distinct (disabled_vertex_attribs_' m)
     \<and> set (enabled_vertex_attribs_' m)
         = {i. i < unat (max_vertex_attribs_' m) \<and> enabled_' (vertex_attrib_infos_' m ! i)}
     \<and> set (disabled_vertex_attribs_' m)
         = {i. i < unat (max_vertex_attribs_' m) \<and> \<not> enabled_' (vertex_attrib_infos_' m ! i)}
     \<and> num_fixed_attribs_' m = fixed_count (vertex_attrib_infos_' m)"

lemma fixed_count_update:
  assumes "i < length infos"
  shows "fixed_count (infos[i := info]) =
    fixed_count infos - (if type_' (infos ! i) = GL_FIXED then 1 else 0)
      + (if type_' info = GL_FIXED then 1 else 0)"
proof -
  obtain ys zs where "infos = ys @ infos ! i # zs" "length ys = i" using assms by (rule list_at)
  then have "infos[i := info] = ys @ info # zs" by (metis list_update_length)
  moreover have "fixed_count infos = fixed_count (ys @ infos ! i # zs)"
    using \<open>infos = ys @ infos ! i # zs\<close> by simp
  ultimately show ?thesis by (simp add: fixed_count_def)
qed

lemma fixed_count_same:
  "i < length infos \<Longrightarrow> type_' info = type_' (infos ! i) \<Longrightarrow>
    fixed_count (infos[i := info]) = fixed_count infos"
  by (simp add: fixed_count_update)

lemma Enable_wf:
  assumes "attribs_wf m"
  shows "attribs_wf (snd (Enable i en m))"
proof (cases "i \<ge> max_vertex_attribs_' m \<or> enabled_' (vertex_attrib_infos_' m ! unat i) = en")
  case True
  then show ?thesis using assms by (auto simp: Enable_def)
next
  case False
  then have i: "unat i < unat (max_vertex_attribs_' m)"
      "enabled_' (vertex_attrib_infos_' m ! unat i) = (\<not> en)"
    by (simp_all add: word_less_nat_alt not_le)
  have wf: "length (vertex_attrib_infos_' m) = unat (max_vertex_attribs_' m)"
      "on_enabled_list (vertex_attrib_infos_' m ! unat i) = Some (\<not> en)"
    using assms i by (simp_all add: attribs_wf_def)
  have eq: "snd (Enable i en m) = m\<lparr>
      vertex_attrib_infos_' := (vertex_attrib_infos_' m)[unat i :=
        (vertex_attrib_infos_' m ! unat i)\<lparr>enabled_' := en, on_enabled_list := Some en\<rparr>],
      enabled_vertex_attribs_' := (if en then enabled_vertex_attribs_' m @ [unat i]
        else remove1 (unat i) (enabled_vertex_attribs_' m)),
      disabled_vertex_attribs_' := (if en then remove1 (unat i) (disabled_vertex_attribs_' m)
        else disabled_vertex_attribs_' m @ [unat i])\<rparr>"
    using False wf i by (cases en) (simp_all add: Enable_def SetList_def update_attrib_def
        join_list_def leave_list_def)
  show ?thesis
    unfolding eq using assms i wf
    by (cases en) (auto simp: attribs_wf_def nth_list_update fixed_count_same)
qed

lemma SetAttribInfo_wf:
  assumes "attribs_wf m"
  shows "attribs_wf (SetAttribInfo i buffer sz type norm gs rs off m)"
proof (cases "i < max_vertex_attribs_' m")
  case True
  then have i: "unat i < unat (max_vertex_attribs_' m)" by (simp add: word_less_nat_alt)
  then have "unat i < length (vertex_attrib_infos_' m)" using assms by (simp add: attribs_wf_def)
  then show ?thesis
    using assms True i
    by (auto simp: attribs_wf_def SetAttribInfo_def GetVertexAttribInfo_def update_attrib_def
        Attrib_SetInfo_def Let_def nth_list_update fixed_count_update)
qed (simp add: SetAttribInfo_def GetVertexAttribInfo_def assms)

lemma set_value_wf:
  assumes "attribs_wf m" "k < unat (max_vertex_attribs_' m)"
  shows "attribs_wf (set_value k v m)"
  using assms by (auto simp: attribs_wf_def set_value_def update_attrib_def nth_list_update
      fixed_count_same)

lemma init_attribs_effect:
  assumes "distinct vvs"
    and "\<And>v. v \<in> set vvs \<Longrightarrow> v < length (vertex_attrib_infos_' m)
      \<and> on_enabled_list (vertex_attrib_infos_' m ! v) = None"
  shows "init_attribs vvs m = m\<lparr>
      vertex_attrib_infos_' := map (\<lambda>i. if i \<in> set vvs
          then (vertex_attrib_infos_' m ! i)\<lparr>index_' := word_of_nat i, on_enabled_list := Some False\<rparr>
          else vertex_attrib_infos_' m ! i) [0 ..< length (vertex_attrib_infos_' m)],
      disabled_vertex_attribs_' := disabled_vertex_attribs_' m @ vvs\<rparr>"
  using assms
proof (induction vvs arbitrary: m)
  case Nil
  then show ?case by (simp add: map_nth)
next
  case (Cons v vvs)
  let ?new = "(vertex_attrib_infos_' m ! v)\<lparr>index_' := word_of_nat v, on_enabled_list := Some False\<rparr>"
  let ?m = "m\<lparr>disabled_vertex_attribs_' := disabled_vertex_attribs_' m @ [v],
      vertex_attrib_infos_' := (vertex_attrib_infos_' m)[v := ?new]\<rparr>"
  have v: "v < length (vertex_attrib_infos_' m)"
      "on_enabled_list (vertex_attrib_infos_' m ! v) = None" "v \<notin> set vvs"
    using Cons.prems by auto
  have "init_attribs (v # vvs) m = init_attribs vvs ?m"
    using v by (simp add: SetList_def update_attrib_def join_list_def leave_list_def)
  also have "\<dots> = ?m\<lparr>
      vertex_attrib_infos_' := map (\<lambda>i. if i \<in> set vvs
          then (vertex_attrib_infos_' ?m ! i)\<lparr>index_' := word_of_nat i, on_enabled_list := Some False\<rparr>
          else vertex_attrib_infos_' ?m ! i) [0 ..< length (vertex_attrib_infos_' ?m)],
      disabled_vertex_attribs_' := disabled_vertex_attribs_' ?m @ vvs\<rparr>"
    using Cons.prems v(3) by (intro Cons.IH) (auto simp: nth_list_update)
  finally show ?case using v by (auto simp: nth_list_update intro!: VertexAttribManager.equality)
qed

lemma fixed_count_none: "(\<And>info. info \<in> set infos \<Longrightarrow> type_' info \<noteq> GL_FIXED) \<Longrightarrow> fixed_count infos = 0"
  by (simp add: fixed_count_def filter_empty_conv)

lemma Initialize_wf: "attribs_wf (Attribs_Initialize n VertexAttribManager_new)"
  unfolding Attribs_Initialize_def
  by (subst init_attribs_effect)
    (auto simp: attribs_wf_def VertexAttribManager_new_def VertexAttribInfo_new_def
      intro!: fixed_count_none)

text \<open>The states of a manager: initialisation, then any sequence of the operations.\<close>

inductive attribs_reachable :: "VertexAttribManager \<Rightarrow> bool" where
  init: "attribs_reachable (Attribs_Initialize n VertexAttribManager_new)"
| enable: "attribs_reachable m \<Longrightarrow> attribs_reachable (snd (Enable i en m))"
| set_attrib: "attribs_reachable m \<Longrightarrow>
    attribs_reachable (SetAttribInfo i buffer sz type norm gs rs off m)"
| set_val: "attribs_reachable m \<Longrightarrow> GetVertexAttribInfo i m = Some k \<Longrightarrow>
    attribs_reachable (set_value k v m)"

text \<open>C32: after any sequence of operations, the enabled and the disabled list together hold every
  attribute exactly once, each attribute on the list its enabled flag names; the stored index of an
  attribute is its position; and \<^verbatim>\<open>num_fixed_attribs_\<close> is the number of attributes of type
  \<^verbatim>\<open>GL_FIXED\<close>.\<close>

theorem attrib_lists_invariant:
  assumes "attribs_reachable m"
  shows "attribs_wf m"
  using assms
proof induction
  case (set_val m i k v)
  then show ?case by (intro set_value_wf) (auto simp: GetVertexAttribInfo_def word_less_nat_alt
        split: if_splits)
qed (simp_all add: Initialize_wf Enable_wf SetAttribInfo_wf)

theorem attrib_lists_invariant_witness:
  "attribs_wf (snd (Enable 1 True (Attribs_Initialize 2 VertexAttribManager_new)))
   \<and> enabled_vertex_attribs_' (snd (Enable 1 True (Attribs_Initialize 2 VertexAttribManager_new)))
       = [1]"
proof -
  let ?m = "snd (Enable 1 True (Attribs_Initialize 2 VertexAttribManager_new))"
  have "attribs_wf ?m"
    by (intro attrib_lists_invariant attribs_reachable.intros)
  moreover have two: "[0 ..< 2] = [0, 1::nat]" "replicate 2 x = [x, x]" for x :: VertexAttribInfo
    by (simp_all add: upt_rec numeral_2_eq_2)
  have "enabled_vertex_attribs_' ?m = [1]"
    by (simp add: two word_le_nat_alt Enable_def Attribs_Initialize_def VertexAttribManager_new_def SetList_def
        VertexAttribInfo_new_def update_attrib_def join_list_def leave_list_def)
  ultimately show ?thesis by blast
qed

section \<open>What an accessible index guarantees\<close>

text \<open>The bytes of one vertex, and the bytes the hardware fetches for vertex \<open>i\<close>.\<close>

definition vertex_bytes :: "VertexAttribInfo \<Rightarrow> nat" where
  "vertex_bytes info = type_size (type_' info) * unat (attrib_size_' info)"

definition fetch_end :: "VertexAttribInfo \<Rightarrow> nat \<Rightarrow> nat" where
  "fetch_end info i = unat (offset_' info) + i * unat (real_stride_' info) + vertex_bytes info"

text \<open>The bytes from the start of a vertex to the end of the vertex or the start of the next, whichever
  comes first: all of the vertex if the stride covers it.\<close>

definition covered_end :: "VertexAttribInfo \<Rightarrow> nat \<Rightarrow> nat" where
  "covered_end info i =
     unat (offset_' info) + i * unat (real_stride_' info) + min (vertex_bytes info) (unat (real_stride_' info))"

lemma covered_end_whole: "vertex_bytes info \<le> unat (real_stride_' info) \<Longrightarrow> covered_end info i = fetch_end info i"
  by (simp add: covered_end_def fetch_end_def)

text \<open>Attributes as \<^verbatim>\<open>glVertexAttribPointer\<close> sets them.\<close>

definition attrib_ok :: "VertexAttribInfo \<Rightarrow> bool" where
  "attrib_ok info \<longleftrightarrow>
     0 \<le> sint (offset_' info) \<and> 0 < sint (real_stride_' info)
     \<and> 1 \<le> unat (attrib_size_' info) \<and> unat (attrib_size_' info) \<le> 4
     \<and> 1 \<le> type_size (type_' info)"

text \<open>The count of elements the code computes.\<close>

definition element_count :: "nat \<Rightarrow> nat \<Rightarrow> nat \<Rightarrow> nat" where
  "element_count usable stride bytes =
     usable div stride + (if usable mod stride \<ge> bytes then 1 else 0)"

lemma element_count_fits:
  assumes "0 < stride" "0 < bytes" "bytes \<le> stride"
  shows "i < element_count usable stride bytes \<longleftrightarrow> i * stride + bytes \<le> usable"
proof -
  have eq: "usable = usable div stride * stride + usable mod stride" by simp
  show ?thesis
  proof
    assume i: "i < element_count usable stride bytes"
    show "i * stride + bytes \<le> usable"
    proof (cases "i < usable div stride")
      case True
      then have "Suc i * stride \<le> usable div stride * stride" by (intro mult_le_mono1) simp
      then show ?thesis using eq assms(3) unfolding mult_Suc by linarith
    next
      case False
      then have k: "i = usable div stride" "bytes \<le> usable mod stride"
        using i by (auto simp: element_count_def split: if_splits)
      show ?thesis unfolding k(1) using k(2) eq by linarith
    qed
  next
    assume fits: "i * stride + bytes \<le> usable"
    show "i < element_count usable stride bytes"
    proof (rule ccontr)
      assume "\<not> i < element_count usable stride bytes"
      then consider "usable div stride < i" | "i = usable div stride" "usable mod stride < bytes"
        unfolding element_count_def by (force split: if_splits)
      then show False
      proof cases
        case 1
        then have "Suc (usable div stride) * stride \<le> i * stride" by (intro mult_le_mono1) simp
        moreover have "usable mod stride < stride" using assms(1) by simp
        ultimately show False using eq fits unfolding mult_Suc by linarith
      next
        case 2
        then show False using eq fits [unfolded 2(1)] by linarith
      qed
    qed
  qed
qed

lemma element_count_min:
  assumes "0 < stride" "0 < bytes"
  shows "i < element_count usable stride bytes \<longleftrightarrow> i * stride + min bytes stride \<le> usable"
proof (cases "bytes \<le> stride")
  case True
  then show ?thesis using element_count_fits [OF assms True] by simp
next
  case False
  have "usable mod stride < stride" using assms(1) by simp
  then have "\<not> bytes \<le> usable mod stride" using False by simp
  then have "i < element_count usable stride bytes \<longleftrightarrow> Suc i \<le> usable div stride" by (simp add: element_count_def Suc_le_eq)
  also have "\<dots> \<longleftrightarrow> Suc i * stride \<le> usable" by (rule less_eq_div_iff_mult_less_eq [OF assms(1)])
  finally show ?thesis using False by (simp add: add.commute)
qed

lemma vertex_bytes_exact:
  assumes "attrib_ok info"
  shows "unat (GetGLTypeSizeForTexturesAndBuffers (type_' info) * attrib_size_' info)
    = vertex_bytes info" "0 < vertex_bytes info"
proof -
  have "vertex_bytes info \<le> 4 * 4"
    using assms type_size_le unfolding vertex_bytes_def attrib_ok_def by (intro mult_le_mono) auto
  then show "unat (GetGLTypeSizeForTexturesAndBuffers (type_' info) * attrib_size_' info)
    = vertex_bytes info"
    by (subst unat_mult_exact) (simp_all add: vertex_bytes_def)
  show "0 < vertex_bytes info" using assms by (simp add: vertex_bytes_def attrib_ok_def)
qed

text \<open>The words of \<^const>\<open>CanAccess\<close> compute \<^const>\<open>element_count\<close> without wrapping.\<close>

lemma CanAccess_count:
  assumes "attrib_ok info" "enabled_' info" "buffer_' info = Some a" "buffer_ok (objs ! a)"
  shows "CanAccess objs i info \<longleftrightarrow>
    \<not> IsDeleted (objs ! a) \<and> unat (offset_' info) \<le> unat (size_' (objs ! a))
    \<and> unat i < element_count (unat (size_' (objs ! a)) - unat (offset_' info))
        (unat (real_stride_' info)) (vertex_bytes info)"
proof -
  let ?s = "size_' (objs ! a)" and ?o = "offset_' info" and ?r = "real_stride_' info"
  have "0 \<le> sint ?s" "0 \<le> sint ?o" using assms(1,4) by (simp_all add: buffer_ok_def attrib_ok_def)
  note s = sint_nonneg_unat [OF this(1)] and o = sint_nonneg_unat [OF this(2)]
  have r: "?r \<noteq> 0" using assms(1) by (auto simp: attrib_ok_def)
  have cmp: "sint ?o > sint ?s \<longleftrightarrow> \<not> unat ?o \<le> unat ?s" using s(1) o(1) by linarith
  let ?b = "GetGLTypeSizeForTexturesAndBuffers (type_' info) * attrib_size_' info"
  have "unat i < element_count (unat ?s - unat ?o) (unat ?r) (vertex_bytes info) \<longleftrightarrow>
    i < (?s - ?o) div ?r + (if (?s - ?o) mod ?r \<ge> ?b then 1 else 0)" if le: "unat ?o \<le> unat ?s"
  proof -
    have u: "unat (?s - ?o) = unat ?s - unat ?o" using le by (simp add: unat_sub word_le_nat_alt)
    have d: "unat ((?s - ?o) div ?r) = (unat ?s - unat ?o) div unat ?r"
      "unat ((?s - ?o) mod ?r) = (unat ?s - unat ?o) mod unat ?r"
      by (simp_all add: unat_div unat_mod u)
    have "unat ((?s - ?o) div ?r) \<le> unat ?s" unfolding d by (meson diff_le_self div_le_dividend le_trans)
    then have "unat ((?s - ?o) div ?r + 1) = unat ((?s - ?o) div ?r) + 1"
      using s(2) by (subst unat_add_exact) simp_all
    then have "unat ((?s - ?o) div ?r + (if (?s - ?o) mod ?r \<ge> ?b then 1 else 0))
      = element_count (unat ?s - unat ?o) (unat ?r) (vertex_bytes info)"
      using d vertex_bytes_exact(1) [OF assms(1)] by (simp add: element_count_def word_le_nat_alt)
    then show ?thesis by (simp add: word_less_nat_alt)
  qed
  then show ?thesis using assms(2,3) r cmp by (simp add: CanAccess_def Let_def)
qed

lemma CanAccess_spec:
  assumes "attrib_ok info" "enabled_' info" "\<And>a. buffer_' info = Some a \<Longrightarrow> buffer_ok (objs ! a)"
  shows "CanAccess objs i info \<longleftrightarrow>
    (\<exists>a. buffer_' info = Some a \<and> \<not> IsDeleted (objs ! a)
       \<and> (\<forall>k \<le> unat i. covered_end info k \<le> unat (size_' (objs ! a))))"
proof (cases "buffer_' info")
  case None
  then show ?thesis using assms(2) by (simp add: CanAccess_def)
next
  case (Some a)
  let ?s = "unat (size_' (objs ! a))" and ?o = "unat (offset_' info)"
  let ?r = "unat (real_stride_' info)" and ?b = "vertex_bytes info"
  have "real_stride_' info \<noteq> 0" using assms(1) by (auto simp: attrib_ok_def)
  then have r: "0 < ?r" by (simp add: unat_gt_0)
  have "(?o \<le> ?s \<and> unat i < element_count (?s - ?o) ?r ?b) \<longleftrightarrow> ?o + unat i * ?r + min ?b ?r \<le> ?s"
    using element_count_min [OF r vertex_bytes_exact(2) [OF assms(1)]] by auto
  also have "\<dots> \<longleftrightarrow> (\<forall>k \<le> unat i. covered_end info k \<le> ?s)"
  proof
    assume le: "?o + unat i * ?r + min ?b ?r \<le> ?s"
    show "\<forall>k \<le> unat i. covered_end info k \<le> ?s"
    proof (intro allI impI)
      fix k assume "k \<le> unat i"
      then have "k * ?r \<le> unat i * ?r" by (rule mult_le_mono1)
      then show "covered_end info k \<le> ?s" using le unfolding covered_end_def by linarith
    qed
  qed (simp add: covered_end_def)
  finally show ?thesis using CanAccess_count [OF assms(1,2) Some assms(3) [OF Some]] Some by simp
qed

text \<open>C26: \<^verbatim>\<open>VertexAttribInfo::CanAccess(index)\<close>, exactly: for a disabled attribute it always holds. For an
  enabled one, with any stride, it holds if and only if the attribute has a live buffer that contains, for
  every vertex up to \<^verbatim>\<open>index\<close>, the bytes from the start of the vertex to its end or to the start of the
  next vertex, whichever comes first. If the stride is at least one vertex these are the bytes that are
  fetched; for a smaller stride, which the code accepts, the test is too weak: there is a buffer of 20
  bytes for which it accepts a vertex whose fetch ends at byte 32.\<close>

theorem can_access_iff_in_bounds:
  assumes "attrib_ok info" "\<And>a. buffer_' info = Some a \<Longrightarrow> buffer_ok (objs ! a)"
  shows "(CanAccess objs i info \<longleftrightarrow>
      \<not> enabled_' info \<or>
      (\<exists>a. buffer_' info = Some a \<and> \<not> IsDeleted (objs ! a)
         \<and> (\<forall>k \<le> unat i. covered_end info k \<le> unat (size_' (objs ! a)))))
    \<and> (vertex_bytes info \<le> unat (real_stride_' info) \<longrightarrow> (\<forall>k. covered_end info k = fetch_end info k))"
  using CanAccess_spec [OF assms(1) _ assms(2), of i] covered_end_whole [of info]
  by (cases "enabled_' info") (simp_all add: CanAccess_def)

definition sample_attrib :: VertexAttribInfo where
  "sample_attrib = VertexAttribInfo_new\<lparr>enabled_' := True, buffer_' := Some 0\<rparr>"

text \<open>Two vertices of four floats fit a buffer of 32 bytes.\<close>

theorem can_access_iff_in_bounds_witness:
  "CanAccess [(BufferInfo_new 7)\<lparr>size_' := 32\<rparr>] 1 sample_attrib
   \<and> \<not> CanAccess [(BufferInfo_new 7)\<lparr>size_' := 31\<rparr>] 1 sample_attrib"
proof -
  have a: "attrib_ok sample_attrib" "enabled_' sample_attrib" "buffer_' sample_attrib = Some 0"
      "vertex_bytes sample_attrib = 16" "real_stride_' sample_attrib = 16"
    by (simp_all add: attrib_ok_def sample_attrib_def VertexAttribInfo_new_def vertex_bytes_def
        GetGLTypeSizeForTexturesAndBuffers_def)
  have "buffer_ok ((BufferInfo_new 7)\<lparr>size_' := n\<rparr>)" if "n = 32 \<or> n = 31" for n
    using that by (auto simp: buffer_ok_def BufferInfo_new_def IsDeleted_def)
  then have "CanAccess [(BufferInfo_new 7)\<lparr>size_' := n\<rparr>] 1 sample_attrib \<longleftrightarrow>
      (\<forall>k \<le> 1. fetch_end sample_attrib k \<le> unat n)" if "n = 32 \<or> n = 31" for n
    using can_access_iff_in_bounds [of sample_attrib "[(BufferInfo_new 7)\<lparr>size_' := n\<rparr>]" 1] a that
    by (simp add: BufferInfo_new_def IsDeleted_def)
  moreover have "fetch_end sample_attrib k = k * 16 + 16" for k
    unfolding fetch_end_def a(4,5) by (simp add: sample_attrib_def VertexAttribInfo_new_def)
  ultimately show ?thesis by (auto intro: exI [of _ 1])
qed

text \<open>with a stride smaller than one vertex the test is too weak. An attribute of four floats
  with stride 4, which \<^verbatim>\<open>glVertexAttribPointer\<close> accepts, may access vertex 4 of a buffer of 20 bytes,
  although the fetch of that vertex ends at byte 32.\<close>

theorem can_access_overlapping_stride:
  "\<exists>info objs i. attrib_ok info \<and> enabled_' info \<and> buffer_' info = Some 0
     \<and> buffer_ok (objs ! 0) \<and> \<not> IsDeleted (objs ! 0) \<and> CanAccess objs i info
     \<and> fetch_end info (unat i) = 32 \<and> unat (size_' (objs ! 0)) = 20"
proof -
  let ?info = "sample_attrib\<lparr>real_stride_' := 4, gl_stride_' := 4\<rparr>"
  let ?objs = "[(BufferInfo_new 7)\<lparr>size_' := 20\<rparr>]"
  have "attrib_ok ?info" "enabled_' ?info" "buffer_' ?info = Some 0"
    by (simp_all add: attrib_ok_def sample_attrib_def VertexAttribInfo_new_def
        GetGLTypeSizeForTexturesAndBuffers_def)
  moreover have "buffer_ok (?objs ! 0)" "\<not> IsDeleted (?objs ! 0)" "unat (size_' (?objs ! 0)) = 20"
    by (simp_all add: buffer_ok_def BufferInfo_new_def IsDeleted_def)
  moreover have "CanAccess ?objs 4 ?info" "fetch_end ?info (unat (4 :: GLuint)) = 32"
    by (simp_all add: CanAccess_def fetch_end_def vertex_bytes_def sample_attrib_def
        VertexAttribInfo_new_def BufferInfo_new_def IsDeleted_def
        GetGLTypeSizeForTexturesAndBuffers_def)
  ultimately show ?thesis by blast
qed

end
