(* ===== verification/Gl_Errors.thy ===== *)
theory Gl_Errors
  imports Gles2_Cmd_Utils "HOL-Library.Monad_Syntax"
begin

text \<open>
  GL errors as the decoder (\<^verbatim>\<open>GLES2DecoderImpl\<close> in \<^verbatim>\<open>service/gles2_cmd_decoder.cc\<close>) and the client
  (\<^verbatim>\<open>GLES2Implementation\<close> in \<^verbatim>\<open>client/gles2_implementation.cc\<close>) report them. Each side keeps a mask of
  errors it raised itself and merges it with the errors of the layer below: the GL driver for the
  decoder, the decoder for the client.

  The GL driver is a parameter: a record of its entry points on a state of type \<open>'g\<close>. What is used
  of it is the locale \<open>gl_driver\<close>: \<^verbatim>\<open>glGetError\<close> returns \<^verbatim>\<open>GL_NO_ERROR\<close> after finitely many
  calls. The lemmas show that every recorded error is reported exactly once, in a fixed order, and
  that draining the driver's errors terminates and keeps them.
\<close>

section \<open>The wrapped error mask\<close>

text \<open>The masks of \<^verbatim>\<open>for (uint32 mask = 1; mask != 0; mask = mask << 1)\<close>.\<close>

definition error_masks :: "uint32 list" where
  "error_masks = map (\<lambda>i. push_bit i 1) [0 ..< 32]"

text \<open>The part of \<^verbatim>\<open>GetGLError\<close> after the layer below was asked, the same on both sides.\<close>

definition merge_error :: "GLenum \<Rightarrow> uint32 \<Rightarrow> GLenum \<times> uint32" where
  "merge_error error error_bits =
     (let error =
            (if error = GL_NO_ERROR \<and> error_bits \<noteq> 0 then
               case find (\<lambda>k. error_bits AND k \<noteq> 0) error_masks of
                 Some k \<Rightarrow> GLErrorBitToGLError k
               | None \<Rightarrow> error
             else error)
      in if error \<noteq> GL_NO_ERROR then (error, error_bits AND NOT (GLErrorToErrorBit error))
         else (error, error_bits))"

definition set_error_bit :: "GLenum \<Rightarrow> uint32 \<Rightarrow> uint32" where
  "set_error_bit error error_bits = error_bits OR GLErrorToErrorBit error"

section \<open>The decoder\<close>

text \<open>\<open>gl_get_error\<close> is the driver's \<^verbatim>\<open>glGetError\<close>; the state is the driver state and the decoder's
  \<^verbatim>\<open>error_bits_\<close> and \<^verbatim>\<open>last_error_\<close>.\<close>

type_synonym 'g get_error = "'g \<Rightarrow> GLenum \<times> 'g"

record 'g error_state =
  driver :: 'g
  error_bits_' :: uint32
  last_error_' :: string

definition Service_SetGLError :: "GLenum \<Rightarrow> string option \<Rightarrow> ('g, 'a) error_state_scheme
    \<Rightarrow> ('g, 'a) error_state_scheme" where
  "Service_SetGLError error msg s =
     (case msg of Some m \<Rightarrow> s\<lparr>last_error_' := m\<rparr> | None \<Rightarrow> s)
       \<lparr>error_bits_' := set_error_bit error (error_bits_' s)\<rparr>"

definition Service_GetGLError :: "'g get_error \<Rightarrow> ('g, 'a) error_state_scheme
    \<Rightarrow> GLenum \<times> ('g, 'a) error_state_scheme" where
  "Service_GetGLError gl_get_error s =
     (let (error, d) = gl_get_error (driver s);
          (error, bits) = merge_error error (error_bits_' s)
      in (error, s\<lparr>driver := d, error_bits_' := bits\<rparr>))"

definition PeekGLError :: "'g get_error \<Rightarrow> ('g, 'a) error_state_scheme
    \<Rightarrow> GLenum \<times> ('g, 'a) error_state_scheme" where
  "PeekGLError gl_get_error s =
     (let (error, d) = gl_get_error (driver s); s = s\<lparr>driver := d\<rparr>
      in (error, if error \<noteq> GL_NO_ERROR then Service_SetGLError error (Some []) s else s))"

text \<open>The loops ask the driver until it reports no error: \<^const>\<open>None\<close> if it never does.\<close>

partial_function (option) CopyRealGLErrorsToWrapper ::
  "'g get_error \<Rightarrow> ('g, 'a) error_state_scheme \<Rightarrow> ('g, 'a) error_state_scheme option" where
  "CopyRealGLErrorsToWrapper gl_get_error s =
     (let (error, d) = gl_get_error (driver s); s = s\<lparr>driver := d\<rparr>
      in if error = GL_NO_ERROR then Some s
         else CopyRealGLErrorsToWrapper gl_get_error (Service_SetGLError error None s))"

partial_function (option) ClearRealGLErrors ::
  "'g get_error \<Rightarrow> ('g, 'a) error_state_scheme \<Rightarrow> ('g, 'a) error_state_scheme option" where
  "ClearRealGLErrors gl_get_error s =
     (let (error, d) = gl_get_error (driver s); s = s\<lparr>driver := d\<rparr>
      in if error = GL_NO_ERROR then Some s else ClearRealGLErrors gl_get_error s)"

section \<open>The client\<close>

text \<open>\<open>remote_error\<close> is the round trip of the \<^verbatim>\<open>GetError\<close> command: the result slot is set to
  \<^verbatim>\<open>GL_NO_ERROR\<close>, the command is issued and \<^verbatim>\<open>WaitForCmd\<close> returns when the service has written the
  slot.\<close>

definition Client_SetGLError :: "GLenum \<Rightarrow> string option \<Rightarrow> ('g, 'a) error_state_scheme
    \<Rightarrow> ('g, 'a) error_state_scheme" where
  "Client_SetGLError error msg s =
     (case msg of Some m \<Rightarrow> s\<lparr>last_error_' := m\<rparr> | None \<Rightarrow> s)
       \<lparr>error_bits_' := set_error_bit error (error_bits_' s)\<rparr>"

definition Client_GetGLError :: "('g \<Rightarrow> GLenum \<times> 'g) \<Rightarrow> ('g, 'a) error_state_scheme
    \<Rightarrow> GLenum \<times> ('g, 'a) error_state_scheme" where
  "Client_GetGLError remote_error s =
     (let (error, d) = remote_error (driver s);
          (error, bits) = merge_error error (error_bits_' s)
      in (error, s\<lparr>driver := d, error_bits_' := bits\<rparr>))"

section \<open>Recorded errors\<close>

text \<open>The errors a mask holds, in the order of their bits.\<close>

definition recorded :: "uint32 \<Rightarrow> GLenum list" where
  "recorded bits = filter (\<lambda>e. GLErrorToErrorBit e AND bits \<noteq> 0) gl_errors"

lemma recorded_iff:
  "e \<in> set (recorded bits) \<longleftrightarrow> (\<exists>i < 5. e = gl_errors ! i \<and> bit bits i)"
proof -
  have "set gl_errors = (\<lambda>i. gl_errors ! i) ` {..<5}"
    by (simp add: gl_errors_def lessThan_Suc eval_nat_numeral insert_commute)
  moreover have "GLErrorToErrorBit (gl_errors ! i) AND bits \<noteq> 0 \<longleftrightarrow> bit bits i" if "i < 5" for i
    using that by (simp add: GLErrorToErrorBit_nth and_exp_eq_0_iff_not_bit push_bit_eq_mult
        and.commute)
  ultimately show ?thesis by (auto simp: recorded_def)
qed

text \<open>Masks built by \<^const>\<open>set_error_bit\<close> use the five lowest bits only.\<close>

definition bits_ok :: "uint32 \<Rightarrow> bool" where
  "bits_ok bits \<longleftrightarrow> unat bits < 32"

definition error_indices :: "uint32 \<Rightarrow> nat list" where
  "error_indices bits = filter (bit bits) [0 ..< 5]"

lemma recorded_indices: "recorded bits = map ((!) gl_errors) (error_indices bits)"
proof -
  have "gl_errors = map ((!) gl_errors) [0 ..< 5]"
    by (rule nth_equalityI) (simp_all add: gl_errors_def)
  moreover have "filter (\<lambda>i. GLErrorToErrorBit (gl_errors ! i) AND bits \<noteq> 0) [0 ..< 5]
      = filter (bit bits) [0 ..< 5]"
    by (intro filter_cong refl) (simp add: GLErrorToErrorBit_nth and_exp_eq_0_iff_not_bit
        push_bit_eq_mult and.commute)
  ultimately show ?thesis
    unfolding recorded_def error_indices_def by (metis (no_types, lifting) comp_def filter_cong filter_map)
qed

lemma find_filter: "find P xs = (case filter P xs of [] \<Rightarrow> None | x # _ \<Rightarrow> Some x)"
  by (induction xs) auto

lemma bits_ok_bit: "bits_ok bits \<Longrightarrow> bit bits i \<Longrightarrow> i < 5"
proof (rule ccontr)
  assume ok: "bits_ok bits" and b: "bit bits i" and "\<not> i < 5"
  then have "2 ^ 5 \<le> (2::nat) ^ i" by (intro power_increasing) simp_all
  moreover have "bit (unat bits) i" using b by (simp add: bit_unsigned_iff)
  then have "2 ^ i \<le> unat bits" by (metis bit_iff_odd div_less even_zero not_le)
  ultimately show False using ok by (simp add: bits_ok_def)
qed

lemma merge_own_error:
  assumes "bits_ok bits"
  shows "merge_error GL_NO_ERROR bits =
    (case error_indices bits of
       [] \<Rightarrow> (GL_NO_ERROR, bits)
     | i # _ \<Rightarrow> (gl_errors ! i, bits AND NOT (push_bit i 1)))"
proof -
  have "filter (bit bits) [0 ..< 32] = error_indices bits"
  proof -
    have "[0 ..< 32] = [0 ..< 5] @ [5 ..< 32]" using upt_add_eq_append [of 0 5 27] by simp
    moreover have "filter (bit bits) [5 ..< 32] = []"
      using bits_ok_bit [OF assms] by (force simp: filter_empty_conv)
    ultimately show ?thesis by (simp add: error_indices_def)
  qed
  moreover have "(\<lambda>k. bits AND k \<noteq> 0) \<circ> (\<lambda>i. push_bit i 1) = bit bits"
    by (rule ext) (simp add: and_exp_eq_0_iff_not_bit push_bit_eq_mult)
  ultimately have "find (\<lambda>k. bits AND k \<noteq> 0) error_masks
      = (case error_indices bits of [] \<Rightarrow> None | i # _ \<Rightarrow> Some (push_bit i 1))"
    by (simp add: error_masks_def find_filter filter_map split: list.split)
  moreover have "error_indices bits = [] \<longleftrightarrow> bits = 0"
  proof -
    have "bits = 0" if "\<forall>i < 5. \<not> bit bits i"
      using that bits_ok_bit [OF assms] by (intro bit_eqI) auto
    then show ?thesis by (auto simp: error_indices_def filter_empty_conv)
  qed
  moreover have "gl_errors ! i \<noteq> GL_NO_ERROR" if "i < 5" for i
    using below_5 [OF that] by (auto simp: gl_errors_def)
  moreover have "i < 5" if "error_indices bits = i # is" for i "is"
  proof -
    have "i \<in> set (error_indices bits)" using that by simp
    then show ?thesis by (simp add: error_indices_def)
  qed
  ultimately show ?thesis
    using GLErrorBitToGLError_nth [simplified] GLErrorToErrorBit_nth [simplified]
    by (cases "error_indices bits") (simp_all add: merge_error_def)
qed

lemma error_indices_clear:
  assumes "error_indices bits = i # is"
  shows "error_indices (bits AND NOT (push_bit i 1)) = is"
proof -
  have "distinct (i # is)" using assms by (metis distinct_filter distinct_upt error_indices_def)
  moreover have "bit (bits AND NOT (push_bit i 1)) = (\<lambda>j. bit bits j \<and> j \<noteq> i)"
    by (rule ext) (auto simp: bit_simps dest: bit_imp_le_length)
  then have "error_indices (bits AND NOT (push_bit i 1)) = filter (\<lambda>j. j \<noteq> i) (error_indices bits)"
    by (simp add: error_indices_def conj_commute)
  ultimately show ?thesis using assms by (auto simp: filter_id_conv)
qed

lemma bits_ok_and: "bits_ok bits \<Longrightarrow> bits_ok (bits AND x)"
  unfolding bits_ok_def by (metis le_less_trans word_and_le2 word_le_nat_alt)

lemma bits_ok_iff: "bits_ok bits \<longleftrightarrow> (\<forall>i. bit bits i \<longrightarrow> i < 5)"
proof
  assume "\<forall>i. bit bits i \<longrightarrow> i < 5"
  then have "bits = take_bit 5 bits" by (intro bit_eqI) (auto simp: bit_simps)
  then have "unat bits = take_bit 5 (unat bits)" by (metis unsigned_take_bit_eq)
  then show "bits_ok bits" using take_bit_nat_less_exp [of 5 "unat bits"] by (simp add: bits_ok_def)
qed (use bits_ok_bit in blast)

lemma error_bit_cases:
  "GLErrorToErrorBit e = 0 \<and> e \<notin> set gl_errors
   \<or> (\<exists>i < 5. e = gl_errors ! i \<and> GLErrorToErrorBit e = push_bit i 1)"
proof (cases "e \<in> set gl_errors")
  case True
  moreover have "length gl_errors = 5" by (simp add: gl_errors_def)
  ultimately show ?thesis by (metis GLErrorToErrorBit_nth in_set_conv_nth)
next
  case False
  then show ?thesis by (simp add: gl_errors_def GLErrorToErrorBit_def bitNoError_def)
qed

lemma bit_set_error:
  "bit (set_error_bit e bits) i \<longleftrightarrow> bit bits i \<or> i < 5 \<and> e = gl_errors ! i"
  using error_bit_cases [of e]
proof (elim disjE exE conjE)
  assume "GLErrorToErrorBit e = 0" "e \<notin> set gl_errors"
  moreover have "length gl_errors = 5" by (simp add: gl_errors_def)
  ultimately show ?thesis by (auto simp: set_error_bit_def)
next
  fix k assume k: "k < 5" "e = gl_errors ! k" "GLErrorToErrorBit e = push_bit k 1"
  have "distinct gl_errors" "length gl_errors = 5" by (simp_all add: gl_errors_def)
  then have "gl_errors ! k = gl_errors ! i \<longleftrightarrow> i = k" if "i < 5"
    using that k(1) by (auto simp: nth_eq_iff_index_eq)
  moreover have "bit (push_bit k 1 :: uint32) i \<longleftrightarrow> i = k"
    using k(1) by (auto simp: bit_simps)
  ultimately show ?thesis using k by (auto simp: set_error_bit_def bit_or_iff)
qed

lemma bits_ok_set: "bits_ok bits \<Longrightarrow> bits_ok (set_error_bit e bits)"
  by (auto simp: bits_ok_iff bit_set_error)

lemma recorded_set_error:
  "set (recorded (set_error_bit e bits)) =
    (if e \<in> set gl_errors then insert e (set (recorded bits)) else set (recorded bits))"
proof -
  have "length gl_errors = 5" by (simp add: gl_errors_def)
  then have "set gl_errors = {gl_errors ! i | i. i < 5}" by (simp add: set_conv_nth)
  then show ?thesis by (auto simp: recorded_iff bit_set_error)
qed

lemma recorded_clear:
  "recorded (bits AND NOT (GLErrorToErrorBit e)) = filter (\<lambda>x. x \<noteq> e) (recorded bits)"
proof -
  have "GLErrorToErrorBit x AND (bits AND NOT (GLErrorToErrorBit e)) \<noteq> 0
      \<longleftrightarrow> GLErrorToErrorBit x AND bits \<noteq> 0 \<and> x \<noteq> e" if x: "x \<in> set gl_errors" for x
  proof -
    obtain i where i: "i < 5" "x = gl_errors ! i" "GLErrorToErrorBit x = push_bit i 1"
      using error_bit_cases [of x] x by blast
    have len: "distinct gl_errors" "length gl_errors = 5" by (simp_all add: gl_errors_def)
    have "bit (GLErrorToErrorBit e) i \<longleftrightarrow> x = e"
      using error_bit_cases [of e] i x len
      by (auto simp: bit_simps nth_eq_iff_index_eq)
    then show ?thesis
      using i(1) by (simp add: i(3) and_exp_eq_0_iff_not_bit and.commute [of "2 ^ i"] bit_simps)
  qed
  then show ?thesis unfolding recorded_def filter_filter by (intro filter_cong refl) auto
qed

lemma recorded_distinct: "distinct (recorded bits)"
  by (simp add: recorded_def gl_errors_def)

lemma recorded_nonzero: "e \<in> set (recorded bits) \<Longrightarrow> e \<noteq> GL_NO_ERROR"
proof -
  have "GL_NO_ERROR \<notin> set gl_errors" by (simp add: gl_errors_def)
  then show "e \<in> set (recorded bits) \<Longrightarrow> e \<noteq> GL_NO_ERROR" by (auto simp: recorded_def)
qed

lemma merge_recorded:
  assumes "bits_ok bits"
  shows "merge_error GL_NO_ERROR bits = (case recorded bits of [] \<Rightarrow> (GL_NO_ERROR, bits)
      | e # es \<Rightarrow> (e, bits AND NOT (GLErrorToErrorBit e)))"
proof (cases "error_indices bits")
  case (Cons i "is")
  then have "i \<in> set (error_indices bits)" by simp
  then have "i < 5" by (simp add: error_indices_def)
  then show ?thesis
    using merge_own_error [OF assms] Cons GLErrorToErrorBit_nth [of i] by (simp add: recorded_indices)
qed (use merge_own_error [OF assms] in \<open>simp add: recorded_indices\<close>)

section \<open>Layers that report errors\<close>

text \<open>\<open>n\<close> successive calls of an error query.\<close>

fun get_error_calls :: "nat \<Rightarrow> 'g get_error \<Rightarrow> 'g \<Rightarrow> GLenum list" where
  "get_error_calls 0 get_error d = []"
| "get_error_calls (Suc n) get_error d =
     fst (get_error d) # get_error_calls n get_error (snd (get_error d))"

text \<open>The contract of an error query: it hands out the pending errors one by one and then reports
  \<^verbatim>\<open>GL_NO_ERROR\<close>. This is what the GL specification says of \<^verbatim>\<open>glGetError\<close>; the decoder keeps the same
  contract towards the client.\<close>

definition layered_pending ::
  "('g \<Rightarrow> GLenum list) \<Rightarrow> ('g, 'a) error_state_scheme \<Rightarrow> GLenum list" where
  "layered_pending pending_errors s =
     pending_errors (driver s)
       @ filter (\<lambda>e. e \<notin> set (pending_errors (driver s))) (recorded (error_bits_' s))"

definition layered_ok :: "('g \<Rightarrow> bool) \<Rightarrow> ('g, 'a) error_state_scheme \<Rightarrow> bool" where
  "layered_ok ok s \<longleftrightarrow> ok (driver s) \<and> bits_ok (error_bits_' s)"

locale gl_error_source =
  fixes get_error :: "'g get_error"
    and pending_errors :: "'g \<Rightarrow> GLenum list"
    and ok :: "'g \<Rightarrow> bool"
  assumes report_none: "ok d \<Longrightarrow> pending_errors d = [] \<Longrightarrow> fst (get_error d) = GL_NO_ERROR"
    and report_first: "ok d \<Longrightarrow> pending_errors d = e # es \<Longrightarrow> e \<noteq> GL_NO_ERROR \<and> fst (get_error d) = e"
    and report_rest: "ok d \<Longrightarrow> pending_errors (snd (get_error d)) = tl (pending_errors d)"
    and report_ok: "ok d \<Longrightarrow> ok (snd (get_error d))"
begin

lemma calls_report_pending:
  "ok d \<Longrightarrow> get_error_calls n get_error d = take n (pending_errors d @ replicate n GL_NO_ERROR)"
proof (induction n arbitrary: d)
  case (Suc n)
  let ?d = "snd (get_error d)"
  have IH: "get_error_calls n get_error ?d = take n (pending_errors ?d @ replicate n GL_NO_ERROR)"
    using Suc.IH report_ok [OF Suc.prems] .
  show ?case
  proof (cases "pending_errors d")
    case Nil
    then show ?thesis using IH report_none [OF Suc.prems] report_rest [OF Suc.prems] by simp
  next
    case (Cons e es)
    have "take k (x # replicate k x) = replicate k x" for k and x :: GLenum
      using take_replicate [of k "Suc k" x] by simp
    then have "take (n - k) (GL_NO_ERROR # replicate n GL_NO_ERROR)
        = take (n - k) (replicate n GL_NO_ERROR)" for k
      by (metis diff_le_self min.absorb1 replicate_Suc take_replicate le_SucI)
    then show ?thesis
      using IH Cons report_first [OF Suc.prems Cons] report_rest [OF Suc.prems]
      by (simp add: take_append)
  qed
qed simp

lemma report_empty:
  "ok d \<Longrightarrow> pending_errors d = [] \<Longrightarrow>
    fst (get_error d) = GL_NO_ERROR \<and> pending_errors (snd (get_error d)) = [] \<and> ok (snd (get_error d))"
  by (simp add: report_none report_rest report_ok)

lemma copy_errors:
  assumes "ok (driver s)"
  shows "\<exists>d. CopyRealGLErrorsToWrapper get_error s
      = Some (s\<lparr>driver := d, error_bits_' := fold set_error_bit (pending_errors (driver s))
                (error_bits_' s)\<rparr>)
    \<and> ok d \<and> pending_errors d = []"
  using assms
proof (induction "pending_errors (driver s)" arbitrary: s)
  case Nil
  then have "fst (get_error (driver s)) = GL_NO_ERROR" "pending_errors (snd (get_error (driver s))) = []"
      "ok (snd (get_error (driver s)))"
    using report_empty [OF Nil.prems] by simp_all
  moreover have "CopyRealGLErrorsToWrapper get_error s = Some (s\<lparr>driver := snd (get_error (driver s))\<rparr>)"
    using calculation(1) by (subst CopyRealGLErrorsToWrapper.simps) (simp add: split_beta)
  ultimately show ?case
    using Nil.hyps by (intro exI [of _ "snd (get_error (driver s))"]) simp
next
  case (Cons e es)
  let ?d = "snd (get_error (driver s))"
  let ?s = "s\<lparr>driver := ?d, error_bits_' := set_error_bit e (error_bits_' s)\<rparr>"
  note first = report_first [OF Cons.prems Cons.hyps(2) [symmetric]]
  have "pending_errors ?d = es" using report_rest [OF Cons.prems] Cons.hyps(2) [symmetric] by simp
  moreover have "ok ?d" using Cons.prems by (rule report_ok)
  ultimately obtain d where "CopyRealGLErrorsToWrapper get_error ?s
        = Some (?s\<lparr>driver := d, error_bits_' := fold set_error_bit es (error_bits_' ?s)\<rparr>)"
      "ok d" "pending_errors d = []"
    using Cons.hyps(1) [of ?s] by auto
  moreover have "CopyRealGLErrorsToWrapper get_error s = CopyRealGLErrorsToWrapper get_error ?s"
    using first by (subst CopyRealGLErrorsToWrapper.simps) (simp add: split_beta Service_SetGLError_def)
  ultimately show ?case using Cons.hyps(2) [symmetric] by (intro exI [of _ d]) simp
qed

lemma clear_errors:
  assumes "ok (driver s)"
  shows "\<exists>d. ClearRealGLErrors get_error s = Some (s\<lparr>driver := d\<rparr>) \<and> ok d \<and> pending_errors d = []"
  using assms
proof (induction "pending_errors (driver s)" arbitrary: s)
  case Nil
  then have "fst (get_error (driver s)) = GL_NO_ERROR" "pending_errors (snd (get_error (driver s))) = []"
      "ok (snd (get_error (driver s)))"
    using report_empty [OF Nil.prems] by simp_all
  moreover have "ClearRealGLErrors get_error s = Some (s\<lparr>driver := snd (get_error (driver s))\<rparr>)"
    using calculation(1) by (subst ClearRealGLErrors.simps) (simp add: split_beta)
  ultimately show ?case by (intro exI [of _ "snd (get_error (driver s))"]) simp
next
  case (Cons e es)
  let ?s = "s\<lparr>driver := snd (get_error (driver s))\<rparr>"
  note first = report_first [OF Cons.prems Cons.hyps(2) [symmetric]]
  have "pending_errors (driver ?s) = es" using report_rest [OF Cons.prems] Cons.hyps(2) [symmetric] by simp
  moreover have "ok (driver ?s)" using report_ok [OF Cons.prems] by simp
  ultimately obtain d where "ClearRealGLErrors get_error ?s = Some (?s\<lparr>driver := d\<rparr>)" "ok d"
      "pending_errors d = []"
    using Cons.hyps(1) [of ?s] by auto
  moreover have "ClearRealGLErrors get_error s = ClearRealGLErrors get_error ?s"
    using first by (subst ClearRealGLErrors.simps) (simp add: split_beta)
  ultimately show ?case by (intro exI [of _ d]) simp
qed

text \<open>A layer that merges its own mask with this source is again such a source.\<close>

lemma layered_step:
  assumes "layered_ok ok s"
  defines "r \<equiv> Service_GetGLError get_error s"
  shows "(case layered_pending pending_errors s of
            [] \<Rightarrow> fst r = GL_NO_ERROR
          | e # es \<Rightarrow> e \<noteq> GL_NO_ERROR \<and> fst r = e)
    \<and> layered_pending pending_errors (snd r) = tl (layered_pending pending_errors s)
    \<and> layered_ok ok (snd r)"
proof -
  let ?d = "snd (get_error (driver s))" and ?b = "error_bits_' s"
  have ok: "ok (driver s)" "bits_ok ?b" using assms(1) by (simp_all add: layered_ok_def)
  have r: "r = (fst (merge_error (fst (get_error (driver s))) ?b),
       s\<lparr>driver := ?d, error_bits_' := snd (merge_error (fst (get_error (driver s))) ?b)\<rparr>)"
    by (simp add: r_def Service_GetGLError_def split_beta)
  show ?thesis
  proof (cases "pending_errors (driver s)")
    case Nil
    note d = report_empty [OF ok(1) Nil]
    show ?thesis
    proof (cases "recorded ?b")
      case rec: Nil
      then show ?thesis
        using d ok(2) Nil merge_recorded [OF ok(2)]
        by (simp add: r layered_pending_def layered_ok_def)
    next
      case rec: (Cons e es)
      have "e \<notin> set es" using recorded_distinct [of ?b] rec by simp
      then have "filter (\<lambda>x. x \<noteq> e) es = es" by (auto simp: filter_id_conv)
      then show ?thesis
        using d ok(2) Nil rec merge_recorded [OF ok(2)] recorded_nonzero [of e ?b]
        by (simp add: r layered_pending_def layered_ok_def recorded_clear bits_ok_and)
    qed
  next
    case (Cons e es)
    note d = report_first [OF ok(1) Cons] report_rest [OF ok(1)] report_ok [OF ok(1)]
    then have "merge_error (fst (get_error (driver s))) ?b = (e, ?b AND NOT (GLErrorToErrorBit e))"
      by (simp add: merge_error_def)
    then show ?thesis
      using d ok(2) Cons
      by (simp add: r layered_pending_def layered_ok_def recorded_clear bits_ok_and conj_commute)
  qed
qed

lemma layered:
  "gl_error_source (Service_GetGLError get_error) (layered_pending pending_errors) (layered_ok ok)"
proof
  fix s :: "('g, 'a) error_state_scheme" and e es
  assume ok: "layered_ok ok s"
  note step = layered_step [OF ok]
  show "layered_pending pending_errors s = [] \<Longrightarrow> fst (Service_GetGLError get_error s) = GL_NO_ERROR"
    using step by simp
  show "layered_pending pending_errors s = e # es \<Longrightarrow>
      e \<noteq> GL_NO_ERROR \<and> fst (Service_GetGLError get_error s) = e"
    using step by simp
  show "layered_pending pending_errors (snd (Service_GetGLError get_error s))
      = tl (layered_pending pending_errors s)"
    using step by simp
  show "layered_ok ok (snd (Service_GetGLError get_error s))"
    using step by simp
qed

end

lemma Client_GetGLError_eq: "Client_GetGLError = Service_GetGLError"
  by (simp add: fun_eq_iff Client_GetGLError_def Service_GetGLError_def)

section \<open>A driver\<close>

text \<open>The driver of the GL specification, as far as errors go: a queue of distinct error flags.\<close>

definition queue_get_error :: "GLenum list get_error" where
  "queue_get_error q = (case q of [] \<Rightarrow> (GL_NO_ERROR, []) | e # es \<Rightarrow> (e, es))"

definition queue_ok :: "GLenum list \<Rightarrow> bool" where
  "queue_ok q \<longleftrightarrow> GL_NO_ERROR \<notin> set q"

interpretation queue_driver: gl_error_source queue_get_error "\<lambda>q. q" queue_ok
  by unfold_locales (auto simp: queue_get_error_def queue_ok_def split: list.splits)

interpretation decoder_errors: gl_error_source "Service_GetGLError queue_get_error"
  "layered_pending (\<lambda>q. q)" "layered_ok queue_ok"
  by (rule queue_driver.layered)

section \<open>Client, decoder and driver\<close>

text \<open>C30: successive \<^verbatim>\<open>glGetError\<close> calls of the client report every pending error of the driver, then
  every error the decoder recorded and every error the client recorded that was not reported
  already, each exactly once and in the order of the error bits, and from then on
  \<^verbatim>\<open>GL_NO_ERROR\<close>.\<close>

theorem gl_errors_reported_once:
  assumes "gl_error_source get_error pend okd"
    and "okd (driver (driver s))" "bits_ok (error_bits_' (driver s))" "bits_ok (error_bits_' s)"
  defines "E \<equiv> pend (driver (driver s))"
  defines "F \<equiv> E @ filter (\<lambda>e. e \<notin> set E) (recorded (error_bits_' (driver s)))"
  defines "G \<equiv> F @ filter (\<lambda>e. e \<notin> set F) (recorded (error_bits_' s))"
  shows "get_error_calls n (Client_GetGLError (Service_GetGLError get_error)) s
    = take n (G @ replicate n GL_NO_ERROR)"
proof -
  have "gl_error_source (Client_GetGLError (Service_GetGLError get_error))
      (layered_pending (layered_pending pend)) (layered_ok (layered_ok okd))"
    unfolding Client_GetGLError_eq
    by (intro gl_error_source.layered assms(1))
  moreover have "layered_ok (layered_ok okd) s" using assms(2-4) by (simp add: layered_ok_def)
  ultimately have "get_error_calls n (Client_GetGLError (Service_GetGLError get_error)) s
      = take n (layered_pending (layered_pending pend) s @ replicate n GL_NO_ERROR)"
    by (rule gl_error_source.calls_report_pending)
  then show ?thesis by (simp add: G_def F_def E_def layered_pending_def)
qed

text \<open>An out-of-memory error of the driver, two errors of the decoder and one of the client, raised
  with the operations of the two sides.\<close>

definition sample_errors :: "GLenum list error_state error_state" where
  "sample_errors =
     Client_SetGLError GL_INVALID_ENUM None
       \<lparr>driver = Service_SetGLError GL_INVALID_OPERATION None (Service_SetGLError GL_OUT_OF_MEMORY None
          \<lparr>driver = [GL_OUT_OF_MEMORY], error_bits_' = 0, last_error_' = []\<rparr>),
        error_bits_' = 0, last_error_' = []\<rparr>"

theorem gl_errors_reported_once_witness:
  "get_error_calls 4 (Client_GetGLError (Service_GetGLError queue_get_error)) sample_errors
    = [GL_OUT_OF_MEMORY, GL_INVALID_OPERATION, GL_INVALID_ENUM, GL_NO_ERROR]"
proof -
  let ?d = "driver sample_errors"
  have s: "driver ?d = [GL_OUT_OF_MEMORY]" "error_bits_' ?d = 12" "error_bits_' sample_errors = 1"
    by (simp_all add: sample_errors_def Client_SetGLError_def Service_SetGLError_def set_error_bit_def
        GLErrorToErrorBit_def gl_error_bit_defs)
  then have "queue_ok (driver ?d)" "bits_ok (error_bits_' ?d)" "bits_ok (error_bits_' sample_errors)"
    by (simp_all add: queue_ok_def bits_ok_def)
  moreover have "recorded 12 = [GL_INVALID_OPERATION, GL_OUT_OF_MEMORY]" "recorded 1 = [GL_INVALID_ENUM]"
    by (simp_all add: recorded_def gl_errors_def GLErrorToErrorBit_def gl_error_bit_defs)
  ultimately show ?thesis
    using gl_errors_reported_once [OF queue_driver.gl_error_source_axioms, of sample_errors 4] s
    by simp
qed

end
