(* ===== verification/Buffer_Commands.thy ===== *)
theory Buffer_Commands
  imports Vertex_Attrib_Manager Gl_Errors Id_Allocator
begin

text \<open>
  The part of \<^verbatim>\<open>GLES2DecoderImpl\<close> (\<^verbatim>\<open>service/gles2_cmd_decoder.cc\<close>) that manages buffer objects and
  vertex attributes: generating, deleting and binding buffers, uploading data, and setting vertex
  attributes.

  The decoder state extends the error state of \<open>Gl_Errors\<close>. Everything below it is a parameter, the
  record \<open>GlApi\<close> on a state \<open>'g\<close>: the GL entry points, and the parts of the decoder that only deal with
  framebuffers and textures and touch no field of this record. \<open>issued\<close> records the GL calls made, in
  order; no operation reads it. \<^const>\<open>None\<close> means that an operation does not return or leaves the
  allocated memory.
\<close>

section \<open>State\<close>

datatype gl_call =
    glBindBuffer GLenum GLuint
  | glBufferData GLenum GLsizeiptr "byte list option" GLenum
  | glBufferSubData GLenum GLintptr GLsizeiptr "byte list"
  | glBufferSubDataFloats GLenum GLintptr GLsizeiptr "GLfloat option list"
  | glDeleteBuffers GLuint
  | glVertexAttribPointer GLuint GLint GLenum bool GLsizei GLsizei
  | glEnableVertexAttribArray GLuint
  | glDisableVertexAttribArray GLuint
  | glVertexAttribfv GLuint "GLfloat list"
  | glDrawArrays GLenum GLint GLsizei
  | glDrawElements GLenum GLsizei GLenum GLsizei

record 'g GlApi =
  api_get_error :: "'g get_error"
  api_call :: "gl_call \<Rightarrow> 'g \<Rightarrow> 'g"
  api_gen_buffers :: "nat \<Rightarrow> 'g \<Rightarrow> GLuint list \<times> 'g"
  api_is_egl_gles2 :: bool
  api_framebuffer_incomplete :: "'g \<Rightarrow> bool"
  api_set_black_textures :: "'g \<Rightarrow> bool \<times> 'g"
  api_restore_textures :: "'g \<Rightarrow> 'g"
  api_apply_dirty_state :: "'g \<Rightarrow> 'g"
  api_was_context_lost :: "'g \<Rightarrow> bool \<times> 'g"

record 'g Decoder = "'g error_state" +
  buffer_manager :: BufferManager
  buffer_ids :: IdAllocator
  bind_generates_resource :: bool
  vertex_attrib_manager_' :: VertexAttribManager
  group_max_vertex_attribs :: uint32
  vertex_attrib_types :: "GLenum list"
  bound_array_buffer_' :: "nat option"
  bound_element_array_buffer_' :: "nat option"
  current_program_' :: "int list option"
  attrib_0_buffer_id_' :: GLuint
  attrib_0_value_' :: "GLfloat list"
  attrib_0_buffer_matches_value_' :: bool
  attrib_0_size_' :: GLsizei
  fixed_attrib_buffer_id_' :: GLuint
  fixed_attrib_buffer_size_' :: GLsizei
  bufferdata_faster_than_buffersubdata_' :: bool
  issued :: "gl_call list"

definition gl :: "'g GlApi \<Rightarrow> gl_call \<Rightarrow> 'g Decoder \<Rightarrow> 'g Decoder" where
  "gl P c s = s\<lparr>driver := api_call P c (driver s), issued := issued s @ [c]\<rparr>"

definition set_gl_error :: "GLenum \<Rightarrow> string \<Rightarrow> 'g Decoder \<Rightarrow> 'g Decoder" where
  "set_gl_error e msg s = Service_SetGLError e (Some msg) s"

abbreviation buffer_at :: "nat \<Rightarrow> 'g Decoder \<Rightarrow> BufferInfo" where
  "buffer_at a s \<equiv> objects (buffer_manager s) ! a"

definition service_id_of :: "nat option \<Rightarrow> 'g Decoder \<Rightarrow> GLuint" where
  "service_id_of p s = (case p of None \<Rightarrow> 0 | Some a \<Rightarrow> service_id_' (buffer_at a s))"

section \<open>Creating, deleting and binding\<close>

text \<open>The decoder's own \<^verbatim>\<open>GetBufferInfo\<close> hides deleted objects.\<close>

definition Decoder_GetBufferInfo :: "GLuint \<Rightarrow> 'g Decoder \<Rightarrow> nat option" where
  "Decoder_GetBufferInfo client_id s =
     (case GetBufferInfo client_id (buffer_manager s) of
        None \<Rightarrow> None
      | Some a \<Rightarrow> if IsDeleted (buffer_at a s) then None else Some a)"

definition Decoder_CreateBufferInfo :: "GLuint \<Rightarrow> GLuint \<Rightarrow> 'g Decoder \<Rightarrow> 'g Decoder" where
  "Decoder_CreateBufferInfo client_id service_id s =
     s\<lparr>buffer_manager := CreateBufferInfo client_id service_id (buffer_manager s)\<rparr>"

definition GenBuffersHelper :: "'g GlApi \<Rightarrow> GLuint list \<Rightarrow> 'g Decoder \<Rightarrow> bool \<times> 'g Decoder" where
  "GenBuffersHelper P client_ids s =
     (if list_ex (\<lambda>i. Decoder_GetBufferInfo i s \<noteq> None) client_ids then (False, s)
      else let (service_ids, d) = api_gen_buffers P (length client_ids) (driver s)
           in (True, fold (\<lambda>(cid, sid). Decoder_CreateBufferInfo cid sid) (zip client_ids service_ids)
                       (s\<lparr>driver := d\<rparr>)))"

fun DeleteBuffersHelper :: "'g GlApi \<Rightarrow> GLuint list \<Rightarrow> 'g Decoder \<Rightarrow> 'g Decoder" where
  "DeleteBuffersHelper P [] s = s"
| "DeleteBuffersHelper P (i # is) s =
     (case Decoder_GetBufferInfo i s of
        None \<Rightarrow> DeleteBuffersHelper P is s
      | Some a \<Rightarrow>
          let s = gl P (glDeleteBuffers (service_id_' (buffer_at a s))) s
          in DeleteBuffersHelper P is
               (s\<lparr>buffer_manager := RemoveBufferInfo i (buffer_manager s)\<rparr>))"

text \<open>The first half of \<^verbatim>\<open>DoBindBuffer\<close>: find the object, or make one for a new id. \<^const>\<open>None\<close> is the
  early return.\<close>

definition bind_lookup :: "'g GlApi \<Rightarrow> GLuint \<Rightarrow> 'g Decoder \<Rightarrow> nat option option \<times> 'g Decoder" where
  "bind_lookup P client_id s =
     (if client_id = 0 then (Some None, s)
      else case Decoder_GetBufferInfo client_id s of
        Some a \<Rightarrow> (Some (Some a), s)
      | None \<Rightarrow>
          if \<not> bind_generates_resource s then
            (None, set_gl_error GL_INVALID_VALUE ''glBindBuffer: id not generated by glGenBuffers'' s)
          else
            let (ids, d) = api_gen_buffers P 1 (driver s);
                s = Decoder_CreateBufferInfo client_id (hd ids) (s\<lparr>driver := d\<rparr>);
                info = Decoder_GetBufferInfo client_id s;
                s = s\<lparr>buffer_ids := snd (IdAllocator_MarkAsUsed client_id (buffer_ids s))\<rparr>
            in (Some info, s))"

definition bind_target :: "'g GlApi \<Rightarrow> GLenum \<Rightarrow> nat option \<Rightarrow> 'g Decoder \<Rightarrow> 'g Decoder" where
  "bind_target P target info s =
     gl P (glBindBuffer target (service_id_of info s))
       (if target = GL_ARRAY_BUFFER then s\<lparr>bound_array_buffer_' := info\<rparr>
        else if target = GL_ELEMENT_ARRAY_BUFFER then s\<lparr>bound_element_array_buffer_' := info\<rparr>
        else s)"

definition DoBindBuffer :: "'g GlApi \<Rightarrow> GLenum \<Rightarrow> GLuint \<Rightarrow> 'g Decoder \<Rightarrow> 'g Decoder" where
  "DoBindBuffer P target client_id s =
     (case bind_lookup P client_id s of
        (None, s) \<Rightarrow> s
      | (Some None, s) \<Rightarrow> bind_target P target None s
      | (Some (Some a), s) \<Rightarrow>
          let (ok, m) = SetTarget a target (buffer_manager s)
          in if ok then bind_target P target (Some a) (s\<lparr>buffer_manager := m\<rparr>)
             else set_gl_error GL_INVALID_OPERATION
                    ''glBindBuffer: buffer bound to more than 1 target'' s)"

section \<open>Data\<close>

definition GetBufferInfoForTarget :: "GLenum \<Rightarrow> 'g Decoder \<Rightarrow> nat option" where
  "GetBufferInfoForTarget target s =
     (case (if target = GL_ARRAY_BUFFER then bound_array_buffer_' s else bound_element_array_buffer_' s) of
        None \<Rightarrow> None
      | Some a \<Rightarrow> if IsDeleted (buffer_at a s) then None else Some a)"

definition set_range_at ::
  "nat \<Rightarrow> GLintptr \<Rightarrow> GLsizeiptr \<Rightarrow> byte list \<Rightarrow> 'g Decoder \<Rightarrow> (bool \<times> 'g Decoder) option" where
  "set_range_at a offset sz data s =
     map_option (\<lambda>(ok, b). (ok, s\<lparr>buffer_manager := update_object a b (buffer_manager s)\<rparr>))
       (SetRange offset sz data (buffer_at a s))"

text \<open>The second half of \<^verbatim>\<open>DoBufferData\<close>, after the arguments are checked. A null data pointer was
  replaced by zeros.\<close>

definition upload_data ::
  "'g GlApi \<Rightarrow> nat \<Rightarrow> GLenum \<Rightarrow> GLsizeiptr \<Rightarrow> byte list \<Rightarrow> GLenum \<Rightarrow> 'g Decoder \<Rightarrow> 'g Decoder option" where
  "upload_data P a target sz data usage s =
     (if \<not> bufferdata_faster_than_buffersubdata_' s
         \<and> sz = size_' (buffer_at a s) \<and> usage = usage_' (buffer_at a s)
      then map_option snd (set_range_at a 0 sz data (gl P (glBufferSubData target 0 sz data) s))
      else do {
        s \<leftarrow> CopyRealGLErrorsToWrapper (api_get_error P) s;
        let s = gl P (glBufferData target sz (Some data) usage) s;
        let (error, s) = PeekGLError (api_get_error P) s;
        if error = GL_NO_ERROR then do {
          m \<leftarrow> BufferManager_SetInfo a sz usage (buffer_manager s);
          map_option snd (set_range_at a 0 sz data (s\<lparr>buffer_manager := m\<rparr>))
        } else Some s
      })"

definition DoBufferData ::
  "'g GlApi \<Rightarrow> GLenum \<Rightarrow> GLsizeiptr \<Rightarrow> byte list option \<Rightarrow> GLenum \<Rightarrow> 'g Decoder \<Rightarrow> 'g Decoder option" where
  "DoBufferData P target sz data usage s =
     (if target \<notin> {GL_ARRAY_BUFFER, GL_ELEMENT_ARRAY_BUFFER} then
        Some (set_gl_error GL_INVALID_ENUM ''glBufferData: target GL_INVALID_ENUM'' s)
      else if usage \<notin> {GL_STREAM_DRAW, GL_STATIC_DRAW, GL_DYNAMIC_DRAW} then
        Some (set_gl_error GL_INVALID_ENUM ''glBufferData: usage GL_INVALID_ENUM'' s)
      else if sint sz < 0 then
        Some (set_gl_error GL_INVALID_VALUE ''glBufferData: size < 0'' s)
      else case GetBufferInfoForTarget target s of
        None \<Rightarrow> Some (set_gl_error GL_INVALID_VALUE ''glBufferData: unknown buffer'' s)
      | Some a \<Rightarrow>
          upload_data P a target sz
            (case data of None \<Rightarrow> replicate (unat sz) 0 | Some d \<Rightarrow> d) usage s)"

definition DoBufferSubData ::
  "'g GlApi \<Rightarrow> GLenum \<Rightarrow> GLintptr \<Rightarrow> GLsizeiptr \<Rightarrow> byte list \<Rightarrow> 'g Decoder \<Rightarrow> 'g Decoder option" where
  "DoBufferSubData P target offset sz data s =
     (case GetBufferInfoForTarget target s of
        None \<Rightarrow> Some (set_gl_error GL_INVALID_VALUE ''glBufferSubData: unknown buffer'' s)
      | Some a \<Rightarrow> do {
          (ok, s) \<leftarrow> set_range_at a offset sz data s;
          if \<not> ok then
            Some (set_gl_error GL_INVALID_VALUE ''glBufferSubData: out of range'' s)
          else if bufferdata_faster_than_buffersubdata_' s \<and> offset = 0
              \<and> sz = size_' (buffer_at a s)
          then Some (gl P (glBufferData target sz (Some data) (usage_' (buffer_at a s))) s)
          else Some (gl P (glBufferSubData target offset sz data) s)
        })"

section \<open>Vertex attributes\<close>

definition DoEnableVertexAttribArray :: "'g GlApi \<Rightarrow> GLuint \<Rightarrow> 'g Decoder \<Rightarrow> 'g Decoder" where
  "DoEnableVertexAttribArray P i s =
     (let (ok, m) = Enable i True (vertex_attrib_manager_' s); s = s\<lparr>vertex_attrib_manager_' := m\<rparr>
      in if ok then gl P (glEnableVertexAttribArray i) s
         else set_gl_error GL_INVALID_VALUE ''glEnableVertexAttribArray: index out of range'' s)"

definition DoDisableVertexAttribArray :: "'g GlApi \<Rightarrow> GLuint \<Rightarrow> 'g Decoder \<Rightarrow> 'g Decoder" where
  "DoDisableVertexAttribArray P i s =
     (let (ok, m) = Enable i False (vertex_attrib_manager_' s); s = s\<lparr>vertex_attrib_manager_' := m\<rparr>
      in if ok then if i \<noteq> 0 \<or> api_is_egl_gles2 P then gl P (glDisableVertexAttribArray i) s else s
         else set_gl_error GL_INVALID_VALUE ''glDisableVertexAttribArray: index out of range'' s)"

text \<open>The four scalar and the four vector variants of \<^verbatim>\<open>DoVertexAttrib\<close> differ in the number of
  components given; the rest is 0, 0, 1.\<close>

definition pad_value :: "GLfloat list \<Rightarrow> GLfloat list" where
  "pad_value v = v @ drop (length v) [0, 0, 0, 0x3F800000]"

definition DoVertexAttrib :: "'g GlApi \<Rightarrow> string \<Rightarrow> GLuint \<Rightarrow> GLfloat list \<Rightarrow> 'g Decoder \<Rightarrow> 'g Decoder" where
  "DoVertexAttrib P func i v s =
     (case GetVertexAttribInfo i (vertex_attrib_manager_' s) of
        None \<Rightarrow> set_gl_error GL_INVALID_VALUE (func @ '': index out of range'') s
      | Some k \<Rightarrow>
          gl P (glVertexAttribfv i v)
            (s\<lparr>vertex_attrib_manager_' := set_value k (pad_value v) (vertex_attrib_manager_' s)\<rparr>))"

definition DoVertexAttrib1f where "DoVertexAttrib1f P i v0 = DoVertexAttrib P ''glVertexAttrib1f'' i [v0]"
definition DoVertexAttrib2f where
  "DoVertexAttrib2f P i v0 v1 = DoVertexAttrib P ''glVertexAttrib2f'' i [v0, v1]"
definition DoVertexAttrib3f where
  "DoVertexAttrib3f P i v0 v1 v2 = DoVertexAttrib P ''glVertexAttrib3f'' i [v0, v1, v2]"
definition DoVertexAttrib4f where
  "DoVertexAttrib4f P i v0 v1 v2 v3 = DoVertexAttrib P ''glVertexAttrib4f'' i [v0, v1, v2, v3]"
definition DoVertexAttrib1fv where
  "DoVertexAttrib1fv P i v = DoVertexAttrib P ''glVertexAttrib1fv'' i (take 1 v)"
definition DoVertexAttrib2fv where
  "DoVertexAttrib2fv P i v = DoVertexAttrib P ''glVertexAttrib2fv'' i (take 2 v)"
definition DoVertexAttrib3fv where
  "DoVertexAttrib3fv P i v = DoVertexAttrib P ''glVertexAttrib3fv'' i (take 3 v)"
definition DoVertexAttrib4fv where
  "DoVertexAttrib4fv P i v = DoVertexAttrib P ''glVertexAttrib4fv'' i (take 4 v)"

text \<open>The checks of \<^verbatim>\<open>HandleVertexAttribPointer\<close>, in order: the error and message of the first one that
  fails.\<close>

definition attrib_pointer_error ::
  "GLuint \<Rightarrow> GLint \<Rightarrow> GLenum \<Rightarrow> GLsizei \<Rightarrow> GLsizei \<Rightarrow> 'g Decoder \<Rightarrow> (GLenum \<times> string) option" where
  "attrib_pointer_error indx sz type stride offset s =
     (let component_size = GetGLTypeSizeForTexturesAndBuffers type
      in if type \<notin> set (vertex_attrib_types s) then
           Some (GL_INVALID_ENUM, ''glVertexAttribPointer: type GL_INVALID_ENUM'')
         else if sz \<notin> {1, 2, 3, 4} then
           Some (GL_INVALID_VALUE, ''glVertexAttribPointer: size GL_INVALID_VALUE'')
         else if indx \<ge> group_max_vertex_attribs s then
           Some (GL_INVALID_VALUE, ''glVertexAttribPointer: index out of range'')
         else if sint stride < 0 then
           Some (GL_INVALID_VALUE, ''glVertexAttribPointer: stride < 0'')
         else if sint stride > 255 then
           Some (GL_INVALID_VALUE, ''glVertexAttribPointer: stride > 255'')
         else if sint offset < 0 then
           Some (GL_INVALID_VALUE, ''glVertexAttribPointer: offset < 0'')
         else if sint offset smod sint component_size > 0 then
           Some (GL_INVALID_OPERATION, ''glVertexAttribPointer: offset not valid for type'')
         else if sint stride smod sint component_size > 0 then
           Some (GL_INVALID_OPERATION, ''glVertexAttribPointer: stride not valid for type'')
         else None)"

definition HandleVertexAttribPointer ::
  "'g GlApi \<Rightarrow> GLuint \<Rightarrow> GLint \<Rightarrow> GLenum \<Rightarrow> bool \<Rightarrow> GLsizei \<Rightarrow> GLsizei \<Rightarrow> 'g Decoder \<Rightarrow> 'g Decoder" where
  "HandleVertexAttribPointer P indx sz type normalized stride offset s =
     (if GetBufferInfoForTarget GL_ARRAY_BUFFER s = None then
        set_gl_error GL_INVALID_VALUE ''glVertexAttribPointer: no array buffer bound'' s
      else case attrib_pointer_error indx sz type stride offset s of
        Some (e, msg) \<Rightarrow> set_gl_error e msg s
      | None \<Rightarrow>
          let component_size = GetGLTypeSizeForTexturesAndBuffers type;
              s = s\<lparr>vertex_attrib_manager_' :=
                SetAttribInfo indx (bound_array_buffer_' s) sz type normalized stride
                  (if stride \<noteq> 0 then stride else component_size * sz) offset
                  (vertex_attrib_manager_' s)\<rparr>
          in if type \<noteq> GL_FIXED
             then gl P (glVertexAttribPointer indx sz type normalized stride offset) s else s)"

text \<open>The features of \<^verbatim>\<open>HandleEnableFeatureCHROMIUM\<close> that concern buffers.\<close>

definition allow_multiple_targets :: "'g Decoder \<Rightarrow> 'g Decoder" where
  "allow_multiple_targets s =
     s\<lparr>buffer_manager := set_allow_buffers_on_multiple_targets True (buffer_manager s)\<rparr>"

definition support_fixed_attribs :: "'g Decoder \<Rightarrow> 'g Decoder" where
  "support_fixed_attribs s =
     (allow_multiple_targets s)\<lparr>vertex_attrib_types :=
        (if GL_FIXED \<in> set (vertex_attrib_types s) then vertex_attrib_types s
         else vertex_attrib_types s @ [GL_FIXED])\<rparr>"

end
