(* ===== verification/Draw_Calls.thy ===== *)
theory Draw_Calls
  imports Buffer_Commands
begin

text \<open>
  The draw commands of \<^verbatim>\<open>GLES2DecoderImpl\<close> (\<^verbatim>\<open>service/gles2_cmd_decoder.cc\<close>): the validation of the
  vertex range, the simulation of attribute 0 and of \<^verbatim>\<open>GL_FIXED\<close> attributes on desktop GL, and the
  handlers of \<^verbatim>\<open>glDrawArrays\<close> and \<^verbatim>\<open>glDrawElements\<close>.

  The current program is the list \<^verbatim>\<open>attrib_location_to_index_map_\<close> of \<^verbatim>\<open>ProgramInfo\<close>. The lemmas show
  which reads a draw call that reaches GL may cause; the results \<^const>\<open>None\<close> of
  \<open>SimulateFixedAttribs\<close> mark reads outside the shadow copy.
\<close>

section \<open>Validation\<close>

definition GetAttribInfoByLocation :: "int list \<Rightarrow> GLuint \<Rightarrow> int option" where
  "GetAttribInfoByLocation location_map location =
     (if unat location < length location_map then
        let i = location_map ! unat location in if i \<ge> 0 then Some i else None
      else None)"

abbreviation attrib_at :: "nat \<Rightarrow> 'g Decoder \<Rightarrow> VertexAttribInfo" where
  "attrib_at i s \<equiv> vertex_attrib_infos_' (vertex_attrib_manager_' s) ! i"

definition attrib_used :: "int list \<Rightarrow> nat \<Rightarrow> 'g Decoder \<Rightarrow> bool" where
  "attrib_used prog i s \<longleftrightarrow> GetAttribInfoByLocation prog (index_' (attrib_at i s)) \<noteq> None"

definition attrib_can_access :: "GLuint \<Rightarrow> nat \<Rightarrow> 'g Decoder \<Rightarrow> bool" where
  "attrib_can_access v i s \<longleftrightarrow> CanAccess (objects (buffer_manager s)) v (attrib_at i s)"

definition has_live_buffer :: "nat \<Rightarrow> 'g Decoder \<Rightarrow> bool" where
  "has_live_buffer i s \<longleftrightarrow>
     (case buffer_' (attrib_at i s) of None \<Rightarrow> False | Some a \<Rightarrow> \<not> IsDeleted (buffer_at a s))"

text \<open>The loop over the enabled attributes: the message of the first error.\<close>

fun attribs_error :: "int list \<Rightarrow> GLuint \<Rightarrow> nat list \<Rightarrow> 'g Decoder \<Rightarrow> string option" where
  "attribs_error prog v [] s = None"
| "attribs_error prog v (i # is) s =
     (if attrib_used prog i s then
        if \<not> attrib_can_access v i s then
          Some ''glDrawXXX: attempt to access out of range vertices''
        else attribs_error prog v is s
      else if \<not> has_live_buffer i s then
        Some ''glDrawXXX: attempt to render with no buffer attached to enabled attrib''
      else attribs_error prog v is s)"

definition IsDrawValid :: "GLuint \<Rightarrow> 'g Decoder \<Rightarrow> bool \<times> 'g Decoder" where
  "IsDrawValid max_vertex_accessed s =
     (case current_program_' s of
        None \<Rightarrow> (False, s)
      | Some prog \<Rightarrow>
          case attribs_error prog max_vertex_accessed
                 (enabled_vertex_attribs_' (vertex_attrib_manager_' s)) s of
            None \<Rightarrow> (True, s)
          | Some msg \<Rightarrow> (False, set_gl_error GL_INVALID_OPERATION msg s))"

section \<open>Simulating attribute 0\<close>

text \<open>The comparison \<^verbatim>\<open>!=\<close> of two floats given by their bits: a NaN differs from everything, the two
  zeros are equal.\<close>

definition is_nan :: "GLfloat \<Rightarrow> bool" where
  "is_nan x \<longleftrightarrow> x AND 0x7FFFFFFF > 0x7F800000"

definition float_differs :: "GLfloat \<Rightarrow> GLfloat \<Rightarrow> bool" where
  "float_differs x y \<longleftrightarrow> is_nan x \<or> is_nan y \<or> (x \<noteq> y \<and> (x OR y) AND 0x7FFFFFFF \<noteq> 0)"

definition vec4_differs :: "GLfloat list \<Rightarrow> GLfloat list \<Rightarrow> bool" where
  "vec4_differs v w \<longleftrightarrow> list_ex (\<lambda>(x, y). float_differs x y) (zip v w)"

text \<open>The bound array buffer is enlarged when more bytes are needed than it holds; \<^const>\<open>False\<close> if GL
  reports an error. Both simulations use this.\<close>

definition grow_array_buffer ::
  "'g GlApi \<Rightarrow> GLuint \<Rightarrow> GLsizei \<Rightarrow> string \<Rightarrow> 'g Decoder \<Rightarrow> bool \<times> 'g Decoder" where
  "grow_array_buffer P size_needed current_size msg s =
     (if sint size_needed > sint current_size then
        let s = gl P (glBufferData GL_ARRAY_BUFFER size_needed None GL_DYNAMIC_DRAW) s;
            (error, d) = api_get_error P (driver s);
            s = s\<lparr>driver := d\<rparr>
        in if error \<noteq> GL_NO_ERROR then (False, set_gl_error GL_OUT_OF_MEMORY msg s) else (True, s)
      else (True, s))"

definition fill_attrib_0 ::
  "'g GlApi \<Rightarrow> GLfloat list \<Rightarrow> GLuint \<Rightarrow> GLuint \<Rightarrow> 'g Decoder \<Rightarrow> 'g Decoder" where
  "fill_attrib_0 P v num_vertices size_needed s =
     (gl P (glBufferSubData GL_ARRAY_BUFFER 0 size_needed
              (concat (replicate (unat num_vertices) (concat (map entry_bytes v))))) s)
       \<lparr>attrib_0_buffer_matches_value_' := True, attrib_0_value_' := v, attrib_0_size_' := size_needed\<rparr>"

text \<open>Without any attribute \<^verbatim>\<open>GetVertexAttribInfo(0)\<close> is null and dereferencing it faults.\<close>

definition SimulateAttrib0 ::
  "'g GlApi \<Rightarrow> int list \<Rightarrow> GLuint \<Rightarrow> 'g Decoder \<Rightarrow> (bool \<times> bool \<times> 'g Decoder) option" where
  "SimulateAttrib0 P prog max_vertex_accessed s =
     (if api_is_egl_gles2 P then Some (True, False, s)
      else if GetVertexAttribInfo 0 (vertex_attrib_manager_' s) = None then None
      else
        let info = attrib_at 0 s;
            attrib_0_used = (GetAttribInfoByLocation prog 0 \<noteq> None)
        in if enabled_' info \<and> attrib_0_used then Some (True, False, s)
           else
             let num_vertices = max_vertex_accessed + 1;
                 (fits, size_needed) = SafeMultiply num_vertices 16
             in if num_vertices = 0 \<or> \<not> fits \<or> size_needed > 0x7FFFFFFF then
                  Some (False, False,
                    set_gl_error GL_OUT_OF_MEMORY ''glDrawXXX: Simulating attrib 0'' s)
                else do {
                  s \<leftarrow> CopyRealGLErrorsToWrapper (api_get_error P) s;
                  let grows = (sint size_needed > sint (attrib_0_size_' s));
                  let s = gl P (glBindBuffer GL_ARRAY_BUFFER (attrib_0_buffer_id_' s)) s;
                  let (grown, s) = grow_array_buffer P size_needed (attrib_0_size_' s)
                                     ''glDrawXXX: Simulating attrib 0'' s;
                  if \<not> grown then Some (False, False, s)
                  else
                    let s = (if grows then s\<lparr>attrib_0_buffer_matches_value_' := False\<rparr> else s);
                        s = (if attrib_0_used \<and>
                                (\<not> attrib_0_buffer_matches_value_' s
                                 \<or> vec4_differs (value_' info) (attrib_0_value_' s))
                             then fill_attrib_0 P (value_' info) num_vertices size_needed s else s)
                    in Some (True, True, gl P (glVertexAttribPointer 0 4 GL_FLOAT False 0 0) s)
                })"

definition RestoreStateForSimulatedAttrib0 :: "'g GlApi \<Rightarrow> 'g Decoder \<Rightarrow> 'g Decoder" where
  "RestoreStateForSimulatedAttrib0 P s =
     (let info = attrib_at 0 s;
          s = gl P (glBindBuffer GL_ARRAY_BUFFER (service_id_of (buffer_' info) s)) s;
          s = gl P (glVertexAttribPointer 0 (attrib_size_' info) (type_' info) (normalized_' info)
                      (gl_stride_' info) (offset_' info)) s
      in gl P (glBindBuffer GL_ARRAY_BUFFER (service_id_of (bound_array_buffer_' s) s)) s)"

section \<open>Simulating fixed-point attributes\<close>

text \<open>\<^verbatim>\<open>static_cast<float>(x) / 65536.0f\<close> on a 32-bit integer: the conversion rounds to nearest even,
  the division by a power of two is exact. The result is given by its bits.\<close>

fun log2_floor :: "nat \<Rightarrow> nat" where
  "log2_floor n = (if n < 2 then 0 else Suc (log2_floor (n div 2)))"

declare log2_floor.simps [simp del]

definition round_mantissa :: "nat \<Rightarrow> nat \<Rightarrow> nat" where
  "round_mantissa m e =
     (if e \<le> 23 then m * 2 ^ (23 - e)
      else let u = 2 ^ (e - 23); q = m div u; r = 2 * (m mod u)
           in if r > u \<or> (r = u \<and> odd q) then q + 1 else q)"

definition fixed_to_float :: "32 word \<Rightarrow> GLfloat" where
  "fixed_to_float x =
     (let m = nat \<bar>sint x\<bar>
      in if m = 0 then 0
         else let e = log2_floor m
              in word_of_nat ((if sint x < 0 then 2 ^ 31 else 0)
                   + (e + 111) * 2 ^ 23 + (round_mantissa m e - 2 ^ 23)))"

definition uses_fixed :: "int list \<Rightarrow> GLuint \<Rightarrow> 'g Decoder \<Rightarrow> nat \<Rightarrow> bool" where
  "uses_fixed prog v s i \<longleftrightarrow>
     attrib_used prog i s \<and> attrib_can_access v i s \<and> type_' (attrib_at i s) = GL_FIXED"

text \<open>The number of float elements needed; \<^const>\<open>None\<close> on overflow.\<close>

fun fixed_elements :: "int list \<Rightarrow> GLuint \<Rightarrow> GLuint \<Rightarrow> nat list \<Rightarrow> 'g Decoder \<Rightarrow> GLuint \<Rightarrow> GLuint option" where
  "fixed_elements prog v num_vertices [] s needed = Some needed"
| "fixed_elements prog v num_vertices (i # is) s needed =
     (if uses_fixed prog v s i then
        let (ok, used) = SafeMultiply num_vertices (attrib_size_' (attrib_at i s));
            (ok', needed') = SafeAdd needed used
        in if \<not> ok \<or> \<not> ok' then None else fixed_elements prog v num_vertices is s needed'
      else fixed_elements prog v num_vertices is s needed)"

text \<open>The conversion loop reads \<open>n\<close> integers from \<open>pos\<close>; a read outside the array is \<^const>\<open>None\<close>.\<close>

fun convert_fixed :: "byte list \<Rightarrow> nat \<Rightarrow> nat \<Rightarrow> GLfloat list option" where
  "convert_fixed sh pos 0 = Some []"
| "convert_fixed sh pos (Suc n) = do {
     v \<leftarrow> read_elem 4 sh pos;
     vs \<leftarrow> convert_fixed sh (pos + 4) n;
     Some (fixed_to_float v # vs)
   }"

text \<open>One pass of the copying loop. The float array has \<open>size\<close> elements of which \<open>num_elements\<close> are
  written; \<^verbatim>\<open>glBufferSubData\<close> takes \<open>size\<close> bytes, a quarter of it.\<close>

definition copy_fixed_attrib ::
  "'g GlApi \<Rightarrow> GLuint \<Rightarrow> nat \<Rightarrow> GLintptr \<Rightarrow> 'g Decoder \<Rightarrow> 'g Decoder option" where
  "copy_fixed_attrib P num_vertices i offset s =
     (let info = attrib_at i s;
          num_elements = attrib_size_' info * 4;
          sz = num_elements * num_vertices
      in case buffer_' info of
           None \<Rightarrow> None
         | Some a \<Rightarrow>
             case GetRange (offset_' info) sz (buffer_at a s) of
               NullRange \<Rightarrow> None
             | FromNull _ \<Rightarrow> None
             | InShadow pos \<Rightarrow> if sint sz < 0 \<or> sint num_elements > sint sz then None else do {
                 floats \<leftarrow> convert_fixed (shadow_contents (buffer_at a s)) pos (unat num_elements);
                 let data = map Some floats @ replicate (unat sz - length floats) None;
                 let s = gl P (glBufferSubDataFloats GL_ARRAY_BUFFER offset sz
                                 (take (unat sz div 4) data)) s;
                 Some (gl P (glVertexAttribPointer (index_' info) (attrib_size_' info) GL_FLOAT
                               False 0 offset) s)
               })"

fun copy_fixed_attribs ::
  "'g GlApi \<Rightarrow> int list \<Rightarrow> GLuint \<Rightarrow> GLuint \<Rightarrow> nat list \<Rightarrow> GLintptr \<Rightarrow> 'g Decoder \<Rightarrow> 'g Decoder option" where
  "copy_fixed_attribs P prog v num_vertices [] offset s = Some s"
| "copy_fixed_attribs P prog v num_vertices (i # is) offset s =
     (if uses_fixed prog v s i then do {
        s' \<leftarrow> copy_fixed_attrib P num_vertices i offset s;
        copy_fixed_attribs P prog v num_vertices is
          (offset + attrib_size_' (attrib_at i s) * 4 * num_vertices) s'
      } else copy_fixed_attribs P prog v num_vertices is offset s)"

definition SimulateFixedAttribs ::
  "'g GlApi \<Rightarrow> int list \<Rightarrow> GLuint \<Rightarrow> 'g Decoder \<Rightarrow> (bool \<times> bool \<times> 'g Decoder) option" where
  "SimulateFixedAttribs P prog max_vertex_accessed s =
     (if api_is_egl_gles2 P then Some (True, False, s)
      else if \<not> HaveFixedAttribs (vertex_attrib_manager_' s) then Some (True, False, s)
      else
        let num_vertices = max_vertex_accessed + 1;
            infos = enabled_vertex_attribs_' (vertex_attrib_manager_' s)
        in if num_vertices = 0 then
             Some (False, False,
               set_gl_error GL_OUT_OF_MEMORY ''glDrawXXX: Simulating attrib 0'' s)
           else case fixed_elements prog max_vertex_accessed num_vertices infos s 0 of
             None \<Rightarrow>
               Some (False, False,
                 set_gl_error GL_OUT_OF_MEMORY ''glDrawXXX: simulating GL_FIXED attribs'' s)
           | Some elements_needed \<Rightarrow>
               let (fits, size_needed) = SafeMultiply elements_needed 4
               in if \<not> fits \<or> size_needed > 0x7FFFFFFF then
                    Some (False, False,
                      set_gl_error GL_OUT_OF_MEMORY ''glDrawXXX: simulating GL_FIXED attribs'' s)
                  else do {
                    s \<leftarrow> CopyRealGLErrorsToWrapper (api_get_error P) s;
                    let s = gl P (glBindBuffer GL_ARRAY_BUFFER (fixed_attrib_buffer_id_' s)) s;
                    let (grown, s) = grow_array_buffer P size_needed (fixed_attrib_buffer_size_' s)
                                       ''glDrawXXX: simulating GL_FIXED attribs'' s;
                    if \<not> grown then Some (False, False, s)
                    else do {
                      s \<leftarrow> copy_fixed_attribs P prog max_vertex_accessed num_vertices infos 0 s;
                      Some (True, True, s)
                    }
                  })"

definition RestoreStateForSimulatedFixedAttribs :: "'g GlApi \<Rightarrow> 'g Decoder \<Rightarrow> 'g Decoder" where
  "RestoreStateForSimulatedFixedAttribs P s =
     gl P (glBindBuffer GL_ARRAY_BUFFER (service_id_of (bound_array_buffer_' s) s)) s"

section \<open>The handlers\<close>

definition draw_modes :: "GLenum list" where
  "draw_modes = [GL_POINTS, GL_LINE_STRIP, GL_LINE_LOOP, GL_LINES, GL_TRIANGLE_STRIP,
     GL_TRIANGLE_FAN, GL_TRIANGLES]"

definition valid_index_types :: "GLenum list" where
  "valid_index_types = [GL_UNSIGNED_BYTE, GL_UNSIGNED_SHORT]"

definition CheckFramebufferComplete :: "'g GlApi \<Rightarrow> string \<Rightarrow> 'g Decoder \<Rightarrow> bool \<times> 'g Decoder" where
  "CheckFramebufferComplete P func s =
     (if api_framebuffer_incomplete P (driver s) then
        (False, set_gl_error GL_INVALID_FRAMEBUFFER_OPERATION (func @ '' framebuffer incomplete'') s)
      else (True, s))"

definition on_driver :: "('g \<Rightarrow> 'g) \<Rightarrow> 'g Decoder \<Rightarrow> 'g Decoder" where
  "on_driver f s = s\<lparr>driver := f (driver s)\<rparr>"

text \<open>The common tail of the two handlers: simulate, draw, restore.\<close>

definition issue_draw ::
  "'g GlApi \<Rightarrow> gl_call \<Rightarrow> int list \<Rightarrow> GLuint \<Rightarrow> 'g Decoder \<Rightarrow> (Error \<times> 'g Decoder) option" where
  "issue_draw P draw prog max_vertex_accessed s = do {
     (ok0, simulated_attrib_0, s) \<leftarrow> SimulateAttrib0 P prog max_vertex_accessed s;
     if \<not> ok0 then Some (kNoError, s)
     else do {
       (ok, simulated_fixed_attribs, s) \<leftarrow> SimulateFixedAttribs P prog max_vertex_accessed s;
       let s =
         (if ok then
            let (textures_set, d) = api_set_black_textures P (driver s);
                s = on_driver (api_apply_dirty_state P) (s\<lparr>driver := d\<rparr>);
                s = gl P draw s;
                s = (if textures_set then on_driver (api_restore_textures P) s else s)
            in if simulated_fixed_attribs then RestoreStateForSimulatedFixedAttribs P s else s
          else s);
       let s = (if simulated_attrib_0 then RestoreStateForSimulatedAttrib0 P s else s);
       let (lost, d) = api_was_context_lost P (driver s);
       let s = s\<lparr>driver := d\<rparr>;
       Some (if lost then kLostContext else kNoError, s)
     }
   }"

definition draw_if_valid ::
  "'g GlApi \<Rightarrow> gl_call \<Rightarrow> GLuint \<Rightarrow> 'g Decoder \<Rightarrow> (Error \<times> 'g Decoder) option" where
  "draw_if_valid P draw max_vertex_accessed s =
     (case IsDrawValid max_vertex_accessed s of
        (False, s) \<Rightarrow> Some (kNoError, s)
      | (True, s) \<Rightarrow>
          (case current_program_' s of
             None \<Rightarrow> None
           | Some prog \<Rightarrow> issue_draw P draw prog max_vertex_accessed s))"

definition HandleDrawArrays ::
  "'g GlApi \<Rightarrow> GLenum \<Rightarrow> GLint \<Rightarrow> GLsizei \<Rightarrow> 'g Decoder \<Rightarrow> (Error \<times> 'g Decoder) option" where
  "HandleDrawArrays P mode first count s =
     (if mode \<notin> set draw_modes then
        Some (kNoError, set_gl_error GL_INVALID_ENUM ''glDrawArrays: mode GL_INVALID_ENUM'' s)
      else if sint count < 0 then
        Some (kNoError, set_gl_error GL_INVALID_VALUE ''glDrawArrays: count < 0'' s)
      else case CheckFramebufferComplete P ''glDrawArrays'' s of
        (False, s) \<Rightarrow> Some (kNoError, s)
      | (True, s) \<Rightarrow>
          if sint first < 0 then
            Some (kNoError, set_gl_error GL_INVALID_VALUE ''glDrawArrays: first < 0'' s)
          else if count = 0 then Some (kNoError, s)
          else draw_if_valid P (glDrawArrays mode first count) (first + count - 1) s)"

definition HandleDrawElements ::
  "'g GlApi \<Rightarrow> GLenum \<Rightarrow> GLsizei \<Rightarrow> GLenum \<Rightarrow> GLsizei \<Rightarrow> 'g Decoder \<Rightarrow> (Error \<times> 'g Decoder) option" where
  "HandleDrawElements P mode count type offset s =
     (case GetBufferInfoForTarget GL_ELEMENT_ARRAY_BUFFER s of
        None \<Rightarrow>
          Some (kNoError, set_gl_error GL_INVALID_OPERATION
                            ''glDrawElements: No element array buffer bound'' s)
      | Some a \<Rightarrow>
          if sint count < 0 then
            Some (kNoError, set_gl_error GL_INVALID_VALUE ''glDrawElements: count < 0'' s)
          else if sint offset < 0 then
            Some (kNoError, set_gl_error GL_INVALID_VALUE ''glDrawElements: offset < 0'' s)
          else if mode \<notin> set draw_modes then
            Some (kNoError, set_gl_error GL_INVALID_ENUM ''glDrawElements: mode GL_INVALID_ENUM'' s)
          else if type \<notin> set valid_index_types then
            Some (kNoError, set_gl_error GL_INVALID_ENUM ''glDrawElements: type GL_INVALID_ENUM'' s)
          else case CheckFramebufferComplete P ''glDrawElements'' s of
            (False, s) \<Rightarrow> Some (kNoError, s)
          | (True, s) \<Rightarrow>
              if count = 0 then Some (kNoError, s)
              else do {
                (r, b) \<leftarrow> GetMaxValueForRange offset count type (buffer_at a s);
                let s = s\<lparr>buffer_manager := update_object a b (buffer_manager s)\<rparr>;
                case r of
                  None \<Rightarrow>
                    Some (kNoError, set_gl_error GL_INVALID_OPERATION
                                      ''glDrawElements: range out of bounds for buffer'' s)
                | Some max_vertex_accessed \<Rightarrow>
                    draw_if_valid P (glDrawElements mode count type offset) max_vertex_accessed s
              })"

definition DoGetMaxValueInBufferCHROMIUM ::
  "GLuint \<Rightarrow> GLsizei \<Rightarrow> GLenum \<Rightarrow> GLuint \<Rightarrow> 'g Decoder \<Rightarrow> (GLuint \<times> 'g Decoder) option" where
  "DoGetMaxValueInBufferCHROMIUM buffer_id count type offset s =
     (case Decoder_GetBufferInfo buffer_id s of
        None \<Rightarrow>
          Some (0, set_gl_error GL_INVALID_VALUE ''GetMaxValueInBufferCHROMIUM: unknown buffer'' s)
      | Some a \<Rightarrow> do {
          (r, b) \<leftarrow> GetMaxValueForRange offset count type (buffer_at a s);
          let s = s\<lparr>buffer_manager := update_object a b (buffer_manager s)\<rparr>;
          case r of
            None \<Rightarrow>
              Some (0, set_gl_error GL_INVALID_OPERATION
                         ''GetMaxValueInBufferCHROMIUM: range out of bounds for buffer'' s)
          | Some v \<Rightarrow> Some (v, s)
        })"

section \<open>The invariant of the decoder state\<close>

definition attribs_point_ok :: "'g Decoder \<Rightarrow> bool" where
  "attribs_point_ok s \<longleftrightarrow>
     (\<forall>info \<in> set (vertex_attrib_infos_' (vertex_attrib_manager_' s)).
        attrib_ok info \<and> (\<forall>a. buffer_' info = Some a \<longrightarrow> a < length (objects (buffer_manager s))))"

definition bindings_ok :: "'g Decoder \<Rightarrow> bool" where
  "bindings_ok s \<longleftrightarrow>
     (\<forall>a. bound_array_buffer_' s = Some a \<or> bound_element_array_buffer_' s = Some a \<longrightarrow>
        a < length (objects (buffer_manager s)))"

definition attrib_types_ok :: "'g Decoder \<Rightarrow> bool" where
  "attrib_types_ok s \<longleftrightarrow> (\<forall>t \<in> set (vertex_attrib_types s). 1 \<le> type_size t)"

definition decoder_ok :: "'g Decoder \<Rightarrow> bool" where
  "decoder_ok s \<longleftrightarrow>
     buffers_ok (buffer_manager s) \<and> attribs_wf (vertex_attrib_manager_' s) \<and> attribs_point_ok s
     \<and> bindings_ok s \<and> attrib_types_ok s \<and> bits_ok (error_bits_' s)"

lemma target_buffer:
  assumes "decoder_ok s" "GetBufferInfoForTarget target s = Some a"
  shows "a < length (objects (buffer_manager s))" "\<not> IsDeleted (buffer_at a s)"
    "buffer_ok (buffer_at a s)"
proof -
  show "a < length (objects (buffer_manager s))" and "\<not> IsDeleted (buffer_at a s)"
    using assms by (auto simp: GetBufferInfoForTarget_def decoder_ok_def bindings_ok_def
        split: option.splits if_splits)
  then show "buffer_ok (buffer_at a s)"
    using assms(1) by (simp add: decoder_ok_def buffers_ok_object)
qed

lemma enabled_attrib:
  assumes "decoder_ok s" "i \<in> set (enabled_vertex_attribs_' (vertex_attrib_manager_' s))"
  shows "attrib_ok (attrib_at i s)" "enabled_' (attrib_at i s)"
    "\<And>a. buffer_' (attrib_at i s) = Some a \<Longrightarrow> buffer_ok (buffer_at a s)"
proof -
  have i: "i < length (vertex_attrib_infos_' (vertex_attrib_manager_' s))" "enabled_' (attrib_at i s)"
    using assms by (auto simp: decoder_ok_def attribs_wf_def)
  then show "enabled_' (attrib_at i s)" by simp
  show "attrib_ok (attrib_at i s)"
    using i(1) assms(1) by (simp add: decoder_ok_def attribs_point_ok_def)
  show "buffer_' (attrib_at i s) = Some a \<Longrightarrow> buffer_ok (buffer_at a s)" for a
    using nth_mem [OF i(1)] assms(1)
    by (auto simp: decoder_ok_def attribs_point_ok_def intro!: buffers_ok_object)
qed

section \<open>A draw that reaches GL reads inside the buffers\<close>

text \<open>The bytes attribute \<open>i\<close> fetches for the vertices in \<open>V\<close> lie in its live buffer.\<close>

definition fetches_in_bounds :: "nat \<Rightarrow> nat set \<Rightarrow> 'g Decoder \<Rightarrow> bool" where
  "fetches_in_bounds i V s \<longleftrightarrow>
     (\<exists>a. buffer_' (attrib_at i s) = Some a \<and> \<not> IsDeleted (buffer_at a s)
        \<and> (\<forall>k \<in> V. fetch_end (attrib_at i s) k \<le> unat (size_' (buffer_at a s))))"

text \<open>The same for a stride that may be smaller than a vertex: what lies before the next vertex.\<close>

definition covered_in_bounds :: "nat \<Rightarrow> nat set \<Rightarrow> 'g Decoder \<Rightarrow> bool" where
  "covered_in_bounds i V s \<longleftrightarrow>
     (\<exists>a. buffer_' (attrib_at i s) = Some a \<and> \<not> IsDeleted (buffer_at a s)
        \<and> (\<forall>k \<in> V. covered_end (attrib_at i s) k \<le> unat (size_' (buffer_at a s))))"

lemma covered_fetches:
  "covered_in_bounds i V s \<Longrightarrow> vertex_bytes (attrib_at i s) \<le> unat (real_stride_' (attrib_at i s)) \<Longrightarrow>
    fetches_in_bounds i V s"
  by (simp add: covered_in_bounds_def fetches_in_bounds_def covered_end_whole)

lemma attribs_error_None:
  "attribs_error prog v is s = None \<Longrightarrow> i \<in> set is \<Longrightarrow> attrib_used prog i s \<Longrightarrow> attrib_can_access v i s"
  by (induction "is") (auto split: if_splits)

lemma IsDrawValid_covers:
  assumes "decoder_ok s" "IsDrawValid v s = (True, s')" "current_program_' s = Some prog"
    and "i \<in> set (enabled_vertex_attribs_' (vertex_attrib_manager_' s))" "attrib_used prog i s"
  shows "s' = s" "covered_in_bounds i {..unat v} s"
proof -
  have "attribs_error prog v (enabled_vertex_attribs_' (vertex_attrib_manager_' s)) s = None"
      and "s' = s"
    using assms(2,3) by (auto simp: IsDrawValid_def split: option.splits)
  then show "s' = s" by simp
  have "attrib_can_access v i s"
    using \<open>attribs_error _ _ _ _ = None\<close> assms(4,5) by (rule attribs_error_None)
  then show "covered_in_bounds i {..unat v} s"
    using CanAccess_spec [OF enabled_attrib(1,2) [OF assms(1,4)]
        enabled_attrib(3) [OF assms(1,4)], where i = v]
    unfolding attrib_can_access_def covered_in_bounds_def by auto
qed

lemma draw_if_valid_covers:
  assumes "decoder_ok s" "draw_if_valid P draw v s = Some (r, s')" "issued s' \<noteq> issued s"
    and "i \<in> set (enabled_vertex_attribs_' (vertex_attrib_manager_' s))"
    and "current_program_' s = Some prog" "attrib_used prog i s"
  shows "covered_in_bounds i {..unat v} s"
proof (cases "IsDrawValid v s")
  case (Pair ok s1)
  have "issued s1 = issued s" using Pair
    by (auto simp: IsDrawValid_def set_gl_error_def Service_SetGLError_def split: option.splits)
  then have "ok" using assms(2,3) Pair by (cases ok) (auto simp: draw_if_valid_def)
  then show ?thesis using IsDrawValid_covers(2) [OF assms(1) _ assms(5,4,6)] Pair by simp
qed

lemma set_gl_error_simps [simp]:
  "issued (set_gl_error e m s) = issued s"
  "buffer_manager (set_gl_error e m s) = buffer_manager s"
  "vertex_attrib_manager_' (set_gl_error e m s) = vertex_attrib_manager_' s"
  "bound_array_buffer_' (set_gl_error e m s) = bound_array_buffer_' s"
  "bound_element_array_buffer_' (set_gl_error e m s) = bound_element_array_buffer_' s"
  "vertex_attrib_types (set_gl_error e m s) = vertex_attrib_types s"
  "current_program_' (set_gl_error e m s) = current_program_' s"
  "error_bits_' (set_gl_error e m s) = set_error_bit e (error_bits_' s)"
  "driver (set_gl_error e m s) = driver s"
  by (simp_all add: set_gl_error_def Service_SetGLError_def)

section \<open>A concrete decoder\<close>

text \<open>On the queue driver: an array buffer of 32 bytes holding two vertices, an element buffer with the
  indices 1 and 0, and attribute 0 enabled and used by the program.\<close>

definition sample_api :: "GLenum list GlApi" where
  "sample_api = \<lparr>api_get_error = queue_get_error, api_call = (\<lambda>c d. d),
     api_gen_buffers = (\<lambda>n d. (map (\<lambda>i. word_of_nat (Suc i)) [0 ..< n], d)),
     api_is_egl_gles2 = False, api_framebuffer_incomplete = (\<lambda>d. False),
     api_set_black_textures = (\<lambda>d. (False, d)), api_restore_textures = (\<lambda>d. d),
     api_apply_dirty_state = (\<lambda>d. d), api_was_context_lost = (\<lambda>d. (False, d))\<rparr>"

definition sample_decoder :: "GLenum list Decoder" where
  "sample_decoder = \<lparr>driver = [], error_bits_' = 0, last_error_' = [],
     buffer_manager =
       \<lparr>buffer_infos_' = [(1, 0), (2, 1)], allow_buffers_on_multiple_targets_' = False,
        objects =
          [\<lparr>service_id_' = 7, target_' = GL_ARRAY_BUFFER, size_' = 32, usage_' = GL_STATIC_DRAW,
            shadowed_' = False, shadow_' = None, range_set_' = Map.empty\<rparr>,
           \<lparr>service_id_' = 8, target_' = GL_ELEMENT_ARRAY_BUFFER, size_' = 2, usage_' = GL_STATIC_DRAW,
            shadowed_' = True, shadow_' = Some [1, 0], range_set_' = Map.empty\<rparr>]\<rparr>,
     buffer_ids = \<lparr>used_ids = {1, 2}, free_ids = {}\<rparr>, bind_generates_resource = True,
     vertex_attrib_manager_' =
       \<lparr>max_vertex_attribs_' = 1, num_fixed_attribs_' = 0,
        vertex_attrib_infos_' =
          [\<lparr>index_' = 0, enabled_' = True, attrib_size_' = 4, type_' = GL_FLOAT, offset_' = 0,
            normalized_' = False, gl_stride_' = 0, real_stride_' = 16,
            value_' = [0, 0, 0, 0x3F800000], buffer_' = Some 0, on_enabled_list = Some True\<rparr>],
        enabled_vertex_attribs_' = [0], disabled_vertex_attribs_' = []\<rparr>,
     group_max_vertex_attribs = 1, vertex_attrib_types = [GL_BYTE, GL_FLOAT],
     bound_array_buffer_' = Some 0, bound_element_array_buffer_' = Some 1,
     current_program_' = Some [0], attrib_0_buffer_id_' = 9, attrib_0_value_' = [0, 0, 0, 0x3F800000],
     attrib_0_buffer_matches_value_' = True, attrib_0_size_' = 0, fixed_attrib_buffer_id_' = 10,
     fixed_attrib_buffer_size_' = 0, bufferdata_faster_than_buffersubdata_' = False, issued = []\<rparr>"

lemma sample_decoder_ok: "decoder_ok sample_decoder"
  by (auto simp: decoder_ok_def sample_decoder_def buffers_ok_def buffer_ok_def attribs_wf_def
      attribs_point_ok_def bindings_ok_def attrib_types_ok_def bits_ok_def attrib_ok_def
      fixed_count_def IsDeleted_def GetGLTypeSizeForTexturesAndBuffers_def intro!: gr0I)

lemma sample_attrib_facts:
  "enabled_vertex_attribs_' (vertex_attrib_manager_' sample_decoder) = [0]"
  "current_program_' sample_decoder = Some [0]" "attrib_used [0] 0 sample_decoder"
  "vertex_bytes (attrib_at 0 sample_decoder) = 16" "real_stride_' (attrib_at 0 sample_decoder) = 16"
  by (simp_all add: sample_decoder_def attrib_used_def GetAttribInfoByLocation_def vertex_bytes_def
      GetGLTypeSizeForTexturesAndBuffers_def)

lemma sample_draw_if_valid:
  assumes "v < 2"
    and "size_' (objects m ! 0) = 32" "service_id_' (objects m ! 0) = 7"
  shows "\<exists>r s'. draw_if_valid sample_api draw v (sample_decoder\<lparr>buffer_manager := m\<rparr>) = Some (r, s')
    \<and> issued s' = [draw]"
proof -
  let ?s = "sample_decoder\<lparr>buffer_manager := m\<rparr>"
  have "attrib_can_access v 0 ?s" "attrib_used [0] 0 ?s"
    using assms by (simp_all add: attrib_can_access_def CanAccess_def sample_decoder_def IsDeleted_def
        GetGLTypeSizeForTexturesAndBuffers_def attrib_used_def GetAttribInfoByLocation_def)
  then have "IsDrawValid v ?s = (True, ?s)"
    by (simp add: IsDrawValid_def sample_attrib_facts)
  moreover have "SimulateAttrib0 sample_api [0] v ?s = Some (True, False, ?s)"
    by (simp add: SimulateAttrib0_def sample_api_def sample_decoder_def GetVertexAttribInfo_def
        GetAttribInfoByLocation_def word_less_nat_alt)
  moreover have "SimulateFixedAttribs sample_api [0] v ?s = Some (True, False, ?s)"
    by (simp add: SimulateFixedAttribs_def sample_api_def sample_decoder_def HaveFixedAttribs_def)
  ultimately show ?thesis
    by (simp add: draw_if_valid_def issue_draw_def sample_attrib_facts split_beta Let_def)
      (simp add: sample_api_def sample_decoder_def on_driver_def gl_def)
qed

lemma sample_buffers:
  "size_' (objects (buffer_manager sample_decoder) ! 0) = 32"
  "service_id_' (objects (buffer_manager sample_decoder) ! 0) = 7"
  "sample_decoder\<lparr>buffer_manager := buffer_manager sample_decoder\<rparr> = sample_decoder"
  by (simp_all add: sample_decoder_def)

text \<open>C17: when \<^verbatim>\<open>glDrawArrays\<close> makes any GL call, \<^verbatim>\<open>first\<close> is not negative and \<^verbatim>\<open>count\<close> positive, and every
  enabled attribute that the current program uses has a live buffer that contains, for all vertices
  \<^verbatim>\<open>first .. first + count - 1\<close>, the bytes from the start of the vertex to its end or to the start of the
  next vertex, whichever comes first. So everything that is fetched lies inside the buffer if the stride is
  at least one vertex; the code also accepts smaller strides, for which the end of the last vertices may
  not. Negative arguments and wrapping sums are included.\<close>

theorem draw_arrays_in_bounds:
  assumes "decoder_ok s" "HandleDrawArrays P mode first count s = Some (r, s')"
    and "issued s' \<noteq> issued s" "current_program_' s = Some prog"
    and "i \<in> set (enabled_vertex_attribs_' (vertex_attrib_manager_' s))" "attrib_used prog i s"
  shows "0 \<le> sint first \<and> 0 < sint count
    \<and> covered_in_bounds i {k. unat first \<le> k \<and> k < unat first + unat count} s
    \<and> (vertex_bytes (attrib_at i s) \<le> unat (real_stride_' (attrib_at i s)) \<longrightarrow>
         fetches_in_bounds i {k. unat first \<le> k \<and> k < unat first + unat count} s)"
proof -
  have args: "0 \<le> sint first" "0 \<le> sint count" "count \<noteq> 0"
      and draw: "draw_if_valid P (glDrawArrays mode first count) (first + count - 1) s = Some (r, s')"
    using assms(2,3) by (auto simp: HandleDrawArrays_def CheckFramebufferComplete_def split: if_splits)
  have fc: "unat first < 2147483648" "unat count < 2147483648" "0 < unat count"
    using args sint_nonneg_unat(2) by (simp_all add: unat_gt_0)
  then have "unat (first + count) = unat first + unat count" by (subst unat_add_exact) simp_all
  moreover have "first + count \<noteq> 0" using fc calculation by (metis add_is_0 unat_0 less_numeral_extra(3))
  ultimately have "unat (first + count - 1) = unat first + unat count - 1"
    by (simp add: unat_minus_one)
  then have "covered_in_bounds i {..unat first + unat count - 1} s"
    using draw_if_valid_covers [OF assms(1) draw assms(3,5,4,6)] by simp
  then have c: "covered_in_bounds i {k. unat first \<le> k \<and> k < unat first + unat count} s"
    unfolding covered_in_bounds_def by fastforce
  moreover have "0 < sint count" using args by (metis order_le_less signed_eq_0_iff)
  ultimately show ?thesis using args(1) covered_fetches [OF c] by blast
qed

text \<open>Filling the cache of one buffer changes nothing a draw call looks at.\<close>

definition same_but_cache :: "BufferInfo \<Rightarrow> BufferInfo \<Rightarrow> bool" where
  "same_but_cache b b' \<longleftrightarrow> b'\<lparr>range_set_' := range_set_' b\<rparr> = b"

lemma same_but_cacheD:
  assumes "same_but_cache b b'"
  shows "service_id_' b' = service_id_' b" "size_' b' = size_' b" "IsDeleted b' = IsDeleted b"
    "shadow_' b' = shadow_' b" "shadowed_' b' = shadowed_' b"
proof -
  have "b = b'\<lparr>range_set_' := range_set_' b\<rparr>" using assms by (simp add: same_but_cache_def)
  then show "service_id_' b' = service_id_' b" "size_' b' = size_' b"
      "shadow_' b' = shadow_' b" "shadowed_' b' = shadowed_' b"
    by (metis BufferInfo.select_convs BufferInfo.surjective BufferInfo.update_convs(7))+
  then show "IsDeleted b' = IsDeleted b" by (simp add: IsDeleted_def)
qed

definition cache_update :: "nat \<Rightarrow> BufferInfo \<Rightarrow> 'g Decoder \<Rightarrow> 'g Decoder" where
  "cache_update a b s = s\<lparr>buffer_manager := update_object a b (buffer_manager s)\<rparr>"

lemma cache_update_ok:
  "decoder_ok s \<Longrightarrow> buffer_ok b \<Longrightarrow> decoder_ok (cache_update a b s)"
  by (simp add: decoder_ok_def cache_update_def update_object_ok attribs_point_ok_def bindings_ok_def
      attrib_types_ok_def)

lemma cache_update_covers:
  assumes "a < length (objects (buffer_manager s))" "same_but_cache (buffer_at a s) b"
  shows "covered_in_bounds i V (cache_update a b s) \<longleftrightarrow> covered_in_bounds i V s"
proof -
  have "IsDeleted (buffer_at k (cache_update a b s)) = IsDeleted (buffer_at k s)"
    "size_' (buffer_at k (cache_update a b s)) = size_' (buffer_at k s)" for k
    using assms(1) same_but_cacheD [OF assms(2)]
    by (simp_all add: cache_update_def nth_list_update)
  then show ?thesis by (simp add: covered_in_bounds_def) (simp add: cache_update_def)
qed

lemma draw_elements_path:
  assumes "decoder_ok s" "HandleDrawElements P mode count type offset s = Some (r, s')"
    and "issued s' \<noteq> issued s"
  obtains e v b where "GetBufferInfoForTarget GL_ELEMENT_ARRAY_BUFFER s = Some e"
    "type \<in> index_types" "0 < sint count" "0 \<le> sint offset"
    "range_valid offset count type (buffer_at e s)"
    "unat v = range_max offset count type (buffer_at e s)"
    "buffer_ok b" "same_but_cache (buffer_at e s) b"
    "draw_if_valid P (glDrawElements mode count type offset) v (cache_update e b s) = Some (r, s')"
proof -
  obtain e where e: "GetBufferInfoForTarget GL_ELEMENT_ARRAY_BUFFER s = Some e"
    using assms(2,3) by (auto simp: HandleDrawElements_def split: option.splits)
  note b = target_buffer [OF assms(1) e]
  obtain w b' where g: "GetMaxValueForRange offset count type (buffer_at e s) = Some (w, b')"
      "buffer_ok b'" "same_but_cache (buffer_at e s) b'"
      "if range_valid offset count type (buffer_at e s)
       then \<exists>v. w = Some v \<and> unat v = range_max offset count type (buffer_at e s) else w = None"
    using GetMaxValueForRange_spec [OF b(3,2), of offset count type] unfolding same_but_cache_def
    by blast
  have args: "0 \<le> sint count" "count \<noteq> 0" "0 \<le> sint offset" "type \<in> set valid_index_types"
    using assms(2,3) e by (auto simp: HandleDrawElements_def CheckFramebufferComplete_def
        split: if_splits)
  have path: "(case w of
        None \<Rightarrow> Some (kNoError, set_gl_error GL_INVALID_OPERATION
                  ''glDrawElements: range out of bounds for buffer'' (cache_update e b' s))
      | Some v \<Rightarrow> draw_if_valid P (glDrawElements mode count type offset) v (cache_update e b' s))
    = Some (r, s')"
    using assms(2,3) e args g(1)
    unfolding cache_update_def
    by (auto simp: HandleDrawElements_def CheckFramebufferComplete_def Let_def split: if_splits)
  show ?thesis
  proof (cases w)
    case None
    then show ?thesis using path assms(3) by (auto simp: cache_update_def)
  next
    case (Some v)
    then have "range_valid offset count type (buffer_at e s)"
        "unat v = range_max offset count type (buffer_at e s)"
      using g(4) by (auto split: if_splits)
    moreover have "0 < sint count" using args(1,2) by (metis order_le_less signed_eq_0_iff)
    moreover have "type \<in> index_types"
      using args(4) by (auto simp: valid_index_types_def index_types_def)
    ultimately show ?thesis using that [OF e] args(3) g(2,3) path Some by simp
  qed
qed

lemma index_below_max:
  assumes "j < unat count" "type \<in> index_types" "shadow_' b = Some sh"
  shows "elem_value (type_size type) sh (unat offset + j * type_size type)
    \<le> range_max offset count type b"
  using assms by (auto simp: range_max_def max_index_def intro!: Max_ge)

theorem draw_arrays_in_bounds_witness:
  "\<exists>r s'. HandleDrawArrays sample_api GL_TRIANGLES 0 2 sample_decoder = Some (r, s')
     \<and> fetches_in_bounds 0 {0, 1} sample_decoder"
proof -
  obtain r s' where d: "draw_if_valid sample_api (glDrawArrays GL_TRIANGLES 0 2) 1 sample_decoder
      = Some (r, s')" "issued s' = [glDrawArrays GL_TRIANGLES 0 2]"
    using sample_draw_if_valid [of 1 "buffer_manager sample_decoder"] sample_buffers
    by (simp add: word_less_nat_alt) blast
  then have h: "HandleDrawArrays sample_api GL_TRIANGLES 0 2 sample_decoder = Some (r, s')"
    by (simp add: HandleDrawArrays_def draw_modes_def CheckFramebufferComplete_def sample_api_def)
  have "issued s' \<noteq> issued sample_decoder" using d(2) by (simp add: sample_decoder_def)
  then have "fetches_in_bounds 0 {k. unat (0 :: GLint) \<le> k \<and> k < unat (0 :: GLint) + unat (2 :: GLsizei)}
      sample_decoder"
    using draw_arrays_in_bounds [OF sample_decoder_ok h, of "[0]" 0] sample_attrib_facts by simp
  moreover have "{0, 1} \<subseteq> {k. unat (0 :: GLint) \<le> k \<and> k < unat (0 :: GLint) + unat (2 :: GLsizei)}"
    by simp
  ultimately show ?thesis using h unfolding fetches_in_bounds_def by blast
qed

text \<open>C1: when \<^verbatim>\<open>glDrawElements\<close> makes any GL call, the whole index range lies in the shadow copy of the
  live element array buffer, and every enabled attribute that the current program uses has a live buffer
  that contains, for every index in the range, the bytes from the start of the vertex to its end or to the
  start of the next vertex, whichever comes first. So everything that is fetched lies inside the buffer if
  the stride is at least one vertex; the code also accepts smaller strides, for which the end of the last
  vertices may not.\<close>

theorem draw_elements_in_bounds:
  assumes "decoder_ok s" "HandleDrawElements P mode count type offset s = Some (r, s')"
    and "issued s' \<noteq> issued s" "current_program_' s = Some prog"
    and "i \<in> set (enabled_vertex_attribs_' (vertex_attrib_manager_' s))" "attrib_used prog i s"
  shows "\<exists>e sh. bound_element_array_buffer_' s = Some e \<and> \<not> IsDeleted (buffer_at e s)
    \<and> shadow_' (buffer_at e s) = Some sh
    \<and> unat offset + unat count * type_size type \<le> length sh
    \<and> covered_in_bounds i
        {elem_value (type_size type) sh (unat offset + j * type_size type) | j. j < unat count} s
    \<and> (vertex_bytes (attrib_at i s) \<le> unat (real_stride_' (attrib_at i s)) \<longrightarrow>
         fetches_in_bounds i
           {elem_value (type_size type) sh (unat offset + j * type_size type) | j. j < unat count} s)"
proof -
  obtain e v b where e: "GetBufferInfoForTarget GL_ELEMENT_ARRAY_BUFFER s = Some e"
      and ty: "type \<in> index_types" and rv: "range_valid offset count type (buffer_at e s)"
      and v: "unat v = range_max offset count type (buffer_at e s)"
      and b: "buffer_ok b" "same_but_cache (buffer_at e s) b"
      and draw: "draw_if_valid P (glDrawElements mode count type offset) v (cache_update e b s)
        = Some (r, s')"
    using assms(1-3) by (rule draw_elements_path)
  note eb = target_buffer [OF assms(1) e]
  let ?sh = "shadow_contents (buffer_at e s)" and ?s = "cache_update e b s"
  have sh: "shadow_' (buffer_at e s) = Some ?sh" "length ?sh = unat (size_' (buffer_at e s))"
    using buffer_shadow [OF eb(3,2)] rv by (simp_all add: range_valid_def)
  have "covered_in_bounds i {..unat v} ?s"
  proof (rule draw_if_valid_covers [OF cache_update_ok [OF assms(1) b(1)] draw])
    show "issued s' \<noteq> issued ?s" "current_program_' ?s = Some prog"
      "i \<in> set (enabled_vertex_attribs_' (vertex_attrib_manager_' ?s))"
      "attrib_used prog i ?s"
      using assms(3-6) by (simp_all add: cache_update_def attrib_used_def)
  qed
  then have f: "covered_in_bounds i {..unat v} s"
    using cache_update_covers [OF eb(1) b(2)] by simp
  have "elem_value (type_size type) ?sh (unat offset + j * type_size type) \<le> unat v"
    if "j < unat count" for j
    using index_below_max [OF that ty sh(1)] v by simp
  then have c: "covered_in_bounds i
      {elem_value (type_size type) ?sh (unat offset + j * type_size type) | j. j < unat count} s"
    using f unfolding covered_in_bounds_def by blast
  moreover have "bound_element_array_buffer_' s = Some e"
    using e by (auto simp: GetBufferInfoForTarget_def split: option.splits if_splits)
  ultimately show ?thesis using sh eb(2) rv covered_fetches [OF c] by (auto simp: range_valid_def)
qed

theorem draw_elements_in_bounds_witness:
  "\<exists>r s'. HandleDrawElements sample_api GL_POINTS 2 GL_UNSIGNED_BYTE 0 sample_decoder = Some (r, s')
     \<and> fetches_in_bounds 0 {1} sample_decoder"
proof -
  let ?b = "buffer_at 1 sample_decoder" and ?draw = "glDrawElements GL_POINTS 2 GL_UNSIGNED_BYTE 0"
  let ?b' = "?b\<lparr>range_set_' := [(0, 2, GL_UNSIGNED_BYTE) \<mapsto> 1]\<rparr>"
  let ?m = "update_object 1 ?b' (buffer_manager sample_decoder)"
  have e: "GetBufferInfoForTarget GL_ELEMENT_ARRAY_BUFFER sample_decoder = Some 1"
    by (simp add: GetBufferInfoForTarget_def sample_decoder_def IsDeleted_def)
  have "max_loop 1 [1, 0] 0 (Suc 1) 0 = Some 1"
    by (simp add: read_elem_def word_less_nat_alt)
  then have m: "max_loop (Suc 0) [1, 0] 0 2 0 = Some 1" unfolding Suc_1 by simp
  have g: "GetMaxValueForRange 0 2 GL_UNSIGNED_BYTE ?b = Some (Some 1, ?b')"
    by (simp add: m GetMaxValueForRange_def GetMaxValue_def sample_decoder_def SafeMultiplyUint32_def
        SafeAddUint32_def safe_exact32 GetGLTypeSizeForTexturesAndBuffers_def)
  obtain r s' where d: "draw_if_valid sample_api ?draw 1 (sample_decoder\<lparr>buffer_manager := ?m\<rparr>)
      = Some (r, s')" "issued s' = [?draw]"
    using sample_draw_if_valid [of 1 ?m] sample_buffers by (simp add: word_less_nat_alt) blast
  then have h: "HandleDrawElements sample_api GL_POINTS 2 GL_UNSIGNED_BYTE 0 sample_decoder = Some (r, s')"
    using e g by (simp add: HandleDrawElements_def draw_modes_def CheckFramebufferComplete_def
        valid_index_types_def sample_api_def)
  have "issued s' \<noteq> issued sample_decoder" using d(2) by (simp add: sample_decoder_def)
  then obtain sh where sh: "shadow_' ?b = Some sh" "fetches_in_bounds 0
      {elem_value 1 sh (unat (0 :: GLsizei) + j * 1) | j. j < unat (2 :: GLsizei)} sample_decoder"
    using draw_elements_in_bounds [OF sample_decoder_ok h, of "[0]" 0] sample_attrib_facts
    by (auto simp: type_size_index sample_decoder_def)
  have "sh = [1, 0]" using sh(1) by (simp add: sample_decoder_def)
  then have "elem_value 1 sh 0 = 1" by (simp add: elem_value_def)
  then show ?thesis using h sh(2) unfolding fetches_in_bounds_def by fastforce
qed

section \<open>The fixed-point simulation reads too far\<close>

text \<open>One enabled attribute with one fixed-point component over a shadowed buffer of four bytes.\<close>

definition fixed_decoder :: "GLenum list Decoder" where
  "fixed_decoder = sample_decoder\<lparr>
     buffer_manager :=
       \<lparr>buffer_infos_' = [(1, 0)], allow_buffers_on_multiple_targets_' = True,
        objects =
          [\<lparr>service_id_' = 7, target_' = GL_ARRAY_BUFFER, size_' = 4, usage_' = GL_STATIC_DRAW,
            shadowed_' = True, shadow_' = Some [0, 0, 1, 0], range_set_' = Map.empty\<rparr>]\<rparr>,
     vertex_attrib_manager_' :=
       \<lparr>max_vertex_attribs_' = 1, num_fixed_attribs_' = 1,
        vertex_attrib_infos_' =
          [\<lparr>index_' = 0, enabled_' = True, attrib_size_' = 1, type_' = GL_FIXED, offset_' = 0,
            normalized_' = False, gl_stride_' = 0, real_stride_' = 4,
            value_' = [0, 0, 0, 0x3F800000], buffer_' = Some 0, on_enabled_list = Some True\<rparr>],
        enabled_vertex_attribs_' = [0], disabled_vertex_attribs_' = []\<rparr>,
     vertex_attrib_types := [GL_FLOAT, GL_FIXED], bound_element_array_buffer_' := None\<rparr>"

lemma fixed_decoder_ok: "decoder_ok fixed_decoder"
  by (auto simp: decoder_ok_def fixed_decoder_def sample_decoder_def buffers_ok_def buffer_ok_def
      attribs_wf_def attribs_point_ok_def bindings_ok_def attrib_types_ok_def bits_ok_def attrib_ok_def
      fixed_count_def IsDeleted_def GetGLTypeSizeForTexturesAndBuffers_def intro!: gr0I)

lemma fixed_decoder_facts:
  "current_program_' fixed_decoder = Some [0]"
  "enabled_vertex_attribs_' (vertex_attrib_manager_' fixed_decoder) = [0]"
  "attrib_used [0] 0 fixed_decoder" "attrib_can_access 0 0 fixed_decoder"
  "uses_fixed [0] 0 fixed_decoder 0" "attrib_size_' (attrib_at 0 fixed_decoder) = 1"
  "HaveFixedAttribs (vertex_attrib_manager_' fixed_decoder)"
  "IsDrawValid 0 fixed_decoder = (True, fixed_decoder)"
  by (simp_all add: fixed_decoder_def sample_decoder_def attrib_used_def GetAttribInfoByLocation_def
      attrib_can_access_def CanAccess_def IsDeleted_def GetGLTypeSizeForTexturesAndBuffers_def
      uses_fixed_def HaveFixedAttribs_def IsDrawValid_def)

lemma fixed_decoder_read:
  "GetRange 0 4 (buffer_at 0 fixed_decoder) = InShadow 0"
  "convert_fixed (shadow_contents (buffer_at 0 fixed_decoder)) 0 4 = None"
proof -
  show "GetRange 0 4 (buffer_at 0 fixed_decoder) = InShadow 0"
    by (simp add: GetRange_def range_outside_def fixed_decoder_def)
  have "convert_fixed [0, 0, 1, 0] 0 (Suc (Suc 2)) = None"
    by (simp only: convert_fixed.simps) (simp add: read_elem_def)
  then show "convert_fixed (shadow_contents (buffer_at 0 fixed_decoder)) 0 4 = None"
    by (simp add: fixed_decoder_def shadow_contents_def)
qed

lemma fixed_copy_fails:
  assumes "buffer_manager s = buffer_manager fixed_decoder"
    "vertex_attrib_manager_' s = vertex_attrib_manager_' fixed_decoder"
  shows "copy_fixed_attribs P [0] 0 1 [0] 0 s = None"
proof -
  have "uses_fixed [0] 0 s 0"
    using fixed_decoder_facts(5) assms by (simp add: uses_fixed_def attrib_used_def attrib_can_access_def)
  moreover have "buffer_' (attrib_at 0 fixed_decoder) = Some 0" "offset_' (attrib_at 0 fixed_decoder) = 0"
    by (simp_all add: fixed_decoder_def)
  then have "copy_fixed_attrib P 1 0 0 s = None"
    using fixed_decoder_read fixed_decoder_facts(6) assms by (simp add: copy_fixed_attrib_def)
  ultimately show ?thesis by simp
qed

lemma fixed_decoder_simulate: "SimulateFixedAttribs sample_api [0] 0 fixed_decoder = None"
proof -
  have "CopyRealGLErrorsToWrapper queue_get_error fixed_decoder = Some fixed_decoder"
    by (subst CopyRealGLErrorsToWrapper.simps)
      (simp add: queue_get_error_def fixed_decoder_def sample_decoder_def)
  moreover have "fixed_elements [0] 0 1 [0] fixed_decoder 0 = Some 1"
    by (simp add: fixed_decoder_facts safe_exact32)
  moreover have "driver fixed_decoder = []" "fixed_attrib_buffer_size_' fixed_decoder = 0"
    by (simp_all add: fixed_decoder_def sample_decoder_def)
  ultimately show ?thesis
    by (simp add: SimulateFixedAttribs_def fixed_decoder_facts safe_exact32 gl_def
        grow_array_buffer_def
        sample_api_def queue_get_error_def fixed_copy_fails word_less_nat_alt Let_def
        del: copy_fixed_attribs.simps)
qed

text \<open>C38: the loop of \<^verbatim>\<open>SimulateFixedAttribs\<close> takes a byte count for an element count. In a consistent
  state in which drawing one vertex is valid and that vertex lies inside the buffer, it reads past
  the end of the shadow copy, so \<^verbatim>\<open>glDrawArrays\<close> has no defined result.\<close>

theorem fixed_attribs_overread:
  "decoder_ok fixed_decoder \<and> IsDrawValid 0 fixed_decoder = (True, fixed_decoder)
   \<and> fetches_in_bounds 0 {0} fixed_decoder
   \<and> GetRange 0 4 (buffer_at 0 fixed_decoder) = InShadow 0
   \<and> convert_fixed (shadow_contents (buffer_at 0 fixed_decoder)) 0 4 = None
   \<and> HandleDrawArrays sample_api GL_POINTS 0 1 fixed_decoder = None"
proof -
  have "SimulateAttrib0 sample_api [0] 0 fixed_decoder = Some (True, False, fixed_decoder)"
    by (simp add: SimulateAttrib0_def sample_api_def fixed_decoder_def GetVertexAttribInfo_def
        GetAttribInfoByLocation_def word_less_nat_alt)
  then have "draw_if_valid sample_api draw 0 fixed_decoder = None" for draw
    by (simp add: draw_if_valid_def issue_draw_def fixed_decoder_facts fixed_decoder_simulate)
  then have "HandleDrawArrays sample_api GL_POINTS 0 1 fixed_decoder = None"
    by (simp add: HandleDrawArrays_def draw_modes_def CheckFramebufferComplete_def sample_api_def)
  moreover have "fetches_in_bounds 0 {0} fixed_decoder"
    by (simp add: fetches_in_bounds_def fixed_decoder_def fetch_end_def vertex_bytes_def IsDeleted_def
        GetGLTypeSizeForTexturesAndBuffers_def)
  ultimately show ?thesis
    using fixed_decoder_ok fixed_decoder_facts(8) fixed_decoder_read by blast
qed

end
