(* ===== verification/Decoder_Invariant.thy ===== *)
theory Decoder_Invariant
  imports Draw_Calls
begin

text \<open>
  The buffer, attribute and draw commands of the decoder keep its state consistent, return, and never
  touch memory outside a shadow copy. The contract of the GL layer is the locale \<open>gl_api\<close>: errors are
  reported as in \<open>Gl_Errors\<close>, and every entry point keeps the driver in a state that does so.
\<close>

section \<open>The core of the state\<close>

text \<open>GL calls and errors leave buffers, attributes and bindings alone.\<close>

definition same_core :: "'g Decoder \<Rightarrow> 'g Decoder \<Rightarrow> bool" where
  "same_core s s' \<longleftrightarrow>
     buffer_manager s' = buffer_manager s \<and> vertex_attrib_manager_' s' = vertex_attrib_manager_' s
     \<and> bound_array_buffer_' s' = bound_array_buffer_' s
     \<and> bound_element_array_buffer_' s' = bound_element_array_buffer_' s
     \<and> vertex_attrib_types s' = vertex_attrib_types s \<and> current_program_' s' = current_program_' s"

lemma same_core_refl [simp, intro]: "same_core s s"
  by (simp add: same_core_def)

lemma same_core_trans [trans]: "same_core s t \<Longrightarrow> same_core t u \<Longrightarrow> same_core s u"
  by (simp add: same_core_def)

lemma same_core_ok: "same_core s s' \<Longrightarrow> decoder_ok s \<Longrightarrow> bits_ok (error_bits_' s') \<Longrightarrow> decoder_ok s'"
  by (simp add: same_core_def decoder_ok_def attribs_point_ok_def bindings_ok_def attrib_types_ok_def)

lemma gl_simps [simp]:
  "buffer_manager (gl P c s) = buffer_manager s" "issued (gl P c s) = issued s @ [c]"
  "vertex_attrib_manager_' (gl P c s) = vertex_attrib_manager_' s"
  "bound_array_buffer_' (gl P c s) = bound_array_buffer_' s"
  "bound_element_array_buffer_' (gl P c s) = bound_element_array_buffer_' s"
  "vertex_attrib_types (gl P c s) = vertex_attrib_types s"
  "current_program_' (gl P c s) = current_program_' s" "error_bits_' (gl P c s) = error_bits_' s"
  "driver (gl P c s) = api_call P c (driver s)"
  by (simp_all add: gl_def)

text \<open>Replacing the buffer manager by one that keeps the addresses, or the attribute manager by a
  consistent one.\<close>

lemma decoder_ok_manager:
  "decoder_ok s \<Longrightarrow> buffers_ok m \<Longrightarrow> length (objects (buffer_manager s)) \<le> length (objects m) \<Longrightarrow>
    decoder_ok (s\<lparr>buffer_manager := m\<rparr>)"
  by (fastforce simp: decoder_ok_def attribs_point_ok_def bindings_ok_def attrib_types_ok_def)

lemma decoder_ok_manager_ids:
  "decoder_ok s \<Longrightarrow> decoder_ok (s\<lparr>buffer_ids := ids\<rparr>)"
  by (simp add: decoder_ok_def attribs_point_ok_def bindings_ok_def attrib_types_ok_def)

lemma attrib_ok_simps [simp]:
  "attrib_ok (info\<lparr>enabled_' := en\<rparr>) = attrib_ok info"
  "attrib_ok (info\<lparr>on_enabled_list := l\<rparr>) = attrib_ok info"
  "attrib_ok (info\<lparr>value_' := v\<rparr>) = attrib_ok info"
  by (simp_all add: attrib_ok_def)

lemma SetList_infos:
  "vertex_attrib_infos_' (SetList en i m) = (vertex_attrib_infos_' m)[i :=
     (vertex_attrib_infos_' m ! i)\<lparr>on_enabled_list := Some en\<rparr>]"
  by (simp add: SetList_def update_attrib_def join_list_def leave_list_def split: option.splits bool.splits)

definition attribs_kept :: "VertexAttribManager \<Rightarrow> VertexAttribManager \<Rightarrow> bool" where
  "attribs_kept m m' \<longleftrightarrow>
     (\<forall>info \<in> set (vertex_attrib_infos_' m'). \<exists>old \<in> set (vertex_attrib_infos_' m).
        (attrib_ok old \<longrightarrow> attrib_ok info) \<and> buffer_' info = buffer_' old)"

lemma attribs_kept_update:
  assumes "k < length (vertex_attrib_infos_' m)"
    and "vertex_attrib_infos_' m' = (vertex_attrib_infos_' m)[k := info]"
    and "attrib_ok (vertex_attrib_infos_' m ! k) \<longrightarrow> attrib_ok info"
    and "buffer_' info = buffer_' (vertex_attrib_infos_' m ! k)"
  shows "attribs_kept m m'"
  unfolding attribs_kept_def assms(2)
  using assms(1,3,4) by (auto dest!: set_update_subset_insert [THEN subsetD] intro: nth_mem bexI)

lemma Enable_kept:
  assumes "attribs_wf m"
  shows "attribs_kept m (snd (Enable i en m))"
proof (cases "i \<ge> max_vertex_attribs_' m \<or> enabled_' (vertex_attrib_infos_' m ! unat i) = en")
  case True
  then have "snd (Enable i en m) = m" by (auto simp: Enable_def)
  then show ?thesis by (auto simp: attribs_kept_def)
next
  case False
  then have "unat i < length (vertex_attrib_infos_' m)"
    using assms by (simp add: attribs_wf_def word_less_nat_alt not_le)
  then show ?thesis
    using False by (intro attribs_kept_update [where k = "unat i" and info =
        "(vertex_attrib_infos_' m ! unat i)\<lparr>enabled_' := en, on_enabled_list := Some en\<rparr>"])
      (auto simp: Enable_def SetList_infos update_attrib_def)
qed

lemma set_value_kept:
  "attribs_wf m \<Longrightarrow> GetVertexAttribInfo i m = Some k \<Longrightarrow> attribs_kept m (set_value k v m)"
  by (intro attribs_kept_update [where k = k and info = "(vertex_attrib_infos_' m ! k)\<lparr>value_' := v\<rparr>"])
    (auto simp: attribs_wf_def GetVertexAttribInfo_def set_value_def update_attrib_def word_less_nat_alt
      split: if_splits)

lemma decoder_ok_attribs:
  assumes "decoder_ok s" "attribs_wf m" "attribs_kept (vertex_attrib_manager_' s) m"
  shows "decoder_ok (s\<lparr>vertex_attrib_manager_' := m\<rparr>)"
proof -
  have "attribs_point_ok (s\<lparr>vertex_attrib_manager_' := m\<rparr>)"
    using assms(1,3) unfolding decoder_ok_def attribs_point_ok_def attribs_kept_def
    by simp (metis (no_types, lifting))
  then show ?thesis
    using assms(1,2) by (simp add: decoder_ok_def bindings_ok_def attrib_types_ok_def)
qed

section \<open>The contract of GL\<close>

locale gl_api =
  fixes P :: "'g GlApi" and pending_errors :: "'g \<Rightarrow> GLenum list" and ok :: "'g \<Rightarrow> bool"
  assumes errors: "gl_error_source (api_get_error P) pending_errors ok"
    and call_ok: "ok d \<Longrightarrow> ok (api_call P c d)"
    and gen_ok: "ok d \<Longrightarrow> ok (snd (api_gen_buffers P n d))"
    and textures_ok: "ok d \<Longrightarrow> ok (snd (api_set_black_textures P d))"
      "ok d \<Longrightarrow> ok (api_restore_textures P d)" "ok d \<Longrightarrow> ok (api_apply_dirty_state P d)"
    and lost_ok: "ok d \<Longrightarrow> ok (snd (api_was_context_lost P d))"

sublocale gl_api \<subseteq> source: gl_error_source "api_get_error P" pending_errors ok
  by (rule errors)

context gl_api
begin

definition api_inv :: "'g Decoder \<Rightarrow> bool" where
  "api_inv s \<longleftrightarrow> decoder_ok s \<and> ok (driver s)"

definition quiet_step :: "'g Decoder \<Rightarrow> 'g Decoder \<Rightarrow> bool" where
  "quiet_step s s' \<longleftrightarrow>
     same_core s s' \<and> (bits_ok (error_bits_' s) \<longrightarrow> bits_ok (error_bits_' s'))
     \<and> (ok (driver s) \<longrightarrow> ok (driver s'))"

lemma quiet_refl [simp, intro]: "quiet_step s s"
  by (simp add: quiet_step_def)

lemma quiet_trans [trans]: "quiet_step s t \<Longrightarrow> quiet_step t u \<Longrightarrow> quiet_step s u"
  unfolding quiet_step_def using same_core_trans by blast

lemma quiet_inv: "quiet_step s s' \<Longrightarrow> api_inv s \<Longrightarrow> api_inv s'"
  unfolding api_inv_def quiet_step_def using same_core_ok by (auto simp: decoder_ok_def)

lemma quiet_gl [simp, intro]: "quiet_step s (gl P c s)"
  by (simp add: quiet_step_def same_core_def call_ok)

lemma quiet_error [simp, intro]: "quiet_step s (set_gl_error e msg s)"
  by (simp add: quiet_step_def same_core_def bits_ok_set)

lemma quiet_copy:
  assumes "ok (driver s)"
  obtains s' where "CopyRealGLErrorsToWrapper (api_get_error P) s = Some s'" "quiet_step s s'"
    "issued s' = issued s"
proof -
  obtain d where d: "CopyRealGLErrorsToWrapper (api_get_error P) s = Some (s\<lparr>driver := d,
      error_bits_' := fold set_error_bit (pending_errors (driver s)) (error_bits_' s)\<rparr>)" "ok d"
    using source.copy_errors [OF assms] by blast
  have "bits_ok b \<Longrightarrow> bits_ok (fold set_error_bit es b)" for es b
    by (induction es arbitrary: b) (simp_all add: bits_ok_set)
  then show ?thesis using d by (intro that [OF d(1)]) (simp_all add: quiet_step_def same_core_def)
qed

lemma quiet_peek: "quiet_step s (snd (PeekGLError (api_get_error P) s))"
  by (auto simp: PeekGLError_def quiet_step_def same_core_def Service_SetGLError_def split_beta Let_def
      bits_ok_set source.report_ok)

end

section \<open>Creating, deleting and binding\<close>

lemma CreateBufferInfo_length:
  "length (objects m) \<le> length (objects (CreateBufferInfo cid sid m))"
  by (simp add: CreateBufferInfo_def)

lemma RemoveBufferInfo_length: "length (objects (RemoveBufferInfo cid m)) = length (objects m)"
  by (simp add: RemoveBufferInfo_def split: option.split)

lemma create_ok: "decoder_ok s \<Longrightarrow> decoder_ok (Decoder_CreateBufferInfo cid sid s)"
  unfolding Decoder_CreateBufferInfo_def
  by (intro decoder_ok_manager CreateBufferInfo_ok CreateBufferInfo_length) (simp_all add: decoder_ok_def)

lemma remove_ok: "decoder_ok s \<Longrightarrow> decoder_ok (s\<lparr>buffer_manager := RemoveBufferInfo cid (buffer_manager s)\<rparr>)"
  by (intro decoder_ok_manager RemoveBufferInfo_ok) (simp_all add: decoder_ok_def RemoveBufferInfo_length)

lemma create_driver [simp]: "driver (Decoder_CreateBufferInfo cid sid s) = driver s"
  by (simp add: Decoder_CreateBufferInfo_def)

lemma decoder_ok_driver: "decoder_ok (s\<lparr>driver := d\<rparr>) = decoder_ok s"
  by (simp add: decoder_ok_def attribs_point_ok_def bindings_ok_def attrib_types_ok_def)

lemma lookup_less:
  "decoder_ok s \<Longrightarrow> Decoder_GetBufferInfo cid s = Some a \<Longrightarrow>
    a < length (objects (buffer_manager s)) \<and> \<not> IsDeleted (buffer_at a s)"
  using GetBufferInfo_less [of "buffer_manager s" cid]
  by (auto simp: Decoder_GetBufferInfo_def decoder_ok_def split: option.splits if_splits)

context gl_api
begin

lemma inv_create: "api_inv s \<Longrightarrow> api_inv (Decoder_CreateBufferInfo cid sid s)"
  by (simp add: api_inv_def create_ok)

lemma inv_gen: "api_inv s \<Longrightarrow> api_inv (snd (GenBuffersHelper P ids s))"
proof -
  assume inv: "api_inv s"
  have "api_inv (fold (\<lambda>(cid, sid). Decoder_CreateBufferInfo cid sid) xs t)" if "api_inv t" for xs t
    using that by (induction xs arbitrary: t) (auto simp: inv_create)
  moreover have "api_inv (s\<lparr>driver := snd (api_gen_buffers P n (driver s))\<rparr>)" for n
    using inv by (simp add: api_inv_def decoder_ok_driver gen_ok)
  ultimately show ?thesis using inv by (simp add: GenBuffersHelper_def split_beta)
qed

lemma inv_delete: "api_inv s \<Longrightarrow> api_inv (DeleteBuffersHelper P ids s)"
proof (induction ids arbitrary: s)
  case (Cons i ids)
  show ?case
  proof (cases "Decoder_GetBufferInfo i s")
    case (Some a)
    let ?t = "gl P (glDeleteBuffers (service_id_' (buffer_at a s))) s"
    have "api_inv ?t" using quiet_inv [OF quiet_gl Cons.prems] .
    then have "api_inv (?t\<lparr>buffer_manager := RemoveBufferInfo i (buffer_manager ?t)\<rparr>)"
      by (simp add: api_inv_def remove_ok del: gl_simps(1))
    then show ?thesis using Cons.IH Some by (simp add: Let_def)
  qed (use Cons in simp)
qed simp

lemma inv_lookup:
  assumes "api_inv s"
  shows "api_inv (snd (bind_lookup P cid s))"
    "fst (bind_lookup P cid s) = Some (Some a) \<Longrightarrow>
      a < length (objects (buffer_manager (snd (bind_lookup P cid s))))"
proof -
  let ?c = "Decoder_CreateBufferInfo cid (hd (fst (api_gen_buffers P 1 (driver s))))
      (s\<lparr>driver := snd (api_gen_buffers P 1 (driver s))\<rparr>)"
  have c: "api_inv ?c"
    using assms by (intro inv_create) (simp add: api_inv_def decoder_ok_driver gen_ok)
  then show "api_inv (snd (bind_lookup P cid s))"
    using assms quiet_inv [OF quiet_error assms] decoder_ok_manager_ids
    by (auto simp: bind_lookup_def split_beta Let_def api_inv_def split: option.splits)
  show "a < length (objects (buffer_manager (snd (bind_lookup P cid s))))"
    if "fst (bind_lookup P cid s) = Some (Some a)"
    using that assms c lookup_less [of s cid a] lookup_less [of ?c cid a]
    by (auto simp: bind_lookup_def split_beta Let_def api_inv_def split: option.splits if_splits)
qed

lemma inv_bind_target:
  assumes "api_inv s" "\<And>a. info = Some a \<Longrightarrow> a < length (objects (buffer_manager s))"
  shows "api_inv (bind_target P target info s)"
proof -
  have "decoder_ok (if target = GL_ARRAY_BUFFER then s\<lparr>bound_array_buffer_' := info\<rparr>
        else if target = GL_ELEMENT_ARRAY_BUFFER then s\<lparr>bound_element_array_buffer_' := info\<rparr> else s)"
    using assms by (auto simp: api_inv_def decoder_ok_def attribs_point_ok_def bindings_ok_def
        attrib_types_ok_def)
  then show ?thesis
    unfolding bind_target_def using assms(1)
    by (intro quiet_inv [OF quiet_gl]) (simp add: api_inv_def)
qed

lemma inv_bind: "api_inv s \<Longrightarrow> api_inv (DoBindBuffer P target cid s)"
proof -
  assume inv: "api_inv s"
  obtain r t where l: "bind_lookup P cid s = (r, t)" by fastforce
  have t: "api_inv t" using inv_lookup(1) [OF inv, of cid] l by simp
  consider "r = None" | "r = Some None" | a where "r = Some (Some a)" by (metis not_None_eq)
  then show ?thesis
  proof cases
    case (3 a)
    then have a: "a < length (objects (buffer_manager t))" using inv_lookup(2) [OF inv, of cid a] l by simp
    let ?m = "snd (SetTarget a target (buffer_manager t))"
    have len: "length (objects ?m) = length (objects (buffer_manager t))"
      by (simp add: SetTarget_def Let_def)
    have "api_inv (t\<lparr>buffer_manager := ?m\<rparr>)"
      using t a len decoder_ok_manager [of t ?m] SetTarget_ok [of "buffer_manager t" a target]
      by (simp add: api_inv_def decoder_ok_def)
    then have "api_inv (bind_target P target (Some a) (t\<lparr>buffer_manager := ?m\<rparr>))"
      using a len by (intro inv_bind_target) simp_all
    then show ?thesis
      using 3 l quiet_inv [OF quiet_error t] by (simp add: DoBindBuffer_def split_beta Let_def)
  qed (use l t inv_bind_target [OF t, of None] in \<open>simp_all add: DoBindBuffer_def\<close>)
qed

end

section \<open>Data\<close>

text \<open>A data pointer must cover the bytes the command names: the handlers check this with
  \<^verbatim>\<open>GetSharedMemoryAs\<close> or \<^verbatim>\<open>GetImmediateDataAs\<close> before they call the functions here.\<close>

definition covers :: "GLsizeiptr \<Rightarrow> byte list option \<Rightarrow> bool" where
  "covers sz data \<longleftrightarrow> (\<forall>d. data = Some d \<longrightarrow> unat sz \<le> length d)"

context gl_api
begin

lemma inv_update:
  "api_inv s \<Longrightarrow> buffer_ok b \<Longrightarrow> api_inv (s\<lparr>buffer_manager := update_object a b (buffer_manager s)\<rparr>)"
  unfolding api_inv_def
  by (intro conjI decoder_ok_manager update_object_ok) (simp_all add: decoder_ok_def)

lemma inv_set_range:
  assumes "api_inv s" "a < length (objects (buffer_manager s))" "\<not> IsDeleted (buffer_at a s)"
    "unat sz \<le> length data"
  shows "\<exists>done s'. set_range_at a offset sz data s = Some (done, s') \<and> api_inv s'"
proof -
  have "buffer_ok (buffer_at a s)"
    using assms(1,2) by (simp add: api_inv_def decoder_ok_def buffers_ok_object)
  then obtain b where "SetRange offset sz data (buffer_at a s) = Some (0 \<le> sint offset \<and> 0 \<le> sint sz
      \<and> unat offset + unat sz \<le> unat (size_' (buffer_at a s)), b)" "buffer_ok b"
    using SetRange_ok [OF _ assms(3,4)] by blast
  then show ?thesis using inv_update [OF assms(1)] by (simp add: set_range_at_def)
qed

lemma inv_upload:
  assumes "api_inv s" "a < length (objects (buffer_manager s))" "\<not> IsDeleted (buffer_at a s)"
    "unat sz \<le> length data" "0 \<le> sint sz"
  shows "\<exists>s'. upload_data P a target sz data usage s = Some s' \<and> api_inv s'"
proof (cases "\<not> bufferdata_faster_than_buffersubdata_' s
      \<and> sz = size_' (buffer_at a s) \<and> usage = usage_' (buffer_at a s)")
  case True
  obtain dn s' where "set_range_at a 0 sz data (gl P (glBufferSubData target 0 sz data) s) = Some (dn, s')"
      "api_inv s'"
    using inv_set_range [OF quiet_inv [OF quiet_gl [where c = "glBufferSubData target 0 sz data"] assms(1)],
        where a = a and sz = sz and data = data and offset = 0] assms by auto
  then show ?thesis using True by (simp add: upload_data_def)
next
  case False
  obtain t where t: "CopyRealGLErrorsToWrapper (api_get_error P) s = Some t" "quiet_step s t"
    using assms(1) quiet_copy [of s] by (auto simp: api_inv_def)
  let ?u = "gl P (glBufferData target sz (Some data) usage) t"
  let ?e = "fst (PeekGLError (api_get_error P) ?u)" and ?v = "snd (PeekGLError (api_get_error P) ?u)"
  have su: "quiet_step s ?v"
    using t(2) quiet_gl quiet_peek quiet_trans by blast
  then have v: "api_inv ?v" "buffer_manager ?v = buffer_manager s"
    using quiet_inv [OF su assms(1)] by (simp_all add: quiet_step_def same_core_def)
  obtain b where b: "BufferManager_SetInfo a sz usage (buffer_manager s)
      = Some (update_object a b (buffer_manager s))" "buffer_ok b"
      "service_id_' b = service_id_' (buffer_at a s)"
    using BufferManager_SetInfo_ok [OF _ assms(2,3,5)] assms(1) by (auto simp: api_inv_def decoder_ok_def)
  let ?w = "?v\<lparr>buffer_manager := update_object a b (buffer_manager ?v)\<rparr>"
  have "api_inv ?w" using inv_update [OF v(1) b(2)] .
  moreover have "a < length (objects (buffer_manager ?w))" "\<not> IsDeleted (buffer_at a ?w)"
    using assms(2,3) b(3) v(2) by (simp_all add: IsDeleted_def)
  ultimately obtain dn w' where "set_range_at a 0 sz data ?w = Some (dn, w')" "api_inv w'"
    using inv_set_range [of ?w a sz data 0] assms(4) by blast
  then show ?thesis
    unfolding upload_data_def if_not_P [OF False]
    using t(1) b(1) v by (simp add: Let_def split_beta)
qed

lemma inv_buffer_data:
  assumes "api_inv s" "covers sz data"
  shows "\<exists>s'. DoBufferData P target sz data usage s = Some s' \<and> api_inv s'"
proof (cases "target \<in> {GL_ARRAY_BUFFER, GL_ELEMENT_ARRAY_BUFFER}
    \<and> usage \<in> {GL_STREAM_DRAW, GL_STATIC_DRAW, GL_DYNAMIC_DRAW} \<and> 0 \<le> sint sz
    \<and> GetBufferInfoForTarget target s \<noteq> None")
  case True
  then obtain a where a: "GetBufferInfoForTarget target s = Some a" by blast
  let ?d = "case data of None \<Rightarrow> replicate (unat sz) 0 | Some d \<Rightarrow> d"
  have "unat sz \<le> length ?d" using assms(2) by (simp add: covers_def split: option.split)
  moreover have "decoder_ok s" using assms(1) by (simp add: api_inv_def)
  ultimately have "\<exists>s'. upload_data P a target sz ?d usage s = Some s' \<and> api_inv s'"
    using target_buffer [OF _ a] True by (intro inv_upload assms(1)) auto
  then show ?thesis using True a by (auto simp: DoBufferData_def)
next
  case False
  then show ?thesis using quiet_inv [OF quiet_error assms(1)] by (auto simp: DoBufferData_def)
qed

lemma inv_buffer_sub_data:
  assumes "api_inv s" "covers sz (Some data)"
  shows "\<exists>s'. DoBufferSubData P target offset sz data s = Some s' \<and> api_inv s'"
proof (cases "GetBufferInfoForTarget target s")
  case None
  then show ?thesis using quiet_inv [OF quiet_error assms(1)] by (simp add: DoBufferSubData_def)
next
  case (Some a)
  have "decoder_ok s" using assms(1) by (simp add: api_inv_def)
  then obtain dn t where t: "set_range_at a offset sz data s = Some (dn, t)" "api_inv t"
    using inv_set_range [OF assms(1), of a sz data offset] target_buffer [OF _ Some] assms(2)
    by (auto simp: covers_def)
  then show ?thesis
    using Some quiet_inv [OF quiet_error t(2)] quiet_inv [OF quiet_gl t(2)]
    by (simp add: DoBufferSubData_def)
qed

end

section \<open>Attributes\<close>

context gl_api
begin

lemma inv_attribs:
  "api_inv s \<Longrightarrow> attribs_wf m \<Longrightarrow> attribs_kept (vertex_attrib_manager_' s) m \<Longrightarrow>
    api_inv (s\<lparr>vertex_attrib_manager_' := m\<rparr>)"
  by (simp add: api_inv_def decoder_ok_attribs)

lemma inv_enable:
  assumes "api_inv s"
  shows "api_inv (s\<lparr>vertex_attrib_manager_' := snd (Enable i en (vertex_attrib_manager_' s))\<rparr>)"
proof -
  have "attribs_wf (vertex_attrib_manager_' s)" using assms by (simp add: api_inv_def decoder_ok_def)
  then show ?thesis by (intro inv_attribs assms Enable_wf Enable_kept)
qed

lemma inv_enable_array: "api_inv s \<Longrightarrow> api_inv (DoEnableVertexAttribArray P i s)"
  using quiet_inv [OF quiet_gl inv_enable] quiet_inv [OF quiet_error inv_enable]
  by (simp add: DoEnableVertexAttribArray_def split_beta Let_def)

lemma inv_disable_array: "api_inv s \<Longrightarrow> api_inv (DoDisableVertexAttribArray P i s)"
  using quiet_inv [OF quiet_gl inv_enable] quiet_inv [OF quiet_error inv_enable] inv_enable
  by (simp add: DoDisableVertexAttribArray_def split_beta Let_def)

lemma inv_vertex_attrib:
  assumes "api_inv s"
  shows "api_inv (DoVertexAttrib P func i v s)"
proof (cases "GetVertexAttribInfo i (vertex_attrib_manager_' s)")
  case None
  then show ?thesis using quiet_inv [OF quiet_error assms] by (simp add: DoVertexAttrib_def)
next
  case (Some k)
  have wf: "attribs_wf (vertex_attrib_manager_' s)" using assms by (simp add: api_inv_def decoder_ok_def)
  have "k < unat (max_vertex_attribs_' (vertex_attrib_manager_' s))"
    using Some by (auto simp: GetVertexAttribInfo_def word_less_nat_alt split: if_splits)
  then show ?thesis
    unfolding DoVertexAttrib_def Some option.case
    by (intro quiet_inv [OF quiet_gl] inv_attribs assms set_value_wf set_value_kept [OF wf Some] wf)
qed

text \<open>The checks of \<^verbatim>\<open>glVertexAttribPointer\<close> establish \<^const>\<open>attrib_ok\<close>.\<close>

lemma pointer_attrib_ok:
  assumes "attrib_types_ok s" "attrib_pointer_error indx sz type stride offset s = None"
  shows "attrib_ok (Attrib_SetInfo b sz type norm stride
    (if stride \<noteq> 0 then stride else GetGLTypeSizeForTexturesAndBuffers type * sz) offset info)"
proof -
  have t: "1 \<le> type_size type" "type_size type \<le> 4"
    using assms type_size_le by (auto simp: attrib_pointer_error_def attrib_types_ok_def Let_def
        split: if_splits)
  have sz: "1 \<le> unat sz" "unat sz \<le> 4" and st: "0 \<le> sint stride" and off: "0 \<le> sint offset"
    using assms(2) by (auto simp: attrib_pointer_error_def Let_def split: if_splits)
  have "type_size type * unat sz \<le> 4 * 4" using t(2) sz(2) by (rule mult_le_mono)
  then have p: "unat (GetGLTypeSizeForTexturesAndBuffers type * sz) = type_size type * unat sz"
    by (subst unat_mult_exact) simp_all
  then have "sint (GetGLTypeSizeForTexturesAndBuffers type * sz) = int (type_size type * unat sz)"
    using \<open>type_size type * unat sz \<le> 4 * 4\<close> by (subst sint_small) simp_all
  moreover have "0 < type_size type * unat sz" using t(1) sz(1) by simp
  ultimately have "0 < sint (GetGLTypeSizeForTexturesAndBuffers type * sz)" by linarith
  moreover have "stride \<noteq> 0 \<Longrightarrow> 0 < sint stride" using st by (metis order_le_less signed_eq_0_iff)
  ultimately show ?thesis using t(1) sz off by (simp add: attrib_ok_def Attrib_SetInfo_def)
qed

lemma inv_attrib_pointer:
  assumes "api_inv s"
  shows "api_inv (HandleVertexAttribPointer P indx sz type norm stride offset s)"
proof (cases "GetBufferInfoForTarget GL_ARRAY_BUFFER s = None
    \<or> attrib_pointer_error indx sz type stride offset s \<noteq> None")
  case True
  then show ?thesis
    using quiet_inv [OF quiet_error assms] by (auto simp: HandleVertexAttribPointer_def)
next
  case False
  let ?rs = "if stride \<noteq> 0 then stride else GetGLTypeSizeForTexturesAndBuffers type * sz"
  let ?m = "SetAttribInfo indx (bound_array_buffer_' s) sz type norm stride ?rs offset
      (vertex_attrib_manager_' s)"
  have ok: "decoder_ok s" using assms by (simp add: api_inv_def)
  have none: "attrib_pointer_error indx sz type stride offset s = None"
    using False by blast
  have some: "GetBufferInfoForTarget GL_ARRAY_BUFFER s \<noteq> None"
    using False by (rule contrapos_nn) simp
  have new: "attrib_ok (Attrib_SetInfo b sz type norm stride ?rs offset info)" for b info
    using none ok by (intro pointer_attrib_ok [of s indx]) (simp_all add: decoder_ok_def)
  have bound: "a < length (objects (buffer_manager s))" if "bound_array_buffer_' s = Some a" for a
    using that ok by (simp add: decoder_ok_def bindings_ok_def)
  have "attribs_point_ok (s\<lparr>vertex_attrib_manager_' := ?m\<rparr>)"
    using ok new bound
    by (auto simp: decoder_ok_def attribs_point_ok_def SetAttribInfo_def GetVertexAttribInfo_def
        update_attrib_def Let_def Attrib_SetInfo_def dest!: set_update_subset_insert [THEN subsetD])
  then have inv: "api_inv (s\<lparr>vertex_attrib_manager_' := ?m\<rparr>)"
    using assms by (simp add: api_inv_def decoder_ok_def SetAttribInfo_wf bindings_ok_def
        attrib_types_ok_def)
  have "HandleVertexAttribPointer P indx sz type norm stride offset s =
    (if type \<noteq> GL_FIXED
     then gl P (glVertexAttribPointer indx sz type norm stride offset) (s\<lparr>vertex_attrib_manager_' := ?m\<rparr>)
     else s\<lparr>vertex_attrib_manager_' := ?m\<rparr>)"
    unfolding HandleVertexAttribPointer_def if_not_P [OF some] none option.case Let_def ..
  then show ?thesis
    using inv quiet_inv [OF quiet_gl inv] by (cases "type = GL_FIXED") (simp_all only: if_True if_False simp_thms)
qed

lemma inv_features:
  assumes "api_inv s"
  shows "api_inv (allow_multiple_targets s)" "api_inv (support_fixed_attribs s)"
proof -
  have "buffers_ok (buffer_manager s)" using assms by (simp add: api_inv_def decoder_ok_def)
  then have m: "buffers_ok (set_allow_buffers_on_multiple_targets True (buffer_manager s))"
      "objects (set_allow_buffers_on_multiple_targets True (buffer_manager s)) = objects (buffer_manager s)"
    by (simp_all add: buffers_ok_def set_allow_buffers_on_multiple_targets_def)
  then show inv: "api_inv (allow_multiple_targets s)"
    using assms by (simp add: api_inv_def allow_multiple_targets_def decoder_ok_manager)
  have "type_size GL_FIXED = 4" by (simp add: GetGLTypeSizeForTexturesAndBuffers_def)
  then show "api_inv (support_fixed_attribs s)"
    using inv by (auto simp: api_inv_def support_fixed_attribs_def decoder_ok_def attribs_point_ok_def
        bindings_ok_def attrib_types_ok_def allow_multiple_targets_def)
qed

end

section \<open>Drawing\<close>

context gl_api
begin

lemma quiet_on_driver:
  "(\<And>d. ok d \<Longrightarrow> ok (f d)) \<Longrightarrow> quiet_step s (on_driver f s)"
  by (simp add: quiet_step_def same_core_def on_driver_def)

lemma quiet_driver: "(ok (driver s) \<Longrightarrow> ok d) \<Longrightarrow> quiet_step s (s\<lparr>driver := d\<rparr>)"
  by (simp add: quiet_step_def same_core_def)

lemma quiet_fields:
  "quiet_step s (s\<lparr>attrib_0_buffer_matches_value_' := m\<rparr>)"
  "quiet_step s (s\<lparr>attrib_0_buffer_matches_value_' := m, attrib_0_value_' := v, attrib_0_size_' := z\<rparr>)"
  by (simp_all add: quiet_step_def same_core_def)

lemma quiet_grow: "quiet_step s (snd (grow_array_buffer P n cur msg s))"
proof -
  let ?t = "gl P (glBufferData GL_ARRAY_BUFFER n None GL_DYNAMIC_DRAW) s"
  let ?u = "?t\<lparr>driver := snd (api_get_error P (driver ?t))\<rparr>"
  have "quiet_step s ?u"
    by (rule quiet_trans [OF quiet_gl quiet_driver]) (rule source.report_ok)
  then have "quiet_step s ?u" "quiet_step s (set_gl_error e msg ?u)" for e
    by (blast intro: quiet_trans)+
  then show ?thesis by (simp add: grow_array_buffer_def split_beta Let_def del: gl_simps)
qed

lemma quiet_fill: "quiet_step s (fill_attrib_0 P v n z s)"
  unfolding fill_attrib_0_def by (rule quiet_trans [OF quiet_gl quiet_fields(2)])

lemma quiet_restore0: "quiet_step s (RestoreStateForSimulatedAttrib0 P s)"
  unfolding RestoreStateForSimulatedAttrib0_def Let_def
  by (rule quiet_trans [OF quiet_trans [OF quiet_gl quiet_gl] quiet_gl])

lemma quiet_restore_fixed: "quiet_step s (RestoreStateForSimulatedFixedAttribs P s)"
  by (simp add: RestoreStateForSimulatedFixedAttribs_def)

text \<open>The rules that follow the construction of a state.\<close>

lemma quiet_intros:
  assumes "quiet_step s t"
  shows "quiet_step s (gl P c t)" "quiet_step s (set_gl_error e msg t)"
    "quiet_step s (snd (grow_array_buffer P n cur msg t))"
    "quiet_step s (fill_attrib_0 P v k z t)"
    "quiet_step s (t\<lparr>attrib_0_buffer_matches_value_' := m\<rparr>)"
  using assms quiet_gl quiet_error quiet_grow quiet_fill quiet_fields(1) by (blast intro: quiet_trans)+

lemma quiet_attrib0:
  assumes "ok (driver s)" "SimulateAttrib0 P prog v s = Some (done, sim, s')"
  shows "quiet_step s s'"
proof -
  obtain t where t: "CopyRealGLErrorsToWrapper (api_get_error P) s = Some t" "quiet_step s t"
    using quiet_copy [OF assms(1)] .
  show ?thesis
    using assms(2) t(2)
    by (auto simp: SimulateAttrib0_def t(1) Let_def split_beta simp del: gl_simps
        split: if_splits intro!: quiet_intros)
qed

lemma attrib0_returns:
  assumes "ok (driver s)" "GetVertexAttribInfo 0 (vertex_attrib_manager_' s) \<noteq> None"
  shows "SimulateAttrib0 P prog v s \<noteq> None"
proof -
  obtain t where t: "CopyRealGLErrorsToWrapper (api_get_error P) s = Some t" "quiet_step s t"
    using quiet_copy [OF assms(1)] .
  show ?thesis
    using assms(2) by (auto simp: SimulateAttrib0_def t(1) Let_def split_beta split: if_splits)
qed

lemma quiet_copy_fixed:
  "copy_fixed_attribs P prog v n is offset t = Some s' \<Longrightarrow> quiet_step s t \<Longrightarrow> quiet_step s s'"
proof (induction "is" arbitrary: offset t)
  case (Cons i "is")
  have "copy_fixed_attrib P n i offset t = Some u \<Longrightarrow> quiet_step s u" for u
    using Cons.prems(2) by (auto simp: copy_fixed_attrib_def Let_def bind_eq_Some_conv simp del: gl_simps
        split: option.splits range_ptr.splits if_splits intro!: quiet_intros)
  then show ?case using Cons by (auto simp: bind_eq_Some_conv split: if_splits)
qed simp

lemma quiet_fixed:
  assumes "ok (driver s)" "SimulateFixedAttribs P prog v s = Some (done, sim, s')"
  shows "quiet_step s s'"
proof -
  obtain t where t: "CopyRealGLErrorsToWrapper (api_get_error P) s = Some t" "quiet_step s t"
    using quiet_copy [OF assms(1)] .
  show ?thesis
    using assms(2) t(2)
    by (auto simp: SimulateFixedAttribs_def t(1) Let_def split_beta bind_eq_Some_conv simp del: gl_simps
        split: if_splits option.splits intro!: quiet_intros elim!: quiet_copy_fixed)
qed

end

section \<open>The draw handlers\<close>

context gl_api
begin

lemma quiet_more:
  assumes "quiet_step s t"
  shows "(\<And>d. ok d \<Longrightarrow> ok (f d)) \<Longrightarrow> quiet_step s (on_driver f t)"
    "(ok (driver t) \<Longrightarrow> ok d) \<Longrightarrow> quiet_step s (t\<lparr>driver := d\<rparr>)"
    "quiet_step s (RestoreStateForSimulatedAttrib0 P t)"
    "quiet_step s (RestoreStateForSimulatedFixedAttribs P t)"
  using quiet_trans [OF assms] quiet_on_driver quiet_driver quiet_restore0 quiet_restore_fixed
  by blast+

lemma quiet_issue_draw:
  assumes "ok (driver s)" "issue_draw P draw prog v s = Some (r, s')"
  shows "quiet_step s s'"
proof -
  obtain ok0 sim0 t where t: "SimulateAttrib0 P prog v s = Some (ok0, sim0, t)"
    using assms(2) by (auto simp: issue_draw_def bind_eq_Some_conv)
  have qt: "quiet_step s t" using quiet_attrib0 [OF assms(1) t] .
  show ?thesis
  proof (cases ok0)
    case False
    then show ?thesis using assms(2) qt t by (simp add: issue_draw_def)
  next
    case True
    then obtain ok1 sim u where u: "SimulateFixedAttribs P prog v t = Some (ok1, sim, u)"
      using assms(2) t by (auto simp: issue_draw_def bind_eq_Some_conv)
    have "ok (driver t)" using qt assms(1) by (simp add: quiet_step_def)
    then have "quiet_step s u" using quiet_trans [OF qt quiet_fixed [OF _ u]] by simp
    moreover have "ok (driver x)" if "quiet_step s x" for x
      using that assms(1) by (simp add: quiet_step_def)
    ultimately show ?thesis
      using assms(2) t u True
      by (auto simp: issue_draw_def Let_def split_beta simp del: gl_simps split: if_splits
          intro!: quiet_intros quiet_more textures_ok lost_ok)
  qed
qed

lemma inv_draw_if_valid:
  assumes "api_inv s" "draw_if_valid P draw v s = Some (r, s')"
  shows "api_inv s'"
proof (cases "IsDrawValid v s")
  case (Pair valid t)
  have t: "quiet_step s t" using Pair quiet_error [of s]
    by (auto simp: IsDrawValid_def split: option.splits)
  have "quiet_step s s'"
  proof (cases valid)
    case True
    have "ok (driver t)" using t assms(1) by (simp add: quiet_step_def api_inv_def)
    then show ?thesis
      using assms(2) Pair True quiet_trans [OF t quiet_issue_draw]
      by (auto simp: draw_if_valid_def split: option.splits)
  qed (use assms(2) Pair t in \<open>simp add: draw_if_valid_def\<close>)
  then show ?thesis using quiet_inv assms(1) by blast
qed

lemma draw_if_valid_returns:
  assumes "api_inv s" "max_vertex_attribs_' (vertex_attrib_manager_' s) \<noteq> 0"
    "\<not> HaveFixedAttribs (vertex_attrib_manager_' s)"
  shows "draw_if_valid P draw v s \<noteq> None"
proof (cases "IsDrawValid v s")
  case (Pair valid t)
  show ?thesis
  proof (cases valid)
    case True
    then have t: "t = s" and "current_program_' s \<noteq> None"
      using Pair by (auto simp: IsDrawValid_def split: option.splits)
    then obtain prog where prog: "current_program_' s = Some prog" by blast
    have "GetVertexAttribInfo 0 (vertex_attrib_manager_' s) \<noteq> None"
      using assms(2) by (simp add: GetVertexAttribInfo_def word_neq_0_conv)
    then obtain ok0 sim0 u where u: "SimulateAttrib0 P prog v s = Some (ok0, sim0, u)"
      using attrib0_returns [of s prog v] assms(1) by (auto simp: api_inv_def)
    have "quiet_step s u" using quiet_attrib0 [OF _ u] assms(1) by (simp add: api_inv_def)
    then have "SimulateFixedAttribs P prog v u = Some (True, False, u)"
      using assms(3) by (simp add: SimulateFixedAttribs_def quiet_step_def same_core_def)
    then show ?thesis
      using Pair True t prog u by (simp add: draw_if_valid_def issue_draw_def split_beta Let_def)
  qed (simp add: draw_if_valid_def Pair)
qed

end

section \<open>Command sequences\<close>

datatype decoder_cmd =
    GenBuffers "GLuint list"
  | DeleteBuffers "GLuint list"
  | BindBuffer GLenum GLuint
  | BufferData GLenum GLsizeiptr "byte list option" GLenum
  | BufferSubData GLenum GLintptr GLsizeiptr "byte list"
  | EnableVertexAttribArray GLuint
  | DisableVertexAttribArray GLuint
  | VertexAttrib string GLuint "GLfloat list"
  | VertexAttribPointer GLuint GLint GLenum bool GLsizei GLsizei
  | AllowMultipleTargets
  | SupportFixedAttribs
  | GetMaxValueInBuffer GLuint GLsizei GLenum GLuint
  | DrawArrays GLenum GLint GLsizei
  | DrawElements GLenum GLsizei GLenum GLsizei

fun run_cmd :: "'g GlApi \<Rightarrow> decoder_cmd \<Rightarrow> 'g Decoder \<Rightarrow> 'g Decoder option" where
  "run_cmd P (GenBuffers ids) s = Some (snd (GenBuffersHelper P ids s))"
| "run_cmd P (DeleteBuffers ids) s = Some (DeleteBuffersHelper P ids s)"
| "run_cmd P (BindBuffer target cid) s = Some (DoBindBuffer P target cid s)"
| "run_cmd P (BufferData target sz data usage) s = DoBufferData P target sz data usage s"
| "run_cmd P (BufferSubData target offset sz data) s = DoBufferSubData P target offset sz data s"
| "run_cmd P (EnableVertexAttribArray i) s = Some (DoEnableVertexAttribArray P i s)"
| "run_cmd P (DisableVertexAttribArray i) s = Some (DoDisableVertexAttribArray P i s)"
| "run_cmd P (VertexAttrib func i v) s = Some (DoVertexAttrib P func i v s)"
| "run_cmd P (VertexAttribPointer i sz type norm stride offset) s =
     Some (HandleVertexAttribPointer P i sz type norm stride offset s)"
| "run_cmd P AllowMultipleTargets s = Some (allow_multiple_targets s)"
| "run_cmd P SupportFixedAttribs s = Some (support_fixed_attribs s)"
| "run_cmd P (GetMaxValueInBuffer cid count type offset) s =
     map_option snd (DoGetMaxValueInBufferCHROMIUM cid count type offset s)"
| "run_cmd P (DrawArrays mode first count) s = map_option snd (HandleDrawArrays P mode first count s)"
| "run_cmd P (DrawElements mode count type offset) s =
     map_option snd (HandleDrawElements P mode count type offset s)"

text \<open>What the callers guarantee: data pointers cover their size. Draw calls are considered without
  \<^verbatim>\<open>GL_FIXED\<close> attributes and with at least one attribute.\<close>

fun cmd_ok :: "decoder_cmd \<Rightarrow> 'g Decoder \<Rightarrow> bool" where
  "cmd_ok (BufferData target sz data usage) s = covers sz data"
| "cmd_ok (BufferSubData target offset sz data) s = covers sz (Some data)"
| "cmd_ok (DrawArrays mode first count) s =
     (max_vertex_attribs_' (vertex_attrib_manager_' s) \<noteq> 0
      \<and> \<not> HaveFixedAttribs (vertex_attrib_manager_' s))"
| "cmd_ok (DrawElements mode count type offset) s =
     (max_vertex_attribs_' (vertex_attrib_manager_' s) \<noteq> 0
      \<and> \<not> HaveFixedAttribs (vertex_attrib_manager_' s))"
| "cmd_ok c s = True"

context gl_api
begin

lemma inv_max_value:
  assumes "api_inv s" "a < length (objects (buffer_manager s))" "\<not> IsDeleted (buffer_at a s)"
  obtains r b where "GetMaxValueForRange offset count type (buffer_at a s) = Some (r, b)"
    "api_inv (s\<lparr>buffer_manager := update_object a b (buffer_manager s)\<rparr>)"
proof -
  have "buffer_ok (buffer_at a s)"
    using assms(1,2) by (simp add: api_inv_def decoder_ok_def buffers_ok_object)
  then show ?thesis
    using GetMaxValueForRange_spec [OF _ assms(3), of offset count type] inv_update [OF assms(1)] that
    by blast
qed

lemma inv_get_max_value:
  assumes "api_inv s"
  shows "\<exists>s'. map_option snd (DoGetMaxValueInBufferCHROMIUM cid count type offset s) = Some s'
    \<and> api_inv s'"
proof (cases "Decoder_GetBufferInfo cid s")
  case None
  then show ?thesis
    using quiet_inv [OF quiet_error assms] by (simp add: DoGetMaxValueInBufferCHROMIUM_def)
next
  case (Some a)
  have "a < length (objects (buffer_manager s)) \<and> \<not> IsDeleted (buffer_at a s)"
    using lookup_less [OF _ Some] assms by (simp add: api_inv_def)
  then obtain r b where "GetMaxValueForRange offset count type (buffer_at a s) = Some (r, b)"
      "api_inv (s\<lparr>buffer_manager := update_object a b (buffer_manager s)\<rparr>)" (is "api_inv ?t")
    using inv_max_value [OF assms] by blast
  then show ?thesis
    using Some quiet_inv [OF quiet_error, of ?t]
    by (cases r) (simp_all add: DoGetMaxValueInBufferCHROMIUM_def Let_def)
qed

lemma inv_draw_arrays:
  assumes "api_inv s" "HandleDrawArrays P mode first count s = Some (r, s')"
  shows "api_inv s'"
  using assms(2) quiet_inv [OF quiet_error assms(1)] assms(1) inv_draw_if_valid [OF assms(1)]
  by (auto simp: HandleDrawArrays_def CheckFramebufferComplete_def split: if_splits)

lemma draw_arrays_returns:
  assumes "api_inv s" "cmd_ok (DrawArrays mode first count) s"
  shows "HandleDrawArrays P mode first count s \<noteq> None"
  using draw_if_valid_returns [OF assms(1)] assms(2)
  by (auto simp: HandleDrawArrays_def CheckFramebufferComplete_def)

text \<open>Either \<^verbatim>\<open>glDrawElements\<close> stops with the state as it was, an error apart, or the cache of the
  element buffer is filled and it stops with an error or draws.\<close>

lemma draw_elements_shape:
  assumes "api_inv s"
  shows "(\<exists>t. quiet_step s t \<and> HandleDrawElements P mode count type offset s = Some (kNoError, t))
    \<or> (\<exists>u. api_inv u \<and> vertex_attrib_manager_' u = vertex_attrib_manager_' s
         \<and> ((\<exists>t. quiet_step u t \<and> HandleDrawElements P mode count type offset s = Some (kNoError, t))
            \<or> (\<exists>v. HandleDrawElements P mode count type offset s
                 = draw_if_valid P (glDrawElements mode count type offset) v u)))"
proof (cases "GetBufferInfoForTarget GL_ELEMENT_ARRAY_BUFFER s")
  case None
  then show ?thesis using quiet_error by (auto simp: HandleDrawElements_def)
next
  case (Some a)
  have "decoder_ok s" using assms by (simp add: api_inv_def)
  note a = target_buffer [OF this Some]
  obtain r b where g: "GetMaxValueForRange offset count type (buffer_at a s) = Some (r, b)"
      and u: "api_inv (s\<lparr>buffer_manager := update_object a b (buffer_manager s)\<rparr>)" (is "api_inv ?u")
    using inv_max_value [OF assms a(1,2)] .
  let ?checks = "0 \<le> sint count \<and> 0 \<le> sint offset \<and> mode \<in> set draw_modes
      \<and> type \<in> set valid_index_types \<and> \<not> api_framebuffer_incomplete P (driver s) \<and> count \<noteq> 0"
  show ?thesis
  proof (cases ?checks)
    case False
    then have "\<exists>t. quiet_step s t \<and> HandleDrawElements P mode count type offset s = Some (kNoError, t)"
      using Some by (auto simp: HandleDrawElements_def CheckFramebufferComplete_def)
    then show ?thesis ..
  next
    case True
    then have eq: "HandleDrawElements P mode count type offset s = (case r of
        None \<Rightarrow> Some (kNoError, set_gl_error GL_INVALID_OPERATION
                  ''glDrawElements: range out of bounds for buffer'' ?u)
      | Some v \<Rightarrow> draw_if_valid P (glDrawElements mode count type offset) v ?u)"
      using Some g by (simp add: HandleDrawElements_def CheckFramebufferComplete_def Let_def)
    have "vertex_attrib_manager_' ?u = vertex_attrib_manager_' s" by simp
    moreover have "(\<exists>t. quiet_step ?u t \<and> HandleDrawElements P mode count type offset s = Some (kNoError, t))
        \<or> (\<exists>v. HandleDrawElements P mode count type offset s
             = draw_if_valid P (glDrawElements mode count type offset) v ?u)"
      unfolding eq using quiet_error [of ?u] by (cases r) (simp only: option.case, blast)+
    ultimately show ?thesis using u by blast
  qed
qed

lemma inv_draw_elements:
  assumes "api_inv s" "HandleDrawElements P mode count type offset s = Some (r, s')"
  shows "api_inv s'"
  using draw_elements_shape [OF assms(1), of mode count type offset]
proof (elim disjE exE conjE)
  fix t assume "quiet_step s t" "HandleDrawElements P mode count type offset s = Some (kNoError, t)"
  then show ?thesis using assms quiet_inv by simp
next
  fix u t assume "api_inv u" "quiet_step u t"
    "HandleDrawElements P mode count type offset s = Some (kNoError, t)"
  then show ?thesis using assms(2) quiet_inv by simp
next
  fix u v assume "api_inv u" "HandleDrawElements P mode count type offset s
    = draw_if_valid P (glDrawElements mode count type offset) v u"
  then show ?thesis using assms(2) inv_draw_if_valid by metis
qed

lemma draw_elements_returns:
  assumes "api_inv s" "cmd_ok (DrawElements mode count type offset) s"
  shows "HandleDrawElements P mode count type offset s \<noteq> None"
  using draw_elements_shape [OF assms(1), of mode count type offset] assms(2) draw_if_valid_returns
  by (elim disjE exE conjE) simp_all

text \<open>Every command keeps the invariant, and every command the callers may issue returns.\<close>

lemma run_cmd_step:
  assumes "api_inv s" "cmd_ok c s"
  shows "\<exists>s'. run_cmd P c s = Some s' \<and> api_inv s'"
proof (cases c)
  case (DrawArrays mode first count)
  then have "HandleDrawArrays P mode first count s \<noteq> None"
    using draw_arrays_returns assms by blast
  then show ?thesis using DrawArrays inv_draw_arrays [OF assms(1)] by fastforce
next
  case (DrawElements mode count type offset)
  then have "HandleDrawElements P mode count type offset s \<noteq> None"
    using draw_elements_returns assms by blast
  then show ?thesis using DrawElements inv_draw_elements [OF assms(1)] by fastforce
next
  case (BufferData target sz data usage)
  then show ?thesis using inv_buffer_data assms by simp
next
  case (BufferSubData target offset sz data)
  then show ?thesis using inv_buffer_sub_data assms by simp
next
  case (GetMaxValueInBuffer cid count type offset)
  then show ?thesis using inv_get_max_value assms by simp
qed (simp_all add: assms inv_gen inv_delete inv_bind inv_enable_array inv_disable_array
    inv_vertex_attrib inv_attrib_pointer inv_features)

end

section \<open>Reachable states\<close>

text \<open>The state after \<^verbatim>\<open>Initialize\<close>: no buffers, disabled attributes, the default attribute types.\<close>

definition decoder_start :: "'g Decoder \<Rightarrow> bool" where
  "decoder_start s \<longleftrightarrow>
     buffer_manager s = BufferManager_new
     \<and> vertex_attrib_manager_' s
         = Attribs_Initialize (group_max_vertex_attribs s) VertexAttribManager_new
     \<and> bound_array_buffer_' s = None \<and> bound_element_array_buffer_' s = None
     \<and> error_bits_' s = 0
     \<and> vertex_attrib_types s = [GL_BYTE, GL_UNSIGNED_BYTE, GL_SHORT, GL_UNSIGNED_SHORT, GL_FLOAT]"

inductive decoder_reachable :: "'g GlApi \<Rightarrow> ('g \<Rightarrow> bool) \<Rightarrow> 'g Decoder \<Rightarrow> bool"
  for P okd where
  start: "decoder_start s \<Longrightarrow> okd (driver s) \<Longrightarrow> decoder_reachable P okd s"
| step: "decoder_reachable P okd s \<Longrightarrow> cmd_ok c s \<Longrightarrow> run_cmd P c s = Some s' \<Longrightarrow>
    decoder_reachable P okd s'"
| program: "decoder_reachable P okd s \<Longrightarrow> decoder_reachable P okd (s\<lparr>current_program_' := prog\<rparr>)"

lemma Initialize_infos:
  "info \<in> set (vertex_attrib_infos_' (Attribs_Initialize n VertexAttribManager_new)) \<Longrightarrow>
    attrib_ok info \<and> buffer_' info = None"
  unfolding Attribs_Initialize_def
  by (subst (asm) init_attribs_effect)
    (auto simp: VertexAttribManager_new_def VertexAttribInfo_new_def attrib_ok_def
      GetGLTypeSizeForTexturesAndBuffers_def)

lemma decoder_start_ok: "decoder_start s \<Longrightarrow> decoder_ok s"
  using Initialize_infos [of _ "group_max_vertex_attribs s"]
  by (auto simp: decoder_start_def decoder_ok_def Initialize_wf attribs_point_ok_def bindings_ok_def
      attrib_types_ok_def bits_ok_def GetGLTypeSizeForTexturesAndBuffers_def)

context gl_api
begin

lemma reachable_inv: "decoder_reachable P ok s \<Longrightarrow> api_inv s"
proof (induction rule: decoder_reachable.induct)
  case (start s)
  then show ?case by (simp add: api_inv_def decoder_start_ok)
next
  case (step s c s')
  then show ?case using run_cmd_step by fastforce
next
  case (program s prog)
  then show ?case by (simp add: api_inv_def decoder_ok_def attribs_point_ok_def bindings_ok_def
        attrib_types_ok_def)
qed

end

text \<open>C7: after any sequence of buffer, attribute and draw commands on any GL that reports errors as
  specified, the decoder state is consistent (shadow copies have the size of their buffers and the
  caches their contents, attributes are well formed, every pointer leads to an object), and the
  next command again returns: no loop runs for ever and no read or write leaves a shadow copy. Data
  pointers must cover their size; draw calls, both on the way and as the next command, are considered
  only while there is an attribute and none is \<^verbatim>\<open>GL_FIXED\<close>: for those the code reads past a shadow copy.\<close>

theorem decoder_commands_safe:
  assumes "gl_api P pending_errors okd" "decoder_reachable P okd s"
  shows "decoder_ok s \<and> (\<forall>c. cmd_ok c s \<longrightarrow> (\<exists>s'. run_cmd P c s = Some s' \<and> decoder_ok s'))"
proof -
  have inv: "gl_api.api_inv okd s" using gl_api.reachable_inv [OF assms] .
  then have "\<exists>s'. run_cmd P c s = Some s' \<and> gl_api.api_inv okd s'" if "cmd_ok c s" for c
    using gl_api.run_cmd_step [OF assms(1)] that by blast
  then show ?thesis using inv unfolding gl_api.api_inv_def [OF assms(1)] by blast
qed

interpretation sample_gl: gl_api sample_api "\<lambda>q. q" queue_ok
  by unfold_locales
    (auto simp: sample_api_def queue_ok_def queue_get_error_def split: list.splits)

definition sample_start :: "GLenum list Decoder" where
  "sample_start = sample_decoder\<lparr>
     buffer_manager := BufferManager_new,
     vertex_attrib_manager_' := Attribs_Initialize 1 VertexAttribManager_new,
     bound_array_buffer_' := None, bound_element_array_buffer_' := None,
     vertex_attrib_types := [GL_BYTE, GL_UNSIGNED_BYTE, GL_SHORT, GL_UNSIGNED_SHORT, GL_FLOAT]\<rparr>"

theorem decoder_commands_safe_witness:
  "\<exists>s'. run_cmd sample_api (BindBuffer GL_ARRAY_BUFFER 1) sample_start = Some s'
     \<and> decoder_ok sample_start \<and> decoder_ok s'"
proof -
  have "decoder_reachable sample_api queue_ok sample_start"
    by (rule decoder_reachable.start)
      (simp_all add: decoder_start_def sample_start_def sample_decoder_def queue_ok_def)
  moreover have "cmd_ok (BindBuffer GL_ARRAY_BUFFER 1) sample_start" by simp
  ultimately show ?thesis
    using decoder_commands_safe [OF sample_gl.gl_api_axioms, of sample_start] by blast
qed

end
