(* ===== verification/Gles2_Validation.thy ===== *)
theory Gles2_Validation
  imports Gl_Enums
begin

text \<open>
  The value validators of the service (\<^verbatim>\<open>gpu/command_buffer/service/gles2_cmd_validation.h\<close> and the
  generated \<^verbatim>\<open>gles2_cmd_validation_implementation_autogen.h\<close>): a validator is the list of values a
  command accepts for one of its arguments.
\<close>

section \<open>Value validators\<close>

definition IsValid :: "'a \<Rightarrow> 'a list \<Rightarrow> bool" where
  "IsValid v valid_values \<longleftrightarrow> v \<in> set valid_values"

definition AddValue :: "'a \<Rightarrow> 'a list \<Rightarrow> 'a list" where
  "AddValue v valid_values = (if \<not> IsValid v valid_values then valid_values @ [v] else valid_values)"

definition validator :: "'a list \<Rightarrow> 'a list" where
  "validator table = fold AddValue table []"

lemma IsValid_iff [simp]: "IsValid v vs \<longleftrightarrow> v \<in> set vs"
  by (simp add: IsValid_def)

lemma set_AddValue [simp]: "set (AddValue v vs) = insert v (set vs)"
  by (auto simp: AddValue_def)

lemma distinct_AddValue: "distinct vs \<Longrightarrow> distinct (AddValue v vs)"
  by (simp add: AddValue_def)

lemma AddValue_present: "v \<in> set vs \<Longrightarrow> AddValue v vs = vs"
  by (simp add: AddValue_def)

lemma set_fold_AddValue: "set (fold AddValue table vs) = set vs \<union> set table"
  by (induction table arbitrary: vs) auto

lemma set_validator [simp]: "set (validator table) = set table"
  by (simp add: validator_def set_fold_AddValue)

section \<open>The tables\<close>

definition valid_attachment_table :: "GLenum list" where
  "valid_attachment_table =
   [GL_COLOR_ATTACHMENT0, GL_DEPTH_ATTACHMENT, GL_STENCIL_ATTACHMENT]"

definition valid_blit_filter_table :: "GLenum list" where
  "valid_blit_filter_table =
   [GL_NEAREST, GL_LINEAR]"

definition valid_buffer_parameter_table :: "GLenum list" where
  "valid_buffer_parameter_table =
   [GL_BUFFER_SIZE, GL_BUFFER_USAGE]"

definition valid_buffer_target_table :: "GLenum list" where
  "valid_buffer_target_table =
   [GL_ARRAY_BUFFER, GL_ELEMENT_ARRAY_BUFFER]"

definition valid_buffer_usage_table :: "GLenum list" where
  "valid_buffer_usage_table =
   [GL_STREAM_DRAW, GL_STATIC_DRAW, GL_DYNAMIC_DRAW]"

definition valid_capability_table :: "GLenum list" where
  "valid_capability_table =
   [GL_BLEND, GL_CULL_FACE, GL_DEPTH_TEST, GL_DITHER, GL_POLYGON_OFFSET_FILL,
    GL_SAMPLE_ALPHA_TO_COVERAGE, GL_SAMPLE_COVERAGE, GL_SCISSOR_TEST, GL_STENCIL_TEST]"

definition valid_cmp_function_table :: "GLenum list" where
  "valid_cmp_function_table =
   [GL_NEVER, GL_LESS, GL_EQUAL, GL_LEQUAL, GL_GREATER, GL_NOTEQUAL, GL_GEQUAL, GL_ALWAYS]"

definition valid_draw_mode_table :: "GLenum list" where
  "valid_draw_mode_table =
   [GL_POINTS, GL_LINE_STRIP, GL_LINE_LOOP, GL_LINES, GL_TRIANGLE_STRIP, GL_TRIANGLE_FAN,
    GL_TRIANGLES]"

definition valid_dst_blend_factor_table :: "GLenum list" where
  "valid_dst_blend_factor_table =
   [GL_ZERO, GL_ONE, GL_SRC_COLOR, GL_ONE_MINUS_SRC_COLOR, GL_DST_COLOR,
    GL_ONE_MINUS_DST_COLOR, GL_SRC_ALPHA, GL_ONE_MINUS_SRC_ALPHA, GL_DST_ALPHA,
    GL_ONE_MINUS_DST_ALPHA, GL_CONSTANT_COLOR, GL_ONE_MINUS_CONSTANT_COLOR, GL_CONSTANT_ALPHA,
    GL_ONE_MINUS_CONSTANT_ALPHA]"

definition valid_equation_table :: "GLenum list" where
  "valid_equation_table =
   [GL_FUNC_ADD, GL_FUNC_SUBTRACT, GL_FUNC_REVERSE_SUBTRACT]"

definition valid_face_mode_table :: "GLenum list" where
  "valid_face_mode_table =
   [GL_CW, GL_CCW]"

definition valid_face_type_table :: "GLenum list" where
  "valid_face_type_table =
   [GL_FRONT, GL_BACK, GL_FRONT_AND_BACK]"

definition valid_false_only_table :: "bool list" where
  "valid_false_only_table =
   [False]"

definition valid_frame_buffer_parameter_table :: "GLenum list" where
  "valid_frame_buffer_parameter_table =
   [GL_FRAMEBUFFER_ATTACHMENT_OBJECT_TYPE, GL_FRAMEBUFFER_ATTACHMENT_OBJECT_NAME,
    GL_FRAMEBUFFER_ATTACHMENT_TEXTURE_LEVEL, GL_FRAMEBUFFER_ATTACHMENT_TEXTURE_CUBE_MAP_FACE]"

definition valid_frame_buffer_target_table :: "GLenum list" where
  "valid_frame_buffer_target_table =
   [GL_FRAMEBUFFER]"

definition valid_g_l_state_table :: "GLenum list" where
  "valid_g_l_state_table =
   [GL_ACTIVE_TEXTURE, GL_ALIASED_LINE_WIDTH_RANGE, GL_ALIASED_POINT_SIZE_RANGE, GL_ALPHA_BITS,
    GL_ARRAY_BUFFER_BINDING, GL_BLEND, GL_BLEND_COLOR, GL_BLEND_DST_ALPHA, GL_BLEND_DST_RGB,
    GL_BLEND_EQUATION_ALPHA, GL_BLEND_EQUATION_RGB, GL_BLEND_SRC_ALPHA, GL_BLEND_SRC_RGB,
    GL_BLUE_BITS, GL_COLOR_CLEAR_VALUE, GL_COLOR_WRITEMASK, GL_COMPRESSED_TEXTURE_FORMATS,
    GL_CULL_FACE, GL_CULL_FACE_MODE, GL_CURRENT_PROGRAM, GL_DEPTH_BITS, GL_DEPTH_CLEAR_VALUE,
    GL_DEPTH_FUNC, GL_DEPTH_RANGE, GL_DEPTH_TEST, GL_DEPTH_WRITEMASK, GL_DITHER,
    GL_ELEMENT_ARRAY_BUFFER_BINDING, GL_FRAMEBUFFER_BINDING, GL_FRONT_FACE,
    GL_GENERATE_MIPMAP_HINT, GL_GREEN_BITS, GL_IMPLEMENTATION_COLOR_READ_FORMAT,
    GL_IMPLEMENTATION_COLOR_READ_TYPE, GL_LINE_WIDTH, GL_MAX_COMBINED_TEXTURE_IMAGE_UNITS,
    GL_MAX_CUBE_MAP_TEXTURE_SIZE, GL_MAX_FRAGMENT_UNIFORM_VECTORS, GL_MAX_RENDERBUFFER_SIZE,
    GL_MAX_TEXTURE_IMAGE_UNITS, GL_MAX_TEXTURE_SIZE, GL_MAX_VARYING_VECTORS,
    GL_MAX_VERTEX_ATTRIBS, GL_MAX_VERTEX_TEXTURE_IMAGE_UNITS, GL_MAX_VERTEX_UNIFORM_VECTORS,
    GL_MAX_VIEWPORT_DIMS, GL_NUM_COMPRESSED_TEXTURE_FORMATS, GL_NUM_SHADER_BINARY_FORMATS,
    GL_PACK_ALIGNMENT, GL_POLYGON_OFFSET_FACTOR, GL_POLYGON_OFFSET_FILL,
    GL_POLYGON_OFFSET_UNITS, GL_RED_BITS, GL_RENDERBUFFER_BINDING, GL_SAMPLE_BUFFERS,
    GL_SAMPLE_COVERAGE_INVERT, GL_SAMPLE_COVERAGE_VALUE, GL_SAMPLES, GL_SCISSOR_BOX,
    GL_SCISSOR_TEST, GL_SHADER_BINARY_FORMATS, GL_SHADER_COMPILER, GL_STENCIL_BACK_FAIL,
    GL_STENCIL_BACK_FUNC, GL_STENCIL_BACK_PASS_DEPTH_FAIL, GL_STENCIL_BACK_PASS_DEPTH_PASS,
    GL_STENCIL_BACK_REF, GL_STENCIL_BACK_VALUE_MASK, GL_STENCIL_BACK_WRITEMASK,
    GL_STENCIL_BITS, GL_STENCIL_CLEAR_VALUE, GL_STENCIL_FAIL, GL_STENCIL_FUNC,
    GL_STENCIL_PASS_DEPTH_FAIL, GL_STENCIL_PASS_DEPTH_PASS, GL_STENCIL_REF, GL_STENCIL_TEST,
    GL_STENCIL_VALUE_MASK, GL_STENCIL_WRITEMASK, GL_SUBPIXEL_BITS, GL_TEXTURE_BINDING_2D,
    GL_TEXTURE_BINDING_CUBE_MAP, GL_UNPACK_ALIGNMENT, GL_VIEWPORT]"

definition valid_get_max_index_type_table :: "GLenum list" where
  "valid_get_max_index_type_table =
   [GL_UNSIGNED_BYTE, GL_UNSIGNED_SHORT, GL_UNSIGNED_INT]"

definition valid_get_tex_param_target_table :: "GLenum list" where
  "valid_get_tex_param_target_table =
   [GL_TEXTURE_2D, GL_TEXTURE_CUBE_MAP_POSITIVE_X, GL_TEXTURE_CUBE_MAP_NEGATIVE_X,
    GL_TEXTURE_CUBE_MAP_POSITIVE_Y, GL_TEXTURE_CUBE_MAP_NEGATIVE_Y,
    GL_TEXTURE_CUBE_MAP_POSITIVE_Z, GL_TEXTURE_CUBE_MAP_NEGATIVE_Z]"

definition valid_hint_mode_table :: "GLenum list" where
  "valid_hint_mode_table =
   [GL_FASTEST, GL_NICEST, GL_DONT_CARE]"

definition valid_hint_target_table :: "GLenum list" where
  "valid_hint_target_table =
   [GL_GENERATE_MIPMAP_HINT]"

definition valid_index_type_table :: "GLenum list" where
  "valid_index_type_table =
   [GL_UNSIGNED_BYTE, GL_UNSIGNED_SHORT]"

definition valid_pixel_store_table :: "GLenum list" where
  "valid_pixel_store_table =
   [GL_PACK_ALIGNMENT, GL_UNPACK_ALIGNMENT]"

definition valid_pixel_store_alignment_table :: "GLint list" where
  "valid_pixel_store_alignment_table =
   [1, 2, 4, 8]"

definition valid_pixel_type_table :: "GLenum list" where
  "valid_pixel_type_table =
   [GL_UNSIGNED_BYTE, GL_UNSIGNED_SHORT_5_6_5, GL_UNSIGNED_SHORT_4_4_4_4,
    GL_UNSIGNED_SHORT_5_5_5_1]"

definition valid_program_parameter_table :: "GLenum list" where
  "valid_program_parameter_table =
   [GL_DELETE_STATUS, GL_LINK_STATUS, GL_VALIDATE_STATUS, GL_INFO_LOG_LENGTH,
    GL_ATTACHED_SHADERS, GL_ACTIVE_ATTRIBUTES, GL_ACTIVE_ATTRIBUTE_MAX_LENGTH,
    GL_ACTIVE_UNIFORMS, GL_ACTIVE_UNIFORM_MAX_LENGTH]"

definition valid_read_pixel_format_table :: "GLenum list" where
  "valid_read_pixel_format_table =
   [GL_ALPHA, GL_RGB, GL_RGBA]"

definition valid_render_buffer_format_table :: "GLenum list" where
  "valid_render_buffer_format_table =
   [GL_RGBA4, GL_RGB565, GL_RGB5_A1, GL_DEPTH_COMPONENT16, GL_STENCIL_INDEX8]"

definition valid_render_buffer_parameter_table :: "GLenum list" where
  "valid_render_buffer_parameter_table =
   [GL_RENDERBUFFER_RED_SIZE, GL_RENDERBUFFER_GREEN_SIZE, GL_RENDERBUFFER_BLUE_SIZE,
    GL_RENDERBUFFER_ALPHA_SIZE, GL_RENDERBUFFER_DEPTH_SIZE, GL_RENDERBUFFER_STENCIL_SIZE,
    GL_RENDERBUFFER_WIDTH, GL_RENDERBUFFER_HEIGHT, GL_RENDERBUFFER_INTERNAL_FORMAT]"

definition valid_render_buffer_target_table :: "GLenum list" where
  "valid_render_buffer_target_table =
   [GL_RENDERBUFFER]"

definition valid_shader_parameter_table :: "GLenum list" where
  "valid_shader_parameter_table =
   [GL_SHADER_TYPE, GL_DELETE_STATUS, GL_COMPILE_STATUS, GL_INFO_LOG_LENGTH,
    GL_SHADER_SOURCE_LENGTH, GL_TRANSLATED_SHADER_SOURCE_LENGTH_ANGLE]"

definition valid_shader_precision_table :: "GLenum list" where
  "valid_shader_precision_table =
   [GL_LOW_FLOAT, GL_MEDIUM_FLOAT, GL_HIGH_FLOAT, GL_LOW_INT, GL_MEDIUM_INT, GL_HIGH_INT]"

definition valid_shader_type_table :: "GLenum list" where
  "valid_shader_type_table =
   [GL_VERTEX_SHADER, GL_FRAGMENT_SHADER]"

definition valid_src_blend_factor_table :: "GLenum list" where
  "valid_src_blend_factor_table =
   [GL_ZERO, GL_ONE, GL_SRC_COLOR, GL_ONE_MINUS_SRC_COLOR, GL_DST_COLOR,
    GL_ONE_MINUS_DST_COLOR, GL_SRC_ALPHA, GL_ONE_MINUS_SRC_ALPHA, GL_DST_ALPHA,
    GL_ONE_MINUS_DST_ALPHA, GL_CONSTANT_COLOR, GL_ONE_MINUS_CONSTANT_COLOR, GL_CONSTANT_ALPHA,
    GL_ONE_MINUS_CONSTANT_ALPHA, GL_SRC_ALPHA_SATURATE]"

definition valid_stencil_op_table :: "GLenum list" where
  "valid_stencil_op_table =
   [GL_KEEP, GL_ZERO, GL_REPLACE, GL_INCR, GL_INCR_WRAP, GL_DECR, GL_DECR_WRAP, GL_INVERT]"

definition valid_string_type_table :: "GLenum list" where
  "valid_string_type_table =
   [GL_VENDOR, GL_RENDERER, GL_VERSION, GL_SHADING_LANGUAGE_VERSION, GL_EXTENSIONS]"

definition valid_texture_bind_target_table :: "GLenum list" where
  "valid_texture_bind_target_table =
   [GL_TEXTURE_2D, GL_TEXTURE_CUBE_MAP]"

definition valid_texture_border_table :: "GLint list" where
  "valid_texture_border_table =
   [0]"

definition valid_texture_format_table :: "GLenum list" where
  "valid_texture_format_table =
   [GL_ALPHA, GL_LUMINANCE, GL_LUMINANCE_ALPHA, GL_RGB, GL_RGBA]"

definition valid_texture_internal_format_table :: "GLenum list" where
  "valid_texture_internal_format_table =
   [GL_ALPHA, GL_LUMINANCE, GL_LUMINANCE_ALPHA, GL_RGB, GL_RGBA]"

definition valid_texture_mag_filter_mode_table :: "GLenum list" where
  "valid_texture_mag_filter_mode_table =
   [GL_NEAREST, GL_LINEAR]"

definition valid_texture_min_filter_mode_table :: "GLenum list" where
  "valid_texture_min_filter_mode_table =
   [GL_NEAREST, GL_LINEAR, GL_NEAREST_MIPMAP_NEAREST, GL_LINEAR_MIPMAP_NEAREST,
    GL_NEAREST_MIPMAP_LINEAR, GL_LINEAR_MIPMAP_LINEAR]"

definition valid_texture_parameter_table :: "GLenum list" where
  "valid_texture_parameter_table =
   [GL_TEXTURE_MAG_FILTER, GL_TEXTURE_MIN_FILTER, GL_TEXTURE_WRAP_S, GL_TEXTURE_WRAP_T]"

definition valid_texture_target_table :: "GLenum list" where
  "valid_texture_target_table =
   [GL_TEXTURE_2D, GL_TEXTURE_CUBE_MAP_POSITIVE_X, GL_TEXTURE_CUBE_MAP_NEGATIVE_X,
    GL_TEXTURE_CUBE_MAP_POSITIVE_Y, GL_TEXTURE_CUBE_MAP_NEGATIVE_Y,
    GL_TEXTURE_CUBE_MAP_POSITIVE_Z, GL_TEXTURE_CUBE_MAP_NEGATIVE_Z]"

definition valid_texture_wrap_mode_table :: "GLenum list" where
  "valid_texture_wrap_mode_table =
   [GL_CLAMP_TO_EDGE, GL_MIRRORED_REPEAT, GL_REPEAT]"

definition valid_vertex_attrib_size_table :: "GLint list" where
  "valid_vertex_attrib_size_table =
   [1, 2, 3, 4]"

definition valid_vertex_attrib_type_table :: "GLenum list" where
  "valid_vertex_attrib_type_table =
   [GL_BYTE, GL_UNSIGNED_BYTE, GL_SHORT, GL_UNSIGNED_SHORT, GL_FLOAT]"

definition valid_vertex_attribute_table :: "GLenum list" where
  "valid_vertex_attribute_table =
   [GL_VERTEX_ATTRIB_ARRAY_NORMALIZED, GL_VERTEX_ATTRIB_ARRAY_BUFFER_BINDING,
    GL_VERTEX_ATTRIB_ARRAY_ENABLED, GL_VERTEX_ATTRIB_ARRAY_SIZE, GL_VERTEX_ATTRIB_ARRAY_STRIDE,
    GL_VERTEX_ATTRIB_ARRAY_TYPE, GL_CURRENT_VERTEX_ATTRIB]"

definition valid_vertex_pointer_table :: "GLenum list" where
  "valid_vertex_pointer_table =
   [GL_VERTEX_ATTRIB_ARRAY_POINTER]"

definition valid_zero_only_table :: "GLint list" where
  "valid_zero_only_table =
   [0]"

section \<open>The validators of a feature set\<close>

record Validators =
  v_attachment :: "GLenum list"
  v_blit_filter :: "GLenum list"
  v_buffer_parameter :: "GLenum list"
  v_buffer_target :: "GLenum list"
  v_buffer_usage :: "GLenum list"
  v_capability :: "GLenum list"
  v_cmp_function :: "GLenum list"
  v_compressed_texture_format :: "GLenum list"
  v_draw_mode :: "GLenum list"
  v_dst_blend_factor :: "GLenum list"
  v_equation :: "GLenum list"
  v_face_mode :: "GLenum list"
  v_face_type :: "GLenum list"
  v_false_only :: "bool list"
  v_frame_buffer_parameter :: "GLenum list"
  v_frame_buffer_target :: "GLenum list"
  v_g_l_state :: "GLenum list"
  v_get_max_index_type :: "GLenum list"
  v_get_tex_param_target :: "GLenum list"
  v_hint_mode :: "GLenum list"
  v_hint_target :: "GLenum list"
  v_index_type :: "GLenum list"
  v_pixel_store :: "GLenum list"
  v_pixel_store_alignment :: "GLint list"
  v_pixel_type :: "GLenum list"
  v_program_parameter :: "GLenum list"
  v_read_pixel_format :: "GLenum list"
  v_render_buffer_format :: "GLenum list"
  v_render_buffer_parameter :: "GLenum list"
  v_render_buffer_target :: "GLenum list"
  v_shader_binary_format :: "GLenum list"
  v_shader_parameter :: "GLenum list"
  v_shader_precision :: "GLenum list"
  v_shader_type :: "GLenum list"
  v_src_blend_factor :: "GLenum list"
  v_stencil_op :: "GLenum list"
  v_string_type :: "GLenum list"
  v_texture_bind_target :: "GLenum list"
  v_texture_border :: "GLint list"
  v_texture_format :: "GLenum list"
  v_texture_internal_format :: "GLenum list"
  v_texture_mag_filter_mode :: "GLenum list"
  v_texture_min_filter_mode :: "GLenum list"
  v_texture_parameter :: "GLenum list"
  v_texture_target :: "GLenum list"
  v_texture_wrap_mode :: "GLenum list"
  v_vertex_attrib_size :: "GLint list"
  v_vertex_attrib_type :: "GLenum list"
  v_vertex_attribute :: "GLenum list"
  v_vertex_pointer :: "GLenum list"
  v_zero_only :: "GLint list"

definition Validators_new :: Validators where
  "Validators_new = \<lparr>
     v_attachment = validator valid_attachment_table,
     v_blit_filter = validator valid_blit_filter_table,
     v_buffer_parameter = validator valid_buffer_parameter_table,
     v_buffer_target = validator valid_buffer_target_table,
     v_buffer_usage = validator valid_buffer_usage_table,
     v_capability = validator valid_capability_table,
     v_cmp_function = validator valid_cmp_function_table,
     v_compressed_texture_format = [],
     v_draw_mode = validator valid_draw_mode_table,
     v_dst_blend_factor = validator valid_dst_blend_factor_table,
     v_equation = validator valid_equation_table,
     v_face_mode = validator valid_face_mode_table,
     v_face_type = validator valid_face_type_table,
     v_false_only = validator valid_false_only_table,
     v_frame_buffer_parameter = validator valid_frame_buffer_parameter_table,
     v_frame_buffer_target = validator valid_frame_buffer_target_table,
     v_g_l_state = validator valid_g_l_state_table,
     v_get_max_index_type = validator valid_get_max_index_type_table,
     v_get_tex_param_target = validator valid_get_tex_param_target_table,
     v_hint_mode = validator valid_hint_mode_table,
     v_hint_target = validator valid_hint_target_table,
     v_index_type = validator valid_index_type_table,
     v_pixel_store = validator valid_pixel_store_table,
     v_pixel_store_alignment = validator valid_pixel_store_alignment_table,
     v_pixel_type = validator valid_pixel_type_table,
     v_program_parameter = validator valid_program_parameter_table,
     v_read_pixel_format = validator valid_read_pixel_format_table,
     v_render_buffer_format = validator valid_render_buffer_format_table,
     v_render_buffer_parameter = validator valid_render_buffer_parameter_table,
     v_render_buffer_target = validator valid_render_buffer_target_table,
     v_shader_binary_format = [],
     v_shader_parameter = validator valid_shader_parameter_table,
     v_shader_precision = validator valid_shader_precision_table,
     v_shader_type = validator valid_shader_type_table,
     v_src_blend_factor = validator valid_src_blend_factor_table,
     v_stencil_op = validator valid_stencil_op_table,
     v_string_type = validator valid_string_type_table,
     v_texture_bind_target = validator valid_texture_bind_target_table,
     v_texture_border = validator valid_texture_border_table,
     v_texture_format = validator valid_texture_format_table,
     v_texture_internal_format = validator valid_texture_internal_format_table,
     v_texture_mag_filter_mode = validator valid_texture_mag_filter_mode_table,
     v_texture_min_filter_mode = validator valid_texture_min_filter_mode_table,
     v_texture_parameter = validator valid_texture_parameter_table,
     v_texture_target = validator valid_texture_target_table,
     v_texture_wrap_mode = validator valid_texture_wrap_mode_table,
     v_vertex_attrib_size = validator valid_vertex_attrib_size_table,
     v_vertex_attrib_type = validator valid_vertex_attrib_type_table,
     v_vertex_attribute = validator valid_vertex_attribute_table,
     v_vertex_pointer = validator valid_vertex_pointer_table,
     v_zero_only = validator valid_zero_only_table\<rparr>"

end
