(* ===== verification/Feature_Info.thy ===== *)
theory Feature_Info
  imports Gles2_Validation "HOL-Library.Sublist"
begin

text \<open>
  The features of a context (\<^verbatim>\<open>gpu/command_buffer/service/feature_info.{h,cc}\<close>): from the extensions of the
  driver and the features the client asks for, \<^verbatim>\<open>FeatureInfo::AddFeatures\<close> computes the extension string
  the client sees, the feature flags, and the values the validators accept.

  The extension string of the driver (\<^verbatim>\<open>glGetString(GL_EXTENSIONS)\<close>, which may be null) and whether it
  is a desktop GL are parameters. \<^verbatim>\<open>AddFeatures\<close> is one long function; each block of it is a
  definition here, in order.
\<close>

section \<open>Sets of extensions\<close>

definition find_space :: "string \<Rightarrow> nat \<Rightarrow> nat option" where
  "find_space str lastPos = find (\<lambda>i. str ! i = CHR '' '') [lastPos..<length str]"

lemma find_space_Some:
  assumes "find_space str l = Some p"
  shows "l \<le> p" "p < length str" "str ! p = CHR '' ''" "\<And>i. l \<le> i \<Longrightarrow> i < p \<Longrightarrow> str ! i \<noteq> CHR '' ''"
proof -
  obtain k where k: "k < length [l..<length str]" "p = [l..<length str] ! k"
      "str ! p = CHR '' ''" "\<And>j. j < k \<Longrightarrow> str ! ([l..<length str] ! j) \<noteq> CHR '' ''"
    using assms unfolding find_space_def find_Some_iff by blast
  have p: "p = l + k" using k(1,2) by simp
  then show "l \<le> p" "p < length str" "str ! p = CHR '' ''" using k(1,3) by simp_all
  show "str ! i \<noteq> CHR '' ''" if "l \<le> i" "i < p" for i
    using k(4) [of "i - l"] k(1) that p by simp
qed

lemma find_space_bounds: "find_space str l = Some p \<Longrightarrow> l \<le> p \<and> p < length str"
  using find_space_Some by blast

lemma find_space_None: "find_space str l = None \<Longrightarrow> l \<le> i \<Longrightarrow> i < length str \<Longrightarrow> str ! i \<noteq> CHR '' ''"
  by (auto simp: find_space_def find_None_iff)

function init_string_set :: "string \<Rightarrow> nat \<Rightarrow> string set \<Rightarrow> string set" where
  "init_string_set str lastPos string_set =
     (case find_space str lastPos of
        Some pos \<Rightarrow>
          init_string_set str (pos + 1)
            (if pos - lastPos \<noteq> 0
             then insert (take (pos - lastPos) (drop lastPos str)) string_set else string_set)
      | None \<Rightarrow> insert (drop lastPos str) string_set)"
  by pat_completeness auto
termination
  by (relation "measure (\<lambda>(str, lastPos, _). length str + 1 - lastPos)")
    (auto dest!: find_space_bounds)

declare init_string_set.simps [simp del]

definition InitStringSet :: "string option \<Rightarrow> string set" where
  "InitStringSet s = init_string_set (case s of None \<Rightarrow> [] | Some str \<Rightarrow> str) 0 {}"

record ExtensionHelper =
  desire_all_features_' :: bool
  have_extensions_' :: "string set"
  desired_extensions_' :: "string set"

definition ExtensionHelper_new :: "string option \<Rightarrow> string option \<Rightarrow> ExtensionHelper" where
  "ExtensionHelper_new extensions desired_features =
     (let desired_features = (if desired_features = Some ''*'' then None else desired_features)
      in \<lparr>desire_all_features_' = (desired_features = None),
          have_extensions_' = InitStringSet extensions,
          desired_extensions_' = InitStringSet desired_features\<rparr>)"

definition Have :: "string \<Rightarrow> ExtensionHelper \<Rightarrow> bool" where
  "Have extension e \<longleftrightarrow> extension \<in> have_extensions_' e"

definition Desire :: "string \<Rightarrow> ExtensionHelper \<Rightarrow> bool" where
  "Desire extension e \<longleftrightarrow> desire_all_features_' e \<or> extension \<in> desired_extensions_' e"

definition HaveAndDesire :: "string \<Rightarrow> ExtensionHelper \<Rightarrow> bool" where
  "HaveAndDesire extension e \<longleftrightarrow> Have extension e \<and> Desire extension e"

section \<open>The feature set\<close>

record FeatureInfo =
  validators_' :: Validators
  disallowed_multisampling :: bool
  extensions_' :: string
  chromium_framebuffer_multisample :: bool
  oes_standard_derivatives :: bool
  oes_egl_image_external :: bool
  npot_ok :: bool
  enable_texture_float_linear :: bool
  enable_texture_half_float_linear :: bool
  chromium_webglsl :: bool
  chromium_stream_texture :: bool

definition FeatureInfo_new :: FeatureInfo where
  "FeatureInfo_new =
     \<lparr>validators_' = Validators_new, disallowed_multisampling = False, extensions_' = [],
      chromium_framebuffer_multisample = False, oes_standard_derivatives = False,
      oes_egl_image_external = False, npot_ok = False, enable_texture_float_linear = False,
      enable_texture_half_float_linear = False, chromium_webglsl = False,
      chromium_stream_texture = False\<rparr>"

text \<open>\<^verbatim>\<open>string::find\<close> finds a substring, not a word.\<close>

definition AddExtensionString :: "string \<Rightarrow> FeatureInfo \<Rightarrow> FeatureInfo" where
  "AddExtensionString str f =
     (if \<not> sublist str (extensions_' f)
      then f\<lparr>extensions_' := extensions_' f @ (if extensions_' f = [] then [] else '' '') @ str\<rparr>
      else f)"

definition with_validators :: "(Validators \<Rightarrow> Validators) \<Rightarrow> FeatureInfo \<Rightarrow> FeatureInfo" where
  "with_validators g f = f\<lparr>validators_' := g (validators_' f)\<rparr>"

definition add_base_extensions :: "FeatureInfo \<Rightarrow> FeatureInfo" where
  "add_base_extensions f =
     fold AddExtensionString
       [''GL_CHROMIUM_resource_safe'', ''GL_CHROMIUM_resize'', ''GL_CHROMIUM_strict_attribs'',
        ''GL_CHROMIUM_swapbuffers_complete_callback'', ''GL_CHROMIUM_rate_limit_offscreen_context'',
        ''GL_CHROMIUM_set_visibility'', ''GL_ANGLE_translated_shader_source''] f"

definition add_webglsl :: "string option \<Rightarrow> ExtensionHelper \<Rightarrow> FeatureInfo \<Rightarrow> FeatureInfo" where
  "add_webglsl desired_features ext f =
     (if desired_features \<noteq> None \<and> Desire ''GL_CHROMIUM_webglsl'' ext
      then (AddExtensionString ''GL_CHROMIUM_webglsl'' f)\<lparr>chromium_webglsl := True\<rparr> else f)"

definition enable_dxt1 :: "ExtensionHelper \<Rightarrow> bool" where
  "enable_dxt1 ext \<longleftrightarrow>
     Desire ''GL_EXT_texture_compression_dxt1'' ext
     \<and> (Have ''GL_EXT_texture_compression_dxt1'' ext \<or> Have ''GL_EXT_texture_compression_s3tc'' ext)"

definition enable_dxt3 :: "ExtensionHelper \<Rightarrow> bool" where
  "enable_dxt3 ext \<longleftrightarrow>
     (Have ''GL_EXT_texture_compression_s3tc'' ext \<or> Have ''GL_ANGLE_texture_compression_dxt3'' ext)
     \<and> Desire ''GL_CHROMIUM_texture_compression_dxt3'' ext"

definition enable_dxt5 :: "ExtensionHelper \<Rightarrow> bool" where
  "enable_dxt5 ext \<longleftrightarrow>
     (Have ''GL_EXT_texture_compression_s3tc'' ext \<or> Have ''GL_ANGLE_texture_compression_dxt5'' ext)
     \<and> Desire ''GL_CHROMIUM_texture_compression_dxt5'' ext"

definition add_dxt1 :: "ExtensionHelper \<Rightarrow> FeatureInfo \<Rightarrow> FeatureInfo" where
  "add_dxt1 ext f =
     (if enable_dxt1 ext
      then with_validators
             (v_compressed_texture_format_update
               (AddValue GL_COMPRESSED_RGBA_S3TC_DXT1_EXT \<circ> AddValue GL_COMPRESSED_RGB_S3TC_DXT1_EXT))
             (AddExtensionString ''GL_EXT_texture_compression_dxt1'' f) else f)"

definition add_dxt3 :: "ExtensionHelper \<Rightarrow> FeatureInfo \<Rightarrow> FeatureInfo" where
  "add_dxt3 ext f =
     (if enable_dxt3 ext
      then with_validators
             (v_compressed_texture_format_update (AddValue GL_COMPRESSED_RGBA_S3TC_DXT3_EXT))
             (AddExtensionString ''GL_CHROMIUM_texture_compression_dxt3'' f) else f)"

definition add_dxt5 :: "ExtensionHelper \<Rightarrow> FeatureInfo \<Rightarrow> FeatureInfo" where
  "add_dxt5 ext f =
     (if enable_dxt5 ext
      then with_validators
             (v_compressed_texture_format_update (AddValue GL_COMPRESSED_RGBA_S3TC_DXT5_EXT))
             (AddExtensionString ''GL_CHROMIUM_texture_compression_dxt5'' f) else f)"

definition add_anisotropic :: "ExtensionHelper \<Rightarrow> FeatureInfo \<Rightarrow> FeatureInfo" where
  "add_anisotropic ext f =
     (if HaveAndDesire ''GL_EXT_texture_filter_anisotropic'' ext
      then with_validators
             (v_g_l_state_update (AddValue GL_MAX_TEXTURE_MAX_ANISOTROPY_EXT)
               \<circ> v_texture_parameter_update (AddValue GL_TEXTURE_MAX_ANISOTROPY_EXT))
             (AddExtensionString ''GL_EXT_texture_filter_anisotropic'' f) else f)"

definition enable_depth_texture :: "ExtensionHelper \<Rightarrow> bool" where
  "enable_depth_texture ext \<longleftrightarrow>
     Desire ''GL_GOOGLE_depth_texture'' ext
     \<and> (Have ''GL_ARB_depth_texture'' ext \<or> Have ''GL_OES_depth_texture'' ext)"

definition add_depth_texture :: "ExtensionHelper \<Rightarrow> FeatureInfo \<Rightarrow> FeatureInfo" where
  "add_depth_texture ext f =
     (if enable_depth_texture ext
      then with_validators
             (v_pixel_type_update (AddValue GL_UNSIGNED_INT \<circ> AddValue GL_UNSIGNED_SHORT)
               \<circ> v_texture_format_update (AddValue GL_DEPTH_COMPONENT)
               \<circ> v_texture_internal_format_update (AddValue GL_DEPTH_COMPONENT))
             (AddExtensionString ''GL_GOOGLE_depth_texture'' f) else f)"

definition add_depth_stencil_texture :: "ExtensionHelper \<Rightarrow> FeatureInfo \<Rightarrow> FeatureInfo" where
  "add_depth_stencil_texture ext f =
     (if enable_depth_texture ext
      then with_validators
             (v_pixel_type_update (AddValue GL_UNSIGNED_INT_24_8)
               \<circ> v_texture_format_update (AddValue GL_DEPTH_STENCIL)
               \<circ> v_texture_internal_format_update (AddValue GL_DEPTH_STENCIL)) f
      else f)"

definition add_depth_stencil :: "ExtensionHelper \<Rightarrow> FeatureInfo \<Rightarrow> FeatureInfo" where
  "add_depth_stencil ext f =
     (if Desire ''GL_OES_packed_depth_stencil'' ext
         \<and> (Have ''GL_EXT_packed_depth_stencil'' ext \<or> Have ''GL_OES_packed_depth_stencil'' ext)
      then with_validators (v_render_buffer_format_update (AddValue GL_DEPTH24_STENCIL8))
             (add_depth_stencil_texture ext
               (AddExtensionString ''GL_OES_packed_depth_stencil'' f))
      else f)"

definition enable_texture_format_bgra8888 :: "ExtensionHelper \<Rightarrow> bool" where
  "enable_texture_format_bgra8888 ext \<longleftrightarrow>
     Desire ''GL_EXT_texture_format_BGRA8888'' ext
       \<and> (Have ''GL_EXT_texture_format_BGRA8888'' ext \<or> Have ''GL_APPLE_texture_format_BGRA8888'' ext
          \<or> Have ''GL_EXT_bgra'' ext)
     \<or> HaveAndDesire ''GL_EXT_bgra'' ext"

definition enable_read_format_bgra :: "ExtensionHelper \<Rightarrow> bool" where
  "enable_read_format_bgra ext \<longleftrightarrow>
     HaveAndDesire ''GL_EXT_bgra'' ext
     \<or> Desire ''GL_EXT_read_format_bgra'' ext
       \<and> (Have ''GL_EXT_read_format_bgra'' ext \<or> Have ''GL_EXT_bgra'' ext)"

definition add_texture_bgra :: "ExtensionHelper \<Rightarrow> FeatureInfo \<Rightarrow> FeatureInfo" where
  "add_texture_bgra ext f =
     (if enable_texture_format_bgra8888 ext
      then with_validators
             (v_texture_format_update (AddValue GL_BGRA_EXT)
               \<circ> v_texture_internal_format_update (AddValue GL_BGRA_EXT))
             (AddExtensionString ''GL_EXT_texture_format_BGRA8888'' f) else f)"

definition add_read_bgra :: "ExtensionHelper \<Rightarrow> FeatureInfo \<Rightarrow> FeatureInfo" where
  "add_read_bgra ext f =
     (if enable_read_format_bgra ext
      then with_validators (v_read_pixel_format_update (AddValue GL_BGRA_EXT))
             (AddExtensionString ''GL_EXT_read_format_bgra'' f) else f)"

definition add_rgb8 :: "bool \<Rightarrow> ExtensionHelper \<Rightarrow> FeatureInfo \<Rightarrow> FeatureInfo" where
  "add_rgb8 desktop ext f =
     (if Desire ''GL_OES_rgb8_rgba8'' ext \<and> (Have ''GL_OES_rgb8_rgba8'' ext \<or> desktop)
      then with_validators
             (v_render_buffer_format_update (AddValue GL_RGBA8_OES \<circ> AddValue GL_RGB8_OES))
             (AddExtensionString ''GL_OES_rgb8_rgba8'' f) else f)"

definition enable_npot :: "ExtensionHelper \<Rightarrow> bool" where
  "enable_npot ext \<longleftrightarrow>
     Desire ''GL_OES_texture_npot'' ext
     \<and> (Have ''GL_ARB_texture_non_power_of_two'' ext \<or> Have ''GL_OES_texture_npot'' ext)"

definition add_npot :: "ExtensionHelper \<Rightarrow> FeatureInfo \<Rightarrow> FeatureInfo" where
  "add_npot ext f = (if enable_npot ext then AddExtensionString ''GL_OES_texture_npot'' f else f)"

text \<open>The two float features, each with its linear filtering.\<close>

definition float_feature :: "string \<Rightarrow> ExtensionHelper \<Rightarrow> bool" where
  "float_feature name ext \<longleftrightarrow>
     HaveAndDesire name ext \<or> Have ''GL_ARB_texture_float'' ext \<and> Desire name ext"

definition all_float :: "ExtensionHelper \<Rightarrow> bool" where
  "all_float ext \<longleftrightarrow> Have ''GL_ARB_texture_float'' ext \<and> Desire ''GL_ARB_texture_float'' ext"

definition enable_float :: "ExtensionHelper \<Rightarrow> bool" where
  "enable_float ext \<longleftrightarrow> all_float ext \<or> float_feature ''GL_OES_texture_float'' ext"

definition enable_float_linear :: "ExtensionHelper \<Rightarrow> bool" where
  "enable_float_linear ext \<longleftrightarrow>
     all_float ext
     \<or> float_feature ''GL_OES_texture_float'' ext \<and> float_feature ''GL_OES_texture_float_linear'' ext"

definition enable_half_float :: "ExtensionHelper \<Rightarrow> bool" where
  "enable_half_float ext \<longleftrightarrow> all_float ext \<or> float_feature ''GL_OES_texture_half_float'' ext"

definition enable_half_float_linear :: "ExtensionHelper \<Rightarrow> bool" where
  "enable_half_float_linear ext \<longleftrightarrow>
     all_float ext
     \<or> float_feature ''GL_OES_texture_half_float'' ext
       \<and> float_feature ''GL_OES_texture_half_float_linear'' ext"

definition add_float :: "ExtensionHelper \<Rightarrow> FeatureInfo \<Rightarrow> FeatureInfo" where
  "add_float ext f =
     (if enable_float ext
      then let f = AddExtensionString ''GL_OES_texture_float''
                     (with_validators (v_pixel_type_update (AddValue GL_FLOAT)) f)
           in if enable_float_linear ext
              then AddExtensionString ''GL_OES_texture_float_linear'' f else f
      else f)"

definition add_half_float :: "ExtensionHelper \<Rightarrow> FeatureInfo \<Rightarrow> FeatureInfo" where
  "add_half_float ext f =
     (if enable_half_float ext
      then let f = AddExtensionString ''GL_OES_texture_half_float''
                     (with_validators (v_pixel_type_update (AddValue GL_HALF_FLOAT_OES)) f)
           in if enable_half_float_linear ext
              then AddExtensionString ''GL_OES_texture_half_float_linear'' f else f
      else f)"

definition add_multisample :: "ExtensionHelper \<Rightarrow> FeatureInfo \<Rightarrow> FeatureInfo" where
  "add_multisample ext f =
     (if \<not> disallowed_multisampling f \<and> Desire ''GL_CHROMIUM_framebuffer_multisample'' ext
         \<and> (Have ''GL_EXT_framebuffer_multisample'' ext \<or> Have ''GL_ANGLE_framebuffer_multisample'' ext)
      then AddExtensionString ''GL_CHROMIUM_framebuffer_multisample''
             (with_validators
               (v_render_buffer_parameter_update (AddValue GL_RENDERBUFFER_SAMPLES_EXT)
                 \<circ> v_g_l_state_update
                     (AddValue GL_MAX_SAMPLES_EXT \<circ> AddValue GL_READ_FRAMEBUFFER_BINDING_EXT)
                 \<circ> v_frame_buffer_target_update
                     (AddValue GL_DRAW_FRAMEBUFFER_EXT \<circ> AddValue GL_READ_FRAMEBUFFER_EXT))
               (f\<lparr>chromium_framebuffer_multisample := True\<rparr>))
      else f)"

definition add_depth24 :: "bool \<Rightarrow> ExtensionHelper \<Rightarrow> FeatureInfo \<Rightarrow> FeatureInfo" where
  "add_depth24 desktop ext f =
     (if HaveAndDesire ''GL_OES_depth24'' ext \<or> desktop \<and> Desire ''GL_OES_depth24'' ext
      then with_validators (v_render_buffer_format_update (AddValue GL_DEPTH_COMPONENT24))
             (AddExtensionString ''GL_OES_depth24'' f) else f)"

definition add_derivatives :: "bool \<Rightarrow> ExtensionHelper \<Rightarrow> FeatureInfo \<Rightarrow> FeatureInfo" where
  "add_derivatives desktop ext f =
     (if HaveAndDesire ''GL_OES_standard_derivatives'' ext
         \<or> desktop \<and> Desire ''GL_OES_standard_derivatives'' ext
      then with_validators
             (v_g_l_state_update (AddValue GL_FRAGMENT_SHADER_DERIVATIVE_HINT_OES)
               \<circ> v_hint_target_update (AddValue GL_FRAGMENT_SHADER_DERIVATIVE_HINT_OES))
             ((AddExtensionString ''GL_OES_standard_derivatives'' f)\<lparr>oes_standard_derivatives := True\<rparr>)
      else f)"

definition add_image_external :: "ExtensionHelper \<Rightarrow> FeatureInfo \<Rightarrow> FeatureInfo" where
  "add_image_external ext f =
     (if HaveAndDesire ''GL_OES_EGL_image_external'' ext
      then with_validators
             (v_g_l_state_update (AddValue GL_TEXTURE_BINDING_EXTERNAL_OES)
               \<circ> v_texture_parameter_update (AddValue GL_REQUIRED_TEXTURE_IMAGE_UNITS_OES)
               \<circ> v_get_tex_param_target_update (AddValue GL_TEXTURE_EXTERNAL_OES)
               \<circ> v_texture_bind_target_update (AddValue GL_TEXTURE_EXTERNAL_OES))
             ((AddExtensionString ''GL_OES_EGL_image_external'' f)\<lparr>oes_egl_image_external := True\<rparr>)
      else f)"

definition add_stream_texture :: "ExtensionHelper \<Rightarrow> FeatureInfo \<Rightarrow> FeatureInfo" where
  "add_stream_texture ext f =
     (if Desire ''GL_CHROMIUM_stream_texture'' ext
      then (AddExtensionString ''GL_CHROMIUM_stream_texture'' f)\<lparr>chromium_stream_texture := True\<rparr>
      else f)"

definition AddFeatures :: "string option \<Rightarrow> bool \<Rightarrow> string option \<Rightarrow> FeatureInfo \<Rightarrow> FeatureInfo" where
  "AddFeatures gl_extensions desktop desired_features f =
     (let ext = ExtensionHelper_new gl_extensions desired_features;
          f = add_base_extensions f;
          f = add_webglsl desired_features ext f;
          f = add_dxt1 ext f;
          f = add_dxt3 ext f;
          f = add_dxt5 ext f;
          f = add_anisotropic ext f;
          f = add_depth_texture ext f;
          f = add_depth_stencil ext f;
          f = add_texture_bgra ext f;
          f = add_read_bgra ext f;
          f = add_rgb8 desktop ext f;
          f = add_npot ext f;
          f = add_float ext f;
          f = add_half_float ext f;
          f = add_multisample ext f;
          f = add_depth24 desktop ext f;
          f = add_derivatives desktop ext f;
          f = add_image_external ext f;
          f = add_stream_texture ext f
      in f\<lparr>enable_texture_float_linear := enable_float_linear ext,
           enable_texture_half_float_linear := enable_half_float_linear ext,
           npot_ok := enable_npot ext\<rparr>)"

definition FeatureInfo_Initialize ::
  "string option \<Rightarrow> bool \<Rightarrow> bool \<Rightarrow> string option \<Rightarrow> FeatureInfo \<Rightarrow> FeatureInfo" where
  "FeatureInfo_Initialize gl_extensions desktop no_multisampling allowed_features f =
     AddFeatures gl_extensions desktop allowed_features (f\<lparr>disallowed_multisampling := no_multisampling\<rparr>)"

section \<open>Words of a string\<close>

text \<open>\<open>word_at\<close>: the characters of the string between two positions are a maximal run without
  spaces.\<close>

definition is_word :: "string \<Rightarrow> string \<Rightarrow> bool" where
  "is_word w str \<longleftrightarrow>
     (\<exists>a b. str = a @ w @ b \<and> CHR '' '' \<notin> set w
       \<and> (a = [] \<or> last a = CHR '' '') \<and> (b = [] \<or> hd b = CHR '' ''))"

lemma first_space_unique:
  assumes "x \<notin> set u" "x \<notin> set w" "u @ x # v = w @ x # v'"
  shows "u = w \<and> v = v'"
proof -
  have "takeWhile (\<lambda>y. y \<noteq> x) (u @ x # v) = u" "takeWhile (\<lambda>y. y \<noteq> x) (w @ x # v') = w"
    using assms(1,2) by (auto simp: takeWhile_append)
  with assms(3) show ?thesis by simp
qed

lemma is_word_split:
  assumes "CHR '' '' \<notin> set u" "w \<noteq> []"
  shows "is_word w (u @ CHR '' '' # v) \<longleftrightarrow> w = u \<or> is_word w v"
proof
  assume "is_word w (u @ CHR '' '' # v)"
  then obtain a b where ab: "u @ CHR '' '' # v = a @ w @ b" "CHR '' '' \<notin> set w"
      "a = [] \<or> last a = CHR '' ''" "b = [] \<or> hd b = CHR '' ''" unfolding is_word_def by blast
  show "w = u \<or> is_word w v"
  proof (cases "a = []")
    case True
    then have "b \<noteq> []" using ab(1,2) by (metis append.right_neutral append_Nil in_set_conv_decomp)
    then have "b = CHR '' '' # tl b" using ab(4) by (cases b) auto
    then have "u @ CHR '' '' # v = w @ CHR '' '' # tl b" using ab(1) True by simp
    then show ?thesis using first_space_unique [OF assms(1) ab(2)] by blast
  next
    case False
    then obtain a' where a': "a = a' @ [CHR '' '']" using ab(3) by (metis append_butlast_last_id)
    show ?thesis
    proof (cases "CHR '' '' \<in> set a'")
      case True
      then obtain c d where "a' = c @ CHR '' '' # d" "CHR '' '' \<notin> set c"
        by (meson split_list_first)
      then have "v = (d @ [CHR '' '']) @ w @ b" using ab(1) a'
          first_space_unique [OF assms(1), of c v "d @ [CHR '' ''] @ w @ b"] by simp
      then show ?thesis using ab(2,4) unfolding is_word_def by (metis last_snoc)
    next
      case False
      then have "v = [] @ w @ b" using ab(1) a' first_space_unique [OF assms(1), of a'] by simp
      then show ?thesis using ab(2,4) unfolding is_word_def by blast
    qed
  qed
next
  assume "w = u \<or> is_word w v"
  then show "is_word w (u @ CHR '' '' # v)"
  proof
    assume "w = u"
    then have "u @ CHR '' '' # v = [] @ w @ CHR '' '' # v" by simp
    then show ?thesis using assms(1) \<open>w = u\<close> unfolding is_word_def by (metis list.sel(1))
  next
    assume "is_word w v"
    then obtain a b where ab: "v = a @ w @ b" "CHR '' '' \<notin> set w"
        "a = [] \<or> last a = CHR '' ''" "b = [] \<or> hd b = CHR '' ''" unfolding is_word_def by blast
    then have "u @ CHR '' '' # v = (u @ CHR '' '' # a) @ w @ b"
        "last (u @ CHR '' '' # a) = CHR '' ''" by auto
    then show ?thesis using ab(2,4) unfolding is_word_def by blast
  qed
qed

lemma init_string_set_mono: "set0 \<subseteq> init_string_set str l set0"
proof (induction str l set0 rule: init_string_set.induct)
  case (1 str l set0)
  then show ?case
    by (subst init_string_set.simps) (fastforce split: option.split)
qed

lemma init_string_set_words:
  assumes "l \<le> length str" "l = 0 \<or> str ! (l - 1) = CHR '' ''" "w \<noteq> []"
  shows "w \<in> init_string_set str l set0 \<longleftrightarrow> w \<in> set0 \<or> is_word w (drop l str)"
  using assms
proof (induction str l set0 rule: init_string_set.induct)
  case (1 str l set0)
  show ?case
  proof (cases "find_space str l")
    case None
    then have no: "CHR '' '' \<notin> set (drop l str)"
      using find_space_None [OF None] by (auto simp: in_set_conv_nth)
    have "is_word w (drop l str) \<longleftrightarrow> w = drop l str"
    proof
      assume "is_word w (drop l str)"
      then obtain a b where ab: "drop l str = a @ w @ b" "a = [] \<or> last a = CHR '' ''"
          "b = [] \<or> hd b = CHR '' ''" unfolding is_word_def by blast
      have na: "CHR '' '' \<notin> set a" "CHR '' '' \<notin> set b" using no by (simp_all add: ab(1))
      then have "a = []" using ab(2) last_in_set [of a] by metis
      moreover have "b = []" using na ab(3) hd_in_set [of b] by metis
      ultimately show "w = drop l str" using ab by simp
    next
      assume "w = drop l str"
      with no show "is_word w (drop l str)"
        unfolding is_word_def by (intro exI [of _ "[]"]) simp
    qed
    then show ?thesis using None by (subst init_string_set.simps) auto
  next
    case (Some p)
    note p = find_space_Some [OF Some]
    let ?u = "take (p - l) (drop l str)"
    have split: "drop l str = ?u @ CHR '' '' # drop (p + 1) str"
      using p id_take_nth_drop [of "p - l" "drop l str"] by simp
    have u: "CHR '' '' \<notin> set ?u"
      using p(4) by (auto simp: in_set_conv_nth)
    have "w \<in> init_string_set str l set0 \<longleftrightarrow>
      (w \<in> (if p - l \<noteq> 0 then insert ?u set0 else set0) \<or> is_word w (drop (p + 1) str))"
      using 1(1) [OF Some] 1(2-) p by (subst init_string_set.simps) (simp add: Some)
    moreover have "is_word w (drop l str) \<longleftrightarrow> w = ?u \<or> is_word w (drop (p + 1) str)"
      using is_word_split [OF u 1(4), of "drop (p + 1) str"] by (simp only: split [symmetric])
    ultimately show ?thesis using 1(4) by auto
  qed
qed


lemma Have_word:
  assumes "name \<noteq> []"
  shows "Have name (ExtensionHelper_new (Some str) d) \<longleftrightarrow> is_word name str"
  using init_string_set_words [of 0 str name "{}"] assms
  by (simp add: Have_def ExtensionHelper_new_def InitStringSet_def)

section \<open>What a feature set may contain\<close>

text \<open>For each validator of enumerated values, the values \<^verbatim>\<open>AddFeatures\<close> may add to it: the groups of driver
  extensions of which one per group is needed, and whether a desktop GL has the feature anyway. The
  validators at the end only accept what ES 2.0 defines.\<close>

abbreviation "depth_texture_exts \<equiv> [''GL_ARB_depth_texture'', ''GL_OES_depth_texture'']"
abbreviation "depth_stencil_exts \<equiv> [''GL_EXT_packed_depth_stencil'', ''GL_OES_packed_depth_stencil'']"
abbreviation "bgra_exts \<equiv> [''GL_EXT_texture_format_BGRA8888'', ''GL_APPLE_texture_format_BGRA8888'', ''GL_EXT_bgra'']"
abbreviation "multisample_exts \<equiv> [''GL_EXT_framebuffer_multisample'', ''GL_ANGLE_framebuffer_multisample'']"
abbreviation "dxt1_exts \<equiv> [''GL_EXT_texture_compression_dxt1'', ''GL_EXT_texture_compression_s3tc'']"

definition value_needs ::
  "((Validators \<Rightarrow> GLenum list) \<times> (GLenum \<times> string list list \<times> bool) list) list" where
  "value_needs =
     [(v_compressed_texture_format,
        [(GL_COMPRESSED_RGB_S3TC_DXT1_EXT, [dxt1_exts], False),
         (GL_COMPRESSED_RGBA_S3TC_DXT1_EXT, [dxt1_exts], False),
         (GL_COMPRESSED_RGBA_S3TC_DXT3_EXT, [[''GL_ANGLE_texture_compression_dxt3'', ''GL_EXT_texture_compression_s3tc'']], False),
         (GL_COMPRESSED_RGBA_S3TC_DXT5_EXT, [[''GL_ANGLE_texture_compression_dxt5'', ''GL_EXT_texture_compression_s3tc'']], False)]),
      (v_frame_buffer_target,
        [(GL_READ_FRAMEBUFFER_EXT, [multisample_exts], False),
         (GL_DRAW_FRAMEBUFFER_EXT, [multisample_exts], False)]),
      (v_g_l_state,
        [(GL_MAX_TEXTURE_MAX_ANISOTROPY_EXT, [[''GL_EXT_texture_filter_anisotropic'']], False),
         (GL_READ_FRAMEBUFFER_BINDING_EXT, [multisample_exts], False),
         (GL_MAX_SAMPLES_EXT, [multisample_exts], False),
         (GL_FRAGMENT_SHADER_DERIVATIVE_HINT_OES, [[''GL_OES_standard_derivatives'']], True),
         (GL_TEXTURE_BINDING_EXTERNAL_OES, [[''GL_OES_EGL_image_external'']], False)]),
      (v_get_tex_param_target,
        [(GL_TEXTURE_EXTERNAL_OES, [[''GL_OES_EGL_image_external'']], False)]),
      (v_hint_target,
        [(GL_FRAGMENT_SHADER_DERIVATIVE_HINT_OES, [[''GL_OES_standard_derivatives'']], True)]),
      (v_pixel_type,
        [(GL_UNSIGNED_SHORT, [depth_texture_exts], False),
         (GL_UNSIGNED_INT, [depth_texture_exts], False),
         (GL_UNSIGNED_INT_24_8, [depth_texture_exts, depth_stencil_exts], False),
         (GL_FLOAT, [[''GL_ARB_texture_float'', ''GL_OES_texture_float'']], False),
         (GL_HALF_FLOAT_OES, [[''GL_ARB_texture_float'', ''GL_OES_texture_half_float'']], False)]),
      (v_read_pixel_format,
        [(GL_BGRA_EXT, [[''GL_EXT_read_format_bgra'', ''GL_EXT_bgra'']], False)]),
      (v_render_buffer_format,
        [(GL_DEPTH24_STENCIL8, [depth_stencil_exts], False),
         (GL_RGB8_OES, [[''GL_OES_rgb8_rgba8'']], True),
         (GL_RGBA8_OES, [[''GL_OES_rgb8_rgba8'']], True),
         (GL_DEPTH_COMPONENT24, [[''GL_OES_depth24'']], True)]),
      (v_render_buffer_parameter,
        [(GL_RENDERBUFFER_SAMPLES_EXT, [multisample_exts], False)]),
      (v_texture_bind_target,
        [(GL_TEXTURE_EXTERNAL_OES, [[''GL_OES_EGL_image_external'']], False)]),
      (v_texture_format,
        [(GL_DEPTH_COMPONENT, [depth_texture_exts], False),
         (GL_DEPTH_STENCIL, [depth_texture_exts, depth_stencil_exts], False),
         (GL_BGRA_EXT, [bgra_exts], False)]),
      (v_texture_internal_format,
        [(GL_DEPTH_COMPONENT, [depth_texture_exts], False),
         (GL_DEPTH_STENCIL, [depth_texture_exts, depth_stencil_exts], False),
         (GL_BGRA_EXT, [bgra_exts], False)]),
      (v_texture_parameter,
        [(GL_TEXTURE_MAX_ANISOTROPY_EXT, [[''GL_EXT_texture_filter_anisotropic'']], False),
         (GL_REQUIRED_TEXTURE_IMAGE_UNITS_OES, [[''GL_OES_EGL_image_external'']], False)])]
     @ map (\<lambda>sel. (sel, []))
       [v_attachment, v_blit_filter, v_buffer_parameter, v_buffer_target, v_buffer_usage,
        v_capability, v_cmp_function, v_draw_mode, v_dst_blend_factor, v_equation, v_face_mode,
        v_face_type, v_frame_buffer_parameter, v_get_max_index_type, v_hint_mode, v_index_type,
        v_pixel_store, v_program_parameter, v_render_buffer_target, v_shader_binary_format,
        v_shader_parameter, v_shader_precision, v_shader_type, v_src_blend_factor, v_stencil_op,
        v_string_type, v_texture_mag_filter_mode, v_texture_min_filter_mode, v_texture_target,
        v_texture_wrap_mode, v_vertex_attrib_type, v_vertex_attribute, v_vertex_pointer]"

definition has_one :: "string option \<Rightarrow> string list \<Rightarrow> bool" where
  "has_one exts names \<longleftrightarrow> (\<exists>n\<in>set names. n \<in> InitStringSet exts)"

definition value_ok :: "string option \<Rightarrow> bool \<Rightarrow> (GLenum \<times> string list list \<times> bool) list \<Rightarrow> GLenum \<Rightarrow> bool" where
  "value_ok exts desktop needs v \<longleftrightarrow>
     (\<exists>(x, groups, desk)\<in>set needs. x = v \<and> (list_all (has_one exts) groups \<or> desk \<and> desktop))"

definition values_supported :: "string option \<Rightarrow> bool \<Rightarrow> FeatureInfo \<Rightarrow> bool" where
  "values_supported exts desktop f \<longleftrightarrow>
     list_all (\<lambda>(sel, needs). \<forall>v\<in>set (sel (validators_' f)).
       v \<in> set (sel Validators_new) \<or> value_ok exts desktop needs v) value_needs"

inductive features_reachable :: "string option \<Rightarrow> bool \<Rightarrow> FeatureInfo \<Rightarrow> bool"
  for exts desktop where
  init: "features_reachable exts desktop
           (FeatureInfo_Initialize exts desktop no_multisampling allowed FeatureInfo_new)"
| add: "features_reachable exts desktop f \<Longrightarrow>
        features_reachable exts desktop (AddFeatures exts desktop desired f)"

lemma AddExtensionString_fields [simp]:
  "validators_' (AddExtensionString str f) = validators_' f"
  "disallowed_multisampling (AddExtensionString str f) = disallowed_multisampling f"
  "npot_ok (AddExtensionString str f) = npot_ok f"
  "oes_egl_image_external (AddExtensionString str f) = oes_egl_image_external f"
  "chromium_framebuffer_multisample (AddExtensionString str f) = chromium_framebuffer_multisample f"
  by (simp_all add: AddExtensionString_def)

lemma Have_new [simp]: "Have n (ExtensionHelper_new exts d) \<longleftrightarrow> n \<in> InitStringSet exts"
  by (simp add: Have_def ExtensionHelper_new_def)

lemma supported_string: "values_supported exts desktop (AddExtensionString str f) = values_supported exts desktop f"
  by (simp add: values_supported_def)

lemma supported_add:
  assumes "values_supported exts desktop f"
    and "list_all (\<lambda>(sel, needs). \<forall>v\<in>set (sel (g (validators_' f))).
       v \<in> set (sel (validators_' f)) \<or> value_ok exts desktop needs v) value_needs"
  shows "values_supported exts desktop (with_validators g f)"
  using assms unfolding values_supported_def list_all_iff with_validators_def by fastforce

lemmas feature_defs = enable_dxt1_def enable_dxt3_def enable_dxt5_def enable_depth_texture_def
  enable_texture_format_bgra8888_def enable_read_format_bgra_def float_feature_def all_float_def
  enable_float_def enable_half_float_def HaveAndDesire_def

lemmas supported_simps = supported_string feature_defs value_needs_def value_ok_def has_one_def

lemma flag_supported [simp]:
  "values_supported exts desktop (f\<lparr>chromium_framebuffer_multisample := b\<rparr>) = values_supported exts desktop f"
  "values_supported exts desktop (f\<lparr>oes_standard_derivatives := b\<rparr>) = values_supported exts desktop f"
  "values_supported exts desktop (f\<lparr>oes_egl_image_external := b\<rparr>) = values_supported exts desktop f"
  "values_supported exts desktop (f\<lparr>chromium_webglsl := b\<rparr>) = values_supported exts desktop f"
  "values_supported exts desktop (f\<lparr>chromium_stream_texture := b\<rparr>) = values_supported exts desktop f"
  "values_supported exts desktop (f\<lparr>enable_texture_float_linear := b\<rparr>) = values_supported exts desktop f"
  "values_supported exts desktop (f\<lparr>enable_texture_half_float_linear := b\<rparr>) = values_supported exts desktop f"
  "values_supported exts desktop (f\<lparr>npot_ok := b\<rparr>) = values_supported exts desktop f"
  "values_supported exts desktop (f\<lparr>disallowed_multisampling := b\<rparr>) = values_supported exts desktop f"
  by (simp_all add: values_supported_def)

lemma blocks_supported:
  assumes "values_supported exts desktop f"
  shows
    "values_supported exts desktop (add_dxt1 (ExtensionHelper_new exts d) f)"
    "values_supported exts desktop (add_dxt3 (ExtensionHelper_new exts d) f)"
    "values_supported exts desktop (add_dxt5 (ExtensionHelper_new exts d) f)"
    "values_supported exts desktop (add_anisotropic (ExtensionHelper_new exts d) f)"
    "values_supported exts desktop (add_depth_texture (ExtensionHelper_new exts d) f)"
    "values_supported exts desktop (add_texture_bgra (ExtensionHelper_new exts d) f)"
    "values_supported exts desktop (add_read_bgra (ExtensionHelper_new exts d) f)"
    "values_supported exts desktop (add_rgb8 desktop (ExtensionHelper_new exts d) f)"
    "values_supported exts desktop (add_float (ExtensionHelper_new exts d) f)"
    "values_supported exts desktop (add_half_float (ExtensionHelper_new exts d) f)"
    "values_supported exts desktop (add_multisample (ExtensionHelper_new exts d) f)"
    "values_supported exts desktop (add_depth24 desktop (ExtensionHelper_new exts d) f)"
    "values_supported exts desktop (add_derivatives desktop (ExtensionHelper_new exts d) f)"
    "values_supported exts desktop (add_image_external (ExtensionHelper_new exts d) f)"
  subgoal using assms unfolding add_dxt1_def Let_def by (auto simp: supported_simps intro!: supported_add)
  subgoal using assms unfolding add_dxt3_def Let_def by (auto simp: supported_simps intro!: supported_add)
  subgoal using assms unfolding add_dxt5_def Let_def by (auto simp: supported_simps intro!: supported_add)
  subgoal using assms unfolding add_anisotropic_def Let_def by (auto simp: supported_simps intro!: supported_add)
  subgoal using assms unfolding add_depth_texture_def Let_def by (auto simp: supported_simps intro!: supported_add)
  subgoal using assms unfolding add_texture_bgra_def Let_def by (auto simp: supported_simps intro!: supported_add)
  subgoal using assms unfolding add_read_bgra_def Let_def by (auto simp: supported_simps intro!: supported_add)
  subgoal using assms unfolding add_rgb8_def Let_def by (auto simp: supported_simps intro!: supported_add)
  subgoal using assms unfolding add_float_def Let_def by (auto simp: supported_simps intro!: supported_add)
  subgoal using assms unfolding add_half_float_def Let_def by (auto simp: supported_simps intro!: supported_add)
  subgoal using assms unfolding add_multisample_def Let_def by (auto simp: supported_simps intro!: supported_add)
  subgoal using assms unfolding add_depth24_def Let_def by (auto simp: supported_simps intro!: supported_add)
  subgoal using assms unfolding add_derivatives_def Let_def by (auto simp: supported_simps intro!: supported_add)
  subgoal using assms unfolding add_image_external_def Let_def by (auto simp: supported_simps intro!: supported_add)
  done

lemma add_depth_stencil_supported:
  assumes "values_supported exts desktop f"
  shows "values_supported exts desktop (add_depth_stencil (ExtensionHelper_new exts d) f)"
  using assms unfolding add_depth_stencil_def add_depth_stencil_texture_def
  by (auto simp: supported_simps intro!: supported_add)

lemma strings_supported [simp]:
  "values_supported exts desktop (add_base_extensions f) = values_supported exts desktop f"
  "values_supported exts desktop (add_webglsl d ext f) = values_supported exts desktop f"
  "values_supported exts desktop (add_npot ext f) = values_supported exts desktop f"
  "values_supported exts desktop (add_stream_texture ext f) = values_supported exts desktop f"
  by (simp_all add: add_base_extensions_def add_webglsl_def add_npot_def add_stream_texture_def
      supported_string)

lemma AddFeatures_supported:
  "values_supported exts desktop f \<Longrightarrow> values_supported exts desktop (AddFeatures exts desktop d f)"
  by (simp add: AddFeatures_def Let_def blocks_supported add_depth_stencil_supported)

lemma new_supported: "values_supported exts desktop FeatureInfo_new"
  by (simp add: values_supported_def FeatureInfo_new_def list_all_iff)

text \<open>C33: in every reachable feature set, a validator of enumerated values accepts, beyond the values of
  ES 2.0, only values of the table above, and such a value only if the driver names one extension of each
  group the value needs, as a whole word of its extension string, or is a desktop GL where that suffices.\<close>

theorem accepted_values_supported:
  assumes "features_reachable exts desktop f"
  shows "\<forall>(sel, needs)\<in>set value_needs. \<forall>v\<in>set (sel (validators_' f)).
    v \<in> set (sel Validators_new) \<or>
    (\<exists>(x, groups, desk)\<in>set needs. x = v \<and>
       ((\<forall>names\<in>set groups. \<exists>n\<in>set names. \<exists>str. exts = Some str \<and> is_word n str) \<or> desk \<and> desktop))"
proof -
  have sup: "values_supported exts desktop f"
    using assms
    by induction (simp_all add: FeatureInfo_Initialize_def AddFeatures_supported new_supported)
  have word: "\<exists>str. exts = Some str \<and> is_word n str" if "n \<in> InitStringSet exts" "n \<noteq> []" for n
  proof (cases exts)
    case None
    then show ?thesis using that by (simp add: InitStringSet_def init_string_set.simps find_space_def)
  next
    case (Some str)
    then show ?thesis using that Have_word [of n str None] by simp
  qed
  have names: "[] \<notin> set names"
    if "(sel, needs) \<in> set value_needs" "(x, groups, desk) \<in> set needs" "names \<in> set groups"
    for sel needs x groups desk names
    using that by (auto simp: value_needs_def)
  have "\<exists>(x, groups, desk)\<in>set needs. x = v \<and>
      ((\<forall>names\<in>set groups. \<exists>n\<in>set names. \<exists>str. exts = Some str \<and> is_word n str) \<or> desk \<and> desktop)"
    if s: "(sel, needs) \<in> set value_needs" and ok: "value_ok exts desktop needs v" for sel needs v
  proof -
    obtain groups desk where g: "(v, groups, desk) \<in> set needs"
      "list_all (has_one exts) groups \<or> desk \<and> desktop"
      using ok by (auto simp: value_ok_def)
    have "\<exists>n\<in>set ns. \<exists>str. exts = Some str \<and> is_word n str" if "ns \<in> set groups" "has_one exts ns" for ns
      using that(2) names [OF s g(1) that(1)] word unfolding has_one_def by metis
    then show ?thesis using g unfolding list_all_iff by (intro bexI [OF _ g(1)]) auto
  qed
  then show ?thesis using sup unfolding values_supported_def list_all_iff by fastforce
qed

text \<open>A driver with one float extension.\<close>

lemma stream_validators [simp]: "validators_' (add_stream_texture ext f) = validators_' f"
  by (simp add: add_stream_texture_def)

lemma float_type_kept:
  "GL_FLOAT \<in> set (v_pixel_type (validators_' f)) \<Longrightarrow>
    GL_FLOAT \<in> set (v_pixel_type (validators_' (add_half_float ext f)))"
  "GL_FLOAT \<in> set (v_pixel_type (validators_' f)) \<Longrightarrow>
    GL_FLOAT \<in> set (v_pixel_type (validators_' (add_multisample ext f)))"
  "GL_FLOAT \<in> set (v_pixel_type (validators_' f)) \<Longrightarrow>
    GL_FLOAT \<in> set (v_pixel_type (validators_' (add_depth24 desktop ext f)))"
  "GL_FLOAT \<in> set (v_pixel_type (validators_' f)) \<Longrightarrow>
    GL_FLOAT \<in> set (v_pixel_type (validators_' (add_derivatives desktop ext f)))"
  "GL_FLOAT \<in> set (v_pixel_type (validators_' f)) \<Longrightarrow>
    GL_FLOAT \<in> set (v_pixel_type (validators_' (add_image_external ext f)))"
  by (simp_all add: add_half_float_def add_multisample_def add_depth24_def add_derivatives_def
      add_image_external_def with_validators_def Let_def)

lemma AddFeatures_float:
  assumes "enable_float (ExtensionHelper_new exts d)"
  shows "GL_FLOAT \<in> set (v_pixel_type (validators_' (AddFeatures exts desktop d f)))"
proof -
  have "GL_FLOAT \<in> set (v_pixel_type (validators_' (add_float (ExtensionHelper_new exts d) f)))" for f
    using assms by (simp add: add_float_def with_validators_def Let_def)
  then show ?thesis by (simp add: AddFeatures_def Let_def float_type_kept)
qed

theorem accepted_values_supported_witness:
  "let f = FeatureInfo_Initialize (Some ''GL_EXT_bgra GL_OES_texture_float'') False False None FeatureInfo_new
   in GL_FLOAT \<in> set (v_pixel_type (validators_' f)) \<and>
      (\<exists>n\<in>{''GL_ARB_texture_float'', ''GL_OES_texture_float''}. is_word n ''GL_EXT_bgra GL_OES_texture_float'')"
proof -
  let ?f = "FeatureInfo_Initialize (Some ''GL_EXT_bgra GL_OES_texture_float'') False False None FeatureInfo_new"
  have "''GL_EXT_bgra GL_OES_texture_float'' = ''GL_EXT_bgra '' @ ''GL_OES_texture_float'' @ []" by simp
  then have "is_word ''GL_OES_texture_float'' ''GL_EXT_bgra GL_OES_texture_float''"
    unfolding is_word_def by (intro exI [of _ "''GL_EXT_bgra ''"] exI [of _ "[]"]) simp
  then have "enable_float (ExtensionHelper_new (Some ''GL_EXT_bgra GL_OES_texture_float'') None)"
    by (simp add: enable_float_def float_feature_def HaveAndDesire_def Have_word del: Have_new)
      (simp add: Desire_def ExtensionHelper_new_def)
  then have f: "GL_FLOAT \<in> set (v_pixel_type (validators_' ?f))"
    by (simp add: FeatureInfo_Initialize_def AddFeatures_float)
  let ?needs = "[(GL_UNSIGNED_SHORT, [depth_texture_exts], False), (GL_UNSIGNED_INT, [depth_texture_exts], False),
    (GL_UNSIGNED_INT_24_8, [depth_texture_exts, depth_stencil_exts], False),
    (GL_FLOAT, [[''GL_ARB_texture_float'', ''GL_OES_texture_float'']], False),
    (GL_HALF_FLOAT_OES, [[''GL_ARB_texture_float'', ''GL_OES_texture_half_float'']], False)]"
  have mem: "(v_pixel_type, ?needs) \<in> set value_needs" by (simp add: value_needs_def)
  have new: "GL_FLOAT \<notin> set (v_pixel_type Validators_new)"
    by (simp add: Validators_new_def valid_pixel_type_table_def)
  have "\<exists>n\<in>{''GL_ARB_texture_float'', ''GL_OES_texture_float''}.
      is_word n ''GL_EXT_bgra GL_OES_texture_float''"
    using bspec [OF accepted_values_supported [OF features_reachable.init
      [of "Some ''GL_EXT_bgra GL_OES_texture_float''" False False None]] mem] f new by auto
  then show ?thesis using f by (simp only: Let_def)
qed

section \<open>Requests\<close>

lemma prefix_AddExtensionString [simp]:
  "prefix s (extensions_' f) \<Longrightarrow> prefix s (extensions_' (AddExtensionString str f))"
  by (simp add: AddExtensionString_def)

lemma extensions_with_validators [simp]: "extensions_' (with_validators g f) = extensions_' f"
  by (simp add: with_validators_def)

lemmas block_defs = add_base_extensions_def add_webglsl_def add_dxt1_def add_dxt3_def add_dxt5_def
  add_anisotropic_def add_depth_texture_def add_depth_stencil_def add_depth_stencil_texture_def
  add_texture_bgra_def add_read_bgra_def add_rgb8_def add_npot_def add_float_def add_half_float_def
  add_multisample_def add_depth24_def add_derivatives_def add_image_external_def add_stream_texture_def

lemma prefix_blocks:
  assumes "prefix s (extensions_' f)"
  shows
    "prefix s (extensions_' (add_base_extensions f))"
    "prefix s (extensions_' (add_webglsl d ext f))"
    "prefix s (extensions_' (add_dxt1 ext f))"
    "prefix s (extensions_' (add_dxt3 ext f))"
    "prefix s (extensions_' (add_dxt5 ext f))"
    "prefix s (extensions_' (add_anisotropic ext f))"
    "prefix s (extensions_' (add_depth_texture ext f))"
    "prefix s (extensions_' (add_depth_stencil ext f))"
    "prefix s (extensions_' (add_texture_bgra ext f))"
    "prefix s (extensions_' (add_read_bgra ext f))"
    "prefix s (extensions_' (add_rgb8 desktop ext f))"
    "prefix s (extensions_' (add_npot ext f))"
    "prefix s (extensions_' (add_float ext f))"
    "prefix s (extensions_' (add_half_float ext f))"
    "prefix s (extensions_' (add_multisample ext f))"
    "prefix s (extensions_' (add_depth24 desktop ext f))"
    "prefix s (extensions_' (add_derivatives desktop ext f))"
    "prefix s (extensions_' (add_image_external ext f))"
    "prefix s (extensions_' (add_stream_texture ext f))"
  using assms by (simp_all add: block_defs Let_def)

lemma AddFeatures_prefix: "prefix (extensions_' f) (extensions_' (AddFeatures exts desktop d f))"
  by (simp add: AddFeatures_def Let_def prefix_blocks)

lemma Desire_new:
  "name \<noteq> [] \<Longrightarrow> Desire name (ExtensionHelper_new exts d) \<longleftrightarrow>
    (case d of None \<Rightarrow> True | Some str \<Rightarrow> str = ''*'' \<or> is_word name str)"
  using init_string_set_words [of 0 _ name "{}"]
  by (auto simp: Desire_def ExtensionHelper_new_def InitStringSet_def split: option.split)

text \<open>a request for features never takes an extension back from the string the client reads, but
  whether textures of arbitrary size are allowed afterwards depends on that last request alone: they
  are, exactly when the driver names one of the two extensions and the request is for everything or has
  the word \<^verbatim>\<open>GL_OES_texture_npot\<close>. A request for some other feature therefore turns them off again, while
  the string still names the extension.\<close>

theorem npot_follows_last_request:
  "prefix (extensions_' f) (extensions_' (AddFeatures (Some exts) desktop d f)) \<and>
   (npot_ok (AddFeatures (Some exts) desktop d f) \<longleftrightarrow>
     (is_word ''GL_ARB_texture_non_power_of_two'' exts \<or> is_word ''GL_OES_texture_npot'' exts) \<and>
     (case d of None \<Rightarrow> True | Some str \<Rightarrow> str = ''*'' \<or> is_word ''GL_OES_texture_npot'' str))"
proof -
  have "npot_ok (AddFeatures (Some exts) desktop d f)
      \<longleftrightarrow> enable_npot (ExtensionHelper_new (Some exts) d)"
    by (simp add: AddFeatures_def Let_def)
  then show ?thesis
    using AddFeatures_prefix by (simp add: enable_npot_def Desire_new Have_word del: Have_new) blast
qed

end
