(* ===== verification/Texture_Manager.thy ===== *)
theory Texture_Manager
  imports Gles2_Cmd_Utils Feature_Info Cmd_Buffer_Common "HOL-Library.Monad_Syntax"
begin

text \<open>
  The texture manager of the service (\<^verbatim>\<open>gpu/command_buffer/service/texture_manager.{h,cc}\<close>): for every
  texture the levels the client has defined, whether GL may sample it, and how many of all textures it
  may not.

  Texture objects are reference counted and shared by the manager, the texture units of the decoders
  and the framebuffers; they live in a store, a list indexed by address. \<^const>\<open>None\<close> as the result of an
  operation is an access outside one of the vectors of levels. Counters of objects are integers. The
  member \<^verbatim>\<open>has_been_bound_\<close>, which nothing reads, is left out.
\<close>

section \<open>Level sizes\<close>

text \<open>\<^verbatim>\<open>Log2Floor\<close> of \<^verbatim>\<open>base/bits.h\<close>: the loop over the shifts 16, 8, 4, 2, 1.\<close>

fun log2_loop :: "nat list \<Rightarrow> uint32 \<Rightarrow> nat \<Rightarrow> nat" where
  "log2_loop [] value log = log"
| "log2_loop (shift # shifts) value log =
     (let x = drop_bit shift value
      in if x \<noteq> 0 then log2_loop shifts x (log + shift) else log2_loop shifts value log)"

definition Log2Floor :: "uint32 \<Rightarrow> int" where
  "Log2Floor n = (if n = 0 then - 1 else int (log2_loop [16, 8, 4, 2, 1] n 0))"

definition smax :: "GLint \<Rightarrow> GLint \<Rightarrow> GLint" where
  "smax a b = (if sint a < sint b then b else a)"

definition ComputeMipMapCount :: "GLsizei \<Rightarrow> GLsizei \<Rightarrow> GLsizei \<Rightarrow> int" where
  "ComputeMipMapCount width height depth = 1 + Log2Floor (smax (smax width height) depth)"

text \<open>\<^verbatim>\<open>std::max(1, x >> 1)\<close>\<close>

definition half_size :: "GLsizei \<Rightarrow> GLsizei" where
  "half_size x = smax 1 (signed_drop_bit 1 x)"

definition GLTargetToFaceIndex :: "GLenum \<Rightarrow> nat" where
  "GLTargetToFaceIndex target =
     (if target \<in> {GL_TEXTURE_2D, GL_TEXTURE_EXTERNAL_OES} then 0
      else if target = GL_TEXTURE_CUBE_MAP_POSITIVE_X then 0
      else if target = GL_TEXTURE_CUBE_MAP_NEGATIVE_X then 1
      else if target = GL_TEXTURE_CUBE_MAP_POSITIVE_Y then 2
      else if target = GL_TEXTURE_CUBE_MAP_NEGATIVE_Y then 3
      else if target = GL_TEXTURE_CUBE_MAP_POSITIVE_Z then 4
      else if target = GL_TEXTURE_CUBE_MAP_NEGATIVE_Z then 5
      else 0)"

definition FaceIndexToGLTarget :: "nat \<Rightarrow> GLenum" where
  "FaceIndexToGLTarget index =
     (if index = 0 then GL_TEXTURE_CUBE_MAP_POSITIVE_X
      else if index = 1 then GL_TEXTURE_CUBE_MAP_NEGATIVE_X
      else if index = 2 then GL_TEXTURE_CUBE_MAP_POSITIVE_Y
      else if index = 3 then GL_TEXTURE_CUBE_MAP_NEGATIVE_Y
      else if index = 4 then GL_TEXTURE_CUBE_MAP_POSITIVE_Z
      else if index = 5 then GL_TEXTURE_CUBE_MAP_NEGATIVE_Z
      else 0)"

section \<open>Texture objects\<close>

record LevelInfo =
  lvl_valid :: bool
  lvl_internal_format :: GLenum
  lvl_width :: GLsizei
  lvl_height :: GLsizei
  lvl_depth :: GLsizei
  lvl_border :: GLint
  lvl_format :: GLenum
  lvl_type :: GLenum

definition LevelInfo_new :: LevelInfo where
  "LevelInfo_new =
     \<lparr>lvl_valid = False, lvl_internal_format = 0, lvl_width = 0, lvl_height = 0, lvl_depth = 0,
      lvl_border = 0, lvl_format = 0, lvl_type = 0\<rparr>"

record TextureInfo =
  level_infos_' :: "LevelInfo list list"
  tex_service_id_' :: GLuint
  deleted_' :: bool
  tex_target_' :: GLenum
  min_filter_' :: GLenum
  mag_filter_' :: GLenum
  wrap_s_' :: GLenum
  wrap_t_' :: GLenum
  max_level_set_' :: GLint
  texture_complete_' :: bool
  cube_complete_' :: bool
  npot_' :: bool
  framebuffer_attachment_count_' :: int
  owned_' :: bool
  stream_texture_' :: bool

definition TextureInfo_new :: "GLuint \<Rightarrow> TextureInfo" where
  "TextureInfo_new service_id =
     \<lparr>level_infos_' = [], tex_service_id_' = service_id, deleted_' = False, tex_target_' = 0,
      min_filter_' = GL_NEAREST_MIPMAP_LINEAR, mag_filter_' = GL_LINEAR, wrap_s_' = GL_REPEAT,
      wrap_t_' = GL_REPEAT, max_level_set_' = - 1, texture_complete_' = False,
      cube_complete_' = False, npot_' = False, framebuffer_attachment_count_' = 0, owned_' = True,
      stream_texture_' = False\<rparr>"

definition Texture_CanRenderTo :: "TextureInfo \<Rightarrow> bool" where
  "Texture_CanRenderTo t \<longleftrightarrow> \<not> stream_texture_' t \<and> tex_target_' t \<noteq> GL_TEXTURE_EXTERNAL_OES"

definition Texture_IsValid :: "TextureInfo \<Rightarrow> bool" where
  "Texture_IsValid t \<longleftrightarrow> tex_target_' t \<noteq> 0 \<and> \<not> deleted_' t"

definition SetNotOwned :: "TextureInfo \<Rightarrow> TextureInfo" where
  "SetNotOwned t = t\<lparr>owned_' := False\<rparr>"

definition IsAttachedToFramebuffer :: "TextureInfo \<Rightarrow> bool" where
  "IsAttachedToFramebuffer t \<longleftrightarrow> framebuffer_attachment_count_' t \<noteq> 0"

definition AttachToFramebuffer :: "TextureInfo \<Rightarrow> TextureInfo" where
  "AttachToFramebuffer t = t\<lparr>framebuffer_attachment_count_' := framebuffer_attachment_count_' t + 1\<rparr>"

definition DetachFromFramebuffer :: "TextureInfo \<Rightarrow> TextureInfo" where
  "DetachFromFramebuffer t = t\<lparr>framebuffer_attachment_count_' := framebuffer_attachment_count_' t - 1\<rparr>"

definition IsStreamTexture :: "TextureInfo \<Rightarrow> bool" where
  "IsStreamTexture t = stream_texture_' t"

definition SetStreamTexture :: "bool \<Rightarrow> TextureInfo \<Rightarrow> TextureInfo" where
  "SetStreamTexture stream_texture t = t\<lparr>stream_texture_' := stream_texture\<rparr>"

definition Texture_MarkAsDeleted :: "TextureInfo \<Rightarrow> TextureInfo" where
  "Texture_MarkAsDeleted t = t\<lparr>tex_service_id_' := 0, deleted_' := True\<rparr>"

definition NeedsMips :: "TextureInfo \<Rightarrow> bool" where
  "NeedsMips t \<longleftrightarrow> min_filter_' t \<noteq> GL_NEAREST \<and> min_filter_' t \<noteq> GL_LINEAR"

definition CanRender :: "FeatureInfo \<Rightarrow> TextureInfo \<Rightarrow> bool" where
  "CanRender F t =
     (if tex_target_' t = 0 \<or> deleted_' t then False
      else let needs_mips = NeedsMips t
           in if npot_' t \<and> \<not> npot_ok F then
                \<not> needs_mips \<and> wrap_s_' t = GL_CLAMP_TO_EDGE \<and> wrap_t_' t = GL_CLAMP_TO_EDGE
              else if needs_mips then
                if tex_target_' t = GL_TEXTURE_2D then texture_complete_' t
                else texture_complete_' t \<and> cube_complete_' t
              else True)"

definition vector_resize :: "nat \<Rightarrow> 'a \<Rightarrow> 'a list \<Rightarrow> 'a list" where
  "vector_resize n x xs = take n xs @ replicate (n - length xs) x"

definition Texture_SetTarget :: "GLenum \<Rightarrow> GLint \<Rightarrow> TextureInfo \<Rightarrow> TextureInfo" where
  "Texture_SetTarget target max_levels t =
     (let num_faces = (if target = GL_TEXTURE_CUBE_MAP then 6 else 1);
          t = t\<lparr>tex_target_' := target,
                level_infos_' := map (vector_resize (unat max_levels) LevelInfo_new)
                                   (vector_resize num_faces [] (level_infos_' t))\<rparr>
      in if target = GL_TEXTURE_EXTERNAL_OES
         then t\<lparr>min_filter_' := GL_LINEAR, wrap_s_' := GL_CLAMP_TO_EDGE, wrap_t_' := GL_CLAMP_TO_EDGE\<rparr>
         else t)"

subsection \<open>Completeness\<close>

text \<open>The loops of \<^verbatim>\<open>Update\<close>: over the first levels of the faces, over the levels of a face, and over
  the faces.\<close>

fun npot_loop :: "LevelInfo list list \<Rightarrow> bool option" where
  "npot_loop [] = Some False"
| "npot_loop ([] # faces) = None"
| "npot_loop ((info # _) # faces) =
     (if IsNPOT (lvl_width info) \<or> IsNPOT (lvl_height info) \<or> IsNPOT (lvl_depth info)
      then Some True else npot_loop faces)"

definition level_matches :: "LevelInfo \<Rightarrow> GLsizei \<Rightarrow> GLsizei \<Rightarrow> GLsizei \<Rightarrow> LevelInfo \<Rightarrow> bool" where
  "level_matches info width height depth level0 \<longleftrightarrow>
     lvl_valid info \<and> lvl_width info = width \<and> lvl_height info = height \<and> lvl_depth info = depth
     \<and> lvl_internal_format info = lvl_internal_format level0 \<and> lvl_format info = lvl_format level0
     \<and> lvl_type info = lvl_type level0"

fun mip_loop :: "LevelInfo \<Rightarrow> LevelInfo list \<Rightarrow> nat \<Rightarrow> nat \<Rightarrow> GLsizei \<Rightarrow> GLsizei \<Rightarrow> GLsizei \<Rightarrow> bool option" where
  "mip_loop level0 face jj 0 width height depth = Some True"
| "mip_loop level0 face jj (Suc n) width height depth =
     (let width = half_size width; height = half_size height; depth = half_size depth
      in if jj \<ge> length face then None
         else if \<not> level_matches (face ! jj) width height depth level0 then Some False
         else mip_loop level0 face (jj + 1) n width height depth)"

fun face_loop ::
  "LevelInfo \<Rightarrow> int \<Rightarrow> bool \<Rightarrow> bool \<Rightarrow> LevelInfo list list \<Rightarrow> (bool \<times> bool) option" where
  "face_loop first_face levels_needed texture_complete cube_complete [] =
     Some (texture_complete, cube_complete)"
| "face_loop first_face levels_needed texture_complete cube_complete (face # faces) =
     (if \<not> (cube_complete \<or> texture_complete) then Some (texture_complete, cube_complete)
      else case face of
        [] \<Rightarrow> None
      | level0 # _ \<Rightarrow> do {
          ok \<leftarrow> mip_loop level0 face 1 (nat (levels_needed - 1))
                  (lvl_width level0) (lvl_height level0) (lvl_depth level0);
          face_loop first_face levels_needed (texture_complete \<and> ok)
            (cube_complete
              \<and> level_matches level0 (lvl_width first_face) (lvl_height first_face) 1 first_face)
            faces
        })"

text \<open>The value of \<^verbatim>\<open>texture_complete_\<close> when the loop over the faces starts.\<close>

definition starts_complete :: "FeatureInfo \<Rightarrow> LevelInfo \<Rightarrow> TextureInfo \<Rightarrow> bool" where
  "starts_complete F first_face t =
     (let levels_needed = ComputeMipMapCount (lvl_width first_face) (lvl_height first_face)
                            (lvl_depth first_face);
          texture_complete = (sint (max_level_set_' t) \<ge> levels_needed - 1
                                \<and> sint (max_level_set_' t) \<ge> 0);
          texture_complete = (if lvl_width first_face = 0 \<or> lvl_height first_face = 0 then False
                              else texture_complete);
          other_filter = (min_filter_' t \<noteq> GL_NEAREST_MIPMAP_NEAREST \<or> mag_filter_' t \<noteq> GL_NEAREST)
      in if lvl_type first_face = GL_FLOAT \<and> \<not> enable_texture_float_linear F \<and> other_filter
         then False
         else if lvl_type first_face = GL_HALF_FLOAT_OES
           \<and> \<not> enable_texture_half_float_linear F \<and> other_filter
         then False
         else texture_complete)"

definition Texture_Update :: "FeatureInfo \<Rightarrow> TextureInfo \<Rightarrow> TextureInfo option" where
  "Texture_Update F t =
     (if level_infos_' t = [] then
        Some (t\<lparr>npot_' := False, texture_complete_' := False, cube_complete_' := False\<rparr>)
      else do {
        npot \<leftarrow> npot_loop (level_infos_' t);
        first_face \<leftarrow> (case hd (level_infos_' t) of [] \<Rightarrow> None | info # _ \<Rightarrow> Some info);
        (texture_complete, cube_complete) \<leftarrow>
          face_loop first_face
            (ComputeMipMapCount (lvl_width first_face) (lvl_height first_face) (lvl_depth first_face))
            (starts_complete F first_face t)
            (length (level_infos_' t) = 6 \<and> lvl_width first_face = lvl_height first_face)
            (level_infos_' t);
        Some (t\<lparr>npot_' := npot, texture_complete_' := texture_complete,
                cube_complete_' := cube_complete\<rparr>)
      })"

definition Texture_SetLevelInfo ::
  "FeatureInfo \<Rightarrow> GLenum \<Rightarrow> GLint \<Rightarrow> GLenum \<Rightarrow> GLsizei \<Rightarrow> GLsizei \<Rightarrow> GLsizei \<Rightarrow> GLint \<Rightarrow> GLenum \<Rightarrow> GLenum
    \<Rightarrow> TextureInfo \<Rightarrow> TextureInfo option" where
  "Texture_SetLevelInfo F target level internal_format width height depth border format type t =
     (let i = GLTargetToFaceIndex target; faces = level_infos_' t
      in if i < length faces \<and> 0 \<le> sint level \<and> unat level < length (faces ! i) then
           Texture_Update F
             (t\<lparr>level_infos_' := faces[i := (faces ! i)[unat level :=
                  \<lparr>lvl_valid = True, lvl_internal_format = internal_format, lvl_width = width,
                   lvl_height = height, lvl_depth = depth, lvl_border = border, lvl_format = format,
                   lvl_type = type\<rparr>]],
                max_level_set_' := smax (max_level_set_' t) level\<rparr>)
         else None)"

subsection \<open>Mipmaps\<close>

fun can_generate_loop :: "LevelInfo \<Rightarrow> LevelInfo list list \<Rightarrow> bool option" where
  "can_generate_loop first [] = Some True"
| "can_generate_loop first ([] # faces) = None"
| "can_generate_loop first ((info # _) # faces) =
     (if \<not> level_matches info (lvl_width first) (lvl_height first) 1 first then Some False
      else can_generate_loop first faces)"

definition CanGenerateMipmaps :: "FeatureInfo \<Rightarrow> TextureInfo \<Rightarrow> bool option" where
  "CanGenerateMipmaps F t =
     (if npot_' t \<and> \<not> npot_ok F \<or> level_infos_' t = [] \<or> deleted_' t
         \<or> tex_target_' t = GL_TEXTURE_EXTERNAL_OES then Some False
      else case hd (level_infos_' t) of
        [] \<Rightarrow> None
      | first # _ \<Rightarrow> can_generate_loop first (level_infos_' t))"

fun mips_of_face ::
  "FeatureInfo \<Rightarrow> GLenum \<Rightarrow> LevelInfo \<Rightarrow> nat \<Rightarrow> nat \<Rightarrow> GLsizei \<Rightarrow> GLsizei \<Rightarrow> GLsizei
    \<Rightarrow> TextureInfo \<Rightarrow> TextureInfo option" where
  "mips_of_face F target info1 level 0 width height depth t = Some t"
| "mips_of_face F target info1 level (Suc n) width height depth t =
     (let width = half_size width; height = half_size height; depth = half_size depth
      in do {
        t \<leftarrow> Texture_SetLevelInfo F target (word_of_nat level) (lvl_internal_format info1)
              width height depth (lvl_border info1) (lvl_format info1) (lvl_type info1) t;
        mips_of_face F target info1 (level + 1) n width height depth t
      })"

fun mips_of_faces :: "FeatureInfo \<Rightarrow> nat list \<Rightarrow> TextureInfo \<Rightarrow> TextureInfo option" where
  "mips_of_faces F [] t = Some t"
| "mips_of_faces F (i # is) t =
     (case level_infos_' t ! i of
        [] \<Rightarrow> None
      | info1 # _ \<Rightarrow> do {
          t \<leftarrow> mips_of_face F
                (if tex_target_' t = GL_TEXTURE_2D then GL_TEXTURE_2D else FaceIndexToGLTarget i)
                info1 1
                (nat (ComputeMipMapCount (lvl_width info1) (lvl_height info1) (lvl_depth info1) - 1))
                (lvl_width info1) (lvl_height info1) (lvl_depth info1) t;
          mips_of_faces F is t
        })"

definition Texture_MarkMipmapsGenerated :: "FeatureInfo \<Rightarrow> TextureInfo \<Rightarrow> (bool \<times> TextureInfo) option" where
  "Texture_MarkMipmapsGenerated F t = do {
     ok \<leftarrow> CanGenerateMipmaps F t;
     if \<not> ok then Some (False, t)
     else map_option (\<lambda>t. (True, t)) (mips_of_faces F [0..<length (level_infos_' t)] t)
   }"

subsection \<open>Queries and parameters\<close>

definition level_at :: "GLenum \<Rightarrow> GLint \<Rightarrow> TextureInfo \<Rightarrow> LevelInfo option" where
  "level_at face level t =
     (let i = GLTargetToFaceIndex face
      in if \<not> deleted_' t \<and> 0 \<le> sint level \<and> i < length (level_infos_' t)
            \<and> unat level < length (level_infos_' t ! i)
         then Some (level_infos_' t ! i ! unat level) else None)"

text \<open>\<^verbatim>\<open>SafeAdd\<close> on signed operands.\<close>

definition SafeAddInt :: "GLint \<Rightarrow> GLint \<Rightarrow> bool \<times> GLint" where
  "SafeAddInt a b = (if sint (a + b) < sint a then (False, 0) else (True, a + b))"

definition ValidForTexture ::
  "GLenum \<Rightarrow> GLint \<Rightarrow> GLint \<Rightarrow> GLint \<Rightarrow> GLsizei \<Rightarrow> GLsizei \<Rightarrow> GLenum \<Rightarrow> GLenum \<Rightarrow> TextureInfo \<Rightarrow> bool" where
  "ValidForTexture face level xoffset yoffset width height format type t =
     (case level_at face level t of
        None \<Rightarrow> False
      | Some info \<Rightarrow>
          let (ok, right) = SafeAddInt xoffset width
          in if \<not> ok then False
             else let (ok, top) = SafeAddInt yoffset height
                  in if \<not> ok then False
                     else 0 \<le> sint xoffset \<and> 0 \<le> sint yoffset
                       \<and> sint right \<le> sint (lvl_width info) \<and> sint top \<le> sint (lvl_height info)
                       \<and> format = lvl_internal_format info \<and> type = lvl_type info)"

definition GetLevelSize :: "GLenum \<Rightarrow> GLint \<Rightarrow> TextureInfo \<Rightarrow> (GLsizei \<times> GLsizei) option" where
  "GetLevelSize face level t =
     (case level_at face level t of
        None \<Rightarrow> None
      | Some info \<Rightarrow> if lvl_valid info then Some (lvl_width info, lvl_height info) else None)"

definition GetLevelType :: "GLenum \<Rightarrow> GLint \<Rightarrow> TextureInfo \<Rightarrow> (GLenum \<times> GLenum) option" where
  "GetLevelType face level t =
     (case level_at face level t of
        None \<Rightarrow> None
      | Some info \<Rightarrow> if lvl_valid info then Some (lvl_type info, lvl_internal_format info) else None)"

text \<open>The first half of \<^verbatim>\<open>SetParameter\<close>: the texture with the parameter set, if it is accepted.\<close>

definition set_parameter :: "FeatureInfo \<Rightarrow> GLenum \<Rightarrow> GLint \<Rightarrow> TextureInfo \<Rightarrow> TextureInfo option" where
  "set_parameter F pname param t =
     (if tex_target_' t = GL_TEXTURE_EXTERNAL_OES \<and> pname = GL_TEXTURE_MIN_FILTER
           \<and> param \<noteq> GL_NEAREST \<and> param \<noteq> GL_LINEAR then None
      else if tex_target_' t = GL_TEXTURE_EXTERNAL_OES
           \<and> (pname = GL_TEXTURE_WRAP_S \<or> pname = GL_TEXTURE_WRAP_T) \<and> param \<noteq> GL_CLAMP_TO_EDGE then None
      else if pname = GL_TEXTURE_MIN_FILTER then
        if \<not> IsValid param (v_texture_min_filter_mode (validators_' F)) then None
        else Some (t\<lparr>min_filter_' := param\<rparr>)
      else if pname = GL_TEXTURE_MAG_FILTER then
        if \<not> IsValid param (v_texture_mag_filter_mode (validators_' F)) then None
        else Some (t\<lparr>mag_filter_' := param\<rparr>)
      else if pname = GL_TEXTURE_WRAP_S then
        if \<not> IsValid param (v_texture_wrap_mode (validators_' F)) then None
        else Some (t\<lparr>wrap_s_' := param\<rparr>)
      else if pname = GL_TEXTURE_WRAP_T then
        if \<not> IsValid param (v_texture_wrap_mode (validators_' F)) then None
        else Some (t\<lparr>wrap_t_' := param\<rparr>)
      else if pname = GL_TEXTURE_MAX_ANISOTROPY_EXT then Some t
      else None)"

definition Texture_SetParameter ::
  "FeatureInfo \<Rightarrow> GLenum \<Rightarrow> GLint \<Rightarrow> TextureInfo \<Rightarrow> (bool \<times> TextureInfo) option" where
  "Texture_SetParameter F pname param t =
     (case set_parameter F pname param t of
        None \<Rightarrow> Some (False, t)
      | Some t \<Rightarrow> map_option (\<lambda>t. (True, t)) (Texture_Update F t))"

section \<open>The manager\<close>

text \<open>\<open>texture_infos_'\<close> lists the hash map's entries in its iteration order; \<open>tex_objects\<close> is the store of
  all texture objects ever created.\<close>

record TextureManager =
  texture_infos_' :: "(GLuint \<times> nat) list"
  tex_objects :: "TextureInfo list"
  max_texture_size_' :: GLsizei
  max_cube_map_texture_size_' :: GLsizei
  max_levels_' :: GLint
  max_cube_map_levels_' :: GLint
  num_unrenderable_textures_' :: int
  black_2d_texture_id_' :: GLuint
  black_cube_texture_id_' :: GLuint
  black_oes_external_texture_id_' :: GLuint
  default_texture_2d_' :: "nat option"
  default_texture_cube_map_' :: "nat option"
  default_texture_external_oes_' :: "nat option"

definition TextureManager_new :: "GLint \<Rightarrow> GLint \<Rightarrow> TextureManager" where
  "TextureManager_new max_texture_size max_cube_map_texture_size =
     \<lparr>texture_infos_' = [], tex_objects = [], max_texture_size_' = max_texture_size,
      max_cube_map_texture_size_' = max_cube_map_texture_size,
      max_levels_' =
        word_of_int (ComputeMipMapCount max_texture_size max_texture_size max_texture_size),
      max_cube_map_levels_' =
        word_of_int (ComputeMipMapCount max_cube_map_texture_size max_cube_map_texture_size
                       max_cube_map_texture_size),
      num_unrenderable_textures_' = 0, black_2d_texture_id_' = 0, black_cube_texture_id_' = 0,
      black_oes_external_texture_id_' = 0, default_texture_2d_' = None,
      default_texture_cube_map_' = None, default_texture_external_oes_' = None\<rparr>"

definition MaxLevelsForTarget :: "GLenum \<Rightarrow> TextureManager \<Rightarrow> GLint" where
  "MaxLevelsForTarget target m =
     (if target = GL_TEXTURE_2D then max_levels_' m
      else if target = GL_TEXTURE_EXTERNAL_OES then 1
      else max_cube_map_levels_' m)"

definition MaxSizeForTarget :: "GLenum \<Rightarrow> TextureManager \<Rightarrow> GLsizei" where
  "MaxSizeForTarget target m =
     (if target \<in> {GL_TEXTURE_2D, GL_TEXTURE_EXTERNAL_OES} then max_texture_size_' m
      else max_cube_map_texture_size_' m)"

definition ValidForTarget ::
  "FeatureInfo \<Rightarrow> GLenum \<Rightarrow> GLint \<Rightarrow> GLsizei \<Rightarrow> GLsizei \<Rightarrow> GLsizei \<Rightarrow> TextureManager \<Rightarrow> bool" where
  "ValidForTarget F target level width height depth m =
     (let max_size = MaxSizeForTarget target m
      in 0 \<le> sint level \<and> 0 \<le> sint width \<and> 0 \<le> sint height \<and> 0 \<le> sint depth
         \<and> sint level < sint (MaxLevelsForTarget target m)
         \<and> sint width \<le> sint max_size \<and> sint height \<le> sint max_size \<and> sint depth \<le> sint max_size
         \<and> (level = 0 \<or> npot_ok F \<or> \<not> IsNPOT width \<and> \<not> IsNPOT height \<and> \<not> IsNPOT depth)
         \<and> (target \<noteq> GL_TEXTURE_CUBE_MAP \<or> width = height \<and> depth = 1)
         \<and> (target \<noteq> GL_TEXTURE_2D \<or> depth = 1))"

text \<open>The frame of every operation on a texture object: the object is taken out of the count of
  unrenderable textures before the operation and put back after it.\<close>

definition replace_counted :: "FeatureInfo \<Rightarrow> nat \<Rightarrow> TextureInfo \<Rightarrow> TextureManager \<Rightarrow> TextureManager" where
  "replace_counted F a t m =
     m\<lparr>tex_objects := (tex_objects m)[a := t],
       num_unrenderable_textures_' := num_unrenderable_textures_' m
         - (if \<not> CanRender F (tex_objects m ! a) then 1 else 0) + (if \<not> CanRender F t then 1 else 0)\<rparr>"

definition SetInfoTarget :: "FeatureInfo \<Rightarrow> nat \<Rightarrow> GLenum \<Rightarrow> TextureManager \<Rightarrow> TextureManager" where
  "SetInfoTarget F a target m =
     replace_counted F a (Texture_SetTarget target (MaxLevelsForTarget target m) (tex_objects m ! a)) m"

definition Manager_SetLevelInfo ::
  "FeatureInfo \<Rightarrow> nat \<Rightarrow> GLenum \<Rightarrow> GLint \<Rightarrow> GLenum \<Rightarrow> GLsizei \<Rightarrow> GLsizei \<Rightarrow> GLsizei \<Rightarrow> GLint \<Rightarrow> GLenum
    \<Rightarrow> GLenum \<Rightarrow> TextureManager \<Rightarrow> TextureManager option" where
  "Manager_SetLevelInfo F a target level internal_format width height depth border format type m =
     map_option (\<lambda>t. replace_counted F a t m)
       (Texture_SetLevelInfo F target level internal_format width height depth border format type
         (tex_objects m ! a))"

definition Manager_SetParameter ::
  "FeatureInfo \<Rightarrow> nat \<Rightarrow> GLenum \<Rightarrow> GLint \<Rightarrow> TextureManager \<Rightarrow> (bool \<times> TextureManager) option" where
  "Manager_SetParameter F a pname param m =
     map_option (\<lambda>(ok, t). (ok, replace_counted F a t m))
       (Texture_SetParameter F pname param (tex_objects m ! a))"

definition Manager_MarkMipmapsGenerated ::
  "FeatureInfo \<Rightarrow> nat \<Rightarrow> TextureManager \<Rightarrow> (bool \<times> TextureManager) option" where
  "Manager_MarkMipmapsGenerated F a m =
     map_option (\<lambda>(ok, t). (ok, replace_counted F a t m))
       (Texture_MarkMipmapsGenerated F (tex_objects m ! a))"

text \<open>\<^verbatim>\<open>insert\<close> keeps an existing entry, the debug check aside; the object is counted all the same.\<close>

definition CreateTextureInfo :: "FeatureInfo \<Rightarrow> GLuint \<Rightarrow> GLuint \<Rightarrow> TextureManager \<Rightarrow> TextureManager" where
  "CreateTextureInfo F client_id service_id m =
     (let t = TextureInfo_new service_id;
          m = m\<lparr>tex_objects := tex_objects m @ [t],
                texture_infos_' := (if map_of (texture_infos_' m) client_id = None
                   then (client_id, length (tex_objects m)) # texture_infos_' m
                   else texture_infos_' m)\<rparr>
      in if \<not> CanRender F t then m\<lparr>num_unrenderable_textures_' := num_unrenderable_textures_' m + 1\<rparr>
         else m)"

definition GetTextureInfo :: "GLuint \<Rightarrow> TextureManager \<Rightarrow> nat option" where
  "GetTextureInfo client_id m = map_of (texture_infos_' m) client_id"

definition RemoveTextureInfo :: "FeatureInfo \<Rightarrow> GLuint \<Rightarrow> TextureManager \<Rightarrow> TextureManager" where
  "RemoveTextureInfo F client_id m =
     (case map_of (texture_infos_' m) client_id of
        None \<Rightarrow> m
      | Some a \<Rightarrow>
          m\<lparr>num_unrenderable_textures_' := num_unrenderable_textures_' m
              - (if \<not> CanRender F (tex_objects m ! a) then 1 else 0),
            tex_objects := (tex_objects m)[a := Texture_MarkAsDeleted (tex_objects m ! a)],
            texture_infos_' := filter (\<lambda>e. fst e \<noteq> client_id) (texture_infos_' m)\<rparr>)"

definition Texture_GetClientId :: "GLuint \<Rightarrow> TextureManager \<Rightarrow> GLuint option" where
  "Texture_GetClientId service_id m =
     map_option fst
       (find (\<lambda>(cid, a). tex_service_id_' (tex_objects m ! a) = service_id) (texture_infos_' m))"

definition GetDefaultTextureInfo :: "GLenum \<Rightarrow> TextureManager \<Rightarrow> nat option" where
  "GetDefaultTextureInfo target m =
     (if target = GL_TEXTURE_2D then default_texture_2d_' m
      else if target = GL_TEXTURE_CUBE_MAP then default_texture_cube_map_' m
      else if target = GL_TEXTURE_EXTERNAL_OES then default_texture_external_oes_' m
      else None)"

definition HaveUnrenderableTextures :: "TextureManager \<Rightarrow> bool" where
  "HaveUnrenderableTextures m \<longleftrightarrow> num_unrenderable_textures_' m > 0"

definition black_texture_id :: "GLenum \<Rightarrow> TextureManager \<Rightarrow> GLuint" where
  "black_texture_id target m =
     (if target = GL_SAMPLER_2D then black_2d_texture_id_' m
      else if target = GL_SAMPLER_CUBE then black_cube_texture_id_' m
      else if target = GL_SAMPLER_EXTERNAL_OES then black_oes_external_texture_id_' m
      else 0)"

section \<open>Creation and destruction of the manager\<close>

text \<open>The GL calls on textures, of the manager and of the decoder. A float is given by its bits; of the
  vectors of \<^verbatim>\<open>glTexParameterfv\<close> and \<^verbatim>\<open>glTexParameteriv\<close> the first element.\<close>

datatype tex_call =
    glActiveTexture GLenum
  | glBindTexture GLenum GLuint
  | glDeleteTextures "GLuint list"
  | glTexParameteri GLenum GLenum GLint
  | glTexParameterf GLenum GLenum uint32
  | glTexParameterfv GLenum GLenum uint32
  | glTexParameteriv GLenum GLenum GLint
  | glGenerateMipmap GLenum
  | glTexImage2D GLenum GLint GLenum GLsizei GLsizei GLint GLenum GLenum "byte list"
  | glTexSubImage2D GLenum GLint GLint GLint GLsizei GLsizei GLenum GLenum "byte list"
  | glCompressedTexImage2D GLenum GLint GLenum GLsizei GLsizei GLint "byte list"
  | glCompressedTexSubImage2D GLenum GLint GLint GLint GLsizei GLsizei GLenum "byte list"
  | glCopyTexImage2D GLenum GLint GLenum GLint GLint GLsizei GLsizei GLint
  | glCopyTexSubImage2D GLenum GLint GLint GLint GLint GLint GLsizei GLsizei
  | glPixelStorei GLenum GLint

definition black_pixel :: "byte list" where
  "black_pixel = [0, 0, 0, 255]"

definition black_image :: "GLenum \<Rightarrow> tex_call" where
  "black_image target = glTexImage2D target 0 GL_RGBA 1 1 0 GL_RGBA GL_UNSIGNED_BYTE black_pixel"

definition initialize_calls :: "GLuint list \<Rightarrow> tex_call list" where
  "initialize_calls ids =
     concat (map (\<lambda>ii.
       [glBindTexture GL_TEXTURE_2D (ids ! ii), black_image GL_TEXTURE_2D,
        glBindTexture GL_TEXTURE_CUBE_MAP (ids ! (2 + ii))] @ map black_image cube_faces) [0, 1])
     @ [glBindTexture GL_TEXTURE_2D 0, glBindTexture GL_TEXTURE_CUBE_MAP 0]"

fun default_levels :: "GLenum list \<Rightarrow> TextureInfo \<Rightarrow> TextureInfo option" where
  "default_levels [] t = Some t"
| "default_levels (target # targets) t =
     Option.bind (Texture_SetLevelInfo FeatureInfo_new target 0 GL_RGBA 1 1 1 0 GL_RGBA GL_UNSIGNED_BYTE t)
       (default_levels targets)"

definition new_default ::
  "FeatureInfo \<Rightarrow> GLuint \<Rightarrow> GLenum \<Rightarrow> GLenum list \<Rightarrow> TextureManager \<Rightarrow> (nat \<times> TextureManager) option" where
  "new_default F service_id target faces m =
     (let a = length (tex_objects m);
          m = SetInfoTarget F a target (m\<lparr>tex_objects := tex_objects m @ [TextureInfo_new service_id]\<rparr>)
      in map_option (\<lambda>t. (a, m\<lparr>tex_objects := (tex_objects m)[a := t]\<rparr>))
           (default_levels faces (tex_objects m ! a)))"

text \<open>\<open>ids\<close> and \<open>external_ids\<close> are the names \<^verbatim>\<open>glGenTextures\<close> returns, four and two of them.\<close>

definition TextureManager_Initialize ::
  "FeatureInfo \<Rightarrow> GLuint list \<Rightarrow> GLuint list \<Rightarrow> TextureManager \<Rightarrow> (tex_call list \<times> TextureManager) option" where
  "TextureManager_Initialize F ids external_ids m = do {
     (a2d, m) \<leftarrow> new_default F (ids ! 1) GL_TEXTURE_2D [GL_TEXTURE_2D] m;
     (acube, m) \<leftarrow> new_default F (ids ! 3) GL_TEXTURE_CUBE_MAP cube_faces m;
     let m = m\<lparr>default_texture_2d_' := Some a2d, default_texture_cube_map_' := Some acube,
               black_2d_texture_id_' := ids ! 0, black_cube_texture_id_' := ids ! 2\<rparr>;
     if oes_egl_image_external F then do {
       (aext, m) \<leftarrow> new_default F (external_ids ! 0) GL_TEXTURE_EXTERNAL_OES [GL_TEXTURE_EXTERNAL_OES] m;
       Some (initialize_calls ids @ [glBindTexture GL_TEXTURE_EXTERNAL_OES 0],
             m\<lparr>default_texture_external_oes_' := Some aext,
               black_oes_external_texture_id_' := external_ids ! 1\<rparr>)
     } else Some (initialize_calls ids, m)
   }"

fun destroy_textures ::
  "bool \<Rightarrow> (GLuint \<times> nat) list \<Rightarrow> TextureInfo list \<Rightarrow> tex_call list \<times> TextureInfo list" where
  "destroy_textures have_context [] objs = ([], objs)"
| "destroy_textures have_context ((cid, a) # es) objs =
     (if have_context \<and> \<not> deleted_' (objs ! a) \<and> owned_' (objs ! a) then
        let (calls, objs') =
              destroy_textures have_context es (objs[a := Texture_MarkAsDeleted (objs ! a)])
        in (glDeleteTextures [tex_service_id_' (objs ! a)] # calls, objs')
      else destroy_textures have_context es objs)"

definition TextureManager_Destroy :: "bool \<Rightarrow> TextureManager \<Rightarrow> (tex_call list \<times> TextureManager) option" where
  "TextureManager_Destroy have_context m =
     (let (calls, objs) = destroy_textures have_context (texture_infos_' m) (tex_objects m);
          m = m\<lparr>texture_infos_' := [], tex_objects := objs\<rparr>
      in if have_context then do {
           a2d \<leftarrow> default_texture_2d_' m;
           acube \<leftarrow> default_texture_cube_map_' m;
           Some (calls @ [glDeleteTextures [black_2d_texture_id_' m, black_cube_texture_id_' m,
                            tex_service_id_' (objs ! a2d), tex_service_id_' (objs ! acube)]], m)
         } else Some (calls, m))"

end
