(* ===== verification/Texture_Completeness.thy ===== *)
theory Texture_Completeness
  imports Texture_Manager
begin

text \<open>
  What the flags of a texture object mean: \<^verbatim>\<open>texture_complete\<close> and \<^verbatim>\<open>cube_complete\<close> are the conditions of
  section 3.7 of the OpenGL ES 2.0 specification on the levels the client has defined, in every state
  the manager can reach, and no operation of the manager reaches outside the vectors of levels.
\<close>

section \<open>Sizes of levels\<close>

fun halving :: "nat list \<Rightarrow> nat \<Rightarrow> bool" where
  "halving [] b \<longleftrightarrow> b = 1"
| "halving (s # ss) b \<longleftrightarrow> b = 2 * s \<and> halving ss s"

lemma log2_loop_exact:
  assumes "halving shifts b" "0 < unat v" "unat v < 2 ^ b"
  shows "log \<le> log2_loop shifts v log
    \<and> 2 ^ (log2_loop shifts v log - log) \<le> unat v \<and> unat v < 2 * 2 ^ (log2_loop shifts v log - log)"
  using assms
proof (induction shifts v log arbitrary: b rule: log2_loop.induct)
  case (2 s ss v log)
  have b: "b = 2 * s" and ss: "halving ss s" using 2(3) by auto
  have x: "unat (drop_bit s v) = unat v div 2 ^ s"
    by (simp only: unat_drop_bit_eq) (simp add: drop_bit_eq_div)
  show ?case
  proof (cases "drop_bit s v = 0")
    case True
    then have "unat v < 2 ^ s" using x by (simp add: div_eq_0_iff)
    then show ?thesis using 2(2) True ss 2(4) by (simp add: Let_def)
  next
    case False
    let ?x = "drop_bit s v" and ?l = "log2_loop ss (drop_bit s v) (log + s)"
    have pos: "0 < unat ?x" using False by (simp add: unat_gt_0)
    have "unat v < 2 ^ s * 2 ^ s" using 2(5) b by (simp add: mult_2 power_add)
    then have "unat ?x < 2 ^ s" using x by (simp add: less_mult_imp_div_less)
    with pos 2(1) [OF refl False ss] have ih: "log + s \<le> ?l" "2 ^ (?l - (log + s)) \<le> unat ?x"
        "unat ?x < 2 * 2 ^ (?l - (log + s))" by auto
    let ?k = "?l - (log + s)"
    have k: "?l - log = ?k + s" using ih(1) by simp
    have "2 ^ ?k * 2 ^ s \<le> unat v"
      using ih(2) x by (metis le_trans mult_le_mono1 div_times_less_eq_dividend)
    moreover have "unat v < 2 * 2 ^ ?k * 2 ^ s"
      using ih(3) unfolding x by (simp add: div_less_iff_less_mult)
    moreover have "log2_loop (s # ss) v log = ?l" using False by (simp add: Let_def)
    ultimately show ?thesis using ih(1) by (simp only: k power_add) (simp add: ac_simps)
  qed
qed auto

lemma Log2Floor_exact:
  assumes "0 < unat n"
  shows "0 \<le> Log2Floor n \<and> 2 ^ nat (Log2Floor n) \<le> unat n \<and> unat n < 2 * 2 ^ nat (Log2Floor n)"
proof -
  have "n \<noteq> 0" using assms by auto
  moreover have "unat n < 2 ^ 32" using unsigned_less [of n] by simp
  ultimately show ?thesis
    using log2_loop_exact [of "[16, 8, 4, 2, 1]" 32 n 0] assms by (simp add: Log2Floor_def)
qed

lemma Log2Floor_0 [simp]: "Log2Floor 0 = - 1"
  by (simp add: Log2Floor_def)

lemma Log2Floor_mono:
  assumes "unat a \<le> unat b"
  shows "Log2Floor a \<le> Log2Floor b"
proof (cases "unat a = 0")
  case True
  then have "a = 0" by (simp add: unat_eq_0)
  then show ?thesis using Log2Floor_exact [of b] by (cases "b = 0") (auto simp: unat_gt_0)
next
  case False
  then have a: "0 < unat a" and b: "0 < unat b" using assms by auto
  have "2 ^ nat (Log2Floor a) < (2::nat) * 2 ^ nat (Log2Floor b)"
    using Log2Floor_exact [OF a] Log2Floor_exact [OF b] assms by linarith
  then have "nat (Log2Floor a) < Suc (nat (Log2Floor b))"
    by (metis power_Suc power_strict_increasing_iff one_less_numeral_iff semiring_norm(76))
  then show ?thesis using Log2Floor_exact [OF a] Log2Floor_exact [OF b] by linarith
qed

lemma Log2Floor_bound: "Log2Floor n \<le> 31"
proof (cases "unat n = 0")
  case False
  then have "2 ^ nat (Log2Floor n) \<le> unat n" using Log2Floor_exact by blast
  also have "unat n < 2 ^ 32" using unat_less_32 [of n] by simp
  finally have "nat (Log2Floor n) < 32" by (rule power_less_imp_less_exp [rotated]) simp
  then show ?thesis by linarith
qed (simp add: unat_eq_0)

lemma smax_sint: "sint (smax a b) = max (sint a) (sint b)"
  by (auto simp: smax_def max_def)

lemma smax_unat:
  assumes "0 \<le> sint a" "0 \<le> sint b"
  shows "unat (smax a b) = max (unat a) (unat b)" "0 \<le> sint (smax a b)"
proof -
  have "sint a < sint b \<longleftrightarrow> unat a < unat b"
    by (simp only: sint_nonneg_unat(1) [OF assms(1)] sint_nonneg_unat(1) [OF assms(2)] of_nat_less_iff)
  then show "unat (smax a b) = max (unat a) (unat b)" "0 \<le> sint (smax a b)"
    using assms by (simp_all add: smax_def max_def)
qed

lemma half_size_unat:
  assumes "0 \<le> sint x"
  shows "unat (half_size x) = max 1 (unat x div 2)" "0 \<le> sint (half_size x)"
proof -
  have s: "sint (signed_drop_bit 1 x) = sint x div 2"
    by (simp only: sint_signed_drop_bit_eq drop_bit_eq_div power_one_right)
  have "sint (half_size x) = max 1 (sint x div 2)"
    by (simp only: half_size_def smax_sint s) simp
  moreover from this show pos: "0 \<le> sint (half_size x)" by simp
  ultimately have "int (unat (half_size x)) = max 1 (int (unat x) div 2)"
    using sint_nonneg_unat(1) [OF assms] sint_nonneg_unat(1) [OF pos] by simp
  also have "\<dots> = int (max 1 (unat x div 2))" by (simp add: zdiv_int of_nat_max)
  finally show "unat (half_size x) = max 1 (unat x div 2)" by linarith
qed

text \<open>The size of level \<open>k\<close> of an image of size \<open>n\<close>.\<close>

definition mip_size :: "nat \<Rightarrow> nat \<Rightarrow> nat" where
  "mip_size n k = (if k = 0 then n else max 1 (n div 2 ^ k))"

lemma mip_size_0 [simp]: "mip_size n 0 = n"
  by (simp add: mip_size_def)

lemma mip_size_Suc: "mip_size n (Suc k) = max 1 (mip_size n k div 2)"
proof -
  have "max 1 m div 2 = max 0 (m div 2)" for m :: nat by (cases m) (auto simp: max_def)
  then show ?thesis by (auto simp: mip_size_def div_mult2_eq [symmetric] mult.commute max_def)
qed

text \<open>The sizes the loops of the code go through.\<close>

definition mip_word :: "GLsizei \<Rightarrow> nat \<Rightarrow> GLsizei" where
  "mip_word x k = (half_size ^^ k) x"

lemma mip_word_0 [simp]: "mip_word x 0 = x"
  by (simp add: mip_word_def)

lemma mip_word_Suc: "mip_word x (Suc k) = half_size (mip_word x k)"
  by (simp add: mip_word_def)

lemma mip_word_unat:
  assumes "0 \<le> sint x"
  shows "unat (mip_word x k) = mip_size (unat x) k \<and> 0 \<le> sint (mip_word x k)"
proof (induction k)
  case (Suc k)
  then show ?case using half_size_unat [of "mip_word x k"] by (simp add: mip_word_Suc mip_size_Suc)
qed (simp add: assms)

section \<open>Complete levels\<close>

definition mips_match :: "LevelInfo list \<Rightarrow> nat \<Rightarrow> bool" where
  "mips_match face n \<longleftrightarrow>
     (\<forall>k\<in>{1..n}. level_matches (face ! k) (mip_word (lvl_width (face ! 0)) k)
        (mip_word (lvl_height (face ! 0)) k) (mip_word (lvl_depth (face ! 0)) k) (face ! 0))"

lemma mip_loop_exact:
  assumes "j + n < length face"
  shows "mip_loop level0 face (j + 1) n (mip_word w j) (mip_word h j) (mip_word d j) =
    Some (\<forall>k\<in>{j + 1..j + n}. level_matches (face ! k) (mip_word w k) (mip_word h k) (mip_word d k) level0)"
  using assms
proof (induction n arbitrary: j)
  case (Suc n)
  have split: "{Suc j..Suc (j + n)} = insert (Suc j) {Suc (Suc j)..Suc (j + n)}" by auto
  show ?case
    using Suc.prems Suc.IH [of "Suc j"]
    by (simp add: Let_def split mip_word_Suc [symmetric])
qed simp

lemma mip_loop_face:
  assumes "n < length face"
  shows "mip_loop (face ! 0) face 1 n (lvl_width (face ! 0)) (lvl_height (face ! 0)) (lvl_depth (face ! 0))
    = Some (mips_match face n)"
  using mip_loop_exact [of 0 n face "face ! 0" "lvl_width (face ! 0)" "lvl_height (face ! 0)"
      "lvl_depth (face ! 0)"] assms
  by (simp add: mips_match_def)

definition same_level0 :: "LevelInfo \<Rightarrow> LevelInfo list \<Rightarrow> bool" where
  "same_level0 first face \<longleftrightarrow>
     level_matches (face ! 0) (lvl_width first) (lvl_height first) 1 first"

lemma face_loop_exact:
  assumes "tc \<or> cc \<Longrightarrow> \<forall>face\<in>set faces. nat (needed - 1) < length face"
  shows "face_loop first needed tc cc faces =
    Some (tc \<and> (\<forall>face\<in>set faces. mips_match face (nat (needed - 1))),
          cc \<and> (\<forall>face\<in>set faces. same_level0 first face))"
  using assms
proof (induction faces arbitrary: tc cc)
  case (Cons face faces)
  show ?case
  proof (cases "tc \<or> cc")
    case True
    then have len: "nat (needed - 1) < length face" using Cons.prems by simp
    then obtain l0 rest where face: "face = l0 # rest" by (cases face) auto
    show ?thesis
      using True Cons.prems Cons.IH mip_loop_face [OF len]
      by (simp add: face same_level0_def)
  qed auto
qed simp

section \<open>The flags\<close>

abbreviation first_level :: "TextureInfo \<Rightarrow> LevelInfo" where
  "first_level t \<equiv> level_infos_' t ! 0 ! 0"

definition levels_needed :: "TextureInfo \<Rightarrow> int" where
  "levels_needed t = ComputeMipMapCount (lvl_width (first_level t)) (lvl_height (first_level t))
     (lvl_depth (first_level t))"

definition filterable :: "FeatureInfo \<Rightarrow> TextureInfo \<Rightarrow> bool" where
  "filterable F t \<longleftrightarrow>
     (min_filter_' t = GL_NEAREST_MIPMAP_NEAREST \<and> mag_filter_' t = GL_NEAREST)
     \<or> (lvl_type (first_level t) = GL_FLOAT \<longrightarrow> enable_texture_float_linear F)
       \<and> (lvl_type (first_level t) = GL_HALF_FLOAT_OES \<longrightarrow> enable_texture_half_float_linear F)"

definition level0_npot :: "LevelInfo list \<Rightarrow> bool" where
  "level0_npot face \<longleftrightarrow>
     IsNPOT (lvl_width (face ! 0)) \<or> IsNPOT (lvl_height (face ! 0)) \<or> IsNPOT (lvl_depth (face ! 0))"

definition may_be_complete :: "FeatureInfo \<Rightarrow> TextureInfo \<Rightarrow> bool" where
  "may_be_complete F t \<longleftrightarrow>
     levels_needed t - 1 \<le> sint (max_level_set_' t) \<and> 0 \<le> sint (max_level_set_' t)
     \<and> lvl_width (first_level t) \<noteq> 0 \<and> lvl_height (first_level t) \<noteq> 0 \<and> filterable F t"

definition may_be_cube :: "TextureInfo \<Rightarrow> bool" where
  "may_be_cube t \<longleftrightarrow>
     length (level_infos_' t) = 6 \<and> lvl_width (first_level t) = lvl_height (first_level t)"

definition updated :: "FeatureInfo \<Rightarrow> TextureInfo \<Rightarrow> TextureInfo" where
  "updated F t =
     t\<lparr>npot_' := \<exists>face\<in>set (level_infos_' t). level0_npot face,
       texture_complete_' := level_infos_' t \<noteq> [] \<and> may_be_complete F t
         \<and> (\<forall>face\<in>set (level_infos_' t). mips_match face (nat (levels_needed t - 1))),
       cube_complete_' := level_infos_' t \<noteq> [] \<and> may_be_cube t
         \<and> (\<forall>face\<in>set (level_infos_' t). same_level0 (first_level t) face)\<rparr>"

lemma npot_loop_exact:
  "\<forall>face\<in>set faces. face \<noteq> [] \<Longrightarrow> npot_loop faces = Some (\<exists>face\<in>set faces. level0_npot face)"
  by (induction faces rule: npot_loop.induct) (auto simp: level0_npot_def)

lemma starts_complete_iff: "starts_complete F (first_level t) t = may_be_complete F t"
  by (auto simp: starts_complete_def may_be_complete_def levels_needed_def filterable_def Let_def)

lemma Update_exact:
  assumes "\<forall>face\<in>set (level_infos_' t). face \<noteq> []"
    and "level_infos_' t \<noteq> [] \<Longrightarrow> may_be_complete F t \<or> may_be_cube t \<Longrightarrow>
      \<forall>face\<in>set (level_infos_' t). nat (levels_needed t - 1) < length face"
  shows "Texture_Update F t = Some (updated F t)"
proof (cases "level_infos_' t = []")
  case False
  then have hd: "(case hd (level_infos_' t) of [] \<Rightarrow> None | info # _ \<Rightarrow> Some info) = Some (first_level t)"
    using assms(1) by (cases "level_infos_' t"; cases "hd (level_infos_' t)") auto
  have loop: "face_loop (first_level t) (levels_needed t) (may_be_complete F t) (may_be_cube t)
      (level_infos_' t) =
      Some (may_be_complete F t \<and>
              (\<forall>face\<in>set (level_infos_' t). mips_match face (nat (levels_needed t - 1))),
            may_be_cube t \<and> (\<forall>face\<in>set (level_infos_' t). same_level0 (first_level t) face))"
    using assms(2) [OF False] by (rule face_loop_exact)
  show ?thesis
    using False loop [unfolded levels_needed_def may_be_cube_def]
    by (simp only: Texture_Update_def npot_loop_exact [OF assms(1)] hd starts_complete_iff)
      (simp add: starts_complete_iff updated_def levels_needed_def may_be_cube_def)
qed (simp add: Texture_Update_def updated_def)

section \<open>The invariant of a texture object\<close>

definition level_count :: "LevelInfo \<Rightarrow> int" where
  "level_count l = ComputeMipMapCount (lvl_width l) (lvl_height l) (lvl_depth l)"

definition level_ok :: "LevelInfo \<Rightarrow> bool" where
  "level_ok l \<longleftrightarrow>
     (if lvl_valid l then lvl_depth l = 1 \<and> 0 \<le> sint (lvl_width l) \<and> 0 \<le> sint (lvl_height l)
      else l = LevelInfo_new)"

definition face_count :: "GLenum \<Rightarrow> nat" where
  "face_count target = (if target = 0 then 0 else if target = GL_TEXTURE_CUBE_MAP then 6 else 1)"

text \<open>\<open>n\<close> is the number of levels a face has room for.\<close>

definition tex_ok :: "nat \<Rightarrow> TextureInfo \<Rightarrow> bool" where
  "tex_ok n t \<longleftrightarrow>
     0 < n \<and> n \<le> 32
     \<and> tex_target_' t \<in> {0, GL_TEXTURE_2D, GL_TEXTURE_CUBE_MAP, GL_TEXTURE_EXTERNAL_OES}
     \<and> length (level_infos_' t) = face_count (tex_target_' t)
     \<and> (\<forall>face\<in>set (level_infos_' t). length face = n \<and> (\<forall>l\<in>set face. level_ok l)
          \<and> (\<forall>k<n. lvl_valid (face ! k) \<longrightarrow> int k \<le> sint (max_level_set_' t))
          \<and> (tex_target_' t \<noteq> GL_TEXTURE_EXTERNAL_OES \<longrightarrow> level_count (face ! 0) \<le> int n))
     \<and> - 1 \<le> sint (max_level_set_' t) \<and> sint (max_level_set_' t) < int n
     \<and> (tex_target_' t = 0 \<longrightarrow> max_level_set_' t = - 1)
     \<and> (tex_target_' t = GL_TEXTURE_EXTERNAL_OES \<longrightarrow> \<not> NeedsMips t)"

lemma tex_ok_Update:
  assumes "tex_ok n t"
  shows "Texture_Update F t = Some (updated F t)"
proof (rule Update_exact)
  show "\<forall>face\<in>set (level_infos_' t). face \<noteq> []"
    using assms by (auto simp: tex_ok_def)
next
  assume levels: "level_infos_' t \<noteq> []" and may: "may_be_complete F t \<or> may_be_cube t"
  have "levels_needed t \<le> int n"
  proof (cases "may_be_complete F t")
    case True
    then show ?thesis using assms by (simp add: may_be_complete_def tex_ok_def)
  next
    case False
    then have "length (level_infos_' t) = 6" using may by (simp add: may_be_cube_def)
    then have "tex_target_' t \<noteq> GL_TEXTURE_EXTERNAL_OES"
      using assms by (auto simp: tex_ok_def face_count_def)
    moreover have "level_infos_' t ! 0 \<in> set (level_infos_' t)" using levels by simp
    ultimately show ?thesis using assms by (auto simp: tex_ok_def levels_needed_def level_count_def)
  qed
  moreover have "0 < n" using assms by (simp add: tex_ok_def)
  ultimately have "nat (levels_needed t - 1) < n" by linarith
  then show "\<forall>face\<in>set (level_infos_' t). nat (levels_needed t - 1) < length face"
    using assms by (auto simp: tex_ok_def)
qed

lemma updated_fields [simp]:
  "level_infos_' (updated F t) = level_infos_' t"
  "max_level_set_' (updated F t) = max_level_set_' t"
  "tex_target_' (updated F t) = tex_target_' t"
  "min_filter_' (updated F t) = min_filter_' t" "mag_filter_' (updated F t) = mag_filter_' t"
  "wrap_s_' (updated F t) = wrap_s_' t" "wrap_t_' (updated F t) = wrap_t_' t"
  "deleted_' (updated F t) = deleted_' t" "tex_service_id_' (updated F t) = tex_service_id_' t"
  "owned_' (updated F t) = owned_' t" "stream_texture_' (updated F t) = stream_texture_' t"
  "framebuffer_attachment_count_' (updated F t) = framebuffer_attachment_count_' t"
  by (simp_all add: updated_def)

lemma tex_ok_cong:
  assumes "level_infos_' t' = level_infos_' t" "max_level_set_' t' = max_level_set_' t"
    "tex_target_' t' = tex_target_' t"
    "tex_target_' t = GL_TEXTURE_EXTERNAL_OES \<Longrightarrow> NeedsMips t \<or> \<not> NeedsMips t'"
    "tex_ok n t"
  shows "tex_ok n t'"
  using assms by (auto simp: tex_ok_def)

lemma tex_ok_updated [simp]: "tex_ok n (updated F t) = tex_ok n t"
  by (auto simp: tex_ok_def NeedsMips_def)

lemma updated_updated [simp]: "updated F (updated F t) = updated F t"
  by (simp add: updated_def may_be_complete_def may_be_cube_def levels_needed_def filterable_def)

definition tex_inv :: "FeatureInfo \<Rightarrow> nat \<Rightarrow> TextureInfo \<Rightarrow> bool" where
  "tex_inv F n t \<longleftrightarrow> tex_ok n t \<and> updated F t = t"

lemma tex_inv_updated: "tex_ok n t \<Longrightarrow> tex_inv F n (updated F t)"
  by (simp add: tex_inv_def)

definition put_level :: "nat \<Rightarrow> GLint \<Rightarrow> LevelInfo \<Rightarrow> TextureInfo \<Rightarrow> TextureInfo" where
  "put_level i level l t =
     t\<lparr>level_infos_' := (level_infos_' t)[i := (level_infos_' t ! i)[unat level := l]],
       max_level_set_' := smax (max_level_set_' t) level\<rparr>"

lemma put_level_ok:
  assumes ok: "tex_ok n t" and i: "i < length (level_infos_' t)" and level: "0 \<le> sint level" "unat level < n"
    and l: "level_ok l"
    and count: "tex_target_' t \<noteq> GL_TEXTURE_EXTERNAL_OES \<Longrightarrow> level = 0 \<Longrightarrow> level_count l \<le> int n"
  shows "tex_ok n (put_level i level l t)"
proof -
  note level_sint = sint_nonneg_unat(1) [OF level(1)]
  have face: "length face' = n \<and> (\<forall>l\<in>set face'. level_ok l)
      \<and> (\<forall>k<n. lvl_valid (face' ! k) \<longrightarrow> int k \<le> sint (smax (max_level_set_' t) level))
      \<and> (tex_target_' t \<noteq> GL_TEXTURE_EXTERNAL_OES \<longrightarrow> level_count (face' ! 0) \<le> int n)"
    if face': "face' \<in> set ((level_infos_' t)[i := (level_infos_' t ! i)[unat level := l]])" for face'
  proof -
    have old: "length face = n \<and> (\<forall>l\<in>set face. level_ok l)
        \<and> (\<forall>k<n. lvl_valid (face ! k) \<longrightarrow> int k \<le> sint (max_level_set_' t))
        \<and> (tex_target_' t \<noteq> GL_TEXTURE_EXTERNAL_OES \<longrightarrow> level_count (face ! 0) \<le> int n)"
      if "face \<in> set (level_infos_' t)" for face using ok that by (simp add: tex_ok_def)
    let ?f = "level_infos_' t ! i"
    have f: "?f \<in> set (level_infos_' t)" using i by simp
    consider "face' \<in> set (level_infos_' t)" | "face' = ?f[unat level := l]"
      using set_update_subset_insert [of "level_infos_' t" i] face' by blast
    then show ?thesis
    proof cases
      case 1
      then show ?thesis using old [OF 1] by (auto simp: smax_sint)
    next
      case 2
      have "0 < n" using level(2) by simp
      moreover have "level_ok x" if "x \<in> set face'" for x
        using that 2 old [OF f] l set_update_subset_insert [of ?f "unat level" l] by auto
      moreover have "int k \<le> sint (smax (max_level_set_' t) level)"
        if "k < n" "lvl_valid (face' ! k)" for k
        using that 2 old [OF f] level_sint by (cases "k = unat level") (auto simp: smax_sint)
      moreover have "level_count (face' ! 0) \<le> int n" if "tex_target_' t \<noteq> GL_TEXTURE_EXTERNAL_OES"
        using that 2 old [OF f] count \<open>0 < n\<close> by (cases "unat level = 0") (auto simp: unat_eq_0)
      ultimately show ?thesis using 2 old [OF f] by auto
    qed
  qed
  have "sint level < int n" using level(2) unfolding level_sint by linarith
  then have "sint (smax (max_level_set_' t) level) < int n" "- 1 \<le> sint (smax (max_level_set_' t) level)"
    using ok level(1) by (auto simp: tex_ok_def smax_sint)
  moreover have "tex_target_' t \<noteq> 0" using i ok by (auto simp: tex_ok_def face_count_def)
  ultimately show ?thesis
    using ok face by (simp add: tex_ok_def put_level_def NeedsMips_def)
qed

lemma SetLevelInfo_put:
  assumes "i = GLTargetToFaceIndex target" "i < length (level_infos_' t)" "0 \<le> sint level"
    "unat level < n" "tex_ok n t" "tex_ok n (put_level i level l t)"
    "l = \<lparr>lvl_valid = True, lvl_internal_format = ifmt, lvl_width = w, lvl_height = h, lvl_depth = d,
      lvl_border = b, lvl_format = fmt, lvl_type = ty\<rparr>"
  shows "Texture_SetLevelInfo F target level ifmt w h d b fmt ty t = Some (updated F (put_level i level l t))"
proof -
  have "length (level_infos_' t ! i) = n" using assms(2,5) by (simp add: tex_ok_def)
  then show ?thesis
    using assms(1-4) tex_ok_Update [OF assms(6), of F]
    by (simp add: Texture_SetLevelInfo_def Let_def put_level_def assms(7))
qed

section \<open>Completeness in terms of levels\<close>

definition level_is :: "LevelInfo \<Rightarrow> LevelInfo \<Rightarrow> nat \<Rightarrow> nat \<Rightarrow> bool" where
  "level_is base l w h \<longleftrightarrow>
     lvl_valid l \<and> unat (lvl_width l) = w \<and> unat (lvl_height l) = h \<and> lvl_depth l = 1
     \<and> lvl_internal_format l = lvl_internal_format base \<and> lvl_format l = lvl_format base
     \<and> lvl_type l = lvl_type base"

text \<open>Every face has every level, down to one pixel, each half the size of the one before, all of the
  format of the first; the faces of a cube are square.\<close>

definition mipmap_complete :: "TextureInfo \<Rightarrow> bool" where
  "mipmap_complete t \<longleftrightarrow>
     (let base = first_level t; w = unat (lvl_width base); h = unat (lvl_height base)
      in 0 < w \<and> 0 < h \<and> (tex_target_' t = GL_TEXTURE_CUBE_MAP \<longrightarrow> w = h)
         \<and> (\<forall>face\<in>set (level_infos_' t). \<forall>k. 2 ^ k \<le> max w h \<longrightarrow>
              level_is base (face ! k) (mip_size w k) (mip_size h k)))"

lemma mip_word_1: "mip_word 1 k = 1"
proof -
  have "half_size 1 = 1"
    using half_size_unat(1) [of 1] by (simp add: word_unat_eq_iff)
  then show ?thesis by (induction k) (simp_all add: mip_word_Suc)
qed

lemma level_matches_is:
  assumes "0 \<le> sint w" "0 \<le> sint h"
  shows "level_matches l (mip_word w k) (mip_word h k) 1 base
    \<longleftrightarrow> level_is base l (mip_size (unat w) k) (mip_size (unat h) k)"
  using mip_word_unat [OF assms(1), of k] mip_word_unat [OF assms(2), of k]
  by (auto simp: level_matches_def level_is_def word_unat_eq_iff)

lemma level_count_exact:
  assumes "0 \<le> sint (lvl_width l)" "0 \<le> sint (lvl_height l)" "lvl_depth l = 1" "0 < unat (lvl_width l)"
  shows "1 \<le> level_count l"
    and "2 ^ k \<le> max (unat (lvl_width l)) (unat (lvl_height l)) \<longleftrightarrow> k < nat (level_count l)"
proof -
  let ?m = "smax (smax (lvl_width l) (lvl_height l)) 1"
  have m: "unat ?m = max (unat (lvl_width l)) (unat (lvl_height l))"
    using smax_unat [OF assms(1,2)] smax_unat(1) [of "smax (lvl_width l) (lvl_height l)" 1] assms(4)
    by simp
  have count: "level_count l = 1 + Log2Floor ?m" using assms(3) by (simp add: level_count_def ComputeMipMapCount_def)
  have "0 < unat ?m" using m assms(4) by simp
  note log = Log2Floor_exact [OF this]
  then show "1 \<le> level_count l" using count by simp
  have "(2::nat) ^ k \<le> unat ?m \<longleftrightarrow> k \<le> nat (Log2Floor ?m)"
  proof
    assume "2 ^ k \<le> unat ?m"
    then have "(2::nat) ^ k < 2 ^ Suc (nat (Log2Floor ?m))" using log by simp
    then have "k < Suc (nat (Log2Floor ?m))" by (rule power_less_imp_less_exp [rotated]) simp
    then show "k \<le> nat (Log2Floor ?m)" by simp
  next
    assume "k \<le> nat (Log2Floor ?m)"
    then have "(2::nat) ^ k \<le> 2 ^ nat (Log2Floor ?m)" by (rule power_increasing) simp
    then show "2 ^ k \<le> unat ?m" using log by linarith
  qed
  then show "2 ^ k \<le> max (unat (lvl_width l)) (unat (lvl_height l)) \<longleftrightarrow> k < nat (level_count l)"
    using log unfolding m count by auto
qed

lemma mips_match_is:
  fixes w h :: GLsizei
  assumes "level_is base (face ! 0) (unat w) (unat h)" "0 \<le> sint w" "0 \<le> sint h"
  shows "mips_match face n \<longleftrightarrow>
    (\<forall>k\<le>n. level_is base (face ! k) (mip_size (unat w) k) (mip_size (unat h) k))"
proof -
  have dims: "lvl_width (face ! 0) = w" "lvl_height (face ! 0) = h" "lvl_depth (face ! 0) = 1"
    using assms(1) by (simp_all add: level_is_def word_unat_eq_iff)
  have "level_matches (face ! k) (mip_word w k) (mip_word h k) 1 (face ! 0)
      \<longleftrightarrow> level_is base (face ! k) (mip_size (unat w) k) (mip_size (unat h) k)" for k
    unfolding level_matches_is [OF assms(2,3)]
    using assms(1) by (auto simp: level_is_def)
  moreover have "{..n} = insert 0 {1..n}" by auto
  then have "(\<forall>k\<le>n. P k) \<longleftrightarrow> P 0 \<and> (\<forall>k\<in>{1..n}. P k)" for P by (metis atMost_iff insert_iff)
  ultimately show ?thesis
    using assms(1) by (simp add: mips_match_def dims mip_word_1)
qed

lemma complete_flags:
  assumes inv: "tex_inv F n t" and target: "tex_target_' t \<in> {GL_TEXTURE_2D, GL_TEXTURE_CUBE_MAP}"
  shows "texture_complete_' t \<and> (tex_target_' t = GL_TEXTURE_CUBE_MAP \<longrightarrow> cube_complete_' t)
    \<longleftrightarrow> filterable F t \<and> mipmap_complete t"
proof -
  let ?b = "first_level t" and ?fs = "level_infos_' t"
  have ok: "tex_ok n t" and upd: "updated F t = t" using inv by (simp_all add: tex_inv_def)
  have len: "length ?fs = (if tex_target_' t = GL_TEXTURE_CUBE_MAP then 6 else 1)"
    using ok target by (auto simp: tex_ok_def face_count_def)
  then have ne: "?fs \<noteq> []" by (auto split: if_splits)
  then have b_face: "?fs ! 0 \<in> set ?fs" by simp
  then have b_lvl: "?b \<in> set (?fs ! 0)" using ok by (auto simp: tex_ok_def)
  then have b_ok: "level_ok ?b" using ok b_face by (auto simp: tex_ok_def)
  have tc: "texture_complete_' t \<longleftrightarrow> may_be_complete F t \<and>
      (\<forall>face\<in>set ?fs. mips_match face (nat (levels_needed t - 1)))"
    using ne by (subst upd [symmetric]) (simp only: updated_def, simp)
  have cc: "cube_complete_' t \<longleftrightarrow> may_be_cube t \<and> (\<forall>face\<in>set ?fs. same_level0 ?b face)"
    using ne by (subst upd [symmetric]) (simp only: updated_def, simp)
  show ?thesis
  proof (cases "lvl_width ?b = 0 \<or> lvl_height ?b = 0")
    case True
    then show ?thesis unfolding tc may_be_complete_def mipmap_complete_def Let_def by auto
  next
    case False
    then have pos: "0 < unat (lvl_width ?b)" "0 < unat (lvl_height ?b)" by (simp_all add: unat_gt_0)
    have valid: "lvl_valid ?b" using False b_ok by (auto simp: level_ok_def LevelInfo_new_def split: if_splits)
    then have b: "0 \<le> sint (lvl_width ?b)" "0 \<le> sint (lvl_height ?b)" "lvl_depth ?b = 1"
      using b_ok by (simp_all add: level_ok_def)
    note count = level_count_exact [OF b pos(1)]
    have needed: "levels_needed t = level_count ?b" by (simp add: levels_needed_def level_count_def)
    have fits: "level_count ?b \<le> int n" using ok b_face target by (auto simp: tex_ok_def)
    let ?is = "\<lambda>face k. level_is ?b (face ! k) (mip_size (unat (lvl_width ?b)) k) (mip_size (unat (lvl_height ?b)) k)"
    have base: "?is (?fs ! 0) 0" using valid b(3) by (simp add: level_is_def)
    have up_to: "(\<forall>k. 2 ^ k \<le> max (unat (lvl_width ?b)) (unat (lvl_height ?b)) \<longrightarrow> P k)
        \<longleftrightarrow> (\<forall>k\<le>nat (levels_needed t - 1). P k)" for P
      using count(1) unfolding count(2) needed by (metis Suc_nat_eq_nat_zadd1 diff_add_cancel
          diff_ge_0_iff_ge add.commute less_Suc_eq_le)
    have set_level: "levels_needed t - 1 \<le> sint (max_level_set_' t) \<and> 0 \<le> sint (max_level_set_' t)"
      if "?is (?fs ! 0) (nat (levels_needed t - 1))"
    proof -
      have "lvl_valid (?fs ! 0 ! nat (levels_needed t - 1))" using that by (simp add: level_is_def)
      moreover have "nat (levels_needed t - 1) < n" using fits count(1) needed by linarith
      ultimately have "int (nat (levels_needed t - 1)) \<le> sint (max_level_set_' t)"
        using ok b_face unfolding tex_ok_def by blast
      then show ?thesis using count(1) needed by linarith
    qed
    have mips: "mips_match face (nat (levels_needed t - 1)) \<longleftrightarrow> (\<forall>k\<le>nat (levels_needed t - 1). ?is face k)"
      if "?is face 0" for face
      using mips_match_is [OF _ b(1,2)] that by simp
    show ?thesis
    proof (cases "tex_target_' t = GL_TEXTURE_CUBE_MAP")
      case False
      then obtain face where fs: "?fs = [face]" using len by (auto simp: length_Suc_conv)
      show ?thesis
        using False mips [of face] base set_level
        unfolding tc may_be_complete_def mipmap_complete_def Let_def up_to
        by (auto simp: fs unat_gt_0)
    next
      case True
      have same: "same_level0 ?b face \<longleftrightarrow> ?is face 0" for face
        using level_matches_is [OF b(1,2), of "face ! 0" 0 ?b] by (simp add: same_level0_def)
      have "same_level0 ?b face \<and> mips_match face (nat (levels_needed t - 1))
          \<longleftrightarrow> (\<forall>k\<le>nat (levels_needed t - 1). ?is face k)" for face
        using mips [of face] same [of face] by (metis mip_size_0 le0)
      then have "texture_complete_' t \<and> cube_complete_' t \<longleftrightarrow> may_be_complete F t \<and> may_be_cube t
          \<and> (\<forall>face\<in>set ?fs. \<forall>k\<le>nat (levels_needed t - 1). ?is face k)"
        unfolding tc cc by blast
      then show ?thesis
        using True b_face set_level pos len
        unfolding may_be_complete_def may_be_cube_def mipmap_complete_def Let_def up_to
        by (auto simp: word_unat_eq_iff)
    qed
  qed
qed

end
