(* ===== verification/Texture_Invariant.thy ===== *)
theory Texture_Invariant
  imports Texture_Completeness
begin

text \<open>
  The texture manager over all sequences of its operations: every live texture keeps the invariant of
  \<open>Texture_Completeness\<close>, no operation leaves the vectors of levels, and
  \<^verbatim>\<open>num_unrenderable_textures_\<close> is the number of live textures that cannot be rendered, one less once the
  default texture for \<^verbatim>\<open>GL_TEXTURE_EXTERNAL_OES\<close> exists.

  The feature set is fixed: a request that changes \<^verbatim>\<open>npot_ok\<close> changes what can be rendered without
  updating the count (see \<open>npot_follows_last_request\<close> in \<open>Feature_Info\<close>).
\<close>

section \<open>Limits\<close>

definition limits_ok :: "TextureManager \<Rightarrow> bool" where
  "limits_ok m \<longleftrightarrow>
     0 < sint (max_texture_size_' m) \<and> 0 < sint (max_cube_map_texture_size_' m)
     \<and> unat (max_levels_' m) = nat (1 + Log2Floor (max_texture_size_' m))
     \<and> unat (max_cube_map_levels_' m) = nat (1 + Log2Floor (max_cube_map_texture_size_' m))"

definition room :: "TextureManager \<Rightarrow> GLenum \<Rightarrow> nat" where
  "room m target = (if target = 0 then 1 else unat (MaxLevelsForTarget target m))"

lemma sint_pos_unat: "0 < sint w \<Longrightarrow> 0 < unat (w :: 32 word)"
  using sint_nonneg_unat(1) [of w] by linarith

lemma room_bounds:
  assumes "limits_ok m"
  shows "0 < room m target" "room m target \<le> 32"
  using assms Log2Floor_exact [OF sint_pos_unat, of "max_texture_size_' m"]
    Log2Floor_exact [OF sint_pos_unat, of "max_cube_map_texture_size_' m"]
    Log2Floor_bound [of "max_texture_size_' m"] Log2Floor_bound [of "max_cube_map_texture_size_' m"]
  by (auto simp: limits_ok_def room_def MaxLevelsForTarget_def)

lemma level_count_bound:
  assumes "0 \<le> sint (lvl_width l)" "0 \<le> sint (lvl_height l)" "lvl_depth l = 1" "0 < sint s"
    "sint (lvl_width l) \<le> sint s" "sint (lvl_height l) \<le> sint s"
  shows "level_count l \<le> 1 + Log2Floor s"
proof -
  have "unat (lvl_width l) \<le> unat s" "unat (lvl_height l) \<le> unat s"
    using assms sint_nonneg_unat(1) [of "lvl_width l"] sint_nonneg_unat(1) [of "lvl_height l"]
      sint_nonneg_unat(1) [of s] by linarith+
  then have "unat (smax (smax (lvl_width l) (lvl_height l)) 1) \<le> unat s"
    using smax_unat [OF assms(1,2)] smax_unat(1) [of "smax (lvl_width l) (lvl_height l)" 1]
      sint_pos_unat [OF assms(4)] by simp
  then show ?thesis
    using Log2Floor_mono by (simp add: level_count_def ComputeMipMapCount_def assms(3))
qed

lemma new_limits_ok:
  assumes "0 < sint s" "0 < sint c"
  shows "limits_ok (TextureManager_new s c)"
proof -
  have "unat (word_of_int (ComputeMipMapCount x x x) :: GLint) = nat (1 + Log2Floor x)"
    if "0 < sint x" for x
  proof -
    define v where "v = 1 + Log2Floor x"
    have "0 \<le> v" "v \<le> 32"
      using Log2Floor_exact [OF sint_pos_unat [OF that]] Log2Floor_bound [of x] by (simp_all add: v_def)
    then have "v mod 2 ^ LENGTH(32) = v" by (intro mod_pos_pos_trivial) simp_all
    then have "uint (word_of_int v :: GLint) = v" by (simp only: uint_word_of_int)
    moreover have "ComputeMipMapCount x x x = v" by (simp add: ComputeMipMapCount_def smax_def v_def)
    ultimately show ?thesis by (simp only: unat_eq_nat_uint v_def)
  qed
  then show ?thesis using assms by (simp add: limits_ok_def TextureManager_new_def)
qed

section \<open>The invariant\<close>

definition default_textures :: "TextureManager \<Rightarrow> nat list" where
  "default_textures m =
     List.map_filter (\<lambda>p. p)
       [default_texture_2d_' m, default_texture_cube_map_' m, default_texture_external_oes_' m]"

definition live_textures :: "TextureManager \<Rightarrow> nat list" where
  "live_textures m = map snd (texture_infos_' m) @ default_textures m"

definition unrenderable :: "FeatureInfo \<Rightarrow> TextureManager \<Rightarrow> nat set" where
  "unrenderable F m = {a \<in> set (live_textures m). \<not> CanRender F (tex_objects m ! a)}"

definition textures_ok :: "FeatureInfo \<Rightarrow> TextureManager \<Rightarrow> bool" where
  "textures_ok F m \<longleftrightarrow>
     limits_ok m \<and> distinct (live_textures m) \<and> distinct (map fst (texture_infos_' m))
     \<and> (\<forall>a\<in>set (live_textures m). a < length (tex_objects m))
     \<and> (\<forall>a < length (tex_objects m).
          tex_inv F (room m (tex_target_' (tex_objects m ! a))) (tex_objects m ! a)
          \<and> (deleted_' (tex_objects m ! a) \<longleftrightarrow> a \<notin> set (live_textures m)))
     \<and> num_unrenderable_textures_' m + (if default_texture_external_oes_' m = None then 0 else 1)
       = int (card (unrenderable F m))"

lemma card_unrenderable:
  "int (card {a \<in> set xs. \<not> P a}) = (\<Sum>a\<in>set xs. if \<not> P a then 1 else 0)"
proof -
  have "{a \<in> set xs. \<not> P a} = set xs \<inter> {a. \<not> P a}" by auto
  then show ?thesis by (simp add: sum.If_cases)
qed

lemma card_change:
  assumes "a \<in> A" "finite A" "\<And>b. b \<in> A \<Longrightarrow> b \<noteq> a \<Longrightarrow> f b = g b"
  shows "(\<Sum>b\<in>A. f b :: int) = (\<Sum>b\<in>A. g b) - g a + f a"
proof -
  have "(\<Sum>b\<in>A. f b) = f a + (\<Sum>b\<in>A - {a}. f b)" using assms(1,2) by (simp add: sum.remove)
  also have "(\<Sum>b\<in>A - {a}. f b) = (\<Sum>b\<in>A - {a}. g b)" using assms(3) by (intro sum.cong) auto
  finally show ?thesis using sum.remove [OF assms(2,1), of g] by simp
qed

lemma replace_counted_fields [simp]:
  "texture_infos_' (replace_counted F a t m) = texture_infos_' m"
  "max_texture_size_' (replace_counted F a t m) = max_texture_size_' m"
  "max_cube_map_texture_size_' (replace_counted F a t m) = max_cube_map_texture_size_' m"
  "max_levels_' (replace_counted F a t m) = max_levels_' m"
  "max_cube_map_levels_' (replace_counted F a t m) = max_cube_map_levels_' m"
  "default_texture_2d_' (replace_counted F a t m) = default_texture_2d_' m"
  "default_texture_cube_map_' (replace_counted F a t m) = default_texture_cube_map_' m"
  "default_texture_external_oes_' (replace_counted F a t m) = default_texture_external_oes_' m"
  "tex_objects (replace_counted F a t m) = (tex_objects m)[a := t]"
  by (simp_all add: replace_counted_def)

lemma replace_counted_live [simp]:
  "live_textures (replace_counted F a t m) = live_textures m"
  "limits_ok (replace_counted F a t m) = limits_ok m"
  "room (replace_counted F a t m) = room m"
  by (simp_all add: live_textures_def default_textures_def limits_ok_def room_def fun_eq_iff
      MaxLevelsForTarget_def)

lemma CanRender_deleted: "deleted_' t \<Longrightarrow> \<not> CanRender F t"
  by (simp add: CanRender_def)

lemma replace_counted_ok:
  assumes ok: "textures_ok F m" and len: "a < length (tex_objects m)"
    and t: "tex_inv F (room m (tex_target_' t)) t" "deleted_' t = deleted_' (tex_objects m ! a)"
  shows "textures_ok F (replace_counted F a t m)"
proof -
  let ?m = "replace_counted F a t m"
  let ?old = "\<lambda>b. if \<not> CanRender F (tex_objects m ! b) then 1 else 0 :: int"
  let ?new = "\<lambda>b. if \<not> CanRender F ((tex_objects m)[a := t] ! b) then 1 else 0 :: int"
  have "(\<Sum>b\<in>set (live_textures m). ?new b) = (\<Sum>b\<in>set (live_textures m). ?old b) - ?old a + ?new a"
  proof (cases "a \<in> set (live_textures m)")
    case True
    then show ?thesis by (rule card_change) simp_all
  next
    case False
    then have "deleted_' (tex_objects m ! a)" using ok len by (simp add: textures_ok_def)
    then have "?old a = ?new a" using len t(2) by (simp add: CanRender_deleted)
    moreover have "(\<Sum>b\<in>set (live_textures m). ?new b) = (\<Sum>b\<in>set (live_textures m). ?old b)"
      using False by (intro sum.cong refl) (metis nth_list_update_neq)
    ultimately show ?thesis by simp
  qed
  then have "int (card (unrenderable F ?m)) = int (card (unrenderable F m)) - ?old a + ?new a"
    by (simp only: unrenderable_def card_unrenderable replace_counted_live replace_counted_fields)
  then have "num_unrenderable_textures_' ?m + (if default_texture_external_oes_' m = None then 0 else 1)
      = int (card (unrenderable F ?m))"
    using ok len by (simp add: textures_ok_def replace_counted_def)
  then show ?thesis
    using ok t len by (auto simp: textures_ok_def nth_list_update)
qed

section \<open>Operations on a texture object\<close>

definition same_params :: "TextureInfo \<Rightarrow> TextureInfo \<Rightarrow> bool" where
  "same_params t t' \<longleftrightarrow>
     tex_target_' t' = tex_target_' t \<and> min_filter_' t' = min_filter_' t \<and> mag_filter_' t' = mag_filter_' t
     \<and> wrap_s_' t' = wrap_s_' t \<and> wrap_t_' t' = wrap_t_' t \<and> deleted_' t' = deleted_' t
     \<and> tex_service_id_' t' = tex_service_id_' t \<and> owned_' t' = owned_' t
     \<and> stream_texture_' t' = stream_texture_' t
     \<and> framebuffer_attachment_count_' t' = framebuffer_attachment_count_' t"

lemma same_params_refl [simp]: "same_params t t"
  by (simp add: same_params_def)

lemma same_params_trans: "same_params t t' \<Longrightarrow> same_params t' t'' \<Longrightarrow> same_params t t''"
  by (simp add: same_params_def)

lemma same_params_put [simp]: "same_params t (updated F (put_level i level l t))"
  by (simp add: same_params_def put_level_def)

lemma tex_okD:
  assumes "tex_ok n t"
  shows "0 < n" "n \<le> 32" "length (level_infos_' t) = face_count (tex_target_' t)"
    "face \<in> set (level_infos_' t) \<Longrightarrow> length face = n"
    "i < length (level_infos_' t) \<Longrightarrow> length (level_infos_' t ! i) = n"
    "i < length (level_infos_' t) \<Longrightarrow> k < n \<Longrightarrow> level_ok (level_infos_' t ! i ! k)"
    "i < length (level_infos_' t) \<Longrightarrow> tex_target_' t \<noteq> GL_TEXTURE_EXTERNAL_OES \<Longrightarrow>
       level_count (level_infos_' t ! i ! 0) \<le> int n"
proof -
  show level: "level_ok (level_infos_' t ! i ! k)" if "i < length (level_infos_' t)" "k < n"
  proof -
    have face: "level_infos_' t ! i \<in> set (level_infos_' t)" using that(1) by simp
    then have "level_infos_' t ! i ! k \<in> set (level_infos_' t ! i)"
      using assms that(2) unfolding tex_ok_def by (metis nth_mem)
    then show ?thesis using assms face unfolding tex_ok_def by blast
  qed
qed (use assms in \<open>auto simp: tex_ok_def\<close>)

text \<open>The level \<open>k\<close> that \<^verbatim>\<open>MarkMipmapsGenerated\<close> records for a face with first level \<open>base\<close>.\<close>

definition generated_level :: "LevelInfo \<Rightarrow> nat \<Rightarrow> LevelInfo" where
  "generated_level base k =
     base\<lparr>lvl_valid := True, lvl_width := mip_word (lvl_width base) k,
          lvl_height := mip_word (lvl_height base) k, lvl_depth := 1\<rparr>"

lemma mips_of_face_ok:
  assumes "tex_inv F n t" "i < length (level_infos_' t)" "GLTargetToFaceIndex target = i"
    and "1 \<le> level" "level + k \<le> n" "0 \<le> sint (lvl_width base)" "0 \<le> sint (lvl_height base)"
  shows "\<exists>t'. mips_of_face F target base level k (mip_word (lvl_width base) (level - 1))
      (mip_word (lvl_height base) (level - 1)) 1 t = Some t'
    \<and> tex_inv F n t' \<and> same_params t t' \<and> length (level_infos_' t') = length (level_infos_' t)
    \<and> (\<forall>i' < length (level_infos_' t). \<forall>j < n. level_infos_' t' ! i' ! j =
         (if i' = i \<and> level \<le> j \<and> j < level + k then generated_level base j else level_infos_' t ! i' ! j))"
  using assms
proof (induction k arbitrary: level t)
  case 0
  then show ?case by auto
next
  case (Suc k)
  let ?l = "generated_level base level"
  have ok: "tex_ok n t" using Suc.prems(1) by (simp add: tex_inv_def)
  have small: "unat (word_of_nat level :: GLint) = level"
    using Suc.prems(5) tex_okD(2) [OF ok] by (simp add: unat_of_nat)
  then have level: "0 \<le> sint (word_of_nat level :: GLint)" "unat (word_of_nat level :: GLint) < n"
    using sint_small [of "word_of_nat level"] Suc.prems(5) tex_okD(2) [OF ok] by simp_all
  have dims: "half_size (mip_word (lvl_width base) (level - 1)) = mip_word (lvl_width base) level"
      "half_size (mip_word (lvl_height base) (level - 1)) = mip_word (lvl_height base) level"
      "half_size 1 = 1"
    using Suc.prems(4) mip_word_Suc [of "lvl_width base" "level - 1"]
      mip_word_Suc [of "lvl_height base" "level - 1"] mip_word_1 [of 1]
    by (simp_all add: mip_word_Suc)
  have "level_ok ?l"
    using mip_word_unat [OF Suc.prems(6)] mip_word_unat [OF Suc.prems(7)]
    by (simp add: level_ok_def generated_level_def)
  moreover have "(word_of_nat level :: GLint) \<noteq> 0" using small Suc.prems(4) by auto
  ultimately have put: "tex_ok n (put_level i (word_of_nat level) ?l t)"
    by (intro put_level_ok [OF ok Suc.prems(2) level]) auto
  let ?t = "updated F (put_level i (word_of_nat level) ?l t)"
  have set: "Texture_SetLevelInfo F target (word_of_nat level) (lvl_internal_format base)
      (mip_word (lvl_width base) level) (mip_word (lvl_height base) level) 1 (lvl_border base)
      (lvl_format base) (lvl_type base) t = Some ?t"
    by (rule SetLevelInfo_put [OF Suc.prems(3) [symmetric] Suc.prems(2) level ok put])
      (simp add: generated_level_def)
  have levels: "level_infos_' ?t = (level_infos_' t)[i := (level_infos_' t ! i)[level := ?l]]"
    by (simp add: put_level_def small)
  have "\<exists>t'. mips_of_face F target base (Suc level) k (mip_word (lvl_width base) (Suc level - 1))
      (mip_word (lvl_height base) (Suc level - 1)) 1 ?t = Some t'
    \<and> tex_inv F n t' \<and> same_params ?t t' \<and> length (level_infos_' t') = length (level_infos_' ?t)
    \<and> (\<forall>i' < length (level_infos_' ?t). \<forall>j < n. level_infos_' t' ! i' ! j =
         (if i' = i \<and> Suc level \<le> j \<and> j < Suc level + k then generated_level base j
          else level_infos_' ?t ! i' ! j))"
  proof (rule Suc.IH)
    show "tex_inv F n ?t" using put by (rule tex_inv_updated)
  qed (use Suc.prems levels in auto)
  then obtain t' where t': "mips_of_face F target base (Suc level) k (mip_word (lvl_width base) level)
      (mip_word (lvl_height base) level) 1 ?t = Some t'"
      "tex_inv F n t'" "same_params ?t t'" "length (level_infos_' t') = length (level_infos_' ?t)"
      "\<forall>i' < length (level_infos_' ?t). \<forall>j < n. level_infos_' t' ! i' ! j =
         (if i' = i \<and> Suc level \<le> j \<and> j < Suc level + k then generated_level base j
          else level_infos_' ?t ! i' ! j)" by auto
  have "level_infos_' t' ! i' ! j = (if i' = i \<and> level \<le> j \<and> j < level + Suc k
      then generated_level base j else level_infos_' t ! i' ! j)"
    if "i' < length (level_infos_' t)" "j < n" for i' j
    using t'(5) [unfolded levels] that tex_okD(5) [OF ok Suc.prems(2)] Suc.prems(2)
    by (cases "j = level") (auto simp: nth_list_update)
  moreover have "mips_of_face F target base level (Suc k) (mip_word (lvl_width base) (level - 1))
      (mip_word (lvl_height base) (level - 1)) 1 t = Some t'"
    using set t'(1) dims by (simp add: Let_def)
  ultimately show ?case
    using t'(2-4) levels same_params_trans [OF same_params_put t'(3)] by (intro exI [of _ t']) simp
qed


lemma can_generate_loop_exact:
  "\<forall>face\<in>set faces. face \<noteq> [] \<Longrightarrow>
    can_generate_loop first faces = Some (\<forall>face\<in>set faces. same_level0 first face)"
  by (induction first faces rule: can_generate_loop.induct) (auto simp: same_level0_def)

lemma CanGenerateMipmaps_exact:
  assumes "tex_ok n t"
  shows "CanGenerateMipmaps F t = Some (\<not> (npot_' t \<and> \<not> npot_ok F) \<and> level_infos_' t \<noteq> []
    \<and> \<not> deleted_' t \<and> tex_target_' t \<noteq> GL_TEXTURE_EXTERNAL_OES
    \<and> (\<forall>face\<in>set (level_infos_' t). same_level0 (first_level t) face))"
proof -
  have ne: "\<forall>face\<in>set (level_infos_' t). face \<noteq> []" using assms by (auto simp: tex_ok_def)
  then have "(case hd (level_infos_' t) of [] \<Rightarrow> None
      | first # _ \<Rightarrow> can_generate_loop first (level_infos_' t))
    = can_generate_loop (first_level t) (level_infos_' t)" if "level_infos_' t \<noteq> []"
    using that by (cases "level_infos_' t"; cases "hd (level_infos_' t)") auto
  then show ?thesis
    using can_generate_loop_exact [OF ne] by (auto simp: CanGenerateMipmaps_def)
qed

lemma face_index_target:
  assumes "i < 6"
  shows "GLTargetToFaceIndex (FaceIndexToGLTarget i) = i"
proof -
  have "i \<in> {0, 1, 2, 3, 4, 5}" using assms by auto
  then show ?thesis by (auto simp: GLTargetToFaceIndex_def FaceIndexToGLTarget_def)
qed

definition mips_count :: "LevelInfo \<Rightarrow> nat" where
  "mips_count base = nat (level_count base - 1)"

lemma mips_of_faces_ok:
  assumes "tex_inv F n t" "tex_target_' t \<in> {GL_TEXTURE_2D, GL_TEXTURE_CUBE_MAP}"
    and "\<forall>i\<in>set is. i < length (level_infos_' t) \<and> lvl_depth (level_infos_' t ! i ! 0) = 1
      \<and> lvl_valid (level_infos_' t ! i ! 0)" "distinct is"
  shows "\<exists>t'. mips_of_faces F is t = Some t' \<and> tex_inv F n t' \<and> same_params t t'
    \<and> length (level_infos_' t') = length (level_infos_' t)
    \<and> (\<forall>i < length (level_infos_' t). \<forall>j < n. level_infos_' t' ! i ! j =
         (if i \<in> set is \<and> 1 \<le> j \<and> j \<le> mips_count (level_infos_' t ! i ! 0)
          then generated_level (level_infos_' t ! i ! 0) j else level_infos_' t ! i ! j))"
  using assms
proof (induction "is" arbitrary: t)
  case Nil
  then show ?case by auto
next
  case (Cons i "is")
  have ok: "tex_ok n t" using Cons.prems(1) by (simp add: tex_inv_def)
  let ?b = "level_infos_' t ! i ! 0"
  have i: "i < length (level_infos_' t)" "lvl_depth ?b = 1" "lvl_valid ?b" using Cons.prems(3) by auto
  note n = tex_okD(1) [OF ok]
  have b: "level_ok ?b" using tex_okD(6) [OF ok i(1) n] .
  then have dims: "0 \<le> sint (lvl_width ?b)" "0 \<le> sint (lvl_height ?b)" using i(3) by (simp_all add: level_ok_def)
  have ext: "tex_target_' t \<noteq> GL_TEXTURE_EXTERNAL_OES" using Cons.prems(2) by auto
  then have room: "1 + mips_count ?b \<le> n"
    using tex_okD(7) [OF ok i(1)] n by (auto simp: mips_count_def)
  let ?target = "if tex_target_' t = GL_TEXTURE_2D then GL_TEXTURE_2D else FaceIndexToGLTarget i"
  have "length (level_infos_' t) = (if tex_target_' t = GL_TEXTURE_2D then 1 else 6)"
    using tex_okD(3) [OF ok] Cons.prems(2) by (auto simp: face_count_def)
  then have target: "GLTargetToFaceIndex ?target = i"
    using i(1) face_index_target [of i] by (auto simp: GLTargetToFaceIndex_def [of GL_TEXTURE_2D] split: if_splits)
  obtain t1 where t1: "mips_of_face F ?target ?b 1 (mips_count ?b) (lvl_width ?b) (lvl_height ?b) 1 t = Some t1"
      "tex_inv F n t1" "same_params t t1" "length (level_infos_' t1) = length (level_infos_' t)"
      "\<forall>i' < length (level_infos_' t). \<forall>j < n. level_infos_' t1 ! i' ! j =
         (if i' = i \<and> 1 \<le> j \<and> j < 1 + mips_count ?b then generated_level ?b j else level_infos_' t ! i' ! j)"
    using mips_of_face_ok [OF Cons.prems(1) i(1) target order_refl room dims] by auto
  have keep: "level_infos_' t1 ! i' ! 0 = level_infos_' t ! i' ! 0" if "i' < length (level_infos_' t)" for i'
    using t1(5) that n by simp
  have pre: "tex_target_' t1 \<in> {GL_TEXTURE_2D, GL_TEXTURE_CUBE_MAP}"
    "\<forall>i\<in>set is. i < length (level_infos_' t1) \<and> lvl_depth (level_infos_' t1 ! i ! 0) = 1
      \<and> lvl_valid (level_infos_' t1 ! i ! 0)" "distinct is"
    using Cons.prems t1(3,4) keep by (auto simp: same_params_def)
  obtain t2 where t2: "mips_of_faces F is t1 = Some t2" "tex_inv F n t2" "same_params t1 t2"
      "length (level_infos_' t2) = length (level_infos_' t1)"
      "\<forall>i < length (level_infos_' t1). \<forall>j < n. level_infos_' t2 ! i ! j =
         (if i \<in> set is \<and> 1 \<le> j \<and> j \<le> mips_count (level_infos_' t1 ! i ! 0)
          then generated_level (level_infos_' t1 ! i ! 0) j else level_infos_' t1 ! i ! j)"
    using Cons.IH [OF t1(2) pre] by blast
  have "level_infos_' t2 ! i' ! j = (if i' \<in> set (i # is) \<and> 1 \<le> j \<and> j \<le> mips_count (level_infos_' t ! i' ! 0)
      then generated_level (level_infos_' t ! i' ! 0) j else level_infos_' t ! i' ! j)"
    if "i' < length (level_infos_' t)" "j < n" for i' j
    using t2(5) t1(4,5) that keep Cons.prems(4) by (auto simp: less_Suc_eq_le)
  moreover have "level_infos_' t ! i \<noteq> []" using tex_okD(5) [OF ok i(1)] n by auto
  then have "mips_of_faces F (i # is) t = Some t2"
    using t1(1) t2(1) i(2)
    by (cases "level_infos_' t ! i") (simp_all add: mips_count_def level_count_def)
  ultimately show ?case
    using t2(2,4) t1(4) same_params_trans [OF t1(3) t2(3)] by (intro exI [of _ t2]) simp
qed


text \<open>Mipmaps are generated exactly for a texture whose faces have the same, defined first level and
  whose size the features allow; then every level is there.\<close>

definition can_generate :: "FeatureInfo \<Rightarrow> TextureInfo \<Rightarrow> bool" where
  "can_generate F t \<longleftrightarrow>
     (npot_' t \<longrightarrow> npot_ok F) \<and> \<not> deleted_' t \<and> tex_target_' t \<in> {GL_TEXTURE_2D, GL_TEXTURE_CUBE_MAP}
     \<and> (\<forall>face\<in>set (level_infos_' t). same_level0 (first_level t) face)"

lemma MarkMipmapsGenerated_ok:
  assumes "tex_inv F n t"
  shows "\<exists>ok t'. Texture_MarkMipmapsGenerated F t = Some (ok, t') \<and> tex_inv F n t' \<and> same_params t t'
    \<and> (ok \<longleftrightarrow> can_generate F t) \<and> (\<not> ok \<longrightarrow> t' = t)
    \<and> (ok \<longrightarrow> first_level t' = first_level t \<and>
         (0 < unat (lvl_width (first_level t)) \<and> 0 < unat (lvl_height (first_level t))
          \<and> (tex_target_' t = GL_TEXTURE_CUBE_MAP \<longrightarrow> lvl_width (first_level t) = lvl_height (first_level t))
          \<longrightarrow> mipmap_complete t'))"
proof -
  have ok: "tex_ok n t" using assms by (simp add: tex_inv_def)
  have target: "tex_target_' t \<in> {0, GL_TEXTURE_2D, GL_TEXTURE_CUBE_MAP, GL_TEXTURE_EXTERNAL_OES}"
    using ok by (simp add: tex_ok_def)
  have can: "CanGenerateMipmaps F t = Some (can_generate F t)"
    using target tex_okD(3) [OF ok] unfolding CanGenerateMipmaps_exact [OF ok]
    by (auto simp: can_generate_def face_count_def)
  show ?thesis
  proof (cases "can_generate F t")
    case False
    then show ?thesis
      using assms can
      by (intro exI [of _ False] exI [of _ t]) (simp add: Texture_MarkMipmapsGenerated_def)
  next
    case True
    let ?fs = "level_infos_' t" and ?b = "first_level t"
    have two: "tex_target_' t \<in> {GL_TEXTURE_2D, GL_TEXTURE_CUBE_MAP}"
      and same: "\<forall>face\<in>set ?fs. same_level0 ?b face" using True by (simp_all add: can_generate_def)
    then have ne: "0 < length ?fs" using tex_okD(3) [OF ok] by (auto simp: face_count_def)
    have match: "level_matches (?fs ! i ! 0) (lvl_width ?b) (lvl_height ?b) 1 ?b" if "i < length ?fs" for i
      using same that by (simp add: same_level0_def)
    then have "\<forall>i\<in>set [0..<length ?fs]. i < length ?fs \<and> lvl_depth (?fs ! i ! 0) = 1 \<and> lvl_valid (?fs ! i ! 0)"
      by (auto simp: level_matches_def)
    from mips_of_faces_ok [OF assms two this] obtain t' where
      t': "mips_of_faces F [0..<length ?fs] t = Some t'" "tex_inv F n t'" "same_params t t'"
        "length (level_infos_' t') = length ?fs"
      and levels: "\<forall>i < length ?fs. \<forall>j < n. level_infos_' t' ! i ! j =
         (if i \<in> set [0..<length ?fs] \<and> 1 \<le> j \<and> j \<le> mips_count (?fs ! i ! 0)
          then generated_level (?fs ! i ! 0) j else ?fs ! i ! j)" by auto
    note n = tex_okD(1) [OF ok]
    have first: "first_level t' = ?b" using levels ne n by auto
    have complete: "mipmap_complete t'"
      if pos: "0 < unat (lvl_width ?b)" "0 < unat (lvl_height ?b)"
        "tex_target_' t = GL_TEXTURE_CUBE_MAP \<longrightarrow> lvl_width ?b = lvl_height ?b"
    proof -
      have b: "0 \<le> sint (lvl_width ?b)" "0 \<le> sint (lvl_height ?b)" "lvl_depth ?b = 1"
        using tex_okD(6) [OF ok ne n] match [OF ne] by (auto simp: level_ok_def level_matches_def)
      note count = level_count_exact [OF b pos(1)]
      have "level_count ?b \<le> int n" using tex_okD(7) [OF ok ne] two by auto
      then have "level_is ?b (level_infos_' t' ! i ! k) (mip_size (unat (lvl_width ?b)) k)
          (mip_size (unat (lvl_height ?b)) k)"
        if i: "i < length ?fs" and k: "2 ^ k \<le> max (unat (lvl_width ?b)) (unat (lvl_height ?b))" for i k
      proof -
        have k: "k < nat (level_count ?b)" "k < n"
          using k \<open>level_count ?b \<le> int n\<close> unfolding count(2) by linarith+
        have dims: "lvl_width (?fs ! i ! 0) = lvl_width ?b" "lvl_height (?fs ! i ! 0) = lvl_height ?b"
            "lvl_depth (?fs ! i ! 0) = 1"
          using match [OF i] by (simp_all add: level_matches_def)
        then have "mips_count (?fs ! i ! 0) = mips_count ?b"
          using b(3) by (simp add: mips_count_def level_count_def)
        then have "level_infos_' t' ! i ! k = (if k = 0 then ?fs ! i ! 0 else generated_level (?fs ! i ! 0) k)"
          using levels i k n by (auto simp: mips_count_def)
        then show ?thesis
          using match [OF i] dims mip_word_unat [OF b(1), of k] mip_word_unat [OF b(2), of k]
          by (auto simp: level_is_def level_matches_def generated_level_def)
      qed
      then show ?thesis
        using pos t'(3,4) unfolding mipmap_complete_def first Let_def
        by (auto simp: same_params_def in_set_conv_nth)
    qed
    show ?thesis
      using True can t' first complete
      by (intro exI [of _ True] exI [of _ t']) (simp add: Texture_MarkMipmapsGenerated_def)
  qed
qed


lemma MarkMipmapsGenerated_total:
  "tex_inv F n t \<Longrightarrow> \<exists>ok t'. Texture_MarkMipmapsGenerated F t = Some (ok, t') \<and> tex_inv F n t' \<and> same_params t t'"
  using MarkMipmapsGenerated_ok by blast

lemma SetParameter_ok:
  assumes "tex_inv F n t"
  shows "\<exists>ok t'. Texture_SetParameter F pname param t = Some (ok, t') \<and> tex_inv F n t'
    \<and> tex_target_' t' = tex_target_' t \<and> deleted_' t' = deleted_' t"
proof (cases "set_parameter F pname param t")
  case None
  then show ?thesis
    using assms by (intro exI [of _ False] exI [of _ t]) (simp add: Texture_SetParameter_def)
next
  case (Some t1)
  have "tex_ok n t" using assms by (simp add: tex_inv_def)
  then have "tex_ok n t1"
    using Some by (elim tex_ok_cong [rotated 4])
      (auto simp: set_parameter_def NeedsMips_def split: if_splits)
  moreover have "tex_target_' t1 = tex_target_' t" "deleted_' t1 = deleted_' t"
    using Some by (auto simp: set_parameter_def split: if_splits)
  ultimately show ?thesis
    using Some by (intro exI [of _ True] exI [of _ "updated F t1"])
      (simp add: Texture_SetParameter_def tex_ok_Update tex_inv_updated)
qed

lemma resized_face [simp]: "vector_resize n LevelInfo_new [] = replicate n LevelInfo_new"
  by (simp add: vector_resize_def)

lemma Texture_SetTarget_ok:
  assumes "tex_inv F n t" "tex_target_' t = 0" "0 < unat max_levels" "unat max_levels \<le> 32"
    and "target \<in> {GL_TEXTURE_2D, GL_TEXTURE_CUBE_MAP, GL_TEXTURE_EXTERNAL_OES}"
  shows "tex_inv F (unat max_levels) (Texture_SetTarget target max_levels t)"
proof -
  let ?t = "Texture_SetTarget target max_levels t"
  have ok: "tex_ok n t" "updated F t = t" using assms(1) by (simp_all add: tex_inv_def)
  then have none: "level_infos_' t = []" using assms(2) by (simp add: tex_ok_def face_count_def)
  have flags: "\<not> npot_' t" "\<not> texture_complete_' t" "\<not> cube_complete_' t"
    using none arg_cong [OF ok(2), of npot_'] arg_cong [OF ok(2), of texture_complete_']
      arg_cong [OF ok(2), of cube_complete_'] by (simp_all add: updated_def)
  have max: "max_level_set_' t = - 1" using ok(1) assms(2) by (simp add: tex_ok_def)
  have levels: "level_infos_' ?t =
      replicate (face_count target) (replicate (unat max_levels) LevelInfo_new)"
    using none assms(5) by (auto simp: Texture_SetTarget_def face_count_def vector_resize_def Let_def)
  have fields: "tex_target_' ?t = target" "max_level_set_' ?t = - 1" "\<not> npot_' ?t"
      "\<not> texture_complete_' ?t" "\<not> cube_complete_' ?t"
      "target = GL_TEXTURE_EXTERNAL_OES \<Longrightarrow> \<not> NeedsMips ?t"
    using max flags by (simp_all add: Texture_SetTarget_def NeedsMips_def Let_def)
  have faces: "0 < face_count target" using assms(5) by (auto simp: face_count_def)
  have new: "level_ok LevelInfo_new" "\<not> lvl_valid LevelInfo_new" "level_count LevelInfo_new = 0"
      "lvl_width LevelInfo_new = 0"
    by (simp_all add: level_ok_def LevelInfo_new_def level_count_def ComputeMipMapCount_def smax_def)
  have face: "face ! 0 = LevelInfo_new" if "face \<in> set (level_infos_' ?t)" for face
    using that assms(3) by (auto simp: levels)
  have "- 1 < uint max_levels" using uint_ge_0 [of max_levels] by linarith
  then have "tex_ok (unat max_levels) ?t"
    using assms(3-5) fields new by (auto simp: tex_ok_def levels face_count_def)
  moreover have "updated F ?t = ?t\<lparr>npot_' := False, texture_complete_' := False, cube_complete_' := False\<rparr>"
  proof -
    have "\<not> level0_npot face" if "face \<in> set (level_infos_' ?t)" for face
      using face [OF that] by (simp add: level0_npot_def LevelInfo_new_def IsNPOT_def)
    moreover have "\<not> may_be_complete F ?t"
      using face [of "level_infos_' ?t ! 0"] faces new by (simp add: may_be_complete_def levels)
    moreover have "\<not> (\<forall>face\<in>set (level_infos_' ?t). same_level0 (first_level ?t) face)"
      using face faces new by (auto simp: same_level0_def level_matches_def levels)
    ultimately show ?thesis by (simp add: updated_def)
  qed
  moreover have "?t\<lparr>npot_' := False, texture_complete_' := False, cube_complete_' := False\<rparr> = ?t"
    using fields(3-5) by (cases ?t) simp
  ultimately show ?thesis by (simp add: tex_inv_def)
qed

end
