(* ===== verification/Texture_Steps.thy ===== *)
theory Texture_Steps
  imports Texture_Invariant
begin

text \<open>
  The texture manager over all sequences of its operations. \<open>tex_step\<close> is one operation of
  \<^verbatim>\<open>TextureManager\<close> (or of a texture object) called as its callers call it: a new client id is unused,
  the target of an object is set once, and a level is recorded after \<^verbatim>\<open>ValidForTarget\<close> accepted it for a
  target the object has. \<open>tex_reachable\<close> adds the construction and \<^verbatim>\<open>Initialize\<close>.
\<close>

section \<open>Initialisation\<close>

definition default_level :: LevelInfo where
  "default_level =
     \<lparr>lvl_valid = True, lvl_internal_format = GL_RGBA, lvl_width = 1, lvl_height = 1, lvl_depth = 1,
      lvl_border = 0, lvl_format = GL_RGBA, lvl_type = GL_UNSIGNED_BYTE\<rparr>"

lemma Log2Floor_1: "Log2Floor 1 = 0"
  by (simp add: Log2Floor_def)

lemma default_level_ok: "level_ok default_level" "level_count default_level = 1"
  by (simp_all add: level_ok_def default_level_def level_count_def ComputeMipMapCount_def smax_def Log2Floor_1)

lemma default_levels_ok:
  assumes "tex_ok n t" "\<forall>target\<in>set targets. GLTargetToFaceIndex target < length (level_infos_' t)"
  shows "\<exists>t'. default_levels targets t = Some t' \<and> tex_ok n t' \<and> same_params t t'
    \<and> length (level_infos_' t') = length (level_infos_' t)
    \<and> (targets \<noteq> [] \<longrightarrow> updated FeatureInfo_new t' = t')
    \<and> (\<forall>i < length (level_infos_' t). level_infos_' t' ! i ! 0 =
         (if i \<in> GLTargetToFaceIndex ` set targets then default_level else level_infos_' t ! i ! 0))"
  using assms
proof (induction targets arbitrary: t)
  case Nil
  then show ?case by simp
next
  case (Cons target targets)
  let ?i = "GLTargetToFaceIndex target"
  let ?t = "updated FeatureInfo_new (put_level ?i 0 default_level t)"
  note ok = Cons.prems(1) and n = tex_okD(1) [OF Cons.prems(1)]
  have i: "?i < length (level_infos_' t)" using Cons.prems(2) by simp
  have put: "tex_ok n (put_level ?i 0 default_level t)"
    using n default_level_ok by (intro put_level_ok [OF ok i]) simp_all
  have set: "Texture_SetLevelInfo FeatureInfo_new target 0 GL_RGBA 1 1 1 0 GL_RGBA GL_UNSIGNED_BYTE t = Some ?t"
    using n by (intro SetLevelInfo_put [OF refl i _ _ ok put]) (simp_all add: default_level_def)
  have levels: "level_infos_' ?t = (level_infos_' t)[?i := (level_infos_' t ! ?i)[0 := default_level]]"
    by (simp add: put_level_def)
  have "tex_ok n ?t" "\<forall>target\<in>set targets. GLTargetToFaceIndex target < length (level_infos_' ?t)"
    using put Cons.prems(2) by (simp_all only: tex_ok_updated levels length_list_update) simp
  from Cons.IH [OF this] obtain t' where t': "default_levels targets ?t = Some t'" "tex_ok n t'" "same_params ?t t'"
      "length (level_infos_' t') = length (level_infos_' ?t)"
      "targets \<noteq> [] \<longrightarrow> updated FeatureInfo_new t' = t'"
      "\<forall>i < length (level_infos_' ?t). level_infos_' t' ! i ! 0 =
         (if i \<in> GLTargetToFaceIndex ` set targets then default_level else level_infos_' ?t ! i ! 0)" by blast
  have "updated FeatureInfo_new t' = t'"
    using t'(1,5) by (cases targets) auto
  moreover have "level_infos_' t' ! j ! 0 =
      (if j \<in> GLTargetToFaceIndex ` set (target # targets) then default_level else level_infos_' t ! j ! 0)"
    if "j < length (level_infos_' t)" for j
    using t'(6) [unfolded levels] that i tex_okD(5) [OF ok i] n by (auto simp: nth_list_update)
  ultimately show ?case
    using set t'(1,2) t'(4) [unfolded levels] same_params_trans [OF same_params_put t'(3)]
    by (intro exI [of _ t']) simp
qed

lemma TextureInfo_new_inv: "0 < n \<Longrightarrow> n \<le> 32 \<Longrightarrow> tex_inv F n (TextureInfo_new s)"
  by (simp add: tex_inv_def tex_ok_def updated_def TextureInfo_new_def face_count_def)

lemma TextureInfo_new_fields [simp]:
  "tex_target_' (TextureInfo_new s) = 0" "deleted_' (TextureInfo_new s) = False"
  by (simp_all add: TextureInfo_new_def)

lemma CanRender_new [simp]: "\<not> CanRender F (TextureInfo_new s)"
  by (simp add: CanRender_def)

lemma MaxLevels_objects [simp]: "MaxLevelsForTarget target (m\<lparr>tex_objects := xs\<rparr>) = MaxLevelsForTarget target m"
  by (simp add: MaxLevelsForTarget_def)

lemma updated_features:
  "lvl_type (first_level t) = GL_UNSIGNED_BYTE \<Longrightarrow> updated F t = updated G t"
  by (simp add: updated_def may_be_complete_def filterable_def)

text \<open>A default texture of a target GL can generate mipmaps for is complete; the external one needs no
  mipmaps.\<close>

lemma mip_size_1: "mip_size 1 k = 1"
  by (induction k) (simp_all add: mip_size_Suc)

lemma npot_exact:
  assumes "tex_inv F n t"
  shows "npot_' t \<longleftrightarrow> (\<exists>face\<in>set (level_infos_' t). level0_npot face)"
proof -
  have upd: "updated F t = t" using assms by (simp add: tex_inv_def)
  show ?thesis by (subst upd [symmetric]) (simp only: updated_def, simp)
qed

lemma default_complete:
  assumes "tex_inv F n t" "tex_target_' t \<in> {GL_TEXTURE_2D, GL_TEXTURE_CUBE_MAP}" "\<not> deleted_' t"
    and "\<forall>i < length (level_infos_' t). level_infos_' t ! i ! 0 = default_level"
  shows "CanRender F t"
proof -
  have len: "0 < length (level_infos_' t)"
    using tex_okD(3) [of n t] assms(1,2) by (auto simp: tex_inv_def face_count_def)
  then have first: "first_level t = default_level" using assms(4) by simp
  have level: "face ! 0 = default_level" if "face \<in> set (level_infos_' t)" for face
    using that assms(4) by (auto simp: in_set_conv_nth)
  have "2 ^ k \<le> Suc 0 \<longleftrightarrow> k = 0" for k
    using less_exp [of k] by (cases k) auto
  then have "mipmap_complete t"
    using level by (auto simp: mipmap_complete_def first default_level_def level_is_def Let_def mip_size_1)
  moreover have "filterable F t" by (simp add: filterable_def first default_level_def)
  ultimately have flags: "texture_complete_' t" "tex_target_' t = GL_TEXTURE_CUBE_MAP \<longrightarrow> cube_complete_' t"
    using complete_flags [OF assms(1,2)] by auto
  have "\<not> level0_npot face" if "face \<in> set (level_infos_' t)" for face
    using level [OF that] by (simp add: level0_npot_def default_level_def IsNPOT_def)
  then have "\<not> npot_' t" using npot_exact [OF assms(1)] by simp
  then show ?thesis using flags assms(2,3) by (auto simp: CanRender_def)
qed

lemma cube_face_indices: "GLTargetToFaceIndex ` set cube_faces = {..<6}"
proof -
  have "{..<6} = {0, 1, 2, 3, 4, 5::nat}" by auto
  then show ?thesis by (auto simp: GLTargetToFaceIndex_def cube_faces_def)
qed

lemma single_face_index:
  "GLTargetToFaceIndex GL_TEXTURE_2D = 0" "GLTargetToFaceIndex GL_TEXTURE_EXTERNAL_OES = 0"
  "face_count GL_TEXTURE_2D = 1" "face_count GL_TEXTURE_EXTERNAL_OES = 1" "face_count GL_TEXTURE_CUBE_MAP = 6"
  by (simp_all add: GLTargetToFaceIndex_def face_count_def)

lemma new_default_ok:
  assumes limits: "limits_ok m"
    and faces: "target = GL_TEXTURE_2D \<and> faces = [GL_TEXTURE_2D]
      \<or> target = GL_TEXTURE_CUBE_MAP \<and> faces = cube_faces
      \<or> target = GL_TEXTURE_EXTERNAL_OES \<and> faces = [GL_TEXTURE_EXTERNAL_OES]"
  shows "\<exists>t. new_default F s target faces m = Some (length (tex_objects m),
      m\<lparr>tex_objects := tex_objects m @ [t],
        num_unrenderable_textures_' := num_unrenderable_textures_' m
          - (if target = GL_TEXTURE_EXTERNAL_OES then 1 else 0)\<rparr>)
    \<and> tex_inv F (room m target) t \<and> tex_target_' t = target \<and> \<not> deleted_' t \<and> CanRender F t"
proof -
  let ?n = "room m target" and ?t0 = "Texture_SetTarget target (MaxLevelsForTarget target m) (TextureInfo_new s)"
  have n: "?n = unat (MaxLevelsForTarget target m)" using faces by (auto simp: room_def)
  have "tex_inv F ?n ?t0"
    unfolding n using faces room_bounds [OF limits, of target] n
    by (intro Texture_SetTarget_ok [OF TextureInfo_new_inv]) auto
  then have ok: "tex_ok ?n ?t0" by (simp add: tex_inv_def)
  have t0: "tex_target_' ?t0 = target" "deleted_' ?t0 = False" "npot_' ?t0 = False"
      "texture_complete_' ?t0 = False" "NeedsMips ?t0 = (target \<noteq> GL_TEXTURE_EXTERNAL_OES)"
    by (simp_all add: Texture_SetTarget_def TextureInfo_new_def NeedsMips_def Let_def)
  have render0: "CanRender F ?t0 = (target = GL_TEXTURE_EXTERNAL_OES)"
    using t0 faces by (auto simp: CanRender_def)
  have len: "length (level_infos_' ?t0) = face_count target" using tex_okD(3) [OF ok] t0(1) by simp
  have index: "GLTargetToFaceIndex ` set faces = {..<face_count target}"
    using faces cube_face_indices
    by (elim disjE conjE) (simp_all add: single_face_index lessThan_Suc)
  then have "\<forall>f\<in>set faces. GLTargetToFaceIndex f < length (level_infos_' ?t0)"
    unfolding len by (metis image_eqI lessThan_iff)
  from default_levels_ok [OF ok this] obtain t where
    t: "default_levels faces ?t0 = Some t" "tex_ok ?n t" "same_params ?t0 t"
      "length (level_infos_' t) = face_count target" "faces \<noteq> [] \<longrightarrow> updated FeatureInfo_new t = t"
      "\<forall>i < face_count target. level_infos_' t ! i ! 0 = default_level"
    unfolding len index by auto
  have "first_level t = default_level" using t(6) faces by (auto simp: face_count_def)
  then have "updated F t = updated FeatureInfo_new t"
    by (intro updated_features) (simp add: default_level_def)
  moreover have "faces \<noteq> []" using faces by (auto simp: cube_faces_def)
  ultimately have inv: "tex_inv F ?n t" using t(2,5) by (simp add: tex_inv_def)
  have same: "tex_target_' t = target" "\<not> deleted_' t" "NeedsMips t = (target \<noteq> GL_TEXTURE_EXTERNAL_OES)"
    using t(3) t0 by (auto simp: same_params_def NeedsMips_def)
  have render: "CanRender F t"
  proof (cases "target = GL_TEXTURE_EXTERNAL_OES")
    case True
    have "\<not> level0_npot (level_infos_' t ! 0)"
      using t(6) True by (simp add: level0_npot_def default_level_def face_count_def IsNPOT_def)
    moreover have "set (level_infos_' t) = {level_infos_' t ! 0}"
      using t(4) True by (auto simp: face_count_def length_Suc_conv)
    ultimately show ?thesis using same True npot_exact [OF inv] by (simp add: CanRender_def)
  next
    case False
    then show ?thesis
      using faces t(4,6) same by (intro default_complete [OF inv]) auto
  qed
  have "new_default F s target faces m = Some (length (tex_objects m),
      m\<lparr>tex_objects := tex_objects m @ [t],
        num_unrenderable_textures_' := num_unrenderable_textures_' m
          - (if target = GL_TEXTURE_EXTERNAL_OES then 1 else 0)\<rparr>)"
    using t(1) render0
    by (simp add: new_default_def SetInfoTarget_def replace_counted_def)
  then show ?thesis using inv same render by blast
qed

definition init_live :: "FeatureInfo \<Rightarrow> TextureManager \<Rightarrow> TextureInfo \<Rightarrow> bool" where
  "init_live F m t \<longleftrightarrow> tex_inv F (room m (tex_target_' t)) t \<and> \<not> deleted_' t \<and> CanRender F t"

lemma new_default_init:
  assumes "limits_ok m" "room m = room m0"
    and "target = GL_TEXTURE_2D \<and> faces = [GL_TEXTURE_2D]
      \<or> target = GL_TEXTURE_CUBE_MAP \<and> faces = cube_faces
      \<or> target = GL_TEXTURE_EXTERNAL_OES \<and> faces = [GL_TEXTURE_EXTERNAL_OES]"
    and "m1 = m\<lparr>num_unrenderable_textures_' := num_unrenderable_textures_' m
      - (if target = GL_TEXTURE_EXTERNAL_OES then 1 else 0)\<rparr>"
  obtains t where "init_live F m0 t"
    "new_default F s target faces m = Some (length (tex_objects m), m1\<lparr>tex_objects := tex_objects m @ [t]\<rparr>)"
proof -
  from new_default_ok [OF assms(1,3), of F s] obtain t where
    t: "new_default F s target faces m = Some (length (tex_objects m),
      m\<lparr>tex_objects := tex_objects m @ [t],
        num_unrenderable_textures_' := num_unrenderable_textures_' m
          - (if target = GL_TEXTURE_EXTERNAL_OES then 1 else 0)\<rparr>)"
      "tex_inv F (room m target) t" "tex_target_' t = target" "\<not> deleted_' t" "CanRender F t" by blast
  show ?thesis
    by (rule that [of t]) (use t assms(2) in \<open>simp_all add: init_live_def assms(4)\<close>)
qed

lemma limits_keep:
  assumes "limits_ok m" "max_texture_size_' m' = max_texture_size_' m" "max_levels_' m' = max_levels_' m"
    "max_cube_map_texture_size_' m' = max_cube_map_texture_size_' m"
    "max_cube_map_levels_' m' = max_cube_map_levels_' m"
  shows "limits_ok m'" "room m' = room m"
  using assms by (simp_all add: limits_ok_def room_def MaxLevelsForTarget_def fun_eq_iff)

lemma start_ok:
  assumes "limits_ok m" "texture_infos_' m = []" "default_textures m = [0..<length (tex_objects m)]"
    and "\<forall>t\<in>set (tex_objects m). init_live F m t"
    and "num_unrenderable_textures_' m + (if default_texture_external_oes_' m = None then 0 else 1) = 0"
  shows "textures_ok F m"
proof -
  have live: "set (live_textures m) = {..<length (tex_objects m)}" "distinct (live_textures m)"
    using assms(2,3) by (auto simp: live_textures_def)
  have obj: "init_live F m (tex_objects m ! a)" if "a < length (tex_objects m)" for a
    using assms(4) that by simp
  then have "unrenderable F m = {}" by (auto simp: unrenderable_def live(1) init_live_def)
  then show ?thesis
    using assms(1,2,5) live obj by (auto simp: textures_ok_def init_live_def)
qed

lemma Initialize_ok:
  assumes "0 < sint s" "0 < sint c"
  shows "\<exists>calls m. TextureManager_Initialize F ids external_ids (TextureManager_new s c) = Some (calls, m)
    \<and> textures_ok F m \<and> texture_infos_' m = [] \<and> max_texture_size_' m = s
    \<and> num_unrenderable_textures_' m = (if oes_egl_image_external F then - 1 else 0)
    \<and> (default_texture_external_oes_' m = None \<longleftrightarrow> \<not> oes_egl_image_external F)"
proof -
  let ?m = "TextureManager_new s c"
  have limits: "limits_ok ?m" using assms by (rule new_limits_ok)
  have new: "tex_objects ?m = []" "texture_infos_' ?m = []" "num_unrenderable_textures_' ?m = 0"
      "default_texture_external_oes_' ?m = None" "max_texture_size_' ?m = s"
    by (simp_all add: TextureManager_new_def)
  have eta: "?m\<lparr>num_unrenderable_textures_' := 0\<rparr> = ?m" by (simp add: TextureManager_new_def)
  obtain t1 where "init_live F ?m t1" and "new_default F (ids ! 1) GL_TEXTURE_2D [GL_TEXTURE_2D] ?m
      = Some (length (tex_objects ?m), ?m\<lparr>tex_objects := tex_objects ?m @ [t1]\<rparr>)"
    by (rule new_default_init [OF limits refl, where F = F and s = "ids ! 1" and target = GL_TEXTURE_2D
        and faces = "[GL_TEXTURE_2D]", OF _ refl]) (auto simp: new eta)
  then have t1: "init_live F ?m t1" "new_default F (ids ! 1) GL_TEXTURE_2D [GL_TEXTURE_2D] ?m
      = Some (0, ?m\<lparr>tex_objects := [t1]\<rparr>)" by (simp_all add: new)
  let ?m1 = "?m\<lparr>tex_objects := [t1]\<rparr>"
  have m1: "limits_ok ?m1" "room ?m1 = room ?m" using limits_keep [OF limits, of ?m1] by simp_all
  have eta1: "?m1\<lparr>num_unrenderable_textures_' := 0\<rparr> = ?m1" by (simp add: TextureManager_new_def)
  obtain t2 where "init_live F ?m t2" and "new_default F (ids ! 3) GL_TEXTURE_CUBE_MAP cube_faces ?m1
      = Some (length (tex_objects ?m1), ?m1\<lparr>tex_objects := tex_objects ?m1 @ [t2]\<rparr>)"
    by (rule new_default_init [OF m1, where F = F and s = "ids ! 3" and target = GL_TEXTURE_CUBE_MAP
        and faces = cube_faces, OF _ refl]) (auto simp: new eta1)
  then have t2: "init_live F ?m t2" "new_default F (ids ! 3) GL_TEXTURE_CUBE_MAP cube_faces ?m1
      = Some (1, ?m\<lparr>tex_objects := [t1, t2]\<rparr>)" by simp_all
  let ?m2 = "?m\<lparr>tex_objects := [t1, t2], default_texture_2d_' := Some 0,
    default_texture_cube_map_' := Some 1, black_2d_texture_id_' := ids ! 0, black_cube_texture_id_' := ids ! 2\<rparr>"
  have m2: "limits_ok ?m2" "room ?m2 = room ?m" using limits_keep [OF limits, of ?m2] by simp_all
  show ?thesis
  proof (cases "oes_egl_image_external F")
    case False
    have "textures_ok F ?m2"
    proof (rule start_ok)
      show "default_textures ?m2 = [0..<length (tex_objects ?m2)]"
        by (simp add: default_textures_def new map_filter_simps)
    qed (use m2 t1(1) t2(1) new in \<open>auto simp: init_live_def\<close>)
    then show ?thesis
      using False t1(2) t2(2) new by (simp add: TextureManager_Initialize_def)
  next
    case True
    obtain t3 where "init_live F ?m t3"
      and "new_default F (external_ids ! 0) GL_TEXTURE_EXTERNAL_OES [GL_TEXTURE_EXTERNAL_OES] ?m2
        = Some (length (tex_objects ?m2),
            ?m2\<lparr>num_unrenderable_textures_' := - 1, tex_objects := tex_objects ?m2 @ [t3]\<rparr>)"
      by (rule new_default_init [OF m2, where F = F and s = "external_ids ! 0"
          and target = GL_TEXTURE_EXTERNAL_OES and faces = "[GL_TEXTURE_EXTERNAL_OES]", OF _ refl]) (auto simp: new)
    then have t3: "init_live F ?m t3"
      "new_default F (external_ids ! 0) GL_TEXTURE_EXTERNAL_OES [GL_TEXTURE_EXTERNAL_OES] ?m2
        = Some (2, ?m2\<lparr>num_unrenderable_textures_' := - 1, tex_objects := [t1, t2, t3]\<rparr>)" by simp_all
    let ?m3 = "?m2\<lparr>num_unrenderable_textures_' := - 1, tex_objects := [t1, t2, t3],
      default_texture_external_oes_' := Some 2, black_oes_external_texture_id_' := external_ids ! 1\<rparr>"
    have m3: "limits_ok ?m3" "room ?m3 = room ?m" using limits_keep [OF limits, of ?m3] by simp_all
    have "textures_ok F ?m3"
    proof (rule start_ok)
      show "default_textures ?m3 = [0..<length (tex_objects ?m3)]"
        by (simp add: default_textures_def new map_filter_simps upt_rec numeral_eq_Suc)
    qed (use m3 t1(1) t2(1) t3(1) new in \<open>auto simp: init_live_def\<close>)
    then show ?thesis
      using True t1(2) t2(2) t3(2) new by (simp add: TextureManager_Initialize_def)
  qed
qed

section \<open>Operations of the manager\<close>

text \<open>The targets for which a texture has levels the client can define.\<close>

definition has_face :: "GLenum \<Rightarrow> GLenum \<Rightarrow> bool" where
  "has_face tex target \<longleftrightarrow>
     tex = GL_TEXTURE_2D \<and> target = GL_TEXTURE_2D \<or> tex = GL_TEXTURE_CUBE_MAP \<and> target \<in> set cube_faces"

lemma has_face_index: "has_face tex target \<Longrightarrow> GLTargetToFaceIndex target < face_count tex"
  using cube_face_indices by (auto simp: has_face_def single_face_index)

lemma cube_faces_targets:
  "target \<in> set cube_faces \<Longrightarrow> target \<noteq> GL_TEXTURE_2D \<and> target \<noteq> GL_TEXTURE_EXTERNAL_OES \<and> target \<noteq> 0
     \<and> target \<noteq> GL_TEXTURE_CUBE_MAP"
  by (auto simp: cube_faces_def)

lemma has_face_limits:
  assumes "has_face tex target"
  shows "room m tex = unat (MaxLevelsForTarget target m)" "MaxSizeForTarget tex m = MaxSizeForTarget target m"
    "tex \<noteq> GL_TEXTURE_EXTERNAL_OES" "tex \<noteq> 0"
  using assms cube_faces_targets [of target]
  by (auto simp: has_face_def room_def MaxLevelsForTarget_def MaxSizeForTarget_def)

lemma limits_room:
  assumes "limits_ok m" "tex \<in> {GL_TEXTURE_2D, GL_TEXTURE_CUBE_MAP}"
  shows "int (room m tex) = 1 + Log2Floor (MaxSizeForTarget tex m)" "0 < sint (MaxSizeForTarget tex m)"
proof -
  show pos: "0 < sint (MaxSizeForTarget tex m)"
    using assms by (auto simp: limits_ok_def MaxSizeForTarget_def)
  have "room m tex = nat (1 + Log2Floor (MaxSizeForTarget tex m))"
    using assms by (auto simp: limits_ok_def MaxSizeForTarget_def room_def MaxLevelsForTarget_def)
  moreover have "0 \<le> Log2Floor (MaxSizeForTarget tex m)"
    using Log2Floor_exact [OF sint_pos_unat [OF pos]] by simp
  ultimately show "int (room m tex) = 1 + Log2Floor (MaxSizeForTarget tex m)" by simp
qed

lemma textures_okD:
  assumes "textures_ok F m" "a < length (tex_objects m)"
  shows "tex_inv F (room m (tex_target_' (tex_objects m ! a))) (tex_objects m ! a)"
    "deleted_' (tex_objects m ! a) \<longleftrightarrow> a \<notin> set (live_textures m)" "limits_ok m"
  using assms by (simp_all add: textures_ok_def)

lemma SetLevelInfo_valid:
  assumes ok: "textures_ok F m" and a: "a < length (tex_objects m)"
    and face: "has_face (tex_target_' (tex_objects m ! a)) target"
    and valid: "ValidForTarget F target level w h 1 m"
  shows "\<exists>m'. Manager_SetLevelInfo F a target level ifmt w h 1 border fmt ty m = Some m' \<and> textures_ok F m'
    \<and> GetLevelSize target level (tex_objects m' ! a) = (if deleted_' (tex_objects m ! a) then None else Some (w, h))"
proof -
  let ?t = "tex_objects m ! a" and ?i = "GLTargetToFaceIndex target"
  let ?n = "room m (tex_target_' ?t)"
  let ?l = "\<lparr>lvl_valid = True, lvl_internal_format = ifmt, lvl_width = w, lvl_height = h, lvl_depth = 1,
    lvl_border = border, lvl_format = fmt, lvl_type = ty\<rparr>"
  note inv = textures_okD [OF ok a]
  have tok: "tex_ok ?n ?t" using inv(1) by (simp add: tex_inv_def)
  have i: "?i < length (level_infos_' ?t)" using has_face_index [OF face] tex_okD(3) [OF tok] by simp
  have two: "tex_target_' ?t \<in> {GL_TEXTURE_2D, GL_TEXTURE_CUBE_MAP}" using face by (auto simp: has_face_def)
  have dims: "0 \<le> sint level" "0 \<le> sint w" "0 \<le> sint h" "sint w \<le> sint (MaxSizeForTarget target m)"
      "sint h \<le> sint (MaxSizeForTarget target m)" "sint level < sint (MaxLevelsForTarget target m)"
    using valid by (simp_all add: ValidForTarget_def Let_def)
  have level: "unat level < ?n"
    using dims(1,6) sint_nonneg_unat(1) [of level] sint_nonneg_unat(1) [of "MaxLevelsForTarget target m"]
    unfolding has_face_limits(1) [OF face] by linarith
  have count: "level_count ?l \<le> int ?n"
    using level_count_bound [of ?l "MaxSizeForTarget target m"] dims limits_room [OF inv(3) two]
      has_face_limits(2) [OF face, of m] by simp
  have put: "tex_ok ?n (put_level ?i level ?l ?t)"
    using dims count by (intro put_level_ok [OF tok i dims(1) level]) (simp_all add: level_ok_def)
  let ?t' = "updated F (put_level ?i level ?l ?t)"
  have set: "Texture_SetLevelInfo F target level ifmt w h 1 border fmt ty ?t = Some ?t'"
    by (rule SetLevelInfo_put [OF refl i dims(1) level tok put refl])
  have same: "tex_target_' ?t' = tex_target_' ?t" "deleted_' ?t' = deleted_' ?t"
    by (simp_all add: put_level_def)
  have "textures_ok F (replace_counted F a ?t' m)"
    using tex_inv_updated [OF put] same by (intro replace_counted_ok [OF ok a]) simp_all
  moreover have "GetLevelSize target level ?t' = (if deleted_' ?t then None else Some (w, h))"
    using i level tex_okD(5) [OF tok i] dims(1)
    by (simp add: GetLevelSize_def level_at_def put_level_def Let_def)
  ultimately show ?thesis
    using set a by (intro exI [of _ "replace_counted F a ?t' m"]) (simp add: Manager_SetLevelInfo_def)
qed

lemma SetInfoTarget_ok:
  assumes ok: "textures_ok F m" and a: "a < length (tex_objects m)" "tex_target_' (tex_objects m ! a) = 0"
    and target: "target \<in> {GL_TEXTURE_2D, GL_TEXTURE_CUBE_MAP, GL_TEXTURE_EXTERNAL_OES}"
  shows "textures_ok F (SetInfoTarget F a target m)"
proof -
  note inv = textures_okD [OF ok a(1)]
  have n: "room m target = unat (MaxLevelsForTarget target m)" using target by (auto simp: room_def)
  have "tex_inv F (room m target) (Texture_SetTarget target (MaxLevelsForTarget target m) (tex_objects m ! a))"
    unfolding n using room_bounds [OF inv(3), of target] target n
    by (intro Texture_SetTarget_ok [OF inv(1) a(2)]) auto
  moreover have "tex_target_' (Texture_SetTarget target n t) = target"
      "deleted_' (Texture_SetTarget target n t) = deleted_' t" for n t
    by (simp_all add: Texture_SetTarget_def Let_def)
  ultimately show ?thesis
    unfolding SetInfoTarget_def by (intro replace_counted_ok [OF ok a(1)]) simp_all
qed

lemma Manager_SetParameter_ok:
  assumes ok: "textures_ok F m" and a: "a < length (tex_objects m)"
  shows "\<exists>b m'. Manager_SetParameter F a pname param m = Some (b, m') \<and> textures_ok F m'"
proof -
  note inv = textures_okD [OF ok a]
  from SetParameter_ok [OF inv(1), of pname param] obtain b t where
    t: "Texture_SetParameter F pname param (tex_objects m ! a) = Some (b, t)"
      "tex_inv F (room m (tex_target_' (tex_objects m ! a))) t"
      "tex_target_' t = tex_target_' (tex_objects m ! a)" "deleted_' t = deleted_' (tex_objects m ! a)" by blast
  have "textures_ok F (replace_counted F a t m)"
    using t by (intro replace_counted_ok [OF ok a]) simp_all
  then show ?thesis using t(1) by (simp add: Manager_SetParameter_def)
qed

lemma Manager_MarkMipmapsGenerated_ok:
  assumes ok: "textures_ok F m" and a: "a < length (tex_objects m)"
  shows "\<exists>b m'. Manager_MarkMipmapsGenerated F a m = Some (b, m') \<and> textures_ok F m'"
proof -
  note inv = textures_okD [OF ok a]
  from MarkMipmapsGenerated_total [OF inv(1)] obtain b t where
    t: "Texture_MarkMipmapsGenerated F (tex_objects m ! a) = Some (b, t)"
      "tex_inv F (room m (tex_target_' (tex_objects m ! a))) t" "same_params (tex_objects m ! a) t" by blast
  have "textures_ok F (replace_counted F a t m)"
    using t by (intro replace_counted_ok [OF ok a]) (simp_all add: same_params_def)
  then show ?thesis using t(1) by (simp add: Manager_MarkMipmapsGenerated_def)
qed

text \<open>The fields that no level, filter or flag depends on.\<close>

definition same_image :: "TextureInfo \<Rightarrow> TextureInfo \<Rightarrow> bool" where
  "same_image t t' \<longleftrightarrow> t' = t\<lparr>tex_service_id_' := tex_service_id_' t', deleted_' := deleted_' t',
     framebuffer_attachment_count_' := framebuffer_attachment_count_' t', owned_' := owned_' t',
     stream_texture_' := stream_texture_' t'\<rparr>"

lemma same_image_inv:
  assumes "same_image t t'" "tex_inv F n t"
  shows "tex_inv F n t'" "tex_target_' t' = tex_target_' t"
    "deleted_' t' = deleted_' t \<Longrightarrow> CanRender F t' = CanRender F t"
proof -
  obtain s d c ow st where t': "t' = t\<lparr>tex_service_id_' := s, deleted_' := d,
     framebuffer_attachment_count_' := c, owned_' := ow, stream_texture_' := st\<rparr>"
    using assms(1) unfolding same_image_def by blast
  have "updated F t' = (updated F t)\<lparr>tex_service_id_' := s, deleted_' := d,
     framebuffer_attachment_count_' := c, owned_' := ow, stream_texture_' := st\<rparr>"
    by (simp add: t' updated_def may_be_complete_def may_be_cube_def levels_needed_def filterable_def)
  then have "updated F t' = t'" using assms(2) by (simp add: t' tex_inv_def)
  moreover have "tex_ok n t'"
    using assms(2) by (intro tex_ok_cong [of t' t]) (auto simp: t' tex_inv_def NeedsMips_def)
  ultimately show "tex_inv F n t'" by (simp add: tex_inv_def)
  show "tex_target_' t' = tex_target_' t" by (simp add: t')
  show "CanRender F t' = CanRender F t" if "deleted_' t' = deleted_' t"
    using that by (auto simp: t' CanRender_def NeedsMips_def)
qed

lemma MarkAsDeleted_image [simp]:
  "same_image t (Texture_MarkAsDeleted t)" "deleted_' (Texture_MarkAsDeleted t)"
  by (simp_all add: same_image_def Texture_MarkAsDeleted_def)

lemma map_of_filter_other:
  assumes "distinct (map fst xs)" "distinct (map snd xs)" "map_of xs k = Some a"
  shows "set (map snd (filter (\<lambda>e. fst e \<noteq> k) xs)) = set (map snd xs) - {a}"
    and "distinct (map snd (filter (\<lambda>e. fst e \<noteq> k) xs))"
    and "distinct (map fst (filter (\<lambda>e. fst e \<noteq> k) xs))"
proof -
  have "fst e = k \<longleftrightarrow> snd e = a" if "e \<in> set xs" for e
    using that map_of_SomeD [OF assms(3)] assms(1,2)
    by (metis distinct_map inj_onD prod.sel)
  then have "filter (\<lambda>e. fst e \<noteq> k) xs = filter (\<lambda>e. snd e \<noteq> a) xs" by (intro filter_cong) auto
  then show "set (map snd (filter (\<lambda>e. fst e \<noteq> k) xs)) = set (map snd xs) - {a}" by auto
  show "distinct (map snd (filter (\<lambda>e. fst e \<noteq> k) xs))" "distinct (map fst (filter (\<lambda>e. fst e \<noteq> k) xs))"
    using assms(1,2) by (auto simp: distinct_map intro: inj_on_subset)
qed

lemma CreateTextureInfo_ok:
  assumes ok: "textures_ok F m" and unused: "GetTextureInfo c m = None"
  shows "textures_ok F (CreateTextureInfo F c s m)"
proof -
  let ?m = "CreateTextureInfo F c s m" and ?a = "length (tex_objects m)"
  note limits = ok [unfolded textures_ok_def]
  have fields: "texture_infos_' ?m = (c, ?a) # texture_infos_' m"
      "tex_objects ?m = tex_objects m @ [TextureInfo_new s]"
      "num_unrenderable_textures_' ?m = num_unrenderable_textures_' m + 1"
      "default_texture_external_oes_' ?m = default_texture_external_oes_' m"
      "default_textures ?m = default_textures m"
    using unused by (simp_all add: CreateTextureInfo_def GetTextureInfo_def default_textures_def)
  have keep: "limits_ok ?m" "room ?m = room m"
    using limits_keep [of m ?m] limits by (simp_all add: CreateTextureInfo_def)
  have live: "live_textures ?m = ?a # live_textures m" by (simp add: live_textures_def fields)
  have fresh: "?a \<notin> set (live_textures m)" using limits by auto
  have "c \<notin> set (map fst (texture_infos_' m))"
    using unused by (simp add: GetTextureInfo_def map_of_eq_None_iff)
  moreover have "unrenderable F ?m = insert ?a (unrenderable F m)"
    using limits by (auto simp: unrenderable_def live fields nth_append)
  then have "card (unrenderable F ?m) = Suc (card (unrenderable F m))"
    using fresh by (simp add: unrenderable_def)
  moreover have "tex_inv F (room m 0) (TextureInfo_new s)"
    by (rule TextureInfo_new_inv) (simp_all add: room_def)
  ultimately show ?thesis
    using limits fresh keep
    by (auto simp: textures_ok_def live fields nth_append less_Suc_eq)
qed

lemma RemoveTextureInfo_ok:
  assumes ok: "textures_ok F m"
  shows "textures_ok F (RemoveTextureInfo F c m)"
proof (cases "map_of (texture_infos_' m) c")
  case None
  then show ?thesis using ok by (simp add: RemoveTextureInfo_def)
next
  case (Some a)
  let ?m = "RemoveTextureInfo F c m"
  note okm = ok [unfolded textures_ok_def]
  have fields: "tex_objects ?m = (tex_objects m)[a := Texture_MarkAsDeleted (tex_objects m ! a)]"
      "num_unrenderable_textures_' ?m =
        num_unrenderable_textures_' m - (if \<not> CanRender F (tex_objects m ! a) then 1 else 0)"
      "default_texture_external_oes_' ?m = default_texture_external_oes_' m"
      "default_textures ?m = default_textures m"
      "texture_infos_' ?m = filter (\<lambda>e. fst e \<noteq> c) (texture_infos_' m)"
    using Some by (simp_all add: RemoveTextureInfo_def default_textures_def)
  have keep: "limits_ok ?m" "room ?m = room m"
    using limits_keep [of m ?m] okm Some by (simp_all add: RemoveTextureInfo_def)
  have dist: "distinct (map fst (texture_infos_' m))" "distinct (map snd (texture_infos_' m))"
    using okm by (simp_all add: live_textures_def)
  note rest = map_of_filter_other [OF dist Some]
  have a: "a \<in> set (map snd (texture_infos_' m))" using map_of_SomeD [OF Some] by force
  then have alive: "a \<in> set (live_textures m)" "a \<notin> set (default_textures m)"
    using okm by (auto simp: live_textures_def)
  have live: "set (live_textures ?m) = set (live_textures m) - {a}"
    using rest(1) alive(2) by (auto simp: live_textures_def fields)
  have distinct: "distinct (live_textures ?m)"
    using okm rest(1,2) by (auto simp: live_textures_def fields simp del: set_map set_filter)
  have len: "a < length (tex_objects m)" using okm alive by blast
  have less: "unrenderable F ?m = unrenderable F m - {a}"
    using len by (auto simp: unrenderable_def live fields)
  have "finite (unrenderable F m)" by (simp add: unrenderable_def)
  moreover have "a \<in> unrenderable F m \<longleftrightarrow> \<not> CanRender F (tex_objects m ! a)"
    using alive(1) by (simp add: unrenderable_def)
  ultimately have "int (card (unrenderable F ?m)) =
      int (card (unrenderable F m)) - (if \<not> CanRender F (tex_objects m ! a) then 1 else 0)"
    unfolding less using card_Suc_Diff1 [of "unrenderable F m" a]
    by (cases "CanRender F (tex_objects m ! a)") simp_all
  moreover have "tex_inv F (room m (tex_target_' (tex_objects ?m ! b))) (tex_objects ?m ! b)
      \<and> (deleted_' (tex_objects ?m ! b) \<longleftrightarrow> b \<notin> set (live_textures ?m))" if "b < length (tex_objects m)" for b
    using textures_okD [OF ok that] same_image_inv [OF MarkAsDeleted_image(1)] len live
    by (cases "b = a") (simp_all add: fields)
  ultimately show ?thesis
    using okm keep distinct live rest(3) by (auto simp: textures_ok_def fields)
qed

text \<open>The attachment count, the owner and the stream flag are set on the object itself.\<close>

definition change_object :: "nat \<Rightarrow> (TextureInfo \<Rightarrow> TextureInfo) \<Rightarrow> TextureManager \<Rightarrow> TextureManager" where
  "change_object a f m = m\<lparr>tex_objects := (tex_objects m)[a := f (tex_objects m ! a)]\<rparr>"

definition flag_change :: "(TextureInfo \<Rightarrow> TextureInfo) \<Rightarrow> bool" where
  "flag_change f \<longleftrightarrow>
     f = SetNotOwned \<or> f = AttachToFramebuffer \<or> f = DetachFromFramebuffer \<or> (\<exists>b. f = SetStreamTexture b)"

lemma change_object_ok:
  assumes ok: "textures_ok F m" and a: "a < length (tex_objects m)" and f: "flag_change f"
  shows "textures_ok F (change_object a f m)"
proof -
  have same: "same_image t (f t)" "deleted_' (f t) = deleted_' t" for t
    using f by (auto simp: flag_change_def same_image_def SetNotOwned_def AttachToFramebuffer_def
        DetachFromFramebuffer_def SetStreamTexture_def)
  note inv = same_image_inv [OF same(1) textures_okD(1) [OF ok a]]
  have "change_object a f m = replace_counted F a (f (tex_objects m ! a)) m"
    using inv(3) same(2) by (simp add: change_object_def replace_counted_def)
  then show ?thesis using inv same(2) replace_counted_ok [OF ok a] by simp
qed

section \<open>Steps and reachable managers\<close>

inductive tex_step :: "FeatureInfo \<Rightarrow> TextureManager \<Rightarrow> TextureManager \<Rightarrow> bool" for F where
  create: "GetTextureInfo c m = None \<Longrightarrow> tex_step F m (CreateTextureInfo F c s m)"
| remove: "tex_step F m (RemoveTextureInfo F c m)"
| set_target: "a < length (tex_objects m) \<Longrightarrow> tex_target_' (tex_objects m ! a) = 0 \<Longrightarrow>
    target \<in> {GL_TEXTURE_2D, GL_TEXTURE_CUBE_MAP, GL_TEXTURE_EXTERNAL_OES} \<Longrightarrow>
    tex_step F m (SetInfoTarget F a target m)"
| set_level: "a < length (tex_objects m) \<Longrightarrow> has_face (tex_target_' (tex_objects m ! a)) target \<Longrightarrow>
    ValidForTarget F target level w h 1 m \<Longrightarrow>
    Manager_SetLevelInfo F a target level ifmt w h 1 border fmt ty m = Some m' \<Longrightarrow> tex_step F m m'"
| set_parameter: "a < length (tex_objects m) \<Longrightarrow>
    Manager_SetParameter F a pname param m = Some (b, m') \<Longrightarrow> tex_step F m m'"
| generate: "a < length (tex_objects m) \<Longrightarrow>
    Manager_MarkMipmapsGenerated F a m = Some (b, m') \<Longrightarrow> tex_step F m m'"
| flag: "a < length (tex_objects m) \<Longrightarrow> flag_change f \<Longrightarrow> tex_step F m (change_object a f m)"

inductive tex_reachable :: "FeatureInfo \<Rightarrow> TextureManager \<Rightarrow> bool" for F where
  start: "0 < sint s \<Longrightarrow> 0 < sint c \<Longrightarrow>
    TextureManager_Initialize F ids external_ids (TextureManager_new s c) = Some (calls, m) \<Longrightarrow>
    tex_reachable F m"
| step: "tex_reachable F m \<Longrightarrow> tex_step F m m' \<Longrightarrow> tex_reachable F m'"

lemma tex_step_ok:
  assumes "tex_step F m m'" "textures_ok F m"
  shows "textures_ok F m'"
  using assms
proof (induction rule: tex_step.induct)
  case (create c m s)
  then show ?case by (intro CreateTextureInfo_ok)
next
  case (remove m c)
  then show ?case by (rule RemoveTextureInfo_ok)
next
  case (set_target a m target)
  then show ?case by (intro SetInfoTarget_ok)
next
  case (set_level a m target level w h ifmt border fmt ty m')
  then show ?case using SetLevelInfo_valid [of F m a target level w h ifmt border fmt ty] by auto
next
  case (set_parameter a m pname param b m')
  then show ?case using Manager_SetParameter_ok [of F m a pname param] by auto
next
  case (generate a m b m')
  then show ?case using Manager_MarkMipmapsGenerated_ok [of F m a] by auto
next
  case (flag a m f)
  then show ?case by (intro change_object_ok)
qed

lemma tex_reachable_ok: "tex_reachable F m \<Longrightarrow> textures_ok F m"
proof (induction rule: tex_reachable.induct)
  case (start s c ids external_ids calls m)
  obtain calls' m' where "TextureManager_Initialize F ids external_ids (TextureManager_new s c) = Some (calls', m')"
      "textures_ok F m'"
    using Initialize_ok [OF start(1,2), of F ids external_ids] by blast
  then show ?case using start(3) by simp
next
  case (step m m')
  show ?case by (rule tex_step_ok [OF step.hyps(2) step.IH])
qed

section \<open>What the manager promises\<close>

definition size_supported :: "FeatureInfo \<Rightarrow> TextureInfo \<Rightarrow> bool" where
  "size_supported F t \<longleftrightarrow>
     (\<exists>face\<in>set (level_infos_' t). level0_npot face) \<and> \<not> npot_ok F \<longrightarrow>
       \<not> NeedsMips t \<and> wrap_s_' t = GL_CLAMP_TO_EDGE \<and> wrap_t_' t = GL_CLAMP_TO_EDGE"

lemma CanRender_exact:
  assumes "tex_inv F n t"
  shows "CanRender F t \<longleftrightarrow> Texture_IsValid t \<and> size_supported F t
    \<and> (NeedsMips t \<longrightarrow> filterable F t \<and> mipmap_complete t)"
proof -
  have ok: "tex_ok n t" using assms by (simp add: tex_inv_def)
  have ext: "\<not> NeedsMips t" if "tex_target_' t = GL_TEXTURE_EXTERNAL_OES"
    using ok that by (simp add: tex_ok_def)
  have "tex_target_' t \<in> {0, GL_TEXTURE_2D, GL_TEXTURE_CUBE_MAP, GL_TEXTURE_EXTERNAL_OES}"
    using ok by (simp add: tex_ok_def)
  then consider "tex_target_' t = 0" | "tex_target_' t = GL_TEXTURE_EXTERNAL_OES"
    | "tex_target_' t \<in> {GL_TEXTURE_2D, GL_TEXTURE_CUBE_MAP}" by auto
  then show ?thesis
  proof cases
    case 1
    then show ?thesis by (simp add: CanRender_def Texture_IsValid_def)
  next
    case 2
    then show ?thesis
      using ext by (simp add: CanRender_def Texture_IsValid_def size_supported_def npot_exact [OF assms])
  next
    case 3
    then have complete: "(if tex_target_' t = GL_TEXTURE_2D then texture_complete_' t
        else texture_complete_' t \<and> cube_complete_' t) \<longleftrightarrow> filterable F t \<and> mipmap_complete t"
      using complete_flags [OF assms 3] by (elim insertE) simp_all
    show ?thesis
      unfolding CanRender_def Texture_IsValid_def size_supported_def npot_exact [OF assms] complete Let_def
      by (cases "NeedsMips t") simp_all
  qed
qed

text \<open>The rule of the GLES2 specification (section 3.8.2, with the extensions for float textures), stated on
  the levels: every face has a first level with at least one pixel, for a cube all of them equal squares; a
  size that is not a power of two is allowed only if the features say so or if the filter needs no mipmaps and
  both wrap modes clamp; a type that cannot be filtered is not; and a filter that needs mipmaps finds them all.
  An external texture gets its image from elsewhere.\<close>

definition base_images :: "TextureInfo \<Rightarrow> bool" where
  "base_images t \<longleftrightarrow> tex_target_' t \<in> {GL_TEXTURE_2D, GL_TEXTURE_CUBE_MAP} \<longrightarrow>
     (let base = first_level t; w = unat (lvl_width base); h = unat (lvl_height base)
      in 0 < w \<and> 0 < h \<and> (tex_target_' t = GL_TEXTURE_CUBE_MAP \<longrightarrow> w = h)
         \<and> (\<forall>face\<in>set (level_infos_' t). level_is base (face ! 0) w h))"

definition filter_supported :: "FeatureInfo \<Rightarrow> TextureInfo \<Rightarrow> bool" where
  "filter_supported F t \<longleftrightarrow>
     (lvl_type (first_level t) = GL_FLOAT \<and> \<not> enable_texture_float_linear F
      \<or> lvl_type (first_level t) = GL_HALF_FLOAT_OES \<and> \<not> enable_texture_half_float_linear F
      \<longrightarrow> mag_filter_' t = GL_NEAREST \<and> min_filter_' t \<in> {GL_NEAREST, GL_NEAREST_MIPMAP_NEAREST})"

definition gles2_renderable :: "FeatureInfo \<Rightarrow> TextureInfo \<Rightarrow> bool" where
  "gles2_renderable F t \<longleftrightarrow> Texture_IsValid t \<and> base_images t \<and> size_supported F t \<and> filter_supported F t
     \<and> (NeedsMips t \<longrightarrow> mipmap_complete t)"

lemma mips_filter: "NeedsMips t \<Longrightarrow> filterable F t = filter_supported F t"
  by (auto simp: NeedsMips_def filterable_def filter_supported_def)

lemma mipmap_base:
  assumes "mipmap_complete t"
  shows "base_images t"
proof -
  have "(2::nat) ^ 0 \<le> max w h" if "0 < w" for w h :: nat using that by simp
  then show ?thesis
    using assms unfolding mipmap_complete_def base_images_def Let_def by (metis mip_size_0)
qed


text \<open>C24: As long as the features stay as they are and textures are created only for unused client ids (a
  repeated id in \<^verbatim>\<open>glGenTextures\<close> breaks this), in every reachable manager the count of unrenderable textures, which decides whether a draw call
  looks for textures to replace by black ones, is the number of live textures (those with a client id and
  the default ones) that cannot be rendered; with a default texture for
  \<^verbatim>\<open>GL_TEXTURE_EXTERNAL_OES\<close> it is one less, because that texture is taken out of the count when its
  target is set and was never counted.\<close>

theorem unrenderable_count_exact:
  assumes "tex_reachable F m"
  shows "num_unrenderable_textures_' m + (if default_texture_external_oes_' m = None then 0 else 1)
      = int (card (unrenderable F m))
    \<and> (HaveUnrenderableTextures m \<longleftrightarrow>
         (if default_texture_external_oes_' m = None then 1 else 2) \<le> card (unrenderable F m))"
proof -
  have count: "num_unrenderable_textures_' m + (if default_texture_external_oes_' m = None then 0 else 1)
      = int (card (unrenderable F m))"
    using tex_reachable_ok [OF assms] by (simp add: textures_ok_def)
  then show ?thesis
    unfolding HaveUnrenderableTextures_def by (cases "default_texture_external_oes_' m") auto
qed

text \<open>In every reachable manager no operation on a texture leaves its vectors of levels, whatever the
  arguments: setting a parameter and generating mipmaps return, and so does recording a level that
  \<^verbatim>\<open>ValidForTarget\<close> accepts for a face of the texture, after which a texture that is not deleted has
  that level with exactly that size.\<close>

theorem texture_ops_in_bounds:
  assumes "tex_reachable F m" "a < length (tex_objects m)"
  shows "Manager_SetParameter F a pname param m \<noteq> None \<and> Manager_MarkMipmapsGenerated F a m \<noteq> None
    \<and> (has_face (tex_target_' (tex_objects m ! a)) target \<and> ValidForTarget F target level w h 1 m \<longrightarrow>
         (\<exists>m'. Manager_SetLevelInfo F a target level ifmt w h 1 border fmt ty m = Some m'
            \<and> GetLevelSize target level (tex_objects m' ! a) =
                (if deleted_' (tex_objects m ! a) then None else Some (w, h))))"
proof -
  note ok = tex_reachable_ok [OF assms(1)]
  show ?thesis
    using Manager_SetParameter_ok [OF ok assms(2), of pname param]
      Manager_MarkMipmapsGenerated_ok [OF ok assms(2)]
      SetLevelInfo_valid [OF ok assms(2), of target level w h ifmt border fmt ty] by auto
qed

definition level0_usable :: "TextureInfo \<Rightarrow> bool" where
  "level0_usable t \<longleftrightarrow>
     0 < unat (lvl_width (first_level t)) \<and> 0 < unat (lvl_height (first_level t))
     \<and> (tex_target_' t = GL_TEXTURE_CUBE_MAP \<longrightarrow> lvl_width (first_level t) = lvl_height (first_level t))"

text \<open>When GL generates mipmaps: for a texture whose first levels are images as above, of a size the features
  allow and not compressed.\<close>

definition compressed_base :: "FeatureInfo \<Rightarrow> TextureInfo \<Rightarrow> bool" where
  "compressed_base F t \<longleftrightarrow>
     IsValid (lvl_internal_format (first_level t)) (v_compressed_texture_format (validators_' F))"

definition gl_generates :: "FeatureInfo \<Rightarrow> TextureInfo \<Rightarrow> bool" where
  "gl_generates F t \<longleftrightarrow> \<not> deleted_' t \<and> tex_target_' t \<in> {GL_TEXTURE_2D, GL_TEXTURE_CUBE_MAP} \<and> base_images t
     \<and> ((\<exists>face\<in>set (level_infos_' t). level0_npot face) \<longrightarrow> npot_ok F) \<and> \<not> compressed_base F t"

lemma can_generate_gl:
  assumes "tex_inv F n t"
  shows "gl_generates F t \<Longrightarrow> can_generate F t"
    "can_generate F t \<Longrightarrow> gl_generates F t \<or> compressed_base F t \<or> \<not> level0_usable t"
proof -
  have "level_is b (face ! 0) (unat (lvl_width b)) (unat (lvl_height b)) = same_level0 b face" for b face
    by (auto simp: level_is_def same_level0_def level_matches_def word_unat_eq_iff)
  then show "gl_generates F t \<Longrightarrow> can_generate F t"
    "can_generate F t \<Longrightarrow> gl_generates F t \<or> compressed_base F t \<or> \<not> level0_usable t"
    using npot_exact [OF assms]
    by (auto simp: gl_generates_def can_generate_def base_images_def level0_usable_def Let_def)
qed

text \<open>C25: In every reachable manager \<^verbatim>\<open>MarkMipmapsGenerated\<close> succeeds for every texture for which GL
  generates mipmaps, and beyond these only for live 2D and cube textures whose first level is compressed,
  empty or, for a cube, not square, which the code does not test. When it fails, nothing changes; when it
  succeeds, the first level stays as it was and, unless that level is empty or a cube's is not square,
  every smaller level of every face is recorded, so that a filter that needs mipmaps finds them.\<close>

theorem mipmaps_generated_complete:
  assumes "tex_reachable F m" "a < length (tex_objects m)"
    and "Manager_MarkMipmapsGenerated F a m = Some (ok, m')"
  shows "(gl_generates F (tex_objects m ! a) \<longrightarrow> ok)
    \<and> (\<not> ok \<longrightarrow> tex_objects m' ! a = tex_objects m ! a)
    \<and> (ok \<longrightarrow> \<not> deleted_' (tex_objects m ! a)
         \<and> tex_target_' (tex_objects m ! a) \<in> {GL_TEXTURE_2D, GL_TEXTURE_CUBE_MAP}
         \<and> (gl_generates F (tex_objects m ! a) \<or> compressed_base F (tex_objects m ! a)
            \<or> \<not> level0_usable (tex_objects m ! a))
         \<and> first_level (tex_objects m' ! a) = first_level (tex_objects m ! a)
         \<and> (level0_usable (tex_objects m ! a) \<longrightarrow> mipmap_complete (tex_objects m' ! a)))"
proof -
  note inv = textures_okD(1) [OF tex_reachable_ok [OF assms(1)] assms(2)]
  obtain t where t: "Texture_MarkMipmapsGenerated F (tex_objects m ! a) = Some (ok, t)"
      "tex_objects m' ! a = t"
    using assms(2,3) by (auto simp: Manager_MarkMipmapsGenerated_def)
  note spec = MarkMipmapsGenerated_ok [OF inv, unfolded t(1)]
  have "ok \<longleftrightarrow> can_generate F (tex_objects m ! a)" "\<not> ok \<longrightarrow> t = tex_objects m ! a"
    "ok \<longrightarrow> first_level t = first_level (tex_objects m ! a)
      \<and> (level0_usable (tex_objects m ! a) \<longrightarrow> mipmap_complete t)"
    using spec by (auto simp: level0_usable_def)
  moreover from this(1) have "ok \<longrightarrow> \<not> deleted_' (tex_objects m ! a)
      \<and> tex_target_' (tex_objects m ! a) \<in> {GL_TEXTURE_2D, GL_TEXTURE_CUBE_MAP}"
    by (simp add: can_generate_def)
  ultimately show ?thesis using can_generate_gl [OF inv] unfolding t(2) by blast
qed

section \<open>Witnesses\<close>

lemma fresh_texture:
  assumes "0 < sint s" "\<not> oes_egl_image_external F"
  obtains m where "tex_reachable F m" "max_texture_size_' m = s" "num_unrenderable_textures_' m = 1"
    "default_texture_external_oes_' m = None"
    "\<exists>a < length (tex_objects m). tex_objects m ! a = TextureInfo_new 7"
proof -
  obtain calls m where m: "TextureManager_Initialize F [] [] (TextureManager_new s s) = Some (calls, m)"
      "texture_infos_' m = []" "max_texture_size_' m = s" "num_unrenderable_textures_' m = 0"
      "default_texture_external_oes_' m = None"
    using Initialize_ok [OF assms(1,1), of F "[]" "[]"] assms(2) by auto
  let ?m = "CreateTextureInfo F 1 7 m"
  have "tex_reachable F ?m"
    using m(2) by (intro tex_reachable.step [OF tex_reachable.start [OF assms(1,1) m(1)]] create)
      (simp add: GetTextureInfo_def)
  then show ?thesis
    by (rule that) (use m in \<open>auto simp: CreateTextureInfo_def\<close>)
qed

lemma fresh_texture_2d:
  assumes "0 < sint s" "\<not> oes_egl_image_external F"
  obtains m a where "tex_reachable F m" "a < length (tex_objects m)" "max_texture_size_' m = s"
    "tex_objects m ! a = Texture_SetTarget GL_TEXTURE_2D (max_levels_' m) (TextureInfo_new 7)"
proof -
  obtain m a where m: "tex_reachable F m" "max_texture_size_' m = s"
      "a < length (tex_objects m)" "tex_objects m ! a = TextureInfo_new 7"
    using fresh_texture [OF assms] by metis
  let ?m = "SetInfoTarget F a GL_TEXTURE_2D m"
  have "tex_reachable F ?m"
    using m by (intro tex_reachable.step [OF m(1)] set_target) simp_all
  then show ?thesis
    by (rule that [of _ a]) (use m in \<open>simp_all add: SetInfoTarget_def MaxLevelsForTarget_def\<close>)
qed

lemma no_external_by_default: "\<not> oes_egl_image_external FeatureInfo_new" "0 < sint (64 :: GLsizei)"
  by (simp_all add: FeatureInfo_new_def)


lemma unrenderable_count_exact_witness:
  "\<exists>m. tex_reachable FeatureInfo_new m \<and> card (unrenderable FeatureInfo_new m) = 1
     \<and> HaveUnrenderableTextures m"
proof -
  obtain m where m: "tex_reachable FeatureInfo_new m" "num_unrenderable_textures_' m = 1"
      "default_texture_external_oes_' m = None"
    using fresh_texture [OF no_external_by_default(2,1)] by metis
  then show ?thesis using unrenderable_count_exact [OF m(1)] by (intro exI [of _ m]) simp
qed

lemma fresh_level:
  obtains m a where "tex_reachable FeatureInfo_new m" "a < length (tex_objects m)"
    "has_face (tex_target_' (tex_objects m ! a)) GL_TEXTURE_2D" "\<not> deleted_' (tex_objects m ! a)"
    "ValidForTarget FeatureInfo_new GL_TEXTURE_2D 0 4 4 1 m"
proof -
  obtain m a where m: "tex_reachable FeatureInfo_new m" "a < length (tex_objects m)" "max_texture_size_' m = 64"
      "tex_objects m ! a = Texture_SetTarget GL_TEXTURE_2D (max_levels_' m) (TextureInfo_new 7)"
    using fresh_texture_2d [OF no_external_by_default(2,1)] by metis
  have "limits_ok m" using tex_reachable_ok [OF m(1)] by (simp add: textures_ok_def)
  then have levels: "0 < unat (max_levels_' m)" "unat (max_levels_' m) \<le> 32"
    using room_bounds [of m GL_TEXTURE_2D] by (simp_all add: room_def MaxLevelsForTarget_def)
  have "unat (max_levels_' m) < 2147483648" using levels(2) by simp
  from sint_small [OF this] have "0 < sint (max_levels_' m)" using levels(1) by linarith
  then show ?thesis
    using m levels by (intro that [OF m(1,2)])
      (simp_all add: has_face_def Texture_SetTarget_def ValidForTarget_def MaxSizeForTarget_def
        MaxLevelsForTarget_def Let_def)
qed

lemma texture_ops_in_bounds_witness:
  "\<exists>m a m'. tex_reachable FeatureInfo_new m
     \<and> Manager_SetLevelInfo FeatureInfo_new a GL_TEXTURE_2D 0 GL_RGBA 4 4 1 0 GL_RGBA GL_UNSIGNED_BYTE m = Some m'
     \<and> GetLevelSize GL_TEXTURE_2D 0 (tex_objects m' ! a) = Some (4, 4)"
proof -
  obtain m a where m: "tex_reachable FeatureInfo_new m" "a < length (tex_objects m)"
      "has_face (tex_target_' (tex_objects m ! a)) GL_TEXTURE_2D" "\<not> deleted_' (tex_objects m ! a)"
      "ValidForTarget FeatureInfo_new GL_TEXTURE_2D 0 4 4 1 m" by (rule fresh_level)
  then show ?thesis
    using texture_ops_in_bounds [OF m(1,2), of 0 0 GL_TEXTURE_2D 0 4 4 GL_RGBA 0 GL_RGBA GL_UNSIGNED_BYTE]
    by auto
qed

lemma mipmaps_generated_complete_witness:
  "\<exists>m a m'. tex_reachable FeatureInfo_new m
     \<and> Manager_MarkMipmapsGenerated FeatureInfo_new a m = Some (True, m')
     \<and> mipmap_complete (tex_objects m' ! a)"
proof -
  obtain m0 a where m0: "tex_reachable FeatureInfo_new m0" "a < length (tex_objects m0)"
      "has_face (tex_target_' (tex_objects m0 ! a)) GL_TEXTURE_2D" "\<not> deleted_' (tex_objects m0 ! a)"
      "ValidForTarget FeatureInfo_new GL_TEXTURE_2D 0 4 4 1 m0" by (rule fresh_level)
  obtain m where m: "Manager_SetLevelInfo FeatureInfo_new a GL_TEXTURE_2D 0 GL_RGBA 4 4 1 0 GL_RGBA
        GL_UNSIGNED_BYTE m0 = Some m" "GetLevelSize GL_TEXTURE_2D 0 (tex_objects m ! a) = Some (4, 4)"
    using SetLevelInfo_valid [OF tex_reachable_ok [OF m0(1)] m0(2,3,5), of GL_RGBA 0 GL_RGBA GL_UNSIGNED_BYTE]
      m0(4) by auto
  let ?t = "tex_objects m ! a"
  have reach: "tex_reachable FeatureInfo_new m"
    using m0 m(1) by (intro tex_reachable.step [OF m0(1)]) (rule set_level)
  have a: "a < length (tex_objects m)" using m(1) m0(2) by (auto simp: Manager_SetLevelInfo_def)
  have t: "tex_target_' ?t = GL_TEXTURE_2D"
    using m(1) m0(2,3) cube_faces_targets [of GL_TEXTURE_2D]
    by (auto simp: Manager_SetLevelInfo_def Texture_SetLevelInfo_def Texture_Update_def has_face_def Let_def
        split: if_splits bind_splits)
  note inv = textures_okD(1) [OF tex_reachable_ok [OF reach] a, unfolded t]
  have ok: "tex_ok (room m GL_TEXTURE_2D) ?t" using inv by (simp add: tex_inv_def)
  have len: "length (level_infos_' ?t) = 1" using tex_okD(3) [OF ok] by (simp add: t face_count_def)
  then have faces: "set (level_infos_' ?t) = {level_infos_' ?t ! 0}" by (auto simp: length_Suc_conv)
  have first: "lvl_valid (first_level ?t)" "lvl_width (first_level ?t) = 4" "lvl_height (first_level ?t) = 4"
      "\<not> deleted_' ?t"
    using m(2) by (auto simp: GetLevelSize_def level_at_def single_face_index Let_def split: if_splits)
  have "level_ok (first_level ?t)" using tex_okD(6) [OF ok] tex_okD(1) [OF ok] len by simp
  then have depth: "lvl_depth (first_level ?t) = 1" using first(1) by (simp add: level_ok_def)
  have "gl_generates FeatureInfo_new ?t"
    using first depth faces
    by (simp add: gl_generates_def t base_images_def level_is_def level0_npot_def IsNPOT_def compressed_base_def
        FeatureInfo_new_def Validators_new_def)
  moreover obtain g m' where gen: "Manager_MarkMipmapsGenerated FeatureInfo_new a m = Some (g, m')"
    using Manager_MarkMipmapsGenerated_ok [OF tex_reachable_ok [OF reach] a] by blast
  moreover note mipmaps_generated_complete [OF reach a gen]
  ultimately show ?thesis
    using reach first t by (intro exI [of _ m] exI [of _ a] exI [of _ m']) (auto simp: level0_usable_def)
qed

end
