(* ===== verification/Texture_Commands.thy ===== *)
theory Texture_Commands
  imports Texture_Steps Gl_Errors Id_Allocator Common_Decoder
begin

text \<open>
  The texture commands of \<^verbatim>\<open>GLES2DecoderImpl\<close> (\<^verbatim>\<open>service/gles2_cmd_decoder.cc\<close> and the generated
  \<^verbatim>\<open>gles2_cmd_decoder_autogen.h\<close>): names, binding, parameters, uploads, copies, mipmaps, stream
  textures, and the replacement of textures that cannot be rendered during a draw call.

  The texture manager and the feature set belong to the context group; a handler also reads the shared
  memory and the buckets of the common decoder (\<open>w\<close>) or the immediate data behind its command
  (\<open>imm\<close>). Parameters, in the record \<open>TexApi\<close> on a state \<open>'g\<close>, are the driver, the bound framebuffer,
  and the stream texture manager. \<open>tex_issued\<close> records the GL calls in order. \<^const>\<open>None\<close> is a null
  pointer that is dereferenced, an access outside the levels of a texture, or no return.
\<close>

section \<open>State\<close>

record 'g TexApi =
  t_get_error :: "'g get_error"
  t_call :: "tex_call \<Rightarrow> 'g \<Rightarrow> 'g"
  t_gen_textures :: "nat \<Rightarrow> 'g \<Rightarrow> GLuint list \<times> 'g"
  t_is_egl_gles2 :: bool
  t_read_format :: "'g \<Rightarrow> GLenum"
  t_read_size :: "'g \<Rightarrow> GLsizei \<times> GLsizei"
  t_begin_resolve :: "'g \<Rightarrow> 'g"
  t_end_resolve :: "'g \<Rightarrow> 'g"
  t_has_streams :: bool
  t_create_stream :: "GLuint \<Rightarrow> GLuint \<Rightarrow> 'g \<Rightarrow> GLuint \<times> 'g"
  t_destroy_stream :: "GLuint \<Rightarrow> 'g \<Rightarrow> 'g"
  t_update_stream :: "GLuint \<Rightarrow> 'g \<Rightarrow> 'g"
  t_unrepresentable_float :: "uint32 \<Rightarrow> GLint"

record TextureUnit =
  unit_bind_target :: GLenum
  bound_texture_2d :: "nat option"
  bound_texture_cube_map :: "nat option"
  bound_texture_external_oes :: "nat option"

record 'g TexDecoder = "'g error_state" +
  texture_manager :: TextureManager
  texture_features :: FeatureInfo
  texture_ids :: IdAllocator
  group_bind_generates :: bool
  group_max_texture_units :: uint32
  texture_units_' :: "TextureUnit list"
  active_texture_unit_' :: uint32
  pack_alignment_' :: GLint
  unpack_alignment_' :: GLint
  state_dirty_' :: bool
  tex_image_2d_failed_' :: bool
  teximage2d_faster_than_texsubimage2d_' :: bool
  tex_issued :: "tex_call list"

definition TextureUnit_new :: TextureUnit where
  "TextureUnit_new =
     \<lparr>unit_bind_target = GL_TEXTURE_2D, bound_texture_2d = None, bound_texture_cube_map = None,
      bound_texture_external_oes = None\<rparr>"

definition GetInfoForSamplerType :: "GLenum \<Rightarrow> TextureUnit \<Rightarrow> nat option" where
  "GetInfoForSamplerType type u =
     (if type = GL_SAMPLER_2D then bound_texture_2d u
      else if type = GL_SAMPLER_EXTERNAL_OES then bound_texture_external_oes u
      else bound_texture_cube_map u)"

definition tex_gl :: "'g TexApi \<Rightarrow> tex_call \<Rightarrow> 'g TexDecoder \<Rightarrow> 'g TexDecoder" where
  "tex_gl P c s = s\<lparr>driver := t_call P c (driver s), tex_issued := tex_issued s @ [c]\<rparr>"

definition tex_gls :: "'g TexApi \<Rightarrow> tex_call list \<Rightarrow> 'g TexDecoder \<Rightarrow> 'g TexDecoder" where
  "tex_gls P cs s = fold (tex_gl P) cs s"

definition tex_error :: "GLenum \<Rightarrow> string \<Rightarrow> 'g TexDecoder \<Rightarrow> 'g TexDecoder" where
  "tex_error e msg s = Service_SetGLError e (Some msg) s"

definition on_tex_driver :: "('g \<Rightarrow> 'g) \<Rightarrow> 'g TexDecoder \<Rightarrow> 'g TexDecoder" where
  "on_tex_driver f s = s\<lparr>driver := f (driver s)\<rparr>"

abbreviation texture_at :: "nat \<Rightarrow> 'g TexDecoder \<Rightarrow> TextureInfo" where
  "texture_at a s \<equiv> tex_objects (texture_manager s) ! a"

abbreviation active_unit :: "'g TexDecoder \<Rightarrow> TextureUnit" where
  "active_unit s \<equiv> texture_units_' s ! unat (active_texture_unit_' s)"

subsection \<open>Data sent with a command\<close>

definition GetSharedMemoryAs :: "'a decoder_world_scheme \<Rightarrow> uint32 \<Rightarrow> uint32 \<Rightarrow> uint32 \<Rightarrow> byte list option" where
  "GetSharedMemoryAs w shm_id offset sz =
     map_option (\<lambda>p. shm_read p (unat sz) w)
       (GetAddressAndCheckSize (unat shm_id) (unat offset) (unat sz) w)"

definition GetImmediateDataAs :: "byte list \<Rightarrow> uint32 \<Rightarrow> byte list option" where
  "GetImmediateDataAs imm sz = (if unat sz \<le> length imm then Some (take (unat sz) imm) else None)"

text \<open>The bytes of a whole bucket; \<^const>\<open>None\<close> if there is no bucket or it is empty.\<close>

definition bucket_bytes :: "'a decoder_world_scheme \<Rightarrow> uint32 \<Rightarrow> byte list option" where
  "bucket_bytes w bucket_id =
     (case GetBucket bucket_id w of
        None \<Rightarrow> None
      | Some b \<Rightarrow> (case Bucket_GetData 0 (bucket_size b) b of
                     None \<Rightarrow> None | Some pos \<Rightarrow> Some (take (bucket_size b) (drop pos (bucket_data b)))))"

text \<open>Reading an array of \<^verbatim>\<open>GLuint\<close> from it.\<close>

fun words_of_bytes :: "byte list \<Rightarrow> uint32 list" where
  "words_of_bytes (a # b # c # d # bs) =
     (ucast a OR push_bit 8 (ucast b) OR push_bit 16 (ucast c) OR push_bit 24 (ucast d)) # words_of_bytes bs"
| "words_of_bytes _ = []"

section \<open>Names\<close>

text \<open>The decoder's own \<^verbatim>\<open>GetTextureInfo\<close> hides deleted objects.\<close>

definition Decoder_GetTextureInfo :: "GLuint \<Rightarrow> 'g TexDecoder \<Rightarrow> nat option" where
  "Decoder_GetTextureInfo client_id s =
     (case GetTextureInfo client_id (texture_manager s) of
        None \<Rightarrow> None
      | Some a \<Rightarrow> if deleted_' (texture_at a s) then None else Some a)"

definition Decoder_CreateTextureInfo :: "GLuint \<Rightarrow> GLuint \<Rightarrow> 'g TexDecoder \<Rightarrow> 'g TexDecoder" where
  "Decoder_CreateTextureInfo client_id service_id s =
     s\<lparr>texture_manager := CreateTextureInfo (texture_features s) client_id service_id (texture_manager s)\<rparr>"

definition GenTexturesHelper :: "'g TexApi \<Rightarrow> GLuint list \<Rightarrow> 'g TexDecoder \<Rightarrow> bool \<times> 'g TexDecoder" where
  "GenTexturesHelper P client_ids s =
     (if list_ex (\<lambda>i. Decoder_GetTextureInfo i s \<noteq> None) client_ids then (False, s)
      else let (service_ids, d) = t_gen_textures P (length client_ids) (driver s)
           in (True, fold (\<lambda>(cid, sid). Decoder_CreateTextureInfo cid sid) (zip client_ids service_ids)
                       (s\<lparr>driver := d\<rparr>)))"

definition delete_texture :: "'g TexApi \<Rightarrow> GLuint \<Rightarrow> nat \<Rightarrow> 'g TexDecoder \<Rightarrow> 'g TexDecoder" where
  "delete_texture P client_id a s =
     (let info = texture_at a s;
          s = (if IsAttachedToFramebuffer info then s\<lparr>state_dirty_' := True\<rparr> else s);
          service_id = tex_service_id_' info;
          s = (if IsStreamTexture info \<and> t_has_streams P
               then on_tex_driver (t_destroy_stream P service_id) s else s);
          s = tex_gl P (glDeleteTextures [service_id]) s
      in s\<lparr>texture_manager := RemoveTextureInfo (texture_features s) client_id (texture_manager s)\<rparr>)"

fun DeleteTexturesHelper :: "'g TexApi \<Rightarrow> GLuint list \<Rightarrow> 'g TexDecoder \<Rightarrow> 'g TexDecoder" where
  "DeleteTexturesHelper P [] s = s"
| "DeleteTexturesHelper P (i # is) s =
     (case Decoder_GetTextureInfo i s of
        None \<Rightarrow> DeleteTexturesHelper P is s
      | Some a \<Rightarrow> DeleteTexturesHelper P is (delete_texture P i a s))"

text \<open>The generated handlers of the two commands, for ids in shared memory and behind the command.\<close>

definition handle_ids ::
  "GLsizei \<Rightarrow> (uint32 \<Rightarrow> byte list option) \<Rightarrow> (GLuint list \<Rightarrow> 'g TexDecoder \<Rightarrow> Error \<times> 'g TexDecoder)
    \<Rightarrow> 'g TexDecoder \<Rightarrow> Error \<times> 'g TexDecoder" where
  "handle_ids n data f s =
     (let (ok, data_size) = SafeMultiplyUint32 n 4
      in if \<not> ok then (kOutOfBounds, s)
         else case data data_size of
           None \<Rightarrow> (kOutOfBounds, s)
         | Some bytes \<Rightarrow> f (words_of_bytes bytes) s)"

definition gen_textures :: "'g TexApi \<Rightarrow> GLuint list \<Rightarrow> 'g TexDecoder \<Rightarrow> Error \<times> 'g TexDecoder" where
  "gen_textures P ids s =
     (let (ok, s) = GenTexturesHelper P ids s in (if ok then kNoError else kInvalidArguments, s))"

definition delete_textures :: "'g TexApi \<Rightarrow> GLuint list \<Rightarrow> 'g TexDecoder \<Rightarrow> Error \<times> 'g TexDecoder" where
  "delete_textures P ids s = (kNoError, DeleteTexturesHelper P ids s)"

definition HandleGenTextures where
  "HandleGenTextures P w n shm_id shm_offset =
     handle_ids n (GetSharedMemoryAs w shm_id shm_offset) (gen_textures P)"

definition HandleGenTexturesImmediate where
  "HandleGenTexturesImmediate P imm n = handle_ids n (GetImmediateDataAs imm) (gen_textures P)"

definition HandleDeleteTextures where
  "HandleDeleteTextures P w n shm_id shm_offset =
     handle_ids n (GetSharedMemoryAs w shm_id shm_offset) (delete_textures P)"

definition HandleDeleteTexturesImmediate where
  "HandleDeleteTexturesImmediate P imm n = handle_ids n (GetImmediateDataAs imm) (delete_textures P)"

section \<open>Binding\<close>

definition DoActiveTexture :: "'g TexApi \<Rightarrow> GLenum \<Rightarrow> 'g TexDecoder \<Rightarrow> 'g TexDecoder" where
  "DoActiveTexture P texture_unit s =
     (let texture_index = texture_unit - GL_TEXTURE0
      in if texture_index \<ge> group_max_texture_units s then
           tex_error GL_INVALID_ENUM ''glActiveTexture: texture_unit out of range.'' s
         else tex_gl P (glActiveTexture texture_unit) (s\<lparr>active_texture_unit_' := texture_index\<rparr>))"

definition HandleActiveTexture :: "'g TexApi \<Rightarrow> GLenum \<Rightarrow> 'g TexDecoder \<Rightarrow> Error \<times> 'g TexDecoder" where
  "HandleActiveTexture P texture s = (kNoError, DoActiveTexture P texture s)"

text \<open>The first part of \<^verbatim>\<open>DoBindTexture\<close>: the texture of the id, a new one, or the default one. \<^const>\<open>None\<close>
  is the early return; the pointer in the result may be null.\<close>

definition bind_texture_lookup ::
  "'g TexApi \<Rightarrow> GLenum \<Rightarrow> GLuint \<Rightarrow> 'g TexDecoder \<Rightarrow> nat option option \<times> 'g TexDecoder" where
  "bind_texture_lookup P target client_id s =
     (if client_id = 0 then (Some (GetDefaultTextureInfo target (texture_manager s)), s)
      else case Decoder_GetTextureInfo client_id s of
        Some a \<Rightarrow> (Some (Some a), s)
      | None \<Rightarrow>
          if \<not> group_bind_generates s then
            (None, tex_error GL_INVALID_VALUE ''glBindTexture: id not generated by glGenTextures'' s)
          else
            let (ids, d) = t_gen_textures P 1 (driver s);
                s = Decoder_CreateTextureInfo client_id (hd ids) (s\<lparr>driver := d\<rparr>);
                info = Decoder_GetTextureInfo client_id s
            in (Some info,
                s\<lparr>texture_ids := snd (IdAllocator_MarkAsUsed client_id (texture_ids s))\<rparr>))"

definition bind_in_unit :: "GLenum \<Rightarrow> nat \<Rightarrow> TextureUnit \<Rightarrow> TextureUnit" where
  "bind_in_unit target a u =
     (let u = u\<lparr>unit_bind_target := target\<rparr>
      in if target = GL_TEXTURE_2D then u\<lparr>bound_texture_2d := Some a\<rparr>
         else if target = GL_TEXTURE_CUBE_MAP then u\<lparr>bound_texture_cube_map := Some a\<rparr>
         else if target = GL_TEXTURE_EXTERNAL_OES then u\<lparr>bound_texture_external_oes := Some a\<rparr>
         else u)"

definition update_active :: "(TextureUnit \<Rightarrow> TextureUnit) \<Rightarrow> 'g TexDecoder \<Rightarrow> 'g TexDecoder" where
  "update_active f s =
     s\<lparr>texture_units_' := (texture_units_' s)[unat (active_texture_unit_' s) := f (active_unit s)]\<rparr>"

text \<open>The second part, for the texture at \<open>a\<close>.\<close>

definition bind_texture :: "'g TexApi \<Rightarrow> GLenum \<Rightarrow> nat \<Rightarrow> 'g TexDecoder \<Rightarrow> 'g TexDecoder" where
  "bind_texture P target a s =
     (if tex_target_' (texture_at a s) \<noteq> 0 \<and> tex_target_' (texture_at a s) \<noteq> target then
        tex_error GL_INVALID_OPERATION ''glBindTexture: texture bound to more than 1 target.'' s
      else if IsStreamTexture (texture_at a s) \<and> target \<noteq> GL_TEXTURE_EXTERNAL_OES then
        tex_error GL_INVALID_OPERATION ''glBindTexture: illegal target for stream texture.'' s
      else
        let s = (if tex_target_' (texture_at a s) = 0
                 then s\<lparr>texture_manager := SetInfoTarget (texture_features s) a target (texture_manager s)\<rparr>
                 else s);
            service_id = tex_service_id_' (texture_at a s);
            s = tex_gl P (glBindTexture target service_id) s;
            s = update_active (bind_in_unit target a) s
        in if target = GL_TEXTURE_EXTERNAL_OES \<and> IsStreamTexture (texture_at a s)
           then on_tex_driver (t_update_stream P service_id) s else s)"

definition DoBindTexture :: "'g TexApi \<Rightarrow> GLenum \<Rightarrow> GLuint \<Rightarrow> 'g TexDecoder \<Rightarrow> 'g TexDecoder option" where
  "DoBindTexture P target client_id s =
     (case bind_texture_lookup P target client_id s of
        (None, s) \<Rightarrow> Some s
      | (Some None, s) \<Rightarrow> None
      | (Some (Some a), s) \<Rightarrow> Some (bind_texture P target a s))"

definition HandleBindTexture ::
  "'g TexApi \<Rightarrow> GLenum \<Rightarrow> GLuint \<Rightarrow> 'g TexDecoder \<Rightarrow> (Error \<times> 'g TexDecoder) option" where
  "HandleBindTexture P target texture s =
     (if \<not> IsValid target (v_texture_bind_target (validators_' (texture_features s))) then
        Some (kNoError, tex_error GL_INVALID_ENUM ''glBindTexture: target GL_INVALID_ENUM'' s)
      else map_option (Pair kNoError) (DoBindTexture P target texture s))"

definition GetTextureInfoForTarget :: "GLenum \<Rightarrow> 'g TexDecoder \<Rightarrow> nat option" where
  "GetTextureInfoForTarget target s =
     (let info = (if target = GL_TEXTURE_2D then bound_texture_2d (active_unit s)
                  else if target = GL_TEXTURE_CUBE_MAP \<or> target \<in> set cube_faces
                  then bound_texture_cube_map (active_unit s)
                  else if target = GL_TEXTURE_EXTERNAL_OES then bound_texture_external_oes (active_unit s)
                  else None)
      in case info of None \<Rightarrow> None | Some a \<Rightarrow> if deleted_' (texture_at a s) then None else Some a)"

section \<open>Parameters and mipmaps\<close>

text \<open>\<^verbatim>\<open>static_cast<GLint>\<close> of a float given by its bits: truncation, and undefined (the parameter
  \<open>other\<close>) outside the range of \<^verbatim>\<open>GLint\<close>.\<close>

definition float_to_int :: "(uint32 \<Rightarrow> GLint) \<Rightarrow> uint32 \<Rightarrow> GLint" where
  "float_to_int other x =
     (let e = unat (drop_bit 23 x AND 0xFF); m = 2 ^ 23 + unat (x AND 0x7FFFFF)
      in if e < 127 then 0
         else if e \<ge> 158 then if x = 0xCF000000 then 0x80000000 else other x
         else let v = (if e \<ge> 150 then m * 2 ^ (e - 150) else m div 2 ^ (150 - e))
              in if bit x 31 then - word_of_nat v else word_of_nat v)"

text \<open>The four variants of \<^verbatim>\<open>DoTexParameter\<close> differ in the parameter, the GL call and the name in the
  messages.\<close>

definition DoTexParameter ::
  "'g TexApi \<Rightarrow> string \<Rightarrow> tex_call \<Rightarrow> GLenum \<Rightarrow> GLenum \<Rightarrow> GLint \<Rightarrow> 'g TexDecoder \<Rightarrow> 'g TexDecoder option" where
  "DoTexParameter P func call target pname param s =
     (case GetTextureInfoForTarget target s of
        None \<Rightarrow> Some (tex_error GL_INVALID_VALUE (func @ '': unknown texture'') s)
      | Some a \<Rightarrow> do {
          (ok, m) \<leftarrow> Manager_SetParameter (texture_features s) a pname param (texture_manager s);
          let s = s\<lparr>texture_manager := m\<rparr>;
          Some (if \<not> ok then tex_error GL_INVALID_ENUM (func @ '': param GL_INVALID_ENUM'') s
                else tex_gl P call s)
        })"

definition DoTexParameterf where
  "DoTexParameterf P target pname param =
     DoTexParameter P ''glTexParameterf'' (glTexParameterf target pname param) target pname
       (float_to_int (t_unrepresentable_float P) param)"

definition DoTexParameteri where
  "DoTexParameteri P target pname param =
     DoTexParameter P ''glTexParameteri'' (glTexParameteri target pname param) target pname param"

definition DoTexParameterfv where
  "DoTexParameterfv P target pname params =
     DoTexParameter P ''glTexParameterfv'' (glTexParameterfv target pname (hd params)) target pname
       (float_to_int (t_unrepresentable_float P) (hd params))"

definition DoTexParameteriv where
  "DoTexParameteriv P target pname params =
     DoTexParameter P ''glTexParameteriv'' (glTexParameteriv target pname (hd params)) target pname (hd params)"

text \<open>The checks of the generated handlers: the message of the first that fails.\<close>

definition tex_parameter_error :: "string \<Rightarrow> GLenum \<Rightarrow> GLenum \<Rightarrow> 'g TexDecoder \<Rightarrow> string option" where
  "tex_parameter_error func target pname s =
     (if \<not> IsValid target (v_texture_bind_target (validators_' (texture_features s))) then
        Some (func @ '': target GL_INVALID_ENUM'')
      else if \<not> IsValid pname (v_texture_parameter (validators_' (texture_features s))) then
        Some (func @ '': pname GL_INVALID_ENUM'')
      else None)"

definition handle_tex_parameter ::
  "string \<Rightarrow> GLenum \<Rightarrow> GLenum \<Rightarrow> ('g TexDecoder \<Rightarrow> 'g TexDecoder option) \<Rightarrow> 'g TexDecoder
    \<Rightarrow> (Error \<times> 'g TexDecoder) option" where
  "handle_tex_parameter func target pname f s =
     (case tex_parameter_error func target pname s of
        Some msg \<Rightarrow> Some (kNoError, tex_error GL_INVALID_ENUM msg s)
      | None \<Rightarrow> map_option (Pair kNoError) (f s))"

definition HandleTexParameterf where
  "HandleTexParameterf P target pname param =
     handle_tex_parameter ''glTexParameterf'' target pname (DoTexParameterf P target pname param)"

definition HandleTexParameteri where
  "HandleTexParameteri P target pname param =
     handle_tex_parameter ''glTexParameteri'' target pname (DoTexParameteri P target pname param)"

text \<open>The vector variants look for their data first and report it missing last.\<close>

definition handle_tex_parameter_v ::
  "string \<Rightarrow> GLenum \<Rightarrow> GLenum \<Rightarrow> (uint32 \<Rightarrow> byte list option)
    \<Rightarrow> (uint32 list \<Rightarrow> 'g TexDecoder \<Rightarrow> 'g TexDecoder option) \<Rightarrow> 'g TexDecoder \<Rightarrow> (Error \<times> 'g TexDecoder) option" where
  "handle_tex_parameter_v func target pname data f s =
     (case ComputeDataSize 1 4 1 of
        None \<Rightarrow> Some (kOutOfBounds, s)
      | Some data_size \<Rightarrow>
          (case (tex_parameter_error func target pname s, data data_size) of
             (Some msg, _) \<Rightarrow> Some (kNoError, tex_error GL_INVALID_ENUM msg s)
           | (None, None) \<Rightarrow> Some (kOutOfBounds, s)
           | (None, Some bytes) \<Rightarrow> map_option (Pair kNoError) (f (words_of_bytes bytes) s)))"

definition HandleTexParameterfv where
  "HandleTexParameterfv P w target pname shm_id shm_offset =
     handle_tex_parameter_v ''glTexParameterfv'' target pname (GetSharedMemoryAs w shm_id shm_offset)
       (DoTexParameterfv P target pname)"

definition HandleTexParameteriv where
  "HandleTexParameteriv P w target pname shm_id shm_offset =
     handle_tex_parameter_v ''glTexParameteriv'' target pname (GetSharedMemoryAs w shm_id shm_offset)
       (DoTexParameteriv P target pname)"

text \<open>The immediate variants refuse too little data at once.\<close>

definition HandleTexParameterfvImmediate where
  "HandleTexParameterfvImmediate P imm target pname s =
     (if 4 > length imm then Some (kOutOfBounds, s)
      else handle_tex_parameter_v ''glTexParameterfv'' target pname (GetImmediateDataAs imm)
             (DoTexParameterfv P target pname) s)"

definition HandleTexParameterivImmediate where
  "HandleTexParameterivImmediate P imm target pname s =
     (if 4 > length imm then Some (kOutOfBounds, s)
      else handle_tex_parameter_v ''glTexParameteriv'' target pname (GetImmediateDataAs imm)
             (DoTexParameteriv P target pname) s)"

definition DoGenerateMipmap :: "'g TexApi \<Rightarrow> GLenum \<Rightarrow> 'g TexDecoder \<Rightarrow> 'g TexDecoder option" where
  "DoGenerateMipmap P target s =
     (let fail = tex_error GL_INVALID_OPERATION
                   ''glGenerateMipmaps: Can not generate mips for npot textures''
      in case GetTextureInfoForTarget target s of
           None \<Rightarrow> Some (fail s)
         | Some a \<Rightarrow> do {
             (ok, m) \<leftarrow> Manager_MarkMipmapsGenerated (texture_features s) a (texture_manager s);
             let s = s\<lparr>texture_manager := m\<rparr>;
             Some (if \<not> ok then fail s
                   else tex_gls P
                     [glTexParameteri target GL_TEXTURE_MIN_FILTER GL_NEAREST_MIPMAP_NEAREST,
                      glGenerateMipmap target,
                      glTexParameteri target GL_TEXTURE_MIN_FILTER (min_filter_' (texture_at a s))] s)
           })"

definition HandleGenerateMipmap ::
  "'g TexApi \<Rightarrow> GLenum \<Rightarrow> 'g TexDecoder \<Rightarrow> (Error \<times> 'g TexDecoder) option" where
  "HandleGenerateMipmap P target s =
     (if \<not> IsValid target (v_texture_bind_target (validators_' (texture_features s))) then
        Some (kNoError, tex_error GL_INVALID_ENUM ''glGenerateMipmap: target GL_INVALID_ENUM'' s)
      else map_option (Pair kNoError) (DoGenerateMipmap P target s))"

section \<open>Uploads\<close>

text \<open>On desktop GL some internal formats are replaced.\<close>

definition desktop_internal_format :: "GLenum \<Rightarrow> GLenum \<Rightarrow> GLenum \<Rightarrow> GLenum" where
  "desktop_internal_format internal_format format type =
     (if format = GL_BGRA_EXT \<and> internal_format = GL_BGRA_EXT then GL_RGBA
      else if type = GL_FLOAT then
        if format = GL_RGBA then GL_RGBA32F_ARB
        else if format = GL_RGB then GL_RGB32F_ARB else internal_format
      else if type = GL_HALF_FLOAT_OES then
        if format = GL_RGBA then GL_RGBA16F_ARB
        else if format = GL_RGB then GL_RGB16F_ARB else internal_format
      else internal_format)"

definition WrappedTexImage2D ::
  "'g TexApi \<Rightarrow> GLenum \<Rightarrow> GLint \<Rightarrow> GLenum \<Rightarrow> GLsizei \<Rightarrow> GLsizei \<Rightarrow> GLint \<Rightarrow> GLenum \<Rightarrow> GLenum
    \<Rightarrow> byte list \<Rightarrow> 'g TexDecoder \<Rightarrow> 'g TexDecoder" where
  "WrappedTexImage2D P target level internal_format width height border format type pixels =
     tex_gl P (glTexImage2D target level
       (if \<not> t_is_egl_gles2 P then desktop_internal_format internal_format format type
        else internal_format) width height border format type pixels)"

text \<open>The end of every upload: the level is recorded unless GL reported an error.\<close>

definition record_level ::
  "'g TexApi \<Rightarrow> nat \<Rightarrow> GLenum \<Rightarrow> GLint \<Rightarrow> GLenum \<Rightarrow> GLsizei \<Rightarrow> GLsizei \<Rightarrow> GLint \<Rightarrow> GLenum \<Rightarrow> GLenum
    \<Rightarrow> 'g TexDecoder \<Rightarrow> (bool \<times> 'g TexDecoder) option" where
  "record_level P a target level internal_format width height border format type s =
     (let (error, s) = PeekGLError (t_get_error P) s
      in if error = GL_NO_ERROR then
           map_option (\<lambda>m. (True, s\<lparr>texture_manager := m\<rparr>))
             (Manager_SetLevelInfo (texture_features s) a target level internal_format width height 1
               border format type (texture_manager s))
         else Some (False, s))"

definition attached_dirty :: "nat \<Rightarrow> 'g TexDecoder \<Rightarrow> 'g TexDecoder" where
  "attached_dirty a s =
     (if IsAttachedToFramebuffer (texture_at a s) then s\<lparr>state_dirty_' := True\<rparr> else s)"

text \<open>The checks of \<^verbatim>\<open>DoTexImage2D\<close>, in order.\<close>

definition tex_image_error ::
  "GLenum \<Rightarrow> GLint \<Rightarrow> GLenum \<Rightarrow> GLsizei \<Rightarrow> GLsizei \<Rightarrow> GLint \<Rightarrow> GLenum \<Rightarrow> GLenum \<Rightarrow> 'g TexDecoder
    \<Rightarrow> (GLenum \<times> string) option" where
  "tex_image_error target level internal_format width height border format type s =
     (let V = validators_' (texture_features s)
      in if \<not> IsValid target (v_texture_target V) then
           Some (GL_INVALID_ENUM, ''glTexImage2D: target GL_INVALID_ENUM'')
         else if \<not> IsValid internal_format (v_texture_format V) then
           Some (GL_INVALID_ENUM, ''glTexImage2D: internal_format GL_INVALID_ENUM'')
         else if \<not> IsValid format (v_texture_format V) then
           Some (GL_INVALID_ENUM, ''glTexImage2D: format GL_INVALID_ENUM'')
         else if \<not> IsValid type (v_pixel_type V) then
           Some (GL_INVALID_ENUM, ''glTexImage2D: type GL_INVALID_ENUM'')
         else if format \<noteq> internal_format then
           Some (GL_INVALID_OPERATION, ''glTexImage2D: format != internalFormat'')
         else if \<not> ValidForTarget (texture_features s) target level width height 1 (texture_manager s)
             \<or> border \<noteq> 0 then
           Some (GL_INVALID_VALUE, ''glTexImage2D: dimensions out of range'')
         else None)"

definition level_is_same ::
  "GLenum \<Rightarrow> GLint \<Rightarrow> GLsizei \<Rightarrow> GLsizei \<Rightarrow> GLenum \<Rightarrow> GLenum \<Rightarrow> TextureInfo \<Rightarrow> bool" where
  "level_is_same target level width height format type t \<longleftrightarrow>
     GetLevelSize target level t = Some (width, height) \<and> GetLevelType target level t = Some (type, format)"

definition DoTexImage2D ::
  "'g TexApi \<Rightarrow> GLenum \<Rightarrow> GLint \<Rightarrow> GLenum \<Rightarrow> GLsizei \<Rightarrow> GLsizei \<Rightarrow> GLint \<Rightarrow> GLenum \<Rightarrow> GLenum
    \<Rightarrow> byte list option \<Rightarrow> uint32 \<Rightarrow> 'g TexDecoder \<Rightarrow> 'g TexDecoder option" where
  "DoTexImage2D P target level internal_format width height border format type pixels pixels_size s =
     (case tex_image_error target level internal_format width height border format type s of
        Some (e, msg) \<Rightarrow> Some (tex_error e msg s)
      | None \<Rightarrow>
          (case GetTextureInfoForTarget target s of
             None \<Rightarrow> Some (tex_error GL_INVALID_OPERATION ''glTexImage2D: unknown texture for target'' s)
           | Some a \<Rightarrow>
               let same = level_is_same target level width height format type (texture_at a s)
               in if same \<and> pixels = None then Some (s\<lparr>tex_image_2d_failed_' := False\<rparr>)
                  else
                    let px = (case pixels of None \<Rightarrow> replicate (unat pixels_size) 0 | Some px \<Rightarrow> px);
                        s = attached_dirty a s
                    in if \<not> teximage2d_faster_than_texsubimage2d_' s \<and> same then
                         Some ((tex_gl P (glTexSubImage2D target level 0 0 width height format type px) s)
                                 \<lparr>tex_image_2d_failed_' := False\<rparr>)
                       else do {
                         s \<leftarrow> CopyRealGLErrorsToWrapper (t_get_error P) s;
                         let s = WrappedTexImage2D P target level internal_format width height border
                                   format type px s;
                         (ok, s) \<leftarrow> record_level P a target level internal_format width height border
                                     format type s;
                         Some (if ok then s\<lparr>tex_image_2d_failed_' := False\<rparr> else s)
                       }))"

definition HandleTexImage2D ::
  "'g TexApi \<Rightarrow> 'a decoder_world_scheme \<Rightarrow> GLenum \<Rightarrow> GLint \<Rightarrow> GLint \<Rightarrow> GLsizei \<Rightarrow> GLsizei \<Rightarrow> GLint
    \<Rightarrow> GLenum \<Rightarrow> GLenum \<Rightarrow> uint32 \<Rightarrow> uint32 \<Rightarrow> 'g TexDecoder \<Rightarrow> (Error \<times> 'g TexDecoder) option" where
  "HandleTexImage2D P w target level internal_format width height border format type shm_id shm_offset s =
     (let s = s\<lparr>tex_image_2d_failed_' := True\<rparr> in do {
        img \<leftarrow> ComputeImageDataSize width height format type (unpack_alignment_' s);
        case img of
          None \<Rightarrow> Some (kOutOfBounds, s)
        | Some pixels_size \<Rightarrow>
            if shm_id \<noteq> 0 \<or> shm_offset \<noteq> 0 then
              case GetSharedMemoryAs w shm_id shm_offset pixels_size of
                None \<Rightarrow> Some (kOutOfBounds, s)
              | Some px \<Rightarrow> map_option (Pair kNoError)
                  (DoTexImage2D P target level internal_format width height border format type
                    (Some px) pixels_size s)
            else map_option (Pair kNoError)
              (DoTexImage2D P target level internal_format width height border format type
                None pixels_size s)
      })"

definition HandleTexImage2DImmediate ::
  "'g TexApi \<Rightarrow> byte list \<Rightarrow> GLenum \<Rightarrow> GLint \<Rightarrow> GLint \<Rightarrow> GLsizei \<Rightarrow> GLsizei \<Rightarrow> GLint
    \<Rightarrow> GLenum \<Rightarrow> GLenum \<Rightarrow> 'g TexDecoder \<Rightarrow> (Error \<times> 'g TexDecoder) option" where
  "HandleTexImage2DImmediate P imm target level internal_format width height border format type s = do {
     img \<leftarrow> ComputeImageDataSize width height format type (unpack_alignment_' s);
     case img of
       None \<Rightarrow> Some (kOutOfBounds, s)
     | Some sz \<Rightarrow>
         (case GetImmediateDataAs imm sz of
            None \<Rightarrow> Some (kOutOfBounds, s)
          | Some px \<Rightarrow> map_option (Pair kNoError)
              (DoTexImage2D P target level internal_format width height border format type
                (Some px) sz s))
   }"

definition DoTexSubImage2D ::
  "'g TexApi \<Rightarrow> GLenum \<Rightarrow> GLint \<Rightarrow> GLint \<Rightarrow> GLint \<Rightarrow> GLsizei \<Rightarrow> GLsizei \<Rightarrow> GLenum \<Rightarrow> GLenum
    \<Rightarrow> byte list \<Rightarrow> 'g TexDecoder \<Rightarrow> 'g TexDecoder" where
  "DoTexSubImage2D P target level xoffset yoffset width height format type data s =
     (case GetTextureInfoForTarget target s of
        None \<Rightarrow> tex_error GL_INVALID_OPERATION ''glTexSubImage2D: unknown texture for target'' s
      | Some a \<Rightarrow>
          (case GetLevelType target level (texture_at a s) of
             None \<Rightarrow> tex_error GL_INVALID_OPERATION ''glTexSubImage2D: level does not exist.'' s
           | Some (current_type, internal_format) \<Rightarrow>
               if format \<noteq> internal_format then
                 tex_error GL_INVALID_OPERATION
                   ''glTexSubImage2D: format does not match internal format.'' s
               else if type \<noteq> current_type then
                 tex_error GL_INVALID_OPERATION
                   ''glTexSubImage2D: type does not match type of texture.'' s
               else if \<not> ValidForTexture target level xoffset yoffset width height format type (texture_at a s)
               then tex_error GL_INVALID_VALUE ''glTexSubImage2D: bad dimensions.'' s
               else if teximage2d_faster_than_texsubimage2d_' s \<and> xoffset = 0 \<and> yoffset = 0
                   \<and> GetLevelSize target level (texture_at a s) = Some (width, height)
               then WrappedTexImage2D P target level format width height 0 format type data s
               else tex_gl P (glTexSubImage2D target level xoffset yoffset width height format type data) s))"

text \<open>The checks of the handlers, after the data was looked for and before it is reported missing.\<close>

definition tex_sub_image_error ::
  "GLenum \<Rightarrow> GLsizei \<Rightarrow> GLsizei \<Rightarrow> GLenum \<Rightarrow> GLenum \<Rightarrow> 'g TexDecoder \<Rightarrow> (GLenum \<times> string) option" where
  "tex_sub_image_error target width height format type s =
     (let V = validators_' (texture_features s)
      in if \<not> IsValid target (v_texture_target V) then
           Some (GL_INVALID_ENUM, ''glTexSubImage2D: target GL_INVALID_ENUM'')
         else if sint width < 0 then Some (GL_INVALID_VALUE, ''glTexSubImage2D: width < 0'')
         else if sint height < 0 then Some (GL_INVALID_VALUE, ''glTexSubImage2D: height < 0'')
         else if \<not> IsValid format (v_texture_format V) then
           Some (GL_INVALID_ENUM, ''glTexSubImage2D: format GL_INVALID_ENUM'')
         else if \<not> IsValid type (v_pixel_type V) then
           Some (GL_INVALID_ENUM, ''glTexSubImage2D: type GL_INVALID_ENUM'')
         else None)"

definition handle_tex_sub_image ::
  "'g TexApi \<Rightarrow> (uint32 \<Rightarrow> byte list option) \<Rightarrow> GLenum \<Rightarrow> GLint \<Rightarrow> GLint \<Rightarrow> GLint \<Rightarrow> GLsizei \<Rightarrow> GLsizei
    \<Rightarrow> GLenum \<Rightarrow> GLenum \<Rightarrow> bool \<Rightarrow> 'g TexDecoder \<Rightarrow> (Error \<times> 'g TexDecoder) option" where
  "handle_tex_sub_image P data target level xoffset yoffset width height format type internal s =
     (if internal \<and> tex_image_2d_failed_' s then Some (kNoError, s)
      else do {
        img \<leftarrow> ComputeImageDataSize width height format type (unpack_alignment_' s);
        case img of
          None \<Rightarrow> Some (kOutOfBounds, s)
        | Some data_size \<Rightarrow>
            Some (case (tex_sub_image_error target width height format type s, data data_size) of
              (Some (e, msg), _) \<Rightarrow> (kNoError, tex_error e msg s)
            | (None, None) \<Rightarrow> (kOutOfBounds, s)
            | (None, Some px) \<Rightarrow>
                (kNoError, DoTexSubImage2D P target level xoffset yoffset width height format type px s))
      })"

definition HandleTexSubImage2D where
  "HandleTexSubImage2D P w target level xoffset yoffset width height format type shm_id shm_offset internal =
     handle_tex_sub_image P (GetSharedMemoryAs w shm_id shm_offset) target level xoffset yoffset
       width height format type internal"

definition HandleTexSubImage2DImmediate where
  "HandleTexSubImage2DImmediate P imm target level xoffset yoffset width height format type internal =
     handle_tex_sub_image P (GetImmediateDataAs imm) target level xoffset yoffset
       width height format type internal"

section \<open>Compressed images\<close>

text \<open>A null \<open>data\<close> is replaced by \<open>image_size\<close> zeros; \<^verbatim>\<open>new\<close> with a negative size does not return.\<close>

definition DoCompressedTexImage2D ::
  "'g TexApi \<Rightarrow> GLenum \<Rightarrow> GLint \<Rightarrow> GLenum \<Rightarrow> GLsizei \<Rightarrow> GLsizei \<Rightarrow> GLint \<Rightarrow> GLsizei
    \<Rightarrow> byte list option \<Rightarrow> 'g TexDecoder \<Rightarrow> 'g TexDecoder option" where
  "DoCompressedTexImage2D P target level internal_format width height border image_size data s =
     (let V = validators_' (texture_features s)
      in if \<not> IsValid target (v_texture_target V) then
           Some (tex_error GL_INVALID_ENUM ''glCompressedTexImage2D: target GL_INVALID_ENUM'' s)
         else if \<not> IsValid internal_format (v_compressed_texture_format V) then
           Some (tex_error GL_INVALID_ENUM ''glCompressedTexImage2D: internal_format GL_INVALID_ENUM'' s)
         else if \<not> ValidForTarget (texture_features s) target level width height 1 (texture_manager s)
             \<or> border \<noteq> 0 then
           Some (tex_error GL_INVALID_VALUE ''glCompressedTexImage2D: dimensions out of range'' s)
         else case GetTextureInfoForTarget target s of
           None \<Rightarrow> Some (tex_error GL_INVALID_VALUE ''glCompressedTexImage2D: unknown texture target'' s)
         | Some a \<Rightarrow>
             if data = None \<and> sint image_size < 0 then None
             else do {
               let px = (case data of None \<Rightarrow> replicate (unat image_size) 0 | Some px \<Rightarrow> px);
               s \<leftarrow> CopyRealGLErrorsToWrapper (t_get_error P) s;
               let s = tex_gl P (glCompressedTexImage2D target level internal_format width height border px) s;
               (ok, s) \<leftarrow> record_level P a target level internal_format width height border 0 0 s;
               Some s
             })"

definition HandleCompressedTexImage2D where
  "HandleCompressedTexImage2D P w target level internal_format width height border image_size
      shm_id shm_offset s =
     (if shm_id \<noteq> 0 \<or> shm_offset \<noteq> 0 then
        case GetSharedMemoryAs w shm_id shm_offset image_size of
          None \<Rightarrow> Some (kOutOfBounds, s)
        | Some data \<Rightarrow> map_option (Pair kNoError)
            (DoCompressedTexImage2D P target level internal_format width height border image_size
              (Some data) s)
      else map_option (Pair kNoError)
        (DoCompressedTexImage2D P target level internal_format width height border image_size None s))"

definition HandleCompressedTexImage2DImmediate where
  "HandleCompressedTexImage2DImmediate P imm target level internal_format width height border image_size s =
     (case GetImmediateDataAs imm image_size of
        None \<Rightarrow> Some (kOutOfBounds, s)
      | Some data \<Rightarrow> map_option (Pair kNoError)
          (DoCompressedTexImage2D P target level internal_format width height border image_size
            (Some data) s))"

definition HandleCompressedTexImage2DBucket where
  "HandleCompressedTexImage2DBucket P w target level internal_format width height border bucket_id s =
     (case bucket_bytes w bucket_id of
        None \<Rightarrow> Some (kInvalidArguments, s)
      | Some data \<Rightarrow> map_option (Pair kNoError)
          (DoCompressedTexImage2D P target level internal_format width height border
            (word_of_nat (length data)) (Some data) s))"

definition DoCompressedTexSubImage2D ::
  "'g TexApi \<Rightarrow> GLenum \<Rightarrow> GLint \<Rightarrow> GLint \<Rightarrow> GLint \<Rightarrow> GLsizei \<Rightarrow> GLsizei \<Rightarrow> GLenum \<Rightarrow> byte list
    \<Rightarrow> 'g TexDecoder \<Rightarrow> 'g TexDecoder" where
  "DoCompressedTexSubImage2D P target level xoffset yoffset width height format data s =
     (case GetTextureInfoForTarget target s of
        None \<Rightarrow> tex_error GL_INVALID_OPERATION ''glCompressedTexSubImage2D: unknown texture for target'' s
      | Some a \<Rightarrow>
          (case GetLevelType target level (texture_at a s) of
             None \<Rightarrow> tex_error GL_INVALID_OPERATION ''glCompressdTexSubImage2D: level does not exist.'' s
           | Some (type, internal_format) \<Rightarrow>
               if internal_format \<noteq> format then
                 tex_error GL_INVALID_OPERATION
                   ''glCompressdTexSubImage2D: format does not match internal format.'' s
               else if \<not> ValidForTexture target level xoffset yoffset width height format type (texture_at a s)
               then tex_error GL_INVALID_VALUE ''glCompressdTexSubImage2D: bad dimensions.'' s
               else tex_gl P (glCompressedTexSubImage2D target level xoffset yoffset width height format data) s))"

text \<open>The checks of the three handlers; they differ in the order of the last two.\<close>

definition compressed_sub_error ::
  "bool \<Rightarrow> GLenum \<Rightarrow> GLsizei \<Rightarrow> GLsizei \<Rightarrow> GLenum \<Rightarrow> GLsizei \<Rightarrow> 'g TexDecoder \<Rightarrow> (GLenum \<times> string) option" where
  "compressed_sub_error format_first target width height format image_size s =
     (let V = validators_' (texture_features s);
          bad_format = \<not> IsValid format (v_compressed_texture_format V);
          format_error = Some (GL_INVALID_ENUM, ''glCompressedTexSubImage2D: format GL_INVALID_ENUM'')
      in if \<not> IsValid target (v_texture_target V) then
           Some (GL_INVALID_ENUM, ''glCompressedTexSubImage2D: target GL_INVALID_ENUM'')
         else if format_first \<and> bad_format then format_error
         else if sint width < 0 then Some (GL_INVALID_VALUE, ''glCompressedTexSubImage2D: width < 0'')
         else if sint height < 0 then Some (GL_INVALID_VALUE, ''glCompressedTexSubImage2D: height < 0'')
         else if \<not> format_first \<and> bad_format then format_error
         else if sint image_size < 0 then
           Some (GL_INVALID_VALUE, ''glCompressedTexSubImage2D: imageSize < 0'')
         else None)"

definition handle_compressed_sub where
  "handle_compressed_sub P format_first data target level xoffset yoffset width height format image_size s =
     (case (compressed_sub_error format_first target width height format image_size s, data) of
        (Some (e, msg), _) \<Rightarrow> (kNoError, tex_error e msg s)
      | (None, None) \<Rightarrow> (kOutOfBounds, s)
      | (None, Some px) \<Rightarrow>
          (kNoError, DoCompressedTexSubImage2D P target level xoffset yoffset width height format px s))"

definition HandleCompressedTexSubImage2D where
  "HandleCompressedTexSubImage2D P w target level xoffset yoffset width height format image_size
      shm_id shm_offset =
     handle_compressed_sub P False (GetSharedMemoryAs w shm_id shm_offset image_size) target level
       xoffset yoffset width height format image_size"

definition HandleCompressedTexSubImage2DImmediate where
  "HandleCompressedTexSubImage2DImmediate P imm target level xoffset yoffset width height format image_size =
     handle_compressed_sub P False (GetImmediateDataAs imm image_size) target level
       xoffset yoffset width height format image_size"

definition HandleCompressedTexSubImage2DBucket where
  "HandleCompressedTexSubImage2DBucket P w target level xoffset yoffset width height format bucket_id s =
     (case bucket_bytes w bucket_id of
        None \<Rightarrow> (kInvalidArguments, s)
      | Some data \<Rightarrow>
          handle_compressed_sub P True (Some data) target level xoffset yoffset width height format
            (word_of_nat (length data)) s)"

section \<open>Copies from the framebuffer\<close>

text \<open>The sums wrap around; C++ leaves a signed overflow undefined.\<close>

definition Clip :: "GLint \<Rightarrow> GLint \<Rightarrow> GLint \<Rightarrow> GLint \<times> GLint" where
  "Clip start rng sourceRange =
     (let (start, rng) = (if sint start < 0 then (0, rng + start) else (start, rng));
          end' = start + rng;
          rng = (if sint end' > sint sourceRange then rng - (end' - sourceRange) else rng)
      in (start, rng))"

definition clip_both ::
  "GLint \<Rightarrow> GLint \<Rightarrow> GLsizei \<Rightarrow> GLsizei \<Rightarrow> GLsizei \<times> GLsizei \<Rightarrow> GLint \<times> GLint \<times> GLsizei \<times> GLsizei" where
  "clip_both x y width height sz =
     (let (copyX, copyWidth) = Clip x width (fst sz); (copyY, copyHeight) = Clip y height (snd sz)
      in (copyX, copyY, copyWidth, copyHeight))"

definition channels_missing :: "GLenum \<Rightarrow> GLenum \<Rightarrow> bool" where
  "channels_missing read_format needed_format \<longleftrightarrow>
     GetChannelsForFormat needed_format AND GetChannelsForFormat read_format
       \<noteq> GetChannelsForFormat needed_format"

text \<open>The GL calls of the two copies; \<^const>\<open>None\<close> is the image size that does not fit, the outer one a
  division by zero in its computation.\<close>

definition copy_image_calls ::
  "GLenum \<Rightarrow> GLint \<Rightarrow> GLenum \<Rightarrow> GLint \<Rightarrow> GLint \<Rightarrow> GLsizei \<Rightarrow> GLsizei \<Rightarrow> GLint \<Rightarrow> GLsizei \<times> GLsizei
    \<Rightarrow> GLint \<Rightarrow> tex_call list option option" where
  "copy_image_calls target level internal_format x y width height border sz unpack_alignment =
     (let (copyX, copyY, copyWidth, copyHeight) = clip_both x y width height sz
      in if (copyX, copyY, copyWidth, copyHeight) \<noteq> (x, y, width, height) then
           map_option (map_option (\<lambda>pixels_size.
               [glTexImage2D target level internal_format width height 0 internal_format GL_UNSIGNED_BYTE
                  (replicate (unat pixels_size) 0)]
               @ (if sint copyHeight > 0 \<and> sint copyWidth > 0
                  then [glCopyTexSubImage2D target level (copyX - x) (copyY - y) copyX copyY copyWidth copyHeight]
                  else [])))
             (ComputeImageDataSize width height internal_format GL_UNSIGNED_BYTE unpack_alignment)
         else Some (Some [glCopyTexImage2D target level internal_format copyX copyY copyWidth copyHeight border]))"

definition copy_sub_image_calls ::
  "GLenum \<Rightarrow> GLint \<Rightarrow> GLint \<Rightarrow> GLint \<Rightarrow> GLint \<Rightarrow> GLint \<Rightarrow> GLsizei \<Rightarrow> GLsizei \<Rightarrow> GLenum \<Rightarrow> GLenum
    \<Rightarrow> GLsizei \<times> GLsizei \<Rightarrow> GLint \<Rightarrow> tex_call list option option" where
  "copy_sub_image_calls target level xoffset yoffset x y width height format type sz unpack_alignment =
     (let (copyX, copyY, copyWidth, copyHeight) = clip_both x y width height sz;
          copy = (if sint copyHeight > 0 \<and> sint copyWidth > 0
                  then [glCopyTexSubImage2D target level (xoffset + (copyX - x)) (yoffset + (copyY - y))
                          copyX copyY copyWidth copyHeight]
                  else [])
      in if (copyX, copyY, copyWidth, copyHeight) \<noteq> (x, y, width, height) then
           map_option (map_option (\<lambda>pixels_size.
               glTexSubImage2D target level xoffset yoffset width height format type
                 (replicate (unat pixels_size) 0) # copy))
             (ComputeImageDataSize width height format type unpack_alignment)
         else Some (Some copy))"

definition DoCopyTexImage2D ::
  "'g TexApi \<Rightarrow> GLenum \<Rightarrow> GLint \<Rightarrow> GLenum \<Rightarrow> GLint \<Rightarrow> GLint \<Rightarrow> GLsizei \<Rightarrow> GLsizei \<Rightarrow> GLint
    \<Rightarrow> 'g TexDecoder \<Rightarrow> 'g TexDecoder option" where
  "DoCopyTexImage2D P target level internal_format x y width height border s =
     (case GetTextureInfoForTarget target s of
        None \<Rightarrow> Some (tex_error GL_INVALID_OPERATION ''glCopyTexImage2D: unknown texture for target'' s)
      | Some a \<Rightarrow>
          if \<not> ValidForTarget (texture_features s) target level width height 1 (texture_manager s)
             \<or> border \<noteq> 0 then
            Some (tex_error GL_INVALID_VALUE ''glCopyTexImage2D: dimensions out of range'' s)
          else if channels_missing (t_read_format P (driver s)) internal_format then
            Some (tex_error GL_INVALID_OPERATION ''glCopyTexImage2D: incompatible format'' s)
          else do {
            s \<leftarrow> CopyRealGLErrorsToWrapper (t_get_error P) s;
            let s = on_tex_driver (t_begin_resolve P) s;
            let sz = t_read_size P (driver s);
            let s = attached_dirty a s;
            calls \<leftarrow> copy_image_calls target level internal_format x y width height border sz
                       (unpack_alignment_' s);
            s \<leftarrow> (case calls of
                    None \<Rightarrow> Some (tex_error GL_INVALID_VALUE ''glCopyTexImage2D: dimensions too large'' s)
                  | Some cs \<Rightarrow>
                      map_option snd (record_level P a target level internal_format width height border
                        internal_format GL_UNSIGNED_BYTE (tex_gls P cs s)));
            Some (on_tex_driver (t_end_resolve P) s)
          })"

definition DoCopyTexSubImage2D ::
  "'g TexApi \<Rightarrow> GLenum \<Rightarrow> GLint \<Rightarrow> GLint \<Rightarrow> GLint \<Rightarrow> GLint \<Rightarrow> GLint \<Rightarrow> GLsizei \<Rightarrow> GLsizei
    \<Rightarrow> 'g TexDecoder \<Rightarrow> 'g TexDecoder option" where
  "DoCopyTexSubImage2D P target level xoffset yoffset x y width height s =
     (case GetTextureInfoForTarget target s of
        None \<Rightarrow> Some (tex_error GL_INVALID_OPERATION ''glCopyTexSubImage2D: unknown texture for target'' s)
      | Some a \<Rightarrow>
          let bad = Some (tex_error GL_INVALID_VALUE ''glCopyTexSubImage2D: bad dimensions.'' s)
          in case GetLevelType target level (texture_at a s) of
            None \<Rightarrow> bad
          | Some (type, format) \<Rightarrow>
              if \<not> ValidForTexture target level xoffset yoffset width height format type (texture_at a s)
              then bad
              else if channels_missing (t_read_format P (driver s)) format then
                Some (tex_error GL_INVALID_OPERATION ''glCopyTexSubImage2D: incompatible format'' s)
              else do {
                let s = on_tex_driver (t_begin_resolve P) s;
                calls \<leftarrow> copy_sub_image_calls target level xoffset yoffset x y width height format type
                           (t_read_size P (driver s)) (unpack_alignment_' s);
                Some (on_tex_driver (t_end_resolve P)
                  (case calls of
                     None \<Rightarrow> tex_error GL_INVALID_VALUE ''glCopyTexSubImage2D: dimensions too large'' s
                   | Some cs \<Rightarrow> tex_gls P cs s))
              })"

definition HandleCopyTexImage2D where
  "HandleCopyTexImage2D P target level internalformat x y width height border s =
     (let V = validators_' (texture_features s); fail = (\<lambda>e msg. Some (kNoError, tex_error e msg s))
      in if \<not> IsValid target (v_texture_target V) then
           fail GL_INVALID_ENUM ''glCopyTexImage2D: target GL_INVALID_ENUM''
         else if \<not> IsValid internalformat (v_texture_internal_format V) then
           fail GL_INVALID_ENUM ''glCopyTexImage2D: internalformat GL_INVALID_ENUM''
         else if sint width < 0 then fail GL_INVALID_VALUE ''glCopyTexImage2D: width < 0''
         else if sint height < 0 then fail GL_INVALID_VALUE ''glCopyTexImage2D: height < 0''
         else if \<not> IsValid border (v_texture_border V) then
           fail GL_INVALID_VALUE ''glCopyTexImage2D: border GL_INVALID_VALUE''
         else map_option (Pair kNoError)
           (DoCopyTexImage2D P target level internalformat x y width height border s))"

definition HandleCopyTexSubImage2D where
  "HandleCopyTexSubImage2D P target level xoffset yoffset x y width height s =
     (let V = validators_' (texture_features s); fail = (\<lambda>e msg. Some (kNoError, tex_error e msg s))
      in if \<not> IsValid target (v_texture_target V) then
           fail GL_INVALID_ENUM ''glCopyTexSubImage2D: target GL_INVALID_ENUM''
         else if sint width < 0 then fail GL_INVALID_VALUE ''glCopyTexSubImage2D: width < 0''
         else if sint height < 0 then fail GL_INVALID_VALUE ''glCopyTexSubImage2D: height < 0''
         else map_option (Pair kNoError)
           (DoCopyTexSubImage2D P target level xoffset yoffset x y width height s))"

section \<open>Alignment of rows\<close>

definition HandlePixelStorei :: "'g TexApi \<Rightarrow> GLenum \<Rightarrow> GLint \<Rightarrow> 'g TexDecoder \<Rightarrow> Error \<times> 'g TexDecoder" where
  "HandlePixelStorei P pname param s =
     (if \<not> IsValid pname (v_pixel_store (validators_' (texture_features s))) then
        (kNoError, tex_error GL_INVALID_ENUM ''glPixelStorei: pname GL_INVALID_ENUM'' s)
      else if \<not> IsValid param (v_pixel_store_alignment (validators_' (texture_features s))) then
        (kNoError, tex_error GL_INVALID_VALUE ''glPixelSTore: param GL_INVALID_VALUE'' s)
      else let s = tex_gl P (glPixelStorei pname param) s
           in (kNoError,
               if pname = GL_PACK_ALIGNMENT then s\<lparr>pack_alignment_' := param\<rparr>
               else if pname = GL_UNPACK_ALIGNMENT then s\<lparr>unpack_alignment_' := param\<rparr>
               else s))"

section \<open>Stream textures\<close>

text \<open>\<^verbatim>\<open>result\<close> is dereferenced without a test. The second component is the value stored there last.\<close>

definition HandleCreateStreamTextureCHROMIUM ::
  "'g TexApi \<Rightarrow> 'a decoder_world_scheme \<Rightarrow> GLuint \<Rightarrow> uint32 \<Rightarrow> uint32 \<Rightarrow> 'g TexDecoder
    \<Rightarrow> (Error \<times> GLuint option \<times> 'g TexDecoder) option" where
  "HandleCreateStreamTextureCHROMIUM P w client_id shm_id shm_offset s =
     (if \<not> chromium_stream_texture (texture_features s) then
        Some (kNoError, None, tex_error GL_INVALID_OPERATION ''glOpenStreamTextureCHROMIUM: not supported.'' s)
      else case GetSharedMemoryAs w shm_id shm_offset 4 of
        None \<Rightarrow> None
      | Some _ \<Rightarrow>
          (case GetTextureInfo client_id (texture_manager s) of
             None \<Rightarrow> Some (kNoError, Some 0,
               tex_error GL_INVALID_VALUE ''glCreateStreamTextureCHROMIUM: bad texture id.'' s)
           | Some a \<Rightarrow>
               if IsStreamTexture (texture_at a s) then
                 Some (kNoError, Some 0, tex_error GL_INVALID_OPERATION
                   ''glCreateStreamTextureCHROMIUM: is already a stream texture.'' s)
               else if tex_target_' (texture_at a s) \<noteq> 0
                   \<and> tex_target_' (texture_at a s) \<noteq> GL_TEXTURE_EXTERNAL_OES then
                 Some (kNoError, Some 0, tex_error GL_INVALID_OPERATION
                   ''glCreateStreamTextureCHROMIUM: is already bound to incompatible target.'' s)
               else if \<not> t_has_streams P then Some (kInvalidArguments, Some 0, s)
               else
                 let (object_id, d) = t_create_stream P (tex_service_id_' (texture_at a s)) client_id (driver s);
                     s = s\<lparr>driver := d\<rparr>
                 in Some (kNoError, Some object_id,
                      if object_id \<noteq> 0 then
                        s\<lparr>texture_manager := change_object a (SetStreamTexture True) (texture_manager s)\<rparr>
                      else tex_error GL_OUT_OF_MEMORY
                        ''glCreateStreamTextureCHROMIUM: failed to create platform texture.'' s)))"

definition HandleDestroyStreamTextureCHROMIUM ::
  "'g TexApi \<Rightarrow> GLuint \<Rightarrow> 'g TexDecoder \<Rightarrow> Error \<times> 'g TexDecoder" where
  "HandleDestroyStreamTextureCHROMIUM P client_id s =
     (let fail = (kNoError,
            tex_error GL_INVALID_VALUE ''glDestroyStreamTextureCHROMIUM: bad texture id.'' s)
      in case GetTextureInfo client_id (texture_manager s) of
           None \<Rightarrow> fail
         | Some a \<Rightarrow>
             if \<not> IsStreamTexture (texture_at a s) then fail
             else if \<not> t_has_streams P then (kInvalidArguments, s)
             else
               let s = on_tex_driver (t_destroy_stream P (tex_service_id_' (texture_at a s))) s;
                   m = change_object a (SetStreamTexture False) (texture_manager s)
               in (kNoError, s\<lparr>texture_manager := SetInfoTarget (texture_features s) a 0 m\<rparr>))"

section \<open>Textures that cannot be rendered\<close>

text \<open>A draw call binds the black texture to every unit a sampler of the program uses whose texture
  cannot be rendered, and puts the client's textures back afterwards. \<open>samplers\<close> are the type and the
  units of the sampler uniforms of the current program.\<close>

definition GetBindTargetForSamplerType :: "GLenum \<Rightarrow> GLenum" where
  "GetBindTargetForSamplerType type =
     (if type = GL_SAMPLER_2D then GL_TEXTURE_2D
      else if type = GL_SAMPLER_EXTERNAL_OES then GL_TEXTURE_EXTERNAL_OES
      else GL_TEXTURE_CUBE_MAP)"

definition sampler_uses :: "(GLenum \<times> GLuint list) list \<Rightarrow> (GLenum \<times> GLuint) list" where
  "sampler_uses samplers = concat (map (\<lambda>(type, units). map (Pair type) units) samplers)"

definition cannot_render :: "nat option \<Rightarrow> 'g TexDecoder \<Rightarrow> bool" where
  "cannot_render info s =
     (case info of None \<Rightarrow> True | Some a \<Rightarrow> \<not> CanRender (texture_features s) (texture_at a s))"

definition needs_black :: "'g TexDecoder \<Rightarrow> GLenum \<times> GLuint \<Rightarrow> bool" where
  "needs_black s = (\<lambda>(type, i).
     i < group_max_texture_units s
     \<and> cannot_render (GetInfoForSamplerType type (texture_units_' s ! unat i)) s)"

definition set_black :: "'g TexDecoder \<Rightarrow> GLenum \<times> GLuint \<Rightarrow> tex_call list" where
  "set_black s = (\<lambda>(type, i).
     [glActiveTexture (GL_TEXTURE0 + i),
      glBindTexture (GetBindTargetForSamplerType type) (black_texture_id type (texture_manager s))])"

definition SetBlackTextureForNonRenderableTextures ::
  "'g TexApi \<Rightarrow> (GLenum \<times> GLuint list) list \<Rightarrow> 'g TexDecoder \<Rightarrow> bool \<times> 'g TexDecoder" where
  "SetBlackTextureForNonRenderableTextures P samplers s =
     (if \<not> HaveUnrenderableTextures (texture_manager s) then (False, s)
      else let uses = filter (needs_black s) (sampler_uses samplers)
           in (uses \<noteq> [], tex_gls P (concat (map (set_black s) uses)) s))"

definition restored_texture :: "GLenum \<Rightarrow> TextureUnit \<Rightarrow> nat option" where
  "restored_texture type u = (if type = GL_SAMPLER_2D then bound_texture_2d u else bound_texture_cube_map u)"

definition needs_restore :: "'g TexDecoder \<Rightarrow> GLenum \<times> GLuint \<Rightarrow> bool" where
  "needs_restore s = (\<lambda>(type, i).
     i < group_max_texture_units s \<and> cannot_render (restored_texture type (texture_units_' s ! unat i)) s)"

definition restore_unit :: "'g TexDecoder \<Rightarrow> GLenum \<times> GLuint \<Rightarrow> tex_call list" where
  "restore_unit s = (\<lambda>(type, i).
     let u = texture_units_' s ! unat i;
         info = (if unit_bind_target u = GL_TEXTURE_2D then bound_texture_2d u else bound_texture_cube_map u)
     in [glActiveTexture (GL_TEXTURE0 + i),
         glBindTexture (unit_bind_target u)
           (case info of None \<Rightarrow> 0 | Some a \<Rightarrow> tex_service_id_' (texture_at a s))])"

definition RestoreStateForNonRenderableTextures ::
  "'g TexApi \<Rightarrow> (GLenum \<times> GLuint list) list \<Rightarrow> 'g TexDecoder \<Rightarrow> 'g TexDecoder" where
  "RestoreStateForNonRenderableTextures P samplers s =
     tex_gls P (concat (map (restore_unit s) (filter (needs_restore s) (sampler_uses samplers)))
                @ [glActiveTexture (GL_TEXTURE0 + active_texture_unit_' s)]) s"

section \<open>Initialisation of the units\<close>

definition init_unit :: "nat \<Rightarrow> nat \<Rightarrow> nat option \<Rightarrow> TextureUnit" where
  "init_unit t2d cube ext =
     \<lparr>unit_bind_target = GL_TEXTURE_2D, bound_texture_2d = Some t2d, bound_texture_cube_map = Some cube,
      bound_texture_external_oes = ext\<rparr>"

definition init_unit_calls :: "'g TexDecoder \<Rightarrow> nat \<Rightarrow> nat \<Rightarrow> nat option \<Rightarrow> nat \<Rightarrow> tex_call list" where
  "init_unit_calls s t2d cube ext tt =
     [glActiveTexture (GL_TEXTURE0 + word_of_nat tt)]
     @ (case ext of None \<Rightarrow> []
        | Some e \<Rightarrow> [glBindTexture GL_TEXTURE_EXTERNAL_OES (tex_service_id_' (texture_at e s))])
     @ [glBindTexture GL_TEXTURE_CUBE_MAP (tex_service_id_' (texture_at cube s)),
        glBindTexture GL_TEXTURE_2D (tex_service_id_' (texture_at t2d s))]"

definition init_texture_units :: "'g TexApi \<Rightarrow> 'g TexDecoder \<Rightarrow> 'g TexDecoder option" where
  "init_texture_units P s = do {
     let m = texture_manager s;
     let n = unat (group_max_texture_units s);
     ext \<leftarrow> (if oes_egl_image_external (texture_features s)
             then map_option Some (GetDefaultTextureInfo GL_TEXTURE_EXTERNAL_OES m) else Some None);
     cube \<leftarrow> GetDefaultTextureInfo GL_TEXTURE_CUBE_MAP m;
     t2d \<leftarrow> GetDefaultTextureInfo GL_TEXTURE_2D m;
     Some (tex_gls P (concat (map (init_unit_calls s t2d cube ext) [0..<n]) @ [glActiveTexture GL_TEXTURE0])
             (s\<lparr>texture_units_' := replicate n (init_unit t2d cube ext)\<rparr>))
   }"

end
