(* ===== verification/Texture_Decoder.thy ===== *)
theory Texture_Decoder
  imports Texture_Commands
begin

text \<open>
  The texture commands over all sequences, on any GL that reports errors as specified: every command
  returns, uses the texture manager by the contract of \<open>Texture_Steps\<close>, and keeps the bindings of the
  texture units consistent with the targets of the textures.

  Left out are \<^verbatim>\<open>DestroyStreamTextureCHROMIUM\<close>, which sets the target of a texture a second time, and
  the arguments for which the code breaks: ids given twice to \<^verbatim>\<open>GenTextures\<close>, a negative size of a
  compressed image without data, and \<^verbatim>\<open>CreateStreamTextureCHROMIUM\<close> without memory for its result.
\<close>

section \<open>Invariant\<close>

definition points_to :: "TextureManager \<Rightarrow> GLenum \<Rightarrow> nat option \<Rightarrow> bool" where
  "points_to m target p \<longleftrightarrow>
     (case p of None \<Rightarrow> True | Some a \<Rightarrow> a < length (tex_objects m) \<and> tex_target_' (tex_objects m ! a) = target)"

definition unit_ok :: "TextureManager \<Rightarrow> TextureUnit \<Rightarrow> bool" where
  "unit_ok m u \<longleftrightarrow>
     points_to m GL_TEXTURE_2D (bound_texture_2d u) \<and> points_to m GL_TEXTURE_CUBE_MAP (bound_texture_cube_map u)
     \<and> points_to m GL_TEXTURE_EXTERNAL_OES (bound_texture_external_oes u)"

definition defaults_ok :: "FeatureInfo \<Rightarrow> TextureManager \<Rightarrow> bool" where
  "defaults_ok F m \<longleftrightarrow>
     (\<forall>target\<in>set (v_texture_bind_target (validators_' F)).
        target \<in> {GL_TEXTURE_2D, GL_TEXTURE_CUBE_MAP, GL_TEXTURE_EXTERNAL_OES}
        \<and> GetDefaultTextureInfo target m \<noteq> None)
     \<and> set (v_texture_target (validators_' F)) \<subseteq> insert GL_TEXTURE_2D (set cube_faces)
     \<and> set (v_pixel_store_alignment (validators_' F)) \<subseteq> {1, 2, 4, 8}"

definition units_ok :: "'g TexDecoder \<Rightarrow> bool" where
  "units_ok s \<longleftrightarrow>
     length (texture_units_' s) = unat (group_max_texture_units s)
     \<and> active_texture_unit_' s < group_max_texture_units s
     \<and> (\<forall>u\<in>set (texture_units_' s). unit_ok (texture_manager s) u)"

definition alignments_ok :: "'g TexDecoder \<Rightarrow> bool" where
  "alignments_ok s \<longleftrightarrow> pack_alignment_' s \<in> {1, 2, 4, 8} \<and> unpack_alignment_' s \<in> {1, 2, 4, 8}"

definition tex_decoder_ok :: "'g TexDecoder \<Rightarrow> bool" where
  "tex_decoder_ok s \<longleftrightarrow>
     tex_reachable (texture_features s) (texture_manager s)
     \<and> defaults_ok (texture_features s) (texture_manager s) \<and> units_ok s \<and> alignments_ok s"

text \<open>A step of the manager keeps its objects and their targets, and the default textures.\<close>

definition tex_grows :: "TextureManager \<Rightarrow> TextureManager \<Rightarrow> bool" where
  "tex_grows m m' \<longleftrightarrow>
     length (tex_objects m) \<le> length (tex_objects m')
     \<and> (\<forall>a < length (tex_objects m). tex_target_' (tex_objects m ! a) \<noteq> 0 \<longrightarrow>
          tex_target_' (tex_objects m' ! a) = tex_target_' (tex_objects m ! a))
     \<and> (\<forall>target. GetDefaultTextureInfo target m' = GetDefaultTextureInfo target m)"

lemma grows_refl [simp, intro]: "tex_grows m m"
  by (simp add: tex_grows_def)

lemma grows_trans: "tex_grows m m' \<Longrightarrow> tex_grows m' m'' \<Longrightarrow> tex_grows m m''"
  unfolding tex_grows_def by (metis order_trans order_less_le_trans)

lemma grows_update:
  assumes "tex_objects m' = (tex_objects m)[a := t]"
    and "tex_target_' (tex_objects m ! a) \<noteq> 0 \<Longrightarrow> tex_target_' t = tex_target_' (tex_objects m ! a)"
    and "\<And>target. GetDefaultTextureInfo target m' = GetDefaultTextureInfo target m"
  shows "tex_grows m m'"
proof -
  have "tex_target_' (tex_objects m' ! b) = tex_target_' (tex_objects m ! b)"
    if "b < length (tex_objects m)" "tex_target_' (tex_objects m ! b) \<noteq> 0" for b
    using that assms(1,2) by (cases "b = a") simp_all
  then show ?thesis using assms(1,3) by (simp add: tex_grows_def)
qed

lemma grows_replace:
  assumes "tex_target_' (tex_objects m ! a) \<noteq> 0 \<Longrightarrow> tex_target_' t = tex_target_' (tex_objects m ! a)"
  shows "tex_grows m (replace_counted F a t m)"
  by (rule grows_update [OF replace_counted_fields(9) assms]) (simp_all add: GetDefaultTextureInfo_def)

lemma Update_target: "Texture_Update F t = Some t' \<Longrightarrow> tex_target_' t' = tex_target_' t"
  by (auto simp: Texture_Update_def split: if_splits bind_splits option.splits)

lemma SetLevelInfo_target:
  "Texture_SetLevelInfo F target level ifmt w h d b fmt ty t = Some t' \<Longrightarrow> tex_target_' t' = tex_target_' t"
  using Update_target by (fastforce simp: Texture_SetLevelInfo_def Let_def split: if_splits)

lemma SetParameter_target:
  "Texture_SetParameter F pname param t = Some (b, t') \<Longrightarrow> tex_target_' t' = tex_target_' t"
  by (auto simp: Texture_SetParameter_def set_parameter_def split: option.splits if_splits dest!: Update_target)

lemma mips_of_face_target:
  "mips_of_face F target l k n w h d t = Some t' \<Longrightarrow> tex_target_' t' = tex_target_' t"
  by (induction F target l k n w h d t rule: mips_of_face.induct)
    (auto simp: Let_def dest: SetLevelInfo_target split: bind_splits)

lemma mips_of_faces_target: "mips_of_faces F is t = Some t' \<Longrightarrow> tex_target_' t' = tex_target_' t"
  by (induction F "is" t rule: mips_of_faces.induct)
    (auto split: list.splits bind_splits dest: mips_of_face_target)

lemma MarkMipmapsGenerated_target:
  "Texture_MarkMipmapsGenerated F t = Some (b, t') \<Longrightarrow> tex_target_' t' = tex_target_' t"
  by (auto simp: Texture_MarkMipmapsGenerated_def split: bind_splits if_splits dest: mips_of_faces_target)

lemma tex_step_grows: "tex_step F m m' \<Longrightarrow> tex_grows m m'"
proof (induction rule: tex_step.induct)
  case (create c m s)
  then show ?case
    by (auto simp: tex_grows_def CreateTextureInfo_def Let_def nth_append GetDefaultTextureInfo_def)
next
  case (remove m c)
  then show ?case
    by (auto simp: RemoveTextureInfo_def Texture_MarkAsDeleted_def GetDefaultTextureInfo_def
        intro: grows_update split: option.split)
next
  case (set_target a m target)
  then show ?case unfolding SetInfoTarget_def by (intro grows_replace) simp
next
  case (set_level a m target level w h ifmt border fmt ty m')
  then show ?case
    by (auto simp: Manager_SetLevelInfo_def intro!: grows_replace dest: SetLevelInfo_target)
next
  case (set_parameter a m pname param b m')
  then show ?case
    by (auto simp: Manager_SetParameter_def intro!: grows_replace dest: SetParameter_target)
next
  case (generate a m b m')
  then show ?case
    by (auto simp: Manager_MarkMipmapsGenerated_def intro!: grows_replace dest: MarkMipmapsGenerated_target)
next
  case (flag a m f)
  then show ?case
    by (intro grows_update [of _ _ a "f (tex_objects m ! a)"])
      (auto simp: change_object_def flag_change_def SetNotOwned_def AttachToFramebuffer_def
        DetachFromFramebuffer_def SetStreamTexture_def GetDefaultTextureInfo_def)
qed

lemma points_to_grows:
  "points_to m target p \<Longrightarrow> tex_grows m m' \<Longrightarrow> target \<noteq> 0 \<Longrightarrow> points_to m' target p"
  by (auto simp: points_to_def tex_grows_def split: option.splits)

lemma unit_ok_grows: "unit_ok m u \<Longrightarrow> tex_grows m m' \<Longrightarrow> unit_ok m' u"
  unfolding unit_ok_def using points_to_grows by auto

lemma manager_step:
  assumes "tex_decoder_ok s" "tex_step (texture_features s) (texture_manager s) m"
  shows "tex_decoder_ok (s\<lparr>texture_manager := m\<rparr>)"
proof -
  note g = tex_step_grows [OF assms(2)]
  have "tex_reachable (texture_features s) (texture_manager s)" using assms(1) by (simp add: tex_decoder_ok_def)
  then have "tex_reachable (texture_features s) m" by (rule tex_reachable.step [OF _ assms(2)])
  moreover have "defaults_ok (texture_features s) m"
    using assms(1) g by (simp add: tex_decoder_ok_def defaults_ok_def tex_grows_def)
  moreover have "units_ok (s\<lparr>texture_manager := m\<rparr>)"
    using assms(1) unit_ok_grows [OF _ g] by (simp add: tex_decoder_ok_def units_ok_def)
  ultimately show ?thesis using assms(1) by (simp add: tex_decoder_ok_def alignments_ok_def)
qed

text \<open>What the invariant reads.\<close>

definition same_textures :: "'g TexDecoder \<Rightarrow> 'g TexDecoder \<Rightarrow> bool" where
  "same_textures s s' \<longleftrightarrow>
     texture_manager s' = texture_manager s \<and> texture_features s' = texture_features s
     \<and> group_max_texture_units s' = group_max_texture_units s \<and> texture_units_' s' = texture_units_' s
     \<and> active_texture_unit_' s' = active_texture_unit_' s \<and> pack_alignment_' s' = pack_alignment_' s
     \<and> unpack_alignment_' s' = unpack_alignment_' s"

lemma same_textures_ok: "same_textures s s' \<Longrightarrow> tex_decoder_ok s' = tex_decoder_ok s"
  by (auto simp: same_textures_def tex_decoder_ok_def units_ok_def alignments_ok_def)

lemma alignment_not_zero: "tex_decoder_ok s \<Longrightarrow> unpack_alignment_' s \<noteq> 0"
  by (auto simp: tex_decoder_ok_def alignments_ok_def)

lemma default_live: "GetDefaultTextureInfo target m = Some a \<Longrightarrow> a \<in> set (live_textures m)"
  by (auto simp: GetDefaultTextureInfo_def live_textures_def default_textures_def List.map_filter_def
      split: if_splits)

section \<open>The contract of GL\<close>

locale tex_api =
  fixes P :: "'g TexApi" and pending_errors :: "'g \<Rightarrow> GLenum list" and ok :: "'g \<Rightarrow> bool"
  assumes errors: "gl_error_source (t_get_error P) pending_errors ok"
    and call_ok: "ok d \<Longrightarrow> ok (t_call P c d)"
    and gen_ok: "ok d \<Longrightarrow> ok (snd (t_gen_textures P n d))"
    and resolve_ok: "ok d \<Longrightarrow> ok (t_begin_resolve P d)" "ok d \<Longrightarrow> ok (t_end_resolve P d)"
    and stream_ok: "ok d \<Longrightarrow> ok (snd (t_create_stream P i j d))" "ok d \<Longrightarrow> ok (t_destroy_stream P i d)"
      "ok d \<Longrightarrow> ok (t_update_stream P i d)"

sublocale tex_api \<subseteq> source: gl_error_source "t_get_error P" pending_errors ok
  by (rule errors)

context tex_api
begin

definition inv :: "'g TexDecoder \<Rightarrow> bool" where
  "inv s \<longleftrightarrow> tex_decoder_ok s \<and> ok (driver s)"

definition quiet :: "'g TexDecoder \<Rightarrow> 'g TexDecoder \<Rightarrow> bool" where
  "quiet s s' \<longleftrightarrow> same_textures s s' \<and> (ok (driver s) \<longrightarrow> ok (driver s'))"

lemma quiet_refl [simp, intro]: "quiet s s"
  by (simp add: quiet_def same_textures_def)

lemma quiet_trans [trans]: "quiet s t \<Longrightarrow> quiet t u \<Longrightarrow> quiet s u"
  by (simp add: quiet_def same_textures_def)

lemma quiet_inv: "quiet s s' \<Longrightarrow> inv s \<Longrightarrow> inv s'"
  unfolding inv_def quiet_def using same_textures_ok by blast

lemma quiet_gl [simp, intro]: "quiet s (tex_gl P c s)"
  by (simp add: quiet_def same_textures_def tex_gl_def call_ok)

lemma quiet_gls [simp, intro]: "quiet s (tex_gls P cs s)"
proof (induction cs arbitrary: s)
  case (Cons c cs)
  have "tex_gls P (c # cs) s = tex_gls P cs (tex_gl P c s)" by (simp add: tex_gls_def)
  then show ?case using quiet_trans [OF quiet_gl Cons] by simp
qed (simp add: tex_gls_def)

lemma quiet_error [simp, intro]: "quiet s (tex_error e msg s)"
  by (simp add: quiet_def same_textures_def tex_error_def Service_SetGLError_def)

lemma quiet_driver [intro]: "(\<And>d. ok d \<Longrightarrow> ok (f d)) \<Longrightarrow> quiet s (on_tex_driver f s)"
  by (simp add: quiet_def same_textures_def on_tex_driver_def)

lemma quiet_fields [simp]:
  "quiet s (s\<lparr>state_dirty_' := b\<rparr>)" "quiet s (s\<lparr>tex_image_2d_failed_' := b\<rparr>)"
  "quiet s (s\<lparr>texture_ids := i\<rparr>)"
  by (simp_all add: quiet_def same_textures_def)

lemma quiet_dirty [simp, intro]: "quiet s (attached_dirty a s)"
  by (simp add: attached_dirty_def)

lemma quiet_copy:
  assumes "ok (driver s)"
  obtains s' where "CopyRealGLErrorsToWrapper (t_get_error P) s = Some s'" "quiet s s'"
    "tex_issued s' = tex_issued s"
proof -
  obtain d where d: "CopyRealGLErrorsToWrapper (t_get_error P) s = Some (s\<lparr>driver := d,
      error_bits_' := fold set_error_bit (pending_errors (driver s)) (error_bits_' s)\<rparr>)" "ok d"
    using source.copy_errors [OF assms] by blast
  then show ?thesis by (intro that [OF d(1)]) (simp_all add: quiet_def same_textures_def)
qed

lemma quiet_peek: "quiet s (snd (PeekGLError (t_get_error P) s))"
  by (auto simp: PeekGLError_def quiet_def same_textures_def Service_SetGLError_def split_beta Let_def
      source.report_ok)

lemma inv_manager:
  "inv s \<Longrightarrow> tex_step (texture_features s) (texture_manager s) m \<Longrightarrow> inv (s\<lparr>texture_manager := m\<rparr>)"
  by (simp add: inv_def manager_step)

lemma inv_lookup:
  assumes "inv s" "GetTextureInfo i (texture_manager s) = Some a"
  shows "a < length (tex_objects (texture_manager s))" "\<not> deleted_' (texture_at a s)"
proof -
  have ok: "textures_ok (texture_features s) (texture_manager s)"
    using assms(1) by (simp add: inv_def tex_decoder_ok_def tex_reachable_ok)
  have "a \<in> set (live_textures (texture_manager s))"
    using assms(2) map_of_SomeD by (force simp: GetTextureInfo_def live_textures_def)
  then show "a < length (tex_objects (texture_manager s))" "\<not> deleted_' (texture_at a s)"
    using ok by (auto simp: textures_ok_def)
qed

lemma decoder_lookup:
  assumes "inv s"
  shows "Decoder_GetTextureInfo i s = GetTextureInfo i (texture_manager s)"
  using inv_lookup [OF assms] by (auto simp: Decoder_GetTextureInfo_def split: option.split)

lemma inv_driver: "inv s \<Longrightarrow> ok d \<Longrightarrow> inv (s\<lparr>driver := d\<rparr>)"
  by (rule quiet_inv [of s]) (simp_all add: quiet_def same_textures_def)

lemma inv_create:
  assumes "inv s" "GetTextureInfo i (texture_manager s) = None"
  shows "inv (Decoder_CreateTextureInfo i sid s)"
  unfolding Decoder_CreateTextureInfo_def by (rule inv_manager [OF assms(1) create [OF assms(2)]])

lemma create_lookup:
  assumes "GetTextureInfo i (texture_manager s) = None"
  shows "GetTextureInfo j (texture_manager (Decoder_CreateTextureInfo i sid s)) =
    (if j = i then Some (length (tex_objects (texture_manager s))) else GetTextureInfo j (texture_manager s))"
  using assms by (simp add: Decoder_CreateTextureInfo_def CreateTextureInfo_def GetTextureInfo_def Let_def)

lemma create_all:
  assumes "inv s" "distinct (map fst ps)" "\<forall>p\<in>set ps. GetTextureInfo (fst p) (texture_manager s) = None"
  shows "inv (fold (\<lambda>(i, sid). Decoder_CreateTextureInfo i sid) ps s)"
  using assms
proof (induction ps arbitrary: s)
  case (Cons p ps)
  obtain i sid where p: "p = (i, sid)" by (cases p)
  have none: "GetTextureInfo i (texture_manager s) = None" using Cons.prems(3) p by simp
  have "\<forall>q\<in>set ps. fst q \<noteq> i" using Cons.prems(2) p by force
  then have "inv (fold (\<lambda>(i, sid). Decoder_CreateTextureInfo i sid) ps (Decoder_CreateTextureInfo i sid s))"
    using Cons.prems inv_create [OF Cons.prems(1) none]
    by (intro Cons.IH) (auto simp: create_lookup [OF none])
  then show ?case by (simp add: p)
qed simp

lemma GenTexturesHelper_inv:
  assumes "inv s" "distinct ids"
  shows "inv (snd (GenTexturesHelper P ids s))"
proof (cases "list_ex (\<lambda>i. Decoder_GetTextureInfo i s \<noteq> None) ids")
  case True
  then show ?thesis using assms(1) by (simp add: GenTexturesHelper_def)
next
  case False
  obtain sids d where gen: "t_gen_textures P (length ids) (driver s) = (sids, d)" by fastforce
  have "ok d" using gen_ok [of "driver s" "length ids"] assms(1) gen by (simp add: inv_def)
  then have s: "inv (s\<lparr>driver := d\<rparr>)" using inv_driver assms(1) by blast
  have none: "\<forall>i\<in>set ids. GetTextureInfo i (texture_manager s) = None"
    using False decoder_lookup [OF assms(1)] by (auto simp: list_ex_iff)
  have "map fst (zip ids sids) = take (length sids) ids"
    by (simp add: map_fst_zip_take min_def)
  then have "distinct (map fst (zip ids sids))" using assms(2) by simp
  moreover have "\<forall>p\<in>set (zip ids sids). GetTextureInfo (fst p) (texture_manager (s\<lparr>driver := d\<rparr>)) = None"
    using none by (auto dest: set_zip_leftD)
  ultimately show ?thesis
    using create_all [OF s] False by (simp add: GenTexturesHelper_def gen)
qed

lemma inv_remove: "inv s \<Longrightarrow> inv (s\<lparr>texture_manager := RemoveTextureInfo (texture_features s) i (texture_manager s)\<rparr>)"
  by (rule inv_manager [OF _ remove])

lemma quiet_delete: "quiet s s' \<Longrightarrow> inv s \<Longrightarrow>
    inv (s'\<lparr>texture_manager := RemoveTextureInfo (texture_features s') i (texture_manager s')\<rparr>)"
  using quiet_inv inv_remove by blast

lemma delete_texture_inv: "inv s \<Longrightarrow> inv (delete_texture P i a s)"
  unfolding delete_texture_def Let_def
  by (intro quiet_delete [of s] quiet_trans [OF _ quiet_gl])
    (auto intro!: quiet_trans [OF _ quiet_driver] stream_ok quiet_driver)

lemma DeleteTexturesHelper_inv: "inv s \<Longrightarrow> inv (DeleteTexturesHelper P ids s)"
  by (induction ids arbitrary: s) (auto intro: delete_texture_inv split: option.split)

lemma handle_ids_inv:
  assumes "inv s" "\<And>bytes. data (n * 4) = Some bytes \<Longrightarrow> inv (snd (f (words_of_bytes bytes) s))"
  shows "inv (snd (handle_ids n data f s))"
  using assms by (auto simp: handle_ids_def SafeMultiplyUint32_def SafeMultiply_exact split: option.split)

lemma gen_textures_inv: "inv s \<Longrightarrow> distinct ids \<Longrightarrow> inv (snd (gen_textures P ids s))"
  using GenTexturesHelper_inv by (simp add: gen_textures_def split_beta Let_def)

lemma delete_textures_inv: "inv s \<Longrightarrow> inv (snd (delete_textures P ids s))"
  by (simp add: delete_textures_def DeleteTexturesHelper_inv)

subsection \<open>Binding\<close>

lemma DoActiveTexture_inv: "inv s \<Longrightarrow> inv (DoActiveTexture P u s)"
proof -
  assume s: "inv s"
  let ?s = "s\<lparr>active_texture_unit_' := u - GL_TEXTURE0\<rparr>"
  have "inv ?s" if "u - GL_TEXTURE0 < group_max_texture_units s"
    using s that by (simp add: inv_def tex_decoder_ok_def units_ok_def alignments_ok_def)
  then show ?thesis
    using s quiet_inv [OF quiet_error] quiet_inv [OF quiet_gl]
    by (auto simp: DoActiveTexture_def Let_def not_le)
qed

lemma inv_active:
  assumes "inv s"
  shows "active_unit s \<in> set (texture_units_' s)" "unit_ok (texture_manager s) (active_unit s)"
proof -
  have "unat (active_texture_unit_' s) < length (texture_units_' s)"
    using assms by (simp add: inv_def tex_decoder_ok_def units_ok_def word_less_nat_alt)
  then show "active_unit s \<in> set (texture_units_' s)" by simp
  then show "unit_ok (texture_manager s) (active_unit s)"
    using assms by (simp add: inv_def tex_decoder_ok_def units_ok_def)
qed

lemma inv_update_active:
  assumes "inv s" "unit_ok (texture_manager s) (f (active_unit s))"
  shows "inv (update_active f s)"
proof -
  have "unit_ok (texture_manager s) u" if "u \<in> set (texture_units_' (update_active f s))" for u
    using that set_update_subset_insert assms
    by (fastforce simp: update_active_def inv_def tex_decoder_ok_def units_ok_def)
  then show ?thesis
    using assms(1) by (simp add: inv_def tex_decoder_ok_def units_ok_def alignments_ok_def update_active_def)
qed

lemma bind_in_unit_ok:
  assumes "unit_ok m u" "points_to m target (Some a)"
    "target \<in> {GL_TEXTURE_2D, GL_TEXTURE_CUBE_MAP, GL_TEXTURE_EXTERNAL_OES}"
  shows "unit_ok m (bind_in_unit target a u)"
  using assms by (auto simp: unit_ok_def bind_in_unit_def Let_def)

lemma bind_texture_inv:
  assumes s: "inv s" and a: "a < length (tex_objects (texture_manager s))"
    and target: "target \<in> {GL_TEXTURE_2D, GL_TEXTURE_CUBE_MAP, GL_TEXTURE_EXTERNAL_OES}"
  shows "inv (bind_texture P target a s)"
proof (cases "tex_target_' (texture_at a s) \<noteq> 0 \<and> tex_target_' (texture_at a s) \<noteq> target
    \<or> IsStreamTexture (texture_at a s) \<and> target \<noteq> GL_TEXTURE_EXTERNAL_OES")
  case True
  then show ?thesis using quiet_inv [OF quiet_error s] by (auto simp: bind_texture_def)
next
  case False
  let ?s1 = "if tex_target_' (texture_at a s) = 0
    then s\<lparr>texture_manager := SetInfoTarget (texture_features s) a target (texture_manager s)\<rparr> else s"
  have s1: "inv ?s1" using inv_manager [OF s set_target] a target s by simp
  have bound: "a < length (tex_objects (texture_manager ?s1))" "tex_target_' (texture_at a ?s1) = target"
    using a False by (auto simp: SetInfoTarget_def Texture_SetTarget_def Let_def)
  let ?s2 = "tex_gl P (glBindTexture target (tex_service_id_' (texture_at a ?s1))) ?s1"
  have s2: "inv ?s2" by (rule quiet_inv [OF quiet_gl s1])
  have same: "texture_manager ?s2 = texture_manager ?s1" by (simp add: tex_gl_def)
  have "unit_ok (texture_manager ?s2) (bind_in_unit target a (active_unit ?s2))"
    using bind_in_unit_ok [OF inv_active(2) [OF s2] _ target] bound unfolding same
    by (simp add: points_to_def)
  then have s3: "inv (update_active (bind_in_unit target a) ?s2)" by (rule inv_update_active [OF s2])
  have "inv (on_tex_driver (t_update_stream P sid) (update_active (bind_in_unit target a) ?s2))" for sid
    by (rule quiet_inv [OF quiet_driver s3]) (rule stream_ok)
  then show ?thesis using s3 False by (auto simp: bind_texture_def Let_def)
qed

lemma DoBindTexture_inv:
  assumes s: "inv s" and target: "target \<in> set (v_texture_bind_target (validators_' (texture_features s)))"
  shows "\<exists>s'. DoBindTexture P target i s = Some s' \<and> inv s'"
proof -
  let ?m = "texture_manager s"
  have three: "target \<in> {GL_TEXTURE_2D, GL_TEXTURE_CUBE_MAP, GL_TEXTURE_EXTERNAL_OES}"
    and default: "GetDefaultTextureInfo target ?m \<noteq> None"
    using s target by (auto simp: inv_def tex_decoder_ok_def defaults_ok_def)
  have "textures_ok (texture_features s) ?m"
    using s by (simp add: inv_def tex_decoder_ok_def tex_reachable_ok)
  then have live: "a < length (tex_objects ?m)" if "GetDefaultTextureInfo target ?m = Some a" for a
    using default_live [OF that] by (simp add: textures_ok_def)
  consider "i = 0" | "i \<noteq> 0" "GetTextureInfo i ?m \<noteq> None" | "i \<noteq> 0" "GetTextureInfo i ?m = None"
    by blast
  then show ?thesis
  proof cases
    case 1
    then show ?thesis
      using default live bind_texture_inv [OF s _ three]
      by (auto simp: DoBindTexture_def bind_texture_lookup_def)
  next
    case 2
    then show ?thesis
      using inv_lookup(1) [OF s] bind_texture_inv [OF s _ three]
      by (auto simp: DoBindTexture_def bind_texture_lookup_def decoder_lookup [OF s])
  next
    case 3
    obtain ids d where gen: "t_gen_textures P 1 (driver s) = (ids, d)" by fastforce
    have "ok d" using gen_ok [of "driver s" 1] s gen by (simp add: inv_def)
    then have s0: "inv (s\<lparr>driver := d\<rparr>)" using inv_driver s by blast
    let ?s = "Decoder_CreateTextureInfo i (hd ids) (s\<lparr>driver := d\<rparr>)"
    have none: "GetTextureInfo i (texture_manager (s\<lparr>driver := d\<rparr>)) = None" using 3 by simp
    have s1: "inv ?s" by (rule inv_create [OF s0 none])
    have a: "GetTextureInfo i (texture_manager ?s) = Some (length (tex_objects ?m))"
      using create_lookup [OF none, of i "hd ids"] by simp
    let ?s' = "?s\<lparr>texture_ids := snd (IdAllocator_MarkAsUsed i (texture_ids ?s))\<rparr>"
    have "inv ?s'" by (rule quiet_inv [OF quiet_fields(3) s1])
    then have "inv (bind_texture P target (length (tex_objects ?m)) ?s')"
      using inv_lookup(1) [OF s1 a] three by (intro bind_texture_inv) simp_all
    then show ?thesis
      using 3 gen a quiet_inv [OF quiet_error s]
      by (auto simp: DoBindTexture_def bind_texture_lookup_def decoder_lookup [OF s] decoder_lookup [OF s1] Let_def)
  qed
qed

subsection \<open>Parameters and mipmaps\<close>

lemma for_target:
  assumes "inv s" "GetTextureInfoForTarget target s = Some a"
  shows "a < length (tex_objects (texture_manager s))" "\<not> deleted_' (texture_at a s)"
    "target \<in> insert GL_TEXTURE_2D (set cube_faces) \<Longrightarrow> has_face (tex_target_' (texture_at a s)) target"
proof -
  show "\<not> deleted_' (texture_at a s)"
    using assms(2) by (auto simp: GetTextureInfoForTarget_def Let_def split: option.splits if_splits)
  show "a < length (tex_objects (texture_manager s))"
    using assms(2) inv_active(2) [OF assms(1)]
    by (auto simp: GetTextureInfoForTarget_def unit_ok_def points_to_def Let_def split: option.splits if_splits)
  show "has_face (tex_target_' (texture_at a s)) target" if t: "target \<in> insert GL_TEXTURE_2D (set cube_faces)"
  proof (cases "target = GL_TEXTURE_2D")
    case True
    then show ?thesis
      using assms(2) inv_active(2) [OF assms(1)]
      by (auto simp: GetTextureInfoForTarget_def unit_ok_def points_to_def has_face_def Let_def
          split: option.splits if_splits)
  next
    case False
    then have "target \<in> set cube_faces" using t by simp
    then show ?thesis
      using False assms(2) inv_active(2) [OF assms(1)]
      by (auto simp: GetTextureInfoForTarget_def unit_ok_def points_to_def has_face_def Let_def
          split: option.splits if_splits)
  qed
qed

lemma inv_reachable: "inv s \<Longrightarrow> textures_ok (texture_features s) (texture_manager s)"
  by (simp add: inv_def tex_decoder_ok_def tex_reachable_ok)

lemma DoTexParameter_inv:
  assumes s: "inv s"
  shows "\<exists>s'. DoTexParameter P func call target pname param s = Some s' \<and> inv s'"
proof (cases "GetTextureInfoForTarget target s")
  case None
  then show ?thesis using quiet_inv [OF quiet_error s] by (simp add: DoTexParameter_def)
next
  case (Some a)
  note a = for_target [OF s Some]
  obtain b m where m: "Manager_SetParameter (texture_features s) a pname param (texture_manager s) = Some (b, m)"
    using Manager_SetParameter_ok [OF inv_reachable [OF s] a(1)] by blast
  have "inv (s\<lparr>texture_manager := m\<rparr>)" by (rule inv_manager [OF s set_parameter [OF a(1) m]])
  then show ?thesis
    using Some m quiet_inv [OF quiet_error] quiet_inv [OF quiet_gl] by (simp add: DoTexParameter_def Let_def)
qed

lemma DoGenerateMipmap_inv:
  assumes s: "inv s"
  shows "\<exists>s'. DoGenerateMipmap P target s = Some s' \<and> inv s'"
proof (cases "GetTextureInfoForTarget target s")
  case None
  then show ?thesis using quiet_inv [OF quiet_error s] by (simp add: DoGenerateMipmap_def)
next
  case (Some a)
  note a = for_target [OF s Some]
  obtain b m where m: "Manager_MarkMipmapsGenerated (texture_features s) a (texture_manager s) = Some (b, m)"
    using Manager_MarkMipmapsGenerated_ok [OF inv_reachable [OF s] a(1)] by blast
  have "inv (s\<lparr>texture_manager := m\<rparr>)" by (rule inv_manager [OF s generate [OF a(1) m]])
  then show ?thesis
    using Some m quiet_inv [OF quiet_error] quiet_inv [OF quiet_gls] by (simp add: DoGenerateMipmap_def Let_def)
qed

lemma handle_tex_parameter_inv:
  assumes "inv s" "\<And>s. inv s \<Longrightarrow> \<exists>s'. f s = Some s' \<and> inv s'"
  shows "\<exists>e s'. handle_tex_parameter func target pname f s = Some (e, s') \<and> inv s'"
  using assms(2) [OF assms(1)] quiet_inv [OF quiet_error assms(1)]
  by (auto simp: handle_tex_parameter_def split: option.split)

lemma handle_tex_parameter_v_inv:
  assumes "inv s" "\<And>v s. inv s \<Longrightarrow> \<exists>s'. f v s = Some s' \<and> inv s'"
  shows "\<exists>e s'. handle_tex_parameter_v func target pname data f s = Some (e, s') \<and> inv s'"
proof -
  have f: "\<exists>s'. f (words_of_bytes bytes) s = Some s' \<and> inv s'" for bytes using assms by blast
  show ?thesis
    using f quiet_inv [OF quiet_error assms(1)] assms(1)
    by (auto simp: handle_tex_parameter_v_def split: option.split)
qed

subsection \<open>Uploads\<close>

text \<open>An upload records the level only where the manager allows it.\<close>

lemma record_level_inv:
  assumes s: "inv s" and a: "a < length (tex_objects (texture_manager s))"
    and face: "has_face (tex_target_' (texture_at a s)) target"
    and valid: "ValidForTarget (texture_features s) target level w h 1 (texture_manager s)"
  shows "\<exists>b s'. record_level P a target level ifmt w h border fmt ty s = Some (b, s') \<and> inv s'"
proof -
  let ?s = "snd (PeekGLError (t_get_error P) s)"
  note quiet = quiet_peek [of s]
  have s1: "inv ?s" by (rule quiet_inv [OF quiet s])
  have same: "texture_manager ?s = texture_manager s" "texture_features ?s = texture_features s"
    using quiet by (simp_all add: quiet_def same_textures_def)
  obtain m where m: "Manager_SetLevelInfo (texture_features s) a target level ifmt w h 1 border fmt ty
      (texture_manager s) = Some m"
    using SetLevelInfo_valid [OF inv_reachable [OF s] a face valid] by blast
  have "inv (?s\<lparr>texture_manager := m\<rparr>)"
    by (rule inv_manager [OF s1]) (use set_level [OF a face valid m] same in simp)
  then show ?thesis using s1 m same by (simp add: record_level_def split_beta Let_def ex_bool_eq)
qed

lemma quiet_keeps:
  assumes "quiet s s'"
  shows "texture_manager s' = texture_manager s" "texture_features s' = texture_features s"
  using assms by (simp_all add: quiet_def same_textures_def)

lemma inv_target:
  "inv s \<Longrightarrow> target \<in> set (v_texture_target (validators_' (texture_features s))) \<Longrightarrow>
    target \<in> insert GL_TEXTURE_2D (set cube_faces)"
  by (auto simp: inv_def tex_decoder_ok_def defaults_ok_def)

text \<open>The tail that all uploads share.\<close>

lemma upload_inv:
  assumes s: "inv s" and a: "GetTextureInfoForTarget target s = Some a"
    and target: "target \<in> insert GL_TEXTURE_2D (set cube_faces)"
    and valid: "ValidForTarget (texture_features s) target level w h 1 (texture_manager s)"
    and q: "quiet s t"
  shows "\<exists>b s'. record_level P a target level ifmt w h border fmt ty t = Some (b, s') \<and> inv s'"
  using for_target [OF s a] target valid quiet_keeps [OF q]
  by (intro record_level_inv quiet_inv [OF q s]) simp_all

lemma ComputeImageDataSize_total:
  "unpack_alignment \<noteq> 0 \<Longrightarrow> ComputeImageDataSize w h fmt ty unpack_alignment \<noteq> None"
  by (simp add: ComputeImageDataSize_def Let_def split_beta)

lemma inv_alignment:
  assumes "inv s"
  obtains img where "ComputeImageDataSize w h fmt ty (unpack_alignment_' s) = Some img"
  using ComputeImageDataSize_total alignment_not_zero assms by (fastforce simp: inv_def)

lemma WrappedTexImage2D_quiet [simp, intro]:
  "quiet s (WrappedTexImage2D P target level ifmt w h border fmt ty px s)"
  by (simp add: WrappedTexImage2D_def)

lemma tex_image_error_None:
  "tex_image_error target level ifmt w h border fmt ty s = None \<Longrightarrow>
    target \<in> set (v_texture_target (validators_' (texture_features s)))
    \<and> ValidForTarget (texture_features s) target level w h 1 (texture_manager s)"
  by (auto simp: tex_image_error_def Let_def split: if_splits)

lemma DoTexImage2D_inv:
  assumes s: "inv s"
  shows "\<exists>s'. DoTexImage2D P target level ifmt w h border fmt ty pixels n s = Some s' \<and> inv s'"
proof (cases "tex_image_error target level ifmt w h border fmt ty s")
  case (Some e)
  then show ?thesis using quiet_inv [OF quiet_error s] by (cases e) (simp add: DoTexImage2D_def)
next
  case None
  note valid = tex_image_error_None [OF None]
  show ?thesis
  proof (cases "GetTextureInfoForTarget target s")
    case None
    then show ?thesis
      using \<open>tex_image_error _ _ _ _ _ _ _ _ _ = None\<close> quiet_inv [OF quiet_error s]
      by (simp add: DoTexImage2D_def)
  next
    case (Some a)
    let ?same = "level_is_same target level w h fmt ty (texture_at a s)"
    let ?px = "case pixels of None \<Rightarrow> replicate (unat n) 0 | Some px \<Rightarrow> px"
    let ?t = "attached_dirty a s"
    have t: "quiet s ?t" by (rule quiet_dirty)
    have same_info: "teximage2d_faster_than_texsubimage2d_' ?t = teximage2d_faster_than_texsubimage2d_' s"
      by (simp add: attached_dirty_def)
    obtain u where u: "CopyRealGLErrorsToWrapper (t_get_error P) ?t = Some u" "quiet ?t u"
      using quiet_copy [of ?t] quiet_inv [OF t s] by (auto simp: inv_def)
    let ?v = "WrappedTexImage2D P target level ifmt w h border fmt ty ?px u"
    have v: "quiet s ?v" using t u(2) quiet_trans WrappedTexImage2D_quiet by blast
    obtain b r where r: "record_level P a target level ifmt w h border fmt ty ?v = Some (b, r)" "inv r"
      using upload_inv [OF s Some inv_target [OF s] _ v] valid by blast
    have sub: "inv ((tex_gl P c ?t)\<lparr>tex_image_2d_failed_' := False\<rparr>)" for c
      using quiet_inv [OF quiet_fields(2) quiet_inv [OF quiet_gl quiet_inv [OF t s]]] .
    show ?thesis
      using None Some u(1) r sub quiet_inv [OF quiet_fields(2) s] quiet_inv [OF quiet_fields(2) r(2)]
      by (simp add: DoTexImage2D_def Let_def)
  qed
qed

lemma DoTexSubImage2D_quiet: "quiet s (DoTexSubImage2D P target level x y w h fmt ty data s)"
  by (auto simp: DoTexSubImage2D_def split: option.split)

lemma DoCompressedTexSubImage2D_quiet:
  "quiet s (DoCompressedTexSubImage2D P target level x y w h fmt data s)"
  by (auto simp: DoCompressedTexSubImage2D_def split: option.split)

lemma DoCompressedTexImage2D_inv:
  assumes s: "inv s" and sz: "data \<noteq> None \<or> 0 \<le> sint n"
  shows "\<exists>s'. DoCompressedTexImage2D P target level ifmt w h border n data s = Some s' \<and> inv s'"
proof (cases "target \<in> set (v_texture_target (validators_' (texture_features s)))
    \<and> ValidForTarget (texture_features s) target level w h 1 (texture_manager s)")
  case False
  then show ?thesis using quiet_inv [OF quiet_error s] by (auto simp: DoCompressedTexImage2D_def Let_def)
next
  case valid: True
  show ?thesis
  proof (cases "GetTextureInfoForTarget target s")
    case None
    then show ?thesis using quiet_inv [OF quiet_error s] by (auto simp: DoCompressedTexImage2D_def Let_def)
  next
    case (Some a)
    let ?px = "case data of None \<Rightarrow> replicate (unat n) 0 | Some px \<Rightarrow> px"
    obtain u where u: "CopyRealGLErrorsToWrapper (t_get_error P) s = Some u" "quiet s u"
      using quiet_copy [of s] s by (auto simp: inv_def)
    let ?v = "tex_gl P (glCompressedTexImage2D target level ifmt w h border ?px) u"
    have v: "quiet s ?v" using u(2) quiet_trans quiet_gl by blast
    obtain b r where r: "record_level P a target level ifmt w h border 0 0 ?v = Some (b, r)" "inv r"
      using upload_inv [OF s Some inv_target [OF s] _ v] valid by blast
    show ?thesis
      using Some u(1) r sz quiet_inv [OF quiet_error s]
      by (auto simp: DoCompressedTexImage2D_def Let_def)
  qed
qed

lemma DoCopyTexImage2D_inv:
  assumes s: "inv s" and target: "target \<in> insert GL_TEXTURE_2D (set cube_faces)"
  shows "\<exists>s'. DoCopyTexImage2D P target level ifmt x y w h border s = Some s' \<and> inv s'"
proof (cases "GetTextureInfoForTarget target s")
  case None
  then show ?thesis using quiet_inv [OF quiet_error s] by (simp add: DoCopyTexImage2D_def)
next
  case (Some a)
  show ?thesis
  proof (cases "ValidForTarget (texture_features s) target level w h 1 (texture_manager s)")
    case False
    then show ?thesis using Some quiet_inv [OF quiet_error s] by (simp add: DoCopyTexImage2D_def)
  next
    case valid: True
    obtain u where u: "CopyRealGLErrorsToWrapper (t_get_error P) s = Some u" "quiet s u"
      using quiet_copy [of s] s by (auto simp: inv_def)
    let ?b = "on_tex_driver (t_begin_resolve P) u"
    let ?t = "attached_dirty a ?b"
    have t: "quiet s ?t"
      using quiet_trans [OF u(2) quiet_trans [OF quiet_driver [OF resolve_ok(1)] quiet_dirty]] .
    have end_inv: "inv (on_tex_driver (t_end_resolve P) r)" if "inv r" for r
      by (rule quiet_inv [OF quiet_driver [OF resolve_ok(2)] that])
    have "unpack_alignment_' ?t \<noteq> 0"
      using quiet_inv [OF t s] by (simp add: inv_def alignment_not_zero)
    then have "copy_image_calls target level ifmt x y w h border (t_read_size P (driver ?b)) (unpack_alignment_' ?t) \<noteq> None"
      using ComputeImageDataSize_total by (simp add: copy_image_calls_def split_beta Let_def)
    then obtain calls where calls: "copy_image_calls target level ifmt x y w h border
        (t_read_size P (driver ?b)) (unpack_alignment_' ?t) = Some calls" by blast
    have "\<exists>b r. record_level P a target level ifmt w h border ifmt GL_UNSIGNED_BYTE (tex_gls P cs ?t)
        = Some (b, r) \<and> inv r" for cs
      by (rule upload_inv [OF s Some target valid quiet_trans [OF t quiet_gls]])
    then obtain b r where r: "record_level P a target level ifmt w h border ifmt GL_UNSIGNED_BYTE
        (tex_gls P (the calls) ?t) = Some (b, r)" "inv r" by blast
    have err: "inv (on_tex_driver (t_end_resolve P) (tex_error e msg ?t))" for e msg
      by (rule end_inv [OF quiet_inv [OF quiet_error quiet_inv [OF t s]]])
    show ?thesis
    proof (cases "border = 0")
      case True
      then show ?thesis
        using Some valid u(1) calls r end_inv [OF r(2)] err quiet_inv [OF quiet_error s]
        by (cases calls) (simp_all add: DoCopyTexImage2D_def Let_def)
    next
      case False
      then show ?thesis using Some quiet_inv [OF quiet_error s] by (simp add: DoCopyTexImage2D_def)
    qed
  qed
qed

lemma DoCopyTexSubImage2D_inv:
  assumes s: "inv s"
  shows "\<exists>s'. DoCopyTexSubImage2D P target level xo yo x y w h s = Some s' \<and> inv s'"
proof -
  have "unpack_alignment_' s \<noteq> 0" using s by (simp add: inv_def alignment_not_zero)
  then have calls: "copy_sub_image_calls target level xo yo x y w h fmt ty sz (unpack_alignment_' s) \<noteq> None"
    for fmt ty sz
    using ComputeImageDataSize_total by (simp add: copy_sub_image_calls_def split_beta Let_def)
  let ?b = "on_tex_driver (t_begin_resolve P) s"
  have b: "quiet s ?b" by (rule quiet_driver [OF resolve_ok(1)])
  have fin: "inv (on_tex_driver (t_end_resolve P) t)" if "quiet ?b t" for t
    by (rule quiet_inv [OF quiet_driver [OF resolve_ok(2)] quiet_inv [OF quiet_trans [OF b that] s]])
  have same: "unpack_alignment_' ?b = unpack_alignment_' s" by (simp add: on_tex_driver_def)
  have copied: "\<exists>s'. Option.bind (copy_sub_image_calls target level xo yo x y w h fmt ty sz (unpack_alignment_' s))
      (\<lambda>calls. Some (on_tex_driver (t_end_resolve P)
        (case calls of
           None \<Rightarrow> tex_error GL_INVALID_VALUE ''glCopyTexSubImage2D: dimensions too large'' ?b
         | Some cs \<Rightarrow> tex_gls P cs ?b))) = Some s' \<and> inv s'" for fmt ty sz
  proof -
    obtain cs where "copy_sub_image_calls target level xo yo x y w h fmt ty sz (unpack_alignment_' s) = Some cs"
      using calls by blast
    then show ?thesis using fin [OF quiet_error] fin [OF quiet_gls] by (simp split: option.split)
  qed
  show ?thesis
  proof (cases "GetTextureInfoForTarget target s")
    case None
    then show ?thesis using quiet_inv [OF quiet_error s] by (simp add: DoCopyTexSubImage2D_def)
  next
    case (Some a)
    then show ?thesis
      using copied quiet_inv [OF quiet_error s]
      by (cases "GetLevelType target level (texture_at a s)")
        (simp_all add: DoCopyTexSubImage2D_def Let_def same split_beta)
  qed
qed

end

end
