(* ===== verification/Texture_Safety.thy ===== *)
theory Texture_Safety
  imports Texture_Decoder Feature_Info
begin

text \<open>
  All texture commands as one step function over the decoder, the decoder's start, and the theorem that
  no sequence of commands breaks it. The memory (\<open>w\<close>) and the data behind a command (\<open>imm\<close>) belong to
  the client and may change arbitrarily between two commands.
\<close>

section \<open>The handlers\<close>

context tex_api
begin

lemma ActiveTexture_inv: "inv s \<Longrightarrow> inv (snd (HandleActiveTexture P u s))"
  by (simp add: HandleActiveTexture_def DoActiveTexture_inv)

lemma BindTexture_inv:
  assumes "inv s"
  shows "\<exists>e s'. HandleBindTexture P target i s = Some (e, s') \<and> inv s'"
proof (cases "target \<in> set (v_texture_bind_target (validators_' (texture_features s)))")
  case True
  then show ?thesis using DoBindTexture_inv [OF assms True, of i] by (auto simp: HandleBindTexture_def)
qed (use quiet_inv [OF quiet_error assms] in \<open>simp add: HandleBindTexture_def\<close>)

lemma TexParameter_inv:
  assumes "inv s"
  shows "\<exists>e s'. HandleTexParameterf P target pname x s = Some (e, s') \<and> inv s'"
    "\<exists>e s'. HandleTexParameteri P target pname x s = Some (e, s') \<and> inv s'"
    "\<exists>e s'. HandleTexParameterfv P w target pname i off s = Some (e, s') \<and> inv s'"
    "\<exists>e s'. HandleTexParameteriv P w target pname i off s = Some (e, s') \<and> inv s'"
    "\<exists>e s'. HandleTexParameterfvImmediate P imm target pname s = Some (e, s') \<and> inv s'"
    "\<exists>e s'. HandleTexParameterivImmediate P imm target pname s = Some (e, s') \<and> inv s'"
  using assms
  by (auto simp: HandleTexParameterf_def HandleTexParameteri_def HandleTexParameterfv_def
      HandleTexParameteriv_def HandleTexParameterfvImmediate_def HandleTexParameterivImmediate_def
      DoTexParameterf_def DoTexParameteri_def DoTexParameterfv_def DoTexParameteriv_def
      intro!: handle_tex_parameter_inv handle_tex_parameter_v_inv DoTexParameter_inv)

lemma GenerateMipmap_inv:
  assumes "inv s"
  shows "\<exists>e s'. HandleGenerateMipmap P target s = Some (e, s') \<and> inv s'"
  using DoGenerateMipmap_inv [OF assms, of target] quiet_inv [OF quiet_error assms]
  by (auto simp: HandleGenerateMipmap_def)

lemma TexImage2D_inv:
  assumes "inv s"
  shows "\<exists>e s'. HandleTexImage2D P w target level ifmt width h border fmt ty i off s = Some (e, s') \<and> inv s'"
proof -
  let ?s = "s\<lparr>tex_image_2d_failed_' := True\<rparr>"
  have s: "inv ?s" by (rule quiet_inv [OF quiet_fields(2) assms])
  obtain img where img: "ComputeImageDataSize width h fmt ty (unpack_alignment_' ?s) = Some img"
    using inv_alignment [OF s] .
  have do: "\<exists>s'. DoTexImage2D P target level ifmt width h border fmt ty px n ?s = Some s' \<and> inv s'" for px n
    by (rule DoTexImage2D_inv [OF s])
  show ?thesis
  proof (cases img)
    case None
    then show ?thesis using img s by (simp add: HandleTexImage2D_def)
  next
    case (Some n)
    show ?thesis
    proof (cases "i \<noteq> 0 \<or> off \<noteq> 0")
      case True
      then show ?thesis
        using img Some s do by (cases "GetSharedMemoryAs w i off n")
          (fastforce simp: HandleTexImage2D_def Let_def)+
    next
      case False
      then show ?thesis using img Some do [of None n] by (auto simp: HandleTexImage2D_def Let_def)
    qed
  qed
qed

lemma TexImage2DImmediate_inv:
  assumes "inv s"
  shows "\<exists>e s'. HandleTexImage2DImmediate P imm target level ifmt width h border fmt ty s = Some (e, s') \<and> inv s'"
proof -
  obtain img where "ComputeImageDataSize width h fmt ty (unpack_alignment_' s) = Some img"
    using inv_alignment [OF assms] .
  moreover have "\<exists>s'. DoTexImage2D P target level ifmt width h border fmt ty px n s = Some s' \<and> inv s'" for px n
    by (rule DoTexImage2D_inv [OF assms])
  ultimately show ?thesis
    using assms by (fastforce simp: HandleTexImage2DImmediate_def split: option.split)
qed

lemma handle_tex_sub_image_inv:
  assumes "inv s"
  shows "\<exists>e s'. handle_tex_sub_image P data target level x y width h fmt ty internal s = Some (e, s') \<and> inv s'"
proof -
  obtain img where "ComputeImageDataSize width h fmt ty (unpack_alignment_' s) = Some img"
    using inv_alignment [OF assms] .
  then show ?thesis
    using assms quiet_inv [OF quiet_error assms] quiet_inv [OF DoTexSubImage2D_quiet assms]
    by (auto simp: handle_tex_sub_image_def split: option.split)
qed

lemma CompressedTexImage2D_inv:
  assumes "inv s"
  shows "i \<noteq> 0 \<or> off \<noteq> 0 \<or> 0 \<le> sint n \<Longrightarrow>
      \<exists>e s'. HandleCompressedTexImage2D P w target level ifmt width h border n i off s = Some (e, s') \<and> inv s'"
    "\<exists>e s'. HandleCompressedTexImage2DImmediate P imm target level ifmt width h border n s = Some (e, s') \<and> inv s'"
    "\<exists>e s'. HandleCompressedTexImage2DBucket P w target level ifmt width h border b s = Some (e, s') \<and> inv s'"
proof -
  have do: "\<exists>s'. DoCompressedTexImage2D P target level ifmt width h border n (Some px) s = Some s' \<and> inv s'" for n px
    by (rule DoCompressedTexImage2D_inv [OF assms]) simp
  have null: "0 \<le> sint n \<Longrightarrow>
      \<exists>s'. DoCompressedTexImage2D P target level ifmt width h border n None s = Some s' \<and> inv s'"
    by (rule DoCompressedTexImage2D_inv [OF assms]) simp
  show "i \<noteq> 0 \<or> off \<noteq> 0 \<or> 0 \<le> sint n \<Longrightarrow>
      \<exists>e s'. HandleCompressedTexImage2D P w target level ifmt width h border n i off s = Some (e, s') \<and> inv s'"
    using assms do null by (fastforce simp: HandleCompressedTexImage2D_def split: option.split)
  show "\<exists>e s'. HandleCompressedTexImage2DImmediate P imm target level ifmt width h border n s = Some (e, s') \<and> inv s'"
    using assms do by (fastforce simp: HandleCompressedTexImage2DImmediate_def split: option.split)
  show "\<exists>e s'. HandleCompressedTexImage2DBucket P w target level ifmt width h border b s = Some (e, s') \<and> inv s'"
    using assms do by (fastforce simp: HandleCompressedTexImage2DBucket_def split: option.split)
qed

lemma handle_compressed_sub_inv:
  "inv s \<Longrightarrow> inv (snd (handle_compressed_sub P first data target level x y width h fmt n s))"
  using quiet_inv [OF quiet_error] quiet_inv [OF DoCompressedTexSubImage2D_quiet]
  by (auto simp: handle_compressed_sub_def split: option.split)

lemma CopyTexImage2D_inv:
  assumes "inv s"
  shows "\<exists>e s'. HandleCopyTexImage2D P target level ifmt x y width h border s = Some (e, s') \<and> inv s'"
proof (cases "target \<in> set (v_texture_target (validators_' (texture_features s)))")
  case True
  obtain s' where "DoCopyTexImage2D P target level ifmt x y width h border s = Some s'" "inv s'"
    using DoCopyTexImage2D_inv [OF assms inv_target [OF assms True]] by blast
  then show ?thesis using quiet_inv [OF quiet_error assms] by (simp add: HandleCopyTexImage2D_def Let_def)
qed (use quiet_inv [OF quiet_error assms] in \<open>simp add: HandleCopyTexImage2D_def Let_def\<close>)

lemma CopyTexSubImage2D_inv:
  assumes "inv s"
  shows "\<exists>e s'. HandleCopyTexSubImage2D P target level xo yo x y width h s = Some (e, s') \<and> inv s'"
proof -
  obtain s' where "DoCopyTexSubImage2D P target level xo yo x y width h s = Some s'" "inv s'"
    using DoCopyTexSubImage2D_inv [OF assms] by blast
  then show ?thesis using quiet_inv [OF quiet_error assms] by (simp add: HandleCopyTexSubImage2D_def Let_def)
qed

lemma PixelStorei_inv:
  assumes "inv s"
  shows "inv (snd (HandlePixelStorei P pname param s))"
proof -
  have "param \<in> {1, 2, 4, 8}" if "param \<in> set (v_pixel_store_alignment (validators_' (texture_features s)))"
    using that assms by (auto simp: inv_def tex_decoder_ok_def defaults_ok_def)
  moreover have "inv (u\<lparr>pack_alignment_' := param\<rparr>)" "inv (u\<lparr>unpack_alignment_' := param\<rparr>)"
    if "inv u" "param \<in> {1, 2, 4, 8}" for u
    using that by (simp_all add: inv_def tex_decoder_ok_def units_ok_def alignments_ok_def)
  ultimately show ?thesis
    using quiet_inv [OF quiet_error assms] quiet_inv [OF quiet_gl assms]
    by (simp add: HandlePixelStorei_def Let_def)
qed

lemma CreateStreamTexture_inv:
  assumes s: "inv s"
    and result: "chromium_stream_texture (texture_features s) \<Longrightarrow> GetSharedMemoryAs w i off 4 \<noteq> None"
  shows "\<exists>e r s'. HandleCreateStreamTextureCHROMIUM P w c i off s = Some (e, r, s') \<and> inv s'"
proof (cases "chromium_stream_texture (texture_features s)")
  case False
  then show ?thesis using quiet_inv [OF quiet_error s] by (simp add: HandleCreateStreamTextureCHROMIUM_def)
next
  case True
  then obtain r where r: "GetSharedMemoryAs w i off 4 = Some r" using result by blast
  show ?thesis
  proof (cases "GetTextureInfo c (texture_manager s)")
    case None
    then show ?thesis
      using True r quiet_inv [OF quiet_error s] by (simp add: HandleCreateStreamTextureCHROMIUM_def)
  next
    case (Some a)
    obtain obj d where d: "t_create_stream P (tex_service_id_' (texture_at a s)) c (driver s) = (obj, d)"
      by fastforce
    have "ok d" using stream_ok(1) [of "driver s"] s d by (metis inv_def snd_conv)
    then have s1: "inv (s\<lparr>driver := d\<rparr>)" by (rule inv_driver [OF s])
    have "flag_change (SetStreamTexture True)" by (auto simp: flag_change_def)
    then have "inv (s\<lparr>driver := d, texture_manager := change_object a (SetStreamTexture True)
        (texture_manager (s\<lparr>driver := d\<rparr>))\<rparr>)"
      using inv_lookup(1) [OF s Some] by (intro inv_manager [OF s1] flag) simp_all
    then show ?thesis
      using True r Some d s quiet_inv [OF quiet_error s] quiet_inv [OF quiet_error s1]
      by (simp add: HandleCreateStreamTextureCHROMIUM_def Let_def)
  qed
qed

end

section \<open>Commands\<close>

datatype tex_cmd =
    GenTextures GLsizei uint32 uint32
  | GenTexturesImmediate GLsizei
  | DeleteTextures GLsizei uint32 uint32
  | DeleteTexturesImmediate GLsizei
  | ActiveTexture GLenum
  | BindTexture GLenum GLuint
  | TexParameterf GLenum GLenum uint32
  | TexParameteri GLenum GLenum GLint
  | TexParameterfv GLenum GLenum uint32 uint32
  | TexParameteriv GLenum GLenum uint32 uint32
  | TexParameterfvImmediate GLenum GLenum
  | TexParameterivImmediate GLenum GLenum
  | GenerateMipmap GLenum
  | PixelStorei GLenum GLint
  | TexImage2D GLenum GLint GLint GLsizei GLsizei GLint GLenum GLenum uint32 uint32
  | TexImage2DImmediate GLenum GLint GLint GLsizei GLsizei GLint GLenum GLenum
  | TexSubImage2D GLenum GLint GLint GLint GLsizei GLsizei GLenum GLenum uint32 uint32 bool
  | TexSubImage2DImmediate GLenum GLint GLint GLint GLsizei GLsizei GLenum GLenum bool
  | CompressedTexImage2D GLenum GLint GLenum GLsizei GLsizei GLint GLsizei uint32 uint32
  | CompressedTexImage2DImmediate GLenum GLint GLenum GLsizei GLsizei GLint GLsizei
  | CompressedTexImage2DBucket GLenum GLint GLenum GLsizei GLsizei GLint uint32
  | CompressedTexSubImage2D GLenum GLint GLint GLint GLsizei GLsizei GLenum GLsizei uint32 uint32
  | CompressedTexSubImage2DImmediate GLenum GLint GLint GLint GLsizei GLsizei GLenum GLsizei
  | CompressedTexSubImage2DBucket GLenum GLint GLint GLint GLsizei GLsizei GLenum uint32
  | CopyTexImage2D GLenum GLint GLenum GLint GLint GLsizei GLsizei GLint
  | CopyTexSubImage2D GLenum GLint GLint GLint GLint GLint GLsizei GLsizei
  | CreateStreamTextureCHROMIUM GLuint uint32 uint32
  | DestroyStreamTextureCHROMIUM GLuint

text \<open>The handler of each command, without the value \<^verbatim>\<open>CreateStreamTextureCHROMIUM\<close> stores.\<close>

fun run_tex_cmd ::
  "'g TexApi \<Rightarrow> 'a decoder_world_scheme \<Rightarrow> byte list \<Rightarrow> tex_cmd \<Rightarrow> 'g TexDecoder \<Rightarrow> (Error \<times> 'g TexDecoder) option" where
  "run_tex_cmd P w imm (GenTextures n i off) s = Some (HandleGenTextures P w n i off s)"
| "run_tex_cmd P w imm (GenTexturesImmediate n) s = Some (HandleGenTexturesImmediate P imm n s)"
| "run_tex_cmd P w imm (DeleteTextures n i off) s = Some (HandleDeleteTextures P w n i off s)"
| "run_tex_cmd P w imm (DeleteTexturesImmediate n) s = Some (HandleDeleteTexturesImmediate P imm n s)"
| "run_tex_cmd P w imm (ActiveTexture u) s = Some (HandleActiveTexture P u s)"
| "run_tex_cmd P w imm (BindTexture t i) s = HandleBindTexture P t i s"
| "run_tex_cmd P w imm (TexParameterf t p x) s = HandleTexParameterf P t p x s"
| "run_tex_cmd P w imm (TexParameteri t p x) s = HandleTexParameteri P t p x s"
| "run_tex_cmd P w imm (TexParameterfv t p i off) s = HandleTexParameterfv P w t p i off s"
| "run_tex_cmd P w imm (TexParameteriv t p i off) s = HandleTexParameteriv P w t p i off s"
| "run_tex_cmd P w imm (TexParameterfvImmediate t p) s = HandleTexParameterfvImmediate P imm t p s"
| "run_tex_cmd P w imm (TexParameterivImmediate t p) s = HandleTexParameterivImmediate P imm t p s"
| "run_tex_cmd P w imm (GenerateMipmap t) s = HandleGenerateMipmap P t s"
| "run_tex_cmd P w imm (PixelStorei p x) s = Some (HandlePixelStorei P p x s)"
| "run_tex_cmd P w imm (TexImage2D t l f wd h b fmt ty i off) s =
     HandleTexImage2D P w t l f wd h b fmt ty i off s"
| "run_tex_cmd P w imm (TexImage2DImmediate t l f wd h b fmt ty) s =
     HandleTexImage2DImmediate P imm t l f wd h b fmt ty s"
| "run_tex_cmd P w imm (TexSubImage2D t l x y wd h fmt ty i off internal) s =
     HandleTexSubImage2D P w t l x y wd h fmt ty i off internal s"
| "run_tex_cmd P w imm (TexSubImage2DImmediate t l x y wd h fmt ty internal) s =
     HandleTexSubImage2DImmediate P imm t l x y wd h fmt ty internal s"
| "run_tex_cmd P w imm (CompressedTexImage2D t l f wd h b n i off) s =
     HandleCompressedTexImage2D P w t l f wd h b n i off s"
| "run_tex_cmd P w imm (CompressedTexImage2DImmediate t l f wd h b n) s =
     HandleCompressedTexImage2DImmediate P imm t l f wd h b n s"
| "run_tex_cmd P w imm (CompressedTexImage2DBucket t l f wd h b bucket) s =
     HandleCompressedTexImage2DBucket P w t l f wd h b bucket s"
| "run_tex_cmd P w imm (CompressedTexSubImage2D t l x y wd h fmt n i off) s =
     Some (HandleCompressedTexSubImage2D P w t l x y wd h fmt n i off s)"
| "run_tex_cmd P w imm (CompressedTexSubImage2DImmediate t l x y wd h fmt n) s =
     Some (HandleCompressedTexSubImage2DImmediate P imm t l x y wd h fmt n s)"
| "run_tex_cmd P w imm (CompressedTexSubImage2DBucket t l x y wd h fmt bucket) s =
     Some (HandleCompressedTexSubImage2DBucket P w t l x y wd h fmt bucket s)"
| "run_tex_cmd P w imm (CopyTexImage2D t l f x y wd h b) s = HandleCopyTexImage2D P t l f x y wd h b s"
| "run_tex_cmd P w imm (CopyTexSubImage2D t l xo yo x y wd h) s =
     HandleCopyTexSubImage2D P t l xo yo x y wd h s"
| "run_tex_cmd P w imm (CreateStreamTextureCHROMIUM c i off) s =
     map_option (\<lambda>(e, r, s'). (e, s')) (HandleCreateStreamTextureCHROMIUM P w c i off s)"
| "run_tex_cmd P w imm (DestroyStreamTextureCHROMIUM c) s = Some (HandleDestroyStreamTextureCHROMIUM P c s)"

text \<open>The arguments for which the code keeps its promises: ids to generate are distinct, a compressed
  image without data has a size that is not negative, the result of \<^verbatim>\<open>CreateStreamTextureCHROMIUM\<close> has memory, and no stream
  texture is destroyed.\<close>

fun tex_cmd_ok :: "'a decoder_world_scheme \<Rightarrow> byte list \<Rightarrow> tex_cmd \<Rightarrow> 'g TexDecoder \<Rightarrow> bool" where
  "tex_cmd_ok w imm (GenTextures n i off) s \<longleftrightarrow>
     (case GetSharedMemoryAs w i off (n * 4) of None \<Rightarrow> True | Some bs \<Rightarrow> distinct (words_of_bytes bs))"
| "tex_cmd_ok w imm (GenTexturesImmediate n) s \<longleftrightarrow>
     (case GetImmediateDataAs imm (n * 4) of None \<Rightarrow> True | Some bs \<Rightarrow> distinct (words_of_bytes bs))"
| "tex_cmd_ok w imm (CompressedTexImage2D t l f wd h b n i off) s \<longleftrightarrow> i \<noteq> 0 \<or> off \<noteq> 0 \<or> 0 \<le> sint n"
| "tex_cmd_ok w imm (CreateStreamTextureCHROMIUM c i off) s \<longleftrightarrow>
     (chromium_stream_texture (texture_features s) \<longrightarrow> GetSharedMemoryAs w i off 4 \<noteq> None)"
| "tex_cmd_ok w imm (DestroyStreamTextureCHROMIUM c) s \<longleftrightarrow>
     (case GetTextureInfo c (texture_manager s) of None \<Rightarrow> True | Some a \<Rightarrow> \<not> IsStreamTexture (texture_at a s))"
| "tex_cmd_ok w imm _ s \<longleftrightarrow> True"

context tex_api
begin

lemma gen_handler_inv:
  assumes "inv s" "case data (n * 4) of None \<Rightarrow> True | Some bs \<Rightarrow> distinct (words_of_bytes bs)"
  shows "inv (snd (handle_ids n data (gen_textures P) s))"
  using assms by (intro handle_ids_inv gen_textures_inv) simp_all

lemma DestroyStream_inv:
  assumes "inv s" "tex_cmd_ok w imm (DestroyStreamTextureCHROMIUM c) s"
  shows "inv (snd (HandleDestroyStreamTextureCHROMIUM P c s))"
  using assms quiet_inv [OF quiet_error assms(1)]
  by (auto simp: HandleDestroyStreamTextureCHROMIUM_def Let_def split: option.split)

lemma run_tex_cmd_inv:
  assumes s: "inv s" and ok: "tex_cmd_ok w imm c s"
  shows "\<exists>e s'. run_tex_cmd P w imm c s = Some (e, s') \<and> inv s'"
proof -
  have pair: "\<exists>e s'. r = (e, s') \<and> inv s'" if "inv (snd r)" for r :: "Error \<times> 'g TexDecoder"
    using that by (cases r) simp
  show ?thesis
  proof (cases c)
    case (CompressedTexSubImage2DBucket t l x y wd h fmt bucket)
    have "inv (snd (HandleCompressedTexSubImage2DBucket P w t l x y wd h fmt bucket s))"
      using s handle_compressed_sub_inv [OF s]
      by (simp add: HandleCompressedTexSubImage2DBucket_def split: option.split)
    from pair [OF this] show ?thesis using CompressedTexSubImage2DBucket by simp
  next
    case (CreateStreamTextureCHROMIUM c i off)
    then show ?thesis using CreateStreamTexture_inv [OF s, of w i off c] ok by fastforce
  next
    case (GenTextures n i off)
    then show ?thesis using gen_handler_inv [OF s] ok by (simp add: pair HandleGenTextures_def)
  next
    case (GenTexturesImmediate n)
    then show ?thesis using gen_handler_inv [OF s] ok by (simp add: pair HandleGenTexturesImmediate_def)
  next
    case (DeleteTextures n i off)
    then show ?thesis using s by (simp add: pair HandleDeleteTextures_def handle_ids_inv delete_textures_inv)
  next
    case (DeleteTexturesImmediate n)
    then show ?thesis using s by (simp add: pair HandleDeleteTexturesImmediate_def handle_ids_inv delete_textures_inv)
  next
    case (DestroyStreamTextureCHROMIUM c)
    then show ?thesis using DestroyStream_inv [OF s] ok by (simp add: pair)
  next
    case (TexSubImage2D t l x y wd h fmt ty i off internal)
    then show ?thesis by (simp add: HandleTexSubImage2D_def handle_tex_sub_image_inv [OF s])
  next
    case (TexSubImage2DImmediate t l x y wd h fmt ty internal)
    then show ?thesis by (simp add: HandleTexSubImage2DImmediate_def handle_tex_sub_image_inv [OF s])
  next
    case (CompressedTexSubImage2D t l x y wd h fmt n i off)
    then show ?thesis by (simp add: pair HandleCompressedTexSubImage2D_def handle_compressed_sub_inv [OF s])
  next
    case (CompressedTexSubImage2DImmediate t l x y wd h fmt n)
    then show ?thesis
      by (simp add: pair HandleCompressedTexSubImage2DImmediate_def handle_compressed_sub_inv [OF s])
  next
    case (CompressedTexImage2D t l f wd h b n i off)
    then show ?thesis using CompressedTexImage2D_inv(1) [OF s] ok by simp
  qed (use s in \<open>simp_all add: pair ActiveTexture_inv BindTexture_inv TexParameter_inv GenerateMipmap_inv
      PixelStorei_inv TexImage2D_inv TexImage2DImmediate_inv CompressedTexImage2D_inv CopyTexImage2D_inv
      CopyTexSubImage2D_inv\<close>)
qed

end

section \<open>The start of a decoder\<close>

text \<open>What the code relies on: a feature set accepts \<^verbatim>\<open>GL_TEXTURE_EXTERNAL_OES\<close> only together with its
  feature flag.\<close>

definition targets_known :: "FeatureInfo \<Rightarrow> bool" where
  "targets_known F \<longleftrightarrow>
     set (v_texture_bind_target (validators_' F)) \<subseteq>
       {GL_TEXTURE_2D, GL_TEXTURE_CUBE_MAP} \<union> (if oes_egl_image_external F then {GL_TEXTURE_EXTERNAL_OES} else {})
     \<and> set (v_texture_target (validators_' F)) \<subseteq> insert GL_TEXTURE_2D (set cube_faces)
     \<and> set (v_pixel_store_alignment (validators_' F)) \<subseteq> {1, 2, 4, 8}"

lemma targets_known_blocks:
  assumes "targets_known F"
  shows
    "targets_known (AddExtensionString str F)"
    "targets_known (add_base_extensions F)"
    "targets_known (add_webglsl d ext F)"
    "targets_known (add_dxt1 ext F)"
    "targets_known (add_dxt3 ext F)"
    "targets_known (add_dxt5 ext F)"
    "targets_known (add_anisotropic ext F)"
    "targets_known (add_depth_texture ext F)"
    "targets_known (add_depth_stencil ext F)"
    "targets_known (add_texture_bgra ext F)"
    "targets_known (add_read_bgra ext F)"
    "targets_known (add_rgb8 desktop ext F)"
    "targets_known (add_npot ext F)"
    "targets_known (add_float ext F)"
    "targets_known (add_half_float ext F)"
    "targets_known (add_multisample ext F)"
    "targets_known (add_depth24 desktop ext F)"
    "targets_known (add_derivatives desktop ext F)"
    "targets_known (add_image_external ext F)"
    "targets_known (add_stream_texture ext F)"
  using assms by (auto simp: targets_known_def block_defs with_validators_def Let_def split: if_splits)

lemma targets_known_flags [simp]:
  "targets_known (F\<lparr>enable_texture_float_linear := b\<rparr>) = targets_known F"
  "targets_known (F\<lparr>enable_texture_half_float_linear := b\<rparr>) = targets_known F"
  "targets_known (F\<lparr>npot_ok := b\<rparr>) = targets_known F"
  by (simp_all add: targets_known_def)

lemma AddFeatures_targets: "targets_known F \<Longrightarrow> targets_known (AddFeatures exts desktop d F)"
  by (simp add: AddFeatures_def Let_def targets_known_blocks)

lemma new_targets: "targets_known (FeatureInfo_new\<lparr>disallowed_multisampling := b\<rparr>)"
  by (simp add: targets_known_def FeatureInfo_new_def Validators_new_def valid_texture_bind_target_table_def
      valid_texture_target_table_def valid_pixel_store_alignment_table_def cube_faces_def)

lemma features_targets: "features_reachable exts desktop F \<Longrightarrow> targets_known F"
  by (induction rule: features_reachable.induct)
    (simp_all add: FeatureInfo_Initialize_def AddFeatures_targets new_targets)

lemma default_levels_target: "default_levels faces t = Some t' \<Longrightarrow> tex_target_' t' = tex_target_' t"
  by (induction faces t rule: default_levels.induct) (auto split: bind_splits dest: SetLevelInfo_target)

lemma new_default_effect:
  assumes "new_default F sid target faces m = Some (a, m')"
  shows "a = length (tex_objects m)" "\<exists>t. tex_objects m' = tex_objects m @ [t] \<and> tex_target_' t = target"
    "default_texture_2d_' m' = default_texture_2d_' m"
    "default_texture_cube_map_' m' = default_texture_cube_map_' m"
    "default_texture_external_oes_' m' = default_texture_external_oes_' m"
  using assms default_levels_target
  by (fastforce simp: new_default_def SetInfoTarget_def replace_counted_fields Texture_SetTarget_def Let_def)+

definition defaults_exist :: "FeatureInfo \<Rightarrow> TextureManager \<Rightarrow> bool" where
  "defaults_exist F m \<longleftrightarrow>
     (\<forall>target\<in>{GL_TEXTURE_2D, GL_TEXTURE_CUBE_MAP, GL_TEXTURE_EXTERNAL_OES}.
        points_to m target (GetDefaultTextureInfo target m)
        \<and> (GetDefaultTextureInfo target m = None \<longrightarrow>
             target = GL_TEXTURE_EXTERNAL_OES \<and> \<not> oes_egl_image_external F))"

lemma Initialize_defaults:
  assumes "TextureManager_Initialize F ids external_ids (TextureManager_new s c) = Some (calls, m)"
  shows "defaults_exist F m"
proof -
  let ?m = "TextureManager_new s c"
  have empty: "tex_objects ?m = []" "default_texture_external_oes_' ?m = None"
    by (simp_all add: TextureManager_new_def)
  obtain a2d m1 acube m2 where m1: "new_default F (ids ! 1) GL_TEXTURE_2D [GL_TEXTURE_2D] ?m = Some (a2d, m1)"
    and m2: "new_default F (ids ! 3) GL_TEXTURE_CUBE_MAP cube_faces m1 = Some (acube, m2)"
    using assms by (auto simp: TextureManager_Initialize_def split: bind_splits)
  obtain t1 where t1: "tex_objects m1 = [t1]" "tex_target_' t1 = GL_TEXTURE_2D"
    using new_default_effect(2) [OF m1] empty by auto
  obtain t2 where t2: "tex_objects m2 = [t1, t2]" "tex_target_' t2 = GL_TEXTURE_CUBE_MAP"
    using new_default_effect(2) [OF m2] t1 by auto
  have a: "a2d = 0" "acube = 1" using new_default_effect(1) [OF m1] new_default_effect(1) [OF m2] t1 empty by auto
  let ?m2 = "m2\<lparr>default_texture_2d_' := Some a2d, default_texture_cube_map_' := Some acube,
    black_2d_texture_id_' := ids ! 0, black_cube_texture_id_' := ids ! 2\<rparr>"
  have ext: "default_texture_external_oes_' m2 = None"
    using new_default_effect(5) [OF m1] new_default_effect(5) [OF m2] empty by simp
  show ?thesis
  proof (cases "oes_egl_image_external F")
    case False
    then have "m = ?m2" using assms m1 m2 by (simp add: TextureManager_Initialize_def Let_def)
    then show ?thesis
      using False t2 t1 a ext by (auto simp: defaults_exist_def GetDefaultTextureInfo_def points_to_def)
  next
    case True
    then obtain aext m3 where m3: "new_default F (external_ids ! 0) GL_TEXTURE_EXTERNAL_OES
          [GL_TEXTURE_EXTERNAL_OES] ?m2 = Some (aext, m3)"
      and m: "m = m3\<lparr>default_texture_external_oes_' := Some aext,
          black_oes_external_texture_id_' := external_ids ! 1\<rparr>"
      using assms m1 m2 by (auto simp: TextureManager_Initialize_def Let_def split: bind_splits)
    obtain t3 where t3: "tex_objects m3 = [t1, t2, t3]" "tex_target_' t3 = GL_TEXTURE_EXTERNAL_OES"
      using new_default_effect(2) [OF m3] t2 by auto
    have "aext = 2" using new_default_effect(1) [OF m3] t2 by simp
    then show ?thesis
      using m t1 t2 t3 a new_default_effect(3,4) [OF m3]
      by (auto simp: defaults_exist_def GetDefaultTextureInfo_def points_to_def)
  qed
qed

lemma reachable_defaults: "tex_reachable F m \<Longrightarrow> defaults_exist F m"
proof (induction rule: tex_reachable.induct)
  case (start s c ids external_ids calls m)
  then show ?case using Initialize_defaults by blast
next
  case (step m m')
  note grows = tex_step_grows [OF step.hyps(2)]
  have same: "GetDefaultTextureInfo target m' = GetDefaultTextureInfo target m" for target
    using grows by (simp add: tex_grows_def)
  show ?case
    using step.IH points_to_grows [OF _ grows] unfolding defaults_exist_def same by auto
qed

lemma defaults_known:
  assumes "tex_reachable F m" "targets_known F"
  shows "defaults_ok F m"
  using reachable_defaults [OF assms(1)] assms(2)
  by (fastforce simp: defaults_ok_def defaults_exist_def targets_known_def split: if_splits)

text \<open>The state when \<^verbatim>\<open>Initialize\<close> has bound the default textures; the context group may have been used
  by other decoders before.\<close>

definition tex_decoder_start :: "'g TexApi \<Rightarrow> 'g TexDecoder \<Rightarrow> bool" where
  "tex_decoder_start P s \<longleftrightarrow>
     tex_reachable (texture_features s) (texture_manager s)
     \<and> 0 < group_max_texture_units s \<and> active_texture_unit_' s = 0
     \<and> pack_alignment_' s = 4 \<and> unpack_alignment_' s = 4
     \<and> (\<exists>s0. init_texture_units P s0 = Some s \<and> texture_manager s0 = texture_manager s
           \<and> texture_features s0 = texture_features s \<and> group_max_texture_units s0 = group_max_texture_units s)"

lemma tex_gls_fields [simp]:
  "texture_units_' (tex_gls P cs s) = texture_units_' s" "texture_manager (tex_gls P cs s) = texture_manager s"
  "group_max_texture_units (tex_gls P cs s) = group_max_texture_units s"
  "texture_features (tex_gls P cs s) = texture_features s"
  by (induction cs arbitrary: s) (simp_all add: tex_gls_def tex_gl_def)

lemma init_units_ok:
  assumes "init_texture_units P s0 = Some s" "defaults_exist (texture_features s0) (texture_manager s0)"
    and "u \<in> set (texture_units_' s)"
  shows "unit_ok (texture_manager s0) u"
  using assms
  by (auto simp: init_texture_units_def init_unit_def unit_ok_def defaults_exist_def Let_def
      split: bind_splits if_splits option.splits) (auto simp: points_to_def)

lemma init_units_length:
  assumes "init_texture_units P s0 = Some s"
  shows "length (texture_units_' s) = unat (group_max_texture_units s0)"
  using assms by (auto simp: init_texture_units_def Let_def split: bind_splits)

lemma tex_decoder_start_ok:
  assumes "tex_decoder_start P s" "targets_known (texture_features s)"
  shows "tex_decoder_ok s"
proof -
  note start = assms(1) [unfolded tex_decoder_start_def]
  then have reach: "tex_reachable (texture_features s) (texture_manager s)" by blast
  have "units_ok s"
    using start init_units_ok init_units_length reachable_defaults [OF reach] unfolding units_ok_def by metis
  then show ?thesis
    using start reach defaults_known [OF reach assms(2)] by (simp add: tex_decoder_ok_def alignments_ok_def)
qed

section \<open>Reachable states\<close>

text \<open>Between two commands the other decoders of the context group may use the texture manager, and the
  other commands of the decoder change what is not about textures.\<close>

inductive tex_decoder_reachable :: "'g TexApi \<Rightarrow> ('g \<Rightarrow> bool) \<Rightarrow> 'g TexDecoder \<Rightarrow> bool"
  for P okd where
  start: "tex_decoder_start P s \<Longrightarrow> features_reachable exts desktop (texture_features s) \<Longrightarrow> okd (driver s) \<Longrightarrow>
    tex_decoder_reachable P okd s"
| step: "tex_decoder_reachable P okd s \<Longrightarrow> tex_cmd_ok (w :: decoder_world) imm c s \<Longrightarrow>
    run_tex_cmd P w imm c s = Some (e, s') \<Longrightarrow> tex_decoder_reachable P okd s'"
| shared: "tex_decoder_reachable P okd s \<Longrightarrow> tex_step (texture_features s) (texture_manager s) m \<Longrightarrow>
    tex_decoder_reachable P okd (s\<lparr>texture_manager := m\<rparr>)"
| other: "tex_decoder_reachable P okd s \<Longrightarrow> same_textures s s' \<Longrightarrow> okd (driver s') \<Longrightarrow>
    tex_decoder_reachable P okd s'"

context tex_api
begin

lemma reachable_inv: "tex_decoder_reachable P ok s \<Longrightarrow> inv s"
proof (induction rule: tex_decoder_reachable.induct)
  case (start s exts desktop)
  then show ?case by (simp add: inv_def tex_decoder_start_ok features_targets)
next
  case (step s w imm c e s')
  then show ?case using run_tex_cmd_inv by fastforce
next
  case (shared s m)
  then show ?case by (simp add: inv_manager)
next
  case (other s s')
  then show ?case by (simp add: inv_def same_textures_ok)
qed

end


section \<open>A sample driver\<close>

definition sample_tex_api :: "GLenum list TexApi" where
  "sample_tex_api = \<lparr>t_get_error = queue_get_error, t_call = (\<lambda>c d. d),
     t_gen_textures = (\<lambda>n d. (map (\<lambda>i. word_of_nat (Suc i)) [0 ..< n], d)), t_is_egl_gles2 = False,
     t_read_format = (\<lambda>d. GL_RGBA), t_read_size = (\<lambda>d. (64, 64)), t_begin_resolve = (\<lambda>d. d),
     t_end_resolve = (\<lambda>d. d), t_has_streams = True, t_create_stream = (\<lambda>i j d. (1, d)),
     t_destroy_stream = (\<lambda>i d. d), t_update_stream = (\<lambda>i d. d), t_unrepresentable_float = (\<lambda>x. 0)\<rparr>"

interpretation sample_tex: tex_api sample_tex_api "\<lambda>q. q" queue_ok
  by unfold_locales
    (auto simp: sample_tex_api_def queue_ok_def queue_get_error_def split: list.splits)

definition sample_features :: FeatureInfo where
  "sample_features = FeatureInfo_Initialize None False False None FeatureInfo_new"

definition sample_textures :: "TextureManager \<Rightarrow> GLenum list TexDecoder" where
  "sample_textures m =
     \<lparr>driver = [], error_bits_' = 0, last_error_' = [], texture_manager = m, texture_features = sample_features,
      texture_ids = \<lparr>used_ids = {}, free_ids = {}\<rparr>, group_bind_generates = True,
      group_max_texture_units = 2, texture_units_' = [], active_texture_unit_' = 0, pack_alignment_' = 4,
      unpack_alignment_' = 4, state_dirty_' = True, tex_image_2d_failed_' = False,
      teximage2d_faster_than_texsubimage2d_' = True, tex_issued = []\<rparr>"

lemma init_returns:
  assumes "defaults_exist (texture_features s) (texture_manager s)"
  shows "\<exists>s'. init_texture_units P s = Some s'"
  using assms by (auto simp: init_texture_units_def defaults_exist_def Let_def)

lemma tex_gls_kept [simp]:
  "active_texture_unit_' (tex_gls P cs s) = active_texture_unit_' s"
  "pack_alignment_' (tex_gls P cs s) = pack_alignment_' s"
  "unpack_alignment_' (tex_gls P cs s) = unpack_alignment_' s"
  by (induction cs arbitrary: s) (simp_all add: tex_gls_def tex_gl_def)

lemma sample_gls_driver [simp]: "driver (tex_gls sample_tex_api cs s) = driver s"
  by (induction cs arbitrary: s) (simp_all add: tex_gls_def tex_gl_def sample_tex_api_def)

lemma init_keeps:
  assumes "init_texture_units P s = Some s'"
  shows "texture_manager s' = texture_manager s" "texture_features s' = texture_features s"
    "group_max_texture_units s' = group_max_texture_units s"
    "active_texture_unit_' s' = active_texture_unit_' s" "pack_alignment_' s' = pack_alignment_' s"
    "unpack_alignment_' s' = unpack_alignment_' s"
  using assms by (auto simp: init_texture_units_def Let_def split: bind_splits if_splits)

lemma external_blocks:
  "oes_egl_image_external (add_base_extensions F) = oes_egl_image_external F"
  "oes_egl_image_external (add_webglsl d ext F) = oes_egl_image_external F"
  "oes_egl_image_external (add_dxt1 ext F) = oes_egl_image_external F"
  "oes_egl_image_external (add_dxt3 ext F) = oes_egl_image_external F"
  "oes_egl_image_external (add_dxt5 ext F) = oes_egl_image_external F"
  "oes_egl_image_external (add_anisotropic ext F) = oes_egl_image_external F"
  "oes_egl_image_external (add_depth_texture ext F) = oes_egl_image_external F"
  "oes_egl_image_external (add_depth_stencil ext F) = oes_egl_image_external F"
  "oes_egl_image_external (add_texture_bgra ext F) = oes_egl_image_external F"
  "oes_egl_image_external (add_read_bgra ext F) = oes_egl_image_external F"
  "oes_egl_image_external (add_rgb8 desktop ext F) = oes_egl_image_external F"
  "oes_egl_image_external (add_npot ext F) = oes_egl_image_external F"
  "oes_egl_image_external (add_float ext F) = oes_egl_image_external F"
  "oes_egl_image_external (add_half_float ext F) = oes_egl_image_external F"
  "oes_egl_image_external (add_multisample ext F) = oes_egl_image_external F"
  "oes_egl_image_external (add_depth24 desktop ext F) = oes_egl_image_external F"
  "oes_egl_image_external (add_derivatives desktop ext F) = oes_egl_image_external F"
  "oes_egl_image_external (add_stream_texture ext F) = oes_egl_image_external F"
  by (simp_all add: block_defs with_validators_def Let_def)

lemma sample_no_external: "\<not> oes_egl_image_external sample_features"
proof -
  have "n \<noteq> [] \<Longrightarrow> \<not> HaveAndDesire n (ExtensionHelper_new None d)" for n d
    by (simp add: HaveAndDesire_def InitStringSet_def init_string_set.simps find_space_def)
  then have "oes_egl_image_external (add_image_external (ExtensionHelper_new None d) F) = oes_egl_image_external F"
    for d F by (simp add: add_image_external_def)
  then show ?thesis
    by (simp add: sample_features_def FeatureInfo_Initialize_def AddFeatures_def external_blocks Let_def
        FeatureInfo_new_def)
qed

lemma sample_reachable:
  obtains s where "tex_decoder_reachable sample_tex_api queue_ok s" "texture_infos_' (texture_manager s) = []"
    "default_texture_external_oes_' (texture_manager s) = None" "driver s = []" "pack_alignment_' s = 4"
    "texture_features s = sample_features"
proof -
  obtain calls m where m: "TextureManager_Initialize sample_features [] [] (TextureManager_new 64 64) = Some (calls, m)"
      "texture_infos_' m = []" "default_texture_external_oes_' m = None"
    using Initialize_ok [of 64 64 sample_features "[]" "[]"] sample_no_external by auto
  have reach: "tex_reachable sample_features m" by (rule tex_reachable.start [OF _ _ m(1)]) simp_all
  let ?s = "sample_textures m"
  obtain s where s: "init_texture_units sample_tex_api ?s = Some s"
    using init_returns [of ?s] reachable_defaults [OF reach] by (auto simp: sample_textures_def)
  have d: "driver s = []"
    using s by (auto simp: init_texture_units_def Let_def sample_textures_def split: bind_splits if_splits)
  moreover have "tex_decoder_start sample_tex_api s"
    unfolding tex_decoder_start_def using init_keeps [OF s] reach s
    by (intro conjI exI [of _ ?s]) (simp_all add: sample_textures_def)
  moreover have "features_reachable None False (texture_features s)"
    using init_keeps(2) [OF s] features_reachable.init [of None False False None]
    by (simp add: sample_textures_def sample_features_def)
  ultimately have "tex_decoder_reachable sample_tex_api queue_ok s"
    by (intro tex_decoder_reachable.start) (simp_all add: queue_ok_def)
  then show ?thesis using that init_keeps [OF s] m d by (simp add: sample_textures_def)
qed


end
