(* ===== verification/Texture_Draw.thy ===== *)
theory Texture_Draw
  imports Texture_Uploads
begin

text \<open>
  The textures a draw call finds bound, after those that cannot be rendered were replaced by the black
  ones: GL's bindings as changed by the calls of \<^verbatim>\<open>SetBlackTextureForNonRenderableTextures\<close>.
\<close>

section \<open>GL's bindings\<close>

type_synonym bindings = "uint32 \<times> (uint32 \<times> GLenum \<Rightarrow> GLuint)"

text \<open>The active unit, and the texture bound to each target of each unit.\<close>

fun bind_effect :: "tex_call \<Rightarrow> bindings \<Rightarrow> bindings" where
  "bind_effect (glActiveTexture t) g = (t - GL_TEXTURE0, snd g)"
| "bind_effect (glBindTexture target i) g = (fst g, (snd g)((fst g, target) := i))"
| "bind_effect _ g = g"

abbreviation bindings_after :: "tex_call list \<Rightarrow> bindings \<Rightarrow> bindings" where
  "bindings_after cs g \<equiv> fold bind_effect cs g"

lemma set_black_effect:
  "snd (bindings_after (set_black s use) g) =
     (snd g)((snd use, GetBindTargetForSamplerType (fst use)) := black_texture_id (fst use) (texture_manager s))"
  by (cases use) (simp add: set_black_def)

lemma set_black_all:
  "snd (bindings_after (concat (map (set_black s) uses)) g) (i, target) =
     (case find (\<lambda>use. snd use = i \<and> GetBindTargetForSamplerType (fst use) = target) (rev uses) of
        None \<Rightarrow> snd g (i, target)
      | Some use \<Rightarrow> black_texture_id (fst use) (texture_manager s))"
proof (induction uses rule: rev_induct)
  case (snoc use uses)
  then show ?case using set_black_effect [of s use] by auto
qed simp

definition sampler_type :: "GLenum \<Rightarrow> bool" where
  "sampler_type ty \<longleftrightarrow> ty \<in> {GL_SAMPLER_2D, GL_SAMPLER_CUBE, GL_SAMPLER_EXTERNAL_OES}"

lemma bind_target_inj:
  "sampler_type ty \<Longrightarrow> sampler_type ty' \<Longrightarrow>
    GetBindTargetForSamplerType ty = GetBindTargetForSamplerType ty' \<longleftrightarrow> ty = ty'"
  by (auto simp: sampler_type_def GetBindTargetForSamplerType_def)

lemma set_black_exact:
  assumes "\<forall>(ty, us)\<in>set samplers. sampler_type ty" "(ty, i) \<in> set (sampler_uses samplers)"
    "HaveUnrenderableTextures (texture_manager s)"
    "SetBlackTextureForNonRenderableTextures P samplers s = (b, s')" "tex_issued s' = tex_issued s @ cs"
  shows "snd (bindings_after cs g) (i, GetBindTargetForSamplerType ty) =
    (if needs_black s (ty, i) then black_texture_id ty (texture_manager s)
     else snd g (i, GetBindTargetForSamplerType ty))"
proof -
  let ?uses = "filter (needs_black s) (sampler_uses samplers)"
  let ?P = "\<lambda>use. snd use = i \<and> GetBindTargetForSamplerType (fst use) = GetBindTargetForSamplerType ty"
  have types: "sampler_type (fst use)" if "use \<in> set (sampler_uses samplers)" for use
    using that assms(1) by (auto simp: sampler_uses_def)
  have ty: "sampler_type ty" using types [OF assms(2)] by simp
  have only: "use = (ty, i)" if "use \<in> set ?uses" "?P use" for use
  proof -
    have "use \<in> set (sampler_uses samplers)" using that(1) unfolding set_filter by blast
    then show ?thesis using that(2) types [of use] bind_target_inj [OF _ ty] by (simp add: prod_eq_iff)
  qed
  have cs: "cs = concat (map (set_black s) ?uses)"
    using assms(3-5) by (auto simp: SetBlackTextureForNonRenderableTextures_def Let_def)
  show ?thesis
  proof (cases "needs_black s (ty, i)")
    case True
    then have "(ty, i) \<in> set (rev ?uses)" "?P (ty, i)" using assms(2) by simp_all
    then have "find ?P (rev ?uses) \<noteq> None" unfolding find_None_iff by blast
    then obtain use where use: "find ?P (rev ?uses) = Some use" by blast
    then obtain k where "k < length (rev ?uses)" "?P (rev ?uses ! k)" "use = rev ?uses ! k"
      unfolding find_Some_iff by blast
    then have "use \<in> set (rev ?uses)" "?P use" using nth_mem [of k "rev ?uses"] by simp_all
    then have "use = (ty, i)" using only by simp
    then show ?thesis using True use by (simp add: cs set_black_all)
  next
    case False
    have "find ?P (rev ?uses) = None"
    proof (rule ccontr)
      assume "find ?P (rev ?uses) \<noteq> None"
      then obtain use where "use \<in> set ?uses" "?P use" unfolding find_None_iff by auto
      then show False using only False by auto
    qed
    then show ?thesis using False by (simp add: cs set_black_all)
  qed
qed

lemma unrenderable_found:
  assumes "tex_decoder_ok s" "default_texture_external_oes_' (texture_manager s) = None"
    and "a < length (tex_objects (texture_manager s))" "\<not> deleted_' (texture_at a s)"
    and "\<not> CanRender (texture_features s) (texture_at a s)"
  shows "HaveUnrenderableTextures (texture_manager s)"
proof -
  let ?m = "texture_manager s"
  have ok: "textures_ok (texture_features s) ?m"
    using assms(1) by (simp add: tex_decoder_ok_def tex_reachable_ok)
  then have "a \<in> unrenderable (texture_features s) ?m"
    using assms(3-5) by (auto simp: unrenderable_def textures_ok_def)
  moreover have "finite (unrenderable (texture_features s) ?m)" by (simp add: unrenderable_def)
  ultimately have "0 < card (unrenderable (texture_features s) ?m)" by (metis card_gt_0_iff empty_iff)
  then show ?thesis using ok assms(2) by (simp add: textures_ok_def HaveUnrenderableTextures_def)
qed


text \<open>A reachable decoder whose active unit has a new texture, which cannot be rendered.\<close>

lemma new_texture_bound:
  obtains s :: "GLenum list TexDecoder" and a
  where "tex_decoder_ok s" "default_texture_external_oes_' (texture_manager s) = None"
    "bound_texture_2d (active_unit s) = Some a" "\<not> deleted_' (texture_at a s)"
    "\<not> CanRender (texture_features s) (texture_at a s)"
proof -
  obtain s0 where s0: "tex_decoder_reachable sample_tex_api queue_ok s0" "texture_infos_' (texture_manager s0) = []"
      "default_texture_external_oes_' (texture_manager s0) = None"
    by (rule sample_reachable)
  let ?a = "length (tex_objects (texture_manager s0))"
  let ?s1 = "Decoder_CreateTextureInfo 5 7 s0"
  let ?s2 = "bind_texture sample_tex_api GL_TEXTURE_2D ?a ?s1"
  have s1: "sample_tex.inv ?s1"
    by (rule sample_tex.inv_create [OF sample_tex.reachable_inv [OF s0(1)]]) (simp add: GetTextureInfo_def s0(2))
  have new: "texture_at ?a ?s1 = TextureInfo_new 7" "?a < length (tex_objects (texture_manager ?s1))"
    by (simp_all add: Decoder_CreateTextureInfo_def CreateTextureInfo_def Let_def)
  have s2: "sample_tex.inv ?s2" by (rule sample_tex.bind_texture_inv [OF s1 new(2)]) simp
  have active: "unat (active_texture_unit_' ?s1) < length (texture_units_' ?s1)"
    using s1 by (simp add: sample_tex.inv_def tex_decoder_ok_def units_ok_def word_less_nat_alt)
  have bind: "?s2 = update_active (bind_in_unit GL_TEXTURE_2D ?a) (tex_gl sample_tex_api (glBindTexture GL_TEXTURE_2D 7)
      (?s1\<lparr>texture_manager := SetInfoTarget (texture_features ?s1) ?a GL_TEXTURE_2D (texture_manager ?s1)\<rparr>))"
    using new by (simp add: bind_texture_def SetInfoTarget_def Texture_SetTarget_def TextureInfo_new_def
        IsStreamTexture_def Let_def)
  have "bound_texture_2d (active_unit ?s2) = Some ?a"
    unfolding bind using active by (simp add: update_active_def bind_in_unit_def tex_gl_def)
  moreover have t: "texture_at ?a ?s2 =
      Texture_SetTarget GL_TEXTURE_2D (MaxLevelsForTarget GL_TEXTURE_2D (texture_manager ?s1)) (TextureInfo_new 7)"
    unfolding bind using new by (simp add: update_active_def tex_gl_def SetInfoTarget_def)
  moreover have "\<not> CanRender F (texture_at ?a ?s2)" "\<not> deleted_' (texture_at ?a ?s2)" for F
    unfolding t by (simp_all add: Texture_SetTarget_def TextureInfo_new_def CanRender_def NeedsMips_def Let_def)
  moreover have "default_texture_external_oes_' (texture_manager ?s2) = None"
    unfolding bind using s0(3) by (simp add: update_active_def tex_gl_def SetInfoTarget_def
        Decoder_CreateTextureInfo_def CreateTextureInfo_def Let_def)
  moreover have "tex_decoder_ok ?s2" using s2 unfolding sample_tex.inv_def by blast
  ultimately show ?thesis using that by blast
qed


end
