(* ===== verification/Read_Pixels.thy ===== *)
theory Read_Pixels
  imports Texture_Uploads
begin

text \<open>
  \<^verbatim>\<open>GLES2DecoderImpl::HandleReadPixels\<close> (\<^verbatim>\<open>service/gles2_cmd_decoder.cc\<close>): the pixels of the framebuffer are
  written into memory of the client, row by row where the rectangle leaves the framebuffer, and the alpha
  channel is set where the framebuffer has none.

  The handler returns the writes it makes, in order: an address in a shared memory object and the bytes.
  Parameters, in \<open>PixelApi\<close>, are the bytes of a pixel of the bound framebuffer and the effect of
  \<^verbatim>\<open>glReadPixels\<close> on the driver.
\<close>

section \<open>The operation\<close>

record 'g PixelApi =
  r_pixel :: "'g \<Rightarrow> GLenum \<Rightarrow> GLenum \<Rightarrow> int \<times> int \<Rightarrow> byte list"
  r_read_pixels :: "GLint \<Rightarrow> GLint \<Rightarrow> GLsizei \<Rightarrow> GLsizei \<Rightarrow> GLenum \<Rightarrow> GLenum \<Rightarrow> 'g \<Rightarrow> 'g"

type_synonym row_writes = "(nat \<times> byte list) list"

definition pixel_row :: "'g PixelApi \<Rightarrow> 'g \<Rightarrow> GLenum \<Rightarrow> GLenum \<Rightarrow> int \<Rightarrow> int \<Rightarrow> nat \<Rightarrow> byte list" where
  "pixel_row Q d format type x y n = concat (map (\<lambda>i. r_pixel Q d format type (x + int i, y)) [0..<n])"

text \<open>\<^verbatim>\<open>glReadPixels\<close>: rows of pixels, each starting at a multiple of the alignment.\<close>

definition gl_read_pixels ::
  "'g PixelApi \<Rightarrow> GLint \<Rightarrow> GLint \<Rightarrow> GLsizei \<Rightarrow> GLsizei \<Rightarrow> GLenum \<Rightarrow> GLenum \<Rightarrow> nat \<Rightarrow> 'g TexDecoder
    \<Rightarrow> row_writes \<times> 'g TexDecoder" where
  "gl_read_pixels Q x y width height format type dst s =
     (let stride = pad_to (unat (pack_alignment_' s)) (unat width * bytes_per_pixel format type)
      in (map (\<lambda>r. (dst + r * stride,
                     pixel_row Q (driver s) format type (sint x) (sint y + int r) (unat width)))
            [0..<unat height],
          s\<lparr>driver := r_read_pixels Q x y width height format type (driver s)\<rparr>))"

text \<open>The size of a row without and with its padding, computed from images of one and of two rows; the
  inner \<^const>\<open>None\<close> is the error of dimensions out of range.\<close>

definition row_sizes :: "GLsizei \<Rightarrow> GLenum \<Rightarrow> GLenum \<Rightarrow> GLint \<Rightarrow> (GLsizei \<times> GLsizei) option option" where
  "row_sizes width format type alignment = do {
     one \<leftarrow> ComputeImageDataSize width 1 format type alignment;
     case one of
       None \<Rightarrow> Some None
     | Some unpadded \<Rightarrow> do {
         two \<leftarrow> ComputeImageDataSize width 2 format type alignment;
         case two of
           None \<Rightarrow> Some None
         | Some size2 \<Rightarrow>
             let padded = size2 - unpadded
             in Some (if sint padded < 0 \<or> sint unpadded < 0 then None else Some (unpadded, padded))
       }
   }"

text \<open>The loop over the rows: \<open>yy\<close> is the next row, of \<open>n\<close> left.\<close>

fun read_rows ::
  "'g PixelApi \<Rightarrow> GLint \<Rightarrow> GLint \<Rightarrow> GLsizei \<Rightarrow> GLsizei \<Rightarrow> GLenum \<Rightarrow> GLenum \<Rightarrow> nat \<Rightarrow> nat \<Rightarrow> nat
    \<Rightarrow> nat \<Rightarrow> nat \<Rightarrow> nat \<Rightarrow> 'g TexDecoder \<Rightarrow> row_writes \<times> 'g TexDecoder" where
  "read_rows Q y read_x read_width max_height format type unpadded padded dest_row_offset yy 0 dst s = ([], s)"
| "read_rows Q y read_x read_width max_height format type unpadded padded dest_row_offset yy (Suc n) dst s =
     (let ry = y + word_of_nat yy;
          (row, s) = (if sint ry \<ge> 0 \<and> sint ry < sint max_height \<and> sint read_width > 0
                      then gl_read_pixels Q read_x ry read_width 1 format type (dst + dest_row_offset) s
                      else ([], s));
          (rows, s) = read_rows Q y read_x read_width max_height format type unpadded padded dest_row_offset
                        (Suc yy) n (dst + padded) s
      in ((dst, replicate unpadded 0) # row @ rows, s))"

definition read_clipped ::
  "'g PixelApi \<Rightarrow> GLint \<Rightarrow> GLint \<Rightarrow> GLsizei \<Rightarrow> GLsizei \<Rightarrow> GLenum \<Rightarrow> GLenum \<Rightarrow> GLsizei \<times> GLsizei \<Rightarrow> GLint
    \<Rightarrow> nat \<Rightarrow> 'g TexDecoder \<Rightarrow> (row_writes \<times> 'g TexDecoder) option option" where
  "read_clipped Q x y width height format type max_size max_x pixels s = do {
     sizes \<leftarrow> row_sizes width format type (pack_alignment_' s);
     case sizes of
       None \<Rightarrow> Some None
     | Some (unpadded, padded) \<Rightarrow> do {
         let dest_x_offset = smax (- x) 0;
         off \<leftarrow> ComputeImageDataSize dest_x_offset 1 format type (pack_alignment_' s);
         case off of
           None \<Rightarrow> Some None
         | Some dest_row_offset \<Rightarrow>
             let read_x = smax 0 x;
                 read_end_x = smax 0 (if sint max_x < sint (fst max_size) then max_x else fst max_size);
                 read_width = read_end_x - read_x
             in Some (Some (read_rows Q y read_x read_width (snd max_size) format type (unat unpadded)
                  (unat padded) (unat dest_row_offset) 0 (unat height) pixels s))
       }
   }"

definition fix_alpha :: "GLenum \<Rightarrow> nat \<Rightarrow> nat \<Rightarrow> nat \<Rightarrow> nat \<Rightarrow> row_writes" where
  "fix_alpha format unpadded padded height pixels =
     (if format \<in> {GL_RGBA, GL_BGRA_EXT, GL_ALPHA} then
        let offset = (if format = GL_ALPHA then 0 else 3); step = (if format = GL_ALPHA then 1 else 4)
        in concat (map (\<lambda>yy. map (\<lambda>k. (pixels + offset + yy * padded + k * step, [255]))
                               [0..<(unpadded + step - 1) div step]) [0..<height])
      else [])"

text \<open>From the resolve of the framebuffer on. The result is written when GL reported no error.\<close>

definition read_pixels_body ::
  "'g TexApi \<Rightarrow> 'g PixelApi \<Rightarrow> GLint \<Rightarrow> GLint \<Rightarrow> GLsizei \<Rightarrow> GLsizei \<Rightarrow> GLenum \<Rightarrow> GLenum \<Rightarrow> shm_ptr \<Rightarrow> shm_ptr
    \<Rightarrow> 'g TexDecoder \<Rightarrow> ((shm_ptr \<times> byte list) list \<times> 'g TexDecoder) option" where
  "read_pixels_body P Q x y width height format type pixels result s =
     (let max_size = t_read_size P (driver s);
          (okx, max_x) = SafeAddInt x width;
          (oky, max_y) = SafeAddInt y height;
          at = map (\<lambda>(k, bs). ((fst pixels, k), bs));
          range_error = tex_error GL_INVALID_VALUE ''glReadPixels: dimensions out of range''
      in if \<not> okx \<or> \<not> oky then Some ([], range_error s)
         else do {
           rows \<leftarrow> (if sint x < 0 \<or> sint y < 0 \<or> sint max_x > sint (fst max_size) \<or> sint max_y > sint (snd max_size)
                    then read_clipped Q x y width height format type max_size max_x (snd pixels) s
                    else Some (Some (gl_read_pixels Q x y width height format type (snd pixels) s)));
           case rows of
             None \<Rightarrow> Some ([], range_error s)
           | Some (ws, s) \<Rightarrow>
               let (error, s) = PeekGLError (t_get_error P) s
               in if error \<noteq> GL_NO_ERROR then Some (at ws, s)
                  else
                    let out = at ws @ [(result, [1, 0, 0, 0])]
                    in if GetChannelsForFormat (t_read_format P (driver s)) AND 0x0008 \<noteq> 0 then Some (out, s)
                       else do {
                         sizes \<leftarrow> row_sizes width format type (pack_alignment_' s);
                         case sizes of
                           None \<Rightarrow> Some (out, range_error s)
                         | Some (unpadded, padded) \<Rightarrow>
                             Some (if type \<noteq> GL_UNSIGNED_BYTE
                                   then (out, tex_error GL_INVALID_OPERATION ''unsupported readPixel format'' s)
                                   else (out @ at (fix_alpha format (unat unpadded) (unat padded) (unat height)
                                                     (snd pixels)), s))
                       }
         })"

definition HandleReadPixels ::
  "'g TexApi \<Rightarrow> 'g PixelApi \<Rightarrow> 'a decoder_world_scheme \<Rightarrow> GLint \<Rightarrow> GLint \<Rightarrow> GLsizei \<Rightarrow> GLsizei \<Rightarrow> GLenum
    \<Rightarrow> GLenum \<Rightarrow> uint32 \<Rightarrow> uint32 \<Rightarrow> uint32 \<Rightarrow> uint32 \<Rightarrow> 'g TexDecoder
    \<Rightarrow> (Error \<times> (shm_ptr \<times> byte list) list \<times> 'g TexDecoder) option" where
  "HandleReadPixels P Q w x y width height format type pixels_id pixels_offset result_id result_offset s =
     (if sint width < 0 \<or> sint height < 0 then
        Some (kNoError, [], tex_error GL_INVALID_VALUE ''glReadPixels: dimensions < 0'' s)
      else do {
        img \<leftarrow> ComputeImageDataSize width height format type (pack_alignment_' s);
        case img of
          None \<Rightarrow> Some (kOutOfBounds, [], s)
        | Some pixels_size \<Rightarrow>
            (case (GetAddressAndCheckSize (unat pixels_id) (unat pixels_offset) (unat pixels_size) w,
                   GetAddressAndCheckSize (unat result_id) (unat result_offset) 4 w) of
               (Some pixels, Some result) \<Rightarrow>
                 if \<not> IsValid format (v_read_pixel_format (validators_' (texture_features s))) then
                   Some (kNoError, [], tex_error GL_INVALID_ENUM ''glReadPixels: format GL_INVALID_ENUM'' s)
                 else if \<not> IsValid type (v_pixel_type (validators_' (texture_features s))) then
                   Some (kNoError, [], tex_error GL_INVALID_ENUM ''glReadPixels: type GL_INVALID_ENUM'' s)
                 else if width = 0 \<or> height = 0 then Some (kNoError, [], s)
                 else do {
                   s \<leftarrow> CopyRealGLErrorsToWrapper (t_get_error P) s;
                   (ws, s) \<leftarrow> read_pixels_body P Q x y width height format type pixels result
                                (on_tex_driver (t_begin_resolve P) s);
                   Some (kNoError, ws, on_tex_driver (t_end_resolve P) s)
                 }
             | _ \<Rightarrow> Some (kOutOfBounds, [], s))
      })"

text \<open>The memory afterwards.\<close>

definition apply_writes :: "(shm_ptr \<times> byte list) list \<Rightarrow> 'a decoder_world_scheme \<Rightarrow> 'a decoder_world_scheme" where
  "apply_writes ws w = fold (\<lambda>(p, bs). shm_write p bs) ws w"

section \<open>Where the writes go\<close>

text \<open>What the model relies on: a pixel has the size of its format, and reading does not change pixels.\<close>

locale pixel_api =
  fixes Q :: "'g PixelApi"
  assumes pixel_length: "length (r_pixel Q d format type p) = bytes_per_pixel format type"
    and read_keeps: "r_pixel Q (r_read_pixels Q x y w h format type d) = r_pixel Q d"

lemma row_extents:
  "image_extent a row 1 = row" "image_extent a row (Suc 0) = row" "image_extent a row 2 = pad_to a row + row"
  using image_extent_Suc [of a row 0] image_extent_Suc [of a row 1] by (simp_all add: row_end_def numeral_2_eq_2)

lemma row_sizes_exact:
  assumes "row_sizes w fmt ty al = Some (Some (unpadded, padded))" "0 \<le> sint w" "0 < sint al"
  shows "unat unpadded = unat w * bytes_per_pixel fmt ty"
    "unat padded = pad_to (unat al) (unat w * bytes_per_pixel fmt ty)"
proof -
  let ?row = "unat w * bytes_per_pixel fmt ty"
  obtain two where one: "ComputeImageDataSize w 1 fmt ty al = Some (Some unpadded)"
    and two: "ComputeImageDataSize w 2 fmt ty al = Some (Some two)" and p: "padded = two - unpadded"
    using assms(1) by (auto simp: row_sizes_def Let_def split: bind_splits option.splits if_splits)
  have "unat unpadded = image_extent (unat al) ?row (unat (1 :: GLsizei))"
    using data_size_bytes [OF one assms(2) _ assms(3)] by (simp add: image_bytes_def)
  then show un: "unat unpadded = ?row" by (simp add: row_extents)
  have "unat two = image_extent (unat al) ?row (unat (2 :: GLsizei))"
    using data_size_bytes [OF two assms(2) _ assms(3)] by (simp add: image_bytes_def)
  then have "unat two = pad_to (unat al) ?row + ?row" by (simp add: row_extents)
  then show "unat padded = pad_to (unat al) ?row"
    using un p by (simp add: unat_sub word_le_nat_alt)
qed

text \<open>The bytes of row \<open>i\<close> of an image at \<open>base\<close>.\<close>

definition in_row :: "nat \<Rightarrow> nat \<Rightarrow> nat \<Rightarrow> nat \<Rightarrow> nat \<times> byte list \<Rightarrow> bool" where
  "in_row base stride row i = (\<lambda>(k, bs). base + i * stride \<le> k \<and> k + length bs \<le> base + i * stride + row)"

lemma in_row_Suc: "in_row (base + stride) stride row i e = in_row base stride row (Suc i) e"
  by (cases e) (simp add: in_row_def algebra_simps)

lemma in_row_extent:
  assumes "in_row base (pad_to a row) row i (k, bs)" "i < h"
  shows "base \<le> k" "k + length bs \<le> base + image_extent a row h"
proof -
  obtain h' where h: "h = Suc h'" "i \<le> h'" using assms(2) by (cases h) auto
  have "i * pad_to a row \<le> h' * pad_to a row" using h(2) by simp
  then show "base \<le> k" "k + length bs \<le> base + image_extent a row h"
    using assms(1) unfolding in_row_def prod.case h(1) image_extent_Suc row_end_def by linarith+
qed

lemma smax_offset:
  fixes x w :: "32 word"
  assumes "sint m = sint x + sint w" "sint c = max 0 (min (sint m) W)" "sint rw = sint c - max 0 (sint x)" "0 < sint rw"
  shows "sint (smax (- x) 0) + sint rw \<le> sint w"
proof -
  have x: "- 2147483648 < sint x"
  proof (rule ccontr)
    assume "\<not> - 2147483648 < sint x"
    then have "sint m \<le> 0" using assms(1) sint_range [of w] by linarith
    then show False using assms by simp
  qed
  have "sint (- x) = - sint x"
    using x sint_range [of x] sint_diff_exact [of 0 x] by simp
  then show ?thesis using assms by (simp add: smax_sint max_def min_def split: if_splits)
qed

context pixel_api
begin

lemma row_length: "length (pixel_row Q d fmt ty x y n) = n * bytes_per_pixel fmt ty"
  by (induction n) (simp_all add: pixel_row_def pixel_length)

lemma gl_read_rows:
  assumes "e \<in> set (fst (gl_read_pixels Q x y w h fmt ty dst s))"
  shows "\<exists>i < unat h. in_row dst (pad_to (unat (pack_alignment_' s)) (unat w * bytes_per_pixel fmt ty))
    (unat w * bytes_per_pixel fmt ty) i e"
  using assms by (auto simp: gl_read_pixels_def in_row_def row_length Let_def)

lemma read_rows_inside:
  assumes "0 < sint rw \<Longrightarrow> off + unat rw * bytes_per_pixel fmt ty \<le> row"
    and "e \<in> set (fst (read_rows Q y rx rw mh fmt ty row stride off yy n dst s))"
  shows "\<exists>i < n. in_row dst stride row i e"
  using assms(2)
proof (induction n arbitrary: yy dst s)
  case (Suc n)
  let ?ry = "y + word_of_nat yy"
  let ?inside = "sint ?ry \<ge> 0 \<and> sint ?ry < sint mh \<and> sint rw > 0"
  let ?r = "if ?inside then gl_read_pixels Q rx ?ry rw 1 fmt ty (dst + off) s else ([], s)"
  have e: "e = (dst, replicate row 0) \<or> e \<in> set (fst ?r)
      \<or> e \<in> set (fst (read_rows Q y rx rw mh fmt ty row stride off (Suc yy) n (dst + stride) (snd ?r)))"
    using Suc.prems by (auto simp: Let_def split_beta split: if_splits)
  have here: "in_row dst stride row 0 e" if "e \<in> set (fst ?r)"
  proof -
    have "?inside" "e \<in> set (fst (gl_read_pixels Q rx ?ry rw 1 fmt ty (dst + off) s))"
      using that by (auto split: if_splits)
    then show ?thesis using assms(1) by (auto simp: gl_read_pixels_def in_row_def row_length Let_def)
  qed
  show ?case
  proof (cases "e = (dst, replicate row 0) \<or> e \<in> set (fst ?r)")
    case True
    then have "in_row dst stride row 0 e" using here by (auto simp: in_row_def)
    then show ?thesis by blast
  next
    case False
    then obtain i where "i < n" "in_row (dst + stride) stride row i e" using e Suc.IH by blast
    then show ?thesis unfolding in_row_Suc by (intro exI [of _ "Suc i"]) simp
  qed
qed simp

lemma read_clipped_parts:
  assumes "read_clipped Q x y w h fmt ty sz mx base s = Some (Some (ws, s'))"
    and "0 \<le> sint w" "0 < sint (pack_alignment_' s)" "sint mx = sint x + sint w"
  obtains rw where "ws = fst (read_rows Q y (smax 0 x) rw (snd sz) fmt ty (unat w * bytes_per_pixel fmt ty)
      (pad_to (unat (pack_alignment_' s)) (unat w * bytes_per_pixel fmt ty))
      (unat (smax (- x) 0) * bytes_per_pixel fmt ty) 0 (unat h) base s)"
    and "sint rw = max 0 (min (sint x + sint w) (sint (fst sz))) - max 0 (sint x)"
    and "0 < sint rw \<Longrightarrow> unat (smax (- x) 0) + unat rw \<le> unat w"
proof -
  let ?al = "pack_alignment_' s" and ?bpp = "bytes_per_pixel fmt ty" and ?dx = "smax (- x) 0"
  let ?c = "smax 0 (if sint mx < sint (fst sz) then mx else fst sz)"
  let ?rw = "?c - smax 0 x"
  obtain un pd off where sizes: "row_sizes w fmt ty ?al = Some (Some (un, pd))"
    and off: "ComputeImageDataSize ?dx 1 fmt ty ?al = Some (Some off)"
    and ws: "ws = fst (read_rows Q y (smax 0 x) ?rw (snd sz) fmt ty (unat un) (unat pd) (unat off) 0 (unat h) base s)"
    using assms(1) by (auto simp: read_clipped_def Let_def split: bind_splits option.splits prod.splits)
  note un = row_sizes_exact [OF sizes assms(2,3)]
  have "unat off = image_extent (unat ?al) (unat ?dx * ?bpp) (unat (1 :: GLsizei))"
    using data_size_bytes [OF off _ _ assms(3)] by (simp add: image_bytes_def smax_sint)
  then have off_bytes: "unat off = unat ?dx * ?bpp" by (simp add: row_extents)
  have c: "sint ?c = max 0 (min (sint mx) (sint (fst sz)))" by (simp add: smax_sint min_def)
  have rw: "sint ?rw = sint ?c - max 0 (sint x)"
    using sint_range [of ?c] sint_range [of x] by (subst sint_diff_exact) (simp_all add: smax_sint)
  have fits: "unat ?dx + unat ?rw \<le> unat w" if pos: "0 < sint ?rw"
  proof -
    have "sint ?dx + sint ?rw \<le> sint w" by (rule smax_offset [OF assms(4) c rw pos])
    moreover have "sint ?dx = int (unat ?dx)" "sint ?rw = int (unat ?rw)" "sint w = int (unat w)"
      using sint_nonneg_unat(1) pos assms(2) by (simp_all add: smax_sint)
    ultimately show ?thesis by linarith
  qed
  show ?thesis
    by (rule that [OF ws [unfolded un off_bytes]]) (use rw c fits assms(4) in simp_all)
qed

lemma read_clipped_inside:
  assumes "read_clipped Q x y w h fmt ty sz mx base s = Some (Some (ws, s'))"
    and "0 \<le> sint w" "0 < sint (pack_alignment_' s)" "sint mx = sint x + sint w" "e \<in> set ws"
  shows "\<exists>i < unat h. in_row base (pad_to (unat (pack_alignment_' s)) (unat w * bytes_per_pixel fmt ty))
    (unat w * bytes_per_pixel fmt ty) i e"
proof -
  obtain rw where ws: "ws = fst (read_rows Q y (smax 0 x) rw (snd sz) fmt ty (unat w * bytes_per_pixel fmt ty)
      (pad_to (unat (pack_alignment_' s)) (unat w * bytes_per_pixel fmt ty))
      (unat (smax (- x) 0) * bytes_per_pixel fmt ty) 0 (unat h) base s)"
    and fits: "0 < sint rw \<Longrightarrow> unat (smax (- x) 0) + unat rw \<le> unat w"
    using read_clipped_parts [OF assms(1-4)] by metis
  have "unat (smax (- x) 0) * bytes_per_pixel fmt ty + unat rw * bytes_per_pixel fmt ty
      \<le> unat w * bytes_per_pixel fmt ty" if "0 < sint rw"
    using fits [OF that] by (simp add: distrib_right [symmetric])
  from read_rows_inside [OF this assms(5) [unfolded ws]] show ?thesis .
qed

lemma fix_alpha_inside:
  assumes "e \<in> set (fix_alpha fmt (unat w * bytes_per_pixel fmt GL_UNSIGNED_BYTE) stride h base)"
  shows "\<exists>i < h. in_row base stride (unat w * bytes_per_pixel fmt GL_UNSIGNED_BYTE) i e"
proof -
  let ?step = "if fmt = GL_ALPHA then 1 else 4 :: nat"
  have fmt: "fmt \<in> {GL_RGBA, GL_BGRA_EXT, GL_ALPHA}" using assms by (auto simp: fix_alpha_def split: if_splits)
  then have bpp: "bytes_per_pixel fmt GL_UNSIGNED_BYTE = ?step"
    by (auto simp: bytes_per_pixel_def BytesPerElement_def ElementsPerGroup_def)
  have count: "(unat w * ?step + ?step - 1) div ?step = unat w" by simp
  obtain i k where ik: "i < h" "k < unat w"
      "e = (base + (if fmt = GL_ALPHA then 0 else 3) + i * stride + k * ?step, [255])"
    using assms fmt unfolding fix_alpha_def bpp by (auto simp: Let_def split: if_splits)
  have "k * ?step + ?step \<le> unat w * ?step" using ik(2) by auto
  then show ?thesis
    using ik(1,3) unfolding bpp by (intro exI [of _ i]) (auto simp: in_row_def)
qed

end

text \<open>Inside the pixels, \<open>n\<close> bytes from \<open>p\<close>, or all of the result at \<open>r\<close>.\<close>

definition write_inside :: "shm_ptr \<Rightarrow> nat \<Rightarrow> shm_ptr \<Rightarrow> shm_ptr \<times> byte list \<Rightarrow> bool" where
  "write_inside p n r = (\<lambda>(q, bs).
     fst q = fst p \<and> snd p \<le> snd q \<and> snd q + length bs \<le> snd p + n \<or> q = r \<and> length bs = 4)"

lemma write_inside_rows:
  assumes "\<forall>e\<in>set ws. \<exists>i < unat h. in_row (snd p) (pad_to (unat al) (unat w * bytes_per_pixel fmt ty))
      (unat w * bytes_per_pixel fmt ty) i e"
  shows "\<forall>e\<in>set (map (\<lambda>(k, bs). ((fst p, k), bs)) ws). write_inside p (image_bytes al w h fmt ty) r e"
  using assms in_row_extent by (fastforce simp: write_inside_def image_bytes_def)

lemma row_sizes_total:
  assumes "al \<noteq> 0"
  shows "\<exists>sizes. row_sizes w fmt ty al = Some sizes"
proof -
  note total = tex_api.ComputeImageDataSize_total [OF sample_tex.tex_api_axioms assms]
  obtain one two where "ComputeImageDataSize w 1 fmt ty al = Some one" "ComputeImageDataSize w 2 fmt ty al = Some two"
    using total by blast
  then show ?thesis by (cases one; cases two) (simp_all add: row_sizes_def Let_def)
qed

section \<open>The handler returns and stays inside\<close>

locale read_api = tex_api P pending_errors ok + pixel_api Q
  for P :: "'g TexApi" and pending_errors :: "'g \<Rightarrow> GLenum list" and ok :: "'g \<Rightarrow> bool" and Q :: "'g PixelApi" +
  assumes read_ok: "ok d \<Longrightarrow> ok (r_read_pixels Q x y w h format type d)"
begin

lemma gl_read_quiet: "quiet s (snd (gl_read_pixels Q x y w h fmt ty dst s))"
  by (simp add: gl_read_pixels_def quiet_def same_textures_def read_ok Let_def)

lemma read_rows_quiet: "quiet s (snd (read_rows Q y rx rw mh fmt ty un pd off yy n dst s))"
proof (induction n arbitrary: yy dst s)
  case (Suc n)
  let ?ry = "y + word_of_nat yy"
  let ?r = "if sint ?ry \<ge> 0 \<and> sint ?ry < sint mh \<and> sint rw > 0
    then gl_read_pixels Q rx ?ry rw 1 fmt ty (dst + off) s else ([], s)"
  have "quiet s (snd ?r)" using gl_read_quiet by simp
  from quiet_trans [OF this Suc.IH] show ?case by (simp add: Let_def split_beta)
qed simp

lemma read_clipped_total:
  assumes "pack_alignment_' s \<noteq> 0"
  shows "\<exists>r. read_clipped Q x y w h fmt ty sz mx base s = Some r
    \<and> (\<forall>ws s'. r = Some (ws, s') \<longrightarrow> quiet s s')"
proof -
  obtain sizes where sizes: "row_sizes w fmt ty (pack_alignment_' s) = Some sizes"
    using row_sizes_total [OF assms] by blast
  obtain off where off: "ComputeImageDataSize (smax (- x) 0) 1 fmt ty (pack_alignment_' s) = Some off"
    using ComputeImageDataSize_total [OF assms] by blast
  have "quiet s s'" if "read_rows Q y rx rw mh fmt ty un pd o' 0 n dst s = (ws, s')" for rx rw mh un pd o' n dst ws s'
    using read_rows_quiet [of s y rx rw mh fmt ty un pd o' 0 n dst] that by simp
  then show ?thesis
    by (cases sizes; cases off) (auto simp: read_clipped_def sizes off Let_def split: prod.split)
qed

lemma alignments:
  assumes "inv s"
  shows "0 < sint (pack_alignment_' s) \<and> pack_alignment_' s \<noteq> 0"
proof -
  have "0 < sint (pack_alignment_' s)" using assms by (intro alignment_facts(2)) (simp add: inv_def tex_decoder_ok_def)
  then show ?thesis by auto
qed

lemma body_safe:
  assumes s: "inv s" and size: "0 \<le> sint w" "0 \<le> sint h"
  shows "\<exists>ws s'. read_pixels_body P Q x y w h fmt ty p r s = Some (ws, s') \<and> inv s'
    \<and> (\<forall>e\<in>set ws. write_inside p (image_bytes (pack_alignment_' s) w h fmt ty) r e)"
proof (cases "fst (SafeAddInt x w) \<and> fst (SafeAddInt y h)")
  case False
  then show ?thesis
    using quiet_inv [OF quiet_error s] by (auto simp: read_pixels_body_def Let_def split_beta)
next
  case True
  then obtain mx my where m: "SafeAddInt x w = (True, mx)" "SafeAddInt y h = (True, my)"
    by (metis prod.collapse)
  let ?sz = "t_read_size P (driver s)"
  let ?clip = "sint x < 0 \<or> sint y < 0 \<or> sint mx > sint (fst ?sz) \<or> sint my > sint (snd ?sz)"
  let ?rows = "if ?clip then read_clipped Q x y w h fmt ty ?sz mx (snd p) s
    else Some (Some (gl_read_pixels Q x y w h fmt ty (snd p) s))"
  let ?inside = "\<lambda>ws. \<forall>e\<in>set (map (\<lambda>(k, bs). ((fst p, k), bs)) ws).
    write_inside p (image_bytes (pack_alignment_' s) w h fmt ty) r e"
  note al = alignments [OF s]
  have rows: "\<exists>rows. ?rows = Some rows \<and> (\<forall>ws t. rows = Some (ws, t) \<longrightarrow> quiet s t \<and> ?inside ws)"
  proof (cases ?clip)
    case True
    obtain rr where rr: "read_clipped Q x y w h fmt ty ?sz mx (snd p) s = Some rr"
        "\<forall>ws t. rr = Some (ws, t) \<longrightarrow> quiet s t"
      using read_clipped_total al by blast
    have "?inside ws" if "rr = Some (ws, t)" for ws t
      using read_clipped_inside [OF rr(1) [unfolded that] size(1) _ SafeAddInt_exact [OF m(1) size(1)]] al
      by (intro write_inside_rows) blast
    then show ?thesis using True rr by auto
  next
    case False
    have "?inside (fst (gl_read_pixels Q x y w h fmt ty (snd p) s))"
      using gl_read_rows by (intro write_inside_rows) blast
    then show ?thesis
      using False gl_read_quiet [of s x y w h fmt ty "snd p"] by (intro exI [of _ "Some (gl_read_pixels Q x y w h fmt ty (snd p) s)"]) auto
  qed
  then obtain rows where rows: "?rows = Some rows" "\<And>ws t. rows = Some (ws, t) \<Longrightarrow> quiet s t \<and> ?inside ws"
    by blast
  let ?err = "tex_error GL_INVALID_VALUE ''glReadPixels: dimensions out of range''"
  show ?thesis
  proof (cases rows)
    case None
    then show ?thesis using m rows(1) quiet_inv [OF quiet_error s] by (simp add: read_pixels_body_def Let_def)
  next
    case (Some wt)
    obtain ws t where wt: "wt = (ws, t)" by (cases wt)
    have t: "quiet s t" and inside: "?inside ws" using rows(2) Some wt by auto
    obtain e u where u: "PeekGLError (t_get_error P) t = (e, u)" by fastforce
    have "quiet t u" using quiet_peek [of t] by (simp add: u)
    then have su: "quiet s u" by (rule quiet_trans [OF t])
    then have iu: "inv u" and pack: "pack_alignment_' u = pack_alignment_' s"
      using quiet_inv s by (auto simp: quiet_def same_textures_def)
    obtain sizes where sizes: "row_sizes w fmt ty (pack_alignment_' u) = Some sizes"
      using row_sizes_total al unfolding pack by blast
    let ?out = "map (\<lambda>(k, bs). ((fst p, k), bs)) ws @ [(r, [1, 0, 0, 0])]"
    have out: "\<forall>e\<in>set ?out. write_inside p (image_bytes (pack_alignment_' s) w h fmt ty) r e"
      using inside by (auto simp: write_inside_def)
    have alpha: "?inside (fix_alpha fmt (unat un) (unat pd) (unat h) (snd p))"
      if "sizes = Some (un, pd)" "ty = GL_UNSIGNED_BYTE" for un pd
    proof -
      note ex = row_sizes_exact [OF sizes [unfolded that(1) pack] size(1)] al
      show ?thesis
        using fix_alpha_inside ex that(2) by (intro write_inside_rows) (auto simp: ex)
    qed
    note run = m rows(1) Some wt u sizes iu inside out
    show ?thesis
    proof (cases "e = GL_NO_ERROR \<and> GetChannelsForFormat (t_read_format P (driver u)) AND 0x0008 = 0")
      case False
      then show ?thesis using run by (auto simp: read_pixels_body_def Let_def)
    next
      case True
      then show ?thesis
        using run alpha quiet_inv [OF quiet_error iu]
        by (cases sizes) (auto simp: read_pixels_body_def Let_def split: prod.split)
    qed
  qed
qed

lemma HandleReadPixels_safe:
  assumes s: "inv s"
  shows "\<exists>e ws s'. HandleReadPixels P Q w x y width height fmt ty pid poff rid roff s = Some (e, ws, s') \<and> inv s'
    \<and> (ws \<noteq> [] \<longrightarrow> (\<exists>p r n. ComputeImageDataSize width height fmt ty (pack_alignment_' s) = Some (Some n)
         \<and> unat n = image_bytes (pack_alignment_' s) width height fmt ty
         \<and> GetAddressAndCheckSize (unat pid) (unat poff) (unat n) w = Some p
         \<and> GetAddressAndCheckSize (unat rid) (unat roff) 4 w = Some r
         \<and> (\<forall>e\<in>set ws. write_inside p (unat n) r e)))"
proof (cases "sint width < 0 \<or> sint height < 0")
  case True
  then show ?thesis using quiet_inv [OF quiet_error s] by (simp add: HandleReadPixels_def)
next
  case False
  then have size: "0 \<le> sint width" "0 \<le> sint height" by simp_all
  note al = alignments [OF s]
  obtain img where img: "ComputeImageDataSize width height fmt ty (pack_alignment_' s) = Some img"
    using ComputeImageDataSize_total al by blast
  show ?thesis
  proof (cases img)
    case None
    then show ?thesis using False img s by (simp add: HandleReadPixels_def)
  next
    case (Some n)
    have bytes: "unat n = image_bytes (pack_alignment_' s) width height fmt ty"
      using data_size_bytes [OF img [unfolded Some] size] al by simp
    let ?p = "GetAddressAndCheckSize (unat pid) (unat poff) (unat n) w"
    let ?r = "GetAddressAndCheckSize (unat rid) (unat roff) 4 w"
    show ?thesis
    proof (cases "?p = None \<or> ?r = None")
      case True
      then show ?thesis using False img Some s by (auto simp: HandleReadPixels_def split: option.split)
    next
      case no: False
      then obtain p r where pr: "?p = Some p" "?r = Some r" by auto
      obtain u where u: "CopyRealGLErrorsToWrapper (t_get_error P) s = Some u" "quiet s u"
        using quiet_copy [of s] s by (auto simp: inv_def)
      let ?b = "on_tex_driver (t_begin_resolve P) u"
      have b: "quiet s ?b" by (rule quiet_trans [OF u(2) quiet_driver [OF resolve_ok(1)]])
      have pack: "pack_alignment_' ?b = pack_alignment_' s" using b by (simp add: quiet_def same_textures_def)
      obtain ws t where t: "read_pixels_body P Q x y width height fmt ty p r ?b = Some (ws, t)" "inv t"
          "\<forall>e\<in>set ws. write_inside p (unat n) r e"
        using body_safe [OF quiet_inv [OF b s] size, of x y fmt ty p r] unfolding pack bytes by blast
      have fin: "inv (on_tex_driver (t_end_resolve P) t)"
        by (rule quiet_inv [OF quiet_driver [OF resolve_ok(2)] t(2)])
      show ?thesis
        using False img Some pr u(1) t fin s bytes quiet_inv [OF quiet_error s]
        by (simp add: HandleReadPixels_def)
    qed
  qed
qed

end

lemma apply_writes_safe:
  assumes "\<forall>(p, bs)\<in>set ws. snd p + length bs \<le> length (shm_data w (fst p))
      \<and> (\<exists>h. buf_ptr (GetTransferBuffer h w) = Some (fst p))" "decoder_wf w"
  shows "mem_safe w (apply_writes ws w)"
  using assms
proof (induction ws arbitrary: w)
  case Nil
  then show ?case by (simp add: apply_writes_def mem_safe_refl)
next
  case (Cons e ws)
  obtain p bs where e: "e = (p, bs)" by (cases e)
  let ?w = "shm_write p bs w"
  have safe: "mem_safe w ?w" using Cons.prems e by (intro mem_safe_write) auto
  have same: "GetTransferBuffer h ?w = GetTransferBuffer h w" for h
    by (simp add: shm_write_def GetTransferBuffer_lookup)
  have "length (shm_data ?w obj) = length (shm_data w obj)" for obj
    using safe by (simp add: mem_safe_def)
  then have "mem_safe ?w (apply_writes ws ?w)"
    using Cons.prems safe by (intro Cons.IH) (auto simp: same mem_safe_def)
  then show ?case
    using safe by (auto simp: apply_writes_def e mem_safe_def same)
qed

lemma write_inside_bounds:
  assumes "write_inside p n r (q, bs)" "decoder_wf w" "n < 4294967296"
    "GetAddressAndCheckSize (unat (pid :: uint32)) (unat (poff :: uint32)) n w = Some p"
    "GetAddressAndCheckSize (unat (rid :: uint32)) (unat (roff :: uint32)) 4 w = Some r"
  shows "snd q + length bs \<le> length (shm_data w (fst q)) \<and> (\<exists>h. buf_ptr (GetTransferBuffer h w) = Some (fst q))"
proof -
  have lim: "unat poff < 4294967296" "unat roff < 4294967296"
    using unsigned_less [of poff] unsigned_less [of roff] by simp_all
  note p = GetAddress_bounds [OF assms(4,2) lim(1) assms(3)]
  note r = GetAddress_bounds [OF assms(5,2) lim(2)]
  show ?thesis using assms(1) p r by (auto simp: write_inside_def)
qed

text \<open>C9: in every reachable decoder, on any GL that writes rows as specified, \<^verbatim>\<open>glReadPixels\<close> returns whatever
  the client sends, and everything it writes (rows clipped to the framebuffer, zeros, alpha values, the
  result) lies inside the pixels, whose size is that of the image at the current alignment, or inside the
  result: no memory but the buffers the client registered changes.\<close>

theorem read_pixels_in_bounds:
  assumes "read_api P pending_errors okd Q" "tex_decoder_reachable P okd s"
  shows "\<exists>e ws s'. HandleReadPixels P Q w x y width height fmt ty pid poff rid roff s = Some (e, ws, s')
    \<and> tex_decoder_ok s'
    \<and> (ws \<noteq> [] \<longrightarrow> (\<exists>p r. GetAddressAndCheckSize (unat pid) (unat poff)
            (image_bytes (pack_alignment_' s) width height fmt ty) w = Some p
         \<and> GetAddressAndCheckSize (unat rid) (unat roff) 4 w = Some r
         \<and> (\<forall>e\<in>set ws. write_inside p (image_bytes (pack_alignment_' s) width height fmt ty) r e)))
    \<and> (decoder_wf w \<longrightarrow> mem_safe w (apply_writes ws w))"
proof -
  have tex: "tex_api P pending_errors okd" using assms(1) by (rule read_api.axioms(1))
  have inv: "tex_api.inv okd s" by (rule tex_api.reachable_inv [OF tex assms(2)])
  obtain e ws s' where run: "HandleReadPixels P Q w x y width height fmt ty pid poff rid roff s = Some (e, ws, s')"
      "tex_api.inv okd s'"
    and inside: "ws \<noteq> [] \<Longrightarrow> \<exists>p r n. ComputeImageDataSize width height fmt ty (pack_alignment_' s) = Some (Some n)
         \<and> unat n = image_bytes (pack_alignment_' s) width height fmt ty
         \<and> GetAddressAndCheckSize (unat pid) (unat poff) (unat n) w = Some p
         \<and> GetAddressAndCheckSize (unat rid) (unat roff) 4 w = Some r
         \<and> (\<forall>e\<in>set ws. write_inside p (unat n) r e)"
    using read_api.HandleReadPixels_safe [OF assms(1) inv] by metis
  have "tex_decoder_ok s'" using run(2) unfolding tex_api.inv_def [OF tex] by blast
  moreover have "mem_safe w (apply_writes ws w)" if wf: "decoder_wf w"
  proof (rule apply_writes_safe [OF _ wf])
    show "\<forall>(p, bs)\<in>set ws. snd p + length bs \<le> length (shm_data w (fst p))
        \<and> (\<exists>h. buf_ptr (GetTransferBuffer h w) = Some (fst p))"
    proof (cases "ws = []")
      case False
      then obtain p r n where n: "GetAddressAndCheckSize (unat pid) (unat poff) (unat (n :: uint32)) w = Some p"
          "GetAddressAndCheckSize (unat rid) (unat roff) 4 w = Some r" "\<forall>e\<in>set ws. write_inside p (unat n) r e"
        using inside by blast
      have "unat n < 4294967296" using unsigned_less [of n] by simp
      then show ?thesis using write_inside_bounds [OF _ wf _ n(1,2)] n(3) by blast
    qed simp
  qed
  ultimately show ?thesis using run(1) inside by metis
qed

end
