(* ===== verification/Read_Pixels_Image.thy ===== *)
theory Read_Pixels_Image
  imports Read_Pixels
begin

text \<open>
  The image \<^verbatim>\<open>HandleReadPixels\<close> leaves in the client's memory: every pixel of the rectangle that lies in the
  framebuffer, and zeros elsewhere.
\<close>

section \<open>The last write to a byte\<close>

definition row_byte :: "row_writes \<Rightarrow> nat \<Rightarrow> byte \<Rightarrow> byte" where
  "row_byte ws k v = fold (\<lambda>(q, bs) v. if q \<le> k \<and> k < q + length bs then bs ! (k - q) else v) ws v"

lemma row_byte_simps [simp]:
  "row_byte [] k v = v"
  "row_byte (e # ws) k v =
     row_byte ws k (if fst e \<le> k \<and> k < fst e + length (snd e) then snd e ! (k - fst e) else v)"
  "row_byte (ws @ ws') k v = row_byte ws' k (row_byte ws k v)"
  by (simp_all add: row_byte_def split_beta)

lemma row_byte_other:
  assumes "\<And>q bs. (q, bs) \<in> set ws \<Longrightarrow> \<not> (q \<le> k \<and> k < q + length bs)"
  shows "row_byte ws k v = v"
  using assms by (induction ws) fastforce+

lemma row_byte_rows:
  assumes "\<And>r. length (f r) = row" "row \<le> stride" "j < row" "i < n"
  shows "row_byte (map (\<lambda>r. (dst + r * stride, f r)) [0..<n]) (dst + i * stride + j) v = f i ! j"
  using assms(4)
proof (induction n)
  case (Suc n)
  show ?case
  proof (cases "i = n")
    case True
    then show ?thesis using assms(1,3) by simp
  next
    case False
    then have "i < n" using Suc.prems by simp
    then have "(i + 1) * stride \<le> n * stride" by (intro mult_right_mono) simp_all
    then have "dst + i * stride + j < dst + n * stride" using assms(2,3) by simp
    then show ?thesis using Suc.IH [OF \<open>i < n\<close>] by simp
  qed
qed simp

lemma in_row_not:
  assumes "in_row base stride row i e" "row \<le> stride" "j < row" "i \<noteq> i'"
  shows "\<not> (fst e \<le> base + i' * stride + j \<and> base + i' * stride + j < fst e + length (snd e))"
proof (cases "i < i'")
  case True
  then have "(i + 1) * stride \<le> i' * stride" by (intro mult_right_mono) simp_all
  then show ?thesis using assms by (auto simp: in_row_def split_beta)
next
  case False
  then have "(i' + 1) * stride \<le> i * stride" using assms(4) by (intro mult_right_mono) simp_all
  then show ?thesis using assms by (auto simp: in_row_def split_beta)
qed

lemma blit_nth:
  assumes "q + length bs \<le> length d"
  shows "blit bs q d ! k = (if q \<le> k \<and> k < q + length bs then bs ! (k - q) else d ! k)"
proof -
  have "min (length d) q = q" using assms by simp
  then show ?thesis
    using assms by (auto simp: blit_def nth_append)
qed

lemma apply_rows_byte:
  assumes "\<forall>(q, bs)\<in>set ws. q + length bs \<le> length (shm_data w obj)"
  shows "shm_data (apply_writes (map (\<lambda>(q, bs). ((obj, q), bs)) ws) w) obj ! k = row_byte ws k (shm_data w obj ! k)"
  using assms
proof (induction ws arbitrary: w)
  case (Cons e ws)
  obtain q bs where e: "e = (q, bs)" by (cases e)
  let ?w = "shm_write (obj, q) bs w"
  have len: "length (shm_data ?w obj) = length (shm_data w obj)"
    using Cons.prems e by (auto simp: shm_write_def length_blit)
  have "shm_data (apply_writes (map (\<lambda>(q, bs). ((obj, q), bs)) ws) ?w) obj ! k = row_byte ws k (shm_data ?w obj ! k)"
    using Cons.prems by (intro Cons.IH) (auto simp: len)
  then show ?case
    using Cons.prems e blit_nth [of q bs "shm_data w obj" k]
    by (simp add: apply_writes_def shm_write_def)
qed (simp add: apply_writes_def)

lemma apply_writes_append: "apply_writes (ws @ ws') w = apply_writes ws' (apply_writes ws w)"
  by (simp add: apply_writes_def)

section \<open>Rows of pixels\<close>

text \<open>The pixel the client expects at a position, byte by byte.\<close>

definition seen_pixel ::
  "'g PixelApi \<Rightarrow> 'g \<Rightarrow> GLenum \<Rightarrow> GLenum \<Rightarrow> GLsizei \<times> GLsizei \<Rightarrow> int \<times> int \<Rightarrow> nat \<Rightarrow> byte" where
  "seen_pixel Q d fmt ty sz p b =
     (if in_rect 0 0 (sint (fst sz)) (sint (snd sz)) p then r_pixel Q d fmt ty p ! b else 0)"

context pixel_api
begin

lemma pixel_row_nth:
  assumes "c < n" "b < bytes_per_pixel fmt ty"
  shows "pixel_row Q d fmt ty x y n ! (c * bytes_per_pixel fmt ty + b) = r_pixel Q d fmt ty (x + int c, y) ! b"
  using assms(1)
proof (induction n)
  case (Suc n)
  let ?bpp = "bytes_per_pixel fmt ty"
  have split: "pixel_row Q d fmt ty x y (Suc n) = pixel_row Q d fmt ty x y n @ r_pixel Q d fmt ty (x + int n, y)"
    by (simp add: pixel_row_def)
  show ?case
  proof (cases "c < n")
    case True
    then have "(c + 1) * ?bpp \<le> n * ?bpp" by (intro mult_right_mono) simp_all
    then have "c * ?bpp + b < n * ?bpp" using assms(2) by simp
    then show ?thesis using Suc.IH [OF True] by (simp add: split nth_append row_length)
  next
    case False
    then have "c = n" using Suc.prems by simp
    then show ?thesis by (simp add: split nth_append row_length)
  qed
qed simp

lemma gl_read_byte:
  assumes "0 < sint (pack_alignment_' s)" "j < unat w * bytes_per_pixel fmt ty" "i < unat h"
  shows "row_byte (fst (gl_read_pixels Q x y w h fmt ty dst s))
      (dst + i * pad_to (unat (pack_alignment_' s)) (unat w * bytes_per_pixel fmt ty) + j) v =
    pixel_row Q (driver s) fmt ty (sint x) (sint y + int i) (unat w) ! j"
proof -
  have "pack_alignment_' s \<noteq> 0" using assms(1) by auto
  then have "0 < unat (pack_alignment_' s)" by (simp add: unat_gt_0)
  then have "unat w * bytes_per_pixel fmt ty \<le> pad_to (unat (pack_alignment_' s)) (unat w * bytes_per_pixel fmt ty)"
    by (rule pad_to_ge)
  from row_byte_rows [OF row_length this assms(2,3)] show ?thesis
    unfolding gl_read_pixels_def Let_def fst_conv .
qed

text \<open>A byte of a row in the loop: zero, unless the row of the framebuffer is written there.\<close>

definition row_value ::
  "'g \<Rightarrow> GLint \<Rightarrow> GLint \<Rightarrow> GLsizei \<Rightarrow> GLsizei \<Rightarrow> GLenum \<Rightarrow> GLenum \<Rightarrow> nat \<Rightarrow> nat \<Rightarrow> nat \<Rightarrow> byte" where
  "row_value d y rx rw mh fmt ty off yy j =
     (let ry = y + word_of_nat yy
      in if 0 \<le> sint ry \<and> sint ry < sint mh \<and> 0 < sint rw \<and> off \<le> j \<and> j < off + unat rw * bytes_per_pixel fmt ty
         then pixel_row Q d fmt ty (sint rx) (sint ry) (unat rw) ! (j - off) else 0)"

lemma row_value_keeps:
  "row_value (r_read_pixels Q a b c e f g d) y rx rw mh fmt ty off yy j = row_value d y rx rw mh fmt ty off yy j"
  by (simp add: row_value_def pixel_row_def read_keeps Let_def)

lemma read_rows_byte:
  assumes fits: "0 < sint rw \<Longrightarrow> off + unat rw * bytes_per_pixel fmt ty \<le> row"
    and "row \<le> stride" "j < row" "i < n"
  shows "row_byte (fst (read_rows Q y rx rw mh fmt ty row stride off yy n dst s)) (dst + i * stride + j) v =
    row_value (driver s) y rx rw mh fmt ty off (yy + i) j"
  using assms(4)
proof (induction n arbitrary: yy dst s i v)
  case (Suc n)
  let ?ry = "y + word_of_nat yy"
  let ?inside = "sint ?ry \<ge> 0 \<and> sint ?ry < sint mh \<and> sint rw > 0"
  let ?r = "if ?inside then gl_read_pixels Q rx ?ry rw 1 fmt ty (dst + off) s else ([], s)"
  let ?rest = "fst (read_rows Q y rx rw mh fmt ty row stride off (Suc yy) n (dst + stride) (snd ?r))"
  let ?k = "dst + i * stride + j"
  have split: "row_byte (fst (read_rows Q y rx rw mh fmt ty row stride off yy (Suc n) dst s)) ?k v =
      row_byte ?rest ?k (row_byte (fst ?r) ?k (row_byte [(dst, replicate row 0)] ?k v))"
    by (simp add: Let_def split_beta)
  have row: "fst ?r = (if ?inside then [(dst + off, pixel_row Q (driver s) fmt ty (sint rx) (sint ?ry) (unat rw))] else [])"
    by (simp add: gl_read_pixels_def Let_def)
  show ?case
  proof (cases i)
    case 0
    have "row_byte ?rest ?k v' = v'" for v'
    proof (rule row_byte_other)
      fix q bs
      assume "(q, bs) \<in> set ?rest"
      then obtain m where "in_row (dst + stride) stride row m (q, bs)"
        using read_rows_inside [OF fits] by blast
      then have "in_row dst stride row (Suc m) (q, bs)" by (simp add: in_row_Suc)
      from in_row_not [OF this assms(2,3), of 0] show "\<not> (q \<le> ?k \<and> ?k < q + length bs)" by (simp add: 0)
    qed
    then show ?thesis
      unfolding split unfolding row using 0 assms(3) by (auto simp: row_value_def row_length Let_def)
  next
    case (Suc i')
    have k: "?k = dst + stride + i' * stride + j" by (simp add: Suc)
    have zero: "row_byte [(dst, replicate row 0)] ?k v = v" using assms(2) by (simp add: Suc)
    have first: "row_byte (fst ?r) ?k v' = v'" for v'
      unfolding row using Suc assms(2,3) fits by (auto simp: row_length)
    have d: "driver (snd ?r) = (if ?inside then r_read_pixels Q rx ?ry rw 1 fmt ty (driver s) else driver s)"
      by (simp add: gl_read_pixels_def Let_def)
    have "row_byte ?rest ?k v = row_value (driver (snd ?r)) y rx rw mh fmt ty off (Suc yy + i') j"
      unfolding k using Suc Suc.prems by (intro Suc.IH) simp
    also have "\<dots> = row_value (driver s) y rx rw mh fmt ty off (yy + i) j"
      unfolding d by (simp add: row_value_keeps Suc)
    finally show ?thesis by (simp only: split zero first)
  qed
qed simp

lemma clipped_column:
  fixes x w rw :: "32 word"
  assumes "sint rw = max 0 (min (sint x + sint w) W) - max 0 (sint x)" "int c < sint w"
  shows "0 < sint rw \<and> unat (smax (- x) 0) \<le> c \<and> c < unat (smax (- x) 0) + unat rw
      \<longleftrightarrow> 0 \<le> sint x + int c \<and> sint x + int c < W"
    "0 < sint rw \<Longrightarrow> sint (smax 0 x) - int (unat (smax (- x) 0)) = sint x"
proof -
  have dx: "int (unat (smax (- x) 0)) = (if - 2147483648 < sint x then max (- sint x) 0 else 0)"
  proof (cases "- 2147483648 < sint x")
    case True
    then have "sint (- x) = - sint x" using sint_range [of x] sint_diff_exact [of 0 x] by simp
    then show ?thesis using True sint_nonneg_unat(1) [of "smax (- x) 0"] by (simp add: smax_sint)
  next
    case False
    then have "sint x = sint (0x80000000 :: 32 word)" using sint_range(1) [of x] by simp
    then have "x = 0x80000000" by (rule signed_word_eqI)
    then show ?thesis by (simp add: smax_def)
  qed
  have rw: "int (unat rw) = sint rw" if "0 < sint rw" using sint_nonneg_unat(1) that by simp
  show "0 < sint rw \<and> unat (smax (- x) 0) \<le> c \<and> c < unat (smax (- x) 0) + unat rw
      \<longleftrightarrow> 0 \<le> sint x + int c \<and> sint x + int c < W"
  proof (cases "0 < sint rw")
    case True
    have "unat (smax (- x) 0) \<le> c \<longleftrightarrow> int (unat (smax (- x) 0)) \<le> int c"
      "c < unat (smax (- x) 0) + unat rw \<longleftrightarrow> int c < int (unat (smax (- x) 0)) + int (unat rw)" by linarith+
    then show ?thesis
      using True assms rw [OF True] sint_range [of x] sint_range [of w] unfolding dx
      by (auto simp: max_def min_def split: if_splits)
  next
    case False
    then show ?thesis using assms by (simp add: max_def min_def split: if_splits)
  qed
  show "sint (smax 0 x) - int (unat (smax (- x) 0)) = sint x" if "0 < sint rw"
    using that assms(1) sint_range [of x] sint_range [of w] unfolding dx
    by (simp add: smax_sint max_def min_def split: if_splits)
qed

lemma nat_less_sint:
  fixes h :: "32 word"
  assumes "0 \<le> sint h" "i < unat h"
  shows "int i < sint h"
  using assms(2) sint_nonneg_unat(1) [OF assms(1)] by linarith

lemma row_add:
  fixes y h :: "32 word"
  assumes "sint y + sint h < 2147483648" "i < unat h" "0 \<le> sint h"
  shows "sint (y + word_of_nat i) = sint y + int i"
proof -
  have i: "int i < sint h" by (rule nat_less_sint [OF assms(3,2)])
  then have "i < 2147483648" using sint_range(2) [of h] by linarith
  then have "unat (word_of_nat i :: 32 word) = i" by (simp add: unsigned_of_nat take_bit_nat_eq_self)
  then have "sint (word_of_nat i :: 32 word) = int i" using sint_small [of "word_of_nat i"] \<open>i < 2147483648\<close> by simp
  then show ?thesis
    using i assms(1) sint_range(1) [of y] by (subst sint_add_exact) simp_all
qed

lemma column_less:
  assumes "c < n" "b < (bpp :: nat)"
  shows "c * bpp + b < n * bpp"
proof -
  have "(c + 1) * bpp \<le> n * bpp" using assms(1) by (intro mult_right_mono) simp_all
  then show ?thesis using assms(2) by simp
qed

lemma column_between:
  assumes "b < (bpp :: nat)"
  shows "m * bpp \<le> c * bpp + b \<longleftrightarrow> m \<le> c" "c * bpp + b < m * bpp + n * bpp \<longleftrightarrow> c < m + n"
proof -
  have gt: "k * bpp \<le> c * bpp + b \<longleftrightarrow> k \<le> c" for k
  proof (cases "k \<le> c")
    case True
    then show ?thesis by (simp add: trans_le_add1)
  next
    case False
    then have "(c + 1) * bpp \<le> k * bpp" by (intro mult_right_mono) simp_all
    then show ?thesis using assms False by simp
  qed
  show "m * bpp \<le> c * bpp + b \<longleftrightarrow> m \<le> c" by (rule gt)
  show "c * bpp + b < m * bpp + n * bpp \<longleftrightarrow> c < m + n"
    using gt [of "m + n"] by (simp add: distrib_right not_le [symmetric] del: not_le)
qed

lemma read_clipped_byte:
  assumes "read_clipped Q x y w h fmt ty sz mx base s = Some (Some (ws, s'))"
    and "0 \<le> sint w" "0 \<le> sint h" "0 < sint (pack_alignment_' s)" "sint mx = sint x + sint w"
    and y: "sint y + sint h < 2147483648" and ic: "i < unat h" "c < unat w" "b < bytes_per_pixel fmt ty"
  shows "row_byte ws (base + i * pad_to (unat (pack_alignment_' s)) (unat w * bytes_per_pixel fmt ty)
        + (c * bytes_per_pixel fmt ty + b)) v =
    seen_pixel Q (driver s) fmt ty sz (sint x + int c, sint y + int i) b"
proof -
  let ?bpp = "bytes_per_pixel fmt ty" and ?dx = "unat (smax (- x) 0)"
  let ?stride = "pad_to (unat (pack_alignment_' s)) (unat w * ?bpp)"
  obtain rw where ws: "ws = fst (read_rows Q y (smax 0 x) rw (snd sz) fmt ty (unat w * ?bpp) ?stride (?dx * ?bpp) 0
      (unat h) base s)"
    and rw: "sint rw = max 0 (min (sint x + sint w) (sint (fst sz))) - max 0 (sint x)"
    and fits: "0 < sint rw \<Longrightarrow> ?dx + unat rw \<le> unat w"
    using read_clipped_parts [OF assms(1,2,4,5)] by metis
  have "pack_alignment_' s \<noteq> 0" using assms(4) by auto
  then have stride: "unat w * ?bpp \<le> ?stride" by (intro pad_to_ge) (simp add: unat_gt_0)
  have fits': "?dx * ?bpp + unat rw * ?bpp \<le> unat w * ?bpp" if "0 < sint rw"
    using fits [OF that] by (simp add: distrib_right [symmetric])
  have j: "c * ?bpp + b < unat w * ?bpp" by (rule column_less [OF ic(2,3)])
  have byte: "row_byte ws (base + i * ?stride + (c * ?bpp + b)) v =
      row_value (driver s) y (smax 0 x) rw (snd sz) fmt ty (?dx * ?bpp) i (c * ?bpp + b)"
    unfolding ws using read_rows_byte [OF fits' stride j ic(1), of y "smax 0 x" "snd sz" 0 base s v] by simp
  have ry: "sint (y + word_of_nat i) = sint y + int i" by (rule row_add [OF y ic(1) assms(3)])
  have cw: "int c < sint w" by (rule nat_less_sint [OF assms(2) ic(2)])
  note column = clipped_column [OF rw cw]
  have where_x: "0 < sint rw \<and> ?dx * ?bpp \<le> c * ?bpp + b \<and> c * ?bpp + b < ?dx * ?bpp + unat rw * ?bpp
      \<longleftrightarrow> 0 \<le> sint x + int c \<and> sint x + int c < sint (fst sz)"
    using column(1) unfolding column_between [OF ic(3)] .
  show ?thesis
  proof (cases "in_rect 0 0 (sint (fst sz)) (sint (snd sz)) (sint x + int c, sint y + int i)")
    case False
    then show ?thesis
      using where_x unfolding byte by (auto simp: row_value_def seen_pixel_def in_rect_def ry Let_def)
  next
    case True
    then have rng: "0 < sint rw" "?dx \<le> c" "c < ?dx + unat rw"
      using column(1) by (auto simp: in_rect_def)
    have "c * ?bpp + b - ?dx * ?bpp = (c - ?dx) * ?bpp + b"
      using rng(2) by (simp add: diff_mult_distrib)
    moreover have "c - ?dx < unat rw" using rng by simp
    moreover have "sint (smax 0 x) + int (c - ?dx) = sint x + int c" using column(2) [OF rng(1)] rng(2) by simp
    ultimately have "pixel_row Q (driver s) fmt ty (sint (smax 0 x)) (sint y + int i) (unat rw) ! (c * ?bpp + b - ?dx * ?bpp)
        = r_pixel Q (driver s) fmt ty (sint x + int c, sint y + int i) ! b"
      using pixel_row_nth [OF _ ic(3), of "c - ?dx" "unat rw"] by simp
    then show ?thesis
      using True where_x unfolding byte by (auto simp: row_value_def seen_pixel_def in_rect_def ry Let_def)
  qed
qed

lemma gl_read_seen:
  assumes "0 \<le> sint x" "0 \<le> sint y" "sint x + sint w \<le> sint (fst sz)" "sint y + sint h \<le> sint (snd sz)"
    and "0 \<le> sint w" "0 \<le> sint h" "0 < sint (pack_alignment_' s)"
    and ic: "i < unat h" "c < unat w" "b < bytes_per_pixel fmt ty"
  shows "row_byte (fst (gl_read_pixels Q x y w h fmt ty base s))
      (base + i * pad_to (unat (pack_alignment_' s)) (unat w * bytes_per_pixel fmt ty)
        + (c * bytes_per_pixel fmt ty + b)) v =
    seen_pixel Q (driver s) fmt ty sz (sint x + int c, sint y + int i) b"
proof -
  have "int c < sint w" "int i < sint h"
    using nat_less_sint assms(5,6) ic by blast+
  then have "in_rect 0 0 (sint (fst sz)) (sint (snd sz)) (sint x + int c, sint y + int i)"
    using assms by (simp add: in_rect_def)
  then show ?thesis
    using gl_read_byte [OF assms(7) column_less [OF ic(2,3)] ic(1)] pixel_row_nth [OF ic(2,3)]
    by (simp add: seen_pixel_def)
qed

end

lemma apply_rows_and_result:
  assumes "\<forall>(q, bs)\<in>set ws. q + length bs \<le> length (shm_data w obj)" "fst r \<noteq> obj"
    and "out = map (\<lambda>(q, bs). ((obj, q), bs)) ws
      \<or> out = map (\<lambda>(q, bs). ((obj, q), bs)) ws @ [(r, res)]"
  shows "shm_data (apply_writes out w) obj ! k = row_byte ws k (shm_data w obj ! k)"
proof -
  have "shm_data (shm_write r res w') obj = shm_data w' obj" for w' :: "'a decoder_world_scheme"
    using assms(2) by (simp add: shm_write_def)
  then have "shm_data (apply_writes out w) obj
      = shm_data (apply_writes (map (\<lambda>(q, bs). ((obj, q), bs)) ws) w) obj"
    using assms(3) by (auto simp: apply_writes_append) (simp add: apply_writes_def)
  then show ?thesis using apply_rows_byte [OF assms(1)] by simp
qed

context read_api
begin

lemma body_image:
  assumes s: "inv s" and size: "0 \<le> sint w" "0 \<le> sint h"
    and run: "read_pixels_body P Q x y w h fmt ty p r s = Some (out, s')" "out \<noteq> []"
    and alpha: "\<And>d. GetChannelsForFormat (t_read_format P d) AND 0x0008 \<noteq> 0"
    and mem: "fst r \<noteq> fst p" "snd p + image_bytes (pack_alignment_' s) w h fmt ty \<le> length (shm_data m (fst p))"
    and ic: "i < unat h" "c < unat w" "b < bytes_per_pixel fmt ty"
  shows "shm_data (apply_writes out m) (fst p) !
      (snd p + i * pad_to (unat (pack_alignment_' s)) (unat w * bytes_per_pixel fmt ty) + (c * bytes_per_pixel fmt ty + b))
    = seen_pixel Q (driver s) fmt ty (t_read_size P (driver s)) (sint x + int c, sint y + int i) b"
proof -
  obtain mx my where m: "SafeAddInt x w = (True, mx)" "SafeAddInt y h = (True, my)"
    using run by (auto simp: read_pixels_body_def Let_def split: prod.splits if_splits)
  have mxy: "sint mx = sint x + sint w" "sint my = sint y + sint h"
    by (rule SafeAddInt_exact [OF m(1) size(1)], rule SafeAddInt_exact [OF m(2) size(2)])
  let ?sz = "t_read_size P (driver s)"
  let ?clip = "sint x < 0 \<or> sint y < 0 \<or> sint mx > sint (fst ?sz) \<or> sint my > sint (snd ?sz)"
  let ?rows = "if ?clip then read_clipped Q x y w h fmt ty ?sz mx (snd p) s
    else Some (Some (gl_read_pixels Q x y w h fmt ty (snd p) s))"
  let ?row = "unat w * bytes_per_pixel fmt ty" and ?stride = "pad_to (unat (pack_alignment_' s)) (unat w * bytes_per_pixel fmt ty)"
  note al = alignments [OF s]
  obtain ws t where rows: "?rows = Some (Some (ws, t))"
    using run m by (auto simp: read_pixels_body_def Let_def split: prod.splits bind_splits option.splits)
  have out: "out = map (\<lambda>(q, bs). ((fst p, q), bs)) ws \<or> out = map (\<lambda>(q, bs). ((fst p, q), bs)) ws @ [(r, [1, 0, 0, 0])]"
    using run(1) m rows alpha by (auto simp: read_pixels_body_def Let_def split: prod.splits if_splits)
  have inside: "\<forall>e\<in>set ws. \<exists>i < unat h. in_row (snd p) ?stride ?row i e"
  proof (cases ?clip)
    case True
    then have "read_clipped Q x y w h fmt ty ?sz mx (snd p) s = Some (Some (ws, t))" using rows by simp
    from read_clipped_inside [OF this size(1) _ mxy(1)] al show ?thesis by blast
  next
    case False
    then have "ws = fst (gl_read_pixels Q x y w h fmt ty (snd p) s)" using rows by simp
    then show ?thesis using gl_read_rows by blast
  qed
  have bounds: "\<forall>(q, bs)\<in>set ws. q + length bs \<le> length (shm_data m (fst p))"
  proof (intro ballI, clarify)
    fix q bs
    assume "(q, bs) \<in> set ws"
    then obtain i where "i < unat h" "in_row (snd p) ?stride ?row i (q, bs)" using inside by blast
    then have "q + length bs \<le> snd p + image_bytes (pack_alignment_' s) w h fmt ty"
      using in_row_extent(2) unfolding image_bytes_def by blast
    then show "q + length bs \<le> length (shm_data m (fst p))" using mem(2) by linarith
  qed
  have "row_byte ws (snd p + i * ?stride + (c * bytes_per_pixel fmt ty + b)) v
      = seen_pixel Q (driver s) fmt ty ?sz (sint x + int c, sint y + int i) b" for v
  proof (cases ?clip)
    case True
    then have clipped: "read_clipped Q x y w h fmt ty ?sz mx (snd p) s = Some (Some (ws, t))" using rows by simp
    show ?thesis
      using read_clipped_byte [OF clipped size _ mxy(1) _ ic] al mxy(2) sint_range(2) [of my] by simp
  next
    case False
    then have "ws = fst (gl_read_pixels Q x y w h fmt ty (snd p) s)" using rows by simp
    then show ?thesis
      using gl_read_seen [of x y w ?sz h s i c b fmt ty "snd p" v] False mxy size al ic by simp
  qed
  then show ?thesis using apply_rows_and_result [OF bounds mem(1) out] by simp
qed

end

text \<open>C18: \<^verbatim>\<open>glReadPixels\<close> of any rectangle, also one that leaves the framebuffer, leaves in the client's memory
  the image the client asked for: for each pixel of the rectangle, at the place of its row and column, the
  bytes of the framebuffer's pixel if there is one and zeros otherwise. The framebuffer has an alpha
  channel, and the result is in another buffer than the pixels.\<close>

theorem read_pixels_image:
  assumes "read_api P pending_errors okd Q" "tex_decoder_reachable P okd s" "decoder_wf w"
    and "HandleReadPixels P Q w x y width height fmt ty pid poff rid roff s = Some (e, ws, s')" "ws \<noteq> []"
    and "GetAddressAndCheckSize (unat pid) (unat poff) (image_bytes (pack_alignment_' s) width height fmt ty) w = Some p"
    and "GetAddressAndCheckSize (unat rid) (unat roff) 4 w = Some r" "fst r \<noteq> fst p"
    and "CopyRealGLErrorsToWrapper (t_get_error P) s = Some u" "d = t_begin_resolve P (driver u)"
    and "\<And>d. GetChannelsForFormat (t_read_format P d) AND 0x0008 \<noteq> 0"
    and "i < unat height" "c < unat width" "b < bytes_per_pixel fmt ty"
  shows "shm_data (apply_writes ws w) (fst p) ! (snd p
        + i * pad_to (unat (pack_alignment_' s)) (unat width * bytes_per_pixel fmt ty)
        + (c * bytes_per_pixel fmt ty + b))
    = seen_pixel Q d fmt ty (t_read_size P d) (sint x + int c, sint y + int i) b"
proof -
  have tex: "tex_api P pending_errors okd" using assms(1) by (rule read_api.axioms(1))
  have s: "tex_api.inv okd s" by (rule tex_api.reachable_inv [OF tex assms(2)])
  have size: "0 \<le> sint width" "0 \<le> sint height"
    using assms(4,5) by (auto simp: HandleReadPixels_def split: if_splits)
  note al = read_api.alignments [OF assms(1) s]
  obtain n where img: "ComputeImageDataSize width height fmt ty (pack_alignment_' s) = Some (Some n)"
    using assms(4,5) by (auto simp: HandleReadPixels_def split: if_splits bind_splits option.splits)
  have bytes: "unat n = image_bytes (pack_alignment_' s) width height fmt ty"
    using data_size_bytes [OF img size] al by simp
  let ?b = "on_tex_driver (t_begin_resolve P) u"
  obtain t where body: "read_pixels_body P Q x y width height fmt ty p r ?b = Some (ws, t)"
    using assms(4,5,6,7,9) size img bytes
    by (auto simp: HandleReadPixels_def split: if_splits bind_splits)
  have u: "tex_api.quiet okd s u"
    using tex_api.quiet_copy [OF tex, of s] s assms(9) unfolding tex_api.inv_def [OF tex] by (metis option.inject)
  have b: "tex_api.quiet okd s ?b"
    by (rule tex_api.quiet_trans [OF tex u tex_api.quiet_driver [OF tex tex_api.resolve_ok(1) [OF tex]]])
  have same: "pack_alignment_' ?b = pack_alignment_' s" "driver ?b = d"
    using b assms(10) unfolding tex_api.quiet_def [OF tex] by (simp_all add: same_textures_def)
  have inv: "tex_api.inv okd ?b" by (rule tex_api.quiet_inv [OF tex b s])
  have "unat poff < 4294967296" "unat n < 4294967296" using unsigned_less [of poff] unsigned_less [of n] by simp_all
  then have mem: "snd p + image_bytes (pack_alignment_' ?b) width height fmt ty \<le> length (shm_data w (fst p))"
    using GetAddress_bounds(1) [OF assms(6,3)] unfolding same bytes by blast
  from read_api.body_image [OF assms(1) inv size body assms(5,11,8) mem assms(12-14)]
  show ?thesis unfolding same .
qed

section \<open>A sample framebuffer\<close>

text \<open>All pixels are sevens.\<close>

definition sample_pixels :: "GLenum list PixelApi" where
  "sample_pixels = \<lparr>r_pixel = (\<lambda>d format type p. replicate (bytes_per_pixel format type) 7),
     r_read_pixels = (\<lambda>x y w h format type d. d)\<rparr>"

interpretation sample_read: read_api sample_tex_api "\<lambda>q. q" queue_ok sample_pixels
  by unfold_locales (simp_all add: sample_pixels_def)

text \<open>Two buffers of eight bytes.\<close>

definition sample_memory :: decoder_world where
  "sample_memory = sample_service\<lparr>registered_objects_' :=
     [null_buffer, \<lparr>buf_ptr = Some 0, buf_size = 8, buf_shared_memory = Some 0\<rparr>,
      \<lparr>buf_ptr = Some 1, buf_size = 8, buf_shared_memory = Some 1\<rparr>]\<rparr>"

lemma sample_memory_wf: "decoder_wf sample_memory"
  by (auto simp: decoder_wf_def sample_memory_def sample_service_def GetTransferBuffer_lookup lookup_obj_def
      null_buffer_def nth_Cons split: nat.splits if_splits)

lemma sample_addresses:
  "GetAddressAndCheckSize 1 0 8 sample_memory = Some (0, 0)"
  "GetAddressAndCheckSize (Suc 0) 0 8 sample_memory = Some (0, 0)"
  "GetAddressAndCheckSize 2 0 4 sample_memory = Some (1, 0)"
  by (simp_all add: GetAddressAndCheckSize_def GetSharedMemoryBuffer_def GetTransferBuffer_def sample_memory_def
      sample_service_def u32_add_def Let_def)

definition reads_rgba :: "FeatureInfo \<Rightarrow> bool" where
  "reads_rgba F \<longleftrightarrow> GL_RGBA \<in> set (v_read_pixel_format (validators_' F))
     \<and> GL_UNSIGNED_BYTE \<in> set (v_pixel_type (validators_' F))"

lemma reads_rgba_blocks:
  assumes "reads_rgba F"
  shows
    "reads_rgba (add_base_extensions F)"
    "reads_rgba (add_webglsl d ext F)"
    "reads_rgba (add_dxt1 ext F)"
    "reads_rgba (add_dxt3 ext F)"
    "reads_rgba (add_dxt5 ext F)"
    "reads_rgba (add_anisotropic ext F)"
    "reads_rgba (add_depth_texture ext F)"
    "reads_rgba (add_depth_stencil ext F)"
    "reads_rgba (add_texture_bgra ext F)"
    "reads_rgba (add_read_bgra ext F)"
    "reads_rgba (add_rgb8 desktop ext F)"
    "reads_rgba (add_npot ext F)"
    "reads_rgba (add_float ext F)"
    "reads_rgba (add_half_float ext F)"
    "reads_rgba (add_multisample ext F)"
    "reads_rgba (add_depth24 desktop ext F)"
    "reads_rgba (add_derivatives desktop ext F)"
    "reads_rgba (add_image_external ext F)"
    "reads_rgba (add_stream_texture ext F)"
    "reads_rgba (F\<lparr>enable_texture_float_linear := b\<rparr>)"
    "reads_rgba (F\<lparr>enable_texture_half_float_linear := b\<rparr>)"
    "reads_rgba (F\<lparr>npot_ok := b\<rparr>)"
  using assms by (auto simp: reads_rgba_def block_defs with_validators_def Let_def)

lemma sample_reads_rgba: "reads_rgba sample_features"
proof -
  have "reads_rgba (FeatureInfo_new\<lparr>disallowed_multisampling := b\<rparr>)" for b
    by (simp add: reads_rgba_def FeatureInfo_new_def Validators_new_def valid_read_pixel_format_table_def
        valid_pixel_type_table_def)
  then show ?thesis
    by (simp add: sample_features_def FeatureInfo_Initialize_def AddFeatures_def Let_def reads_rgba_blocks)
qed

lemma sample_sizes:
  "ComputeImageDataSize 2 1 GL_RGBA GL_UNSIGNED_BYTE 4 = Some (Some 8)"
  "ComputeImageDataSize 1 1 GL_RGBA GL_UNSIGNED_BYTE 4 = Some (Some 4)"
  "row_sizes 2 GL_RGBA GL_UNSIGNED_BYTE 4 = Some (Some (8, 8))"
  by (simp_all add: row_sizes_def ComputeImageDataSize_def BytesPerElement_def ElementsPerGroup_def
      SafeMultiplyUint32_def SafeMultiply_exact SafeAddUint32_def SafeAdd_exact Let_def)

lemma sample_read_runs:
  assumes "driver s = []" "pack_alignment_' s = 4" "texture_features s = sample_features"
  shows "CopyRealGLErrorsToWrapper (t_get_error sample_tex_api) s = Some s"
    "\<exists>ws s'. HandleReadPixels sample_tex_api sample_pixels sample_memory (- 1) 0 2 1 GL_RGBA GL_UNSIGNED_BYTE
       1 0 2 0 s = Some (kNoError, ws, s') \<and> ws \<noteq> []"
proof -
  show copy: "CopyRealGLErrorsToWrapper (t_get_error sample_tex_api) s = Some s"
    by (subst CopyRealGLErrorsToWrapper.simps) (simp add: assms sample_tex_api_def queue_get_error_def)
  have rgba: "GL_RGBA \<in> set (v_read_pixel_format (validators_' (texture_features s)))"
    "GL_UNSIGNED_BYTE \<in> set (v_pixel_type (validators_' (texture_features s)))"
    using sample_reads_rgba assms(3) by (simp_all add: reads_rgba_def)
  let ?t = "on_tex_driver (t_begin_resolve sample_tex_api) s"
  have alpha: "GetChannelsForFormat GL_RGBA AND 0x0008 \<noteq> 0" by (simp add: GetChannelsForFormat_def)
  have pack: "pack_alignment_' ?t = 4" by (simp add: on_tex_driver_def assms(2))
  have clip: "\<exists>ws s'. read_clipped sample_pixels (- 1) 0 2 1 GL_RGBA GL_UNSIGNED_BYTE (64, 64) 1 0 ?t = Some (Some (ws, s'))
      \<and> ws \<noteq> []"
    by (simp add: read_clipped_def pack sample_sizes smax_def Let_def split_beta)
  have "\<exists>ws s'. read_pixels_body sample_tex_api sample_pixels (- 1) 0 2 1 GL_RGBA GL_UNSIGNED_BYTE (0, 0) (1, 0) ?t
      = Some (ws, s') \<and> ws \<noteq> []"
    using clip alpha by (auto simp: read_pixels_body_def SafeAddInt_def sample_tex_api_def Let_def split_beta)
  then show "\<exists>ws s'. HandleReadPixels sample_tex_api sample_pixels sample_memory (- 1) 0 2 1 GL_RGBA GL_UNSIGNED_BYTE
       1 0 2 0 s = Some (kNoError, ws, s') \<and> ws \<noteq> []"
    using rgba by (auto simp: HandleReadPixels_def assms(2) sample_sizes sample_addresses copy)
qed

theorem read_pixels_in_bounds_witness:
  "\<exists>s e ws s'. tex_decoder_reachable sample_tex_api queue_ok s
     \<and> HandleReadPixels sample_tex_api sample_pixels sample_memory (- 1) 0 2 1 GL_RGBA GL_UNSIGNED_BYTE 1 0 2 0 s
         = Some (e, ws, s') \<and> ws \<noteq> [] \<and> mem_safe sample_memory (apply_writes ws sample_memory)"
proof -
  obtain s where s: "tex_decoder_reachable sample_tex_api queue_ok s" "driver s = []" "pack_alignment_' s = 4"
      "texture_features s = sample_features"
    by (rule sample_reachable)
  obtain ws s' where run: "HandleReadPixels sample_tex_api sample_pixels sample_memory (- 1) 0 2 1 GL_RGBA
      GL_UNSIGNED_BYTE 1 0 2 0 s = Some (kNoError, ws, s')" "ws \<noteq> []"
    using sample_read_runs(2) [OF s(2-4)] by blast
  have "mem_safe sample_memory (apply_writes ws sample_memory)"
    using read_pixels_in_bounds [OF sample_read.read_api_axioms s(1), of sample_memory "- 1" 0 2 1 GL_RGBA
        GL_UNSIGNED_BYTE 1 0 2 0] run(1) sample_memory_wf by auto
  then show ?thesis using s(1) run by blast
qed

theorem read_pixels_image_witness:
  "\<exists>s e ws s'. HandleReadPixels sample_tex_api sample_pixels sample_memory (- 1) 0 2 1 GL_RGBA GL_UNSIGNED_BYTE 1 0 2 0 s
       = Some (e, ws, s')
     \<and> shm_data (apply_writes ws sample_memory) 0 ! 0 = 0 \<and> shm_data (apply_writes ws sample_memory) 0 ! 4 = 7"
proof -
  obtain s where s: "tex_decoder_reachable sample_tex_api queue_ok s" "driver s = []" "pack_alignment_' s = 4"
      "texture_features s = sample_features"
    by (rule sample_reachable)
  obtain ws s' where run: "HandleReadPixels sample_tex_api sample_pixels sample_memory (- 1) 0 2 1 GL_RGBA
      GL_UNSIGNED_BYTE 1 0 2 0 s = Some (kNoError, ws, s')" "ws \<noteq> []"
    using sample_read_runs(2) [OF s(2-4)] by blast
  have bpp: "bytes_per_pixel GL_RGBA GL_UNSIGNED_BYTE = 4"
    by (simp add: bytes_per_pixel_def BytesPerElement_def ElementsPerGroup_def)
  then have bytes: "image_bytes (pack_alignment_' s) 2 1 GL_RGBA GL_UNSIGNED_BYTE = 8"
    by (simp add: image_bytes_def row_extents)
  have alpha: "GetChannelsForFormat (t_read_format sample_tex_api d) AND 0x0008 \<noteq> 0" for d
    by (simp add: sample_tex_api_def GetChannelsForFormat_def)
  have addr: "GetAddressAndCheckSize (unat (1 :: uint32)) (unat (0 :: uint32))
      (image_bytes (pack_alignment_' s) 2 1 GL_RGBA GL_UNSIGNED_BYTE) sample_memory = Some (0, 0)"
    "GetAddressAndCheckSize (unat (2 :: uint32)) (unat (0 :: uint32)) 4 sample_memory = Some (1, 0)"
    using sample_addresses unfolding bytes by simp_all
  have "shm_data (apply_writes ws sample_memory) 0 ! (4 * c)
      = seen_pixel sample_pixels (driver s) GL_RGBA GL_UNSIGNED_BYTE (64, 64) (- 1 + int c, 0) 0" if "c < 2" for c
    using read_pixels_image [OF sample_read.read_api_axioms s(1) sample_memory_wf run addr _
        sample_read_runs(1) [OF s(2-4)] refl alpha, of 0 c 0] that
    by (simp add: bpp sample_tex_api_def mult.commute)
  from this [of 0] this [of 1] show ?thesis
    using run(1) by (auto simp: seen_pixel_def in_rect_def sample_pixels_def bpp)
qed

end
