(* ===== verification/Framebuffer_Manager.thy ===== *)
theory Framebuffer_Manager
  imports Texture_Manager "HOL-Library.AList"
begin

text \<open>
  \<^verbatim>\<open>RenderbufferManager\<close> (\<^verbatim>\<open>service/renderbuffer_manager.cc\<close>), \<^verbatim>\<open>FramebufferManager\<close>
  (\<^verbatim>\<open>service/framebuffer_manager.cc\<close>) and \<^verbatim>\<open>IdManager\<close> (\<^verbatim>\<open>service/id_manager.cc\<close>).

  As for textures, objects are counted by reference in the code: \<open>rb_objects\<close> and \<open>fb_objects\<close> list all
  objects ever created, a pointer is an index, and the hash map of a manager is the list of its entries in
  iteration order. An object stays in the list after its id is deleted, because a framebuffer may still
  refer to it.
\<close>

section \<open>Renderbuffers\<close>

record RenderbufferInfo =
  rb_service_id_' :: GLuint
  rb_cleared_' :: bool
  rb_has_been_bound_' :: bool
  rb_samples_' :: GLsizei
  rb_internal_format_' :: GLenum
  rb_width_' :: GLsizei
  rb_height_' :: GLsizei

definition RenderbufferInfo_new :: "GLuint \<Rightarrow> RenderbufferInfo" where
  "RenderbufferInfo_new service_id =
     \<lparr>rb_service_id_' = service_id, rb_cleared_' = False, rb_has_been_bound_' = False, rb_samples_' = 0,
      rb_internal_format_' = GL_RGBA4, rb_width_' = 0, rb_height_' = 0\<rparr>"

definition Renderbuffer_set_cleared :: "RenderbufferInfo \<Rightarrow> RenderbufferInfo" where
  "Renderbuffer_set_cleared r = r\<lparr>rb_cleared_' := True\<rparr>"

definition Renderbuffer_SetInfo ::
  "GLsizei \<Rightarrow> GLenum \<Rightarrow> GLsizei \<Rightarrow> GLsizei \<Rightarrow> RenderbufferInfo \<Rightarrow> RenderbufferInfo" where
  "Renderbuffer_SetInfo samples internalformat width height r =
     r\<lparr>rb_samples_' := samples, rb_internal_format_' := internalformat, rb_width_' := width,
       rb_height_' := height, rb_cleared_' := False\<rparr>"

definition Renderbuffer_IsDeleted :: "RenderbufferInfo \<Rightarrow> bool" where
  "Renderbuffer_IsDeleted r \<longleftrightarrow> rb_service_id_' r = 0"

definition Renderbuffer_MarkAsValid :: "RenderbufferInfo \<Rightarrow> RenderbufferInfo" where
  "Renderbuffer_MarkAsValid r = r\<lparr>rb_has_been_bound_' := True\<rparr>"

definition Renderbuffer_IsValid :: "RenderbufferInfo \<Rightarrow> bool" where
  "Renderbuffer_IsValid r \<longleftrightarrow> rb_has_been_bound_' r \<and> \<not> Renderbuffer_IsDeleted r"

definition Renderbuffer_MarkAsDeleted :: "RenderbufferInfo \<Rightarrow> RenderbufferInfo" where
  "Renderbuffer_MarkAsDeleted r = r\<lparr>rb_service_id_' := 0\<rparr>"

record RenderbufferManager =
  max_renderbuffer_size_' :: GLint
  renderbuffer_infos_' :: "(GLuint \<times> nat) list"
  rb_objects :: "RenderbufferInfo list"

definition RenderbufferManager_new :: "GLint \<Rightarrow> RenderbufferManager" where
  "RenderbufferManager_new max_renderbuffer_size =
     \<lparr>max_renderbuffer_size_' = max_renderbuffer_size, renderbuffer_infos_' = [], rb_objects = []\<rparr>"

text \<open>\<^verbatim>\<open>insert\<close> keeps an existing entry, the debug check aside.\<close>

definition insert_entry :: "GLuint \<Rightarrow> nat \<Rightarrow> (GLuint \<times> nat) list \<Rightarrow> (GLuint \<times> nat) list" where
  "insert_entry client_id a es = (if map_of es client_id = None then (client_id, a) # es else es)"

definition CreateRenderbufferInfo :: "GLuint \<Rightarrow> GLuint \<Rightarrow> RenderbufferManager \<Rightarrow> RenderbufferManager" where
  "CreateRenderbufferInfo client_id service_id m =
     m\<lparr>renderbuffer_infos_' := insert_entry client_id (length (rb_objects m)) (renderbuffer_infos_' m),
       rb_objects := rb_objects m @ [RenderbufferInfo_new service_id]\<rparr>"

definition GetRenderbufferInfo :: "GLuint \<Rightarrow> RenderbufferManager \<Rightarrow> nat option" where
  "GetRenderbufferInfo client_id m = map_of (renderbuffer_infos_' m) client_id"

definition RemoveRenderbufferInfo :: "GLuint \<Rightarrow> RenderbufferManager \<Rightarrow> RenderbufferManager" where
  "RemoveRenderbufferInfo client_id m =
     (case map_of (renderbuffer_infos_' m) client_id of
        None \<Rightarrow> m
      | Some a \<Rightarrow>
          m\<lparr>rb_objects := (rb_objects m)[a := Renderbuffer_MarkAsDeleted (rb_objects m ! a)],
            renderbuffer_infos_' := AList.delete client_id (renderbuffer_infos_' m)\<rparr>)"

definition Renderbuffer_GetClientId :: "GLuint \<Rightarrow> RenderbufferManager \<Rightarrow> GLuint option" where
  "Renderbuffer_GetClientId service_id m =
     map_option fst (find (\<lambda>(cid, a). rb_service_id_' (rb_objects m ! a) = service_id) (renderbuffer_infos_' m))"

section \<open>Framebuffers\<close>

text \<open>The two classes derived from \<^verbatim>\<open>Attachment\<close>; their methods read the objects they refer to.\<close>

datatype Attachment =
    RenderbufferAttachment nat
  | TextureAttachment nat GLenum GLint

fun Attachment_width :: "RenderbufferInfo list \<Rightarrow> TextureInfo list \<Rightarrow> Attachment \<Rightarrow> GLsizei" where
  "Attachment_width rbs ts (RenderbufferAttachment a) = rb_width_' (rbs ! a)"
| "Attachment_width rbs ts (TextureAttachment t target level) =
     (case GetLevelSize target level (ts ! t) of Some (w, h) \<Rightarrow> w | None \<Rightarrow> 0)"

fun Attachment_height :: "RenderbufferInfo list \<Rightarrow> TextureInfo list \<Rightarrow> Attachment \<Rightarrow> GLsizei" where
  "Attachment_height rbs ts (RenderbufferAttachment a) = rb_height_' (rbs ! a)"
| "Attachment_height rbs ts (TextureAttachment t target level) =
     (case GetLevelSize target level (ts ! t) of Some (w, h) \<Rightarrow> h | None \<Rightarrow> 0)"

fun Attachment_internal_format :: "RenderbufferInfo list \<Rightarrow> TextureInfo list \<Rightarrow> Attachment \<Rightarrow> GLenum" where
  "Attachment_internal_format rbs ts (RenderbufferAttachment a) = rb_internal_format_' (rbs ! a)"
| "Attachment_internal_format rbs ts (TextureAttachment t target level) =
     (case GetLevelType target level (ts ! t) of Some (type, fmt) \<Rightarrow> fmt | None \<Rightarrow> 0)"

fun Attachment_samples :: "RenderbufferInfo list \<Rightarrow> Attachment \<Rightarrow> GLsizei" where
  "Attachment_samples rbs (RenderbufferAttachment a) = rb_samples_' (rbs ! a)"
| "Attachment_samples rbs (TextureAttachment t target level) = 0"

fun Attachment_cleared :: "RenderbufferInfo list \<Rightarrow> Attachment \<Rightarrow> bool" where
  "Attachment_cleared rbs (RenderbufferAttachment a) = rb_cleared_' (rbs ! a)"
| "Attachment_cleared rbs (TextureAttachment t target level) = True"

text \<open>\<^verbatim>\<open>set_cleared\<close> of a texture is not reached: a texture counts as cleared.\<close>

fun Attachment_set_cleared :: "Attachment \<Rightarrow> RenderbufferInfo list \<Rightarrow> RenderbufferInfo list option" where
  "Attachment_set_cleared (RenderbufferAttachment a) rbs = Some (rbs[a := Renderbuffer_set_cleared (rbs ! a)])"
| "Attachment_set_cleared (TextureAttachment t target level) rbs = None"

fun Attachment_IsTexture :: "nat option \<Rightarrow> Attachment \<Rightarrow> bool" where
  "Attachment_IsTexture texture (RenderbufferAttachment a) = False"
| "Attachment_IsTexture texture (TextureAttachment t target level) = (texture = Some t)"

fun Attachment_CanRenderTo :: "TextureInfo list \<Rightarrow> Attachment \<Rightarrow> bool" where
  "Attachment_CanRenderTo ts (RenderbufferAttachment a) = True"
| "Attachment_CanRenderTo ts (TextureAttachment t target level) = Texture_CanRenderTo (ts ! t)"

record FramebufferInfo =
  fb_service_id_' :: GLuint
  fb_has_been_bound_' :: bool
  attachments_' :: "(GLenum \<times> Attachment) list"

definition FramebufferInfo_new :: "GLuint \<Rightarrow> FramebufferInfo" where
  "FramebufferInfo_new service_id =
     \<lparr>fb_service_id_' = service_id, fb_has_been_bound_' = False, attachments_' = []\<rparr>"

definition Framebuffer_IsDeleted :: "FramebufferInfo \<Rightarrow> bool" where
  "Framebuffer_IsDeleted f \<longleftrightarrow> fb_service_id_' f = 0"

definition Framebuffer_MarkAsValid :: "FramebufferInfo \<Rightarrow> FramebufferInfo" where
  "Framebuffer_MarkAsValid f = f\<lparr>fb_has_been_bound_' := True\<rparr>"

definition Framebuffer_IsValid :: "FramebufferInfo \<Rightarrow> bool" where
  "Framebuffer_IsValid f \<longleftrightarrow> fb_has_been_bound_' f \<and> \<not> Framebuffer_IsDeleted f"

definition Framebuffer_MarkAsDeleted :: "FramebufferInfo \<Rightarrow> FramebufferInfo" where
  "Framebuffer_MarkAsDeleted f = f\<lparr>fb_service_id_' := 0, attachments_' := []\<rparr>"

definition GetAttachment :: "GLenum \<Rightarrow> FramebufferInfo \<Rightarrow> Attachment option" where
  "GetAttachment attachment f = map_of (attachments_' f) attachment"

definition HasUnclearedAttachment :: "RenderbufferInfo list \<Rightarrow> GLenum \<Rightarrow> FramebufferInfo \<Rightarrow> bool" where
  "HasUnclearedAttachment rbs attachment f =
     (case map_of (attachments_' f) attachment of
        Some a \<Rightarrow> \<not> Attachment_cleared rbs a | None \<Rightarrow> False)"

fun mark_cleared :: "(GLenum \<times> Attachment) list \<Rightarrow> RenderbufferInfo list \<Rightarrow> RenderbufferInfo list option" where
  "mark_cleared [] rbs = Some rbs"
| "mark_cleared ((k, a) # as) rbs =
     (if \<not> Attachment_cleared rbs a then Option.bind (Attachment_set_cleared a rbs) (mark_cleared as)
      else mark_cleared as rbs)"

definition MarkAttachedRenderbuffersAsCleared ::
  "FramebufferInfo \<Rightarrow> RenderbufferInfo list \<Rightarrow> RenderbufferInfo list option" where
  "MarkAttachedRenderbuffersAsCleared f rbs = mark_cleared (attachments_' f) rbs"

definition HasDepthAttachment :: "FramebufferInfo \<Rightarrow> bool" where
  "HasDepthAttachment f \<longleftrightarrow>
     map_of (attachments_' f) GL_DEPTH_STENCIL_ATTACHMENT \<noteq> None
     \<or> map_of (attachments_' f) GL_DEPTH_ATTACHMENT \<noteq> None"

definition HasStencilAttachment :: "FramebufferInfo \<Rightarrow> bool" where
  "HasStencilAttachment f \<longleftrightarrow>
     map_of (attachments_' f) GL_DEPTH_STENCIL_ATTACHMENT \<noteq> None
     \<or> map_of (attachments_' f) GL_STENCIL_ATTACHMENT \<noteq> None"

definition GetColorAttachmentFormat :: "RenderbufferInfo list \<Rightarrow> TextureInfo list \<Rightarrow> FramebufferInfo \<Rightarrow> GLenum" where
  "GetColorAttachmentFormat rbs ts f =
     (case map_of (attachments_' f) GL_COLOR_ATTACHMENT0 of
        None \<Rightarrow> 0 | Some a \<Rightarrow> Attachment_internal_format rbs ts a)"

definition IsNotComplete :: "RenderbufferInfo list \<Rightarrow> TextureInfo list \<Rightarrow> FramebufferInfo \<Rightarrow> bool" where
  "IsNotComplete rbs ts f =
     list_ex (\<lambda>(k, a). Attachment_width rbs ts a = 0 \<or> Attachment_height rbs ts a = 0
                        \<or> \<not> Attachment_CanRenderTo ts a) (attachments_' f)"

definition AttachRenderbuffer :: "GLenum \<Rightarrow> nat option \<Rightarrow> FramebufferInfo \<Rightarrow> FramebufferInfo" where
  "AttachRenderbuffer attachment renderbuffer f =
     (case renderbuffer of
        Some a \<Rightarrow> f\<lparr>attachments_' := AList.update attachment (RenderbufferAttachment a) (attachments_' f)\<rparr>
      | None \<Rightarrow> f\<lparr>attachments_' := AList.delete attachment (attachments_' f)\<rparr>)"

definition update_texture :: "(TextureInfo \<Rightarrow> TextureInfo) \<Rightarrow> nat \<Rightarrow> TextureInfo list \<Rightarrow> TextureInfo list" where
  "update_texture g t ts = ts[t := g (ts ! t)]"

text \<open>A texture that is replaced or detached keeps its count; only attaching it again gives one back.\<close>

definition AttachTexture ::
  "GLenum \<Rightarrow> nat option \<Rightarrow> GLenum \<Rightarrow> GLint \<Rightarrow> TextureInfo list \<Rightarrow> FramebufferInfo
    \<Rightarrow> TextureInfo list \<times> FramebufferInfo" where
  "AttachTexture attachment texture target level ts f =
     (let ts = (case (GetAttachment attachment f, texture) of
                  (Some a, Some t) \<Rightarrow>
                    if Attachment_IsTexture texture a then update_texture DetachFromFramebuffer t ts else ts
                | _ \<Rightarrow> ts)
      in case texture of
           Some t \<Rightarrow>
             (update_texture AttachToFramebuffer t ts,
              f\<lparr>attachments_' := AList.update attachment (TextureAttachment t target level) (attachments_' f)\<rparr>)
         | None \<Rightarrow> (ts, f\<lparr>attachments_' := AList.delete attachment (attachments_' f)\<rparr>))"

record FramebufferManager =
  framebuffer_infos_' :: "(GLuint \<times> nat) list"
  fb_objects :: "FramebufferInfo list"

definition FramebufferManager_new :: FramebufferManager where
  "FramebufferManager_new = \<lparr>framebuffer_infos_' = [], fb_objects = []\<rparr>"

definition CreateFramebufferInfo :: "GLuint \<Rightarrow> GLuint \<Rightarrow> FramebufferManager \<Rightarrow> FramebufferManager" where
  "CreateFramebufferInfo client_id service_id m =
     m\<lparr>framebuffer_infos_' := insert_entry client_id (length (fb_objects m)) (framebuffer_infos_' m),
       fb_objects := fb_objects m @ [FramebufferInfo_new service_id]\<rparr>"

definition GetFramebufferInfo :: "GLuint \<Rightarrow> FramebufferManager \<Rightarrow> nat option" where
  "GetFramebufferInfo client_id m = map_of (framebuffer_infos_' m) client_id"

definition RemoveFramebufferInfo :: "GLuint \<Rightarrow> FramebufferManager \<Rightarrow> FramebufferManager" where
  "RemoveFramebufferInfo client_id m =
     (case map_of (framebuffer_infos_' m) client_id of
        None \<Rightarrow> m
      | Some a \<Rightarrow>
          m\<lparr>fb_objects := (fb_objects m)[a := Framebuffer_MarkAsDeleted (fb_objects m ! a)],
            framebuffer_infos_' := AList.delete client_id (framebuffer_infos_' m)\<rparr>)"

definition Framebuffer_GetClientId :: "GLuint \<Rightarrow> FramebufferManager \<Rightarrow> GLuint option" where
  "Framebuffer_GetClientId service_id m =
     map_option fst (find (\<lambda>(cid, a). fb_service_id_' (fb_objects m ! a) = service_id) (framebuffer_infos_' m))"

section \<open>Destruction\<close>

text \<open>The service ids deleted, in order, and the objects afterwards.\<close>

fun destroy_renderbuffers ::
  "bool \<Rightarrow> (GLuint \<times> nat) list \<Rightarrow> RenderbufferInfo list \<Rightarrow> GLuint list \<times> RenderbufferInfo list" where
  "destroy_renderbuffers have_context [] objs = ([], objs)"
| "destroy_renderbuffers have_context ((cid, a) # es) objs =
     (if have_context \<and> \<not> Renderbuffer_IsDeleted (objs ! a) then
        let (ids, objs') = destroy_renderbuffers have_context es (objs[a := Renderbuffer_MarkAsDeleted (objs ! a)])
        in (rb_service_id_' (objs ! a) # ids, objs')
      else destroy_renderbuffers have_context es objs)"

definition RenderbufferManager_Destroy :: "bool \<Rightarrow> RenderbufferManager \<Rightarrow> GLuint list \<times> RenderbufferManager" where
  "RenderbufferManager_Destroy have_context m =
     (let (ids, objs) = destroy_renderbuffers have_context (renderbuffer_infos_' m) (rb_objects m)
      in (ids, m\<lparr>renderbuffer_infos_' := [], rb_objects := objs\<rparr>))"

fun destroy_framebuffers ::
  "bool \<Rightarrow> (GLuint \<times> nat) list \<Rightarrow> FramebufferInfo list \<Rightarrow> GLuint list \<times> FramebufferInfo list" where
  "destroy_framebuffers have_context [] objs = ([], objs)"
| "destroy_framebuffers have_context ((cid, a) # es) objs =
     (if have_context \<and> \<not> Framebuffer_IsDeleted (objs ! a) then
        let (ids, objs') = destroy_framebuffers have_context es (objs[a := Framebuffer_MarkAsDeleted (objs ! a)])
        in (fb_service_id_' (objs ! a) # ids, objs')
      else destroy_framebuffers have_context es objs)"

definition FramebufferManager_Destroy :: "bool \<Rightarrow> FramebufferManager \<Rightarrow> GLuint list \<times> FramebufferManager" where
  "FramebufferManager_Destroy have_context m =
     (let (ids, objs) = destroy_framebuffers have_context (framebuffer_infos_' m) (fb_objects m)
      in (ids, m\<lparr>framebuffer_infos_' := [], fb_objects := objs\<rparr>))"

section \<open>Pairs of ids\<close>

text \<open>\<open>id_map_'\<close> lists the entries of the hash map.\<close>

type_synonym IdManager = "(GLuint \<times> GLuint) list"

definition AddMapping :: "GLuint \<Rightarrow> GLuint \<Rightarrow> IdManager \<Rightarrow> bool \<times> IdManager" where
  "AddMapping client_id service_id m =
     (if map_of m client_id = None then (True, (client_id, service_id) # m) else (False, m))"

definition RemoveMapping :: "GLuint \<Rightarrow> GLuint \<Rightarrow> IdManager \<Rightarrow> bool \<times> IdManager" where
  "RemoveMapping client_id service_id m =
     (if map_of m client_id = Some service_id then (True, AList.delete client_id m) else (False, m))"

definition IdManager_GetServiceId :: "GLuint \<Rightarrow> IdManager \<Rightarrow> GLuint option" where
  "IdManager_GetServiceId client_id m = map_of m client_id"

definition IdManager_GetClientId :: "GLuint \<Rightarrow> IdManager \<Rightarrow> GLuint option" where
  "IdManager_GetClientId service_id m = map_option fst (find (\<lambda>e. snd e = service_id) m)"

end
