(* ===== verification/Framebuffer_Commands.thy ===== *)
theory Framebuffer_Commands
  imports Framebuffer_Manager Texture_Safety Vertex_Attrib_Manager
begin

text \<open>
  The commands of \<^verbatim>\<open>GLES2DecoderImpl\<close> (\<^verbatim>\<open>service/gles2_cmd_decoder.cc\<close> and the generated
  \<^verbatim>\<open>gles2_cmd_decoder_autogen.h\<close>) on framebuffers and renderbuffers, and the state that decides what a
  draw call or a clear may write: the color, depth and stencil masks, the tests, and the clear values.

  The decoder of the texture commands is the part \<open>tex\<close> of the state: textures are attached to
  framebuffers, and the driver, the errors and \<^verbatim>\<open>state_dirty_\<close> are shared. \<open>fbo_issued\<close> records the GL
  calls of this theory in order. Parameters, in \<open>FboApi\<close>, are the driver and the surface. \<^const>\<open>None\<close> is
  a null pointer that is dereferenced, code marked as not reached, or no return.
\<close>

section \<open>State\<close>

abbreviation (input) GL_TEXTURE :: GLenum where "GL_TEXTURE \<equiv> 0x1702"

text \<open>The calls; a float is given by its bits. The flag of the last two calls says whether the ANGLE variant
  is used.\<close>

datatype fb_call =
    glBindFramebufferEXT GLenum GLuint
  | glBindRenderbufferEXT GLenum GLuint
  | glDeleteFramebuffersEXT GLuint
  | glDeleteRenderbuffersEXT GLuint
  | glFramebufferRenderbufferEXT GLenum GLenum GLenum GLuint
  | glFramebufferTexture2DEXT GLenum GLenum GLenum GLuint GLint
  | glClear GLenum
  | glClearColor GLfloat GLfloat GLfloat GLfloat
  | glClearStencil GLint
  | glClearDepth GLfloat
  | glColorMask bool bool bool bool
  | glDepthMask bool
  | glStencilMask GLuint
  | glStencilMaskSeparate GLenum GLuint
  | glEnable GLenum
  | glDisable GLenum
  | glRenderbufferStorageEXT GLenum GLenum GLsizei GLsizei
  | glRenderbufferStorageMultisample bool GLenum GLsizei GLenum GLsizei GLsizei
  | glBlitFramebuffer bool "GLint list" "GLint list" GLenum GLenum

record 'g FboApi =
  f_get_error :: "'g get_error"
  f_call :: "fb_call \<Rightarrow> 'g \<Rightarrow> 'g"
  f_gen_framebuffers :: "nat \<Rightarrow> 'g \<Rightarrow> GLuint list \<times> 'g"
  f_gen_renderbuffers :: "nat \<Rightarrow> 'g \<Rightarrow> GLuint list \<times> 'g"
  f_check_status :: "GLenum \<Rightarrow> 'g \<Rightarrow> GLenum \<times> 'g"
  f_is_egl_gles2 :: bool
  f_is_angle :: bool
  f_backing_framebuffer :: GLuint
  f_surface_size :: "GLsizei \<times> GLsizei"

text \<open>The framebuffer that takes the place of the surface when the decoder renders off screen.\<close>

record OffscreenTarget =
  off_framebuffer_id :: GLuint
  off_color_format :: GLenum
  off_depth_format :: GLenum
  off_stencil_format :: GLenum
  off_size :: "GLsizei \<times> GLsizei"

record 'g FboDecoder =
  tex :: "'g TexDecoder"
  renderbuffer_manager :: RenderbufferManager
  framebuffer_manager :: FramebufferManager
  framebuffer_ids :: IdAllocator
  renderbuffer_ids :: IdAllocator
  bound_draw_framebuffer_' :: "nat option"
  bound_read_framebuffer_' :: "nat option"
  bound_renderbuffer_' :: "nat option"
  offscreen_target_' :: "OffscreenTarget option"
  back_buffer_color_format_' :: GLenum
  back_buffer_has_depth_' :: bool
  back_buffer_has_stencil_' :: bool
  clear_color_' :: "GLfloat \<times> GLfloat \<times> GLfloat \<times> GLfloat"
  clear_stencil_' :: GLint
  clear_depth_' :: GLfloat
  mask_color_' :: "bool \<times> bool \<times> bool \<times> bool"
  mask_depth_' :: bool
  mask_stencil_front_' :: GLuint
  mask_stencil_back_' :: GLuint
  enable_scissor_test_' :: bool
  enable_depth_test_' :: bool
  enable_stencil_test_' :: bool
  fbo_issued :: "fb_call list"

definition on_tex :: "('g TexDecoder \<Rightarrow> 'g TexDecoder) \<Rightarrow> 'g FboDecoder \<Rightarrow> 'g FboDecoder" where
  "on_tex f s = s\<lparr>tex := f (tex s)\<rparr>"

definition fb_gl :: "'g FboApi \<Rightarrow> fb_call \<Rightarrow> 'g FboDecoder \<Rightarrow> 'g FboDecoder" where
  "fb_gl P c s = (on_tex (on_tex_driver (f_call P c)) s)\<lparr>fbo_issued := fbo_issued s @ [c]\<rparr>"

definition fb_gls :: "'g FboApi \<Rightarrow> fb_call list \<Rightarrow> 'g FboDecoder \<Rightarrow> 'g FboDecoder" where
  "fb_gls P cs s = fold (fb_gl P) cs s"

definition fb_error :: "GLenum \<Rightarrow> string \<Rightarrow> 'g FboDecoder \<Rightarrow> 'g FboDecoder" where
  "fb_error e msg = on_tex (tex_error e msg)"

definition set_dirty :: "'g FboDecoder \<Rightarrow> 'g FboDecoder" where
  "set_dirty = on_tex (\<lambda>t. t\<lparr>state_dirty_' := True\<rparr>)"

text \<open>\<^verbatim>\<open>CopyRealGLErrorsToWrapper\<close>, a call, \<^verbatim>\<open>PeekGLError\<close>: whether the call made no error.\<close>

definition checked_call :: "'g FboApi \<Rightarrow> fb_call \<Rightarrow> 'g FboDecoder \<Rightarrow> (bool \<times> 'g FboDecoder) option" where
  "checked_call P c s = do {
     t \<leftarrow> CopyRealGLErrorsToWrapper (f_get_error P) (tex s);
     let s = fb_gl P c (s\<lparr>tex := t\<rparr>);
     let (error, t) = PeekGLError (f_get_error P) (tex s);
     Some (error = GL_NO_ERROR, s\<lparr>tex := t\<rparr>)
   }"

abbreviation rb_objs :: "'g FboDecoder \<Rightarrow> RenderbufferInfo list" where
  "rb_objs s \<equiv> rb_objects (renderbuffer_manager s)"

abbreviation fb_objs :: "'g FboDecoder \<Rightarrow> FramebufferInfo list" where
  "fb_objs s \<equiv> fb_objects (framebuffer_manager s)"

abbreviation tex_objs :: "'g FboDecoder \<Rightarrow> TextureInfo list" where
  "tex_objs s \<equiv> tex_objects (texture_manager (tex s))"

definition update_framebuffer :: "(FramebufferInfo \<Rightarrow> FramebufferInfo) \<Rightarrow> nat \<Rightarrow> 'g FboDecoder \<Rightarrow> 'g FboDecoder" where
  "update_framebuffer g a s =
     s\<lparr>framebuffer_manager := (framebuffer_manager s)\<lparr>fb_objects := (fb_objs s)[a := g (fb_objs s ! a)]\<rparr>\<rparr>"

definition update_renderbuffer :: "(RenderbufferInfo \<Rightarrow> RenderbufferInfo) \<Rightarrow> nat \<Rightarrow> 'g FboDecoder \<Rightarrow> 'g FboDecoder" where
  "update_renderbuffer g a s =
     s\<lparr>renderbuffer_manager := (renderbuffer_manager s)\<lparr>rb_objects := (rb_objs s)[a := g (rb_objs s ! a)]\<rparr>\<rparr>"

section \<open>Names\<close>

text \<open>The decoder's own lookups hide deleted objects.\<close>

definition Decoder_GetFramebufferInfo :: "GLuint \<Rightarrow> 'g FboDecoder \<Rightarrow> nat option" where
  "Decoder_GetFramebufferInfo client_id s =
     (case GetFramebufferInfo client_id (framebuffer_manager s) of
        None \<Rightarrow> None
      | Some a \<Rightarrow> if Framebuffer_IsDeleted (fb_objs s ! a) then None else Some a)"

definition Decoder_GetRenderbufferInfo :: "GLuint \<Rightarrow> 'g FboDecoder \<Rightarrow> nat option" where
  "Decoder_GetRenderbufferInfo client_id s =
     (case GetRenderbufferInfo client_id (renderbuffer_manager s) of
        None \<Rightarrow> None
      | Some a \<Rightarrow> if Renderbuffer_IsDeleted (rb_objs s ! a) then None else Some a)"

definition Decoder_CreateFramebufferInfo :: "GLuint \<Rightarrow> GLuint \<Rightarrow> 'g FboDecoder \<Rightarrow> 'g FboDecoder" where
  "Decoder_CreateFramebufferInfo client_id service_id s =
     s\<lparr>framebuffer_manager := CreateFramebufferInfo client_id service_id (framebuffer_manager s)\<rparr>"

definition Decoder_CreateRenderbufferInfo :: "GLuint \<Rightarrow> GLuint \<Rightarrow> 'g FboDecoder \<Rightarrow> 'g FboDecoder" where
  "Decoder_CreateRenderbufferInfo client_id service_id s =
     s\<lparr>renderbuffer_manager := CreateRenderbufferInfo client_id service_id (renderbuffer_manager s)\<rparr>"

text \<open>Names from the driver, by one of the two generators.\<close>

definition gen_names ::
  "(nat \<Rightarrow> 'g \<Rightarrow> GLuint list \<times> 'g) \<Rightarrow> nat \<Rightarrow> 'g FboDecoder \<Rightarrow> GLuint list \<times> 'g FboDecoder" where
  "gen_names gen n s = (let (ids, d) = gen n (driver (tex s)) in (ids, on_tex (on_tex_driver (\<lambda>_. d)) s))"

definition GenFramebuffersHelper :: "'g FboApi \<Rightarrow> GLuint list \<Rightarrow> 'g FboDecoder \<Rightarrow> bool \<times> 'g FboDecoder" where
  "GenFramebuffersHelper P client_ids s =
     (if list_ex (\<lambda>i. Decoder_GetFramebufferInfo i s \<noteq> None) client_ids then (False, s)
      else let (service_ids, s) = gen_names (f_gen_framebuffers P) (length client_ids) s
           in (True, fold (\<lambda>(cid, sid). Decoder_CreateFramebufferInfo cid sid) (zip client_ids service_ids) s))"

definition GenRenderbuffersHelper :: "'g FboApi \<Rightarrow> GLuint list \<Rightarrow> 'g FboDecoder \<Rightarrow> bool \<times> 'g FboDecoder" where
  "GenRenderbuffersHelper P client_ids s =
     (if list_ex (\<lambda>i. Decoder_GetRenderbufferInfo i s \<noteq> None) client_ids then (False, s)
      else let (service_ids, s) = gen_names (f_gen_renderbuffers P) (length client_ids) s
           in (True, fold (\<lambda>(cid, sid). Decoder_CreateRenderbufferInfo cid sid) (zip client_ids service_ids) s))"

definition delete_framebuffer :: "'g FboApi \<Rightarrow> GLuint \<Rightarrow> nat \<Rightarrow> 'g FboDecoder \<Rightarrow> 'g FboDecoder" where
  "delete_framebuffer P client_id a s =
     (let s = (if bound_draw_framebuffer_' s = Some a then set_dirty (s\<lparr>bound_draw_framebuffer_' := None\<rparr>) else s);
          s = fb_gl P (glDeleteFramebuffersEXT (fb_service_id_' (fb_objs s ! a))) s
      in s\<lparr>framebuffer_manager := RemoveFramebufferInfo client_id (framebuffer_manager s)\<rparr>)"

fun DeleteFramebuffersHelper :: "'g FboApi \<Rightarrow> GLuint list \<Rightarrow> 'g FboDecoder \<Rightarrow> 'g FboDecoder" where
  "DeleteFramebuffersHelper P [] s = s"
| "DeleteFramebuffersHelper P (i # is) s =
     (case Decoder_GetFramebufferInfo i s of
        None \<Rightarrow> DeleteFramebuffersHelper P is s
      | Some a \<Rightarrow> DeleteFramebuffersHelper P is (delete_framebuffer P i a s))"

definition delete_renderbuffer :: "'g FboApi \<Rightarrow> GLuint \<Rightarrow> nat \<Rightarrow> 'g FboDecoder \<Rightarrow> 'g FboDecoder" where
  "delete_renderbuffer P client_id a s =
     (let s = fb_gl P (glDeleteRenderbuffersEXT (rb_service_id_' (rb_objs s ! a))) (set_dirty s)
      in s\<lparr>renderbuffer_manager := RemoveRenderbufferInfo client_id (renderbuffer_manager s)\<rparr>)"

fun DeleteRenderbuffersHelper :: "'g FboApi \<Rightarrow> GLuint list \<Rightarrow> 'g FboDecoder \<Rightarrow> 'g FboDecoder" where
  "DeleteRenderbuffersHelper P [] s = s"
| "DeleteRenderbuffersHelper P (i # is) s =
     (case Decoder_GetRenderbufferInfo i s of
        None \<Rightarrow> DeleteRenderbuffersHelper P is s
      | Some a \<Rightarrow> DeleteRenderbuffersHelper P is (delete_renderbuffer P i a s))"

text \<open>The generated handlers; the ids are in shared memory or behind the command.\<close>

definition read_ids :: "GLsizei \<Rightarrow> (uint32 \<Rightarrow> byte list option) \<Rightarrow> GLuint list option" where
  "read_ids n data =
     (let (ok, data_size) = SafeMultiplyUint32 n 4
      in if \<not> ok then None else map_option words_of_bytes (data data_size))"

definition handle_gen ::
  "(GLuint list \<Rightarrow> 's \<Rightarrow> bool \<times> 's) \<Rightarrow> GLsizei \<Rightarrow> (uint32 \<Rightarrow> byte list option) \<Rightarrow> 's \<Rightarrow> Error \<times> 's" where
  "handle_gen helper n data s =
     (case read_ids n data of
        None \<Rightarrow> (kOutOfBounds, s)
      | Some ids \<Rightarrow> let (ok, s) = helper ids s in (if ok then kNoError else kInvalidArguments, s))"

definition handle_delete ::
  "(GLuint list \<Rightarrow> 's \<Rightarrow> 's) \<Rightarrow> GLsizei \<Rightarrow> (uint32 \<Rightarrow> byte list option) \<Rightarrow> 's \<Rightarrow> Error \<times> 's" where
  "handle_delete helper n data s =
     (case read_ids n data of None \<Rightarrow> (kOutOfBounds, s) | Some ids \<Rightarrow> (kNoError, helper ids s))"

definition HandleGenFramebuffers where
  "HandleGenFramebuffers P w n shm_id shm_offset =
     handle_gen (GenFramebuffersHelper P) n (GetSharedMemoryAs w shm_id shm_offset)"

definition HandleGenFramebuffersImmediate where
  "HandleGenFramebuffersImmediate P imm n = handle_gen (GenFramebuffersHelper P) n (GetImmediateDataAs imm)"

definition HandleGenRenderbuffers where
  "HandleGenRenderbuffers P w n shm_id shm_offset =
     handle_gen (GenRenderbuffersHelper P) n (GetSharedMemoryAs w shm_id shm_offset)"

definition HandleGenRenderbuffersImmediate where
  "HandleGenRenderbuffersImmediate P imm n = handle_gen (GenRenderbuffersHelper P) n (GetImmediateDataAs imm)"

definition HandleDeleteFramebuffers where
  "HandleDeleteFramebuffers P w n shm_id shm_offset =
     handle_delete (DeleteFramebuffersHelper P) n (GetSharedMemoryAs w shm_id shm_offset)"

definition HandleDeleteFramebuffersImmediate where
  "HandleDeleteFramebuffersImmediate P imm n =
     handle_delete (DeleteFramebuffersHelper P) n (GetImmediateDataAs imm)"

definition HandleDeleteRenderbuffers where
  "HandleDeleteRenderbuffers P w n shm_id shm_offset =
     handle_delete (DeleteRenderbuffersHelper P) n (GetSharedMemoryAs w shm_id shm_offset)"

definition HandleDeleteRenderbuffersImmediate where
  "HandleDeleteRenderbuffersImmediate P imm n =
     handle_delete (DeleteRenderbuffersHelper P) n (GetImmediateDataAs imm)"

section \<open>Binding\<close>

text \<open>The object of a name, which is made when the context generates resources at their first use.
  \<^const>\<open>None\<close> is the early return; the pointer in the result may be null.\<close>

definition bind_framebuffer_lookup ::
  "'g FboApi \<Rightarrow> GLuint \<Rightarrow> 'g FboDecoder \<Rightarrow> (nat option \<times> GLuint) option \<times> 'g FboDecoder" where
  "bind_framebuffer_lookup P client_id s =
     (case Decoder_GetFramebufferInfo client_id s of
        Some a \<Rightarrow> (Some (Some a, fb_service_id_' (fb_objs s ! a)), s)
      | None \<Rightarrow>
          if \<not> group_bind_generates (tex s) then
            (None, fb_error GL_INVALID_VALUE ''glBindFramebuffer: id not generated by glGenFramebuffers'' s)
          else
            let (ids, s) = gen_names (f_gen_framebuffers P) 1 s;
                s = Decoder_CreateFramebufferInfo client_id (hd ids) s
            in (Some (Decoder_GetFramebufferInfo client_id s, hd ids),
                s\<lparr>framebuffer_ids := snd (IdAllocator_MarkAsUsed client_id (framebuffer_ids s))\<rparr>))"

definition bind_framebuffer :: "'g FboApi \<Rightarrow> GLenum \<Rightarrow> nat option \<Rightarrow> GLuint \<Rightarrow> 'g FboDecoder \<Rightarrow> 'g FboDecoder" where
  "bind_framebuffer P target info service_id s =
     (let s = (if target = GL_FRAMEBUFFER \<or> target = GL_DRAW_FRAMEBUFFER_EXT
               then s\<lparr>bound_draw_framebuffer_' := info\<rparr> else s);
          s = (if target = GL_FRAMEBUFFER \<or> target = GL_READ_FRAMEBUFFER_EXT
               then s\<lparr>bound_read_framebuffer_' := info\<rparr> else s);
          s = set_dirty s;
          service_id = (case (info, offscreen_target_' s) of
                          (None, Some t) \<Rightarrow> off_framebuffer_id t | _ \<Rightarrow> service_id)
      in fb_gl P (glBindFramebufferEXT target service_id) s)"

definition DoBindFramebuffer :: "'g FboApi \<Rightarrow> GLenum \<Rightarrow> GLuint \<Rightarrow> 'g FboDecoder \<Rightarrow> 'g FboDecoder option" where
  "DoBindFramebuffer P target client_id s =
     (if client_id = 0 then Some (bind_framebuffer P target None (f_backing_framebuffer P) s)
      else case bind_framebuffer_lookup P client_id s of
        (None, s) \<Rightarrow> Some s
      | (Some (None, service_id), s) \<Rightarrow> None
      | (Some (Some a, service_id), s) \<Rightarrow>
          Some (bind_framebuffer P target (Some a) service_id (update_framebuffer Framebuffer_MarkAsValid a s)))"

definition HandleBindFramebuffer ::
  "'g FboApi \<Rightarrow> GLenum \<Rightarrow> GLuint \<Rightarrow> 'g FboDecoder \<Rightarrow> (Error \<times> 'g FboDecoder) option" where
  "HandleBindFramebuffer P target framebuffer s =
     (if \<not> IsValid target (v_frame_buffer_target (validators_' (texture_features (tex s)))) then
        Some (kNoError, fb_error GL_INVALID_ENUM ''glBindFramebuffer: target GL_INVALID_ENUM'' s)
      else map_option (Pair kNoError) (DoBindFramebuffer P target framebuffer s))"

definition bind_renderbuffer_lookup ::
  "'g FboApi \<Rightarrow> GLuint \<Rightarrow> 'g FboDecoder \<Rightarrow> (nat option \<times> GLuint) option \<times> 'g FboDecoder" where
  "bind_renderbuffer_lookup P client_id s =
     (case Decoder_GetRenderbufferInfo client_id s of
        Some a \<Rightarrow> (Some (Some a, rb_service_id_' (rb_objs s ! a)), s)
      | None \<Rightarrow>
          if \<not> group_bind_generates (tex s) then
            (None, fb_error GL_INVALID_VALUE ''glBindRenderbuffer: id not generated by glGenRenderbuffers'' s)
          else
            let (ids, s) = gen_names (f_gen_renderbuffers P) 1 s;
                s = Decoder_CreateRenderbufferInfo client_id (hd ids) s
            in (Some (Decoder_GetRenderbufferInfo client_id s, hd ids),
                s\<lparr>renderbuffer_ids := snd (IdAllocator_MarkAsUsed client_id (renderbuffer_ids s))\<rparr>))"

definition bind_renderbuffer :: "'g FboApi \<Rightarrow> GLenum \<Rightarrow> nat option \<Rightarrow> GLuint \<Rightarrow> 'g FboDecoder \<Rightarrow> 'g FboDecoder" where
  "bind_renderbuffer P target info service_id s =
     fb_gl P (glBindRenderbufferEXT target service_id) (s\<lparr>bound_renderbuffer_' := info\<rparr>)"

definition DoBindRenderbuffer :: "'g FboApi \<Rightarrow> GLenum \<Rightarrow> GLuint \<Rightarrow> 'g FboDecoder \<Rightarrow> 'g FboDecoder option" where
  "DoBindRenderbuffer P target client_id s =
     (if client_id = 0 then Some (bind_renderbuffer P target None 0 s)
      else case bind_renderbuffer_lookup P client_id s of
        (None, s) \<Rightarrow> Some s
      | (Some (None, service_id), s) \<Rightarrow> None
      | (Some (Some a, service_id), s) \<Rightarrow>
          Some (bind_renderbuffer P target (Some a) service_id (update_renderbuffer Renderbuffer_MarkAsValid a s)))"

definition HandleBindRenderbuffer ::
  "'g FboApi \<Rightarrow> GLenum \<Rightarrow> GLuint \<Rightarrow> 'g FboDecoder \<Rightarrow> (Error \<times> 'g FboDecoder) option" where
  "HandleBindRenderbuffer P target renderbuffer s =
     (if \<not> IsValid target (v_render_buffer_target (validators_' (texture_features (tex s)))) then
        Some (kNoError, fb_error GL_INVALID_ENUM ''glBindRenderbuffer: target GL_INVALID_ENUM'' s)
      else map_option (Pair kNoError) (DoBindRenderbuffer P target renderbuffer s))"

section \<open>The bound framebuffers\<close>

definition GetFramebufferInfoForTarget :: "GLenum \<Rightarrow> 'g FboDecoder \<Rightarrow> nat option" where
  "GetFramebufferInfoForTarget target s =
     (let info = (if target = GL_FRAMEBUFFER \<or> target = GL_DRAW_FRAMEBUFFER_EXT then bound_draw_framebuffer_' s
                  else if target = GL_READ_FRAMEBUFFER_EXT then bound_read_framebuffer_' s
                  else None)
      in case info of None \<Rightarrow> None | Some a \<Rightarrow> if Framebuffer_IsDeleted (fb_objs s ! a) then None else Some a)"

definition fb_color_format :: "nat \<Rightarrow> 'g FboDecoder \<Rightarrow> GLenum" where
  "fb_color_format a s = GetColorAttachmentFormat (rb_objs s) (tex_objs s) (fb_objs s ! a)"

definition Fbo_CheckFramebufferComplete :: "string \<Rightarrow> 'g FboDecoder \<Rightarrow> bool \<times> 'g FboDecoder" where
  "Fbo_CheckFramebufferComplete func_name s =
     (case bound_draw_framebuffer_' s of
        None \<Rightarrow> (True, s)
      | Some a \<Rightarrow>
          if IsNotComplete (rb_objs s) (tex_objs s) (fb_objs s ! a)
          then (False, fb_error GL_INVALID_FRAMEBUFFER_OPERATION (func_name @ '' framebuffer incomplete'') s)
          else (True, s))"

definition GetBoundReadFrameBufferSize :: "'g FboApi \<Rightarrow> 'g FboDecoder \<Rightarrow> GLsizei \<times> GLsizei" where
  "GetBoundReadFrameBufferSize P s =
     (case bound_read_framebuffer_' s of
        Some a \<Rightarrow>
          (case GetAttachment GL_COLOR_ATTACHMENT0 (fb_objs s ! a) of
             Some att \<Rightarrow> (Attachment_width (rb_objs s) (tex_objs s) att,
                          Attachment_height (rb_objs s) (tex_objs s) att)
           | None \<Rightarrow> (0, 0))
      | None \<Rightarrow> (case offscreen_target_' s of Some t \<Rightarrow> off_size t | None \<Rightarrow> f_surface_size P))"

definition surface_format :: "'g FboDecoder \<Rightarrow> GLenum" where
  "surface_format s =
     (case offscreen_target_' s of Some t \<Rightarrow> off_color_format t | None \<Rightarrow> back_buffer_color_format_' s)"

definition GetBoundReadFrameBufferInternalFormat :: "'g FboDecoder \<Rightarrow> GLenum" where
  "GetBoundReadFrameBufferInternalFormat s =
     (case bound_read_framebuffer_' s of Some a \<Rightarrow> fb_color_format a s | None \<Rightarrow> surface_format s)"

definition GetBoundDrawFrameBufferInternalFormat :: "'g FboDecoder \<Rightarrow> GLenum" where
  "GetBoundDrawFrameBufferInternalFormat s =
     (case bound_draw_framebuffer_' s of Some a \<Rightarrow> fb_color_format a s | None \<Rightarrow> surface_format s)"

definition has_alpha :: "GLenum \<Rightarrow> bool" where
  "has_alpha format \<longleftrightarrow> GetChannelsForFormat format AND 0x0008 \<noteq> 0"

definition BoundFramebufferHasColorAttachmentWithAlpha :: "'g FboDecoder \<Rightarrow> bool" where
  "BoundFramebufferHasColorAttachmentWithAlpha s \<longleftrightarrow> has_alpha (GetBoundDrawFrameBufferInternalFormat s)"

definition BoundFramebufferHasDepthAttachment :: "'g FboDecoder \<Rightarrow> bool" where
  "BoundFramebufferHasDepthAttachment s =
     (case bound_draw_framebuffer_' s of
        Some a \<Rightarrow> HasDepthAttachment (fb_objs s ! a)
      | None \<Rightarrow> (case offscreen_target_' s of
                   Some t \<Rightarrow> off_depth_format t \<noteq> 0 | None \<Rightarrow> back_buffer_has_depth_' s))"

definition BoundFramebufferHasStencilAttachment :: "'g FboDecoder \<Rightarrow> bool" where
  "BoundFramebufferHasStencilAttachment s =
     (case bound_draw_framebuffer_' s of
        Some a \<Rightarrow> HasStencilAttachment (fb_objs s ! a)
      | None \<Rightarrow> (case offscreen_target_' s of
                   Some t \<Rightarrow> off_stencil_format t \<noteq> 0 \<or> off_depth_format t = GL_DEPTH24_STENCIL8
                 | None \<Rightarrow> back_buffer_has_stencil_' s))"

definition EnableDisable :: "GLenum \<Rightarrow> bool \<Rightarrow> fb_call" where
  "EnableDisable pname enable = (if enable then glEnable pname else glDisable pname)"

text \<open>The calls of \<^verbatim>\<open>ApplyDirtyState\<close>.\<close>

definition dirty_calls :: "'g FboDecoder \<Rightarrow> fb_call list" where
  "dirty_calls s =
     (let (r, g, b, a) = mask_color_' s;
          have_depth = BoundFramebufferHasDepthAttachment s;
          have_stencil = BoundFramebufferHasStencilAttachment s
      in [glColorMask r g b (a \<and> BoundFramebufferHasColorAttachmentWithAlpha s),
          glDepthMask (mask_depth_' s \<and> have_depth),
          EnableDisable GL_DEPTH_TEST (enable_depth_test_' s \<and> have_depth),
          glStencilMaskSeparate GL_FRONT (if have_stencil then mask_stencil_front_' s else 0),
          glStencilMaskSeparate GL_BACK (if have_stencil then mask_stencil_back_' s else 0),
          EnableDisable GL_STENCIL_TEST (enable_stencil_test_' s \<and> have_stencil)])"

definition ApplyDirtyState :: "'g FboApi \<Rightarrow> 'g FboDecoder \<Rightarrow> 'g FboDecoder" where
  "ApplyDirtyState P s =
     (if state_dirty_' (tex s)
      then on_tex (\<lambda>t. t\<lparr>state_dirty_' := False\<rparr>) (fb_gls P (dirty_calls s) s)
      else s)"

definition DoClear :: "'g FboApi \<Rightarrow> GLenum \<Rightarrow> 'g FboDecoder \<Rightarrow> 'g FboDecoder" where
  "DoClear P bits s =
     (let (ok, s) = Fbo_CheckFramebufferComplete ''glClear'' s
      in if ok then fb_gl P (glClear bits) (ApplyDirtyState P s) else s)"

definition HandleClear :: "'g FboApi \<Rightarrow> GLenum \<Rightarrow> 'g FboDecoder \<Rightarrow> Error \<times> 'g FboDecoder" where
  "HandleClear P bits s = (kNoError, DoClear P bits s)"

definition DoCheckFramebufferStatus :: "'g FboApi \<Rightarrow> GLenum \<Rightarrow> 'g FboDecoder \<Rightarrow> GLenum \<times> 'g FboDecoder" where
  "DoCheckFramebufferStatus P target s =
     (case GetFramebufferInfoForTarget target s of
        None \<Rightarrow> (GL_FRAMEBUFFER_COMPLETE, s)
      | Some a \<Rightarrow> let (status, d) = f_check_status P target (driver (tex s))
                  in (status, on_tex (on_tex_driver (\<lambda>_. d)) s))"

section \<open>State of the client\<close>

definition SetCapabilityState :: "GLenum \<Rightarrow> bool \<Rightarrow> 'g FboDecoder \<Rightarrow> bool \<times> 'g FboDecoder" where
  "SetCapabilityState cap enabled s =
     (if cap = GL_SCISSOR_TEST then (True, s\<lparr>enable_scissor_test_' := enabled\<rparr>)
      else if cap = GL_DEPTH_TEST then
        (False, if enable_depth_test_' s \<noteq> enabled then set_dirty (s\<lparr>enable_depth_test_' := enabled\<rparr>) else s)
      else if cap = GL_STENCIL_TEST then
        (False, if enable_stencil_test_' s \<noteq> enabled then set_dirty (s\<lparr>enable_stencil_test_' := enabled\<rparr>) else s)
      else (True, s))"

definition DoDisable :: "'g FboApi \<Rightarrow> GLenum \<Rightarrow> 'g FboDecoder \<Rightarrow> 'g FboDecoder" where
  "DoDisable P cap s = (let (call, s) = SetCapabilityState cap False s in if call then fb_gl P (glDisable cap) s else s)"

definition DoEnable :: "'g FboApi \<Rightarrow> GLenum \<Rightarrow> 'g FboDecoder \<Rightarrow> 'g FboDecoder" where
  "DoEnable P cap s = (let (call, s) = SetCapabilityState cap True s in if call then fb_gl P (glEnable cap) s else s)"

definition HandleDisable :: "'g FboApi \<Rightarrow> GLenum \<Rightarrow> 'g FboDecoder \<Rightarrow> Error \<times> 'g FboDecoder" where
  "HandleDisable P cap s =
     (kNoError, if \<not> IsValid cap (v_capability (validators_' (texture_features (tex s))))
                then fb_error GL_INVALID_ENUM ''glDisable: cap GL_INVALID_ENUM'' s else DoDisable P cap s)"

definition HandleEnable :: "'g FboApi \<Rightarrow> GLenum \<Rightarrow> 'g FboDecoder \<Rightarrow> Error \<times> 'g FboDecoder" where
  "HandleEnable P cap s =
     (kNoError, if \<not> IsValid cap (v_capability (validators_' (texture_features (tex s))))
                then fb_error GL_INVALID_ENUM ''glEnable: cap GL_INVALID_ENUM'' s else DoEnable P cap s)"

definition DoClearColor :: "'g FboApi \<Rightarrow> GLfloat \<Rightarrow> GLfloat \<Rightarrow> GLfloat \<Rightarrow> GLfloat \<Rightarrow> 'g FboDecoder \<Rightarrow> 'g FboDecoder" where
  "DoClearColor P red green blue alpha s =
     fb_gl P (glClearColor red green blue alpha) (s\<lparr>clear_color_' := (red, green, blue, alpha)\<rparr>)"

definition DoClearDepthf :: "'g FboApi \<Rightarrow> GLfloat \<Rightarrow> 'g FboDecoder \<Rightarrow> 'g FboDecoder" where
  "DoClearDepthf P depth s = fb_gl P (glClearDepth depth) (s\<lparr>clear_depth_' := depth\<rparr>)"

definition DoClearStencil :: "'g FboApi \<Rightarrow> GLint \<Rightarrow> 'g FboDecoder \<Rightarrow> 'g FboDecoder" where
  "DoClearStencil P x s = fb_gl P (glClearStencil x) (s\<lparr>clear_stencil_' := x\<rparr>)"

definition DoColorMask :: "bool \<Rightarrow> bool \<Rightarrow> bool \<Rightarrow> bool \<Rightarrow> 'g FboDecoder \<Rightarrow> 'g FboDecoder" where
  "DoColorMask red green blue alpha s = set_dirty (s\<lparr>mask_color_' := (red, green, blue, alpha)\<rparr>)"

definition DoDepthMask :: "bool \<Rightarrow> 'g FboDecoder \<Rightarrow> 'g FboDecoder" where
  "DoDepthMask depth s = set_dirty (s\<lparr>mask_depth_' := depth\<rparr>)"

definition DoStencilMask :: "GLuint \<Rightarrow> 'g FboDecoder \<Rightarrow> 'g FboDecoder" where
  "DoStencilMask bits s = set_dirty (s\<lparr>mask_stencil_front_' := bits, mask_stencil_back_' := bits\<rparr>)"

definition DoStencilMaskSeparate :: "GLenum \<Rightarrow> GLuint \<Rightarrow> 'g FboDecoder \<Rightarrow> 'g FboDecoder" where
  "DoStencilMaskSeparate face bits s =
     (let s = (if face = GL_FRONT \<or> face = GL_FRONT_AND_BACK then s\<lparr>mask_stencil_front_' := bits\<rparr> else s);
          s = (if face = GL_BACK \<or> face = GL_FRONT_AND_BACK then s\<lparr>mask_stencil_back_' := bits\<rparr> else s)
      in set_dirty s)"

text \<open>The handlers without a check; a flag of the command is a byte.\<close>

definition HandleClearColor where "HandleClearColor P r g b a s = (kNoError, DoClearColor P r g b a s)"
definition HandleClearDepthf where "HandleClearDepthf P d s = (kNoError, DoClearDepthf P d s)"
definition HandleClearStencil where "HandleClearStencil P x s = (kNoError, DoClearStencil P x s)"
definition HandleColorMask where "HandleColorMask r g b a s = (kNoError, DoColorMask r g b a s)"
definition HandleDepthMask where "HandleDepthMask d s = (kNoError, DoDepthMask d s)"
definition HandleStencilMask where "HandleStencilMask bits s = (kNoError, DoStencilMask bits s)"

definition HandleStencilMaskSeparate :: "GLenum \<Rightarrow> GLuint \<Rightarrow> 'g FboDecoder \<Rightarrow> Error \<times> 'g FboDecoder" where
  "HandleStencilMaskSeparate face bits s =
     (kNoError, if \<not> IsValid face (v_face_type (validators_' (texture_features (tex s))))
                then fb_error GL_INVALID_ENUM ''glStencilMaskSeparate: face GL_INVALID_ENUM'' s
                else DoStencilMaskSeparate face bits s)"

section \<open>Attachments\<close>

definition RestoreClearState :: "'g FboApi \<Rightarrow> 'g FboDecoder \<Rightarrow> 'g FboDecoder" where
  "RestoreClearState P s =
     (let s = set_dirty s; (r, g, b, a) = clear_color_' s;
          s = fb_gls P [glClearColor r g b a, glClearStencil (clear_stencil_' s), glClearDepth (clear_depth_' s)] s
      in if enable_scissor_test_' s then fb_gl P (glEnable GL_SCISSOR_TEST) s else s)"

definition float_one :: GLfloat where "float_one = 0x3F800000"

text \<open>The calls up to and including the clear, for the framebuffer at \<open>a\<close>.\<close>

definition clear_calls :: "nat \<Rightarrow> 'g FboDecoder \<Rightarrow> fb_call list" where
  "clear_calls a s =
     (let uncleared = (\<lambda>k. HasUnclearedAttachment (rb_objs s) k (fb_objs s ! a));
          color = uncleared GL_COLOR_ATTACHMENT0;
          stencil = (uncleared GL_STENCIL_ATTACHMENT \<or> uncleared GL_DEPTH_STENCIL_ATTACHMENT);
          depth = (uncleared GL_DEPTH_ATTACHMENT \<or> uncleared GL_DEPTH_STENCIL_ATTACHMENT)
      in (if color then [glClearColor 0 0 0 (if has_alpha (fb_color_format a s) then 0 else float_one),
                         glColorMask True True True True] else [])
         @ (if stencil then [glClearStencil 0, glStencilMask (- 1)] else [])
         @ (if depth then [glClearDepth float_one, glDepthMask True] else [])
         @ [glDisable GL_SCISSOR_TEST,
            glClear ((if color then GL_COLOR_BUFFER_BIT else 0)
                      OR (if stencil then GL_STENCIL_BUFFER_BIT else 0)
                      OR (if depth then GL_DEPTH_BUFFER_BIT else 0))])"

definition ClearUnclearedRenderbuffers :: "'g FboApi \<Rightarrow> nat \<Rightarrow> 'g FboDecoder \<Rightarrow> 'g FboDecoder option" where
  "ClearUnclearedRenderbuffers P a s = do {
     let s = fb_gls P (clear_calls a s) s;
     rbs \<leftarrow> MarkAttachedRenderbuffersAsCleared (fb_objs s ! a) (rb_objs s);
     Some (RestoreClearState P (s\<lparr>renderbuffer_manager := (renderbuffer_manager s)\<lparr>rb_objects := rbs\<rparr>\<rparr>))
   }"

definition check_complete :: "'g FboApi \<Rightarrow> GLenum \<Rightarrow> 'g FboDecoder \<Rightarrow> bool \<times> 'g FboDecoder" where
  "check_complete P target s =
     (let (status, d) = f_check_status P target (driver (tex s))
      in (status = GL_FRAMEBUFFER_COMPLETE, on_tex (on_tex_driver (\<lambda>_. d)) s))"

definition dirty_if_bound :: "nat \<Rightarrow> 'g FboDecoder \<Rightarrow> 'g FboDecoder" where
  "dirty_if_bound a s = (if bound_draw_framebuffer_' s = Some a then set_dirty s else s)"

text \<open>Attaching the renderbuffer \<open>info\<close>, or none, to the framebuffer at \<open>a\<close>.\<close>

definition attach_renderbuffer ::
  "'g FboApi \<Rightarrow> GLenum \<Rightarrow> GLenum \<Rightarrow> GLenum \<Rightarrow> nat option \<Rightarrow> GLuint \<Rightarrow> nat \<Rightarrow> 'g FboDecoder
    \<Rightarrow> 'g FboDecoder option" where
  "attach_renderbuffer P target attachment renderbuffertarget info service_id a s = do {
     (ok, s) \<leftarrow> checked_call P (glFramebufferRenderbufferEXT target attachment renderbuffertarget service_id) s;
     s \<leftarrow> (if \<not> ok then Some s
           else
             let s = update_framebuffer (AttachRenderbuffer attachment info) a s;
                 (complete, s) = (if service_id = 0 then (True, s) else check_complete P target s)
             in if complete \<and> info \<noteq> None then ClearUnclearedRenderbuffers P a s else Some s);
     Some (dirty_if_bound a s)
   }"

definition DoFramebufferRenderbuffer ::
  "'g FboApi \<Rightarrow> GLenum \<Rightarrow> GLenum \<Rightarrow> GLenum \<Rightarrow> GLuint \<Rightarrow> 'g FboDecoder \<Rightarrow> 'g FboDecoder option" where
  "DoFramebufferRenderbuffer P target attachment renderbuffertarget client_renderbuffer_id s =
     (case GetFramebufferInfoForTarget target s of
        None \<Rightarrow> Some (fb_error GL_INVALID_OPERATION ''glFramebufferRenderbuffer: no framebuffer bound'' s)
      | Some a \<Rightarrow>
          if client_renderbuffer_id = 0
          then attach_renderbuffer P target attachment renderbuffertarget None 0 a s
          else case Decoder_GetRenderbufferInfo client_renderbuffer_id s of
            None \<Rightarrow> Some (fb_error GL_INVALID_OPERATION ''glFramebufferRenderbuffer: unknown renderbuffer'' s)
          | Some r \<Rightarrow> attach_renderbuffer P target attachment renderbuffertarget (Some r)
                       (rb_service_id_' (rb_objs s ! r)) a s)"

definition HandleFramebufferRenderbuffer ::
  "'g FboApi \<Rightarrow> GLenum \<Rightarrow> GLenum \<Rightarrow> GLenum \<Rightarrow> GLuint \<Rightarrow> 'g FboDecoder \<Rightarrow> (Error \<times> 'g FboDecoder) option" where
  "HandleFramebufferRenderbuffer P target attachment renderbuffertarget renderbuffer s =
     (let v = validators_' (texture_features (tex s));
          invalid = (\<lambda>msg. Some (kNoError, fb_error GL_INVALID_ENUM msg s))
      in if \<not> IsValid target (v_frame_buffer_target v) then
           invalid ''glFramebufferRenderbuffer: target GL_INVALID_ENUM''
         else if \<not> IsValid attachment (v_attachment v) then
           invalid ''glFramebufferRenderbuffer: attachment GL_INVALID_ENUM''
         else if \<not> IsValid renderbuffertarget (v_render_buffer_target v) then
           invalid ''glFramebufferRenderbuffer: renderbuffertarget GL_INVALID_ENUM''
         else map_option (Pair kNoError)
                (DoFramebufferRenderbuffer P target attachment renderbuffertarget renderbuffer s))"

text \<open>\<^verbatim>\<open>AttachTexture\<close> on the framebuffer at \<open>a\<close>; the count is that of the texture object.\<close>

definition attach_texture_object ::
  "GLenum \<Rightarrow> nat option \<Rightarrow> GLenum \<Rightarrow> GLint \<Rightarrow> nat \<Rightarrow> 'g FboDecoder \<Rightarrow> 'g FboDecoder" where
  "attach_texture_object attachment info textarget level a s =
     (let (ts, f) = AttachTexture attachment info textarget level (tex_objs s) (fb_objs s ! a)
      in on_tex (\<lambda>t. t\<lparr>texture_manager := (texture_manager t)\<lparr>tex_objects := ts\<rparr>\<rparr>)
           (update_framebuffer (\<lambda>_. f) a s))"

definition attach_texture ::
  "'g FboApi \<Rightarrow> GLenum \<Rightarrow> GLenum \<Rightarrow> GLenum \<Rightarrow> nat option \<Rightarrow> GLuint \<Rightarrow> GLint \<Rightarrow> nat \<Rightarrow> 'g FboDecoder
    \<Rightarrow> 'g FboDecoder option" where
  "attach_texture P target attachment textarget info service_id level a s = do {
     (ok, s) \<leftarrow> checked_call P (glFramebufferTexture2DEXT target attachment textarget service_id level) s;
     s \<leftarrow> (if \<not> ok then Some s
           else
             let s = attach_texture_object attachment info textarget level a s;
                 (complete, s) = (if service_id \<noteq> 0 then check_complete P target s else (False, s))
             in if complete then ClearUnclearedRenderbuffers P a s else Some s);
     Some (dirty_if_bound a s)
   }"

definition DoFramebufferTexture2D ::
  "'g FboApi \<Rightarrow> GLenum \<Rightarrow> GLenum \<Rightarrow> GLenum \<Rightarrow> GLuint \<Rightarrow> GLint \<Rightarrow> 'g FboDecoder \<Rightarrow> 'g FboDecoder option" where
  "DoFramebufferTexture2D P target attachment textarget client_texture_id level s =
     (case GetFramebufferInfoForTarget target s of
        None \<Rightarrow> Some (fb_error GL_INVALID_OPERATION ''glFramebufferTexture2D: no framebuffer bound.'' s)
      | Some a \<Rightarrow>
          if client_texture_id = 0 then attach_texture P target attachment textarget None 0 level a s
          else case Decoder_GetTextureInfo client_texture_id (tex s) of
            None \<Rightarrow> Some (fb_error GL_INVALID_OPERATION ''glFramebufferTexture2D: unknown texture'' s)
          | Some t \<Rightarrow> attach_texture P target attachment textarget (Some t)
                       (tex_service_id_' (tex_objs s ! t)) level a s)"

definition HandleFramebufferTexture2D ::
  "'g FboApi \<Rightarrow> GLenum \<Rightarrow> GLenum \<Rightarrow> GLenum \<Rightarrow> GLuint \<Rightarrow> GLint \<Rightarrow> 'g FboDecoder \<Rightarrow> (Error \<times> 'g FboDecoder) option" where
  "HandleFramebufferTexture2D P target attachment textarget texture level s =
     (let v = validators_' (texture_features (tex s));
          invalid = (\<lambda>e msg. Some (kNoError, fb_error e msg s))
      in if \<not> IsValid target (v_frame_buffer_target v) then
           invalid GL_INVALID_ENUM ''glFramebufferTexture2D: target GL_INVALID_ENUM''
         else if \<not> IsValid attachment (v_attachment v) then
           invalid GL_INVALID_ENUM ''glFramebufferTexture2D: attachment GL_INVALID_ENUM''
         else if \<not> IsValid textarget (v_texture_target v) then
           invalid GL_INVALID_ENUM ''glFramebufferTexture2D: textarget GL_INVALID_ENUM''
         else if \<not> IsValid level (v_zero_only v) then
           invalid GL_INVALID_VALUE ''glFramebufferTexture2D: level GL_INVALID_VALUE''
         else map_option (Pair kNoError) (DoFramebufferTexture2D P target attachment textarget texture level s))"

section \<open>Storage\<close>

definition impl_format :: "'g FboApi \<Rightarrow> GLenum \<Rightarrow> GLenum" where
  "impl_format P internalformat =
     (if f_is_egl_gles2 P then internalformat
      else if internalformat = GL_DEPTH_COMPONENT16 then GL_DEPTH_COMPONENT
      else if internalformat = GL_RGBA4 \<or> internalformat = GL_RGB5_A1 then GL_RGBA
      else if internalformat = GL_RGB565 then GL_RGB
      else internalformat)"

definition DoRenderbufferStorage ::
  "'g FboApi \<Rightarrow> GLenum \<Rightarrow> GLenum \<Rightarrow> GLsizei \<Rightarrow> GLsizei \<Rightarrow> 'g FboDecoder \<Rightarrow> 'g FboDecoder option" where
  "DoRenderbufferStorage P target internalformat width height s =
     (case bound_renderbuffer_' s of
        None \<Rightarrow> Some (fb_error GL_INVALID_OPERATION ''glGetRenderbufferStorage: no renderbuffer bound'' s)
      | Some r \<Rightarrow> do {
          (ok, s) \<leftarrow> checked_call P (glRenderbufferStorageEXT target (impl_format P internalformat) width height) s;
          Some (if ok then update_renderbuffer (Renderbuffer_SetInfo 0 internalformat width height) r s else s)
        })"

text \<open>This variant relies on the driver to reject the call when no renderbuffer is bound.\<close>

definition DoRenderbufferStorageMultisample ::
  "'g FboApi \<Rightarrow> GLenum \<Rightarrow> GLsizei \<Rightarrow> GLenum \<Rightarrow> GLsizei \<Rightarrow> GLsizei \<Rightarrow> 'g FboDecoder \<Rightarrow> 'g FboDecoder option" where
  "DoRenderbufferStorageMultisample P target samples internalformat width height s =
     (if \<not> chromium_framebuffer_multisample (texture_features (tex s)) then
        Some (fb_error GL_INVALID_OPERATION ''glRenderbufferStorageMultisampleEXT: function not available'' s)
      else do {
        (ok, s) \<leftarrow> checked_call P
          (glRenderbufferStorageMultisample (f_is_angle P) target samples (impl_format P internalformat) width height) s;
        if ok then do {
          r \<leftarrow> bound_renderbuffer_' s;
          Some (update_renderbuffer (Renderbuffer_SetInfo samples internalformat width height) r s)
        } else Some s
      })"

text \<open>The driver answers the call with an error; GL does so when no renderbuffer is bound.\<close>

definition multisample_refused ::
  "'g FboApi \<Rightarrow> GLenum \<Rightarrow> GLsizei \<Rightarrow> GLenum \<Rightarrow> GLsizei \<Rightarrow> GLsizei \<Rightarrow> 'g FboDecoder \<Rightarrow> bool" where
  "multisample_refused P target samples internalformat width height s \<longleftrightarrow>
     map_option fst (checked_call P (glRenderbufferStorageMultisample (f_is_angle P) target samples
       (impl_format P internalformat) width height) s) = Some False"

text \<open>The checks of the generated handlers: the error of the first that fails.\<close>

definition storage_error ::
  "string \<Rightarrow> GLenum \<Rightarrow> GLsizei \<Rightarrow> GLenum \<Rightarrow> GLsizei \<Rightarrow> GLsizei \<Rightarrow> 'g FboDecoder \<Rightarrow> (GLenum \<times> string) option" where
  "storage_error func target samples internalformat width height s =
     (let v = validators_' (texture_features (tex s))
      in if \<not> IsValid target (v_render_buffer_target v) then Some (GL_INVALID_ENUM, func @ '': target GL_INVALID_ENUM'')
         else if sint samples < 0 then Some (GL_INVALID_VALUE, func @ '': samples < 0'')
         else if \<not> IsValid internalformat (v_render_buffer_format v) then
           Some (GL_INVALID_ENUM, func @ '': internalformat GL_INVALID_ENUM'')
         else if sint width < 0 then Some (GL_INVALID_VALUE, func @ '': width < 0'')
         else if sint height < 0 then Some (GL_INVALID_VALUE, func @ '': height < 0'')
         else None)"

definition HandleRenderbufferStorage ::
  "'g FboApi \<Rightarrow> GLenum \<Rightarrow> GLenum \<Rightarrow> GLsizei \<Rightarrow> GLsizei \<Rightarrow> 'g FboDecoder \<Rightarrow> (Error \<times> 'g FboDecoder) option" where
  "HandleRenderbufferStorage P target internalformat width height s =
     (case storage_error ''glRenderbufferStorage'' target 0 internalformat width height s of
        Some (e, msg) \<Rightarrow> Some (kNoError, fb_error e msg s)
      | None \<Rightarrow> map_option (Pair kNoError) (DoRenderbufferStorage P target internalformat width height s))"

definition HandleRenderbufferStorageMultisampleEXT ::
  "'g FboApi \<Rightarrow> GLenum \<Rightarrow> GLsizei \<Rightarrow> GLenum \<Rightarrow> GLsizei \<Rightarrow> GLsizei \<Rightarrow> 'g FboDecoder
    \<Rightarrow> (Error \<times> 'g FboDecoder) option" where
  "HandleRenderbufferStorageMultisampleEXT P target samples internalformat width height s =
     (case storage_error ''glRenderbufferStorageMultisampleEXT'' target samples internalformat width height s of
        Some (e, msg) \<Rightarrow> Some (kNoError, fb_error e msg s)
      | None \<Rightarrow> map_option (Pair kNoError)
                  (DoRenderbufferStorageMultisample P target samples internalformat width height s))"

text \<open>The blit is issued after the error as well.\<close>

definition DoBlitFramebufferEXT ::
  "'g FboApi \<Rightarrow> GLint list \<Rightarrow> GLint list \<Rightarrow> GLenum \<Rightarrow> GLenum \<Rightarrow> 'g FboDecoder \<Rightarrow> 'g FboDecoder" where
  "DoBlitFramebufferEXT P src dst bits mode s =
     (let s = (if \<not> chromium_framebuffer_multisample (texture_features (tex s))
               then fb_error GL_INVALID_OPERATION ''glBlitFramebufferEXT: function not available'' s else s)
      in fb_gl P (glBlitFramebuffer (f_is_angle P) src dst bits mode) s)"

definition HandleBlitFramebufferEXT ::
  "'g FboApi \<Rightarrow> GLint list \<Rightarrow> GLint list \<Rightarrow> GLenum \<Rightarrow> GLenum \<Rightarrow> 'g FboDecoder \<Rightarrow> Error \<times> 'g FboDecoder" where
  "HandleBlitFramebufferEXT P src dst bits mode s =
     (kNoError, if \<not> IsValid mode (v_blit_filter (validators_' (texture_features (tex s))))
                then fb_error GL_INVALID_ENUM ''glBlitFramebufferEXT: filter GL_INVALID_ENUM'' s
                else DoBlitFramebufferEXT P src dst bits mode s)"

section \<open>Queries of objects\<close>

definition DoIsFramebuffer :: "GLuint \<Rightarrow> 'g FboDecoder \<Rightarrow> bool" where
  "DoIsFramebuffer client_id s =
     (case Decoder_GetFramebufferInfo client_id s of None \<Rightarrow> False | Some a \<Rightarrow> Framebuffer_IsValid (fb_objs s ! a))"

definition DoIsRenderbuffer :: "GLuint \<Rightarrow> 'g FboDecoder \<Rightarrow> bool" where
  "DoIsRenderbuffer client_id s =
     (case Decoder_GetRenderbufferInfo client_id s of None \<Rightarrow> False | Some a \<Rightarrow> Renderbuffer_IsValid (rb_objs s ! a))"

definition DoIsTexture :: "GLuint \<Rightarrow> 'g FboDecoder \<Rightarrow> bool" where
  "DoIsTexture client_id s =
     (case Decoder_GetTextureInfo client_id (tex s) of None \<Rightarrow> False | Some a \<Rightarrow> Texture_IsValid (tex_objs s ! a))"

end
