(* ===== verification/Framebuffer_State.thy ===== *)
theory Framebuffer_State
  imports Framebuffer_Commands
begin

text \<open>
  The state of GL that decides what a clear or a draw call writes, and the decoder's shadow of it. The
  decoder records what the client set, changes the masks and tests of the driver late, when
  \<^verbatim>\<open>state_dirty_\<close> is set, and overrides them to clear new renderbuffers. The lemmas show that the
  driver's state is what the client set, restricted to what the bound framebuffer has, whenever a clear
  is issued.
\<close>

section \<open>What the calls set\<close>

record WriteState =
  ws_color :: "bool \<times> bool \<times> bool \<times> bool"
  ws_depth :: bool
  ws_front :: GLuint
  ws_back :: GLuint
  ws_depth_test :: bool
  ws_stencil_test :: bool
  ws_scissor :: bool
  ws_clear_color :: "GLfloat \<times> GLfloat \<times> GLfloat \<times> GLfloat"
  ws_clear_stencil :: GLint
  ws_clear_depth :: GLfloat

definition set_capability :: "GLenum \<Rightarrow> bool \<Rightarrow> WriteState \<Rightarrow> WriteState" where
  "set_capability cap b ws =
     (if cap = GL_DEPTH_TEST then ws\<lparr>ws_depth_test := b\<rparr>
      else if cap = GL_STENCIL_TEST then ws\<lparr>ws_stencil_test := b\<rparr>
      else if cap = GL_SCISSOR_TEST then ws\<lparr>ws_scissor := b\<rparr>
      else ws)"

fun track :: "fb_call \<Rightarrow> WriteState \<Rightarrow> WriteState" where
  "track (glColorMask r g b a) ws = ws\<lparr>ws_color := (r, g, b, a)\<rparr>"
| "track (glDepthMask d) ws = ws\<lparr>ws_depth := d\<rparr>"
| "track (glStencilMask k) ws = ws\<lparr>ws_front := k, ws_back := k\<rparr>"
| "track (glStencilMaskSeparate face k) ws =
     (let ws = (if face = GL_FRONT \<or> face = GL_FRONT_AND_BACK then ws\<lparr>ws_front := k\<rparr> else ws)
      in if face = GL_BACK \<or> face = GL_FRONT_AND_BACK then ws\<lparr>ws_back := k\<rparr> else ws)"
| "track (glEnable cap) ws = set_capability cap True ws"
| "track (glDisable cap) ws = set_capability cap False ws"
| "track (glClearColor r g b a) ws = ws\<lparr>ws_clear_color := (r, g, b, a)\<rparr>"
| "track (glClearStencil x) ws = ws\<lparr>ws_clear_stencil := x\<rparr>"
| "track (glClearDepth d) ws = ws\<lparr>ws_clear_depth := d\<rparr>"
| "track _ ws = ws"

definition write_state :: "WriteState \<Rightarrow> fb_call list \<Rightarrow> WriteState" where
  "write_state ws cs = fold track cs ws"

lemma write_state_simps [simp]:
  "write_state ws [] = ws" "write_state ws (c # cs) = write_state (track c ws) cs"
  "write_state ws (cs @ ds) = write_state (write_state ws cs) ds"
  by (simp_all add: write_state_def)

text \<open>What the client asked for, as far as the bound framebuffer allows it.\<close>

definition wanted :: "'g FboDecoder \<Rightarrow> WriteState" where
  "wanted s =
     (let (r, g, b, a) = mask_color_' s;
          have_depth = BoundFramebufferHasDepthAttachment s;
          have_stencil = BoundFramebufferHasStencilAttachment s
      in \<lparr>ws_color = (r, g, b, a \<and> BoundFramebufferHasColorAttachmentWithAlpha s),
          ws_depth = (mask_depth_' s \<and> have_depth),
          ws_front = (if have_stencil then mask_stencil_front_' s else 0),
          ws_back = (if have_stencil then mask_stencil_back_' s else 0),
          ws_depth_test = (enable_depth_test_' s \<and> have_depth),
          ws_stencil_test = (enable_stencil_test_' s \<and> have_stencil),
          ws_scissor = enable_scissor_test_' s, ws_clear_color = clear_color_' s,
          ws_clear_stencil = clear_stencil_' s, ws_clear_depth = clear_depth_' s\<rparr>)"

text \<open>The clear values and the scissor test are passed on at once, the rest when it is needed.\<close>

definition same_clears :: "WriteState \<Rightarrow> WriteState \<Rightarrow> bool" where
  "same_clears v w \<longleftrightarrow>
     ws_scissor v = ws_scissor w \<and> ws_clear_color v = ws_clear_color w
     \<and> ws_clear_stencil v = ws_clear_stencil w \<and> ws_clear_depth v = ws_clear_depth w"

definition issued_state :: "WriteState \<Rightarrow> 'g FboDecoder \<Rightarrow> WriteState" where
  "issued_state ws s = write_state ws (fbo_issued s)"

definition in_sync :: "WriteState \<Rightarrow> 'g FboDecoder \<Rightarrow> bool" where
  "in_sync ws s \<longleftrightarrow>
     same_clears (issued_state ws s) (wanted s)
     \<and> (\<not> state_dirty_' (tex s) \<longrightarrow> issued_state ws s = wanted s)"

section \<open>Fields\<close>

lemma fb_gl_fields [simp]:
  "fbo_issued (fb_gl P c s) = fbo_issued s @ [c]" "state_dirty_' (tex (fb_gl P c s)) = state_dirty_' (tex s)"
  "texture_manager (tex (fb_gl P c s)) = texture_manager (tex s)"
  "texture_features (tex (fb_gl P c s)) = texture_features (tex s)"
  "renderbuffer_manager (fb_gl P c s) = renderbuffer_manager s"
  "framebuffer_manager (fb_gl P c s) = framebuffer_manager s"
  "bound_draw_framebuffer_' (fb_gl P c s) = bound_draw_framebuffer_' s"
  "bound_read_framebuffer_' (fb_gl P c s) = bound_read_framebuffer_' s"
  "bound_renderbuffer_' (fb_gl P c s) = bound_renderbuffer_' s"
  "offscreen_target_' (fb_gl P c s) = offscreen_target_' s"
  "back_buffer_color_format_' (fb_gl P c s) = back_buffer_color_format_' s"
  "back_buffer_has_depth_' (fb_gl P c s) = back_buffer_has_depth_' s"
  "back_buffer_has_stencil_' (fb_gl P c s) = back_buffer_has_stencil_' s"
  "clear_color_' (fb_gl P c s) = clear_color_' s" "clear_stencil_' (fb_gl P c s) = clear_stencil_' s"
  "clear_depth_' (fb_gl P c s) = clear_depth_' s" "mask_color_' (fb_gl P c s) = mask_color_' s"
  "mask_depth_' (fb_gl P c s) = mask_depth_' s" "mask_stencil_front_' (fb_gl P c s) = mask_stencil_front_' s"
  "mask_stencil_back_' (fb_gl P c s) = mask_stencil_back_' s"
  "enable_scissor_test_' (fb_gl P c s) = enable_scissor_test_' s"
  "enable_depth_test_' (fb_gl P c s) = enable_depth_test_' s"
  "enable_stencil_test_' (fb_gl P c s) = enable_stencil_test_' s"
  by (simp_all add: fb_gl_def on_tex_def on_tex_driver_def)

lemma on_tex_fields [simp]:
  "tex (on_tex f s) = f (tex s)" "fbo_issued (on_tex f s) = fbo_issued s"
  "renderbuffer_manager (on_tex f s) = renderbuffer_manager s"
  "framebuffer_manager (on_tex f s) = framebuffer_manager s"
  "bound_draw_framebuffer_' (on_tex f s) = bound_draw_framebuffer_' s"
  "bound_read_framebuffer_' (on_tex f s) = bound_read_framebuffer_' s"
  "bound_renderbuffer_' (on_tex f s) = bound_renderbuffer_' s"
  "offscreen_target_' (on_tex f s) = offscreen_target_' s"
  "back_buffer_color_format_' (on_tex f s) = back_buffer_color_format_' s"
  "back_buffer_has_depth_' (on_tex f s) = back_buffer_has_depth_' s"
  "back_buffer_has_stencil_' (on_tex f s) = back_buffer_has_stencil_' s"
  "clear_color_' (on_tex f s) = clear_color_' s" "clear_stencil_' (on_tex f s) = clear_stencil_' s"
  "clear_depth_' (on_tex f s) = clear_depth_' s" "mask_color_' (on_tex f s) = mask_color_' s"
  "mask_depth_' (on_tex f s) = mask_depth_' s" "mask_stencil_front_' (on_tex f s) = mask_stencil_front_' s"
  "mask_stencil_back_' (on_tex f s) = mask_stencil_back_' s"
  "enable_scissor_test_' (on_tex f s) = enable_scissor_test_' s"
  "enable_depth_test_' (on_tex f s) = enable_depth_test_' s"
  "enable_stencil_test_' (on_tex f s) = enable_stencil_test_' s"
  by (simp_all add: on_tex_def)

lemma tex_parts [simp]:
  "state_dirty_' (on_tex_driver f t) = state_dirty_' t" "texture_manager (on_tex_driver f t) = texture_manager t"
  "state_dirty_' (tex_error e msg t) = state_dirty_' t" "texture_manager (tex_error e msg t) = texture_manager t"
  by (simp_all add: on_tex_driver_def tex_error_def Service_SetGLError_def)

section \<open>Steps that leave the shadow state alone\<close>

definition same_shadow :: "'g FboDecoder \<Rightarrow> 'g FboDecoder \<Rightarrow> bool" where
  "same_shadow s s' \<longleftrightarrow>
     offscreen_target_' s' = offscreen_target_' s
     \<and> back_buffer_color_format_' s' = back_buffer_color_format_' s
     \<and> back_buffer_has_depth_' s' = back_buffer_has_depth_' s
     \<and> back_buffer_has_stencil_' s' = back_buffer_has_stencil_' s
     \<and> clear_color_' s' = clear_color_' s \<and> clear_stencil_' s' = clear_stencil_' s
     \<and> clear_depth_' s' = clear_depth_' s \<and> mask_color_' s' = mask_color_' s
     \<and> mask_depth_' s' = mask_depth_' s \<and> mask_stencil_front_' s' = mask_stencil_front_' s
     \<and> mask_stencil_back_' s' = mask_stencil_back_' s \<and> enable_scissor_test_' s' = enable_scissor_test_' s
     \<and> enable_depth_test_' s' = enable_depth_test_' s \<and> enable_stencil_test_' s' = enable_stencil_test_' s"

definition same_bound :: "'g FboDecoder \<Rightarrow> 'g FboDecoder \<Rightarrow> bool" where
  "same_bound s s' \<longleftrightarrow>
     BoundFramebufferHasColorAttachmentWithAlpha s' = BoundFramebufferHasColorAttachmentWithAlpha s
     \<and> BoundFramebufferHasDepthAttachment s' = BoundFramebufferHasDepthAttachment s
     \<and> BoundFramebufferHasStencilAttachment s' = BoundFramebufferHasStencilAttachment s"

text \<open>The step sets nothing the client can see, and what it changes of the bound framebuffer makes the
  state dirty.\<close>

definition kept :: "'g FboDecoder \<Rightarrow> 'g FboDecoder \<Rightarrow> bool" where
  "kept s s' \<longleftrightarrow>
     same_shadow s s' \<and> (\<forall>ws. issued_state ws s' = issued_state ws s)
     \<and> (state_dirty_' (tex s) \<longrightarrow> state_dirty_' (tex s')) \<and> (state_dirty_' (tex s') \<or> same_bound s s')"

lemma kept_refl [simp, intro]: "kept s s"
  by (simp add: kept_def same_shadow_def same_bound_def)

lemma kept_trans: "kept s t \<Longrightarrow> kept t u \<Longrightarrow> kept s u"
  by (auto simp: kept_def same_shadow_def same_bound_def)

lemma wanted_cong: "same_shadow s s' \<Longrightarrow> same_bound s s' \<Longrightarrow> wanted s' = wanted s"
  by (simp add: wanted_def same_shadow_def same_bound_def Let_def)

lemma clears_cong: "same_shadow s s' \<Longrightarrow> same_clears v (wanted s') = same_clears v (wanted s)"
  by (simp add: same_clears_def wanted_def same_shadow_def Let_def split_beta)

lemma in_sync_kept: "kept s s' \<Longrightarrow> in_sync ws s \<Longrightarrow> in_sync ws s'"
  unfolding in_sync_def kept_def using wanted_cong clears_cong by metis

text \<open>A step that restores the clear state and makes the rest dirty.\<close>

lemma in_sync_dirty: "state_dirty_' (tex s) \<Longrightarrow> same_clears (issued_state ws s) (wanted s) \<Longrightarrow> in_sync ws s"
  by (simp add: in_sync_def)

text \<open>The calls that set no write state.\<close>

fun untracked :: "fb_call \<Rightarrow> bool" where
  "untracked (glColorMask r g b a) = False"
| "untracked (glDepthMask d) = False"
| "untracked (glStencilMask k) = False"
| "untracked (glStencilMaskSeparate face k) = False"
| "untracked (glEnable cap) = (cap \<notin> {GL_DEPTH_TEST, GL_STENCIL_TEST, GL_SCISSOR_TEST})"
| "untracked (glDisable cap) = (cap \<notin> {GL_DEPTH_TEST, GL_STENCIL_TEST, GL_SCISSOR_TEST})"
| "untracked (glClearColor r g b a) = False"
| "untracked (glClearStencil x) = False"
| "untracked (glClearDepth d) = False"
| "untracked _ = True"

lemma track_untracked [simp]: "untracked c \<Longrightarrow> track c ws = ws"
  by (cases c) (auto simp: set_capability_def)

definition bound_views :: "'g FboDecoder \<Rightarrow> bool \<times> bool \<times> bool" where
  "bound_views s =
     (BoundFramebufferHasColorAttachmentWithAlpha s, BoundFramebufferHasDepthAttachment s,
      BoundFramebufferHasStencilAttachment s)"

lemma same_boundI: "bound_views s' = bound_views s \<Longrightarrow> same_bound s s'"
  by (simp add: bound_views_def same_bound_def)

lemmas bound_defs = BoundFramebufferHasColorAttachmentWithAlpha_def BoundFramebufferHasDepthAttachment_def
  BoundFramebufferHasStencilAttachment_def GetBoundDrawFrameBufferInternalFormat_def surface_format_def
  fb_color_format_def

lemma bound_views_gl [simp]: "bound_views (fb_gl P c s) = bound_views s"
  by (simp add: bound_views_def bound_defs cong: option.case_cong)

lemma kept_gl: "untracked c \<Longrightarrow> kept s (fb_gl P c s)"
  by (simp add: kept_def same_shadow_def same_boundI issued_state_def)

lemma kept_tex:
  assumes "state_dirty_' t = state_dirty_' (tex s) \<or> state_dirty_' t" "texture_manager t = texture_manager (tex s)"
  shows "kept s (s\<lparr>tex := t\<rparr>)"
proof -
  have "bound_views (s\<lparr>tex := t\<rparr>) = bound_views s"
    using assms(2) by (simp add: bound_views_def bound_defs cong: option.case_cong)
  then show ?thesis using assms(1) by (auto simp: kept_def same_shadow_def same_boundI issued_state_def)
qed

lemma kept_on_tex:
  "state_dirty_' (f (tex s)) = state_dirty_' (tex s) \<or> state_dirty_' (f (tex s)) \<Longrightarrow>
    texture_manager (f (tex s)) = texture_manager (tex s) \<Longrightarrow> kept s (on_tex f s)"
  unfolding on_tex_def by (rule kept_tex)

lemma kept_error [simp, intro]: "kept s (fb_error e msg s)"
  unfolding fb_error_def by (rule kept_on_tex) simp_all

lemma kept_dirty [simp, intro]: "kept s (set_dirty s)"
  unfolding set_dirty_def by (rule kept_on_tex) simp_all

lemma kept_driver [simp, intro]: "kept s (on_tex (on_tex_driver f) s)"
  by (rule kept_on_tex) simp_all

lemma set_dirty_dirty [simp]: "state_dirty_' (tex (set_dirty s))"
  by (simp add: set_dirty_def)

text \<open>A step that makes the state dirty may do anything to the framebuffers.\<close>

lemma keptI:
  "same_shadow s s' \<Longrightarrow> (\<And>ws. issued_state ws s' = issued_state ws s) \<Longrightarrow> state_dirty_' (tex s') \<Longrightarrow> kept s s'"
  by (simp add: kept_def)

section \<open>Clears and draws\<close>

lemma fb_gls_simps [simp]: "fb_gls P [] s = s" "fb_gls P (c # cs) s = fb_gls P cs (fb_gl P c s)"
  by (simp_all add: fb_gls_def)

lemma fb_gls_fields [simp]:
  "fbo_issued (fb_gls P cs s) = fbo_issued s @ cs" "state_dirty_' (tex (fb_gls P cs s)) = state_dirty_' (tex s)"
  "texture_manager (tex (fb_gls P cs s)) = texture_manager (tex s)"
  "renderbuffer_manager (fb_gls P cs s) = renderbuffer_manager s"
  "framebuffer_manager (fb_gls P cs s) = framebuffer_manager s"
  "bound_draw_framebuffer_' (fb_gls P cs s) = bound_draw_framebuffer_' s"
  "bound_read_framebuffer_' (fb_gls P cs s) = bound_read_framebuffer_' s"
  "bound_renderbuffer_' (fb_gls P cs s) = bound_renderbuffer_' s"
  "bound_views (fb_gls P cs s) = bound_views s" "same_shadow s (fb_gls P cs s)"
  by (induction cs arbitrary: s) (simp_all add: same_shadow_def)

lemma on_tex_bound [simp]:
  "texture_manager (f (tex s)) = texture_manager (tex s) \<Longrightarrow> bound_views (on_tex f s) = bound_views s"
  by (simp add: bound_views_def bound_defs cong: option.case_cong)

lemma wanted_eq: "same_shadow s s' \<Longrightarrow> bound_views s' = bound_views s \<Longrightarrow> wanted s' = wanted s"
  by (intro wanted_cong same_boundI)

lemma dirty_calls_set:
  assumes "same_clears v (wanted s)"
  shows "write_state v (dirty_calls s) = wanted s"
  using assms
  by (auto simp: dirty_calls_def wanted_def EnableDisable_def set_capability_def same_clears_def Let_def
      split: prod.split)

lemma ApplyDirtyState_sync:
  assumes "in_sync ws s"
  shows "issued_state ws (ApplyDirtyState P s) = wanted s" "wanted (ApplyDirtyState P s) = wanted s"
    "\<not> state_dirty_' (tex (ApplyDirtyState P s))"
proof -
  let ?t = "on_tex (\<lambda>t. t\<lparr>state_dirty_' := False\<rparr>) (fb_gls P (dirty_calls s) s)"
  have "wanted ?t = wanted s"
    by (rule wanted_eq) (use fb_gls_fields(10) [of s P "dirty_calls s"] in \<open>simp_all add: same_shadow_def\<close>)
  moreover have "issued_state ws ?t = write_state (issued_state ws s) (dirty_calls s)"
    by (simp add: issued_state_def)
  ultimately show "issued_state ws (ApplyDirtyState P s) = wanted s"
      "wanted (ApplyDirtyState P s) = wanted s" "\<not> state_dirty_' (tex (ApplyDirtyState P s))"
    using assms dirty_calls_set by (auto simp: ApplyDirtyState_def in_sync_def)
qed

lemma in_sync_gl: "untracked c \<Longrightarrow> in_sync ws s \<Longrightarrow> in_sync ws (fb_gl P c s)"
  by (rule in_sync_kept [OF kept_gl])

lemma in_sync_apply: "in_sync ws s \<Longrightarrow> in_sync ws (ApplyDirtyState P s)"
  using ApplyDirtyState_sync [of ws s P] by (simp add: in_sync_def same_clears_def)

lemma CheckFramebufferComplete_kept: "kept s (snd (Fbo_CheckFramebufferComplete f s))"
  by (simp add: Fbo_CheckFramebufferComplete_def split: option.split)

lemma CheckFramebufferComplete_ok: "Fbo_CheckFramebufferComplete f s = (True, s') \<Longrightarrow> s' = s"
  by (auto simp: Fbo_CheckFramebufferComplete_def split: option.splits if_splits)

lemma DoClear_sync: "in_sync ws s \<Longrightarrow> in_sync ws (DoClear P bits s)"
  using in_sync_gl [of "glClear bits", OF _ in_sync_apply] in_sync_kept [OF CheckFramebufferComplete_kept [of s "''glClear''"]]
    CheckFramebufferComplete_ok [of "''glClear''" s]
  by (auto simp: DoClear_def split: prod.split)

section \<open>What the client sets\<close>

lemma in_sync_both:
  "state_dirty_' (tex s') \<Longrightarrow> same_clears (issued_state ws s') (wanted s') \<Longrightarrow> in_sync ws s'"
  by (simp add: in_sync_def)

lemma set_clears_sync:
  assumes "in_sync ws s"
  shows "in_sync ws (DoClearColor P r g b a s)" "in_sync ws (DoClearDepthf P d s)" "in_sync ws (DoClearStencil P x s)"
proof -
  have "bound_views (s\<lparr>clear_color_' := c\<rparr>) = bound_views s" "bound_views (s\<lparr>clear_depth_' := d\<rparr>) = bound_views s"
    "bound_views (s\<lparr>clear_stencil_' := x\<rparr>) = bound_views s" for c d x
    by (simp_all add: bound_views_def bound_defs cong: option.case_cong)
  then show "in_sync ws (DoClearColor P r g b a s)" "in_sync ws (DoClearDepthf P d s)"
      "in_sync ws (DoClearStencil P x s)"
    using assms
    by (simp_all add: in_sync_def DoClearColor_def DoClearDepthf_def DoClearStencil_def issued_state_def
        same_clears_def wanted_def bound_views_def bound_defs Let_def split_beta cong: option.case_cong)
qed

lemma set_masks_sync:
  assumes "in_sync ws s"
  shows "in_sync ws (DoColorMask r g b a s)" "in_sync ws (DoDepthMask d s)" "in_sync ws (DoStencilMask k s)"
    "in_sync ws (DoStencilMaskSeparate face k s)"
  using assms
  by (auto intro!: in_sync_both simp: in_sync_def DoColorMask_def DoDepthMask_def DoStencilMask_def
      DoStencilMaskSeparate_def set_dirty_def issued_state_def same_clears_def wanted_def Let_def split_beta)

lemma capability_bound:
  "BoundFramebufferHasColorAttachmentWithAlpha (s\<lparr>enable_scissor_test_' := b\<rparr>) = BoundFramebufferHasColorAttachmentWithAlpha s"
  "BoundFramebufferHasDepthAttachment (s\<lparr>enable_scissor_test_' := b\<rparr>) = BoundFramebufferHasDepthAttachment s"
  "BoundFramebufferHasStencilAttachment (s\<lparr>enable_scissor_test_' := b\<rparr>) = BoundFramebufferHasStencilAttachment s"
  by (simp_all add: bound_defs cong: option.case_cong)

lemma bound_gl [simp]:
  "BoundFramebufferHasColorAttachmentWithAlpha (fb_gl P c s) = BoundFramebufferHasColorAttachmentWithAlpha s"
  "BoundFramebufferHasDepthAttachment (fb_gl P c s) = BoundFramebufferHasDepthAttachment s"
  "BoundFramebufferHasStencilAttachment (fb_gl P c s) = BoundFramebufferHasStencilAttachment s"
  using bound_views_gl [of P c s] by (simp_all add: bound_views_def)

text \<open>The scissor test is passed on; the depth and stencil tests only make the state dirty.\<close>

lemma capability_sync:
  assumes "in_sync ws s"
  shows "in_sync ws (DoEnable P cap s)" "in_sync ws (DoDisable P cap s)"
proof -
  have "in_sync ws (if fst (SetCapabilityState cap b s) then fb_gl P (EnableDisable cap b) (snd (SetCapabilityState cap b s))
      else snd (SetCapabilityState cap b s))" for b
  proof (cases "cap = GL_SCISSOR_TEST")
    case True
    then show ?thesis
      using assms by (auto simp: SetCapabilityState_def EnableDisable_def in_sync_def issued_state_def
          same_clears_def wanted_def set_capability_def capability_bound Let_def split_beta)
  next
    case False
    show ?thesis
    proof (cases "cap = GL_DEPTH_TEST \<or> cap = GL_STENCIL_TEST")
      case True
      then show ?thesis
        using assms False by (auto simp: SetCapabilityState_def set_dirty_def in_sync_def issued_state_def
            same_clears_def wanted_def Let_def split_beta)
    next
      case other: False
      then show ?thesis
        using False assms in_sync_gl [of "EnableDisable cap b" ws s P]
        by (simp add: SetCapabilityState_def EnableDisable_def split: if_splits)
    qed
  qed
  from this [of True] this [of False] show "in_sync ws (DoEnable P cap s)" "in_sync ws (DoDisable P cap s)"
    by (auto simp: DoEnable_def DoDisable_def EnableDisable_def split_beta split: if_splits)
qed

section \<open>New renderbuffers\<close>

lemma restore_clears:
  assumes "\<not> ws_scissor (issued_state ws s)"
  shows "same_clears (issued_state ws (RestoreClearState P s)) (wanted s)"
    "same_shadow s (RestoreClearState P s)" "state_dirty_' (tex (RestoreClearState P s))"
  using assms
  by (simp_all add: RestoreClearState_def set_dirty_def issued_state_def same_clears_def wanted_def
      set_capability_def same_shadow_def Let_def split_beta)

text \<open>The clear itself runs without scissor and with the write masks open for what it clears.\<close>

lemma clear_calls_end:
  "\<exists>cs bits. clear_calls a s = cs @ [glDisable GL_SCISSOR_TEST, glClear bits] \<and> \<not> ws_scissor (write_state v (clear_calls a s))"
  by (simp add: clear_calls_def Let_def set_capability_def)

lemma mark_cleared_length: "mark_cleared as rbs = Some rbs' \<Longrightarrow> length rbs' = length rbs"
  by (induction as rbs rule: mark_cleared.induct)
    (auto split: if_splits bind_splits elim!: Attachment_set_cleared.elims)

lemma mark_cleared_some: "\<exists>rbs'. mark_cleared as rbs = Some rbs'"
proof (induction as rbs rule: mark_cleared.induct)
  case (2 k a as rbs)
  then show ?case by (cases a) auto
qed simp

lemma ClearUncleared_sync:
  assumes "ClearUnclearedRenderbuffers P a s = Some s'"
  shows "in_sync ws s'"
proof -
  let ?t = "fb_gls P (clear_calls a s) s"
  obtain rbs where s': "s' = RestoreClearState P (?t\<lparr>renderbuffer_manager := (renderbuffer_manager ?t)\<lparr>rb_objects := rbs\<rparr>\<rparr>)"
    using assms by (auto simp: ClearUnclearedRenderbuffers_def Let_def split: bind_splits)
  let ?u = "?t\<lparr>renderbuffer_manager := (renderbuffer_manager ?t)\<lparr>rb_objects := rbs\<rparr>\<rparr>"
  have "\<not> ws_scissor (issued_state ws ?u)"
    using clear_calls_end [of a s "issued_state ws s"] by (auto simp: issued_state_def)
  then show ?thesis
    unfolding s' using restore_clears [of ws ?u P] clears_cong by (intro in_sync_dirty) blast+
qed

section \<open>Well-formedness\<close>

text \<open>The map of a manager: every entry has an object of its own, which is not deleted.\<close>

definition entries_ok :: "('o \<Rightarrow> bool) \<Rightarrow> (GLuint \<times> nat) list \<Rightarrow> 'o list \<Rightarrow> bool" where
  "entries_ok deleted es objs \<longleftrightarrow>
     distinct (map snd es) \<and> (\<forall>e\<in>set es. snd e < length objs \<and> \<not> deleted (objs ! snd e))"

lemma entries_lookup:
  "entries_ok deleted es objs \<Longrightarrow> map_of es i = Some a \<Longrightarrow> a < length objs \<and> \<not> deleted (objs ! a)"
  by (auto simp: entries_ok_def dest!: map_of_SomeD)

lemma entries_create:
  assumes "entries_ok deleted es objs" "\<not> deleted x"
  shows "entries_ok deleted (insert_entry i (length objs) es) (objs @ [x])"
  using assms by (auto simp: entries_ok_def insert_entry_def nth_append)

lemma entries_update:
  assumes "entries_ok deleted es objs" "a < length objs \<Longrightarrow> \<not> deleted (objs ! a) \<Longrightarrow> \<not> deleted x"
  shows "entries_ok deleted es (objs[a := x])"
proof -
  have "\<not> deleted (objs[a := x] ! snd e)" if "e \<in> set es" for e
    using assms that by (cases "snd e = a") (auto simp: entries_ok_def)
  then show ?thesis using assms(1) by (simp add: entries_ok_def)
qed

lemma snd_delete:
  assumes "map_of es i = Some a" "distinct (map snd es)" "e \<in> set (AList.delete i es)"
  shows "snd e \<noteq> a"
proof
  assume "snd e = a"
  moreover have "(i, a) \<in> set es" using assms(1) by (rule map_of_SomeD)
  moreover have "e \<in> set es" "fst e \<noteq> i" using assms(3) by (auto simp: AList.delete_eq)
  ultimately show False using assms(2) by (metis distinct_map fst_conv inj_onD snd_conv)
qed

lemma entries_remove:
  assumes "entries_ok deleted es objs" "map_of es i = Some a"
  shows "entries_ok deleted (AList.delete i es) (objs[a := x])"
proof -
  have sub: "set (AList.delete i es) \<subseteq> set es" by (auto simp: AList.delete_eq)
  have ne: "snd e \<noteq> a" if "e \<in> set (AList.delete i es)" for e
    using snd_delete [OF assms(2)] assms(1) that by (simp add: entries_ok_def)
  have "distinct (map snd (AList.delete i es))"
    using assms(1) by (simp add: entries_ok_def AList.delete_eq distinct_map_filter)
  moreover have "snd e < length objs \<and> \<not> deleted (objs[a := x] ! snd e)" if "e \<in> set (AList.delete i es)" for e
    using ne [OF that] sub that assms(1) by (auto simp: entries_ok_def)
  ultimately show ?thesis by (simp add: entries_ok_def)
qed

definition attachment_ok :: "nat \<Rightarrow> nat \<Rightarrow> Attachment \<Rightarrow> bool" where
  "attachment_ok nr nt a = (case a of RenderbufferAttachment r \<Rightarrow> r < nr | TextureAttachment t target level \<Rightarrow> t < nt)"

definition framebuffer_ok :: "nat \<Rightarrow> nat \<Rightarrow> FramebufferInfo \<Rightarrow> bool" where
  "framebuffer_ok nr nt f \<longleftrightarrow> (\<forall>e\<in>set (attachments_' f). attachment_ok nr nt (snd e))"

definition bound_in :: "nat option \<Rightarrow> 'o list \<Rightarrow> bool" where
  "bound_in p objs \<longleftrightarrow> (case p of None \<Rightarrow> True | Some a \<Rightarrow> a < length objs)"

definition fbo_ok :: "'g FboDecoder \<Rightarrow> bool" where
  "fbo_ok s \<longleftrightarrow>
     entries_ok Renderbuffer_IsDeleted (renderbuffer_infos_' (renderbuffer_manager s)) (rb_objs s)
     \<and> entries_ok Framebuffer_IsDeleted (framebuffer_infos_' (framebuffer_manager s)) (fb_objs s)
     \<and> (\<forall>f\<in>set (fb_objs s). framebuffer_ok (length (rb_objs s)) (length (tex_objs s)) f)
     \<and> bound_in (bound_draw_framebuffer_' s) (fb_objs s) \<and> bound_in (bound_read_framebuffer_' s) (fb_objs s)
     \<and> bound_in (bound_renderbuffer_' s) (rb_objs s)"

lemma bound_in_simps [simp]: "bound_in None objs" "bound_in (Some a) objs \<longleftrightarrow> a < length objs"
  by (simp_all add: bound_in_def)

lemma bound_in_append [intro]: "bound_in p objs \<Longrightarrow> bound_in p (objs @ xs)"
  by (cases p) simp_all

lemma framebuffer_ok_mono: "framebuffer_ok nr nt f \<Longrightarrow> nr \<le> nr' \<Longrightarrow> nt \<le> nt' \<Longrightarrow> framebuffer_ok nr' nt' f"
  by (fastforce simp: framebuffer_ok_def attachment_ok_def split: Attachment.splits)

section \<open>Attaching\<close>

lemma AList_update_set: "e \<in> set (AList.update k v al) \<Longrightarrow> e = (k, v) \<or> e \<in> set al"
  by (induction al) (auto split: if_splits)

lemma AttachRenderbuffer_ok:
  "framebuffer_ok nr nt f \<Longrightarrow> (\<And>r. info = Some r \<Longrightarrow> r < nr) \<Longrightarrow> framebuffer_ok nr nt (AttachRenderbuffer k info f)"
  by (auto simp: framebuffer_ok_def AttachRenderbuffer_def attachment_ok_def AList.delete_eq split: option.splits
      dest!: AList_update_set)

lemma AttachTexture_ok:
  assumes "framebuffer_ok nr nt f" "\<And>t. info = Some t \<Longrightarrow> t < nt"
  shows "framebuffer_ok nr nt (snd (AttachTexture k info target level ts f))"
  using assms by (auto simp: framebuffer_ok_def AttachTexture_def attachment_ok_def AList.delete_eq Let_def
      split: option.splits dest!: AList_update_set)

lemma AttachTexture_length: "length (fst (AttachTexture k info target level ts f)) = length ts"
  by (simp add: AttachTexture_def update_texture_def Let_def split: option.split)

end
