(* ===== verification/Framebuffer_Safety.thy ===== *)
theory Framebuffer_Safety
  imports Framebuffer_State
begin

text \<open>
  All commands on framebuffers, renderbuffers and write masks, mixed with the texture commands, over any
  sequence: no handler follows a null pointer or reaches code marked as unreachable, attachments refer to
  objects that exist, and the driver's write state stays in step with the client's.
\<close>

section \<open>The contract of GL\<close>

text \<open>The driver reports errors as specified, and generates as many names as asked for, none of them 0.\<close>

locale fbo_api = tex_api T pending_errors ok
  for T :: "'g TexApi" and pending_errors :: "'g \<Rightarrow> GLenum list" and ok :: "'g \<Rightarrow> bool" +
  fixes P :: "'g FboApi"
  assumes same_errors: "f_get_error P = t_get_error T"
    and fb_call_ok: "ok d \<Longrightarrow> ok (f_call P c d)"
    and check_ok: "ok d \<Longrightarrow> ok (snd (f_check_status P target d))"
    and gen_fb: "ok d \<Longrightarrow> ok (snd (f_gen_framebuffers P n d))"
      "ok d \<Longrightarrow> length (fst (f_gen_framebuffers P n d)) = n \<and> 0 \<notin> set (fst (f_gen_framebuffers P n d))"
    and gen_rb: "ok d \<Longrightarrow> ok (snd (f_gen_renderbuffers P n d))"
      "ok d \<Longrightarrow> length (fst (f_gen_renderbuffers P n d)) = n \<and> 0 \<notin> set (fst (f_gen_renderbuffers P n d))"

definition same_objects :: "'g FboDecoder \<Rightarrow> 'g FboDecoder \<Rightarrow> bool" where
  "same_objects s s' \<longleftrightarrow>
     renderbuffer_manager s' = renderbuffer_manager s \<and> framebuffer_manager s' = framebuffer_manager s
     \<and> bound_draw_framebuffer_' s' = bound_draw_framebuffer_' s
     \<and> bound_read_framebuffer_' s' = bound_read_framebuffer_' s
     \<and> bound_renderbuffer_' s' = bound_renderbuffer_' s"

lemma same_objects_refl [simp, intro]: "same_objects s s"
  by (simp add: same_objects_def)

lemma same_objects_gl [simp, intro]: "same_objects s (fb_gl P c s)" "same_objects s (on_tex f s)"
  by (simp_all add: same_objects_def)

text \<open>The view of the bound framebuffer, from its attachments and the formats of the objects.\<close>

lemma bound_viewsI:
  assumes "bound_draw_framebuffer_' s' = bound_draw_framebuffer_' s" "same_shadow s s'"
    and "\<And>a. bound_draw_framebuffer_' s = Some a \<Longrightarrow>
      attachments_' (fb_objs s' ! a) = attachments_' (fb_objs s ! a) \<and> fb_color_format a s' = fb_color_format a s"
  shows "bound_views s' = bound_views s"
  using assms
  by (cases "bound_draw_framebuffer_' s")
    (simp_all add: bound_views_def BoundFramebufferHasColorAttachmentWithAlpha_def
      BoundFramebufferHasDepthAttachment_def BoundFramebufferHasStencilAttachment_def
      GetBoundDrawFrameBufferInternalFormat_def surface_format_def HasDepthAttachment_def
      HasStencilAttachment_def same_shadow_def cong: option.case_cong)

lemma kept_viewsI:
  assumes "bound_draw_framebuffer_' s' = bound_draw_framebuffer_' s" "same_shadow s s'"
    and "\<And>ws. issued_state ws s' = issued_state ws s" "state_dirty_' (tex s') = state_dirty_' (tex s)"
    and "\<And>a. bound_draw_framebuffer_' s = Some a \<Longrightarrow>
      attachments_' (fb_objs s' ! a) = attachments_' (fb_objs s ! a) \<and> fb_color_format a s' = fb_color_format a s"
  shows "kept s s'"
  using same_boundI [OF bound_viewsI [OF assms(1,2,5)]] assms(2,3,4) by (simp add: kept_def)

lemma color_attachment_ok:
  "framebuffer_ok nr nt f \<Longrightarrow> map_of (attachments_' f) k = Some a \<Longrightarrow> attachment_ok nr nt a"
  by (auto simp: framebuffer_ok_def dest!: map_of_SomeD)

text \<open>The color format depends on the formats of the objects that existed before.\<close>

lemma color_format_cong:
  assumes "framebuffer_ok (length rbs) (length ts) f"
    and "\<And>r. r < length rbs \<Longrightarrow> rb_internal_format_' (rbs' ! r) = rb_internal_format_' (rbs ! r)"
    and "\<And>t. t < length ts \<Longrightarrow> level_infos_' (ts' ! t) = level_infos_' (ts ! t) \<and> deleted_' (ts' ! t) = deleted_' (ts ! t)"
  shows "GetColorAttachmentFormat rbs' ts' f = GetColorAttachmentFormat rbs ts f"
  using color_attachment_ok [OF assms(1), of GL_COLOR_ATTACHMENT0] assms(2,3)
  by (auto simp: GetColorAttachmentFormat_def attachment_ok_def GetLevelType_def level_at_def Let_def
      split: option.splits Attachment.splits)

text \<open>New storage of the bound renderbuffer keeps the alpha channel of the framebuffer bound for drawing.\<close>

definition storage_keeps_alpha :: "GLenum \<Rightarrow> 'g FboDecoder \<Rightarrow> bool" where
  "storage_keeps_alpha format s \<longleftrightarrow>
     (case (bound_draw_framebuffer_' s, bound_renderbuffer_' s) of
        (Some a, Some r) \<Rightarrow>
          map_of (attachments_' (fb_objs s ! a)) GL_COLOR_ATTACHMENT0 = Some (RenderbufferAttachment r) \<longrightarrow>
          has_alpha format = has_alpha (rb_internal_format_' (rb_objs s ! r))
      | _ \<Rightarrow> True)"

context fbo_api
begin

definition fb_inv :: "'g FboDecoder \<Rightarrow> bool" where
  "fb_inv s \<longleftrightarrow> inv (tex s) \<and> fbo_ok s"

definition step_ok :: "'g FboDecoder \<Rightarrow> 'g FboDecoder \<Rightarrow> bool" where
  "step_ok s s' \<longleftrightarrow> fb_inv s' \<and> (\<forall>ws. in_sync ws s \<longrightarrow> in_sync ws s')"

lemma step_kept: "fb_inv s' \<Longrightarrow> kept s s' \<Longrightarrow> step_ok s s'"
  unfolding step_ok_def using in_sync_kept by blast

lemma step_trans: "step_ok s t \<Longrightarrow> step_ok t u \<Longrightarrow> step_ok s u"
  unfolding step_ok_def by blast

lemma inv_same: "fb_inv s \<Longrightarrow> same_objects s s' \<Longrightarrow> quiet (tex s) (tex s') \<Longrightarrow> fb_inv s'"
  using quiet_inv [of "tex s" "tex s'"]
  by (auto simp: fb_inv_def fbo_ok_def same_objects_def quiet_def same_textures_def)

lemma quiet_fb_gl [simp, intro]: "quiet (tex s) (tex (fb_gl P c s))"
  by (auto simp: fb_gl_def on_tex_def fb_call_ok intro!: quiet_driver)

lemma fb_gl_inv: "fb_inv s \<Longrightarrow> fb_inv (fb_gl P c s)"
  by (rule inv_same) auto

lemma fb_gls_inv: "fb_inv s \<Longrightarrow> fb_inv (fb_gls P cs s)"
  by (induction cs arbitrary: s) (simp_all add: fb_gl_inv)

lemma fb_gl_step: "fb_inv s \<Longrightarrow> untracked c \<Longrightarrow> step_ok s (fb_gl P c s)"
  by (intro step_kept fb_gl_inv kept_gl)

lemma error_inv: "fb_inv s \<Longrightarrow> fb_inv (fb_error e msg s)"
  unfolding fb_error_def by (rule inv_same) auto

lemma error_step: "fb_inv s \<Longrightarrow> step_ok s (fb_error e msg s)"
  by (intro step_kept error_inv kept_error)

lemma dirty_inv: "fb_inv s \<Longrightarrow> fb_inv (set_dirty s)"
  unfolding set_dirty_def by (rule inv_same) auto

lemma driver_inv: "fb_inv s \<Longrightarrow> (\<And>d. ok d \<Longrightarrow> ok (f d)) \<Longrightarrow> fb_inv (on_tex (on_tex_driver f) s)"
  by (rule inv_same) (auto intro!: quiet_driver)

text \<open>A driver value computed from the driver.\<close>

lemma driver_const: "on_tex (on_tex_driver (\<lambda>_. g (driver (tex s)))) s = on_tex (on_tex_driver g) s"
  by (simp add: on_tex_def on_tex_driver_def)

lemma inv_ok: "fb_inv s \<Longrightarrow> ok (driver (tex s))"
  by (simp add: fb_inv_def inv_def)

lemma checked_call_step:
  assumes "fb_inv s" "untracked c"
  obtains b s' where "checked_call P c s = Some (b, s')" "fb_inv s'" "kept s s'" "same_objects s s'"
    "texture_manager (tex s') = texture_manager (tex s)"
proof -
  obtain t where t: "CopyRealGLErrorsToWrapper (f_get_error P) (tex s) = Some t" "quiet (tex s) t"
      "state_dirty_' t = state_dirty_' (tex s)"
    using source.copy_errors [of "tex s"] inv_ok [OF assms(1)] same_errors quiet_copy [of "tex s"]
    by fastforce
  let ?u = "fb_gl P c (s\<lparr>tex := t\<rparr>)"
  let ?p = "PeekGLError (f_get_error P) (tex ?u)"
  have qp: "quiet (tex ?u) (snd ?p)" using quiet_peek same_errors by simp
  have m: "texture_manager t = texture_manager (tex s)" "texture_manager (snd ?p) = texture_manager (tex ?u)"
    using t(2) qp by (simp_all add: quiet_def same_textures_def)
  have d: "state_dirty_' (snd ?p) = state_dirty_' (tex ?u)"
    by (simp add: PeekGLError_def Service_SetGLError_def split_beta Let_def)
  have u: "fb_inv ?u"
    using inv_same [OF assms(1), of "s\<lparr>tex := t\<rparr>"] t(2) by (intro fb_gl_inv) (simp add: same_objects_def)
  have "fb_inv (?u\<lparr>tex := snd ?p\<rparr>)"
    by (rule inv_same [OF u]) (use qp in \<open>simp_all add: same_objects_def\<close>)
  moreover have "kept s (?u\<lparr>tex := snd ?p\<rparr>)"
    using kept_trans [OF kept_trans [OF kept_tex [of t s] kept_gl] kept_tex] assms(2) m t(3) d by simp
  ultimately show thesis
    using t(1) m by (intro that [of "fst ?p = GL_NO_ERROR" "?u\<lparr>tex := snd ?p\<rparr>"])
      (simp_all add: checked_call_def split_beta same_objects_def Let_def)
qed

section \<open>Names\<close>

lemma fb_format_ok:
  assumes "fb_inv s" "bound_draw_framebuffer_' s = Some a"
  shows "a < length (fb_objs s)" "framebuffer_ok (length (rb_objs s)) (length (tex_objs s)) (fb_objs s ! a)"
  using assms by (simp_all add: fb_inv_def fbo_ok_def)

lemma create_fb_step:
  assumes "fb_inv s" "sid \<noteq> 0"
  shows "fb_inv (Decoder_CreateFramebufferInfo cid sid s)" "kept s (Decoder_CreateFramebufferInfo cid sid s)"
proof -
  have "framebuffer_ok nr nt (FramebufferInfo_new sid)" for nr nt
    by (simp add: framebuffer_ok_def FramebufferInfo_new_def)
  moreover have "\<not> Framebuffer_IsDeleted (FramebufferInfo_new sid)"
    using assms(2) by (simp add: Framebuffer_IsDeleted_def FramebufferInfo_new_def)
  ultimately show "fb_inv (Decoder_CreateFramebufferInfo cid sid s)"
    using assms(1) by (auto simp: fb_inv_def fbo_ok_def Decoder_CreateFramebufferInfo_def
        CreateFramebufferInfo_def entries_create)
  show "kept s (Decoder_CreateFramebufferInfo cid sid s)"
    by (rule kept_viewsI) (auto simp: Decoder_CreateFramebufferInfo_def CreateFramebufferInfo_def same_shadow_def
        issued_state_def nth_append fb_color_format_def dest: fb_format_ok(1) [OF assms(1)])
qed

lemma create_rb_step:
  assumes "fb_inv s" "sid \<noteq> 0"
  shows "fb_inv (Decoder_CreateRenderbufferInfo cid sid s)" "kept s (Decoder_CreateRenderbufferInfo cid sid s)"
proof -
  have "\<not> Renderbuffer_IsDeleted (RenderbufferInfo_new sid)"
    using assms(2) by (simp add: Renderbuffer_IsDeleted_def RenderbufferInfo_new_def)
  then show "fb_inv (Decoder_CreateRenderbufferInfo cid sid s)"
    using assms(1) by (auto simp: fb_inv_def fbo_ok_def Decoder_CreateRenderbufferInfo_def
        CreateRenderbufferInfo_def entries_create intro: framebuffer_ok_mono)
  show "kept s (Decoder_CreateRenderbufferInfo cid sid s)"
    by (rule kept_viewsI) (auto simp: Decoder_CreateRenderbufferInfo_def CreateRenderbufferInfo_def same_shadow_def
        issued_state_def fb_color_format_def nth_append intro!: color_format_cong fb_format_ok(2) [OF assms(1)])
qed

lemma create_all_step:
  assumes "\<And>s cid sid. fb_inv s \<Longrightarrow> sid \<noteq> 0 \<Longrightarrow> fb_inv (create cid sid s) \<and> kept s (create cid sid s)"
    and "fb_inv s" "0 \<notin> set (map snd ps)"
  shows "fb_inv (fold (\<lambda>(cid, sid). create cid sid) ps s) \<and> kept s (fold (\<lambda>(cid, sid). create cid sid) ps s)"
  using assms(2,3)
proof (induction ps arbitrary: s)
  case (Cons p ps)
  let ?s = "create (fst p) (snd p) s"
  have "fb_inv ?s" "kept s ?s" using assms(1) Cons.prems by simp_all
  then show ?case using Cons.IH [of ?s] Cons.prems kept_trans [of s ?s] by (simp add: split_beta)
qed simp

lemma gen_names_fb:
  assumes "fb_inv s" "gen_names (f_gen_framebuffers P) n s = (ids, s')"
  shows "fb_inv s'" "kept s s'" "0 \<notin> set ids" "length ids = n" "same_objects s s'"
proof -
  have s': "s' = on_tex (on_tex_driver (\<lambda>d. snd (f_gen_framebuffers P n d))) s"
    "ids = fst (f_gen_framebuffers P n (driver (tex s)))"
    using assms(2) driver_const [of "\<lambda>d. snd (f_gen_framebuffers P n d)" s]
    by (auto simp: gen_names_def split_beta Let_def)
  show "fb_inv s'" unfolding s' by (rule driver_inv [OF assms(1) gen_fb(1)])
  show "kept s s'" "0 \<notin> set ids" "length ids = n" "same_objects s s'"
    using gen_fb(2) [OF inv_ok [OF assms(1)], of n] unfolding s' by auto
qed

lemma gen_names_rb:
  assumes "fb_inv s" "gen_names (f_gen_renderbuffers P) n s = (ids, s')"
  shows "fb_inv s'" "kept s s'" "0 \<notin> set ids" "length ids = n" "same_objects s s'"
proof -
  have s': "s' = on_tex (on_tex_driver (\<lambda>d. snd (f_gen_renderbuffers P n d))) s"
    "ids = fst (f_gen_renderbuffers P n (driver (tex s)))"
    using assms(2) driver_const [of "\<lambda>d. snd (f_gen_renderbuffers P n d)" s]
    by (auto simp: gen_names_def split_beta Let_def)
  show "fb_inv s'" unfolding s' by (rule driver_inv [OF assms(1) gen_rb(1)])
  show "kept s s'" "0 \<notin> set ids" "length ids = n" "same_objects s s'"
    using gen_rb(2) [OF inv_ok [OF assms(1)], of n] unfolding s' by auto
qed

lemma zip_names: "0 \<notin> set ids \<Longrightarrow> 0 \<notin> set (map snd (zip cs ids))"
  by (auto dest: set_zip_rightD)

lemma GenFramebuffersHelper_step:
  assumes "fb_inv s"
  shows "step_ok s (snd (GenFramebuffersHelper P ids s))"
proof -
  obtain sids t where g: "gen_names (f_gen_framebuffers P) (length ids) s = (sids, t)" by fastforce
  note t = gen_names_fb [OF assms g]
  show ?thesis
    using create_all_step [of Decoder_CreateFramebufferInfo t, OF conjI [OF create_fb_step] t(1) zip_names [OF t(3)]]
      kept_trans [OF t(2)] step_kept assms
    by (simp add: GenFramebuffersHelper_def g)
qed

lemma GenRenderbuffersHelper_step:
  assumes "fb_inv s"
  shows "step_ok s (snd (GenRenderbuffersHelper P ids s))"
proof -
  obtain sids t where g: "gen_names (f_gen_renderbuffers P) (length ids) s = (sids, t)" by fastforce
  note t = gen_names_rb [OF assms g]
  show ?thesis
    using create_all_step [of Decoder_CreateRenderbufferInfo t, OF conjI [OF create_rb_step] t(1) zip_names [OF t(3)]]
      kept_trans [OF t(2)] step_kept assms
    by (simp add: GenRenderbuffersHelper_def g)
qed

lemma lookup_fb:
  assumes "fb_inv s"
  shows "Decoder_GetFramebufferInfo i s = map_of (framebuffer_infos_' (framebuffer_manager s)) i"
    "Decoder_GetFramebufferInfo i s = Some a \<Longrightarrow> a < length (fb_objs s)"
  using assms by (auto simp: Decoder_GetFramebufferInfo_def GetFramebufferInfo_def fb_inv_def fbo_ok_def
      dest: entries_lookup split: option.splits if_splits)

lemma lookup_rb:
  assumes "fb_inv s"
  shows "Decoder_GetRenderbufferInfo i s = map_of (renderbuffer_infos_' (renderbuffer_manager s)) i"
    "Decoder_GetRenderbufferInfo i s = Some a \<Longrightarrow> a < length (rb_objs s)"
  using assms by (auto simp: Decoder_GetRenderbufferInfo_def GetRenderbufferInfo_def fb_inv_def fbo_ok_def
      dest: entries_lookup split: option.splits if_splits)

lemma remove_fb_inv:
  assumes "fb_inv s"
  shows "fb_inv (s\<lparr>framebuffer_manager := RemoveFramebufferInfo i (framebuffer_manager s)\<rparr>)"
proof (cases "map_of (framebuffer_infos_' (framebuffer_manager s)) i")
  case (Some a)
  have "framebuffer_ok nr nt (Framebuffer_MarkAsDeleted f)" for nr nt f
    by (simp add: framebuffer_ok_def Framebuffer_MarkAsDeleted_def)
  then show ?thesis
    using assms Some set_update_subset_insert [of "fb_objs s" a "Framebuffer_MarkAsDeleted (fb_objs s ! a)"]
    by (auto simp: fb_inv_def fbo_ok_def RemoveFramebufferInfo_def entries_remove bound_in_def split: option.split)
qed (use assms in \<open>simp add: RemoveFramebufferInfo_def\<close>)

lemma remove_rb_inv:
  assumes "fb_inv s"
  shows "fb_inv (s\<lparr>renderbuffer_manager := RemoveRenderbufferInfo i (renderbuffer_manager s)\<rparr>)"
proof (cases "map_of (renderbuffer_infos_' (renderbuffer_manager s)) i")
  case (Some a)
  then show ?thesis
    using assms by (auto simp: fb_inv_def fbo_ok_def RemoveRenderbufferInfo_def entries_remove bound_in_def
        split: option.split)
qed (use assms in \<open>simp add: RemoveRenderbufferInfo_def\<close>)

lemma delete_fb_step:
  assumes "fb_inv s" "Decoder_GetFramebufferInfo i s = Some a"
  shows "step_ok s (delete_framebuffer P i a s)"
proof -
  let ?c = "glDeleteFramebuffersEXT (fb_service_id_' (fb_objs s ! a))"
  let ?remove = "\<lambda>t. t\<lparr>framebuffer_manager := RemoveFramebufferInfo i (framebuffer_manager t)\<rparr>"
  have map: "map_of (framebuffer_infos_' (framebuffer_manager s)) i = Some a"
    using assms(2) lookup_fb(1) [OF assms(1)] by simp
  show ?thesis
  proof (cases "bound_draw_framebuffer_' s = Some a")
    case True
    let ?u = "set_dirty (s\<lparr>bound_draw_framebuffer_' := None\<rparr>)"
    have d: "delete_framebuffer P i a s = ?remove (fb_gl P ?c ?u)"
      using True by (simp add: delete_framebuffer_def set_dirty_def Let_def)
    have "fb_inv (s\<lparr>bound_draw_framebuffer_' := None\<rparr>)"
      using assms(1) by (simp add: fb_inv_def fbo_ok_def)
    then have "fb_inv (?remove (fb_gl P ?c ?u))" by (intro remove_fb_inv fb_gl_inv dirty_inv)
    moreover have "kept s (?remove (fb_gl P ?c ?u))"
      by (rule keptI) (simp_all add: same_shadow_def issued_state_def set_dirty_def)
    ultimately show ?thesis unfolding d by (rule step_kept)
  next
    case False
    have "fb_inv (?remove (fb_gl P ?c s))" by (intro remove_fb_inv fb_gl_inv assms(1))
    moreover have "kept s (?remove (fb_gl P ?c s))"
      by (rule kept_viewsI)
        (use False map in \<open>auto simp: same_shadow_def issued_state_def RemoveFramebufferInfo_def fb_color_format_def\<close>)
    ultimately show ?thesis using False step_kept by (simp add: delete_framebuffer_def)
  qed
qed

lemma delete_rb_step:
  assumes "fb_inv s"
  shows "step_ok s (delete_renderbuffer P i a s)"
proof (rule step_kept)
  show "fb_inv (delete_renderbuffer P i a s)"
    unfolding delete_renderbuffer_def Let_def by (intro remove_rb_inv fb_gl_inv dirty_inv assms)
  show "kept s (delete_renderbuffer P i a s)"
    by (rule keptI) (simp_all add: delete_renderbuffer_def same_shadow_def issued_state_def set_dirty_def)
qed

lemma step_refl: "fb_inv s \<Longrightarrow> step_ok s s"
  by (rule step_kept) simp_all

lemma step_inv: "step_ok s s' \<Longrightarrow> fb_inv s'"
  by (simp add: step_ok_def)

lemma DeleteFramebuffersHelper_step: "fb_inv s \<Longrightarrow> step_ok s (DeleteFramebuffersHelper P ids s)"
proof (induction ids arbitrary: s)
  case (Cons i ids)
  then show ?case
    using delete_fb_step [OF Cons.prems, of i] step_inv step_trans by (fastforce split: option.split)
qed (simp add: step_refl)

lemma DeleteRenderbuffersHelper_step: "fb_inv s \<Longrightarrow> step_ok s (DeleteRenderbuffersHelper P ids s)"
proof (induction ids arbitrary: s)
  case (Cons i ids)
  then show ?case
    using delete_rb_step [OF Cons.prems, of i] step_inv step_trans by (fastforce split: option.split)
qed (simp add: step_refl)

lemma handle_gen_step:
  assumes "\<And>ids. step_ok s (snd (helper ids s))" "fb_inv s"
  shows "step_ok s (snd (handle_gen helper n data s))"
  using assms step_refl by (auto simp: handle_gen_def split_beta Let_def split: option.split)

lemma handle_delete_step:
  assumes "\<And>ids. step_ok s (helper ids s)" "fb_inv s"
  shows "step_ok s (snd (handle_delete helper n data s))"
  using assms step_refl by (simp add: handle_delete_def split: option.split)

section \<open>Binding\<close>

text \<open>Marking an object as valid changes nothing that is read here.\<close>

lemma mark_fb_step:
  assumes "fb_inv s" "a < length (fb_objs s)"
  shows "fb_inv (update_framebuffer Framebuffer_MarkAsValid a s)" "kept s (update_framebuffer Framebuffer_MarkAsValid a s)"
proof -
  let ?f = "Framebuffer_MarkAsValid (fb_objs s ! a)"
  have same: "attachments_' ?f = attachments_' (fb_objs s ! a)" "Framebuffer_IsDeleted ?f = Framebuffer_IsDeleted (fb_objs s ! a)"
    by (simp_all add: Framebuffer_MarkAsValid_def Framebuffer_IsDeleted_def)
  have "framebuffer_ok (length (rb_objs s)) (length (tex_objs s)) (fb_objs s ! a)"
    using assms by (simp add: fb_inv_def fbo_ok_def)
  then have "framebuffer_ok (length (rb_objs s)) (length (tex_objs s)) ?f"
    using same by (simp add: framebuffer_ok_def)
  then show "fb_inv (update_framebuffer Framebuffer_MarkAsValid a s)"
    using assms same set_update_subset_insert [of "fb_objs s" a ?f]
    by (auto simp: fb_inv_def fbo_ok_def update_framebuffer_def bound_in_def intro!: entries_update
        split: option.splits)
  have "attachments_' ((fb_objs s)[a := ?f] ! b) = attachments_' (fb_objs s ! b)" for b
    using assms(2) same by (cases "b = a") simp_all
  then show "kept s (update_framebuffer Framebuffer_MarkAsValid a s)"
    by (intro kept_viewsI) (simp_all add: update_framebuffer_def same_shadow_def issued_state_def
        fb_color_format_def GetColorAttachmentFormat_def)
qed

text \<open>A renderbuffer that changes, with the condition that the color format of the bound framebuffer keeps
  its alpha channel.\<close>

lemma update_rb_inv:
  assumes "fb_inv s" "r < length (rb_objs s)" "Renderbuffer_IsDeleted (g (rb_objs s ! r)) = Renderbuffer_IsDeleted (rb_objs s ! r)"
  shows "fb_inv (update_renderbuffer g r s)"
  using assms by (auto simp: fb_inv_def fbo_ok_def update_renderbuffer_def bound_in_def intro!: entries_update
      split: option.splits)

lemma mark_rb_step:
  assumes "fb_inv s" "r < length (rb_objs s)"
  shows "fb_inv (update_renderbuffer Renderbuffer_MarkAsValid r s)" "kept s (update_renderbuffer Renderbuffer_MarkAsValid r s)"
proof -
  show "fb_inv (update_renderbuffer Renderbuffer_MarkAsValid r s)"
    by (rule update_rb_inv [OF assms]) (simp add: Renderbuffer_MarkAsValid_def Renderbuffer_IsDeleted_def)
  have "rb_internal_format_' ((rb_objs s)[r := Renderbuffer_MarkAsValid (rb_objs s ! r)] ! b) =
      rb_internal_format_' (rb_objs s ! b)" for b
    using assms(2) by (cases "b = r") (simp_all add: Renderbuffer_MarkAsValid_def)
  then show "kept s (update_renderbuffer Renderbuffer_MarkAsValid r s)"
    by (intro kept_viewsI) (auto simp: update_renderbuffer_def same_shadow_def issued_state_def fb_color_format_def
        intro!: color_format_cong fb_format_ok(2) [OF assms(1)])
qed

lemma bind_fb_step:
  assumes "fb_inv s" "bound_in info (fb_objs s)"
  shows "step_ok s (bind_framebuffer P target info sid s)"
proof (rule step_kept)
  let ?s = "let s = (if target = GL_FRAMEBUFFER \<or> target = GL_DRAW_FRAMEBUFFER_EXT
               then s\<lparr>bound_draw_framebuffer_' := info\<rparr> else s)
      in if target = GL_FRAMEBUFFER \<or> target = GL_READ_FRAMEBUFFER_EXT
               then s\<lparr>bound_read_framebuffer_' := info\<rparr> else s"
  have "fb_inv ?s" using assms by (simp add: fb_inv_def fbo_ok_def Let_def)
  then show "fb_inv (bind_framebuffer P target info sid s)"
    unfolding bind_framebuffer_def Let_def by (intro fb_gl_inv dirty_inv)
  show "kept s (bind_framebuffer P target info sid s)"
    by (rule keptI) (simp_all add: bind_framebuffer_def same_shadow_def issued_state_def set_dirty_def Let_def)
qed

lemma bind_rb_step:
  assumes "fb_inv s" "bound_in info (rb_objs s)"
  shows "step_ok s (bind_renderbuffer P target info sid s)"
proof (rule step_kept)
  show "fb_inv (bind_renderbuffer P target info sid s)"
    unfolding bind_renderbuffer_def
    by (rule fb_gl_inv) (use assms in \<open>simp add: fb_inv_def fbo_ok_def\<close>)
  show "kept s (bind_renderbuffer P target info sid s)"
    by (rule kept_viewsI)
      (simp_all add: bind_renderbuffer_def same_shadow_def issued_state_def fb_color_format_def)
qed

lemma ids_fields:
  "fb_inv s \<Longrightarrow> fb_inv (s\<lparr>framebuffer_ids := i\<rparr>)" "fb_inv s \<Longrightarrow> fb_inv (s\<lparr>renderbuffer_ids := i\<rparr>)"
  "kept s t \<Longrightarrow> kept s (t\<lparr>framebuffer_ids := i\<rparr>)" "kept s t \<Longrightarrow> kept s (t\<lparr>renderbuffer_ids := i\<rparr>)"
proof -
  have "kept t (t\<lparr>framebuffer_ids := i\<rparr>)" "kept t (t\<lparr>renderbuffer_ids := i\<rparr>)" for t :: "'g FboDecoder"
    by (rule kept_viewsI; simp add: same_shadow_def issued_state_def fb_color_format_def)+
  then show "kept s t \<Longrightarrow> kept s (t\<lparr>framebuffer_ids := i\<rparr>)" "kept s t \<Longrightarrow> kept s (t\<lparr>renderbuffer_ids := i\<rparr>)"
    using kept_trans by blast+
qed (simp_all add: fb_inv_def fbo_ok_def)

lemma create_fb_lookup:
  assumes "map_of (framebuffer_infos_' (framebuffer_manager s)) i = None" "sid \<noteq> 0"
  shows "Decoder_GetFramebufferInfo i (Decoder_CreateFramebufferInfo i sid s) = Some (length (fb_objs s))"
    "length (fb_objs (Decoder_CreateFramebufferInfo i sid s)) = Suc (length (fb_objs s))"
  using assms by (simp_all add: Decoder_GetFramebufferInfo_def Decoder_CreateFramebufferInfo_def
      CreateFramebufferInfo_def GetFramebufferInfo_def insert_entry_def Framebuffer_IsDeleted_def FramebufferInfo_new_def)

lemma create_rb_lookup:
  assumes "map_of (renderbuffer_infos_' (renderbuffer_manager s)) i = None" "sid \<noteq> 0"
  shows "Decoder_GetRenderbufferInfo i (Decoder_CreateRenderbufferInfo i sid s) = Some (length (rb_objs s))"
    "length (rb_objs (Decoder_CreateRenderbufferInfo i sid s)) = Suc (length (rb_objs s))"
  using assms by (simp_all add: Decoder_GetRenderbufferInfo_def Decoder_CreateRenderbufferInfo_def
      CreateRenderbufferInfo_def GetRenderbufferInfo_def insert_entry_def Renderbuffer_IsDeleted_def RenderbufferInfo_new_def)

lemma bind_framebuffer_lookup_step:
  assumes "fb_inv s"
  obtains t where "bind_framebuffer_lookup P i s = (None, t)" "step_ok s t"
  | a sid t where "bind_framebuffer_lookup P i s = (Some (Some a, sid), t)" "fb_inv t" "kept s t" "a < length (fb_objs t)"
proof (cases "Decoder_GetFramebufferInfo i s")
  case (Some a)
  then show thesis using that(2) assms lookup_fb(2) [OF assms Some] by (simp add: bind_framebuffer_lookup_def)
next
  case None
  show thesis
  proof (cases "group_bind_generates (tex s)")
    case False
    then show thesis using that(1) None error_step [OF assms] by (simp add: bind_framebuffer_lookup_def)
  next
    case True
    obtain ids t where g: "gen_names (f_gen_framebuffers P) 1 s = (ids, t)" by fastforce
    note t = gen_names_fb [OF assms g]
    obtain sid where ids: "ids = [sid]" "sid \<noteq> 0" using t(3,4) by (cases ids) auto
    let ?u = "Decoder_CreateFramebufferInfo i sid t"
    have none: "map_of (framebuffer_infos_' (framebuffer_manager t)) i = None"
      using None lookup_fb(1) [OF assms] t(5) by (simp add: same_objects_def)
    note look = create_fb_lookup [OF none ids(2)]
    have "fb_inv ?u" "kept s ?u" using create_fb_step [OF t(1) ids(2)] kept_trans [OF t(2)] by blast+
    then show thesis
      using that(2) [of "length (fb_objs t)" sid "?u\<lparr>framebuffer_ids := snd (IdAllocator_MarkAsUsed i (framebuffer_ids ?u))\<rparr>"]
        None True ids look by (simp add: bind_framebuffer_lookup_def g [simplified] ids_fields Let_def)
  qed
qed

lemma bind_renderbuffer_lookup_step:
  assumes "fb_inv s"
  obtains t where "bind_renderbuffer_lookup P i s = (None, t)" "step_ok s t"
  | a sid t where "bind_renderbuffer_lookup P i s = (Some (Some a, sid), t)" "fb_inv t" "kept s t" "a < length (rb_objs t)"
proof (cases "Decoder_GetRenderbufferInfo i s")
  case (Some a)
  then show thesis using that(2) assms lookup_rb(2) [OF assms Some] by (simp add: bind_renderbuffer_lookup_def)
next
  case None
  show thesis
  proof (cases "group_bind_generates (tex s)")
    case False
    then show thesis using that(1) None error_step [OF assms] by (simp add: bind_renderbuffer_lookup_def)
  next
    case True
    obtain ids t where g: "gen_names (f_gen_renderbuffers P) 1 s = (ids, t)" by fastforce
    note t = gen_names_rb [OF assms g]
    obtain sid where ids: "ids = [sid]" "sid \<noteq> 0" using t(3,4) by (cases ids) auto
    let ?u = "Decoder_CreateRenderbufferInfo i sid t"
    have none: "map_of (renderbuffer_infos_' (renderbuffer_manager t)) i = None"
      using None lookup_rb(1) [OF assms] t(5) by (simp add: same_objects_def)
    note look = create_rb_lookup [OF none ids(2)]
    have "fb_inv ?u" "kept s ?u" using create_rb_step [OF t(1) ids(2)] kept_trans [OF t(2)] by blast+
    then show thesis
      using that(2) [of "length (rb_objs t)" sid "?u\<lparr>renderbuffer_ids := snd (IdAllocator_MarkAsUsed i (renderbuffer_ids ?u))\<rparr>"]
        None True ids look by (simp add: bind_renderbuffer_lookup_def g [simplified] ids_fields Let_def)
  qed
qed

definition returns :: "'g FboDecoder \<Rightarrow> 'g FboDecoder option \<Rightarrow> bool" where
  "returns s r \<longleftrightarrow> (\<exists>s'. r = Some s' \<and> step_ok s s')"

lemma returnsI: "step_ok s s' \<Longrightarrow> returns s (Some s')"
  by (simp add: returns_def)

lemma DoBindFramebuffer_step:
  assumes "fb_inv s"
  shows "returns s (DoBindFramebuffer P target i s)"
proof (cases "i = 0")
  case True
  then show ?thesis using bind_fb_step [OF assms, of None] by (simp add: DoBindFramebuffer_def returns_def)
next
  case False
  show ?thesis
  proof (rule bind_framebuffer_lookup_step [OF assms, of i])
    fix t assume "bind_framebuffer_lookup P i s = (None, t)" "step_ok s t"
    then show ?thesis using False by (simp add: DoBindFramebuffer_def returns_def)
  next
    fix a sid t
    assume l: "bind_framebuffer_lookup P i s = (Some (Some a, sid), t)"
      and t: "fb_inv t" "kept s t" "a < length (fb_objs t)"
    let ?u = "update_framebuffer Framebuffer_MarkAsValid a t"
    have "fb_inv ?u" "kept s ?u" using mark_fb_step [OF t(1,3)] kept_trans [OF t(2)] by blast+
    moreover have "bound_in (Some a) (fb_objs ?u)" using t(3) by (simp add: update_framebuffer_def)
    ultimately show ?thesis
      using l False step_trans [OF step_kept bind_fb_step] by (simp add: DoBindFramebuffer_def returns_def)
  qed
qed

lemma DoBindRenderbuffer_step:
  assumes "fb_inv s"
  shows "returns s (DoBindRenderbuffer P target i s)"
proof (cases "i = 0")
  case True
  then show ?thesis using bind_rb_step [OF assms, of None] by (simp add: DoBindRenderbuffer_def returns_def)
next
  case False
  show ?thesis
  proof (rule bind_renderbuffer_lookup_step [OF assms, of i])
    fix t assume "bind_renderbuffer_lookup P i s = (None, t)" "step_ok s t"
    then show ?thesis using False by (simp add: DoBindRenderbuffer_def returns_def)
  next
    fix a sid t
    assume l: "bind_renderbuffer_lookup P i s = (Some (Some a, sid), t)"
      and t: "fb_inv t" "kept s t" "a < length (rb_objs t)"
    let ?u = "update_renderbuffer Renderbuffer_MarkAsValid a t"
    have "fb_inv ?u" "kept s ?u" using mark_rb_step [OF t(1,3)] kept_trans [OF t(2)] by blast+
    moreover have "bound_in (Some a) (rb_objs ?u)" using t(3) by (simp add: update_renderbuffer_def)
    ultimately show ?thesis
      using l False step_trans [OF step_kept bind_rb_step] by (simp add: DoBindRenderbuffer_def returns_def)
  qed
qed

section \<open>Attachments\<close>

lemma mark_cleared_ids: "mark_cleared as rbs = Some rbs' \<Longrightarrow> map rb_service_id_' rbs' = map rb_service_id_' rbs"
proof (induction as rbs rule: mark_cleared.induct)
  case (2 k a as rbs)
  show ?case
  proof (cases a)
    case (RenderbufferAttachment r)
    have "map rb_service_id_' (rbs[r := Renderbuffer_set_cleared (rbs ! r)]) = map rb_service_id_' rbs"
      by (cases "r < length rbs") (simp_all add: map_update Renderbuffer_set_cleared_def list_update_same_conv list_update_beyond)
    then show ?thesis using 2 RenderbufferAttachment by (auto split: if_splits)
  qed (use 2 in simp)
qed simp

lemma entries_ids:
  assumes "map rb_service_id_' rbs' = map rb_service_id_' rbs" "entries_ok Renderbuffer_IsDeleted es rbs"
  shows "entries_ok Renderbuffer_IsDeleted es rbs'"
proof -
  have len: "length rbs' = length rbs" using assms(1) map_eq_imp_length_eq by blast
  have "rb_service_id_' (rbs' ! i) = rb_service_id_' (rbs ! i)" if "i < length rbs" for i
    using assms(1) that len by (metis nth_map)
  then show ?thesis using assms(2) len by (auto simp: entries_ok_def Renderbuffer_IsDeleted_def)
qed

lemma restore_inv: "fb_inv s \<Longrightarrow> fb_inv (RestoreClearState P s)"
  by (auto simp: RestoreClearState_def Let_def split: prod.split intro!: fb_gl_inv dirty_inv)

lemma ClearUncleared_step:
  assumes "fb_inv s"
  obtains s' where "ClearUnclearedRenderbuffers P a s = Some s'" "fb_inv s'" "\<forall>ws. in_sync ws s'"
proof -
  let ?t = "fb_gls P (clear_calls a s) s"
  obtain rbs where rbs: "mark_cleared (attachments_' (fb_objs s ! a)) (rb_objs s) = Some rbs"
    using mark_cleared_some by blast
  note ids = mark_cleared_ids [OF rbs] and len = mark_cleared_length [OF rbs]
  let ?u = "?t\<lparr>renderbuffer_manager := (renderbuffer_manager ?t)\<lparr>rb_objects := rbs\<rparr>\<rparr>"
  have "fb_inv ?t" by (rule fb_gls_inv [OF assms])
  then have "fb_inv ?u"
    using len entries_ids [OF ids] by (auto simp: fb_inv_def fbo_ok_def bound_in_def split: option.splits)
  then have "fb_inv (RestoreClearState P ?u)" by (rule restore_inv)
  moreover have c: "ClearUnclearedRenderbuffers P a s = Some (RestoreClearState P ?u)"
    using rbs by (simp add: ClearUnclearedRenderbuffers_def MarkAttachedRenderbuffersAsCleared_def)
  ultimately show thesis using that ClearUncleared_sync [OF c] by blast
qed

text \<open>A step on the framebuffer at \<open>a\<close>, which makes the state dirty if it is bound.\<close>

definition changes_only :: "nat \<Rightarrow> 'g FboDecoder \<Rightarrow> 'g FboDecoder \<Rightarrow> bool" where
  "changes_only a s t \<longleftrightarrow>
     same_shadow s t \<and> (\<forall>ws. issued_state ws t = issued_state ws s)
     \<and> bound_draw_framebuffer_' t = bound_draw_framebuffer_' s
     \<and> (bound_draw_framebuffer_' s \<noteq> Some a \<longrightarrow> kept s t)"

lemma changes_kept:
  assumes "changes_only a s t" "kept t u" "bound_draw_framebuffer_' u = bound_draw_framebuffer_' t"
  shows "changes_only a s u"
  using assms kept_trans [of s t u] by (auto simp: changes_only_def kept_def same_shadow_def)

lemma kept_changes:
  assumes "kept s t" "changes_only a t u" "bound_draw_framebuffer_' t = bound_draw_framebuffer_' s"
  shows "changes_only a s u"
  using assms kept_trans [of s t u] by (auto simp: changes_only_def kept_def same_shadow_def)

lemma changes_dirty: "changes_only a s t \<Longrightarrow> kept s (dirty_if_bound a t)"
  by (auto simp: changes_only_def dirty_if_bound_def intro!: keptI)
    (simp_all add: same_shadow_def set_dirty_def issued_state_def)

lemma dirty_if_bound_inv: "fb_inv s \<Longrightarrow> fb_inv (dirty_if_bound a s)"
  by (simp add: dirty_if_bound_def dirty_inv)

lemma dirty_if_bound_kept: "kept s (dirty_if_bound a s)"
  by (simp add: dirty_if_bound_def)

lemma check_complete_step:
  assumes "fb_inv s"
  shows "fb_inv (snd (check_complete P target s))" "kept s (snd (check_complete P target s))"
    "bound_draw_framebuffer_' (snd (check_complete P target s)) = bound_draw_framebuffer_' s"
proof -
  have t: "snd (check_complete P target s) = on_tex (on_tex_driver (\<lambda>d. snd (f_check_status P target d))) s"
    using driver_const [of "\<lambda>d. snd (f_check_status P target d)" s] by (simp add: check_complete_def split_beta Let_def)
  show "fb_inv (snd (check_complete P target s))" unfolding t by (rule driver_inv [OF assms check_ok])
  show "kept s (snd (check_complete P target s))"
    "bound_draw_framebuffer_' (snd (check_complete P target s)) = bound_draw_framebuffer_' s"
    unfolding t by simp_all
qed

text \<open>Asking the driver for the status, or not.\<close>

lemma maybe_checked:
  assumes "fb_inv u" "changes_only a t u" "kept s t" "bound_draw_framebuffer_' t = bound_draw_framebuffer_' s"
    and "v = u \<or> v = snd (check_complete P target u)"
  shows "fb_inv v" "changes_only a s v"
proof -
  have u: "changes_only a s u" by (rule kept_changes [OF assms(3,2,4)])
  show "fb_inv v" using assms(1,5) check_complete_step(1) by blast
  show "changes_only a s v"
    using assms(5) u changes_kept [OF u check_complete_step(2,3)] assms(1) by blast
qed

text \<open>The end of both commands: the framebuffer at \<open>a\<close> was changed, and perhaps cleared.\<close>

lemma finish_attach:
  assumes "fb_inv t" "changes_only a s t"
  shows "returns s (Option.bind (if b then ClearUnclearedRenderbuffers P a t else Some t)
    (\<lambda>s. Some (dirty_if_bound a s)))"
proof (cases b)
  case True
  obtain u where u: "ClearUnclearedRenderbuffers P a t = Some u" "fb_inv u" "\<forall>ws. in_sync ws u"
    by (rule ClearUncleared_step [OF assms(1), of a])
  then show ?thesis
    using True dirty_if_bound_inv in_sync_kept [OF dirty_if_bound_kept, of _ u a] by (simp add: returns_def step_ok_def)
next
  case False
  then show ?thesis
    using changes_dirty [OF assms(2)] dirty_if_bound_inv [OF assms(1)] by (simp add: returns_def step_kept)
qed

lemma update_fb_changes:
  assumes "fb_inv s" "framebuffer_ok (length (rb_objs s)) (length (tex_objs s)) (g (fb_objs s ! a))"
    and "Framebuffer_IsDeleted (g (fb_objs s ! a)) = Framebuffer_IsDeleted (fb_objs s ! a)"
  shows "fb_inv (update_framebuffer g a s)" "changes_only a s (update_framebuffer g a s)"
proof -
  let ?f = "g (fb_objs s ! a)"
  show "fb_inv (update_framebuffer g a s)"
    using assms set_update_subset_insert [of "fb_objs s" a ?f]
    by (auto simp: fb_inv_def fbo_ok_def update_framebuffer_def bound_in_def intro!: entries_update
        split: option.splits)
  have "kept s (update_framebuffer g a s)" if "bound_draw_framebuffer_' s \<noteq> Some a"
    by (rule kept_viewsI)
      (use that in \<open>auto simp: update_framebuffer_def same_shadow_def issued_state_def fb_color_format_def\<close>)
  then show "changes_only a s (update_framebuffer g a s)"
    by (simp add: changes_only_def same_shadow_def issued_state_def update_framebuffer_def)
qed

lemma fb_ok_at: "fb_inv s \<Longrightarrow> a < length (fb_objs s) \<Longrightarrow> framebuffer_ok (length (rb_objs s)) (length (tex_objs s)) (fb_objs s ! a)"
  by (simp add: fb_inv_def fbo_ok_def)

lemma attach_renderbuffer_step:
  assumes "fb_inv s" "a < length (fb_objs s)" "\<And>r. info = Some r \<Longrightarrow> r < length (rb_objs s)"
  shows "returns s (attach_renderbuffer P target k rt info sid a s)"
proof -
  obtain b t where t: "checked_call P (glFramebufferRenderbufferEXT target k rt sid) s = Some (b, t)"
      "fb_inv t" "kept s t" "same_objects s t" "texture_manager (tex t) = texture_manager (tex s)"
    by (rule checked_call_step [OF assms(1), of "glFramebufferRenderbufferEXT target k rt sid"]) simp
  show ?thesis
  proof (cases b)
    case False
    then show ?thesis
      using t dirty_if_bound_inv kept_trans [OF t(3) dirty_if_bound_kept]
      by (simp add: attach_renderbuffer_def returns_def step_kept)
  next
    case True
    let ?u = "update_framebuffer (AttachRenderbuffer k info) a t"
    let ?p = "if sid = 0 then (True, ?u) else check_complete P target ?u"
    have objs: "fb_objs t = fb_objs s" "rb_objs t = rb_objs s" using t(4) by (simp_all add: same_objects_def)
    have u: "fb_inv ?u" "changes_only a t ?u"
      using update_fb_changes [OF t(2), of "AttachRenderbuffer k info" a]
        AttachRenderbuffer_ok [OF fb_ok_at [OF t(2)], of a info k] assms(2,3) objs
      by (simp_all add: AttachRenderbuffer_def Framebuffer_IsDeleted_def split: option.split)
    have "snd ?p = ?u \<or> snd ?p = snd (check_complete P target ?u)" by simp
    note v = maybe_checked [OF u t(3) _ this]
    have bound: "bound_draw_framebuffer_' t = bound_draw_framebuffer_' s" using t(4) by (simp add: same_objects_def)
    show ?thesis
      using finish_attach [OF v [OF bound], of "fst ?p \<and> info \<noteq> None"] True t(1)
      by (simp add: attach_renderbuffer_def split_beta Let_def)
  qed
qed

lemma DoFramebufferRenderbuffer_step:
  assumes "fb_inv s"
  shows "returns s (DoFramebufferRenderbuffer P target k rt i s)"
proof (cases "GetFramebufferInfoForTarget target s")
  case None
  then show ?thesis using error_step [OF assms] by (simp add: DoFramebufferRenderbuffer_def returnsI)
next
  case (Some a)
  then have "a < length (fb_objs s)"
    using assms by (auto simp: GetFramebufferInfoForTarget_def fb_inv_def fbo_ok_def split: option.splits if_splits)
  then have step: "returns s (attach_renderbuffer P target k rt info sid a s)"
    if "\<And>r. info = Some r \<Longrightarrow> r < length (rb_objs s)" for info sid
    using that by (rule attach_renderbuffer_step [OF assms])
  show ?thesis
    using Some step [of None] step [of "Some r" for r] error_step [OF assms] lookup_rb(2) [OF assms, of i]
    by (simp add: DoFramebufferRenderbuffer_def returnsI split: option.split)
qed

text \<open>The count of a texture does not matter here, but it belongs to the texture manager.\<close>

lemma inv_flag:
  "inv t \<Longrightarrow> a < length (tex_objects (texture_manager t)) \<Longrightarrow> flag_change f \<Longrightarrow>
    inv (t\<lparr>texture_manager := change_object a f (texture_manager t)\<rparr>)"
  by (intro inv_manager tex_step.flag)

lemma attach_counts:
  assumes "inv t" "\<And>a. info = Some a \<Longrightarrow> a < length (tex_objects (texture_manager t))"
  shows "inv (t\<lparr>texture_manager := (texture_manager t)\<lparr>tex_objects :=
    fst (AttachTexture k info target level (tex_objects (texture_manager t)) f)\<rparr>\<rparr>)"
proof (cases info)
  case None
  then show ?thesis using assms(1) by (simp add: AttachTexture_def Let_def split: option.split)
next
  case (Some a)
  note a = assms(2) [OF Some]
  have flags: "flag_change AttachToFramebuffer" "flag_change DetachFromFramebuffer"
    by (simp_all add: flag_change_def)
  have once: "inv (t\<lparr>texture_manager := change_object a AttachToFramebuffer (texture_manager t)\<rparr>)"
    by (rule inv_flag [OF assms(1) a flags(1)])
  let ?t = "t\<lparr>texture_manager := change_object a DetachFromFramebuffer (texture_manager t)\<rparr>"
  have "inv (?t\<lparr>texture_manager := change_object a AttachToFramebuffer (texture_manager ?t)\<rparr>)"
    by (rule inv_flag [OF inv_flag [OF assms(1) a flags(2)] _ flags(1)]) (simp add: change_object_def a)
  then show ?thesis
    using once Some by (simp add: AttachTexture_def update_texture_def change_object_def Let_def split: option.split)
qed

lemma attach_keeps_image:
  "level_infos_' (fst (AttachTexture k info target level ts f) ! t) = level_infos_' (ts ! t)
    \<and> deleted_' (fst (AttachTexture k info target level ts f) ! t) = deleted_' (ts ! t)"
proof -
  have "level_infos_' (us[a := g (us ! a)] ! t) = level_infos_' (us ! t)
      \<and> deleted_' (us[a := g (us ! a)] ! t) = deleted_' (us ! t)"
    if "g = AttachToFramebuffer \<or> g = DetachFromFramebuffer" for g a us
  proof (cases "a = t \<and> t < length us")
    case False
    then have "us[a := g (us ! a)] ! t = us ! t" by (cases "a = t") (simp_all add: list_update_beyond)
    then show ?thesis by simp
  qed (use that in \<open>auto simp: AttachToFramebuffer_def DetachFromFramebuffer_def\<close>)
  then show ?thesis by (simp add: AttachTexture_def update_texture_def Let_def split: option.split)
qed

lemma attach_object_changes:
  assumes "fb_inv s" "a < length (fb_objs s)" "\<And>t. info = Some t \<Longrightarrow> t < length (tex_objs s)"
  shows "fb_inv (attach_texture_object k info target level a s)"
    "changes_only a s (attach_texture_object k info target level a s)"
proof -
  let ?A = "AttachTexture k info target level (tex_objs s) (fb_objs s ! a)"
  let ?u = "update_framebuffer (\<lambda>_. snd ?A) a s"
  let ?v = "attach_texture_object k info target level a s"
  let ?w = "\<lambda>t. t\<lparr>texture_manager := (texture_manager t)\<lparr>tex_objects := fst ?A\<rparr>\<rparr>"
  have v: "?v = on_tex ?w ?u"
    by (simp add: attach_texture_object_def split_beta)
  have u: "fb_inv ?u" "changes_only a s ?u"
    using update_fb_changes [OF assms(1), of "\<lambda>_. snd ?A" a] AttachTexture_ok [OF fb_ok_at [OF assms(1,2)] assms(3)]
    by (simp_all add: AttachTexture_def Framebuffer_IsDeleted_def Let_def split: option.split)
  have t: "tex ?u = tex s" by (simp add: update_framebuffer_def)
  have "inv (?w (tex s))" using attach_counts [OF _ assms(3)] assms(1) by (simp add: fb_inv_def)
  then show "fb_inv ?v"
    using u(1) AttachTexture_length [of k info target level "tex_objs s" "fb_objs s ! a"]
    unfolding v by (simp add: fb_inv_def fbo_ok_def t)
  have "kept ?u ?v"
    unfolding v
    by (rule kept_viewsI) (auto simp: same_shadow_def issued_state_def fb_color_format_def t attach_keeps_image
        intro!: color_format_cong fb_format_ok(2) [OF u(1), unfolded t])
  then show "changes_only a s ?v" by (rule changes_kept [OF u(2)]) (simp add: v)
qed

lemma attach_texture_step:
  assumes "fb_inv s" "a < length (fb_objs s)" "\<And>t. info = Some t \<Longrightarrow> t < length (tex_objs s)"
  shows "returns s (attach_texture P target k tt info sid level a s)"
proof -
  obtain b t where t: "checked_call P (glFramebufferTexture2DEXT target k tt sid level) s = Some (b, t)"
      "fb_inv t" "kept s t" "same_objects s t" "texture_manager (tex t) = texture_manager (tex s)"
    by (rule checked_call_step [OF assms(1), of "glFramebufferTexture2DEXT target k tt sid level"]) simp
  show ?thesis
  proof (cases b)
    case False
    then show ?thesis
      using t dirty_if_bound_inv kept_trans [OF t(3) dirty_if_bound_kept]
      by (simp add: attach_texture_def returns_def step_kept)
  next
    case True
    let ?u = "attach_texture_object k info tt level a t"
    let ?p = "if sid \<noteq> 0 then check_complete P target ?u else (False, ?u)"
    have u: "fb_inv ?u" "changes_only a t ?u"
      using attach_object_changes [OF t(2), of a info] assms(2,3) t(4,5) by (simp_all add: same_objects_def)
    have "snd ?p = ?u \<or> snd ?p = snd (check_complete P target ?u)" by simp
    note v = maybe_checked [OF u t(3) _ this]
    have bound: "bound_draw_framebuffer_' t = bound_draw_framebuffer_' s" using t(4) by (simp add: same_objects_def)
    show ?thesis
      using finish_attach [OF v [OF bound], of "fst ?p"] True t(1)
      by (simp add: attach_texture_def split_beta Let_def)
  qed
qed

lemma DoFramebufferTexture2D_step:
  assumes "fb_inv s"
  shows "returns s (DoFramebufferTexture2D P target k tt i level s)"
proof (cases "GetFramebufferInfoForTarget target s")
  case None
  then show ?thesis using error_step [OF assms] by (simp add: DoFramebufferTexture2D_def returnsI)
next
  case (Some a)
  then have "a < length (fb_objs s)"
    using assms by (auto simp: GetFramebufferInfoForTarget_def fb_inv_def fbo_ok_def split: option.splits if_splits)
  moreover have "t < length (tex_objs s)" if "Decoder_GetTextureInfo i (tex s) = Some t" for t
    using that inv_lookup(1) [of "tex s" i t] decoder_lookup [of "tex s" i] assms by (simp add: fb_inv_def)
  ultimately have step: "returns s (attach_texture P target k tt None 0 level a s)"
      "Decoder_GetTextureInfo i (tex s) = Some t \<Longrightarrow> returns s (attach_texture P target k tt (Some t) sid level a s)"
    for t sid by (auto intro!: attach_texture_step [OF assms])
  show ?thesis
    using Some step error_step [OF assms]
    by (simp add: DoFramebufferTexture2D_def returnsI split: option.split)
qed

section \<open>Storage and blits\<close>

lemma set_info_inv:
  "fb_inv s \<Longrightarrow> r < length (rb_objs s) \<Longrightarrow> fb_inv (update_renderbuffer (Renderbuffer_SetInfo k fmt w h) r s)"
  by (rule update_rb_inv) (simp_all add: Renderbuffer_SetInfo_def Renderbuffer_IsDeleted_def)

lemma set_info_kept:
  assumes "fb_inv s" "bound_renderbuffer_' s = Some r" "storage_keeps_alpha fmt s"
  shows "kept s (update_renderbuffer (Renderbuffer_SetInfo k fmt w h) r s)"
proof -
  let ?s = "update_renderbuffer (Renderbuffer_SetInfo k fmt w h) r s"
  have r: "r < length (rb_objs s)" using assms(1,2) by (simp add: fb_inv_def fbo_ok_def)
  have views: "HasDepthAttachment (fb_objs ?s ! a) = HasDepthAttachment (fb_objs s ! a)"
    "HasStencilAttachment (fb_objs ?s ! a) = HasStencilAttachment (fb_objs s ! a)" for a
    by (simp_all add: update_renderbuffer_def)
  have alpha: "has_alpha (fb_color_format a ?s) = has_alpha (fb_color_format a s)"
    if a: "bound_draw_framebuffer_' s = Some a" for a
  proof (cases "map_of (attachments_' (fb_objs s ! a)) GL_COLOR_ATTACHMENT0")
    case None
    then show ?thesis by (simp add: fb_color_format_def GetColorAttachmentFormat_def update_renderbuffer_def)
  next
    case (Some att)
    then show ?thesis
      using assms(2,3) a r
      by (cases att) (auto simp: fb_color_format_def GetColorAttachmentFormat_def update_renderbuffer_def
          Renderbuffer_SetInfo_def storage_keeps_alpha_def nth_list_update)
  qed
  have "bound_views ?s = bound_views s"
    using alpha views
    by (cases "bound_draw_framebuffer_' s")
      (simp_all add: bound_views_def BoundFramebufferHasColorAttachmentWithAlpha_def
        BoundFramebufferHasDepthAttachment_def BoundFramebufferHasStencilAttachment_def
        GetBoundDrawFrameBufferInternalFormat_def surface_format_def update_renderbuffer_def cong: option.case_cong)
  then show ?thesis
    by (simp add: kept_def same_boundI same_shadow_def issued_state_def update_renderbuffer_def)
qed

lemma storage_keeps_cong: "same_objects s t \<Longrightarrow> storage_keeps_alpha fmt t = storage_keeps_alpha fmt s"
  by (simp add: storage_keeps_alpha_def same_objects_def cong: option.case_cong)

text \<open>The two storage commands: they return in any case, and keep the write state in step if the alpha
  channel stays.\<close>

definition returns_if :: "bool \<Rightarrow> 'g FboDecoder \<Rightarrow> 'g FboDecoder option \<Rightarrow> bool" where
  "returns_if c s r \<longleftrightarrow> (\<exists>s'. r = Some s' \<and> fb_inv s' \<and> (c \<longrightarrow> step_ok s s'))"

lemma returns_ifI: "returns s r \<Longrightarrow> returns_if c s r"
  by (auto simp: returns_def returns_if_def dest: step_inv)

lemma stored:
  assumes "fb_inv t" "kept s t" "same_objects s t" "bound_renderbuffer_' t = Some r"
  shows "returns_if (storage_keeps_alpha fmt s) s (Some (update_renderbuffer (Renderbuffer_SetInfo k fmt w h) r t))"
proof -
  have "r < length (rb_objs t)" using assms(1,4) by (simp add: fb_inv_def fbo_ok_def)
  then have i: "fb_inv (update_renderbuffer (Renderbuffer_SetInfo k fmt w h) r t)" by (rule set_info_inv [OF assms(1)])
  have "step_ok s (update_renderbuffer (Renderbuffer_SetInfo k fmt w h) r t)" if "storage_keeps_alpha fmt s"
    using step_kept [OF i kept_trans [OF assms(2) set_info_kept [OF assms(1,4)]]] storage_keeps_cong [OF assms(3)] that
    by simp
  then show ?thesis using i by (simp add: returns_if_def)
qed

lemma DoRenderbufferStorage_step:
  assumes "fb_inv s"
  shows "returns_if (storage_keeps_alpha fmt s) s (DoRenderbufferStorage P target fmt w h s)"
proof (cases "bound_renderbuffer_' s")
  case None
  then show ?thesis
    using returns_ifI [OF returnsI [OF error_step [OF assms]]] by (simp add: DoRenderbufferStorage_def)
next
  case (Some r)
  obtain b t where t: "checked_call P (glRenderbufferStorageEXT target (impl_format P fmt) w h) s = Some (b, t)"
      "fb_inv t" "kept s t" "same_objects s t"
    by (rule checked_call_step [OF assms, of "glRenderbufferStorageEXT target (impl_format P fmt) w h"]) simp
  have r: "bound_renderbuffer_' t = Some r" using t(4) Some by (simp add: same_objects_def)
  show ?thesis
    using Some t(1) stored [OF t(2-4) r] returns_ifI [OF returnsI [OF step_kept [OF t(2,3)]]]
    by (simp add: DoRenderbufferStorage_def)
qed

lemma DoRenderbufferStorageMultisample_step:
  assumes "fb_inv s" "bound_renderbuffer_' s \<noteq> None \<or> multisample_refused P target k fmt w h s"
  shows "returns_if (storage_keeps_alpha fmt s) s (DoRenderbufferStorageMultisample P target k fmt w h s)"
proof -
  let ?c = "glRenderbufferStorageMultisample (f_is_angle P) target k (impl_format P fmt) w h"
  obtain b t where t: "checked_call P ?c s = Some (b, t)" "fb_inv t" "kept s t" "same_objects s t"
    by (rule checked_call_step [OF assms(1), of ?c]) simp
  note refused = returns_ifI [OF returnsI [OF step_kept [OF t(2,3)]]] returns_ifI [OF returnsI [OF error_step [OF assms(1)]]]
  show ?thesis
  proof (cases b)
    case True
    then obtain r where r: "bound_renderbuffer_' t = Some r"
      using t(1,4) assms(2) by (auto simp: same_objects_def multisample_refused_def)
    show ?thesis using t(1) r stored [OF t(2-4) r] refused by (simp add: DoRenderbufferStorageMultisample_def)
  qed (use t(1) refused in \<open>simp add: DoRenderbufferStorageMultisample_def\<close>)
qed

lemma DoBlitFramebufferEXT_step: "fb_inv s \<Longrightarrow> step_ok s (DoBlitFramebufferEXT P src dst bits mode s)"
  using fb_gl_step [of s "glBlitFramebuffer (f_is_angle P) src dst bits mode"]
    step_trans [OF error_step fb_gl_step [OF error_inv]]
  by (simp add: DoBlitFramebufferEXT_def Let_def)

section \<open>Clears and the client's state\<close>

lemma apply_inv: "fb_inv s \<Longrightarrow> fb_inv (ApplyDirtyState P s)"
proof -
  assume s: "fb_inv s"
  have "fb_inv (on_tex (\<lambda>t. t\<lparr>state_dirty_' := False\<rparr>) (fb_gls P (dirty_calls s) s))"
    by (rule inv_same [OF fb_gls_inv [OF s]]) auto
  then show ?thesis using s by (simp add: ApplyDirtyState_def)
qed

lemma complete_inv: "fb_inv s \<Longrightarrow> fb_inv (snd (Fbo_CheckFramebufferComplete f s))"
  by (simp add: Fbo_CheckFramebufferComplete_def error_inv split: option.split)

lemma DoClear_step:
  assumes "fb_inv s"
  shows "step_ok s (DoClear P bits s)"
proof -
  have "fb_inv (DoClear P bits s)"
    using complete_inv [OF assms, of "''glClear''"] fb_gl_inv [OF apply_inv]
    by (cases "Fbo_CheckFramebufferComplete ''glClear'' s") (simp add: DoClear_def)
  then show ?thesis unfolding step_ok_def using DoClear_sync by blast
qed

lemma shadow_inv:
  assumes "fb_inv s"
  shows "fb_inv (DoClearColor P r g b a s)" "fb_inv (DoClearDepthf P d s)" "fb_inv (DoClearStencil P x s)"
    "fb_inv (DoColorMask cr cg cb ca s)" "fb_inv (DoDepthMask e s)" "fb_inv (DoStencilMask k s)"
    "fb_inv (DoStencilMaskSeparate face k s)" "fb_inv (DoEnable P cap s)" "fb_inv (DoDisable P cap s)"
proof -
  have objs: "same_objects s t \<Longrightarrow> tex t = tex s \<Longrightarrow> fb_inv t" for t
    using inv_same [OF assms, of t] by simp
  show "fb_inv (DoClearColor P r g b a s)" "fb_inv (DoClearDepthf P d s)" "fb_inv (DoClearStencil P x s)"
    "fb_inv (DoColorMask cr cg cb ca s)" "fb_inv (DoDepthMask e s)" "fb_inv (DoStencilMask k s)"
    "fb_inv (DoStencilMaskSeparate face k s)" "fb_inv (DoEnable P cap s)" "fb_inv (DoDisable P cap s)"
    using assms
    by (auto simp: DoClearColor_def DoClearDepthf_def DoClearStencil_def DoColorMask_def DoDepthMask_def
        DoStencilMask_def DoStencilMaskSeparate_def DoEnable_def DoDisable_def SetCapabilityState_def Let_def
        intro!: fb_gl_inv dirty_inv objs) (simp_all add: same_objects_def)
qed

lemma shadow_steps:
  assumes "fb_inv s"
  shows "step_ok s (DoClearColor P r g b a s)" "step_ok s (DoClearDepthf P d s)" "step_ok s (DoClearStencil P x s)"
    "step_ok s (DoColorMask cr cg cb ca s)" "step_ok s (DoDepthMask e s)" "step_ok s (DoStencilMask k s)"
    "step_ok s (DoStencilMaskSeparate face k s)" "step_ok s (DoEnable P cap s)" "step_ok s (DoDisable P cap s)"
  using shadow_inv [OF assms] set_clears_sync set_masks_sync capability_sync by (auto simp: step_ok_def)

end

end
