(* ===== verification/Framebuffer_Reachable.thy ===== *)
theory Framebuffer_Reachable
  imports Framebuffer_Safety
begin

text \<open>
  The commands on framebuffers, renderbuffers and write masks as one step function, the start of the
  decoder, and what holds after any sequence of commands. The memory (\<open>w\<close>) and the data behind a command
  (\<open>imm\<close>) belong to the client and may change arbitrarily between two commands.

  The textures may change between two commands by any steps of the texture manager that follow its
  contract; by \<open>Texture_Safety\<close> these are all steps of the texture commands. The managers belong to the
  context group; here the decoder is the only one of its group that uses framebuffers and renderbuffers.
\<close>

section \<open>The commands\<close>

datatype fb_cmd =
    GenFramebuffers GLsizei uint32 uint32
  | GenFramebuffersImmediate GLsizei
  | GenRenderbuffers GLsizei uint32 uint32
  | GenRenderbuffersImmediate GLsizei
  | DeleteFramebuffers GLsizei uint32 uint32
  | DeleteFramebuffersImmediate GLsizei
  | DeleteRenderbuffers GLsizei uint32 uint32
  | DeleteRenderbuffersImmediate GLsizei
  | BindFramebuffer GLenum GLuint
  | BindRenderbuffer GLenum GLuint
  | FramebufferRenderbuffer GLenum GLenum GLenum GLuint
  | FramebufferTexture2D GLenum GLenum GLenum GLuint GLint
  | RenderbufferStorage GLenum GLenum GLsizei GLsizei
  | RenderbufferStorageMultisampleEXT GLenum GLsizei GLenum GLsizei GLsizei
  | BlitFramebufferEXT "GLint list" "GLint list" GLenum GLenum
  | Clear GLenum
  | ClearColor GLfloat GLfloat GLfloat GLfloat
  | ClearDepthf GLfloat
  | ClearStencil GLint
  | ColorMask bool bool bool bool
  | DepthMask bool
  | StencilMask GLuint
  | StencilMaskSeparate GLenum GLuint
  | Enable GLenum
  | Disable GLenum

fun run_fb_cmd ::
  "'g FboApi \<Rightarrow> 'a decoder_world_scheme \<Rightarrow> byte list \<Rightarrow> fb_cmd \<Rightarrow> 'g FboDecoder \<Rightarrow> (Error \<times> 'g FboDecoder) option" where
  "run_fb_cmd P w imm (GenFramebuffers n i off) s = Some (HandleGenFramebuffers P w n i off s)"
| "run_fb_cmd P w imm (GenFramebuffersImmediate n) s = Some (HandleGenFramebuffersImmediate P imm n s)"
| "run_fb_cmd P w imm (GenRenderbuffers n i off) s = Some (HandleGenRenderbuffers P w n i off s)"
| "run_fb_cmd P w imm (GenRenderbuffersImmediate n) s = Some (HandleGenRenderbuffersImmediate P imm n s)"
| "run_fb_cmd P w imm (DeleteFramebuffers n i off) s = Some (HandleDeleteFramebuffers P w n i off s)"
| "run_fb_cmd P w imm (DeleteFramebuffersImmediate n) s = Some (HandleDeleteFramebuffersImmediate P imm n s)"
| "run_fb_cmd P w imm (DeleteRenderbuffers n i off) s = Some (HandleDeleteRenderbuffers P w n i off s)"
| "run_fb_cmd P w imm (DeleteRenderbuffersImmediate n) s = Some (HandleDeleteRenderbuffersImmediate P imm n s)"
| "run_fb_cmd P w imm (BindFramebuffer t i) s = HandleBindFramebuffer P t i s"
| "run_fb_cmd P w imm (BindRenderbuffer t i) s = HandleBindRenderbuffer P t i s"
| "run_fb_cmd P w imm (FramebufferRenderbuffer t k rt i) s = HandleFramebufferRenderbuffer P t k rt i s"
| "run_fb_cmd P w imm (FramebufferTexture2D t k tt i l) s = HandleFramebufferTexture2D P t k tt i l s"
| "run_fb_cmd P w imm (RenderbufferStorage t f wd h) s = HandleRenderbufferStorage P t f wd h s"
| "run_fb_cmd P w imm (RenderbufferStorageMultisampleEXT t k f wd h) s =
     HandleRenderbufferStorageMultisampleEXT P t k f wd h s"
| "run_fb_cmd P w imm (BlitFramebufferEXT src dst bits mode) s = Some (HandleBlitFramebufferEXT P src dst bits mode s)"
| "run_fb_cmd P w imm (Clear bits) s = Some (HandleClear P bits s)"
| "run_fb_cmd P w imm (ClearColor r g b a) s = Some (HandleClearColor P r g b a s)"
| "run_fb_cmd P w imm (ClearDepthf d) s = Some (HandleClearDepthf P d s)"
| "run_fb_cmd P w imm (ClearStencil x) s = Some (HandleClearStencil P x s)"
| "run_fb_cmd P w imm (ColorMask r g b a) s = Some (HandleColorMask r g b a s)"
| "run_fb_cmd P w imm (DepthMask d) s = Some (HandleDepthMask d s)"
| "run_fb_cmd P w imm (StencilMask k) s = Some (HandleStencilMask k s)"
| "run_fb_cmd P w imm (StencilMaskSeparate face k) s = Some (HandleStencilMaskSeparate face k s)"
| "run_fb_cmd P w imm (Enable cap) s = Some (HandleEnable P cap s)"
| "run_fb_cmd P w imm (Disable cap) s = Some (HandleDisable P cap s)"

text \<open>With no renderbuffer bound, the code leaves it to the driver to refuse multisampled storage: if the
  driver accepts it, the handler follows a null pointer.\<close>

fun fb_cmd_ok :: "'g FboApi \<Rightarrow> fb_cmd \<Rightarrow> 'g FboDecoder \<Rightarrow> bool" where
  "fb_cmd_ok P (RenderbufferStorageMultisampleEXT t k f wd h) s \<longleftrightarrow>
     bound_renderbuffer_' s \<noteq> None \<or> multisample_refused P t k f wd h s"
| "fb_cmd_ok P _ s \<longleftrightarrow> True"

text \<open>New storage for a color buffer in use may add or remove the alpha channel without making the state
  dirty. Commands that do not:\<close>

fun keeps_alpha :: "fb_cmd \<Rightarrow> 'g FboDecoder \<Rightarrow> bool" where
  "keeps_alpha (RenderbufferStorageMultisampleEXT t k f wd h) s \<longleftrightarrow> storage_keeps_alpha f s"
| "keeps_alpha (RenderbufferStorage t f wd h) s \<longleftrightarrow> storage_keeps_alpha f s"
| "keeps_alpha _ s \<longleftrightarrow> True"

context fbo_api
begin

lemma gen_delete_steps:
  assumes "fb_inv s"
  shows "step_ok s (snd (HandleGenFramebuffers P w n i off s))" "step_ok s (snd (HandleGenFramebuffersImmediate P imm n s))"
    "step_ok s (snd (HandleGenRenderbuffers P w n i off s))" "step_ok s (snd (HandleGenRenderbuffersImmediate P imm n s))"
    "step_ok s (snd (HandleDeleteFramebuffers P w n i off s))"
    "step_ok s (snd (HandleDeleteFramebuffersImmediate P imm n s))"
    "step_ok s (snd (HandleDeleteRenderbuffers P w n i off s))"
    "step_ok s (snd (HandleDeleteRenderbuffersImmediate P imm n s))"
  using assms
  by (simp_all add: HandleGenFramebuffers_def HandleGenFramebuffersImmediate_def HandleGenRenderbuffers_def
      HandleGenRenderbuffersImmediate_def HandleDeleteFramebuffers_def HandleDeleteFramebuffersImmediate_def
      HandleDeleteRenderbuffers_def HandleDeleteRenderbuffersImmediate_def handle_gen_step handle_delete_step
      GenFramebuffersHelper_step GenRenderbuffersHelper_step DeleteFramebuffersHelper_step DeleteRenderbuffersHelper_step)

lemma returns_error: "fb_inv s \<Longrightarrow> \<exists>e s'. Some (kNoError, fb_error g msg s) = Some (e, s') \<and> step_ok s s'"
  by (simp add: error_step)

lemma returns_map: "returns s r \<Longrightarrow> \<exists>e s'. map_option (Pair kNoError) r = Some (e, s') \<and> step_ok s s'"
  by (auto simp: returns_def)

lemma object_steps:
  assumes "fb_inv s"
  shows "\<exists>e s'. HandleBindFramebuffer P t i s = Some (e, s') \<and> step_ok s s'"
    "\<exists>e s'. HandleBindRenderbuffer P t i s = Some (e, s') \<and> step_ok s s'"
    "\<exists>e s'. HandleFramebufferRenderbuffer P t k rt i s = Some (e, s') \<and> step_ok s s'"
    "\<exists>e s'. HandleFramebufferTexture2D P t k tt i l s = Some (e, s') \<and> step_ok s s'"
  using returns_map [OF DoBindFramebuffer_step [OF assms, of t i]] returns_map [OF DoBindRenderbuffer_step [OF assms, of t i]]
    returns_map [OF DoFramebufferRenderbuffer_step [OF assms, of t k rt i]]
    returns_map [OF DoFramebufferTexture2D_step [OF assms, of t k tt i l]] returns_error [OF assms]
  by (simp_all add: HandleBindFramebuffer_def HandleBindRenderbuffer_def HandleFramebufferRenderbuffer_def
      HandleFramebufferTexture2D_def Let_def)

lemma storage_steps:
  assumes "fb_inv s"
  shows "\<exists>e s'. HandleRenderbufferStorage P t f wd h s = Some (e, s') \<and> fb_inv s'
      \<and> (storage_keeps_alpha f s \<longrightarrow> step_ok s s')"
    "bound_renderbuffer_' s \<noteq> None \<or> multisample_refused P t k f wd h s \<Longrightarrow>
      \<exists>e s'. HandleRenderbufferStorageMultisampleEXT P t k f wd h s = Some (e, s')
      \<and> fb_inv s' \<and> (storage_keeps_alpha f s \<longrightarrow> step_ok s s')"
  using DoRenderbufferStorage_step [OF assms, of f t wd h] DoRenderbufferStorageMultisample_step [OF assms, of t k f wd h]
    error_step [OF assms] error_inv [OF assms]
  by (auto simp: HandleRenderbufferStorage_def HandleRenderbufferStorageMultisampleEXT_def returns_if_def split: option.split)

lemma state_steps:
  assumes "fb_inv s"
  shows "step_ok s (snd (HandleBlitFramebufferEXT P src dst bits mode s))" "step_ok s (snd (HandleClear P bits s))"
    "step_ok s (snd (HandleClearColor P r g b a s))" "step_ok s (snd (HandleClearDepthf P d s))"
    "step_ok s (snd (HandleClearStencil P x s))" "step_ok s (snd (HandleColorMask cr cg cb ca s))"
    "step_ok s (snd (HandleDepthMask e s))" "step_ok s (snd (HandleStencilMask k s))"
    "step_ok s (snd (HandleStencilMaskSeparate face k s))" "step_ok s (snd (HandleEnable P cap s))"
    "step_ok s (snd (HandleDisable P cap s))"
  using shadow_steps [OF assms] DoClear_step [OF assms] DoBlitFramebufferEXT_step [OF assms] error_step [OF assms]
  by (simp_all add: HandleBlitFramebufferEXT_def HandleClear_def HandleClearColor_def HandleClearDepthf_def
      HandleClearStencil_def HandleColorMask_def HandleDepthMask_def HandleStencilMask_def
      HandleStencilMaskSeparate_def HandleEnable_def HandleDisable_def)

lemma pair_step: "step_ok s (snd r) \<Longrightarrow> \<exists>e s'. r = (e, s') \<and> fb_inv s' \<and> step_ok s s'"
  using step_inv by (cases r) auto

lemma some_step: "\<exists>e s'. r = Some (e, s') \<and> step_ok s s' \<Longrightarrow> \<exists>e s'. r = Some (e, s') \<and> fb_inv s' \<and> step_ok s s'"
  using step_inv by blast

lemma run_fb_cmd_step:
  assumes "fb_inv s" "fb_cmd_ok P c s"
  shows "\<exists>e s'. run_fb_cmd P w imm c s = Some (e, s') \<and> fb_inv s' \<and> (keeps_alpha c s \<longrightarrow> step_ok s s')"
  using assms storage_steps [OF assms(1)]
  by (cases c) (simp_all add: pair_step some_step gen_delete_steps object_steps state_steps del: not_None_eq)

end

section \<open>Reachable states\<close>

text \<open>The constructor, for a decoder \<open>t\<close> of textures; the surface and the limits come from outside.\<close>

definition FboDecoder_new ::
  "'g TexDecoder \<Rightarrow> GLint \<Rightarrow> OffscreenTarget option \<Rightarrow> GLenum \<Rightarrow> bool \<Rightarrow> bool \<Rightarrow> 'g FboDecoder" where
  "FboDecoder_new t max_size offscreen color_format has_depth has_stencil =
     \<lparr>tex = t, renderbuffer_manager = RenderbufferManager_new max_size, framebuffer_manager = FramebufferManager_new,
      framebuffer_ids = \<lparr>used_ids = {}, free_ids = {}\<rparr>, renderbuffer_ids = \<lparr>used_ids = {}, free_ids = {}\<rparr>,
      bound_draw_framebuffer_' = None, bound_read_framebuffer_' = None, bound_renderbuffer_' = None,
      offscreen_target_' = offscreen, back_buffer_color_format_' = color_format,
      back_buffer_has_depth_' = has_depth, back_buffer_has_stencil_' = has_stencil,
      clear_color_' = (0, 0, 0, 0), clear_stencil_' = 0, clear_depth_' = float_one,
      mask_color_' = (True, True, True, True), mask_depth_' = True, mask_stencil_front_' = - 1,
      mask_stencil_back_' = - 1, enable_scissor_test_' = False, enable_depth_test_' = False,
      enable_stencil_test_' = False, fbo_issued = []\<rparr>"

text \<open>The initial values of a GL context.\<close>

definition gl_initial :: WriteState where
  "gl_initial =
     \<lparr>ws_color = (True, True, True, True), ws_depth = True, ws_front = - 1, ws_back = - 1, ws_depth_test = False,
      ws_stencil_test = False, ws_scissor = False, ws_clear_color = (0, 0, 0, 0), ws_clear_stencil = 0,
      ws_clear_depth = float_one\<rparr>"

text \<open>With the flag, steps that change the alpha channel of the bound framebuffer without making the state
  dirty are left out.\<close>

inductive fb_reachable :: "'g TexApi \<Rightarrow> ('g \<Rightarrow> bool) \<Rightarrow> 'g FboApi \<Rightarrow> bool \<Rightarrow> 'g FboDecoder \<Rightarrow> bool"
  for T okd P strict where
  start: "tex_decoder_reachable T okd t \<Longrightarrow> state_dirty_' t \<Longrightarrow>
    fb_reachable T okd P strict (FboDecoder_new t max_size offscreen color_format has_depth has_stencil)"
| step: "fb_reachable T okd P strict s \<Longrightarrow> fb_cmd_ok P c s \<Longrightarrow> (strict \<longrightarrow> keeps_alpha c s) \<Longrightarrow>
    run_fb_cmd P (w :: decoder_world) imm c s = Some (e, s') \<Longrightarrow> fb_reachable T okd P strict s'"
| textures: "fb_reachable T okd P strict s \<Longrightarrow>
    tex_step (texture_features (tex s)) (texture_manager (tex s)) m \<Longrightarrow>
    (strict \<longrightarrow> state_dirty_' (tex s) \<or> same_bound s (on_tex (\<lambda>t. t\<lparr>texture_manager := m\<rparr>) s)) \<Longrightarrow>
    fb_reachable T okd P strict (on_tex (\<lambda>t. t\<lparr>texture_manager := m\<rparr>) s)"
| other: "fb_reachable T okd P strict s \<Longrightarrow> same_textures (tex s) t \<Longrightarrow> okd (driver t) \<Longrightarrow>
    (state_dirty_' (tex s) \<longrightarrow> state_dirty_' t) \<Longrightarrow> fb_reachable T okd P strict (s\<lparr>tex := t\<rparr>)"

context fbo_api
begin

lemma new_ok: "fbo_ok (FboDecoder_new t ms off f d st)"
  by (simp add: fbo_ok_def FboDecoder_new_def RenderbufferManager_new_def FramebufferManager_new_def entries_ok_def)

lemma new_sync: "state_dirty_' t \<Longrightarrow> in_sync gl_initial (FboDecoder_new t ms off f d st)"
  by (rule in_sync_dirty) (simp_all add: FboDecoder_new_def issued_state_def same_clears_def wanted_def gl_initial_def Let_def)

lemma textures_inv:
  assumes "fb_inv s" "tex_step (texture_features (tex s)) (texture_manager (tex s)) m"
  shows "fb_inv (on_tex (\<lambda>t. t\<lparr>texture_manager := m\<rparr>) s)"
proof -
  have "inv ((tex s)\<lparr>texture_manager := m\<rparr>)" using assms by (simp add: fb_inv_def inv_manager)
  moreover have "length (tex_objs s) \<le> length (tex_objects m)"
    using tex_step_grows [OF assms(2)] by (simp add: tex_grows_def)
  ultimately show ?thesis using assms(1) framebuffer_ok_mono by (fastforce simp: fb_inv_def fbo_ok_def)
qed

lemma reachable_inv_sync:
  assumes "fb_reachable T ok P strict s"
  shows "fb_inv s \<and> (strict \<longrightarrow> in_sync gl_initial s)"
  using assms
proof (induction rule: fb_reachable.induct)
  case (start t ms off f d st)
  then have "inv t" by (intro reachable_inv)
  moreover have "tex (FboDecoder_new t ms off f d st) = t" by (simp add: FboDecoder_new_def)
  ultimately show ?case
    using start(2) new_ok [of t ms off f d st] new_sync [of t ms off f d st] by (simp add: fb_inv_def)
next
  case (step s c w imm e s')
  then obtain e' s'' where "run_fb_cmd P w imm c s = Some (e', s'')" "fb_inv s''" "keeps_alpha c s \<longrightarrow> step_ok s s''"
    using run_fb_cmd_step [of s c w imm] by blast
  then show ?case using step by (auto simp: step_ok_def)
next
  case (textures s m)
  let ?s = "on_tex (\<lambda>t. t\<lparr>texture_manager := m\<rparr>) s"
  have "kept s ?s" if strict
    using textures that by (auto simp: kept_def same_shadow_def issued_state_def)
  then show ?case using textures textures_inv [of s m] in_sync_kept by blast
next
  case (other s t)
  let ?s = "s\<lparr>tex := t\<rparr>"
  have "inv t" using other by (simp add: fb_inv_def inv_def same_textures_ok)
  then have "fb_inv ?s" using other by (simp add: fb_inv_def fbo_ok_def same_textures_def)
  moreover have "kept s ?s" using other by (intro kept_tex) (auto simp: same_textures_def)
  ultimately show ?case using other in_sync_kept by blast
qed

end

section \<open>New renderbuffers are cleared\<close>

lemma set_cleared_mono:
  assumes "Attachment_set_cleared a rbs = Some rbs'" "r < length rbs" "rb_cleared_' (rbs ! r)"
  shows "length rbs' = length rbs \<and> rb_cleared_' (rbs' ! r)"
proof (cases a)
  case (RenderbufferAttachment x)
  then show ?thesis using assms by (cases "x = r") (auto simp: Renderbuffer_set_cleared_def)
qed (use assms in simp)

lemma mark_cleared_mono:
  assumes "mark_cleared as rbs = Some rbs'" "r < length rbs" "rb_cleared_' (rbs ! r)"
  shows "rb_cleared_' (rbs' ! r)"
  using assms
proof (induction as rbs rule: mark_cleared.induct)
  case (2 k a as rbs)
  show ?case
  proof (cases "Attachment_cleared rbs a")
    case True
    then show ?thesis using 2(2) [OF _ _ 2(4,5)] 2(3) by simp
  next
    case False
    then obtain rbs1 where s: "Attachment_set_cleared a rbs = Some rbs1" "mark_cleared as rbs1 = Some rbs'"
      using 2(3) by (auto split: bind_splits)
    then show ?thesis using set_cleared_mono [OF s(1) 2(4,5)] 2(1) [OF False s] 2(4) by simp
  qed
qed simp

lemma mark_cleared_all:
  assumes "mark_cleared as rbs = Some rbs'" "\<forall>e\<in>set as. attachment_ok (length rbs) nt (snd e)" "e \<in> set as"
  shows "Attachment_cleared rbs' (snd e)"
  using assms
proof (induction as rbs arbitrary: rbs' rule: mark_cleared.induct)
  case (2 k a as rbs)
  show ?case
  proof (cases "Attachment_cleared rbs a")
    case True
    then have rest: "mark_cleared as rbs = Some rbs'" using 2(3) by simp
    have "Attachment_cleared rbs' a"
      using True mark_cleared_mono [OF rest] 2(4) by (cases a) (auto simp: attachment_ok_def)
    then show ?thesis using 2(2) [OF _ rest] True 2(4,5) by auto
  next
    case False
    then obtain r where a: "a = RenderbufferAttachment r" by (cases a) auto
    let ?rbs = "rbs[r := Renderbuffer_set_cleared (rbs ! r)]"
    have rest: "mark_cleared as ?rbs = Some rbs'" using 2(3) False a by simp
    have "r < length rbs" using 2(4) a by (simp add: attachment_ok_def)
    then have "Attachment_cleared rbs' a"
      using mark_cleared_mono [OF rest, of r] a by (simp add: Renderbuffer_set_cleared_def)
    then show ?thesis using 2(1) [OF _ _ rest] False a 2(4,5) by auto
  qed
qed simp

text \<open>What the clear writes into the buffers that are new.\<close>

definition clears_new :: "nat \<Rightarrow> 'g FboDecoder \<Rightarrow> GLenum \<Rightarrow> WriteState \<Rightarrow> bool" where
  "clears_new a s bits v \<longleftrightarrow>
     (let uncleared = (\<lambda>k. HasUnclearedAttachment (rb_objs s) k (fb_objs s ! a))
      in \<not> ws_scissor v
         \<and> (uncleared GL_COLOR_ATTACHMENT0 \<longrightarrow> bits AND GL_COLOR_BUFFER_BIT \<noteq> 0
              \<and> ws_color v = (True, True, True, True)
              \<and> ws_clear_color v = (0, 0, 0, if has_alpha (fb_color_format a s) then 0 else float_one))
         \<and> (uncleared GL_STENCIL_ATTACHMENT \<or> uncleared GL_DEPTH_STENCIL_ATTACHMENT \<longrightarrow>
              bits AND GL_STENCIL_BUFFER_BIT \<noteq> 0 \<and> ws_front v = - 1 \<and> ws_clear_stencil v = 0)
         \<and> (uncleared GL_DEPTH_ATTACHMENT \<or> uncleared GL_DEPTH_STENCIL_ATTACHMENT \<longrightarrow>
              bits AND GL_DEPTH_BUFFER_BIT \<noteq> 0 \<and> ws_depth v \<and> ws_clear_depth v = float_one))"

lemma clear_calls_clear:
  "\<exists>cs bits. clear_calls a s = cs @ [glClear bits] \<and> clears_new a s bits (write_state v cs)"
proof -
  define color where "color \<longleftrightarrow> HasUnclearedAttachment (rb_objs s) GL_COLOR_ATTACHMENT0 (fb_objs s ! a)"
  define stencil where "stencil \<longleftrightarrow> HasUnclearedAttachment (rb_objs s) GL_STENCIL_ATTACHMENT (fb_objs s ! a)
    \<or> HasUnclearedAttachment (rb_objs s) GL_DEPTH_STENCIL_ATTACHMENT (fb_objs s ! a)"
  define depth where "depth \<longleftrightarrow> HasUnclearedAttachment (rb_objs s) GL_DEPTH_ATTACHMENT (fb_objs s ! a)
    \<or> HasUnclearedAttachment (rb_objs s) GL_DEPTH_STENCIL_ATTACHMENT (fb_objs s ! a)"
  let ?bits = "(if color then GL_COLOR_BUFFER_BIT else 0) OR (if stencil then GL_STENCIL_BUFFER_BIT else 0)
    OR (if depth then GL_DEPTH_BUFFER_BIT else 0)"
  let ?cs = "(if color then [glClearColor 0 0 0 (if has_alpha (fb_color_format a s) then 0 else float_one),
                         glColorMask True True True True] else [])
         @ (if stencil then [glClearStencil 0, glStencilMask (- 1)] else [])
         @ (if depth then [glClearDepth float_one, glDepthMask True] else [])
         @ [glDisable GL_SCISSOR_TEST]"
  have "clear_calls a s = ?cs @ [glClear ?bits]"
    by (simp add: clear_calls_def Let_def color_def [symmetric] stencil_def [symmetric] depth_def [symmetric])
  moreover have "clears_new a s ?bits (write_state v ?cs)"
    unfolding clears_new_def Let_def color_def [symmetric] stencil_def [symmetric] depth_def [symmetric]
    by (cases color; cases stencil; cases depth; simp add: set_capability_def)
  ultimately show ?thesis by blast
qed

text \<open>The calls of the clear as they reach the driver.\<close>

lemma ClearUncleared_calls:
  assumes "ClearUnclearedRenderbuffers P a s = Some s'"
  shows "\<exists>cs bits rest. fbo_issued s' = fbo_issued s @ cs @ [glClear bits] @ rest
      \<and> clears_new a s bits (write_state (issued_state ws s) cs)"
    "fb_objs s' = fb_objs s" "mark_cleared (attachments_' (fb_objs s ! a)) (rb_objs s) = Some (rb_objs s')"
proof -
  obtain cs bits where c: "clear_calls a s = cs @ [glClear bits]"
      "clears_new a s bits (write_state (issued_state ws s) cs)"
    using clear_calls_clear by blast
  have t: "\<exists>rest. fbo_issued (RestoreClearState P t) = fbo_issued t @ rest"
    "framebuffer_manager (RestoreClearState P t) = framebuffer_manager t"
    "renderbuffer_manager (RestoreClearState P t) = renderbuffer_manager t" for t
    by (auto simp: RestoreClearState_def set_dirty_def split_beta Let_def simp del: fb_gls_simps)
  obtain rbs where m: "mark_cleared (attachments_' (fb_objs s ! a)) (rb_objs s) = Some rbs"
      "s' = RestoreClearState P ((fb_gls P (clear_calls a s) s)\<lparr>renderbuffer_manager :=
        (renderbuffer_manager s)\<lparr>rb_objects := rbs\<rparr>\<rparr>)"
    using assms by (auto simp: ClearUnclearedRenderbuffers_def MarkAttachedRenderbuffersAsCleared_def Let_def
        split: bind_splits)
  show "\<exists>cs bits rest. fbo_issued s' = fbo_issued s @ cs @ [glClear bits] @ rest
      \<and> clears_new a s bits (write_state (issued_state ws s) cs)"
    using t(1) [of "(fb_gls P (clear_calls a s) s)\<lparr>renderbuffer_manager :=
        (renderbuffer_manager s)\<lparr>rb_objects := rbs\<rparr>\<rparr>"] c by (auto simp: m(2))
  show "fb_objs s' = fb_objs s" "mark_cleared (attachments_' (fb_objs s ! a)) (rb_objs s) = Some (rb_objs s')"
    using m(1) by (simp_all add: m(2) t)
qed

section \<open>What the commands guarantee\<close>

text \<open>C10: Every command on framebuffers, renderbuffers and write masks returns, whatever its arguments and
  whatever the shared memory holds, after any sequence of such commands and of texture commands: no handler
  follows a null pointer or reaches code marked as unreachable. Ids lead to live objects, every attachment
  refers to an existing renderbuffer or texture, and the bound objects exist, before and after. Without a
  bound renderbuffer, multisampled storage is covered when the driver refuses it, as GL demands; the code does
  not test it itself.\<close>

theorem framebuffer_commands_safe:
  assumes "fbo_api T pending_errors okd P" "fb_reachable T okd P False s"
  shows "fbo_ok s \<and> (\<forall>w imm c. fb_cmd_ok P c s \<longrightarrow>
    (\<exists>e s'. run_fb_cmd P (w :: decoder_world) imm c s = Some (e, s') \<and> fbo_ok s'))"
proof -
  have s: "fbo_api.fb_inv okd s" using fbo_api.reachable_inv_sync [OF assms] ..
  show ?thesis
    using s fbo_api.run_fb_cmd_step [OF assms(1) s] unfolding fbo_api.fb_inv_def [OF assms(1)] by blast
qed

text \<open>C20: When a clear of the client reaches the driver, the driver's write masks, depth and stencil tests,
  scissor test and clear values are the ones the client set last, with the parts masked that the bound
  framebuffer does not have: no alpha written to a color buffer without alpha, no depth or stencil without such
  an attachment. The deferred calls are issued just before the clear. Steps are left out that change the alpha
  channel of the bound framebuffer without making the state dirty.\<close>

theorem clear_writes_as_asked:
  assumes "fbo_api T pending_errors okd P" "fb_reachable T okd P True s"
    and "Fbo_CheckFramebufferComplete ''glClear'' s = (True, s)"
  shows "\<exists>cs. fbo_issued (snd (HandleClear P bits s)) = fbo_issued s @ cs @ [glClear bits]
    \<and> write_state gl_initial (fbo_issued s @ cs) = wanted s"
proof -
  have sync: "in_sync gl_initial s" using fbo_api.reachable_inv_sync [OF assms(1,2)] by simp
  have "\<exists>cs. fbo_issued (ApplyDirtyState P s) = fbo_issued s @ cs" by (simp add: ApplyDirtyState_def)
  then show ?thesis
    using ApplyDirtyState_sync(1) [OF sync, of P] assms(3)
    by (auto simp: HandleClear_def DoClear_def issued_state_def)
qed

text \<open>C21: A new renderbuffer is cleared before the client can see what the memory held. When a framebuffer has
  become complete, one clear is issued that covers every color, depth and stencil attachment not yet cleared,
  with the scissor test off, the write masks of those buffers open, and the clear values 0, 1 for depth, and
  opaque where the color buffer has no alpha. Afterwards no attachment counts as uncleared, and the driver's
  clear values and scissor test are again the client's.\<close>

theorem new_renderbuffers_cleared:
  assumes "fbo_ok s" "a < length (fb_objs s)"
  shows "\<exists>s' cs bits rest. ClearUnclearedRenderbuffers P a s = Some s'
    \<and> fbo_issued s' = fbo_issued s @ cs @ [glClear bits] @ rest
    \<and> clears_new a s bits (write_state ws (fbo_issued s @ cs))
    \<and> same_clears (write_state ws (fbo_issued s')) (wanted s')
    \<and> (\<forall>k. \<not> HasUnclearedAttachment (rb_objs s') k (fb_objs s' ! a))"
proof -
  obtain s' where s': "ClearUnclearedRenderbuffers P a s = Some s'"
    using mark_cleared_some [of "attachments_' (fb_objs s ! a)" "rb_objs s"]
    by (auto simp: ClearUnclearedRenderbuffers_def MarkAttachedRenderbuffersAsCleared_def Let_def)
  note calls = ClearUncleared_calls [OF s']
  have "\<forall>e\<in>set (attachments_' (fb_objs s ! a)). attachment_ok (length (rb_objs s)) (length (tex_objs s)) (snd e)"
    using assms nth_mem [OF assms(2)] unfolding fbo_ok_def framebuffer_ok_def by blast
  then have "Attachment_cleared (rb_objs s') x" if "map_of (attachments_' (fb_objs s ! a)) k = Some x" for k x
    using mark_cleared_all [OF calls(3)] map_of_SomeD [OF that] by fastforce
  then have "\<not> HasUnclearedAttachment (rb_objs s') k (fb_objs s' ! a)" for k
    by (simp add: HasUnclearedAttachment_def calls(2) split: option.split)
  moreover have "same_clears (write_state ws (fbo_issued s')) (wanted s')"
    using ClearUncleared_sync [OF s', of ws] by (simp add: in_sync_def issued_state_def)
  ultimately show ?thesis using s' calls(1) [of ws] by (fastforce simp: issued_state_def)
qed

section \<open>A sample driver\<close>

definition sample_names :: "nat \<Rightarrow> GLuint list" where
  "sample_names n = map (\<lambda>i. word_of_nat (Suc (i mod 255))) [0 ..< n]"

definition sample_fbo_api :: "GLenum list FboApi" where
  "sample_fbo_api = \<lparr>f_get_error = queue_get_error, f_call = (\<lambda>c d. d),
     f_gen_framebuffers = (\<lambda>n d. (sample_names n, d)), f_gen_renderbuffers = (\<lambda>n d. (sample_names n, d)),
     f_check_status = (\<lambda>target d. (GL_FRAMEBUFFER_COMPLETE, d)), f_is_egl_gles2 = False, f_is_angle = False,
     f_backing_framebuffer = 0, f_surface_size = (64, 64)\<rparr>"

lemma sample_names_ok: "length (sample_names n) = n" "0 \<notin> set (sample_names n)"
proof -
  have "(word_of_nat (Suc (i mod 255)) :: GLuint) \<noteq> 0" for i
  proof -
    have "i mod 255 < 255" by simp
    then have "unat (word_of_nat (Suc (i mod 255)) :: GLuint) = Suc (i mod 255)"
      by (simp add: unsigned_of_nat take_bit_nat_eq_self del: of_nat_Suc)
    then show ?thesis by (metis nat.distinct(1) unat_0)
  qed
  then show "length (sample_names n) = n" "0 \<notin> set (sample_names n)" by (auto simp: sample_names_def)
qed

interpretation sample_fbo: fbo_api sample_tex_api "\<lambda>q. q" queue_ok sample_fbo_api
  by unfold_locales (simp_all add: sample_fbo_api_def sample_tex_api_def sample_names_ok)

lemma sample_fbo_reachable:
  obtains t where "fb_reachable sample_tex_api queue_ok sample_fbo_api strict
      (FboDecoder_new t 64 None GL_RGB True False)" "driver t = []" "texture_features t = sample_features"
proof -
  obtain t where t: "tex_decoder_reachable sample_tex_api queue_ok t" "driver t = []" "texture_features t = sample_features"
    by (rule sample_reachable)
  have "tex_decoder_reachable sample_tex_api queue_ok (t\<lparr>state_dirty_' := True\<rparr>)"
    by (rule tex_decoder_reachable.other [OF t(1)]) (simp_all add: same_textures_def t(2) queue_ok_def)
  then show thesis
    by (intro that [of "t\<lparr>state_dirty_' := True\<rparr>"] fb_reachable.start) (simp_all add: t)
qed

theorem framebuffer_commands_safe_witness:
  "\<exists>s. fbo_ok s \<and> (\<exists>e s'. run_fb_cmd sample_fbo_api sample_service [] (BindFramebuffer GL_FRAMEBUFFER 5) s = Some (e, s')
     \<and> fbo_ok s')"
proof -
  obtain t where "fb_reachable sample_tex_api queue_ok sample_fbo_api False (FboDecoder_new t 64 None GL_RGB True False)"
    by (rule sample_fbo_reachable)
  note safe = framebuffer_commands_safe [OF sample_fbo.fbo_api_axioms this]
  have "fbo_ok (FboDecoder_new t 64 None GL_RGB True False)"
    "\<exists>e s'. run_fb_cmd sample_fbo_api sample_service [] (BindFramebuffer GL_FRAMEBUFFER 5)
       (FboDecoder_new t 64 None GL_RGB True False) = Some (e, s') \<and> fbo_ok s'"
    using safe [THEN conjunct1] safe [THEN conjunct2, rule_format, of "BindFramebuffer GL_FRAMEBUFFER 5" sample_service "[]"]
    by (simp_all del: run_fb_cmd.simps)
  then show ?thesis by blast
qed

text \<open>The client masks red; the surface has no alpha.\<close>

theorem clear_writes_as_asked_witness:
  "\<exists>s cs. mask_color_' s = (False, True, True, True)
     \<and> fbo_issued (snd (HandleClear sample_fbo_api GL_COLOR_BUFFER_BIT s)) = fbo_issued s @ cs @ [glClear GL_COLOR_BUFFER_BIT]
     \<and> ws_color (write_state gl_initial (fbo_issued s @ cs)) = (False, True, True, False)"
proof -
  obtain t where t: "fb_reachable sample_tex_api queue_ok sample_fbo_api True (FboDecoder_new t 64 None GL_RGB True False)"
    by (rule sample_fbo_reachable)
  let ?s = "DoColorMask False True True True (FboDecoder_new t 64 None GL_RGB True False)"
  have r: "fb_reachable sample_tex_api queue_ok sample_fbo_api True ?s"
    by (rule fb_reachable.step [OF t, where c = "ColorMask False True True True" and w = sample_service and imm = "[]"
          and e = kNoError]) (simp_all add: HandleColorMask_def)
  have s: "bound_draw_framebuffer_' ?s = None" "mask_color_' ?s = (False, True, True, True)"
    "offscreen_target_' ?s = None" "back_buffer_color_format_' ?s = GL_RGB"
    by (simp_all add: DoColorMask_def set_dirty_def FboDecoder_new_def)
  then have "Fbo_CheckFramebufferComplete ''glClear'' ?s = (True, ?s)"
    by (simp add: Fbo_CheckFramebufferComplete_def)
  from clear_writes_as_asked [OF sample_fbo.fbo_api_axioms r this, of GL_COLOR_BUFFER_BIT]
  obtain cs where cs: "fbo_issued (snd (HandleClear sample_fbo_api GL_COLOR_BUFFER_BIT ?s))
      = fbo_issued ?s @ cs @ [glClear GL_COLOR_BUFFER_BIT]"
      "write_state gl_initial (fbo_issued ?s @ cs) = wanted ?s" by blast
  have "ws_color (wanted ?s) = (False, True, True, False)"
    using s by (simp add: wanted_def bound_defs has_alpha_def GetChannelsForFormat_def Let_def)
  then show ?thesis using s(2) cs by metis
qed

text \<open>A framebuffer with one color renderbuffer.\<close>

definition sample_attached :: "GLenum list FboDecoder" where
  "sample_attached =
     (FboDecoder_new (sample_textures (TextureManager_new 64 64)) 64 None GL_RGB True False)
       \<lparr>renderbuffer_manager := CreateRenderbufferInfo 1 1 (RenderbufferManager_new 64),
        framebuffer_manager := \<lparr>framebuffer_infos_' = [(1, 0)], fb_objects =
          [AttachRenderbuffer GL_COLOR_ATTACHMENT0 (Some 0) (FramebufferInfo_new 1)]\<rparr>\<rparr>"

theorem new_renderbuffers_cleared_witness:
  "HasUnclearedAttachment (rb_objs sample_attached) GL_COLOR_ATTACHMENT0 (fb_objs sample_attached ! 0)
   \<and> (\<exists>s' cs bits rest. ClearUnclearedRenderbuffers sample_fbo_api 0 sample_attached = Some s'
       \<and> fbo_issued s' = cs @ [glClear bits] @ rest \<and> bits AND GL_COLOR_BUFFER_BIT \<noteq> 0
       \<and> ws_color (write_state gl_initial cs) = (True, True, True, True)
       \<and> \<not> HasUnclearedAttachment (rb_objs s') GL_COLOR_ATTACHMENT0 (fb_objs s' ! 0))"
proof -
  have ok: "fbo_ok sample_attached" "0 < length (fb_objs sample_attached)" "fbo_issued sample_attached = []"
    by (simp_all add: sample_attached_def fbo_ok_def entries_ok_def FboDecoder_new_def CreateRenderbufferInfo_def
        RenderbufferManager_new_def RenderbufferInfo_new_def FramebufferInfo_new_def AttachRenderbuffer_def insert_entry_def
        Renderbuffer_IsDeleted_def Framebuffer_IsDeleted_def framebuffer_ok_def attachment_ok_def)
  have new: "HasUnclearedAttachment (rb_objs sample_attached) GL_COLOR_ATTACHMENT0 (fb_objs sample_attached ! 0)"
    by (simp add: sample_attached_def HasUnclearedAttachment_def CreateRenderbufferInfo_def RenderbufferManager_new_def
        RenderbufferInfo_new_def FramebufferInfo_new_def AttachRenderbuffer_def)
  obtain s' cs bits rest where "ClearUnclearedRenderbuffers sample_fbo_api 0 sample_attached = Some s'"
      "fbo_issued s' = cs @ [glClear bits] @ rest" "clears_new 0 sample_attached bits (write_state gl_initial cs)"
      "\<not> HasUnclearedAttachment (rb_objs s') GL_COLOR_ATTACHMENT0 (fb_objs s' ! 0)"
    using new_renderbuffers_cleared [OF ok(1,2), of sample_fbo_api gl_initial] unfolding ok(3) append_Nil by blast
  then show ?thesis using new unfolding clears_new_def Let_def by blast
qed

end
