(* ===== verification/Spec2Isabelle.thy ===== *)
theory Spec2Isabelle
  imports Id_Allocator Client_Allocators Client_Service Decoder_Invariant Texture_Draw Read_Pixels_Image Framebuffer_Reachable
begin

text \<open>
  \<^bold>\<open>The GPU command buffer of Chromium\<close> (\<^verbatim>\<open>src/gpu/command_buffer\<close>).

  A client process (a renderer or plug-in) that may be hostile writes OpenGL ES commands into a ring
  buffer in shared memory; a service in the GPU process parses them, checks every argument and calls
  the driver. The client is \<^verbatim>\<open>client/\<close>, the service is \<^verbatim>\<open>service/\<close>, and \<^verbatim>\<open>common/\<close> is shared.

  \<^bold>\<open>Parts and theories.\<close>

  \<^item> \<open>Prelude\<close>: unsigned and signed 32-bit arithmetic on \<open>nat\<close> and \<open>int\<close> with the wrap-around written
    out, vector operations, the error enumerations of \<^verbatim>\<open>common/constants.h\<close>.
  \<^item> \<open>Cmd_Buffer_Common\<close>: command headers, bit fields and ring entries (\<^verbatim>\<open>common/cmd_buffer_common.h\<close>,
    \<^verbatim>\<open>bitfield_helpers.h\<close>), and the round trip of a stream of commands.
  \<^item> \<open>Command_Buffer_Service\<close>: \<^verbatim>\<open>CommandBufferService\<close>, its get and put offsets, token, error and
    table of transfer buffers, which refines a finite map.
  \<^item> \<open>Cmd_Parser\<close>, \<open>Gpu_Scheduler\<close>, \<open>Common_Decoder\<close>: the parser, the scheduler's reaction to a moved
    put offset, and the commands every decoder has (tokens, jumps, calls, buckets), with their
    memory safety and order of execution.
  \<^item> \<open>Token_Interface\<close>, \<open>Fenced_Allocator\<close>, \<open>Ring_Buffer\<close>, \<open>Mapped_Memory\<close>: the client's allocators
    over an interface of tokens, a locale.
  \<^item> \<open>Cmd_Buffer_Helper\<close>, \<open>Helper_Contract\<close>, \<open>Client_Service\<close>, \<open>Client_Allocators\<close>: the client's
    helper, the contract it needs of a command buffer (a locale), the interpretation of the contract
    on the modelled service, and the allocators run against that service.
  \<^item> \<open>Id_Allocator\<close>: \<^verbatim>\<open>IdAllocator\<close>, the client's id handlers, and the shared-id commands.
  \<^item> \<open>Gl_Enums\<close>, \<open>Gles2_Cmd_Utils\<close>, \<open>Gl_Errors\<close>: GL constants, checked arithmetic and image sizes,
    and the error wrapper of the decoder and of the client (\<^verbatim>\<open>GetGLError\<close>, \<^verbatim>\<open>SetGLError\<close>).
  \<^item> \<open>Buffer_Manager\<close>, \<open>Vertex_Attrib_Manager\<close>: buffer objects with their shadow copies and cached
    index maxima, and the vertex attributes.
  \<^item> \<open>Buffer_Commands\<close>, \<open>Draw_Calls\<close>, \<open>Decoder_Invariant\<close>: the part of \<^verbatim>\<open>GLES2DecoderImpl\<close> that
    handles buffers, attributes and draw calls, and its invariant over all reachable states.
  \<^item> \<open>Gles2_Validation\<close>, \<open>Feature_Info\<close>: the value validators and the feature set.
  \<^item> \<open>Texture_Manager\<close>, \<open>Texture_Completeness\<close>, \<open>Texture_Invariant\<close>, \<open>Texture_Steps\<close>: the texture
    manager (\<^verbatim>\<open>TextureManager\<close>); the cached flags against the rules of GLES2 on the levels; the invariant
    of each operation; all sequences of operations.
  \<^item> \<open>Texture_Commands\<close>, \<open>Texture_Decoder\<close>, \<open>Texture_Safety\<close>: the texture commands of
    \<^verbatim>\<open>GLES2DecoderImpl\<close> (names, binding, parameters, mipmaps, images, compressed images, copies, stream
    textures), what each does to the decoder's state, and all sequences of them.
  \<^item> \<open>Texture_Uploads\<close>, \<open>Texture_Draw\<close>: what reaches GL for an upload or a copy, and the black textures
    that replace unrenderable ones during a draw call.
  \<^item> \<open>Read_Pixels\<close>, \<open>Read_Pixels_Image\<close>: \<^verbatim>\<open>HandleReadPixels\<close>: where it writes, and which image it leaves.
  \<^item> \<open>Framebuffer_Manager\<close>, \<open>Framebuffer_Commands\<close>: framebuffers and renderbuffers with their managers,
    and the commands on them, on write masks, clear values and capabilities; \<open>Framebuffer_State\<close>,
    \<open>Framebuffer_Safety\<close>, \<open>Framebuffer_Reachable\<close>: the driver's write state that follows from the calls
    issued, the steps of each command, and all sequences of them.

  \<^bold>\<open>What is proved.\<close> The allocators keep their blocks disjoint and covering, and hand out memory again
  only after the service has passed the token that frees it. The service executes pending commands that
  do not move the get offset, each once, in order; \<^verbatim>\<open>Finish\<close> returns when all are done. No common command
  writes outside the buffers the client registered, and none depends on what lies outside them. From any
  reachable state of the decoder, buffer, attribute, draw, texture and framebuffer commands return and
  keep their invariants; a draw call covers the vertices it fetches; uploads hand GL exactly the bytes the
  client names; reads and copies leave exactly the pixels there are. The texture flags agree with the
  levels, and deferred masks and clear values reach the driver before a clear.

  Where the code departs from its promise, a hypothesis names the case that is left out, or a theorem states
  what happens instead: vertices of overlapping stride, \<^verbatim>\<open>GL_FIXED\<close> attributes, space after a parse error, a
  put offset at the end of the ring buffer, commands outside the common table, transfer buffer 0, repeated
  texture ids, compressed images of negative size without data, stream textures, the count of
  unrenderable textures with an external default texture, renderability and mipmaps of textures that do
  not meet the rules of GLES2, source rectangles that wrap around, reads without an alpha channel, and a
  change of the alpha channel that does not make the state dirty.

  \<^bold>\<open>Conventions.\<close> State is passed explicitly, in records with the members of the C++ classes: a
  member \<^verbatim>\<open>x_\<close> is the field \<open>x_'\<close>. Objects shared by reference live in a list, and a pointer is an
  index. \<^const>\<open>None\<close> as the result of an operation means undefined behaviour or no return; the safety
  theorems show that it does not arise. The operating system, the driver and the parts of the decoder
  that are not modelled are parameters.

  \<^bold>\<open>Bounds.\<close> The loops of the client that wait for the service are \<open>partial_function (option)\<close>; that they
  return is proved against the modelled service. The parser loop stops at put; a jump may repeat it for
  ever, so its termination is stated for streams without jumps.

  \<^bold>\<open>Not modelled.\<close> The program and shader managers and the translator, whose data comes from the driver
  and from the ANGLE compiler: a draw call takes the locations and samplers of the current program as
  given. The state queries, the resizing of the off-screen target, and the commands that only pass their
  checked arguments on to the driver; the generated command structures and client stubs; the
  inter-process transport; the rest of the browser. Weak memory and real concurrency between client and
  service are not modelled: the service runs inside the client's calls, as \<^verbatim>\<open>FlushSync\<close> does.
\<close>

end
